(* ===== verification/Prelude.thy ===== *)
theory Prelude
  imports Main "HOL-Library.Word"
begin

text \<open>
  Shared vocabulary of the development: the machine integers of the Go sources, byte
  slices, the little- and big-endian encodings of \<^verbatim>\<open>encoding/binary\<close>, powers of two
  as the queue code tests for them, and the generic lemmas about lists and words that the
  component theories use. Nothing here models a file of the repository; it models the part
  of the Go language and standard library that the components share.
\<close>

unbundle bit_operations_syntax

subsection \<open>Types\<close>

type_synonym byte = "8 word"
type_synonym u16 = "16 word"
type_synonym u32 = "32 word"
type_synonym u64 = "64 word"
type_synonym bytes = "byte list"

named_theorems codec "lengths and inversions of the byte encodings"
named_theorems byte_eval "rules that evaluate encodings on concrete values"

subsection \<open>Slices\<close>

text \<open>
  \<^verbatim>\<open>xs[a:b]\<close>. Go panics when \<^verbatim>\<open>b\<close> exceeds the capacity; every use in the development
  stands behind the length test that the source makes, or the model writes the panic out.
\<close>

definition gslice :: "nat \<Rightarrow> nat \<Rightarrow> 'a list \<Rightarrow> 'a list" where
  "gslice a b xs = take (b - a) (drop a xs)"

lemma length_gslice [simp]: "length (gslice a b xs) = min (b - a) (length xs - a)"
  by (simp add: gslice_def min.commute)

lemma gslice_append_left: "b \<le> length xs \<Longrightarrow> gslice a b (xs @ ys) = gslice a b xs"
  by (cases "a \<le> b") (auto simp: gslice_def)

lemma gslice_append_right:
  "length xs \<le> a \<Longrightarrow> gslice a b (xs @ ys) = gslice (a - length xs) (b - length xs) ys"
  by (cases "length xs \<le> b") (auto simp: gslice_def)

lemma gslice_all: "length xs = n \<Longrightarrow> gslice 0 n xs = xs"
  by (simp add: gslice_def)

lemma gslice_split:
  "a \<le> b \<Longrightarrow> b \<le> c \<Longrightarrow> gslice a b xs @ gslice b c xs = gslice a c xs"
proof -
  assume ab: "a \<le> b" and bc: "b \<le> c"
  have "take (c - a) (drop a xs) = take (b - a) (drop a xs) @ take (c - b) (drop (b - a) (drop a xs))"
    using ab bc by (metis add.commute diff_add_assoc2 le_add_diff_inverse2 take_add)
  then show ?thesis using ab by (simp add: gslice_def)
qed

text \<open>\<^verbatim>\<open>copy(dst[off:], src)\<close> where the destination is long enough.\<close>

definition gcopy :: "nat \<Rightarrow> 'a list \<Rightarrow> 'a list \<Rightarrow> 'a list" where
  "gcopy off src dst = take off dst @ src @ drop (off + length src) dst"

lemma length_gcopy [simp]:
  "off + length src \<le> length dst \<Longrightarrow> length (gcopy off src dst) = length dst"
  by (simp add: gcopy_def)

lemma gslice_gcopy_same:
  "off + length src \<le> length dst \<Longrightarrow> gslice off (off + length src) (gcopy off src dst) = src"
  by (simp add: gcopy_def gslice_def)

lemma nth_gcopy:
  "off + length src \<le> length dst \<Longrightarrow> i < length dst \<Longrightarrow>
   gcopy off src dst ! i =
     (if off \<le> i \<and> i < off + length src then src ! (i - off) else dst ! i)"
  by (auto simp: gcopy_def nth_append min_def)

lemma gslice_gcopy_before:
  "b \<le> off \<Longrightarrow> off \<le> length dst \<Longrightarrow> gslice a b (gcopy off src dst) = gslice a b dst"
  by (cases "a \<le> b") (auto simp: gcopy_def gslice_def min_def drop_take)

lemma gslice_gcopy_after:
  "off + length src \<le> a \<Longrightarrow> off + length src \<le> length dst \<Longrightarrow>
   gslice a b (gcopy off src dst) = gslice a b dst"
  by (simp add: gcopy_def gslice_def)

text \<open>
  Writing \<open>src\<close> at offset \<open>off\<close> of a file that grows as needed, with zeros in a gap
  (\<^verbatim>\<open>WriteAt\<close> of Go's \<^verbatim>\<open>os.File\<close>).
\<close>

definition overlay :: "nat \<Rightarrow> bytes \<Rightarrow> bytes \<Rightarrow> bytes" where
  "overlay off src dst = take off (dst @ replicate (off - length dst) 0) @ src @ drop (off + length src) dst"

lemma length_overlay [simp]: "length (overlay off src dst) = max (length dst) (off + length src)"
  by (auto simp: overlay_def max_def)

lemma overlay_inside: "off + length src \<le> length dst \<Longrightarrow> overlay off src dst = gcopy off src dst"
  by (simp add: overlay_def gcopy_def)

lemma nth_overlay:
  "i < max (length dst) (off + length src) \<Longrightarrow>
   overlay off src dst ! i =
     (if off \<le> i \<and> i < off + length src then src ! (i - off)
      else if i < length dst then dst ! i else 0)"
  by (auto simp: overlay_def nth_append min_def)

lemma gslice_overlay_same: "gslice off (off + length src) (overlay off src dst) = src"
  by (auto intro!: nth_equalityI simp: gslice_def nth_overlay)

lemma gslice_overlay_before:
  "b \<le> off \<Longrightarrow> b \<le> length dst \<Longrightarrow> gslice a b (overlay off src dst) = gslice a b dst"
  by (auto intro!: nth_equalityI simp: gslice_def nth_overlay)

lemma gslice_overlay_after:
  "off + length src \<le> a \<Longrightarrow> gslice a b (overlay off src dst) = gslice a b dst"
  by (auto intro!: nth_equalityI simp: gslice_def nth_overlay)

lemma overlay_overlay:
  "overlay (off + length s) t (overlay off s dst) = overlay off (s @ t) dst"
  by (rule nth_equalityI) (auto simp: nth_overlay nth_append)

text \<open>Go's \<^verbatim>\<open>int64\<close> arithmetic wraps.\<close>

definition int64 :: "int \<Rightarrow> int" where
  "int64 n = signed_take_bit 63 n"

lemma int64_id: "- (2 ^ 63) \<le> n \<Longrightarrow> n < 2 ^ 63 \<Longrightarrow> int64 n = n"
  by (simp add: int64_def signed_take_bit_int_eq_self)

subsection \<open>Little- and big-endian integers\<close>

primrec put_le :: "nat \<Rightarrow> 'a::len word \<Rightarrow> bytes" where
  "put_le 0 w = []"
| "put_le (Suc n) w = ucast w # put_le n (drop_bit 8 w)"

primrec get_le :: "bytes \<Rightarrow> 'a::len word" where
  "get_le [] = 0"
| "get_le (b # bs) = ucast b OR push_bit 8 (get_le bs)"

definition put_be :: "nat \<Rightarrow> 'a::len word \<Rightarrow> bytes" where
  "put_be n w = rev (put_le n w)"

definition get_be :: "bytes \<Rightarrow> 'a::len word" where
  "get_be bs = get_le (rev bs)"

lemma put_le_numeral [byte_eval]:
  "put_le (numeral k) w = ucast w # put_le (pred_numeral k) (drop_bit 8 w)"
  by (simp add: numeral_eq_Suc)

lemma length_put_le [simp, codec]: "length (put_le n w) = n"
  by (induction n arbitrary: w) auto

lemma length_put_be [simp, codec]: "length (put_be n w) = n"
  by (simp add: put_be_def)

lemma get_put_le_take_bit: "get_le (put_le n w) = take_bit (8 * n) w"
proof (induction n arbitrary: w)
  case 0
  show ?case by simp
next
  case (Suc n)
  have "ucast (ucast w :: byte) OR push_bit 8 (take_bit (8 * n) (drop_bit 8 w)) = take_bit (8 * Suc n) w"
    by (rule bit_word_eqI)
       (auto simp: bit_or_iff bit_push_bit_iff bit_take_bit_iff bit_drop_bit_eq bit_ucast_iff
         dest: bit_imp_le_length)
  with Suc show ?case by simp
qed

lemma get_put_le [codec]: "LENGTH('a) \<le> 8 * n \<Longrightarrow> get_le (put_le n (w :: 'a::len word)) = w"
  by (simp add: get_put_le_take_bit take_bit_word_eq_self)

lemma get_put_be [codec]: "LENGTH('a) \<le> 8 * n \<Longrightarrow> get_be (put_be n (w :: 'a::len word)) = w"
  by (simp add: get_be_def put_be_def get_put_le)

lemma get_put_le_16 [simp]: "get_le (put_le 2 (w :: u16)) = w"
  and get_put_le_32 [simp]: "get_le (put_le 4 (x :: u32)) = x"
  and get_put_le_64 [simp]: "get_le (put_le 8 (y :: u64)) = y"
  by (simp_all add: get_put_le)

lemma get_put_be_16 [simp]: "get_be (put_be 2 (w :: u16)) = w"
  and get_put_be_32 [simp]: "get_be (put_be 4 (x :: u32)) = x"
  and get_put_be_64 [simp]: "get_be (put_be 8 (y :: u64)) = y"
  by (simp_all add: get_put_be)

lemma bit_get_le_bound: "bit (get_le bs :: 'a::len word) i \<Longrightarrow> i < 8 * length bs"
proof (induction bs arbitrary: i)
  case (Cons b bs)
  show ?case
  proof (cases "i < 8")
    case False
    with Cons.prems have "bit (get_le bs :: 'a word) (i - 8)"
      by (auto simp: bit_or_iff bit_push_bit_iff bit_ucast_iff dest: bit_imp_le_length)
    from Cons.IH [OF this] False show ?thesis by simp
  qed simp
qed simp

lemma put_get_le:
  "8 * length bs \<le> LENGTH('a) \<Longrightarrow> put_le (length bs) (get_le bs :: 'a::len word) = bs"
proof (induction bs)
  case (Cons b bs)
  let ?x = "get_le bs :: 'a word"
  have len: "8 + 8 * length bs \<le> LENGTH('a)" using Cons.prems by simp
  have "ucast (ucast b OR push_bit 8 ?x) = b"
    by (rule bit_word_eqI)
       (use len in \<open>auto simp: bit_or_iff bit_push_bit_iff bit_ucast_iff\<close>)
  moreover have "drop_bit 8 (ucast b OR push_bit 8 ?x) = ?x"
  proof (rule bit_word_eqI)
    fix i assume "i < LENGTH('a)"
    show "bit (drop_bit 8 (ucast b OR push_bit 8 ?x)) i = bit ?x i"
      using len bit_get_le_bound [of bs i, where 'a = 'a]
      by (auto simp: bit_drop_bit_eq bit_or_iff bit_push_bit_iff bit_ucast_iff
          dest: bit_imp_le_length)
  qed
  ultimately show ?case using Cons by simp
qed simp

lemma put_get_le_16 [simp]: "length bs = 2 \<Longrightarrow> put_le 2 (get_le bs :: u16) = bs"
  and put_get_le_32 [simp]: "length bs = 4 \<Longrightarrow> put_le 4 (get_le bs :: u32) = bs"
  and put_get_le_64 [simp]: "length bs = 8 \<Longrightarrow> put_le 8 (get_le bs :: u64) = bs"
  using put_get_le [of bs, where 'a = 16] put_get_le [of bs, where 'a = 32]
    put_get_le [of bs, where 'a = 64] by simp_all

subsection \<open>Powers of two\<close>

lemma word_pow2_test:
  assumes "(n :: 'a::len word) AND (n - 1) = 0" and "n \<noteq> 0"
  obtains k where "k < LENGTH('a)" and "n = 2 ^ k"
proof -
  have "\<exists>k. bit n k" using assms(2) by (metis bit_eqI bit_0_eq bot_apply bot_bool_def)
  then obtain k where k: "bit n k" and least: "\<And>j. j < k \<Longrightarrow> \<not> bit n j"
    using exists_least_iff [of "bit n"] by auto
  have kl: "k < LENGTH('a)" using k by (rule bit_imp_le_length)
  define hi where "hi = n AND NOT (mask (Suc k))"
  have bhi: "bit hi i \<longleftrightarrow> i < LENGTH('a) \<and> Suc k \<le> i \<and> bit n i" for i
    by (auto simp: hi_def bit_and_iff bit_not_iff bit_mask_iff not_less simp del: mask_Suc_exp
        dest: bit_imp_le_length)
  have split: "n = hi OR 2 ^ k"
  proof (rule bit_word_eqI)
    fix i assume "i < LENGTH('a)"
    then show "bit n i = bit (hi OR 2 ^ k) i"
      using k least [of i]
      by (cases i k rule: linorder_cases) (auto simp: bit_or_iff bhi bit_exp_iff Suc_le_eq)
  qed
  have "hi AND 2 ^ k = 0"
    by (rule bit_word_eqI) (auto simp: bit_and_iff bhi bit_exp_iff)
  then have nsum: "n = hi + 2 ^ k" using split by (metis disjunctive_add_eq_or)
  have "hi AND mask k = 0"
    by (rule bit_word_eqI) (auto simp: bit_and_iff bhi bit_mask_iff)
  moreover have "n - 1 = hi + mask k"
    by (simp add: nsum mask_eq_decr_exp algebra_simps)
  ultimately have pred: "n - 1 = hi OR mask k" by (metis disjunctive_add_eq_or)
  have "hi = 0"
  proof (rule bit_word_eqI)
    fix i assume "i < LENGTH('a)"
    have "\<not> bit (n AND (n - 1)) i" using assms(1) by simp
    then show "bit hi i = bit 0 i" by (auto simp: bit_and_iff pred bit_or_iff bhi)
  qed
  then have "n = 2 ^ k" using nsum by simp
  with kl show thesis by (rule that)
qed

lemma unat_pow2: "k < LENGTH('a) \<Longrightarrow> unat (2 ^ k :: 'a::len word) = 2 ^ k"
  by (transfer, simp add: take_bit_eq_mod nat_power_eq)

subsection \<open>Words as bounded numbers\<close>

lemma unat_Suc_word: "(w :: 'a::len word) \<noteq> - 1 \<Longrightarrow> unat (w + 1) = Suc (unat w)"
  by (metis Suc_eq_plus1 add.commute add_uminus_conv_diff diff_0 eq_iff_diff_eq_0 unatSuc)

lemma unat_diff_Suc:
  "(a :: 'a::len word) \<noteq> b \<Longrightarrow> unat (a - b) = Suc (unat (a - (b + 1)))"
proof -
  assume "a \<noteq> b"
  then have nz: "a - b \<noteq> 0" by simp
  have "a - (b + 1) = (a - b) - 1" by simp
  then have "unat (a - (b + 1)) = unat (a - b) - 1" by (simp only: unat_minus_one [OF nz])
  moreover have "0 < unat (a - b)" using nz by (simp add: unat_gt_0)
  ultimately show ?thesis by simp
qed

lemma mod_add_inj_nat:
  assumes "(a + i) mod n = (a + j) mod n" and "i < n" and "j < (n :: nat)"
  shows "i = j"
proof -
  have *: "i' = j'" if "(a + i') mod n = (a + j') mod n" "i' \<le> j'" "j' < n" for i' j'
  proof -
    have "n dvd (a + j') - (a + i')" using that by (metis mod_eq_dvd_iff_nat add_left_mono)
    then have "n dvd j' - i'" by simp
    then show ?thesis using that by (auto dest: dvd_imp_le)
  qed
  show ?thesis using * [of i j] * [of j i] assms by (metis nat_le_linear)
qed

lemma sint_small: "unat (x :: u64) < 2 ^ 63 \<Longrightarrow> sint x = int (unat x)"
proof -
  assume "unat x < 2 ^ 63"
  then have "int (unat x) < int (2 ^ 63)" by (simp only: of_nat_less_iff)
  also have "int (2 ^ 63) = 2 ^ 63" by simp
  finally have less: "uint x < 2 ^ 63" unfolding uint_nat .
  have "sint x = signed_take_bit (LENGTH(64) - Suc 0) (uint x)" by (rule sint_uint)
  also have "\<dots> = uint x" by (rule signed_take_bit_int_eq_self, rule order_trans [OF _ unsigned_greater_eq]) (use less in simp_all)
  finally show ?thesis unfolding uint_nat .
qed

lemma sint_nonneg: "0 \<le> sint (x :: u64) \<Longrightarrow> unat x < 2 ^ 63"
proof (rule ccontr)
  assume nn: "0 \<le> sint x" and "\<not> unat x < 2 ^ 63"
  then have "int (2 ^ 63) \<le> int (unat x)" by (simp only: of_nat_le_iff not_less)
  then have lo: "2 ^ 63 \<le> uint x" unfolding uint_nat by simp
  have hi: "uint x < 2 ^ 64" using unsigned_less [of x, where 'a = int] by simp
  have "uint x div 2 ^ 63 = 1"
    by (rule int_div_pos_eq [of _ _ _ "uint x - 2 ^ 63"]) (use lo hi in simp_all)
  then have "bit (uint x) 63" by (simp add: bit_iff_odd)
  moreover have "sint x = signed_take_bit (LENGTH(64) - Suc 0) (uint x)" by (rule sint_uint)
  ultimately show False using nn by simp
qed

lemma unat_less_64: "unat (x :: u64) < 2 ^ 64"
  using unsigned_less [of x] by simp

lemma unat_mult_small: "unat (x :: u64) * unat y < 2 ^ 64 \<Longrightarrow> unat (x * y) = unat x * unat y"
  by (simp add: unat_word_ariths)

lemma unat_plus_small: "unat (x :: u64) + unat y < 2 ^ 64 \<Longrightarrow> unat (x + y) = unat x + unat y"
  by (simp add: unat_word_ariths)

lemma unat_minus_small: "y \<le> x \<Longrightarrow> unat (x - y :: u64) = unat x - unat y"
  by (simp add: unat_sub word_le_nat_alt)

subsection \<open>Lists\<close>

lemma list_update_same_length [simp]: "length xs = n \<Longrightarrow> length (xs[i := v]) = n"
  by simp

lemma filter_neq_length: "x \<in> set xs \<Longrightarrow> length (filter (\<lambda>y. y \<noteq> x) xs) < length xs"
  by (metis (mono_tags, lifting) length_filter_less)

lemma filter_neq_same: "length (filter (\<lambda>y. y \<noteq> x) xs) = length xs \<longleftrightarrow> x \<notin> set xs"
proof
  assume "length (filter (\<lambda>y. y \<noteq> x) xs) = length xs"
  then show "x \<notin> set xs" using filter_neq_length [of x xs] by auto
next
  assume "x \<notin> set xs"
  then have "filter (\<lambda>y. y \<noteq> x) xs = xs" by (induction xs) auto
  then show "length (filter (\<lambda>y. y \<noteq> x) xs) = length xs" by simp
qed

subsection \<open>Time\<close>

text \<open>Times and durations are nanoseconds, as in Go's \<^verbatim>\<open>time\<close> package.\<close>

definition second :: int where "second = 1000000000"

end
