(* ===== verification/Virtqueue.thy ===== *)
theory Virtqueue
  imports Prelude
begin

text \<open>
  Model of \<^verbatim>\<open>internal/virtio/virtqueue.go\<close>: the split virtqueue, its descriptor table,
  available ring and used ring, the chain walk of \<^verbatim>\<open>PopAvailable\<close>, \<^verbatim>\<open>PushUsed\<close>, the
  descriptor encoding and the copying of chain data through the memory accessors.

  The accessors \<^verbatim>\<open>memRead\<close>, \<^verbatim>\<open>memWrite\<close> and the callback \<^verbatim>\<open>notifyGuest\<close> are values the
  embedder supplies. They act on a world of type \<open>'w\<close> (the guest memory and whatever
  else the embedder keeps), which the operations that call them take and return. A nil
  function value is \<open>None\<close>. The mutex of the queue makes each method one step; the
  methods below are those steps.
\<close>

subsection \<open>Constants and data\<close>

definition VringDescFNext :: u16 where "VringDescFNext = 1"
definition VringDescFWrite :: u16 where "VringDescFWrite = 2"
definition VringDescFIndirect :: u16 where "VringDescFIndirect = 4"
definition VringUsedFNoNotify :: u16 where "VringUsedFNoNotify = 1"
definition VringAvailFNoInterrupt :: u16 where "VringAvailFNoInterrupt = 1"
definition DefaultQueueSize :: u16 where "DefaultQueueSize = 256"
definition MaxQueueSize :: u16 where "MaxQueueSize = 32768"

lemmas vring_consts = VringDescFNext_def VringDescFWrite_def VringDescFIndirect_def
  VringUsedFNoNotify_def VringAvailFNoInterrupt_def DefaultQueueSize_def MaxQueueSize_def

record VringDesc =
  vd_Addr :: u64
  vd_Len :: u32
  vd_Flags :: u16
  vd_Next :: u16

record VringAvail =
  va_Flags :: u16
  va_Idx :: u16
  va_Ring :: "u16 list"

record VringUsedElem =
  ue_ID :: u32
  ue_Len :: u32

record VringUsed =
  vu_Flags :: u16
  vu_Idx :: u16
  vu_Ring :: "VringUsedElem list"

record ChainLink =
  cl_Addr :: u64
  cl_Len :: u32

record DescriptorChain =
  dc_HeadIndex :: u16
  dc_Readable :: "ChainLink list"
  dc_Writable :: "ChainLink list"
  dc_TotalRead :: u32
  dc_TotalWrite :: u32

type_synonym 'w mem_read = "'w \<Rightarrow> u64 \<Rightarrow> u32 \<Rightarrow> string + bytes"
type_synonym 'w mem_write = "'w \<Rightarrow> u64 \<Rightarrow> bytes \<Rightarrow> 'w \<times> string option"

record 'w Virtqueue =
  vq_num :: u16
  vq_maxNum :: u16
  vq_ready :: bool
  vq_descs :: "VringDesc list"
  vq_avail :: VringAvail
  vq_used :: VringUsed
  vq_lastAvailIdx :: u16
  vq_memRead :: "'w mem_read option"
  vq_memWrite :: "'w mem_write option"
  vq_notifyGuest :: "('w \<Rightarrow> 'w) option"
  vq_name :: string

record 'w VirtqueueConfig =
  qc_Name :: string
  qc_Num :: u16
  qc_Index :: u16
  qc_Size :: u16
  qc_QueueType :: string
  qc_MemRead :: "'w mem_read option"
  qc_MemWrite :: "'w mem_write option"
  qc_NotifyGuest :: "('w \<Rightarrow> 'w) option"

datatype vq_error =
    ErrQueueNotReady
  | ErrQueueEmpty
  | ErrChainTooLong
  | ErrInvalidDescIdx
  | ErrSizeNotPow2 u16
  | ErrSizeTooBig u16 u16
  | ErrMemory u64 string

definition zero_desc :: VringDesc where
  "zero_desc = \<lparr>vd_Addr = 0, vd_Len = 0, vd_Flags = 0, vd_Next = 0\<rparr>"

definition zero_used_elem :: VringUsedElem where
  "zero_used_elem = \<lparr>ue_ID = 0, ue_Len = 0\<rparr>"

subsection \<open>Construction and control\<close>

definition queue_num :: "'w VirtqueueConfig \<Rightarrow> u16" where
  "queue_num cfg =
     (let num = qc_Num cfg;
          num = (if num = 0 then qc_Size cfg else num)
      in if num = 0 then DefaultQueueSize else num)"

definition NewVirtqueue :: "'w VirtqueueConfig \<Rightarrow> vq_error + 'w Virtqueue" where
  "NewVirtqueue cfg =
     (let num = queue_num cfg
      in if num AND (num - 1) \<noteq> 0 then Inl (ErrSizeNotPow2 num)
         else if num > MaxQueueSize then Inl (ErrSizeTooBig num MaxQueueSize)
         else let name = (if qc_Name cfg = [] then qc_QueueType cfg else qc_Name cfg)
              in Inr \<lparr>vq_num = num, vq_maxNum = num, vq_ready = False,
                      vq_descs = replicate (unat num) zero_desc,
                      vq_avail = \<lparr>va_Flags = 0, va_Idx = 0, va_Ring = replicate (unat num) 0\<rparr>,
                      vq_used = \<lparr>vu_Flags = 0, vu_Idx = 0,
                                 vu_Ring = replicate (unat num) zero_used_elem\<rparr>,
                      vq_lastAvailIdx = 0,
                      vq_memRead = qc_MemRead cfg, vq_memWrite = qc_MemWrite cfg,
                      vq_notifyGuest = qc_NotifyGuest cfg, vq_name = name\<rparr>)"

definition vq_Reset :: "'w Virtqueue \<Rightarrow> 'w Virtqueue" where
  "vq_Reset vq = vq\<lparr>
     vq_ready := False,
     vq_lastAvailIdx := 0,
     vq_descs := map (\<lambda>_. zero_desc) (vq_descs vq),
     vq_avail := \<lparr>va_Flags = 0, va_Idx = 0, va_Ring = map (\<lambda>_. 0) (va_Ring (vq_avail vq))\<rparr>,
     vq_used := \<lparr>vu_Flags = 0, vu_Idx = 0,
                 vu_Ring = map (\<lambda>_. zero_used_elem) (vu_Ring (vq_used vq))\<rparr>\<rparr>"

definition SetReady :: "'w Virtqueue \<Rightarrow> bool \<Rightarrow> 'w Virtqueue" where
  "SetReady vq r = vq\<lparr>vq_ready := r\<rparr>"

definition HasAvailable :: "'w Virtqueue \<Rightarrow> bool" where
  "HasAvailable vq \<longleftrightarrow> vq_lastAvailIdx vq \<noteq> va_Idx (vq_avail vq)"

definition SetSuppressNotifications :: "'w Virtqueue \<Rightarrow> bool \<Rightarrow> 'w Virtqueue" where
  "SetSuppressNotifications vq suppress =
     (let u = vq_used vq
      in if suppress then vq\<lparr>vq_used := u\<lparr>vu_Flags := vu_Flags u OR VringUsedFNoNotify\<rparr>\<rparr>
         else vq\<lparr>vq_used := u\<lparr>vu_Flags := vu_Flags u AND NOT VringUsedFNoNotify\<rparr>\<rparr>)"

definition SetDescriptor :: "'w Virtqueue \<Rightarrow> u16 \<Rightarrow> VringDesc \<Rightarrow> vq_error + 'w Virtqueue" where
  "SetDescriptor vq idx desc =
     (if idx \<ge> vq_num vq then Inl ErrInvalidDescIdx
      else Inr (vq\<lparr>vq_descs := (vq_descs vq)[unat idx := desc]\<rparr>))"

definition SetAvailIdx :: "'w Virtqueue \<Rightarrow> u16 \<Rightarrow> 'w Virtqueue" where
  "SetAvailIdx vq idx = vq\<lparr>vq_avail := (vq_avail vq)\<lparr>va_Idx := idx\<rparr>\<rparr>"

definition SetAvailRing :: "'w Virtqueue \<Rightarrow> u16 \<Rightarrow> u16 \<Rightarrow> vq_error + 'w Virtqueue" where
  "SetAvailRing vq pos val =
     (if pos \<ge> vq_num vq then Inl ErrInvalidDescIdx
      else Inr (vq\<lparr>vq_avail := (vq_avail vq)\<lparr>va_Ring := (va_Ring (vq_avail vq))[unat pos := val]\<rparr>\<rparr>))"

definition UsedIdx :: "'w Virtqueue \<Rightarrow> u16" where
  "UsedIdx vq = vu_Idx (vq_used vq)"

definition UsedRing :: "'w Virtqueue \<Rightarrow> u16 \<Rightarrow> vq_error + VringUsedElem" where
  "UsedRing vq pos =
     (if pos \<ge> vq_num vq then Inl ErrInvalidDescIdx
      else Inr (vu_Ring (vq_used vq) ! unat pos))"

subsection \<open>PopAvailable\<close>

definition desc_link :: "VringDesc \<Rightarrow> ChainLink" where
  "desc_link d = \<lparr>cl_Addr = vd_Addr d, cl_Len = vd_Len d\<rparr>"

definition add_desc :: "VringDesc \<Rightarrow> DescriptorChain \<Rightarrow> DescriptorChain" where
  "add_desc d chain =
     (if vd_Flags d AND VringDescFWrite \<noteq> 0
      then chain\<lparr>dc_Writable := dc_Writable chain @ [desc_link d],
                 dc_TotalWrite := dc_TotalWrite chain + vd_Len d\<rparr>
      else chain\<lparr>dc_Readable := dc_Readable chain @ [desc_link d],
                 dc_TotalRead := dc_TotalRead chain + vd_Len d\<rparr>)"

function walk_chain ::
  "u16 \<Rightarrow> VringDesc list \<Rightarrow> u16 \<Rightarrow> u16 set \<Rightarrow> DescriptorChain \<Rightarrow> vq_error + DescriptorChain"
where
  "walk_chain num descs idx seen chain =
     (if idx \<ge> num then Inl ErrInvalidDescIdx
      else if idx \<in> seen then Inl ErrChainTooLong
      else let desc = descs ! unat idx;
               chain' = add_desc desc chain
           in if vd_Flags desc AND VringDescFNext = 0 then Inr chain'
              else walk_chain num descs (vd_Next desc) (insert idx seen) chain')"
  by pat_completeness auto
termination
  by (relation "measure (\<lambda>(num, descs, idx, seen, chain). card (- seen))")
     (auto intro!: psubset_card_mono)

declare walk_chain.simps [simp del]

definition empty_chain :: "u16 \<Rightarrow> DescriptorChain" where
  "empty_chain head = \<lparr>dc_HeadIndex = head, dc_Readable = [], dc_Writable = [],
                       dc_TotalRead = 0, dc_TotalWrite = 0\<rparr>"

definition PopAvailable :: "'w Virtqueue \<Rightarrow> 'w Virtqueue \<times> (vq_error + DescriptorChain)" where
  "PopAvailable vq =
     (if \<not> vq_ready vq then (vq, Inl ErrQueueNotReady)
      else if vq_lastAvailIdx vq = va_Idx (vq_avail vq) then (vq, Inl ErrQueueEmpty)
      else let ringIdx = vq_lastAvailIdx vq mod vq_num vq;
               headIdx = va_Ring (vq_avail vq) ! unat ringIdx;
               vq' = vq\<lparr>vq_lastAvailIdx := vq_lastAvailIdx vq + 1\<rparr>
           in if headIdx \<ge> vq_num vq then (vq', Inl ErrInvalidDescIdx)
              else (vq', walk_chain (vq_num vq) (vq_descs vq) headIdx {} (empty_chain headIdx)))"

subsection \<open>PushUsed\<close>

definition PushUsed ::
  "'w Virtqueue \<Rightarrow> u16 \<Rightarrow> u32 \<Rightarrow> 'w \<Rightarrow> 'w Virtqueue \<times> 'w \<times> vq_error option" where
  "PushUsed vq headIdx bytesWritten w =
     (if \<not> vq_ready vq then (vq, w, Some ErrQueueNotReady)
      else let u = vq_used vq;
               ringIdx = vu_Idx u mod vq_num vq;
               u' = u\<lparr>vu_Ring := (vu_Ring u)[unat ringIdx := \<lparr>ue_ID = ucast headIdx, ue_Len = bytesWritten\<rparr>],
                      vu_Idx := vu_Idx u + 1\<rparr>;
               w' = (if va_Flags (vq_avail vq) AND VringAvailFNoInterrupt = 0
                     then (case vq_notifyGuest vq of None \<Rightarrow> w | Some notify \<Rightarrow> notify w)
                     else w)
           in (vq\<lparr>vq_used := u'\<rparr>, w', None))"

subsection \<open>Serialisation of descriptors and queue layout\<close>

definition LoadDescriptor :: "bytes \<Rightarrow> VringDesc" where
  "LoadDescriptor data = \<lparr>
     vd_Addr = get_le (gslice 0 8 data),
     vd_Len = get_le (gslice 8 12 data),
     vd_Flags = get_le (gslice 12 14 data),
     vd_Next = get_le (gslice 14 16 data)\<rparr>"

definition StoreDescriptor :: "VringDesc \<Rightarrow> bytes" where
  "StoreDescriptor desc =
     put_le 8 (vd_Addr desc) @ put_le 4 (vd_Len desc) @ put_le 2 (vd_Flags desc) @ put_le 2 (vd_Next desc)"

definition VirtqueueAlignSize :: "u16 \<Rightarrow> int \<times> int \<times> int" where
  "VirtqueueAlignSize num =
     (let n = uint num in (n * 16, 4 + 2 * n + 2, 4 + 8 * n + 2))"

definition TotalVirtqueueSize :: "u16 \<Rightarrow> int" where
  "TotalVirtqueueSize num =
     (case VirtqueueAlignSize num of (desc, avail, used) \<Rightarrow>
        let firstPart = desc + avail;
            firstPartAligned = (firstPart + 4095) AND NOT 4095
        in firstPartAligned + used)"

subsection \<open>Chain data\<close>

fun read_links :: "'w mem_read \<Rightarrow> 'w \<Rightarrow> ChainLink list \<Rightarrow> bytes \<Rightarrow> vq_error + bytes" where
  "read_links rd w [] allData = Inr allData"
| "read_links rd w (link # links) allData =
     (if cl_Len link = 0 then read_links rd w links allData
      else case rd w (cl_Addr link) (cl_Len link) of
             Inl e \<Rightarrow> Inl (ErrMemory (cl_Addr link) e)
           | Inr dat \<Rightarrow> read_links rd w links (allData @ dat))"

definition ReadChainData :: "'w Virtqueue \<Rightarrow> 'w \<Rightarrow> DescriptorChain \<Rightarrow> vq_error + bytes" where
  "ReadChainData vq w chain =
     (case vq_memRead vq of
        None \<Rightarrow> Inr []
      | Some rd \<Rightarrow> read_links rd w (dc_Readable chain) [])"

fun write_links ::
  "'w mem_write \<Rightarrow> ChainLink list \<Rightarrow> bytes \<Rightarrow> nat \<Rightarrow> 'w \<Rightarrow> 'w \<times> nat \<times> vq_error option" where
  "write_links wr [] dat written w = (w, written, None)"
| "write_links wr (link # links) dat written w =
     (if length dat \<le> written then (w, written, None)
      else let e = written + unat (cl_Len link);
               e = (if e > length dat then length dat else e);
               chunk = gslice written e dat
           in case wr w (cl_Addr link) chunk of
                (w', Some err) \<Rightarrow> (w', written, Some (ErrMemory (cl_Addr link) err))
              | (w', None) \<Rightarrow> write_links wr links dat (written + length chunk) w')"

definition WriteChainData ::
  "'w Virtqueue \<Rightarrow> DescriptorChain \<Rightarrow> bytes \<Rightarrow> 'w \<Rightarrow> 'w \<times> nat \<times> vq_error option" where
  "WriteChainData vq chain dat w =
     (case vq_memWrite vq of
        None \<Rightarrow> (w, 0, None)
      | Some wr \<Rightarrow>
          if dat = [] then (w, 0, None)
          else write_links wr (dc_Writable chain) dat 0 w)"

end
