(* ===== verification/VirtqueueProofs.thy ===== *)
theory VirtqueueProofs
  imports Virtqueue
begin

text \<open>
  Lemmas and properties of the virtqueue. The first part says what a descriptor chain is
  (a run through the table that stops at a descriptor without the NEXT flag) and shows that
  the walk of \<^verbatim>\<open>PopAvailable\<close> computes exactly that. The second part is the layout
  invariant of the queue and its preservation. The third part treats both rings as
  first-in-first-out queues: positions are taken modulo the queue size while the indices
  wrap at \<open>2 ^ 16\<close>, which agrees only because the size is a power of two. The last part
  is about the bytes of a chain.
\<close>

subsection \<open>Runs through the descriptor table\<close>

text \<open>
  \<open>desc_run num descs idx p out\<close>: following the table from \<open>idx\<close> visits the indices \<open>p\<close>
  and then stops, at a descriptor without NEXT (\<open>out = False\<close>) or by leaving the table
  (\<open>out = True\<close>).
\<close>

inductive desc_run :: "u16 \<Rightarrow> VringDesc list \<Rightarrow> u16 \<Rightarrow> u16 list \<Rightarrow> bool \<Rightarrow> bool"
  for num descs where
  finish: "idx < num \<Longrightarrow> vd_Flags (descs ! unat idx) AND VringDescFNext = 0 \<Longrightarrow>
           desc_run num descs idx [idx] False"
| leave: "num \<le> idx \<Longrightarrow> desc_run num descs idx [] True"
| follow: "idx < num \<Longrightarrow> vd_Flags (descs ! unat idx) AND VringDescFNext \<noteq> 0 \<Longrightarrow>
           desc_run num descs (vd_Next (descs ! unat idx)) p out \<Longrightarrow>
           desc_run num descs idx (idx # p) out"

inductive_cases desc_run_NilE: "desc_run num descs idx [] out"
inductive_cases desc_run_ConsE: "desc_run num descs idx (i # p) out"
inductive_simps desc_run_Nil_iff: "desc_run num descs idx [] out"

lemma desc_run_unique:
  "desc_run num descs idx p out \<Longrightarrow> desc_run num descs idx p' out' \<Longrightarrow> p = p' \<and> out = out'"
proof (induction arbitrary: p' out' rule: desc_run.induct)
  case (finish idx)
  from finish.prems show ?case using finish.hyps by cases auto
next
  case (leave idx)
  from leave.prems show ?case using leave.hyps by cases auto
next
  case (follow idx p out)
  from follow.prems show ?case using follow.hyps(1,2) by cases (auto dest: follow.IH)
qed

lemma desc_run_suffix:
  "desc_run num descs idx p out \<Longrightarrow> j < length p \<Longrightarrow> desc_run num descs (p ! j) (drop j p) out"
proof (induction arbitrary: j rule: desc_run.induct)
  case (follow idx p out)
  then show ?case
    by (cases j) (auto intro: desc_run.follow)
qed (auto intro: desc_run.intros)

lemma desc_run_range: "desc_run num descs idx p out \<Longrightarrow> i \<in> set p \<Longrightarrow> i < num"
  by (induction rule: desc_run.induct) auto

lemma desc_run_distinct:
  assumes "desc_run num descs idx p out"
  shows "distinct p"
proof -
  have "i = j" if "i < length p" "j < length p" "p ! i = p ! j" for i j
  proof -
    have "drop i p = drop j p"
      using that desc_run_suffix [OF assms] by (metis desc_run_unique)
    then have "length (drop i p) = length (drop j p)" by (rule arg_cong)
    then show ?thesis using that by simp
  qed
  then show ?thesis by (auto simp: distinct_conv_nth)
qed

lemma desc_run_length: "desc_run num descs idx p out \<Longrightarrow> length p \<le> unat num"
proof -
  assume run: "desc_run num descs idx p out"
  have "unat ` set p \<subseteq> {..<unat num}"
    using desc_run_range [OF run] by (auto simp: word_less_nat_alt)
  then have "card (unat ` set p) \<le> unat num"
    by (metis card_lessThan card_mono finite_lessThan)
  then show ?thesis
    using desc_run_distinct [OF run] by (simp add: card_image inj_on_def word_unat_eq_iff distinct_card)
qed

subsection \<open>The walk computes the run\<close>

definition collect :: "VringDesc list \<Rightarrow> u16 list \<Rightarrow> DescriptorChain \<Rightarrow> DescriptorChain" where
  "collect descs p c = fold (\<lambda>i. add_desc (descs ! unat i)) p c"

lemma walk_complete:
  "desc_run num descs idx p out \<Longrightarrow> set p \<inter> seen = {} \<Longrightarrow>
   walk_chain num descs idx seen c =
     (if out then Inl ErrInvalidDescIdx else Inr (collect descs p c))"
proof (induction arbitrary: seen c rule: desc_run.induct)
  case (finish idx)
  then show ?case
    by (subst walk_chain.simps) (simp add: collect_def Let_def not_le)
next
  case (leave idx)
  then show ?case by (subst walk_chain.simps) simp
next
  case (follow idx p out)
  have "idx \<notin> set p"
    using desc_run_distinct [OF desc_run.follow [OF follow.hyps]] by simp
  then have "set p \<inter> insert idx seen = {}" using follow.prems by auto
  from follow.IH [OF this] show ?case
    using follow.hyps(1,2) follow.prems
    by (subst walk_chain.simps) (auto simp: collect_def Let_def)
qed

lemma walk_run:
  "walk_chain num descs idx seen c = Inr c' \<Longrightarrow> \<exists>p. desc_run num descs idx p False"
  "walk_chain num descs idx seen c = Inl ErrInvalidDescIdx \<Longrightarrow> \<exists>p. desc_run num descs idx p True"
proof (induction num descs idx seen c rule: walk_chain.induct)
  case (1 num descs idx seen c)
  let ?d = "descs ! unat idx"
  {
    case 1
    show ?case
    proof (cases "num \<le> idx \<or> idx \<in> seen \<or> vd_Flags ?d AND VringDescFNext = 0")
      case True
      then show ?thesis using 1
        by (subst (asm) walk_chain.simps)
           (auto simp: Let_def not_le split: if_splits intro: desc_run.finish)
    next
      case False
      then have "walk_chain num descs (vd_Next ?d) (insert idx seen) (add_desc ?d c) = Inr c'"
        using 1 by (subst (asm) walk_chain.simps) (simp add: Let_def)
      with False show ?thesis
        using "1.IH"(1) by (force simp: not_le intro: desc_run.follow)
    qed
  next
    case 2
    show ?case
    proof (cases "num \<le> idx \<or> idx \<in> seen \<or> vd_Flags ?d AND VringDescFNext = 0")
      case True
      then show ?thesis using 2
        by (subst (asm) walk_chain.simps)
           (auto simp: Let_def not_le split: if_splits intro: desc_run.leave)
    next
      case False
      then have "walk_chain num descs (vd_Next ?d) (insert idx seen) (add_desc ?d c) = Inl ErrInvalidDescIdx"
        using 2 by (subst (asm) walk_chain.simps) (simp add: Let_def)
      with False show ?thesis
        using "1.IH"(2) by (force simp: not_le intro: desc_run.follow)
    qed
  }
qed

lemma walk_errors:
  "walk_chain num descs idx seen c = Inl e \<Longrightarrow> e = ErrInvalidDescIdx \<or> e = ErrChainTooLong"
proof (induction num descs idx seen c rule: walk_chain.induct)
  case (1 num descs idx seen c)
  then show ?case
    by (subst (asm) (2) walk_chain.simps) (auto simp: Let_def split: if_splits)
qed

lemma walk_iff:
  "walk_chain num descs idx {} c = Inr c' \<longleftrightarrow>
     (\<exists>p. desc_run num descs idx p False \<and> c' = collect descs p c)"
proof
  assume w: "walk_chain num descs idx {} c = Inr c'"
  from walk_run(1) [OF w] obtain p where p: "desc_run num descs idx p False" ..
  with w walk_complete [OF p, of "{}" c]
  show "\<exists>p. desc_run num descs idx p False \<and> c' = collect descs p c" by auto
qed (auto simp: walk_complete)

lemma walk_loop_iff:
  "walk_chain num descs idx {} c = Inl ErrChainTooLong \<longleftrightarrow> (\<nexists>p out. desc_run num descs idx p out)"
proof
  assume "walk_chain num descs idx {} c = Inl ErrChainTooLong"
  then show "\<nexists>p out. desc_run num descs idx p out"
    using walk_complete [of num descs idx _ _ "{}" c] by (fastforce split: if_splits)
next
  assume none: "\<nexists>p out. desc_run num descs idx p out"
  show "walk_chain num descs idx {} c = Inl ErrChainTooLong"
  proof (cases "walk_chain num descs idx {} c")
    case (Inl e)
    then show ?thesis using walk_errors [OF Inl] walk_run(2) [of num descs idx "{}" c] none by auto
  next
    case (Inr c')
    then show ?thesis using walk_run(1) [OF Inr] none by auto
  qed
qed

text \<open>The parsed chain, in one formula: buffers in table order, split by the WRITE flag.\<close>

definition is_writable :: "VringDesc \<Rightarrow> bool" where
  "is_writable d \<longleftrightarrow> vd_Flags d AND VringDescFWrite \<noteq> 0"

definition chain_of :: "u16 \<Rightarrow> VringDesc list \<Rightarrow> DescriptorChain" where
  "chain_of head ds = \<lparr>
     dc_HeadIndex = head,
     dc_Readable = map desc_link (filter (\<lambda>d. \<not> is_writable d) ds),
     dc_Writable = map desc_link (filter is_writable ds),
     dc_TotalRead = sum_list (map vd_Len (filter (\<lambda>d. \<not> is_writable d) ds)),
     dc_TotalWrite = sum_list (map vd_Len (filter is_writable ds))\<rparr>"

lemma add_desc_chain_of: "add_desc d (chain_of head ds) = chain_of head (ds @ [d])"
  by (simp add: add_desc_def chain_of_def is_writable_def)

lemma collect_chain_of:
  "collect descs p (chain_of head ds) = chain_of head (ds @ map (\<lambda>i. descs ! unat i) p)"
  by (induction p arbitrary: ds) (auto simp: collect_def add_desc_chain_of)

lemma collect_empty_chain:
  "collect descs p (empty_chain head) = chain_of head (map (\<lambda>i. descs ! unat i) p)"
proof -
  have "empty_chain head = chain_of head []" by (simp add: empty_chain_def chain_of_def)
  then show ?thesis by (simp add: collect_chain_of)
qed

definition next_head :: "'w Virtqueue \<Rightarrow> u16" where
  "next_head vq = va_Ring (vq_avail vq) ! unat (vq_lastAvailIdx vq mod vq_num vq)"

definition head_result :: "'w Virtqueue \<Rightarrow> u16 \<Rightarrow> vq_error + DescriptorChain" where
  "head_result vq h = walk_chain (vq_num vq) (vq_descs vq) h {} (empty_chain h)"

lemma walk_outside: "num \<le> idx \<Longrightarrow> walk_chain num descs idx seen c = Inl ErrInvalidDescIdx"
  by (subst walk_chain.simps) simp

lemma PopAvailable_eq:
  "PopAvailable vq =
     (if \<not> vq_ready vq then (vq, Inl ErrQueueNotReady)
      else if \<not> HasAvailable vq then (vq, Inl ErrQueueEmpty)
      else (vq\<lparr>vq_lastAvailIdx := vq_lastAvailIdx vq + 1\<rparr>, head_result vq (next_head vq)))"
  by (simp add: PopAvailable_def HasAvailable_def head_result_def next_head_def Let_def walk_outside)

lemma head_result_Inr:
  "head_result vq h = Inr c \<longleftrightarrow>
     (\<exists>p. desc_run (vq_num vq) (vq_descs vq) h p False \<and>
          c = chain_of h (map (\<lambda>i. vq_descs vq ! unat i) p))"
  by (simp add: head_result_def walk_iff collect_empty_chain)

subsection \<open>The layout invariant\<close>

definition vq_wf :: "'w Virtqueue \<Rightarrow> bool" where
  "vq_wf vq \<longleftrightarrow> (\<exists>k \<le> 15. vq_num vq = 2 ^ k) \<and>
     length (vq_descs vq) = unat (vq_num vq) \<and>
     length (va_Ring (vq_avail vq)) = unat (vq_num vq) \<and>
     length (vu_Ring (vq_used vq)) = unat (vq_num vq)"

lemma vq_wf_num:
  assumes "vq_wf vq"
  shows "0 < unat (vq_num vq)" and "unat (vq_num vq) dvd 2 ^ 16" and "unat (vq_num vq) \<le> 2 ^ 15"
proof -
  obtain k where k: "k \<le> 15" "vq_num vq = 2 ^ k" using assms by (auto simp: vq_wf_def)
  then have u: "unat (vq_num vq) = 2 ^ k" by (simp add: unat_pow2)
  show "0 < unat (vq_num vq)" by (simp add: u)
  show "unat (vq_num vq) dvd 2 ^ 16" unfolding u using k(1) by (simp add: le_imp_power_dvd del: power_numeral)
  show "unat (vq_num vq) \<le> 2 ^ 15" unfolding u using k(1) by (intro power_increasing) simp_all
qed

lemma queue_num_nonzero: "queue_num cfg \<noteq> 0"
  by (simp add: queue_num_def Let_def DefaultQueueSize_def)

lemma NewVirtqueue_wf: "NewVirtqueue cfg = Inr vq \<Longrightarrow> vq_wf vq"
proof -
  assume new: "NewVirtqueue cfg = Inr vq"
  then have "queue_num cfg AND (queue_num cfg - 1) = 0"
    by (auto simp: NewVirtqueue_def Let_def split: if_splits)
  then obtain k where "k < 16" "queue_num cfg = 2 ^ k"
    using word_pow2_test [OF _ queue_num_nonzero, of cfg] by auto
  moreover have "vq_num vq = queue_num cfg"
    using new by (auto simp: NewVirtqueue_def Let_def split: if_splits)
  ultimately show ?thesis
    using new by (auto simp: vq_wf_def NewVirtqueue_def Let_def split: if_splits intro!: exI [of _ k])
qed

lemma walk_keeps: "PopAvailable vq = (vq', r) \<Longrightarrow>
  vq_num vq' = vq_num vq \<and> vq_descs vq' = vq_descs vq \<and> vq_avail vq' = vq_avail vq \<and>
  vq_used vq' = vq_used vq \<and> vq_ready vq' = vq_ready vq \<and> vq_memRead vq' = vq_memRead vq \<and>
  vq_memWrite vq' = vq_memWrite vq \<and> vq_notifyGuest vq' = vq_notifyGuest vq"
  by (auto simp: PopAvailable_eq split: if_splits)

lemma PushUsed_keeps: "PushUsed vq h n w = (vq', w', e) \<Longrightarrow>
  vq_num vq' = vq_num vq \<and> vq_descs vq' = vq_descs vq \<and> vq_avail vq' = vq_avail vq \<and>
  vq_lastAvailIdx vq' = vq_lastAvailIdx vq \<and> vq_ready vq' = vq_ready vq \<and>
  vq_memRead vq' = vq_memRead vq \<and> vq_memWrite vq' = vq_memWrite vq \<and>
  vq_notifyGuest vq' = vq_notifyGuest vq \<and> length (vu_Ring (vq_used vq')) = length (vu_Ring (vq_used vq))"
  by (auto simp: PushUsed_def Let_def split: if_splits)

text \<open>Every method of the queue, as one labelled step.\<close>

inductive vq_step :: "'w Virtqueue \<times> 'w \<Rightarrow> 'w Virtqueue \<times> 'w \<Rightarrow> bool" where
  reset: "vq_step (vq, w) (vq_Reset vq, w)"
| ready: "vq_step (vq, w) (SetReady vq r, w)"
| suppress: "vq_step (vq, w) (SetSuppressNotifications vq b, w)"
| descriptor: "SetDescriptor vq i d = Inr vq' \<Longrightarrow> vq_step (vq, w) (vq', w)"
| avail_idx: "vq_step (vq, w) (SetAvailIdx vq i, w)"
| avail_ring: "SetAvailRing vq i v = Inr vq' \<Longrightarrow> vq_step (vq, w) (vq', w)"
| pop: "PopAvailable vq = (vq', r) \<Longrightarrow> vq_step (vq, w) (vq', w)"
| push: "PushUsed vq h n w = (vq', w', e) \<Longrightarrow> vq_step (vq, w) (vq', w')"
| world: "vq_step (vq, w) (vq, w')"

inductive vq_reachable :: "'w Virtqueue \<times> 'w \<Rightarrow> bool" where
  new: "NewVirtqueue cfg = Inr vq \<Longrightarrow> vq_reachable (vq, w)"
| step: "vq_reachable s \<Longrightarrow> vq_step s t \<Longrightarrow> vq_reachable t"

lemma vq_step_wf: "vq_step s t \<Longrightarrow> vq_wf (fst s) \<Longrightarrow> vq_wf (fst t)"
proof (induction rule: vq_step.induct)
  case (pop vq vq' r w)
  then show ?case using walk_keeps [OF pop(1)] by (simp add: vq_wf_def)
next
  case (push vq h n w vq' w' e)
  then show ?case using PushUsed_keeps [OF push(1)] by (simp add: vq_wf_def)
qed (auto simp: vq_wf_def vq_Reset_def SetReady_def SetSuppressNotifications_def SetDescriptor_def
      SetAvailIdx_def SetAvailRing_def Let_def split: if_splits)

lemma vq_reachable_wf: "vq_reachable s \<Longrightarrow> vq_wf (fst s)"
  by (induction rule: vq_reachable.induct) (auto simp: NewVirtqueue_wf vq_step_wf)

text \<open>
  The bytes of a descriptor chain: how many bytes \<^verbatim>\<open>WriteChainData\<close> copies, and that a
  reader of the same buffers gets back what was written. The memory accessors are
  parameters; \<open>ram\<close> states what the embedder's guest memory is documented to do (a write
  succeeds, is read back, and leaves other addresses alone).
\<close>

subsection \<open>Buffers\<close>

definition links_len :: "ChainLink list \<Rightarrow> nat" where
  "links_len links = sum_list (map (\<lambda>l. unat (cl_Len l)) links)"

lemma links_len_simps [simp]:
  "links_len [] = 0" "links_len (l # links) = unat (cl_Len l) + links_len links"
  by (simp_all add: links_len_def)

definition apart :: "nat \<Rightarrow> nat \<Rightarrow> nat \<Rightarrow> nat \<Rightarrow> bool" where
  "apart a n b m \<longleftrightarrow> a + n \<le> b \<or> b + m \<le> a"

fun buffers_ok :: "ChainLink list \<Rightarrow> bool" where
  "buffers_ok [] = True"
| "buffers_ok (l # links) \<longleftrightarrow>
     unat (cl_Addr l) + unat (cl_Len l) \<le> 2 ^ 64 \<and>
     list_all (\<lambda>l'. apart (unat (cl_Addr l)) (unat (cl_Len l)) (unat (cl_Addr l')) (unat (cl_Len l'))) links \<and>
     buffers_ok links"

definition ram :: "'w mem_read \<Rightarrow> 'w mem_write \<Rightarrow> bool" where
  "ram rd wr \<longleftrightarrow>
     (\<forall>w a d. snd (wr w a d) = None) \<and>
     (\<forall>w a d. unat a + length d \<le> 2 ^ 64 \<and> length d < 2 ^ 32 \<longrightarrow>
        rd (fst (wr w a d)) a (of_nat (length d)) = Inr d) \<and>
     (\<forall>w a d b n. apart (unat a) (length d) (unat b) (unat n) \<and> unat b + unat n \<le> 2 ^ 64 \<longrightarrow>
        rd (fst (wr w a d)) b n = rd w b n)"

lemma ramD:
  assumes "ram rd wr"
  shows "snd (wr w a d) = None"
    and "unat a + length d \<le> 2 ^ 64 \<Longrightarrow> length d < 2 ^ 32 \<Longrightarrow>
         rd (fst (wr w a d)) a (of_nat (length d)) = Inr d"
    and "apart (unat a) (length d) (unat b) (unat n) \<Longrightarrow> unat b + unat n \<le> 2 ^ 64 \<Longrightarrow> rd (fst (wr w a d)) b n = rd w b n"
  using assms by (auto simp: ram_def)

subsection \<open>How much is written\<close>

lemma write_links_count:
  "write_links wr links dat k w = (w', n, e) \<Longrightarrow> k \<le> length dat \<Longrightarrow>
   k \<le> n \<and> n \<le> min (length dat) (k + links_len links)"
proof (induction wr links dat k w arbitrary: w' n e rule: write_links.induct)
  case (2 wr link links dat k w)
  let ?e = "min (k + unat (cl_Len link)) (length dat)"
  show ?case
  proof (cases "length dat \<le> k")
    case True
    then show ?thesis using "2.prems" by simp
  next
    case False
    then have e: "(if k + unat (cl_Len link) > length dat then length dat else k + unat (cl_Len link)) = ?e"
      by simp
    obtain w1 r where wr: "wr w (cl_Addr link) (gslice k ?e dat) = (w1, r)" by force
    have len: "k + length (gslice k ?e dat) = ?e" using False by simp
    show ?thesis
    proof (cases r)
      case None
      then have rec: "write_links wr links dat ?e w1 = (w', n, e)"
        using "2.prems"(1) False wr len by (simp add: Let_def e)
      have "?e \<le> n \<and> n \<le> min (length dat) (?e + links_len links)"
        using "2.IH"[OF False refl refl refl] wr None rec len e by (simp add: Let_def)
      then show ?thesis using False by auto
    next
      case (Some err)
      then show ?thesis using "2.prems" False wr by (auto simp: Let_def e)
    qed
  qed
qed simp

lemma WriteChainData_bound:
  "WriteChainData vq chain dat w = (w', n, e) \<Longrightarrow>
   n \<le> length dat \<and> n \<le> links_len (dc_Writable chain)"
  by (auto simp: WriteChainData_def split: option.splits if_splits dest!: write_links_count)

subsection \<open>Reading back\<close>

lemma write_links_ram:
  assumes ram: "ram rd wr"
  shows "write_links wr links dat k w = (w', n, e) \<Longrightarrow> buffers_ok links \<Longrightarrow>
    length dat = k + links_len links \<Longrightarrow>
    e = None \<and> n = length dat \<and>
    (\<forall>acc. read_links rd w' links acc = Inr (acc @ drop k dat)) \<and>
    (\<forall>b m. list_all (\<lambda>l. apart (unat (cl_Addr l)) (unat (cl_Len l)) (unat b) (unat m)) links \<and>
       unat b + unat m \<le> 2 ^ 64 \<longrightarrow>
       rd w' b m = rd w b m)"
proof (induction links arbitrary: k w)
  case Nil
  then show ?case by simp
next
  case (Cons l links)
  show ?case
  proof (cases "length dat \<le> k")
    case True
    then have zero: "unat (cl_Len l) = 0" "links_len links = 0" using Cons.prems(3) by simp_all
    then have "cl_Len l = 0" by (simp add: unat_eq_0)
    moreover have "read_links rd w' links acc = Inr acc" for acc
      using zero(2)
    proof (induction links arbitrary: acc)
      case (Cons x xs)
      then have "cl_Len x = 0" by (simp add: unat_eq_0)
      with Cons show ?case by simp
    qed simp
    ultimately show ?thesis using True Cons.prems by auto
  next
    case False
    let ?len = "unat (cl_Len l)" and ?a = "unat (cl_Addr l)"
    let ?chunk = "gslice k (k + ?len) dat"
    obtain w1 where wr: "wr w (cl_Addr l) ?chunk = (w1, None)"
      using ramD(1) [OF ram, of w "cl_Addr l" ?chunk] by (metis prod.collapse)
    have clen: "length ?chunk = ?len" using Cons.prems(3) by simp
    have bound: "?len < 2 ^ 32" using unsigned_less [of "cl_Len l", where 'a = nat] by simp
    have rec: "write_links wr links dat (k + ?len) w1 = (w', n, e)"
    proof -
      have "(if k + ?len > length dat then length dat else k + ?len) = k + ?len"
        using Cons.prems(3) by simp
      then show ?thesis using Cons.prems(1) wr clen
        by (subst (asm) write_links.simps(2)) (simp only: Let_def False if_False prod.case option.case)
    qed
    have IH: "e = None" "n = length dat"
      "\<And>acc. read_links rd w' links acc = Inr (acc @ drop (k + ?len) dat)"
      "\<And>b m. list_all (\<lambda>l. apart (unat (cl_Addr l)) (unat (cl_Len l)) (unat b) (unat m)) links \<Longrightarrow>
        unat b + unat m \<le> 2 ^ 64 \<Longrightarrow>
        rd w' b m = rd w1 b m"
      using Cons.IH [OF rec] Cons.prems(2,3) by auto
    have own: "rd w1 (cl_Addr l) (cl_Len l) = Inr ?chunk"
      using ramD(2) [OF ram, of "cl_Addr l" ?chunk w] wr clen bound Cons.prems(2) by simp
    have "list_all (\<lambda>l'. apart (unat (cl_Addr l')) (unat (cl_Len l')) ?a ?len) links"
      using Cons.prems(2) by (auto simp: list_all_iff apart_def)
    from IH(4) [OF this] own Cons.prems(2) have own': "rd w' (cl_Addr l) (cl_Len l) = Inr ?chunk" by simp
    have join: "?chunk @ drop (k + ?len) dat = drop k dat"
      by (simp add: gslice_def) (metis append_take_drop_id drop_drop add.commute)
    have "read_links rd w' (l # links) acc = Inr (acc @ drop k dat)" for acc
    proof (cases "cl_Len l = 0")
      case True
      then show ?thesis using IH(3) by simp
    next
      case False
      then show ?thesis using own' IH(3) by (simp flip: join)
    qed
    moreover have "rd w' b m = rd w b m"
      if "list_all (\<lambda>l. apart (unat (cl_Addr l)) (unat (cl_Len l)) (unat b) (unat m)) (l # links)"
        "unat b + unat m \<le> 2 ^ 64" for b m
      using that IH(4) [of b m] ramD(3) [OF ram, of "cl_Addr l" ?chunk b m w] wr clen by simp
    ultimately show ?thesis using IH(1,2) by blast
  qed
qed

subsection \<open>A flat guest memory\<close>

text \<open>A total memory with one byte per address: an instance of \<open>ram\<close> used in examples.\<close>

definition flat_read :: "(u64 \<Rightarrow> byte) mem_read" where
  "flat_read m a n = Inr (map (\<lambda>i. m (a + of_nat i)) [0..<unat n])"

definition flat_write :: "(u64 \<Rightarrow> byte) mem_write" where
  "flat_write m a d =
     ((\<lambda>x. if unat a \<le> unat x \<and> unat x < unat a + length d then d ! (unat x - unat a) else m x), None)"

lemma unat_add_of_nat:
  "unat (a :: u64) + n \<le> 2 ^ 64 \<Longrightarrow> i < n \<Longrightarrow> unat (a + of_nat i) = unat a + i"
  by (simp add: unat_word_ariths unat_of_nat take_bit_nat_eq_self)

lemma ram_flat: "ram flat_read flat_write"
proof -
  have own: "flat_read (fst (flat_write m a d)) a (of_nat (length d)) = Inr d"
    if "unat a + length d \<le> 2 ^ 64" "length d < 2 ^ 32" for m a d
    using that
    by (auto simp: flat_read_def flat_write_def unat_of_nat take_bit_nat_eq_self unat_add_of_nat
        intro!: nth_equalityI)
  have other: "flat_read (fst (flat_write m a d)) b n = flat_read m b n"
    if "apart (unat a) (length d) (unat b) (unat n)" "unat b + unat n \<le> 2 ^ 64" for m a d b n
  proof -
    have "unat (b + of_nat i) = unat b + i" if "i < unat n" for i
      using \<open>unat b + unat n \<le> 2 ^ 64\<close> that by (rule unat_add_of_nat)
    then show ?thesis using that(1) by (auto simp: flat_read_def flat_write_def apart_def)
  qed
  show ?thesis using own other by (auto simp: ram_def flat_write_def)
qed

end
