(* ===== verification/Interfaces.thy ===== *)
theory Interfaces
  imports Prelude
begin

text \<open>
  The contracts between components, as locales. Each fixes the operations a client calls
  and assumes the laws the provider promises; the client's lemmas are proved here once, and
  the theory of the component that provides the operations interprets the locale on the
  model of the code.
\<close>

subsection \<open>A first-in-first-out queue of requests\<close>

text \<open>
  \<open>enq\<close> adds a request, \<open>deq\<close> takes the oldest one and delivers what it stands for
  (\<open>view\<close>), \<open>contents\<close> lists the requests still queued and \<open>room\<close> is the capacity.
\<close>

locale fifo_queue =
  fixes enq :: "'q \<Rightarrow> 'a \<Rightarrow> 'q"
    and deq :: "'q \<Rightarrow> 'q \<times> 'b"
    and view :: "'q \<Rightarrow> 'a \<Rightarrow> 'b"
    and contents :: "'q \<Rightarrow> 'a list"
    and room :: "'q \<Rightarrow> nat"
    and ok :: "'q \<Rightarrow> bool"
  assumes enq_ok: "ok q \<Longrightarrow> length (contents q) < room q \<Longrightarrow> ok (enq q x)"
    and enq_contents: "ok q \<Longrightarrow> length (contents q) < room q \<Longrightarrow> contents (enq q x) = contents q @ [x]"
    and enq_room: "ok q \<Longrightarrow> room (enq q x) = room q"
    and enq_view: "ok q \<Longrightarrow> view (enq q x) = view q"
    and deq_ok: "ok q \<Longrightarrow> contents q = x # xs \<Longrightarrow> ok (fst (deq q))"
    and deq_contents: "ok q \<Longrightarrow> contents q = x # xs \<Longrightarrow> contents (fst (deq q)) = xs"
    and deq_result: "ok q \<Longrightarrow> contents q = x # xs \<Longrightarrow> snd (deq q) = view q x"
    and deq_view: "ok q \<Longrightarrow> contents q = x # xs \<Longrightarrow> view (fst (deq q)) = view q"
begin

primrec enq_all :: "'q \<Rightarrow> 'a list \<Rightarrow> 'q" where
  "enq_all q [] = q"
| "enq_all q (x # xs) = enq_all (enq q x) xs"

primrec deq_n :: "'q \<Rightarrow> nat \<Rightarrow> 'q \<times> 'b list" where
  "deq_n q 0 = (q, [])"
| "deq_n q (Suc n) = (case deq q of (q', y) \<Rightarrow> case deq_n q' n of (q'', ys) \<Rightarrow> (q'', y # ys))"

lemma enq_all_laws:
  "ok q \<Longrightarrow> length (contents q) + length xs \<le> room q \<Longrightarrow>
   ok (enq_all q xs) \<and> contents (enq_all q xs) = contents q @ xs \<and> view (enq_all q xs) = view q"
proof (induction xs arbitrary: q)
  case (Cons x xs)
  then have "length (contents q) < room q" by simp
  with Cons show ?case by (simp add: enq_ok enq_contents enq_room enq_view)
qed simp

lemma deq_n_all:
  "ok q \<Longrightarrow> contents q = xs \<Longrightarrow> snd (deq_n q (length xs)) = map (view q) xs \<and>
   contents (fst (deq_n q (length xs))) = []"
proof (induction xs arbitrary: q)
  case (Cons x xs)
  obtain q' y where q': "deq q = (q', y)" by (cases "deq q")
  have "y = view q x" using deq_result [OF Cons.prems] q' by simp
  moreover have "ok q'" "contents q' = xs" "view q' = view q"
    using deq_ok [OF Cons.prems] deq_contents [OF Cons.prems] deq_view [OF Cons.prems] q' by simp_all
  ultimately show ?case using Cons.IH [of q'] q' by (auto split: prod.splits)
qed simp

lemma fill_then_drain:
  assumes "ok q" and "contents q = []" and "length xs \<le> room q"
  shows "snd (deq_n (enq_all q xs) (length xs)) = map (view q) xs"
  using enq_all_laws [OF assms(1), of xs] deq_n_all [of "enq_all q xs" xs] assms by simp

end

subsection \<open>A store of bytes\<close>

text \<open>
  A file (or an image) that is read and written at offsets. \<open>content\<close> is what it holds;
  \<open>ok\<close> says that it is open for writing and does not fail.
\<close>

locale byte_store =
  fixes content :: "'f \<Rightarrow> bytes"
    and ok :: "'f \<Rightarrow> bool"
    and read_at :: "'f \<Rightarrow> nat \<Rightarrow> nat \<Rightarrow> bytes"
    and write_at :: "'f \<Rightarrow> bytes \<Rightarrow> nat \<Rightarrow> 'f"
  assumes write_ok: "ok f \<Longrightarrow> ok (write_at f d off)"
    and write_content: "ok f \<Longrightarrow> d \<noteq> [] \<Longrightarrow> content (write_at f d off) = overlay off d (content f)"
    and write_nothing: "ok f \<Longrightarrow> write_at f [] off = f"
    and read_content: "ok f \<Longrightarrow> read_at f n off = gslice off (off + n) (content f)"
begin

lemma read_back: "ok f \<Longrightarrow> read_at (write_at f d off) (length d) off = d"
  by (cases "d = []") (simp_all add: read_content write_ok write_content gslice_overlay_same, simp add: gslice_def)

lemma read_other:
  "ok f \<Longrightarrow> b + n \<le> length (content f) \<Longrightarrow> b + n \<le> off \<or> off + length d \<le> b \<Longrightarrow>
   read_at (write_at f d off) n b = read_at f n b"
  by (cases "d = []")
     (auto simp: read_content write_ok write_content write_nothing gslice_overlay_before gslice_overlay_after)

lemma write_grows:
  "ok f \<Longrightarrow> d \<noteq> [] \<Longrightarrow> length (content (write_at f d off)) = max (length (content f)) (off + length d)"
  by (simp add: write_content)

primrec write_seq :: "'f \<Rightarrow> bytes list \<Rightarrow> nat \<Rightarrow> 'f" where
  "write_seq f [] off = f"
| "write_seq f (d # ds) off = write_seq (write_at f d off) ds (off + length d)"

lemma write_seq_once:
  "ok f \<Longrightarrow> concat ds \<noteq> [] \<Longrightarrow> ok (write_seq f ds off) \<and>
   content (write_seq f ds off) = overlay off (concat ds) (content f)"
proof (induction ds arbitrary: f off)
  case (Cons d ds)
  show ?case
  proof (cases "concat ds = []")
    case True
    then have "write_seq g ds k = g" if g: "ok g" for g k
      using g
    proof (induction ds arbitrary: g k)
      case (Cons x xs)
      then show ?case by (simp add: write_nothing)
    qed simp
    have eq: "concat (d # ds) = d" using True by simp
    show ?thesis unfolding eq using \<open>\<And>g k. ok g \<Longrightarrow> write_seq g ds k = g\<close> Cons.prems(1)
        Cons.prems(2) [unfolded eq]
      by (simp add: write_ok write_content)
  next
    case False
    then have IH: "ok (write_seq (write_at f d off) ds (off + length d)) \<and>
      content (write_seq (write_at f d off) ds (off + length d)) =
        overlay (off + length d) (concat ds) (content (write_at f d off))"
      using Cons.IH [OF write_ok [OF Cons.prems(1)]] by blast
    show ?thesis
    proof (cases "d = []")
      case True
      then show ?thesis using IH Cons.prems(1) by (simp add: write_nothing)
    next
      case False
      then show ?thesis using IH Cons.prems(1)
        by (simp add: write_content overlay_overlay)
    qed
  qed
qed simp

end

end
