(* ===== verification/VirtqueueRings.thy ===== *)
theory VirtqueueRings
  imports VirtqueueProofs Interfaces
begin

text \<open>
  Both rings of the virtqueue as queues. Positions are taken modulo the queue size while
  the 16-bit indices wrap on their own; the two agree because the size, a power of two,
  divides \<open>2 ^ 16\<close>.
\<close>

subsection \<open>Positions in a ring\<close>

lemma ring_pos:
  assumes "vq_wf vq"
  shows "unat ((a + of_nat i) mod vq_num vq) = (unat a + i) mod unat (vq_num vq)"
proof -
  have "unat ((a + of_nat i) mod vq_num vq) = (unat a + i) mod 2 ^ 16 mod unat (vq_num vq)"
    by (simp add: unat_mod unat_word_ariths unat_of_nat mod_add_right_eq take_bit_eq_mod)
  also have "\<dots> = (unat a + i) mod unat (vq_num vq)"
    using vq_wf_num(2) [OF assms] by (rule mod_mod_cancel)
  finally show ?thesis .
qed

lemma ring_pos_less: "vq_wf vq \<Longrightarrow> unat (a mod vq_num vq) < unat (vq_num vq)"
  using ring_pos [of vq a 0] vq_wf_num(1) [of vq] by simp

lemma ring_pos_in: "vq_wf vq \<Longrightarrow> a mod vq_num vq < vq_num vq"
  using ring_pos_less [of vq a] by (simp add: word_less_nat_alt)

lemma ring_pos_inj:
  assumes "vq_wf vq" and "i < unat (vq_num vq)" and "j < unat (vq_num vq)"
    and "unat ((a + of_nat i) mod vq_num vq) = unat ((a + of_nat j) mod vq_num vq)"
  shows "i = j"
proof -
  have "(unat a + i) mod unat (vq_num vq) = (unat a + j) mod unat (vq_num vq)"
    using assms(1,4) by (simp add: ring_pos)
  then show ?thesis using assms(2,3) by (rule mod_add_inj_nat)
qed

subsection \<open>The used ring\<close>

fun push_all :: "'w Virtqueue \<Rightarrow> (u16 \<times> u32) list \<Rightarrow> 'w \<Rightarrow> 'w Virtqueue \<times> 'w" where
  "push_all vq [] w = (vq, w)"
| "push_all vq ((h, n) # es) w =
     (case PushUsed vq h n w of (vq', w', _) \<Rightarrow> push_all vq' es w')"

lemma push_all_snoc:
  "push_all vq (es @ [(h, n)]) w =
     (case push_all vq es w of (vq', w') \<Rightarrow> case PushUsed vq' h n w' of (vq'', w'', _) \<Rightarrow> (vq'', w''))"
  by (induction vq es w rule: push_all.induct) (auto split: prod.splits)

definition used_elem :: "u16 \<times> u32 \<Rightarrow> VringUsedElem" where
  "used_elem e = \<lparr>ue_ID = ucast (fst e), ue_Len = snd e\<rparr>"

lemma push_all_ring:
  assumes wf: "vq_wf vq" and rdy: "vq_ready vq" and len: "length es \<le> unat (vq_num vq)"
    and res: "push_all vq es w = (vq', w')"
  shows "vq_wf vq' \<and> vq_ready vq' \<and> vq_num vq' = vq_num vq \<and>
    UsedIdx vq' = UsedIdx vq + of_nat (length es) \<and>
    (\<forall>i < length es. vu_Ring (vq_used vq') ! unat ((UsedIdx vq + of_nat i) mod vq_num vq) = used_elem (es ! i))"
  using len res
proof (induction es arbitrary: vq' w' rule: rev_induct)
  case Nil
  then show ?case using wf rdy by simp
next
  case (snoc e es)
  obtain h n where e: "e = (h, n)" by (cases e)
  obtain v u where v: "push_all vq es w = (v, u)" by (cases "push_all vq es w")
  have IH: "vq_wf v" "vq_ready v" "vq_num v = vq_num vq"
    "UsedIdx v = UsedIdx vq + of_nat (length es)"
    "\<And>i. i < length es \<Longrightarrow>
      vu_Ring (vq_used v) ! unat ((UsedIdx vq + of_nat i) mod vq_num vq) = used_elem (es ! i)"
    using snoc.IH [OF _ v] snoc.prems(1) by auto
  obtain r where push: "PushUsed v h n u = (vq', w', r)"
    using snoc.prems(2) by (auto simp: e push_all_snoc v split: prod.splits)
  note keeps = PushUsed_keeps [OF push]
  let ?pos = "\<lambda>i. unat ((UsedIdx vq + of_nat i) mod vq_num vq)"
  have ring: "vu_Ring (vq_used vq') = (vu_Ring (vq_used v))[?pos (length es) := used_elem e]"
    and idx: "UsedIdx vq' = UsedIdx v + 1"
    using push IH(2-4) by (auto simp: PushUsed_def Let_def UsedIdx_def used_elem_def e)
  have pos_len: "?pos (length es) < length (vu_Ring (vq_used v))"
    using IH(1) ring_pos_less [OF wf] by (simp add: vq_wf_def IH(3))
  have "vq_wf vq'" using keeps IH(1) by (simp add: vq_wf_def)
  moreover have "vu_Ring (vq_used vq') ! ?pos i = used_elem ((es @ [e]) ! i)" if "i < length (es @ [e])" for i
  proof (cases "i = length es")
    case True
    then show ?thesis using pos_len by (simp add: ring)
  next
    case False
    then have "?pos i \<noteq> ?pos (length es)"
      using ring_pos_inj [OF wf, of i "length es" "UsedIdx vq"] that snoc.prems(1) by auto
    then show ?thesis using False that IH(5) by (simp add: ring nth_append)
  qed
  ultimately show ?case
    using keeps IH idx by (auto simp: add.assoc)
qed

subsection \<open>The available ring\<close>

definition pending :: "'w Virtqueue \<Rightarrow> u16 list" where
  "pending vq =
     map (\<lambda>i. va_Ring (vq_avail vq) ! unat ((vq_lastAvailIdx vq + of_nat i) mod vq_num vq))
       [0..<unat (va_Idx (vq_avail vq) - vq_lastAvailIdx vq)]"

text \<open>What the driver does to offer a chain: write the slot, then move the index.\<close>

definition publish :: "'w Virtqueue \<Rightarrow> u16 \<Rightarrow> 'w Virtqueue" where
  "publish vq h =
     (case SetAvailRing vq (va_Idx (vq_avail vq) mod vq_num vq) h of
        Inl _ \<Rightarrow> vq
      | Inr vq' \<Rightarrow> SetAvailIdx vq' (va_Idx (vq_avail vq) + 1))"

lemma length_pending: "length (pending vq) = unat (va_Idx (vq_avail vq) - vq_lastAvailIdx vq)"
  by (simp add: pending_def)

lemma HasAvailable_pending: "HasAvailable vq \<longleftrightarrow> pending vq \<noteq> []"
  by (simp add: HasAvailable_def pending_def unat_eq_0 flip: length_0_conv)
     (metis eq_iff_diff_eq_0)

lemma pending_pop:
  assumes "HasAvailable vq"
  shows "pending vq = next_head vq # pending (vq\<lparr>vq_lastAvailIdx := vq_lastAvailIdx vq + 1\<rparr>)"
proof -
  let ?n = "unat (va_Idx (vq_avail vq) - (vq_lastAvailIdx vq + 1))"
  have len: "unat (va_Idx (vq_avail vq) - vq_lastAvailIdx vq) = Suc ?n"
    using assms by (intro unat_diff_Suc) (simp add: HasAvailable_def)
  have "[0..<Suc ?n] = 0 # map Suc [0..<?n]" by (simp add: map_Suc_upt upt_conv_Cons)
  then show ?thesis
    by (simp add: pending_def len next_head_def comp_def add.assoc del: upt_Suc)
qed

lemma publish_eq:
  assumes "vq_wf vq"
  shows "publish vq h = vq\<lparr>vq_avail := (vq_avail vq)\<lparr>
     va_Ring := (va_Ring (vq_avail vq))[unat (va_Idx (vq_avail vq) mod vq_num vq) := h],
     va_Idx := va_Idx (vq_avail vq) + 1\<rparr>\<rparr>"
  using ring_pos_in [OF assms, of "va_Idx (vq_avail vq)"]
  by (simp add: publish_def SetAvailRing_def SetAvailIdx_def not_le)

lemma pending_publish:
  assumes wf: "vq_wf vq" and room: "length (pending vq) < unat (vq_num vq)"
  shows "pending (publish vq h) = pending vq @ [h]"
proof -
  let ?a = "vq_lastAvailIdx vq" and ?num = "vq_num vq" and ?ring = "va_Ring (vq_avail vq)"
  let ?n = "unat (va_Idx (vq_avail vq) - ?a)"
  let ?pos = "\<lambda>i. unat ((?a + of_nat i) mod ?num)"
  have n: "?n < unat ?num" using room by (simp add: length_pending)
  have idx: "va_Idx (vq_avail vq) = ?a + of_nat ?n" by simp
  have small: "Suc ?n < 2 ^ 16" using n vq_wf_num(3) [OF wf] by simp
  have "va_Idx (vq_avail vq) + 1 - ?a = of_nat (Suc ?n)" by simp
  then have n': "unat (va_Idx (vq_avail vq) + 1 - ?a) = Suc ?n"
    using small by (simp only: unat_of_nat) (simp add: take_bit_nat_eq_self)
  have old: "?ring[?pos ?n := h] ! ?pos i = ?ring ! ?pos i" if "i < ?n" for i
    using ring_pos_inj [OF wf, of i ?n ?a] that n by (intro nth_list_update_neq) auto
  have new: "?ring[?pos ?n := h] ! ?pos ?n = h"
    using wf ring_pos_less [OF wf] by (simp add: vq_wf_def)
  have "pending (publish vq h) = map (\<lambda>i. ?ring[?pos ?n := h] ! ?pos i) [0..<Suc ?n]"
    using n' by (simp add: publish_eq [OF wf] pending_def del: upt_Suc)
  also have "\<dots> = pending vq @ [h]"
    using old new by (simp add: pending_def)
  finally show ?thesis .
qed

lemma publish_wf: "vq_wf vq \<Longrightarrow> vq_wf (publish vq h)"
  by (simp add: publish_eq) (simp add: vq_wf_def)

interpretation avail: fifo_queue publish PopAvailable head_result pending
  "\<lambda>vq. unat (vq_num vq)" "\<lambda>vq. vq_wf vq \<and> vq_ready vq"
proof (unfold_locales, goal_cases)
  case (1 q x) then show ?case using publish_wf [of q x] by (simp add: publish_eq)
next
  case (2 q x) then show ?case by (simp add: pending_publish)
next
  case (3 q x) then show ?case by (simp add: publish_eq)
next
  case (4 q x) then show ?case by (simp add: publish_eq head_result_def fun_eq_iff)
next
  case (5 q x xs) then show ?case
    by (auto simp: PopAvailable_eq HasAvailable_pending vq_wf_def)
next
  case (6 q x xs) then show ?case
    using pending_pop [of q] by (auto simp: PopAvailable_eq HasAvailable_pending)
next
  case (7 q x xs) then show ?case
    using pending_pop [of q] by (auto simp: PopAvailable_eq HasAvailable_pending)
next
  case (8 q x xs) then show ?case
    by (auto simp: PopAvailable_eq HasAvailable_pending head_result_def fun_eq_iff)
qed

end
