(* ===== verification/VirtqueueClaims.thy ===== *)
theory VirtqueueClaims
  imports VirtqueueRings VirtqueueProofs
begin

text \<open>
  The properties of the virtqueue, each with an example queue of four descriptors where its
  hypotheses hold.
\<close>

subsection \<open>An example queue\<close>

definition demo_cfg :: "(u64 \<Rightarrow> byte) VirtqueueConfig" where
  "demo_cfg = \<lparr>qc_Name = ''demo'', qc_Num = 4, qc_Index = 0, qc_Size = 0, qc_QueueType = [],
     qc_MemRead = Some flat_read, qc_MemWrite = Some flat_write, qc_NotifyGuest = None\<rparr>"

definition demo_vq :: "(u64 \<Rightarrow> byte) Virtqueue" where
  "demo_vq = (case NewVirtqueue demo_cfg of Inr vq \<Rightarrow> SetReady vq True)"

lemma demo_new: "NewVirtqueue demo_cfg = Inr (demo_vq\<lparr>vq_ready := False\<rparr>)"
  by (simp add: demo_vq_def NewVirtqueue_def demo_cfg_def queue_num_def Let_def MaxQueueSize_def
      SetReady_def)

lemma demo_vq_eq: "demo_vq = \<lparr>vq_num = 4, vq_maxNum = 4, vq_ready = True,
    vq_descs = replicate 4 zero_desc,
    vq_avail = \<lparr>va_Flags = 0, va_Idx = 0, va_Ring = replicate 4 0\<rparr>,
    vq_used = \<lparr>vu_Flags = 0, vu_Idx = 0, vu_Ring = replicate 4 zero_used_elem\<rparr>,
    vq_lastAvailIdx = 0, vq_memRead = Some flat_read, vq_memWrite = Some flat_write,
    vq_notifyGuest = None, vq_name = ''demo''\<rparr>"
  by (simp add: demo_vq_def NewVirtqueue_def demo_cfg_def queue_num_def Let_def MaxQueueSize_def
      SetReady_def)

lemma demo_reachable: "vq_reachable (demo_vq, w)"
proof -
  have "vq_reachable (demo_vq\<lparr>vq_ready := False\<rparr>, w)"
    using demo_new by (rule vq_reachable.new)
  then have "vq_reachable (SetReady (demo_vq\<lparr>vq_ready := False\<rparr>) True, w)"
    by (rule vq_reachable.step) (rule vq_step.ready)
  then show ?thesis by (simp add: SetReady_def demo_vq_eq)
qed

lemma demo_wf: "vq_wf demo_vq" "vq_ready demo_vq" "vq_num demo_vq = 4" "pending demo_vq = []"
  using vq_reachable_wf [OF demo_reachable] by (simp_all add: demo_vq_eq pending_def)

subsection \<open>Properties\<close>

text \<open>
  C14: PopAvailable returns a chain exactly when the queue is ready and has an available head
  from which the table leads, through descriptors inside the table, to one without NEXT; the
  chain it returns lists the buffers of that run in order, split by the WRITE flag, with the
  byte totals added up modulo \<open>2 ^ 32\<close>.
\<close>
theorem pop_available_chain:
  "snd (PopAvailable vq) = Inr c \<longleftrightarrow>
     vq_ready vq \<and> HasAvailable vq \<and>
     (\<exists>p. desc_run (vq_num vq) (vq_descs vq) (next_head vq) p False \<and>
          c = chain_of (next_head vq) (map (\<lambda>i. vq_descs vq ! unat i) p))"
  by (auto simp: PopAvailable_eq head_result_Inr)

text \<open>
  PopAvailable reports a too-long chain exactly when following the table from the head
  never stops and never leaves the table, so the walk ends on every table a guest can write,
  and a chain that is accepted has at most as many buffers as the queue has descriptors.
\<close>
theorem pop_available_loop:
  "(snd (PopAvailable vq) = Inl ErrChainTooLong \<longleftrightarrow>
      vq_ready vq \<and> HasAvailable vq \<and>
      (\<nexists>p out. desc_run (vq_num vq) (vq_descs vq) (next_head vq) p out)) \<and>
   (snd (PopAvailable vq) = Inr c \<longrightarrow>
      length (dc_Readable c) + length (dc_Writable c) \<le> unat (vq_num vq))"
proof
  show "snd (PopAvailable vq) = Inl ErrChainTooLong \<longleftrightarrow> vq_ready vq \<and> HasAvailable vq \<and>
      (\<nexists>p out. desc_run (vq_num vq) (vq_descs vq) (next_head vq) p out)"
    by (simp add: PopAvailable_eq head_result_def walk_loop_iff)
  show "snd (PopAvailable vq) = Inr c \<longrightarrow>
      length (dc_Readable c) + length (dc_Writable c) \<le> unat (vq_num vq)"
  proof
    assume "snd (PopAvailable vq) = Inr c"
    then obtain p where p: "desc_run (vq_num vq) (vq_descs vq) (next_head vq) p False"
      and c: "c = chain_of (next_head vq) (map (\<lambda>i. vq_descs vq ! unat i) p)"
      by (auto simp: PopAvailable_eq head_result_Inr split: if_splits)
    have "length (dc_Readable c) + length (dc_Writable c) = length p"
      unfolding c chain_of_def
      using sum_length_filter_compl [of is_writable "map (\<lambda>i. vq_descs vq ! unat i) p"]
      by (simp add: add.commute)
    then show "length (dc_Readable c) + length (dc_Writable c) \<le> unat (vq_num vq)"
      using desc_run_length [OF p] by simp
  qed
qed

lemma demo_one_desc:
  "snd (PopAvailable (publish demo_vq 0)) = Inr \<lparr>dc_HeadIndex = 0,
     dc_Readable = [\<lparr>cl_Addr = 0, cl_Len = 0\<rparr>], dc_Writable = [], dc_TotalRead = 0, dc_TotalWrite = 0\<rparr>"
  by (simp add: demo_vq_eq publish_def SetAvailRing_def SetAvailIdx_def PopAvailable_def Let_def
      walk_chain.simps zero_desc_def add_desc_def empty_chain_def desc_link_def vring_consts)

lemma pop_available_loop_witness:
  "length (dc_Readable \<lparr>dc_HeadIndex = 0, dc_Readable = [\<lparr>cl_Addr = 0, cl_Len = 0\<rparr>],
      dc_Writable = [], dc_TotalRead = 0, dc_TotalWrite = 0\<rparr>) + 0 \<le> unat (vq_num (publish demo_vq 0))"
  using pop_available_loop [of "publish demo_vq 0" "\<lparr>dc_HeadIndex = 0,
     dc_Readable = [\<lparr>cl_Addr = 0, cl_Len = 0\<rparr>], dc_Writable = [], dc_TotalRead = 0, dc_TotalWrite = 0\<rparr>"]
    demo_one_desc by simp

text \<open>
  C16: Every state a virtqueue reaches from NewVirtqueue through its methods keeps the layout:
  the size is a power of two of at most 32768 and the three tables have exactly that many
  entries, so no index computed modulo the size, or checked against it, is out of range.
\<close>
theorem virtqueue_layout:
  assumes "vq_reachable (vq, w)"
  shows "(\<exists>k \<le> 15. vq_num vq = 2 ^ k) \<and> length (vq_descs vq) = unat (vq_num vq) \<and>
    length (va_Ring (vq_avail vq)) = unat (vq_num vq) \<and>
    length (vu_Ring (vq_used vq)) = unat (vq_num vq) \<and>
    unat (vq_lastAvailIdx vq mod vq_num vq) < length (va_Ring (vq_avail vq)) \<and>
    unat (UsedIdx vq mod vq_num vq) < length (vu_Ring (vq_used vq))"
  using vq_reachable_wf [OF assms] ring_pos_less [of vq] by (simp add: vq_wf_def)

lemma virtqueue_layout_witness:
  "length (vu_Ring (vq_used demo_vq)) = 4 \<and> unat (UsedIdx demo_vq mod 4) < 4"
  using virtqueue_layout [OF demo_reachable] demo_wf(3) by simp

text \<open>
  The used ring keeps completions in order: after at most as many pushes as the queue
  has entries, starting from any index (the 16-bit index may wrap on the way), the driver
  finds the i-th completion at the i-th position after the old index, and the index has
  advanced by the number of pushes.
\<close>
theorem used_ring_order:
  assumes "vq_wf vq" and "vq_ready vq" and "length es \<le> unat (vq_num vq)" and "i < length es"
  shows "UsedRing (fst (push_all vq es w)) ((UsedIdx vq + of_nat i) mod vq_num vq) =
           Inr \<lparr>ue_ID = ucast (fst (es ! i)), ue_Len = snd (es ! i)\<rparr> \<and>
         UsedIdx (fst (push_all vq es w)) = UsedIdx vq + of_nat (length es)"
proof -
  obtain vq' w' where r: "push_all vq es w = (vq', w')" by force
  from push_all_ring [OF assms(1-3) r] assms(4) show ?thesis
    using ring_pos_in [OF assms(1)] by (simp add: r UsedRing_def used_elem_def not_le)
qed

lemma used_ring_order_witness:
  "UsedRing (fst (push_all (demo_vq\<lparr>vq_used := (vq_used demo_vq)\<lparr>vu_Idx := 65535\<rparr>\<rparr>) [(3, 7), (1, 9)] (\<lambda>_. 0))) 0 =
     Inr \<lparr>ue_ID = 1, ue_Len = 9\<rparr>"
proof -
  let ?vq = "demo_vq\<lparr>vq_used := (vq_used demo_vq)\<lparr>vu_Idx := 65535\<rparr>\<rparr>"
  have "vq_wf ?vq" "vq_ready ?vq" "vq_num ?vq = 4" "UsedIdx ?vq = 65535"
    using demo_wf by (simp_all add: vq_wf_def UsedIdx_def)
  then show ?thesis
    using used_ring_order [of ?vq "[(3, 7), (1, 9)]" 1 "\<lambda>_. 0"] by simp
qed

text \<open>
  C15: The available ring is a first-in-first-out queue: heads the driver publishes on a ready
  queue with nothing pending, as many as the queue has entries at most, come out of as many
  PopAvailable calls in the same order, each delivered as the chain (or the error) its
  descriptors describe.
\<close>
theorem available_ring_fifo:
  assumes "vq_wf vq" and "vq_ready vq" and "pending vq = []" and "length hs \<le> unat (vq_num vq)"
  shows "snd (avail.deq_n (avail.enq_all vq hs) (length hs)) = map (head_result vq) hs"
  using assms by (intro avail.fill_then_drain) simp_all

lemma available_ring_fifo_witness:
  "snd (avail.deq_n (avail.enq_all demo_vq [2, 0, 3]) (length [2, 0, 3 :: u16])) =
     map (head_result demo_vq) [2, 0, 3]"
  by (rule available_ring_fifo) (simp_all add: demo_wf)

text \<open>
  A descriptor stored in its 16-byte form is loaded back unchanged, and any 16 bytes a
  guest places in the table are what storing the loaded descriptor gives.
\<close>
theorem descriptor_roundtrip:
  "LoadDescriptor (StoreDescriptor d) = d \<and>
   (length data = 16 \<longrightarrow> StoreDescriptor (LoadDescriptor data) = data)"
proof
  show "LoadDescriptor (StoreDescriptor d) = d"
    by (simp add: LoadDescriptor_def StoreDescriptor_def gslice_def)
  show "length data = 16 \<longrightarrow> StoreDescriptor (LoadDescriptor data) = data"
  proof
    assume len: "length data = 16"
    then have "StoreDescriptor (LoadDescriptor data) =
        gslice 0 8 data @ gslice 8 12 data @ gslice 12 14 data @ gslice 14 16 data"
      by (simp add: LoadDescriptor_def StoreDescriptor_def)
    also have "\<dots> = gslice 0 16 data" by (simp add: gslice_split)
    finally show "StoreDescriptor (LoadDescriptor data) = data" using len by (simp add: gslice_def)
  qed
qed

lemma descriptor_roundtrip_witness:
  "StoreDescriptor (LoadDescriptor (replicate 16 7)) = replicate 16 7"
  using descriptor_roundtrip [of zero_desc "replicate 16 7"] by simp

text \<open>
  Data written into the writable buffers of a chain is read back intact: when the
  embedder's memory behaves as memory and the buffers do not overlap, WriteChainData copies
  all the bytes that the buffers hold, reports that count and no error, and ReadChainData on
  a chain that lists the same buffers as readable returns the same bytes.
\<close>
theorem chain_data_roundtrip:
  assumes "vq_memRead vq = Some rd" and "vq_memWrite vq = Some wr" and "ram rd wr"
    and "buffers_ok (dc_Writable chain)" and "length dat = links_len (dc_Writable chain)"
    and "dat \<noteq> []" and "WriteChainData vq chain dat w = (w', n, e)"
  shows "e = None \<and> n = length dat \<and>
    ReadChainData vq w' (chain\<lparr>dc_Readable := dc_Writable chain\<rparr>) = Inr dat"
proof -
  have "write_links wr (dc_Writable chain) dat 0 w = (w', n, e)"
    using assms by (simp add: WriteChainData_def)
  from write_links_ram [OF assms(3) this assms(4)] assms(1,5) show ?thesis
    by (simp add: ReadChainData_def)
qed

definition demo_chain :: DescriptorChain where
  "demo_chain = (empty_chain 0)\<lparr>dc_Writable :=
     [\<lparr>cl_Addr = 100, cl_Len = 2\<rparr>, \<lparr>cl_Addr = 50, cl_Len = 1\<rparr>]\<rparr>"

lemma chain_data_roundtrip_witness:
  "ReadChainData demo_vq (fst (WriteChainData demo_vq demo_chain [1, 2, 3] (\<lambda>_. 0)))
     (demo_chain\<lparr>dc_Readable := dc_Writable demo_chain\<rparr>) = Inr [1, 2, 3]"
proof -
  obtain w' n e where r: "WriteChainData demo_vq demo_chain [1, 2, 3] (\<lambda>_. 0) = (w', n, e)"
    by (metis prod_cases3)
  have "vq_memRead demo_vq = Some flat_read" "vq_memWrite demo_vq = Some flat_write"
    by (simp_all add: demo_vq_eq)
  moreover have "buffers_ok (dc_Writable demo_chain)" "length [1, 2, 3 :: byte] = links_len (dc_Writable demo_chain)"
    by (simp_all add: demo_chain_def apart_def)
  ultimately show ?thesis
    using chain_data_roundtrip [OF _ _ ram_flat _ _ _ r] by (simp add: r)
qed

end
