(* ===== verification/Poll.thy ===== *)
theory Poll
  imports VirtqueueRings
begin

text \<open>
  The polling loop that the virtio devices share: pop a chain, handle it, until PopAvailable
  reports an error (\<^verbatim>\<open>processCommands\<close> of the watchdog, \<^verbatim>\<open>processInflate\<close> and
  \<^verbatim>\<open>processDeflate\<close> of the balloon, \<^verbatim>\<open>processRequests\<close> of the entropy device). The
  loop is a \<^theory_text>\<open>partial_function\<close>, so that not returning is \<open>None\<close>; the locale
  \<open>poll_device\<close> says what a handler must promise for the loop to return, and how many
  chains it then has handled.
\<close>

partial_function (option) poll_loop ::
  "('s \<Rightarrow> 'w Virtqueue) \<Rightarrow> ('w Virtqueue \<Rightarrow> 's \<Rightarrow> 's) \<Rightarrow> (DescriptorChain \<Rightarrow> 's \<Rightarrow> 's) \<Rightarrow> 's \<Rightarrow> 's option"
where
  "poll_loop get put handle s =
     (let r = PopAvailable (get s);
          s1 = put (fst r) s
      in if isl (snd r) then Some s1
         else poll_loop get put handle (handle (projr (snd r)) s1))"

text \<open>
  A run of the loop that handles the chains \<open>cs\<close> in this order.
\<close>

inductive poll_trace ::
  "('s \<Rightarrow> 'w Virtqueue) \<Rightarrow> ('w Virtqueue \<Rightarrow> 's \<Rightarrow> 's) \<Rightarrow> (DescriptorChain \<Rightarrow> 's \<Rightarrow> 's) \<Rightarrow>
   's \<Rightarrow> DescriptorChain list \<Rightarrow> 's \<Rightarrow> bool"
  for get put handle where
  stop: "PopAvailable (get s) = (vq, Inl e) \<Longrightarrow> poll_trace get put handle s [] (put vq s)"
| go: "PopAvailable (get s) = (vq, Inr c) \<Longrightarrow>
       poll_trace get put handle (handle c (put vq s)) cs s' \<Longrightarrow>
       poll_trace get put handle s (c # cs) s'"

text \<open>The chains the loop handles: the pending ones, up to the first malformed one.\<close>

definition good_chains :: "'w Virtqueue \<Rightarrow> DescriptorChain list" where
  "good_chains vq = map projr (takeWhile (\<lambda>r. \<not> isl r) (map (head_result vq) (pending vq)))"

lemma head_result_cong:
  "vq_num vq' = vq_num vq \<Longrightarrow> vq_descs vq' = vq_descs vq \<Longrightarrow> head_result vq' = head_result vq"
  by (simp add: head_result_def fun_eq_iff)

lemma pending_cong:
  "vq_num vq' = vq_num vq \<Longrightarrow> vq_avail vq' = vq_avail vq \<Longrightarrow>
   vq_lastAvailIdx vq' = vq_lastAvailIdx vq \<Longrightarrow> pending vq' = pending vq"
  by (simp add: pending_def)

locale poll_device =
  fixes get :: "'s \<Rightarrow> 'w Virtqueue"
    and put :: "'w Virtqueue \<Rightarrow> 's \<Rightarrow> 's"
    and handle :: "DescriptorChain \<Rightarrow> 's \<Rightarrow> 's"
    and ok :: "'s \<Rightarrow> bool"
  assumes get_put: "get (put vq s) = vq"
    and put_ok: "ok s \<Longrightarrow> PopAvailable (get s) = (vq, r) \<Longrightarrow> ok (put vq s)"
    and handle_ok: "ok s \<Longrightarrow> ok (handle c s)"
    and handle_num: "ok s \<Longrightarrow> vq_num (get (handle c s)) = vq_num (get s)"
    and handle_descs: "ok s \<Longrightarrow> vq_descs (get (handle c s)) = vq_descs (get s)"
    and handle_avail: "ok s \<Longrightarrow> vq_avail (get (handle c s)) = vq_avail (get s)"
    and handle_last: "ok s \<Longrightarrow> vq_lastAvailIdx (get (handle c s)) = vq_lastAvailIdx (get s)"
    and handle_ready: "ok s \<Longrightarrow> vq_ready (get (handle c s)) = vq_ready (get s)"
    and handle_used: "ok s \<Longrightarrow> vq_ready (get s) \<Longrightarrow> UsedIdx (get (handle c s)) = UsedIdx (get s) + 1"
begin

lemmas handle_keeps = handle_num handle_descs handle_avail handle_last handle_ready

lemma poll_stop:
  assumes "PopAvailable (get s) = (vq, Inl e)"
  shows "poll_loop get put handle s = Some (put vq s)"
  by (subst poll_loop.simps) (simp add: assms Let_def)

lemma poll_go:
  assumes "PopAvailable (get s) = (vq, Inr c)"
  shows "poll_loop get put handle s = poll_loop get put handle (handle c (put vq s))"
  by (subst poll_loop.simps) (simp add: assms Let_def)

lemma poll_ready:
  "ok s \<Longrightarrow> vq_ready (get s) \<Longrightarrow>
   \<exists>s'. poll_loop get put handle s = Some s' \<and>
        poll_trace get put handle s (good_chains (get s)) s'"
proof (induction "length (pending (get s))" arbitrary: s rule: less_induct)
  case less
  obtain vq r where pop: "PopAvailable (get s) = (vq, r)" by force
  have ready: "vq_ready vq" using walk_keeps [OF pop] less.prems(2) by simp
  have ok1: "ok (put vq s)" using put_ok [OF less.prems(1) pop] .
  show ?case
  proof (cases r)
    case (Inl e)
    have "good_chains (get s) = []"
      using pop Inl less.prems(2) pending_pop [of "get s"]
      by (auto simp: good_chains_def PopAvailable_eq HasAvailable_pending split: if_splits)
    then show ?thesis
      using poll_stop [OF pop [unfolded Inl]] poll_trace.stop [of get s, OF pop [unfolded Inl]] by simp
  next
    case (Inr c)
    have avail: "HasAvailable (get s)" and vq: "vq = get s\<lparr>vq_lastAvailIdx := vq_lastAvailIdx (get s) + 1\<rparr>"
      and head: "head_result (get s) (next_head (get s)) = Inr c"
      using pop Inr by (auto simp: PopAvailable_eq split: if_splits)
    let ?s = "handle c (put vq s)"
    have pend: "pending (get ?s) = pending vq"
      by (rule pending_cong) (simp_all add: handle_keeps [OF ok1] get_put)
    have "length (pending (get ?s)) < length (pending (get s))"
      using pending_pop [OF avail] pend vq by simp
    moreover have "ok ?s" by (rule handle_ok [OF ok1])
    moreover have "vq_ready (get ?s)" by (simp add: handle_ready [OF ok1] get_put ready)
    ultimately obtain s' where s': "poll_loop get put handle ?s = Some s'"
      "poll_trace get put handle ?s (good_chains (get ?s)) s'"
      using less.hyps [of ?s] by blast
    have "head_result (get ?s) = head_result (get s)"
      using walk_keeps [OF pop]
      by (intro head_result_cong) (simp_all add: handle_keeps [OF ok1] get_put)
    then have "good_chains (get s) = c # good_chains (get ?s)"
      using pending_pop [OF avail] pend vq head by (simp add: good_chains_def)
    then show ?thesis
      using poll_go [OF pop [unfolded Inr]] poll_trace.go [of get s, OF pop [unfolded Inr] s'(2)] s'(1) by simp
  qed
qed

lemma trace_keeps:
  "poll_trace get put handle s cs s' \<Longrightarrow> ok s \<Longrightarrow> vq_ready (get s) \<Longrightarrow>
   ok s' \<and> vq_ready (get s') \<and> UsedIdx (get s') = UsedIdx (get s) + of_nat (length cs)"
proof (induction rule: poll_trace.induct)
  case (stop s vq e)
  then show ?case
    using walk_keeps [OF stop(1)] put_ok [OF stop(2,1)] by (simp add: get_put UsedIdx_def)
next
  case (go s vq c cs s')
  have ok1: "ok (put vq s)" using put_ok [OF go.prems(1) go.hyps(1)] .
  have "vq_ready vq" "UsedIdx vq = UsedIdx (get s)"
    using walk_keeps [OF go.hyps(1)] go.prems(2) by (simp_all add: UsedIdx_def)
  then show ?case
    using go.IH handle_ok [OF ok1] handle_ready [OF ok1] handle_used [OF ok1]
    by (simp add: get_put add.assoc)
qed

lemma poll_not_ready:
  "\<not> vq_ready (get s) \<Longrightarrow> poll_loop get put handle s = Some (put (get s) s)"
  by (intro poll_stop) (simp add: PopAvailable_eq)

lemma poll_served:
  assumes "ok s" and "vq_ready (get s)"
  shows "\<exists>s'. poll_loop get put handle s = Some s' \<and> ok s' \<and>
    poll_trace get put handle s (good_chains (get s)) s' \<and>
    UsedIdx (get s') = UsedIdx (get s) + of_nat (length (good_chains (get s)))"
  using poll_ready [OF assms] trace_keeps assms by blast

lemma poll_invariant: "ok s \<Longrightarrow> \<exists>s'. poll_loop get put handle s = Some s' \<and> ok s'"
proof (cases "vq_ready (get s)")
  case True
  assume "ok s"
  then show ?thesis using poll_served [of s] True by auto
next
  case False
  assume "ok s"
  moreover have "PopAvailable (get s) = (get s, Inl ErrQueueNotReady)"
    using False by (simp add: PopAvailable_eq)
  ultimately show ?thesis using poll_not_ready [OF False] put_ok by fastforce
qed

end

text \<open>A device that counts the chains it serves.\<close>

locale poll_counter = poll_device get put handle ok
  for get :: "'s \<Rightarrow> 'w Virtqueue" and put handle ok +
  fixes served :: "'s \<Rightarrow> u64"
  assumes handle_served: "served (handle c s) = served s + 1"
    and put_served: "served (put vq s) = served s"
begin

lemma trace_served:
  "poll_trace get put handle s cs s' \<Longrightarrow> served s' = served s + of_nat (length cs)"
  by (induction rule: poll_trace.induct) (simp_all add: handle_served put_served add.assoc)

lemma poll_counted:
  assumes "ok s" and "vq_ready (get s)"
  shows "\<exists>s'. poll_loop get put handle s = Some s' \<and> ok s' \<and>
    UsedIdx (get s') = UsedIdx (get s) + of_nat (length (good_chains (get s))) \<and>
    served s' = served s + of_nat (length (good_chains (get s)))"
  using poll_served [OF assms] trace_served by blast

end

end
