(* ===== verification/Watchdog.thy ===== *)
theory Watchdog
  imports Poll
begin

text \<open>
  Model of \<^verbatim>\<open>internal/virtio/watchdog.go\<close>: the watchdog timer device. Times and durations are
  nanoseconds, as in Go's \<^verbatim>\<open>time\<close> package; the clock reading of a method is its argument
  \<open>now\<close>. A \<^verbatim>\<open>*time.Timer\<close> is the deadline it was armed for and whether it is still
  pending, nil is \<open>None\<close>; the zero \<^verbatim>\<open>time.Time\<close> of \<^verbatim>\<open>lastHeartbeat\<close> is \<open>None\<close>.
  Closing a channel that is already closed panics, which is the error \<open>WdClosedChannel\<close>.
  The expiry handler acts on the world, like the queue's notification callback.

  The conversions \<^verbatim>\<open>d.Seconds()\<close> to an integer are written as whole seconds: the float
  computation is exact for the durations that occur (ten minutes at most).
\<close>

subsection \<open>Constants and data\<close>

definition watchdogDefaultTimeout :: int where "watchdogDefaultTimeout = 30 * second"
definition watchdogMinTimeout :: int where "watchdogMinTimeout = 1 * second"
definition watchdogMaxTimeout :: int where "watchdogMaxTimeout = 10 * 60 * second"
definition watchdogQueueSize :: int where "watchdogQueueSize = 16"

lemmas watchdog_consts = second_def watchdogDefaultTimeout_def watchdogMinTimeout_def
  watchdogMaxTimeout_def watchdogQueueSize_def

definition WatchdogCmdHeartbeat :: u32 where "WatchdogCmdHeartbeat = 1"
definition WatchdogCmdSetTimeout :: u32 where "WatchdogCmdSetTimeout = 2"
definition WatchdogCmdEnable :: u32 where "WatchdogCmdEnable = 3"
definition WatchdogCmdDisable :: u32 where "WatchdogCmdDisable = 4"
definition WatchdogCmdGetStatus :: u32 where "WatchdogCmdGetStatus = 5"

lemmas watchdog_cmds = WatchdogCmdHeartbeat_def WatchdogCmdSetTimeout_def WatchdogCmdEnable_def
  WatchdogCmdDisable_def WatchdogCmdGetStatus_def

datatype WatchdogAction =
    WatchdogActionReset
  | WatchdogActionShutdown
  | WatchdogActionPoweroff
  | WatchdogActionPause
  | WatchdogActionNone
  | WatchdogActionOther int

fun action_code :: "WatchdogAction \<Rightarrow> int" where
  "action_code WatchdogActionReset = 0"
| "action_code WatchdogActionShutdown = 1"
| "action_code WatchdogActionPoweroff = 2"
| "action_code WatchdogActionPause = 3"
| "action_code WatchdogActionNone = 4"
| "action_code (WatchdogActionOther n) = n"

fun action_String :: "WatchdogAction \<Rightarrow> string" where
  "action_String WatchdogActionReset = ''reset''"
| "action_String WatchdogActionShutdown = ''shutdown''"
| "action_String WatchdogActionPoweroff = ''poweroff''"
| "action_String WatchdogActionPause = ''pause''"
| "action_String WatchdogActionNone = ''none''"
| "action_String (WatchdogActionOther _) = ''unknown''"

datatype wd_error =
    WdUnknownAction string
  | WdNoDeviceID
  | WdQueue vq_error
  | WdAlreadyRunning string
  | WdClosedChannel

definition ParseWatchdogAction :: "string \<Rightarrow> wd_error + WatchdogAction" where
  "ParseWatchdogAction s =
     (if s = ''reset'' then Inr WatchdogActionReset
      else if s = ''shutdown'' then Inr WatchdogActionShutdown
      else if s = ''poweroff'' then Inr WatchdogActionPoweroff
      else if s = ''pause'' then Inr WatchdogActionPause
      else if s = ''none'' then Inr WatchdogActionNone
      else Inl (WdUnknownAction s))"

type_synonym 'w expiry_handler = "string \<Rightarrow> WatchdogAction \<Rightarrow> 'w \<Rightarrow> 'w"

record 'w VirtioWatchdogConfig =
  wc_Timeout :: int
  wc_Action :: WatchdogAction
  wc_QueueSize :: int
  wc_AutoStart :: bool
  wc_ExpiryHandler :: "'w expiry_handler option"

record 'w VirtioWatchdog =
  wd_deviceID :: string
  wd_config :: "'w VirtioWatchdogConfig"
  wd_vq :: "'w Virtqueue"
  wd_running :: bool
  wd_stopClosed :: bool
  wd_enabled :: bool
  wd_timer :: "(int \<times> bool) option"
  wd_lastHeartbeat :: "int option"
  wd_heartbeats :: u64
  wd_commands :: u64
  wd_expiries :: u64

record WatchdogStats =
  ws_Heartbeats :: u64
  ws_Commands :: u64
  ws_Expiries :: u64
  ws_Enabled :: bool
  ws_Timeout :: int
  ws_Action :: string
  ws_LastPet :: "int option"
  ws_TimeToExpiry :: int

subsection \<open>Construction\<close>

definition clamp_config :: "'w VirtioWatchdogConfig \<Rightarrow> 'w VirtioWatchdogConfig" where
  "clamp_config cfg =
     (let cfg = (if wc_Timeout cfg \<le> 0 then cfg\<lparr>wc_Timeout := watchdogDefaultTimeout\<rparr> else cfg);
          cfg = (if wc_Timeout cfg < watchdogMinTimeout then cfg\<lparr>wc_Timeout := watchdogMinTimeout\<rparr> else cfg);
          cfg = (if wc_Timeout cfg > watchdogMaxTimeout then cfg\<lparr>wc_Timeout := watchdogMaxTimeout\<rparr> else cfg)
      in if wc_QueueSize cfg \<le> 0 then cfg\<lparr>wc_QueueSize := watchdogQueueSize\<rparr> else cfg)"

definition device_queue :: "string \<Rightarrow> int \<Rightarrow> vq_error + 'w Virtqueue" where
  "device_queue name n =
     NewVirtqueue \<lparr>qc_Name = name, qc_Num = word_of_int n, qc_Index = 0, qc_Size = 0,
                   qc_QueueType = [], qc_MemRead = None, qc_MemWrite = None, qc_NotifyGuest = None\<rparr>"

definition NewVirtioWatchdog ::
  "string \<Rightarrow> 'w VirtioWatchdogConfig \<Rightarrow> wd_error + 'w VirtioWatchdog" where
  "NewVirtioWatchdog deviceID cfg =
     (if deviceID = [] then Inl WdNoDeviceID
      else let cfg = clamp_config cfg
           in case device_queue ''controlq'' (wc_QueueSize cfg) of
                Inl e \<Rightarrow> Inl (WdQueue e)
              | Inr vq \<Rightarrow> Inr \<lparr>wd_deviceID = deviceID, wd_config = cfg, wd_vq = vq,
                  wd_running = False, wd_stopClosed = False, wd_enabled = wc_AutoStart cfg,
                  wd_timer = None, wd_lastHeartbeat = None, wd_heartbeats = 0,
                  wd_commands = 0, wd_expiries = 0\<rparr>)"

subsection \<open>Timer\<close>

definition armTimer :: "'w VirtioWatchdog \<Rightarrow> int \<Rightarrow> 'w VirtioWatchdog" where
  "armTimer wd now = wd\<lparr>wd_timer := Some (now + wc_Timeout (wd_config wd), True)\<rparr>"

definition handleHeartbeat :: "'w VirtioWatchdog \<Rightarrow> int \<Rightarrow> 'w VirtioWatchdog" where
  "handleHeartbeat wd now =
     (let wd = wd\<lparr>wd_lastHeartbeat := Some now, wd_heartbeats := wd_heartbeats wd + 1\<rparr>
      in if wd_enabled wd then armTimer wd now else wd)"

definition stop_timer :: "'w VirtioWatchdog \<Rightarrow> 'w VirtioWatchdog" where
  "stop_timer wd = wd\<lparr>wd_timer := None\<rparr>"

definition onExpiry :: "'w VirtioWatchdog \<Rightarrow> 'w \<Rightarrow> 'w VirtioWatchdog \<times> 'w" where
  "onExpiry wd w =
     (let wd = wd\<lparr>wd_expiries := wd_expiries wd + 1\<rparr>;
          action = wc_Action (wd_config wd);
          handler = wc_ExpiryHandler (wd_config wd)
      in if \<not> wd_enabled wd then (wd, w)
         else case handler of
                None \<Rightarrow> (wd, w)
              | Some h \<Rightarrow> (wd, h (wd_deviceID wd) action w))"

text \<open>The runtime's side of \<^verbatim>\<open>time.AfterFunc\<close>: a pending timer fires once its deadline has passed.\<close>

definition timer_due :: "'w VirtioWatchdog \<Rightarrow> int \<Rightarrow> bool" where
  "timer_due wd now \<longleftrightarrow>
     (case wd_timer wd of Some (deadline, pend) \<Rightarrow> pend \<and> deadline \<le> now | None \<Rightarrow> False)"

definition timer_fire :: "'w VirtioWatchdog \<Rightarrow> 'w \<Rightarrow> 'w VirtioWatchdog \<times> 'w" where
  "timer_fire wd w = onExpiry (wd\<lparr>wd_timer := map_option (\<lambda>t. (fst t, False)) (wd_timer wd)\<rparr>) w"

subsection \<open>Lifecycle\<close>

definition wd_Start :: "'w VirtioWatchdog \<Rightarrow> int \<Rightarrow> wd_error + 'w VirtioWatchdog" where
  "wd_Start wd now =
     (if wd_running wd then Inl (WdAlreadyRunning (wd_deviceID wd))
      else let wd = wd\<lparr>wd_running := True\<rparr>
           in Inr (if wc_AutoStart (wd_config wd) then armTimer wd now else wd))"

definition wd_Stop :: "'w VirtioWatchdog \<Rightarrow> wd_error + 'w VirtioWatchdog" where
  "wd_Stop wd =
     (if \<not> wd_running wd then Inr wd
      else if wd_stopClosed wd then Inl WdClosedChannel
      else Inr (stop_timer (wd\<lparr>wd_running := False, wd_stopClosed := True\<rparr>)))"

definition wd_Reset :: "'w VirtioWatchdog \<Rightarrow> wd_error + 'w VirtioWatchdog" where
  "wd_Reset wd =
     (if wd_running wd \<and> wd_stopClosed wd then Inl WdClosedChannel
      else Inr (stop_timer (wd\<lparr>wd_running := False\<rparr>)
             \<lparr>wd_enabled := wc_AutoStart (wd_config wd), wd_lastHeartbeat := None,
              wd_heartbeats := 0, wd_commands := 0, wd_expiries := 0,
              wd_vq := vq_Reset (wd_vq wd), wd_stopClosed := False\<rparr>))"

subsection \<open>Configuration\<close>

text \<open>
  \<open>parse_duration\<close> stands for \<^verbatim>\<open>time.ParseDuration\<close> (\<open>None\<close> is its error).
\<close>

definition set_timeout :: "'w VirtioWatchdog \<Rightarrow> int \<Rightarrow> int \<Rightarrow> 'w VirtioWatchdog" where
  "set_timeout wd d now =
     (if d \<ge> watchdogMinTimeout \<and> d \<le> watchdogMaxTimeout
      then let wd = wd\<lparr>wd_config := (wd_config wd)\<lparr>wc_Timeout := d\<rparr>\<rparr>
           in if wd_enabled wd then armTimer wd now else wd
      else wd)"

definition wd_enable :: "'w VirtioWatchdog \<Rightarrow> int \<Rightarrow> 'w VirtioWatchdog" where
  "wd_enable wd now = (if \<not> wd_enabled wd then armTimer (wd\<lparr>wd_enabled := True\<rparr>) now else wd)"

definition wd_disable :: "'w VirtioWatchdog \<Rightarrow> 'w VirtioWatchdog" where
  "wd_disable wd = stop_timer (wd\<lparr>wd_enabled := False\<rparr>)"

definition wd_Configure ::
  "(string \<Rightarrow> int option) \<Rightarrow> (string \<rightharpoonup> string) \<Rightarrow> 'w VirtioWatchdog \<Rightarrow> int \<Rightarrow> 'w VirtioWatchdog" where
  "wd_Configure parse_duration config wd now =
     (let wd = (case config ''timeout'' of
                  None \<Rightarrow> wd
                | Some v \<Rightarrow> (case parse_duration v of None \<Rightarrow> wd | Some d \<Rightarrow> set_timeout wd d now));
          wd = (case config ''action'' of
                  None \<Rightarrow> wd
                | Some v \<Rightarrow> (case ParseWatchdogAction v of
                              Inl _ \<Rightarrow> wd
                            | Inr a \<Rightarrow> wd\<lparr>wd_config := (wd_config wd)\<lparr>wc_Action := a\<rparr>\<rparr>))
      in case config ''enabled'' of
           None \<Rightarrow> wd
         | Some v \<Rightarrow> if v = ''true'' \<or> v = ''1'' then wd_enable wd now
                     else if v = ''false'' \<or> v = ''0'' then wd_disable wd
                     else wd)"

definition IsEnabled :: "'w VirtioWatchdog \<Rightarrow> bool" where
  "IsEnabled wd = wd_enabled wd"

definition Pet :: "'w VirtioWatchdog \<Rightarrow> int \<Rightarrow> 'w VirtioWatchdog" where
  "Pet wd now = handleHeartbeat wd now"

definition SetExpiryHandler :: "'w VirtioWatchdog \<Rightarrow> 'w expiry_handler option \<Rightarrow> 'w VirtioWatchdog" where
  "SetExpiryHandler wd handler = wd\<lparr>wd_config := (wd_config wd)\<lparr>wc_ExpiryHandler := handler\<rparr>\<rparr>"

definition wd_remaining :: "'w VirtioWatchdog \<Rightarrow> int \<Rightarrow> int" where
  "wd_remaining wd now =
     (case wd_lastHeartbeat wd of
        None \<Rightarrow> 0
      | Some t \<Rightarrow> let rem = t + wc_Timeout (wd_config wd) - now
                  in if wd_enabled wd \<and> rem > 0 then rem else 0)"

definition wd_Stats :: "'w VirtioWatchdog \<Rightarrow> int \<Rightarrow> WatchdogStats" where
  "wd_Stats wd now =
     \<lparr>ws_Heartbeats = wd_heartbeats wd, ws_Commands = wd_commands wd, ws_Expiries = wd_expiries wd,
      ws_Enabled = wd_enabled wd, ws_Timeout = wc_Timeout (wd_config wd),
      ws_Action = action_String (wc_Action (wd_config wd)), ws_LastPet = wd_lastHeartbeat wd,
      ws_TimeToExpiry = wd_remaining wd now\<rparr>"

subsection \<open>Commands from the guest\<close>

definition writeStatus :: "'w VirtioWatchdog \<Rightarrow> int \<Rightarrow> bytes" where
  "writeStatus wd now =
     put_le 4 (if wd_enabled wd then 1 else 0 :: u32) @
     put_le 4 (word_of_int (wc_Timeout (wd_config wd) div second) :: u32) @
     put_le 4 (word_of_int (wd_remaining wd now div second) :: u32) @
     put_le 4 (ucast (wd_expiries wd) :: u32)"

definition wd_finish ::
  "'w VirtioWatchdog \<Rightarrow> DescriptorChain \<Rightarrow> 'w \<Rightarrow> 'w VirtioWatchdog \<times> 'w" where
  "wd_finish wd chain w =
     (case PushUsed (wd_vq wd) (dc_HeadIndex chain) 0 w of (vq, w', _) \<Rightarrow> (wd\<lparr>wd_vq := vq\<rparr>, w'))"

definition handleCommand ::
  "int \<Rightarrow> DescriptorChain \<Rightarrow> 'w VirtioWatchdog \<times> 'w \<Rightarrow> 'w VirtioWatchdog \<times> 'w" where
  "handleCommand now chain s =
     (let (wd, w) = s;
          wd = wd\<lparr>wd_commands := wd_commands wd + 1\<rparr>
      in if dc_Readable chain = [] \<or> dc_TotalRead chain < 4
         then wd_finish (handleHeartbeat wd now) chain w
         else case ReadChainData (wd_vq wd) w chain of
           Inl _ \<Rightarrow> wd_finish wd chain w
         | Inr cmdBytes \<Rightarrow>
             if length cmdBytes < 4 then wd_finish wd chain w
             else let cmd = get_le (gslice 0 4 cmdBytes) :: u32
               in if cmd = WatchdogCmdHeartbeat then wd_finish (handleHeartbeat wd now) chain w
                  else if cmd = WatchdogCmdSetTimeout then
                    (if length cmdBytes \<ge> 8
                     then let secs = get_le (gslice 4 8 cmdBytes) :: u32
                          in wd_finish (set_timeout wd (uint secs * second) now) chain w
                     else wd_finish wd chain w)
                  else if cmd = WatchdogCmdEnable then wd_finish (wd_enable wd now) chain w
                  else if cmd = WatchdogCmdDisable then wd_finish (wd_disable wd) chain w
                  else if cmd = WatchdogCmdGetStatus then
                    (if dc_Writable chain \<noteq> [] \<and> dc_TotalWrite chain \<ge> 16
                     then wd_finish wd chain (fst (WriteChainData (wd_vq wd) chain (writeStatus wd now) w))
                     else wd_finish wd chain w)
                  else wd_finish wd chain w)"

definition processCommands ::
  "int \<Rightarrow> 'w VirtioWatchdog \<times> 'w \<Rightarrow> ('w VirtioWatchdog \<times> 'w) option" where
  "processCommands now s =
     poll_loop (\<lambda>s. wd_vq (fst s)) (\<lambda>vq s. ((fst s)\<lparr>wd_vq := vq\<rparr>, snd s)) (handleCommand now) s"

subsection \<open>Configuration space and features\<close>

record VirtioWatchdogConfigSpace =
  wcs_TimeoutSecs :: u32
  wcs_Action :: u32

definition wcs_Bytes :: "VirtioWatchdogConfigSpace \<Rightarrow> bytes" where
  "wcs_Bytes c = put_le 4 (wcs_TimeoutSecs c) @ put_le 4 (wcs_Action c)"

definition wd_GetConfigSpace :: "'w VirtioWatchdog \<Rightarrow> VirtioWatchdogConfigSpace" where
  "wd_GetConfigSpace wd =
     \<lparr>wcs_TimeoutSecs = word_of_int (wc_Timeout (wd_config wd) div second),
      wcs_Action = word_of_int (action_code (wc_Action (wd_config wd)))\<rparr>"

definition VirtioWatchdogFSetTimeout :: u64 where "VirtioWatchdogFSetTimeout = 1"
definition VirtioWatchdogFGuestDisable :: u64 where "VirtioWatchdogFGuestDisable = 2"
definition VirtioWatchdogFStatus :: u64 where "VirtioWatchdogFStatus = 4"

definition wd_NegotiateFeatures :: "u64 \<Rightarrow> u64" where
  "wd_NegotiateFeatures offered =
     offered AND (VirtioWatchdogFSetTimeout OR VirtioWatchdogFGuestDisable OR VirtioWatchdogFStatus)"

end
