(* ===== verification/WatchdogProofs.thy ===== *)
theory WatchdogProofs
  imports Watchdog VirtqueueClaims
begin

text \<open>
  Lemmas and properties of the watchdog device. A run of the device is a sequence of its
  methods, guest polls and timer firings on a clock that does not go backwards; the invariant
  \<open>wd_inv\<close> bounds the timeout and says how far a pending deadline is from the last
  heartbeat. The command loop is an instance of the locale \<open>poll_counter\<close>.
\<close>

subsection \<open>The invariant\<close>

definition wd_inv :: "int \<Rightarrow> 'w VirtioWatchdog \<Rightarrow> bool" where
  "wd_inv now wd \<longleftrightarrow>
     watchdogMinTimeout \<le> wc_Timeout (wd_config wd) \<and> wc_Timeout (wd_config wd) \<le> watchdogMaxTimeout \<and>
     (\<forall>t. wd_lastHeartbeat wd = Some t \<longrightarrow> t \<le> now) \<and>
     (\<forall>d p. wd_timer wd = Some (d, p) \<longrightarrow> d \<le> now + watchdogMaxTimeout) \<and>
     (wd_enabled wd \<longrightarrow> (\<forall>t d p. wd_lastHeartbeat wd = Some t \<longrightarrow> wd_timer wd = Some (d, p) \<longrightarrow>
        t + watchdogMinTimeout \<le> d))"

lemma clamp_timeout:
  "watchdogMinTimeout \<le> wc_Timeout (clamp_config cfg)" "wc_Timeout (clamp_config cfg) \<le> watchdogMaxTimeout"
  by (auto simp: clamp_config_def Let_def watchdog_consts)

lemma wd_inv_new: "NewVirtioWatchdog dev cfg = Inr wd \<Longrightarrow> wd_inv now wd"
  by (auto simp: NewVirtioWatchdog_def Let_def wd_inv_def clamp_timeout split: if_splits sum.splits)

named_theorems wd_keep

lemma armTimer_inv [wd_keep]: "wd_inv now wd \<Longrightarrow> wd_inv now (armTimer wd now)"
  by (auto simp: wd_inv_def armTimer_def watchdog_consts)

lemma heartbeat_inv [wd_keep]: "wd_inv now wd \<Longrightarrow> wd_inv now (handleHeartbeat wd now)"
  by (auto simp: wd_inv_def handleHeartbeat_def armTimer_def watchdog_consts Let_def)

lemma enable_inv [wd_keep]: "wd_inv now wd \<Longrightarrow> wd_inv now (wd_enable wd now)"
  by (auto simp: wd_inv_def wd_enable_def armTimer_def watchdog_consts)

lemma disable_inv [wd_keep]: "wd_inv now wd \<Longrightarrow> wd_inv now (wd_disable wd)"
  by (auto simp: wd_inv_def wd_disable_def stop_timer_def)

lemma set_timeout_inv [wd_keep]: "wd_inv now wd \<Longrightarrow> wd_inv now (set_timeout wd d now)"
  by (auto simp: wd_inv_def set_timeout_def armTimer_def watchdog_consts Let_def)

lemma count_inv [wd_keep]:
  "wd_inv now wd \<Longrightarrow> wd_inv now (wd\<lparr>wd_commands := n\<rparr>)"
  "wd_inv now wd \<Longrightarrow> wd_inv now (wd\<lparr>wd_vq := vq\<rparr>)"
  "wd_inv now wd \<Longrightarrow> wd_inv now (wd\<lparr>wd_config := (wd_config wd)\<lparr>wc_Action := a\<rparr>\<rparr>)"
  "wd_inv now wd \<Longrightarrow> wd_inv now (wd\<lparr>wd_config := (wd_config wd)\<lparr>wc_ExpiryHandler := h\<rparr>\<rparr>)"
  by (simp_all add: wd_inv_def)

lemma finish_inv: "wd_inv now wd \<Longrightarrow> wd_inv now (fst (wd_finish wd chain w))"
  by (simp add: wd_finish_def wd_inv_def split: prod.splits)

lemma handleCommand_inv: "wd_inv now (fst s) \<Longrightarrow> wd_inv now (fst (handleCommand now chain s))"
  by (cases s) (auto simp: handleCommand_def Let_def intro!: finish_inv wd_keep split: sum.splits)

lemma Configure_inv: "wd_inv now wd \<Longrightarrow> wd_inv now (wd_Configure pd cfg wd now)"
  by (auto simp: wd_Configure_def Let_def intro!: wd_keep split: option.splits sum.splits)

lemma Start_inv: "wd_inv now wd \<Longrightarrow> wd_Start wd now = Inr wd' \<Longrightarrow> wd_inv now wd'"
  by (auto simp: wd_Start_def Let_def wd_inv_def armTimer_def watchdog_consts split: if_splits)

lemma Stop_inv: "wd_inv now wd \<Longrightarrow> wd_Stop wd = Inr wd' \<Longrightarrow> wd_inv now wd'"
  by (auto simp: wd_Stop_def wd_inv_def stop_timer_def split: if_splits)

lemma Reset_inv: "wd_inv now wd \<Longrightarrow> wd_Reset wd = Inr wd' \<Longrightarrow> wd_inv now wd'"
  by (auto simp: wd_Reset_def wd_inv_def stop_timer_def split: if_splits)

lemma onExpiry_frame:
  "wd_config (fst (onExpiry wd w)) = wd_config wd" "wd_enabled (fst (onExpiry wd w)) = wd_enabled wd"
  "wd_lastHeartbeat (fst (onExpiry wd w)) = wd_lastHeartbeat wd" "wd_timer (fst (onExpiry wd w)) = wd_timer wd"
  by (simp_all add: onExpiry_def Let_def split: option.splits)

lemma fire_inv: "wd_inv now wd \<Longrightarrow> wd_inv now (fst (timer_fire wd w))"
  by (auto simp: timer_fire_def wd_inv_def onExpiry_frame)

lemma later_inv: "wd_inv now wd \<Longrightarrow> now \<le> now' \<Longrightarrow> wd_inv now' wd"
  by (force simp: wd_inv_def)

subsection \<open>The command loop\<close>

lemma finish_vq:
  assumes "wd_finish wd chain w = (wd', w')"
  shows "vq_num (wd_vq wd') = vq_num (wd_vq wd) \<and> vq_descs (wd_vq wd') = vq_descs (wd_vq wd) \<and>
    vq_avail (wd_vq wd') = vq_avail (wd_vq wd) \<and> vq_lastAvailIdx (wd_vq wd') = vq_lastAvailIdx (wd_vq wd) \<and>
    vq_ready (wd_vq wd') = vq_ready (wd_vq wd) \<and> wd_commands wd' = wd_commands wd \<and>
    (vq_ready (wd_vq wd) \<longrightarrow> UsedIdx (wd_vq wd') = UsedIdx (wd_vq wd) + 1)"
  using assms by (auto simp: wd_finish_def PushUsed_def Let_def UsedIdx_def split: prod.splits if_splits)

text \<open>Whatever a command does, it ends by pushing its chain, with one more command counted.\<close>

definition ends_with :: "'w Virtqueue \<Rightarrow> u64 \<Rightarrow> DescriptorChain \<Rightarrow> 'w VirtioWatchdog \<times> 'w \<Rightarrow> bool" where
  "ends_with vq n chain r \<longleftrightarrow>
     (\<exists>wd w. r = wd_finish wd chain w \<and> wd_vq wd = vq \<and> wd_commands wd = n)"

lemma ends_withI: "wd_vq wd = vq \<Longrightarrow> wd_commands wd = n \<Longrightarrow> ends_with vq n chain (wd_finish wd chain w)"
  unfolding ends_with_def by blast

lemma command_frame:
  "wd_vq (handleHeartbeat wd now) = wd_vq wd" "wd_commands (handleHeartbeat wd now) = wd_commands wd"
  "wd_vq (set_timeout wd d now) = wd_vq wd" "wd_commands (set_timeout wd d now) = wd_commands wd"
  "wd_vq (wd_enable wd now) = wd_vq wd" "wd_commands (wd_enable wd now) = wd_commands wd"
  "wd_vq (wd_disable wd) = wd_vq wd" "wd_commands (wd_disable wd) = wd_commands wd"
  by (simp_all add: handleHeartbeat_def set_timeout_def wd_enable_def wd_disable_def armTimer_def
      stop_timer_def Let_def)

lemma handleCommand_finish:
  "ends_with (wd_vq (fst s)) (wd_commands (fst s) + 1) chain (handleCommand now chain s)"
  by (cases s) (simp add: handleCommand_def Let_def ends_withI command_frame split: sum.splits)

lemma handleCommand_frame:
  "vq_num (wd_vq (fst (handleCommand now chain s))) = vq_num (wd_vq (fst s))"
  "vq_descs (wd_vq (fst (handleCommand now chain s))) = vq_descs (wd_vq (fst s))"
  "vq_avail (wd_vq (fst (handleCommand now chain s))) = vq_avail (wd_vq (fst s))"
  "vq_lastAvailIdx (wd_vq (fst (handleCommand now chain s))) = vq_lastAvailIdx (wd_vq (fst s))"
  "vq_ready (wd_vq (fst (handleCommand now chain s))) = vq_ready (wd_vq (fst s))"
  "wd_commands (fst (handleCommand now chain s)) = wd_commands (fst s) + 1"
  "vq_ready (wd_vq (fst s)) \<Longrightarrow>
     UsedIdx (wd_vq (fst (handleCommand now chain s))) = UsedIdx (wd_vq (fst s)) + 1"
proof -
  obtain wd' w' wd2 w2 where h: "handleCommand now chain s = (wd2, w2)" "wd_finish wd' chain w' = (wd2, w2)"
    "wd_vq wd' = wd_vq (fst s)" "wd_commands wd' = wd_commands (fst s) + 1"
    using handleCommand_finish [of s chain now] unfolding ends_with_def by (metis surj_pair)
  note f = finish_vq [OF h(2)] h(1,3,4)
  show "vq_num (wd_vq (fst (handleCommand now chain s))) = vq_num (wd_vq (fst s))"
    "vq_descs (wd_vq (fst (handleCommand now chain s))) = vq_descs (wd_vq (fst s))"
    "vq_avail (wd_vq (fst (handleCommand now chain s))) = vq_avail (wd_vq (fst s))"
    "vq_lastAvailIdx (wd_vq (fst (handleCommand now chain s))) = vq_lastAvailIdx (wd_vq (fst s))"
    "vq_ready (wd_vq (fst (handleCommand now chain s))) = vq_ready (wd_vq (fst s))"
    "wd_commands (fst (handleCommand now chain s)) = wd_commands (fst s) + 1"
    "vq_ready (wd_vq (fst s)) \<Longrightarrow>
     UsedIdx (wd_vq (fst (handleCommand now chain s))) = UsedIdx (wd_vq (fst s)) + 1"
    using f by simp_all
qed

interpretation wd_poll: poll_counter
  "\<lambda>s. wd_vq (fst s)" "\<lambda>vq s. ((fst s)\<lparr>wd_vq := vq\<rparr>, snd s)" "handleCommand now"
  "\<lambda>s. wd_inv now (fst s)" "\<lambda>s. wd_commands (fst s)" for now
  by unfold_locales (simp_all add: handleCommand_frame handleCommand_inv count_inv)

subsection \<open>Runs of the device\<close>

text \<open>The state of a run is the device, the world and the clock.\<close>

inductive wd_step :: "(string \<Rightarrow> int option) \<Rightarrow>
    'w VirtioWatchdog \<times> 'w \<times> int \<Rightarrow> 'w VirtioWatchdog \<times> 'w \<times> int \<Rightarrow> bool"
  for parse_duration where
  start: "wd_Start wd now = Inr wd' \<Longrightarrow> wd_step parse_duration (wd, w, now) (wd', w, now)"
| stop: "wd_Stop wd = Inr wd' \<Longrightarrow> wd_step parse_duration (wd, w, now) (wd', w, now)"
| reset: "wd_Reset wd = Inr wd' \<Longrightarrow> wd_step parse_duration (wd, w, now) (wd', w, now)"
| configure: "wd_step parse_duration (wd, w, now) (wd_Configure parse_duration cfg wd now, w, now)"
| pet: "wd_step parse_duration (wd, w, now) (Pet wd now, w, now)"
| handler: "wd_step parse_duration (wd, w, now) (SetExpiryHandler wd h, w, now)"
| transport: "wd_step parse_duration (wd, w, now) (wd\<lparr>wd_vq := vq\<rparr>, w', now)"
| poll: "wd_running wd \<Longrightarrow> processCommands now (wd, w) = Some (wd', w') \<Longrightarrow>
         wd_step parse_duration (wd, w, now) (wd', w', now)"
| fire: "timer_due wd now \<Longrightarrow> timer_fire wd w = (wd', w') \<Longrightarrow>
         wd_step parse_duration (wd, w, now) (wd', w', now)"
| tick: "now \<le> now' \<Longrightarrow> wd_step parse_duration (wd, w, now) (wd, w, now')"

inductive wd_reachable :: "(string \<Rightarrow> int option) \<Rightarrow> 'w VirtioWatchdog \<times> 'w \<times> int \<Rightarrow> bool"
  for parse_duration where
  new: "NewVirtioWatchdog dev cfg = Inr wd \<Longrightarrow> wd_reachable parse_duration (wd, w, now)"
| step: "wd_reachable parse_duration s \<Longrightarrow> wd_step parse_duration s t \<Longrightarrow> wd_reachable parse_duration t"

lemma processCommands_inv:
  "wd_inv now (fst s) \<Longrightarrow> processCommands now s = Some s' \<Longrightarrow> wd_inv now (fst s')"
  unfolding processCommands_def using wd_poll.poll_invariant [of now s] by auto

lemma wd_step_inv:
  "wd_step pd s t \<Longrightarrow> (case s of (wd, w, now) \<Rightarrow> wd_inv now wd) \<Longrightarrow> (case t of (wd, w, now) \<Rightarrow> wd_inv now wd)"
proof (induction rule: wd_step.induct)
  case (fire wd now w wd' w')
  then show ?case using fire_inv [of now wd w] by simp
next
  case (poll wd now w wd' w')
  then show ?case using processCommands_inv [of now "(wd, w)"] by simp
qed (auto simp: Configure_inv Pet_def heartbeat_inv SetExpiryHandler_def count_inv
       intro: Start_inv Stop_inv Reset_inv later_inv)

lemma wd_reachable_inv: "wd_reachable pd s \<Longrightarrow> (case s of (wd, w, now) \<Rightarrow> wd_inv now wd)"
  by (induction rule: wd_reachable.induct) (simp add: wd_inv_new, erule (1) wd_step_inv)

subsection \<open>An example device\<close>

definition demo_wd_cfg :: "int VirtioWatchdogConfig" where
  "demo_wd_cfg = \<lparr>wc_Timeout = 5 * second, wc_Action = WatchdogActionReset, wc_QueueSize = 0,
     wc_AutoStart = True, wc_ExpiryHandler = Some (\<lambda>_ a n. n + action_code a + 7)\<rparr>"

definition demo_wd :: "int VirtioWatchdog" where
  "demo_wd = (case NewVirtioWatchdog ''wd0'' demo_wd_cfg of Inr wd \<Rightarrow> wd)"

lemma demo_wd_new: "NewVirtioWatchdog ''wd0'' demo_wd_cfg = Inr demo_wd"
  by (simp add: demo_wd_def NewVirtioWatchdog_def demo_wd_cfg_def clamp_config_def Let_def
      watchdog_consts device_queue_def NewVirtqueue_def queue_num_def MaxQueueSize_def)

lemma demo_wd_simps:
  "wd_enabled demo_wd" "wc_Timeout (wd_config demo_wd) = 5 * second" "wd_commands demo_wd = 0"
  "wd_running demo_wd = False" "wd_stopClosed demo_wd = False"
  "wc_ExpiryHandler (wd_config demo_wd) = Some (\<lambda>_ a n. n + action_code a + 7)"
  "vq_memRead (wd_vq demo_wd) = None" "wd_timer demo_wd = None" "wd_lastHeartbeat demo_wd = None"
  "wc_Action (wd_config demo_wd) = WatchdogActionReset"
  by (simp_all add: demo_wd_def NewVirtioWatchdog_def demo_wd_cfg_def clamp_config_def Let_def
      watchdog_consts device_queue_def NewVirtqueue_def queue_num_def MaxQueueSize_def)

lemma demo_wd_reachable: "wd_reachable (\<lambda>_. None) (demo_wd, 0, 0)"
  by (rule wd_reachable.new [OF demo_wd_new])

subsection \<open>Properties\<close>

text \<open>
  C21: However the host and the guest drive the device, its timeout stays between one second
  and ten minutes; and the expiry timer of an enabled watchdog never becomes due less than
  one second after the last heartbeat.
\<close>
theorem watchdog_bounds:
  assumes "wd_reachable parse_duration (wd, w, now)"
  shows "second \<le> wc_Timeout (wd_config wd) \<and> wc_Timeout (wd_config wd) \<le> 600 * second \<and>
    (timer_due wd now \<and> IsEnabled wd \<and> wd_lastHeartbeat wd = Some t \<longrightarrow> t + second \<le> now)"
proof -
  have inv: "wd_inv now wd" using wd_reachable_inv [OF assms] by simp
  then have "t + second \<le> now"
    if "timer_due wd now" "wd_enabled wd" "wd_lastHeartbeat wd = Some t"
    using that by (fastforce simp: wd_inv_def timer_due_def watchdog_consts split: option.splits prod.splits)
  then show ?thesis using inv by (auto simp: wd_inv_def watchdog_consts IsEnabled_def)
qed

lemma watchdog_bounds_witness:
  "wd_reachable (\<lambda>_. None) (Pet demo_wd 0, 0, 5 * second) \<and> timer_due (Pet demo_wd 0) (5 * second) \<and>
   0 + second \<le> 5 * second"
proof -
  have "wd_reachable (\<lambda>_. None) (Pet demo_wd 0, 0 :: int, 5 * second)"
    by (rule wd_reachable.step [OF wd_reachable.step [OF demo_wd_reachable wd_step.pet] wd_step.tick])
       (simp add: second_def)
  moreover have "timer_due (Pet demo_wd 0) (5 * second)" "IsEnabled (Pet demo_wd 0)"
    "wd_lastHeartbeat (Pet demo_wd 0) = Some 0"
    by (simp_all add: Pet_def handleHeartbeat_def armTimer_def Let_def demo_wd_simps timer_due_def IsEnabled_def)
  ultimately show ?thesis
    using watchdog_bounds [of "\<lambda>_. None" "Pet demo_wd 0" "0 :: int" "5 * second" 0] by blast
qed

text \<open>
  A heartbeat on an enabled watchdog restarts the countdown in full: the timer becomes
  due exactly when the timeout has passed since the heartbeat, and when it then fires the
  expiry is counted, the handler is called once, with the device's id and configured action,
  and the timer does not fire again by itself.
\<close>
theorem watchdog_heartbeat_expiry:
  assumes "wd_enabled wd" and "wc_ExpiryHandler (wd_config wd) = Some h"
  shows "(timer_due (Pet wd now) t \<longleftrightarrow> now + wc_Timeout (wd_config wd) \<le> t) \<and>
    snd (timer_fire (Pet wd now) w) = h (wd_deviceID wd) (wc_Action (wd_config wd)) w \<and>
    wd_expiries (fst (timer_fire (Pet wd now) w)) = wd_expiries wd + 1 \<and>
    \<not> timer_due (fst (timer_fire (Pet wd now) w)) t"
  using assms by (simp add: Pet_def handleHeartbeat_def armTimer_def timer_due_def timer_fire_def
      onExpiry_def Let_def)

lemma watchdog_heartbeat_expiry_witness:
  "\<not> timer_due (Pet demo_wd 10) (5 * second) \<and> snd (timer_fire (Pet demo_wd 10) 3) = 10"
  using watchdog_heartbeat_expiry [OF demo_wd_simps(1) demo_wd_simps(6), of 10 "5 * second" 3]
  by (simp add: demo_wd_simps)

text \<open>
  On a ready queue the command loop always returns; it serves exactly the pending chains
  up to the first malformed one, each of them once: the used index and the command counter
  have both advanced by their number.
\<close>
theorem watchdog_commands_served:
  assumes "wd_inv now wd" and "vq_ready (wd_vq wd)"
  shows "\<exists>wd' w'. processCommands now (wd, w) = Some (wd', w') \<and> wd_inv now wd' \<and>
    UsedIdx (wd_vq wd') = UsedIdx (wd_vq wd) + of_nat (length (good_chains (wd_vq wd))) \<and>
    wd_commands wd' = wd_commands wd + of_nat (length (good_chains (wd_vq wd)))"
  unfolding processCommands_def using wd_poll.poll_counted [of now "(wd, w)"] assms by force

lemma watchdog_commands_served_witness:
  "\<exists>wd' w'. processCommands 0 (demo_wd\<lparr>wd_vq := publish (SetReady (wd_vq demo_wd) True) 0\<rparr>, 0) = Some (wd', w') \<and>
     wd_inv 0 wd'"
proof -
  have "wd_inv 0 (demo_wd\<lparr>wd_vq := publish (SetReady (wd_vq demo_wd) True) 0\<rparr>)"
    using wd_inv_new [OF demo_wd_new] by (rule count_inv(2))
  moreover have "vq_ready (publish (SetReady (wd_vq demo_wd) True) 0)"
    by (simp add: publish_def SetReady_def SetAvailRing_def SetAvailIdx_def split: sum.splits)
  ultimately show ?thesis
    using watchdog_commands_served [of 0 "demo_wd\<lparr>wd_vq := publish (SetReady (wd_vq demo_wd) True) 0\<rparr>" 0]
    by fastforce
qed

text \<open>
  A device as NewVirtioWatchdog builds it has no access to guest memory, so every command
  that carries data is acknowledged and ignored: nothing of the device changes but its
  command counter and its queue. Only a chain without readable data acts, as a heartbeat.
\<close>
theorem watchdog_commands_unread:
  assumes "NewVirtioWatchdog dev cfg = Inr wd0" and "wd = wd0\<lparr>wd_vq := vq\<rparr>"
    and "vq_memRead vq = vq_memRead (wd_vq wd0)" and "dc_TotalRead chain \<ge> 4"
    and "dc_Readable chain \<noteq> []"
  shows "handleCommand now chain (wd, w) = wd_finish (wd\<lparr>wd_commands := wd_commands wd + 1\<rparr>) chain w"
proof -
  have "vq_memRead (wd_vq wd) = None"
    using assms(1-3) by (auto simp: NewVirtioWatchdog_def device_queue_def NewVirtqueue_def Let_def
        split: if_splits sum.splits)
  then show ?thesis using assms(4,5)
    by (simp add: handleCommand_def ReadChainData_def Let_def not_less [symmetric])
qed

lemma watchdog_commands_unread_witness:
  "handleCommand 0 \<lparr>dc_HeadIndex = 0, dc_Readable = [\<lparr>cl_Addr = 0, cl_Len = 4\<rparr>], dc_Writable = [],
     dc_TotalRead = 4, dc_TotalWrite = 0\<rparr> (demo_wd, 0) =
   wd_finish (demo_wd\<lparr>wd_commands := 1\<rparr>) \<lparr>dc_HeadIndex = 0, dc_Readable = [\<lparr>cl_Addr = 0, cl_Len = 4\<rparr>],
     dc_Writable = [], dc_TotalRead = 4, dc_TotalWrite = 0\<rparr> 0"
  using watchdog_commands_unread [OF demo_wd_new, of demo_wd "wd_vq demo_wd"
      "\<lparr>dc_HeadIndex = 0, dc_Readable = [\<lparr>cl_Addr = 0, cl_Len = 4\<rparr>], dc_Writable = [],
       dc_TotalRead = 4, dc_TotalWrite = 0\<rparr>"]
  by (simp add: demo_wd_simps)

text \<open>
  Stop, Start and Stop again panics: Stop closes the stop channel, Start does not make a
  new one, so the second Stop closes it again. A Reset in between avoids this.
\<close>
lemma stop_twice_panics:
  assumes "wd_running wd" and "wd_Stop wd = Inr wd1" and "wd_Start wd1 now = Inr wd2"
  shows "wd_Stop wd2 = Inl WdClosedChannel"
  using assms by (auto simp: wd_Stop_def wd_Start_def armTimer_def stop_timer_def Let_def split: if_splits)

end
