(* ===== verification/Balloon.thy ===== *)
theory Balloon
  imports Watchdog "HOL-Library.Signed_Division"
begin

text \<open>
  Model of \<^verbatim>\<open>internal/virtio/balloon.go\<close>: the memory balloon. The map \<^verbatim>\<open>inflatedPFNs\<close>,
  whose values are all true, is the set of its keys; its length is the cardinality. The queues
  come from \<open>device_queue\<close>, without memory accessors, as in \<^verbatim>\<open>NewVirtioBalloon\<close>. The
  parser \<open>scan_int\<close> stands for \<^verbatim>\<open>fmt.Sscanf(v, "%d", _)\<close> into an int.
\<close>

subsection \<open>Constants and data\<close>

definition balloonPageSize :: nat where "balloonPageSize = 4096"
definition balloonQueueSize :: int where "balloonQueueSize = 128"

definition VirtioBalloonFMustTellHost :: u64 where "VirtioBalloonFMustTellHost = 1"
definition VirtioBalloonFStatsVQ :: u64 where "VirtioBalloonFStatsVQ = 2"
definition VirtioBalloonFDeflateOnOOM :: u64 where "VirtioBalloonFDeflateOnOOM = 4"
definition VirtioBalloonFFreePageHint :: u64 where "VirtioBalloonFFreePageHint = 8"

lemmas balloon_features = VirtioBalloonFMustTellHost_def VirtioBalloonFStatsVQ_def
  VirtioBalloonFDeflateOnOOM_def VirtioBalloonFFreePageHint_def

definition BalloonStatSwapIn :: u16 where "BalloonStatSwapIn = 0"
definition BalloonStatSwapOut :: u16 where "BalloonStatSwapOut = 1"
definition BalloonStatMajorFaults :: u16 where "BalloonStatMajorFaults = 2"
definition BalloonStatMinorFaults :: u16 where "BalloonStatMinorFaults = 3"
definition BalloonStatFreeMemory :: u16 where "BalloonStatFreeMemory = 4"
definition BalloonStatTotalMemory :: u16 where "BalloonStatTotalMemory = 5"
definition BalloonStatAvailableMemory :: u16 where "BalloonStatAvailableMemory = 6"
definition BalloonStatDiskCaches :: u16 where "BalloonStatDiskCaches = 7"
definition BalloonStatHugetlbAllocations :: u16 where "BalloonStatHugetlbAllocations = 8"
definition BalloonStatHugetlbFailures :: u16 where "BalloonStatHugetlbFailures = 9"

lemmas balloon_tags = BalloonStatSwapIn_def BalloonStatSwapOut_def BalloonStatMajorFaults_def
  BalloonStatMinorFaults_def BalloonStatFreeMemory_def BalloonStatTotalMemory_def
  BalloonStatAvailableMemory_def BalloonStatDiskCaches_def BalloonStatHugetlbAllocations_def
  BalloonStatHugetlbFailures_def

record BalloonStat =
  bst_Tag :: u16
  bst_Value :: u64

record BalloonStats =
  bs_SwapIn :: u64
  bs_SwapOut :: u64
  bs_MajorFaults :: u64
  bs_MinorFaults :: u64
  bs_FreeMemory :: u64
  bs_TotalMemory :: u64
  bs_AvailableMemory :: u64
  bs_DiskCaches :: u64
  bs_HugetlbAllocations :: u64
  bs_HugetlbFailures :: u64
  bs_LastUpdated :: "int option"

record VirtioBalloonConfig =
  bc_DeflateOnOOM :: bool
  bc_StatsEnabled :: bool
  bc_FreePageHinting :: bool
  bc_QueueSize :: int

record 'w VirtioBalloon =
  bal_deviceID :: string
  bal_config :: VirtioBalloonConfig
  bal_features :: u64
  bal_inflateQ :: "'w Virtqueue"
  bal_deflateQ :: "'w Virtqueue"
  bal_statsQ :: "'w Virtqueue option"
  bal_running :: bool
  bal_stopClosed :: bool
  bal_targetPages :: u32
  bal_actualPages :: u32
  bal_stats :: BalloonStats
  bal_inflatedPFNs :: "u32 set"
  bal_inflateOps :: u64
  bal_deflateOps :: u64
  bal_pagesIn :: u64
  bal_pagesOut :: u64
  bal_onInflate :: "(u32 list \<Rightarrow> 'w \<Rightarrow> 'w) option"
  bal_onDeflate :: "(u32 list \<Rightarrow> 'w \<Rightarrow> 'w) option"

record BalloonDeviceStats =
  bds_TargetPages :: u32
  bds_ActualPages :: u32
  bds_TargetMB :: u32
  bds_ActualMB :: u32
  bds_InflateOps :: u64
  bds_DeflateOps :: u64
  bds_PagesIn :: u64
  bds_PagesOut :: u64
  bds_TrackedPFNs :: nat

record BalloonConfigSpace =
  bcs_NumPages :: u32
  bcs_Actual :: u32

record BalloonTransportConfig =
  btc_DeviceID :: u32
  btc_VendorID :: u32
  btc_DeviceType :: u32
  btc_NumQueues :: u32
  btc_Features :: u64

datatype bal_error =
    BalNoDeviceID
  | BalQueue vq_error
  | BalAlreadyRunning string
  | BalClosedChannel
  | BalConfigTooSmall nat

definition zero_stats :: BalloonStats where
  "zero_stats = \<lparr>bs_SwapIn = 0, bs_SwapOut = 0, bs_MajorFaults = 0, bs_MinorFaults = 0,
     bs_FreeMemory = 0, bs_TotalMemory = 0, bs_AvailableMemory = 0, bs_DiskCaches = 0,
     bs_HugetlbAllocations = 0, bs_HugetlbFailures = 0, bs_LastUpdated = None\<rparr>"

subsection \<open>Construction and lifecycle\<close>

definition balloon_feature_bits :: "VirtioBalloonConfig \<Rightarrow> u64" where
  "balloon_feature_bits cfg =
     (let f = VirtioBalloonFMustTellHost;
          f = (if bc_DeflateOnOOM cfg then f OR VirtioBalloonFDeflateOnOOM else f);
          f = (if bc_FreePageHinting cfg then f OR VirtioBalloonFFreePageHint else f)
      in if bc_StatsEnabled cfg then f OR VirtioBalloonFStatsVQ else f)"

definition NewVirtioBalloon :: "string \<Rightarrow> VirtioBalloonConfig \<Rightarrow> bal_error + 'w VirtioBalloon" where
  "NewVirtioBalloon deviceID cfg =
     (if deviceID = [] then Inl BalNoDeviceID
      else let queueSize = (if bc_QueueSize cfg \<le> 0 then balloonQueueSize else bc_QueueSize cfg)
           in case device_queue ''inflateq'' queueSize of
                Inl e \<Rightarrow> Inl (BalQueue e)
              | Inr inflateQ \<Rightarrow>
           (case device_queue ''deflateq'' queueSize of
                Inl e \<Rightarrow> Inl (BalQueue e)
              | Inr deflateQ \<Rightarrow>
           (case (if bc_StatsEnabled cfg then map_sum id Some (device_queue ''statsq'' queueSize) else Inr None) of
                Inl e \<Rightarrow> Inl (BalQueue e)
              | Inr statsQ \<Rightarrow> Inr \<lparr>bal_deviceID = deviceID, bal_config = cfg,
                  bal_features = balloon_feature_bits cfg,
                  bal_inflateQ = inflateQ, bal_deflateQ = deflateQ, bal_statsQ = statsQ,
                  bal_running = False, bal_stopClosed = False, bal_targetPages = 0,
                  bal_actualPages = 0, bal_stats = zero_stats, bal_inflatedPFNs = {},
                  bal_inflateOps = 0, bal_deflateOps = 0, bal_pagesIn = 0, bal_pagesOut = 0,
                  bal_onInflate = None, bal_onDeflate = None\<rparr>)))"

definition bal_Start :: "'w VirtioBalloon \<Rightarrow> bal_error + 'w VirtioBalloon" where
  "bal_Start b = (if bal_running b then Inl (BalAlreadyRunning (bal_deviceID b))
                  else Inr (b\<lparr>bal_running := True\<rparr>))"

definition bal_Stop :: "'w VirtioBalloon \<Rightarrow> bal_error + 'w VirtioBalloon" where
  "bal_Stop b =
     (if \<not> bal_running b then Inr b
      else if bal_stopClosed b then Inl BalClosedChannel
      else Inr (b\<lparr>bal_running := False, bal_stopClosed := True\<rparr>))"

definition bal_Reset :: "'w VirtioBalloon \<Rightarrow> bal_error + 'w VirtioBalloon" where
  "bal_Reset b =
     (if bal_running b \<and> bal_stopClosed b then Inl BalClosedChannel
      else Inr (b\<lparr>bal_running := False, bal_targetPages := 0, bal_actualPages := 0,
               bal_inflateOps := 0, bal_deflateOps := 0, bal_pagesIn := 0, bal_pagesOut := 0,
               bal_inflatedPFNs := {}, bal_stats := zero_stats,
               bal_inflateQ := vq_Reset (bal_inflateQ b), bal_deflateQ := vq_Reset (bal_deflateQ b),
               bal_statsQ := map_option vq_Reset (bal_statsQ b), bal_stopClosed := False\<rparr>))"

subsection \<open>Target and reporting\<close>

definition SetTarget :: "u32 \<Rightarrow> 'w VirtioBalloon \<Rightarrow> 'w VirtioBalloon" where
  "SetTarget pages b = b\<lparr>bal_targetPages := pages\<rparr>"

definition SetTargetMB :: "u32 \<Rightarrow> 'w VirtioBalloon \<Rightarrow> 'w VirtioBalloon" where
  "SetTargetMB mb b = b\<lparr>bal_targetPages := mb * 1024 * 1024 div of_nat balloonPageSize\<rparr>"

definition pages_to_MB :: "u32 \<Rightarrow> u32" where
  "pages_to_MB pages = pages * of_nat balloonPageSize div (1024 * 1024)"

definition GetTarget :: "'w VirtioBalloon \<Rightarrow> u32" where
  "GetTarget b = bal_targetPages b"

definition GetTargetMB :: "'w VirtioBalloon \<Rightarrow> u32" where
  "GetTargetMB b = pages_to_MB (bal_targetPages b)"

definition GetActual :: "'w VirtioBalloon \<Rightarrow> u32" where
  "GetActual b = bal_actualPages b"

definition GetActualMB :: "'w VirtioBalloon \<Rightarrow> u32" where
  "GetActualMB b = pages_to_MB (bal_actualPages b)"

definition OnInflate :: "(u32 list \<Rightarrow> 'w \<Rightarrow> 'w) option \<Rightarrow> 'w VirtioBalloon \<Rightarrow> 'w VirtioBalloon" where
  "OnInflate f b = b\<lparr>bal_onInflate := f\<rparr>"

definition OnDeflate :: "(u32 list \<Rightarrow> 'w \<Rightarrow> 'w) option \<Rightarrow> 'w VirtioBalloon \<Rightarrow> 'w VirtioBalloon" where
  "OnDeflate f b = b\<lparr>bal_onDeflate := f\<rparr>"

definition DeviceStats :: "'w VirtioBalloon \<Rightarrow> BalloonDeviceStats" where
  "DeviceStats b = \<lparr>bds_TargetPages = bal_targetPages b, bds_ActualPages = bal_actualPages b,
     bds_TargetMB = GetTargetMB b, bds_ActualMB = GetActualMB b,
     bds_InflateOps = bal_inflateOps b, bds_DeflateOps = bal_deflateOps b,
     bds_PagesIn = bal_pagesIn b, bds_PagesOut = bal_pagesOut b,
     bds_TrackedPFNs = card (bal_inflatedPFNs b)\<rparr>"

definition target_mb_pages :: "int \<Rightarrow> u32" where
  "target_mb_pages mb = word_of_int (signed_take_bit 63 (mb * 1024 * 1024) sdiv int balloonPageSize)"

definition bal_Configure ::
  "(string \<Rightarrow> int option) \<Rightarrow> (string \<rightharpoonup> string) \<Rightarrow> 'w VirtioBalloon \<Rightarrow> 'w VirtioBalloon" where
  "bal_Configure scan_int config b =
     (let b = (case config ''target_mb'' of
                 None \<Rightarrow> b
               | Some v \<Rightarrow> (case scan_int v of
                   None \<Rightarrow> b
                 | Some mb \<Rightarrow> if mb \<ge> 0 then SetTarget (target_mb_pages mb) b else b))
      in case config ''deflate_on_oom'' of
           None \<Rightarrow> b
         | Some v \<Rightarrow>
             let on = (v = ''true'' \<or> v = ''1'')
             in b\<lparr>bal_config := (bal_config b)\<lparr>bc_DeflateOnOOM := on\<rparr>,
                  bal_features := (if on then bal_features b OR VirtioBalloonFDeflateOnOOM
                                   else bal_features b AND NOT VirtioBalloonFDeflateOnOOM)\<rparr>)"

subsection \<open>Requests from the guest\<close>

definition decode_pfns :: "bytes \<Rightarrow> u32 list" where
  "decode_pfns allData = map (\<lambda>i. get_le (gslice (i * 4) ((i + 1) * 4) allData)) [0..<length allData div 4]"

definition extractPFNs :: "DescriptorChain \<Rightarrow> 'w Virtqueue \<Rightarrow> 'w \<Rightarrow> u32 list" where
  "extractPFNs chain vq w =
     (case ReadChainData vq w chain of
        Inl _ \<Rightarrow> []
      | Inr allData \<Rightarrow> if allData = [] then [] else decode_pfns allData)"

definition run_callback :: "(u32 list \<Rightarrow> 'w \<Rightarrow> 'w) option \<Rightarrow> u32 list \<Rightarrow> 'w \<Rightarrow> 'w" where
  "run_callback cb pfns w = (case cb of None \<Rightarrow> w | Some f \<Rightarrow> f pfns w)"

definition handleInflate ::
  "DescriptorChain \<Rightarrow> 'w VirtioBalloon \<times> 'w \<Rightarrow> 'w VirtioBalloon \<times> 'w" where
  "handleInflate chain s =
     (let (b, w) = s;
          pfns = extractPFNs chain (bal_inflateQ b) w;
          (b, w) = (if pfns = [] then (b, w)
                    else let t = fold insert pfns (bal_inflatedPFNs b)
                         in (b\<lparr>bal_inflatedPFNs := t, bal_actualPages := of_nat (card t),
                               bal_inflateOps := bal_inflateOps b + 1,
                               bal_pagesIn := bal_pagesIn b + of_nat (length pfns)\<rparr>,
                             run_callback (bal_onInflate b) pfns w));
          (vq, w, _) = PushUsed (bal_inflateQ b) (dc_HeadIndex chain) 0 w
      in (b\<lparr>bal_inflateQ := vq\<rparr>, w))"

definition handleDeflate ::
  "DescriptorChain \<Rightarrow> 'w VirtioBalloon \<times> 'w \<Rightarrow> 'w VirtioBalloon \<times> 'w" where
  "handleDeflate chain s =
     (let (b, w) = s;
          pfns = extractPFNs chain (bal_deflateQ b) w;
          (b, w) = (if pfns = [] then (b, w)
                    else let t = fold (\<lambda>p T. T - {p}) pfns (bal_inflatedPFNs b)
                         in (b\<lparr>bal_inflatedPFNs := t, bal_actualPages := of_nat (card t),
                               bal_deflateOps := bal_deflateOps b + 1,
                               bal_pagesOut := bal_pagesOut b + of_nat (length pfns)\<rparr>,
                             run_callback (bal_onDeflate b) pfns w));
          (vq, w, _) = PushUsed (bal_deflateQ b) (dc_HeadIndex chain) 0 w
      in (b\<lparr>bal_deflateQ := vq\<rparr>, w))"

definition processInflate :: "'w VirtioBalloon \<times> 'w \<Rightarrow> ('w VirtioBalloon \<times> 'w) option" where
  "processInflate s =
     poll_loop (\<lambda>s. bal_inflateQ (fst s)) (\<lambda>vq s. ((fst s)\<lparr>bal_inflateQ := vq\<rparr>, snd s)) handleInflate s"

definition processDeflate :: "'w VirtioBalloon \<times> 'w \<Rightarrow> ('w VirtioBalloon \<times> 'w) option" where
  "processDeflate s =
     poll_loop (\<lambda>s. bal_deflateQ (fst s)) (\<lambda>vq s. ((fst s)\<lparr>bal_deflateQ := vq\<rparr>, snd s)) handleDeflate s"

definition decode_stats :: "bytes \<Rightarrow> BalloonStat list" where
  "decode_stats allData =
     map (\<lambda>i. \<lparr>bst_Tag = get_le (gslice (i * 10) (i * 10 + 2) allData),
               bst_Value = get_le (gslice (i * 10 + 2) (i * 10 + 10) allData)\<rparr>)
       [0..<length allData div 10]"

definition parseStats :: "DescriptorChain \<Rightarrow> 'w Virtqueue \<Rightarrow> 'w \<Rightarrow> BalloonStat list" where
  "parseStats chain vq w =
     (case ReadChainData vq w chain of
        Inl _ \<Rightarrow> []
      | Inr allData \<Rightarrow> if allData = [] then [] else decode_stats allData)"

definition update_stat :: "BalloonStat \<Rightarrow> BalloonStats \<Rightarrow> BalloonStats" where
  "update_stat s st =
     (let v = bst_Value s; t = bst_Tag s
      in if t = BalloonStatSwapIn then st\<lparr>bs_SwapIn := v\<rparr>
         else if t = BalloonStatSwapOut then st\<lparr>bs_SwapOut := v\<rparr>
         else if t = BalloonStatMajorFaults then st\<lparr>bs_MajorFaults := v\<rparr>
         else if t = BalloonStatMinorFaults then st\<lparr>bs_MinorFaults := v\<rparr>
         else if t = BalloonStatFreeMemory then st\<lparr>bs_FreeMemory := v\<rparr>
         else if t = BalloonStatTotalMemory then st\<lparr>bs_TotalMemory := v\<rparr>
         else if t = BalloonStatAvailableMemory then st\<lparr>bs_AvailableMemory := v\<rparr>
         else if t = BalloonStatDiskCaches then st\<lparr>bs_DiskCaches := v\<rparr>
         else if t = BalloonStatHugetlbAllocations then st\<lparr>bs_HugetlbAllocations := v\<rparr>
         else if t = BalloonStatHugetlbFailures then st\<lparr>bs_HugetlbFailures := v\<rparr>
         else st)"

definition processStats :: "int \<Rightarrow> 'w VirtioBalloon \<times> 'w \<Rightarrow> 'w VirtioBalloon \<times> 'w" where
  "processStats now s =
     (let (b, w) = s
      in case bal_statsQ b of
           None \<Rightarrow> (b, w)
         | Some vq \<Rightarrow>
             (case PopAvailable vq of
                (vq, Inl _) \<Rightarrow> (b\<lparr>bal_statsQ := Some vq\<rparr>, w)
              | (vq, Inr chain) \<Rightarrow>
                  let stats = parseStats chain vq w;
                      st = fold update_stat stats ((bal_stats b)\<lparr>bs_LastUpdated := Some now\<rparr>);
                      (vq, w, _) = PushUsed vq (dc_HeadIndex chain) 0 w
                  in (b\<lparr>bal_stats := st, bal_statsQ := Some vq\<rparr>, w)))"

subsection \<open>Features and configuration space\<close>

definition bal_NegotiateFeatures :: "'w VirtioBalloon \<Rightarrow> u64 \<Rightarrow> u64" where
  "bal_NegotiateFeatures b offered = offered AND bal_features b"

definition GetVirtqueues :: "'w VirtioBalloon \<Rightarrow> 'w Virtqueue list" where
  "GetVirtqueues b =
     [bal_inflateQ b, bal_deflateQ b] @ (case bal_statsQ b of None \<Rightarrow> [] | Some q \<Rightarrow> [q])"

definition bcs_Bytes :: "BalloonConfigSpace \<Rightarrow> bytes" where
  "bcs_Bytes c = put_le 4 (bcs_NumPages c) @ put_le 4 (bcs_Actual c)"

definition ParseBalloonConfigSpace :: "bytes \<Rightarrow> bal_error + BalloonConfigSpace" where
  "ParseBalloonConfigSpace dat =
     (if length dat < 8 then Inl (BalConfigTooSmall (length dat))
      else Inr \<lparr>bcs_NumPages = get_le (gslice 0 4 dat), bcs_Actual = get_le (gslice 4 8 dat)\<rparr>)"

definition bal_GetConfigSpace :: "'w VirtioBalloon \<Rightarrow> BalloonConfigSpace" where
  "bal_GetConfigSpace b = \<lparr>bcs_NumPages = bal_targetPages b, bcs_Actual = bal_actualPages b\<rparr>"

definition bal_GetDeviceConfig :: "'w VirtioBalloon \<Rightarrow> BalloonTransportConfig" where
  "bal_GetDeviceConfig b =
     \<lparr>btc_DeviceID = 5, btc_VendorID = 0x554E4554, btc_DeviceType = 5,
      btc_NumQueues = (if bal_statsQ b \<noteq> None then 3 else 2), btc_Features = bal_features b\<rparr>"

end
