(* ===== verification/BalloonClaims.thy ===== *)
theory BalloonClaims
  imports Balloon VirtqueueClaims
begin

text \<open>
  Lemmas and properties of the memory balloon: the page count is the size of the set of
  tracked pages in every run, the inflate and deflate loops are instances of the polling
  loop and change that set by exactly the pages their chains name, and the encodings of page
  numbers and of the configuration space are read back.
\<close>

subsection \<open>Page tracking\<close>

definition bal_inv :: "'w VirtioBalloon \<Rightarrow> bool" where
  "bal_inv b \<longleftrightarrow> bal_actualPages b = of_nat (card (bal_inflatedPFNs b))"

lemma fold_insert_set: "fold insert xs S = S \<union> set xs"
  by (induction xs arbitrary: S) auto

lemma fold_remove_set: "fold (\<lambda>p T. T - {p}) xs S = S - set xs"
  by (induction xs arbitrary: S) auto

lemma extractPFNs_cong: "vq_memRead vq' = vq_memRead vq \<Longrightarrow> extractPFNs c vq' w = extractPFNs c vq w"
  by (simp add: extractPFNs_def ReadChainData_def)

lemma handleInflate_inv: "bal_inv (fst s) \<Longrightarrow> bal_inv (fst (handleInflate c s))"
  by (cases s) (auto simp: handleInflate_def bal_inv_def Let_def split: prod.splits if_splits)

lemma handleDeflate_inv: "bal_inv (fst s) \<Longrightarrow> bal_inv (fst (handleDeflate c s))"
  by (cases s) (auto simp: handleDeflate_def bal_inv_def Let_def split: prod.splits if_splits)

lemma PushUsed_used: "PushUsed vq h n w = (vq', w', e) \<Longrightarrow> vq_ready vq \<Longrightarrow> UsedIdx vq' = UsedIdx vq + 1"
  by (auto simp: PushUsed_def Let_def UsedIdx_def)

lemma PushUsed_quiet: "PushUsed vq h n w = (vq', w', e) \<Longrightarrow> vq_notifyGuest vq = None \<Longrightarrow> w' = w"
  by (auto simp: PushUsed_def Let_def split: if_splits)

text \<open>Both handlers end with a push of their chain on their own queue.\<close>

lemma handleInflate_queue:
  "\<exists>w e. (bal_inflateQ (fst (handleInflate c s)), snd (handleInflate c s), e) =
     PushUsed (bal_inflateQ (fst s)) (dc_HeadIndex c) 0 w \<and>
     (bal_onInflate (fst s) = None \<longrightarrow> w = snd s)"
proof -
  obtain b w0 where s: "s = (b, w0)" by force
  let ?pfns = "extractPFNs c (bal_inflateQ b) w0"
  let ?w = "if ?pfns = [] then w0 else run_callback (bal_onInflate b) ?pfns w0"
  obtain vq w1 e where p: "PushUsed (bal_inflateQ b) (dc_HeadIndex c) 0 ?w = (vq, w1, e)"
    by (metis prod_cases3)
  then have "bal_inflateQ (fst (handleInflate c s)) = vq" "snd (handleInflate c s) = w1"
    by (simp_all add: s handleInflate_def Let_def split: if_splits)
  then show ?thesis
    using p by (intro exI [of _ ?w] exI [of _ e]) (simp add: s run_callback_def)
qed

lemma handleDeflate_queue:
  "\<exists>w e. (bal_deflateQ (fst (handleDeflate c s)), snd (handleDeflate c s), e) =
     PushUsed (bal_deflateQ (fst s)) (dc_HeadIndex c) 0 w \<and>
     (bal_onDeflate (fst s) = None \<longrightarrow> w = snd s)"
proof -
  obtain b w0 where s: "s = (b, w0)" by force
  let ?pfns = "extractPFNs c (bal_deflateQ b) w0"
  let ?w = "if ?pfns = [] then w0 else run_callback (bal_onDeflate b) ?pfns w0"
  obtain vq w1 e where p: "PushUsed (bal_deflateQ b) (dc_HeadIndex c) 0 ?w = (vq, w1, e)"
    by (metis prod_cases3)
  then have "bal_deflateQ (fst (handleDeflate c s)) = vq" "snd (handleDeflate c s) = w1"
    by (simp_all add: s handleDeflate_def Let_def split: if_splits)
  then show ?thesis
    using p by (intro exI [of _ ?w] exI [of _ e]) (simp add: s run_callback_def)
qed

lemma handleInflate_keeps:
  "vq_num (bal_inflateQ (fst (handleInflate c s))) = vq_num (bal_inflateQ (fst s))"
  "vq_descs (bal_inflateQ (fst (handleInflate c s))) = vq_descs (bal_inflateQ (fst s))"
  "vq_avail (bal_inflateQ (fst (handleInflate c s))) = vq_avail (bal_inflateQ (fst s))"
  "vq_lastAvailIdx (bal_inflateQ (fst (handleInflate c s))) = vq_lastAvailIdx (bal_inflateQ (fst s))"
  "vq_ready (bal_inflateQ (fst (handleInflate c s))) = vq_ready (bal_inflateQ (fst s))"
  "vq_memRead (bal_inflateQ (fst (handleInflate c s))) = vq_memRead (bal_inflateQ (fst s))"
  "vq_notifyGuest (bal_inflateQ (fst (handleInflate c s))) = vq_notifyGuest (bal_inflateQ (fst s))"
  "vq_ready (bal_inflateQ (fst s)) \<Longrightarrow>
     UsedIdx (bal_inflateQ (fst (handleInflate c s))) = UsedIdx (bal_inflateQ (fst s)) + 1"
  using handleInflate_queue [of c s] by (metis PushUsed_keeps PushUsed_used)+

lemma handleDeflate_keeps:
  "vq_num (bal_deflateQ (fst (handleDeflate c s))) = vq_num (bal_deflateQ (fst s))"
  "vq_descs (bal_deflateQ (fst (handleDeflate c s))) = vq_descs (bal_deflateQ (fst s))"
  "vq_avail (bal_deflateQ (fst (handleDeflate c s))) = vq_avail (bal_deflateQ (fst s))"
  "vq_lastAvailIdx (bal_deflateQ (fst (handleDeflate c s))) = vq_lastAvailIdx (bal_deflateQ (fst s))"
  "vq_ready (bal_deflateQ (fst (handleDeflate c s))) = vq_ready (bal_deflateQ (fst s))"
  "vq_memRead (bal_deflateQ (fst (handleDeflate c s))) = vq_memRead (bal_deflateQ (fst s))"
  "vq_notifyGuest (bal_deflateQ (fst (handleDeflate c s))) = vq_notifyGuest (bal_deflateQ (fst s))"
  "vq_ready (bal_deflateQ (fst s)) \<Longrightarrow>
     UsedIdx (bal_deflateQ (fst (handleDeflate c s))) = UsedIdx (bal_deflateQ (fst s)) + 1"
  using handleDeflate_queue [of c s] by (metis PushUsed_keeps PushUsed_used)+

interpretation inflate: poll_device
  "\<lambda>s. bal_inflateQ (fst s)" "\<lambda>vq s. ((fst s)\<lparr>bal_inflateQ := vq\<rparr>, snd s)" handleInflate
  "\<lambda>s. bal_inv (fst s)"
  by unfold_locales (simp_all add: handleInflate_keeps handleInflate_inv, simp add: bal_inv_def)

interpretation deflate: poll_device
  "\<lambda>s. bal_deflateQ (fst s)" "\<lambda>vq s. ((fst s)\<lparr>bal_deflateQ := vq\<rparr>, snd s)" handleDeflate
  "\<lambda>s. bal_inv (fst s)"
  by unfold_locales (simp_all add: handleDeflate_keeps handleDeflate_inv, simp add: bal_inv_def)

subsection \<open>The effect of a poll\<close>

lemma handleInflate_effect:
  assumes "bal_onInflate (fst s) = None" and "vq_notifyGuest (bal_inflateQ (fst s)) = None"
  shows "snd (handleInflate c s) = snd s"
    and "bal_onInflate (fst (handleInflate c s)) = None"
    and "bal_inflatedPFNs (fst (handleInflate c s)) =
      bal_inflatedPFNs (fst s) \<union> set (extractPFNs c (bal_inflateQ (fst s)) (snd s))"
proof -
  show "snd (handleInflate c s) = snd s"
    using handleInflate_queue [of c s] assms by (metis PushUsed_quiet)
  show "bal_onInflate (fst (handleInflate c s)) = None"
    "bal_inflatedPFNs (fst (handleInflate c s)) =
      bal_inflatedPFNs (fst s) \<union> set (extractPFNs c (bal_inflateQ (fst s)) (snd s))"
    using assms by (cases s; simp add: handleInflate_def Let_def fold_insert_set split: prod.splits)+
qed

lemma handleDeflate_effect:
  assumes "bal_onDeflate (fst s) = None" and "vq_notifyGuest (bal_deflateQ (fst s)) = None"
  shows "snd (handleDeflate c s) = snd s"
    and "bal_onDeflate (fst (handleDeflate c s)) = None"
    and "bal_inflatedPFNs (fst (handleDeflate c s)) =
      bal_inflatedPFNs (fst s) - set (extractPFNs c (bal_deflateQ (fst s)) (snd s))"
proof -
  show "snd (handleDeflate c s) = snd s"
    using handleDeflate_queue [of c s] assms by (metis PushUsed_quiet)
  show "bal_onDeflate (fst (handleDeflate c s)) = None"
    "bal_inflatedPFNs (fst (handleDeflate c s)) =
      bal_inflatedPFNs (fst s) - set (extractPFNs c (bal_deflateQ (fst s)) (snd s))"
    using assms by (cases s; simp add: handleDeflate_def Let_def fold_remove_set split: prod.splits)+
qed

lemma inflate_trace:
  "poll_trace (\<lambda>s. bal_inflateQ (fst s)) (\<lambda>vq s. ((fst s)\<lparr>bal_inflateQ := vq\<rparr>, snd s)) handleInflate s cs s' \<Longrightarrow>
   bal_onInflate (fst s) = None \<Longrightarrow> vq_notifyGuest (bal_inflateQ (fst s)) = None \<Longrightarrow>
   snd s' = snd s \<and> bal_inflatedPFNs (fst s') = bal_inflatedPFNs (fst s) \<union>
     (\<Union>c \<in> set cs. set (extractPFNs c (bal_inflateQ (fst s)) (snd s)))"
proof (induction rule: poll_trace.induct)
  case (go s vq c cs s')
  let ?s1 = "((fst s)\<lparr>bal_inflateQ := vq\<rparr>, snd s)"
  have vq: "vq_memRead vq = vq_memRead (bal_inflateQ (fst s))"
    "vq_notifyGuest vq = vq_notifyGuest (bal_inflateQ (fst s))"
    using walk_keeps [OF go.hyps(1)] by simp_all
  have quiet: "bal_onInflate (fst ?s1) = None" "vq_notifyGuest (bal_inflateQ (fst ?s1)) = None"
    using go.prems vq by simp_all
  have "extractPFNs c' (bal_inflateQ (fst (handleInflate c ?s1))) w = extractPFNs c' (bal_inflateQ (fst s)) w"
    "extractPFNs c' vq w = extractPFNs c' (bal_inflateQ (fst s)) w" for c' w
    by (rule extractPFNs_cong, simp add: handleInflate_keeps vq)+
  then show ?case
    using go.IH handleInflate_effect [OF quiet, of c] handleInflate_keeps(7) [of c ?s1] quiet
    by (auto simp: vq)
qed simp

lemma deflate_trace:
  "poll_trace (\<lambda>s. bal_deflateQ (fst s)) (\<lambda>vq s. ((fst s)\<lparr>bal_deflateQ := vq\<rparr>, snd s)) handleDeflate s cs s' \<Longrightarrow>
   bal_onDeflate (fst s) = None \<Longrightarrow> vq_notifyGuest (bal_deflateQ (fst s)) = None \<Longrightarrow>
   snd s' = snd s \<and> bal_inflatedPFNs (fst s') = bal_inflatedPFNs (fst s) -
     (\<Union>c \<in> set cs. set (extractPFNs c (bal_deflateQ (fst s)) (snd s)))"
proof (induction rule: poll_trace.induct)
  case (go s vq c cs s')
  let ?s1 = "((fst s)\<lparr>bal_deflateQ := vq\<rparr>, snd s)"
  have vq: "vq_memRead vq = vq_memRead (bal_deflateQ (fst s))"
    "vq_notifyGuest vq = vq_notifyGuest (bal_deflateQ (fst s))"
    using walk_keeps [OF go.hyps(1)] by simp_all
  have quiet: "bal_onDeflate (fst ?s1) = None" "vq_notifyGuest (bal_deflateQ (fst ?s1)) = None"
    using go.prems vq by simp_all
  have "extractPFNs c' (bal_deflateQ (fst (handleDeflate c ?s1))) w = extractPFNs c' (bal_deflateQ (fst s)) w"
    "extractPFNs c' vq w = extractPFNs c' (bal_deflateQ (fst s)) w" for c' w
    by (rule extractPFNs_cong, simp add: handleDeflate_keeps vq)+
  then show ?case
    using go.IH handleDeflate_effect [OF quiet, of c] handleDeflate_keeps(7) [of c ?s1] quiet
    by (auto simp: vq)
qed simp

subsection \<open>Runs of the device\<close>

inductive bal_step :: "(string \<Rightarrow> int option) \<Rightarrow>
    'w VirtioBalloon \<times> 'w \<Rightarrow> 'w VirtioBalloon \<times> 'w \<Rightarrow> bool" for scan_int where
  start: "bal_Start b = Inr b' \<Longrightarrow> bal_step scan_int (b, w) (b', w)"
| stop: "bal_Stop b = Inr b' \<Longrightarrow> bal_step scan_int (b, w) (b', w)"
| reset: "bal_Reset b = Inr b' \<Longrightarrow> bal_step scan_int (b, w) (b', w)"
| configure: "bal_step scan_int (b, w) (bal_Configure scan_int cfg b, w)"
| target: "bal_step scan_int (b, w) (SetTarget n b, w)"
| target_mb: "bal_step scan_int (b, w) (SetTargetMB n b, w)"
| on_inflate: "bal_step scan_int (b, w) (OnInflate f b, w)"
| on_deflate: "bal_step scan_int (b, w) (OnDeflate f b, w)"
| transport: "bal_step scan_int (b, w)
    (b\<lparr>bal_inflateQ := q1, bal_deflateQ := q2, bal_statsQ := q3\<rparr>, w')"
| inflate: "processInflate s = Some s' \<Longrightarrow> bal_step scan_int s s'"
| deflate: "processDeflate s = Some s' \<Longrightarrow> bal_step scan_int s s'"
| stats: "bal_step scan_int s (processStats now s)"

inductive bal_reachable :: "(string \<Rightarrow> int option) \<Rightarrow> 'w VirtioBalloon \<times> 'w \<Rightarrow> bool" for scan_int where
  new: "NewVirtioBalloon dev cfg = Inr b \<Longrightarrow> bal_reachable scan_int (b, w)"
| step: "bal_reachable scan_int s \<Longrightarrow> bal_step scan_int s t \<Longrightarrow> bal_reachable scan_int t"

lemma bal_step_inv: "bal_step scan_int s t \<Longrightarrow> bal_inv (fst s) \<Longrightarrow> bal_inv (fst t)"
proof (induction rule: bal_step.induct)
  case (inflate s s')
  then show ?case using inflate.poll_invariant [of s] by (auto simp: processInflate_def)
next
  case (deflate s s')
  then show ?case using deflate.poll_invariant [of s] by (auto simp: processDeflate_def)
next
  case (stats s now)
  then show ?case
    by (cases s) (auto simp: processStats_def bal_inv_def Let_def split: option.splits prod.splits sum.splits)
next
  case (configure b w cfg)
  then show ?case
    by (simp add: bal_Configure_def bal_inv_def SetTarget_def Let_def split: option.splits)
qed (auto simp: bal_Start_def bal_Stop_def bal_Reset_def bal_inv_def SetTarget_def SetTargetMB_def
       OnInflate_def OnDeflate_def split: if_splits)

lemma bal_reachable_inv: "bal_reachable scan_int s \<Longrightarrow> bal_inv (fst s)"
proof (induction rule: bal_reachable.induct)
  case (new dev cfg b w)
  then show ?case by (auto simp: NewVirtioBalloon_def bal_inv_def Let_def split: if_splits sum.splits)
qed (rule bal_step_inv)

text \<open>The properties of the memory balloon and an example device.\<close>

subsection \<open>Encodings and sizes\<close>

lemma decode_pfns_append:
  "length x = 4 \<Longrightarrow> decode_pfns (x @ ys) = get_le x # decode_pfns ys"
proof -
  assume x: "length x = 4"
  then have n: "length (x @ ys) div 4 = Suc (length ys div 4)" by simp
  have "gslice (Suc i * 4) ((Suc i + 1) * 4) (x @ ys) = gslice (i * 4) ((i + 1) * 4) ys" for i
    using x by (simp add: gslice_append_right)
  moreover have "gslice 0 4 (x @ ys) = x" using x by (simp add: gslice_def)
  ultimately show ?thesis
    unfolding decode_pfns_def n by (simp add: upt_conv_Cons map_Suc_upt [symmetric] del: upt_Suc)
qed

lemma put_le_4_neq [simp]: "put_le 4 w \<noteq> []"
  by (metis length_put_le list.size(3) zero_neq_numeral)

lemma decode_encode_pfns: "decode_pfns (concat (map (put_le 4) pfns)) = pfns"
proof (induction pfns)
  case (Cons p ps)
  then show ?case by (simp add: decode_pfns_append codec)
qed (simp add: decode_pfns_def)

lemma target_pages:
  assumes "unat mb < 4096"
  shows "unat (bal_targetPages (SetTargetMB mb b)) = 256 * unat mb"
proof -
  have "unat (1048576 * mb) = 1048576 * unat mb"
    using assms by (simp add: unat_word_ariths)
  then show ?thesis
    by (simp add: SetTargetMB_def balloonPageSize_def unat_div)
qed

lemma pages_MB:
  assumes "unat pages = 256 * n" and "n < 4096"
  shows "pages_to_MB pages = of_nat n"
proof -
  have "unat (pages * 4096) = n * 1048576"
    using assms by (simp add: unat_word_ariths)
  then have "unat (pages_to_MB pages) = n"
    by (simp add: pages_to_MB_def balloonPageSize_def unat_div)
  then show ?thesis by (metis of_nat_unat ucast_id)
qed

subsection \<open>An example device\<close>

definition demo_bal :: "(u64 \<Rightarrow> byte) VirtioBalloon" where
  "demo_bal = (case NewVirtioBalloon ''b0'' \<lparr>bc_DeflateOnOOM = True, bc_StatsEnabled = False,
     bc_FreePageHinting = False, bc_QueueSize = 4\<rparr> of Inr b \<Rightarrow> b)"

lemma demo_bal_new: "NewVirtioBalloon ''b0'' \<lparr>bc_DeflateOnOOM = True, bc_StatsEnabled = False,
     bc_FreePageHinting = False, bc_QueueSize = 4\<rparr> = Inr demo_bal"
  by (simp add: demo_bal_def NewVirtioBalloon_def Let_def device_queue_def NewVirtqueue_def
      queue_num_def MaxQueueSize_def)

definition demo_page_chain :: DescriptorChain where
  "demo_page_chain = \<lparr>dc_HeadIndex = 0, dc_Readable = [\<lparr>cl_Addr = 0, cl_Len = 8\<rparr>],
     dc_Writable = [], dc_TotalRead = 8, dc_TotalWrite = 0\<rparr>"

definition demo_page_queue :: "(u64 \<Rightarrow> byte) Virtqueue" where
  "demo_page_queue = publish (demo_vq\<lparr>vq_descs :=
     replicate 4 \<lparr>vd_Addr = 0, vd_Len = 8, vd_Flags = 0, vd_Next = 0\<rparr>\<rparr>) 0"

lemma replicate_4: "replicate 4 x = [x, x, x, x]"
  by (simp add: eval_nat_numeral)

lemma demo_page_queue_eq: "demo_page_queue = demo_vq\<lparr>vq_descs :=
     replicate 4 \<lparr>vd_Addr = 0, vd_Len = 8, vd_Flags = 0, vd_Next = 0\<rparr>,
     vq_avail := \<lparr>va_Flags = 0, va_Idx = 1, va_Ring = [0, 0, 0, 0]\<rparr>\<rparr>"
  by (simp add: demo_page_queue_def publish_def SetAvailRing_def SetAvailIdx_def demo_vq_eq replicate_4)

lemma demo_page_chains: "good_chains demo_page_queue = [demo_page_chain]"
proof -
  have "pending demo_page_queue = [0]"
    by (simp add: pending_def demo_page_queue_eq demo_vq_eq)
  moreover have "walk_chain 4 (replicate 4 \<lparr>vd_Addr = 0, vd_Len = 8, vd_Flags = 0, vd_Next = 0\<rparr>) 0 {}
      (empty_chain 0) = Inr demo_page_chain"
    by (simp add: walk_chain.simps Let_def add_desc_def empty_chain_def desc_link_def vring_consts
        demo_page_chain_def)
  ultimately show ?thesis
    by (simp add: good_chains_def head_result_def demo_page_queue_eq demo_vq_eq)
qed

lemma demo_page_pfns:
  "extractPFNs demo_page_chain demo_page_queue (\<lambda>a. if a = 4 then 9 else if a = 0 then 3 else 0) = [3, 9]"
  by (simp add: extractPFNs_def ReadChainData_def demo_page_queue_eq demo_vq_eq demo_page_chain_def
      flat_read_def decode_pfns_def upt_conv_Cons gslice_def)

subsection \<open>Properties\<close>

text \<open>
  In every run of a balloon, whatever the guest puts on its queues, the reported number
  of actual pages is the number of distinct page frames it currently tracks as inflated.
\<close>
theorem balloon_actual_pages:
  assumes "bal_reachable scan_int (b, w)"
  shows "unat (GetActual b) = card (bal_inflatedPFNs b) mod 2 ^ 32 \<and>
    bds_ActualPages (DeviceStats b) = of_nat (bds_TrackedPFNs (DeviceStats b))"
  using bal_reachable_inv [OF assms] by (simp add: bal_inv_def GetActual_def DeviceStats_def unat_of_nat)

lemma balloon_actual_pages_witness:
  "unat (GetActual demo_bal) = 0"
proof -
  have "bal_reachable (\<lambda>_. None) (demo_bal, \<lambda>_. 0)" using demo_bal_new by (rule bal_reachable.new)
  from balloon_actual_pages [OF this] show ?thesis
    by (simp add: demo_bal_def NewVirtioBalloon_def Let_def device_queue_def NewVirtqueue_def
        queue_num_def MaxQueueSize_def)
qed

text \<open>
  On a ready queue one inflate poll returns and adds to the tracked pages exactly the
  page frames named by the pending chains, up to the first malformed one, and a deflate poll
  returns and removes exactly those its chains name; each chain is completed once. So a
  deflate of the same pages undoes an inflate. (No page callback and no notification, which
  could change guest memory between chains.)
\<close>
theorem balloon_inflate_deflate:
  assumes "bal_inv b" and "vq_ready (bal_inflateQ b)" and "vq_ready (bal_deflateQ b)"
    and "bal_onInflate b = None" and "bal_onDeflate b = None"
    and "vq_notifyGuest (bal_inflateQ b) = None" and "vq_notifyGuest (bal_deflateQ b) = None"
  shows "(\<exists>b'. processInflate (b, w) = Some (b', w) \<and>
      bal_inflatedPFNs b' = bal_inflatedPFNs b \<union>
        (\<Union>c \<in> set (good_chains (bal_inflateQ b)). set (extractPFNs c (bal_inflateQ b) w)) \<and>
      UsedIdx (bal_inflateQ b') = UsedIdx (bal_inflateQ b) + of_nat (length (good_chains (bal_inflateQ b)))) \<and>
    (\<exists>b'. processDeflate (b, w) = Some (b', w) \<and>
      bal_inflatedPFNs b' = bal_inflatedPFNs b -
        (\<Union>c \<in> set (good_chains (bal_deflateQ b)). set (extractPFNs c (bal_deflateQ b) w)) \<and>
      UsedIdx (bal_deflateQ b') = UsedIdx (bal_deflateQ b) + of_nat (length (good_chains (bal_deflateQ b))))"
proof
  obtain s' where i: "processInflate (b, w) = Some s'"
    "poll_trace (\<lambda>s. bal_inflateQ (fst s)) (\<lambda>vq s. ((fst s)\<lparr>bal_inflateQ := vq\<rparr>, snd s)) handleInflate
       (b, w) (good_chains (bal_inflateQ b)) s'"
    "UsedIdx (bal_inflateQ (fst s')) = UsedIdx (bal_inflateQ b) + of_nat (length (good_chains (bal_inflateQ b)))"
    using inflate.poll_served [of "(b, w)"] assms(1,2) by (auto simp: processInflate_def)
  show "\<exists>b'. processInflate (b, w) = Some (b', w) \<and>
      bal_inflatedPFNs b' = bal_inflatedPFNs b \<union>
        (\<Union>c \<in> set (good_chains (bal_inflateQ b)). set (extractPFNs c (bal_inflateQ b) w)) \<and>
      UsedIdx (bal_inflateQ b') = UsedIdx (bal_inflateQ b) + of_nat (length (good_chains (bal_inflateQ b)))"
    using inflate_trace [OF i(2)] i assms(4,6) by (intro exI [of _ "fst s'"]) (cases s', auto)
next
  obtain s' where d: "processDeflate (b, w) = Some s'"
    "poll_trace (\<lambda>s. bal_deflateQ (fst s)) (\<lambda>vq s. ((fst s)\<lparr>bal_deflateQ := vq\<rparr>, snd s)) handleDeflate
       (b, w) (good_chains (bal_deflateQ b)) s'"
    "UsedIdx (bal_deflateQ (fst s')) = UsedIdx (bal_deflateQ b) + of_nat (length (good_chains (bal_deflateQ b)))"
    using deflate.poll_served [of "(b, w)"] assms(1,3) by (auto simp: processDeflate_def)
  show "\<exists>b'. processDeflate (b, w) = Some (b', w) \<and>
      bal_inflatedPFNs b' = bal_inflatedPFNs b -
        (\<Union>c \<in> set (good_chains (bal_deflateQ b)). set (extractPFNs c (bal_deflateQ b) w)) \<and>
      UsedIdx (bal_deflateQ b') = UsedIdx (bal_deflateQ b) + of_nat (length (good_chains (bal_deflateQ b)))"
    using deflate_trace [OF d(2)] d assms(5,7) by (intro exI [of _ "fst s'"]) (cases s', auto)
qed

lemma balloon_inflate_deflate_witness:
  "\<exists>b'. processInflate (demo_bal\<lparr>bal_inflateQ := demo_page_queue, bal_deflateQ := demo_page_queue\<rparr>,
       \<lambda>a. if a = 4 then 9 else if a = 0 then 3 else 0) =
       Some (b', \<lambda>a. if a = 4 then 9 else if a = 0 then 3 else 0) \<and> bal_inflatedPFNs b' = {3, 9}"
proof -
  let ?b = "demo_bal\<lparr>bal_inflateQ := demo_page_queue, bal_deflateQ := demo_page_queue\<rparr>"
  let ?w = "\<lambda>a :: u64. if a = 4 then 9 else if a = 0 then 3 else 0 :: byte"
  have "bal_inv ?b" "bal_onInflate ?b = None" "bal_onDeflate ?b = None" "bal_inflatedPFNs ?b = {}"
    by (simp_all add: bal_inv_def demo_bal_def NewVirtioBalloon_def Let_def device_queue_def
        NewVirtqueue_def queue_num_def MaxQueueSize_def)
  moreover have "vq_ready demo_page_queue" "vq_notifyGuest demo_page_queue = None"
    by (simp_all add: demo_page_queue_eq demo_vq_eq)
  ultimately show ?thesis
    using balloon_inflate_deflate [of ?b ?w] by (auto simp: demo_page_chains demo_page_pfns)
qed

text \<open>
  Below 4096 MB a target in megabytes is stored as that many times 256 pages and read
  back unchanged; at 4096 MB the 32-bit multiplication wraps and the target becomes 0, while
  the same value set through Configure gives the intended number of pages.
\<close>
theorem balloon_target_mb:
  "(unat mb < 4096 \<longrightarrow> unat (GetTarget (SetTargetMB mb b)) = 256 * unat mb \<and>
      GetTargetMB (SetTargetMB mb b) = mb) \<and>
   GetTarget (SetTargetMB 4096 b) = 0 \<and> target_mb_pages 4096 = 256 * 4096"
proof (intro conjI impI)
  assume mb: "unat mb < 4096"
  show "unat (GetTarget (SetTargetMB mb b)) = 256 * unat mb"
    using target_pages [OF mb] by (simp add: GetTarget_def)
  show "GetTargetMB (SetTargetMB mb b) = mb"
    using pages_MB [OF target_pages [OF mb] mb] by (simp add: GetTargetMB_def)
next
  show "GetTarget (SetTargetMB 4096 b) = 0"
    by (simp add: GetTarget_def SetTargetMB_def balloonPageSize_def)
  show "target_mb_pages 4096 = 256 * 4096"
    by (simp add: target_mb_pages_def balloonPageSize_def signed_take_bit_int_eq_self_iff)
qed

lemma balloon_target_mb_witness: "GetTargetMB (SetTargetMB 512 demo_bal) = 512"
  using balloon_target_mb [of 512 demo_bal] by simp

text \<open>
  The guest's page frame numbers and the device configuration are decoded as they were
  encoded: any list of frame numbers written as little-endian words is extracted in order
  (with any rest of less than a word ignored), and the configuration space is parsed back.
\<close>
theorem balloon_wire_roundtrip:
  "decode_pfns (concat (map (put_le 4) pfns)) = pfns \<and>
   (ReadChainData vq w chain = Inr (concat (map (put_le 4) pfns)) \<longrightarrow> extractPFNs chain vq w = pfns) \<and>
   ParseBalloonConfigSpace (bcs_Bytes c @ rest) = Inr c"
proof (intro conjI impI)
  show "decode_pfns (concat (map (put_le 4) pfns)) = pfns" by (rule decode_encode_pfns)
  show "extractPFNs chain vq w = pfns" if "ReadChainData vq w chain = Inr (concat (map (put_le 4) pfns))"
    using that decode_encode_pfns [of pfns] by (cases pfns) (auto simp: extractPFNs_def)
  show "ParseBalloonConfigSpace (bcs_Bytes c @ rest) = Inr c"
    by (simp add: ParseBalloonConfigSpace_def bcs_Bytes_def gslice_def codec)
qed

lemma balloon_wire_roundtrip_witness:
  "extractPFNs \<lparr>dc_HeadIndex = 0, dc_Readable = [\<lparr>cl_Addr = 0, cl_Len = 4\<rparr>], dc_Writable = [],
     dc_TotalRead = 4, dc_TotalWrite = 0\<rparr> demo_vq (\<lambda>a. if a = 0 then 5 else 0) = [5]"
proof -
  have "ReadChainData demo_vq (\<lambda>a. if a = 0 then 5 else 0) \<lparr>dc_HeadIndex = 0,
     dc_Readable = [\<lparr>cl_Addr = 0, cl_Len = 4\<rparr>], dc_Writable = [], dc_TotalRead = 4,
     dc_TotalWrite = 0\<rparr> = Inr (concat (map (put_le 4) [5 :: u32]))"
    by (simp add: ReadChainData_def demo_vq_eq flat_read_def upt_conv_Cons byte_eval)
  then show ?thesis
    by (rule balloon_wire_roundtrip [THEN conjunct2, THEN conjunct1, rule_format])
qed

end
