(* ===== verification/Vsock.thy ===== *)
theory Vsock
  imports Virtqueue "HOL-Library.AList"
begin

text \<open>
  Model of \<^verbatim>\<open>internal/virtio/vsock.go\<close>: the host/guest socket device. Connections are shared
  objects: the table and the callers hold pointers to them. They live in the list
  \<open>vs_heap\<close>, and a pointer is a position in it; a new connection is appended. The table
  \<^verbatim>\<open>conns\<close> is an association list from keys to pointers, \<^verbatim>\<open>listeners\<close> a map.

  A listener callback gets the pointer and the object; it returns the object as it leaves it
  and its error, if any. It runs with the device locked, so it cannot call the device.

  Stop, Connect, SendData, CloseConnection and ProcessGuestPacket look at the run flag or at
  the connection before they take the lock of the device, so other calls can come in between:
  each is written as its part before the lock (\<open>vs_enter\<close>) and its part under it
  (\<open>vs_leave\<close>), and the call is the two in turn.
\<close>

subsection \<open>Constants and data\<close>

definition VsockOpInvalid :: u16 where "VsockOpInvalid = 0"
definition VsockOpRequest :: u16 where "VsockOpRequest = 1"
definition VsockOpResponse :: u16 where "VsockOpResponse = 2"
definition VsockOpRst :: u16 where "VsockOpRst = 3"
definition VsockOpShutdown :: u16 where "VsockOpShutdown = 4"
definition VsockOpRW :: u16 where "VsockOpRW = 5"
definition VsockOpCredit :: u16 where "VsockOpCredit = 6"
definition VsockShutdownFlagRecv :: u32 where "VsockShutdownFlagRecv = 1"
definition VsockShutdownFlagSend :: u32 where "VsockShutdownFlagSend = 2"
definition VsockTypeStream :: u16 where "VsockTypeStream = 1"
definition VsockCIDHost :: u64 where "VsockCIDHost = 2"
definition vsockHeaderSize :: nat where "vsockHeaderSize = 44"
definition maxRecvBufSize :: nat where "maxRecvBufSize = 4 * 1024 * 1024"

lemmas vsock_ops = VsockOpRequest_def VsockOpResponse_def VsockOpRst_def VsockOpShutdown_def
  VsockOpRW_def VsockOpCredit_def VsockOpInvalid_def

record VsockHeader =
  vh_SrcCID :: u64
  vh_DstCID :: u64
  vh_SrcPort :: u32
  vh_DstPort :: u32
  vh_Len :: u32
  vh_Type :: u16
  vh_Op :: u16
  vh_Flags :: u32
  vh_BufSize :: u32
  vh_FwdCnt :: u32

datatype VsockConnState =
    VsockConnStateClosed
  | VsockConnStateListening
  | VsockConnStateConnecting
  | VsockConnStateConnected
  | VsockConnStateClosing

record VsockConnection =
  vc_LocalCID :: u64
  vc_LocalPort :: u32
  vc_PeerCID :: u64
  vc_PeerPort :: u32
  vc_BufSize :: u32
  vc_FwdCnt :: u32
  vc_PeerBuf :: u32
  vc_PeerFwd :: u32
  vc_TxCnt :: u32
  vc_recvBuf :: bytes
  vc_State :: VsockConnState
  vc_ShutdownFlags :: u32

record connKey =
  ck_localPort :: u32
  ck_peerCID :: u64
  ck_peerPort :: u32

record VsockPacket =
  vp_Header :: VsockHeader
  vp_Payload :: bytes

type_synonym 'w VsockListenFunc =
  "nat \<Rightarrow> VsockConnection \<Rightarrow> 'w \<Rightarrow> VsockConnection \<times> 'w \<times> string option"

record 'w VirtioVsock =
  vs_deviceID :: string
  vs_guestCID :: u64
  vs_heap :: "VsockConnection list"
  vs_conns :: "(connKey \<times> nat) list"
  vs_listeners :: "u32 \<rightharpoonup> 'w VsockListenFunc"
  vs_txQueue :: "VsockPacket list"
  vs_running :: bool
  vs_stopClosed :: bool
  vs_packetsRx :: u64
  vs_packetsTx :: u64
  vs_bytesRx :: u64
  vs_bytesTx :: u64

record VsockStats =
  vst_PacketsRx :: u64
  vst_PacketsTx :: u64
  vst_BytesRx :: u64
  vst_BytesTx :: u64

datatype vs_error =
    VsReservedCID
  | VsAlreadyRunning
  | VsNotRunning
  | VsClosedChannel
  | VsConnectionExists u32
  | VsNotEstablished
  | VsHeaderTooSmall nat
  | VsUnknownOp u16
  | VsUnknownConnection u32

subsection \<open>Packet headers\<close>

definition decodeVsockHeader :: "bytes \<Rightarrow> VsockHeader" where
  "decodeVsockHeader buf = \<lparr>
     vh_SrcCID = get_le (gslice 0 8 buf), vh_DstCID = get_le (gslice 8 16 buf),
     vh_SrcPort = get_le (gslice 16 20 buf), vh_DstPort = get_le (gslice 20 24 buf),
     vh_Len = get_le (gslice 24 28 buf), vh_Type = get_le (gslice 28 30 buf),
     vh_Op = get_le (gslice 30 32 buf), vh_Flags = get_le (gslice 32 36 buf),
     vh_BufSize = get_le (gslice 36 40 buf), vh_FwdCnt = get_le (gslice 40 44 buf)\<rparr>"

definition EncodeVsockHeader :: "VsockHeader \<Rightarrow> bytes" where
  "EncodeVsockHeader h =
     put_le 8 (vh_SrcCID h) @ put_le 8 (vh_DstCID h) @ put_le 4 (vh_SrcPort h) @
     put_le 4 (vh_DstPort h) @ put_le 4 (vh_Len h) @ put_le 2 (vh_Type h) @ put_le 2 (vh_Op h) @
     put_le 4 (vh_Flags h) @ put_le 4 (vh_BufSize h) @ put_le 4 (vh_FwdCnt h)"

definition host_header :: "u64 \<Rightarrow> u32 \<Rightarrow> u32 \<Rightarrow> u16 \<Rightarrow> VsockHeader" where
  "host_header dstCID srcPort dstPort op_code = \<lparr>
     vh_SrcCID = VsockCIDHost, vh_DstCID = dstCID, vh_SrcPort = srcPort, vh_DstPort = dstPort,
     vh_Len = 0, vh_Type = VsockTypeStream, vh_Op = op_code, vh_Flags = 0, vh_BufSize = 0, vh_FwdCnt = 0\<rparr>"

subsection \<open>Connections\<close>

definition PeerCredit :: "VsockConnection \<Rightarrow> u32" where
  "PeerCredit c =
     (let sent = vc_TxCnt c - vc_PeerFwd c
      in if sent > vc_PeerBuf c then 0 else vc_PeerBuf c - sent)"

definition Enqueue :: "bytes \<Rightarrow> VsockConnection \<Rightarrow> VsockConnection" where
  "Enqueue dat c =
     (if length (vc_recvBuf c) + length dat > maxRecvBufSize then c
      else c\<lparr>vc_recvBuf := vc_recvBuf c @ dat\<rparr>)"

definition Dequeue :: "nat \<Rightarrow> VsockConnection \<Rightarrow> VsockConnection \<times> bytes" where
  "Dequeue n c =
     (if vc_recvBuf c = [] then (c, [])
      else let n = (if n > length (vc_recvBuf c) then length (vc_recvBuf c) else n)
           in (c\<lparr>vc_recvBuf := drop n (vc_recvBuf c), vc_FwdCnt := vc_FwdCnt c + of_nat n\<rparr>,
               take n (vc_recvBuf c)))"

definition new_conn :: "u32 \<Rightarrow> u64 \<Rightarrow> u32 \<Rightarrow> VsockConnState \<Rightarrow> u32 \<Rightarrow> u32 \<Rightarrow> VsockConnection" where
  "new_conn localPort peerCID peerPort st peerBuf peerFwd = \<lparr>
     vc_LocalCID = VsockCIDHost, vc_LocalPort = localPort, vc_PeerCID = peerCID,
     vc_PeerPort = peerPort, vc_BufSize = 65536, vc_FwdCnt = 0, vc_PeerBuf = peerBuf,
     vc_PeerFwd = peerFwd, vc_TxCnt = 0, vc_recvBuf = [], vc_State = st, vc_ShutdownFlags = 0\<rparr>"

definition conn_key :: "VsockConnection \<Rightarrow> connKey" where
  "conn_key c = \<lparr>ck_localPort = vc_LocalPort c, ck_peerCID = vc_PeerCID c, ck_peerPort = vc_PeerPort c\<rparr>"

definition hdr_key :: "VsockHeader \<Rightarrow> connKey" where
  "hdr_key h = \<lparr>ck_localPort = vh_DstPort h, ck_peerCID = vh_SrcCID h, ck_peerPort = vh_SrcPort h\<rparr>"

definition upd_conn :: "nat \<Rightarrow> (VsockConnection \<Rightarrow> VsockConnection) \<Rightarrow> 'w VirtioVsock \<Rightarrow> 'w VirtioVsock" where
  "upd_conn p f d = d\<lparr>vs_heap := (vs_heap d)[p := f (vs_heap d ! p)]\<rparr>"

definition set_state :: "VsockConnState \<Rightarrow> VsockConnection \<Rightarrow> VsockConnection" where
  "set_state s c = c\<lparr>vc_State := s\<rparr>"

subsection \<open>Device\<close>

definition NewVirtioVsock :: "string \<Rightarrow> u64 \<Rightarrow> vs_error + 'w VirtioVsock" where
  "NewVirtioVsock deviceID guestCID =
     (if guestCID < 3 then Inl VsReservedCID
      else Inr \<lparr>vs_deviceID = deviceID, vs_guestCID = guestCID, vs_heap = [], vs_conns = [],
             vs_listeners = Map.empty, vs_txQueue = [], vs_running = False, vs_stopClosed = False,
             vs_packetsRx = 0, vs_packetsTx = 0, vs_bytesRx = 0, vs_bytesTx = 0\<rparr>)"

definition vs_Start :: "'w VirtioVsock \<Rightarrow> vs_error + 'w VirtioVsock" where
  "vs_Start d = (if vs_running d then Inl VsAlreadyRunning else Inr (d\<lparr>vs_running := True\<rparr>))"

definition stop_flags :: "'w VirtioVsock \<Rightarrow> 'w VirtioVsock" where
  "stop_flags d = d\<lparr>vs_running := False, vs_stopClosed := True\<rparr>"

definition stop_locked :: "'w VirtioVsock \<Rightarrow> 'w VirtioVsock" where
  "stop_locked d = fold (\<lambda>(k, p) d. (upd_conn p (set_state VsockConnStateClosed) d)
                                  \<lparr>vs_conns := AList.delete k (vs_conns d)\<rparr>) (vs_conns d) d"

definition vs_Stop :: "'w VirtioVsock \<Rightarrow> vs_error + 'w VirtioVsock" where
  "vs_Stop d =
     (if \<not> vs_running d then Inr d
      else if vs_stopClosed d then Inl VsClosedChannel
      else Inr (stop_locked (stop_flags d)))"

definition Listen :: "u32 \<Rightarrow> 'w VsockListenFunc \<Rightarrow> 'w VirtioVsock \<Rightarrow> 'w VirtioVsock" where
  "Listen port handler d = d\<lparr>vs_listeners := (vs_listeners d)(port \<mapsto> handler)\<rparr>"

definition enqueueTxPacket :: "VsockPacket \<Rightarrow> 'w VirtioVsock \<Rightarrow> 'w VirtioVsock" where
  "enqueueTxPacket pkt d = d\<lparr>vs_txQueue := vs_txQueue d @ [pkt], vs_packetsTx := vs_packetsTx d + 1\<rparr>"

definition DrainTxQueue :: "'w VirtioVsock \<Rightarrow> 'w VirtioVsock \<times> VsockPacket list" where
  "DrainTxQueue d = (if vs_txQueue d = [] then (d, []) else (d\<lparr>vs_txQueue := []\<rparr>, vs_txQueue d))"

definition add_conn :: "VsockConnection \<Rightarrow> 'w VirtioVsock \<Rightarrow> 'w VirtioVsock" where
  "add_conn c d = d\<lparr>vs_heap := vs_heap d @ [c],
                    vs_conns := AList.update (conn_key c) (length (vs_heap d)) (vs_conns d)\<rparr>"

definition connect_locked :: "u32 \<Rightarrow> u32 \<Rightarrow> 'w VirtioVsock \<Rightarrow> 'w VirtioVsock \<times> (vs_error + nat)" where
  "connect_locked guestPort hostPort d =
     (let conn = new_conn hostPort (vs_guestCID d) guestPort VsockConnStateConnecting 0 0
      in if map_of (vs_conns d) (conn_key conn) \<noteq> None then (d, Inl (VsConnectionExists hostPort))
         else (enqueueTxPacket
                \<lparr>vp_Header = (host_header (vs_guestCID d) hostPort guestPort VsockOpRequest)
                               \<lparr>vh_BufSize := vc_BufSize conn\<rparr>, vp_Payload = []\<rparr>
                (add_conn conn d), Inr (length (vs_heap d))))"

definition Connect :: "u32 \<Rightarrow> u32 \<Rightarrow> 'w VirtioVsock \<Rightarrow> 'w VirtioVsock \<times> (vs_error + nat)" where
  "Connect guestPort hostPort d =
     (if \<not> vs_running d then (d, Inl VsNotRunning) else connect_locked guestPort hostPort d)"

definition send_count :: "nat \<Rightarrow> bytes \<Rightarrow> 'w VirtioVsock \<Rightarrow> vs_error + 'w VirtioVsock" where
  "send_count p dat d =
     (if \<not> vs_running d then Inl VsNotRunning
      else if vc_State (vs_heap d ! p) \<noteq> VsockConnStateConnected then Inl VsNotEstablished
      else Inr (upd_conn p (\<lambda>c. c\<lparr>vc_TxCnt := vc_TxCnt c + of_nat (length dat)\<rparr>) d))"

definition send_locked :: "nat \<Rightarrow> bytes \<Rightarrow> 'w VirtioVsock \<Rightarrow> 'w VirtioVsock" where
  "send_locked p dat d =
     (let conn = vs_heap d ! p;
          d = enqueueTxPacket
                \<lparr>vp_Header = (host_header (vc_PeerCID conn) (vc_LocalPort conn) (vc_PeerPort conn) VsockOpRW)
                   \<lparr>vh_Len := of_nat (length dat), vh_BufSize := vc_BufSize conn, vh_FwdCnt := vc_FwdCnt conn\<rparr>,
                 vp_Payload = dat\<rparr> d
      in d\<lparr>vs_bytesTx := vs_bytesTx d + of_nat (length dat)\<rparr>)"

definition SendData :: "nat \<Rightarrow> bytes \<Rightarrow> 'w VirtioVsock \<Rightarrow> 'w VirtioVsock \<times> vs_error option" where
  "SendData p dat d =
     (case send_count p dat d of Inl e \<Rightarrow> (d, Some e) | Inr d' \<Rightarrow> (send_locked p dat d', None))"

definition close_mark :: "nat \<Rightarrow> 'w VirtioVsock \<Rightarrow> 'w VirtioVsock option" where
  "close_mark p d =
     (if vc_State (vs_heap d ! p) = VsockConnStateClosed then None
      else Some (upd_conn p (set_state VsockConnStateClosing) d))"

definition close_locked :: "nat \<Rightarrow> 'w VirtioVsock \<Rightarrow> 'w VirtioVsock" where
  "close_locked p d =
     (let conn = vs_heap d ! p;
          hdr = host_header (vc_PeerCID conn) (vc_LocalPort conn) (vc_PeerPort conn);
          d = enqueueTxPacket \<lparr>vp_Header = (hdr VsockOpShutdown)
                \<lparr>vh_Flags := VsockShutdownFlagSend OR VsockShutdownFlagRecv\<rparr>, vp_Payload = []\<rparr> d;
          d = enqueueTxPacket \<lparr>vp_Header = hdr VsockOpRst, vp_Payload = []\<rparr> d;
          d = d\<lparr>vs_conns := AList.delete (conn_key conn) (vs_conns d)\<rparr>
      in upd_conn p (set_state VsockConnStateClosed) d)"

definition CloseConnection :: "nat \<Rightarrow> 'w VirtioVsock \<Rightarrow> 'w VirtioVsock" where
  "CloseConnection p d = (case close_mark p d of None \<Rightarrow> d | Some d' \<Rightarrow> close_locked p d')"

subsection \<open>Packets from the guest\<close>

definition rst_reply :: "VsockHeader \<Rightarrow> VsockPacket" where
  "rst_reply hdr = \<lparr>vp_Header = host_header (vh_SrcCID hdr) (vh_DstPort hdr) (vh_SrcPort hdr) VsockOpRst,
                    vp_Payload = []\<rparr>"

definition handleGuestConnect :: "VsockHeader \<Rightarrow> 'w VirtioVsock \<times> 'w \<Rightarrow> 'w VirtioVsock \<times> 'w" where
  "handleGuestConnect hdr s =
     (let (d, w) = s
      in case vs_listeners d (vh_DstPort hdr) of
           None \<Rightarrow> (enqueueTxPacket (rst_reply hdr) d, w)
         | Some handler \<Rightarrow>
             let conn = new_conn (vh_DstPort hdr) (vh_SrcCID hdr) (vh_SrcPort hdr)
                          VsockConnStateConnected (vh_BufSize hdr) (vh_FwdCnt hdr);
                 p = length (vs_heap d);
                 d = add_conn conn d;
                 d = enqueueTxPacket \<lparr>vp_Header =
                       (host_header (vh_SrcCID hdr) (vh_DstPort hdr) (vh_SrcPort hdr) VsockOpResponse)
                         \<lparr>vh_BufSize := vc_BufSize conn, vh_FwdCnt := vc_FwdCnt conn\<rparr>, vp_Payload = []\<rparr> d;
                 (conn', w', err) = handler p conn w;
                 d = upd_conn p (\<lambda>_. conn') d
             in case err of
                  None \<Rightarrow> (d, w')
                | Some _ \<Rightarrow>
                    ((enqueueTxPacket (rst_reply hdr) d)
                       \<lparr>vs_conns := AList.delete (hdr_key hdr) (vs_conns d)\<rparr>, w'))"

definition set_peer :: "VsockHeader \<Rightarrow> VsockConnection \<Rightarrow> VsockConnection" where
  "set_peer hdr c = c\<lparr>vc_PeerBuf := vh_BufSize hdr, vc_PeerFwd := vh_FwdCnt hdr\<rparr>"

definition handleGuestResponse :: "VsockHeader \<Rightarrow> 'w VirtioVsock \<Rightarrow> 'w VirtioVsock \<times> vs_error option" where
  "handleGuestResponse hdr d =
     (case map_of (vs_conns d) (hdr_key hdr) of
        None \<Rightarrow> (d, Some (VsUnknownConnection (vh_DstPort hdr)))
      | Some p \<Rightarrow> (upd_conn p (\<lambda>c. set_peer hdr (set_state VsockConnStateConnected c)) d, None))"

definition handleGuestData ::
  "VsockHeader \<Rightarrow> bytes \<Rightarrow> 'w VirtioVsock \<Rightarrow> 'w VirtioVsock \<times> vs_error option" where
  "handleGuestData hdr payload d =
     (case map_of (vs_conns d) (hdr_key hdr) of
        None \<Rightarrow> (d, Some (VsUnknownConnection (vh_DstPort hdr)))
      | Some p \<Rightarrow>
          let d = (if length payload > 0 then upd_conn p (Enqueue payload) d else d)
          in (upd_conn p (set_peer hdr) d, None))"

definition handleGuestShutdown :: "VsockHeader \<Rightarrow> 'w VirtioVsock \<Rightarrow> 'w VirtioVsock" where
  "handleGuestShutdown hdr d =
     (case map_of (vs_conns d) (hdr_key hdr) of
        None \<Rightarrow> d
      | Some p \<Rightarrow>
          let d = upd_conn p (\<lambda>c.
                    let c = c\<lparr>vc_ShutdownFlags := vc_ShutdownFlags c OR vh_Flags hdr\<rparr>
                    in if vc_ShutdownFlags c = VsockShutdownFlagRecv OR VsockShutdownFlagSend
                       then set_state VsockConnStateClosing c else c) d;
              d = enqueueTxPacket (rst_reply hdr) d;
              d = d\<lparr>vs_conns := AList.delete (hdr_key hdr) (vs_conns d)\<rparr>
          in upd_conn p (set_state VsockConnStateClosed) d)"

definition handleGuestRst :: "VsockHeader \<Rightarrow> 'w VirtioVsock \<Rightarrow> 'w VirtioVsock" where
  "handleGuestRst hdr d =
     (case map_of (vs_conns d) (hdr_key hdr) of
        None \<Rightarrow> d
      | Some p \<Rightarrow>
          let d = upd_conn p (set_state VsockConnStateClosed) d
          in d\<lparr>vs_conns := AList.delete (hdr_key hdr) (vs_conns d)\<rparr>)"

definition handleGuestCredit :: "VsockHeader \<Rightarrow> 'w VirtioVsock \<Rightarrow> 'w VirtioVsock" where
  "handleGuestCredit hdr d =
     (case map_of (vs_conns d) (hdr_key hdr) of
        None \<Rightarrow> d
      | Some p \<Rightarrow> upd_conn p (set_peer hdr) d)"

definition packet_count :: "bytes \<Rightarrow> 'w VirtioVsock \<Rightarrow> vs_error + 'w VirtioVsock" where
  "packet_count headerBuf d =
     (if \<not> vs_running d then Inl VsNotRunning
      else if length headerBuf < vsockHeaderSize then Inl (VsHeaderTooSmall (length headerBuf))
      else Inr (d\<lparr>vs_packetsRx := vs_packetsRx d + 1,
                  vs_bytesRx := vs_bytesRx d + ucast (vh_Len (decodeVsockHeader headerBuf))\<rparr>))"

definition packet_locked ::
  "VsockHeader \<Rightarrow> bytes \<Rightarrow> 'w VirtioVsock \<times> 'w \<Rightarrow> ('w VirtioVsock \<times> 'w) \<times> vs_error option" where
  "packet_locked hdr payload s =
     (let (d, w) = s
      in if vh_Op hdr = VsockOpRequest then (handleGuestConnect hdr (d, w), None)
         else if vh_Op hdr = VsockOpResponse then
           (case handleGuestResponse hdr d of (d', e) \<Rightarrow> ((d', w), e))
         else if vh_Op hdr = VsockOpRW then
           (case handleGuestData hdr payload d of (d', e) \<Rightarrow> ((d', w), e))
         else if vh_Op hdr = VsockOpShutdown then ((handleGuestShutdown hdr d, w), None)
         else if vh_Op hdr = VsockOpRst then ((handleGuestRst hdr d, w), None)
         else if vh_Op hdr = VsockOpCredit then ((handleGuestCredit hdr d, w), None)
         else ((d, w), Some (VsUnknownOp (vh_Op hdr))))"

definition ProcessGuestPacket ::
  "bytes \<Rightarrow> bytes \<Rightarrow> 'w VirtioVsock \<times> 'w \<Rightarrow> ('w VirtioVsock \<times> 'w) \<times> vs_error option" where
  "ProcessGuestPacket headerBuf payload s =
     (let (d, w) = s
      in case packet_count headerBuf d of
           Inl e \<Rightarrow> (s, Some e)
         | Inr d' \<Rightarrow> packet_locked (decodeVsockHeader headerBuf) payload (d', w))"

subsection \<open>Calls in progress\<close>

text \<open>
  The calls with a part outside the lock. \<open>vs_enter\<close> is None when the call returns before it
  takes the lock.
\<close>

datatype vs_call =
    VcStop
  | VcConnect u32 u32
  | VcSend nat bytes
  | VcClose nat
  | VcPacket bytes bytes

fun vs_enter :: "vs_call \<Rightarrow> 'w VirtioVsock \<Rightarrow> 'w VirtioVsock option" where
  "vs_enter VcStop d = (if vs_running d \<and> \<not> vs_stopClosed d then Some (stop_flags d) else None)"
| "vs_enter (VcConnect guestPort hostPort) d = (if vs_running d then Some d else None)"
| "vs_enter (VcSend p dat) d = (case send_count p dat d of Inl _ \<Rightarrow> None | Inr d' \<Rightarrow> Some d')"
| "vs_enter (VcClose p) d = close_mark p d"
| "vs_enter (VcPacket headerBuf payload) d =
     (case packet_count headerBuf d of Inl _ \<Rightarrow> None | Inr d' \<Rightarrow> Some d')"

fun vs_leave :: "vs_call \<Rightarrow> 'w VirtioVsock \<times> 'w \<Rightarrow> 'w VirtioVsock \<times> 'w" where
  "vs_leave VcStop (d, w) = (stop_locked d, w)"
| "vs_leave (VcConnect guestPort hostPort) (d, w) = (fst (connect_locked guestPort hostPort d), w)"
| "vs_leave (VcSend p dat) (d, w) = (send_locked p dat d, w)"
| "vs_leave (VcClose p) (d, w) = (close_locked p d, w)"
| "vs_leave (VcPacket headerBuf payload) s = fst (packet_locked (decodeVsockHeader headerBuf) payload s)"

subsection \<open>Lookups\<close>

definition ActiveConnections :: "'w VirtioVsock \<Rightarrow> nat" where
  "ActiveConnections d = length (vs_conns d)"

definition GetConnection :: "u32 \<Rightarrow> u64 \<Rightarrow> u32 \<Rightarrow> 'w VirtioVsock \<Rightarrow> nat option" where
  "GetConnection localPort peerCID peerPort d =
     map_of (vs_conns d) \<lparr>ck_localPort = localPort, ck_peerCID = peerCID, ck_peerPort = peerPort\<rparr>"

definition vs_Stats :: "'w VirtioVsock \<Rightarrow> VsockStats" where
  "vs_Stats d = \<lparr>vst_PacketsRx = vs_packetsRx d, vst_PacketsTx = vs_packetsTx d,
                 vst_BytesRx = vs_bytesRx d, vst_BytesTx = vs_bytesTx d\<rparr>"

end
