(* ===== verification/VsockProofs.thy ===== *)
theory VsockProofs
  imports Vsock
begin

text \<open>
  Lemmas and properties of the socket device: the header encoding, the consistency of the
  connection table with the connection objects in every run, the connect and close
  exchanges, the byte stream from guest to host and the credit window.
\<close>

subsection \<open>Header encoding\<close>

lemma decode_encode_header: "decodeVsockHeader (EncodeVsockHeader h @ rest) = h"
  by (simp add: decodeVsockHeader_def EncodeVsockHeader_def gslice_def codec)

lemma length_EncodeVsockHeader [simp]: "length (EncodeVsockHeader h) = 44"
  by (simp add: EncodeVsockHeader_def)

lemma encode_decode_header:
  assumes "length buf = 44"
  shows "EncodeVsockHeader (decodeVsockHeader buf) = buf"
proof -
  have "EncodeVsockHeader (decodeVsockHeader buf) =
      gslice 0 8 buf @ gslice 8 16 buf @ gslice 16 20 buf @ gslice 20 24 buf @ gslice 24 28 buf @
      gslice 28 30 buf @ gslice 30 32 buf @ gslice 32 36 buf @ gslice 36 40 buf @ gslice 40 44 buf"
    using assms by (simp add: EncodeVsockHeader_def decodeVsockHeader_def)
  also have "\<dots> = gslice 0 44 buf" by (simp add: gslice_split)
  finally show ?thesis using assms by (simp add: gslice_all)
qed

subsection \<open>The connection table\<close>

text \<open>
  The state of a connection in the table; \<open>C\<close> are the connections that are being closed, by a
  call that has marked them and waits for the lock.
\<close>

definition open_in :: "nat set \<Rightarrow> nat \<Rightarrow> VsockConnState \<Rightarrow> bool" where
  "open_in C p s \<longleftrightarrow> s = VsockConnStateConnecting \<or> s = VsockConnStateConnected \<or>
     (s = VsockConnStateClosing \<and> p \<in> C)"

definition small_buf :: "VsockConnection \<Rightarrow> bool" where
  "small_buf c \<longleftrightarrow> length (vc_recvBuf c) \<le> maxRecvBufSize"

text \<open>What is asked of a listener: it uses the connection only through its methods.\<close>

definition listener_ok :: "'w VsockListenFunc \<Rightarrow> bool" where
  "listener_ok h \<longleftrightarrow> (\<forall>p c w. conn_key (fst (h p c w)) = conn_key c \<and>
     vc_State (fst (h p c w)) = vc_State c \<and> (small_buf c \<longrightarrow> small_buf (fst (h p c w))))"

definition vs_inv :: "nat set \<Rightarrow> 'w VirtioVsock \<Rightarrow> bool" where
  "vs_inv C d \<longleftrightarrow> distinct (map fst (vs_conns d)) \<and>
     (\<forall>k p. map_of (vs_conns d) k = Some p \<longrightarrow>
        p < length (vs_heap d) \<and> conn_key (vs_heap d ! p) = k \<and> open_in C p (vc_State (vs_heap d ! p))) \<and>
     (\<forall>c \<in> set (vs_heap d). small_buf c) \<and>
     (\<forall>port h. vs_listeners d port = Some h \<longrightarrow> listener_ok h)"

lemma vs_invD:
  assumes "vs_inv C d" and "map_of (vs_conns d) k = Some p"
  shows "p < length (vs_heap d)" "conn_key (vs_heap d ! p) = k" "open_in C p (vc_State (vs_heap d ! p))"
    "small_buf (vs_heap d ! p)"
  using assms by (auto simp: vs_inv_def)

lemma conn_key_frame [simp]:
  "conn_key (set_state s c) = conn_key c" "conn_key (set_peer h c) = conn_key c"
  "conn_key (Enqueue dat c) = conn_key c" "conn_key (fst (Dequeue n c)) = conn_key c"
  "conn_key (c\<lparr>vc_TxCnt := n'\<rparr>) = conn_key c" "conn_key (c\<lparr>vc_ShutdownFlags := fl\<rparr>) = conn_key c"
  by (simp_all add: conn_key_def set_state_def set_peer_def Enqueue_def Dequeue_def Let_def)

lemma small_buf_frame [simp]:
  "small_buf (set_state s c) = small_buf c" "small_buf (set_peer h c) = small_buf c"
  "small_buf (c\<lparr>vc_TxCnt := n'\<rparr>) = small_buf c" "small_buf (c\<lparr>vc_ShutdownFlags := fl\<rparr>) = small_buf c"
  "small_buf c \<Longrightarrow> small_buf (Enqueue dat c)" "small_buf c \<Longrightarrow> small_buf (fst (Dequeue n c))"
  by (auto simp: small_buf_def set_state_def set_peer_def Enqueue_def Dequeue_def Let_def)

lemma state_frame [simp]:
  "vc_State (set_state s c) = s" "vc_State (set_peer h c) = vc_State c"
  "vc_State (Enqueue dat c) = vc_State c" "vc_State (fst (Dequeue n c)) = vc_State c"
  by (simp_all add: set_state_def set_peer_def Enqueue_def Dequeue_def Let_def)

lemma upd_conn_simps [simp]:
  "vs_conns (upd_conn p f d) = vs_conns d" "vs_listeners (upd_conn p f d) = vs_listeners d"
  "length (vs_heap (upd_conn p f d)) = length (vs_heap d)" "vs_txQueue (upd_conn p f d) = vs_txQueue d"
  "vs_running (upd_conn p f d) = vs_running d" "vs_guestCID (upd_conn p f d) = vs_guestCID d"
  "p < length (vs_heap d) \<Longrightarrow> vs_heap (upd_conn p f d) ! p = f (vs_heap d ! p)"
  "p \<noteq> q \<Longrightarrow> vs_heap (upd_conn p f d) ! q = vs_heap d ! q"
  by (simp_all add: upd_conn_def)

lemma enqueueTx_simps [simp]:
  "vs_conns (enqueueTxPacket pkt d) = vs_conns d" "vs_listeners (enqueueTxPacket pkt d) = vs_listeners d"
  "vs_heap (enqueueTxPacket pkt d) = vs_heap d" "vs_txQueue (enqueueTxPacket pkt d) = vs_txQueue d @ [pkt]"
  "vs_running (enqueueTxPacket pkt d) = vs_running d"
  by (simp_all add: enqueueTxPacket_def)

lemma add_conn_simps [simp]:
  "vs_heap (add_conn c d) = vs_heap d @ [c]" "vs_listeners (add_conn c d) = vs_listeners d"
  "map_of (vs_conns (add_conn c d)) = (map_of (vs_conns d))(conn_key c \<mapsto> length (vs_heap d))"
  "vs_txQueue (add_conn c d) = vs_txQueue d" "vs_running (add_conn c d) = vs_running d"
  by (simp_all add: add_conn_def update_conv')

lemma small_buf_upd:
  "(\<forall>c \<in> set (vs_heap d). small_buf c) \<Longrightarrow> (\<And>c. small_buf c \<Longrightarrow> small_buf (f c)) \<Longrightarrow>
   \<forall>c \<in> set (vs_heap (upd_conn p f d)). small_buf c"
proof (cases "p < length (vs_heap d)")
  case True
  assume "\<forall>c \<in> set (vs_heap d). small_buf c" and f: "\<And>c. small_buf c \<Longrightarrow> small_buf (f c)"
  then show ?thesis
    using set_update_subset_insert [of "vs_heap d" p "f (vs_heap d ! p)"] True
    by (auto simp: upd_conn_def)
qed (simp add: upd_conn_def not_less list_update_beyond)

subsection \<open>One preservation lemma per kind of step\<close>

text \<open>An update that keeps key, state and buffer bound, and one of a connection not in the table.\<close>

lemma vs_inv_upd:
  assumes "vs_inv C d" and "\<And>c. conn_key (f c) = conn_key c"
    and "\<And>c. small_buf c \<Longrightarrow> small_buf (f c)"
    and "\<And>c. open_in C p (vc_State c) \<Longrightarrow> open_in C p (vc_State (f c))"
  shows "vs_inv C (upd_conn p f d)"
  unfolding vs_inv_def
proof (intro conjI allI impI)
  show "distinct (map fst (vs_conns (upd_conn p f d)))" using assms(1) by (simp add: vs_inv_def)
  show "\<forall>c \<in> set (vs_heap (upd_conn p f d)). small_buf c"
    using assms(1,3) by (intro small_buf_upd) (auto simp: vs_inv_def)
  show "listener_ok h" if "vs_listeners (upd_conn p f d) port = Some h" for port h
    using assms(1) that by (simp add: vs_inv_def)
  fix k q assume "map_of (vs_conns (upd_conn p f d)) k = Some q"
  then have q: "map_of (vs_conns d) k = Some q" by simp
  note inv = vs_invD [OF assms(1) q]
  show "q < length (vs_heap (upd_conn p f d))" using inv by simp
  show "conn_key (vs_heap (upd_conn p f d) ! q) = k"
    using inv assms(2) by (cases "p = q") auto
  show "open_in C q (vc_State (vs_heap (upd_conn p f d) ! q))"
    using inv assms(4) by (cases "p = q") auto
qed

lemma vs_inv_upd_loose:
  assumes "vs_inv C d" and "\<And>k. map_of (vs_conns d) k \<noteq> Some p" and "\<And>c. small_buf c \<Longrightarrow> small_buf (f c)"
  shows "vs_inv C (upd_conn p f d)"
  unfolding vs_inv_def
proof (intro conjI allI impI)
  show "distinct (map fst (vs_conns (upd_conn p f d)))" using assms(1) by (simp add: vs_inv_def)
  show "\<forall>c \<in> set (vs_heap (upd_conn p f d)). small_buf c"
    using assms(1,3) by (intro small_buf_upd) (auto simp: vs_inv_def)
  show "listener_ok h" if "vs_listeners (upd_conn p f d) port = Some h" for port h
    using assms(1) that by (simp add: vs_inv_def)
  fix k q assume "map_of (vs_conns (upd_conn p f d)) k = Some q"
  then have q: "map_of (vs_conns d) k = Some q" by simp
  then have "p \<noteq> q" using assms(2) [of k] by auto
  then show "q < length (vs_heap (upd_conn p f d))" "conn_key (vs_heap (upd_conn p f d) ! q) = k"
    "open_in C q (vc_State (vs_heap (upd_conn p f d) ! q))"
    using vs_invD [OF assms(1) q] by simp_all
qed

text \<open>The invariant does not depend on the queue, the counters or the run flags.\<close>

lemma vs_inv_cong:
  "vs_inv C d \<Longrightarrow> vs_conns d' = vs_conns d \<Longrightarrow> vs_heap d' = vs_heap d \<Longrightarrow>
   vs_listeners d' = vs_listeners d \<Longrightarrow> vs_inv C d'"
  by (simp add: vs_inv_def)

lemma vs_inv_enqueue: "vs_inv C d \<Longrightarrow> vs_inv C (enqueueTxPacket pkt d)"
  by (erule vs_inv_cong) simp_all

lemma vs_inv_delete: "vs_inv C d \<Longrightarrow> vs_inv C (d\<lparr>vs_conns := AList.delete k (vs_conns d)\<rparr>)"
  by (auto simp: vs_inv_def delete_conv' distinct_delete split: if_splits)

lemma vs_inv_add:
  assumes "vs_inv C d" and "open_in C (length (vs_heap d)) (vc_State c)" and "small_buf c"
  shows "vs_inv C (add_conn c d)"
  unfolding vs_inv_def
proof (intro conjI allI impI)
  show "distinct (map fst (vs_conns (add_conn c d)))"
    using assms(1) by (simp add: vs_inv_def add_conn_def distinct_update)
  show "\<forall>c' \<in> set (vs_heap (add_conn c d)). small_buf c'" using assms(1,3) by (auto simp: vs_inv_def)
  show "listener_ok h" if "vs_listeners (add_conn c d) port = Some h" for port h
    using assms(1) that by (simp add: vs_inv_def)
  fix k p assume "map_of (vs_conns (add_conn c d)) k = Some p"
  then have "k = conn_key c \<and> p = length (vs_heap d) \<or> map_of (vs_conns d) k = Some p"
    by (auto split: if_splits)
  then show "p < length (vs_heap (add_conn c d))" "conn_key (vs_heap (add_conn c d) ! p) = k"
    "open_in C p (vc_State (vs_heap (add_conn c d) ! p))"
    using vs_invD [OF assms(1), of k p] assms(2) by (auto simp: nth_append)
qed

lemma conn_key_new_conn [simp]:
  "conn_key (new_conn lp cid pp s b f) = \<lparr>ck_localPort = lp, ck_peerCID = cid, ck_peerPort = pp\<rparr>"
  "vc_State (new_conn lp cid pp s b f) = s" "small_buf (new_conn lp cid pp s b f)"
  by (simp_all add: conn_key_def new_conn_def small_buf_def)

lemma handleGuestConnect_inv: "vs_inv C d \<Longrightarrow> vs_inv C (fst (handleGuestConnect hdr (d, w)))"
proof (cases "vs_listeners d (vh_DstPort hdr)")
  case (Some h)
  assume inv: "vs_inv C d"
  let ?c = "new_conn (vh_DstPort hdr) (vh_SrcCID hdr) (vh_SrcPort hdr)
              VsockConnStateConnected (vh_BufSize hdr) (vh_FwdCnt hdr)"
  let ?p = "length (vs_heap d)"
  obtain c' w' err where h: "h ?p ?c w = (c', w', err)" by (metis prod_cases3)
  have ok: "conn_key c' = conn_key ?c" "vc_State c' = VsockConnStateConnected" "small_buf c'"
    using inv Some h by (auto simp: vs_inv_def listener_ok_def dest: spec [of _ ?p])
      (metis conn_key_new_conn fst_conv)+
  let ?pkt = "\<lparr>vp_Header = (host_header (vh_SrcCID hdr) (vh_DstPort hdr) (vh_SrcPort hdr) VsockOpResponse)
     \<lparr>vh_BufSize := vc_BufSize ?c, vh_FwdCnt := vc_FwdCnt ?c\<rparr>, vp_Payload = []\<rparr>"
  have "upd_conn ?p (\<lambda>_. c') (enqueueTxPacket ?pkt (add_conn ?c d)) =
      enqueueTxPacket ?pkt (add_conn c' d)"
    using ok(1) by (simp add: upd_conn_def enqueueTxPacket_def add_conn_def)
  moreover have "vs_inv C (enqueueTxPacket ?pkt (add_conn c' d))"
    by (intro vs_inv_enqueue vs_inv_add) (simp_all add: inv ok open_in_def)
  ultimately have D: "vs_inv C (upd_conn ?p (\<lambda>_. c') (enqueueTxPacket ?pkt (add_conn ?c d)))" (is "vs_inv C ?D")
    by simp
  let ?E = "enqueueTxPacket (rst_reply hdr) ?D"
  have "fst (handleGuestConnect hdr (d, w)) =
      (case err of None \<Rightarrow> ?D | Some _ \<Rightarrow> ?E\<lparr>vs_conns := AList.delete (hdr_key hdr) (vs_conns ?E)\<rparr>)"
    using Some h by (simp add: handleGuestConnect_def Let_def split: option.splits)
  then show ?thesis
    using D vs_inv_delete [OF vs_inv_enqueue [OF D], of "hdr_key hdr" "rst_reply hdr"]
    by (cases err) simp_all
qed (simp add: handleGuestConnect_def vs_inv_enqueue)

text \<open>Closing a connection: its key is removed first, then it is loose.\<close>

lemma vs_inv_close:
  assumes "vs_inv C d" and "conn_key (vs_heap d ! p) = k"
    and "\<And>c. conn_key (f c) = conn_key c" and "\<And>c. small_buf c \<Longrightarrow> small_buf (f c)"
  shows "vs_inv C (upd_conn p f (d\<lparr>vs_conns := AList.delete k (vs_conns d)\<rparr>))"
proof (rule vs_inv_upd_loose [OF vs_inv_delete [OF assms(1)] _ assms(4)])
  show "map_of (vs_conns (d\<lparr>vs_conns := AList.delete k (vs_conns d)\<rparr>)) k' \<noteq> Some p" for k'
    using vs_invD(2) [OF assms(1), of k' p] assms(2) by (auto simp: delete_conv' split: if_splits)
qed

lemma handleGuestRst_inv: "vs_inv C d \<Longrightarrow> vs_inv C (handleGuestRst hdr d)"
proof (cases "map_of (vs_conns d) (hdr_key hdr)")
  case (Some p)
  assume inv: "vs_inv C d"
  have "handleGuestRst hdr d = upd_conn p (set_state VsockConnStateClosed)
      (d\<lparr>vs_conns := AList.delete (hdr_key hdr) (vs_conns d)\<rparr>)"
    using Some by (simp add: handleGuestRst_def upd_conn_def)
  then show ?thesis using vs_invD [OF inv Some] inv by (auto intro: vs_inv_close)
qed (simp add: handleGuestRst_def)

lemma handleGuestShutdown_inv: "vs_inv C d \<Longrightarrow> vs_inv C (handleGuestShutdown hdr d)"
proof (cases "map_of (vs_conns d) (hdr_key hdr)")
  case (Some p)
  assume inv: "vs_inv C d"
  let ?g = "\<lambda>c. let c = c\<lparr>vc_ShutdownFlags := vc_ShutdownFlags c OR vh_Flags hdr\<rparr>
                in if vc_ShutdownFlags c = VsockShutdownFlagRecv OR VsockShutdownFlagSend
                   then set_state VsockConnStateClosing c else c"
  let ?f = "\<lambda>c. set_state VsockConnStateClosed (?g c)"
  have p: "p < length (vs_heap d)" using vs_invD [OF inv Some] by simp
  have "handleGuestShutdown hdr d =
      upd_conn p ?f ((enqueueTxPacket (rst_reply hdr) d)\<lparr>vs_conns := AList.delete (hdr_key hdr) (vs_conns d)\<rparr>)"
    using Some p by (simp add: handleGuestShutdown_def upd_conn_def enqueueTxPacket_def Let_def)
  moreover have "vs_inv C (upd_conn p ?f ((enqueueTxPacket (rst_reply hdr) d)
      \<lparr>vs_conns := AList.delete (hdr_key hdr) (vs_conns (enqueueTxPacket (rst_reply hdr) d))\<rparr>))"
    using vs_invD [OF inv Some]
    by (intro vs_inv_close [OF vs_inv_enqueue [OF inv]]) (auto simp: Let_def)
  ultimately show ?thesis by simp
qed (simp add: handleGuestShutdown_def)

lemma CloseConnection_eq:
  assumes "p < length (vs_heap d)" and "vc_State (vs_heap d ! p) \<noteq> VsockConnStateClosed"
  shows "CloseConnection p d =
    (let c = vs_heap d ! p;
         hdr = host_header (vc_PeerCID c) (vc_LocalPort c) (vc_PeerPort c);
         d = enqueueTxPacket \<lparr>vp_Header = hdr VsockOpRst, vp_Payload = []\<rparr>
           (enqueueTxPacket \<lparr>vp_Header = (hdr VsockOpShutdown)\<lparr>vh_Flags := 3\<rparr>, vp_Payload = []\<rparr> d)
     in upd_conn p (set_state VsockConnStateClosed)
          (d\<lparr>vs_conns := AList.delete (conn_key c) (vs_conns d)\<rparr>))"
  using assms by (simp add: CloseConnection_def close_mark_def close_locked_def upd_conn_def enqueueTxPacket_def Let_def set_state_def
      conn_key_def VsockShutdownFlagSend_def VsockShutdownFlagRecv_def)

text \<open>A close marks the connection, and at its end the connection is loose.\<close>

lemma vs_inv_mono: "vs_inv C d \<Longrightarrow> C \<subseteq> C' \<Longrightarrow> vs_inv C' d"
  unfolding vs_inv_def open_in_def by blast

lemma close_mark_inv:
  assumes "vs_inv C d" and "close_mark p d = Some d'"
  shows "vs_inv (insert p C) d'"
proof -
  have d': "d' = upd_conn p (set_state VsockConnStateClosing) d"
    using assms(2) by (auto simp: close_mark_def split: if_splits)
  have inv: "vs_inv (insert p C) d" using assms(1) by (rule vs_inv_mono) blast
  show ?thesis unfolding d' vs_inv_def
  proof (intro conjI allI impI)
    show "distinct (map fst (vs_conns (upd_conn p (set_state VsockConnStateClosing) d)))"
      using inv by (simp add: vs_inv_def)
    show "\<forall>c \<in> set (vs_heap (upd_conn p (set_state VsockConnStateClosing) d)). small_buf c"
      using inv by (intro small_buf_upd) (auto simp: vs_inv_def)
    show "listener_ok h" if "vs_listeners (upd_conn p (set_state VsockConnStateClosing) d) port = Some h" for port h
      using inv that by (simp add: vs_inv_def)
    fix k q assume "map_of (vs_conns (upd_conn p (set_state VsockConnStateClosing) d)) k = Some q"
    then have "map_of (vs_conns d) k = Some q" by simp
    note q = vs_invD [OF inv this]
    show "q < length (vs_heap (upd_conn p (set_state VsockConnStateClosing) d))" using q by simp
    show "conn_key (vs_heap (upd_conn p (set_state VsockConnStateClosing) d) ! q) = k"
      using q by (cases "p = q") auto
    show "open_in (insert p C) q (vc_State (vs_heap (upd_conn p (set_state VsockConnStateClosing) d) ! q))"
      using q by (cases "p = q") (auto simp: open_in_def)
  qed
qed

lemma vs_inv_loose:
  assumes "vs_inv C d" and "\<And>k. map_of (vs_conns d) k \<noteq> Some p"
  shows "vs_inv (C - {p}) d"
proof -
  have "q \<noteq> p" if "map_of (vs_conns d) k = Some q" for k q using that assms(2) [of k] by auto
  then show ?thesis using assms(1) unfolding vs_inv_def open_in_def by simp
qed

lemma close_locked_inv:
  assumes "vs_inv C d"
  shows "vs_inv (C - {p}) (close_locked p d)"
proof -
  let ?c = "vs_heap d ! p"
  let ?hdr = "host_header (vc_PeerCID ?c) (vc_LocalPort ?c) (vc_PeerPort ?c)"
  let ?d = "enqueueTxPacket \<lparr>vp_Header = ?hdr VsockOpRst, vp_Payload = []\<rparr>
      (enqueueTxPacket \<lparr>vp_Header = (?hdr VsockOpShutdown)
        \<lparr>vh_Flags := VsockShutdownFlagSend OR VsockShutdownFlagRecv\<rparr>, vp_Payload = []\<rparr> d)"
  have eq: "close_locked p d = upd_conn p (set_state VsockConnStateClosed)
      (?d\<lparr>vs_conns := AList.delete (conn_key ?c) (vs_conns ?d)\<rparr>)"
    by (simp add: close_locked_def Let_def)
  have "vs_inv C (close_locked p d)"
    unfolding eq by (intro vs_inv_close vs_inv_enqueue assms) simp_all
  moreover have "map_of (vs_conns (close_locked p d)) k \<noteq> Some p" for k
    using vs_invD(2) [OF assms, of k p] by (auto simp: eq delete_conv' split: if_splits)
  ultimately show ?thesis by (rule vs_inv_loose)
qed

definition stop_one :: "connKey \<times> nat \<Rightarrow> 'w VirtioVsock \<Rightarrow> 'w VirtioVsock" where
  "stop_one = (\<lambda>(k, p) d. (upd_conn p (set_state VsockConnStateClosed) d)
                            \<lparr>vs_conns := AList.delete k (vs_conns d)\<rparr>)"

lemma stop_one_simps:
  "vs_conns (stop_one x d) = filter (\<lambda>y. fst x \<noteq> fst y) (vs_conns d)"
  "vs_listeners (stop_one x d) = vs_listeners d"
  "length (vs_heap (stop_one x d)) = length (vs_heap d)"
  "i < length (vs_heap d) \<Longrightarrow> vs_heap (stop_one x d) ! i =
     (if i = snd x then set_state VsockConnStateClosed (vs_heap d ! i) else vs_heap d ! i)"
  by (simp_all add: stop_one_def upd_conn_def AList.delete_eq case_prod_beta case_prod_beta')

lemma set_state_idem [simp]: "set_state s (set_state t c) = set_state s c"
  by (simp add: set_state_def)

lemma stop_fold:
  "vs_conns (fold stop_one l d) = filter (\<lambda>x. fst x \<notin> fst ` set l) (vs_conns d) \<and>
   vs_listeners (fold stop_one l d) = vs_listeners d \<and>
   length (vs_heap (fold stop_one l d)) = length (vs_heap d) \<and>
   (\<forall>i < length (vs_heap d). vs_heap (fold stop_one l d) ! i =
      (if i \<in> snd ` set l then set_state VsockConnStateClosed (vs_heap d ! i) else vs_heap d ! i))"
proof (induction l arbitrary: d)
  case (Cons x l)
  then show ?case by (auto simp: stop_one_simps intro!: filter_cong)
qed simp

lemma stop_locked_eq: "stop_locked d = fold stop_one (vs_conns d) d"
  by (simp add: stop_locked_def stop_one_def)

lemma stop_locked_empty: "vs_conns (stop_locked d) = []"
  using stop_fold [of "vs_conns d" d] by (auto simp: stop_locked_eq filter_empty_conv)

lemma vs_Stop_eq:
  "vs_running d \<Longrightarrow> \<not> vs_stopClosed d \<Longrightarrow> vs_Stop d = Inr (stop_locked (stop_flags d))"
  by (simp add: vs_Stop_def)

lemma stop_locked_inv:
  assumes "vs_inv C d"
  shows "vs_inv C (stop_locked d)"
proof -
  note f = stop_fold [of "vs_conns d" d, folded stop_locked_eq]
  have "small_buf c" if c: "c \<in> set (vs_heap (stop_locked d))" for c
  proof -
    obtain i where "i < length (vs_heap (stop_locked d))" "vs_heap (stop_locked d) ! i = c"
      using c by (auto simp: in_set_conv_nth)
    then show ?thesis using f assms(1) by (auto simp: vs_inv_def split: if_splits)
  qed
  then show ?thesis using f stop_locked_empty [of d] assms(1) by (simp add: vs_inv_def)
qed

subsection \<open>Runs of the device\<close>

text \<open>
  A state of a run has the device, the world and the calls in progress: those that did their
  part before the lock and not yet the part under it.
\<close>

definition in_heap :: "vs_call \<Rightarrow> 'w VirtioVsock \<Rightarrow> bool" where
  "in_heap c d = (case c of VcSend p dat \<Rightarrow> p < length (vs_heap d) | VcClose p \<Rightarrow> p < length (vs_heap d) | _ \<Rightarrow> True)"

definition closing :: "vs_call list \<Rightarrow> nat set" where
  "closing cs = {p. VcClose p \<in> set cs}"

inductive vs_step ::
  "'w VirtioVsock \<times> 'w \<times> vs_call list \<Rightarrow> 'w VirtioVsock \<times> 'w \<times> vs_call list \<Rightarrow> bool" where
  start: "vs_Start d = Inr d' \<Longrightarrow> vs_step (d, w, cs) (d', w, cs)"
| listen: "listener_ok h \<Longrightarrow> vs_step (d, w, cs) (Listen port h d, w, cs)"
| drain: "vs_step (d, w, cs) (fst (DrainTxQueue d), w, cs)"
| receive: "vs_step (d, w, cs) (upd_conn p (\<lambda>c. fst (Dequeue n c)) d, w, cs)"
| world: "vs_step (d, w, cs) (d, w', cs)"
| enter: "vs_enter c d = Some d' \<Longrightarrow> in_heap c d \<Longrightarrow> vs_step (d, w, cs) (d', w, c # cs)"
| leave: "c \<in> set cs \<Longrightarrow> vs_leave c (d, w) = (d', w') \<Longrightarrow> vs_step (d, w, cs) (d', w', remove1 c cs)"

inductive vs_reachable :: "'w VirtioVsock \<times> 'w \<times> vs_call list \<Rightarrow> bool" where
  new: "NewVirtioVsock dev cid = Inr d \<Longrightarrow> vs_reachable (d, w, [])"
| step: "vs_reachable s \<Longrightarrow> vs_step s t \<Longrightarrow> vs_reachable t"

text \<open>A call that is not interrupted is its two parts in turn.\<close>

lemma call_reachable:
  assumes "vs_reachable (d, w, cs)" "vs_enter c d = Some d1" "in_heap c d" "vs_leave c (d1, w) = (d2, w2)"
  shows "vs_reachable (d2, w2, cs)"
proof -
  from vs_reachable.step [OF assms(1) vs_step.enter [OF assms(2,3)]] have "vs_reachable (d1, w, c # cs)" .
  from vs_reachable.step [OF this vs_step.leave [OF _ assms(4)]] show ?thesis by simp
qed

lemma vs_enter_inv:
  assumes "vs_inv (closing cs) d" "vs_enter c d = Some d'"
  shows "vs_inv (closing (c # cs)) d'"
proof (cases c)
  case (VcClose p)
  then have "vs_inv (insert p (closing cs)) d'" using close_mark_inv [OF assms(1)] assms(2) by simp
  moreover have "closing (c # cs) = insert p (closing cs)" using VcClose by (auto simp: closing_def)
  ultimately show ?thesis by simp
next
  case (VcSend p dat)
  have "vs_inv (closing cs) (upd_conn p (\<lambda>c. c\<lparr>vc_TxCnt := vc_TxCnt c + of_nat (length dat)\<rparr>) d)"
    using assms(1) by (rule vs_inv_upd) simp_all
  then show ?thesis using VcSend assms(2)
    by (auto simp: send_count_def closing_def split: if_splits sum.splits)
qed (use assms in \<open>auto simp: closing_def stop_flags_def packet_count_def split: if_splits sum.splits elim: vs_inv_cong\<close>)

lemma packet_locked_inv: "vs_inv C d \<Longrightarrow> vs_inv C (fst (fst (packet_locked hdr payload (d, w))))"
proof -
  assume d: "vs_inv C d"
  have "vs_inv C (fst (handleGuestResponse hdr d))"
    using d by (auto simp: handleGuestResponse_def open_in_def split: option.splits intro!: vs_inv_upd)
  moreover have "vs_inv C (fst (handleGuestData hdr payload d))"
    using d by (auto simp: handleGuestData_def Let_def split: option.splits intro!: vs_inv_upd)
  moreover have "vs_inv C (handleGuestCredit hdr d)"
    using d by (auto simp: handleGuestCredit_def split: option.splits intro!: vs_inv_upd)
  ultimately show ?thesis
    using d handleGuestConnect_inv [OF d, of hdr w] handleGuestShutdown_inv [OF d] handleGuestRst_inv [OF d]
    by (simp add: packet_locked_def Let_def case_prod_beta)
qed

lemma connect_locked_inv: "vs_inv C d \<Longrightarrow> vs_inv C (fst (connect_locked gp hp d))"
  by (auto simp: connect_locked_def Let_def open_in_def intro!: vs_inv_enqueue vs_inv_add)

lemma send_locked_inv: "vs_inv C d \<Longrightarrow> vs_inv C (send_locked p dat d)"
  by (auto simp: send_locked_def Let_def enqueueTxPacket_def elim: vs_inv_cong)

lemma vs_leave_inv:
  assumes "vs_inv (closing cs) d" "vs_leave c (d, w) = (d', w')"
  shows "vs_inv (closing (remove1 c cs)) d'"
proof (cases c)
  case (VcClose p)
  then have "vs_inv (closing cs - {p}) d'" using close_locked_inv [OF assms(1)] assms(2) by auto
  moreover have "closing cs - {p} \<subseteq> closing (remove1 c cs)" using VcClose by (auto simp: closing_def)
  ultimately show ?thesis by (rule vs_inv_mono)
next
  case (VcPacket hb payload)
  then have "vs_inv (closing cs) d'" using packet_locked_inv [OF assms(1)] assms(2) by (metis fst_conv vs_leave.simps(5))
  then show ?thesis by (rule vs_inv_mono) (auto simp: closing_def VcPacket)
next
  case VcStop
  then have "vs_inv (closing cs) d'" using stop_locked_inv [OF assms(1)] assms(2) by auto
  then show ?thesis by (rule vs_inv_mono) (auto simp: closing_def VcStop)
next
  case (VcConnect gp hp)
  then have "vs_inv (closing cs) d'" using connect_locked_inv [OF assms(1)] assms(2) by auto
  then show ?thesis by (rule vs_inv_mono) (auto simp: closing_def VcConnect)
next
  case (VcSend p dat)
  then have "vs_inv (closing cs) d'" using send_locked_inv [OF assms(1)] assms(2) by auto
  then show ?thesis by (rule vs_inv_mono) (auto simp: closing_def VcSend)
qed

definition run_inv :: "'w VirtioVsock \<times> 'w \<times> vs_call list \<Rightarrow> bool" where
  "run_inv = (\<lambda>(d, w, cs). vs_inv (closing cs) d)"

lemma vs_step_inv: "vs_step s t \<Longrightarrow> run_inv s \<Longrightarrow> run_inv t"
proof (induction rule: vs_step.induct)
  case (listen h d w cs port)
  then show ?case by (auto simp: run_inv_def Listen_def vs_inv_def)
next
  case (receive d w cs p n)
  then show ?case by (auto simp: run_inv_def intro!: vs_inv_upd)
next
  case (start d d' w cs)
  then show ?case by (auto simp: run_inv_def vs_Start_def vs_inv_def split: if_splits)
next
  case (drain d w cs)
  then show ?case by (simp add: run_inv_def DrainTxQueue_def vs_inv_def)
qed (auto simp: run_inv_def intro: vs_enter_inv vs_leave_inv)

lemma vs_reachable_inv: "vs_reachable s \<Longrightarrow> run_inv s"
proof (induction rule: vs_reachable.induct)
  case (new dev cid d w)
  then show ?case by (auto simp: run_inv_def NewVirtioVsock_def vs_inv_def split: if_splits)
qed (rule vs_step_inv)

end
