(* ===== verification/VsockClaims.thy ===== *)
theory VsockClaims
  imports VsockProofs
begin

text \<open>The properties of the socket device and an example device with one open connection.\<close>

lemmas guest_packet_defs = ProcessGuestPacket_def packet_count_def packet_locked_def

subsection \<open>Guest data\<close>

definition deliver :: "VsockHeader \<Rightarrow> bytes list \<Rightarrow> 'w VirtioVsock \<times> 'w \<Rightarrow> 'w VirtioVsock \<times> 'w" where
  "deliver hdr payloads s =
     fold (\<lambda>pl s. fst (ProcessGuestPacket (EncodeVsockHeader hdr) pl s)) payloads s"

lemma packet_rw:
  assumes "vs_running d" and "vh_Op hdr = VsockOpRW" and "map_of (vs_conns d) (hdr_key hdr) = Some p"
    and "p < length (vs_heap d)" and "length (vc_recvBuf (vs_heap d ! p)) + length pl \<le> maxRecvBufSize"
    and "ProcessGuestPacket (EncodeVsockHeader hdr) pl (d, w) = ((d', w'), e)"
  shows "e = None \<and> w' = w \<and> vs_running d' \<and> vs_conns d' = vs_conns d \<and> length (vs_heap d') = length (vs_heap d) \<and>
    vc_recvBuf (vs_heap d' ! p) = vc_recvBuf (vs_heap d ! p) @ pl \<and>
    vc_FwdCnt (vs_heap d' ! p) = vc_FwdCnt (vs_heap d ! p) \<and>
    (\<forall>q. q \<noteq> p \<longrightarrow> vs_heap d' ! q = vs_heap d ! q)"
  using assms decode_encode_header [of hdr "[]"]
  by (cases "pl = []")
     (auto simp: guest_packet_defs Let_def vsockHeaderSize_def vsock_ops handleGuestData_def
       set_peer_def Enqueue_def upd_conn_def)

lemma deliver_stream:
  "vs_running d \<Longrightarrow> vh_Op hdr = VsockOpRW \<Longrightarrow> map_of (vs_conns d) (hdr_key hdr) = Some p \<Longrightarrow>
   p < length (vs_heap d) \<Longrightarrow>
   length (vc_recvBuf (vs_heap d ! p)) + length (concat pls) \<le> maxRecvBufSize \<Longrightarrow>
   deliver hdr pls (d, w) = (d', w') \<Longrightarrow>
   vc_recvBuf (vs_heap d' ! p) = vc_recvBuf (vs_heap d ! p) @ concat pls \<and>
   vc_FwdCnt (vs_heap d' ! p) = vc_FwdCnt (vs_heap d ! p) \<and>
   (\<forall>q. q \<noteq> p \<longrightarrow> vs_heap d' ! q = vs_heap d ! q)"
proof (induction pls arbitrary: d w)
  case (Cons pl pls)
  obtain d1 w1 e where one: "ProcessGuestPacket (EncodeVsockHeader hdr) pl (d, w) = ((d1, w1), e)"
    by (metis prod.exhaust)
  have "length (vc_recvBuf (vs_heap d ! p)) + length pl \<le> maxRecvBufSize" using Cons.prems(5) by simp
  note p = packet_rw [OF Cons.prems(1-4) this one]
  have "deliver hdr pls (d1, w1) = (d', w')" using Cons.prems(6) one by (simp add: deliver_def)
  with p Cons.prems show ?case using Cons.IH [of d1 w1] by auto
qed (simp add: deliver_def)

lemma Dequeue_stream:
  assumes "Dequeue n c = (c', dat)"
  shows "dat = take n (vc_recvBuf c) \<and> vc_recvBuf c' = drop n (vc_recvBuf c) \<and>
    vc_FwdCnt c' = vc_FwdCnt c + of_nat (length dat)"
proof (cases "vc_recvBuf c = []")
  case False
  let ?n = "if n > length (vc_recvBuf c) then length (vc_recvBuf c) else n"
  have "c' = c\<lparr>vc_recvBuf := drop ?n (vc_recvBuf c), vc_FwdCnt := vc_FwdCnt c + of_nat ?n\<rparr>"
    "dat = take ?n (vc_recvBuf c)"
    using assms False by (simp_all add: Dequeue_def Let_def)
  then show ?thesis by simp
qed (use assms in \<open>simp add: Dequeue_def\<close>)

lemma unat_less_32: "unat (x :: u32) < 2 ^ 32"
  using unsigned_less [of x] by simp

subsection \<open>An example device\<close>

definition accept_all :: "unit VsockListenFunc" where
  "accept_all p c w = (c, w, None)"

definition refuse_all :: "unit VsockListenFunc" where
  "refuse_all p c w = (c, w, Some ''refused'')"

definition demo_hdr :: "u16 \<Rightarrow> VsockHeader" where
  "demo_hdr op_code = \<lparr>vh_SrcCID = 3, vh_DstCID = 2, vh_SrcPort = 5000, vh_DstPort = 1024, vh_Len = 0,
     vh_Type = 1, vh_Op = op_code, vh_Flags = 0, vh_BufSize = 100, vh_FwdCnt = 0\<rparr>"

definition demo_vs :: "unit VirtioVsock" where
  "demo_vs = \<lparr>vs_deviceID = ''vs'', vs_guestCID = 3, vs_heap = [], vs_conns = [],
     vs_listeners = [1024 \<mapsto> accept_all, 1025 \<mapsto> refuse_all], vs_txQueue = [], vs_running = True,
     vs_stopClosed = False, vs_packetsRx = 0, vs_packetsTx = 0, vs_bytesRx = 0, vs_bytesTx = 0\<rparr>"

definition demo_open :: "unit VirtioVsock" where
  "demo_open = fst (fst (ProcessGuestPacket (EncodeVsockHeader (demo_hdr VsockOpRequest)) [] (demo_vs, ())))"


lemma demo_open_eq:
  "vs_conns demo_open = [(\<lparr>ck_localPort = 1024, ck_peerCID = 3, ck_peerPort = 5000\<rparr>, 0)]"
  "vs_heap demo_open = [new_conn 1024 3 5000 VsockConnStateConnected 100 0]"
  "vs_running demo_open" "vs_stopClosed demo_open = False"
  using decode_encode_header [of "demo_hdr VsockOpRequest" "[]"]
  by (simp_all add: demo_open_def guest_packet_defs demo_vs_def vsockHeaderSize_def Let_def demo_hdr_def
      vsock_ops handleGuestConnect_def accept_all_def add_conn_def upd_conn_def enqueueTxPacket_def)



subsection \<open>Properties\<close>

text \<open>
  A packet header is the same after encoding and decoding, whatever follows it, and every
  44-byte header a guest sends is what encoding its decoded form gives.
\<close>
theorem vsock_header_roundtrip:
  "decodeVsockHeader (EncodeVsockHeader h @ rest) = h \<and>
   (length buf = 44 \<longrightarrow> EncodeVsockHeader (decodeVsockHeader buf) = buf)"
  by (simp add: decode_encode_header encode_decode_header)

lemma vsock_header_roundtrip_witness:
  "EncodeVsockHeader (decodeVsockHeader (replicate 44 9)) = replicate 44 9"
  using vsock_header_roundtrip [of _ _ "replicate 44 9"] by simp



text \<open>
  A connection request from the guest gets exactly one answer. Without a listener on the
  port it is a reset with the addresses swapped, and no connection appears; when the listener
  accepts it is a response, and the connection is in the table, connected, with the guest's
  buffer size; when the listener fails the response is followed by a reset and the
  connection is gone.
\<close>
theorem vsock_guest_connect:
  assumes "vs_running d" and "vh_Op hdr = VsockOpRequest"
    and "ProcessGuestPacket (EncodeVsockHeader hdr) payload (d, w) = ((d', w'), e)"
    and "\<And>h. vs_listeners d (vh_DstPort hdr) = Some h \<Longrightarrow> listener_ok h"
  shows "e = None \<and>
    (case vs_listeners d (vh_DstPort hdr) of
       None \<Rightarrow> vs_txQueue d' = vs_txQueue d @ [rst_reply hdr] \<and> vs_conns d' = vs_conns d
     | Some h \<Rightarrow>
        (let c = new_conn (vh_DstPort hdr) (vh_SrcCID hdr) (vh_SrcPort hdr)
                   VsockConnStateConnected (vh_BufSize hdr) (vh_FwdCnt hdr);
             resp = \<lparr>vp_Header = (host_header (vh_SrcCID hdr) (vh_DstPort hdr) (vh_SrcPort hdr) VsockOpResponse)
                       \<lparr>vh_BufSize := 65536\<rparr>, vp_Payload = []\<rparr>
         in case h (length (vs_heap d)) c w of
              (c', w2, None) \<Rightarrow> vs_txQueue d' = vs_txQueue d @ [resp] \<and>
                map_of (vs_conns d') (hdr_key hdr) = Some (length (vs_heap d)) \<and>
                vs_heap d' ! length (vs_heap d) = c' \<and> vc_State c' = VsockConnStateConnected
            | (c', w2, Some _) \<Rightarrow> vs_txQueue d' = vs_txQueue d @ [resp, rst_reply hdr] \<and>
                map_of (vs_conns d') (hdr_key hdr) = None))"
proof -
  let ?d = "d\<lparr>vs_packetsRx := vs_packetsRx d + 1, vs_bytesRx := vs_bytesRx d + ucast (vh_Len hdr)\<rparr>"
  have r: "handleGuestConnect hdr (?d, w) = (d', w')" "e = None"
    using assms(1-3) decode_encode_header [of hdr "[]"]
    by (simp_all add: guest_packet_defs Let_def vsockHeaderSize_def)
  show ?thesis
  proof (cases "vs_listeners d (vh_DstPort hdr)")
    case None
    then show ?thesis using r by (auto simp: handleGuestConnect_def)
  next
    case (Some h)
    let ?c = "new_conn (vh_DstPort hdr) (vh_SrcCID hdr) (vh_SrcPort hdr)
                VsockConnStateConnected (vh_BufSize hdr) (vh_FwdCnt hdr)"
    obtain c' w2 err where h: "h (length (vs_heap d)) ?c w = (c', w2, err)" by (metis prod_cases3)
    have "vc_State (fst (h (length (vs_heap d)) ?c w)) = vc_State ?c"
      using assms(4) [OF Some] unfolding listener_ok_def by blast
    then have "vc_State c' = VsockConnStateConnected" by (simp add: h)
    moreover have "vc_BufSize ?c = 65536" "vc_FwdCnt ?c = 0" by (simp_all add: new_conn_def)
    moreover have "(host_header a b c z)\<lparr>vh_BufSize := 65536, vh_FwdCnt := 0\<rparr> =
        (host_header a b c z)\<lparr>vh_BufSize := 65536\<rparr>" for a b c z
      by (simp add: host_header_def)
    ultimately show ?thesis
      using r Some h
      by (auto simp: handleGuestConnect_def Let_def hdr_key_def delete_conv' split: option.splits)
  qed
qed

lemma vsock_guest_connect_witness:
  "vs_txQueue (fst (fst (ProcessGuestPacket (EncodeVsockHeader ((demo_hdr VsockOpRequest)\<lparr>vh_DstPort := 9\<rparr>)) []
     (demo_vs, ())))) = [rst_reply ((demo_hdr VsockOpRequest)\<lparr>vh_DstPort := 9\<rparr>)]"
proof -
  let ?h = "(demo_hdr VsockOpRequest)\<lparr>vh_DstPort := 9\<rparr>"
  obtain d' w' e where r: "ProcessGuestPacket (EncodeVsockHeader ?h) [] (demo_vs, ()) = ((d', w'), e)"
    by (metis prod.exhaust)
  have "vs_running demo_vs" "vh_Op ?h = VsockOpRequest" "vs_listeners demo_vs (vh_DstPort ?h) = None"
    "vs_txQueue demo_vs = []"
    by (simp_all add: demo_vs_def demo_hdr_def)
  with vsock_guest_connect [OF this(1,2) r] show ?thesis by (simp add: r)
qed

text \<open>
  C23: The bytes a guest sends on a connection form a stream: the payloads of its data packets,
  as long as they fit the 4 MiB buffer, are appended in order to what is still unread, other
  connections are untouched, and a read then returns the oldest bytes, leaves the rest, and
  advances the count reported to the guest by the number of bytes read.
\<close>
theorem vsock_stream_in_order:
  assumes "vs_running d" and "vh_Op hdr = VsockOpRW" and "map_of (vs_conns d) (hdr_key hdr) = Some p"
    and "p < length (vs_heap d)"
    and "length (vc_recvBuf (vs_heap d ! p)) + length (concat pls) \<le> maxRecvBufSize"
    and "deliver hdr pls (d, w) = (d', w')" and "Dequeue n (vs_heap d' ! p) = (c, dat)"
  shows "dat = take n (vc_recvBuf (vs_heap d ! p) @ concat pls) \<and>
    vc_recvBuf c = drop n (vc_recvBuf (vs_heap d ! p) @ concat pls) \<and>
    vc_FwdCnt c = vc_FwdCnt (vs_heap d ! p) + of_nat (length dat) \<and>
    (\<forall>q. q \<noteq> p \<longrightarrow> vs_heap d' ! q = vs_heap d ! q)"
  using deliver_stream [OF assms(1-6)] Dequeue_stream [OF assms(7)] by simp

lemma vsock_stream_in_order_witness:
  "snd (Dequeue 4 (vs_heap (fst (deliver (demo_hdr VsockOpRW) [[1, 2], [3], [4, 5]] (demo_open, ()))) ! 0)) =
     [1, 2, 3, 4]"
proof -
  obtain d' w' where r: "deliver (demo_hdr VsockOpRW) [[1, 2], [3], [4, 5]] (demo_open, ()) = (d', w')"
    by (rule prod.exhaust)
  obtain c dat where q: "Dequeue 4 (vs_heap d' ! 0) = (c, dat)" by force
  have "map_of (vs_conns demo_open) (hdr_key (demo_hdr VsockOpRW)) = Some 0" "0 < length (vs_heap demo_open)"
    "length (vc_recvBuf (vs_heap demo_open ! 0)) + length (concat [[1, 2], [3], [4, 5 :: byte]]) \<le> maxRecvBufSize"
    "vc_recvBuf (vs_heap demo_open ! 0) = []" "vh_Op (demo_hdr VsockOpRW) = VsockOpRW"
    by (simp_all add: demo_open_eq demo_hdr_def hdr_key_def new_conn_def maxRecvBufSize_def)
  from vsock_stream_in_order [OF demo_open_eq(3) this(5,1-3) r q] this(4) r q show ?thesis
    by (simp add: eval_nat_numeral)
qed

text \<open>
  Closing an open connection queues exactly a shutdown and a reset for its peer, removes
  its key from the table, marks the object closed, and no data can be sent on it any more;
  all other objects stay as they were.
\<close>
theorem vsock_close:
  assumes "p < length (vs_heap d)" and "vc_State (vs_heap d ! p) \<noteq> VsockConnStateClosed"
    and "vs_running d" and "CloseConnection p d = d'"
  shows "map (vh_Op \<circ> vp_Header) (vs_txQueue d') =
      map (vh_Op \<circ> vp_Header) (vs_txQueue d) @ [VsockOpShutdown, VsockOpRst] \<and>
    GetConnection (vc_LocalPort (vs_heap d ! p)) (vc_PeerCID (vs_heap d ! p)) (vc_PeerPort (vs_heap d ! p)) d' = None \<and>
    vc_State (vs_heap d' ! p) = VsockConnStateClosed \<and>
    SendData p dat d' = (d', Some VsNotEstablished) \<and>
    (\<forall>q. q \<noteq> p \<longrightarrow> vs_heap d' ! q = vs_heap d ! q)"
proof -
  have ops: "vh_Op (host_header a b c z) = z" for a b c z by (simp add: host_header_def)
  show ?thesis
    unfolding assms(4) [symmetric] CloseConnection_eq [OF assms(1,2)]
    using assms(1,3) by (simp add: Let_def GetConnection_def conn_key_def delete_conv' ops SendData_def send_count_def)
qed

lemma vsock_close_witness:
  "GetConnection 1024 3 5000 (CloseConnection 0 demo_open) = None \<and>
   GetConnection 1024 3 5000 demo_open = Some 0"
proof -
  have "0 < length (vs_heap demo_open)" "vc_State (vs_heap demo_open ! 0) \<noteq> VsockConnStateClosed"
    by (simp_all add: demo_open_eq)
  from vsock_close [OF this demo_open_eq(3) refl] show ?thesis
    by (simp add: demo_open_eq new_conn_def GetConnection_def)
qed

text \<open>
  The credit of a connection is the unused part of the peer's window, and a sender that
  stays within it never overruns the window: after sending that much the bytes in flight
  still fit the peer's buffer and the credit has shrunk by exactly the bytes sent, also
  across a wrap of the 32-bit counters.
\<close>
theorem vsock_credit_window:
  assumes "vs_running d" and "p < length (vs_heap d)"
    and "vc_State (vs_heap d ! p) = VsockConnStateConnected"
    and "vc_TxCnt (vs_heap d ! p) - vc_PeerFwd (vs_heap d ! p) \<le> vc_PeerBuf (vs_heap d ! p)"
    and "length dat \<le> unat (PeerCredit (vs_heap d ! p))"
    and "SendData p dat d = (d', e)"
  shows "e = None \<and>
    vc_TxCnt (vs_heap d' ! p) - vc_PeerFwd (vs_heap d' ! p) \<le> vc_PeerBuf (vs_heap d' ! p) \<and>
    unat (PeerCredit (vs_heap d' ! p)) = unat (PeerCredit (vs_heap d ! p)) - length dat"
proof -
  let ?c = "vs_heap d ! p"
  let ?sent = "vc_TxCnt ?c - vc_PeerFwd ?c" and ?n = "of_nat (length dat) :: u32"
  have credit: "PeerCredit ?c = vc_PeerBuf ?c - ?sent"
    using assms(4) by (auto simp: PeerCredit_def Let_def not_less)
  then have fit: "unat ?sent + length dat \<le> unat (vc_PeerBuf ?c)"
    using assms(4,5) by (simp add: unat_sub word_le_nat_alt)
  then have n: "unat ?n = length dat"
    using unat_less_32 [of "vc_PeerBuf ?c"] by (simp add: unat_of_nat)
  have sent': "unat (?sent + ?n) = unat ?sent + length dat"
    using fit n unat_less_32 [of "vc_PeerBuf ?c"] by (simp add: unat_word_ariths)
  have c': "e = None" "vs_heap d' ! p = ?c\<lparr>vc_TxCnt := vc_TxCnt ?c + ?n\<rparr>"
    using assms(1-3,6) by (auto simp: SendData_def send_count_def send_locked_def Let_def)
  have diff: "vc_TxCnt ?c + ?n - vc_PeerFwd ?c = ?sent + ?n" by simp
  have le: "?sent + ?n \<le> vc_PeerBuf ?c" using fit sent' by (simp add: word_le_nat_alt)
  have credit': "PeerCredit (vs_heap d' ! p) = vc_PeerBuf ?c - (?sent + ?n)"
    using c'(2) by (simp add: PeerCredit_def Let_def diff leD [OF le])
  show ?thesis
  proof (intro conjI)
    show "unat (PeerCredit (vs_heap d' ! p)) = unat (PeerCredit ?c) - length dat"
      unfolding credit credit' using le assms(4) sent' by (simp add: unat_sub word_le_nat_alt)
    show "vc_TxCnt (vs_heap d' ! p) - vc_PeerFwd (vs_heap d' ! p) \<le> vc_PeerBuf (vs_heap d' ! p)"
      using le by (simp add: c'(2) diff)
  qed (rule c'(1))
qed

lemma vsock_credit_window_witness:
  "unat (PeerCredit (vs_heap (fst (SendData 0 [1, 2, 3] demo_open)) ! 0)) = 97"
proof -
  obtain d' e where r: "SendData 0 [1, 2, 3] demo_open = (d', e)" by force
  have "0 < length (vs_heap demo_open)" "vc_State (vs_heap demo_open ! 0) = VsockConnStateConnected"
    "vc_TxCnt (vs_heap demo_open ! 0) - vc_PeerFwd (vs_heap demo_open ! 0) \<le> vc_PeerBuf (vs_heap demo_open ! 0)"
    "unat (PeerCredit (vs_heap demo_open ! 0)) = 100"
    by (simp_all add: demo_open_eq new_conn_def PeerCredit_def)
  from vsock_credit_window [OF demo_open_eq(3) this(1-3) _ r] this(4) r show ?thesis by simp
qed

subsection \<open>A replaced connection\<close>

text \<open>
  A second request on a key that is in use replaces the table entry without a word; closing
  the first object, which the host may still hold, then removes the entry of the second, which
  stays connected but can no longer be found.
\<close>

lemma stale_close_drops_live:
  "let d = fst (fst (ProcessGuestPacket (EncodeVsockHeader (demo_hdr VsockOpRequest)) [] (demo_open, ())));
       d' = CloseConnection 0 d
   in GetConnection 1024 3 5000 d = Some 1 \<and> GetConnection 1024 3 5000 d' = None \<and>
      vc_State (vs_heap d' ! 1) = VsockConnStateConnected"
proof -
  let ?d = "fst (fst (ProcessGuestPacket (EncodeVsockHeader (demo_hdr VsockOpRequest)) [] (demo_open, ())))"
  have d: "vs_conns ?d = [(\<lparr>ck_localPort = 1024, ck_peerCID = 3, ck_peerPort = 5000\<rparr>, 1)]"
    "vs_heap ?d = [new_conn 1024 3 5000 VsockConnStateConnected 100 0, new_conn 1024 3 5000 VsockConnStateConnected 100 0]"
    using decode_encode_header [of "demo_hdr VsockOpRequest" "[]"]
    by (simp_all add: demo_open_def guest_packet_defs demo_vs_def vsockHeaderSize_def Let_def demo_hdr_def
        vsock_ops handleGuestConnect_def accept_all_def add_conn_def upd_conn_def enqueueTxPacket_def)
  then show ?thesis
    by (simp add: Let_def CloseConnection_eq GetConnection_def delete_conv' conn_key_def new_conn_def
        upd_conn_def enqueueTxPacket_def)
qed

end
