(* ===== verification/GoFile.thy ===== *)
theory GoFile
  imports Interfaces
begin

text \<open>
  The part of Go's \<^verbatim>\<open>os.File\<close> that the disk code uses: a regular file with its bytes,
  whether it is open, opened for writing, and whether the device below fails (then every
  transfer reports an error). Positioned reads return fewer bytes with \<^verbatim>\<open>io.EOF\<close> at the
  end of the file; positioned writes extend it.
\<close>

datatype io_error = IoEOF | IoClosed | IoNegative | IoNotWritable | IoFault | IoNotFound

record GoFile =
  gf_data :: bytes
  gf_write :: bool
  gf_open :: bool
  gf_fault :: bool

definition ReadAt :: "GoFile \<Rightarrow> nat \<Rightarrow> int \<Rightarrow> bytes \<times> io_error option" where
  "ReadAt f n off =
     (if off < 0 then ([], Some IoNegative)
      else if n = 0 then ([], None)
      else if \<not> gf_open f then ([], Some IoClosed)
      else if gf_fault f then ([], Some IoFault)
      else let d = gslice (nat off) (nat off + n) (gf_data f)
           in (d, if length d < n then Some IoEOF else None))"

definition WriteAt :: "GoFile \<Rightarrow> bytes \<Rightarrow> int \<Rightarrow> GoFile \<times> nat \<times> io_error option" where
  "WriteAt f d off =
     (if off < 0 then (f, 0, Some IoNegative)
      else if d = [] then (f, 0, None)
      else if \<not> gf_open f then (f, 0, Some IoClosed)
      else if \<not> gf_write f then (f, 0, Some IoNotWritable)
      else if gf_fault f then (f, 0, Some IoFault)
      else (f\<lparr>gf_data := overlay (nat off) d (gf_data f)\<rparr>, length d, None))"

definition Truncate :: "GoFile \<Rightarrow> int \<Rightarrow> GoFile \<times> io_error option" where
  "Truncate f n =
     (if n < 0 then (f, Some IoNegative)
      else if \<not> gf_open f then (f, Some IoClosed)
      else if \<not> gf_write f then (f, Some IoNotWritable)
      else if gf_fault f then (f, Some IoFault)
      else (f\<lparr>gf_data := take (nat n) (gf_data f) @ replicate (nat n - length (gf_data f)) 0\<rparr>, None))"

definition Sync :: "GoFile \<Rightarrow> io_error option" where
  "Sync f = (if \<not> gf_open f then Some IoClosed else if gf_fault f then Some IoFault else None)"

definition CloseFile :: "GoFile \<Rightarrow> GoFile \<times> io_error option" where
  "CloseFile f = (if gf_open f then (f\<lparr>gf_open := False\<rparr>, None) else (f, Some IoClosed))"

text \<open>A file that is open for writing and whose device works.\<close>

definition usable :: "GoFile \<Rightarrow> bool" where
  "usable f \<longleftrightarrow> gf_open f \<and> gf_write f \<and> \<not> gf_fault f"

definition readable :: "GoFile \<Rightarrow> bool" where
  "readable f \<longleftrightarrow> gf_open f \<and> \<not> gf_fault f"

lemma usable_readable [simp]: "usable f \<Longrightarrow> readable f"
  by (simp add: usable_def readable_def)

lemma ReadAt_ok:
  "readable f \<Longrightarrow> 0 \<le> off \<Longrightarrow> nat off + n \<le> length (gf_data f) \<Longrightarrow>
   ReadAt f n off = (gslice (nat off) (nat off + n) (gf_data f), None)"
  by (auto simp: ReadAt_def readable_def gslice_def)

lemma WriteAt_ok:
  "usable f \<Longrightarrow> 0 \<le> off \<Longrightarrow> d \<noteq> [] \<Longrightarrow>
   WriteAt f d off = (f\<lparr>gf_data := overlay (nat off) d (gf_data f)\<rparr>, length d, None)"
  by (simp add: WriteAt_def usable_def)

lemma WriteAt_keeps:
  "WriteAt f d off = (f', n, e) \<Longrightarrow> gf_write f' = gf_write f \<and> gf_open f' = gf_open f \<and> gf_fault f' = gf_fault f"
  by (auto simp: WriteAt_def split: if_splits)

interpretation gofile: byte_store gf_data usable "\<lambda>f n off. fst (ReadAt f n (int off))"
  "\<lambda>f d off. fst (WriteAt f d (int off))"
proof (unfold_locales, goal_cases)
  case (4 f n off)
  then show ?case by (auto simp: ReadAt_def usable_def gslice_def Let_def)
qed (auto simp: WriteAt_def usable_def)

end
