(* ===== verification/Block.thy ===== *)
theory Block
  imports Virtqueue GoFile
begin

text \<open>
  Model of \<^verbatim>\<open>internal/virtio/block.go\<close>: the block device. The backing file is a \<open>GoFile\<close>;
  the queue supplies the guest-memory accessors. A header buffer shorter than the 16 bytes
  asked for and a missing write accessor make the Go code panic, which is \<open>BlkPanic\<close>. The
  operations return the device and the world next to their result, since a request that fails
  late has already transferred data.
\<close>

definition VirtioBlkTIn :: u32 where "VirtioBlkTIn = 0"
definition VirtioBlkTOut :: u32 where "VirtioBlkTOut = 1"
definition VirtioBlkTFlush :: u32 where "VirtioBlkTFlush = 5"
definition VirtioBlkTGetID :: u32 where "VirtioBlkTGetID = 8"
definition VirtioBlkSOK :: byte where "VirtioBlkSOK = 0"
definition VirtioBlkSIOErr :: byte where "VirtioBlkSIOErr = 1"
definition VirtioBlkSUnsupport :: byte where "VirtioBlkSUnsupport = 2"
definition virtioBlkReqHeaderSize :: u32 where "virtioBlkReqHeaderSize = 16"
definition virtioBlkSectorSize :: u64 where "virtioBlkSectorSize = 512"

lemmas blk_consts = VirtioBlkTIn_def VirtioBlkTOut_def VirtioBlkTFlush_def VirtioBlkTGetID_def
  VirtioBlkSOK_def VirtioBlkSIOErr_def VirtioBlkSUnsupport_def virtioBlkReqHeaderSize_def
  virtioBlkSectorSize_def

record VirtioBlkReqHeader =
  rh_Type :: u32
  rh_Sector :: u64

record VirtioBlkConfig =
  blkc_Capacity :: u64
  blkc_SizeMax :: u32
  blkc_SegMax :: u32
  blkc_Cylinders :: u16
  blkc_Heads :: byte
  blkc_Sectors :: byte
  blkc_BlockSize :: u32
  blkc_PhysBlkExp :: byte

record 'w VirtioBlk =
  blk_deviceID :: bytes
  blk_readOnly :: bool
  blk_file :: GoFile
  blk_filePath :: string
  blk_capacity :: u64
  blk_vq :: "'w Virtqueue option"
  blk_running :: bool
  blk_stopClosed :: bool
  blk_readsCompleted :: u64
  blk_writesCompleted :: u64
  blk_bytesRead :: u64
  blk_bytesWritten :: u64

record 'w VirtioBlkOpts =
  blko_DeviceID :: bytes
  blko_FilePath :: string
  blko_ReadOnly :: bool
  blko_Queue :: "'w Virtqueue option"

datatype blk_error =
    BlkNoPath
  | BlkOpen io_error
  | BlkAlreadyRunning
  | BlkNotRunning
  | BlkNoHeader
  | BlkNoStatus
  | BlkHeaderTooSmall u32
  | BlkNoAccessor
  | BlkReadHeader string
  | BlkStatusEmpty
  | BlkWriteStatus string
  | BlkClosedChannel
  | BlkClose io_error
  | BlkPanic

subsection \<open>Lifecycle\<close>

text \<open>\<open>fs\<close> is the file system: the contents of the regular files that can be opened.\<close>

definition NewVirtioBlk ::
  "(string \<rightharpoonup> bytes) \<Rightarrow> 'w VirtioBlkOpts \<Rightarrow> blk_error + 'w VirtioBlk" where
  "NewVirtioBlk fs opts =
     (if blko_FilePath opts = [] then Inl BlkNoPath
      else case fs (blko_FilePath opts) of
             None \<Rightarrow> Inl (BlkOpen IoNotFound)
           | Some dat \<Rightarrow> Inr \<lparr>blk_deviceID = blko_DeviceID opts, blk_readOnly = blko_ReadOnly opts,
               blk_file = \<lparr>gf_data = dat, gf_write = \<not> blko_ReadOnly opts, gf_open = True, gf_fault = False\<rparr>,
               blk_filePath = blko_FilePath opts, blk_capacity = of_nat (length dat),
               blk_vq = blko_Queue opts, blk_running = False, blk_stopClosed = False,
               blk_readsCompleted = 0, blk_writesCompleted = 0, blk_bytesRead = 0, blk_bytesWritten = 0\<rparr>)"

definition blk_SectorCount :: "'w VirtioBlk \<Rightarrow> u64" where
  "blk_SectorCount d = blk_capacity d div virtioBlkSectorSize"

definition blk_GetConfig :: "'w VirtioBlk \<Rightarrow> VirtioBlkConfig" where
  "blk_GetConfig d = \<lparr>blkc_Capacity = blk_SectorCount d, blkc_SizeMax = 1048576, blkc_SegMax = 128,
     blkc_Cylinders = 0, blkc_Heads = 0, blkc_Sectors = 0,
     blkc_BlockSize = ucast virtioBlkSectorSize, blkc_PhysBlkExp = 0\<rparr>"

definition blk_Start :: "'w VirtioBlk \<Rightarrow> blk_error + 'w VirtioBlk" where
  "blk_Start d = (if blk_running d then Inl BlkAlreadyRunning else Inr (d\<lparr>blk_running := True\<rparr>))"

definition blk_Stop :: "'w VirtioBlk \<Rightarrow> 'w VirtioBlk \<times> blk_error option" where
  "blk_Stop d =
     (if \<not> blk_running d then (d, None)
      else let d = d\<lparr>blk_running := False\<rparr>
           in if blk_stopClosed d then (d, Some BlkClosedChannel)
              else let d = d\<lparr>blk_stopClosed := True\<rparr>
                   in case CloseFile (blk_file d) of
                        (f, e) \<Rightarrow> (d\<lparr>blk_file := f\<rparr>, map_option BlkClose e))"

subsection \<open>Requests\<close>

definition bad_sector :: "'w VirtioBlk \<Rightarrow> u64 \<Rightarrow> bool" where
  "bad_sector d sector \<longleftrightarrow>
     (let byteOffset = sector * virtioBlkSectorSize
      in (sector > 0 \<and> byteOffset div virtioBlkSectorSize \<noteq> sector) \<or> byteOffset \<ge> blk_capacity d)"

text \<open>
  The status of a handler is \<open>None\<close> when it calls a nil write accessor, which panics.
\<close>

fun read_segs ::
  "'w mem_write option \<Rightarrow> GoFile \<Rightarrow> ChainLink list \<Rightarrow> int \<Rightarrow> 'w \<Rightarrow> u32 \<Rightarrow> 'w \<times> byte option \<times> u32" where
  "read_segs mw f [] offset w tot = (w, Some VirtioBlkSOK, tot)"
| "read_segs mw f (desc # descs) offset w tot =
     (case ReadAt f (unat (cl_Len desc)) offset of
        (buf, err) \<Rightarrow>
          if err \<noteq> None \<and> err \<noteq> Some IoEOF then (w, Some VirtioBlkSIOErr, tot)
          else case mw of
                 None \<Rightarrow> (w, None, tot)
               | Some wr \<Rightarrow>
                   (case wr w (cl_Addr desc) buf of
                      (w', Some _) \<Rightarrow> (w', Some VirtioBlkSIOErr, tot)
                    | (w', None) \<Rightarrow>
                        read_segs mw f descs (int64 (offset + int (length buf))) w'
                          (tot + of_nat (length buf))))"

definition handleRead ::
  "'w mem_write option \<Rightarrow> DescriptorChain \<Rightarrow> u64 \<Rightarrow> 'w VirtioBlk \<Rightarrow> 'w \<Rightarrow>
   'w VirtioBlk \<times> 'w \<times> byte option \<times> u32" where
  "handleRead mw chain sector d w =
     (if bad_sector d sector then (d, w, Some VirtioBlkSIOErr, 0)
      else let offset = sint (sector * virtioBlkSectorSize)
           in if length (dc_Writable chain) \<le> 1 then (d, w, Some VirtioBlkSOK, 0)
              else case read_segs mw (blk_file d) (butlast (dc_Writable chain)) offset w 0 of
                     (w, status, tot) \<Rightarrow>
                       if status = Some VirtioBlkSOK
                       then (d\<lparr>blk_readsCompleted := blk_readsCompleted d + 1,
                               blk_bytesRead := blk_bytesRead d + ucast tot\<rparr>, w, status, tot)
                       else (d, w, status, tot))"

fun write_segs ::
  "'w mem_read \<Rightarrow> 'w \<Rightarrow> ChainLink list \<Rightarrow> int \<Rightarrow> GoFile \<Rightarrow> u64 \<Rightarrow> GoFile \<times> byte \<times> u64" where
  "write_segs rd w [] offset f tot = (f, VirtioBlkSOK, tot)"
| "write_segs rd w (desc # descs) offset f tot =
     (case rd w (cl_Addr desc) (cl_Len desc) of
        Inl _ \<Rightarrow> (f, VirtioBlkSIOErr, tot)
      | Inr buf \<Rightarrow>
          (case WriteAt f buf offset of
             (f', n, Some _) \<Rightarrow> (f', VirtioBlkSIOErr, tot)
           | (f', n, None) \<Rightarrow> write_segs rd w descs (int64 (offset + int n)) f' (tot + of_nat n)))"

definition handleWrite ::
  "'w mem_read \<Rightarrow> DescriptorChain \<Rightarrow> u64 \<Rightarrow> 'w VirtioBlk \<Rightarrow> 'w \<Rightarrow> 'w VirtioBlk \<times> byte" where
  "handleWrite rd chain sector d w =
     (if blk_readOnly d then (d, VirtioBlkSIOErr)
      else if bad_sector d sector then (d, VirtioBlkSIOErr)
      else let offset = sint (sector * virtioBlkSectorSize)
           in if length (dc_Readable chain) \<le> 1 then (d, VirtioBlkSOK)
              else case write_segs rd w (tl (dc_Readable chain)) offset (blk_file d) 0 of
                     (f, status, tot) \<Rightarrow>
                       let d = d\<lparr>blk_file := f\<rparr>
                       in if status = VirtioBlkSOK
                          then (d\<lparr>blk_writesCompleted := blk_writesCompleted d + 1,
                                  blk_bytesWritten := blk_bytesWritten d + tot\<rparr>, status)
                          else (d, status))"

definition handleFlush :: "'w VirtioBlk \<Rightarrow> byte" where
  "handleFlush d = (if Sync (blk_file d) \<noteq> None then VirtioBlkSIOErr else VirtioBlkSOK)"

definition handleGetID ::
  "'w mem_write option \<Rightarrow> DescriptorChain \<Rightarrow> 'w VirtioBlk \<Rightarrow> 'w \<Rightarrow> 'w \<times> byte option \<times> u32" where
  "handleGetID mw chain d w =
     (let id = take 20 (blk_deviceID d) @ replicate (20 - length (blk_deviceID d)) 0
      in if length (dc_Writable chain) > 1
         then let desc = hd (dc_Writable chain);
                  writeLen = (if (20 :: u32) > cl_Len desc then cl_Len desc else 20)
              in case mw of
                   None \<Rightarrow> (w, None, 0)
                 | Some wr \<Rightarrow>
                     (case wr w (cl_Addr desc) (take (unat writeLen) id) of
                        (w', Some _) \<Rightarrow> (w', Some VirtioBlkSIOErr, 0)
                      | (w', None) \<Rightarrow> (w', Some VirtioBlkSOK, writeLen))
         else (w, Some VirtioBlkSOK, 0))"

definition write_status ::
  "'w mem_write option \<Rightarrow> ChainLink \<Rightarrow> byte option \<Rightarrow> u32 \<Rightarrow> 'w \<Rightarrow> 'w \<times> (blk_error + u32)" where
  "write_status mw lastWritable status totalWritten w =
     (case status of
        None \<Rightarrow> (w, Inl BlkPanic)
      | Some st \<Rightarrow>
          if cl_Len lastWritable = 0 then (w, Inl BlkStatusEmpty)
          else case mw of
                 None \<Rightarrow> (w, Inl BlkPanic)
               | Some wr \<Rightarrow>
                   (case wr w (cl_Addr lastWritable + ucast (cl_Len lastWritable) - 1) [st] of
                      (w', Some e) \<Rightarrow> (w', Inl (BlkWriteStatus e))
                    | (w', None) \<Rightarrow> (w', Inr (totalWritten + 1))))"

definition parse_header :: "bytes \<Rightarrow> VirtioBlkReqHeader" where
  "parse_header headerBuf =
     \<lparr>rh_Type = get_le (gslice 0 4 headerBuf), rh_Sector = get_le (gslice 8 16 headerBuf)\<rparr>"

definition dispatch ::
  "'w mem_read \<Rightarrow> 'w mem_write option \<Rightarrow> DescriptorChain \<Rightarrow> VirtioBlkReqHeader \<Rightarrow>
   'w VirtioBlk \<Rightarrow> 'w \<Rightarrow> 'w VirtioBlk \<times> 'w \<times> byte option \<times> u32" where
  "dispatch rd mw chain header d w =
     (if rh_Type header = VirtioBlkTIn then handleRead mw chain (rh_Sector header) d w
      else if rh_Type header = VirtioBlkTOut then
        (case handleWrite rd chain (rh_Sector header) d w of (d', s) \<Rightarrow> (d', w, Some s, 0))
      else if rh_Type header = VirtioBlkTFlush then (d, w, Some (handleFlush d), 0)
      else if rh_Type header = VirtioBlkTGetID then
        (case handleGetID mw chain d w of (w', s, n) \<Rightarrow> (d, w', s, n))
      else (d, w, Some VirtioBlkSUnsupport, 0))"

definition processChain ::
  "DescriptorChain \<Rightarrow> 'w VirtioBlk \<Rightarrow> 'w \<Rightarrow> 'w VirtioBlk \<times> 'w \<times> (blk_error + u32)" where
  "processChain chain d w =
     (case Option.bind (blk_vq d) (\<lambda>vq. map_option (\<lambda>rd. (rd, vq_memWrite vq)) (vq_memRead vq)) of
        None \<Rightarrow> (d, w, Inl BlkNoAccessor)
      | Some (rd, mw) \<Rightarrow>
          (case rd w (cl_Addr (hd (dc_Readable chain))) virtioBlkReqHeaderSize of
             Inl e \<Rightarrow> (d, w, Inl (BlkReadHeader e))
           | Inr headerBuf \<Rightarrow>
               if length headerBuf < 16 then (d, w, Inl BlkPanic)
               else case dispatch rd mw chain (parse_header headerBuf) d w of
                      (d, w, status, totalWritten) \<Rightarrow>
                        (case write_status mw (last (dc_Writable chain)) status totalWritten w of
                           (w, r) \<Rightarrow> (d, w, r))))"

definition ProcessRequest ::
  "DescriptorChain \<Rightarrow> 'w VirtioBlk \<Rightarrow> 'w \<Rightarrow> 'w VirtioBlk \<times> 'w \<times> (blk_error + u32)" where
  "ProcessRequest chain d w =
     (if \<not> blk_running d then (d, w, Inl BlkNotRunning)
      else if length (dc_Readable chain) < 1 then (d, w, Inl BlkNoHeader)
      else if length (dc_Writable chain) < 1 then (d, w, Inl BlkNoStatus)
      else if cl_Len (hd (dc_Readable chain)) < virtioBlkReqHeaderSize
        then (d, w, Inl (BlkHeaderTooSmall (cl_Len (hd (dc_Readable chain)))))
      else processChain chain d w)"

end
