(* ===== verification/BlockClaims.thy ===== *)
theory BlockClaims
  imports Block VirtqueueClaims
begin

text \<open>
  Lemmas and properties of the block device: what a read request puts into guest memory, what
  a write request does to the file, the two composed, the read-only guarantee, and the bound
  check.
\<close>

subsection \<open>Sectors\<close>

lemma sector_offset:
  assumes "unat sector * 512 < unat (blk_capacity d)"
  shows "\<not> bad_sector d sector" and "unat (sector * virtioBlkSectorSize) = unat sector * 512"
proof -
  have b: "unat sector * 512 < 2 ^ 64" using assms unsigned_less [of "blk_capacity d", where 'a = nat] by simp
  show u: "unat (sector * virtioBlkSectorSize) = unat sector * 512"
    using b by (simp add: virtioBlkSectorSize_def unat_word_ariths)
  have "unat (sector * virtioBlkSectorSize div virtioBlkSectorSize) = unat sector"
    unfolding unat_div u by (simp add: virtioBlkSectorSize_def)
  then have "sector * virtioBlkSectorSize div virtioBlkSectorSize = sector"
    by (simp add: word_unat_eq_iff)
  then show "\<not> bad_sector d sector"
    using assms u by (simp add: bad_sector_def Let_def word_le_nat_alt)
qed

text \<open>A sector that the check lets through starts inside the device.\<close>

lemma not_bad_sector:
  assumes "\<not> bad_sector d sector"
  shows "unat sector * 512 < unat (blk_capacity d)"
proof (cases "sector = 0")
  case True
  then show ?thesis using assms by (simp add: bad_sector_def word_le_nat_alt Let_def)
next
  case False
  let ?p = "sector * virtioBlkSectorSize"
  have div: "?p div virtioBlkSectorSize = sector" and less: "unat ?p < unat (blk_capacity d)"
    using assms False by (auto simp: bad_sector_def Let_def word_gt_0 word_le_nat_alt not_le)
  have "unat sector = unat ?p div 512"
    using arg_cong [OF div, of unat] by (simp add: unat_div virtioBlkSectorSize_def)
  moreover have "unat ?p div 512 * 512 \<le> unat ?p" by (rule div_times_less_eq_dividend)
  ultimately show ?thesis using less by simp
qed

subsection \<open>Reading\<close>

lemma int64_step:
  "0 \<le> off \<Longrightarrow> nat off + n < 2 ^ 63 \<Longrightarrow> int64 (off + int n) = off + int n \<and> nat (off + int n) = nat off + n"
  by (auto intro: int64_id)

lemma read_segs_ram:
  assumes ram: "ram rd wr" and f: "readable f" and size: "length (gf_data f) < 2 ^ 63"
  shows "read_segs (Some wr) f links off w tot = (w', st, tot') \<Longrightarrow> buffers_ok links \<Longrightarrow> 0 \<le> off \<Longrightarrow>
    nat off + links_len links \<le> length (gf_data f) \<Longrightarrow>
    st = Some VirtioBlkSOK \<and> tot' = tot + of_nat (links_len links) \<and>
    (\<forall>acc. read_links rd w' links acc = Inr (acc @ gslice (nat off) (nat off + links_len links) (gf_data f))) \<and>
    (\<forall>b m. list_all (\<lambda>l. apart (unat (cl_Addr l)) (unat (cl_Len l)) (unat b) (unat m)) links \<and>
       unat b + unat m \<le> 2 ^ 64 \<longrightarrow> rd w' b m = rd w b m)"
proof (induction links arbitrary: off w tot)
  case Nil
  then show ?case by (simp add: gslice_def)
next
  case (Cons l links)
  obtain len where len: "unat (cl_Len l) = len" by blast
  let ?len = len
  let ?chunk = "gslice (nat off) (nat off + len) (gf_data f)"
  have rdf: "ReadAt f ?len off = (?chunk, None)"
    using Cons.prems(4) len by (intro ReadAt_ok f Cons.prems(3)) simp
  have clen: "length ?chunk = ?len" and mlen: "min len (length (gf_data f) - nat off) = len"
    using Cons.prems(4) len by simp_all
  obtain w1 where wr: "wr w (cl_Addr l) ?chunk = (w1, None)"
    using ramD(1) [OF ram, of w "cl_Addr l" ?chunk] by (metis prod.collapse)
  have off': "int64 (off + int ?len) = off + int ?len" "nat (off + int ?len) = nat off + ?len"
    using int64_step [OF Cons.prems(3), of len] Cons.prems(4) size len by simp_all
  have rec: "read_segs (Some wr) f links (off + int ?len) w1 (tot + of_nat ?len) = (w', st, tot')"
    using Cons.prems(1) by (simp add: rdf wr mlen off' len)
  have fit: "nat (off + int ?len) + links_len links \<le> length (gf_data f)"
    using Cons.prems(4) off' len by simp
  have bound: "?len < 2 ^ 32" using unsigned_less [of "cl_Len l", where 'a = nat] len by simp
  have IH: "st = Some VirtioBlkSOK" "tot' = tot + of_nat (links_len (l # links))"
    "\<And>acc. read_links rd w' links acc =
       Inr (acc @ gslice (nat off + ?len) (nat off + ?len + links_len links) (gf_data f))"
    "\<And>b m. list_all (\<lambda>l. apart (unat (cl_Addr l)) (unat (cl_Len l)) (unat b) (unat m)) links \<Longrightarrow>
       unat b + unat m \<le> 2 ^ 64 \<Longrightarrow> rd w' b m = rd w1 b m"
    using Cons.IH [OF rec] Cons.prems(2,3) fit off'(2) len by (auto simp: add.assoc)
  have "rd w1 (cl_Addr l) (cl_Len l) = Inr ?chunk"
    using ramD(2) [OF ram, of "cl_Addr l" ?chunk w] wr clen bound Cons.prems(2) len [symmetric] by simp
  moreover have "list_all (\<lambda>l'. apart (unat (cl_Addr l')) (unat (cl_Len l')) (unat (cl_Addr l)) ?len) links"
    using Cons.prems(2) len by (auto simp: list_all_iff apart_def)
  ultimately have own: "rd w' (cl_Addr l) (cl_Len l) = Inr ?chunk"
    using IH(4) [of "cl_Addr l" "cl_Len l"] Cons.prems(2) len by simp
  have join: "?chunk @ gslice (nat off + ?len) (nat off + ?len + links_len links) (gf_data f) =
      gslice (nat off) (nat off + links_len (l # links)) (gf_data f)"
    by (simp add: gslice_split add.assoc len)
  have "read_links rd w' (l # links) acc =
      Inr (acc @ gslice (nat off) (nat off + links_len (l # links)) (gf_data f))" for acc
  proof (cases "cl_Len l = 0")
    case True
    then show ?thesis using IH(3) len [symmetric] by simp
  next
    case False
    then show ?thesis using own IH(3) join by simp
  qed
  moreover have "rd w' b m = rd w b m"
    if "list_all (\<lambda>l. apart (unat (cl_Addr l)) (unat (cl_Len l)) (unat b) (unat m)) (l # links)"
      "unat b + unat m \<le> 2 ^ 64" for b m
    using that IH(4) [of b m] ramD(3) [OF ram, of "cl_Addr l" ?chunk b m w] wr clen len by simp
  ultimately show ?case using IH(1,2) by blast
qed

subsection \<open>Writing\<close>

text \<open>What a device reads from the guest's buffers, provided each yields its full length.\<close>

fun fetch :: "'w mem_read \<Rightarrow> 'w \<Rightarrow> ChainLink list \<Rightarrow> bytes list option" where
  "fetch rd w [] = Some []"
| "fetch rd w (l # ls) =
     (case rd w (cl_Addr l) (cl_Len l) of
        Inl _ \<Rightarrow> None
      | Inr d \<Rightarrow> if length d = unat (cl_Len l) then map_option ((#) d) (fetch rd w ls) else None)"

lemma fetch_length: "fetch rd w ls = Some ds \<Longrightarrow> length (concat ds) = links_len ls"
  by (induction ls arbitrary: ds) (auto split: sum.splits if_splits)

lemma write_segs_seq:
  "fetch rd w links = Some ds \<Longrightarrow> usable f \<Longrightarrow> 0 \<le> off \<Longrightarrow> nat off + links_len links < 2 ^ 63 \<Longrightarrow>
   write_segs rd w links off f tot =
     (gofile.write_seq f ds (nat off), VirtioBlkSOK, tot + of_nat (links_len links))"
proof (induction links arbitrary: ds off f tot)
  case (Cons l links)
  obtain d ds' where d: "rd w (cl_Addr l) (cl_Len l) = Inr d" "length d = unat (cl_Len l)"
    "fetch rd w links = Some ds'" "ds = d # ds'"
    using Cons.prems(1) by (auto split: sum.splits if_splits)
  obtain f1 where w1: "WriteAt f d off = (f1, length d, None)"
    using Cons.prems(2,3) by (cases "d = []") (simp_all add: WriteAt_def usable_def)
  have w1': "fst (WriteAt f d (int (nat off))) = f1" using Cons.prems(3) w1 by simp
  have u: "usable f1" using gofile.write_ok [OF Cons.prems(2), of d "nat off"] w1' by simp
  have off': "int64 (off + int (length d)) = off + int (length d)" "nat (off + int (length d)) = nat off + length d"
    using int64_step [OF Cons.prems(3), of "length d"] Cons.prems(4) d(2) by simp_all
  have "write_segs rd w links (off + int (length d)) f1 (tot + of_nat (length d)) =
      (gofile.write_seq f1 ds' (nat off + length d), VirtioBlkSOK,
       tot + of_nat (length d) + of_nat (links_len links))"
    using Cons.IH [OF d(3) u, of "off + int (length d)" "tot + of_nat (length d)"] Cons.prems(3,4) off' d(2) by simp
  moreover have "write_segs rd w (l # links) off f tot =
      write_segs rd w links (off + int (length d)) f1 (tot + of_nat (length d))"
    using d(1) w1 off' by simp
  moreover have "gofile.write_seq f ds (nat off) = gofile.write_seq f1 ds' (nat off + length d)"
    using d(4) w1' by simp
  moreover have "tot + of_nat (length d) + of_nat (links_len links) = tot + of_nat (links_len (l # links))"
    using d(2) by simp
  ultimately show ?case by simp
qed simp

lemma write_segs_flags:
  "write_segs rd w links off f tot = (f', st, tot') \<Longrightarrow>
   gf_write f' = gf_write f \<and> gf_open f' = gf_open f \<and> gf_fault f' = gf_fault f"
proof (induction links arbitrary: off f tot)
  case (Cons l links)
  then show ?case by (auto split: sum.splits prod.splits option.splits dest!: WriteAt_keeps)
qed simp

text \<open>The properties of the block device and an example disk of four sectors.\<close>

subsection \<open>Well-formed requests\<close>

text \<open>
  A request as the device expects it: a header buffer of at least 16 bytes whose contents the
  guest memory delivers, disjoint writable buffers, and a status buffer that is not empty.
\<close>

definition blk_request ::
  "'w mem_read \<Rightarrow> 'w mem_write \<Rightarrow> 'w VirtioBlk \<Rightarrow> 'w \<Rightarrow> DescriptorChain \<Rightarrow> u32 \<Rightarrow> u64 \<Rightarrow> bool" where
  "blk_request rd wr d w chain ty sector \<longleftrightarrow>
     blk_running d \<and> ram rd wr \<and>
     (\<exists>vq. blk_vq d = Some vq \<and> vq_memRead vq = Some rd \<and> vq_memWrite vq = Some wr) \<and>
     dc_Readable chain \<noteq> [] \<and> 16 \<le> cl_Len (hd (dc_Readable chain)) \<and>
     (\<exists>hb. rd w (cl_Addr (hd (dc_Readable chain))) 16 = Inr hb \<and> length hb = 16 \<and>
           parse_header hb = \<lparr>rh_Type = ty, rh_Sector = sector\<rparr>) \<and>
     dc_Writable chain \<noteq> [] \<and> buffers_ok (dc_Writable chain) \<and> cl_Len (last (dc_Writable chain)) \<noteq> 0"

definition status_addr :: "DescriptorChain \<Rightarrow> u64" where
  "status_addr chain =
     (let l = last (dc_Writable chain) in cl_Addr l + ucast (cl_Len l) - 1)"

lemma request_runs:
  assumes "blk_request rd wr d w chain ty sector"
    and "dispatch rd (Some wr) chain \<lparr>rh_Type = ty, rh_Sector = sector\<rparr> d w = (d1, w1, Some st, n)"
  shows "ProcessRequest chain d w = (d1, fst (wr w1 (status_addr chain) [st]), Inr (n + 1))"
proof -
  obtain w2 where "wr w1 (status_addr chain) [st] = (w2, None)"
    using assms(1) ramD(1) [of rd wr w1 "status_addr chain" "[st]"]
    by (metis blk_request_def prod.collapse)
  then show ?thesis
    using assms by (auto simp: blk_request_def ProcessRequest_def processChain_def write_status_def
        status_addr_def Let_def blk_consts Suc_le_eq)
qed

lemma buffers_ok_append:
  "buffers_ok (ls @ [l]) \<longleftrightarrow> buffers_ok ls \<and> unat (cl_Addr l) + unat (cl_Len l) \<le> 2 ^ 64 \<and>
     list_all (\<lambda>l'. apart (unat (cl_Addr l')) (unat (cl_Len l')) (unat (cl_Addr l)) (unat (cl_Len l))) ls"
  by (induction ls) auto

lemma buffers_ok_bound: "buffers_ok ls \<Longrightarrow> l \<in> set ls \<Longrightarrow> unat (cl_Addr l) + unat (cl_Len l) \<le> 2 ^ 64"
  by (induction ls) auto

lemma status_addr_in:
  assumes "blk_request rd wr d w chain ty sector" and "last (dc_Writable chain) = l"
  shows "unat (status_addr chain) = unat (cl_Addr l) + unat (cl_Len l) - 1" and "0 < unat (cl_Len l)"
    and "unat (cl_Addr l) + unat (cl_Len l) \<le> 2 ^ 64"
proof -
  have sp: "dc_Writable chain = butlast (dc_Writable chain) @ [l]"
    using assms by (metis append_butlast_last_id blk_request_def)
  show b: "unat (cl_Addr l) + unat (cl_Len l) \<le> 2 ^ 64"
    using assms(1) sp by (metis blk_request_def buffers_ok_append)
  show pos: "0 < unat (cl_Len l)" using assms by (simp add: blk_request_def unat_gt_0)
  have u: "unat (ucast (cl_Len l) :: u64) = unat (cl_Len l)" 
    using unsigned_less [of "cl_Len l", where 'a = nat] by (simp add: unsigned_ucast_eq take_bit_nat_eq_self)
  have "status_addr chain = cl_Addr l + (ucast (cl_Len l) - 1)"
    by (simp add: status_addr_def Let_def assms(2))
  moreover have "unat (ucast (cl_Len l) - 1 :: u64) = unat (cl_Len l) - 1"
    using pos u by (simp add: unat_sub word_le_nat_alt)
  moreover have "unat (cl_Addr l) + (unat (cl_Len l) - 1) < 2 ^ 64" using b pos by simp
  ultimately show "unat (status_addr chain) = unat (cl_Addr l) + unat (cl_Len l) - 1"
    using pos by (simp add: unat_word_ariths)
qed

text \<open>Writing the status leaves the data buffers as they are and is read back.\<close>

lemma read_links_frame:
  "(\<And>l. l \<in> set ls \<Longrightarrow> rd w' (cl_Addr l) (cl_Len l) = rd w (cl_Addr l) (cl_Len l)) \<Longrightarrow>
   read_links rd w' ls acc = read_links rd w ls acc"
  by (induction ls arbitrary: acc) (auto split: sum.splits)

lemma status_written:
  assumes req: "blk_request rd wr d w chain ty sector"
  shows "rd (fst (wr w1 (status_addr chain) [st])) (status_addr chain) 1 = Inr [st]"
    and "read_links rd (fst (wr w1 (status_addr chain) [st])) (butlast (dc_Writable chain)) acc =
         read_links rd w1 (butlast (dc_Writable chain)) acc"
proof -
  have ram: "ram rd wr" using req by (simp add: blk_request_def)
  let ?l = "last (dc_Writable chain)"
  note a = status_addr_in [OF req refl]
  show "rd (fst (wr w1 (status_addr chain) [st])) (status_addr chain) 1 = Inr [st]"
    using ramD(2) [OF ram, of "status_addr chain" "[st]" w1] a by simp
  have sp: "buffers_ok (butlast (dc_Writable chain) @ [?l])"
    using req by (simp add: blk_request_def)
  show "read_links rd (fst (wr w1 (status_addr chain) [st])) (butlast (dc_Writable chain)) acc =
         read_links rd w1 (butlast (dc_Writable chain)) acc"
  proof (rule read_links_frame, rule ramD(3) [OF ram])
    fix l assume l: "l \<in> set (butlast (dc_Writable chain))"
    then have "apart (unat (cl_Addr l)) (unat (cl_Len l)) (unat (cl_Addr ?l)) (unat (cl_Len ?l))"
      using sp by (auto simp: buffers_ok_append list_all_iff)
    then show "apart (unat (status_addr chain)) (length [st]) (unat (cl_Addr l)) (unat (cl_Len l))"
      using a by (auto simp: apart_def)
    show "unat (cl_Addr l) + unat (cl_Len l) \<le> 2 ^ 64"
      using sp l by (auto simp: buffers_ok_append dest: buffers_ok_bound)
  qed
qed

subsection \<open>An example disk\<close>

definition demo_blk :: "(u64 \<Rightarrow> byte) VirtioBlk" where
  "demo_blk = \<lparr>blk_deviceID = [], blk_readOnly = False,
     blk_file = \<lparr>gf_data = replicate 2048 7, gf_write = True, gf_open = True, gf_fault = False\<rparr>,
     blk_filePath = ''disk.img'', blk_capacity = 2048, blk_vq = Some demo_vq, blk_running = True,
     blk_stopClosed = False, blk_readsCompleted = 0, blk_writesCompleted = 0, blk_bytesRead = 0,
     blk_bytesWritten = 0\<rparr>"

text \<open>Header at 0, data at 100, status at 200; the sector is the byte at address 8.\<close>

definition demo_read :: DescriptorChain where
  "demo_read = \<lparr>dc_HeadIndex = 0, dc_Readable = [\<lparr>cl_Addr = 0, cl_Len = 16\<rparr>],
     dc_Writable = [\<lparr>cl_Addr = 100, cl_Len = 2\<rparr>, \<lparr>cl_Addr = 200, cl_Len = 1\<rparr>], dc_TotalRead = 16, dc_TotalWrite = 3\<rparr>"

definition demo_write :: DescriptorChain where
  "demo_write = \<lparr>dc_HeadIndex = 0, dc_Readable = [\<lparr>cl_Addr = 0, cl_Len = 16\<rparr>, \<lparr>cl_Addr = 100, cl_Len = 2\<rparr>],
     dc_Writable = [\<lparr>cl_Addr = 200, cl_Len = 1\<rparr>], dc_TotalRead = 18, dc_TotalWrite = 1\<rparr>"

definition demo_mem :: "byte \<Rightarrow> u64 \<Rightarrow> byte" where
  "demo_mem ty = (\<lambda>_. 0)(0 := ty, 8 := 1, 100 := 5, 101 := 6)"

lemma demo_header:
  "flat_read (demo_mem ty) 0 16 = Inr [ty, 0, 0, 0, 0, 0, 0, 0, 1, 0, 0, 0, 0, 0, 0, 0]"
  by (simp add: flat_read_def demo_mem_def upt_conv_Cons)

lemma demo_parse:
  "parse_header [ty, 0, 0, 0, 0, 0, 0, 0, 1, 0, 0, 0, 0, 0, 0, 0] = \<lparr>rh_Type = ucast ty, rh_Sector = 1\<rparr>"
  by (simp add: parse_header_def gslice_def)

lemma demo_request:
  "blk_request flat_read flat_write demo_blk (demo_mem ty) demo_read (ucast ty) 1"
  "blk_request flat_read flat_write demo_blk (demo_mem ty) demo_write (ucast ty) 1"
  using demo_header [of ty] demo_parse [of ty]
  by (simp_all add: blk_request_def demo_blk_def demo_vq_eq demo_read_def demo_write_def ram_flat apart_def)

subsection \<open>A write request\<close>

lemma write_request:
  assumes "blk_request rd wr d w chain VirtioBlkTOut sector"
    and "usable (blk_file d)" and "\<not> blk_readOnly d"
    and "fetch rd w (tl (dc_Readable chain)) = Some ds" and "concat ds \<noteq> []"
    and "unat sector * 512 < unat (blk_capacity d)"
    and "unat sector * 512 + length (concat ds) < 2 ^ 63"
    and "ProcessRequest chain d w = (d', w', r)"
  shows "r = Inr 1 \<and> rd w' (status_addr chain) 1 = Inr [VirtioBlkSOK] \<and>
    gf_data (blk_file d') = overlay (unat sector * 512) (concat ds) (gf_data (blk_file d)) \<and>
    ReadAt (blk_file d') (length (concat ds)) (int (unat sector * 512)) = (concat ds, None) \<and>
    length (gf_data (blk_file d')) = max (length (gf_data (blk_file d))) (unat sector * 512 + length (concat ds)) \<and>
    blk_capacity d' = blk_capacity d"
proof -
  let ?off = "unat sector * 512"
  note off = sector_offset [OF assms(6)]
  have small: "?off < 2 ^ 63" using assms(7) by simp
  have sint: "sint (sector * virtioBlkSectorSize) = int ?off"
    using sint_small [of "sector * virtioBlkSectorSize"] off(2) small by metis
  have len: "length (concat ds) = links_len (tl (dc_Readable chain))" using fetch_length [OF assms(4)] .
  have more: "length (dc_Readable chain) > 1"
    using assms(4,5) by (cases "dc_Readable chain" rule: remdups_adj.cases) auto
  have fit: "nat (int ?off) + links_len (tl (dc_Readable chain)) < 2 ^ 63"
    using assms(7) len by (simp only: nat_int)
  have segs: "write_segs rd w (tl (dc_Readable chain)) (int ?off) (blk_file d) 0 =
      (gofile.write_seq (blk_file d) ds ?off, VirtioBlkSOK, of_nat (links_len (tl (dc_Readable chain))))"
    using write_segs_seq [OF assms(4,2) of_nat_0_le_iff fit, of 0] by (simp only: nat_int add_0)
  note seq = gofile.write_seq_once [OF assms(2,5), of ?off]
  obtain d1 where disp: "dispatch rd (Some wr) chain \<lparr>rh_Type = VirtioBlkTOut, rh_Sector = sector\<rparr> d w =
      (d1, w, Some VirtioBlkSOK, 0)" "blk_file d1 = gofile.write_seq (blk_file d) ds ?off"
      "blk_capacity d1 = blk_capacity d"
    using assms(3) more off(1) sint segs
    by (simp add: dispatch_def handleWrite_def Let_def not_le blk_consts)
  have d': "d' = d1" "r = Inr 1" "rd w' (status_addr chain) 1 = Inr [VirtioBlkSOK]"
    using request_runs [OF assms(1) disp(1)] assms(8) status_written(1) [OF assms(1), of w VirtioBlkSOK] by auto
  have "ReadAt (blk_file d') (length (concat ds)) (int ?off) = (concat ds, None)"
    using seq ReadAt_ok [of "blk_file d'" "int ?off" "length (concat ds)"] disp(2) d'(1)
    by (simp only: nat_int of_nat_0_le_iff usable_readable length_overlay max.cobounded2
        gslice_overlay_same True_implies_equals)
  then show ?thesis using seq disp d' by simp
qed

lemma demo_write_facts:
  "blk_request flat_read flat_write demo_blk (demo_mem 1) demo_write VirtioBlkTOut 1"
  "usable (blk_file demo_blk)" "\<not> blk_readOnly demo_blk"
  "fetch flat_read (demo_mem 1) (tl (dc_Readable demo_write)) = Some [[5, 6]]"
  "concat [[5, 6 :: byte]] \<noteq> []" "unat (1 :: u64) * 512 < unat (blk_capacity demo_blk)"
  "unat (1 :: u64) * 512 + length (concat [[5, 6 :: byte]]) < 2 ^ 63"
  using demo_request(2) [of 1]
  by (simp_all add: blk_consts, simp_all add: demo_blk_def usable_def demo_write_def flat_read_def demo_mem_def
      upt_conv_Cons)

lemma demo_overlay: "overlay (unat (1 :: u64) * 512) (concat [[5, 6]]) (gf_data (blk_file demo_blk)) ! 513 = 6"
  by (simp add: nth_overlay demo_blk_def)

subsection \<open>Properties\<close>

text \<open>
  A read request inside the disk delivers exactly the disk's bytes: after it the data
  buffers, read in order, hold the bytes of the file from the sector on, the status byte is 0,
  the returned length is the number of bytes plus one for the status, and the file is
  unchanged.
\<close>
theorem block_read:
  assumes "blk_request rd wr d w chain VirtioBlkTIn sector"
    and "readable (blk_file d)" and "length (gf_data (blk_file d)) < 2 ^ 63"
    and "length (dc_Writable chain) > 1"
    and "unat sector * 512 < unat (blk_capacity d)"
    and "unat sector * 512 + links_len (butlast (dc_Writable chain)) \<le> length (gf_data (blk_file d))"
    and "ProcessRequest chain d w = (d', w', r)"
  shows "r = Inr (of_nat (links_len (butlast (dc_Writable chain))) + 1) \<and>
    read_links rd w' (butlast (dc_Writable chain)) [] =
      Inr (gslice (unat sector * 512) (unat sector * 512 + links_len (butlast (dc_Writable chain)))
             (gf_data (blk_file d))) \<and>
    rd w' (status_addr chain) 1 = Inr [VirtioBlkSOK] \<and> blk_file d' = blk_file d"
proof -
  let ?segs = "butlast (dc_Writable chain)"
  note off = sector_offset [OF assms(5)]
  have small: "unat sector * 512 < 2 ^ 63" using assms(3,6) by simp
  have sint: "sint (sector * virtioBlkSectorSize) = int (unat sector * 512)"
    using sint_small [of "sector * virtioBlkSectorSize"] off(2) small by metis
  have ram: "ram rd wr" using assms(1) by (simp add: blk_request_def)
  have bufs: "buffers_ok ?segs"
    using assms(1) buffers_ok_append [of ?segs "last (dc_Writable chain)"] by (simp add: blk_request_def)
  obtain w1 st tot where segs: "read_segs (Some wr) (blk_file d) ?segs (int (unat sector * 512)) w 0 = (w1, st, tot)"
    by (metis prod_cases3)
  have fit: "nat (int (unat sector * 512)) + links_len ?segs \<le> length (gf_data (blk_file d))"
    using assms(6) by (simp only: nat_int)
  note ran = read_segs_ram [OF ram assms(2,3) segs bufs of_nat_0_le_iff fit, unfolded nat_int]
  obtain d1 where disp: "dispatch rd (Some wr) chain \<lparr>rh_Type = VirtioBlkTIn, rh_Sector = sector\<rparr> d w =
      (d1, w1, Some VirtioBlkSOK, tot)" "blk_file d1 = blk_file d"
    using ran assms(4) off(1) sint segs by (simp add: dispatch_def handleRead_def Let_def not_le)
  note run = request_runs [OF assms(1) disp(1)]
  show ?thesis
    using run assms(7) ran disp(2) status_written [OF assms(1), of w1 VirtioBlkSOK] by auto
qed

lemma block_read_witness:
  "snd (snd (ProcessRequest demo_read demo_blk (demo_mem 0))) = Inr 3"
proof -
  obtain d' w' r where r: "ProcessRequest demo_read demo_blk (demo_mem 0) = (d', w', r)"
    by (metis prod_cases3)
  have "blk_request flat_read flat_write demo_blk (demo_mem 0) demo_read VirtioBlkTIn 1"
    using demo_request(1) [of 0] by (simp add: blk_consts)
  moreover have "readable (blk_file demo_blk)" "length (gf_data (blk_file demo_blk)) < 2 ^ 63"
    "length (dc_Writable demo_read) > 1" "unat (1 :: u64) * 512 < unat (blk_capacity demo_blk)"
    "unat (1 :: u64) * 512 + links_len (butlast (dc_Writable demo_read)) \<le> length (gf_data (blk_file demo_blk))"
    by (simp_all add: demo_blk_def demo_read_def readable_def)
  ultimately have "r = Inr (of_nat (links_len (butlast (dc_Writable demo_read))) + 1)"
    using block_read [OF _ _ _ _ _ _ r] by blast
  moreover have "links_len (butlast (dc_Writable demo_read)) = 2" by (simp add: demo_read_def)
  ultimately show ?thesis by (simp add: r)
qed

text \<open>
  A write request that starts inside the disk stores the bytes of its data buffers, in
  order, at the sector, and changes no other byte; the status is 0. Reading the same range
  back returns them. The check covers only the start: when the buffers reach beyond the
  capacity the file grows, while the capacity the guest sees stays.
\<close>
theorem block_write:
  assumes "blk_request rd wr d w chain VirtioBlkTOut sector"
    and "usable (blk_file d)" and "\<not> blk_readOnly d"
    and "fetch rd w (tl (dc_Readable chain)) = Some ds" and "concat ds \<noteq> []"
    and "unat sector * 512 < unat (blk_capacity d)"
    and "unat sector * 512 + length (concat ds) < 2 ^ 63"
    and "ProcessRequest chain d w = (d', w', r)"
  shows "r = Inr 1 \<and> rd w' (status_addr chain) 1 = Inr [VirtioBlkSOK] \<and>
    gf_data (blk_file d') = overlay (unat sector * 512) (concat ds) (gf_data (blk_file d)) \<and>
    ReadAt (blk_file d') (length (concat ds)) (int (unat sector * 512)) = (concat ds, None) \<and>
    length (gf_data (blk_file d')) = max (length (gf_data (blk_file d))) (unat sector * 512 + length (concat ds)) \<and>
    blk_capacity d' = blk_capacity d"
  using write_request [OF assms] .

lemma block_write_witness:
  "gf_data (blk_file (fst (ProcessRequest demo_write demo_blk (demo_mem 1)))) ! 513 = 6"
proof -
  obtain d' w' r where r: "ProcessRequest demo_write demo_blk (demo_mem 1) = (d', w', r)"
    by (metis prod_cases3)
  from block_write [OF demo_write_facts r] demo_overlay show ?thesis by (simp only: r fst_conv)
qed

text \<open>What a request keeps of the device, whatever it is.\<close>

definition same_access :: "'w VirtioBlk \<Rightarrow> 'w VirtioBlk \<Rightarrow> bool" where
  "same_access d d' \<longleftrightarrow> blk_capacity d' = blk_capacity d \<and> blk_readOnly d' = blk_readOnly d \<and>
     gf_write (blk_file d') = gf_write (blk_file d)"

lemma same_access_refl [simp]: "same_access d d"
  by (simp add: same_access_def)

lemma handlers_keep:
  "handleRead mw chain s d w = (d1, w1, st, m) \<Longrightarrow> same_access d d1"
  "handleWrite rd chain s d w = (d2, st2) \<Longrightarrow> same_access d d2"
  by (auto simp: same_access_def handleRead_def handleWrite_def Let_def split: if_splits prod.splits dest!: write_segs_flags)

lemma request_keeps: "ProcessRequest chain d w = (d', w', r) \<Longrightarrow> same_access d d'"
  by (auto simp: ProcessRequest_def processChain_def dispatch_def Let_def
      split: if_splits option.splits sum.splits prod.splits dest!: handlers_keep)

text \<open>
  C20: No request changes the capacity of the device or the access mode of the device and its
  file. A request changes the backing file only if the device is not read-only, the header
  the guest memory delivers says write, and the sector starts inside the disk. So a device
  opened read-only never changes its file, whatever the guest sends.
\<close>
theorem block_file_protected:
  assumes "ProcessRequest chain d w = (d', w', r)"
  shows "blk_capacity d' = blk_capacity d \<and> blk_readOnly d' = blk_readOnly d \<and>
    gf_write (blk_file d') = gf_write (blk_file d) \<and>
    (blk_file d' \<noteq> blk_file d \<longrightarrow> blk_running d \<and> \<not> blk_readOnly d \<and>
      (\<exists>vq rd hb. blk_vq d = Some vq \<and> vq_memRead vq = Some rd \<and>
         rd w (cl_Addr (hd (dc_Readable chain))) 16 = Inr hb \<and>
         rh_Type (parse_header hb) = VirtioBlkTOut \<and>
         unat (rh_Sector (parse_header hb)) * 512 < unat (blk_capacity d)))"
proof (cases "blk_file d' = blk_file d")
  case True
  then show ?thesis using request_keeps [OF assms] by (simp add: same_access_def)
next
  case False
  have run: "blk_running d" and pc: "processChain chain d w = (d', w', r)"
    using assms False by (auto simp: ProcessRequest_def split: if_splits)
  obtain vq rd where vq: "blk_vq d = Some vq" "vq_memRead vq = Some rd"
    using pc False by (cases "blk_vq d"; cases "vq_memRead (the (blk_vq d))") (auto simp: processChain_def)
  obtain hb where hb: "rd w (cl_Addr (hd (dc_Readable chain))) 16 = Inr hb" "\<not> length hb < 16"
    using pc False vq
    by (cases "rd w (cl_Addr (hd (dc_Readable chain))) 16") (auto simp: processChain_def blk_consts split: if_splits)
  obtain w1 st n where disp: "dispatch rd (vq_memWrite vq) chain (parse_header hb) d w = (d', w1, st, n)"
    using pc vq hb by (auto simp: processChain_def blk_consts split: prod.splits)
  have rdonly: "blk_file d2 = blk_file d" if "handleRead mw chain s d w = (d2, w2, st', m)" for mw s d2 w2 st' m
    using that by (auto simp: handleRead_def Let_def split: if_splits prod.splits)
  have out: "rh_Type (parse_header hb) = VirtioBlkTOut"
    using disp False rdonly by (auto simp: dispatch_def split: if_splits prod.splits)
  obtain s where hw: "handleWrite rd chain (rh_Sector (parse_header hb)) d w = (d', s)"
    using disp out by (auto simp: dispatch_def blk_consts split: prod.splits)
  have "\<not> blk_readOnly d" "\<not> bad_sector d (rh_Sector (parse_header hb))"
    using hw False by (auto simp: handleWrite_def split: if_splits)
  then show ?thesis using request_keeps [OF assms] run vq hb out not_bad_sector unfolding same_access_def by blast
qed

lemma block_file_protected_witness:
  "\<exists>d' w' r. ProcessRequest demo_write demo_blk (demo_mem 1) = (d', w', r) \<and>
     gf_data (blk_file demo_blk) ! 513 = 7 \<and> gf_data (blk_file d') ! 513 = 6 \<and>
     blk_running demo_blk \<and> \<not> blk_readOnly demo_blk \<and> blk_capacity d' = blk_capacity demo_blk \<and>
     blk_readOnly d' = blk_readOnly demo_blk \<and> gf_write (blk_file d') = gf_write (blk_file demo_blk)"
proof -
  obtain d' w' r where r: "ProcessRequest demo_write demo_blk (demo_mem 1) = (d', w', r)"
    by (metis prod_cases3)
  have new: "gf_data (blk_file d') ! 513 = 6"
    using write_request [OF demo_write_facts r] demo_overlay by simp
  moreover have old: "gf_data (blk_file demo_blk) ! 513 = 7" by (simp add: demo_blk_def)
  moreover have "blk_file d' \<noteq> blk_file demo_blk" using old new by auto
  ultimately show ?thesis using r block_file_protected [OF r] by simp
qed

end
