(* ===== verification/Dhcp.thy ===== *)
theory Dhcp
  imports Prelude "HOL-Library.AList"
begin

text \<open>
  Model of \<^verbatim>\<open>internal/network/dhcp.go\<close>: the DHCP server of the bridge. Addresses are IPv4,
  as 32-bit words (\<^verbatim>\<open>ipToUint32\<close> and \<^verbatim>\<open>uint32ToIP\<close> convert); a configuration with IPv6
  addresses is outside the model. \<open>parse_ip\<close> and \<open>parse_cidr\<close> stand for \<^verbatim>\<open>net.ParseIP\<close> and
  \<^verbatim>\<open>net.ParseCIDR\<close>. The textual form of a MAC, which the code uses as map key, is determined
  by its bytes and determines them, so the bytes are the key here. The maps that the code
  ranges over are association lists. \<open>now\<close> is the reading of \<^verbatim>\<open>time.Now\<close>.
\<close>

subsection \<open>Constants and data\<close>

definition DHCPDiscover :: byte where "DHCPDiscover = 1"
definition DHCPOffer :: byte where "DHCPOffer = 2"
definition DHCPRequest :: byte where "DHCPRequest = 3"
definition DHCPAck :: byte where "DHCPAck = 5"
definition DHCPNak :: byte where "DHCPNak = 6"
definition DHCPRelease :: byte where "DHCPRelease = 7"

definition OptSubnetMask :: byte where "OptSubnetMask = 1"
definition OptRouter :: byte where "OptRouter = 3"
definition OptDNS :: byte where "OptDNS = 6"
definition OptHostname :: byte where "OptHostname = 12"
definition OptRequestedIP :: byte where "OptRequestedIP = 50"
definition OptLeaseTime :: byte where "OptLeaseTime = 51"
definition OptMessageType :: byte where "OptMessageType = 53"
definition OptServerIdentifier :: byte where "OptServerIdentifier = 54"
definition OptEnd :: byte where "OptEnd = 255"

lemmas dhcp_msgs = DHCPDiscover_def DHCPOffer_def DHCPRequest_def DHCPAck_def DHCPNak_def DHCPRelease_def
lemmas dhcp_opts = OptSubnetMask_def OptRouter_def OptDNS_def OptHostname_def OptRequestedIP_def
  OptLeaseTime_def OptMessageType_def OptServerIdentifier_def OptEnd_def

type_synonym ip = u32

record DHCPLease =
  dl_MAC :: bytes
  dl_IP :: ip
  dl_Hostname :: bytes
  dl_ExpiresAt :: int
  dl_VMName :: string

record IPNet =
  net_IP :: ip
  net_Mask :: u32

record DHCPServer =
  ds_serverIP :: ip
  ds_subnet :: IPNet
  ds_gateway :: ip
  ds_dns :: "ip list"
  ds_rangeStart :: ip
  ds_rangeEnd :: ip
  ds_leaseDur :: int
  ds_leases :: "(bytes \<times> DHCPLease) list"
  ds_vmMACs :: "(string \<times> bytes) list"
  ds_nextIP :: ip
  ds_iface :: string
  ds_stopped :: bool

record DHCPServerConfig =
  dcfg_ServerIP :: string
  dcfg_Subnet :: string
  dcfg_RangeStart :: string
  dcfg_RangeEnd :: string
  dcfg_Gateway :: string
  dcfg_DNS :: "string list"
  dcfg_LeaseDuration :: int
  dcfg_Interface :: string

datatype dhcp_error =
    DhcpInvalidServerIP string
  | DhcpInvalidSubnet
  | DhcpInvalidRangeStart string
  | DhcpInvalidRangeEnd string
  | DhcpNotRegistered string
  | DhcpNoLease string
  | DhcpDivideByZero
  | DhcpIndexOutOfRange

definition net_contains :: "IPNet \<Rightarrow> ip \<Rightarrow> bool" where
  "net_contains n a \<longleftrightarrow> a AND net_Mask n = net_IP n AND net_Mask n"

definition DefaultDHCPConfig :: DHCPServerConfig where
  "DefaultDHCPConfig = \<lparr>dcfg_ServerIP = ''172.16.0.1'', dcfg_Subnet = ''172.16.0.0/24'',
     dcfg_RangeStart = ''172.16.0.100'', dcfg_RangeEnd = ''172.16.0.200'', dcfg_Gateway = ''172.16.0.1'',
     dcfg_DNS = [''8.8.8.8'', ''8.8.4.4''], dcfg_LeaseDuration = 24 * 3600 * second,
     dcfg_Interface = ''tent0''\<rparr>"

definition NewDHCPServer ::
  "(string \<Rightarrow> ip option) \<Rightarrow> (string \<Rightarrow> IPNet option) \<Rightarrow> DHCPServerConfig option \<Rightarrow> dhcp_error + DHCPServer"
where
  "NewDHCPServer parse_ip parse_cidr cfg0 =
     (let cfg = (case cfg0 of None \<Rightarrow> DefaultDHCPConfig | Some c \<Rightarrow> c)
      in case parse_ip (dcfg_ServerIP cfg) of
           None \<Rightarrow> Inl (DhcpInvalidServerIP (dcfg_ServerIP cfg))
         | Some serverIP \<Rightarrow>
      (case parse_cidr (dcfg_Subnet cfg) of
           None \<Rightarrow> Inl DhcpInvalidSubnet
         | Some subnet \<Rightarrow>
      (case parse_ip (dcfg_RangeStart cfg) of
           None \<Rightarrow> Inl (DhcpInvalidRangeStart (dcfg_RangeStart cfg))
         | Some rangeStart \<Rightarrow>
      (case parse_ip (dcfg_RangeEnd cfg) of
           None \<Rightarrow> Inl (DhcpInvalidRangeEnd (dcfg_RangeEnd cfg))
         | Some rangeEnd \<Rightarrow>
             Inr \<lparr>ds_serverIP = serverIP, ds_subnet = subnet,
                  ds_gateway = (case parse_ip (dcfg_Gateway cfg) of None \<Rightarrow> serverIP | Some g \<Rightarrow> g),
                  ds_dns = List.map_filter parse_ip (dcfg_DNS cfg),
                  ds_rangeStart = rangeStart, ds_rangeEnd = rangeEnd,
                  ds_leaseDur = (if dcfg_LeaseDuration cfg = 0 then 24 * 3600 * second else dcfg_LeaseDuration cfg),
                  ds_leases = [], ds_vmMACs = [], ds_nextIP = rangeStart,
                  ds_iface = dcfg_Interface cfg, ds_stopped = False\<rparr>))))"

subsection \<open>Virtual machines and leases\<close>

definition RegisterVM :: "string \<Rightarrow> bytes \<Rightarrow> DHCPServer \<Rightarrow> DHCPServer" where
  "RegisterVM vmName mac s = s\<lparr>ds_vmMACs := AList.update vmName mac (ds_vmMACs s)\<rparr>"

definition UnregisterVM :: "string \<Rightarrow> DHCPServer \<Rightarrow> DHCPServer" where
  "UnregisterVM vmName s =
     (case map_of (ds_vmMACs s) vmName of
        None \<Rightarrow> s
      | Some mac \<Rightarrow> s\<lparr>ds_leases := AList.delete mac (ds_leases s),
                      ds_vmMACs := AList.delete vmName (ds_vmMACs s)\<rparr>)"

definition GetVMIP :: "string \<Rightarrow> DHCPServer \<Rightarrow> dhcp_error + ip" where
  "GetVMIP vmName s =
     (case map_of (ds_vmMACs s) vmName of
        None \<Rightarrow> Inl (DhcpNotRegistered vmName)
      | Some mac \<Rightarrow> (case map_of (ds_leases s) mac of
                       None \<Rightarrow> Inl (DhcpNoLease vmName)
                     | Some lease \<Rightarrow> Inr (dl_IP lease)))"

definition GetLeases :: "int \<Rightarrow> DHCPServer \<Rightarrow> DHCPLease list" where
  "GetLeases now s = filter (\<lambda>l. dl_ExpiresAt l > now) (map snd (ds_leases s))"

definition vmNameForMAC :: "bytes \<Rightarrow> DHCPServer \<Rightarrow> string" where
  "vmNameForMAC mac s = (case find (\<lambda>(name, m). m = mac) (ds_vmMACs s) of None \<Rightarrow> [] | Some (name, _) \<Rightarrow> name)"

definition used_ips :: "int \<Rightarrow> DHCPServer \<Rightarrow> ip set" where
  "used_ips now s = set (map dl_IP (filter (\<lambda>l. dl_ExpiresAt l > now) (map snd (ds_leases s))))"

text \<open>
  The scan: \<open>i\<close> counts from 0 to \<open>end - start\<close> in 32-bit arithmetic; \<open>left\<close> is the number
  of rounds still allowed by that bound.
\<close>

fun scan_ip :: "ip \<Rightarrow> ip \<Rightarrow> ip \<Rightarrow> ip set \<Rightarrow> u32 \<Rightarrow> nat \<Rightarrow> ip option" where
  "scan_ip start rend cur used i 0 = None"
| "scan_ip start rend cur used i (Suc left) =
     (let candidate = start + ((cur - start + i) mod (rend - start + 1))
      in if candidate \<notin> used then Some candidate
         else scan_ip start rend cur used (i + 1) left)"

definition allocateIP :: "int \<Rightarrow> DHCPServer \<Rightarrow> DHCPServer \<times> (dhcp_error + ip option)" where
  "allocateIP now s =
     (let start = ds_rangeStart s;
          rend = ds_rangeEnd s
      in if rend - start + 1 = 0 then (s, Inl DhcpDivideByZero)
         else case scan_ip start rend (ds_nextIP s) (used_ips now s) 0 (unat (rend - start) + 1) of
                None \<Rightarrow> (s, Inr None)
              | Some candidate \<Rightarrow>
                  let nextIP = candidate + 1
                  in (s\<lparr>ds_nextIP := (if nextIP > rend then ds_rangeStart s else nextIP)\<rparr>,
                      Inr (Some candidate)))"

subsection \<open>Packets\<close>

definition magic_cookie :: bytes where "magic_cookie = [99, 130, 83, 99]"

definition parseDHCPPacket :: "bytes \<Rightarrow> bytes option" where
  "parseDHCPPacket dat =
     (if length dat < 240 then None
      else if dat ! 236 \<noteq> 99 \<or> dat ! 237 \<noteq> 130 \<or> dat ! 238 \<noteq> 83 \<or> dat ! 239 \<noteq> 99 then None
      else Some dat)"

definition clientMAC :: "bytes \<Rightarrow> bytes" where
  "clientMAC p =
     (let hlen = unat (p ! 2);
          hlen = (if hlen > 16 then 16 else hlen)
      in gslice 28 (28 + hlen) p)"

definition ciaddr :: "bytes \<Rightarrow> ip" where
  "ciaddr p = get_be (gslice 12 16 p)"

function find_option :: "byte \<Rightarrow> bytes \<Rightarrow> bytes" where
  "find_option code [] = []"
| "find_option code (c # rest) =
     (if c = OptEnd then []
      else if c = 0 then find_option code rest
      else case rest of
             [] \<Rightarrow> []
           | n # vs \<Rightarrow>
               if length vs < unat n then []
               else if c = code then take (unat n) vs
               else find_option code (drop (unat n) vs))"
  by pat_completeness auto
termination by (relation "measure (\<lambda>(code, opts). length opts)") auto

declare find_option.simps(2) [simp del]

definition getOption :: "bytes \<Rightarrow> byte \<Rightarrow> bytes" where
  "getOption p optCode = (if length p \<le> 240 then [] else find_option optCode (drop 240 p))"

definition opt :: "byte \<Rightarrow> bytes \<Rightarrow> bytes" where
  "opt code val = code # of_nat (length val) # val"

definition response_options :: "DHCPServer \<Rightarrow> byte \<Rightarrow> ip option \<Rightarrow> bytes" where
  "response_options s msgType offerIP =
     opt OptMessageType [msgType] @ opt OptServerIdentifier (put_be 4 (ds_serverIP s)) @
     (case offerIP of
        None \<Rightarrow> []
      | Some _ \<Rightarrow>
          opt OptLeaseTime (put_be 4 (word_of_int (ds_leaseDur s div second) :: u32)) @
          opt OptSubnetMask (put_be 4 (net_Mask (ds_subnet s))) @
          opt OptRouter (put_be 4 (ds_gateway s)) @
          (if ds_dns s \<noteq> [] then opt OptDNS (concat (map (put_be 4) (ds_dns s))) else [])) @
     [OptEnd]"

definition buildResponse :: "DHCPServer \<Rightarrow> bytes \<Rightarrow> byte \<Rightarrow> ip option \<Rightarrow> dhcp_error + bytes" where
  "buildResponse s req msgType offerIP =
     (let opts = response_options s msgType offerIP
      in if length opts > 576 - 240 then Inl DhcpIndexOutOfRange
         else Inr ([2, 1, 6, 0] @ gslice 4 8 req @ [0, 0] @ gslice 10 12 req @ [0, 0, 0, 0] @
                   (case offerIP of None \<Rightarrow> [0, 0, 0, 0] | Some a \<Rightarrow> put_be 4 a) @
                   put_be 4 (ds_serverIP s) @ [0, 0, 0, 0] @ gslice 28 44 req @
                   replicate 192 0 @ magic_cookie @ opts))"

subsection \<open>Handlers\<close>

type_synonym dhcp_reply = "dhcp_error + bytes option"

definition handleDiscover :: "int \<Rightarrow> bytes \<Rightarrow> DHCPServer \<Rightarrow> DHCPServer \<times> dhcp_reply" where
  "handleDiscover now pkt s =
     (let mac = clientMAC pkt
      in case (case map_of (ds_leases s) mac of
                 Some lease \<Rightarrow> (s, Inr (Some (dl_IP lease)))
               | None \<Rightarrow> allocateIP now s) of
           (s, Inl e) \<Rightarrow> (s, Inl e)
         | (s, Inr None) \<Rightarrow> (s, Inr None)
         | (s, Inr (Some offerIP)) \<Rightarrow> (s, map_sum id Some (buildResponse s pkt DHCPOffer (Some offerIP))))"

definition requested_ip :: "bytes \<Rightarrow> ip" where
  "requested_ip pkt =
     (let o50 = getOption pkt OptRequestedIP
      in if length o50 \<noteq> 4 then ciaddr pkt else get_be o50)"

definition ip_taken :: "int \<Rightarrow> bytes \<Rightarrow> ip \<Rightarrow> DHCPServer \<Rightarrow> bool" where
  "ip_taken now mac a s =
     list_ex (\<lambda>(otherMAC, lease). otherMAC \<noteq> mac \<and> dl_IP lease = a \<and> dl_ExpiresAt lease > now) (ds_leases s)"

definition handleRequest :: "int \<Rightarrow> bytes \<Rightarrow> DHCPServer \<Rightarrow> DHCPServer \<times> dhcp_reply" where
  "handleRequest now pkt s =
     (let mac = clientMAC pkt;
          requestedIP = requested_ip pkt;
          nak = (s, map_sum id Some (buildResponse s pkt DHCPNak None))
      in if requestedIP = 0 then nak
         else if \<not> net_contains (ds_subnet s) requestedIP then nak
         else if ip_taken now mac requestedIP s then nak
         else let s' = s\<lparr>ds_leases := AList.update mac
                     \<lparr>dl_MAC = mac, dl_IP = requestedIP, dl_Hostname = getOption pkt OptHostname,
                      dl_ExpiresAt = now + ds_leaseDur s, dl_VMName = vmNameForMAC mac s\<rparr> (ds_leases s)\<rparr>
              in (s', map_sum id Some (buildResponse s' pkt DHCPAck (Some requestedIP))))"

definition handleRelease :: "bytes \<Rightarrow> DHCPServer \<Rightarrow> DHCPServer" where
  "handleRelease pkt s = s\<lparr>ds_leases := AList.delete (clientMAC pkt) (ds_leases s)\<rparr>"

definition handlePacket :: "int \<Rightarrow> bytes \<Rightarrow> DHCPServer \<Rightarrow> DHCPServer \<times> dhcp_reply" where
  "handlePacket now pkt s =
     (case getOption pkt OptMessageType of
        [] \<Rightarrow> (s, Inr None)
      | t # _ \<Rightarrow>
          if t = DHCPDiscover then handleDiscover now pkt s
          else if t = DHCPRequest then handleRequest now pkt s
          else if t = DHCPRelease then (handleRelease pkt s, Inr None)
          else (s, Inr None))"

text \<open>One datagram of the serving loop: parse, handle, and the bytes to send.\<close>

definition serve_one :: "int \<Rightarrow> bytes \<Rightarrow> DHCPServer \<Rightarrow> DHCPServer \<times> dhcp_reply" where
  "serve_one now buf s =
     (if length buf < 240 then (s, Inr None)
      else case parseDHCPPacket buf of
             None \<Rightarrow> (s, Inr None)
           | Some pkt \<Rightarrow> handlePacket now pkt s)"

end
