(* ===== verification/DhcpClaims.thy ===== *)
theory DhcpClaims
  imports Dhcp
begin

text \<open>
  Lemmas and properties of the DHCP server: the allocator is complete and stays in its pool,
  no two clients hold unexpired leases of one address in any run, the offer/request exchange
  ends with the offered address, and replies carry the options they were built from.
\<close>

subsection \<open>The allocator\<close>

definition pool_ok :: "DHCPServer \<Rightarrow> bool" where
  "pool_ok s \<longleftrightarrow> ds_rangeStart s \<le> ds_rangeEnd s \<and> unat (ds_rangeEnd s - ds_rangeStart s) < 2 ^ 31 \<and>
     ds_rangeEnd s \<noteq> -1 \<and> ds_rangeStart s \<le> ds_nextIP s \<and> ds_nextIP s \<le> ds_rangeEnd s"

definition candidate :: "ip \<Rightarrow> ip \<Rightarrow> ip \<Rightarrow> u32 \<Rightarrow> ip" where
  "candidate start rend cur i = start + ((cur - start + i) mod (rend - start + 1))"

lemma scan_None:
  "scan_ip start rend cur used i n = None \<longleftrightarrow> (\<forall>k<n. candidate start rend cur (i + of_nat k) \<in> used)"
proof (induction n arbitrary: i)
  case (Suc n)
  have "(\<forall>k<Suc n. P k) \<longleftrightarrow> P 0 \<and> (\<forall>k<n. P (Suc k))" for P
    by (metis less_Suc_eq_0_disj)
  then show ?case using Suc [of "i + 1"]
    by (auto simp: candidate_def Let_def add.assoc)
qed simp

lemma scan_Some:
  "scan_ip start rend cur used i n = Some a \<Longrightarrow>
   a \<notin> used \<and> (\<exists>k<n. a = candidate start rend cur (i + of_nat k))"
proof (induction n arbitrary: i)
  case (Suc n)
  show ?case
  proof (cases "candidate start rend cur i \<in> used")
    case True
    then have "scan_ip start rend cur used (i + 1) n = Some a"
      using Suc.prems by (simp add: candidate_def Let_def)
    from Suc.IH [OF this] obtain k where "a \<notin> used" "k < n" "a = candidate start rend cur (i + 1 + of_nat k)"
      by blast
    then show ?thesis by (intro conjI exI [of _ "Suc k"]) (simp_all add: add.assoc)
  next
    case False
    then show ?thesis using Suc.prems
      by (auto simp: candidate_def Let_def intro!: exI [of _ 0])
  qed
qed simp

lemma unat_minus: "(a :: u32) \<le> b \<Longrightarrow> unat (b - a) = unat b - unat a"
  by (simp add: unat_sub word_le_nat_alt)

lemma unat_less_u32: "unat (x :: u32) < 2 ^ 32"
  using unsigned_less [of x] by simp

lemma unat_add_small: "unat (x :: u32) + unat y < 2 ^ 32 \<Longrightarrow> unat (x + y) = unat x + unat y"
  by (simp add: unat_word_ariths)

lemma unat_width: "unat (n :: u32) < 2 ^ 31 \<Longrightarrow> unat (n + 1) = unat n + 1"
  by (simp add: unat_word_ariths)

lemma unat_range: "(start :: u32) \<le> rend \<Longrightarrow> unat start + unat (rend - start) = unat rend"
  by (simp add: unat_minus word_le_nat_alt)

lemma candidate_unat:
  assumes "start \<le> rend" and "unat (rend - start) < 2 ^ 31" and "start \<le> cur" and "cur \<le> rend"
    and "k \<le> unat (rend - start)"
  shows "unat (candidate start rend cur (of_nat k)) =
    unat start + (unat (cur - start) + k) mod (unat (rend - start) + 1)"
proof -
  let ?n = "unat (rend - start)"
  have n1: "unat (rend - start + 1) = ?n + 1" using unat_width [OF assms(2)] .
  have cur: "unat (cur - start) \<le> ?n"
    using assms(1,3,4) by (simp add: unat_minus word_le_nat_alt)
  have "unat (cur - start + of_nat k) = unat (cur - start) + k"
    using cur assms(2,5) by (simp add: unat_word_ariths unat_of_nat take_bit_nat_eq_self)
  then have off: "unat ((cur - start + of_nat k) mod (rend - start + 1)) = (unat (cur - start) + k) mod (?n + 1)"
    by (simp add: unat_mod n1)
  have "(unat (cur - start) + k) mod (?n + 1) \<le> ?n" by (simp add: less_Suc_eq_le [symmetric])
  then have "unat start + unat ((cur - start + of_nat k) mod (rend - start + 1)) < 2 ^ 32"
    unfolding off using unat_less_u32 [of rend] unat_range [OF assms(1)] by linarith
  from unat_add_small [OF this] show ?thesis unfolding candidate_def off .
qed

lemma candidate_range:
  assumes "start \<le> rend" and "unat (rend - start) < 2 ^ 31" and "start \<le> cur" and "cur \<le> rend"
    and "k \<le> unat (rend - start)"
  shows "start \<le> candidate start rend cur (of_nat k)" and "candidate start rend cur (of_nat k) \<le> rend"
proof -
  have "(unat (cur - start) + k) mod (unat (rend - start) + 1) \<le> unat (rend - start)"
    by (simp add: less_Suc_eq_le [symmetric])
  then show "start \<le> candidate start rend cur (of_nat k)" "candidate start rend cur (of_nat k) \<le> rend"
    unfolding word_le_nat_alt using candidate_unat [OF assms] unat_range [OF assms(1)] by linarith+
qed

lemma candidate_surj:
  assumes "start \<le> rend" and "unat (rend - start) < 2 ^ 31" and "start \<le> cur" and "cur \<le> rend"
    and "start \<le> a" and "a \<le> rend"
  shows "\<exists>k \<le> unat (rend - start). a = candidate start rend cur (of_nat k)"
proof -
  let ?N = "unat (rend - start) + 1" and ?u = "unat (cur - start)" and ?o = "unat (a - start)"
  have u: "?u < ?N" and ob: "?o < ?N"
    using assms by (auto simp: unat_minus word_le_nat_alt)
  define k where "k = (?o + ?N - ?u) mod ?N"
  have k: "k \<le> unat (rend - start)" by (simp add: k_def less_Suc_eq_le [symmetric])
  have "(?u + k) mod ?N = (?u + (?o + ?N - ?u)) mod ?N" unfolding k_def by (simp only: mod_add_right_eq)
  also have "?u + (?o + ?N - ?u) = ?o + ?N" using u by simp
  also have "(?o + ?N) mod ?N = ?o" using mod_less [OF ob] by (simp only: mod_add_self2)
  finally have "unat (candidate start rend cur (of_nat k)) = unat start + ?o"
    using candidate_unat [OF assms(1-4) k] by simp
  also have "\<dots> = unat a" using assms(5) by (simp add: unat_minus word_le_nat_alt)
  finally show ?thesis using k by (metis word_unat_eq_iff)
qed

lemma allocateIP_result:
  assumes "pool_ok s" and "allocateIP now s = (s', r)"
  shows "(r = Inr None \<and> s' = s \<and> {ds_rangeStart s .. ds_rangeEnd s} \<subseteq> used_ips now s) \<or>
    (\<exists>a. r = Inr (Some a) \<and> ds_rangeStart s \<le> a \<and> a \<le> ds_rangeEnd s \<and> a \<notin> used_ips now s \<and>
         s' = s\<lparr>ds_nextIP := ds_nextIP s'\<rparr> \<and> pool_ok s')"
proof -
  let ?st = "ds_rangeStart s" and ?en = "ds_rangeEnd s" and ?n = "unat (ds_rangeEnd s - ds_rangeStart s) + 1"
  have p: "?st \<le> ?en" "unat (?en - ?st) < 2 ^ 31" "?st \<le> ds_nextIP s" "ds_nextIP s \<le> ?en"
    and top: "?en \<noteq> -1"
    using assms(1) by (simp_all add: pool_ok_def)
  have nz: "?en - ?st + 1 \<noteq> 0"
    using unat_width [OF p(2)] by (metis Suc_eq_plus1 nat.distinct(1) unat_0)
  show ?thesis
  proof (cases "scan_ip ?st ?en (ds_nextIP s) (used_ips now s) 0 ?n")
    case None
    then have all: "\<forall>k<?n. candidate ?st ?en (ds_nextIP s) (0 + of_nat k) \<in> used_ips now s"
      unfolding scan_None .
    have "a \<in> used_ips now s" if a: "?st \<le> a" "a \<le> ?en" for a
    proof -
      obtain k where "k \<le> unat (?en - ?st)" "a = candidate ?st ?en (ds_nextIP s) (of_nat k)"
        using candidate_surj [OF p a] by blast
      then show ?thesis using all by simp
    qed
    then show ?thesis using None assms(2) nz by (auto simp: allocateIP_def Let_def)
  next
    case (Some a)
    obtain k where k: "a \<notin> used_ips now s" "k < ?n" "a = candidate ?st ?en (ds_nextIP s) (of_nat k)"
      using scan_Some [OF Some] by auto
    have range: "?st \<le> a" "a \<le> ?en"
      using candidate_range [OF p, of k] k by auto
    let ?next = "if a + 1 > ?en then ?st else a + 1"
    have s': "s' = s\<lparr>ds_nextIP := ?next\<rparr>" "r = Inr (Some a)"
      using Some assms(2) nz by (auto simp: allocateIP_def Let_def)
    have "a \<noteq> -1" using range(2) top by (auto simp: word_order.extremum_unique)
    then have "unat (a + 1) = unat a + 1" by (simp add: unat_Suc_word)
    then have "?st \<le> ?next \<and> ?next \<le> ?en"
      using range p(1) by (auto simp: word_le_nat_alt word_less_nat_alt)
    then show ?thesis using s' k(1) range p top by (auto simp: pool_ok_def)
  qed
qed

subsection \<open>Exclusive leases\<close>

definition held :: "int \<Rightarrow> DHCPServer \<Rightarrow> bytes \<Rightarrow> ip \<Rightarrow> bool" where
  "held now s m a \<longleftrightarrow> (case map_of (ds_leases s) m of None \<Rightarrow> False | Some l \<Rightarrow> dl_IP l = a \<and> dl_ExpiresAt l > now)"

definition lease_inv :: "int \<Rightarrow> DHCPServer \<Rightarrow> bool" where
  "lease_inv now s \<longleftrightarrow> distinct (map fst (ds_leases s)) \<and>
     (\<forall>m1 m2 a. held now s m1 a \<longrightarrow> held now s m2 a \<longrightarrow> m1 = m2) \<and>
     (\<forall>m l. map_of (ds_leases s) m = Some l \<longrightarrow> net_contains (ds_subnet s) (dl_IP l) \<and> dl_IP l \<noteq> 0 \<and> dl_MAC l = m)"

lemma held_cong: "ds_leases s' = ds_leases s \<Longrightarrow> held now s' = held now s"
  by (simp add: held_def fun_eq_iff)

lemma lease_inv_cong: "lease_inv now s \<Longrightarrow> ds_leases s' = ds_leases s \<Longrightarrow> ds_subnet s' = ds_subnet s \<Longrightarrow> lease_inv now s'"
  using held_cong [of s' s now] by (simp add: lease_inv_def)

lemma held_delete: "held now (s\<lparr>ds_leases := AList.delete m (ds_leases s)\<rparr>) x a \<longleftrightarrow> x \<noteq> m \<and> held now s x a"
  by (simp add: held_def delete_conv')

lemma lease_inv_delete: "lease_inv now s \<Longrightarrow> lease_inv now (s\<lparr>ds_leases := AList.delete m (ds_leases s)\<rparr>)"
  unfolding lease_inv_def held_delete by (simp add: delete_conv' distinct_delete) blast

lemma held_later: "held now' s m a \<Longrightarrow> now \<le> now' \<Longrightarrow> held now s m a"
  by (auto simp: held_def split: option.splits)

lemma lease_inv_later: "lease_inv now s \<Longrightarrow> now \<le> now' \<Longrightarrow> lease_inv now' s"
  unfolding lease_inv_def using held_later by blast

lemma not_taken:
  "\<not> ip_taken now mac a s \<Longrightarrow> held now s m a \<Longrightarrow> m = mac"
  by (auto simp: ip_taken_def list_ex_iff held_def split: option.splits dest!: map_of_SomeD)

lemma held_update:
  "held now (s\<lparr>ds_leases := AList.update mac l (ds_leases s)\<rparr>) m b \<longleftrightarrow>
     (if m = mac then dl_IP l = b \<and> dl_ExpiresAt l > now else held now s m b)"
  by (simp add: held_def update_conv')

lemma lease_inv_grant:
  assumes "lease_inv now s" and "\<not> ip_taken now mac a s" and "net_contains (ds_subnet s) a" and "a \<noteq> 0"
    and "dl_IP l = a" and "dl_MAC l = mac"
  shows "lease_inv now (s\<lparr>ds_leases := AList.update mac l (ds_leases s)\<rparr>)"
  unfolding lease_inv_def held_update
proof (intro conjI allI impI)
  show "distinct (map fst (ds_leases (s\<lparr>ds_leases := AList.update mac l (ds_leases s)\<rparr>)))"
    using assms(1) by (simp add: lease_inv_def distinct_update)
next
  fix m1 m2 b
  assume "if m1 = mac then dl_IP l = b \<and> now < dl_ExpiresAt l else held now s m1 b"
    "if m2 = mac then dl_IP l = b \<and> now < dl_ExpiresAt l else held now s m2 b"
  then show "m1 = m2"
    using not_taken [OF assms(2)] assms(1,5) unfolding lease_inv_def by (metis (full_types))
next
  fix m l' assume "map_of (ds_leases (s\<lparr>ds_leases := AList.update mac l (ds_leases s)\<rparr>)) m = Some l'"
  then have l': "m = mac \<and> l' = l \<or> map_of (ds_leases s) m = Some l'"
    by (auto simp: update_conv' split: if_splits)
  show "net_contains (ds_subnet (s\<lparr>ds_leases := AList.update mac l (ds_leases s)\<rparr>)) (dl_IP l')"
    "dl_IP l' \<noteq> 0" "dl_MAC l' = m"
    using l' assms(1,3-6) by (auto simp: lease_inv_def)
qed

lemma allocateIP_leases: "allocateIP now s = (s', r) \<Longrightarrow> ds_leases s' = ds_leases s \<and> ds_subnet s' = ds_subnet s"
  by (auto simp: allocateIP_def Let_def split: if_splits option.splits)

lemma handleDiscover_leases:
  "handleDiscover now pkt s = (s', r) \<Longrightarrow> ds_leases s' = ds_leases s \<and> ds_subnet s' = ds_subnet s"
  by (auto simp: handleDiscover_def Let_def split: option.splits prod.splits sum.splits dest!: allocateIP_leases)

lemma handleRequest_inv: "lease_inv now s \<Longrightarrow> handleRequest now pkt s = (s', r) \<Longrightarrow> lease_inv now s'"
  by (auto simp: handleRequest_def Let_def lease_inv_grant split: if_splits)

lemma serve_one_inv: "lease_inv now s \<Longrightarrow> lease_inv now (fst (serve_one now buf s))"
proof -
  assume inv: "lease_inv now s"
  have "lease_inv now (fst (handlePacket now pkt s))" for pkt
  proof (cases "getOption pkt OptMessageType")
    case (Cons t rest)
    have "lease_inv now (fst (handleDiscover now pkt s))"
      using handleDiscover_leases [of now pkt s] lease_inv_cong [OF inv] by (metis prod.collapse)
    moreover have "lease_inv now (fst (handleRequest now pkt s))"
      using handleRequest_inv [OF inv] by (metis prod.collapse)
    ultimately show ?thesis
      using Cons inv by (simp add: handlePacket_def handleRelease_def lease_inv_delete)
  qed (simp add: handlePacket_def inv)
  then show ?thesis using inv by (simp add: serve_one_def split: option.splits)
qed

inductive dhcp_step :: "DHCPServer \<times> int \<Rightarrow> DHCPServer \<times> int \<Rightarrow> bool" where
  register: "dhcp_step (s, now) (RegisterVM name mac s, now)"
| unregister: "dhcp_step (s, now) (UnregisterVM name s, now)"
| datagram: "dhcp_step (s, now) (fst (serve_one now buf s), now)"
| tick: "now \<le> now' \<Longrightarrow> dhcp_step (s, now) (s, now')"

inductive dhcp_reachable :: "DHCPServer \<times> int \<Rightarrow> bool" where
  new: "NewDHCPServer parse_ip parse_cidr cfg = Inr s \<Longrightarrow> dhcp_reachable (s, now)"
| step: "dhcp_reachable x \<Longrightarrow> dhcp_step x y \<Longrightarrow> dhcp_reachable y"

lemma dhcp_step_inv: "dhcp_step x y \<Longrightarrow> lease_inv (snd x) (fst x) \<Longrightarrow> lease_inv (snd y) (fst y)"
proof (induction rule: dhcp_step.induct)
  case (unregister s now name)
  then show ?case
    by (auto simp: UnregisterVM_def intro: lease_inv_cong [OF lease_inv_delete] split: option.splits)
qed (auto simp: RegisterVM_def serve_one_inv intro: lease_inv_cong lease_inv_later)

lemma dhcp_reachable_inv: "dhcp_reachable x \<Longrightarrow> lease_inv (snd x) (fst x)"
proof (induction rule: dhcp_reachable.induct)
  case (new parse_ip parse_cidr cfg s now)
  then have "ds_leases s = []" by (auto simp: NewDHCPServer_def Let_def split: option.splits)
  then show ?case by (simp add: lease_inv_def held_def)
qed (rule dhcp_step_inv)

subsection \<open>Options of a reply\<close>

lemma find_option_opt:
  "c \<noteq> OptEnd \<Longrightarrow> c \<noteq> 0 \<Longrightarrow> length v < 256 \<Longrightarrow>
   find_option code (opt c v @ rest) = (if c = code then v else find_option code rest)"
  by (subst opt_def, subst append_Cons, subst find_option.simps(2))
     (simp add: unat_of_nat take_bit_nat_eq_self)

lemma find_option_end: "find_option code (OptEnd # rest) = []"
  by (subst find_option.simps(2)) simp

lemma length_opt [simp]: "length (opt c v) = 2 + length v"
  by (simp add: opt_def)

lemma length_dns: "length (concat (map (put_be 4) xs)) = 4 * length xs"
  by (induction xs) simp_all

lemma response_options_length:
  "length (response_options s ty None) = 10"
  "length (response_options s ty (Some a)) = (if ds_dns s = [] then 28 else 30 + 4 * length (ds_dns s))"
  by (simp_all add: response_options_def length_dns)

lemma buildResponse_Inr:
  assumes "buildResponse s req ty a = Inr resp" and "44 \<le> length req"
  shows "drop 240 resp = response_options s ty a" and "240 < length resp"
    and "parseDHCPPacket resp = Some resp" and "gslice 4 8 resp = gslice 4 8 req"
    and "gslice 16 20 resp = (case a of None \<Rightarrow> [0, 0, 0, 0] | Some x \<Rightarrow> put_be 4 x)"
    and "clientMAC resp = gslice 28 34 req"
proof -
  have len: "length (case a of None \<Rightarrow> [0, 0, 0, 0] | Some x \<Rightarrow> put_be 4 x) = 4" by (cases a) simp_all
  obtain y where y: "y = (case a of None \<Rightarrow> [0, 0, 0, 0] | Some x \<Rightarrow> put_be 4 x)" "length y = 4" using len by blast
  obtain x where x: "gslice 4 8 req = x" "length x = 4" using assms(2) by simp
  obtain fl where fl: "gslice 10 12 req = fl" "length fl = 2" using assms(2) by simp
  obtain ch where ch: "gslice 28 44 req = ch" "length ch = 16" using assms(2) by simp
  obtain si where si: "put_be 4 (ds_serverIP s) = si" "length si = 4" by simp
  have r: "resp = [2, 1, 6, 0] @ x @ [0, 0] @ fl @ [0, 0, 0, 0] @ y @ si @ [0, 0, 0, 0] @ ch @
      replicate 192 0 @ magic_cookie @ response_options s ty a"
    using assms(1) by (simp add: buildResponse_def Let_def x fl ch si y(1) split: if_splits)
  show "drop 240 resp = response_options s ty a"
    by (simp add: r x fl ch si y(2) magic_cookie_def)
  show "240 < length resp"
    by (simp add: r x fl ch si y(2) magic_cookie_def response_options_def)
  show "parseDHCPPacket resp = Some resp"
    by (simp add: r parseDHCPPacket_def x fl ch si y(2) magic_cookie_def nth_append)
  show "gslice 4 8 resp = gslice 4 8 req" unfolding x by (simp add: r gslice_def x)
  show "gslice 16 20 resp = (case a of None \<Rightarrow> [0, 0, 0, 0] | Some x \<Rightarrow> put_be 4 x)"
    unfolding y(1) [symmetric] by (simp add: r gslice_def x fl y(2))
  have "gslice 28 34 req = gslice 0 6 ch" unfolding ch(1) [symmetric] by (simp add: gslice_def drop_take)
  moreover have "gslice 28 34 resp = gslice 0 6 ch" by (simp add: r gslice_def x fl y(2) si ch)
  moreover have "resp ! 2 = 6" by (simp add: r)
  ultimately show "clientMAC resp = gslice 28 34 req" by (simp add: clientMAC_def)
qed

lemma getOption_reply:
  assumes "buildResponse s req ty a = Inr resp" and "44 \<le> length req"
  shows "getOption resp code = find_option code (response_options s ty a)"
  using buildResponse_Inr(1,2) [OF assms] by (simp add: getOption_def)

text \<open>The properties of the DHCP server and an example server with a pool of two addresses.\<close>

definition demo_dhcp :: DHCPServer where
  "demo_dhcp = \<lparr>ds_serverIP = 1, ds_subnet = \<lparr>net_IP = 0, net_Mask = 0xFFFFFF00\<rparr>, ds_gateway = 1,
     ds_dns = [8], ds_rangeStart = 100, ds_rangeEnd = 101, ds_leaseDur = 60 * second, ds_leases = [],
     ds_vmMACs = [(''vm'', [1, 2, 3, 4, 5, 6])], ds_nextIP = 100, ds_iface = ''tent0'', ds_stopped = False\<rparr>"

definition demo_packet :: "byte \<Rightarrow> bytes \<Rightarrow> bytes" where
  "demo_packet ty opts = [1, 1, 6, 0] @ replicate 24 0 @ [1, 2, 3, 4, 5, 6] @ replicate 202 0 @ magic_cookie @
     opt OptMessageType [ty] @ opts @ [OptEnd]"

lemma demo_packet_simps:
  "clientMAC (demo_packet ty opts) = [1, 2, 3, 4, 5, 6]"
  "drop 240 (demo_packet ty opts) = opt OptMessageType [ty] @ opts @ [OptEnd]"
  "length (demo_packet ty opts) = 244 + length opts"
  by (simp_all add: demo_packet_def clientMAC_def magic_cookie_def gslice_def nth_append)

lemma demo_pool: "pool_ok demo_dhcp"
  by (simp add: pool_ok_def demo_dhcp_def)

text \<open>
  On a pool of at most \<open>2 ^ 31\<close> addresses the allocator returns an address of the pool
  that no unexpired lease holds, and leaves the leases alone; it fails only when every
  address of the pool is held, and it keeps its scan position inside the pool.
\<close>
theorem dhcp_allocation:
  assumes "pool_ok s" and "allocateIP now s = (s', r)"
  shows "ds_leases s' = ds_leases s \<and> pool_ok s' \<and>
    (case r of Inl _ \<Rightarrow> False
     | Inr None \<Rightarrow> \<forall>a. ds_rangeStart s \<le> a \<longrightarrow> a \<le> ds_rangeEnd s \<longrightarrow> (\<exists>m l. (m, l) \<in> set (ds_leases s) \<and> dl_IP l = a \<and> now < dl_ExpiresAt l)
     | Inr (Some a) \<Rightarrow> ds_rangeStart s \<le> a \<and> a \<le> ds_rangeEnd s \<and>
         (\<forall>(m, l) \<in> set (ds_leases s). dl_IP l = a \<longrightarrow> dl_ExpiresAt l \<le> now))"
proof -
  have used: "a \<in> used_ips now s \<longleftrightarrow> (\<exists>m l. (m, l) \<in> set (ds_leases s) \<and> dl_IP l = a \<and> now < dl_ExpiresAt l)" for a
    by (force simp: used_ips_def)
  from allocateIP_result [OF assms] show ?thesis
  proof
    assume "r = Inr None \<and> s' = s \<and> {ds_rangeStart s .. ds_rangeEnd s} \<subseteq> used_ips now s"
    then show ?thesis using assms(1) used by auto
  next
    assume "\<exists>a. r = Inr (Some a) \<and> ds_rangeStart s \<le> a \<and> a \<le> ds_rangeEnd s \<and> a \<notin> used_ips now s \<and>
         s' = s\<lparr>ds_nextIP := ds_nextIP s'\<rparr> \<and> pool_ok s'"
    then show ?thesis using used allocateIP_leases [OF assms(2)] by (auto simp: not_less)
  qed
qed

lemma dhcp_allocation_witness:
  "\<exists>s' a. allocateIP 0 demo_dhcp = (s', Inr (Some a)) \<and> 100 \<le> a \<and> a \<le> 101"
proof -
  obtain s' r where r: "allocateIP 0 demo_dhcp = (s', r)" by force
  have "ds_rangeStart demo_dhcp = 100" "ds_rangeEnd demo_dhcp = 101" "ds_leases demo_dhcp = []"
    by (simp_all add: demo_dhcp_def)
  then show ?thesis using dhcp_allocation [OF demo_pool r] r
    by (auto split: sum.splits option.splits dest: spec [of _ 100])
qed

text \<open>
  C36: Whatever datagrams arrive, in whatever order, and however time passes between them, no
  two clients hold unexpired leases of the same address, and every leased address lies in
  the served subnet.
\<close>
theorem dhcp_leases_exclusive:
  assumes "dhcp_reachable (s, now)"
    and "(m1, l1) \<in> set (ds_leases s)" and "(m2, l2) \<in> set (ds_leases s)"
    and "dl_IP l1 = dl_IP l2" and "now < dl_ExpiresAt l1" and "now < dl_ExpiresAt l2"
  shows "m1 = m2 \<and> l1 = l2 \<and> net_contains (ds_subnet s) (dl_IP l1)"
proof -
  have inv: "lease_inv now s" using dhcp_reachable_inv [OF assms(1)] by simp
  then have l: "map_of (ds_leases s) m1 = Some l1" "map_of (ds_leases s) m2 = Some l2"
    using assms(2,3) by (simp_all add: lease_inv_def)
  then have "held now s m1 (dl_IP l1)" "held now s m2 (dl_IP l1)"
    using assms(4-6) by (simp_all add: held_def)
  then have "m1 = m2" using inv unfolding lease_inv_def by blast
  then show ?thesis using l inv by (auto simp: lease_inv_def)
qed

definition demo_ips :: "string \<Rightarrow> ip option" where
  "demo_ips t = (if t = ''lo'' then Some 100 else if t = ''hi'' then Some 101 else if t = ''gw'' then Some 1
                 else if t = ''dns'' then Some 8 else None)"

definition demo_dhcp_cfg :: DHCPServerConfig where
  "demo_dhcp_cfg = \<lparr>dcfg_ServerIP = ''gw'', dcfg_Subnet = ''net'', dcfg_RangeStart = ''lo'', dcfg_RangeEnd = ''hi'',
     dcfg_Gateway = ''gw'', dcfg_DNS = [''dns''], dcfg_LeaseDuration = 60 * second, dcfg_Interface = ''tent0''\<rparr>"

lemma demo_dhcp_reachable: "dhcp_reachable (demo_dhcp, 0)"
proof -
  have "NewDHCPServer demo_ips (\<lambda>_. Some \<lparr>net_IP = 0, net_Mask = 0xFFFFFF00\<rparr>) (Some demo_dhcp_cfg) =
      Inr (demo_dhcp\<lparr>ds_vmMACs := []\<rparr>)"
    by (simp add: NewDHCPServer_def demo_dhcp_cfg_def demo_ips_def demo_dhcp_def List.map_filter_simps second_def)
  then have "dhcp_reachable (demo_dhcp\<lparr>ds_vmMACs := []\<rparr>, 0)" by (rule dhcp_reachable.new)
  then have "dhcp_reachable (RegisterVM ''vm'' [1, 2, 3, 4, 5, 6] (demo_dhcp\<lparr>ds_vmMACs := []\<rparr>), 0)"
    by (rule dhcp_reachable.step) (rule dhcp_step.register)
  then show ?thesis by (simp add: RegisterVM_def demo_dhcp_def)
qed

lemma demo_granted:
  "\<exists>s. dhcp_reachable (s, 0) \<and> ds_leases s = [([1, 2, 3, 4, 5, 6], \<lparr>dl_MAC = [1, 2, 3, 4, 5, 6], dl_IP = 100,
     dl_Hostname = [], dl_ExpiresAt = 60 * second, dl_VMName = ''vm''\<rparr>)] \<and> ds_subnet s = ds_subnet demo_dhcp"
proof -
  let ?p = "demo_packet DHCPRequest (opt OptRequestedIP (put_be 4 (100 :: u32)))"
  have o: "getOption ?p OptRequestedIP = put_be 4 (100 :: u32)" "getOption ?p OptHostname = []"
    "getOption ?p OptMessageType = [DHCPRequest]"
    using find_option_end [unfolded dhcp_opts]
    by (simp_all add: getOption_def demo_packet_simps find_option_opt dhcp_opts)
  have req: "requested_ip ?p = 100" by (simp add: requested_ip_def o get_put_be)
  have parse: "parseDHCPPacket ?p = Some ?p"
    by (simp add: parseDHCPPacket_def demo_packet_def magic_cookie_def nth_append)
  have neq: "DHCPRequest \<noteq> DHCPDiscover" by (simp add: dhcp_msgs)
  have grant: "ds_leases (fst (serve_one 0 ?p demo_dhcp)) = [([1, 2, 3, 4, 5, 6], \<lparr>dl_MAC = [1, 2, 3, 4, 5, 6],
      dl_IP = 100, dl_Hostname = [], dl_ExpiresAt = 60 * second, dl_VMName = ''vm''\<rparr>)]"
    "ds_subnet (fst (serve_one 0 ?p demo_dhcp)) = ds_subnet demo_dhcp"
    using neq
    by (simp_all add: serve_one_def parse handlePacket_def o handleRequest_def req demo_packet_simps Let_def)
      (simp_all add: demo_dhcp_def net_contains_def ip_taken_def vmNameForMAC_def)
  then show ?thesis
    using dhcp_reachable.step [OF demo_dhcp_reachable dhcp_step.datagram [of demo_dhcp 0 ?p]] by blast
qed

lemma dhcp_leases_exclusive_witness:
  "\<exists>s m l. dhcp_reachable (s, 0) \<and> (m, l) \<in> set (ds_leases s) \<and> net_contains (ds_subnet s) (dl_IP l)"
proof -
  obtain s where s: "dhcp_reachable (s, 0)" "ds_leases s = [([1, 2, 3, 4, 5, 6], \<lparr>dl_MAC = [1, 2, 3, 4, 5, 6], dl_IP = 100,
     dl_Hostname = [], dl_ExpiresAt = 60 * second, dl_VMName = ''vm''\<rparr>)]"
    using demo_granted by blast
  let ?l = "\<lparr>dl_MAC = [1, 2, 3, 4, 5, 6], dl_IP = 100, dl_Hostname = [], dl_ExpiresAt = 60 * second, dl_VMName = ''vm''\<rparr>"
  have m: "([1, 2, 3, 4, 5, 6], ?l) \<in> set (ds_leases s)" "0 < dl_ExpiresAt ?l" using s(2) by (simp_all add: second_def)
  from dhcp_leases_exclusive [OF s(1) m(1) m(1) refl m(2) m(2)] s(1) m(1) show ?thesis by blast
qed

lemma handleDiscover_fresh:
  assumes "map_of (ds_leases s) (clientMAC d) = None"
    and "handleDiscover now d s = (s1, Inr (Some offer))"
  obtains a where "allocateIP now s = (s1, Inr (Some a))" "buildResponse s1 d DHCPOffer (Some a) = Inr offer"
proof -
  obtain s0 r where r: "allocateIP now s = (s0, r)" by force
  obtain a where a: "r = Inr (Some a)"
    using assms r by (cases r rule: sum.exhaust; cases "projr r") (auto simp: handleDiscover_def Let_def)
  obtain resp where b: "buildResponse s0 d DHCPOffer (Some a) = Inr resp"
    using assms r a by (cases "buildResponse s0 d DHCPOffer (Some a)") (auto simp: handleDiscover_def Let_def)
  show ?thesis using that [of a] assms r a b by (simp add: handleDiscover_def Let_def)
qed

text \<open>
  A client without a lease that discovers and then requests what it was offered gets it:
  the offer carries an address of the pool, the request for it is acknowledged with the same
  address, and the address can then be looked up under the VM's name. (The pool lies in the
  subnet, the DNS list fits a packet.)
\<close>
theorem dhcp_offer_then_ack:
  assumes "pool_ok s" and "map_of (ds_leases s) (clientMAC d) = None" and "length (ds_dns s) \<le> 63"
    and "\<And>a. ds_rangeStart s \<le> a \<Longrightarrow> a \<le> ds_rangeEnd s \<Longrightarrow> net_contains (ds_subnet s) a \<and> a \<noteq> 0"
    and "240 \<le> length d" and "240 \<le> length q" and "clientMAC q = clientMAC d"
    and "handleDiscover now d s = (s1, Inr (Some offer))"
    and "getOption q OptRequestedIP = gslice 16 20 offer"
    and "map_of (ds_vmMACs s) name = Some (clientMAC d)"
  shows "\<exists>a s2 ack. gslice 16 20 offer = put_be 4 a \<and> ds_rangeStart s \<le> a \<and> a \<le> ds_rangeEnd s \<and>
    getOption offer OptMessageType = [DHCPOffer] \<and>
    handleRequest now q s1 = (s2, Inr (Some ack)) \<and> getOption ack OptMessageType = [DHCPAck] \<and>
    gslice 16 20 ack = put_be 4 a \<and> GetVMIP name s2 = Inr a"
proof -
  obtain a where alloc: "allocateIP now s = (s1, Inr (Some a))"
    and offer: "buildResponse s1 d DHCPOffer (Some a) = Inr offer"
    using assms(2,8) by (rule handleDiscover_fresh)
  obtain n where a: "ds_rangeStart s \<le> a" "a \<le> ds_rangeEnd s" "a \<notin> used_ips now s"
    and s1: "s1 = s\<lparr>ds_nextIP := n\<rparr>"
    using allocateIP_result [OF assms(1) alloc] by auto
  have yi: "gslice 16 20 offer = put_be 4 a"
    using buildResponse_Inr(5) [OF offer] assms(5) by simp
  have msg: "getOption r OptMessageType = [t]" if "buildResponse z p t (Some a) = Inr r" "240 \<le> length p" for z p t r
    using getOption_reply [OF that(1), of OptMessageType] that(2)
    by (simp add: response_options_def find_option_opt dhcp_opts)
  have req: "requested_ip q = a"
    using assms(9) yi by (simp add: requested_ip_def get_put_be)
  have free: "\<not> ip_taken now (clientMAC q) a s1"
    using a(3) by (force simp: s1 ip_taken_def list_ex_iff used_ips_def)
  have subnet: "net_contains (ds_subnet s1) a" "a \<noteq> 0"
    using assms(4) [OF a(1,2)] by (simp_all add: s1)
  let ?l = "\<lparr>dl_MAC = clientMAC q, dl_IP = a, dl_Hostname = getOption q OptHostname,
    dl_ExpiresAt = now + ds_leaseDur s1, dl_VMName = vmNameForMAC (clientMAC q) s1\<rparr>"
  let ?s2 = "s1\<lparr>ds_leases := AList.update (clientMAC q) ?l (ds_leases s1)\<rparr>"
  have "length (response_options ?s2 DHCPAck (Some a)) \<le> 576 - 240"
    using assms(3) by (simp add: response_options_length s1)
  then obtain ack where ack: "buildResponse ?s2 q DHCPAck (Some a) = Inr ack"
    by (auto simp: buildResponse_def Let_def)
  have hr: "handleRequest now q s1 = (?s2, Inr (Some ack))"
    using req subnet free ack by (simp add: handleRequest_def Let_def)
  have "GetVMIP name ?s2 = Inr a"
    using assms(7,10) by (simp add: GetVMIP_def s1 update_conv')
  moreover have "gslice 16 20 ack = put_be 4 a"
    using buildResponse_Inr(5) [OF ack] assms(6) by simp
  ultimately show ?thesis
    using yi a(1,2) msg [OF offer assms(5)] msg [OF ack assms(6)] hr by blast
qed

lemma demo_discover:
  "\<exists>s1 offer. handleDiscover 0 (demo_packet DHCPDiscover []) demo_dhcp = (s1, Inr (Some offer)) \<and>
     gslice 16 20 offer = put_be 4 (100 :: u32)"
proof -
  let ?d = "demo_packet DHCPDiscover []"
  have alloc: "allocateIP 0 demo_dhcp = (demo_dhcp\<lparr>ds_nextIP := 101\<rparr>, Inr (Some 100))"
    by (simp add: allocateIP_def demo_dhcp_def used_ips_def Let_def)
  have "length (response_options (demo_dhcp\<lparr>ds_nextIP := 101\<rparr>) DHCPOffer (Some 100)) \<le> 576 - 240"
    by (simp add: response_options_length demo_dhcp_def)
  then obtain offer where offer: "buildResponse (demo_dhcp\<lparr>ds_nextIP := 101\<rparr>) ?d DHCPOffer (Some 100) = Inr offer"
    by (auto simp: buildResponse_def Let_def)
  have "handleDiscover 0 ?d demo_dhcp = (demo_dhcp\<lparr>ds_nextIP := 101\<rparr>, Inr (Some offer))"
    using alloc offer by (simp add: handleDiscover_def Let_def) (simp add: demo_dhcp_def)
  moreover have "gslice 16 20 offer = put_be 4 (100 :: u32)"
    using buildResponse_Inr(5) [OF offer] by (simp add: demo_packet_simps)
  ultimately show ?thesis by blast
qed

lemma dhcp_offer_then_ack_witness:
  "\<exists>s1 s2 ack. handleRequest 0 (demo_packet DHCPRequest (opt OptRequestedIP (put_be 4 (100 :: u32)))) s1 =
      (s2, Inr (Some ack)) \<and> GetVMIP ''vm'' s2 = Inr 100"
proof -
  let ?d = "demo_packet DHCPDiscover []" and ?q = "demo_packet DHCPRequest (opt OptRequestedIP (put_be 4 (100 :: u32)))"
  obtain s1 offer where off: "handleDiscover 0 ?d demo_dhcp = (s1, Inr (Some offer))"
    "gslice 16 20 offer = put_be 4 (100 :: u32)"
    using demo_discover by blast
  have q: "getOption ?q OptRequestedIP = gslice 16 20 offer"
    by (simp add: getOption_def demo_packet_simps find_option_opt dhcp_opts off(2))
  have range: "net_contains (ds_subnet demo_dhcp) a \<and> a \<noteq> 0"
    if "ds_rangeStart demo_dhcp \<le> a" "a \<le> ds_rangeEnd demo_dhcp" for a
  proof -
    have "unat a = 100 \<or> unat a = 101" using that by (auto simp: demo_dhcp_def word_le_nat_alt)
    then have "a = 100 \<or> a = 101" by (auto simp: word_unat_eq_iff)
    then show ?thesis by (auto simp: demo_dhcp_def net_contains_def)
  qed
  have facts: "map_of (ds_leases demo_dhcp) (clientMAC ?d) = None" "length (ds_dns demo_dhcp) \<le> 63"
    "240 \<le> length ?d" "240 \<le> length ?q" "clientMAC ?q = clientMAC ?d"
    "map_of (ds_vmMACs demo_dhcp) ''vm'' = Some (clientMAC ?d)"
    by (simp_all add: demo_packet_simps) (simp_all add: demo_dhcp_def)
  from dhcp_offer_then_ack [OF demo_pool facts(1,2) range facts(3-5) off(1) q facts(6)]
  obtain a s2 ack where "put_be 4 (100 :: u32) = put_be 4 a"
    "handleRequest 0 ?q s1 = (s2, Inr (Some ack))" "GetVMIP ''vm'' s2 = Inr a"
    using off(2) by metis
  moreover from this(1) have "a = 100" by (metis get_put_be_32)
  ultimately show ?thesis by blast
qed

text \<open>
  A reply can be read by the client: with at most 63 name servers the packet that
  buildResponse makes is accepted by the parser, answers the same transaction and client
  address, and every option (message type, server, lease time, mask, router, name servers)
  is found with the value it was built from.
\<close>
theorem dhcp_reply_readable:
  assumes "buildResponse s req ty (Some a) = Inr resp" and "240 \<le> length req"
    and "ds_dns s \<noteq> []" and "length (ds_dns s) \<le> 63"
  shows "parseDHCPPacket resp = Some resp \<and> gslice 4 8 resp = gslice 4 8 req \<and>
    clientMAC resp = gslice 28 34 req \<and> gslice 16 20 resp = put_be 4 a \<and>
    getOption resp OptMessageType = [ty] \<and>
    getOption resp OptServerIdentifier = put_be 4 (ds_serverIP s) \<and>
    getOption resp OptLeaseTime = put_be 4 (word_of_int (ds_leaseDur s div second) :: u32) \<and>
    getOption resp OptSubnetMask = put_be 4 (net_Mask (ds_subnet s)) \<and>
    getOption resp OptRouter = put_be 4 (ds_gateway s) \<and>
    getOption resp OptDNS = concat (map (put_be 4) (ds_dns s))"
proof -
  have req: "44 \<le> length req" using assms(2) by simp
  have opts: "getOption resp code = find_option code (response_options s ty (Some a))" for code
    using getOption_reply [OF assms(1) req] .
  have dns: "length (concat (map (put_be 4) (ds_dns s))) < 256"
    using assms(4) by (simp add: length_dns)
  show ?thesis
    using buildResponse_Inr(3-6) [OF assms(1) req] assms(3) dns
    by (simp add: opts response_options_def find_option_opt dhcp_opts del: length_concat)
qed

lemma dhcp_reply_readable_witness:
  "\<exists>resp. buildResponse demo_dhcp (demo_packet DHCPDiscover []) DHCPOffer (Some 100) = Inr resp \<and>
     getOption resp OptDNS = put_be 4 (8 :: u32)"
proof -
  have "length (response_options demo_dhcp DHCPOffer (Some 100)) \<le> 576 - 240"
    by (simp add: response_options_length demo_dhcp_def)
  then obtain resp where r: "buildResponse demo_dhcp (demo_packet DHCPDiscover []) DHCPOffer (Some 100) = Inr resp"
    by (auto simp: buildResponse_def Let_def)
  have "240 \<le> length (demo_packet DHCPDiscover [])" "ds_dns demo_dhcp = [8]"
    by (simp_all add: demo_packet_simps demo_dhcp_def)
  with dhcp_reply_readable [OF r this(1)] r show ?thesis by auto
qed

end
