(* ===== verification/Gpt.thy ===== *)
theory Gpt
  imports GoFile
begin

text \<open>
  Model of \<^verbatim>\<open>internal/storage/gpt.go\<close>: laying out and writing a GUID partition table, and
  reading and checking one. A \<^verbatim>\<open>GUID\<close> (an array of 16 bytes) is a byte list, a partition name
  is the list of its runes. \<^verbatim>\<open>crypto/rand\<close> is the argument \<open>rnd\<close>: \<open>rnd k\<close> are the bytes of the
  k-th draw. The file that \<^verbatim>\<open>os.Create\<close> returns is the argument of \<open>CreateGPTDisk\<close>, which
  gives the file back; when it fails the code removes the file. The checksum of
  \<^verbatim>\<open>hash/crc32\<close> is written out bit by bit.
\<close>

subsection \<open>Checksum\<close>

definition crc_bit :: "u32 \<Rightarrow> u32" where
  "crc_bit c = (if c AND 1 = 1 then (drop_bit 1 c) XOR 0xEDB88320 else drop_bit 1 c)"

definition crc_byte :: "byte \<Rightarrow> u32 \<Rightarrow> u32" where
  "crc_byte b c = (crc_bit ^^ 8) (c XOR ucast b)"

definition ChecksumIEEE :: "bytes \<Rightarrow> u32" where
  "ChecksumIEEE bs = NOT (fold crc_byte bs (NOT 0))"

subsection \<open>Constants and data\<close>

type_synonym GUID = bytes

definition GPTTypeEFISystem :: GUID where
  "GPTTypeEFISystem = [0x28, 0x73, 0x2A, 0xC1, 0x1F, 0xF8, 0xD2, 0x11, 0xBA, 0x4B, 0x00, 0xA0, 0xC9, 0x3E, 0xC9, 0x3B]"

definition GPTTypeLinuxFS :: GUID where
  "GPTTypeLinuxFS = [0xAF, 0x3D, 0xC6, 0x0F, 0x83, 0x84, 0x72, 0x47, 0x8E, 0x79, 0x3D, 0x69, 0xD8, 0x47, 0x7D, 0xE4]"

definition gptSignature :: u64 where "gptSignature = 0x5452415020494645"
definition gptRevision :: u32 where "gptRevision = 0x00010000"
definition gptHeaderSize :: u32 where "gptHeaderSize = 92"
definition gptEntrySize :: u32 where "gptEntrySize = 128"
definition gptMaxEntries :: u32 where "gptMaxEntries = 128"
definition sectorSize :: u64 where "sectorSize = 512"
definition partitionArraySectors :: u64 where "partitionArraySectors = 32"

lemmas gpt_consts = gptSignature_def gptRevision_def gptHeaderSize_def gptEntrySize_def gptMaxEntries_def
  sectorSize_def partitionArraySectors_def

record GPTHeader =
  gh_Signature :: u64
  gh_Revision :: u32
  gh_HeaderSize :: u32
  gh_HeaderCRC32 :: u32
  gh_Reserved :: u32
  gh_MyLBA :: u64
  gh_AlternateLBA :: u64
  gh_FirstUsableLBA :: u64
  gh_LastUsableLBA :: u64
  gh_DiskGUID :: GUID
  gh_PartitionStart :: u64
  gh_NumPartEntries :: u32
  gh_PartEntrySize :: u32
  gh_PartArrayCRC32 :: u32

record GPTPartitionEntry =
  ge_TypeGUID :: GUID
  ge_UniqueGUID :: GUID
  ge_StartLBA :: u64
  ge_EndLBA :: u64
  ge_Attributes :: u64
  ge_Name :: bytes

record GPTPartition =
  gp_TypeGUID :: GUID
  gp_Name :: "u32 list"
  gp_SizeMB :: u64
  gp_Attributes :: u64

record GPTLayout =
  gl_DiskSizeMB :: u64
  gl_Partitions :: "GPTPartition list"

record GPTPartitionResult =
  gr_Index :: nat
  gr_Name :: "u32 list"
  gr_StartLBA :: u64
  gr_EndLBA :: u64
  gr_SizeMB :: u64

record GPTDisk =
  gd_DiskGUID :: GUID
  gd_Partitions :: "GPTPartitionResult list"
  gd_TotalSectors :: u64

datatype gpt_error =
    GptSizeTooSmall
  | GptNoPartitions
  | GptTooManyPartitions nat
  | GptDiskTooSmall
  | GptZeroType nat
  | GptNoSpace nat
  | GptExceedsDisk nat u64 u64
  | GptIO io_error
  | GptBadSignature u64
  | GptHeaderCRC u32 u32
  | GptArrayCRC u32 u32
  | GptBootTooSmall
  | GptPanic

subsection \<open>GUIDs and names\<close>

definition NewRandomGUID :: "bytes \<Rightarrow> GUID" where
  "NewRandomGUID r =
     (let g = take 16 (r @ replicate 16 0)
      in g[6 := (g ! 6 AND 0x0F) OR 0x40, 8 := (g ! 8 AND 0x3F) OR 0x80])"

definition IsZero :: "GUID \<Rightarrow> bool" where
  "IsZero g = list_all (\<lambda>b. b = 0) g"

definition name_unit :: "u32 \<Rightarrow> u16" where
  "name_unit r = (if r > 0xFFFF then 0xFFFD else ucast r)"

definition encodeUTF16Name :: "u32 list \<Rightarrow> bytes" where
  "encodeUTF16Name runes =
     (let units = map name_unit (take 36 runes)
      in concat (map (put_le 2) units) @ replicate (72 - 2 * length units) 0)"

text \<open>
  The runes of the decoded string: converting to a string replaces surrogate halves by the
  replacement character.
\<close>

definition rune_of_unit :: "u16 \<Rightarrow> u32" where
  "rune_of_unit u = (if 0xD800 \<le> u \<and> u \<le> 0xDFFF then 0xFFFD else ucast u)"

fun decode_units :: "nat \<Rightarrow> bytes \<Rightarrow> u32 list" where
  "decode_units 0 name = []"
| "decode_units (Suc n) name =
     (let codeUnit = get_le (take 2 name)
      in if codeUnit = 0 then [] else rune_of_unit codeUnit # decode_units n (drop 2 name))"

definition DecodeUTF16Name :: "GPTPartitionEntry \<Rightarrow> u32 list" where
  "DecodeUTF16Name e = decode_units 36 (ge_Name e)"

subsection \<open>Layout\<close>

definition align_lba :: "u64 \<Rightarrow> u64" where
  "align_lba lba = (if lba mod 2048 \<noteq> 0 then (lba div 2048 + 1) * 2048 else lba)"

fun layout_loop ::
  "(nat \<Rightarrow> bytes) \<Rightarrow> u64 \<Rightarrow> nat \<Rightarrow> u64 \<Rightarrow> GPTPartition list \<Rightarrow>
   gpt_error + (GPTPartitionResult list \<times> GPTPartitionEntry list)" where
  "layout_loop rnd lastLBA i currentLBA [] = Inr ([], [])"
| "layout_loop rnd lastLBA i currentLBA (p # parts) =
     (if IsZero (gp_TypeGUID p) then Inl (GptZeroType i)
      else if gp_SizeMB p = 0 \<and> currentLBA > lastLBA then Inl (GptNoSpace i)
      else let sizeSectors = (if gp_SizeMB p = 0 then lastLBA - currentLBA + 1
                              else gp_SizeMB p * 1024 * 1024 div sectorSize);
               endLBA = currentLBA + sizeSectors - 1
           in if endLBA > lastLBA then Inl (GptExceedsDisk i endLBA lastLBA)
              else let entry = \<lparr>ge_TypeGUID = gp_TypeGUID p, ge_UniqueGUID = NewRandomGUID (rnd i),
                                ge_StartLBA = currentLBA, ge_EndLBA = endLBA,
                                ge_Attributes = gp_Attributes p, ge_Name = encodeUTF16Name (gp_Name p)\<rparr>;
                       result = \<lparr>gr_Index = i, gr_Name = gp_Name p, gr_StartLBA = currentLBA,
                                 gr_EndLBA = endLBA, gr_SizeMB = sizeSectors * sectorSize div (1024 * 1024)\<rparr>
                   in (case layout_loop rnd lastLBA (i + 1) (align_lba (endLBA + 1)) parts of
                         Inl e \<Rightarrow> Inl e
                       | Inr (results, entries) \<Rightarrow> Inr (result # results, entry # entries)))"

definition layoutPartitions ::
  "(nat \<Rightarrow> bytes) \<Rightarrow> GPTPartition list \<Rightarrow> u64 \<Rightarrow> u64 \<Rightarrow>
   gpt_error + (GPTPartitionResult list \<times> GPTPartitionEntry list)" where
  "layoutPartitions rnd parts firstLBA lastLBA = layout_loop rnd lastLBA 0 (align_lba firstLBA) parts"

subsection \<open>On-disk structures\<close>

definition protective_mbr :: "u64 \<Rightarrow> bytes" where
  "protective_mbr totalSectors =
     (let mbrSectors = totalSectors - 1;
          mbrSectors = (if mbrSectors > 0xFFFFFFFF then 0xFFFFFFFF else mbrSectors)
      in replicate 446 0 @ [0x00, 0x00, 0x01, 0x00, 0xEE, 0xFF, 0xFF, 0xFF] @ put_le 4 (1 :: u32) @
         put_le 4 (ucast mbrSectors :: u32) @ replicate 48 0 @ [0x55, 0xAA])"

definition header_bytes :: "u32 \<Rightarrow> GPTHeader \<Rightarrow> bytes" where
  "header_bytes crc h =
     put_le 8 (gh_Signature h) @ put_le 4 (gh_Revision h) @ put_le 4 (gh_HeaderSize h) @ put_le 4 crc @
     [0, 0, 0, 0] @ put_le 8 (gh_MyLBA h) @ put_le 8 (gh_AlternateLBA h) @ put_le 8 (gh_FirstUsableLBA h) @
     put_le 8 (gh_LastUsableLBA h) @ gh_DiskGUID h @ put_le 8 (gh_PartitionStart h) @
     put_le 4 (gh_NumPartEntries h) @ put_le 4 (gh_PartEntrySize h) @ put_le 4 (gh_PartArrayCRC32 h)"

definition computeHeaderCRC :: "GPTHeader \<Rightarrow> u32" where
  "computeHeaderCRC h = ChecksumIEEE (header_bytes 0 h)"

definition gpt_header_sector :: "GPTHeader \<Rightarrow> bytes" where
  "gpt_header_sector h = header_bytes (gh_HeaderCRC32 h) h @ replicate 420 0"

definition entry_bytes :: "GPTPartitionEntry \<Rightarrow> bytes" where
  "entry_bytes e =
     ge_TypeGUID e @ ge_UniqueGUID e @ put_le 8 (ge_StartLBA e) @ put_le 8 (ge_EndLBA e) @
     put_le 8 (ge_Attributes e) @ ge_Name e"

definition serializePartitionEntries :: "GPTPartitionEntry list \<Rightarrow> bytes" where
  "serializePartitionEntries entries =
     concat (map entry_bytes entries) @ replicate (128 * 128 - 128 * length entries) 0"

definition parsePartitionEntry :: "bytes \<Rightarrow> GPTPartitionEntry" where
  "parsePartitionEntry dat = \<lparr>
     ge_TypeGUID = gslice 0 16 dat, ge_UniqueGUID = gslice 16 32 dat,
     ge_StartLBA = get_le (gslice 32 40 dat), ge_EndLBA = get_le (gslice 40 48 dat),
     ge_Attributes = get_le (gslice 48 56 dat), ge_Name = gslice 56 128 dat\<rparr>"

definition parse_gpt_header :: "bytes \<Rightarrow> GPTHeader" where
  "parse_gpt_header buf = \<lparr>
     gh_Signature = get_le (gslice 0 8 buf), gh_Revision = get_le (gslice 8 12 buf),
     gh_HeaderSize = get_le (gslice 12 16 buf), gh_HeaderCRC32 = get_le (gslice 16 20 buf), gh_Reserved = 0,
     gh_MyLBA = get_le (gslice 24 32 buf), gh_AlternateLBA = get_le (gslice 32 40 buf),
     gh_FirstUsableLBA = get_le (gslice 40 48 buf), gh_LastUsableLBA = get_le (gslice 48 56 buf),
     gh_DiskGUID = gslice 56 72 buf, gh_PartitionStart = get_le (gslice 72 80 buf),
     gh_NumPartEntries = get_le (gslice 80 84 buf), gh_PartEntrySize = get_le (gslice 84 88 buf),
     gh_PartArrayCRC32 = get_le (gslice 88 92 buf)\<rparr>"

subsection \<open>Writing a disk\<close>

fun write_all :: "GoFile \<Rightarrow> (bytes \<times> int) list \<Rightarrow> gpt_error + GoFile" where
  "write_all f [] = Inr f"
| "write_all f ((d, off) # ws) =
     (case WriteAt f d off of
        (f', _, Some e) \<Rightarrow> Inl (GptIO e)
      | (f', _, None) \<Rightarrow> write_all f' ws)"

definition primary_header :: "u64 \<Rightarrow> GUID \<Rightarrow> u32 \<Rightarrow> GPTHeader" where
  "primary_header totalSectors diskGUID entryCRC =
     (let h = \<lparr>gh_Signature = gptSignature, gh_Revision = gptRevision, gh_HeaderSize = gptHeaderSize,
               gh_HeaderCRC32 = 0, gh_Reserved = 0, gh_MyLBA = 1, gh_AlternateLBA = totalSectors - 1,
               gh_FirstUsableLBA = 2 + partitionArraySectors,
               gh_LastUsableLBA = totalSectors - 1 - partitionArraySectors - 1, gh_DiskGUID = diskGUID,
               gh_PartitionStart = 2, gh_NumPartEntries = gptMaxEntries, gh_PartEntrySize = gptEntrySize,
               gh_PartArrayCRC32 = entryCRC\<rparr>
      in h\<lparr>gh_HeaderCRC32 := computeHeaderCRC h\<rparr>)"

definition secondary_header :: "u64 \<Rightarrow> GPTHeader \<Rightarrow> GPTHeader" where
  "secondary_header totalSectors ph =
     (let h = ph\<lparr>gh_MyLBA := totalSectors - 1, gh_AlternateLBA := 1,
                 gh_PartitionStart := totalSectors - 1 - partitionArraySectors, gh_HeaderCRC32 := 0\<rparr>
      in h\<lparr>gh_HeaderCRC32 := computeHeaderCRC h\<rparr>)"

definition CreateGPTDisk ::
  "(nat \<Rightarrow> bytes) \<Rightarrow> GoFile \<Rightarrow> GPTLayout \<Rightarrow> gpt_error + (GPTDisk \<times> GoFile)" where
  "CreateGPTDisk rnd f layout =
     (let n = length (gl_Partitions layout);
          totalSectors = gl_DiskSizeMB layout * 1024 * 1024 div sectorSize
      in if gl_DiskSizeMB layout < 1 then Inl GptSizeTooSmall
         else if n = 0 then Inl GptNoPartitions
         else if n > 128 then Inl (GptTooManyPartitions n)
         else if totalSectors < 2048 then Inl GptDiskTooSmall
         else case Truncate f (sint (totalSectors * sectorSize)) of
           (_, Some e) \<Rightarrow> Inl (GptIO e)
         | (f, None) \<Rightarrow>
             let diskGUID = NewRandomGUID (rnd 0);
                 firstUsableLBA = 2 + partitionArraySectors;
                 lastUsableLBA = totalSectors - 1 - partitionArraySectors - 1
             in (case write_all f [(protective_mbr totalSectors, 0)] of
                   Inl e \<Rightarrow> Inl e
                 | Inr f \<Rightarrow>
                (case layoutPartitions (\<lambda>i. rnd (i + 1)) (gl_Partitions layout) firstUsableLBA lastUsableLBA of
                   Inl e \<Rightarrow> Inl e
                 | Inr (results, entries) \<Rightarrow>
                     let entryBytes = serializePartitionEntries entries;
                         primaryHeader = primary_header totalSectors diskGUID (ChecksumIEEE entryBytes);
                         secondaryEntriesLBA = totalSectors - 1 - partitionArraySectors;
                         secondaryHeader = secondary_header totalSectors primaryHeader
                     in (case write_all f
                           [(gpt_header_sector primaryHeader, sint (1 * sectorSize)),
                            (entryBytes, sint (2 * sectorSize)),
                            (entryBytes, sint (secondaryEntriesLBA * sectorSize)),
                            (gpt_header_sector secondaryHeader, sint ((totalSectors - 1) * sectorSize))] of
                           Inl e \<Rightarrow> Inl e
                         | Inr f \<Rightarrow>
                             (case Sync f of
                                Some e \<Rightarrow> Inl (GptIO e)
                              | None \<Rightarrow> Inr (\<lparr>gd_DiskGUID = diskGUID, gd_Partitions = results,
                                             gd_TotalSectors = totalSectors\<rparr>, f))))))"

definition CreateBootableDisk ::
  "(nat \<Rightarrow> bytes) \<Rightarrow> GoFile \<Rightarrow> u64 \<Rightarrow> u64 \<Rightarrow> gpt_error + (GPTDisk \<times> GoFile)" where
  "CreateBootableDisk rnd f diskSizeMB efiSizeMB =
     (let efiSizeMB = (if efiSizeMB = 0 then 64 else efiSizeMB)
      in if diskSizeMB \<le> efiSizeMB + 2 then Inl GptBootTooSmall
         else CreateGPTDisk rnd f \<lparr>gl_DiskSizeMB = diskSizeMB, gl_Partitions =
           [\<lparr>gp_TypeGUID = GPTTypeEFISystem, gp_Name = map (\<lambda>c. of_nat (of_char c)) ''EFI System'',
             gp_SizeMB = efiSizeMB, gp_Attributes = 0\<rparr>,
            \<lparr>gp_TypeGUID = GPTTypeLinuxFS, gp_Name = map (\<lambda>c. of_nat (of_char c)) ''tent-root'',
             gp_SizeMB = 0, gp_Attributes = 0\<rparr>]\<rparr>)"

subsection \<open>Reading a disk\<close>

text \<open>
  An entry is parsed from the 128 bytes at its offset; Go allows the slices of
  \<^verbatim>\<open>parsePartitionEntry\<close> up to the capacity of the entry buffer and panics beyond it.
\<close>

fun parse_entries :: "nat \<Rightarrow> nat \<Rightarrow> nat \<Rightarrow> bytes \<Rightarrow> gpt_error + GPTPartitionEntry list" where
  "parse_entries 0 i sz buf = Inr []"
| "parse_entries (Suc n) i sz buf =
     (let offset = i * sz
      in if offset + 128 > length buf then Inl GptPanic
         else let entry = parsePartitionEntry (gslice offset (offset + 128) buf)
              in case parse_entries n (i + 1) sz buf of
                   Inl e \<Rightarrow> Inl e
                 | Inr es \<Rightarrow> Inr (if IsZero (ge_TypeGUID entry) then es else entry # es))"

definition ReadGPTHeader :: "GoFile \<Rightarrow> gpt_error + (GPTHeader \<times> GPTPartitionEntry list)" where
  "ReadGPTHeader f =
     (case ReadAt f (unat sectorSize) (sint sectorSize) of
        (_, Some e) \<Rightarrow> Inl (GptIO e)
      | (headerBuf, None) \<Rightarrow>
          let header = parse_gpt_header headerBuf
          in if gh_Signature header \<noteq> gptSignature then Inl (GptBadSignature (gh_Signature header))
             else let storedCRC = gh_HeaderCRC32 header;
                      computedCRC = computeHeaderCRC (header\<lparr>gh_HeaderCRC32 := 0\<rparr>)
                  in if storedCRC \<noteq> computedCRC then Inl (GptHeaderCRC storedCRC computedCRC)
                     else let numEntries = (if gh_NumPartEntries header > gptMaxEntries then gptMaxEntries
                                            else gh_NumPartEntries header);
                              entryArraySize = unat numEntries * unat (gh_PartEntrySize header)
                          in (case ReadAt f entryArraySize (sint (gh_PartitionStart header * sectorSize)) of
                                (_, Some e) \<Rightarrow> Inl (GptIO e)
                              | (entryBuf, None) \<Rightarrow>
                                  let arrayCRC = ChecksumIEEE entryBuf
                                  in if arrayCRC \<noteq> gh_PartArrayCRC32 header
                                     then Inl (GptArrayCRC (gh_PartArrayCRC32 header) arrayCRC)
                                     else (case parse_entries (unat numEntries) 0
                                                  (unat (gh_PartEntrySize header)) entryBuf of
                                             Inl e \<Rightarrow> Inl e
                                           | Inr entries \<Rightarrow> Inr (header, entries))))"

end
