(* ===== verification/GptClaims.thy ===== *)
theory GptClaims
  imports Gpt
begin

text \<open>
  Lemmas and properties of the partition-table code: the layout is in range, aligned and
  disjoint; names, entries and headers are read back; and a disk that is created is accepted
  by the reader, with the same partitions.
\<close>

subsection \<open>Layout arithmetic\<close>

lemma align_lba_unat:
  assumes "unat x < 2 ^ 60"
  shows "unat (align_lba x) = (if unat x mod 2048 = 0 then unat x else (unat x div 2048 + 1) * 2048)"
proof (cases "x mod 2048 = 0")
  case True
  have "unat (x mod 2048) = unat x mod 2048" by (simp add: unat_mod)
  then have "unat x mod 2048 = 0" using True by simp
  then show ?thesis using True by (simp add: align_lba_def)
next
  case False
  then have m: "unat x mod 2048 \<noteq> 0" by (simp add: word_unat_eq_iff unat_mod)
  have q: "unat (x div 2048) = unat x div 2048" by (simp add: unat_div)
  have "unat x div 2048 < 2 ^ 49" using assms by (simp add: div_less_iff_less_mult less_mult_imp_div_less)
  then have "unat (x div 2048 + 1) = unat x div 2048 + 1" using unat_plus_small [of "x div 2048" 1] q by simp
  then have "unat ((x div 2048 + 1) * 2048) = (unat x div 2048 + 1) * 2048"
    using unat_mult_small [of "x div 2048 + 1" 2048] \<open>unat x div 2048 < 2 ^ 49\<close> by simp
  then show ?thesis using False m by (simp add: align_lba_def)
qed

lemma align_lba_ge:
  assumes "unat x < 2 ^ 60"
  shows "unat x \<le> unat (align_lba x)" and "2048 dvd unat (align_lba x)" and "unat (align_lba x) < unat x + 2048"
proof -
  obtain q r where qr: "unat x div 2048 = q" "unat x mod 2048 = r" by blast
  have "q * 2048 + r = unat x" "r < 2048" unfolding qr [symmetric] by (rule div_mult_mod_eq, simp)
  then show "unat x \<le> unat (align_lba x)" "unat (align_lba x) < unat x + 2048"
    unfolding align_lba_unat [OF assms] qr by auto
  show "2048 dvd unat (align_lba x)" unfolding align_lba_unat [OF assms] by auto
qed

definition entry_ok :: "GPTPartitionEntry \<Rightarrow> bool" where
  "entry_ok e \<longleftrightarrow> length (ge_TypeGUID e) = 16 \<and> length (ge_UniqueGUID e) = 16 \<and> length (ge_Name e) = 72 \<and>
     \<not> IsZero (ge_TypeGUID e)"

definition in_range :: "u64 \<Rightarrow> u64 \<Rightarrow> GPTPartitionEntry \<Rightarrow> bool" where
  "in_range lo hi e \<longleftrightarrow> lo \<le> ge_StartLBA e \<and> ge_StartLBA e \<le> ge_EndLBA e \<and> ge_EndLBA e \<le> hi \<and>
     2048 dvd unat (ge_StartLBA e)"

lemma size_sectors:
  assumes "unat mb < 2 ^ 44"
  shows "unat (mb * 1024 * 1024 div sectorSize) = unat mb * 2048"
proof -
  have "unat (mb * 1024) = unat mb * 1024" using assms unat_mult_small [of mb 1024] by simp
  then have "unat (mb * 1024 * 1024) = unat mb * 1024 * 1024"
    using assms unat_mult_small [of "mb * 1024" 1024] by simp
  then show ?thesis by (simp add: unat_div sectorSize_def)
qed

lemma end_lba:
  assumes "unat c < 2 ^ 55" and "0 < unat n" and "unat n < 2 ^ 56"
  shows "unat (c + n - 1 :: u64) = unat c + unat n - 1"
proof -
  have "unat (n - 1) = unat n - 1" using assms(2) by (simp add: unat_sub word_le_nat_alt)
  then have "unat (c + (n - 1)) = unat c + unat n - 1"
    using unat_plus_small [of c "n - 1"] assms by simp
  moreover have "c + n - 1 = c + (n - 1)" by simp
  ultimately show ?thesis by (simp only:)
qed

lemma layout_loop_ok:
  "layout_loop rnd hi i cur parts = Inr (rs, es) \<Longrightarrow> unat hi < 2 ^ 54 \<Longrightarrow> unat cur < 2 ^ 55 \<Longrightarrow>
   2048 dvd unat cur \<Longrightarrow> (\<forall>p \<in> set parts. unat (gp_SizeMB p) < 2 ^ 44) \<Longrightarrow>
   (\<forall>e \<in> set es. in_range cur hi e) \<and> sorted_wrt (\<lambda>a b. ge_EndLBA a < ge_StartLBA b) es"
proof (induction parts arbitrary: i cur rs es)
  case (Cons p parts)
  let ?n = "if gp_SizeMB p = 0 then hi - cur + 1 else gp_SizeMB p * 1024 * 1024 div sectorSize"
  let ?endL = "cur + ?n - 1"
  obtain rs' es' where rec: "layout_loop rnd hi (i + 1) (align_lba (?endL + 1)) parts = Inr (rs', es')"
    and le: "?endL \<le> hi" and fits: "gp_SizeMB p = 0 \<longrightarrow> cur \<le> hi"
    and es: "es = \<lparr>ge_TypeGUID = gp_TypeGUID p, ge_UniqueGUID = NewRandomGUID (rnd i), ge_StartLBA = cur,
       ge_EndLBA = ?endL, ge_Attributes = gp_Attributes p, ge_Name = encodeUTF16Name (gp_Name p)\<rparr> # es'"
    using Cons.prems(1) by (auto simp: Let_def not_less split: if_splits sum.splits prod.splits)
  have n: "0 < unat ?n \<and> unat ?n < 2 ^ 56 \<and> cur \<le> ?endL"
  proof (cases "gp_SizeMB p = 0")
    case True
    then have cl: "cur \<le> hi" using fits by simp
    have "unat (hi - cur) = unat hi - unat cur" using cl by (simp add: unat_sub word_le_nat_alt)
    then have "unat (hi - cur + 1) = unat hi - unat cur + 1"
      using unat_plus_small [of "hi - cur" 1] Cons.prems(2) by simp
    then show ?thesis using True cl Cons.prems(2) by simp
  next
    case False
    have "unat (gp_SizeMB p) < 2 ^ 44" using Cons.prems(5) by simp
    moreover have "0 < unat (gp_SizeMB p)" using False by (simp add: unat_gt_0)
    ultimately have n: "unat ?n = unat (gp_SizeMB p) * 2048" "0 < unat ?n" "unat ?n < 2 ^ 56"
      using False size_sectors [of "gp_SizeMB p"] by simp_all
    then have "unat ?endL = unat cur + unat ?n - 1" using end_lba [OF Cons.prems(3)] by blast
    then have "cur \<le> ?endL" unfolding word_le_nat_alt using n(2) by linarith
    then show ?thesis using n by blast
  qed
  have small: "unat ?endL < 2 ^ 54" using le Cons.prems(2) by (simp add: word_le_nat_alt)
  then have next_lba: "unat (?endL + 1) = unat ?endL + 1" using unat_plus_small [of ?endL 1] by simp
  then have b: "unat (?endL + 1) < 2 ^ 60" using small by simp
  note al = align_lba_ge [OF b]
  have "unat (align_lba (?endL + 1)) < 2 ^ 55" using al(3) next_lba small by simp
  note IH = Cons.IH [OF rec Cons.prems(2) this al(2)]
  have nextgt: "?endL < align_lba (?endL + 1)"
    unfolding word_less_nat_alt using al(1) next_lba by linarith
  have IH': "\<forall>e \<in> set es'. in_range (align_lba (?endL + 1)) hi e" "sorted_wrt (\<lambda>a b. ge_EndLBA a < ge_StartLBA b) es'"
    using IH Cons.prems(5) by simp_all
  have "in_range cur hi e" if "in_range (align_lba (?endL + 1)) hi e" for e
    using that nextgt n unfolding in_range_def by (meson order.trans order.strict_implies_order)
  moreover have "?endL < ge_StartLBA e" if "in_range (align_lba (?endL + 1)) hi e" for e
    using that nextgt unfolding in_range_def by (meson order.strict_trans2)
  ultimately show ?case using IH' n le Cons.prems(4) by (auto simp: es in_range_def)
qed simp

lemma layout_loop_entries:
  "layout_loop rnd hi i cur parts = Inr (rs, es) \<Longrightarrow> (\<forall>p \<in> set parts. length (gp_TypeGUID p) = 16) \<Longrightarrow>
   (\<forall>e \<in> set es. entry_ok e) \<and> map ge_TypeGUID es = map gp_TypeGUID parts \<and>
   map ge_Name es = map (encodeUTF16Name \<circ> gp_Name) parts \<and>
   map (\<lambda>e. (ge_StartLBA e, ge_EndLBA e)) es = map (\<lambda>r. (gr_StartLBA r, gr_EndLBA r)) rs \<and>
   map gr_Name rs = map gp_Name parts"
proof (induction parts arbitrary: i cur rs es)
  case (Cons p parts)
  have name: "length (encodeUTF16Name ns) = 72" for ns
    by (auto simp: encodeUTF16Name_def Let_def length_concat comp_def sum_list_triv)
  have guid: "length (NewRandomGUID r) = 16" for r by (simp add: NewRandomGUID_def Let_def)
  show ?case using Cons.prems Cons.IH
    by (auto simp: Let_def entry_ok_def name guid split: if_splits sum.splits prod.splits)
qed simp

subsection \<open>Names\<close>

definition plain_rune :: "u32 \<Rightarrow> bool" where
  "plain_rune r \<longleftrightarrow> 0 < r \<and> r < 0xD800"

lemma plain_unit:
  assumes "plain_rune r"
  shows "name_unit r \<noteq> 0" and "rune_of_unit (name_unit r) = r"
proof -
  have b: "unat r < 0xD800" "0 < unat r" using assms by (simp_all add: plain_rune_def word_less_nat_alt)
  have nu: "name_unit r = ucast r" using b by (simp add: name_unit_def word_less_nat_alt not_less)
  have u: "unat (ucast r :: u16) = unat r" using b by (simp add: unsigned_ucast_eq take_bit_nat_eq_self)
  show "name_unit r \<noteq> 0" using u b(2) nu by auto
  have "\<not> (0xD800 :: u16) \<le> ucast r" using u b(1) by (simp add: word_le_nat_alt)
  moreover have "(ucast (ucast r :: u16) :: u32) = r"
    by (rule word_unat_eq_iff [THEN iffD2]) (use u b(1) in \<open>simp add: unsigned_ucast_eq unsigned_take_bit_eq take_bit_nat_eq_self\<close>)
  ultimately show "rune_of_unit (name_unit r) = r" by (simp add: rune_of_unit_def nu)
qed

lemma get_le_zeros: "get_le (replicate n 0) = 0"
  by (induction n) simp_all

lemma decode_units_zeros: "decode_units n (replicate m 0) = []"
  by (cases n) (simp_all add: get_le_zeros Let_def)

lemma decode_units_names:
  "list_all plain_rune rs \<Longrightarrow> length rs \<le> n \<Longrightarrow>
   decode_units n (concat (map (put_le 2 \<circ> name_unit) rs) @ replicate m 0) = rs"
proof (induction rs arbitrary: n)
  case (Cons r rs)
  then obtain k where k: "n = Suc k" by (cases n) auto
  have "get_le (put_le 2 (name_unit r)) = name_unit r" by simp
  then show ?case using Cons plain_unit [of r] by (simp add: k Let_def)
qed (simp add: decode_units_zeros)

lemma decode_encode_name:
  "list_all plain_rune rs \<Longrightarrow> length rs \<le> 36 \<Longrightarrow> decode_units 36 (encodeUTF16Name rs) = rs"
  using decode_units_names [of rs 36] by (simp add: encodeUTF16Name_def Let_def comp_def)

subsection \<open>Headers and entries\<close>

lemma parse_header_sector:
  "length (gh_DiskGUID h) = 16 \<Longrightarrow> gh_Reserved h = 0 \<Longrightarrow> parse_gpt_header (gpt_header_sector h) = h"
  by (simp add: parse_gpt_header_def gpt_header_sector_def header_bytes_def gslice_def codec)

lemma length_header_sector: "length (gh_DiskGUID h) = 16 \<Longrightarrow> length (gpt_header_sector h) = 512"
  by (simp add: gpt_header_sector_def header_bytes_def)

lemma computeHeaderCRC_cong: "computeHeaderCRC (h\<lparr>gh_HeaderCRC32 := c\<rparr>) = computeHeaderCRC h"
  by (simp add: computeHeaderCRC_def header_bytes_def)

lemma length_entry_bytes: "entry_ok e \<Longrightarrow> length (entry_bytes e) = 128"
  by (simp add: entry_ok_def entry_bytes_def)

lemma parse_entry_bytes: "entry_ok e \<Longrightarrow> parsePartitionEntry (entry_bytes e) = e"
  by (simp add: parsePartitionEntry_def entry_bytes_def entry_ok_def gslice_def codec)

lemma length_serialize:
  "list_all entry_ok es \<Longrightarrow> length es \<le> 128 \<Longrightarrow> length (serializePartitionEntries es) = 16384"
proof -
  assume "list_all entry_ok es" "length es \<le> 128"
  moreover have "list_all entry_ok es \<Longrightarrow> length (concat (map entry_bytes es)) = 128 * length es"
    by (induction es) (simp_all add: length_entry_bytes)
  ultimately show ?thesis by (simp add: serializePartitionEntries_def)
qed

lemma parse_entries_zero:
  "length pre = i * 128 \<Longrightarrow> parse_entries n i 128 (pre @ replicate (128 * n) 0) = Inr []"
proof (induction n arbitrary: i pre)
  case (Suc n)
  have split: "replicate (128 * Suc n) (0 :: byte) = replicate 128 0 @ replicate (128 * n) 0"
    by (simp add: replicate_add [symmetric])
  have "gslice (i * 128) (i * 128 + 128) (pre @ replicate (128 * Suc n) 0) = replicate 128 0"
    unfolding split using Suc.prems by (simp add: gslice_def)
  moreover have "IsZero (ge_TypeGUID (parsePartitionEntry (replicate 128 0)))"
    by (simp add: IsZero_def parsePartitionEntry_def gslice_def list_all_iff)
  moreover have "parse_entries n (i + 1) 128 (pre @ replicate (128 * Suc n) 0) = Inr []"
    using Suc.IH [of "pre @ replicate 128 0" "i + 1"] Suc.prems unfolding split by simp
  ultimately show ?case using Suc.prems by (simp add: Let_def)
qed simp

lemma parse_entries_serialized:
  "list_all entry_ok es \<Longrightarrow> length pre = i * 128 \<Longrightarrow> length es \<le> n \<Longrightarrow>
   parse_entries n i 128 (pre @ concat (map entry_bytes es) @ replicate (128 * (n - length es)) 0) = Inr es"
proof (induction es arbitrary: n i pre)
  case Nil
  then show ?case by (simp add: parse_entries_zero)
next
  case (Cons e es)
  then obtain k where k: "n = Suc k" by (cases n) auto
  have ok: "entry_ok e" "length (entry_bytes e) = 128" "\<not> IsZero (ge_TypeGUID e)"
    using Cons.prems(1) by (simp_all add: length_entry_bytes entry_ok_def)
  let ?buf = "pre @ concat (map entry_bytes (e # es)) @ replicate (128 * (n - length (e # es))) 0"
  have "gslice (i * 128) (i * 128 + 128) ?buf = entry_bytes e"
    using Cons.prems(2) ok(2) by (simp add: gslice_def)
  moreover have "parse_entries k (i + 1) 128 ?buf = Inr es"
    using Cons.IH [of "pre @ entry_bytes e" "i + 1" k] Cons.prems ok(2) by (simp add: k)
  moreover have "\<not> i * 128 + 128 > length ?buf"
    using Cons.prems(2) ok(2) by simp
  ultimately show ?case using ok by (simp add: k Let_def parse_entry_bytes)
qed

text \<open>The properties of the partition-table code and an example disk of four megabytes.\<close>

subsection \<open>The written file\<close>

lemma write_all_usable:
  "usable f \<Longrightarrow> (\<forall>(d, off) \<in> set ws. d \<noteq> [] \<and> 0 \<le> off) \<Longrightarrow>
   write_all f ws = Inr (f\<lparr>gf_data := fold (\<lambda>(d, off) c. overlay (nat off) d c) ws (gf_data f)\<rparr>)"
proof (induction f ws rule: write_all.induct)
  case (2 f d off ws)
  have "WriteAt f d off = (f\<lparr>gf_data := overlay (nat off) d (gf_data f)\<rparr>, length d, None)"
    using 2(2,3) by (intro WriteAt_ok) auto
  then show ?case using 2 by (simp add: usable_def)
qed simp

lemma sectors_bytes:
  assumes "unat n * 512 < 2 ^ 63" and "unat (k :: u64) \<le> unat n"
  shows "sint (k * sectorSize) = int (unat k * 512)"
proof -
  have u: "unat (k * sectorSize) = unat k * 512"
    using unat_mult_small [of k 512] assms by (simp add: sectorSize_def)
  then have "unat (k * sectorSize) < 2 ^ 63" using assms by simp
  from sint_small [OF this] show ?thesis unfolding u .
qed

lemma sector_minus:
  "unat n * 512 < 2 ^ 63 \<Longrightarrow> k \<le> n \<Longrightarrow> sint ((n - k) * sectorSize) = int ((unat n - unat k) * 512)"
  using sectors_bytes [of n "n - k"] by (simp only: unat_minus_small diff_le_self)

text \<open>
  What a successful creation gives: the sector count, the layout, and the file, whose bytes
  are the table written over zeros.
\<close>

definition table_writes :: "u64 \<Rightarrow> GUID \<Rightarrow> bytes \<Rightarrow> (bytes \<times> int) list" where
  "table_writes n g E =
     (let H1 = primary_header n g (ChecksumIEEE E)
      in [(gpt_header_sector H1, 512), (E, 1024), (E, int ((unat n - 33) * 512)),
          (gpt_header_sector (secondary_header n H1), int ((unat n - 1) * 512))])"

lemma create_cases:
  assumes "CreateGPTDisk rnd f layout = Inr (disk, f')" and "usable f"
  defines "n \<equiv> gd_TotalSectors disk"
  obtains es f1 where "2048 \<le> unat n" "unat n * 512 < 2 ^ 63"
    "f1 = f\<lparr>gf_data := overlay 0 (protective_mbr n)
            (take (unat n * 512) (gf_data f) @ replicate (unat n * 512 - length (gf_data f)) 0)\<rparr>"
    "layout_loop (\<lambda>i. rnd (i + 1)) (n - 34) 0 2048 (gl_Partitions layout) = Inr (gd_Partitions disk, es)"
    "length (gl_Partitions layout) \<le> 128" "gd_DiskGUID disk = NewRandomGUID (rnd 0)"
    "write_all f1 (table_writes n (gd_DiskGUID disk) (serializePartitionEntries es)) = Inr f'"
proof -
  define N where "N = gl_DiskSizeMB layout * 1024 * 1024 div sectorSize"
  let ?n = N
  note A = assms(1) [unfolded CreateGPTDisk_def Let_def, folded N_def]
  have len: "length (gl_Partitions layout) \<le> 128" and big: "2048 \<le> ?n"
    using A by (auto split: if_splits)
  obtain ft where tr: "Truncate f (sint (?n * sectorSize)) = (ft, None)"
    using A by (auto split: if_splits prod.splits option.splits)
  have "unat ?n * 512 < 2 ^ 64"
  proof -
    have "unat ?n = unat (gl_DiskSizeMB layout * 1024 * 1024) div 512" by (simp add: N_def unat_div sectorSize_def)
    then have "unat ?n * 512 \<le> unat (gl_DiskSizeMB layout * 1024 * 1024)" by (simp only: div_times_less_eq_dividend)
    then show ?thesis using unat_less_64 [of "gl_DiskSizeMB layout * 1024 * 1024"] by linarith
  qed
  then have un: "unat (?n * sectorSize) = unat ?n * 512"
    using unat_mult_small [of ?n 512] by (simp add: sectorSize_def)
  have "0 \<le> sint (?n * sectorSize)" using tr by (auto simp: Truncate_def split: if_splits)
  from sint_nonneg [OF this] have small: "unat ?n * 512 < 2 ^ 63" unfolding un .
  have sint_n: "sint (?n * sectorSize) = int (unat ?n * 512)" using sectors_bytes [OF small order_refl] .
  have ft: "ft = f\<lparr>gf_data := take (unat ?n * 512) (gf_data f) @ replicate (unat ?n * 512 - length (gf_data f)) 0\<rparr>"
  proof -
    obtain m where m: "unat ?n * 512 = m" by blast
    show ?thesis using tr assms(2) unfolding sint_n m by (auto simp: Truncate_def usable_def)
  qed
  have mbr: "protective_mbr k \<noteq> []" for k by (simp add: protective_mbr_def Let_def)
  have w1: "write_all ft [(protective_mbr ?n, 0)] = Inr (ft\<lparr>gf_data := overlay 0 (protective_mbr ?n) (gf_data ft)\<rparr>)"
    (is "_ = Inr ?f1")
    using write_all_usable [of ft "[(protective_mbr ?n, 0)]"] assms(2) mbr by (simp add: ft usable_def)
  have lbas: "?n - 33 - 1 = ?n - 34" "align_lba (2 + partitionArraySectors) = 2048"
    "?n - 1 - partitionArraySectors = ?n - 33"
    by (simp_all add: partitionArraySectors_def align_lba_def)
  have ge: "1 \<le> ?n" "33 \<le> ?n" using big by (simp_all add: word_le_nat_alt)
  have u: "unat (33 :: u64) = 33" "unat (1 :: u64) = 1" by simp_all
  have sec: "sint ((?n - 33) * sectorSize) = int ((unat ?n - 33) * 512)"
    "sint ((?n - 1) * sectorSize) = int ((unat ?n - 1) * 512)"
    "sint (1 * sectorSize) = 512" "sint (2 * sectorSize) = 1024"
    subgoal using sector_minus [OF small ge(2)] unfolding u .
    subgoal using sector_minus [OF small ge(1)] unfolding u .
    by (simp_all add: sectorSize_def)
  obtain rs es where lay: "layout_loop (\<lambda>i. rnd (i + 1)) (?n - 34) 0 2048 (gl_Partitions layout) = Inr (rs, es)"
  proof (cases "layout_loop (\<lambda>i. rnd (i + 1)) (?n - 34) 0 2048 (gl_Partitions layout)")
    case (Inl e)
    then show ?thesis
      using A unfolding tr prod.case option.case w1 sum.case layoutPartitions_def lbas Inl by (simp split: if_splits)
  next
    case (Inr r)
    then show ?thesis using that by (cases r) simp
  qed
  have fin: "write_all ?f1 (table_writes ?n (NewRandomGUID (rnd 0)) (serializePartitionEntries es)) = Inr f' \<and>
      disk = \<lparr>gd_DiskGUID = NewRandomGUID (rnd 0), gd_Partitions = rs, gd_TotalSectors = ?n\<rparr>"
    using A unfolding tr prod.case option.case w1 sum.case layoutPartitions_def lbas lay sec table_writes_def Let_def
    by (auto split: if_splits sum.splits option.splits)
  then have disk: "n = ?n" "gd_DiskGUID disk = NewRandomGUID (rnd 0)" "gd_Partitions disk = rs"
    by (simp_all add: n_def)
  have "2048 \<le> unat ?n" using big by (simp add: word_le_nat_alt)
  then show ?thesis
    using that [of ?f1 es] small lay len fin by (simp add: disk ft)
qed

lemma created_file:
  assumes "f1 = f\<lparr>gf_data := overlay 0 (protective_mbr n)
            (take (unat n * 512) (gf_data f) @ replicate (unat n * 512 - length (gf_data f)) 0)\<rparr>"
    and "usable f" and "2048 \<le> unat n" and "length g = 16" and "length E = 16384"
    and "write_all f1 (table_writes n g E) = Inr f'"
  shows "usable f' \<and> length (gf_data f') = unat n * 512 \<and>
    gslice 512 1024 (gf_data f') = gpt_header_sector (primary_header n g (ChecksumIEEE E)) \<and>
    gslice 1024 (1024 + 16384) (gf_data f') = E \<and>
    gslice ((unat n - 33) * 512) ((unat n - 33) * 512 + 16384) (gf_data f') = E \<and>
    gslice ((unat n - 1) * 512) (unat n * 512) (gf_data f') =
      gpt_header_sector (secondary_header n (primary_header n g (ChecksumIEEE E)))"
proof -
  let ?H1 = "primary_header n g (ChecksumIEEE E)"
  let ?H2 = "secondary_header n ?H1"
  obtain m where n: "unat n = m" by blast
  have m: "2048 \<le> m" using assms(3) n by simp
  have len: "length (gpt_header_sector ?H1) = 512" "length (gpt_header_sector ?H2) = 512"
    using assms(4) by (simp_all add: length_header_sector primary_header_def secondary_header_def Let_def)
  have ne: "gpt_header_sector ?H1 \<noteq> []" "gpt_header_sector ?H2 \<noteq> []" "E \<noteq> []"
    using len assms(5) by (metis list.size(3) zero_neq_numeral)+
  have mbr: "length (protective_mbr n) = 512" by (simp add: protective_mbr_def Let_def)
  define D0 where "D0 = overlay 0 (protective_mbr n) (take (m * 512) (gf_data f) @ replicate (m * 512 - length (gf_data f)) 0)"
  have D0: "length D0 = m * 512" using m mbr by (simp add: D0_def)
  have f1: "usable f1" "gf_data f1 = D0" using assms(1,2) by (simp_all add: usable_def D0_def n)
  define D1 where "D1 = overlay 512 (gpt_header_sector ?H1) D0"
  define D2 where "D2 = overlay 1024 E D1"
  define D3 where "D3 = overlay ((m - 33) * 512) E D2"
  define D4 where "D4 = overlay ((m - 1) * 512) (gpt_header_sector ?H2) D3"
  have lens: "length D1 = m * 512" "length D2 = m * 512" "length D3 = m * 512" "length D4 = m * 512"
    using D0 m len assms(5) by (simp_all add: D1_def D2_def D3_def D4_def)
  obtain a b where ab: "(m - 33) * 512 = a" "(m - 1) * 512 = b" by blast
  have f': "f' = f1\<lparr>gf_data := D4\<rparr>"
    using write_all_usable [OF f1(1), of "table_writes n g E"] assms(6) ne
    unfolding table_writes_def n ab D4_def D3_def D2_def D1_def by (simp add: Let_def f1(2))
  have "gslice 512 (512 + length (gpt_header_sector ?H1)) D1 = gpt_header_sector ?H1"
    unfolding D1_def by (rule gslice_overlay_same)
  then have "gslice 512 1024 D4 = gpt_header_sector ?H1"
    using m lens len by (simp add: D4_def D3_def D2_def gslice_overlay_before)
  moreover have "gslice 1024 (1024 + length E) D2 = E" unfolding D2_def by (rule gslice_overlay_same)
  then have "gslice 1024 (1024 + 16384) D4 = E"
    using m lens assms(5) by (simp add: D4_def D3_def gslice_overlay_before)
  moreover have "gslice ((m - 33) * 512) ((m - 33) * 512 + length E) D3 = E" unfolding D3_def by (rule gslice_overlay_same)
  then have "gslice ((m - 33) * 512) ((m - 33) * 512 + 16384) D4 = E"
    using m lens assms(5) by (simp add: D4_def gslice_overlay_before)
  moreover have "gslice ((m - 1) * 512) ((m - 1) * 512 + length (gpt_header_sector ?H2)) D4 = gpt_header_sector ?H2"
    unfolding D4_def by (rule gslice_overlay_same)
  then have "gslice ((m - 1) * 512) (m * 512) D4 = gpt_header_sector ?H2" using m len by (simp add: algebra_simps)
  ultimately show ?thesis using f' f1(1) lens(4) by (simp add: usable_def n)
qed

lemma primary_header_simps:
  "gh_Signature (primary_header n g c) = gptSignature" "gh_NumPartEntries (primary_header n g c) = 128"
  "gh_PartEntrySize (primary_header n g c) = 128" "gh_PartitionStart (primary_header n g c) = 2"
  "gh_PartArrayCRC32 (primary_header n g c) = c" "gh_DiskGUID (primary_header n g c) = g"
  "gh_Reserved (primary_header n g c) = 0" "gh_MyLBA (primary_header n g c) = 1"
  "gh_AlternateLBA (primary_header n g c) = n - 1"
  "gh_HeaderCRC32 (primary_header n g c) = computeHeaderCRC (primary_header n g c)"
  by (simp_all add: primary_header_def Let_def gpt_consts) (simp add: computeHeaderCRC_def header_bytes_def)

lemma read_created:
  assumes "usable f" and "17408 \<le> length (gf_data f)" and "list_all entry_ok es" and "length es \<le> 128"
    and "E = serializePartitionEntries es" and "length g = 16"
    and "gslice 512 1024 (gf_data f) = gpt_header_sector (primary_header n g (ChecksumIEEE E))"
    and "gslice 1024 (1024 + 16384) (gf_data f) = E"
  shows "ReadGPTHeader f = Inr (primary_header n g (ChecksumIEEE E), es)"
proof -
  let ?H = "primary_header n g (ChecksumIEEE E)"
  have hdr: "parse_gpt_header (gpt_header_sector ?H) = ?H"
    using assms(6) by (intro parse_header_sector) (simp_all add: primary_header_simps)
  have r1: "ReadAt f (unat sectorSize) (sint sectorSize) = (gpt_header_sector ?H, None)"
    using ReadAt_ok [of f 512 512] assms(1,2,7) by (simp add: sectorSize_def)
  have "nat (sint (2 * sectorSize)) = 1024" by (simp add: sectorSize_def)
  then have r2: "ReadAt f (unat (128 :: u32) * unat (128 :: u32)) (sint (2 * sectorSize)) = (E, None)"
    using ReadAt_ok [of f 1024 16384] assms(1,2,8) by (simp add: sectorSize_def)
  have parse: "parse_entries (unat (128 :: u32)) 0 (unat (128 :: u32)) E = Inr es"
    using parse_entries_serialized [OF assms(3), of "[]" 0 128] assms(4)
    by (simp add: assms(5) serializePartitionEntries_def right_diff_distrib')
  have crc: "computeHeaderCRC (?H\<lparr>gh_HeaderCRC32 := 0\<rparr>) = gh_HeaderCRC32 ?H"
    by (simp add: computeHeaderCRC_cong primary_header_simps(10) [symmetric])
  have max: "(if gh_NumPartEntries ?H > gptMaxEntries then gptMaxEntries else gh_NumPartEntries ?H) = 128"
    by (simp add: primary_header_simps gpt_consts)
  show ?thesis
    unfolding ReadGPTHeader_def r1 prod.case option.case Let_def hdr max crc
    by (simp only: primary_header_simps(1,3,4,5) r2 parse prod.case option.case sum.case simp_thms if_False HOL.refl if_True)
qed

subsection \<open>Properties\<close>

text \<open>
  A layout that is accepted places every partition inside the usable range, at a start
  aligned to 1 MiB and not after its end, and in order without overlap: each partition ends
  before the next begins. (Sizes below \<open>2 ^ 44\<close> MB and a disk below \<open>2 ^ 54\<close> sectors, so that the
  64-bit products do not wrap.)
\<close>
theorem gpt_layout_disjoint:
  assumes "layoutPartitions rnd parts 34 lastLBA = Inr (results, entries)" and "unat lastLBA < 2 ^ 54"
    and "\<forall>p \<in> set parts. unat (gp_SizeMB p) < 2 ^ 44"
  shows "(\<forall>e \<in> set entries. 2048 \<le> ge_StartLBA e \<and> ge_StartLBA e \<le> ge_EndLBA e \<and> ge_EndLBA e \<le> lastLBA \<and>
      2048 dvd unat (ge_StartLBA e)) \<and>
    sorted_wrt (\<lambda>a b. ge_EndLBA a < ge_StartLBA b) entries"
proof -
  have al: "align_lba 34 = 2048" by (simp add: align_lba_def)
  show ?thesis
    using layout_loop_ok [of rnd lastLBA 0 2048 parts results entries] assms
    by (simp add: layoutPartitions_def al in_range_def)
qed

definition demo_layout :: GPTLayout where
  "demo_layout = \<lparr>gl_DiskSizeMB = 4, gl_Partitions =
     [\<lparr>gp_TypeGUID = GPTTypeEFISystem, gp_Name = [69, 70, 73], gp_SizeMB = 1, gp_Attributes = 0\<rparr>,
      \<lparr>gp_TypeGUID = GPTTypeLinuxFS, gp_Name = [114], gp_SizeMB = 0, gp_Attributes = 0\<rparr>]\<rparr>"

definition demo_file :: GoFile where
  "demo_file = \<lparr>gf_data = [], gf_write = True, gf_open = True, gf_fault = False\<rparr>"

lemma demo_layout_ok:
  "\<exists>rs es. layout_loop rnd 8158 0 2048 (gl_Partitions demo_layout) = Inr (rs, es) \<and> length es = 2"
  by (simp add: demo_layout_def IsZero_def GPTTypeEFISystem_def GPTTypeLinuxFS_def Let_def sectorSize_def align_lba_def)

lemma gpt_layout_disjoint_witness:
  "\<exists>results entries. layoutPartitions (\<lambda>_. []) (gl_Partitions demo_layout) 34 8158 = Inr (results, entries) \<and>
     sorted_wrt (\<lambda>a b. ge_EndLBA a < ge_StartLBA b) entries"
proof -
  obtain rs es where r: "layoutPartitions (\<lambda>_. []) (gl_Partitions demo_layout) 34 8158 = Inr (rs, es)"
    using demo_layout_ok [of "\<lambda>_. []"] by (auto simp: layoutPartitions_def align_lba_def)
  have "unat (8158 :: u64) < 2 ^ 54" "\<forall>p \<in> set (gl_Partitions demo_layout). unat (gp_SizeMB p) < 2 ^ 44"
    by (simp_all add: demo_layout_def)
  with gpt_layout_disjoint [OF r] r show ?thesis by blast
qed

text \<open>
  C37: A disk that CreateGPTDisk reports as created is accepted by ReadGPTHeader: signature
  and both checksums match, and the partitions it finds are those of the layout, in order,
  with their types, ranges and (for names of at most 36 plain characters) their names. The
  secondary header and entry array are the last 33 sectors of the file.
\<close>
theorem gpt_create_then_read:
  assumes "CreateGPTDisk rnd f layout = Inr (disk, f')" and "usable f"
    and "\<forall>p \<in> set (gl_Partitions layout). length (gp_TypeGUID p) = 16"
  shows "\<exists>h es. ReadGPTHeader f' = Inr (h, es) \<and> gh_DiskGUID h = gd_DiskGUID disk \<and>
    map ge_TypeGUID es = map gp_TypeGUID (gl_Partitions layout) \<and>
    map (\<lambda>e. (ge_StartLBA e, ge_EndLBA e)) es = map (\<lambda>r. (gr_StartLBA r, gr_EndLBA r)) (gd_Partitions disk) \<and>
    ((\<forall>p \<in> set (gl_Partitions layout). list_all plain_rune (gp_Name p) \<and> length (gp_Name p) \<le> 36) \<longrightarrow>
       map DecodeUTF16Name es = map gp_Name (gl_Partitions layout)) \<and>
    gh_AlternateLBA h = gd_TotalSectors disk - 1 \<and>
    length (gf_data f') = unat (gd_TotalSectors disk) * 512 \<and>
    gslice ((unat (gd_TotalSectors disk) - 1) * 512) (unat (gd_TotalSectors disk) * 512) (gf_data f') =
      gpt_header_sector (secondary_header (gd_TotalSectors disk) h) \<and>
    gslice ((unat (gd_TotalSectors disk) - 33) * 512) ((unat (gd_TotalSectors disk) - 33) * 512 + 16384) (gf_data f') =
      serializePartitionEntries es"
proof -
  let ?n = "gd_TotalSectors disk" and ?g = "gd_DiskGUID disk"
  obtain es f1 where c: "2048 \<le> unat ?n"
    "f1 = f\<lparr>gf_data := overlay 0 (protective_mbr ?n)
            (take (unat ?n * 512) (gf_data f) @ replicate (unat ?n * 512 - length (gf_data f)) 0)\<rparr>"
    "layout_loop (\<lambda>i. rnd (i + 1)) (?n - 34) 0 2048 (gl_Partitions layout) = Inr (gd_Partitions disk, es)"
    "length (gl_Partitions layout) \<le> 128" "?g = NewRandomGUID (rnd 0)"
    "write_all f1 (table_writes ?n ?g (serializePartitionEntries es)) = Inr f'"
    using create_cases [OF assms(1,2)] by metis
  have g: "length ?g = 16" unfolding c(5) by (simp add: NewRandomGUID_def Let_def)
  have es: "\<forall>e \<in> set es. entry_ok e" "map ge_TypeGUID es = map gp_TypeGUID (gl_Partitions layout)"
    "map ge_Name es = map (encodeUTF16Name \<circ> gp_Name) (gl_Partitions layout)"
    "map (\<lambda>e. (ge_StartLBA e, ge_EndLBA e)) es = map (\<lambda>r. (gr_StartLBA r, gr_EndLBA r)) (gd_Partitions disk)"
    using layout_loop_entries [OF c(3) assms(3)] by simp_all
  have len: "length es \<le> 128" using c(4) arg_cong [OF es(2), of length] by simp
  have ok: "list_all entry_ok es" using es(1) by (simp add: list_all_iff)
  note wr = created_file [OF c(2) assms(2) c(1) g length_serialize [OF ok len] c(6)]
  have "17408 \<le> length (gf_data f')" using wr c(1) by simp
  then have read: "ReadGPTHeader f' = Inr (primary_header ?n ?g (ChecksumIEEE (serializePartitionEntries es)), es)"
    using read_created [of f' es, OF _ _ ok len refl g] wr by blast
  have names: "map DecodeUTF16Name es = map gp_Name (gl_Partitions layout)"
    if "\<forall>p \<in> set (gl_Partitions layout). list_all plain_rune (gp_Name p) \<and> length (gp_Name p) \<le> 36"
  proof -
    have "map DecodeUTF16Name es = map (decode_units 36) (map ge_Name es)" by (simp add: DecodeUTF16Name_def)
    then show ?thesis unfolding es(3) using that by (simp add: decode_encode_name)
  qed
  show ?thesis
    using read wr es(2,4) names by (simp add: primary_header_simps)
qed

lemma demo_disk: "\<exists>disk f'. CreateGPTDisk (\<lambda>_. []) demo_file demo_layout = Inr (disk, f')"
proof -
  have usable: "usable demo_file" by (simp add: usable_def demo_file_def)
  obtain rs es where lay: "layoutPartitions (\<lambda>_. []) (gl_Partitions demo_layout) 34 8158 = Inr (rs, es)"
    using demo_layout_ok [of "\<lambda>_. []"] by (auto simp: layoutPartitions_def align_lba_def)
  let ?t = "demo_file\<lparr>gf_data := replicate 4194304 0\<rparr>"
  have tr: "Truncate demo_file 4194304 = (?t, None)"
    by (simp add: Truncate_def demo_file_def)
  have mbr: "protective_mbr 8192 \<noteq> []" by (simp add: protective_mbr_def Let_def)
  have hd: "gpt_header_sector h \<noteq> []" for h by (simp add: gpt_header_sector_def)
  have en: "serializePartitionEntries es \<noteq> []"
    using lay demo_layout_ok [of "\<lambda>_. []"]
    by (auto simp: serializePartitionEntries_def layoutPartitions_def align_lba_def)
  have w: "\<exists>g. usable g \<and> write_all f ws = Inr g" if "usable f" "\<forall>(d, off) \<in> set ws. d \<noteq> [] \<and> 0 \<le> off" for f ws
    using write_all_usable [OF that] that(1) by (auto simp: usable_def)
  have ut: "usable ?t" using usable by (simp add: usable_def)
  obtain f1 where f1: "usable f1" "write_all ?t [(protective_mbr 8192, 0)] = Inr f1"
    using w [OF ut, of "[(protective_mbr 8192, 0)]"] mbr by auto
  have wr: "\<exists>g. usable g \<and> write_all f1 [(gpt_header_sector h1, 512), (serializePartitionEntries es, 1024),
      (serializePartitionEntries es, 4177408), (gpt_header_sector h2, 4193792)] = Inr g" for h1 h2
    by (rule w [OF f1(1)]) (simp add: hd en)
  have nums: "gl_DiskSizeMB demo_layout * 1024 * 1024 div sectorSize = 8192" "length (gl_Partitions demo_layout) = 2"
    "sint (8192 * sectorSize) = 4194304" "2 + partitionArraySectors = (34 :: u64)"
    "8159 - 1 = (8158 :: u64)" "8192 - 1 - partitionArraySectors = (8159 :: u64)"
    "sint (1 * sectorSize) = 512" "sint (2 * sectorSize) = 1024" "sint (8159 * sectorSize) = 4177408"
    "sint ((8192 - 1) * sectorSize) = 4193792" "\<not> gl_DiskSizeMB demo_layout < 1" "\<not> (8192 :: u64) < 2048"
    "(2 :: nat) \<noteq> 0" "\<not> (128 :: nat) < 2"
    by (simp_all add: demo_layout_def sectorSize_def partitionArraySectors_def)
  obtain g where g: "usable g" "write_all f1 [(gpt_header_sector (primary_header 8192 (NewRandomGUID []) (ChecksumIEEE (serializePartitionEntries es))), 512),
      (serializePartitionEntries es, 1024), (serializePartitionEntries es, 4177408),
      (gpt_header_sector (secondary_header 8192 (primary_header 8192 (NewRandomGUID []) (ChecksumIEEE (serializePartitionEntries es)))), 4193792)] = Inr g"
    using wr by blast
  have sync: "Sync g = None" using g(1) by (simp add: Sync_def usable_def)
  show ?thesis
    unfolding CreateGPTDisk_def Let_def nums if_False if_not_P tr prod.case option.case f1(2) sum.case lay g(2) sync
    by (simp add: demo_layout_def)
qed

lemma gpt_create_then_read_witness:
  "\<exists>disk f' h es. CreateGPTDisk (\<lambda>_. []) demo_file demo_layout = Inr (disk, f') \<and> ReadGPTHeader f' = Inr (h, es) \<and>
     map DecodeUTF16Name es = [[69, 70, 73], [114]]"
proof -
  obtain disk f' where c: "CreateGPTDisk (\<lambda>_. []) demo_file demo_layout = Inr (disk, f')"
    using demo_disk by blast
  have "usable demo_file" "\<forall>p \<in> set (gl_Partitions demo_layout). length (gp_TypeGUID p) = 16"
    "\<forall>p \<in> set (gl_Partitions demo_layout). list_all plain_rune (gp_Name p) \<and> length (gp_Name p) \<le> 36"
    "map gp_Name (gl_Partitions demo_layout) = [[69, 70, 73], [114]]"
    by (simp_all add: demo_layout_def demo_file_def usable_def GPTTypeEFISystem_def GPTTypeLinuxFS_def plain_rune_def)
  with gpt_create_then_read [OF c] c show ?thesis by metis
qed

end
