(* ===== verification/GoText.thy ===== *)
theory GoText
  imports Prelude
begin

text \<open>
  Formatting of Go that several components use: decimal integers (\<^verbatim>\<open>%d\<close>) and
  \<^verbatim>\<open>strings.Join\<close>, with the prefix and substring tests of \<^verbatim>\<open>strings\<close>.
\<close>

fun nat_decimal :: "nat \<Rightarrow> string" where
  "nat_decimal n = (if n < 10 then [char_of (48 + n)] else nat_decimal (n div 10) @ [char_of (48 + n mod 10)])"

declare nat_decimal.simps [simp del]

definition decimal :: "int \<Rightarrow> string" where
  "decimal i = (if i < 0 then ''-'' @ nat_decimal (nat (- i)) else nat_decimal (nat i))"

fun join_with :: "'a list \<Rightarrow> 'a list list \<Rightarrow> 'a list" where
  "join_with sep [] = []"
| "join_with sep [x] = x"
| "join_with sep (x # y # ys) = x @ sep @ join_with sep (y # ys)"

definition has_prefix :: "'a list \<Rightarrow> 'a list \<Rightarrow> bool" where
  "has_prefix s pre \<longleftrightarrow> take (length pre) s = pre"

definition has_suffix :: "'a list \<Rightarrow> 'a list \<Rightarrow> bool" where
  "has_suffix s suf \<longleftrightarrow> length suf \<le> length s \<and> drop (length s - length suf) s = suf"

lemma has_prefix_append: "has_prefix s pre \<longleftrightarrow> (\<exists>r. s = pre @ r)"
  unfolding has_prefix_def by (metis append_eq_conv_conj append_take_drop_id)

text \<open>
  The lexical part of Go's \<^verbatim>\<open>path/filepath\<close> on slash-separated paths, which are byte
  strings: \<^verbatim>\<open>IsAbs\<close>, \<^verbatim>\<open>Clean\<close>, \<^verbatim>\<open>Dir\<close> and \<^verbatim>\<open>Join\<close> of two elements.
\<close>

fun split_path :: "bytes \<Rightarrow> bytes \<Rightarrow> bytes list" where
  "split_path acc [] = [rev acc]"
| "split_path acc (c # cs) = (if c = 47 then rev acc # split_path [] cs else split_path (c # acc) cs)"

fun clean_parts :: "bool \<Rightarrow> bytes list \<Rightarrow> bytes list \<Rightarrow> bytes list" where
  "clean_parts rooted out [] = rev out"
| "clean_parts rooted out (p # ps) =
     (if p = [] \<or> p = [46] then clean_parts rooted out ps
      else if p = [46, 46] then
        (if out \<noteq> [] \<and> hd out \<noteq> [46, 46] then clean_parts rooted (tl out) ps
         else if rooted then clean_parts rooted out ps
         else clean_parts rooted (p # out) ps)
      else clean_parts rooted (p # out) ps)"

definition IsAbs :: "bytes \<Rightarrow> bool" where
  "IsAbs path \<longleftrightarrow> path \<noteq> [] \<and> hd path = 47"

definition join_slash :: "bytes list \<Rightarrow> bytes" where
  "join_slash ps = (case ps of [] \<Rightarrow> [] | q # qs \<Rightarrow> q @ concat (map (\<lambda>r. 47 # r) qs))"

definition Clean :: "bytes \<Rightarrow> bytes" where
  "Clean path =
     (let rooted = IsAbs path;
          body = join_slash (clean_parts rooted [] (split_path [] path))
      in if rooted then 47 # body else if body = [] then [46] else body)"

definition Dir :: "bytes \<Rightarrow> bytes" where
  "Dir path = Clean (rev (dropWhile (\<lambda>c. c \<noteq> 47) (rev path)))"

text \<open>\<^verbatim>\<open>Join\<close> drops empty elements.\<close>

definition Join :: "bytes \<Rightarrow> bytes \<Rightarrow> bytes" where
  "Join a b =
     (if a = [] then (if b = [] then [] else Clean b)
      else if b = [] then Clean a
      else Clean (a @ [47] @ b))"

end
