(* ===== verification/Qcow2.thy ===== *)
theory Qcow2
  imports GoFile GoText "HOL-Library.AList"
begin

text \<open>
  QCOW2 disk images (\<^verbatim>\<open>internal/storage/qcow2.go\<close>): the header, the two-level cluster tables
  with their cache, reading through a chain of backing images, copy-on-write writing,
  creation, opening and the conversions. An image with its backing chain is its own layer
  and the list of the layers below it. The file of a layer is a file of \<^verbatim>\<open>GoFile\<close>; Go's
  random choice of a cache entry to evict is the stream \<open>ql_rand\<close> of draws. Allocation
  failure of very large buffers is not modelled.
\<close>

subsection \<open>Constants and data\<close>

definition qcow2Magic :: u32 where "qcow2Magic = 0x514649FB"
definition qcow2Version :: u32 where "qcow2Version = 3"
definition defaultClusterBits :: u32 where "defaultClusterBits = 16"
definition defaultClusterSize :: u64 where "defaultClusterSize = 65536"
definition l2EntryCopied :: u64 where "l2EntryCopied = 0x8000000000000000"
definition l2OffsetMask :: u64 where "l2OffsetMask = 0x00FFFFFFFFFFFE00"
definition defaultRefcountOrder :: u32 where "defaultRefcountOrder = 4"

record QCOW2Header =
  qh_Magic :: u32
  qh_Version :: u32
  qh_BackingFileOffset :: u64
  qh_BackingFileSize :: u32
  qh_ClusterBits :: u32
  qh_Size :: u64
  qh_CryptMethod :: u32
  qh_L1Size :: u32
  qh_L1TableOffset :: u64
  qh_RefcountTableOffset :: u64
  qh_RefcountTableClusters :: u32
  qh_NbSnapshots :: u32
  qh_SnapshotsOffset :: u64
  qh_IncompatibleFeatures :: u64
  qh_CompatibleFeatures :: u64
  qh_AutoclearFeatures :: u64
  qh_RefcountOrder :: u32
  qh_HeaderLength :: u32

record QCOW2Layer =
  ql_file :: GoFile
  ql_header :: QCOW2Header
  ql_backingFile :: bytes
  ql_clusterSize :: u64
  ql_l1Table :: "u64 list"
  ql_l2Cache :: "(u64 \<times> u64 list) list"
  ql_rand :: "nat \<Rightarrow> nat"

type_synonym QCOW2Image = "QCOW2Layer \<times> QCOW2Layer list"

datatype qc_error =
    QcIO io_error
  | QcBadMagic u32
  | QcUnsupportedVersion u32
  | QcDataSize nat u64
  | QcBeyondVirtualSize u64
  | QcOutOfRange int
  | QcSameFormat
  | QcUnsupportedConversion
  | QcPanic

subsection \<open>The header on disk\<close>

text \<open>\<^verbatim>\<open>binary.Write\<close> and \<^verbatim>\<open>binary.Read\<close> of the header structure, field by field, big-endian.\<close>

definition encode_header :: "QCOW2Header \<Rightarrow> bytes" where
  "encode_header h =
     put_be 4 (qh_Magic h) @ put_be 4 (qh_Version h) @ put_be 8 (qh_BackingFileOffset h) @
     put_be 4 (qh_BackingFileSize h) @ put_be 4 (qh_ClusterBits h) @ put_be 8 (qh_Size h) @
     put_be 4 (qh_CryptMethod h) @ put_be 4 (qh_L1Size h) @ put_be 8 (qh_L1TableOffset h) @
     put_be 8 (qh_RefcountTableOffset h) @ put_be 4 (qh_RefcountTableClusters h) @
     put_be 4 (qh_NbSnapshots h) @ put_be 8 (qh_SnapshotsOffset h) @
     put_be 8 (qh_IncompatibleFeatures h) @ put_be 8 (qh_CompatibleFeatures h) @
     put_be 8 (qh_AutoclearFeatures h) @ put_be 4 (qh_RefcountOrder h) @ put_be 4 (qh_HeaderLength h)"

definition decode_header :: "bytes \<Rightarrow> QCOW2Header" where
  "decode_header b =
     \<lparr>qh_Magic = get_be (gslice 0 4 b), qh_Version = get_be (gslice 4 8 b),
      qh_BackingFileOffset = get_be (gslice 8 16 b), qh_BackingFileSize = get_be (gslice 16 20 b),
      qh_ClusterBits = get_be (gslice 20 24 b), qh_Size = get_be (gslice 24 32 b),
      qh_CryptMethod = get_be (gslice 32 36 b), qh_L1Size = get_be (gslice 36 40 b),
      qh_L1TableOffset = get_be (gslice 40 48 b), qh_RefcountTableOffset = get_be (gslice 48 56 b),
      qh_RefcountTableClusters = get_be (gslice 56 60 b), qh_NbSnapshots = get_be (gslice 60 64 b),
      qh_SnapshotsOffset = get_be (gslice 64 72 b), qh_IncompatibleFeatures = get_be (gslice 72 80 b),
      qh_CompatibleFeatures = get_be (gslice 80 88 b), qh_AutoclearFeatures = get_be (gslice 88 96 b),
      qh_RefcountOrder = get_be (gslice 96 100 b), qh_HeaderLength = get_be (gslice 100 104 b)\<rparr>"

definition new_header :: "u64 \<Rightarrow> bytes \<Rightarrow> QCOW2Header" where
  "new_header virtualSizeBytes backingFile =
     (let clusterSize = defaultClusterSize;
          l2Entries = clusterSize div 8;
          l1Size = (virtualSizeBytes + (l2Entries * clusterSize) - 1) div (l2Entries * clusterSize)
      in \<lparr>qh_Magic = qcow2Magic, qh_Version = qcow2Version,
          qh_BackingFileOffset = (if backingFile \<noteq> [] then 104 else 0),
          qh_BackingFileSize = (if backingFile \<noteq> [] then of_nat (length backingFile) else 0),
          qh_ClusterBits = defaultClusterBits, qh_Size = virtualSizeBytes, qh_CryptMethod = 0,
          qh_L1Size = ucast l1Size, qh_L1TableOffset = clusterSize,
          qh_RefcountTableOffset = clusterSize * 2, qh_RefcountTableClusters = 1,
          qh_NbSnapshots = 0, qh_SnapshotsOffset = 0, qh_IncompatibleFeatures = 0,
          qh_CompatibleFeatures = 0, qh_AutoclearFeatures = 0,
          qh_RefcountOrder = defaultRefcountOrder, qh_HeaderLength = 104\<rparr>)"

text \<open>Writes at given offsets, stopping at the first error.\<close>

fun write_list :: "GoFile \<Rightarrow> (bytes \<times> int) list \<Rightarrow> GoFile \<times> io_error option" where
  "write_list f [] = (f, None)"
| "write_list f ((d, off) # ws) =
     (case WriteAt f d off of
        (f', _, Some e) \<Rightarrow> (f', Some e)
      | (f', _, None) \<Rightarrow> write_list f' ws)"

definition CreateQCOW2 :: "GoFile \<Rightarrow> u64 \<Rightarrow> bytes \<Rightarrow> GoFile \<times> qc_error option" where
  "CreateQCOW2 f virtualSizeBytes backingFile =
     (let clusterSize = defaultClusterSize;
          l2Entries = clusterSize div 8;
          l1Size = (virtualSizeBytes + (l2Entries * clusterSize) - 1) div (l2Entries * clusterSize);
          header = new_header virtualSizeBytes backingFile
      in case write_list f
                ([(encode_header header, 0)] @
                 (if backingFile \<noteq> [] then [(backingFile, sint (qh_BackingFileOffset header))] else []) @
                 [(replicate (unat (l1Size * 8)) 0, sint (qh_L1TableOffset header)),
                  (replicate (unat clusterSize) 0, sint (qh_RefcountTableOffset header))]) of
           (f, Some e) \<Rightarrow> (f, Some (QcIO e))
         | (f, None) \<Rightarrow>
             (case Truncate f (sint (clusterSize * 3)) of
                (f, e) \<Rightarrow> (f, map_option QcIO e)))"

subsection \<open>Opening\<close>

definition read_table :: "bytes \<Rightarrow> nat \<Rightarrow> u64 list" where
  "read_table b n = map (\<lambda>i. get_be (gslice (8 * i) (8 * i + 8) b)) [0..<n]"

text \<open>
  The part of OpenQCOW2 that reads one file: header, backing file name and L1 table.
\<close>

definition open_layer :: "(nat \<Rightarrow> nat) \<Rightarrow> GoFile \<Rightarrow> qc_error + QCOW2Layer" where
  "open_layer rand f =
     (case ReadAt f 104 0 of
        (_, Some e) \<Rightarrow> Inl (QcIO e)
      | (hb, None) \<Rightarrow>
          let h = decode_header hb
          in if qh_Magic h \<noteq> qcow2Magic then Inl (QcBadMagic (qh_Magic h))
             else if qh_Version h < 2 \<or> qh_Version h > 3 then Inl (QcUnsupportedVersion (qh_Version h))
             else
               (case (if qh_BackingFileOffset h > 0 \<and> qh_BackingFileSize h > 0
                      then ReadAt f (unat (qh_BackingFileSize h)) (sint (qh_BackingFileOffset h))
                      else ([], None)) of
                  (_, Some e) \<Rightarrow> Inl (QcIO e)
                | (backing, None) \<Rightarrow>
                    if sint (qh_L1TableOffset h) < 0 then Inl (QcIO IoNegative)
                    else
                      (case ReadAt f (8 * unat (qh_L1Size h)) (sint (qh_L1TableOffset h)) of
                         (_, Some e) \<Rightarrow> Inl (QcIO e)
                       | (tb, None) \<Rightarrow>
                           Inr \<lparr>ql_file = f, ql_header = h, ql_backingFile = backing,
                                ql_clusterSize = push_bit (unat (qh_ClusterBits h)) 1,
                                ql_l1Table = read_table tb (unat (qh_L1Size h)),
                                ql_l2Cache = [], ql_rand = rand\<rparr>)))"

definition resolve_backing :: "bytes \<Rightarrow> bytes \<Rightarrow> bytes" where
  "resolve_backing path backing = (if IsAbs backing then backing else Clean (Dir path @ [47] @ backing))"

definition opened :: "bytes \<Rightarrow> GoFile" where
  "opened d = \<lparr>gf_data = d, gf_write = True, gf_open = True, gf_fault = False\<rparr>"

text \<open>
  Opening follows the chain of backing files and does not return when the chain is cyclic;
  \<open>None\<close> stands for that.
\<close>

partial_function (option) OpenQCOW2 ::
  "(bytes \<rightharpoonup> bytes) \<Rightarrow> (nat \<Rightarrow> nat) \<Rightarrow> bytes \<Rightarrow> (qc_error + QCOW2Image) option" where
  "OpenQCOW2 fs rand path =
     (case fs path of
        None \<Rightarrow> Some (Inl (QcIO IoNotFound))
      | Some d \<Rightarrow>
          (case open_layer rand (opened d) of
             Inl e \<Rightarrow> Some (Inl e)
           | Inr l \<Rightarrow>
               if ql_backingFile l = [] then Some (Inr (l, []))
               else Option.bind (OpenQCOW2 fs rand (resolve_backing path (ql_backingFile l)))
                      (\<lambda>r. case r of
                             Inl e \<Rightarrow> Some (Inl e)
                           | Inr (b, bs) \<Rightarrow> Some (Inr (l, b # bs)))))"

definition HasBacking :: "QCOW2Layer \<Rightarrow> bool" where
  "HasBacking l \<longleftrightarrow> ql_backingFile l \<noteq> []"

definition VirtualSize :: "QCOW2Layer \<Rightarrow> u64" where
  "VirtualSize l = qh_Size (ql_header l)"

text \<open>Close closes the backing chain first and reports only its own error.\<close>

fun CloseImage :: "QCOW2Layer \<Rightarrow> QCOW2Layer list \<Rightarrow> QCOW2Image \<times> io_error option" where
  "CloseImage l [] = (case CloseFile (ql_file l) of (f, e) \<Rightarrow> ((l\<lparr>ql_file := f\<rparr>, []), e))"
| "CloseImage l (b # bs) =
     (case CloseImage b bs of
        ((b', bs'), _) \<Rightarrow>
          (case CloseFile (ql_file l) of (f, e) \<Rightarrow> ((l\<lparr>ql_file := f\<rparr>, b' # bs'), e)))"

subsection \<open>Cluster tables\<close>

text \<open>
  getL2Table: a cached table, or the one on disk, which then enters the cache; a cache of
  more than 256 tables first loses one of Go's choice.
\<close>

definition evict :: "QCOW2Layer \<Rightarrow> QCOW2Layer" where
  "evict l =
     (if length (ql_l2Cache l) > 256
      then l\<lparr>ql_l2Cache := AList.delete (fst (ql_l2Cache l ! (ql_rand l 0 mod length (ql_l2Cache l)))) (ql_l2Cache l),
             ql_rand := (\<lambda>i. ql_rand l (i + 1))\<rparr>
      else l)"

definition cache_table :: "u64 \<Rightarrow> u64 list \<Rightarrow> QCOW2Layer \<Rightarrow> QCOW2Layer" where
  "cache_table l1Index t l = l\<lparr>ql_l2Cache := AList.update l1Index t (ql_l2Cache l)\<rparr>"

definition getL2Table :: "u64 \<Rightarrow> u64 \<Rightarrow> QCOW2Layer \<Rightarrow> QCOW2Layer \<times> (qc_error + u64 list)" where
  "getL2Table l1Index l1Entry l =
     (case map_of (ql_l2Cache l) l1Index of
        Some cached \<Rightarrow> (l, Inr cached)
      | None \<Rightarrow>
          (case ReadAt (ql_file l) (unat (ql_clusterSize l)) (sint (l1Entry AND l2OffsetMask)) of
             (_, Some e) \<Rightarrow> (l, Inl (QcIO e))
           | (buf, None) \<Rightarrow>
               let l2Table = read_table buf (unat (ql_clusterSize l div 8))
               in (cache_table l1Index l2Table (evict l), Inr l2Table)))"

definition allocateCluster :: "QCOW2Layer \<Rightarrow> QCOW2Layer \<times> (qc_error + u64)" where
  "allocateCluster l =
     (let currentSize = of_nat (length (gf_data (ql_file l)));
          offset = (currentSize + ql_clusterSize l - 1) AND NOT (ql_clusterSize l - 1)
      in if \<not> gf_open (ql_file l) then (l, Inl (QcIO IoClosed))
         else case Truncate (ql_file l) (sint (offset + ql_clusterSize l)) of
                (f, Some e) \<Rightarrow> (l\<lparr>ql_file := f\<rparr>, Inl (QcIO e))
              | (f, None) \<Rightarrow> (l\<lparr>ql_file := f\<rparr>, Inr offset))"

text \<open>
  allocateL2Table: a zeroed cluster, the L1 entry in memory and then on disk, and an empty
  table in the cache.
\<close>

definition allocateL2Table :: "u64 \<Rightarrow> QCOW2Layer \<Rightarrow> QCOW2Layer \<times> (qc_error + u64 list \<times> u64)" where
  "allocateL2Table l1Index l =
     (case allocateCluster l of
        (l, Inl e) \<Rightarrow> (l, Inl e)
      | (l, Inr offset) \<Rightarrow>
          (case WriteAt (ql_file l) (replicate (unat (ql_clusterSize l)) 0) (sint offset) of
             (f, _, Some e) \<Rightarrow> (l\<lparr>ql_file := f\<rparr>, Inl (QcIO e))
           | (f, _, None) \<Rightarrow>
               let l1Entry = offset OR l2EntryCopied;
                   l = l\<lparr>ql_file := f, ql_l1Table := (ql_l1Table l)[unat l1Index := l1Entry]\<rparr>;
                   l1DiskOffset = sint (qh_L1TableOffset (ql_header l) + l1Index * 8)
               in (case WriteAt (ql_file l) (put_be 8 l1Entry) l1DiskOffset of
                     (f, _, Some e) \<Rightarrow> (l\<lparr>ql_file := f\<rparr>, Inl (QcIO e))
                   | (f, _, None) \<Rightarrow>
                       let l2Table = replicate (unat (ql_clusterSize l div 8)) 0
                       in (cache_table l1Index l2Table (l\<lparr>ql_file := f\<rparr>), Inr (l2Table, l1Entry)))))"

subsection \<open>Reading and writing clusters\<close>

text \<open>
  Where a layer keeps a cluster: outside its L1 table, not allocated, or at an offset of
  its file. Cluster sizes below 8 bytes make the code divide by zero.
\<close>

datatype place = Beyond | Unallocated | At u64

definition locate :: "u64 \<Rightarrow> QCOW2Layer \<Rightarrow> QCOW2Layer \<times> (qc_error + place)" where
  "locate clusterIndex l =
     (let l2Entries = ql_clusterSize l div 8
      in if l2Entries = 0 then (l, Inl QcPanic)
         else
           let l1Index = clusterIndex div l2Entries;
               l2Index = clusterIndex mod l2Entries
           in if l1Index \<ge> ucast (qh_L1Size (ql_header l)) then (l, Inr Beyond)
              else
                let l1Entry = ql_l1Table l ! unat l1Index
                in if l1Entry = 0 then (l, Inr Unallocated)
                   else case getL2Table l1Index l1Entry l of
                          (l, Inl e) \<Rightarrow> (l, Inl e)
                        | (l, Inr l2Table) \<Rightarrow>
                            let l2Entry = l2Table ! unat l2Index
                            in (l, Inr (if l2Entry = 0 then Unallocated else At (l2Entry AND l2OffsetMask))))"

fun ReadCluster :: "QCOW2Layer \<Rightarrow> QCOW2Layer list \<Rightarrow> u64 \<Rightarrow> QCOW2Image \<times> (qc_error + bytes)" where
  "ReadCluster l ls clusterIndex =
     (case locate clusterIndex l of
        (l, Inl e) \<Rightarrow> ((l, ls), Inl e)
      | (l, Inr Beyond) \<Rightarrow> ((l, ls), Inr (replicate (unat (ql_clusterSize l)) 0))
      | (l, Inr Unallocated) \<Rightarrow>
          (case ls of
             [] \<Rightarrow> ((l, []), Inr (replicate (unat (ql_clusterSize l)) 0))
           | b # bs \<Rightarrow>
               (case ReadCluster b bs clusterIndex of
                  ((b', bs'), r) \<Rightarrow> ((l, b' # bs'), r)))
      | (l, Inr (At dataOffset)) \<Rightarrow>
          (case ReadAt (ql_file l) (unat (ql_clusterSize l)) (sint dataOffset) of
             (_, Some e) \<Rightarrow> ((l, ls), Inl (QcIO e))
           | (buf, None) \<Rightarrow> ((l, ls), Inr buf)))"

declare ReadCluster.simps [simp del]

text \<open>
  WriteCluster allocates a fresh data cluster for every write, even of a cluster that is
  already allocated. The L2 table it updates is the cached slice itself, so the update
  shows in the cache before it is on disk.
\<close>

definition ensureL2Table :: "u64 \<Rightarrow> QCOW2Layer \<Rightarrow> QCOW2Layer \<times> (qc_error + u64 list \<times> u64)" where
  "ensureL2Table l1Index l =
     (let l1Entry = ql_l1Table l ! unat l1Index
      in if l1Entry = 0 then allocateL2Table l1Index l
         else case getL2Table l1Index l1Entry l of
                (l, Inl e) \<Rightarrow> (l, Inl e)
              | (l, Inr l2Table) \<Rightarrow> (l, Inr (l2Table, l1Entry)))"

definition WriteCluster :: "u64 \<Rightarrow> bytes \<Rightarrow> QCOW2Layer \<Rightarrow> QCOW2Layer \<times> qc_error option" where
  "WriteCluster clusterIndex dat l =
     (if of_nat (length dat) \<noteq> ql_clusterSize l then (l, Some (QcDataSize (length dat) (ql_clusterSize l)))
      else
        let l2Entries = ql_clusterSize l div 8
        in if l2Entries = 0 then (l, Some QcPanic)
           else
             let l1Index = clusterIndex div l2Entries;
                 l2Index = clusterIndex mod l2Entries
             in if l1Index \<ge> ucast (qh_L1Size (ql_header l)) then (l, Some (QcBeyondVirtualSize clusterIndex))
                else case ensureL2Table l1Index l of
                  (l, Inl e) \<Rightarrow> (l, Some e)
                | (l, Inr (l2Table, l1Entry)) \<Rightarrow>
                    (case allocateCluster l of
                       (l, Inl e) \<Rightarrow> (l, Some e)
                     | (l, Inr dataOffset) \<Rightarrow>
                         (case WriteAt (ql_file l) dat (sint dataOffset) of
                            (f, _, Some e) \<Rightarrow> (l\<lparr>ql_file := f\<rparr>, Some (QcIO e))
                          | (f, _, None) \<Rightarrow>
                              let entry = dataOffset OR l2EntryCopied;
                                  l = cache_table l1Index (l2Table[unat l2Index := entry]) (l\<lparr>ql_file := f\<rparr>);
                                  l2Offset = l1Entry AND l2OffsetMask
                              in (case WriteAt (ql_file l) (put_be 8 entry) (sint (l2Offset + l2Index * 8)) of
                                    (f, _, e) \<Rightarrow> (l\<lparr>ql_file := f\<rparr>, map_option QcIO e)))))"

subsection \<open>Reading and writing bytes\<close>

text \<open>
  The byte loops. The offset is the 64-bit pattern of the \<^verbatim>\<open>int64\<close>; slicing a cluster
  (of a backing image with smaller clusters) beyond its length panics, and a copy of zero
  bytes would repeat for ever, which is why the loops are partial functions.
\<close>

partial_function (option) read_loop ::
  "QCOW2Layer \<Rightarrow> QCOW2Layer list \<Rightarrow> nat \<Rightarrow> u64 \<Rightarrow> bytes \<Rightarrow> (QCOW2Image \<times> bytes \<times> qc_error option) option" where
  "read_loop l ls n off acc =
     (if n = 0 \<or> off \<ge> qh_Size (ql_header l) then Some ((l, ls), acc, None)
      else
        (case ReadCluster l ls (off div ql_clusterSize l) of
           ((l', ls'), Inl e) \<Rightarrow> Some ((l', ls'), acc, Some e)
         | ((l', ls'), Inr cluster) \<Rightarrow>
             let clusterOffset = unat (off mod ql_clusterSize l)
             in if clusterOffset > length cluster then Some ((l', ls'), acc, Some QcPanic)
                else
                  let part = take n (drop clusterOffset cluster)
                  in read_loop l' ls' (n - length part) (off + of_nat (length part)) (acc @ part)))"

definition image_ReadAt ::
  "QCOW2Image \<Rightarrow> nat \<Rightarrow> int \<Rightarrow> (QCOW2Image \<times> bytes \<times> qc_error option) option" where
  "image_ReadAt img n off =
     (case img of (l, ls) \<Rightarrow>
        if off < 0 \<or> word_of_int off \<ge> qh_Size (ql_header l) then Some (img, [], Some (QcIO IoEOF))
        else if ql_clusterSize l = 0 \<and> n > 0 then Some (img, [], Some QcPanic)
        else map_option (\<lambda>(img, got, e). (img, got, if e = None \<and> got = [] then Some (QcIO IoEOF) else e))
               (read_loop l ls n (word_of_int off) []))"

partial_function (option) write_loop ::
  "QCOW2Layer \<Rightarrow> QCOW2Layer list \<Rightarrow> bytes \<Rightarrow> u64 \<Rightarrow> nat \<Rightarrow> (QCOW2Image \<times> nat \<times> qc_error option) option" where
  "write_loop l ls p off done_n =
     (if p = [] \<or> off \<ge> qh_Size (ql_header l) then Some ((l, ls), done_n, None)
      else
        (case ReadCluster l ls (off div ql_clusterSize l) of
           ((l', ls'), Inl e) \<Rightarrow> Some ((l', ls'), done_n, Some e)
         | ((l', ls'), Inr cluster) \<Rightarrow>
             let clusterOffset = unat (off mod ql_clusterSize l)
             in if clusterOffset > length cluster then Some ((l', ls'), done_n, Some QcPanic)
                else
                  let n = min (length cluster - clusterOffset) (length p);
                      cluster = gcopy clusterOffset (take n p) cluster
                  in (case WriteCluster (off div ql_clusterSize l) cluster l' of
                        (l', Some e) \<Rightarrow> Some ((l', ls'), done_n, Some e)
                      | (l', None) \<Rightarrow> write_loop l' ls' (drop n p) (off + of_nat n) (done_n + n))))"

definition image_WriteAt ::
  "QCOW2Image \<Rightarrow> bytes \<Rightarrow> int \<Rightarrow> (QCOW2Image \<times> nat \<times> qc_error option) option" where
  "image_WriteAt img p off =
     (case img of (l, ls) \<Rightarrow>
        if off < 0 \<or> word_of_int off \<ge> qh_Size (ql_header l) then Some (img, 0, Some (QcOutOfRange off))
        else if ql_clusterSize l = 0 \<and> p \<noteq> [] then Some (img, 0, Some QcPanic)
        else write_loop l ls p (word_of_int off) 0)"

subsection \<open>Formats and conversions\<close>

datatype ImageFormat = FormatRaw | FormatQCOW2

definition DetectFormat :: "GoFile \<Rightarrow> qc_error + ImageFormat" where
  "DetectFormat f =
     (case ReadAt f 4 0 of
        (_, Some e) \<Rightarrow> Inl (QcIO e)
      | (b, None) \<Rightarrow> Inr (if get_be b = qcow2Magic then FormatQCOW2 else FormatRaw))"

definition IsQCOW2 :: "GoFile \<Rightarrow> bool" where
  "IsQCOW2 f = (case ReadAt f 4 0 of (_, Some _) \<Rightarrow> False | (b, None) \<Rightarrow> (get_be b :: u32) = qcow2Magic)"

definition getImageVirtualSize :: "GoFile \<Rightarrow> qc_error + u64" where
  "getImageVirtualSize f =
     (case ReadAt f 4 0 of
        (_, Some e) \<Rightarrow> Inl (QcIO e)
      | (b, None) \<Rightarrow>
          if get_be b = qcow2Magic
          then (case ReadAt f 104 0 of
                  (_, Some e) \<Rightarrow> Inl (QcIO e)
                | (hb, None) \<Rightarrow> Inr (qh_Size (decode_header hb)))
          else Inr (of_nat (length (gf_data f))))"

record QCOW2Info =
  qn_VirtualSizeMB :: int
  qn_ActualSizeMB :: int
  qn_ClusterSize :: int
  qn_BackingFile :: bytes
  qn_Version :: int
  qn_HasBacking :: bool

definition InspectQCOW2 :: "GoFile \<Rightarrow> qc_error + QCOW2Info" where
  "InspectQCOW2 f =
     (case ReadAt f 104 0 of
        (_, Some e) \<Rightarrow> Inl (QcIO e)
      | (hb, None) \<Rightarrow>
          let h = decode_header hb
          in if qh_Magic h \<noteq> qcow2Magic then Inl (QcBadMagic (qh_Magic h))
             else
               let info = \<lparr>qn_VirtualSizeMB = sint (qh_Size h div (1024 * 1024)),
                           qn_ActualSizeMB = int (length (gf_data f) div (1024 * 1024)),
                           qn_ClusterSize = sint (push_bit (unat (qh_ClusterBits h)) 1 :: u64),
                           qn_BackingFile = [], qn_Version = uint (qh_Version h), qn_HasBacking = False\<rparr>
               in Inr (if qh_BackingFileOffset h > 0 \<and> qh_BackingFileSize h > 0
                       then case ReadAt f (unat (qh_BackingFileSize h)) (sint (qh_BackingFileOffset h)) of
                              (b, None) \<Rightarrow> info\<lparr>qn_BackingFile := b, qn_HasBacking := True\<rparr>
                            | (_, Some _) \<Rightarrow> info
                       else info))"

text \<open>
  The loops over the clusters of a conversion. They use the default cluster size whatever
  the image's own is; the raw writer keeps one buffer for all clusters.
\<close>

definition total_clusters :: "u64 \<Rightarrow> u64" where
  "total_clusters virtualSize = (virtualSize + defaultClusterSize - 1) div defaultClusterSize"

fun raw_loop ::
  "nat \<Rightarrow> u64 \<Rightarrow> u64 \<Rightarrow> bytes \<Rightarrow> QCOW2Layer \<Rightarrow> QCOW2Layer list \<Rightarrow> GoFile \<Rightarrow> GoFile \<times> qc_error option" where
  "raw_loop 0 virtualSize i buf l ls dst = (dst, None)"
| "raw_loop (Suc left) virtualSize i buf l ls dst =
     (case ReadCluster l ls i of
        (_, Inl e) \<Rightarrow> (dst, Some e)
      | ((l, ls), Inr dat) \<Rightarrow>
          let buf = gcopy 0 (take (length buf) dat) buf;
              offset = i * defaultClusterSize;
              remaining = sint (virtualSize - offset);
              writeLen = (if remaining < sint defaultClusterSize then remaining else sint defaultClusterSize)
          in if writeLen < 0 then (dst, Some QcPanic)
             else (case WriteAt dst (take (nat writeLen) buf) (sint offset) of
                     (dst, _, Some e) \<Rightarrow> (dst, Some (QcIO e))
                   | (dst, _, None) \<Rightarrow> raw_loop left virtualSize (i + 1) buf l ls dst))"

definition convertQCOW2ToRaw :: "QCOW2Image \<Rightarrow> GoFile \<Rightarrow> GoFile \<times> qc_error option" where
  "convertQCOW2ToRaw img dst =
     (case img of (l, ls) \<Rightarrow>
        let virtualSize = VirtualSize l
        in case Truncate dst (sint virtualSize) of
             (dst, Some e) \<Rightarrow> (dst, Some (QcIO e))
           | (dst, None) \<Rightarrow>
               raw_loop (unat (total_clusters virtualSize)) virtualSize 0
                 (replicate (unat defaultClusterSize) 0) l ls dst)"

fun fill_loop :: "nat \<Rightarrow> u64 \<Rightarrow> u64 \<Rightarrow> GoFile \<Rightarrow> QCOW2Layer \<Rightarrow> QCOW2Layer \<times> qc_error option" where
  "fill_loop 0 virtualSize i src l = (l, None)"
| "fill_loop (Suc left) virtualSize i src l =
     (let offset = i * defaultClusterSize;
          remaining = virtualSize - offset;
          readLen = (if remaining < defaultClusterSize then remaining else defaultClusterSize)
      in case ReadAt src (unat readLen) (sint offset) of
           (got, e) \<Rightarrow>
             if e \<noteq> None \<and> e \<noteq> Some IoEOF then (l, map_option QcIO e)
             else
               let buf = got @ replicate (unat defaultClusterSize - length got) 0
               in if buf = replicate (unat defaultClusterSize) 0
                  then fill_loop left virtualSize (i + 1) src l
                  else (case WriteCluster i buf l of
                          (l, Some e) \<Rightarrow> (l, Some e)
                        | (l, None) \<Rightarrow> fill_loop left virtualSize (i + 1) src l))"

text \<open>
  convertRawToQCOW2 and convertQCOW2Flatten create the destination, open it and fill it.
  A new image has no backing file, so opening it is \<open>open_layer\<close>.
\<close>

definition convertRawToQCOW2 :: "(nat \<Rightarrow> nat) \<Rightarrow> GoFile \<Rightarrow> GoFile \<Rightarrow> qc_error + QCOW2Layer" where
  "convertRawToQCOW2 rand src dst =
     (let virtualSize = of_nat (length (gf_data src))
      in case CreateQCOW2 dst virtualSize [] of
           (_, Some e) \<Rightarrow> Inl e
         | (dst, None) \<Rightarrow>
             (case open_layer rand dst of
                Inl e \<Rightarrow> Inl e
              | Inr l \<Rightarrow>
                  (case fill_loop (unat (total_clusters virtualSize)) virtualSize 0 src l of
                     (_, Some e) \<Rightarrow> Inl e
                   | (l, None) \<Rightarrow> Inr l)))"

fun flatten_loop ::
  "nat \<Rightarrow> u64 \<Rightarrow> QCOW2Layer \<Rightarrow> QCOW2Layer list \<Rightarrow> QCOW2Layer \<Rightarrow> QCOW2Layer \<times> qc_error option" where
  "flatten_loop 0 i l ls dst = (dst, None)"
| "flatten_loop (Suc left) i l ls dst =
     (case ReadCluster l ls i of
        (_, Inl e) \<Rightarrow> (dst, Some e)
      | ((l, ls), Inr dat) \<Rightarrow>
          if dat = replicate (unat defaultClusterSize) 0 then flatten_loop left (i + 1) l ls dst
          else (case WriteCluster i dat dst of
                  (dst, Some e) \<Rightarrow> (dst, Some e)
                | (dst, None) \<Rightarrow> flatten_loop left (i + 1) l ls dst))"

definition convertQCOW2Flatten :: "(nat \<Rightarrow> nat) \<Rightarrow> QCOW2Image \<Rightarrow> GoFile \<Rightarrow> qc_error + QCOW2Layer" where
  "convertQCOW2Flatten rand img dst =
     (case img of (l, ls) \<Rightarrow>
        let virtualSize = VirtualSize l
        in case CreateQCOW2 dst virtualSize [] of
             (_, Some e) \<Rightarrow> Inl e
           | (dst, None) \<Rightarrow>
               (case open_layer rand dst of
                  Inl e \<Rightarrow> Inl e
                | Inr d \<Rightarrow>
                    (case flatten_loop (unat (total_clusters virtualSize)) 0 l ls d of
                       (_, Some e) \<Rightarrow> Inl e
                     | (d, None) \<Rightarrow> Inr d)))"

text \<open>Which conversion ConvertImage runs.\<close>

datatype conversion = QCOW2ToRaw | RawToQCOW2 | QCOW2Flatten

definition choose_conversion :: "ImageFormat \<Rightarrow> ImageFormat \<Rightarrow> bool \<Rightarrow> qc_error + conversion" where
  "choose_conversion srcFormat targetFormat flat =
     (if srcFormat = targetFormat \<and> \<not> flat then Inl QcSameFormat
      else if srcFormat = FormatQCOW2 \<and> targetFormat = FormatRaw then Inr QCOW2ToRaw
      else if srcFormat = FormatRaw \<and> targetFormat = FormatQCOW2 then Inr RawToQCOW2
      else if srcFormat = FormatQCOW2 \<and> targetFormat = FormatQCOW2 \<and> flat then Inr QCOW2Flatten
      else Inl QcUnsupportedConversion)"

end
