(* ===== verification/Qcow2Proofs.thy ===== *)
theory Qcow2Proofs
  imports Qcow2
begin

text \<open>
  The layout of an image file, apart from the code: L1 and L2 tables as lists of entries,
  the region an entry points to, the invariant that regions are aligned, inside the file
  and that table clusters are shared with nothing, and how the three ways the file changes
  (growth, a new table, a new entry) act on it.
\<close>

definition eoff :: "u64 \<Rightarrow> nat" where "eoff e = unat (e AND l2OffsetMask)"

definition region :: "nat \<Rightarrow> nat \<Rightarrow> nat \<Rightarrow> nat \<Rightarrow> bool" where
  "region cs lo n a \<longleftrightarrow> cs dvd a \<and> lo \<le> a \<and> a + cs \<le> n"

definition tbl :: "nat \<Rightarrow> bytes \<Rightarrow> u64 \<Rightarrow> u64 list" where
  "tbl cs d e = read_table (gslice (eoff e) (eoff e + cs) d) (cs div 8)"

definition tables_ok :: "nat \<Rightarrow> nat \<Rightarrow> u64 list \<Rightarrow> bytes \<Rightarrow> bool" where
  "tables_ok cs lo l1 d \<longleftrightarrow>
     (\<forall>e \<in> set l1. e \<noteq> 0 \<longrightarrow> region cs lo (length d) (eoff e)) \<and>
     (\<forall>e \<in> set l1. e \<noteq> 0 \<longrightarrow> (\<forall>x \<in> set (tbl cs d e). x \<noteq> 0 \<longrightarrow> region cs lo (length d) (eoff x))) \<and>
     (\<forall>e \<in> set l1. \<forall>e' \<in> set l1. e \<noteq> 0 \<longrightarrow> e' \<noteq> 0 \<longrightarrow> (\<forall>x \<in> set (tbl cs d e'). x \<noteq> 0 \<longrightarrow> eoff x \<noteq> eoff e)) \<and>
     (\<forall>i < length l1. \<forall>j < length l1. i \<noteq> j \<longrightarrow> l1 ! i \<noteq> 0 \<longrightarrow> l1 ! j \<noteq> 0 \<longrightarrow> eoff (l1 ! i) \<noteq> eoff (l1 ! j))"

definition lookup_cluster :: "nat \<Rightarrow> u64 list \<Rightarrow> bytes \<Rightarrow> nat \<Rightarrow> nat \<Rightarrow> bytes option" where
  "lookup_cluster cs l1 d i j =
     (if i < length l1 \<and> l1 ! i \<noteq> 0 \<and> tbl cs d (l1 ! i) ! j \<noteq> 0
      then Some (gslice (eoff (tbl cs d (l1 ! i) ! j)) (eoff (tbl cs d (l1 ! i) ! j) + cs) d) else None)"

lemma length_read_table [simp]: "length (read_table b n) = n"
  by (simp add: read_table_def)

lemma length_tbl [simp]: "length (tbl cs d e) = cs div 8"
  by (simp add: tbl_def)

lemma aligned_apart:
  assumes "cs dvd a" and "cs dvd b" and "a \<noteq> (b :: nat)"
  shows "a + cs \<le> b \<or> b + cs \<le> a"
proof -
  obtain m n where "a = cs * m" "b = cs * n" using assms(1,2) unfolding dvd_def by blast
  moreover have "m < n \<or> n < m" using assms(3) calculation by (metis linorder_neqE_nat)
  ultimately show ?thesis
    by (metis Suc_leI mult.commute mult_Suc_right mult_le_mono2 add.commute)
qed

lemma tables_frame:
  assumes "tables_ok cs lo l1 d" and "length d \<le> length d'"
    and "\<And>a. region cs lo (length d) a \<Longrightarrow> gslice a (a + cs) d' = gslice a (a + cs) d"
  shows "tables_ok cs lo l1 d' \<and> (\<forall>e \<in> set l1. e \<noteq> 0 \<longrightarrow> tbl cs d' e = tbl cs d e)"
proof -
  have t: "tbl cs d' e = tbl cs d e" if "e \<in> set l1" "e \<noteq> 0" for e
    using assms(1,3) that by (simp add: tables_ok_def tbl_def)
  have r: "region cs lo (length d') a" if "region cs lo (length d) a" for a
    using that assms(2) by (simp add: region_def)
  show ?thesis
    using assms(1) t r by (auto simp: tables_ok_def)
qed

lemma lookup_frame:
  assumes "tables_ok cs lo l1 d" and "j < cs div 8"
    and "\<And>a. region cs lo (length d) a \<Longrightarrow> gslice a (a + cs) d' = gslice a (a + cs) d"
  shows "lookup_cluster cs l1 d' i j = lookup_cluster cs l1 d i j"
proof (cases "i < length l1 \<and> l1 ! i \<noteq> 0")
  case True
  then have e: "l1 ! i \<in> set l1" "l1 ! i \<noteq> 0" by auto
  then have t: "tbl cs d' (l1 ! i) = tbl cs d (l1 ! i)"
    using assms(1,3) by (simp add: tables_ok_def tbl_def)
  have "tbl cs d (l1 ! i) ! j \<in> set (tbl cs d (l1 ! i))" using assms(2) by simp
  then show ?thesis
    using e assms(1,3) unfolding lookup_cluster_def t by (simp add: tables_ok_def)
next
  case False
  then show ?thesis by (auto simp: lookup_cluster_def)
qed

subsection \<open>A new, empty table\<close>

lemma read_table_zeros: "n * 8 \<le> k \<Longrightarrow> read_table (replicate k 0) n = replicate n 0"
proof -
  assume le: "n * 8 \<le> k"
  have "get_be (gslice (8 * i) (8 * i + 8) (replicate k 0)) = (0 :: u64)" if "i < n" for i
  proof -
    have "gslice (8 * i) (8 * i + 8) (replicate k (0 :: byte)) = replicate 8 0"
      using le that by (auto simp: gslice_def min_def)
    then show ?thesis by (simp add: get_be_def numeral_eq_Suc)
  qed
  then show ?thesis by (auto intro!: nth_equalityI simp: read_table_def)
qed

lemma tables_new:
  assumes "tables_ok cs lo l1 d" and "i < length l1" and "l1 ! i = 0"
    and "region cs lo (length d) (eoff e)" and "gslice (eoff e) (eoff e + cs) d = replicate cs 0"
    and "\<forall>e' \<in> set l1. e' \<noteq> 0 \<longrightarrow> eoff e' \<noteq> eoff e"
    and "\<forall>e' \<in> set l1. e' \<noteq> 0 \<longrightarrow> (\<forall>x \<in> set (tbl cs d e'). x \<noteq> 0 \<longrightarrow> eoff x \<noteq> eoff e)"
  shows "tables_ok cs lo (l1[i := e]) d"
proof -
  have t: "tbl cs d e = replicate (cs div 8) 0"
    using assms(5) by (simp add: tbl_def read_table_zeros)
  have sub: "set (l1[i := e]) \<subseteq> insert e (set l1)" by (rule set_update_subset_insert)
  have old: "x = e \<or> x \<in> set l1" if "x \<in> set (l1[i := e])" for x using sub that by blast
  note ok = assms(1) [unfolded tables_ok_def]
  have 1: "\<forall>x \<in> set (l1[i := e]). x \<noteq> 0 \<longrightarrow> region cs lo (length d) (eoff x)"
    using old ok assms(4) by blast
  have 2: "\<forall>x \<in> set (l1[i := e]). x \<noteq> 0 \<longrightarrow> (\<forall>y \<in> set (tbl cs d x). y \<noteq> 0 \<longrightarrow> region cs lo (length d) (eoff y))"
    using old ok t by fastforce
  have 3: "\<forall>x \<in> set (l1[i := e]). \<forall>x' \<in> set (l1[i := e]). x \<noteq> 0 \<longrightarrow> x' \<noteq> 0 \<longrightarrow>
      (\<forall>y \<in> set (tbl cs d x'). y \<noteq> 0 \<longrightarrow> eoff y \<noteq> eoff x)"
  proof (intro ballI impI)
    fix x x' y
    assume a: "x \<in> set (l1[i := e])" "x' \<in> set (l1[i := e])" "x \<noteq> 0" "x' \<noteq> 0" "y \<in> set (tbl cs d x')" "y \<noteq> 0"
    have "x' \<noteq> e" using a(5,6) t by auto
    then have "x' \<in> set l1" using old a(2) by blast
    then show "eoff y \<noteq> eoff x" using old [OF a(1)] a(3-6) ok assms(7) by blast
  qed
  have 4: "eoff (l1[i := e] ! a) \<noteq> eoff (l1[i := e] ! b)"
    if "a < length l1" "b < length l1" "a \<noteq> b" "l1[i := e] ! a \<noteq> 0" "l1[i := e] ! b \<noteq> 0" for a b
  proof (cases "a = i \<or> b = i")
    case True
    then show ?thesis using that assms(2,6) by (metis nth_list_update_eq nth_list_update_neq nth_mem)
  next
    case False
    then show ?thesis using that ok by simp
  qed
  show ?thesis unfolding tables_ok_def using 1 2 3 4 by simp
qed

lemma lookup_new:
  assumes "gslice (eoff e) (eoff e + cs) d = replicate cs 0" and "l1 ! i = 0" and "b < cs div 8"
  shows "lookup_cluster cs (l1[i := e]) d a b = lookup_cluster cs l1 d a b"
proof (cases "a = i")
  case True
  have "tbl cs d e ! b = 0" using assms(1,3) by (simp add: tbl_def read_table_zeros)
  then show ?thesis using True assms(2) by (simp add: lookup_cluster_def)
next
  case False
  then show ?thesis by (simp add: lookup_cluster_def)
qed

subsection \<open>A new entry\<close>

lemma gslice_overlay_disjoint:
  "b \<le> length d \<Longrightarrow> b \<le> off \<or> off + length s \<le> a \<Longrightarrow> gslice a b (overlay off s d) = gslice a b d"
  using gslice_overlay_before gslice_overlay_after by blast

lemma read_table_set:
  assumes "length b = 8 * n" and "j < n"
  shows "read_table (overlay (8 * j) (put_be 8 x) b) n = (read_table b n)[j := x]"
proof (rule nth_equalityI)
  fix k assume "k < length (read_table (overlay (8 * j) (put_be 8 x) b) n)"
  then have k: "k < n" by simp
  have "get_be (gslice (8 * k) (8 * k + 8) (overlay (8 * j) (put_be 8 x) b)) =
      (if k = j then x else get_be (gslice (8 * k) (8 * k + 8) b))"
  proof (cases "k = j")
    case True
    have "gslice (8 * j) (8 * j + 8) (overlay (8 * j) (put_be 8 x) b) = put_be 8 x"
      using gslice_overlay_same [of "8 * j" "put_be 8 x"] by simp
    then show ?thesis using True by simp
  next
    case False
    then have "8 * k + 8 \<le> 8 * j \<or> 8 * j + 8 \<le> 8 * k" by linarith
    then have "gslice (8 * k) (8 * k + 8) (overlay (8 * j) (put_be 8 x) b) = gslice (8 * k) (8 * k + 8) b"
      using assms(1) k by (intro gslice_overlay_disjoint) auto
    then show ?thesis using False by simp
  qed
  then show "read_table (overlay (8 * j) (put_be 8 x) b) n ! k = (read_table b n)[j := x] ! k"
    using k assms(2) by (auto simp: read_table_def)
qed simp

lemma gslice_overlay_inside:
  assumes "a \<le> off" and "off + length s \<le> b" and "b \<le> length d"
  shows "gslice a b (overlay off s d) = overlay (off - a) s (gslice a b d)"
  using assms by (intro nth_equalityI) (auto simp: gslice_def nth_overlay add.commute)

lemma tbl_set:
  assumes "8 dvd cs" and "eoff e + cs \<le> length d" and "j < cs div 8"
  shows "tbl cs (overlay (eoff e + 8 * j) (put_be 8 x) d) e = (tbl cs d e)[j := x]"
proof -
  have b: "8 * j + 8 \<le> cs" using assms(3) by linarith
  have "gslice (eoff e) (eoff e + cs) (overlay (eoff e + 8 * j) (put_be 8 x) d) =
      overlay (8 * j) (put_be 8 x) (gslice (eoff e) (eoff e + cs) d)"
    using gslice_overlay_inside [of "eoff e" "eoff e + 8 * j" "put_be 8 x" "eoff e + cs" d] assms(2) b by simp
  then show ?thesis
    using read_table_set [of "gslice (eoff e) (eoff e + cs) d" "cs div 8" j x] assms by (simp add: tbl_def)
qed

lemma tables_set:
  assumes ok: "tables_ok cs lo l1 d" and cs: "8 dvd cs"
    and i: "i < length l1" "l1 ! i \<noteq> 0" and j: "j < cs div 8"
    and x: "region cs lo (length d) (eoff x)" "\<forall>e \<in> set l1. e \<noteq> 0 \<longrightarrow> eoff x \<noteq> eoff e"
  defines "d' \<equiv> overlay (eoff (l1 ! i) + 8 * j) (put_be 8 x) d"
  shows "tables_ok cs lo l1 d'" and "length d' = length d"
    and "\<And>a b. b < cs div 8 \<Longrightarrow> lookup_cluster cs l1 d' a b =
          (if a = i \<and> b = j \<and> x \<noteq> 0 then Some (gslice (eoff x) (eoff x + cs) d)
           else if a = i \<and> b = j then None else lookup_cluster cs l1 d a b)"
    and "\<And>a. a < length l1 \<Longrightarrow> l1 ! a \<noteq> 0 \<Longrightarrow> tbl cs d' (l1 ! a) = (if a = i then (tbl cs d (l1 ! i))[j := x] else tbl cs d (l1 ! a))"
proof -
  let ?o = "eoff (l1 ! i)"
  note T = ok [unfolded tables_ok_def]
  have ri: "region cs lo (length d) ?o" using T i by simp
  have b: "8 * j + 8 \<le> cs" using j by linarith
  show len: "length d' = length d" using ri b by (simp add: d'_def region_def)
  have apart: "gslice a (a + cs) d' = gslice a (a + cs) d" if "region cs lo (length d) a" "a \<noteq> ?o" for a
  proof -
    have "a + cs \<le> ?o \<or> ?o + cs \<le> a" using aligned_apart [of cs a ?o] that ri by (auto simp: region_def)
    then show ?thesis unfolding d'_def using that(1) b
      by (intro gslice_overlay_disjoint) (auto simp: region_def)
  qed
  show tb: "\<And>a. a < length l1 \<Longrightarrow> l1 ! a \<noteq> 0 \<Longrightarrow>
      tbl cs d' (l1 ! a) = (if a = i then (tbl cs d (l1 ! i))[j := x] else tbl cs d (l1 ! a))"
  proof -
    fix a assume a: "a < length l1" "l1 ! a \<noteq> 0"
    show "tbl cs d' (l1 ! a) = (if a = i then (tbl cs d (l1 ! i))[j := x] else tbl cs d (l1 ! a))"
    proof (cases "a = i")
      case True
      then show ?thesis using tbl_set [OF cs _ j, of "l1 ! i" d x] ri by (simp add: d'_def region_def)
    next
      case False
      then have "eoff (l1 ! a) \<noteq> ?o" "region cs lo (length d) (eoff (l1 ! a))" using T a i by simp_all
      then show ?thesis using False apart by (simp add: tbl_def)
    qed
  qed
  have mem: "y = x \<or> (\<exists>e' \<in> set l1. e' \<noteq> 0 \<and> y \<in> set (tbl cs d e'))"
    if e: "e \<in> set l1" "e \<noteq> 0" and y: "y \<in> set (tbl cs d' e)" for e y
  proof -
    obtain a where a: "a < length l1" "e = l1 ! a" using e(1) by (auto simp: in_set_conv_nth)
    then have "set (tbl cs d' e) \<subseteq> insert x (set (tbl cs d e))"
      using tb [of a] e(2) by (auto split: if_splits dest: set_update_subset_insert [THEN subsetD])
    then show ?thesis using e y by blast
  qed
  have new: "region cs lo (length d) (eoff y) \<and> (\<forall>e' \<in> set l1. e' \<noteq> 0 \<longrightarrow> eoff y \<noteq> eoff e')"
    if "e \<in> set l1" "e \<noteq> 0" "y \<in> set (tbl cs d' e)" "y \<noteq> 0" for e y
    using mem [OF that(1-3)]
  proof
    assume "y = x"
    then show ?thesis using x by simp
  next
    assume "\<exists>e' \<in> set l1. e' \<noteq> 0 \<and> y \<in> set (tbl cs d e')"
    then obtain e' where "e' \<in> set l1" "e' \<noteq> 0" "y \<in> set (tbl cs d e')" by blast
    then show ?thesis using T that(4) by simp
  qed
  show "tables_ok cs lo l1 d'"
    unfolding tables_ok_def len using T new by simp
  show "lookup_cluster cs l1 d' a b' =
          (if a = i \<and> b' = j \<and> x \<noteq> 0 then Some (gslice (eoff x) (eoff x + cs) d)
           else if a = i \<and> b' = j then None else lookup_cluster cs l1 d a b')" if b': "b' < cs div 8" for a b'
  proof (cases "a < length l1 \<and> l1 ! a \<noteq> 0")
    case True
    define y where "y = tbl cs d' (l1 ! a) ! b'"
    have e: "l1 ! a \<in> set l1" using True by simp
    have ym: "y \<in> set (tbl cs d' (l1 ! a))" unfolding y_def by (rule nth_mem) (simp add: b')
    have y: "y = (if a = i \<and> b' = j then x else tbl cs d (l1 ! a) ! b')"
      using tb [of a] True b' by (auto simp: y_def)
    have keep: "gslice (eoff y) (eoff y + cs) d' = gslice (eoff y) (eoff y + cs) d" if "y \<noteq> 0"
      using new [OF e _ ym that] True i that apart [of "eoff y"] nth_mem [OF i(1)] by simp
    have "lookup_cluster cs l1 d' a b' = (if y \<noteq> 0 then Some (gslice (eoff y) (eoff y + cs) d) else None)"
      unfolding lookup_cluster_def y_def [symmetric] using True keep by simp
    then show ?thesis unfolding y using True by (simp add: lookup_cluster_def)
  next
    case False
    then show ?thesis using i by (auto simp: lookup_cluster_def)
  qed
qed

text \<open>
  An open layer that fits its file (\<open>layer_ok\<close>), what its clusters hold (\<open>cluster_content\<close>,
  read through the backing chain without any cache), and the proofs that ReadCluster and
  WriteCluster implement reading and updating that content.
\<close>

subsection \<open>Entries and offsets\<close>

lemma offset_mask: "l2OffsetMask = push_bit 9 (mask 47)" "l2EntryCopied = push_bit 63 1"
  by (simp_all add: l2OffsetMask_def l2EntryCopied_def mask_eq_exp_minus_1 push_bit_eq_mult)

lemma bit_offset_mask: "bit l2OffsetMask n \<longleftrightarrow> 9 \<le> n \<and> n < 56"
  unfolding offset_mask by (auto simp: bit_push_bit_iff bit_mask_iff)

lemma bit_copied: "bit l2EntryCopied n \<longleftrightarrow> n = 63"
  unfolding offset_mask by (auto simp only: bit_push_bit_iff bit_1_iff) simp_all

lemma eoff_less: "eoff e < 2 ^ 56"
proof -
  have "e AND l2OffsetMask = take_bit 56 (e AND l2OffsetMask)"
    by (rule bit_word_eqI) (auto simp: bit_and_iff bit_take_bit_iff bit_offset_mask)
  then have "eoff e = unat (take_bit 56 (e AND l2OffsetMask))" by (simp add: eoff_def)
  also have "\<dots> = take_bit 56 (unat (e AND l2OffsetMask))" by (rule unsigned_take_bit_eq)
  also have "\<dots> < 2 ^ 56" by (rule take_bit_nat_less_exp)
  finally show ?thesis .
qed

lemma sint_eoff: "sint (e AND l2OffsetMask) = int (eoff e)"
  using sint_small [of "e AND l2OffsetMask"] eoff_less [of e] by (simp add: eoff_def)

lemma masked_entry:
  assumes "unat a < 2 ^ 55" and "512 dvd unat (a :: u64)"
  shows "(a OR l2EntryCopied) AND l2OffsetMask = a"
proof -
  have hi: "\<not> bit a n" if "55 \<le> n" for n
  proof -
    have "take_bit 55 (unat a) = unat a" using assms(1) by (simp add: take_bit_nat_eq_self)
    then have "take_bit 55 a = a" by (metis unsigned_take_bit_eq word_unat_eq_iff)
    then have "bit a n \<longleftrightarrow> bit (take_bit 55 a) n" by simp
    then show ?thesis using that by (simp add: bit_take_bit_iff)
  qed
  have lo: "\<not> bit a n" if "n < 9" for n
  proof -
    obtain q where q: "unat a = 512 * q" using assms(2) unfolding dvd_def by blast
    have "unat a = push_bit 9 q" unfolding q push_bit_eq_mult by simp
    then have "\<not> bit (unat a) n" using that by (simp add: bit_push_bit_iff)
    then show ?thesis by (simp add: bit_unsigned_iff)
  qed
  show ?thesis
  proof (rule bit_word_eqI)
    fix n assume "n < LENGTH(64)"
    then have n: "n < 64" by simp
    have range: "bit a n \<Longrightarrow> 9 \<le> n \<and> n < 56" 
    proof -
      assume b: "bit a n"
      then have "\<not> 55 \<le> n" "\<not> n < 9" using hi [of n] lo [of n] by blast+
      then show "9 \<le> n \<and> n < 56" by linarith
    qed
    show "bit ((a OR l2EntryCopied) AND l2OffsetMask) n = bit a n"
      using range n by (auto simp: bit_and_iff bit_or_iff bit_offset_mask bit_copied)
  qed
qed

lemma new_entry:
  assumes "unat a < 2 ^ 55" and "512 dvd unat (a :: u64)"
  shows "eoff (a OR l2EntryCopied) = unat a" and "a OR l2EntryCopied \<noteq> 0"
proof -
  show "eoff (a OR l2EntryCopied) = unat a" by (simp add: eoff_def masked_entry [OF assms])
  have "bit (a OR l2EntryCopied) 63" by (simp add: bit_or_iff bit_copied)
  then show "a OR l2EntryCopied \<noteq> 0" by auto
qed

lemma clear_low_bits: "(w :: u64) AND NOT (2 ^ k - 1) = push_bit k (drop_bit k w)"
proof -
  have m: "(2 ^ k - 1 :: u64) = mask k" by (simp add: mask_eq_exp_minus_1)
  show ?thesis unfolding m
    by (rule bit_word_eqI)
       (auto simp: bit_and_iff bit_not_iff bit_push_bit_iff bit_drop_bit_eq bit_mask_iff)
qed

lemma unat_clear_low_bits: "unat ((w :: u64) AND NOT (2 ^ k - 1)) = unat w div 2 ^ k * 2 ^ k"
proof (cases "k < 64")
  case True
  have e: "(w :: u64) AND NOT (2 ^ k - 1) = drop_bit k w * 2 ^ k"
    by (simp add: clear_low_bits push_bit_eq_mult)
  have d: "unat (drop_bit k w) = unat w div 2 ^ k"
    by (metis unat_drop_bit_eq drop_bit_eq_div)
  have p: "unat (2 ^ k :: u64) = 2 ^ k" using True by (simp add: unat_pow2)
  have "unat w div 2 ^ k * 2 ^ k \<le> unat w" by (rule div_times_less_eq_dividend)
  then have "unat w div 2 ^ k * 2 ^ k < 2 ^ 64" using unat_less_64 [of w] by linarith
  then show ?thesis unfolding e using unat_mult_small [of "drop_bit k w" "2 ^ k"] d p by simp
next
  case False
  then have z: "(2 ^ k :: u64) = 0" by (simp add: exp_eq_zero_iff)
  have "w AND NOT (2 ^ k - 1) = 0" unfolding z by simp
  moreover have "unat w div 2 ^ k = 0"
  proof -
    have "(2 :: nat) ^ 64 \<le> 2 ^ k" using False by (intro power_increasing) auto
    then show ?thesis using unat_less_64 [of w] by (intro div_less) linarith
  qed
  ultimately show ?thesis by simp
qed

lemma unat_widen: "unat (ucast (x :: u32) :: u64) = unat x"
proof -
  have "unat x < 2 ^ LENGTH(64)" using unsigned_less [of x, where 'a = nat] by simp
  then have "take_bit LENGTH(64) (unat x) = unat x" by (rule take_bit_nat_eq_self)
  then show ?thesis by (simp only: unsigned_ucast_eq)
qed

subsection \<open>Layers\<close>

definition csize :: "QCOW2Layer \<Rightarrow> nat" where "csize l = unat (ql_clusterSize l)"

definition l1_lo :: "QCOW2Layer \<Rightarrow> nat" where
  "l1_lo l = unat (qh_L1TableOffset (ql_header l))"

definition l1_hi :: "QCOW2Layer \<Rightarrow> nat" where
  "l1_hi l = l1_lo l + 8 * unat (qh_L1Size (ql_header l))"

definition ldata :: "QCOW2Layer \<Rightarrow> bytes" where "ldata l = gf_data (ql_file l)"

definition cluster_size_ok :: "u64 \<Rightarrow> bool" where
  "cluster_size_ok c \<longleftrightarrow> (\<exists>k. 9 \<le> k \<and> k \<le> 32 \<and> c = 2 ^ k)"

definition layer_ok :: "QCOW2Layer \<Rightarrow> bool" where
  "layer_ok l \<longleftrightarrow>
     usable (ql_file l) \<and> cluster_size_ok (ql_clusterSize l) \<and> length (ldata l) < 2 ^ 55 \<and>
     length (ql_l1Table l) = unat (qh_L1Size (ql_header l)) \<and>
     104 \<le> l1_lo l \<and> l1_hi l \<le> length (ldata l) \<and>
     gslice 0 104 (ldata l) = encode_header (ql_header l) \<and>
     read_table (gslice (l1_lo l) (l1_hi l) (ldata l)) (length (ql_l1Table l)) = ql_l1Table l \<and>
     tables_ok (csize l) (l1_hi l) (ql_l1Table l) (ldata l) \<and>
     (\<forall>k t. map_of (ql_l2Cache l) k = Some t \<longrightarrow>
        unat k < length (ql_l1Table l) \<and> ql_l1Table l ! unat k \<noteq> 0 \<and>
        t = tbl (csize l) (ldata l) (ql_l1Table l ! unat k))"

text \<open>Two states of a layer that differ in the cache only.\<close>

definition same_layer :: "QCOW2Layer \<Rightarrow> QCOW2Layer \<Rightarrow> bool" where
  "same_layer l l' \<longleftrightarrow> l' = l\<lparr>ql_l2Cache := ql_l2Cache l', ql_rand := ql_rand l'\<rparr>"

definition table_index :: "QCOW2Layer \<Rightarrow> u64 \<Rightarrow> nat" where
  "table_index l ci = unat ci div (csize l div 8)"

definition entry_index :: "QCOW2Layer \<Rightarrow> u64 \<Rightarrow> nat" where
  "entry_index l ci = unat ci mod (csize l div 8)"

definition own_cluster :: "QCOW2Layer \<Rightarrow> u64 \<Rightarrow> bytes option" where
  "own_cluster l ci =
     lookup_cluster (csize l) (ql_l1Table l) (ldata l) (table_index l ci) (entry_index l ci)"

fun cluster_content :: "QCOW2Layer \<Rightarrow> QCOW2Layer list \<Rightarrow> u64 \<Rightarrow> bytes" where
  "cluster_content l ls ci =
     (if table_index l ci \<ge> unat (qh_L1Size (ql_header l)) then replicate (csize l) 0
      else case own_cluster l ci of
             Some d \<Rightarrow> d
           | None \<Rightarrow> (case ls of [] \<Rightarrow> replicate (csize l) 0 | b # bs \<Rightarrow> cluster_content b bs ci))"

declare cluster_content.simps [simp del]

lemma same_layer_simps:
  assumes "same_layer l l'"
  shows "ql_file l' = ql_file l" "ql_header l' = ql_header l" "ql_clusterSize l' = ql_clusterSize l"
    "ql_l1Table l' = ql_l1Table l" "ql_backingFile l' = ql_backingFile l"
    "csize l' = csize l" "l1_lo l' = l1_lo l" "l1_hi l' = l1_hi l" "ldata l' = ldata l"
    "table_index l' = table_index l" "entry_index l' = entry_index l" "own_cluster l' = own_cluster l"
proof -
  have l': "l' = l\<lparr>ql_l2Cache := ql_l2Cache l', ql_rand := ql_rand l'\<rparr>" using assms by (simp add: same_layer_def)
  show 1: "ql_file l' = ql_file l" "ql_header l' = ql_header l" "ql_clusterSize l' = ql_clusterSize l"
    "ql_l1Table l' = ql_l1Table l" "ql_backingFile l' = ql_backingFile l"
    by (subst l', simp)+
  show "csize l' = csize l" "l1_lo l' = l1_lo l" "l1_hi l' = l1_hi l" "ldata l' = ldata l"
    "table_index l' = table_index l" "entry_index l' = entry_index l" "own_cluster l' = own_cluster l"
    using 1 by (simp_all add: csize_def l1_lo_def l1_hi_def ldata_def table_index_def entry_index_def own_cluster_def fun_eq_iff)
qed

lemma same_layer_refl [simp]: "same_layer l l"
  by (simp add: same_layer_def)

lemma same_layer_trans: "same_layer a b \<Longrightarrow> same_layer b c \<Longrightarrow> same_layer a c"
  unfolding same_layer_def by (metis (no_types, lifting) QCOW2Layer.surjective QCOW2Layer.update_convs(6,7) QCOW2Layer.select_convs(1-7))

lemma cluster_content_same:
  "same_layer l l' \<Longrightarrow> list_all2 same_layer ls ls' \<Longrightarrow> cluster_content l' ls' ci = cluster_content l ls ci"
proof (induction ls arbitrary: l l' ls')
  case Nil
  then show ?case
    unfolding cluster_content.simps [of l] cluster_content.simps [of l'] same_layer_simps [OF Nil(1)]
    using Nil(2) by (simp split: option.splits)
next
  case (Cons b bs)
  then obtain b' bs' where ls': "ls' = b' # bs'" "same_layer b b'" "list_all2 same_layer bs bs'"
    by (auto simp: list_all2_Cons1)
  show ?case
    unfolding cluster_content.simps [of l] cluster_content.simps [of l'] ls'(1) same_layer_simps [OF Cons.prems(1)]
    using Cons.IH [OF ls'(2,3)] by (simp split: option.splits)
qed

lemma csize_facts:
  assumes "layer_ok l"
  shows "512 dvd csize l" "8 dvd csize l" "0 < csize l" "512 \<le> csize l" "csize l \<le> 2 ^ 32"
    "unat (ql_clusterSize l div 8) = csize l div 8" "ql_clusterSize l div 8 \<noteq> 0"
    "0 < csize l div 8"
proof -
  obtain k where k: "9 \<le> k" "k \<le> 32" "ql_clusterSize l = 2 ^ k"
    using assms by (auto simp: layer_ok_def cluster_size_ok_def)
  have c: "csize l = 2 ^ k" using k by (simp add: csize_def unat_pow2)
  have "(512 :: nat) dvd 2 ^ k" using le_imp_power_dvd [OF k(1), of "2 :: nat"] by simp
  then show d: "512 dvd csize l" using c by simp
  then show d8: "8 dvd csize l" using dvd_trans [of 8 512 "csize l"] by simp
  show pos: "0 < csize l" using c by simp
  show le: "512 \<le> csize l" using d pos by (rule dvd_imp_le)
  show "csize l \<le> 2 ^ 32" unfolding c using k by (intro power_increasing) auto
  show u: "unat (ql_clusterSize l div 8) = csize l div 8" by (simp add: csize_def unat_div)
  show pos8: "0 < csize l div 8" using le by simp
  show "ql_clusterSize l div 8 \<noteq> 0" using u pos8 by auto
qed

lemma layer_okD:
  assumes "layer_ok l"
  shows "usable (ql_file l)" "length (ql_l1Table l) = unat (qh_L1Size (ql_header l))"
    "tables_ok (csize l) (l1_hi l) (ql_l1Table l) (ldata l)" "length (ldata l) < 2 ^ 55"
    "104 \<le> l1_lo l" "l1_hi l \<le> length (ldata l)" "gslice 0 104 (ldata l) = encode_header (ql_header l)"
    "read_table (gslice (l1_lo l) (l1_hi l) (ldata l)) (length (ql_l1Table l)) = ql_l1Table l"
    "cluster_size_ok (ql_clusterSize l)"
    "map_of (ql_l2Cache l) k = Some t \<Longrightarrow> unat k < length (ql_l1Table l) \<and> ql_l1Table l ! unat k \<noteq> 0 \<and>
        t = tbl (csize l) (ldata l) (ql_l1Table l ! unat k)"
  using assms by (auto simp: layer_ok_def)

lemma layer_ok_cache:
  assumes "layer_ok l" and "same_layer l l'"
    and "\<And>k t. map_of (ql_l2Cache l') k = Some t \<Longrightarrow> unat k < length (ql_l1Table l) \<and>
        ql_l1Table l ! unat k \<noteq> 0 \<and> t = tbl (csize l) (ldata l) (ql_l1Table l ! unat k)"
  shows "layer_ok l'"
  using assms unfolding layer_ok_def same_layer_simps [OF assms(2)] by blast

subsection \<open>Finding a cluster\<close>

lemma getL2Table_ok:
  assumes "layer_ok l" and "unat k < length (ql_l1Table l)" and "ql_l1Table l ! unat k \<noteq> 0"
  shows "\<exists>l'. getL2Table k (ql_l1Table l ! unat k) l = (l', Inr (tbl (csize l) (ldata l) (ql_l1Table l ! unat k))) \<and>
    same_layer l l' \<and> layer_ok l' \<and> map_of (ql_l2Cache l') k = Some (tbl (csize l) (ldata l) (ql_l1Table l ! unat k))"
proof (cases "map_of (ql_l2Cache l) k")
  case (Some t)
  then have "t = tbl (csize l) (ldata l) (ql_l1Table l ! unat k)" using layer_okD(10) [OF assms(1)] by blast
  then show ?thesis using Some assms(1) by (intro exI [of _ l]) (simp add: getL2Table_def)
next
  case None
  let ?e = "ql_l1Table l ! unat k" and ?t = "tbl (csize l) (ldata l) (ql_l1Table l ! unat k)"
  have reg: "region (csize l) (l1_hi l) (length (ldata l)) (eoff ?e)"
    using layer_okD(3) [OF assms(1)] assms(2,3) by (simp add: tables_ok_def)
  have read: "ReadAt (ql_file l) (unat (ql_clusterSize l)) (sint (?e AND l2OffsetMask)) =
      (gslice (eoff ?e) (eoff ?e + csize l) (ldata l), None)"
    using ReadAt_ok [of "ql_file l" "int (eoff ?e)" "csize l"] layer_okD(1) [OF assms(1)] reg
    by (simp add: sint_eoff csize_def [symmetric] ldata_def region_def)
  let ?l' = "cache_table k ?t (evict l)"
  have same: "same_layer l ?l'" by (simp add: same_layer_def cache_table_def evict_def)
  have sub: "map_of (ql_l2Cache (evict l)) k' = Some t \<Longrightarrow> map_of (ql_l2Cache l) k' = Some t" for k' t
    by (auto simp: evict_def AList.delete_conv' split: if_splits)
  have "layer_ok ?l'"
  proof (rule layer_ok_cache [OF assms(1) same])
    fix k' t assume t: "map_of (ql_l2Cache ?l') k' = Some t"
    show "unat k' < length (ql_l1Table l) \<and> ql_l1Table l ! unat k' \<noteq> 0 \<and> t = tbl (csize l) (ldata l) (ql_l1Table l ! unat k')"
    proof (cases "k' = k")
      case True
      then show ?thesis using t assms(2,3) by (simp add: cache_table_def update_conv')
    next
      case False
      then show ?thesis using t sub layer_okD(10) [OF assms(1)] by (simp add: cache_table_def update_conv')
    qed
  qed
  moreover have "getL2Table k ?e l = (?l', Inr ?t)"
    unfolding getL2Table_def None option.case read prod.case Let_def
    by (simp add: tbl_def csize_def unat_div)
  moreover have "map_of (ql_l2Cache ?l') k = Some ?t" by (simp add: cache_table_def update_conv')
  ultimately show ?thesis using same by blast
qed

lemma index_unat:
  assumes "layer_ok l"
  shows "unat (ci div (ql_clusterSize l div 8)) = table_index l ci"
    "unat (ci mod (ql_clusterSize l div 8)) = entry_index l ci"
    "ucast (qh_L1Size (ql_header l)) \<le> ci div (ql_clusterSize l div 8) \<longleftrightarrow>
       unat (qh_L1Size (ql_header l)) \<le> table_index l ci"
    "entry_index l ci < csize l div 8"
proof -
  note c = csize_facts [OF assms]
  show t: "unat (ci div (ql_clusterSize l div 8)) = table_index l ci"
    unfolding table_index_def c(6) [symmetric] by (rule unat_div)
  show "unat (ci mod (ql_clusterSize l div 8)) = entry_index l ci"
    unfolding entry_index_def c(6) [symmetric] by (rule unat_mod)
  have u: "unat (ucast (qh_L1Size (ql_header l)) :: u64) = unat (qh_L1Size (ql_header l))"
    by (rule unat_widen)
  show "ucast (qh_L1Size (ql_header l)) \<le> ci div (ql_clusterSize l div 8) \<longleftrightarrow>
       unat (qh_L1Size (ql_header l)) \<le> table_index l ci"
    unfolding word_le_nat_alt u t ..
  show "entry_index l ci < csize l div 8" using c(8) by (simp add: entry_index_def)
qed

definition place_of :: "QCOW2Layer \<Rightarrow> u64 \<Rightarrow> place" where
  "place_of l ci =
     (if table_index l ci \<ge> unat (qh_L1Size (ql_header l)) then Beyond
      else let e = ql_l1Table l ! table_index l ci; x = tbl (csize l) (ldata l) e ! entry_index l ci
           in if e = 0 \<or> x = 0 then Unallocated else At (x AND l2OffsetMask))"

lemma locate_ok:
  assumes "layer_ok l"
  shows "\<exists>l'. locate ci l = (l', Inr (place_of l ci)) \<and> same_layer l l' \<and> layer_ok l'"
proof -
  note c = csize_facts [OF assms] and ix = index_unat [OF assms, of ci]
  let ?k = "ci div (ql_clusterSize l div 8)" and ?e = "ql_l1Table l ! table_index l ci"
  consider "unat (qh_L1Size (ql_header l)) \<le> table_index l ci"
    | "table_index l ci < unat (qh_L1Size (ql_header l))" "?e = 0"
    | "table_index l ci < unat (qh_L1Size (ql_header l))" "?e \<noteq> 0" by linarith
  then show ?thesis
  proof cases
    case 1
    then show ?thesis using assms c(7) ix by (intro exI [of _ l]) (simp add: locate_def Let_def place_of_def)
  next
    case 2
    then show ?thesis using assms c(7) ix by (intro exI [of _ l]) (simp add: locate_def Let_def place_of_def)
  next
    case 3
    then have k: "unat ?k < length (ql_l1Table l)" "ql_l1Table l ! unat ?k \<noteq> 0"
      using layer_okD(2) [OF assms] by (simp_all add: ix(1))
    from getL2Table_ok [OF assms k] obtain l' where
      l': "getL2Table ?k ?e l = (l', Inr (tbl (csize l) (ldata l) ?e))" "same_layer l l'" "layer_ok l'"
      unfolding ix(1) by blast
    then show ?thesis using 3 c(7)
      by (intro exI [of _ l']) (simp add: locate_def Let_def place_of_def ix)
  qed
qed

lemma own_cluster_place:
  assumes "layer_ok l" and "table_index l ci < unat (qh_L1Size (ql_header l))"
  shows "own_cluster l ci = (case place_of l ci of
      At a \<Rightarrow> Some (gslice (unat a) (unat a + csize l) (ldata l)) | _ \<Rightarrow> None)"
  using assms by (simp add: own_cluster_def lookup_cluster_def place_of_def layer_okD(2) [OF assms(1)] Let_def eoff_def)

lemma place_region:
  assumes "layer_ok l" and "place_of l ci = At a"
  shows "region (csize l) (l1_hi l) (length (ldata l)) (unat a) \<and> sint a = int (unat a)"
proof -
  let ?e = "ql_l1Table l ! table_index l ci"
  let ?x = "tbl (csize l) (ldata l) ?e ! entry_index l ci"
  have h: "table_index l ci < length (ql_l1Table l)" "?e \<noteq> 0" "?x \<noteq> 0" "a = ?x AND l2OffsetMask"
    using assms(2) layer_okD(2) [OF assms(1)] by (auto simp: place_of_def Let_def split: if_splits)
  have "?e \<in> set (ql_l1Table l)" "?x \<in> set (tbl (csize l) (ldata l) ?e)"
    using h(1) index_unat(4) [OF assms(1), of ci] by simp_all
  then have "region (csize l) (l1_hi l) (length (ldata l)) (eoff ?x)"
    using layer_okD(3) [OF assms(1)] h(2,3) unfolding tables_ok_def by blast
  then show ?thesis using sint_eoff [of ?x] unfolding h(4) eoff_def by simp
qed

lemma ReadCluster_ok:
  "layer_ok l \<Longrightarrow> list_all layer_ok ls \<Longrightarrow>
   \<exists>l' ls'. ReadCluster l ls ci = ((l', ls'), Inr (cluster_content l ls ci)) \<and>
     same_layer l l' \<and> layer_ok l' \<and> list_all2 same_layer ls ls' \<and> list_all layer_ok ls'"
proof (induction ls arbitrary: l)
  case Nil
  obtain l' where l': "locate ci l = (l', Inr (place_of l ci))" "same_layer l l'" "layer_ok l'"
    using locate_ok [OF Nil(1)] by blast
  note s = same_layer_simps [OF l'(2)]
  show ?case
  proof (cases "place_of l ci")
    case Beyond
    then have "unat (qh_L1Size (ql_header l)) \<le> table_index l ci" by (auto simp: place_of_def Let_def split: if_splits)
    then show ?thesis using l' Beyond s by (simp add: ReadCluster.simps cluster_content.simps csize_def)
  next
    case Unallocated
    then have t: "table_index l ci < unat (qh_L1Size (ql_header l))" by (auto simp: place_of_def split: if_splits)
    then show ?thesis using l' Unallocated s own_cluster_place [OF Nil(1) t]
      by (simp add: ReadCluster.simps cluster_content.simps csize_def)
  next
    case (At a)
    then have t: "table_index l ci < unat (qh_L1Size (ql_header l))" by (auto simp: place_of_def split: if_splits)
    have r: "ReadAt (ql_file l) (csize l) (sint a) = (gslice (unat a) (unat a + csize l) (ldata l), None)"
      using ReadAt_ok [of "ql_file l" "int (unat a)" "csize l"] layer_okD(1) [OF Nil(1)] place_region [OF Nil(1) At]
      by (simp add: region_def ldata_def)
    show ?thesis using l' At s own_cluster_place [OF Nil(1) t] t r
      by (simp add: ReadCluster.simps cluster_content.simps csize_def)
  qed
next
  case (Cons b bs)
  have okb: "layer_ok b" "list_all layer_ok bs" using Cons.prems(2) by simp_all
  obtain l' where l': "locate ci l = (l', Inr (place_of l ci))" "same_layer l l'" "layer_ok l'"
    using locate_ok [OF Cons.prems(1)] by blast
  note s = same_layer_simps [OF l'(2)]
  show ?case
  proof (cases "place_of l ci")
    case Beyond
    then have "unat (qh_L1Size (ql_header l)) \<le> table_index l ci" by (auto simp: place_of_def Let_def split: if_splits)
    then show ?thesis using l' Beyond s Cons.prems(2)
      by (intro exI [of _ l'] exI [of _ "b # bs"]) (simp add: ReadCluster.simps [of l] cluster_content.simps [of l] csize_def list.rel_refl)
  next
    case Unallocated
    then have t: "table_index l ci < unat (qh_L1Size (ql_header l))" by (auto simp: place_of_def split: if_splits)
    obtain b' bs' where b': "ReadCluster b bs ci = ((b', bs'), Inr (cluster_content b bs ci))"
      "same_layer b b'" "layer_ok b'" "list_all2 same_layer bs bs'" "list_all layer_ok bs'"
      using Cons.IH [OF okb] by blast
    show ?thesis using l' Unallocated b' t own_cluster_place [OF Cons.prems(1) t]
      by (intro exI [of _ l'] exI [of _ "b' # bs'"]) (simp add: ReadCluster.simps [of l] cluster_content.simps [of l])
  next
    case (At a)
    then have t: "table_index l ci < unat (qh_L1Size (ql_header l))" by (auto simp: place_of_def split: if_splits)
    have r: "ReadAt (ql_file l) (csize l) (sint a) = (gslice (unat a) (unat a + csize l) (ldata l), None)"
      using ReadAt_ok [of "ql_file l" "int (unat a)" "csize l"] layer_okD(1) [OF Cons.prems(1)] place_region [OF Cons.prems(1) At]
      by (simp add: region_def ldata_def)
    show ?thesis using l' At s own_cluster_place [OF Cons.prems(1) t] t r Cons.prems(2)
      by (intro exI [of _ l'] exI [of _ "b # bs"]) (simp add: ReadCluster.simps [of l] cluster_content.simps [of l] csize_def list.rel_refl)
  qed
qed

end
