(* ===== verification/Qcow2Writes.thy ===== *)
theory Qcow2Writes
  imports Qcow2Proofs
begin

text \<open>
  The writing side of the images: cluster allocation, new L2 tables and WriteCluster, each
  shown to keep \<open>layer_ok\<close> and to change the content as intended.
\<close>

definition with_data :: "bytes \<Rightarrow> QCOW2Layer \<Rightarrow> QCOW2Layer" where
  "with_data d l = l\<lparr>ql_file := (ql_file l)\<lparr>gf_data := d\<rparr>\<rparr>"

lemma with_data_simps [simp]:
  "ldata (with_data d l) = d" "csize (with_data d l) = csize l" "l1_lo (with_data d l) = l1_lo l"
  "l1_hi (with_data d l) = l1_hi l" "ql_l1Table (with_data d l) = ql_l1Table l"
  "ql_header (with_data d l) = ql_header l" "ql_clusterSize (with_data d l) = ql_clusterSize l"
  "ql_l2Cache (with_data d l) = ql_l2Cache l" "ql_backingFile (with_data d l) = ql_backingFile l"
  "table_index (with_data d l) = table_index l" "entry_index (with_data d l) = entry_index l"
  "usable (ql_file (with_data d l)) = usable (ql_file l)" "with_data d (with_data d' l) = with_data d l"
  "gf_data (ql_file (with_data d l)) = d"
  by (simp_all add: with_data_def ldata_def csize_def l1_lo_def l1_hi_def table_index_def entry_index_def
      usable_def fun_eq_iff)

lemma layer_frame:
  assumes "layer_ok l" and "length (ldata l) \<le> length d'" and "length d' < 2 ^ 55"
    and "\<And>a b. b \<le> length (ldata l) \<Longrightarrow> gslice a b d' = gslice a b (ldata l)"
  shows "layer_ok (with_data d' l)" and "own_cluster (with_data d' l) = own_cluster l"
proof -
  have reg: "gslice a (a + csize l) d' = gslice a (a + csize l) (ldata l)"
    if "region (csize l) (l1_hi l) (length (ldata l)) a" for a
    using that assms(4) by (simp add: region_def)
  have t: "tables_ok (csize l) (l1_hi l) (ql_l1Table l) d'"
    "\<forall>e \<in> set (ql_l1Table l). e \<noteq> 0 \<longrightarrow> tbl (csize l) d' e = tbl (csize l) (ldata l) e"
    using tables_frame [OF layer_okD(3) [OF assms(1)] assms(2) reg] by blast+
  have h: "gslice 0 104 d' = gslice 0 104 (ldata l)"
    "gslice (l1_lo l) (l1_hi l) d' = gslice (l1_lo l) (l1_hi l) (ldata l)"
    using assms(4) layer_okD(5,6) [OF assms(1)] by (simp_all add: l1_hi_def)
  show "layer_ok (with_data d' l)"
    unfolding layer_ok_def with_data_simps h
    using t assms(2,3) layer_okD(1,2,5-9) [OF assms(1)] layer_okD(10) [OF assms(1)]
    by (simp add: nth_mem)
  show "own_cluster (with_data d' l) = own_cluster l"
    unfolding own_cluster_def with_data_simps
    using lookup_frame [OF layer_okD(3) [OF assms(1)] index_unat(4) [OF assms(1)] reg] by (simp add: fun_eq_iff)
qed

subsection \<open>Allocation\<close>

lemma allocateCluster_ok:
  assumes "layer_ok l" and "length (ldata l) + 2 * csize l < 2 ^ 55"
  shows "\<exists>A z. allocateCluster l = (with_data (ldata l @ replicate z 0) l, Inr (of_nat A)) \<and>
    csize l dvd A \<and> length (ldata l) \<le> A \<and> length (ldata l) + z = A + csize l \<and> A < length (ldata l) + csize l"
proof -
  obtain k where k: "9 \<le> k" "k \<le> 32" "ql_clusterSize l = 2 ^ k"
    using layer_okD(9) [OF assms(1)] by (auto simp: cluster_size_ok_def)
  have c: "csize l = 2 ^ k" using k by (simp add: csize_def unat_pow2)
  define N where "N = length (ldata l)"
  have cpos: "1 \<le> csize l" using c by simp
  have big: "N + 2 * csize l < 2 ^ 64" using assms(2) by (simp add: N_def)
  have uN: "unat (of_nat N :: u64) = N" using big by (simp add: unat_of_nat)
  have ucs: "unat (ql_clusterSize l) = csize l" by (simp add: csize_def)
  have sum: "unat (of_nat N + ql_clusterSize l) = N + csize l"
    using unat_plus_small [of "of_nat N" "ql_clusterSize l"] uN ucs big by simp
  have "1 \<le> of_nat N + ql_clusterSize l" using sum cpos by (simp add: word_le_nat_alt)
  then have diff: "unat (of_nat N + ql_clusterSize l - 1) = N + csize l - 1"
    using unat_minus_small [of 1 "of_nat N + ql_clusterSize l"] sum by simp
  define A where "A = (N + csize l - 1) div csize l * csize l"
  have A: "csize l dvd A" "N \<le> A" "A < N + csize l"
  proof -
    show "csize l dvd A" by (simp add: A_def)
    have "(N + csize l - 1) div csize l * csize l + (N + csize l - 1) mod csize l = N + csize l - 1" by simp
    moreover have "(N + csize l - 1) mod csize l < csize l" using cpos by simp
    ultimately show "N \<le> A" "A < N + csize l" unfolding A_def using cpos by linarith+
  qed
  let ?o = "(of_nat N + ql_clusterSize l - 1) AND NOT (ql_clusterSize l - 1)"
  have uo: "unat ?o = A"
    unfolding k(3) using unat_clear_low_bits [of "of_nat N + 2 ^ k - 1" k] diff by (simp add: k(3) A_def c)
  have small: "A + csize l < 2 ^ 63" using A(3) assms(2) by (simp add: N_def)
  have "unat (of_nat A :: u64) = A" using small by (simp add: unat_of_nat)
  then have o: "?o = of_nat A" using uo by (simp only: word_unat_eq_iff)
  have "unat (?o + ql_clusterSize l) = A + csize l"
    using unat_plus_small [of ?o "ql_clusterSize l"] uo ucs small by simp
  then have s: "sint (?o + ql_clusterSize l) = int (A + csize l)"
    using sint_small [of "?o + ql_clusterSize l"] small by simp
  have tr: "Truncate (ql_file l) (sint (?o + ql_clusterSize l)) =
      ((ql_file l)\<lparr>gf_data := ldata l @ replicate (A + csize l - N) 0\<rparr>, None)"
    unfolding s using layer_okD(1) [OF assms(1)] A(2) by (simp add: Truncate_def usable_def ldata_def N_def del: of_nat_add)
  have op: "gf_open (ql_file l)" using layer_okD(1) [OF assms(1)] by (simp add: usable_def)
  have "allocateCluster l = (with_data (ldata l @ replicate (A + csize l - N) 0) l, Inr (of_nat A))"
    unfolding allocateCluster_def Let_def ldata_def [symmetric] N_def [symmetric] tr
    using op by (simp add: with_data_def o [symmetric])
  then show ?thesis using A by (intro exI [of _ A] exI [of _ "A + csize l - N"]) (simp add: N_def)
qed

lemma fresh_entry:
  assumes "layer_ok l" and "csize l dvd A" and "A < 2 ^ 55"
  shows "eoff (of_nat A OR l2EntryCopied) = A" "of_nat A OR l2EntryCopied \<noteq> 0"
    "sint (of_nat A :: u64) = int A" "unat (of_nat A :: u64) = A"
    "(of_nat A OR l2EntryCopied) AND l2OffsetMask = of_nat A"
proof -
  show u: "unat (of_nat A :: u64) = A" using assms(3) by (simp add: unat_of_nat)
  have "512 dvd A" using csize_facts(1) [OF assms(1)] assms(2) by (rule dvd_trans)
  then have d: "unat (of_nat A :: u64) < 2 ^ 55" "512 dvd unat (of_nat A :: u64)" using assms(3) u by simp_all
  show "eoff (of_nat A OR l2EntryCopied) = A" "of_nat A OR l2EntryCopied \<noteq> 0"
    using new_entry [OF d] u by simp_all
  show "sint (of_nat A :: u64) = int A" using sint_small [of "of_nat A"] d u by simp
  show "(of_nat A OR l2EntryCopied) AND l2OffsetMask = of_nat A" by (rule masked_entry [OF d])
qed

lemma WriteAt_layer:
  assumes "usable (ql_file l)" and "d \<noteq> []"
  shows "WriteAt (ql_file l) d (int off) = (ql_file (with_data (overlay off d (ldata l)) l), length d, None)"
  using WriteAt_ok [OF assms(1), of "int off" d] assms(2) by (simp add: with_data_def ldata_def)

lemma old_bytes:
  "length d \<le> A \<Longrightarrow> b \<le> length d \<Longrightarrow> gslice a b (overlay A s (d @ e)) = gslice a b d"
  by (simp add: gslice_overlay_before gslice_append_left)

lemma allocateL2Table_ok:
  assumes ok: "layer_ok l" and i: "unat k < length (ql_l1Table l)" "ql_l1Table l ! unat k = 0"
    and room: "length (ldata l) + 2 * csize l < 2 ^ 55" and k: "unat k < 2 ^ 32"
  shows "\<exists>l' t e. allocateL2Table k l = (l', Inr (t, e)) \<and> layer_ok l' \<and> own_cluster l' = own_cluster l \<and>
    ql_l1Table l' ! unat k = e \<and> e \<noteq> 0 \<and> t = tbl (csize l) (ldata l') e \<and>
    (ql_clusterSize l', ql_header l', length (ql_l1Table l'), ql_backingFile l') =
      (ql_clusterSize l, ql_header l, length (ql_l1Table l), ql_backingFile l) \<and>
    length (ldata l') \<le> length (ldata l) + 2 * csize l"
proof -
  obtain A z where al: "allocateCluster l = (with_data (ldata l @ replicate z 0) l, Inr (of_nat A))"
    and A: "csize l dvd A" "length (ldata l) \<le> A" "length (ldata l) + z = A + csize l" "A < length (ldata l) + csize l"
    using allocateCluster_ok [OF ok room] by blast
  note c = csize_facts [OF ok]
  have A55: "A < 2 ^ 55" using A(4) room by linarith
  note fe = fresh_entry [OF ok A(1) A55]
  define e :: u64 where "e = of_nat A OR l2EntryCopied"
  define d where "d = overlay A (replicate (csize l) 0) (ldata l @ replicate z 0)"
  let ?i = "unat k" and ?off = "l1_lo l + 8 * unat k"
  define d' where "d' = overlay ?off (put_be 8 e) d"
  let ?l1 = "(ql_l1Table l)[?i := e]"
  have len_d: "length d = A + csize l" using A(3) by (simp add: d_def)
  have off_hi: "?off + 8 \<le> l1_hi l" using i(1) layer_okD(2) [OF ok] by (simp add: l1_hi_def)
  have hi_N: "l1_hi l \<le> length (ldata l)" by (rule layer_okD(6) [OF ok])
  have len_d': "length d' = A + csize l" using len_d off_hi hi_N A(2) by (simp add: d'_def)
  have ne: "replicate (csize l) (0 :: byte) \<noteq> []" using c(3) by simp
  have u: "usable (ql_file l)" by (rule layer_okD(1) [OF ok])
  have w1: "WriteAt (ql_file (with_data (ldata l @ replicate z 0) l)) (replicate (csize l) 0) (sint (of_nat A :: u64)) =
      (ql_file (with_data d l), csize l, None)"
    unfolding fe(3) using WriteAt_layer [of "with_data (ldata l @ replicate z 0) l" "replicate (csize l) 0" A] u ne
    by (simp add: d_def)
  have k8: "unat (k * 8) = 8 * ?i" using unat_mult_small [of k 8] k by simp
  have lo55: "l1_lo l + 8 * ?i < 2 ^ 55" using off_hi hi_N layer_okD(4) [OF ok] by linarith
  have "unat (qh_L1TableOffset (ql_header l) + k * 8) = ?off"
    using unat_plus_small [of "qh_L1TableOffset (ql_header l)" "k * 8"] k8 lo55 by (simp add: l1_lo_def)
  then have s: "sint (qh_L1TableOffset (ql_header l) + k * 8) = int ?off"
    using sint_small [of "qh_L1TableOffset (ql_header l) + k * 8"] lo55 by simp
  let ?m = "(with_data d l)\<lparr>ql_l1Table := ?l1\<rparr>"
  have pne: "put_be 8 e \<noteq> []" by (metis length_put_be list.size(3) zero_neq_numeral)
  have w2: "WriteAt (ql_file ?m) (put_be 8 e) (int ?off) = (ql_file (with_data d' l), 8, None)"
    using WriteAt_layer [of "with_data d l" "put_be 8 e" ?off] u pne by (simp add: d'_def)
  let ?t = "replicate (csize l div 8) (0 :: u64)"
  define l' where "l' = cache_table k ?t (l\<lparr>ql_l1Table := ?l1, ql_file := (ql_file l)\<lparr>gf_data := d'\<rparr>\<rparr>)"
  have run: "allocateL2Table k l = (l', Inr (?t, e))"
    unfolding allocateL2Table_def al prod.case sum.case with_data_simps csize_def [symmetric] w1 option.case Let_def
      e_def [symmetric] s
    using w2 c(6) s by (simp add: with_data_def l'_def)
  have l': "ldata l' = d'" "csize l' = csize l" "l1_lo l' = l1_lo l" "l1_hi l' = l1_hi l" "ql_l1Table l' = ?l1"
    "ql_header l' = ql_header l" "ql_clusterSize l' = ql_clusterSize l" "ql_l2Cache l' = AList.update k ?t (ql_l2Cache l)"
    "ql_backingFile l' = ql_backingFile l" "table_index l' = table_index l" "entry_index l' = entry_index l"
    "usable (ql_file l') = usable (ql_file l)"
    by (simp_all add: l'_def cache_table_def with_data_def ldata_def csize_def l1_lo_def l1_hi_def
        table_index_def entry_index_def usable_def fun_eq_iff)
  \<comment> \<open>the old bytes above the L1 table are kept, and the new cluster is empty\<close>
  have keep: "gslice a b d' = gslice a b (ldata l)" if "b \<le> length (ldata l)" "l1_hi l \<le> a \<or> b \<le> l1_lo l" for a b
  proof -
    have "gslice a b d' = gslice a b d"
      using that off_hi hi_N A(2) len_d unfolding d'_def by (intro gslice_overlay_disjoint) auto
    then show ?thesis using that(1) A(2) by (simp add: d_def old_bytes)
  qed
  have zero: "gslice A (A + csize l) d' = replicate (csize l) 0"
  proof -
    have "gslice A (A + csize l) d' = gslice A (A + csize l) d"
      using off_hi hi_N A(2) len_d unfolding d'_def by (intro gslice_overlay_disjoint) auto
    also have "\<dots> = replicate (csize l) 0"
      using gslice_overlay_same [of A "replicate (csize l) 0"] by (simp add: d_def)
    finally show ?thesis .
  qed
  have reg: "gslice a (a + csize l) d' = gslice a (a + csize l) (ldata l)"
    if "region (csize l) (l1_hi l) (length (ldata l)) a" for a
    using that keep by (simp add: region_def)
  have "length (ldata l) \<le> length d'" using len_d' A(2) by simp
  note fr = tables_frame [OF layer_okD(3) [OF ok] this reg]
  have tabs: "tables_ok (csize l) (l1_hi l) ?l1 d'"
  proof (rule tables_new [OF fr [THEN conjunct1] i])
    show "region (csize l) (l1_hi l) (length d') (eoff e)"
      using A hi_N len_d' by (simp add: e_def fe(1) region_def)
    show "gslice (eoff e) (eoff e + csize l) d' = replicate (csize l) 0"
      using zero by (simp add: e_def fe(1))
    have lt: "eoff x \<noteq> eoff e" if "region (csize l) (l1_hi l) (length (ldata l)) (eoff x)" for x
      using that A(2) c(3) by (simp add: e_def fe(1) region_def)
    show "\<forall>e' \<in> set (ql_l1Table l). e' \<noteq> 0 \<longrightarrow> eoff e' \<noteq> eoff e"
      using layer_okD(3) [OF ok] lt by (simp add: tables_ok_def)
    show "\<forall>e' \<in> set (ql_l1Table l). e' \<noteq> 0 \<longrightarrow> (\<forall>x \<in> set (tbl (csize l) d' e'). x \<noteq> 0 \<longrightarrow> eoff x \<noteq> eoff e)"
      using layer_okD(3) [OF ok] lt fr by (simp add: tables_ok_def)
  qed
  have tab0: "tbl (csize l) d' e = ?t"
    using zero by (simp add: tbl_def e_def fe(1) read_table_zeros)
  have l1disk: "read_table (gslice (l1_lo l) (l1_hi l) d') (length ?l1) = ?l1"
  proof -
    have "gslice (l1_lo l) (l1_hi l) d' = overlay (?off - l1_lo l) (put_be 8 e) (gslice (l1_lo l) (l1_hi l) d)"
      unfolding d'_def using off_hi hi_N A(2) len_d by (intro gslice_overlay_inside) auto
    also have "gslice (l1_lo l) (l1_hi l) d = gslice (l1_lo l) (l1_hi l) (ldata l)"
      using hi_N A(2) by (simp add: d_def old_bytes)
    finally have g: "gslice (l1_lo l) (l1_hi l) d' = overlay (8 * ?i) (put_be 8 e) (gslice (l1_lo l) (l1_hi l) (ldata l))"
      by simp
    have "length (gslice (l1_lo l) (l1_hi l) (ldata l)) = 8 * length (ql_l1Table l)"
      using hi_N layer_okD(2) [OF ok] by (simp add: l1_hi_def)
    then show ?thesis unfolding g using read_table_set i(1) layer_okD(8) [OF ok] by simp
  qed
  have lay: "layer_ok l'"
    unfolding layer_ok_def l'
  proof (intro conjI allI impI)
    show "gslice 0 104 d' = encode_header (ql_header l)"
      using keep [of 104 0] layer_okD(5-7) [OF ok] by (simp add: l1_hi_def)
    fix k' t
    assume m: "map_of (AList.update k ?t (ql_l2Cache l)) k' = Some t"
    show "unat k' < length ?l1" "?l1 ! unat k' \<noteq> 0" "t = tbl (csize l) d' (?l1 ! unat k')"
    proof -
      have "unat k' < length ?l1 \<and> ?l1 ! unat k' \<noteq> 0 \<and> t = tbl (csize l) d' (?l1 ! unat k')"
      proof (cases "k' = k")
        case True
        then show ?thesis using m i tab0 fe(2) by (simp add: update_conv' e_def)
      next
        case False
        then have "unat k' \<noteq> unat k" by (simp add: word_unat_eq_iff)
        moreover have "map_of (ql_l2Cache l) k' = Some t" using m False by (simp add: update_conv')
        ultimately show ?thesis using layer_okD(10) [OF ok] fr by simp
      qed
      then show "unat k' < length ?l1" "?l1 ! unat k' \<noteq> 0" "t = tbl (csize l) d' (?l1 ! unat k')" by simp_all
    qed
  qed (use ok tabs l1disk len_d' A room hi_N layer_okD(1,2,5,9) [OF ok] in simp_all)
  have own: "own_cluster l' = own_cluster l"
  proof
    fix ci
    note ix = index_unat(4) [OF ok, of ci]
    show "own_cluster l' ci = own_cluster l ci"
      unfolding own_cluster_def l'
      using lookup_new [of e "csize l" d' "ql_l1Table l" ?i, OF _ i(2) ix] zero
        lookup_frame [OF layer_okD(3) [OF ok] ix reg] by (simp add: e_def fe(1))
  qed
  show ?thesis
    using run lay own i(1) fe(2) tab0 len_d' A l'
    by (intro exI [of _ l'] exI [of _ ?t] exI [of _ e]) (simp add: e_def)
qed

definition same_shape :: "QCOW2Layer \<Rightarrow> QCOW2Layer \<Rightarrow> bool" where
  "same_shape l l' \<longleftrightarrow> ql_clusterSize l' = ql_clusterSize l \<and> ql_header l' = ql_header l \<and>
     length (ql_l1Table l') = length (ql_l1Table l) \<and> ql_backingFile l' = ql_backingFile l"

lemma same_shape_simps:
  assumes "same_shape l l'"
  shows "csize l' = csize l" "l1_lo l' = l1_lo l" "l1_hi l' = l1_hi l" "table_index l' = table_index l"
    "entry_index l' = entry_index l" "ql_header l' = ql_header l" "ql_clusterSize l' = ql_clusterSize l"
    "length (ql_l1Table l') = length (ql_l1Table l)"
  using assms by (simp_all add: same_shape_def csize_def l1_lo_def l1_hi_def table_index_def entry_index_def fun_eq_iff)

lemma same_layer_shape: "same_layer l l' \<Longrightarrow> same_shape l l'"
  by (simp add: same_shape_def same_layer_simps)

lemma same_shape_trans: "same_shape a b \<Longrightarrow> same_shape b c \<Longrightarrow> same_shape a c"
  by (simp add: same_shape_def)

lemma ensureL2Table_ok:
  assumes ok: "layer_ok l" and i: "unat k < length (ql_l1Table l)"
    and room: "length (ldata l) + 2 * csize l < 2 ^ 55" and k: "unat k < 2 ^ 32"
  shows "\<exists>l' t e. ensureL2Table k l = (l', Inr (t, e)) \<and> layer_ok l' \<and> own_cluster l' = own_cluster l \<and>
    ql_l1Table l' ! unat k = e \<and> e \<noteq> 0 \<and> t = tbl (csize l) (ldata l') e \<and> same_shape l l' \<and>
    length (ldata l') \<le> length (ldata l) + 2 * csize l"
proof (cases "ql_l1Table l ! unat k = 0")
  case True
  then have eq: "ensureL2Table k l = allocateL2Table k l" by (simp add: ensureL2Table_def)
  show ?thesis unfolding eq using allocateL2Table_ok [OF ok i True room k] by (auto simp: same_shape_def)
next
  case False
  obtain l' where l': "getL2Table k (ql_l1Table l ! unat k) l = (l', Inr (tbl (csize l) (ldata l) (ql_l1Table l ! unat k)))"
    "same_layer l l'" "layer_ok l'"
    using getL2Table_ok [OF ok i False] by blast
  note s = same_layer_simps [OF l'(2)]
  show ?thesis
    using False l' s same_layer_shape [OF l'(2)]
    by (intro exI [of _ l'] exI [of _ "tbl (csize l) (ldata l) (ql_l1Table l ! unat k)"] exI [of _ "ql_l1Table l ! unat k"])
       (simp add: ensureL2Table_def Let_def)
qed

text \<open>Setting an entry of a table on disk and in the cache.\<close>

lemma set_entry_ok:
  assumes ok: "layer_ok l" and i: "unat k < length (ql_l1Table l)" "ql_l1Table l ! unat k \<noteq> 0"
    and j: "j < csize l div 8" and x: "region (csize l) (l1_hi l) (length (ldata l)) (eoff x)" "x \<noteq> 0"
    and fresh: "\<forall>e \<in> set (ql_l1Table l). e \<noteq> 0 \<longrightarrow> eoff x \<noteq> eoff e"
  defines "e \<equiv> ql_l1Table l ! unat k"
  defines "d' \<equiv> overlay (eoff e + 8 * j) (put_be 8 x) (ldata l)"
  defines "l' \<equiv> with_data d' (cache_table k ((tbl (csize l) (ldata l) e)[j := x]) l)"
  shows "layer_ok l'" and "own_cluster l' ci =
      (if table_index l ci = unat k \<and> entry_index l ci = j then Some (gslice (eoff x) (eoff x + csize l) (ldata l))
       else own_cluster l ci)" and "same_shape l l'" and "length (ldata l') = length (ldata l)"
proof -
  note c = csize_facts [OF ok]
  note st = tables_set [OF layer_okD(3) [OF ok] c(2) i j x(1) fresh, folded e_def, folded d'_def]
  have l': "ldata l' = d'" "csize l' = csize l" "l1_lo l' = l1_lo l" "l1_hi l' = l1_hi l" "ql_l1Table l' = ql_l1Table l"
    "ql_header l' = ql_header l" "ql_clusterSize l' = ql_clusterSize l"
    "ql_l2Cache l' = AList.update k ((tbl (csize l) (ldata l) e)[j := x]) (ql_l2Cache l)"
    "ql_backingFile l' = ql_backingFile l" "table_index l' = table_index l" "entry_index l' = entry_index l"
    "usable (ql_file l') = usable (ql_file l)"
    by (simp_all add: l'_def cache_table_def with_data_def ldata_def csize_def l1_lo_def l1_hi_def
        table_index_def entry_index_def usable_def fun_eq_iff)
  have "e \<in> set (ql_l1Table l)" using i(1) by (simp add: e_def)
  then have reg: "region (csize l) (l1_hi l) (length (ldata l)) (eoff e)"
    using layer_okD(3) [OF ok] i(2) by (simp add: tables_ok_def e_def)
  have b: "8 * j + 8 \<le> csize l" using j by linarith
  have keep: "gslice a b d' = gslice a b (ldata l)" if "b \<le> l1_hi l" for a b
    using that reg b layer_okD(6) [OF ok] unfolding d'_def
    by (intro gslice_overlay_disjoint) (auto simp: region_def)
  show "length (ldata l') = length (ldata l)" unfolding l' by (rule st(2))
  show "layer_ok l'"
    unfolding layer_ok_def l'
  proof (intro conjI allI impI)
    show "gslice 0 104 d' = encode_header (ql_header l)"
      using keep [of 104 0] layer_okD(5,7) [OF ok] by (simp add: l1_hi_def)
    show "read_table (gslice (l1_lo l) (l1_hi l) d') (length (ql_l1Table l)) = ql_l1Table l"
      using keep [of "l1_hi l" "l1_lo l"] layer_okD(8) [OF ok] by simp
    fix k' t
    assume m: "map_of (AList.update k ((tbl (csize l) (ldata l) e)[j := x]) (ql_l2Cache l)) k' = Some t"
    have "unat k' < length (ql_l1Table l) \<and> ql_l1Table l ! unat k' \<noteq> 0 \<and> t = tbl (csize l) d' (ql_l1Table l ! unat k')"
    proof (cases "k' = k")
      case True
      then show ?thesis using m i st(4) [of "unat k"] by (simp add: update_conv' e_def)
    next
      case False
      then have "unat k' \<noteq> unat k" by (simp add: word_unat_eq_iff)
      moreover have "map_of (ql_l2Cache l) k' = Some t" using m False by (simp add: update_conv')
      ultimately show ?thesis using layer_okD(10) [OF ok] st(4) [of "unat k'"] by simp
    qed
    then show "unat k' < length (ql_l1Table l)" "ql_l1Table l ! unat k' \<noteq> 0" "t = tbl (csize l) d' (ql_l1Table l ! unat k')"
      by simp_all
  qed (use st(1,2) layer_okD(1,2,4,5,6,9) [OF ok] in simp_all)
  show "own_cluster l' ci =
      (if table_index l ci = unat k \<and> entry_index l ci = j then Some (gslice (eoff x) (eoff x + csize l) (ldata l))
       else own_cluster l ci)"
    unfolding own_cluster_def l' using st(3) [OF index_unat(4) [OF ok, of ci], of "table_index l ci"] x(2) by simp
  show "same_shape l l'" by (simp add: same_shape_def l')
qed

lemma index_inj:
  assumes "table_index l a = table_index l b" and "entry_index l a = entry_index l b"
  shows "a = b"
proof -
  have "unat a = unat b" using assms unfolding table_index_def entry_index_def by (metis div_mult_mod_eq)
  then show ?thesis by (simp add: word_unat_eq_iff)
qed

lemma WriteCluster_ok:
  assumes ok: "layer_ok l" and len: "length dat = csize l" and i: "table_index l ci < unat (qh_L1Size (ql_header l))"
    and room: "length (ldata l) + 4 * csize l < 2 ^ 55"
  shows "\<exists>l'. WriteCluster ci dat l = (l', None) \<and> layer_ok l' \<and> own_cluster l' = (own_cluster l)(ci := Some dat) \<and>
    same_shape l l' \<and> length (ldata l') \<le> length (ldata l) + 4 * csize l"
proof -
  note c = csize_facts [OF ok] and ix = index_unat [OF ok, of ci]
  let ?k = "ci div (ql_clusterSize l div 8)" and ?j = "entry_index l ci"
  have k32: "unat ?k < 2 ^ 32" using i unsigned_less [of "qh_L1Size (ql_header l)", where 'a = nat] by (simp add: ix(1))
  have il: "unat ?k < length (ql_l1Table l)" using i layer_okD(2) [OF ok] by (simp add: ix(1))
  have r2: "length (ldata l) + 2 * csize l < 2 ^ 55" using room by linarith
  obtain l1 t e where en: "ensureL2Table ?k l = (l1, Inr (t, e))" "layer_ok l1" "own_cluster l1 = own_cluster l"
    "ql_l1Table l1 ! unat ?k = e" "e \<noteq> 0" "t = tbl (csize l) (ldata l1) e" "same_shape l l1"
    "length (ldata l1) \<le> length (ldata l) + 2 * csize l"
    using ensureL2Table_ok [OF ok il r2 k32] by blast
  note s1 = same_shape_simps [OF en(7)]
  have "length (ldata l1) + 2 * csize l1 < 2 ^ 55" using en(8) room s1(1) by linarith
  from allocateCluster_ok [OF en(2) this] obtain A z where
    al: "allocateCluster l1 = (with_data (ldata l1 @ replicate z 0) l1, Inr (of_nat A))"
    and A: "csize l dvd A" "length (ldata l1) \<le> A" "length (ldata l1) + z = A + csize l" "A < length (ldata l1) + csize l"
    unfolding s1(1) by blast
  have A55: "A + csize l < 2 ^ 55" using A(4) en(8) room by linarith
  have fe: "eoff (of_nat A OR l2EntryCopied) = A" "of_nat A OR l2EntryCopied \<noteq> 0" "sint (of_nat A :: u64) = int A"
    using fresh_entry [OF ok A(1)] A55 by simp_all
  define x :: u64 where "x = of_nat A OR l2EntryCopied"
  define d1 where "d1 = overlay A dat (ldata l1 @ replicate z 0)"
  define l2 where "l2 = with_data d1 l1"
  have ne: "dat \<noteq> []" using len c(3) by auto
  have len1: "length d1 = A + csize l" using A(3) len by (simp add: d1_def)
  have ok2: "layer_ok l2" "own_cluster l2 = own_cluster l1"
  proof -
    have old: "gslice a b d1 = gslice a b (ldata l1)" if "b \<le> length (ldata l1)" for a b
      using that A(2) by (simp add: d1_def old_bytes)
    have "length (ldata l1) \<le> length d1" "length d1 < 2 ^ 55" using len1 A(2) A55 by linarith+
    from layer_frame [OF en(2) this old] show "layer_ok l2" "own_cluster l2 = own_cluster l1"
      unfolding l2_def by blast+
  qed
  have s2: "same_shape l l2" "csize l2 = csize l" "l1_hi l2 = l1_hi l" "ldata l2 = d1" "ql_l1Table l2 = ql_l1Table l1"
    "table_index l2 = table_index l" "entry_index l2 = entry_index l"
    using s1 en(7) by (simp_all add: l2_def same_shape_def)
  have w1: "WriteAt (ql_file (with_data (ldata l1 @ replicate z 0) l1)) dat (sint (of_nat A :: u64)) = (ql_file l2, length dat, None)"
    unfolding fe(3) using WriteAt_layer [of "with_data (ldata l1 @ replicate z 0) l1" dat A] layer_okD(1) [OF en(2)] ne
    by (simp add: d1_def l2_def)
  have tb: "t = tbl (csize l) d1 e"
  proof -
    have "region (csize l) (l1_hi l) (length (ldata l1)) (eoff e)"
      using layer_okD(3) [OF en(2)] en(4,5) il s1 nth_mem [of "unat ?k" "ql_l1Table l1"] by (simp add: tables_ok_def)
    then show ?thesis using A(2) unfolding en(6) by (simp add: tbl_def d1_def old_bytes region_def)
  qed
  have fresh: "\<forall>e \<in> set (ql_l1Table l2). e \<noteq> 0 \<longrightarrow> eoff x \<noteq> eoff e"
    using layer_okD(3) [OF en(2)] A(2) c(3) s1 s2(5) by (auto simp: tables_ok_def region_def x_def fe(1))
  have reg: "region (csize l2) (l1_hi l2) (length (ldata l2)) (eoff x)"
    using A layer_okD(6) [OF en(2)] s1 by (simp add: region_def x_def fe(1) s2 len1)
  have il2: "unat ?k < length (ql_l1Table l2)" using il s1(8) by (simp add: s2(5))
  have j2: "?j < csize l2 div 8" using ix(4) by (simp add: s2(2))
  have e2: "ql_l1Table l2 ! unat ?k = e" "ql_l1Table l2 ! unat ?k \<noteq> 0" using en(4,5) by (simp_all add: s2(5))
  define d2 where "d2 = overlay (eoff e + 8 * ?j) (put_be 8 x) d1"
  define l3 where "l3 = with_data d2 (cache_table ?k (t[?j := x]) l2)"
  have l3: "l3 = with_data (overlay (eoff (ql_l1Table l2 ! unat ?k) + 8 * ?j) (put_be 8 x) (ldata l2))
      (cache_table ?k ((tbl (csize l2) (ldata l2) (ql_l1Table l2 ! unat ?k))[?j := x]) l2)"
    unfolding l3_def d2_def e2(1) s2(2,4) tb ..
  note fin = set_entry_ok [OF ok2(1) il2 e2(2) j2 reg _ fresh, folded l3]
  have xn: "x \<noteq> 0" by (simp add: x_def fe(2))
  have j64: "unat (ci mod (ql_clusterSize l div 8) * 8) = 8 * ?j"
    using unat_mult_small [of "ci mod (ql_clusterSize l div 8)" 8] ix(2,4) c(5) by simp
  have offb: "eoff e + 8 * ?j < 2 ^ 57" using eoff_less [of e] ix(4) c(5) by simp
  have "unat ((e AND l2OffsetMask) + ci mod (ql_clusterSize l div 8) * 8) = eoff e + 8 * ?j"
    using unat_plus_small [of "e AND l2OffsetMask" "ci mod (ql_clusterSize l div 8) * 8"] j64 offb by (simp add: eoff_def)
  then have so: "sint ((e AND l2OffsetMask) + ci mod (ql_clusterSize l div 8) * 8) = int (eoff e + 8 * ?j)"
    using sint_small [of "(e AND l2OffsetMask) + ci mod (ql_clusterSize l div 8) * 8"] offb by simp
  have pne: "put_be 8 x \<noteq> []" by (metis length_put_be list.size(3) zero_neq_numeral)
  have w2: "WriteAt (ql_file (cache_table ?k (t[?j := x]) l2)) (put_be 8 x) (int (eoff e + 8 * ?j)) = (ql_file l3, 8, None)"
    using WriteAt_layer [of "cache_table ?k (t[?j := x]) l2" "put_be 8 x" "eoff e + 8 * ?j"] layer_okD(1) [OF ok2(1)] pne s2(4)
    by (simp add: l3_def d2_def cache_table_def with_data_def ldata_def)
  have l2f: "(with_data (ldata l1 @ replicate z 0) l1)\<lparr>ql_file := ql_file l2\<rparr> = l2"
    by (simp add: l2_def with_data_def)
  have l3f: "(cache_table ?k (t[?j := x]) l2)\<lparr>ql_file := ql_file l3\<rparr> = l3"
    by (simp add: l3_def with_data_def cache_table_def)
  have "of_nat (length dat) = ql_clusterSize l" by (simp add: len csize_def)
  then have run: "WriteCluster ci dat l = (l3, None)"
    unfolding WriteCluster_def Let_def en(1) al prod.case sum.case w1 option.case l2f x_def [symmetric] ix(2) so w2 l3f
    using c(7) i ix(3) by simp
  have "gslice A (A + csize l) d1 = dat" using gslice_overlay_same [of A dat] by (simp add: d1_def len)
  then have "own_cluster l3 a = ((own_cluster l)(ci := Some dat)) a" for a
    using fin(2) [OF xn, of a] index_inj [of l a ci] ok2(2) en(3) by (auto simp: s2 x_def fe(1) ix(1))
  then show ?thesis
    using run fin(1) [OF xn] same_shape_trans [OF s2(1) fin(3) [OF xn]] fin(4) [OF xn] len1 A(4) en(8) s2(4)
    by (intro exI [of _ l3]) (simp add: fun_eq_iff)
qed

end
