(* ===== verification/Qcow2Bytes.thy ===== *)
theory Qcow2Bytes
  imports Qcow2Writes
begin

text \<open>
  The byte loops of an image: an image is a vector of bytes (\<open>vbyte\<close>) up to the end of its
  last cluster, ReadAt copies a part of it and WriteAt replaces a part of it.
\<close>

definition vbyte :: "QCOW2Layer \<Rightarrow> QCOW2Layer list \<Rightarrow> nat \<Rightarrow> byte" where
  "vbyte l ls a = cluster_content l ls (of_nat (a div csize l)) ! (a mod csize l)"

definition vend :: "QCOW2Layer \<Rightarrow> nat" where
  "vend l = (unat (qh_Size (ql_header l)) + csize l - 1) div csize l * csize l"

definition chain_ok :: "QCOW2Layer \<Rightarrow> QCOW2Layer list \<Rightarrow> bool" where
  "chain_ok l ls \<longleftrightarrow> layer_ok l \<and> list_all layer_ok ls \<and> (\<forall>b \<in> set ls. csize b = csize l)"

definition size_ok :: "QCOW2Layer \<Rightarrow> bool" where
  "size_ok l \<longleftrightarrow> unat (qh_Size (ql_header l)) \<le> unat (qh_L1Size (ql_header l)) * (csize l div 8) * csize l \<and>
     unat (qh_Size (ql_header l)) < 2 ^ 62"

lemma own_cluster_length:
  assumes "layer_ok l" and "own_cluster l ci = Some d"
  shows "length d = csize l"
proof (cases "table_index l ci < unat (qh_L1Size (ql_header l))")
  case True
  then obtain a where a: "place_of l ci = At a" "d = gslice (unat a) (unat a + csize l) (ldata l)"
    using assms(2) own_cluster_place [OF assms(1) True] by (auto split: place.splits)
  have "unat a + csize l \<le> length (ldata l)" using place_region [OF assms(1) a(1)] by (simp add: region_def)
  then show ?thesis unfolding a(2) by simp
next
  case False
  then show ?thesis using assms layer_okD(2) [OF assms(1)] by (simp add: own_cluster_def lookup_cluster_def)
qed

lemma length_cluster_content: "chain_ok l ls \<Longrightarrow> length (cluster_content l ls ci) = csize l"
proof (induction ls arbitrary: l)
  case Nil
  have ok: "layer_ok l" using Nil by (simp add: chain_ok_def)
  show ?case using own_cluster_length [OF ok] by (auto simp: cluster_content.simps split: option.split)
next
  case (Cons b bs)
  have ok: "layer_ok l" and b: "chain_ok b bs" "csize b = csize l" using Cons.prems by (auto simp: chain_ok_def)
  show ?case using own_cluster_length [OF ok] Cons.IH [OF b(1)] b(2) by (auto simp: cluster_content.simps [of l] split: option.split)
qed

lemma chain_same:
  assumes "chain_ok l ls" and "same_layer l l'" and "layer_ok l'" and "list_all2 same_layer ls ls'" and "list_all layer_ok ls'"
  shows "chain_ok l' ls'" and "vbyte l' ls' = vbyte l ls" and "vend l' = vend l" and "size_ok l' = size_ok l"
proof -
  note s = same_layer_simps [OF assms(2)]
  have "\<forall>b \<in> set ls'. csize b = csize l"
  proof
    fix b assume "b \<in> set ls'"
    then obtain i where i: "i < length ls'" "b = ls' ! i" by (auto simp: in_set_conv_nth)
    then have "same_layer (ls ! i) b" "ls ! i \<in> set ls" using assms(4) by (auto simp: list_all2_conv_all_nth)
    then show "csize b = csize l" using assms(1) same_layer_simps(6) by (auto simp: chain_ok_def)
  qed
  then show "chain_ok l' ls'" using assms(3,5) s by (simp add: chain_ok_def)
  show "vbyte l' ls' = vbyte l ls" using cluster_content_same [OF assms(2,4)] s by (simp add: vbyte_def fun_eq_iff)
  show "vend l' = vend l" "size_ok l' = size_ok l" using s by (simp_all add: vend_def size_ok_def)
qed

subsection \<open>Arithmetic of offsets\<close>

lemma vend_bounds:
  assumes "layer_ok l" and "a < unat (qh_Size (ql_header l))"
  shows "a < vend l" "(a div csize l + 1) * csize l \<le> vend l"
    "unat (qh_Size (ql_header l)) \<le> (a div csize l + 1) * csize l \<Longrightarrow> vend l = (a div csize l + 1) * csize l"
    "unat (qh_Size (ql_header l)) \<le> vend l"
proof -
  let ?c = "csize l" and ?S = "unat (qh_Size (ql_header l))"
  have c: "0 < ?c" by (rule csize_facts(3) [OF assms(1)])
  have "a + ?c \<le> ?S + ?c - 1" using assms(2) by linarith
  then have "(a + ?c) div ?c \<le> (?S + ?c - 1) div ?c" by (rule div_le_mono)
  moreover have "(a + ?c) div ?c = a div ?c + 1" using c div_add_self2 [of ?c a] by simp
  ultimately have q: "a div ?c + 1 \<le> (?S + ?c - 1) div ?c" by simp
  then show le: "(a div ?c + 1) * ?c \<le> vend l" unfolding vend_def by (rule mult_le_mono1)
  have "a < (a div ?c + 1) * ?c" using c by (simp add: dividend_less_div_times)
  then show "a < vend l" using le by linarith
  show "vend l = (a div ?c + 1) * ?c" if "?S \<le> (a div ?c + 1) * ?c"
  proof -
    have "?S + ?c - 1 < (a div ?c + 1 + 1) * ?c" using that c by simp
    then have "(?S + ?c - 1) div ?c < a div ?c + 1 + 1" using c by (simp add: less_mult_imp_div_less)
    then have "(?S + ?c - 1) div ?c = a div ?c + 1" using q by linarith
    then show ?thesis unfolding vend_def by (simp only:)
  qed
  have "?S + ?c - 1 < (?S + ?c - 1) div ?c * ?c + ?c"
    using dividend_less_div_times [OF c, of "?S + ?c - 1"] by linarith
  then show "?S \<le> vend l" using c unfolding vend_def by linarith
qed

lemma vend_less:
  assumes "layer_ok l" and "size_ok l"
  shows "vend l < 2 ^ 63"
proof -
  have "vend l \<le> unat (qh_Size (ql_header l)) + csize l - 1"
    unfolding vend_def by (rule div_times_less_eq_dividend)
  moreover have "unat (qh_Size (ql_header l)) < 2 ^ 62" using assms(2) by (simp add: size_ok_def)
  moreover have "csize l < 2 ^ 33" using csize_facts(5) [OF assms(1)] by simp
  moreover have "(2 :: nat) ^ 62 + 2 ^ 33 < 2 ^ 63" by simp
  ultimately show ?thesis by linarith
qed

lemma offset_div:
  assumes "layer_ok l" and "a < 2 ^ 64"
  shows "of_nat a div ql_clusterSize l = of_nat (a div csize l)" "unat ((of_nat a :: u64) mod ql_clusterSize l) = a mod csize l"
    "unat (of_nat a :: u64) = a"
proof -
  show u: "unat (of_nat a :: u64) = a" using assms(2) by (simp add: unat_of_nat)
  have "a div csize l < 2 ^ 64" using assms(2) by (meson div_le_dividend order.strict_trans1)
  then have d: "unat (of_nat (a div csize l) :: u64) = a div csize l" by (simp add: unat_of_nat)
  have cs: "unat (ql_clusterSize l) = csize l" by (simp add: csize_def)
  show "of_nat a div ql_clusterSize l = of_nat (a div csize l)"
    by (simp only: word_unat_eq_iff d unat_div u cs)
  show "unat ((of_nat a :: u64) mod ql_clusterSize l) = a mod csize l"
    by (simp only: unat_mod u cs)
qed

lemma index_in_range:
  assumes "layer_ok l" and "size_ok l" and "a < unat (qh_Size (ql_header l))"
  shows "table_index l (of_nat (a div csize l)) < unat (qh_L1Size (ql_header l))"
proof -
  let ?c = "csize l"
  have "a < 2 ^ 64" using assms(2,3) by (simp add: size_ok_def)
  then have "a div ?c < 2 ^ 64" by (meson div_le_dividend order.strict_trans1)
  then have u: "unat (of_nat (a div ?c) :: u64) = a div ?c" by (simp add: unat_of_nat)
  have "a < unat (qh_L1Size (ql_header l)) * (?c div 8) * ?c" using assms(2,3) by (simp add: size_ok_def)
  then have "a div ?c < unat (qh_L1Size (ql_header l)) * (?c div 8)" by (rule less_mult_imp_div_less)
  then have "a div ?c div (?c div 8) < unat (qh_L1Size (ql_header l))" by (rule less_mult_imp_div_less)
  then show ?thesis by (simp add: table_index_def u)
qed

lemma step_mod:
  assumes "0 < (c :: nat)"
  shows "a + (c - a mod c) = (a div c + 1) * c" "(a + (c - a mod c)) mod c = 0"
proof -
  have "a div c * c + a mod c = a" "a mod c < c" using assms by simp_all
  then have "a + (c - a mod c) = a div c * c + c" by linarith
  then show e: "a + (c - a mod c) = (a div c + 1) * c" by simp
  show "(a + (c - a mod c)) mod c = 0" unfolding e by simp
qed

lemma vbyte_part:
  assumes "chain_ok l ls" and "m \<le> csize l - a mod csize l"
  shows "take m (drop (a mod csize l) (cluster_content l ls (of_nat (a div csize l)))) = map (vbyte l ls) [a..<a + m]"
proof (rule nth_equalityI)
  let ?c = "csize l"
  have c: "0 < ?c" using csize_facts(3) assms(1) by (simp add: chain_ok_def)
  note len = length_cluster_content [OF assms(1), of "of_nat (a div ?c)"]
  show "length (take m (drop (a mod ?c) (cluster_content l ls (of_nat (a div ?c))))) = length (map (vbyte l ls) [a..<a + m])"
    using assms(2) by (simp add: len)
  fix i assume "i < length (take m (drop (a mod ?c) (cluster_content l ls (of_nat (a div ?c)))))"
  then have i: "i < m" by simp
  have "a mod ?c + i < ?c" using i assms(2) by linarith
  moreover have e: "a + i = (a mod ?c + i) + a div ?c * ?c" using div_mult_mod_eq [of a ?c] by linarith
  moreover have "(a mod ?c + i + a div ?c * ?c) div ?c = a div ?c + (a mod ?c + i) div ?c"
    using c by (intro div_mult_self1) simp
  moreover have "(a mod ?c + i + a div ?c * ?c) mod ?c = (a mod ?c + i) mod ?c" by (rule mod_mult_self1)
  ultimately have "(a + i) div ?c = a div ?c" "(a + i) mod ?c = a mod ?c + i"
    by (simp_all only: div_less mod_less add_0_right)
  then show "take m (drop (a mod ?c) (cluster_content l ls (of_nat (a div ?c)))) ! i = map (vbyte l ls) [a..<a + m] ! i"
    using i assms(2) len by (simp add: vbyte_def)
qed

subsection \<open>The loops\<close>

lemma read_loop_ok:
  "chain_ok l ls \<Longrightarrow> size_ok l \<Longrightarrow> a < 2 ^ 63 \<Longrightarrow>
   \<exists>l' ls'. read_loop l ls n (of_nat a) acc =
     Some ((l', ls'), acc @ map (vbyte l ls) [a..<(if a < unat (qh_Size (ql_header l)) then min (a + n) (vend l) else a)], None)"
proof (induction n arbitrary: l ls a acc rule: less_induct)
  case (less n)
  let ?c = "csize l" and ?S = "unat (qh_Size (ql_header l))"
  have ok: "layer_ok l" using less.prems(1) by (simp add: chain_ok_def)
  have c: "0 < ?c" by (rule csize_facts(3) [OF ok])
  have a64: "a < 2 ^ 64" using less.prems(3) by simp
  note od = offset_div [OF ok a64]
  have ge: "qh_Size (ql_header l) \<le> of_nat a \<longleftrightarrow> ?S \<le> a" unfolding word_le_nat_alt od(3) ..
  show ?case
  proof (cases "n = 0 \<or> ?S \<le> a")
    case True
    then show ?thesis using vend_bounds(1) [OF ok, of a] by (auto simp: read_loop.simps ge)
  next
    case False
    then have n: "0 < n" and a: "a < ?S" by simp_all
    note vb = vend_bounds [OF ok a]
    obtain l' ls' where rc: "ReadCluster l ls (of_nat (a div ?c)) = ((l', ls'), Inr (cluster_content l ls (of_nat (a div ?c))))"
      "same_layer l l'" "layer_ok l'" "list_all2 same_layer ls ls'" "list_all layer_ok ls'"
      using ReadCluster_ok [of l ls "of_nat (a div ?c)"] less.prems(1) unfolding chain_ok_def by blast
    note cs = chain_same [OF less.prems(1) rc(2-5)] and s = same_layer_simps [OF rc(2)]
    note len = length_cluster_content [OF less.prems(1), of "of_nat (a div ?c)"]
    define m where "m = min n (?c - a mod ?c)"
    have lt: "a mod ?c < ?c" using c by simp
    then have m: "0 < m" "m \<le> n" "m \<le> ?c - a mod ?c" using n by (simp_all add: m_def)
    have part: "take n (drop (a mod ?c) (cluster_content l ls (of_nat (a div ?c)))) = map (vbyte l ls) [a..<a + m]"
      using vbyte_part [OF less.prems(1) m(3)] len by (simp add: m_def min_def split: if_splits)
    have step: "read_loop l ls n (of_nat a) acc = read_loop l' ls' (n - m) (of_nat (a + m)) (acc @ map (vbyte l ls) [a..<a + m])"
      using n a lt by (subst read_loop.simps) (simp add: ge od rc(1) part len)
    have am: "a + m \<le> (a div ?c + 1) * ?c" using m(3) step_mod(1) [OF c, of a] by linarith
    have le: "a + m \<le> vend l" using am vb(2) by linarith
    have "vend l < 2 ^ 63" by (rule vend_less [OF ok less.prems(2)])
    then have am63: "a + m < 2 ^ 63" using le by linarith
    have hi: "(if a + m < ?S then min (a + m + (n - m)) (vend l) else a + m) = min (a + n) (vend l)"
    proof (cases "m = n")
      case True
      then show ?thesis using le by simp
    next
      case False
      then have "a + m = (a div ?c + 1) * ?c" using step_mod(1) [OF c, of a] by (simp add: m_def min_def split: if_splits)
      then show ?thesis using m(2) False vb(3) by (auto simp: min_def)
    qed
    have "\<exists>l'' ls''. read_loop l' ls' (n - m) (of_nat (a + m)) (acc @ map (vbyte l ls) [a..<a + m]) =
       Some ((l'', ls''), (acc @ map (vbyte l ls) [a..<a + m]) @ map (vbyte l' ls') [a + m..<min (a + n) (vend l)], None)"
      using less.IH [of "n - m" l' ls' "a + m" "acc @ map (vbyte l ls) [a..<a + m]"] m n cs(1,4) less.prems(2) am63
      unfolding cs(3) s(2) hi by simp
    moreover have "[a..<a + m] @ [a + m..<min (a + n) (vend l)] = [a..<min (a + n) (vend l)]"
    proof -
      have "a + m \<le> min (a + n) (vend l)" using m(2) le by simp
      then have "min (a + n) (vend l) = a + m + (min (a + n) (vend l) - (a + m))" by linarith
      then show ?thesis using upt_add_eq_append [of a "a + m" "min (a + n) (vend l) - (a + m)"] by simp
    qed
    ultimately show ?thesis unfolding step cs(2) using a by (simp add: map_append [symmetric] del: map_append)
  qed
qed

lemma image_ReadAt_ok:
  assumes "chain_ok l ls" and "size_ok l" and "a < unat (qh_Size (ql_header l))"
  shows "\<exists>img'. image_ReadAt (l, ls) n (int a) =
     Some (img', map (vbyte l ls) [a..<min (a + n) (vend l)], if n = 0 then Some (QcIO IoEOF) else None)"
proof -
  have ok: "layer_ok l" using assms(1) by (simp add: chain_ok_def)
  have a63: "a < 2 ^ 63" using assms(2,3) by (simp add: size_ok_def)
  have "\<not> qh_Size (ql_header l) \<le> of_nat a"
    using assms(3) offset_div(3) [OF ok, of a] a63 by (simp add: word_le_nat_alt)
  moreover have "ql_clusterSize l \<noteq> 0" using csize_facts(3) [OF ok] by (auto simp: csize_def)
  moreover obtain l' ls' where "read_loop l ls n (of_nat a) [] =
      Some ((l', ls'), map (vbyte l ls) [a..<min (a + n) (vend l)], None)"
    using read_loop_ok [OF assms(1,2) a63, of n "[]"] assms(3) by auto
  moreover have "map (vbyte l ls) [a..<min (a + n) (vend l)] = [] \<longleftrightarrow> n = 0"
    using vend_bounds(1) [OF ok assms(3)] by auto
  ultimately show ?thesis by (simp add: image_ReadAt_def)
qed

lemma write_one:
  assumes ch: "chain_ok l ls" and sz: "size_ok l" and a: "a < unat (qh_Size (ql_header l))"
    and m: "length q \<le> csize l - a mod csize l" and room: "length (ldata l) + 4 * csize l < 2 ^ 55"
  shows "\<exists>l'. WriteCluster (of_nat (a div csize l)) (gcopy (a mod csize l) q (cluster_content l ls (of_nat (a div csize l)))) l = (l', None) \<and>
     chain_ok l' ls \<and> same_shape l l' \<and> length (ldata l') \<le> length (ldata l) + 4 * csize l \<and>
     (\<forall>b < 2 ^ 63. vbyte l' ls b = (if a \<le> b \<and> b < a + length q then q ! (b - a) else vbyte l ls b))"
proof -
  let ?c = "csize l" and ?ci = "of_nat (a div csize l) :: u64"
  let ?d = "gcopy (a mod ?c) q (cluster_content l ls ?ci)"
  have ok: "layer_ok l" using ch by (simp add: chain_ok_def)
  have c: "0 < ?c" by (rule csize_facts(3) [OF ok])
  have lt: "a mod ?c < ?c" using c by simp
  note len = length_cluster_content [OF ch]
  have ld: "length ?d = ?c" using m lt len by simp
  note ti = index_in_range [OF ok sz a]
  obtain l' where w: "WriteCluster ?ci ?d l = (l', None)" "layer_ok l'" "own_cluster l' = (own_cluster l)(?ci := Some ?d)"
    "same_shape l l'" "length (ldata l') \<le> length (ldata l) + 4 * ?c"
    using WriteCluster_ok [OF ok ld ti room] by blast
  note s = same_shape_simps [OF w(4)]
  have ch': "chain_ok l' ls" using ch w(2) s(1) by (simp add: chain_ok_def)
  have cc: "cluster_content l' ls cj = (if cj = ?ci then ?d else cluster_content l ls cj)" for cj
    using ti unfolding cluster_content.simps [of l] cluster_content.simps [of l'] w(3) s by simp
  have vb: "vbyte l' ls b = (if a \<le> b \<and> b < a + length q then q ! (b - a) else vbyte l ls b)" if b: "b < 2 ^ 63" for b
  proof (cases "b div ?c = a div ?c")
    case True
    have e: "b = a div ?c * ?c + b mod ?c" "a = a div ?c * ?c + a mod ?c"
      using div_mult_mod_eq [of b ?c] div_mult_mod_eq [of a ?c] unfolding True by simp_all
    have iff: "(a \<le> b \<and> b < a + length q) \<longleftrightarrow> (a mod ?c \<le> b mod ?c \<and> b mod ?c < a mod ?c + length q)"
      and sub: "b - a = b mod ?c - a mod ?c" using e by linarith+
    have "vbyte l' ls b = ?d ! (b mod ?c)" using True cc by (simp add: vbyte_def s(1))
    also have "\<dots> = (if a mod ?c \<le> b mod ?c \<and> b mod ?c < a mod ?c + length q then q ! (b mod ?c - a mod ?c)
        else cluster_content l ls ?ci ! (b mod ?c))"
    proof (rule nth_gcopy)
      show "a mod ?c + length q \<le> length (cluster_content l ls ?ci)" unfolding len using m lt by linarith
      show "b mod ?c < length (cluster_content l ls ?ci)" unfolding len using c by simp
    qed
    finally show ?thesis unfolding iff sub using True by (simp add: vbyte_def)
  next
    case False
    have "a < 2 ^ 64" using a sz by (simp add: size_ok_def)
    moreover have "b < 2 ^ 64" using b by simp
    moreover have "a div ?c \<le> a" "b div ?c \<le> b" by (rule div_le_dividend)+
    ultimately have "a div ?c < 2 ^ 64" "b div ?c < 2 ^ 64" by linarith+
    then have "(of_nat (b div ?c) :: u64) \<noteq> ?ci" using False by (simp add: word_unat_eq_iff unat_of_nat)
    moreover have "\<not> (a \<le> b \<and> b < a + length q)"
    proof
      assume ab: "a \<le> b \<and> b < a + length q"
      have "b < (a div ?c + 1) * ?c" using ab m step_mod(1) [OF c, of a] by linarith
      then have "b div ?c < a div ?c + 1" by (rule less_mult_imp_div_less)
      moreover have "a div ?c \<le> b div ?c" using ab by (simp add: div_le_mono)
      ultimately show False using False by linarith
    qed
    ultimately show ?thesis using cc by (auto simp: vbyte_def s(1))
  qed
  then show ?thesis using w ch' by blast
qed

lemma write_loop_ok:
  "chain_ok l ls \<Longrightarrow> size_ok l \<Longrightarrow> a < 2 ^ 63 \<Longrightarrow>
   p \<noteq> [] \<longrightarrow> length (ldata l) + 4 * csize l * ((a mod csize l + length p + csize l - 1) div csize l) < 2 ^ 55 \<Longrightarrow>
   \<exists>l' ls'. write_loop l ls p (of_nat a) k =
     Some ((l', ls'), k + (if a < unat (qh_Size (ql_header l)) then min (length p) (vend l - a) else 0), None) \<and>
     chain_ok l' ls' \<and> size_ok l' \<and> vend l' = vend l \<and> qh_Size (ql_header l') = qh_Size (ql_header l) \<and>
     (\<forall>b < vend l. vbyte l' ls' b =
        (if a < unat (qh_Size (ql_header l)) \<and> a \<le> b \<and> b < a + length p then p ! (b - a) else vbyte l ls b))"
proof (induction "length p" arbitrary: l ls a p k rule: less_induct)
  case less
  let ?c = "csize l" and ?S = "unat (qh_Size (ql_header l))"
  have ok: "layer_ok l" using less.prems(1) by (simp add: chain_ok_def)
  have c: "0 < ?c" by (rule csize_facts(3) [OF ok])
  have a64: "a < 2 ^ 64" using less.prems(3) by simp
  note od = offset_div [OF ok a64]
  have ge: "qh_Size (ql_header l) \<le> of_nat a \<longleftrightarrow> ?S \<le> a" unfolding word_le_nat_alt od(3) ..
  show ?case
  proof (cases "p = [] \<or> ?S \<le> a")
    case True
    then show ?thesis using less.prems(1,2) by (intro exI [of _ l] exI [of _ ls]) (auto simp: write_loop.simps ge)
  next
    case False
    then have n: "0 < length p" and a: "a < ?S" by simp_all
    note vb = vend_bounds [OF ok a]
    have vend63: "vend l < 2 ^ 63" by (rule vend_less [OF ok less.prems(2)])
    obtain l1 ls1 where rc: "ReadCluster l ls (of_nat (a div ?c)) = ((l1, ls1), Inr (cluster_content l ls (of_nat (a div ?c))))"
      "same_layer l l1" "layer_ok l1" "list_all2 same_layer ls ls1" "list_all layer_ok ls1"
      using ReadCluster_ok [of l ls "of_nat (a div ?c)"] less.prems(1) unfolding chain_ok_def by blast
    note cs = chain_same [OF less.prems(1) rc(2-5)] and s = same_layer_simps [OF rc(2)]
    note len = length_cluster_content [OF less.prems(1), of "of_nat (a div ?c)"]
    have lt: "a mod ?c < ?c" using c by simp
    define m where "m = min (?c - a mod ?c) (length p)"
    define q where "q = take m p"
    have m: "0 < m" "m \<le> length p" "m \<le> ?c - a mod ?c" using n lt by (simp_all add: m_def)
    have lq: "length q = m" using m(2) by (simp add: q_def)
    define K where "K = (a mod ?c + length p + ?c - 1) div ?c"
    have K: "1 \<le> K"
    proof -
      have "(?c * 1) div ?c \<le> K" unfolding K_def using n by (intro div_le_mono) linarith
      then show ?thesis using c by simp
    qed
    have room0: "length (ldata l) + 4 * ?c * K < 2 ^ 55" using less.prems(4) False by (simp add: K_def)
    have "4 * ?c * 1 \<le> 4 * ?c * K" using K by (rule mult_le_mono2)
    then have room1: "length (ldata l1) + 4 * csize l1 < 2 ^ 55"
      using room0 unfolding s(6,9) by linarith
    have cont: "cluster_content l1 ls1 (of_nat (a div ?c)) = cluster_content l ls (of_nat (a div ?c))"
      by (rule cluster_content_same [OF rc(2,4)])
    have sz1: "size_ok l1" using cs(4) less.prems(2) by simp
    obtain l2 where w: "WriteCluster (of_nat (a div ?c)) (gcopy (a mod ?c) q (cluster_content l ls (of_nat (a div ?c)))) l1 = (l2, None)"
      "chain_ok l2 ls1" "same_shape l1 l2" "length (ldata l2) \<le> length (ldata l1) + 4 * csize l1"
      "\<And>b. b < 2 ^ 63 \<Longrightarrow> vbyte l2 ls1 b = (if a \<le> b \<and> b < a + length q then q ! (b - a) else vbyte l1 ls1 b)"
      using write_one [OF cs(1) sz1, of a q] a m(3) room1 unfolding s(2,6) lq cont by auto
    note s2 = same_shape_simps [OF w(3)]
    have sz2: "size_ok l2" "vend l2 = vend l" "csize l2 = ?c" "qh_Size (ql_header l2) = qh_Size (ql_header l)"
      using sz1 s2 s by (simp_all add: size_ok_def vend_def)
    have step: "write_loop l ls p (of_nat a) k = write_loop l2 ls1 (drop m p) (of_nat (a + m)) (k + m)"
      using n a lt by (subst write_loop.simps) (simp add: ge od rc(1) len m_def [symmetric] q_def [symmetric] w(1))
    have am: "a + m \<le> (a div ?c + 1) * ?c" using m(3) step_mod(1) [OF c, of a] by linarith
    have le: "a + m \<le> vend l" using am vb(2) by linarith
    have am63: "a + m < 2 ^ 63" using le vend63 by linarith
    have room2: "drop m p \<noteq> [] \<longrightarrow>
        length (ldata l2) + 4 * csize l2 * (((a + m) mod csize l2 + length (drop m p) + csize l2 - 1) div csize l2) < 2 ^ 55"
    proof (cases "m = length p")
      case True
      then show ?thesis by simp
    next
      case False
      then have e: "m = ?c - a mod ?c" by (simp add: m_def min_def split: if_splits)
      have z: "(a + m) mod ?c = 0" unfolding e by (rule step_mod(2) [OF c])
      have "a mod ?c + length p + ?c - 1 = (length (drop m p) + ?c - 1) + ?c" using e m lt by simp
      then have "K = (length (drop m p) + ?c - 1) div ?c + 1"
        unfolding K_def using div_add_self2 [of ?c "length (drop m p) + ?c - 1"] c by simp
      then have "4 * ?c * K = 4 * ?c * ((length (drop m p) + ?c - 1) div ?c) + 4 * ?c" by (simp add: algebra_simps)
      then show ?thesis using room0 w(4) unfolding sz2(3) z s(6,9) add_0_left by linarith
    qed
    have "length (drop m p) < length p" using m n by simp
    from less.hyps [OF this w(2) sz2(1) am63 room2, of "k + m"] obtain l3 ls3 where
      r: "write_loop l2 ls1 (drop m p) (of_nat (a + m)) (k + m) =
        Some ((l3, ls3), k + m + (if a + m < ?S then min (length (drop m p)) (vend l - (a + m)) else 0), None)"
      "chain_ok l3 ls3" "size_ok l3" "vend l3 = vend l" "qh_Size (ql_header l3) = qh_Size (ql_header l)"
      "\<And>b. b < vend l \<Longrightarrow> vbyte l3 ls3 b =
         (if a + m < ?S \<and> a + m \<le> b \<and> b < a + m + length (drop m p) then drop m p ! (b - (a + m)) else vbyte l2 ls1 b)"
      unfolding sz2(2,4) by blast
    have stop: "m = length p \<or> a + m = vend l" if "\<not> a + m < ?S"
    proof (cases "m = length p")
      case False
      then have "a + m = (a div ?c + 1) * ?c" using step_mod(1) [OF c, of a] by (simp add: m_def min_def split: if_splits)
      then show ?thesis using vb(3) that by simp
    qed simp
    have cnt: "k + m + (if a + m < ?S then min (length (drop m p)) (vend l - (a + m)) else 0) = k + min (length p) (vend l - a)"
      using m(2) le stop by (auto simp: min_def)
    have bytes: "vbyte l3 ls3 b = (if a \<le> b \<and> b < a + length p then p ! (b - a) else vbyte l ls b)" if b: "b < vend l" for b
    proof -
      have b63: "b < 2 ^ 63" using b vend63 by linarith
      show ?thesis
        unfolding r(6) [OF b] w(5) [OF b63] lq cs(2)
        using stop b m(2) by (auto simp: q_def nth_drop not_less)
    qed
    show ?thesis unfolding step r(1) cnt using r(2-5) bytes a by auto
  qed
qed

end
