(* ===== verification/Qcow2Convert.thy ===== *)
theory Qcow2Convert
  imports Qcow2Bytes
begin

text \<open>
  Creation and opening of images: the header codec, what the files of new images hold, and
  that opening the file of a well-formed layer gives that layer back.
\<close>

subsection \<open>Creation and opening\<close>

lemma length_encode_header [simp]: "length (encode_header h) = 104"
  by (simp add: encode_header_def)

lemma decode_encode_qheader: "decode_header (encode_header h) = h"
  by (simp add: decode_header_def encode_header_def gslice_def codec)

text \<open>
  What an open layer says about itself on disk, beyond \<open>layer_ok\<close>: the header that opening
  checks. It mentions the shape of the layer only.
\<close>

definition header_ok :: "QCOW2Layer \<Rightarrow> bool" where
  "header_ok l \<longleftrightarrow>
     (let h = ql_header l
      in qh_Magic h = qcow2Magic \<and> \<not> qh_Version h < 2 \<and> \<not> qh_Version h > 3 \<and>
         ql_clusterSize l = push_bit (unat (qh_ClusterBits h)) 1 \<and>
         (qh_BackingFileOffset h > 0 \<and> qh_BackingFileSize h > 0 \<longrightarrow>
            unat (qh_BackingFileOffset h) + unat (qh_BackingFileSize h) \<le> l1_lo l))"

definition backing_on_disk :: "QCOW2Layer \<Rightarrow> bytes" where
  "backing_on_disk l =
     (let bo = unat (qh_BackingFileOffset (ql_header l)); n = unat (qh_BackingFileSize (ql_header l))
      in if 0 < bo \<and> 0 < n then gslice bo (bo + n) (ldata l) else [])"

lemma open_layer_ok:
  assumes ok: "layer_ok l" and h: "header_ok l"
  shows "\<exists>l'. open_layer rand (ql_file l) = Inr l' \<and> layer_ok l' \<and> header_ok l' \<and>
    ql_file l' = ql_file l \<and> ql_header l' = ql_header l \<and> own_cluster l' = own_cluster l \<and>
    ql_clusterSize l' = ql_clusterSize l \<and> ql_backingFile l' = backing_on_disk l"
proof -
  let ?h = "ql_header l" and ?f = "ql_file l"
  have r: "readable ?f" using layer_okD(1) [OF ok] by simp
  have len: "104 \<le> length (gf_data ?f)" using layer_okD(5,6) [OF ok] by (simp add: l1_hi_def ldata_def)
  have r1: "ReadAt ?f 104 0 = (encode_header ?h, None)"
    using ReadAt_ok [OF r, of 0 104] len layer_okD(7) [OF ok] by (simp add: ldata_def)
  have lo55: "l1_lo l < 2 ^ 55" using layer_okD(4,6) [OF ok] by (simp add: l1_hi_def)
  have slo: "sint (qh_L1TableOffset ?h) = int (l1_lo l)"
    using sint_small [of "qh_L1TableOffset ?h"] lo55 by (simp add: l1_lo_def)
  have n: "8 * unat (qh_L1Size ?h) = l1_hi l - l1_lo l" by (simp add: l1_hi_def)
  have r2: "ReadAt ?f (8 * unat (qh_L1Size ?h)) (sint (qh_L1TableOffset ?h)) =
      (gslice (l1_lo l) (l1_hi l) (ldata l), None)"
    unfolding slo using ReadAt_ok [OF r, of "int (l1_lo l)" "8 * unat (qh_L1Size ?h)"] layer_okD(6) [OF ok]
    by (simp add: l1_hi_def ldata_def)
  let ?b = "backing_on_disk l"
  have rb: "(if qh_BackingFileOffset ?h > 0 \<and> qh_BackingFileSize ?h > 0
      then ReadAt ?f (unat (qh_BackingFileSize ?h)) (sint (qh_BackingFileOffset ?h)) else ([], None)) = (?b, None)"
  proof (cases "qh_BackingFileOffset ?h > 0 \<and> qh_BackingFileSize ?h > 0")
    case True
    then have le: "unat (qh_BackingFileOffset ?h) + unat (qh_BackingFileSize ?h) \<le> l1_lo l"
      using h by (simp add: header_ok_def Let_def)
    then have "unat (qh_BackingFileOffset ?h) < 2 ^ 63" using lo55 by simp
    then have s: "sint (qh_BackingFileOffset ?h) = int (unat (qh_BackingFileOffset ?h))" by (rule sint_small)
    have "ReadAt ?f (unat (qh_BackingFileSize ?h)) (int (unat (qh_BackingFileOffset ?h))) =
        (gslice (nat (int (unat (qh_BackingFileOffset ?h)))) (nat (int (unat (qh_BackingFileOffset ?h))) + unat (qh_BackingFileSize ?h)) (gf_data ?f), None)"
    proof (rule ReadAt_ok [OF r])
      show "0 \<le> int (unat (qh_BackingFileOffset ?h))" by simp
      show "nat (int (unat (qh_BackingFileOffset ?h))) + unat (qh_BackingFileSize ?h) \<le> length (gf_data ?f)"
        using le layer_okD(6) [OF ok] unfolding nat_int by (simp add: l1_hi_def ldata_def)
    qed
    moreover have "?b = gslice (unat (qh_BackingFileOffset ?h)) (unat (qh_BackingFileOffset ?h) + unat (qh_BackingFileSize ?h)) (gf_data ?f)"
      using True by (simp add: backing_on_disk_def ldata_def Let_def unat_gt_0 word_neq_0_conv)
    ultimately show ?thesis using True unfolding s nat_int by simp
  next
    case False
    then show ?thesis by (auto simp: backing_on_disk_def Let_def unat_gt_0 word_neq_0_conv)
  qed
  define l' where "l' = l\<lparr>ql_backingFile := ?b, ql_l2Cache := [], ql_rand := rand\<rparr>"
  have t: "read_table (gslice (l1_lo l) (l1_hi l) (ldata l)) (unat (qh_L1Size ?h)) = ql_l1Table l"
    using layer_okD(2,8) [OF ok] by simp
  have "open_layer rand ?f = Inr l'"
    unfolding open_layer_def r1 prod.case option.case Let_def decode_encode_qheader rb slo r2 [unfolded slo] t
    using h by (cases l) (simp add: header_ok_def Let_def l'_def)
  moreover have "ql_backingFile l' = ?b" by (simp add: l'_def)
  moreover have s: "ldata l' = ldata l" "csize l' = csize l" "l1_lo l' = l1_lo l" "l1_hi l' = l1_hi l"
    "table_index l' = table_index l" "entry_index l' = entry_index l" "ql_l1Table l' = ql_l1Table l"
    "ql_file l' = ql_file l" "ql_header l' = ql_header l" "ql_clusterSize l' = ql_clusterSize l" "ql_l2Cache l' = []"
    by (simp_all add: l'_def ldata_def csize_def l1_lo_def l1_hi_def table_index_def entry_index_def fun_eq_iff)
  moreover have "layer_ok l'"
    using layer_okD(1-9) [OF ok] unfolding layer_ok_def s map_of.simps by blast
  moreover have "header_ok l'" using h unfolding header_ok_def s .
  moreover have "own_cluster l' = own_cluster l" by (simp add: own_cluster_def s fun_eq_iff)
  ultimately show ?thesis by blast
qed

lemma write_list_usable:
  "usable f \<Longrightarrow> \<forall>(d, off) \<in> set ws. 0 \<le> off \<Longrightarrow>
   write_list f ws = (f\<lparr>gf_data := fold (\<lambda>(d, off) c. if d = [] then c else overlay (nat off) d c) ws (gf_data f)\<rparr>, None)"
proof (induction f ws rule: write_list.induct)
  case (2 f d off ws)
  show ?case
  proof (cases "d = []")
    case True
    then have "WriteAt f d off = (f, 0, None)" using 2(3) by (simp add: WriteAt_def)
    then show ?thesis using 2 True by simp
  next
    case False
    then have "WriteAt f d off = (f\<lparr>gf_data := overlay (nat off) d (gf_data f)\<rparr>, length d, None)"
      using 2(2,3) by (intro WriteAt_ok) auto
    then show ?thesis using 2 False by (simp add: usable_def)
  qed
qed simp

lemma new_header_simps [simp]:
  "qh_Magic (new_header v name) = qcow2Magic" "qh_Version (new_header v name) = qcow2Version"
  "qh_Size (new_header v name) = v" "qh_ClusterBits (new_header v name) = defaultClusterBits"
  "qh_L1TableOffset (new_header v name) = 65536" "qh_RefcountTableOffset (new_header v name) = 131072"
  "qh_BackingFileOffset (new_header v name) = (if name \<noteq> [] then 104 else 0)"
  "qh_BackingFileSize (new_header v name) = (if name \<noteq> [] then of_nat (length name) else 0)"
  by (simp_all add: new_header_def Let_def defaultClusterSize_def)

definition new_l1 :: "u64 \<Rightarrow> u64" where
  "new_l1 v = (v + (defaultClusterSize div 8 * defaultClusterSize) - 1) div (defaultClusterSize div 8 * defaultClusterSize)"

lemma new_l1_unat:
  assumes "unat v \<le> 2 ^ 42"
  shows "unat (new_l1 v) = (unat v + 536870911) div 536870912" "unat (new_l1 v) \<le> 8192"
    "unat (qh_L1Size (new_header v name)) = unat (new_l1 v)"
proof -
  have "unat (v + 536870912) = unat v + 536870912" using unat_plus_small [of v 536870912] assms by simp
  moreover have "1 \<le> v + 536870912" using calculation by (simp add: word_le_nat_alt)
  ultimately have "unat (v + 536870912 - 1) = unat v + 536870911"
    using unat_minus_small [of 1 "v + 536870912"] by simp
  then show u: "unat (new_l1 v) = (unat v + 536870911) div 536870912"
    by (simp add: new_l1_def defaultClusterSize_def unat_div)
  have "(unat v + 536870911) div 536870912 \<le> (2 ^ 42 + 536870911) div 536870912"
    using assms by (intro div_le_mono) simp
  then show le: "unat (new_l1 v) \<le> 8192" unfolding u by simp
  have "unat (ucast (new_l1 v) :: u32) = unat (new_l1 v)"
    using le by (simp add: unsigned_ucast_eq take_bit_nat_eq_self)
  then show "unat (qh_L1Size (new_header v name)) = unat (new_l1 v)"
    by (simp add: new_header_def Let_def new_l1_def)
qed

lemma create_ok:
  assumes f: "usable f" "gf_data f = []" and v: "unat v \<le> 2 ^ 42" and name: "length name \<le> 65432"
  shows "\<exists>f'. CreateQCOW2 f v name = (f', None) \<and> usable f' \<and> length (gf_data f') = 196608 \<and>
    gslice 0 104 (gf_data f') = encode_header (new_header v name) \<and>
    gslice 104 (104 + length name) (gf_data f') = name \<and>
    gslice 65536 (65536 + 8 * unat (new_l1 v)) (gf_data f') = replicate (8 * unat (new_l1 v)) 0"
proof -
  let ?h = "new_header v name" and ?n = "unat (new_l1 v)"
  note n = new_l1_unat [OF v]
  have n8: "unat (new_l1 v * 8) = 8 * ?n" using unat_mult_small [of "new_l1 v" 8] n(2) by simp
  define d2 where "d2 = encode_header ?h @ name"
  define d3 where "d3 = (if ?n = 0 then d2 else overlay 65536 (replicate (8 * ?n) 0) d2)"
  define d4 where "d4 = overlay 131072 (replicate 65536 0) d3"
  have l2: "length d2 \<le> 65536" using name by (simp add: d2_def)
  have l3: "length d3 \<le> 131072" "?n \<noteq> 0 \<longrightarrow> length d3 = 65536 + 8 * ?n" "length d2 \<le> length d3"
    using l2 n(2) by (simp_all add: d3_def max_def)
  have l4: "length d4 = 196608" using l3(1) by (simp add: d4_def)
  have o0: "overlay 0 (encode_header ?h) [] = encode_header ?h" by (simp add: overlay_def)
  have o1: "overlay 104 name (encode_header ?h) = d2" if "name \<noteq> []" by (simp add: overlay_def d2_def)
  have ne: "encode_header ?h \<noteq> []" by (metis length_encode_header list.size(3) zero_neq_numeral)
  let ?ws = "[(encode_header ?h, 0 :: int)] @ (if name \<noteq> [] then [(name, sint (qh_BackingFileOffset ?h))] else []) @
      [(replicate (unat (new_l1 v * 8)) 0, sint (qh_L1TableOffset ?h)),
       (replicate (unat defaultClusterSize) 0, sint (qh_RefcountTableOffset ?h))]"
  have "fold (\<lambda>(d, off) c. if d = [] then c else overlay (nat off) d c) ?ws [] = d4"
    using ne o0 o1 by (cases "name = []") (simp_all add: n8 defaultClusterSize_def d4_def d3_def d2_def)
  then have w: "write_list f ?ws = (f\<lparr>gf_data := d4\<rparr>, None)"
    using write_list_usable [OF f(1), of ?ws] f(2) by (simp split: if_splits)
  have tr: "Truncate (f\<lparr>gf_data := d4\<rparr>) (sint (defaultClusterSize * 3)) = (f\<lparr>gf_data := d4\<rparr>, None)"
    using f(1) l4 by (simp add: Truncate_def usable_def defaultClusterSize_def)
  have run: "CreateQCOW2 f v name = (f\<lparr>gf_data := d4\<rparr>, None)"
    unfolding CreateQCOW2_def Let_def new_l1_def [symmetric] w prod.case option.case tr by simp
  have keep: "gslice a b d4 = gslice a b d2" if "b \<le> length d2" for a b
    using that l2 l3 by (simp add: d4_def d3_def gslice_overlay_before)
  have "gslice 0 104 d4 = encode_header ?h" using keep [of 104 0] by (simp add: d2_def gslice_append_left gslice_all)
  moreover have "gslice 104 (104 + length name) d4 = name"
    using keep [of "104 + length name" 104] by (simp add: d2_def gslice_append_right gslice_all)
  moreover have "gslice 65536 (65536 + 8 * ?n) d4 = replicate (8 * ?n) 0"
  proof (cases "?n = 0")
    case True
    then show ?thesis by (simp add: gslice_def)
  next
    case False
    then have "gslice 65536 (65536 + 8 * ?n) d4 = gslice 65536 (65536 + 8 * ?n) d3"
      using l3 n(2) unfolding d4_def by (intro gslice_overlay_before) auto
    then show ?thesis using False gslice_overlay_same [of 65536 "replicate (8 * ?n) 0"] by (simp add: d3_def)
  qed
  ultimately show ?thesis using run l4 f(1) by (intro exI [of _ "f\<lparr>gf_data := d4\<rparr>"]) (simp add: usable_def)
qed

text \<open>A created image opens, and the layer that opening gives holds no cluster of its own.\<close>

lemma create_then_open:
  assumes f: "usable f" "gf_data f = []" and v: "unat v \<le> 2 ^ 42" and name: "length name \<le> 65432"
  shows "\<exists>f' l. CreateQCOW2 f v name = (f', None) \<and> open_layer rand f' = Inr l \<and> layer_ok l \<and> header_ok l \<and>
    size_ok l \<and> qh_Size (ql_header l) = v \<and> ql_backingFile l = name \<and> csize l = 65536 \<and>
    own_cluster l = (\<lambda>_. None) \<and> ql_file l = f' \<and> length (ldata l) = 196608"
proof -
  note n = new_l1_unat [OF v]
  obtain f' where c: "CreateQCOW2 f v name = (f', None)" "usable f'" "length (gf_data f') = 196608"
    "gslice 0 104 (gf_data f') = encode_header (new_header v name)"
    "gslice 104 (104 + length name) (gf_data f') = name"
    "gslice 65536 (65536 + 8 * unat (new_l1 v)) (gf_data f') = replicate (8 * unat (new_l1 v)) 0"
    using create_ok [OF assms] by blast
  define l where "l = \<lparr>ql_file = f', ql_header = new_header v name, ql_backingFile = name, ql_clusterSize = 65536,
      ql_l1Table = replicate (unat (new_l1 v)) 0, ql_l2Cache = [], ql_rand = rand\<rparr>"
  have s: "csize l = 65536" "l1_lo l = 65536" "l1_hi l = 65536 + 8 * unat (new_l1 v)" "ldata l = gf_data f'"
    "ql_header l = new_header v name" "ql_clusterSize l = 65536" "ql_l1Table l = replicate (unat (new_l1 v)) 0"
    "ql_file l = f'" "ql_l2Cache l = []"
    by (simp_all add: l_def csize_def l1_lo_def l1_hi_def ldata_def n(3))
  have "cluster_size_ok 65536" unfolding cluster_size_ok_def by (intro exI [of _ 16]) simp
  then have ok: "layer_ok l"
    using c n unfolding layer_ok_def s by (simp add: read_table_zeros tables_ok_def)
  have hd: "header_ok l"
    using name unfolding header_ok_def s
    by (auto simp: Let_def qcow2Version_def defaultClusterBits_def unat_of_nat push_bit_eq_mult)
  have own: "own_cluster l = (\<lambda>_. None)" by (auto simp: own_cluster_def lookup_cluster_def s fun_eq_iff)
  have "unat v \<le> (unat v + 536870911) div 536870912 * 536870912" by linarith
  then have sz: "size_ok l" using v by (simp add: size_ok_def s n)
  have bk: "backing_on_disk l = name"
    using c(5) name by (cases "name = []") (simp_all add: backing_on_disk_def s Let_def unat_of_nat)
  obtain l' where l': "open_layer rand f' = Inr l'" "layer_ok l'" "header_ok l'" "ql_file l' = f'"
    "ql_header l' = ql_header l" "own_cluster l' = own_cluster l" "ql_clusterSize l' = ql_clusterSize l"
    "ql_backingFile l' = backing_on_disk l"
    using open_layer_ok [OF ok hd, of rand] unfolding s(8) by blast
  have "csize l' = csize l" "size_ok l' = size_ok l" "ldata l' = ldata l"
    using l'(4,5,7) by (simp_all add: csize_def size_ok_def ldata_def s(8))
  then show ?thesis using c(1,3) l' sz own bk by (intro exI [of _ f'] exI [of _ l']) (simp add: s)
qed

text \<open>
  The conversions between raw files and images: what the loops over the clusters leave in
  the image and in the raw file.
\<close>

definition chunk :: "bytes \<Rightarrow> nat \<Rightarrow> bytes" where
  "chunk d k = gslice (k * 65536) (k * 65536 + 65536) d @ replicate (65536 - (length d - k * 65536)) 0"

definition clusters :: "nat \<Rightarrow> nat" where "clusters n = (n + 65535) div 65536"

lemma length_chunk [simp]: "length (chunk d k) = 65536"
  by (simp add: chunk_def)

lemma nth_chunk: "i < 65536 \<Longrightarrow> k * 65536 + i < length d \<Longrightarrow> chunk d k ! i = d ! (k * 65536 + i)"
  by (auto simp: chunk_def gslice_def nth_append)

lemma clusters_facts:
  assumes "k < clusters n"
  shows "k * 65536 < n" "k < n"
  using assms by (simp_all add: clusters_def)

lemma total_clusters_unat:
  assumes "n \<le> 2 ^ 42"
  shows "unat (total_clusters (of_nat n)) = clusters n"
proof -
  have u: "unat (of_nat n :: u64) = n" using assms by (simp add: unat_of_nat)
  have "unat (of_nat n + 65536 :: u64) = n + 65536" using unat_plus_small [of "of_nat n" 65536] assms u by simp
  moreover have "(1 :: u64) \<le> of_nat n + 65536" using calculation by (simp add: word_le_nat_alt)
  ultimately have "unat (of_nat n + 65536 - 1 :: u64) = n + 65535"
    using unat_minus_small [of 1 "of_nat n + 65536"] by simp
  then show ?thesis by (simp add: total_clusters_def defaultClusterSize_def unat_div clusters_def)
qed

lemma cluster_offset:
  assumes "k * 65536 < n" and "n \<le> 2 ^ 42"
  shows "unat (of_nat k * defaultClusterSize) = k * 65536" "sint (of_nat k * defaultClusterSize :: u64) = int (k * 65536)"
    "unat (of_nat n - of_nat k * defaultClusterSize) = n - k * 65536"
    "sint (of_nat n - of_nat k * defaultClusterSize :: u64) = int (n - k * 65536)"
proof -
  have un: "unat (of_nat n :: u64) = n" using assms by (simp add: unat_of_nat)
  have uk: "unat (of_nat k :: u64) = k" using assms by (simp add: unat_of_nat)
  show o: "unat (of_nat k * defaultClusterSize) = k * 65536"
    using unat_mult_small [of "of_nat k" 65536] uk assms by (simp add: defaultClusterSize_def)
  show "sint (of_nat k * defaultClusterSize :: u64) = int (k * 65536)"
  proof -
    have "unat (of_nat k * defaultClusterSize :: u64) < 2 ^ 63" using o assms by simp
    from sint_small [OF this] show ?thesis unfolding o .
  qed
  have "of_nat k * defaultClusterSize \<le> (of_nat n :: u64)" unfolding word_le_nat_alt o un using assms by simp
  then show m: "unat (of_nat n - of_nat k * defaultClusterSize) = n - k * 65536"
    using unat_minus_small [of "of_nat k * defaultClusterSize" "of_nat n"] o un by simp
  show "sint (of_nat n - of_nat k * defaultClusterSize :: u64) = int (n - k * 65536)"
  proof -
    have "unat (of_nat n - of_nat k * defaultClusterSize :: u64) < 2 ^ 63" using m assms by simp
    from sint_small [OF this] show ?thesis unfolding m .
  qed
qed

subsection \<open>Into an image\<close>

lemma read_chunk:
  assumes "readable src" and "k * 65536 < length (gf_data src)" and n: "length (gf_data src) \<le> 2 ^ 42"
  defines "off \<equiv> of_nat k * defaultClusterSize" and "N \<equiv> of_nat (length (gf_data src)) :: u64"
  defines "readLen \<equiv> (if N - off < defaultClusterSize then N - off else defaultClusterSize)"
  shows "\<exists>got. ReadAt src (unat readLen) (sint off) = (got, None) \<and>
    got @ replicate (unat defaultClusterSize - length got) 0 = chunk (gf_data src) k"
proof -
  let ?n = "length (gf_data src)"
  note co = cluster_offset [OF assms(2) n]
  have rl: "unat readLen = min (?n - k * 65536) 65536"
    using co(3) by (auto simp: readLen_def N_def off_def word_less_nat_alt defaultClusterSize_def min_def)
  have "ReadAt src (unat readLen) (int (k * 65536)) =
      (gslice (nat (int (k * 65536))) (nat (int (k * 65536)) + unat readLen) (gf_data src), None)"
  proof (rule ReadAt_ok [OF assms(1)])
    show "nat (int (k * 65536)) + unat readLen \<le> ?n" using assms(2) unfolding nat_int rl by linarith
  qed simp
  then have r: "ReadAt src (unat readLen) (sint off) = (gslice (k * 65536) (k * 65536 + unat readLen) (gf_data src), None)"
    unfolding off_def co(2) nat_int .
  have g: "gslice (k * 65536) (k * 65536 + unat readLen) (gf_data src) = gslice (k * 65536) (k * 65536 + 65536) (gf_data src)"
    unfolding rl by (simp add: gslice_def min_def)
  show ?thesis unfolding r g by (simp add: chunk_def defaultClusterSize_def min_def)
qed

lemma fill_loop_ok:
  assumes src: "readable src" and n: "length (gf_data src) \<le> 2 ^ 42"
  shows "layer_ok l \<Longrightarrow> csize l = 65536 \<Longrightarrow> size_ok l \<Longrightarrow> qh_Size (ql_header l) = of_nat (length (gf_data src)) \<Longrightarrow>
    i + left = clusters (length (gf_data src)) \<Longrightarrow> length (ldata l) + left * 262144 < 2 ^ 55 \<Longrightarrow>
    \<forall>k. i \<le> k \<and> k < i + left \<longrightarrow> cluster_content l [] (of_nat k) = replicate 65536 0 \<Longrightarrow>
    \<exists>l'. fill_loop left (of_nat (length (gf_data src))) (of_nat i) src l = (l', None) \<and> layer_ok l' \<and> same_shape l l' \<and>
      (\<forall>k < i + left. cluster_content l' [] (of_nat k) = (if i \<le> k then chunk (gf_data src) k else cluster_content l [] (of_nat k)))"
proof (induction left arbitrary: i l)
  case 0
  then show ?case by (intro exI [of _ l]) (simp add: same_shape_def)
next
  case (Suc left)
  let ?d = "gf_data src" and ?n = "length (gf_data src)"
  have i: "i < clusters ?n" using Suc.prems(5) by simp
  note cf = clusters_facts [OF i]
  obtain got where got: "ReadAt src (unat (if of_nat ?n - of_nat i * defaultClusterSize < defaultClusterSize
        then of_nat ?n - of_nat i * defaultClusterSize else defaultClusterSize)) (sint (of_nat i * defaultClusterSize)) = (got, None)"
    "got @ replicate (unat defaultClusterSize - length got) 0 = chunk ?d i"
    using read_chunk [OF src cf(1) n] by auto
  have z: "replicate (unat defaultClusterSize) 0 = (replicate 65536 0 :: bytes)" by (simp add: defaultClusterSize_def)
  have word_eq: "(of_nat k :: u64) = of_nat i \<longleftrightarrow> k = i" if "k < clusters ?n" for k
    using clusters_facts(2) [OF that] cf(2) n by (simp add: word_unat_eq_iff unat_of_nat)
  have nxt: "of_nat i + 1 = (of_nat (Suc i) :: u64)" by simp
  show ?case
  proof (cases "chunk ?d i = replicate 65536 0")
    case True
    have step: "fill_loop (Suc left) (of_nat ?n) (of_nat i) src l = fill_loop left (of_nat ?n) (of_nat (Suc i)) src l"
      using got(2) True by (simp add: Let_def got(1) z add.commute)
    have "\<forall>k. Suc i \<le> k \<and> k < Suc i + left \<longrightarrow> cluster_content l [] (of_nat k) = replicate 65536 0"
      using Suc.prems(7) by simp
    with Suc.IH [of l "Suc i"] Suc.prems obtain l' where
      l': "fill_loop left (of_nat ?n) (of_nat (Suc i)) src l = (l', None)" "layer_ok l'" "same_shape l l'"
      "\<forall>k < Suc i + left. cluster_content l' [] (of_nat k) = (if Suc i \<le> k then chunk ?d k else cluster_content l [] (of_nat k))"
      by auto
    have "cluster_content l' [] (of_nat k) = (if i \<le> k then chunk ?d k else cluster_content l [] (of_nat k))"
      if "k < i + Suc left" for k
      using l'(4) that Suc.prems(7) True by (cases "k = i") auto
    then show ?thesis using l' step by auto
  next
    case False
    have ti: "table_index l (of_nat i) < unat (qh_L1Size (ql_header l))"
    proof -
      have "i * 65536 < unat (qh_Size (ql_header l))" using cf(1) n by (simp add: Suc.prems(4) unat_of_nat)
      from index_in_range [OF Suc.prems(1,3) this] show ?thesis by (simp add: Suc.prems(2))
    qed
    obtain l1 where w: "WriteCluster (of_nat i) (chunk ?d i) l = (l1, None)" "layer_ok l1"
      "own_cluster l1 = (own_cluster l)(of_nat i := Some (chunk ?d i))" "same_shape l l1"
      "length (ldata l1) \<le> length (ldata l) + 4 * csize l"
      using WriteCluster_ok [OF Suc.prems(1) _ ti, of "chunk ?d i"] Suc.prems(2,6) by auto
    note s = same_shape_simps [OF w(4)]
    have cc: "cluster_content l1 [] cj = (if cj = of_nat i then chunk ?d i else cluster_content l [] cj)" for cj
      using ti unfolding cluster_content.simps [of l] cluster_content.simps [of l1] w(3) s by simp
    have step: "fill_loop (Suc left) (of_nat ?n) (of_nat i) src l = fill_loop left (of_nat ?n) (of_nat (Suc i)) src l1"
      using got(2) False w(1) by (simp add: Let_def got(1) z add.commute)
    have zero: "\<forall>k. Suc i \<le> k \<and> k < Suc i + left \<longrightarrow> cluster_content l1 [] (of_nat k) = replicate 65536 0"
      using Suc.prems(5,7) word_eq unfolding cc by simp
    have "size_ok l1" using Suc.prems(3) s by (simp add: size_ok_def)
    with Suc.IH [of l1 "Suc i"] Suc.prems(2,4,5,6) w(2,5) s zero obtain l' where
      l': "fill_loop left (of_nat ?n) (of_nat (Suc i)) src l1 = (l', None)" "layer_ok l'" "same_shape l1 l'"
      "\<forall>k < Suc i + left. cluster_content l' [] (of_nat k) = (if Suc i \<le> k then chunk ?d k else cluster_content l1 [] (of_nat k))"
      by auto
    have "cluster_content l' [] (of_nat k) = (if i \<le> k then chunk ?d k else cluster_content l [] (of_nat k))"
      if "k < i + Suc left" for k
      using l'(4) that word_eq [of k] Suc.prems(5) unfolding cc by (cases "k = i") auto
    then show ?thesis using l' step same_shape_trans [OF w(4) l'(3)] by auto
  qed
qed

subsection \<open>Into a raw file\<close>

lemma raw_loop_ok:
  assumes n: "n \<le> 2 ^ 42"
  shows "chain_ok l ls \<Longrightarrow> csize l = 65536 \<Longrightarrow> unat (qh_Size (ql_header l)) = n \<Longrightarrow> length buf = 65536 \<Longrightarrow>
    usable dst \<Longrightarrow> length (gf_data dst) = n \<Longrightarrow> i + left = clusters n \<Longrightarrow>
    \<exists>d. raw_loop left (of_nat n) (of_nat i) buf l ls dst = (dst\<lparr>gf_data := d\<rparr>, None) \<and> length d = n \<and>
      (\<forall>b < n. d ! b = (if i * 65536 \<le> b then vbyte l ls b else gf_data dst ! b))"
proof (induction left arbitrary: i l ls buf dst)
  case 0
  have "n \<le> i * 65536" using 0(7) by (simp add: clusters_def)
  then show ?case by (intro exI [of _ "gf_data dst"]) (simp add: 0(6))
next
  case (Suc left)
  have i: "i < clusters n" using Suc.prems(7) by simp
  note cf = clusters_facts [OF i] and co = cluster_offset [OF clusters_facts(1) [OF i] n]
  obtain l' ls' where rc: "ReadCluster l ls (of_nat i) = ((l', ls'), Inr (cluster_content l ls (of_nat i)))"
    "same_layer l l'" "layer_ok l'" "list_all2 same_layer ls ls'" "list_all layer_ok ls'"
    using ReadCluster_ok [of l ls "of_nat i"] Suc.prems(1) unfolding chain_ok_def by blast
  note cs = chain_same [OF Suc.prems(1) rc(2-5)] and s = same_layer_simps [OF rc(2)]
  let ?c = "cluster_content l ls (of_nat i)"
  have lc: "length ?c = 65536" using length_cluster_content [OF Suc.prems(1)] Suc.prems(2) by simp
  have buf: "gcopy 0 (take (length buf) ?c) buf = ?c" using lc Suc.prems(4) by (simp add: gcopy_def)
  define m where "m = min (n - i * 65536) 65536"
  have m: "0 < m" "m \<le> 65536" "i * 65536 + m \<le> n" using cf by (simp_all add: m_def)
  have wl: "(if sint (of_nat n - of_nat i * defaultClusterSize :: u64) < sint defaultClusterSize
      then sint (of_nat n - of_nat i * defaultClusterSize :: u64) else sint defaultClusterSize) = int m"
    unfolding co(4) by (simp add: m_def defaultClusterSize_def min_def)
  let ?w = "take m ?c"
  have "?w \<noteq> []" using m lc by auto
  then have wr: "WriteAt dst ?w (int (i * 65536)) = (dst\<lparr>gf_data := overlay (i * 65536) ?w (gf_data dst)\<rparr>, length ?w, None)"
    using WriteAt_ok [OF Suc.prems(5), of "int (i * 65536)" ?w] unfolding nat_int by simp
  let ?dst = "dst\<lparr>gf_data := overlay (i * 65536) ?w (gf_data dst)\<rparr>"
  have nm: "\<not> int m < 0" by simp
  have step: "raw_loop (Suc left) (of_nat n) (of_nat i) buf l ls dst = raw_loop left (of_nat n) (of_nat (Suc i)) ?c l' ls' ?dst"
    unfolding raw_loop.simps(2) rc(1) prod.case sum.case Let_def buf wl co(2) nm if_False nat_int wr option.case
    by (simp add: add.commute)
  have len: "length (gf_data ?dst) = n" using m lc Suc.prems(6) by simp
  have "usable ?dst" using Suc.prems(5) by (simp add: usable_def)
  with Suc.IH [of l' ls' ?c ?dst "Suc i"] cs(1) Suc.prems(2,3,7) lc len s obtain d where
    d: "raw_loop left (of_nat n) (of_nat (Suc i)) ?c l' ls' ?dst = (?dst\<lparr>gf_data := d\<rparr>, None)" "length d = n"
    "\<forall>b < n. d ! b = (if Suc i * 65536 \<le> b then vbyte l' ls' b else gf_data ?dst ! b)"
    by auto
  have "d ! b = (if i * 65536 \<le> b then vbyte l ls b else gf_data dst ! b)" if b: "b < n" for b
  proof (cases "Suc i * 65536 \<le> b")
    case True
    then show ?thesis using d(3) b cs(2) by simp
  next
    case False
    have "d ! b = overlay (i * 65536) ?w (gf_data dst) ! b" using d(3) b False by simp
    also have "\<dots> = (if i * 65536 \<le> b then ?c ! (b - i * 65536) else gf_data dst ! b)"
    proof -
      have "b < i * 65536 + m" if "i * 65536 \<le> b" using b False that by (simp add: m_def min_def)
      then show ?thesis using b m lc Suc.prems(6) by (auto simp: nth_overlay min_def)
    qed
    finally have e: "d ! b = (if i * 65536 \<le> b then ?c ! (b - i * 65536) else gf_data dst ! b)" .
    have "?c ! (b - i * 65536) = vbyte l ls b" if "i * 65536 \<le> b"
    proof -
      have q: "b div 65536 = i" using that False by (intro div_nat_eqI) simp_all
      have "b mod 65536 = b - i * 65536" using minus_div_mult_eq_mod [of b 65536] unfolding q by simp
      with q show ?thesis by (simp add: vbyte_def Suc.prems(2))
    qed
    then show ?thesis using e by simp
  qed
  then show ?case using step d(1,2) by (intro exI [of _ d]) simp
qed

end
