(* ===== verification/Qcow2Theorems.thy ===== *)
theory Qcow2Theorems
  imports Qcow2Convert
begin

text \<open>The properties of the disk images, with an image of two clusters as the witness.\<close>

subsection \<open>A demonstration image\<close>

definition blank_file :: GoFile where
  "blank_file = \<lparr>gf_data = [], gf_write = True, gf_open = True, gf_fault = False\<rparr>"

lemma blank_file_ok: "usable blank_file" "gf_data blank_file = []"
  by (simp_all add: blank_file_def usable_def)

lemma demo_image:
  "\<exists>l. layer_ok l \<and> header_ok l \<and> size_ok l \<and> chain_ok l [] \<and> qh_Size (ql_header l) = 131072 \<and> csize l = 65536 \<and>
     length (ldata l) = 196608 \<and> table_index l 1 < unat (qh_L1Size (ql_header l))"
proof -
  obtain f' l where l: "layer_ok l" "header_ok l" "size_ok l" "qh_Size (ql_header l) = 131072" "csize l = 65536"
    "length (ldata l) = 196608"
    using create_then_open [OF blank_file_ok, of 131072 "[]" "\<lambda>_. 0"] by auto
  then show ?thesis using index_in_range [of l 65536] by (intro exI [of _ l]) (simp add: chain_ok_def)
qed

subsection \<open>Clusters\<close>

lemma read_content:
  "layer_ok l \<Longrightarrow> list_all layer_ok ls \<Longrightarrow> snd (ReadCluster l ls ci) = Inr (cluster_content l ls ci)"
  using ReadCluster_ok [of l ls ci] by auto

text \<open>
  C18: Copy-on-write: writing a full cluster inside the virtual size succeeds, the cluster
  then reads back as written, every other cluster reads as before through the whole backing
  chain (the layers below are not touched), and the layer stays well formed on disk and in
  its cache.
\<close>
theorem qcow2_cluster_cow:
  assumes "layer_ok l" and "list_all layer_ok ls" and "length dat = csize l"
    and "table_index l ci < unat (qh_L1Size (ql_header l))" and "length (ldata l) + 4 * csize l < 2 ^ 55"
  shows "\<exists>l'. WriteCluster ci dat l = (l', None) \<and> layer_ok l' \<and> (header_ok l \<longrightarrow> header_ok l') \<and>
    (\<forall>cj. snd (ReadCluster l' ls cj) = (if cj = ci then Inr dat else snd (ReadCluster l ls cj)))"
proof -
  obtain l' where w: "WriteCluster ci dat l = (l', None)" "layer_ok l'"
    "own_cluster l' = (own_cluster l)(ci := Some dat)" "same_shape l l'"
    using WriteCluster_ok [OF assms(1,3-5)] by blast
  note s = same_shape_simps [OF w(4)]
  have "cluster_content l' ls cj = (if cj = ci then dat else cluster_content l ls cj)" for cj
    using assms(4) unfolding cluster_content.simps [of l] cluster_content.simps [of l'] w(3) s by simp
  moreover have "header_ok l \<longrightarrow> header_ok l'" by (simp add: header_ok_def s)
  ultimately show ?thesis using w(1,2) assms(1,2) by (simp add: read_content)
qed

lemma qcow2_cluster_cow_witness:
  "\<exists>l l'. WriteCluster 1 (replicate 65536 7) l = (l', None) \<and> snd (ReadCluster l' [] 1) = Inr (replicate 65536 7)"
proof -
  obtain l where l: "layer_ok l" "csize l = 65536" "length (ldata l) = 196608"
    "table_index l 1 < unat (qh_L1Size (ql_header l))" using demo_image by blast
  then show ?thesis
    using qcow2_cluster_cow [OF l(1) _ _ l(4), of "[]" "replicate 65536 7"] by fastforce
qed

text \<open>
  What was written is durable: opening the file of a well-formed layer again, with an
  empty cache, gives a well-formed layer that reads the same at every cluster, over any
  backing chain.
\<close>
theorem qcow2_reopen:
  assumes "layer_ok l" and "header_ok l"
  shows "\<exists>l'. open_layer rand (ql_file l) = Inr l' \<and> layer_ok l' \<and> header_ok l' \<and> VirtualSize l' = VirtualSize l \<and>
    (\<forall>ls ci. list_all layer_ok ls \<longrightarrow> snd (ReadCluster l' ls ci) = snd (ReadCluster l ls ci))"
proof -
  obtain l' where l': "open_layer rand (ql_file l) = Inr l'" "layer_ok l'" "header_ok l'"
    "ql_header l' = ql_header l" "own_cluster l' = own_cluster l" "ql_clusterSize l' = ql_clusterSize l"
    using open_layer_ok [OF assms, of rand] by blast
  have s: "csize l' = csize l" "table_index l' = table_index l"
    by (simp_all add: csize_def table_index_def l'(6) fun_eq_iff)
  have "cluster_content l' ls ci = cluster_content l ls ci" for ls ci
    unfolding cluster_content.simps [of l] cluster_content.simps [of l'] l'(4,5) s ..
  then show ?thesis using l'(1-4) assms(1) by (simp add: read_content VirtualSize_def)
qed

lemma qcow2_reopen_witness:
  "\<exists>(l :: QCOW2Layer) l'. open_layer (\<lambda>_. 0) (ql_file l) = Inr l' \<and> VirtualSize l' = 131072"
proof -
  obtain l where l: "layer_ok l" "header_ok l" "VirtualSize l = 131072"
    using demo_image by (auto simp: VirtualSize_def)
  then show ?thesis using qcow2_reopen [OF l(1,2), of "\<lambda>_. 0"] unfolding l(3) by blast
qed

text \<open>
  CreateQCOW2 on a fresh file makes an image that opens: it has the size and the backing
  name asked for, is well formed, its L1 table covers the virtual size, and every cluster of
  that range reads as the backing chain does, or as zeros without one. (Sizes up to 4 TiB
  and names of up to 65,432 bytes, so that the L1 table and the name fit their clusters.)
\<close>
theorem qcow2_create_open:
  assumes "usable f" and "gf_data f = []" and "unat v \<le> 2 ^ 42" and "length name \<le> 65432"
  shows "\<exists>f' l. CreateQCOW2 f v name = (f', None) \<and> open_layer rand f' = Inr l \<and> layer_ok l \<and> header_ok l \<and> size_ok l \<and>
    VirtualSize l = v \<and> ql_backingFile l = name \<and>
    (\<forall>ls ci. list_all layer_ok ls \<longrightarrow> unat ci * 65536 < unat v \<longrightarrow>
       snd (ReadCluster l ls ci) = (case ls of [] \<Rightarrow> Inr (replicate 65536 0) | b # bs \<Rightarrow> snd (ReadCluster b bs ci)))"
proof -
  obtain f' l where l: "CreateQCOW2 f v name = (f', None)" "open_layer rand f' = Inr l" "layer_ok l" "header_ok l"
    "size_ok l" "qh_Size (ql_header l) = v" "ql_backingFile l = name" "csize l = 65536" "own_cluster l = (\<lambda>_. None)"
    using create_then_open [OF assms, of rand] by blast
  have "snd (ReadCluster l ls ci) = (case ls of [] \<Rightarrow> Inr (replicate 65536 0) | b # bs \<Rightarrow> snd (ReadCluster b bs ci))"
    if ls: "list_all layer_ok ls" and ci: "unat ci * 65536 < unat v" for ls ci
  proof -
    have "table_index l ci < unat (qh_L1Size (ql_header l))"
      using index_in_range [OF l(3,5), of "unat ci * 65536"] ci by (simp add: l(6,8))
    then have "cluster_content l ls ci = (case ls of [] \<Rightarrow> replicate 65536 0 | b # bs \<Rightarrow> cluster_content b bs ci)"
      unfolding cluster_content.simps [of l] l(8,9) by simp
    then show ?thesis using ls l(3) by (cases ls) (simp_all add: read_content)
  qed
  then show ?thesis using l(1-7) by (auto simp: VirtualSize_def)
qed

lemma qcow2_create_open_witness:
  "\<exists>f' l. CreateQCOW2 blank_file 131072 [98] = (f', None) \<and> open_layer (\<lambda>_. 0) f' = Inr l \<and> ql_backingFile l = [98]"
  using qcow2_create_open [OF blank_file_ok, of 131072 "[98]" "\<lambda>_. 0"] by auto

subsection \<open>Bytes\<close>

lemma image_WriteAt_ok:
  assumes "chain_ok l ls" and "size_ok l" and "a < unat (qh_Size (ql_header l))"
    and "length (ldata l) + 4 * csize l * ((a mod csize l + length p + csize l - 1) div csize l) < 2 ^ 55"
  shows "\<exists>l' ls'. image_WriteAt (l, ls) p (int a) = Some ((l', ls'), min (length p) (vend l - a), None) \<and>
    chain_ok l' ls' \<and> size_ok l' \<and> vend l' = vend l \<and> qh_Size (ql_header l') = qh_Size (ql_header l) \<and>
    (\<forall>b < vend l. vbyte l' ls' b = (if a \<le> b \<and> b < a + length p then p ! (b - a) else vbyte l ls b))"
proof -
  have ok: "layer_ok l" using assms(1) by (simp add: chain_ok_def)
  have a63: "a < 2 ^ 63" using assms(2,3) by (simp add: size_ok_def)
  have "\<not> qh_Size (ql_header l) \<le> of_nat a"
    using assms(3) offset_div(3) [OF ok, of a] a63 by (simp add: word_le_nat_alt)
  moreover have "ql_clusterSize l \<noteq> 0" using csize_facts(3) [OF ok] by (auto simp: csize_def)
  ultimately have "image_WriteAt (l, ls) p (int a) = write_loop l ls p (of_nat a) 0"
    by (simp add: image_WriteAt_def)
  then show ?thesis using write_loop_ok [OF assms(1,2) a63, of p 0] assms(3,4) by simp
qed

text \<open>
  C17: An image behaves like a vector of bytes (up to the end of its last cluster): WriteAt
  replaces exactly the bytes it is given, and any ReadAt afterwards, at any offset and of any
  length, returns the bytes of the updated vector. Both return, whatever was cached.
\<close>
theorem qcow2_byte_vector:
  assumes "chain_ok l ls" and "size_ok l" and "a < unat (qh_Size (ql_header l))"
    and "length (ldata l) + 4 * csize l * ((a mod csize l + length p + csize l - 1) div csize l) < 2 ^ 55"
  shows "\<exists>img'. image_WriteAt (l, ls) p (int a) = Some (img', min (length p) (vend l - a), None) \<and>
    (\<forall>c n. c < unat (qh_Size (ql_header l)) \<longrightarrow>
       (\<exists>img''. image_ReadAt img' n (int c) =
          Some (img'', map (\<lambda>b. if a \<le> b \<and> b < a + length p then p ! (b - a) else vbyte l ls b) [c..<min (c + n) (vend l)],
                if n = 0 then Some (QcIO IoEOF) else None)))"
proof -
  let ?upd = "\<lambda>b. if a \<le> b \<and> b < a + length p then p ! (b - a) else vbyte l ls b"
  obtain l' ls' where w: "image_WriteAt (l, ls) p (int a) = Some ((l', ls'), min (length p) (vend l - a), None)"
    "chain_ok l' ls'" "size_ok l'" "vend l' = vend l" "qh_Size (ql_header l') = qh_Size (ql_header l)"
    "\<forall>b < vend l. vbyte l' ls' b = ?upd b"
    using image_WriteAt_ok [OF assms] by blast
  have "\<exists>img''. image_ReadAt (l', ls') n (int c) =
      Some (img'', map ?upd [c..<min (c + n) (vend l)], if n = 0 then Some (QcIO IoEOF) else None)"
    if c: "c < unat (qh_Size (ql_header l))" for c n
  proof -
    have "map (vbyte l' ls') [c..<min (c + n) (vend l)] = map ?upd [c..<min (c + n) (vend l)]"
      using w(6) by simp
    moreover have "c < unat (qh_Size (ql_header l'))" using c w(5) by simp
    ultimately show ?thesis using image_ReadAt_ok [OF w(2,3), of c n] unfolding w(4) by metis
  qed
  then show ?thesis using w(1) by blast
qed

lemma qcow2_byte_vector_witness:
  "\<exists>l img'. image_WriteAt (l, []) [1, 2, 3] 65535 = Some (img', 3, None) \<and>
     (\<exists>img''. image_ReadAt img' 3 65535 = Some (img'', [1, 2, 3], None))"
proof -
  obtain l where l: "chain_ok l []" "size_ok l" "qh_Size (ql_header l) = 131072" "csize l = 65536" "length (ldata l) = 196608"
    using demo_image by blast
  have v: "vend l = 131072" by (simp add: vend_def l)
  have "\<exists>img'. image_WriteAt (l, []) [1, 2, 3] (int 65535) = Some (img', min (length [1, 2, 3 :: byte]) (vend l - 65535), None) \<and>
    (\<forall>c n. c < unat (qh_Size (ql_header l)) \<longrightarrow>
       (\<exists>img''. image_ReadAt img' n (int c) =
          Some (img'', map (\<lambda>b. if 65535 \<le> b \<and> b < 65535 + length [1, 2, 3 :: byte] then [1, 2, 3] ! (b - 65535) else vbyte l [] b) [c..<min (c + n) (vend l)],
                if n = 0 then Some (QcIO IoEOF) else None)))"
    by (rule qcow2_byte_vector [OF l(1,2)]) (simp_all add: l)
  then obtain img' where w: "image_WriteAt (l, []) [1, 2, 3] 65535 = Some (img', 3, None)"
    "\<And>c n. c < 131072 \<Longrightarrow> \<exists>img''. image_ReadAt img' n (int c) =
          Some (img'', map (\<lambda>b. if 65535 \<le> b \<and> b < 65538 then [1, 2, 3] ! (b - 65535) else vbyte l [] b) [c..<min (c + n) 131072],
                if n = 0 then Some (QcIO IoEOF) else None)"
    by (auto simp: v l(3))
  have "[65535..<min (65535 + 3) 131072] = [65535, 65536, 65537 :: nat]" by (simp add: upt_rec)
  then have "\<exists>img''. image_ReadAt img' 3 65535 = Some (img'', [1, 2, 3], None)" using w(2) [of 65535 3] by simp
  then show ?thesis using w(1) by blast
qed

subsection \<open>Conversions\<close>

text \<open>
  Converting a raw disk to qcow2 and back loses nothing: both conversions succeed and the
  resulting raw file has the bytes of the original (up to 4 TiB, on files that do not fail).
\<close>
theorem qcow2_raw_roundtrip:
  assumes "readable src" and "length (gf_data src) \<le> 2 ^ 42" and "usable new" and "gf_data new = []" and "usable dst"
  shows "\<exists>l dst'. convertRawToQCOW2 rand src new = Inr l \<and> convertQCOW2ToRaw (l, []) dst = (dst', None) \<and>
    gf_data dst' = gf_data src"
proof -
  let ?n = "length (gf_data src)" and ?v = "of_nat (length (gf_data src)) :: u64"
  have u: "unat ?v = ?n" using assms(2) by (simp add: unat_of_nat)
  obtain f' l0 where c: "CreateQCOW2 new ?v [] = (f', None)" "open_layer rand f' = Inr l0" "layer_ok l0" "size_ok l0"
    "qh_Size (ql_header l0) = ?v" "csize l0 = 65536" "own_cluster l0 = (\<lambda>_. None)" "length (ldata l0) = 196608"
    using create_then_open [OF assms(3,4), of ?v "[]" rand] assms(2) u by auto
  have tot: "unat (total_clusters ?v) = clusters ?n" by (rule total_clusters_unat [OF assms(2)])
  have "clusters ?n \<le> 2 ^ 26" using assms(2) by (simp add: clusters_def)
  then have room: "length (ldata l0) + clusters ?n * 262144 < 2 ^ 55" by (simp add: c(8))
  have z: "cluster_content l0 [] ci = replicate 65536 0" for ci
    unfolding cluster_content.simps [of l0] c(6,7) by simp
  obtain l where l: "fill_loop (clusters ?n) ?v 0 src l0 = (l, None)" "layer_ok l" "same_shape l0 l"
    "\<forall>k < clusters ?n. cluster_content l [] (of_nat k) = chunk (gf_data src) k"
    using fill_loop_ok [OF assms(1,2) c(3,6,4,5), of 0 "clusters ?n"] room z by auto
  have run: "convertRawToQCOW2 rand src new = Inr l"
    by (simp add: convertRawToQCOW2_def Let_def c(1,2) tot l(1))
  note s = same_shape_simps [OF l(3)]
  have ch: "chain_ok l []" using l(2) by (simp add: chain_ok_def)
  let ?t = "dst\<lparr>gf_data := take ?n (gf_data dst) @ replicate (?n - length (gf_data dst)) 0\<rparr>"
  have sn: "sint ?v = int ?n" using sint_small [of ?v] u assms(2) by simp
  have tr: "Truncate dst (sint ?v) = (?t, None)" unfolding sn using assms(5) by (simp add: Truncate_def usable_def)
  have "usable ?t" "length (gf_data ?t) = ?n" using assms(5) by (simp_all add: usable_def)
  then obtain d where d: "raw_loop (clusters ?n) ?v 0 (replicate 65536 0) l [] ?t = (?t\<lparr>gf_data := d\<rparr>, None)" "length d = ?n"
    "\<forall>b < ?n. d ! b = vbyte l [] b"
    using raw_loop_ok [OF assms(2) ch, of "replicate 65536 0" ?t 0 "clusters ?n"] s(1,6) c(5,6) u by auto
  have "convertQCOW2ToRaw (l, []) dst = (?t\<lparr>gf_data := d\<rparr>, None)"
    using d(1) tr tot by (simp add: convertQCOW2ToRaw_def VirtualSize_def s(6) c(5) Let_def defaultClusterSize_def)
  moreover have "d = gf_data src"
  proof (rule nth_equalityI)
    fix b assume "b < length d"
    then have b: "b < ?n" by (simp add: d(2))
    have k: "b div 65536 < clusters ?n" using b by (simp add: clusters_def)
    have "d ! b = chunk (gf_data src) (b div 65536) ! (b mod 65536)"
      using d(3) b l(4) k by (simp add: vbyte_def s(1) c(6))
    also have "\<dots> = gf_data src ! b" using nth_chunk [of "b mod 65536" "b div 65536" "gf_data src"] b by simp
    finally show "d ! b = gf_data src ! b" .
  qed (simp add: d(2))
  ultimately show ?thesis using run by (intro exI [of _ l]) simp
qed

lemma qcow2_raw_roundtrip_witness:
  "\<exists>l dst'. convertRawToQCOW2 (\<lambda>_. 0) (blank_file\<lparr>gf_data := [5, 6]\<rparr>) blank_file = Inr l \<and>
     convertQCOW2ToRaw (l, []) blank_file = (dst', None) \<and> gf_data dst' = [5, 6]"
proof -
  have "readable (blank_file\<lparr>gf_data := [5, 6]\<rparr>)" by (simp add: readable_def blank_file_def)
  from qcow2_raw_roundtrip [OF this _ blank_file_ok blank_file_ok(1), of "\<lambda>_. 0"] show ?thesis by simp
qed

end
