(* ===== verification/GoUtf8.thy ===== *)
theory GoUtf8
  imports Prelude
begin

text \<open>
  UTF-8 text as Go reads it (\<^verbatim>\<open>unicode/utf8\<close>, \<^verbatim>\<open>[]rune(s)\<close>, \<^verbatim>\<open>strings.TrimSpace\<close>,
  \<^verbatim>\<open>strings.Index\<close>, \<^verbatim>\<open>strconv.Atoi\<close>): a string is a list of bytes, cut into the encodings of
  its runes; a byte that starts no valid encoding stands alone and reads as U+FFFD.
\<close>

definition byte_of :: "char \<Rightarrow> nat" where "byte_of c = of_char c"

definition within :: "nat \<Rightarrow> nat \<Rightarrow> char \<Rightarrow> bool" where
  "within lo hi c \<longleftrightarrow> lo \<le> byte_of c \<and> byte_of c \<le> hi"

text \<open>
  Number of bytes of the first rune, or \<open>None\<close> if they are no valid encoding; a byte without
  the top bit is a rune.
\<close>

definition multibyte :: "nat \<Rightarrow> nat \<Rightarrow> nat \<Rightarrow> string \<Rightarrow> nat option" where
  "multibyte n lo hi r =
     (if n \<le> length r \<and> within lo hi (hd r) \<and> list_all (within 0x80 0xBF) (take n r) then Some (Suc n) else None)"

fun rune_width :: "string \<Rightarrow> nat option" where
  "rune_width [] = None"
| "rune_width (c # r) =
     (if \<not> digit7 c then Some 1
      else if within 0xC2 0xDF c then multibyte 1 0x80 0xBF r
      else if byte_of c = 0xE0 then multibyte 2 0xA0 0xBF r
      else if byte_of c = 0xED then multibyte 2 0x80 0x9F r
      else if within 0xE1 0xEF c then multibyte 2 0x80 0xBF r
      else if byte_of c = 0xF0 then multibyte 3 0x90 0xBF r
      else if within 0xF1 0xF3 c then multibyte 3 0x80 0xBF r
      else if byte_of c = 0xF4 then multibyte 3 0x80 0x8F r
      else None)"

fun rune_pieces :: "string \<Rightarrow> string list" where
  "rune_pieces [] = []"
| "rune_pieces (c # r) =
     (case rune_width (c # r) of
        None \<Rightarrow> [c] # rune_pieces r
      | Some n \<Rightarrow> take n (c # r) # rune_pieces (drop (n - 1) r))"

definition replacement :: string where
  "replacement = [CHR 0xEF, CHR 0xBF, CHR 0xBD]"

definition encode_piece :: "string \<Rightarrow> string" where
  "encode_piece p = (if rune_width p = None then replacement else p)"

lemma rune_width_bounds: "rune_width s = Some n \<Longrightarrow> 0 < n \<and> n \<le> length s"
  by (cases s) (auto simp: multibyte_def split: if_splits)

lemma concat_rune_pieces [simp]: "concat (rune_pieces s) = s"
proof (induction s rule: rune_pieces.induct)
  case (2 c r)
  show ?case
  proof (cases "rune_width (c # r)")
    case None
    then show ?thesis using "2.IH"(1) by (simp del: rune_width.simps)
  next
    case (Some n)
    from rune_width_bounds[OF Some] have "take n (c # r) @ drop (n - 1) r = c # r"
      by (cases n) simp_all
    with Some "2.IH"(2) show ?thesis by (simp del: rune_width.simps)
  qed
qed simp

subsection \<open>Trimming\<close>

definition white_pieces :: "string list" where
  "white_pieces =
    [[CHR 0x09], [CHR 0x0A], [CHR 0x0B], [CHR 0x0C], [CHR 0x0D], [CHR 0x20], [CHR 0xC2, CHR 0x85],
     [CHR 0xC2, CHR 0xA0], [CHR 0xE1, CHR 0x9A, CHR 0x80], [CHR 0xE2, CHR 0x80, CHR 0x80],
     [CHR 0xE2, CHR 0x80, CHR 0x81], [CHR 0xE2, CHR 0x80, CHR 0x82],
     [CHR 0xE2, CHR 0x80, CHR 0x83], [CHR 0xE2, CHR 0x80, CHR 0x84],
     [CHR 0xE2, CHR 0x80, CHR 0x85], [CHR 0xE2, CHR 0x80, CHR 0x86],
     [CHR 0xE2, CHR 0x80, CHR 0x87], [CHR 0xE2, CHR 0x80, CHR 0x88],
     [CHR 0xE2, CHR 0x80, CHR 0x89], [CHR 0xE2, CHR 0x80, CHR 0x8A],
     [CHR 0xE2, CHR 0x80, CHR 0xA8], [CHR 0xE2, CHR 0x80, CHR 0xA9],
     [CHR 0xE2, CHR 0x80, CHR 0xAF], [CHR 0xE2, CHR 0x81, CHR 0x9F],
     [CHR 0xE3, CHR 0x80, CHR 0x80]]"

definition trim_space :: "string \<Rightarrow> string" where
  "trim_space s =
     (let white = (\<lambda>p. List.member white_pieces p);
          left = dropWhile white (rune_pieces s)
      in concat (rev (dropWhile white (rev left))))"

subsection \<open>Searching\<close>

fun Index :: "'a list \<Rightarrow> 'a list \<Rightarrow> nat option" where
  "Index s pat =
     (if take (length pat) s = pat then Some 0
      else (case s of [] \<Rightarrow> None | x # xs \<Rightarrow> map_option Suc (Index xs pat)))"

declare Index.simps [simp del]

definition occurs_at :: "'a list \<Rightarrow> 'a list \<Rightarrow> nat \<Rightarrow> bool" where
  "occurs_at s pat i \<longleftrightarrow> i \<le> length s \<and> take (length pat) (drop i s) = pat"

lemma Index_None: "Index s pat = None \<longleftrightarrow> (\<forall>i. \<not> occurs_at s pat i)"
proof (induction s)
  case Nil
  then show ?case by (auto simp: Index.simps occurs_at_def)
next
  case (Cons x xs)
  have "(\<forall>i. \<not> occurs_at (x # xs) pat i) \<longleftrightarrow> \<not> occurs_at (x # xs) pat 0 \<and> (\<forall>i. \<not> occurs_at (x # xs) pat (Suc i))"
    by (metis not0_implies_Suc)
  with Cons show ?case by (simp add: Index.simps[of "x # xs"] occurs_at_def)
qed

lemma Index_Some: "Index s pat = Some i \<longleftrightarrow> occurs_at s pat i \<and> (\<forall>j < i. \<not> occurs_at s pat j)"
proof (induction s arbitrary: i)
  case Nil
  show ?case by (cases i) (auto simp: Index.simps occurs_at_def)
next
  case (Cons x xs)
  have step: "occurs_at (x # xs) pat (Suc k) = occurs_at xs pat k" for k
    by (simp add: occurs_at_def)
  show ?case
  proof (cases "occurs_at (x # xs) pat 0")
    case True
    then have "Index (x # xs) pat = Some 0" by (simp add: Index.simps[of "x # xs"] occurs_at_def)
    with True show ?thesis by (cases i) auto
  next
    case False
    then have "Index (x # xs) pat = map_option Suc (Index xs pat)"
      by (simp add: Index.simps[of "x # xs"] occurs_at_def)
    with False Cons show ?thesis
      by (cases i) (auto simp: step less_Suc_eq_0_disj)
  qed
qed

subsection \<open>Numbers\<close>

definition is_digit :: "char \<Rightarrow> bool" where "is_digit c \<longleftrightarrow> within 0x30 0x39 c"

definition digits_value :: "string \<Rightarrow> int" where
  "digits_value ds = foldl (\<lambda>n c. 10 * n + (int (byte_of c) - 0x30)) 0 ds"

text \<open>\<^verbatim>\<open>strconv.Atoi\<close>; \<open>None\<close> is the error, of the syntax or of the range.\<close>

definition Atoi :: "string \<Rightarrow> int option" where
  "Atoi s =
     (let neg = (s \<noteq> [] \<and> hd s = CHR ''-'');
          ds = (if s \<noteq> [] \<and> (hd s = CHR ''-'' \<or> hd s = CHR ''+'') then tl s else s);
          v = (if neg then - digits_value ds else digits_value ds)
      in if ds = [] \<or> \<not> list_all is_digit ds \<or> v < - (2 ^ 63) \<or> 2 ^ 63 \<le> v then None else Some v)"

text \<open>
  Reading a decimal integer as \<^verbatim>\<open>fmt.Sscanf\<close> does with \<^verbatim>\<open>%d\<close> into an \<^verbatim>\<open>int\<close>: the value and
  the rest of the text.
\<close>

text \<open>Blanks before a number; a line break there is an error.\<close>

fun skip_blanks :: "string list \<Rightarrow> string list option" where
  "skip_blanks [] = Some []"
| "skip_blanks (p # ps) =
     (if p = [CHR 0x0A] then None
      else if List.member white_pieces p then skip_blanks ps
      else Some (p # ps))"

definition scan_int :: "string \<Rightarrow> (int \<times> string) option" where
  "scan_int s =
     (case skip_blanks (rune_pieces s) of
        None \<Rightarrow> None
      | Some ps \<Rightarrow>
          (let t = concat ps;
               signed = (t \<noteq> [] \<and> (hd t = CHR ''+'' \<or> hd t = CHR ''-''));
               body = (if signed then tl t else t);
               ds = takeWhile is_digit body;
               v = (if signed \<and> hd t = CHR ''-'' then - digits_value ds else digits_value ds)
           in if ds = [] \<or> v < - (2 ^ 63) \<or> 2 ^ 63 \<le> v then None else Some (v, drop (length ds) body)))"

text \<open>The same for a \<^verbatim>\<open>uint32\<close>, which takes no sign.\<close>

definition scan_uint32 :: "string \<Rightarrow> 32 word option" where
  "scan_uint32 s =
     (case skip_blanks (rune_pieces s) of
        None \<Rightarrow> None
      | Some ps \<Rightarrow>
          (let ds = takeWhile is_digit (concat ps)
           in if ds = [] \<or> 2 ^ 32 \<le> digits_value ds then None else Some (word_of_int (digits_value ds))))"

end
