(* ===== verification/Compose.thy ===== *)
theory Compose
  imports GoUtf8 "HOL-Library.AList" "HOL-Library.List_Lexorder" "HOL-Library.Char_ord"
begin

text \<open>
  Compose files (\<^verbatim>\<open>internal/compose\<close>: \<^verbatim>\<open>types.go\<close>, \<^verbatim>\<open>parser.go\<close>, \<^verbatim>\<open>extends.go\<close> and the
  validation functions of \<^verbatim>\<open>health.go\<close>): the configuration, inheritance between sandboxes,
  validation with its cycle detection, the start order and the profile filter. A Go map is
  an association list, whose order stands for the order in which Go iterates over it, and a
  map that may be nil an option. The YAML decoder is not modelled, nor is a sandbox it
  decodes to a nil pointer (on which \<^verbatim>\<open>Validate\<close> panics).
\<close>

subsection \<open>The configuration\<close>

record VolumeConfig =
  vc_Driver :: string
  vc_SizeMB :: int
  vc_Labels :: "(string \<times> string) list"

record LifecycleHooks =
  lh_PostStart :: "string list"
  lh_PreStop :: "string list"
  lh_PostCreate :: "string list"
  lh_PreDestroy :: "string list"

record HealthCheckConf =
  hc_Command :: "string list"
  hc_IntervalSec :: int
  hc_TimeoutSec :: int
  hc_Retries :: int
  hc_StartPeriodSec :: int

record VolumeMount =
  vm_Name :: string
  vm_Guest :: string
  vm_Readonly :: bool

record NetworkConf =
  nc_Allow :: "string list"
  nc_Deny :: "string list"

record Mount =
  mt_Host :: string
  mt_Guest :: string
  mt_Readonly :: bool

record WatchConfig =
  wt_Paths :: "string list"
  wt_Ignore :: "string list"

record SandboxConfig =
  sb_From :: string
  sb_VCPUs :: int
  sb_MemoryMB :: int
  sb_DiskGB :: int
  sb_Network :: "NetworkConf option"
  sb_Mounts :: "Mount list"
  sb_Volumes :: "VolumeMount list"
  sb_Env :: "(string \<times> string) list"
  sb_EnvFile :: "string list"
  sb_DependsOn :: "string list"
  sb_Profiles :: "string list"
  sb_HealthCheck :: "HealthCheckConf option"
  sb_RestartPolicy :: string
  sb_Hooks :: "LifecycleHooks option"
  sb_Watch :: "WatchConfig option"
  sb_Extends :: string

record ComposeConfig =
  cc_Sandboxes :: "(string \<times> SandboxConfig) list"
  cc_Volumes :: "(string \<times> VolumeConfig option) list option"

datatype compose_error =
    CmpNoSandbox
  | CmpFromRequired string
  | CmpHealthCommand
  | CmpHealthInterval
  | CmpHealthTimeout
  | CmpHealthRetries
  | CmpHealthStartPeriod
  | CmpRestartPolicy string
  | CmpEmptyEnvFile string nat
  | CmpUnknownDependency string string
  | CmpSelfDependency string
  | CmpVolumeNoName string
  | CmpVolumeNoGuest string string
  | CmpNoVolumes string string
  | CmpUndefinedVolume string string
  | CmpCycle "string list" string
  | CmpExtendsCycle string
  | CmpSandboxNotFound string
  | CmpExtendsUnknown string string
  | CmpExtendsSelf string
  | CmpYaml
  | CmpNilPanic string
  | CmpOutOfFuel

subsection \<open>Validation\<close>

definition ValidateHealthCheck :: "HealthCheckConf option \<Rightarrow> compose_error option" where
  "ValidateHealthCheck hco =
     (case hco of
        None \<Rightarrow> None
      | Some hc \<Rightarrow>
          if hc_Command hc = [] then Some CmpHealthCommand
          else if hc_IntervalSec hc < 0 then Some CmpHealthInterval
          else if hc_TimeoutSec hc < 0 then Some CmpHealthTimeout
          else if hc_Retries hc < 0 then Some CmpHealthRetries
          else if hc_StartPeriodSec hc < 0 then Some CmpHealthStartPeriod
          else None)"

definition ValidateRestartPolicy :: "string \<Rightarrow> compose_error option" where
  "ValidateRestartPolicy policy =
     (if policy \<in> {'''', ''no'', ''on-failure'', ''always''} then None else Some (CmpRestartPolicy policy))"

definition shouldRestart :: "string \<Rightarrow> bool" where
  "shouldRestart policy \<longleftrightarrow> policy = ''always'' \<or> policy = ''on-failure''"

fun check_env_files :: "string \<Rightarrow> nat \<Rightarrow> string list \<Rightarrow> compose_error option" where
  "check_env_files name i [] = None"
| "check_env_files name i (ef # efs) =
     (if trim_space ef = [] then Some (CmpEmptyEnvFile name i) else check_env_files name (i + 1) efs)"

fun check_deps :: "(string \<times> SandboxConfig) list \<Rightarrow> string \<Rightarrow> string list \<Rightarrow> compose_error option" where
  "check_deps sbs name [] = None"
| "check_deps sbs name (dep # deps) =
     (if map_of sbs dep = None then Some (CmpUnknownDependency name dep)
      else if dep = name then Some (CmpSelfDependency name)
      else check_deps sbs name deps)"

definition set_defaults :: "SandboxConfig \<Rightarrow> SandboxConfig" where
  "set_defaults sb = sb\<lparr>sb_VCPUs := (if sb_VCPUs sb \<le> 0 then 2 else sb_VCPUs sb),
     sb_MemoryMB := (if sb_MemoryMB sb \<le> 0 then 1024 else sb_MemoryMB sb),
     sb_DiskGB := (if sb_DiskGB sb \<le> 0 then 10 else sb_DiskGB sb)\<rparr>"

definition check_sandbox ::
  "(string \<times> SandboxConfig) list \<Rightarrow> string \<Rightarrow> SandboxConfig \<Rightarrow> compose_error option" where
  "check_sandbox sbs name sb =
     (case ValidateHealthCheck (sb_HealthCheck sb) of
        Some e \<Rightarrow> Some e
      | None \<Rightarrow>
          (case ValidateRestartPolicy (sb_RestartPolicy sb) of
             Some e \<Rightarrow> Some e
           | None \<Rightarrow>
               (case check_env_files name 0 (sb_EnvFile sb) of
                  Some e \<Rightarrow> Some e
                | None \<Rightarrow> check_deps sbs name (sb_DependsOn sb))))"

text \<open>
  The first loop: defaults are filled in as the sandboxes are checked, so a later error
  leaves them filled in for the sandboxes before it.
\<close>

fun check_sandboxes ::
  "(string \<times> SandboxConfig) list \<Rightarrow> (string \<times> SandboxConfig) list \<Rightarrow>
   (string \<times> SandboxConfig) list \<times> compose_error option" where
  "check_sandboxes all [] = ([], None)"
| "check_sandboxes all ((name, sb) # sbs) =
     (if sb_From sb = [] then ((name, sb) # sbs, Some (CmpFromRequired name))
      else
        let sb = set_defaults sb
        in case check_sandbox all name sb of
             Some e \<Rightarrow> ((name, sb) # sbs, Some e)
           | None \<Rightarrow> (case check_sandboxes all sbs of (sbs', e) \<Rightarrow> ((name, sb) # sbs', e)))"

fun check_mounts :: "(string \<times> VolumeConfig option) list option \<Rightarrow> string \<Rightarrow> VolumeMount list \<Rightarrow> compose_error option" where
  "check_mounts vols name [] = None"
| "check_mounts vols name (vol # ms) =
     (if vm_Name vol = [] then Some (CmpVolumeNoName name)
      else if vm_Guest vol = [] then Some (CmpVolumeNoGuest name (vm_Name vol))
      else if vols = None then Some (CmpNoVolumes name (vm_Name vol))
      else if map_of (the vols) (vm_Name vol) = None then Some (CmpUndefinedVolume name (vm_Name vol))
      else check_mounts vols name ms)"

fun check_all_mounts ::
  "(string \<times> VolumeConfig option) list option \<Rightarrow> (string \<times> SandboxConfig) list \<Rightarrow> compose_error option" where
  "check_all_mounts vols [] = None"
| "check_all_mounts vols ((name, sb) # sbs) =
     (case check_mounts vols name (sb_Volumes sb) of
        Some e \<Rightarrow> Some e
      | None \<Rightarrow> check_all_mounts vols sbs)"

definition volume_default :: "VolumeConfig option \<Rightarrow> VolumeConfig option" where
  "volume_default v =
     (case v of
        None \<Rightarrow> Some \<lparr>vc_Driver = ''local'', vc_SizeMB = 0, vc_Labels = []\<rparr>
      | Some c \<Rightarrow> Some (if vc_Driver c = [] then c\<lparr>vc_Driver := ''local''\<rparr> else c))"

subsection \<open>Cycles and the start order\<close>

text \<open>
  The recursive closures of detectCycles and TopologicalOrder. \<open>fuel\<close> bounds the depth of
  the recursion; the bounds used below are proved to be enough.
\<close>

datatype colour = Unvisited | Visiting | Visited

definition sandbox_deps :: "(string \<times> SandboxConfig) list \<Rightarrow> string \<Rightarrow> string list" where
  "sandbox_deps sbs name = (case map_of sbs name of None \<Rightarrow> [] | Some sb \<Rightarrow> sb_DependsOn sb)"

fun cycle_visit ::
    "(string \<times> SandboxConfig) list \<Rightarrow> nat \<Rightarrow> string \<Rightarrow> string list \<Rightarrow> (string \<Rightarrow> colour) \<Rightarrow>
     compose_error + (string \<Rightarrow> colour)"
  and cycle_visits ::
    "(string \<times> SandboxConfig) list \<Rightarrow> nat \<Rightarrow> string list \<Rightarrow> string list \<Rightarrow> (string \<Rightarrow> colour) \<Rightarrow>
     compose_error + (string \<Rightarrow> colour)" where
  "cycle_visit sbs 0 name path state = Inl CmpOutOfFuel"
| "cycle_visit sbs (Suc fuel) name path state =
     (if state name = Visited then Inr state
      else if state name = Visiting then Inl (CmpCycle path name)
      else if map_of sbs name = None then Inl (CmpNilPanic name)
      else case cycle_visits sbs fuel (sandbox_deps sbs name) (path @ [name]) (state(name := Visiting)) of
             Inl e \<Rightarrow> Inl e
           | Inr state \<Rightarrow> Inr (state(name := Visited)))"
| "cycle_visits sbs fuel [] path state = Inr state"
| "cycle_visits sbs fuel (dep # deps) path state =
     (case cycle_visit sbs fuel dep path state of
        Inl e \<Rightarrow> Inl e
      | Inr state \<Rightarrow> cycle_visits sbs fuel deps path state)"

fun cycle_roots ::
  "(string \<times> SandboxConfig) list \<Rightarrow> nat \<Rightarrow> string list \<Rightarrow> (string \<Rightarrow> colour) \<Rightarrow> compose_error + (string \<Rightarrow> colour)" where
  "cycle_roots sbs fuel [] state = Inr state"
| "cycle_roots sbs fuel (name # names) state =
     (if state name = Unvisited
      then (case cycle_visit sbs fuel name [] state of
              Inl e \<Rightarrow> Inl e
            | Inr state \<Rightarrow> cycle_roots sbs fuel names state)
      else cycle_roots sbs fuel names state)"

definition detectCycles :: "ComposeConfig \<Rightarrow> compose_error option" where
  "detectCycles c =
     (case cycle_roots (cc_Sandboxes c) (length (cc_Sandboxes c) + 1) (map fst (cc_Sandboxes c)) (\<lambda>_. Unvisited) of
        Inl e \<Rightarrow> Some e
      | Inr _ \<Rightarrow> None)"

fun topo_visit ::
    "(string \<times> SandboxConfig) list \<Rightarrow> nat \<Rightarrow> string \<Rightarrow> string set \<times> string list \<Rightarrow> (string set \<times> string list) option"
  and topo_visits ::
    "(string \<times> SandboxConfig) list \<Rightarrow> nat \<Rightarrow> string list \<Rightarrow> string set \<times> string list \<Rightarrow> (string set \<times> string list) option" where
  "topo_visit sbs 0 name s = None"
| "topo_visit sbs (Suc fuel) name s =
     (if name \<in> fst s then Some s
      else case topo_visits sbs fuel (sandbox_deps sbs name) (insert name (fst s), snd s) of
             None \<Rightarrow> None
           | Some (visited, order) \<Rightarrow> Some (visited, order @ [name]))"
| "topo_visits sbs fuel [] s = Some s"
| "topo_visits sbs fuel (dep # deps) s =
     (case topo_visit sbs fuel dep s of
        None \<Rightarrow> None
      | Some s \<Rightarrow> topo_visits sbs fuel deps s)"

definition topo_fuel :: "(string \<times> SandboxConfig) list \<Rightarrow> nat" where
  "topo_fuel sbs = length sbs + length (concat (map (sb_DependsOn \<circ> snd) sbs)) + 1"

definition TopologicalOrder :: "ComposeConfig \<Rightarrow> string list option" where
  "TopologicalOrder c =
     map_option snd (topo_visits (cc_Sandboxes c) (topo_fuel (cc_Sandboxes c)) (sort (map fst (cc_Sandboxes c))) ({}, []))"

definition Validate :: "ComposeConfig \<Rightarrow> ComposeConfig \<times> compose_error option" where
  "Validate c =
     (if cc_Sandboxes c = [] then (c, Some CmpNoSandbox)
      else case check_sandboxes (cc_Sandboxes c) (cc_Sandboxes c) of
             (sbs, Some e) \<Rightarrow> (c\<lparr>cc_Sandboxes := sbs\<rparr>, Some e)
           | (sbs, None) \<Rightarrow>
               let c = c\<lparr>cc_Sandboxes := sbs\<rparr>
               in case check_all_mounts (cc_Volumes c) (cc_Sandboxes c) of
                    Some e \<Rightarrow> (c, Some e)
                  | None \<Rightarrow>
                      let c = c\<lparr>cc_Volumes := map_option (map (\<lambda>(n, v). (n, volume_default v))) (cc_Volumes c)\<rparr>
                      in (c, detectCycles c))"

definition reverseOrder :: "string list \<Rightarrow> string list \<Rightarrow> string list" where
  "reverseOrder startOrder names = (if startOrder \<noteq> [] then rev startOrder else sort names)"

subsection \<open>Profiles\<close>

definition FilterByProfiles :: "string list \<Rightarrow> ComposeConfig \<Rightarrow> ComposeConfig" where
  "FilterByProfiles active c =
     (if active = [] then c\<lparr>cc_Sandboxes := filter (\<lambda>(_, sb). sb_Profiles sb = []) (cc_Sandboxes c)\<rparr>
      else c\<lparr>cc_Sandboxes := filter (\<lambda>(_, sb). sb_Profiles sb = [] \<or> (\<exists>p \<in> set (sb_Profiles sb). p \<in> set active))
                               (cc_Sandboxes c)\<rparr>)"

text \<open>sortStrings is an insertion sort; its result is that of sorting.\<close>

definition ListProfiles :: "ComposeConfig \<Rightarrow> string list" where
  "ListProfiles c = sort (remdups (concat (map (sb_Profiles \<circ> snd) (cc_Sandboxes c))))"

subsection \<open>Inheritance\<close>

definition inherit :: "'a option \<Rightarrow> 'a option \<Rightarrow> 'a option" where
  "inherit child parent = (case child of Some x \<Rightarrow> Some x | None \<Rightarrow> parent)"

definition inherit_list :: "'a list \<Rightarrow> 'a list \<Rightarrow> 'a list" where
  "inherit_list child parent = (if child = [] then parent else child)"

definition merge_env :: "(string \<times> string) list \<Rightarrow> (string \<times> string) list \<Rightarrow> (string \<times> string) list" where
  "merge_env child parent = child @ filter (\<lambda>(k, _). map_of child k = None) parent"

definition mergeSandboxConfig :: "SandboxConfig \<Rightarrow> SandboxConfig \<Rightarrow> SandboxConfig" where
  "mergeSandboxConfig child parent =
     child\<lparr>sb_From := inherit_list (sb_From child) (sb_From parent),
           sb_VCPUs := (if sb_VCPUs child = 0 then sb_VCPUs parent else sb_VCPUs child),
           sb_MemoryMB := (if sb_MemoryMB child = 0 then sb_MemoryMB parent else sb_MemoryMB child),
           sb_DiskGB := (if sb_DiskGB child = 0 then sb_DiskGB parent else sb_DiskGB child),
           sb_RestartPolicy := inherit_list (sb_RestartPolicy child) (sb_RestartPolicy parent),
           sb_Network := inherit (sb_Network child) (sb_Network parent),
           sb_Env := merge_env (sb_Env child) (sb_Env parent),
           sb_Mounts := inherit_list (sb_Mounts child) (sb_Mounts parent),
           sb_Volumes := inherit_list (sb_Volumes child) (sb_Volumes parent),
           sb_EnvFile := inherit_list (sb_EnvFile child) (sb_EnvFile parent),
           sb_HealthCheck := inherit (sb_HealthCheck child) (sb_HealthCheck parent),
           sb_Hooks := inherit (sb_Hooks child) (sb_Hooks parent),
           sb_Watch := inherit (sb_Watch child) (sb_Watch parent)\<rparr>"

text \<open>
  resolve: the parent is resolved first, then merged into the child. The state is the
  sandboxes, the resolved and the resolving names.
\<close>

type_synonym extends_state = "(string \<times> SandboxConfig) list \<times> string set \<times> string set"

fun resolve :: "nat \<Rightarrow> string \<Rightarrow> extends_state \<Rightarrow> compose_error + extends_state" where
  "resolve 0 name s = Inl CmpOutOfFuel"
| "resolve (Suc fuel) name (sbs, resolved, resolving) =
     (if name \<in> resolved then Inr (sbs, resolved, resolving)
      else if name \<in> resolving then Inl (CmpExtendsCycle name)
      else case map_of sbs name of
             None \<Rightarrow> Inl (CmpSandboxNotFound name)
           | Some sb \<Rightarrow>
               if sb_Extends sb = [] then Inr (sbs, insert name resolved, resolving)
               else if map_of sbs (sb_Extends sb) = None then Inl (CmpExtendsUnknown name (sb_Extends sb))
               else if sb_Extends sb = name then Inl (CmpExtendsSelf name)
               else
                 (case resolve fuel (sb_Extends sb) (sbs, resolved, insert name resolving) of
                    Inl e \<Rightarrow> Inl e
                  | Inr (sbs, resolved, resolving) \<Rightarrow>
                      (case map_of sbs (sb_Extends sb) of
                         None \<Rightarrow> Inl (CmpNilPanic name)
                       | Some parent \<Rightarrow>
                           Inr (AList.update name ((mergeSandboxConfig sb parent)\<lparr>sb_Extends := []\<rparr>) sbs,
                                insert name resolved, resolving - {name}))))"

fun resolve_all :: "nat \<Rightarrow> string list \<Rightarrow> extends_state \<Rightarrow> compose_error + extends_state" where
  "resolve_all fuel [] s = Inr s"
| "resolve_all fuel (name # names) s =
     (case resolve fuel name s of
        Inl e \<Rightarrow> Inl e
      | Inr s \<Rightarrow> resolve_all fuel names s)"

definition resolveExtends :: "ComposeConfig \<Rightarrow> compose_error + ComposeConfig" where
  "resolveExtends c =
     (if \<forall>(_, sb) \<in> set (cc_Sandboxes c). sb_Extends sb = [] then Inr c
      else case resolve_all (length (cc_Sandboxes c) + 1) (map fst (cc_Sandboxes c)) (cc_Sandboxes c, {}, {}) of
             Inl e \<Rightarrow> Inl e
           | Inr (sbs, _, _) \<Rightarrow> Inr (c\<lparr>cc_Sandboxes := sbs\<rparr>))"

text \<open>
  \<open>decode\<close> is the expansion of environment references in the document and the YAML decoder.
\<close>

definition ParseConfig :: "('d \<Rightarrow> ComposeConfig option) \<Rightarrow> 'd \<Rightarrow> compose_error + ComposeConfig" where
  "ParseConfig decode data =
     (case decode data of
        None \<Rightarrow> Inl CmpYaml
      | Some cfg \<Rightarrow>
          (case resolveExtends cfg of
             Inl e \<Rightarrow> Inl e
           | Inr cfg \<Rightarrow> (case Validate cfg of (cfg, Some e) \<Rightarrow> Inl e | (cfg, None) \<Rightarrow> Inr cfg)))"

end
