(* ===== verification/EnvFile.thy ===== *)
theory EnvFile
  imports Compose
begin

text \<open>
  Environment files of compose (\<^verbatim>\<open>internal/compose/envfile.go\<close>) and the expansion of
  environment references (\<^verbatim>\<open>expandEnvVars\<close> of \<^verbatim>\<open>internal/compose/engine.go\<close>). Strings are
  byte strings; \<open>trim_space\<close> of \<open>GoUtf8\<close> is \<^verbatim>\<open>strings.TrimSpace\<close>, with all of Unicode's white
  space. The disk is a function from paths to contents and the process environment a function from names to
  values.
\<close>

datatype env_error =
    EnvInvalidQuoted
  | EnvUnterminated
  | EnvOpen string
  | EnvLine string nat env_error
  | EnvTooLong string
  | EnvFileError string env_error

definition quote :: char where "quote = CHR 0x22"
definition apostrophe :: char where "apostrophe = CHR 0x27"
definition backslash :: char where "backslash = CHR 0x5C"
definition newline :: char where "newline = CHR 0x0A"
definition tab :: char where "tab = CHR 0x09"
definition carriage :: char where "carriage = CHR 0x0D"

subsection \<open>Values\<close>

fun IndexByte :: "char \<Rightarrow> string \<Rightarrow> nat option" where
  "IndexByte c [] = None"
| "IndexByte c (x # xs) = (if x = c then Some 0 else map_option Suc (IndexByte c xs))"

text \<open>The loop of parseDoubleQuoted on the bytes after the opening quote.\<close>

fun unescape :: "string \<Rightarrow> string \<Rightarrow> env_error + string" where
  "unescape b [] = Inl EnvUnterminated"
| "unescape b [ch] =
     (if ch = quote then Inr b else Inl EnvUnterminated)"
| "unescape b (ch # nxt # rest) =
     (if ch = quote then Inr b
      else if ch = backslash then
        unescape (b @ (if nxt = CHR ''n'' then [newline]
                       else if nxt = CHR ''t'' then [tab]
                       else if nxt = CHR ''r'' then [carriage]
                       else if nxt = backslash then [backslash]
                       else if nxt = quote then [quote]
                       else [backslash, nxt])) rest
      else unescape (b @ [ch]) (nxt # rest))"

definition parseDoubleQuoted :: "string \<Rightarrow> env_error + string" where
  "parseDoubleQuoted raw =
     (if length raw < 2 \<or> hd raw \<noteq> quote then Inl EnvInvalidQuoted else unescape [] (tl raw))"

definition parseSingleQuoted :: "string \<Rightarrow> env_error + string" where
  "parseSingleQuoted raw =
     (if length raw < 2 \<or> hd raw \<noteq> apostrophe then Inl EnvInvalidQuoted
      else case IndexByte apostrophe (tl raw) of
             None \<Rightarrow> Inl EnvUnterminated
           | Some i \<Rightarrow> Inr (take i (tl raw)))"

definition parseEnvValue :: "string \<Rightarrow> env_error + string" where
  "parseEnvValue raw =
     (let raw = trim_space raw
      in if raw = [] then Inr []
         else if hd raw = quote then parseDoubleQuoted raw
         else if hd raw = apostrophe then parseSingleQuoted raw
         else Inr (trim_space
           (case IndexByte (CHR ''#'') raw of
              None \<Rightarrow> raw
            | Some i \<Rightarrow> if 0 < i \<and> (raw ! (i - 1) = CHR '' '' \<or> raw ! (i - 1) = tab) then take i raw else raw)))"

subsection \<open>Files\<close>

text \<open>
  The lines of \<^verbatim>\<open>bufio.Scanner\<close>: separated by newlines, a final carriage return dropped, an
  empty last line not reported. A line that fills the buffer of 64 KiB ends the scan with
  an error.
\<close>

fun split_lines :: "string \<Rightarrow> string list" where
  "split_lines [] = [[]]"
| "split_lines (c # cs) =
     (if c = newline then [] # split_lines cs
      else case split_lines cs of [] \<Rightarrow> [[c]] | l # ls \<Rightarrow> (c # l) # ls)"

definition drop_cr :: "string \<Rightarrow> string" where
  "drop_cr l = (if l \<noteq> [] \<and> last l = carriage then butlast l else l)"

definition MaxScanTokenSize :: nat where "MaxScanTokenSize = 65536"

definition raw_lines :: "string \<Rightarrow> string list" where
  "raw_lines content = (let ls = split_lines content in if last ls = [] then butlast ls else ls)"

text \<open>One line: None when it sets nothing.\<close>

definition env_line :: "string \<Rightarrow> env_error + (string \<times> string) option" where
  "env_line line =
     (let line = trim_space line
      in if line = [] \<or> hd line = CHR ''#'' then Inr None
         else
           let line = (if take 7 line = ''export '' then trim_space (drop 7 line) else line)
           in case IndexByte (CHR ''='') line of
                None \<Rightarrow> (let key = trim_space line in if key \<noteq> [] then Inr (Some (key, [])) else Inr None)
              | Some i \<Rightarrow>
                  let key = trim_space (take i line)
                  in if key = [] then Inr None
                     else case parseEnvValue (drop (i + 1) line) of
                            Inl e \<Rightarrow> Inl e
                          | Inr v \<Rightarrow> Inr (Some (key, v)))"

fun load_lines :: "string \<Rightarrow> nat \<Rightarrow> string list \<Rightarrow> (string \<times> string) list \<Rightarrow> env_error + (string \<times> string) list" where
  "load_lines path n [] env = Inr env"
| "load_lines path n (l # ls) env =
     (if MaxScanTokenSize \<le> length l then Inl (EnvTooLong path)
      else case env_line (drop_cr l) of
             Inl e \<Rightarrow> Inl (EnvLine path (n + 1) e)
           | Inr None \<Rightarrow> load_lines path (n + 1) ls env
           | Inr (Some (k, v)) \<Rightarrow> load_lines path (n + 1) ls (AList.update k v env))"

definition LoadEnvFile :: "(string \<Rightarrow> string option) \<Rightarrow> string \<Rightarrow> env_error + (string \<times> string) list" where
  "LoadEnvFile disk path =
     (case disk path of
        None \<Rightarrow> Inl (EnvOpen path)
      | Some content \<Rightarrow> load_lines path 0 (raw_lines content) [])"

definition update_all :: "(string \<times> string) list \<Rightarrow> (string \<times> string) list \<Rightarrow> (string \<times> string) list" where
  "update_all kvs env = fold (\<lambda>(k, v). AList.update k v) kvs env"

text \<open>\<open>join\<close> is \<^verbatim>\<open>filepath.Join\<close> with the directory of the compose file.\<close>

fun load_files ::
  "(string \<Rightarrow> string option) \<Rightarrow> (string \<Rightarrow> string) \<Rightarrow> string list \<Rightarrow> (string \<times> string) list \<Rightarrow>
   env_error + (string \<times> string) list" where
  "load_files disk join [] merged = Inr merged"
| "load_files disk join (p # ps) merged =
     (let p = (if take 1 p = ''/'' then p else join p)
      in case LoadEnvFile disk p of
           Inl e \<Rightarrow> Inl (EnvFileError p e)
         | Inr env \<Rightarrow> load_files disk join ps (update_all env merged))"

definition ResolveEnvFiles ::
  "(string \<Rightarrow> string option) \<Rightarrow> (string \<Rightarrow> string) \<Rightarrow> SandboxConfig \<Rightarrow> env_error + (string \<times> string) list" where
  "ResolveEnvFiles disk join sb =
     (if sb_EnvFile sb = [] then Inr (sb_Env sb)
      else case load_files disk join (sb_EnvFile sb) [] of
             Inl e \<Rightarrow> Inl e
           | Inr merged \<Rightarrow> Inr (update_all (sb_Env sb) merged))"

subsection \<open>Expansion\<close>

definition is_ident_start :: "char \<Rightarrow> bool" where
  "is_ident_start c \<longleftrightarrow>
     (65 \<le> (of_char c :: nat) \<and> (of_char c :: nat) \<le> 90) \<or> (97 \<le> (of_char c :: nat) \<and> (of_char c :: nat) \<le> 122) \<or> c = CHR ''_''"

definition is_ident :: "char \<Rightarrow> bool" where
  "is_ident c \<longleftrightarrow> is_ident_start c \<or> (48 \<le> (of_char c :: nat) \<and> (of_char c :: nat) \<le> 57)"

text \<open>
  The leftmost match of the pattern at the start of a string: the expression after \<^verbatim>\<open>$\<close>
  (without braces) and the rest.
\<close>

definition match_braced :: "string \<Rightarrow> (string \<times> string) option" where
  "match_braced s =
     (case s of
        [] \<Rightarrow> None
      | c # cs \<Rightarrow>
          (if c = CHR ''{'' then
             (let name = takeWhile (\<lambda>x. x \<noteq> CHR ''}'') cs
              in if name \<noteq> [] \<and> length name < length cs then Some (name, drop (length name + 1) cs) else None)
           else None))"

definition match_plain :: "string \<Rightarrow> (string \<times> string) option" where
  "match_plain s =
     (case s of
        [] \<Rightarrow> None
      | c # cs \<Rightarrow> if is_ident_start c then Some (c # takeWhile is_ident cs, dropWhile is_ident cs) else None)"

definition match_var :: "string \<Rightarrow> (string \<times> string) option" where
  "match_var s = (case match_braced s of Some m \<Rightarrow> Some m | None \<Rightarrow> match_plain s)"

fun index_default :: "string \<Rightarrow> nat option" where
  "index_default (a # b # cs) =
     (if a = CHR '':'' \<and> b = CHR ''-'' then Some 0 else map_option Suc (index_default (b # cs)))"
| "index_default _ = None"

definition expand_var :: "(string \<Rightarrow> string option) \<Rightarrow> string \<Rightarrow> string" where
  "expand_var getenv expr =
     (case index_default expr of
        Some i \<Rightarrow> (case getenv (take i expr) of Some v \<Rightarrow> v | None \<Rightarrow> drop (i + 2) expr)
      | None \<Rightarrow> (case getenv expr of Some v \<Rightarrow> v | None \<Rightarrow> []))"

lemma match_var_shorter: "match_var s = Some (name, rest) \<Longrightarrow> length rest < length s"
  by (auto simp: match_var_def match_braced_def match_plain_def Let_def
      split: list.splits if_splits option.splits intro: le_imp_less_Suc length_dropWhile_le)

function expandEnvVars :: "(string \<Rightarrow> string option) \<Rightarrow> string \<Rightarrow> string" where
  "expandEnvVars getenv [] = []"
| "expandEnvVars getenv (c # cs) =
     (if c = CHR ''$'' then
        (case match_var cs of
           Some (expr, rest) \<Rightarrow> expand_var getenv expr @ expandEnvVars getenv rest
         | None \<Rightarrow> c # expandEnvVars getenv cs)
      else c # expandEnvVars getenv cs)"
  by pat_completeness auto
termination
  by (relation "measure (length \<circ> snd)") (auto dest: match_var_shorter)

definition expandSandboxEnv :: "(string \<Rightarrow> string option) \<Rightarrow> (string \<times> string) list \<Rightarrow> (string \<times> string) list" where
  "expandSandboxEnv getenv env = map (\<lambda>(k, v). (k, expandEnvVars getenv v)) env"

end
