(* ===== verification/Models.thy ===== *)
theory Models
  imports Prelude
begin

text \<open>
  The data of \<^verbatim>\<open>pkg/models/types.go\<close> that the sandbox manager keeps and passes on, and the
  validation of a configuration. Maps are association lists; a \<^verbatim>\<open>VMStatus\<close> is one of the
  constants of the source.
\<close>

datatype VMStatus =
    VMStatusUnknown | VMStatusStopped | VMStatusRunning | VMStatusPaused | VMStatusCreated | VMStatusError

fun VMStatus_String :: "VMStatus \<Rightarrow> string" where
  "VMStatus_String VMStatusUnknown = ''unknown''"
| "VMStatus_String VMStatusStopped = ''stopped''"
| "VMStatus_String VMStatusRunning = ''running''"
| "VMStatus_String VMStatusPaused = ''paused''"
| "VMStatus_String VMStatusCreated = ''created''"
| "VMStatus_String VMStatusError = ''error''"

record DeviceConfig =
  dv_Name :: string
  dv_Type :: string
  dv_Address :: string
  dv_Readonly :: bool
  dv_Options :: "(string \<times> string) list"

record ResourceLimits =
  rl_CPUWeight :: int
  rl_CPUMaxPercent :: int
  rl_MemoryMaxMB :: int
  rl_MemorySwapMaxMB :: int
  rl_IOReadBPS :: int
  rl_IOWriteBPS :: int
  rl_IOReadIOPS :: int
  rl_IOWriteIOPS :: int
  rl_NetworkBandwidthMbps :: int
  rl_PidsMax :: int

record HookAction =
  ha_Name :: string
  ha_Command :: string
  ha_Where :: string
  ha_TimeoutSec :: int
  ha_OnFailure :: string

record VMHooks =
  vh_PreStart :: "HookAction list"
  vh_PostStart :: "HookAction list"
  vh_PreStop :: "HookAction list"
  vh_PostStop :: "HookAction list"

record PortForward =
  pf_Host :: int
  pf_Guest :: int

record MountConfig =
  mc_Host :: string
  mc_Guest :: string
  mc_Readonly :: bool

record ProxyConfig =
  px_HTTPProxy :: string
  px_HTTPSProxy :: string
  px_NoProxy :: "string list"
  px_Enabled :: bool

record NetworkConfig =
  nw_Mode :: string
  nw_Bridge :: string
  nw_Allow :: "string list"
  nw_Deny :: "string list"
  nw_Ports :: "PortForward list"
  nw_Proxy :: "ProxyConfig option"

record HealthCheckConfig =
  hk_Type :: string
  hk_Command :: string
  hk_URL :: string
  hk_IntervalSec :: int
  hk_TimeoutSec :: int
  hk_Retries :: int
  hk_StartPeriodSec :: int

record VMConfig =
  cf_Name :: string
  cf_From :: string
  cf_VCPUs :: int
  cf_MemoryMB :: int
  cf_Kernel :: string
  cf_RootFS :: string
  cf_Initrd :: string
  cf_KernelCmdline :: string
  cf_DiskGB :: int
  cf_Backend :: string
  cf_Network :: NetworkConfig
  cf_Mounts :: "MountConfig list"
  cf_Env :: "(string \<times> string) list"
  cf_Labels :: "(string \<times> string) list"
  cf_RestartPolicy :: string
  cf_HealthCheck :: "HealthCheckConfig option"
  cf_Hooks :: "VMHooks option"
  cf_Resources :: "ResourceLimits option"
  cf_Devices :: "DeviceConfig list"
  cf_TTL :: string
  cf_DependsOn :: "string list"
  cf_EnableSSH :: bool

record HealthState =
  ht_Status :: string
  ht_FailCount :: int
  ht_SuccessCount :: int
  ht_LastCheckAt :: int
  ht_LastOutput :: string
  ht_LastError :: string

record DeviceState =
  ds_Name :: string
  ds_Type :: string
  ds_Address :: string
  ds_Status :: string
  ds_Readonly :: bool
  ds_Options :: "(string \<times> string) list"

record VMState =
  vs_Name :: string
  vs_Status :: VMStatus
  vs_PID :: int
  vs_IP :: string
  vs_SocketPath :: string
  vs_RootFSPath :: string
  vs_TAPDevice :: string
  vs_SSHKeyPath :: string
  vs_ImageRef :: string
  vs_VCPUs :: int
  vs_MemoryMB :: int
  vs_DiskGB :: int
  vs_Labels :: "(string \<times> string) list"
  vs_CreatedAt :: int
  vs_UpdatedAt :: int
  vs_RestartCount :: int
  vs_RestartPolicy :: string
  vs_Health :: "HealthState option"
  vs_Devices :: "DeviceState list"
  vs_TTL :: string
  vs_TTLExpiresAt :: int
  vs_Locked :: bool
  vs_LockedReason :: string
  vs_LockedAt :: int
  vs_DependsOn :: "string list"

text \<open>The zero values of Go.\<close>

definition no_network :: NetworkConfig where
  "no_network = \<lparr>nw_Mode = [], nw_Bridge = [], nw_Allow = [], nw_Deny = [], nw_Ports = [], nw_Proxy = None\<rparr>"

definition zero_config :: VMConfig where
  "zero_config = \<lparr>cf_Name = [], cf_From = [], cf_VCPUs = 0, cf_MemoryMB = 0, cf_Kernel = [], cf_RootFS = [],
     cf_Initrd = [], cf_KernelCmdline = [], cf_DiskGB = 0, cf_Backend = [], cf_Network = no_network,
     cf_Mounts = [], cf_Env = [], cf_Labels = [], cf_RestartPolicy = [], cf_HealthCheck = None,
     cf_Hooks = None, cf_Resources = None, cf_Devices = [], cf_TTL = [], cf_DependsOn = [], cf_EnableSSH = False\<rparr>"

definition zero_state :: VMState where
  "zero_state = \<lparr>vs_Name = [], vs_Status = VMStatusUnknown, vs_PID = 0, vs_IP = [], vs_SocketPath = [], vs_RootFSPath = [],
     vs_TAPDevice = [], vs_SSHKeyPath = [], vs_ImageRef = [], vs_VCPUs = 0, vs_MemoryMB = 0, vs_DiskGB = 0,
     vs_Labels = [], vs_CreatedAt = 0, vs_UpdatedAt = 0, vs_RestartCount = 0, vs_RestartPolicy = [],
     vs_Health = None, vs_Devices = [], vs_TTL = [], vs_TTLExpiresAt = 0, vs_Locked = False, vs_LockedReason = [],
     vs_LockedAt = 0, vs_DependsOn = []\<rparr>"

subsection \<open>Validation\<close>

datatype device_error = DeviceNoType | DeviceBadType string | DeviceNoAddress

definition DeviceConfig_Validate :: "DeviceConfig \<Rightarrow> device_error option" where
  "DeviceConfig_Validate d =
     (if dv_Type d \<in> {''pci'', ''usb'', ''gpu'', ''vfio''}
      then (if dv_Address d = [] then Some DeviceNoAddress else None)
      else if dv_Type d = [] then Some DeviceNoType
      else Some (DeviceBadType (dv_Type d)))"

text \<open>The first limit out of range, by the name of its field, with the value.\<close>

definition ResourceLimits_Validate :: "ResourceLimits \<Rightarrow> (string \<times> int) option" where
  "ResourceLimits_Validate r =
     (if rl_CPUWeight r < 0 \<or> 10000 < rl_CPUWeight r then Some (''cpu_weight'', rl_CPUWeight r)
      else if rl_CPUMaxPercent r < 0 then Some (''cpu_max_percent'', rl_CPUMaxPercent r)
      else if rl_MemoryMaxMB r < 0 then Some (''memory_max_mb'', rl_MemoryMaxMB r)
      else if rl_MemorySwapMaxMB r < 0 then Some (''memory_swap_max_mb'', rl_MemorySwapMaxMB r)
      else if rl_IOReadBPS r < 0 then Some (''io_read_bps'', rl_IOReadBPS r)
      else if rl_IOWriteBPS r < 0 then Some (''io_write_bps'', rl_IOWriteBPS r)
      else if rl_IOReadIOPS r < 0 then Some (''io_read_iops'', rl_IOReadIOPS r)
      else if rl_IOWriteIOPS r < 0 then Some (''io_write_iops'', rl_IOWriteIOPS r)
      else if rl_NetworkBandwidthMbps r < 0 then Some (''network_bandwidth_mbps'', rl_NetworkBandwidthMbps r)
      else if rl_PidsMax r < 0 then Some (''pids_max'', rl_PidsMax r)
      else None)"

datatype config_error =
    FieldRequired string
  | FieldNotPositive string
  | BadResource string int
  | BadDevice nat device_error

text \<open>All the errors of a configuration, in the order of the checks; valid when there is none.\<close>

definition ValidateVMConfig :: "VMConfig \<Rightarrow> config_error list" where
  "ValidateVMConfig cfg =
     (if cf_Name cfg = [] then [FieldRequired ''name''] else [])
     @ (if cf_VCPUs cfg \<le> 0 then [FieldNotPositive ''vcpus''] else [])
     @ (if cf_MemoryMB cfg \<le> 0 then [FieldNotPositive ''memory_mb''] else [])
     @ (if cf_DiskGB cfg \<le> 0 then [FieldNotPositive ''disk_gb''] else [])
     @ (case cf_Resources cfg of
          None \<Rightarrow> []
        | Some r \<Rightarrow> (case ResourceLimits_Validate r of None \<Rightarrow> [] | Some (f, v) \<Rightarrow> [BadResource f v]))
     @ concat (map (\<lambda>(i, d). case DeviceConfig_Validate d of None \<Rightarrow> [] | Some e \<Rightarrow> [BadDevice i e])
         (enumerate 0 (cf_Devices cfg)))"

definition HealthCheckDefaults :: "HealthCheckConfig \<Rightarrow> HealthCheckConfig" where
  "HealthCheckDefaults h = h\<lparr>
     hk_IntervalSec := (if hk_IntervalSec h \<le> 0 then 30 else hk_IntervalSec h),
     hk_TimeoutSec := (if hk_TimeoutSec h \<le> 0 then 5 else hk_TimeoutSec h),
     hk_Retries := (if hk_Retries h \<le> 0 then 3 else hk_Retries h),
     hk_Type := (if hk_Type h = [] then ''agent'' else hk_Type h)\<rparr>"

end
