(* ===== verification/Effects.thy ===== *)
theory Effects
  imports Prelude
begin

text \<open>
  Operations that change a state and may fail with an error, as values: a function from
  the state to the new state and a result. The combinators write the sequence of calls and
  early returns of the Go code; the rules of the validity judgement take a sequence apart
  and are collected in \<open>wp\<close>.
\<close>

type_synonym ('s, 'e, 'a) op = "'s \<Rightarrow> 's \<times> ('e + 'a)"

named_theorems wp "rules for the validity judgement"

definition return :: "'a \<Rightarrow> ('s, 'e, 'a) op" where
  "return x = (\<lambda>s. (s, Inr x))"

definition throw :: "'e \<Rightarrow> ('s, 'e, 'a) op" where
  "throw e = (\<lambda>s. (s, Inl e))"

definition bind :: "('s, 'e, 'a) op \<Rightarrow> ('a \<Rightarrow> ('s, 'e, 'b) op) \<Rightarrow> ('s, 'e, 'b) op" where
  "bind m k = (\<lambda>s. case m s of (s', Inl e) \<Rightarrow> (s', Inl e) | (s', Inr x) \<Rightarrow> k x s')"

definition seq :: "('s, 'e, unit) op \<Rightarrow> ('s, 'e, 'b) op \<Rightarrow> ('s, 'e, 'b) op" where
  "seq m n = bind m (\<lambda>_. n)"

text \<open>A guard: return the error when the condition holds.\<close>

definition failIf :: "bool \<Rightarrow> 'e \<Rightarrow> ('s, 'e, unit) op" where
  "failIf b e = (if b then throw e else return ())"

definition whenOp :: "bool \<Rightarrow> ('s, 'e, unit) op \<Rightarrow> ('s, 'e, unit) op" where
  "whenOp b m = (if b then m else return ())"

definition reads :: "('s \<Rightarrow> 'a) \<Rightarrow> ('s, 'e, 'a) op" where
  "reads f = (\<lambda>s. (s, Inr (f s)))"

definition modify :: "('s \<Rightarrow> 's) \<Rightarrow> ('s, 'e, unit) op" where
  "modify f = (\<lambda>s. (f s, Inr ()))"

text \<open>Run an operation and hand its error on as a value.\<close>

definition attempt :: "('s, 'e, 'a) op \<Rightarrow> ('s, 'f, 'e + 'a) op" where
  "attempt m = (\<lambda>s. case m s of (s', r) \<Rightarrow> (s', Inr r))"

definition wrapError :: "('e \<Rightarrow> 'f) \<Rightarrow> ('s, 'e, 'a) op \<Rightarrow> ('s, 'f, 'a) op" where
  "wrapError f m = (\<lambda>s. case m s of (s', Inl e) \<Rightarrow> (s', Inl (f e)) | (s', Inr x) \<Rightarrow> (s', Inr x))"

definition orFail :: "'e \<Rightarrow> 'a option \<Rightarrow> ('s, 'e, 'a) op" where
  "orFail e x = (case x of None \<Rightarrow> throw e | Some y \<Rightarrow> return y)"

primrec forEach :: "('a \<Rightarrow> ('s, 'e, unit) op) \<Rightarrow> 'a list \<Rightarrow> ('s, 'e, unit) op" where
  "forEach f [] = return ()"
| "forEach f (x # xs) = seq (f x) (forEach f xs)"

subsection \<open>Validity\<close>

definition valid :: "('s \<Rightarrow> bool) \<Rightarrow> ('s, 'e, 'a) op \<Rightarrow> ('a \<Rightarrow> 's \<Rightarrow> bool) \<Rightarrow> ('e \<Rightarrow> 's \<Rightarrow> bool) \<Rightarrow> bool" where
  "valid P m Q E \<longleftrightarrow> (\<forall>s. P s \<longrightarrow> (case m s of (s', Inr x) \<Rightarrow> Q x s' | (s', Inl e) \<Rightarrow> E e s'))"

lemma validI: "(\<And>s. P s \<Longrightarrow> case m s of (s', Inr x) \<Rightarrow> Q x s' | (s', Inl e) \<Rightarrow> E e s') \<Longrightarrow> valid P m Q E"
  by (simp add: valid_def)

lemma valid_ok: "valid P m Q E \<Longrightarrow> P s \<Longrightarrow> m s = (s', Inr x) \<Longrightarrow> Q x s'"
  by (fastforce simp: valid_def)

lemma valid_error: "valid P m Q E \<Longrightarrow> P s \<Longrightarrow> m s = (s', Inl e) \<Longrightarrow> E e s'"
  by (fastforce simp: valid_def)

lemma valid_weaken:
  "valid P' m Q' E' \<Longrightarrow> (\<And>s. P s \<Longrightarrow> P' s) \<Longrightarrow> (\<And>x s. Q' x s \<Longrightarrow> Q x s) \<Longrightarrow> (\<And>e s. E' e s \<Longrightarrow> E e s) \<Longrightarrow>
   valid P m Q E"
  unfolding valid_def by (fastforce split: prod.splits sum.splits)

lemma valid_pre: "valid P' m Q E \<Longrightarrow> (\<And>s. P s \<Longrightarrow> P' s) \<Longrightarrow> valid P m Q E"
  by (rule valid_weaken)

lemma valid_return [wp]: "valid (Q x) (return x) Q E"
  by (simp add: valid_def return_def)

lemma valid_throw [wp]: "valid (E e) (throw e) Q E"
  by (simp add: valid_def throw_def)

lemma valid_bind [wp]:
  "(\<And>x. valid (R x) (k x) Q E) \<Longrightarrow> valid P m R E \<Longrightarrow> valid P (bind m k) Q E"
  unfolding valid_def bind_def by (fastforce split: prod.splits sum.splits)

lemma valid_seq [wp]: "valid R n Q E \<Longrightarrow> valid P m (\<lambda>_. R) E \<Longrightarrow> valid P (seq m n) Q E"
  unfolding seq_def by (rule valid_bind)

lemma valid_failIf [wp]: "valid (\<lambda>s. (b \<longrightarrow> E e s) \<and> (\<not> b \<longrightarrow> Q () s)) (failIf b e) Q E"
  by (simp add: valid_def failIf_def throw_def return_def)

lemma valid_whenOp [wp]:
  "(b \<Longrightarrow> valid P m Q E) \<Longrightarrow> valid (\<lambda>s. (b \<longrightarrow> P s) \<and> (\<not> b \<longrightarrow> Q () s)) (whenOp b m) Q E"
  by (simp add: valid_def whenOp_def return_def)

lemma valid_reads [wp]: "valid (\<lambda>s. Q (f s) s) (reads f) Q E"
  by (simp add: valid_def reads_def)

lemma valid_modify [wp]: "valid (\<lambda>s. Q () (f s)) (modify f) Q E"
  by (simp add: valid_def modify_def)

lemma valid_attempt [wp]:
  "valid P m (\<lambda>x. Q (Inr x)) (\<lambda>e. Q (Inl e)) \<Longrightarrow> valid P (attempt m) Q E"
  unfolding valid_def attempt_def by (fastforce split: prod.splits sum.splits)

lemma valid_wrapError [wp]: "valid P m Q (\<lambda>e. E (f e)) \<Longrightarrow> valid P (wrapError f m) Q E"
  unfolding valid_def wrapError_def by (fastforce split: prod.splits sum.splits)

lemma valid_orFail [wp]:
  "valid (\<lambda>s. (x = None \<longrightarrow> E e s) \<and> (\<forall>y. x = Some y \<longrightarrow> Q y s)) (orFail e x) Q E"
  by (cases x) (simp_all add: valid_def orFail_def throw_def return_def)

lemma valid_if [wp]:
  "(b \<Longrightarrow> valid P m Q E) \<Longrightarrow> (\<not> b \<Longrightarrow> valid P' n Q E) \<Longrightarrow>
   valid (\<lambda>s. (b \<longrightarrow> P s) \<and> (\<not> b \<longrightarrow> P' s)) (if b then m else n) Q E"
  by (simp add: valid_def)

lemma valid_case_option [wp]:
  "valid P m Q E \<Longrightarrow> (\<And>y. x = Some y \<Longrightarrow> valid (P' y) (k y) Q E) \<Longrightarrow>
   valid (\<lambda>s. (x = None \<longrightarrow> P s) \<and> (\<forall>y. x = Some y \<longrightarrow> P' y s)) (case x of None \<Rightarrow> m | Some y \<Rightarrow> k y) Q E"
  by (cases x) (simp_all add: valid_def)

lemma valid_case_sum [wp]:
  "(\<And>e. x = Inl e \<Longrightarrow> valid (P e) (m e) Q E) \<Longrightarrow> (\<And>y. x = Inr y \<Longrightarrow> valid (P' y) (k y) Q E) \<Longrightarrow>
   valid (\<lambda>s. (\<forall>e. x = Inl e \<longrightarrow> P e s) \<and> (\<forall>y. x = Inr y \<longrightarrow> P' y s)) (case x of Inl e \<Rightarrow> m e | Inr y \<Rightarrow> k y) Q E"
  by (cases x) (simp_all add: valid_def)

lemma valid_forEach:
  "(\<And>x. x \<in> set xs \<Longrightarrow> valid P (f x) (\<lambda>_. P) E) \<Longrightarrow> valid P (forEach f xs) (\<lambda>_. P) E"
  by (induction xs) (auto intro: valid_return valid_seq)

text \<open>An operation that keeps a predicate whatever its result.\<close>

definition keeps :: "('s \<Rightarrow> bool) \<Rightarrow> ('s, 'e, 'a) op \<Rightarrow> bool" where
  "keeps P m \<longleftrightarrow> (\<forall>s. P s \<longrightarrow> P (fst (m s)))"

named_theorems kept "operations and combinators that keep a predicate"

lemma keepsD: "keeps P m \<Longrightarrow> P s \<Longrightarrow> m s = (s', r) \<Longrightarrow> P s'"
  by (metis fst_conv keeps_def)

lemma keeps_valid: "keeps P m \<longleftrightarrow> valid P m (\<lambda>_. P) (\<lambda>_. P)"
proof -
  have "(case m s of (s', Inr x) \<Rightarrow> P s' | (s', Inl e) \<Rightarrow> P s') = P (fst (m s))" for s
    by (simp split: prod.split sum.split)
  then show ?thesis by (simp add: keeps_def valid_def)
qed

lemma keeps_return [kept]: "keeps P (return x)"
  by (simp add: keeps_def return_def)

lemma keeps_throw [kept]: "keeps P (throw e)"
  by (simp add: keeps_def throw_def)

lemma keeps_bind [kept]: "keeps P m \<Longrightarrow> (\<And>x. keeps P (k x)) \<Longrightarrow> keeps P (bind m k)"
  unfolding keeps_def bind_def by (fastforce split: prod.splits sum.splits)

lemma keeps_seq [kept]: "keeps P m \<Longrightarrow> keeps P n \<Longrightarrow> keeps P (seq m n)"
  unfolding seq_def by (rule keeps_bind)

lemma keeps_failIf [kept]: "keeps P (failIf b e)"
  by (simp add: keeps_def failIf_def throw_def return_def)

lemma keeps_whenOp [kept]: "(b \<Longrightarrow> keeps P m) \<Longrightarrow> keeps P (whenOp b m)"
  by (simp add: keeps_def whenOp_def return_def)

lemma keeps_reads [kept]: "keeps P (reads f)"
  by (simp add: keeps_def reads_def)

lemma keeps_attempt [kept]: "keeps P m \<Longrightarrow> keeps P (attempt m)"
  unfolding keeps_def attempt_def by (auto split: prod.splits)

lemma keeps_wrapError [kept]: "keeps P m \<Longrightarrow> keeps P (wrapError f m)"
  unfolding keeps_def wrapError_def by (fastforce split: prod.splits sum.splits)

lemma keeps_orFail [kept]: "keeps P (orFail e x)"
  by (cases x) (simp_all add: keeps_def orFail_def throw_def return_def)

lemma keeps_if [kept]: "(b \<Longrightarrow> keeps P m) \<Longrightarrow> (\<not> b \<Longrightarrow> keeps P n) \<Longrightarrow> keeps P (if b then m else n)"
  by simp

lemma keeps_case_option [kept]:
  "(x = None \<Longrightarrow> keeps P m) \<Longrightarrow> (\<And>y. x = Some y \<Longrightarrow> keeps P (k y)) \<Longrightarrow>
   keeps P (case x of None \<Rightarrow> m | Some y \<Rightarrow> k y)"
  by (cases x) simp_all

lemma keeps_case_sum [kept]:
  "(\<And>e. x = Inl e \<Longrightarrow> keeps P (m e)) \<Longrightarrow> (\<And>y. x = Inr y \<Longrightarrow> keeps P (k y)) \<Longrightarrow>
   keeps P (case x of Inl e \<Rightarrow> m e | Inr y \<Rightarrow> k y)"
  by (cases x) simp_all

lemma keeps_forEach [kept]: "(\<And>x. keeps P (f x)) \<Longrightarrow> keeps P (forEach f xs)"
  by (induction xs) (auto intro: kept)

end
