(* ===== verification/ComposeEngine.thy ===== *)
theory ComposeEngine
  imports EnvFile Models Effects
begin

text \<open>
  Orchestration of compose groups (\<^verbatim>\<open>internal/compose/engine.go\<close> and \<^verbatim>\<open>hooks.go\<close>). The
  sandbox manager, the saved group states, the volumes and the DNS servers are operations
  of an environment on a world; the manager's state is the set of groups with a DNS server
  and that world. \<open>cpm_calls\<close> is a ghost: the calls of the sandbox manager so far and the saves
  of a group's status with what was saved, each with whether it succeeded.
\<close>

subsection \<open>State and environment\<close>

record SandboxStatus =
  ss_Name :: string
  ss_Status :: string
  ss_IP :: string
  ss_PID :: int
  ss_Health :: string
  ss_HealthDetail :: string
  ss_Restarts :: int

record ComposeStatus =
  cs_Name :: string
  cs_Sandboxes :: "(string \<times> SandboxStatus) list"
  cs_StartOrder :: "string list"

datatype vm_call =
    CallCreate string bool
  | CallStart string bool
  | CallStop string bool
  | CallDestroy string bool
  | CallExec string string
  | CallSave string ComposeStatus bool

record 'w ComposeManager =
  cpm_dns :: "string set"
  cpm_world :: 'w
  cpm_calls :: "vm_call list"

record 'w ComposeEnv =
  ce_Create :: "string \<Rightarrow> VMConfig \<Rightarrow> 'w \<Rightarrow> 'w \<times> bool"
  ce_Start :: "string \<Rightarrow> 'w \<Rightarrow> 'w \<times> bool"
  ce_Stop :: "string \<Rightarrow> 'w \<Rightarrow> 'w \<times> bool"
  ce_Destroy :: "string \<Rightarrow> 'w \<Rightarrow> 'w \<times> bool"
  ce_VMStatus :: "string \<Rightarrow> 'w \<Rightarrow> 'w \<times> (string \<times> string \<times> int) option"
  ce_Exec :: "string \<Rightarrow> string list \<Rightarrow> 'w \<Rightarrow> 'w \<times> string \<times> int \<times> bool"
  ce_LoadState :: "string \<Rightarrow> 'w \<Rightarrow> ComposeStatus option"
  ce_SaveState :: "string \<Rightarrow> ComposeStatus \<Rightarrow> 'w \<Rightarrow> 'w \<times> bool"
  ce_DeleteState :: "string \<Rightarrow> 'w \<Rightarrow> 'w \<times> bool"
  ce_StartDNS :: "string \<Rightarrow> 'w \<Rightarrow> 'w \<times> bool"
  ce_StopDNS :: "string \<Rightarrow> 'w \<Rightarrow> 'w"
  ce_Register :: "string \<Rightarrow> string \<Rightarrow> string \<Rightarrow> 'w \<Rightarrow> 'w"
  ce_Unregister :: "string \<Rightarrow> string \<Rightarrow> 'w \<Rightarrow> 'w"
  ce_EnsureVolumes :: "string \<Rightarrow> (string \<times> VolumeConfig option) list \<Rightarrow> 'w \<Rightarrow> 'w \<times> (string \<times> string) list option"
  ce_RemoveVolumes :: "string \<Rightarrow> 'w \<Rightarrow> 'w \<times> bool"
  ce_ReadFile :: "'w \<Rightarrow> string \<Rightarrow> string option"
  ce_Join :: "string \<Rightarrow> string"
  ce_LookupEnv :: "string \<Rightarrow> string option"
  ce_IsIP :: "string \<Rightarrow> bool"

datatype engine_error =
    EngVolumes
  | EngNilSandbox string
  | EngOutOfFuel
  | EngEnv string env_error
  | EngCreate string
  | EngStartForHooks string
  | EngHook string string string
  | EngStart string
  | EngStatus string
  | EngSave
  | EngLoad string
  | EngErrors "string list"
  | EngUnknownService string string
  | EngReplicas
  | EngDestroy string
  | EngNotRunning string string

type_synonym ('w, 'a) cop = "('w ComposeManager, engine_error, 'a) op"

definition world_call :: "('w \<Rightarrow> 'w \<times> 'a) \<Rightarrow> ('w, 'a) cop" where
  "world_call f = (\<lambda>s. case f (cpm_world s) of (w, x) \<Rightarrow> (s\<lparr>cpm_world := w\<rparr>, Inr x))"

definition world_effect :: "('w \<Rightarrow> 'w) \<Rightarrow> ('w, unit) cop" where
  "world_effect f = modify (\<lambda>s. s\<lparr>cpm_world := f (cpm_world s)\<rparr>)"

definition world_read :: "('w \<Rightarrow> 'a) \<Rightarrow> ('w, 'a) cop" where
  "world_read f = reads (\<lambda>s. f (cpm_world s))"

text \<open>A call of the sandbox manager or of the state manager, recorded in the ghost list.\<close>

definition vm_op :: "(bool \<Rightarrow> vm_call) \<Rightarrow> ('w \<Rightarrow> 'w \<times> bool) \<Rightarrow> ('w, bool) cop" where
  "vm_op c f =
     bind (world_call f) (\<lambda>ok.
     seq (modify (\<lambda>s. s\<lparr>cpm_calls := cpm_calls s @ [c ok]\<rparr>)) (return ok))"

definition vm_create :: "'w ComposeEnv \<Rightarrow> string \<Rightarrow> VMConfig \<Rightarrow> ('w, bool) cop" where
  "vm_create env n cfg = vm_op (CallCreate n) (ce_Create env n cfg)"

definition vm_start :: "'w ComposeEnv \<Rightarrow> string \<Rightarrow> ('w, bool) cop" where
  "vm_start env n = vm_op (CallStart n) (ce_Start env n)"

definition vm_stop :: "'w ComposeEnv \<Rightarrow> string \<Rightarrow> ('w, bool) cop" where
  "vm_stop env n = vm_op (CallStop n) (ce_Stop env n)"

definition vm_destroy :: "'w ComposeEnv \<Rightarrow> string \<Rightarrow> ('w, bool) cop" where
  "vm_destroy env n = vm_op (CallDestroy n) (ce_Destroy env n)"

definition save_status :: "'w ComposeEnv \<Rightarrow> string \<Rightarrow> ComposeStatus \<Rightarrow> ('w, bool) cop" where
  "save_status env grp status = vm_op (CallSave grp status) (ce_SaveState env grp status)"

subsection \<open>Hooks\<close>

text \<open>
  The loop of runHooks over the commands of a phase: None when it ran through, the failing
  command otherwise. With continueOnError it always runs through.
\<close>

fun run_hook_commands :: "'w ComposeEnv \<Rightarrow> string \<Rightarrow> bool \<Rightarrow> string list \<Rightarrow> ('w, string option) cop" where
  "run_hook_commands env service cont [] = return None"
| "run_hook_commands env service cont (cmd # cmds) =
     bind (world_call (ce_Exec env service [''sh'', ''-c'', cmd])) (\<lambda>(out, code, err).
     seq (modify (\<lambda>s. s\<lparr>cpm_calls := cpm_calls s @ [CallExec service cmd]\<rparr>))
     (if (err \<or> code \<noteq> 0) \<and> \<not> cont then return (Some cmd)
      else run_hook_commands env service cont cmds))"

datatype compose_phase = CHookPostCreate | CHookPostStart | CHookPreStop | CHookPreDestroy

definition phase_commands :: "LifecycleHooks \<Rightarrow> compose_phase \<Rightarrow> string list" where
  "phase_commands h phase =
     (case phase of
        CHookPostCreate \<Rightarrow> lh_PostCreate h
      | CHookPostStart \<Rightarrow> lh_PostStart h
      | CHookPreStop \<Rightarrow> lh_PreStop h
      | CHookPreDestroy \<Rightarrow> lh_PreDestroy h)"

definition runHooks :: "'w ComposeEnv \<Rightarrow> string \<Rightarrow> LifecycleHooks option \<Rightarrow> compose_phase \<Rightarrow> bool \<Rightarrow> ('w, string option) cop" where
  "runHooks env service hooks phase cont =
     (case hooks of
        None \<Rightarrow> return None
      | Some h \<Rightarrow> run_hook_commands env service cont (phase_commands h phase))"

subsection \<open>Up\<close>

definition volume_mounts :: "(string \<times> string) list \<Rightarrow> VolumeMount list \<Rightarrow> MountConfig list" where
  "volume_mounts paths vols =
     concat (map (\<lambda>v. case map_of paths (vm_Name v) of
         None \<Rightarrow> []
       | Some p \<Rightarrow> [\<lparr>mc_Host = p, mc_Guest = vm_Guest v, mc_Readonly = vm_Readonly v\<rparr>]) vols)"

definition vm_config :: "string \<Rightarrow> SandboxConfig \<Rightarrow> (string \<times> string) list \<Rightarrow> MountConfig list \<Rightarrow> VMConfig" where
  "vm_config name sb env extra =
     zero_config\<lparr>cf_Name := name, cf_From := sb_From sb, cf_VCPUs := sb_VCPUs sb, cf_MemoryMB := sb_MemoryMB sb,
       cf_DiskGB := sb_DiskGB sb,
       cf_Mounts := map (\<lambda>m. \<lparr>mc_Host = mt_Host m, mc_Guest = mt_Guest m, mc_Readonly = mt_Readonly m\<rparr>) (sb_Mounts sb) @ extra,
       cf_Env := env,
       cf_Network := (case sb_Network sb of
           None \<Rightarrow> no_network
         | Some n \<Rightarrow> no_network\<lparr>nw_Allow := nc_Allow n, nw_Deny := nc_Deny n\<rparr>)\<rparr>"

definition sandbox_env :: "'w ComposeEnv \<Rightarrow> string \<Rightarrow> SandboxConfig \<Rightarrow> ('w, (string \<times> string) list) cop" where
  "sandbox_env env name sb =
     bind (world_read (ce_ReadFile env)) (\<lambda>disk.
     case ResolveEnvFiles disk (ce_Join env) sb of
       Inl e \<Rightarrow> throw (EngEnv name e)
     | Inr kvs \<Rightarrow> return (expandSandboxEnv (ce_LookupEnv env) kvs))"

definition post_create_hooks :: "'w ComposeEnv \<Rightarrow> string \<Rightarrow> SandboxConfig \<Rightarrow> ('w, unit) cop" where
  "post_create_hooks env name sb =
     (case sb_Hooks sb of
        None \<Rightarrow> return ()
      | Some h \<Rightarrow>
          if lh_PostCreate h = [] then return ()
          else bind (vm_start env name) (\<lambda>ok.
            seq (failIf (\<not> ok) (EngStartForHooks name))
            (bind (runHooks env name (Some h) CHookPostCreate False) (\<lambda>r.
            case r of
              Some cmd \<Rightarrow> throw (EngHook ''post_create'' name cmd)
            | None \<Rightarrow> bind (vm_stop env name) (\<lambda>_. return ())))))"

definition post_start_hooks :: "'w ComposeEnv \<Rightarrow> string \<Rightarrow> SandboxConfig \<Rightarrow> ('w, unit) cop" where
  "post_start_hooks env name sb =
     (case sb_Hooks sb of
        None \<Rightarrow> return ()
      | Some h \<Rightarrow>
          if lh_PostStart h = [] then return ()
          else bind (runHooks env name (Some h) CHookPostStart False) (\<lambda>r.
            case r of
              Some cmd \<Rightarrow> throw (EngHook ''post_start'' name cmd)
            | None \<Rightarrow> return ()))"

definition new_status :: "string \<Rightarrow> string \<times> string \<times> int \<Rightarrow> SandboxStatus" where
  "new_status name = (\<lambda>(st, ip, pid).
     \<lparr>ss_Name = name, ss_Status = st, ss_IP = ip, ss_PID = pid, ss_Health = [], ss_HealthDetail = [], ss_Restarts = 0\<rparr>)"

definition register_dns :: "'w ComposeEnv \<Rightarrow> string \<Rightarrow> string \<Rightarrow> string \<Rightarrow> ('w, unit) cop" where
  "register_dns env grp name ip =
     bind (reads (\<lambda>s. grp \<in> cpm_dns s)) (\<lambda>has.
     whenOp (has \<and> ip \<noteq> [] \<and> ce_IsIP env ip) (world_effect (ce_Register env grp name ip)))"

text \<open>One round of the loop of Up: create, start and record one sandbox.\<close>

definition up_one ::
  "'w ComposeEnv \<Rightarrow> string \<Rightarrow> (string \<times> SandboxConfig) list \<Rightarrow> (string \<times> string) list \<Rightarrow> string \<Rightarrow> ComposeStatus \<Rightarrow>
   ('w, ComposeStatus) cop" where
  "up_one env grp sbs paths name status =
     (case map_of sbs name of
        None \<Rightarrow> throw (EngNilSandbox name)
      | Some sb \<Rightarrow>
          bind (sandbox_env env name sb) (\<lambda>kvs.
          bind (vm_create env name (vm_config name sb kvs (volume_mounts paths (sb_Volumes sb)))) (\<lambda>created.
          seq (failIf (\<not> created) (EngCreate name))
          (seq (post_create_hooks env name sb)
          (bind (vm_start env name) (\<lambda>started.
          seq (failIf (\<not> started) (EngStart name))
          (bind (world_call (ce_VMStatus env name)) (\<lambda>vo.
          bind (orFail (EngStatus name) vo) (\<lambda>v.
          bind (return (status\<lparr>cs_Sandboxes := AList.update name (new_status name v) (cs_Sandboxes status)\<rparr>)) (\<lambda>status.
          seq (register_dns env grp name (fst (snd v)))
          (seq (post_start_hooks env name sb)
          (bind (save_status env grp status) (\<lambda>saved.
          seq (failIf (\<not> saved) EngSave)
          (return status))))))))))))))"

fun up_loop ::
  "'w ComposeEnv \<Rightarrow> string \<Rightarrow> (string \<times> SandboxConfig) list \<Rightarrow> (string \<times> string) list \<Rightarrow> string list \<Rightarrow> ComposeStatus \<Rightarrow>
   ('w, ComposeStatus) cop" where
  "up_loop env grp sbs paths [] status = return status"
| "up_loop env grp sbs paths (name # names) status =
     bind (up_one env grp sbs paths name status) (up_loop env grp sbs paths names)"

definition Up :: "'w ComposeEnv \<Rightarrow> string \<Rightarrow> ComposeConfig \<Rightarrow> ('w, ComposeStatus) cop" where
  "Up env grp config =
     bind (orFail EngOutOfFuel (TopologicalOrder config)) (\<lambda>order.
     bind (world_call (ce_StartDNS env grp)) (\<lambda>dns.
     seq (whenOp dns (modify (\<lambda>s. s\<lparr>cpm_dns := insert grp (cpm_dns s)\<rparr>)))
     (bind (case cc_Volumes config of
              None \<Rightarrow> return []
            | Some vs \<Rightarrow> if vs = [] then return []
                else bind (world_call (ce_EnsureVolumes env grp vs)) (orFail EngVolumes)) (\<lambda>paths.
     up_loop env grp (cc_Sandboxes config) paths order
       \<lparr>cs_Name = grp, cs_Sandboxes = [], cs_StartOrder = order\<rparr>))))"

subsection \<open>Down\<close>

definition hooks_of :: "ComposeConfig option \<Rightarrow> string \<Rightarrow> LifecycleHooks option" where
  "hooks_of config name =
     (case config of None \<Rightarrow> None | Some c \<Rightarrow> (case map_of (cc_Sandboxes c) name of None \<Rightarrow> None | Some sb \<Rightarrow> sb_Hooks sb))"

definition add_error :: "bool \<Rightarrow> string \<Rightarrow> string list \<Rightarrow> string list" where
  "add_error ok msg errs = (if ok then errs else errs @ [msg])"

definition down_one :: "'w ComposeEnv \<Rightarrow> ComposeConfig option \<Rightarrow> string \<Rightarrow> string list \<Rightarrow> ('w, string list) cop" where
  "down_one env config name errs =
     bind (runHooks env name (hooks_of config name) CHookPreStop True) (\<lambda>r.
     bind (return (add_error (r = None) (''pre_stop hook failed for '' @ name) errs)) (\<lambda>errs.
     bind (vm_stop env name) (\<lambda>stopped.
     bind (return (add_error stopped (''failed to stop '' @ name) errs)) (\<lambda>errs.
     seq (case hooks_of config name of
            None \<Rightarrow> return ()
          | Some h \<Rightarrow>
              whenOp (lh_PreDestroy h \<noteq> [])
                (bind (vm_start env name) (\<lambda>ok.
                 whenOp ok
                   (bind (runHooks env name (Some h) CHookPreDestroy True) (\<lambda>_.
                    bind (vm_stop env name) (\<lambda>_. return ()))))))
     (bind (vm_destroy env name) (\<lambda>destroyed.
      return (add_error destroyed (''failed to destroy '' @ name) errs)))))))"

fun down_loop :: "'w ComposeEnv \<Rightarrow> ComposeConfig option \<Rightarrow> string list \<Rightarrow> string list \<Rightarrow> ('w, string list) cop" where
  "down_loop env config [] errs = return errs"
| "down_loop env config (name # names) errs =
     bind (down_one env config name errs) (down_loop env config names)"

definition DownWithConfig :: "'w ComposeEnv \<Rightarrow> string \<Rightarrow> ComposeConfig option \<Rightarrow> ('w, unit) cop" where
  "DownWithConfig env grp config =
     bind (reads (\<lambda>s. grp \<in> cpm_dns s)) (\<lambda>has.
     seq (whenOp has (seq (world_effect (ce_StopDNS env grp))
        (modify (\<lambda>s. s\<lparr>cpm_dns := cpm_dns s - {grp}\<rparr>))))
     (bind (world_read (ce_LoadState env grp)) (\<lambda>so.
     bind (orFail (EngLoad grp) so) (\<lambda>status.
     bind (down_loop env config (reverseOrder (cs_StartOrder status) (map fst (cs_Sandboxes status))) []) (\<lambda>errs.
     bind (world_call (ce_RemoveVolumes env grp)) (\<lambda>removed.
     bind (world_call (ce_DeleteState env grp)) (\<lambda>deleted.
     bind (return (add_error deleted ''failed to delete compose state'' (add_error removed ''failed to remove volumes'' errs))) (\<lambda>errs.
     failIf (errs \<noteq> []) (EngErrors errs)))))))))"

definition Down :: "'w ComposeEnv \<Rightarrow> string \<Rightarrow> ('w, unit) cop" where
  "Down env grp = DownWithConfig env grp None"

subsection \<open>Restart\<close>

fun stop_all :: "'w ComposeEnv \<Rightarrow> string list \<Rightarrow> string list \<Rightarrow> ('w, string list) cop" where
  "stop_all env [] errs = return errs"
| "stop_all env (n # ns) errs =
     bind (vm_stop env n) (\<lambda>ok. stop_all env ns (add_error ok (''failed to stop '' @ n) errs))"

fun start_all :: "'w ComposeEnv \<Rightarrow> string list \<Rightarrow> string list \<Rightarrow> ('w, string list) cop" where
  "start_all env [] errs = return errs"
| "start_all env (n # ns) errs =
     bind (vm_start env n) (\<lambda>ok. start_all env ns (add_error ok (''failed to start '' @ n) errs))"

definition restart_targets :: "ComposeStatus \<Rightarrow> string list \<Rightarrow> string list" where
  "restart_targets status services =
     (if services \<noteq> [] then services
      else if cs_StartOrder status \<noteq> [] then cs_StartOrder status
      else sort (map fst (cs_Sandboxes status)))"

definition compose_Restart :: "'w ComposeEnv \<Rightarrow> string \<Rightarrow> string list \<Rightarrow> ('w, unit) cop" where
  "compose_Restart env grp services =
     bind (world_read (ce_LoadState env grp)) (\<lambda>so.
     bind (orFail (EngLoad grp) so) (\<lambda>status.
     case filter (\<lambda>svc. map_of (cs_Sandboxes status) svc = None) services of
       svc # _ \<Rightarrow> throw (EngUnknownService svc grp)
     | [] \<Rightarrow>
         let targets = restart_targets status services
         in bind (stop_all env (reverseOrder targets (map fst (cs_Sandboxes status))) []) (\<lambda>errs.
            bind (start_all env targets errs) (\<lambda>errs.
            failIf (errs \<noteq> []) (EngErrors errs)))))"

definition compose_Exec :: "'w ComposeEnv \<Rightarrow> string \<Rightarrow> string \<Rightarrow> string list \<Rightarrow> ('w, string \<times> int \<times> bool) cop" where
  "compose_Exec env grp service command =
     bind (world_read (ce_LoadState env grp)) (\<lambda>so.
     bind (orFail (EngLoad grp) so) (\<lambda>status.
     bind (orFail (EngUnknownService service grp) (map_of (cs_Sandboxes status) service)) (\<lambda>sb.
     seq (failIf (ss_Status sb \<noteq> ''running'') (EngNotRunning service (ss_Status sb)))
     (world_call (ce_Exec env service command)))))"

end
