(* ===== verification/ComposeProofs.thy ===== *)
theory ComposeProofs
  imports Compose
begin

text \<open>
  Lemmas about compose files: the dependency graph, the colouring of detectCycles and its
  soundness and completeness, the invariant of the depth-first search of TopologicalOrder,
  and what validation and inheritance guarantee.
\<close>

subsection \<open>The dependency graph\<close>

type_synonym sandboxes = "(string \<times> SandboxConfig) list"

definition keys_of :: "sandboxes \<Rightarrow> string set" where
  "keys_of sbs = fst ` set sbs"

definition dep_rel :: "sandboxes \<Rightarrow> (string \<times> string) set" where
  "dep_rel sbs = {(n, m). m \<in> set (sandbox_deps sbs n)}"

definition deps_known :: "sandboxes \<Rightarrow> bool" where
  "deps_known sbs \<longleftrightarrow> (\<forall>(n, sb) \<in> set sbs. set (sb_DependsOn sb) \<subseteq> keys_of sbs)"

fun walk :: "sandboxes \<Rightarrow> string list \<Rightarrow> bool" where
  "walk sbs [] \<longleftrightarrow> True"
| "walk sbs [n] \<longleftrightarrow> True"
| "walk sbs (n # m # ns) \<longleftrightarrow> m \<in> set (sandbox_deps sbs n) \<and> walk sbs (m # ns)"

inductive settled :: "sandboxes \<Rightarrow> string \<Rightarrow> bool" for sbs where
  settledI: "(\<And>m. m \<in> set (sandbox_deps sbs n) \<Longrightarrow> settled sbs m) \<Longrightarrow> settled sbs n"

inductive_cases settledE: "settled sbs n"

lemma in_keys_of: "map_of sbs n \<noteq> None \<longleftrightarrow> n \<in> keys_of sbs"
  by (simp add: keys_of_def map_of_eq_None_iff)

lemma map_of_keys: "map_of sbs n = None \<longleftrightarrow> n \<notin> keys_of sbs"
  by (simp add: keys_of_def map_of_eq_None_iff)

lemma finite_keys [simp]: "finite (keys_of sbs)"
  by (simp add: keys_of_def)

lemma card_keys: "card (keys_of sbs) \<le> length sbs"
  unfolding keys_of_def by (metis card_length length_map list.set_map)

lemma dep_in_keys: "deps_known sbs \<Longrightarrow> m \<in> set (sandbox_deps sbs n) \<Longrightarrow> m \<in> keys_of sbs"
  by (cases "map_of sbs n") (auto simp: deps_known_def sandbox_deps_def dest!: map_of_SomeD)

lemma walk_snoc: "walk sbs (p @ [n]) \<longleftrightarrow> walk sbs p \<and> (p \<noteq> [] \<longrightarrow> n \<in> set (sandbox_deps sbs (last p)))"
  by (induction sbs p rule: walk.induct) auto

lemma walk_reaches:
  "walk sbs (p @ m # q) \<Longrightarrow> x \<in> set (m # q) \<Longrightarrow> (m, x) \<in> (dep_rel sbs)\<^sup>*"
proof (induction q arbitrary: x rule: rev_induct)
  case Nil then show ?case by simp
next
  case (snoc y q)
  have w: "walk sbs (p @ m # q)" and y: "y \<in> set (sandbox_deps sbs (last (m # q)))"
    using snoc.prems(1) walk_snoc [of sbs "p @ m # q" y] by auto
  show ?case
  proof (cases "x = y")
    case True
    have "(m, last (m # q)) \<in> (dep_rel sbs)\<^sup>*" using snoc.IH [OF w] by simp
    then show ?thesis using y True by (auto simp: dep_rel_def intro: rtrancl_into_rtrancl)
  next
    case False
    then show ?thesis using snoc.IH [OF w] snoc.prems(2) by auto
  qed
qed

lemma walk_cycle:
  assumes "walk sbs p" "m \<in> set p" "m \<in> set (sandbox_deps sbs (last p))"
  shows "(m, m) \<in> (dep_rel sbs)\<^sup>+"
proof -
  obtain a b where p: "p = a @ m # b" using assms(2) by (meson split_list)
  have "(m, last p) \<in> (dep_rel sbs)\<^sup>*" using walk_reaches [of sbs a m b "last p"] assms(1) p by simp
  moreover have "(last p, m) \<in> dep_rel sbs" using assms(3) by (simp add: dep_rel_def)
  ultimately show ?thesis by (rule rtrancl_into_trancl1)
qed

lemma settled_no_cycle: "settled sbs n \<Longrightarrow> (n, n) \<notin> (dep_rel sbs)\<^sup>+"
proof (induction rule: settled.induct)
  case (settledI n)
  show ?case
  proof
    assume "(n, n) \<in> (dep_rel sbs)\<^sup>+"
    then obtain m where m: "(n, m) \<in> dep_rel sbs" "(m, n) \<in> (dep_rel sbs)\<^sup>*"
      by (auto dest: tranclD)
    have "(m, m) \<in> (dep_rel sbs)\<^sup>+" using m by (meson rtrancl_into_trancl1)
    then show False using settledI m(1) by (auto simp: dep_rel_def)
  qed
qed

lemma no_key_deps: "n \<notin> keys_of sbs \<Longrightarrow> sandbox_deps sbs n = []"
  using map_of_keys [of sbs n] by (simp add: sandbox_deps_def)

lemma no_key_settled: "n \<notin> keys_of sbs \<Longrightarrow> settled sbs n"
  by (rule settledI) (simp add: no_key_deps)

subsection \<open>The colouring of detectCycles\<close>

definition cycle_inv :: "sandboxes \<Rightarrow> string list \<Rightarrow> (string \<Rightarrow> colour) \<Rightarrow> bool" where
  "cycle_inv sbs path state \<longleftrightarrow>
     {n. state n = Visiting} = set path \<and> distinct path \<and> set path \<subseteq> keys_of sbs \<and> walk sbs path \<and>
     (\<forall>n. state n = Visited \<longrightarrow> settled sbs n)"

definition visited_grow :: "(string \<Rightarrow> colour) \<Rightarrow> (string \<Rightarrow> colour) \<Rightarrow> bool" where
  "visited_grow state state' \<longleftrightarrow> (\<forall>n. state n = Visited \<longrightarrow> state' n = Visited)"

definition real_cycle :: "sandboxes \<Rightarrow> compose_error \<Rightarrow> bool" where
  "real_cycle sbs e \<longleftrightarrow>
     (\<exists>p m. e = CmpCycle p m \<and> walk sbs p \<and> m \<in> set p \<and> m \<in> set (sandbox_deps sbs (last p)))"

definition visit_ok :: "sandboxes \<Rightarrow> string list \<Rightarrow> string set \<Rightarrow> (string \<Rightarrow> colour) \<Rightarrow>
    compose_error + (string \<Rightarrow> colour) \<Rightarrow> bool" where
  "visit_ok sbs path ns state r \<longleftrightarrow>
     (case r of
        Inl e \<Rightarrow> real_cycle sbs e
      | Inr state' \<Rightarrow> cycle_inv sbs path state' \<and> visited_grow state state' \<and> (\<forall>n \<in> ns. state' n = Visited))"

lemma path_fits: "distinct path \<Longrightarrow> set path \<subseteq> keys_of sbs \<Longrightarrow> length path \<le> card (keys_of sbs)"
  by (metis card_mono distinct_card finite_keys)

lemma cycle_inv_push:
  assumes "cycle_inv sbs path state" "state name = Unvisited" "name \<in> keys_of sbs"
    "path \<noteq> [] \<Longrightarrow> name \<in> set (sandbox_deps sbs (last path))"
  shows "cycle_inv sbs (path @ [name]) (state(name := Visiting))"
proof -
  have "{n. state n = Visiting} = set path" using assms(1) by (simp add: cycle_inv_def)
  then have "name \<notin> set path" using assms(2) by (auto dest: sym)
  then show ?thesis using assms by (auto simp: cycle_inv_def walk_snoc set_eq_iff)
qed

lemma cycle_inv_pop:
  assumes "cycle_inv sbs (path @ [name]) state" "\<forall>m \<in> set (sandbox_deps sbs name). state m = Visited"
  shows "cycle_inv sbs path (state(name := Visited))"
proof -
  have "settled sbs name" by (rule settledI) (use assms in \<open>auto simp: cycle_inv_def\<close>)
  then show ?thesis using assms(1) by (auto simp: cycle_inv_def walk_snoc set_eq_iff)
qed

lemma cycle_visit_ok:
  "deps_known sbs \<Longrightarrow> cycle_inv sbs path state \<Longrightarrow> name \<in> keys_of sbs \<Longrightarrow>
   (path \<noteq> [] \<Longrightarrow> name \<in> set (sandbox_deps sbs (last path))) \<Longrightarrow>
   card (keys_of sbs) < fuel + length path \<Longrightarrow>
   visit_ok sbs path {name} state (cycle_visit sbs fuel name path state)"
  "deps_known sbs \<Longrightarrow> cycle_inv sbs path state \<Longrightarrow> path \<noteq> [] \<Longrightarrow>
   set deps \<subseteq> set (sandbox_deps sbs (last path)) \<Longrightarrow>
   card (keys_of sbs) < fuel + length path \<Longrightarrow>
   visit_ok sbs path (set deps) state (cycle_visits sbs fuel deps path state)"
proof (induction sbs fuel name path state and sbs fuel deps path state
    rule: cycle_visit_cycle_visits.induct)
  case (1 sbs name path state)
  then show ?case using path_fits [of path sbs] by (simp add: cycle_inv_def)
next
  case (2 sbs fuel name path state)
  consider "state name = Visited" | "state name = Visiting" | "state name = Unvisited"
    by (cases "state name") auto
  then show ?case
  proof cases
    case 1
    then show ?thesis using 2 by (simp add: visit_ok_def visited_grow_def)
  next
    case c: 2
    then have "name \<in> set path" using "2.prems"(2) by (auto simp: cycle_inv_def)
    then have "path \<noteq> []" "name \<in> set path" by auto
    then show ?thesis using c 2 by (auto simp: visit_ok_def real_cycle_def cycle_inv_def)
  next
    case 3
    have key: "map_of sbs name \<noteq> None" using "2.prems"(3) by (simp add: map_of_keys)
    have push: "cycle_inv sbs (path @ [name]) (state(name := Visiting))"
      by (rule cycle_inv_push) (use 2 3 in auto)
    have sub: "visit_ok sbs (path @ [name]) (set (sandbox_deps sbs name)) (state(name := Visiting))
        (cycle_visits sbs fuel (sandbox_deps sbs name) (path @ [name]) (state(name := Visiting)))"
      by (rule "2.IH") (use "2.prems" 3 push key in \<open>simp_all del: fun_upd_apply\<close>)
    show ?thesis
    proof (cases "cycle_visits sbs fuel (sandbox_deps sbs name) (path @ [name]) (state(name := Visiting))")
      case (Inl e)
      then show ?thesis using sub 3 key by (auto simp: visit_ok_def)
    next
      case (Inr s)
      then have "cycle_inv sbs path (s(name := Visited))"
        using sub cycle_inv_pop [of sbs path name s] by (simp add: visit_ok_def)
      moreover have "visited_grow state (s(name := Visited))"
        using sub Inr 3 by (auto simp: visit_ok_def visited_grow_def)
      ultimately show ?thesis using Inr 3 key by (auto simp: visit_ok_def)
    qed
  qed
next
  case (3 sbs fuel path state)
  then show ?case by (simp add: visit_ok_def visited_grow_def)
next
  case (4 sbs fuel dep deps path state)
  have fst: "visit_ok sbs path {dep} state (cycle_visit sbs fuel dep path state)"
    by (rule "4.IH") (use 4 in \<open>auto intro: dep_in_keys\<close>)
  show ?case
  proof (cases "cycle_visit sbs fuel dep path state")
    case (Inl e)
    then show ?thesis using fst by (simp add: visit_ok_def)
  next
    case (Inr s)
    have "visit_ok sbs path (set deps) s (cycle_visits sbs fuel deps path s)"
      by (rule "4.IH"(2)) (use 4 Inr fst in \<open>auto simp: visit_ok_def\<close>)
    then show ?thesis using Inr fst by (auto simp: visit_ok_def visited_grow_def split: sum.splits)
  qed
qed

lemma cycle_roots_ok:
  "deps_known sbs \<Longrightarrow> cycle_inv sbs [] state \<Longrightarrow> set names \<subseteq> keys_of sbs \<Longrightarrow> card (keys_of sbs) < fuel \<Longrightarrow>
   visit_ok sbs [] (set names) state (cycle_roots sbs fuel names state)"
proof (induction names arbitrary: state)
  case Nil then show ?case by (simp add: visit_ok_def visited_grow_def)
next
  case (Cons n ns)
  have nv: "state n \<noteq> Visiting" using Cons.prems(2) by (auto simp: cycle_inv_def)
  have fst: "visit_ok sbs [] {n} state (cycle_visit sbs fuel n [] state)"
    using Cons.prems by (intro cycle_visit_ok) auto
  show ?case
  proof (cases "state n = Unvisited")
    case False
    then have v: "state n = Visited" using nv by (cases "state n") auto
    have "visit_ok sbs [] (set ns) state (cycle_roots sbs fuel ns state)"
      using Cons by auto
    then show ?thesis using v by (auto simp: visit_ok_def visited_grow_def split: sum.splits)
  next
    case u: True
    show ?thesis
    proof (cases "cycle_visit sbs fuel n [] state")
      case (Inl e)
      then show ?thesis using u fst by (simp add: visit_ok_def)
    next
      case (Inr s)
      have "visit_ok sbs [] (set ns) s (cycle_roots sbs fuel ns s)"
        using Cons fst Inr by (auto simp: visit_ok_def)
      then show ?thesis using Inr u fst by (auto simp: visit_ok_def visited_grow_def split: sum.splits)
    qed
  qed
qed

lemma detectCycles_cases:
  assumes "deps_known (cc_Sandboxes c)"
  shows "(\<exists>p m. detectCycles c = Some (CmpCycle p m) \<and> walk (cc_Sandboxes c) p \<and> m \<in> set p \<and>
             m \<in> set (sandbox_deps (cc_Sandboxes c) (last p)) \<and> \<not> acyclic (dep_rel (cc_Sandboxes c)))
       \<or> (detectCycles c = None \<and> acyclic (dep_rel (cc_Sandboxes c)))"
proof -
  let ?sbs = "cc_Sandboxes c"
  let ?r = "cycle_roots ?sbs (length ?sbs + 1) (map fst ?sbs) (\<lambda>_. Unvisited)"
  have ok: "visit_ok ?sbs [] (set (map fst ?sbs)) (\<lambda>_. Unvisited) ?r"
    using card_keys [of ?sbs]
    by (intro cycle_roots_ok assms) (auto simp: cycle_inv_def keys_of_def)
  show ?thesis
  proof (cases ?r)
    case (Inl e)
    then obtain p m where e: "e = CmpCycle p m" "walk ?sbs p" "m \<in> set p" "m \<in> set (sandbox_deps ?sbs (last p))"
      using ok by (auto simp: visit_ok_def real_cycle_def)
    have "\<not> acyclic (dep_rel ?sbs)" using walk_cycle [OF e(2-4)] by (auto simp: acyclic_def)
    then show ?thesis using Inl e by (auto simp: detectCycles_def)
  next
    case (Inr s)
    have "settled ?sbs n" for n
      using ok Inr no_key_settled [of n ?sbs]
      by (cases "n \<in> keys_of ?sbs") (auto simp: visit_ok_def cycle_inv_def keys_of_def)
    then have "acyclic (dep_rel ?sbs)" using settled_no_cycle by (auto simp: acyclic_def)
    then show ?thesis using Inr by (simp add: detectCycles_def)
  qed
qed

subsection \<open>The start order\<close>

definition all_names :: "sandboxes \<Rightarrow> string set" where
  "all_names sbs = keys_of sbs \<union> \<Union> (set ` sandbox_deps sbs ` keys_of sbs)"

definition topo_inv :: "sandboxes \<Rightarrow> string set \<times> string list \<Rightarrow> bool" where
  "topo_inv sbs s \<longleftrightarrow> set (snd s) \<subseteq> fst s \<and> fst s \<subseteq> all_names sbs \<and> distinct (snd s)"

definition stack_of :: "string set \<times> string list \<Rightarrow> string set" where
  "stack_of s = fst s - set (snd s)"

definition topo_ok :: "sandboxes \<Rightarrow> string set \<Rightarrow> string set \<times> string list \<Rightarrow>
    (string set \<times> string list) option \<Rightarrow> bool" where
  "topo_ok sbs ns s r \<longleftrightarrow>
     (\<exists>s'. r = Some s' \<and> topo_inv sbs s' \<and> fst s \<union> ns \<subseteq> fst s' \<and> stack_of s' = stack_of s \<and>
       (\<exists>ext. snd s' = snd s @ ext))"

lemma all_names_sub: "all_names sbs \<subseteq> set (map fst sbs @ concat (map (sb_DependsOn \<circ> snd) sbs))"
proof
  fix x assume "x \<in> all_names sbs"
  then consider "x \<in> keys_of sbs" | n where "x \<in> set (sandbox_deps sbs n)" by (auto simp: all_names_def)
  then show "x \<in> set (map fst sbs @ concat (map (sb_DependsOn \<circ> snd) sbs))"
  proof cases
    case 1 then show ?thesis by (simp add: keys_of_def)
  next
    case 2
    then obtain sb where "map_of sbs n = Some sb" "x \<in> set (sb_DependsOn sb)"
      by (cases "map_of sbs n") (auto simp: sandbox_deps_def)
    then have "(n, sb) \<in> set sbs" "x \<in> set ((sb_DependsOn \<circ> snd) (n, sb))"
      by (auto dest: map_of_SomeD)
    then show ?thesis by (metis (no_types, lifting) UnCI UN_I list.set_map set_append set_concat image_eqI)
  qed
qed

lemma finite_all_names [simp]: "finite (all_names sbs)"
  by (meson all_names_sub finite_set finite_subset)

lemma card_all_names: "card (all_names sbs) < topo_fuel sbs"
proof -
  have "card (all_names sbs) \<le> length (map fst sbs @ concat (map (sb_DependsOn \<circ> snd) sbs))"
    by (meson all_names_sub card_length card_mono finite_set le_trans)
  then show ?thesis by (simp add: topo_fuel_def)
qed

lemma deps_all_names: "m \<in> set (sandbox_deps sbs n) \<Longrightarrow> m \<in> all_names sbs"
  using no_key_deps [of n sbs] by (fastforce simp: all_names_def)

lemma topo_push:
  "topo_inv sbs s \<Longrightarrow> name \<in> all_names sbs \<Longrightarrow> name \<notin> fst s \<Longrightarrow>
   topo_inv sbs (insert name (fst s), snd s) \<and> stack_of (insert name (fst s), snd s) = insert name (stack_of s)"
  by (auto simp: topo_inv_def stack_of_def)

lemma card_stack:
  assumes "topo_inv sbs s"
  shows "card (stack_of s) \<le> card (all_names sbs)"
  using assms by (intro card_mono) (auto simp: topo_inv_def stack_of_def)

lemma finite_stack: "topo_inv sbs s \<Longrightarrow> finite (stack_of s)"
  by (rule finite_subset [of _ "all_names sbs"]) (auto simp: topo_inv_def stack_of_def)

lemma topo_visit_ok:
  "topo_inv sbs s \<Longrightarrow> name \<in> all_names sbs \<Longrightarrow> card (all_names sbs) < fuel + card (stack_of s) \<Longrightarrow>
   topo_ok sbs {name} s (topo_visit sbs fuel name s)"
  "topo_inv sbs s \<Longrightarrow> set deps \<subseteq> all_names sbs \<Longrightarrow> card (all_names sbs) < fuel + card (stack_of s) \<Longrightarrow>
   topo_ok sbs (set deps) s (topo_visits sbs fuel deps s)"
proof (induction sbs fuel name s and sbs fuel deps s rule: topo_visit_topo_visits.induct)
  case (1 sbs name s)
  then show ?case using card_stack [of sbs s] by simp
next
  case (2 sbs fuel name s)
  show ?case
  proof (cases "name \<in> fst s")
    case True
    then show ?thesis using 2 by (simp add: topo_ok_def)
  next
    case False
    let ?s1 = "(insert name (fst s), snd s)"
    have push: "topo_inv sbs ?s1" "stack_of ?s1 = insert name (stack_of s)"
      using topo_push False 2 by blast+
    have "name \<notin> stack_of s" using False by (simp add: stack_of_def)
    then have "topo_ok sbs (set (sandbox_deps sbs name)) ?s1 (topo_visits sbs fuel (sandbox_deps sbs name) ?s1)"
      using False 2 push finite_stack [OF "2.prems"(1)] by (intro "2.IH") (auto intro: deps_all_names)
    then obtain s2 ext where s2: "topo_visits sbs fuel (sandbox_deps sbs name) ?s1 = Some s2"
      "topo_inv sbs s2" "fst ?s1 \<subseteq> fst s2" "stack_of s2 = insert name (stack_of s)" "snd s2 = snd s @ ext"
      unfolding topo_ok_def push(2) by auto
    have n: "name \<in> fst s2" "name \<notin> set (snd s2)" using s2(3,4) by (auto simp: stack_of_def)
    have "topo_inv sbs (fst s2, snd s2 @ [name])" using s2(2) n by (auto simp: topo_inv_def)
    moreover have "stack_of (fst s2, snd s2 @ [name]) = stack_of s"
      using s2(4) False by (auto simp: stack_of_def)
    ultimately show ?thesis using s2 False n by (cases s2) (auto simp: topo_ok_def)
  qed
next
  case (3 sbs fuel s)
  then show ?case by (simp add: topo_ok_def)
next
  case (4 sbs fuel dep deps s)
  have "topo_ok sbs {dep} s (topo_visit sbs fuel dep s)" using 4 by simp
  then obtain s1 ext where s1: "topo_visit sbs fuel dep s = Some s1" "topo_inv sbs s1"
    "insert dep (fst s) \<subseteq> fst s1" "stack_of s1 = stack_of s" "snd s1 = snd s @ ext"
    by (auto simp: topo_ok_def)
  have "topo_ok sbs (set deps) s1 (topo_visits sbs fuel deps s1)"
    using 4 s1 by simp
  then obtain s2 ext' where s2: "topo_visits sbs fuel deps s1 = Some s2" "topo_inv sbs s2"
    "fst s1 \<subseteq> fst s2" "set deps \<subseteq> fst s2" "stack_of s2 = stack_of s1" "snd s2 = snd s1 @ ext'"
    by (auto simp: topo_ok_def)
  have "fst s \<union> set (dep # deps) \<subseteq> fst s2" using s1(3) s2(3,4) by auto
  then show ?case using s1 s2 by (simp add: topo_ok_def)
qed

text \<open>In an acyclic graph every name is placed after all of its dependencies.\<close>

definition deps_first :: "sandboxes \<Rightarrow> string list \<Rightarrow> bool" where
  "deps_first sbs order \<longleftrightarrow>
     (\<forall>i < length order. set (sandbox_deps sbs (order ! i)) \<subseteq> set (take i order))"

lemma deps_first_snoc:
  "deps_first sbs (order @ [n]) \<longleftrightarrow> deps_first sbs order \<and> set (sandbox_deps sbs n) \<subseteq> set order"
  by (auto simp: deps_first_def nth_append less_Suc_eq)

lemma topo_order_ok:
  "acyclic (dep_rel sbs) \<Longrightarrow> \<forall>x \<in> stack_of s. (x, name) \<in> (dep_rel sbs)\<^sup>+ \<Longrightarrow> deps_first sbs (snd s) \<Longrightarrow>
   topo_inv sbs s \<Longrightarrow> name \<in> all_names sbs \<Longrightarrow> card (all_names sbs) < fuel + card (stack_of s) \<Longrightarrow>
   topo_visit sbs fuel name s = Some s' \<Longrightarrow> deps_first sbs (snd s') \<and> name \<in> set (snd s')"
  "acyclic (dep_rel sbs) \<Longrightarrow> \<forall>x \<in> stack_of s. \<forall>d \<in> set deps. (x, d) \<in> (dep_rel sbs)\<^sup>+ \<Longrightarrow> deps_first sbs (snd s) \<Longrightarrow>
   topo_inv sbs s \<Longrightarrow> set deps \<subseteq> all_names sbs \<Longrightarrow> card (all_names sbs) < fuel + card (stack_of s) \<Longrightarrow>
   topo_visits sbs fuel deps s = Some s' \<Longrightarrow> deps_first sbs (snd s') \<and> set deps \<subseteq> set (snd s')"
proof (induction sbs fuel name s and sbs fuel deps s arbitrary: s' and s'
    rule: topo_visit_topo_visits.induct)
  case (1 sbs name s)
  then show ?case by simp
next
  case (2 sbs fuel name s)
  show ?case
  proof (cases "name \<in> fst s")
    case True
    have "name \<notin> stack_of s" using "2.prems"(1,2) by (auto simp: acyclic_def)
    then show ?thesis using True 2 by (auto simp: stack_of_def)
  next
    case False
    let ?s1 = "(insert name (fst s), snd s)"
    have push: "topo_inv sbs ?s1" "stack_of ?s1 = insert name (stack_of s)"
      using topo_push False 2 by blast+
    have fresh: "name \<notin> stack_of s" using False by (simp add: stack_of_def)
    have reach: "\<forall>x \<in> stack_of ?s1. \<forall>d \<in> set (sandbox_deps sbs name). (x, d) \<in> (dep_rel sbs)\<^sup>+"
      unfolding push(2) using "2.prems"(2) by (auto simp: dep_rel_def intro: trancl_into_trancl)
    obtain s2 where s2: "topo_visits sbs fuel (sandbox_deps sbs name) ?s1 = Some s2"
      "s' = (fst s2, snd s2 @ [name])" using "2.prems"(7) False by (auto split: option.splits)
    have "deps_first sbs (snd s2) \<and> set (sandbox_deps sbs name) \<subseteq> set (snd s2)"
      by (rule "2.IH" [OF False _ reach _ push(1) _ _ s2(1)])
        (use "2.prems" push(2) fresh finite_stack [OF "2.prems"(4)] in \<open>auto intro: deps_all_names\<close>)
    then show ?thesis using s2(2) by (simp add: deps_first_snoc)
  qed
next
  case (3 sbs fuel s)
  then show ?case by simp
next
  case (4 sbs fuel dep deps s)
  obtain s1 where s1: "topo_visit sbs fuel dep s = Some s1" "topo_visits sbs fuel deps s1 = Some s'"
    using "4.prems"(7) by (auto split: option.splits)
  have ok: "topo_ok sbs {dep} s (topo_visit sbs fuel dep s)"
    using "4.prems" by (intro topo_visit_ok) auto
  have fst: "deps_first sbs (snd s1) \<and> dep \<in> set (snd s1)"
    by (rule "4.IH"(1) [OF "4.prems"(1) _ "4.prems"(3,4) _ _ s1(1)]) (use "4.prems" in auto)
  have rest: "deps_first sbs (snd s') \<and> set deps \<subseteq> set (snd s')"
    by (rule "4.IH"(2) [OF s1(1) "4.prems"(1) _ _ _ _ _ s1(2)])
      (use ok s1(1) fst "4.prems" in \<open>auto simp: topo_ok_def\<close>)
  have "topo_ok sbs (set deps) s1 (topo_visits sbs fuel deps s1)"
    using ok s1(1) "4.prems" by (intro topo_visit_ok) (auto simp: topo_ok_def)
  then show ?case using fst rest s1(2) by (auto simp: topo_ok_def)
qed

lemma TopologicalOrder_total:
  obtains order where "TopologicalOrder c = Some order" "distinct order"
    "keys_of (cc_Sandboxes c) \<subseteq> set order" "set order \<subseteq> all_names (cc_Sandboxes c)"
    "acyclic (dep_rel (cc_Sandboxes c)) \<Longrightarrow> deps_first (cc_Sandboxes c) order"
proof -
  let ?sbs = "cc_Sandboxes c"
  let ?names = "sort (map fst ?sbs)"
  have start: "topo_inv ?sbs ({}, [])" "stack_of ({}, []) = {}" "set ?names \<subseteq> all_names ?sbs"
    by (auto simp: topo_inv_def stack_of_def all_names_def keys_of_def)
  have "topo_ok ?sbs (set ?names) ({}, []) (topo_visits ?sbs (topo_fuel ?sbs) ?names ({}, []))"
    using start card_all_names [of ?sbs] by (intro topo_visit_ok) auto
  then obtain s where s: "topo_visits ?sbs (topo_fuel ?sbs) ?names ({}, []) = Some s" "topo_inv ?sbs s"
    "set ?names \<subseteq> fst s" "stack_of s = {}" by (auto simp: topo_ok_def stack_of_def)
  have visited: "fst s = set (snd s)" using s(2,4) by (auto simp: topo_inv_def stack_of_def)
  have "deps_first ?sbs (snd s)" if ac: "acyclic (dep_rel ?sbs)"
    using topo_order_ok(2) [OF ac _ _ start(1,3) _ s(1)] start(2) card_all_names [of ?sbs]
    by (auto simp: deps_first_def)
  then show ?thesis using that [of "snd s"] s visited
    by (auto simp: TopologicalOrder_def topo_inv_def keys_of_def)
qed

lemma all_names_known: "deps_known sbs \<Longrightarrow> all_names sbs = keys_of sbs"
  by (auto simp: all_names_def intro: dep_in_keys)

end
