(* ===== verification/ComposeClaims.thy ===== *)
theory ComposeClaims
  imports ComposeProofs
begin

text \<open>
  What validation guarantees of the configuration it accepts, and the inheritance between
  sandboxes: the in-place resolution of \<^verbatim>\<open>extends\<close> computes, in whatever order Go iterates
  over the map, the recursive merge along the chain of the original configuration.
\<close>

subsection \<open>Accepted configurations\<close>

definition sandbox_wf :: "sandboxes \<Rightarrow> string \<times> SandboxConfig \<Rightarrow> bool" where
  "sandbox_wf sbs = (\<lambda>(n, sb).
     sb_From sb \<noteq> [] \<and> 0 < sb_VCPUs sb \<and> 0 < sb_MemoryMB sb \<and> 0 < sb_DiskGB sb \<and>
     sb_RestartPolicy sb \<in> {'''', ''no'', ''on-failure'', ''always''} \<and>
     (\<forall>hc. sb_HealthCheck sb = Some hc \<longrightarrow> hc_Command hc \<noteq> [] \<and> 0 \<le> hc_IntervalSec hc \<and>
        0 \<le> hc_TimeoutSec hc \<and> 0 \<le> hc_Retries hc \<and> 0 \<le> hc_StartPeriodSec hc) \<and>
     (\<forall>ef \<in> set (sb_EnvFile sb). trim_space ef \<noteq> []) \<and>
     (\<forall>dep \<in> set (sb_DependsOn sb). dep \<in> keys_of sbs \<and> dep \<noteq> n))"

definition mounts_wf :: "(string \<times> VolumeConfig option) list option \<Rightarrow> VolumeMount list \<Rightarrow> bool" where
  "mounts_wf vols ms \<longleftrightarrow>
     (\<forall>m \<in> set ms. vm_Name m \<noteq> [] \<and> vm_Guest m \<noteq> [] \<and>
        (\<exists>vs. vols = Some vs \<and> (\<exists>v. map_of vs (vm_Name m) = Some (Some v) \<and> vc_Driver v \<noteq> [])))"

lemma ValidateHealthCheck_ok:
  "ValidateHealthCheck hco = None \<longleftrightarrow>
     (\<forall>hc. hco = Some hc \<longrightarrow> hc_Command hc \<noteq> [] \<and> 0 \<le> hc_IntervalSec hc \<and>
        0 \<le> hc_TimeoutSec hc \<and> 0 \<le> hc_Retries hc \<and> 0 \<le> hc_StartPeriodSec hc)"
  by (auto simp: ValidateHealthCheck_def split: option.splits)

lemma check_env_files_ok: "check_env_files n i efs = None \<longleftrightarrow> (\<forall>ef \<in> set efs. trim_space ef \<noteq> [])"
  by (induction efs arbitrary: i) auto

lemma check_deps_ok: "check_deps sbs n deps = None \<longleftrightarrow> (\<forall>d \<in> set deps. d \<in> keys_of sbs \<and> d \<noteq> n)"
  by (induction deps) (auto simp: map_of_keys)

lemma check_sandbox_ok:
  assumes "check_sandbox all n (set_defaults sb) = None" "sb_From sb \<noteq> []"
  shows "sandbox_wf all (n, set_defaults sb)"
  using assms
  by (auto simp: check_sandbox_def sandbox_wf_def check_env_files_ok check_deps_ok ValidateHealthCheck_ok
      ValidateRestartPolicy_def set_defaults_def split: option.splits if_splits)

lemma check_sandboxes_ok:
  "check_sandboxes all sbs = (sbs', None) \<Longrightarrow>
   sbs' = map (\<lambda>(n, sb). (n, set_defaults sb)) sbs \<and> (\<forall>x \<in> set sbs'. sandbox_wf all x)"
proof (induction all sbs arbitrary: sbs' rule: check_sandboxes.induct)
  case (1 all)
  then show ?case by simp
next
  case (2 all name sb sbs)
  from "2.prems" obtain rest where *: "sb_From sb \<noteq> []" "check_sandbox all name (set_defaults sb) = None"
    "check_sandboxes all sbs = (rest, None)" "sbs' = (name, set_defaults sb) # rest"
    by (auto simp: Let_def split: if_splits option.splits prod.splits)
  have "rest = map (\<lambda>(n, sb). (n, set_defaults sb)) sbs \<and> (\<forall>x \<in> set rest. sandbox_wf all x)"
    by (rule "2.IH") (use * in simp_all)
  then show ?case using * check_sandbox_ok [OF *(2,1)] by simp
qed

lemma check_mounts_ok:
  "check_mounts vols n ms = None \<longleftrightarrow>
     (\<forall>m \<in> set ms. vm_Name m \<noteq> [] \<and> vm_Guest m \<noteq> [] \<and>
        (\<exists>vs v. vols = Some vs \<and> map_of vs (vm_Name m) = Some v))"
  by (induction ms) auto

lemma check_all_mounts_ok:
  "check_all_mounts vols sbs = None \<longleftrightarrow> (\<forall>(n, sb) \<in> set sbs. check_mounts vols n (sb_Volumes sb) = None)"
  by (induction vols sbs rule: check_all_mounts.induct) (auto split: option.splits)

lemma map_of_volume_default:
  "map_of vs n = Some v \<Longrightarrow>
   \<exists>w. map_of (map (\<lambda>(n, v). (n, volume_default v)) vs) n = Some (Some w) \<and> vc_Driver w \<noteq> []"
  by (induction vs) (auto simp: volume_default_def split: option.splits)

lemma keys_set_defaults: "keys_of (map (\<lambda>(n, sb). (n, set_defaults sb)) sbs) = keys_of sbs"
  by (force simp: keys_of_def)

lemma Validate_ok:
  assumes "Validate c = (c', None)"
  obtains "cc_Sandboxes c' = map (\<lambda>(n, sb). (n, set_defaults sb)) (cc_Sandboxes c)"
    "cc_Sandboxes c' \<noteq> []"
    "\<forall>x \<in> set (cc_Sandboxes c'). sandbox_wf (cc_Sandboxes c') x"
    "\<forall>(n, sb) \<in> set (cc_Sandboxes c'). mounts_wf (cc_Volumes c') (sb_Volumes sb)"
    "deps_known (cc_Sandboxes c')" "detectCycles c' = None"
proof -
  obtain sbs where sbs: "cc_Sandboxes c \<noteq> []" "check_sandboxes (cc_Sandboxes c) (cc_Sandboxes c) = (sbs, None)"
    "check_all_mounts (cc_Volumes c) sbs = None" "detectCycles c' = None"
    "c' = c\<lparr>cc_Sandboxes := sbs, cc_Volumes := map_option (map (\<lambda>(n, v). (n, volume_default v))) (cc_Volumes c)\<rparr>"
  proof (cases "check_sandboxes (cc_Sandboxes c) (cc_Sandboxes c)")
    case (Pair sbs e)
    have ne: "cc_Sandboxes c \<noteq> []" using assms by (auto simp: Validate_def)
    have e: "e = None" using assms ne Pair by (cases e) (simp_all add: Validate_def)
    have m: "check_all_mounts (cc_Volumes c) sbs = None"
      using assms ne Pair e by (cases "check_all_mounts (cc_Volumes c) sbs") (simp_all add: Validate_def)
    define d where "d = c\<lparr>cc_Sandboxes := sbs,
        cc_Volumes := map_option (map (\<lambda>(n, v). (n, volume_default v))) (cc_Volumes c)\<rparr>"
    have "Validate c = (d, detectCycles d)" using ne Pair e m by (simp add: Validate_def Let_def d_def)
    then have "detectCycles c' = None" "c' = d" using assms by simp_all
    then show ?thesis using that [OF ne _ m] Pair e d_def by simp
  qed
  have s: "sbs = map (\<lambda>(n, sb). (n, set_defaults sb)) (cc_Sandboxes c)" "\<forall>x \<in> set sbs. sandbox_wf (cc_Sandboxes c) x"
    using check_sandboxes_ok [OF sbs(2)] by auto
  have wf: "\<forall>x \<in> set sbs. sandbox_wf sbs x"
    using s(2) unfolding sandbox_wf_def s(1) keys_set_defaults .
  have mounts: "mounts_wf (cc_Volumes c') (sb_Volumes sb)" if "(n, sb) \<in> set sbs" for n sb
    unfolding mounts_wf_def
  proof (intro ballI)
    fix m assume m: "m \<in> set (sb_Volumes sb)"
    have "check_mounts (cc_Volumes c) n (sb_Volumes sb) = None"
      using sbs(3) that unfolding check_all_mounts_ok by auto
    then have mok: "check_mounts (cc_Volumes c) n [m] = None" using m by (auto simp: check_mounts_ok simp del: check_mounts.simps)
    then obtain vs v where "vm_Name m \<noteq> []" "vm_Guest m \<noteq> []" "cc_Volumes c = Some vs" "map_of vs (vm_Name m) = Some v"
      by (auto simp: check_mounts_ok simp del: check_mounts.simps)
    then show "vm_Name m \<noteq> [] \<and> vm_Guest m \<noteq> [] \<and>
        (\<exists>vs. cc_Volumes c' = Some vs \<and> (\<exists>v. map_of vs (vm_Name m) = Some (Some v) \<and> vc_Driver v \<noteq> []))"
      using map_of_volume_default [of vs "vm_Name m" v] sbs(5) by simp
  qed
  have "deps_known sbs" using wf by (fastforce simp: deps_known_def sandbox_wf_def)
  moreover have "cc_Sandboxes c' = sbs" using sbs(5) by simp
  moreover have "sbs \<noteq> []" using s(1) sbs(1) by simp
  moreover have "\<forall>(n, sb) \<in> set sbs. mounts_wf (cc_Volumes c') (sb_Volumes sb)" using mounts by blast
  ultimately show ?thesis using that sbs(4) s(1) wf by metis
qed

lemma validated_order:
  assumes "Validate c = (c', None)"
  obtains order where "TopologicalOrder c' = Some order" "distinct order"
    "set order = keys_of (cc_Sandboxes c')" "deps_first (cc_Sandboxes c') order"
proof -
  have d: "deps_known (cc_Sandboxes c')" "detectCycles c' = None" using assms by (rule Validate_ok; simp)+
  then have ac: "acyclic (dep_rel (cc_Sandboxes c'))" using detectCycles_cases by fastforce
  show ?thesis
    by (rule TopologicalOrder_total [of c']) (use that ac all_names_known [OF d(1)] in auto)
qed

subsection \<open>Inheritance\<close>

fun effective :: "sandboxes \<Rightarrow> nat \<Rightarrow> string \<Rightarrow> SandboxConfig option" where
  "effective sbs 0 n = None"
| "effective sbs (Suc k) n =
     (case map_of sbs n of
        None \<Rightarrow> None
      | Some sb \<Rightarrow>
          if sb_Extends sb = [] then Some sb
          else map_option (\<lambda>p. (mergeSandboxConfig sb p)\<lparr>sb_Extends := []\<rparr>) (effective sbs k (sb_Extends sb)))"

definition parent_rel :: "sandboxes \<Rightarrow> (string \<times> string) set" where
  "parent_rel sbs = {(n, sb_Extends sb) | n sb. map_of sbs n = Some sb \<and> sb_Extends sb \<noteq> []}"

lemma effective_mono: "effective sbs k n = Some x \<Longrightarrow> k \<le> l \<Longrightarrow> effective sbs l n = Some x"
proof (induction sbs k n arbitrary: x l rule: effective.induct)
  case (2 sbs k n)
  then obtain l' where "l = Suc l'" "k \<le> l'" by (cases l) auto
  then show ?case using 2(1) [of _ _ l'] 2(2)
    by (cases "map_of sbs n") (auto simp del: effective.simps(2) simp: effective.simps(2) [of sbs k n] effective.simps(2) [of sbs l' n])
qed simp

lemma effective_unique: "effective sbs k n = Some x \<Longrightarrow> effective sbs l n = Some y \<Longrightarrow> x = y"
  by (metis effective_mono nle_le option.inject)

lemma effective_parent:
  assumes "effective sbs k n \<noteq> None" "(n, m) \<in> parent_rel sbs"
  shows "\<exists>l < k. effective sbs l m \<noteq> None"
proof (cases k)
  case 0 then show ?thesis using assms by simp
next
  case (Suc l)
  then have "effective sbs l m \<noteq> None" using assms by (auto simp: parent_rel_def)
  then show ?thesis using Suc by blast
qed

lemma effective_no_cycle: "effective sbs k n \<noteq> None \<Longrightarrow> (n, n) \<notin> (parent_rel sbs)\<^sup>+"
proof (induction k arbitrary: n rule: less_induct)
  case (less k)
  show ?case
  proof
    assume "(n, n) \<in> (parent_rel sbs)\<^sup>+"
    then obtain m where m: "(n, m) \<in> parent_rel sbs" "(m, n) \<in> (parent_rel sbs)\<^sup>*" by (auto dest: tranclD)
    then obtain l where "l < k" "effective sbs l m \<noteq> None" using effective_parent less.prems by blast
    then show False using less.IH m by (meson rtrancl_into_trancl1)
  qed
qed

lemma effective_reach:
  "(n, m) \<in> (parent_rel sbs)\<^sup>* \<Longrightarrow> effective sbs k n \<noteq> None \<Longrightarrow> \<exists>l. effective sbs l m \<noteq> None"
  by (induction arbitrary: k rule: rtrancl_induct) (use effective_parent in blast)+

definition ext_inv :: "sandboxes \<Rightarrow> extends_state \<Rightarrow> bool" where
  "ext_inv sbs0 = (\<lambda>(sbs, resolved, resolving).
     map fst sbs = map fst sbs0 \<and> finite resolving \<and> resolving \<subseteq> keys_of sbs0 \<and> resolving \<inter> resolved = {} \<and>
     (\<forall>n \<in> resolved. \<exists>k x. effective sbs0 k n = Some x \<and> map_of sbs n = Some x) \<and>
     (\<forall>n. n \<notin> resolved \<longrightarrow> map_of sbs n = map_of sbs0 n))"

definition ext_ok :: "sandboxes \<Rightarrow> string \<Rightarrow> extends_state \<Rightarrow> compose_error + extends_state \<Rightarrow> bool" where
  "ext_ok sbs0 name s r \<longleftrightarrow>
     (case r of
        Inl e \<Rightarrow> (\<forall>k. effective sbs0 k name = None) \<and>
          (\<exists>n m. e \<in> {CmpExtendsCycle n, CmpSandboxNotFound n, CmpExtendsUnknown n m, CmpExtendsSelf n})
      | Inr s' \<Rightarrow> ext_inv sbs0 s' \<and> snd (snd s') = snd (snd s) \<and> insert name (fst (snd s)) \<subseteq> fst (snd s'))"

lemma map_fst_update: "map_of sbs n \<noteq> None \<Longrightarrow> map fst (AList.update n x sbs) = map fst sbs"
  by (induction sbs) auto

lemma effective_root:
  "map_of sbs n = Some sb \<Longrightarrow> sb_Extends sb = [] \<Longrightarrow> effective sbs (Suc 0) n = Some sb"
  by simp

lemma effective_child:
  "map_of sbs n = Some sb \<Longrightarrow> sb_Extends sb \<noteq> [] \<Longrightarrow> effective sbs k (sb_Extends sb) = Some p \<Longrightarrow>
   effective sbs (Suc k) n = Some ((mergeSandboxConfig sb p)\<lparr>sb_Extends := []\<rparr>)"
  by simp

lemma effective_blocked:
  assumes "map_of sbs n = Some sb" "sb_Extends sb \<noteq> []" "\<forall>k. effective sbs k (sb_Extends sb) = None"
  shows "effective sbs k n = None"
  using assms by (cases k) auto

lemma card_resolving: "ext_inv sbs0 (sbs, resolved, resolving) \<Longrightarrow> card resolving \<le> card (keys_of sbs0)"
  by (auto simp: ext_inv_def intro: card_mono)

lemma keys_map_fst: "map fst sbs = map fst sbs0 \<Longrightarrow> keys_of sbs = keys_of sbs0"
  unfolding keys_of_def by (metis list.set_map)

lemma resolve_ok:
  "ext_inv sbs0 s \<Longrightarrow> \<forall>x \<in> snd (snd s). (x, name) \<in> (parent_rel sbs0)\<^sup>+ \<Longrightarrow>
   card (keys_of sbs0) < fuel + card (snd (snd s)) \<Longrightarrow>
   ext_ok sbs0 name s (resolve fuel name s)"
proof (induction fuel name s rule: resolve.induct)
  case (1 name s)
  then show ?case using card_resolving [of sbs0] by (cases s) fastforce
next
  case (2 fuel name sbs resolved resolving)
  note inv = "2.prems"(1)
  show ?case
  proof (cases "name \<in> resolved \<or> name \<in> resolving")
    case True
    have "name \<in> resolving \<Longrightarrow> \<forall>k. effective sbs0 k name = None"
      using "2.prems"(2) effective_no_cycle by fastforce
    then show ?thesis using True inv by (auto simp: ext_ok_def)
  next
    case new: False
    then have same: "map_of sbs name = map_of sbs0 name" using inv by (simp add: ext_inv_def)
    show ?thesis
    proof (cases "map_of sbs0 name")
      case None
      then have "effective sbs0 k name = None" for k by (cases k) auto
      then show ?thesis using new same None by (simp add: ext_ok_def)
    next
      case sb: (Some sb)
      let ?p = "sb_Extends sb"
      have "map fst sbs = map fst sbs0" using inv by (simp add: ext_inv_def)
      then have keys: "keys_of sbs = keys_of sbs0" by (rule keys_map_fst)
      consider "?p = []" | "?p \<noteq> []" "?p \<notin> keys_of sbs" | "?p \<noteq> []" "?p = name"
        | "?p \<noteq> []" "?p \<in> keys_of sbs" "?p \<noteq> name" by auto
      then show ?thesis
      proof cases
        case 1
        then have "ext_inv sbs0 (sbs, insert name resolved, resolving)"
          using inv new same sb exI [of "\<lambda>k. effective sbs0 k name = Some sb", OF effective_root [OF sb 1]]
          by (auto simp: ext_inv_def simp del: effective.simps)
        then show ?thesis using 1 new same sb by (auto simp: ext_ok_def)
      next
        case 2
        then have "effective sbs0 k ?p = None" for k
          using keys map_of_keys [of sbs0 ?p] by (cases k) auto
        then have "\<forall>k. effective sbs0 k name = None" using effective_blocked sb 2 by blast
        moreover have "map_of sbs ?p = None" using 2 by (simp add: map_of_keys)
        ultimately show ?thesis using 2 new same sb by (simp add: ext_ok_def)
      next
        case 3
        then have "(name, name) \<in> parent_rel sbs0" using sb by (auto simp: parent_rel_def)
        then have "\<forall>k. effective sbs0 k name = None" using effective_no_cycle by blast
        moreover have "map_of sbs name \<noteq> None" using same sb by simp
        ultimately show ?thesis using 3 new same sb by (simp add: ext_ok_def)
      next
        case rec: 4
        let ?s1 = "(sbs, resolved, insert name resolving)"
        have pk: "map_of sbs ?p \<noteq> None" using rec by (simp add: map_of_keys)
        have nk: "name \<in> keys_of sbs0" using sb in_keys_of [of sbs0 name] by simp
        have edge: "(name, ?p) \<in> parent_rel sbs0" using sb rec by (auto simp: parent_rel_def)
        have fin: "finite resolving" using inv by (simp add: ext_inv_def)
        have "ext_ok sbs0 ?p ?s1 (resolve fuel ?p ?s1)"
        proof (rule "2.IH")
          show "ext_inv sbs0 ?s1" using inv new nk by (auto simp: ext_inv_def)
          show "\<forall>x \<in> snd (snd ?s1). (x, ?p) \<in> (parent_rel sbs0)\<^sup>+"
            using "2.prems"(2) edge by (auto intro: trancl_into_trancl)
          show "card (keys_of sbs0) < fuel + card (snd (snd ?s1))"
            using "2.prems"(3) new fin by simp
        qed (use new same sb rec in \<open>auto simp: map_of_keys\<close>)
        then show ?thesis
        proof (cases "resolve fuel ?p ?s1")
          case (Inl e)
          assume ok: "ext_ok sbs0 ?p ?s1 (resolve fuel ?p ?s1)"
          then have "\<forall>k. effective sbs0 k name = None"
            using effective_blocked sb rec(1) Inl by (simp add: ext_ok_def)
          then show ?thesis using ok Inl new same sb rec pk by (auto simp: ext_ok_def)
        next
          case (Inr s2)
          assume ok: "ext_ok sbs0 ?p ?s1 (resolve fuel ?p ?s1)"
          obtain sbs2 resolved2 resolving2 where s2: "s2 = (sbs2, resolved2, resolving2)" by (cases s2)
          have inv2: "ext_inv sbs0 s2" and r2: "resolving2 = insert name resolving"
            "insert ?p resolved \<subseteq> resolved2" using ok Inr s2 by (auto simp: ext_ok_def)
          obtain k par where par: "effective sbs0 k ?p = Some par" "map_of sbs2 ?p = Some par"
            using inv2 s2 r2 unfolding ext_inv_def by auto
          let ?x = "(mergeSandboxConfig sb par)\<lparr>sb_Extends := []\<rparr>"
          have "map fst sbs2 = map fst sbs0" using inv2 s2 by (simp add: ext_inv_def)
          then have "map_of sbs2 name \<noteq> None" using nk in_keys_of [of sbs2 name] keys_map_fst by metis
          then have "ext_inv sbs0 (AList.update name ?x sbs2, insert name resolved2, resolving2 - {name})"
            using inv2 s2 exI [of "\<lambda>k. effective sbs0 k name = Some ?x", OF effective_child [OF sb rec(1) par(1)]]
            by (auto simp: ext_inv_def map_fst_update update_conv' simp del: effective.simps)
          then show ?thesis using Inr s2 par new same sb rec r2 pk by (auto simp: ext_ok_def)
        qed
      qed
    qed
  qed
qed

text \<open>
  The properties of compose files, with instances on a three-sandbox configuration.
\<close>

lemma resolve_all_ok:
  "ext_inv sbs0 (sbs, resolved, {}) \<Longrightarrow> card (keys_of sbs0) < fuel \<Longrightarrow>
   (case resolve_all fuel names (sbs, resolved, {}) of
      Inl e \<Rightarrow> \<exists>n \<in> set names. ext_ok sbs0 n (sbs, resolved, {}) (Inl e)
    | Inr s' \<Rightarrow> ext_inv sbs0 s' \<and> resolved \<union> set names \<subseteq> fst (snd s'))"
proof (induction names arbitrary: sbs resolved)
  case Nil
  then show ?case by simp
next
  case (Cons n ns)
  have ok: "ext_ok sbs0 n (sbs, resolved, {}) (resolve fuel n (sbs, resolved, {}))"
    using Cons.prems by (intro resolve_ok) auto
  show ?case
  proof (cases "resolve fuel n (sbs, resolved, {})")
    case (Inl e)
    then show ?thesis using ok by simp
  next
    case (Inr s)
    obtain sbs' resolved' where s: "s = (sbs', resolved', {})" using ok Inr
      by (cases s) (auto simp: ext_ok_def)
    have inv: "ext_inv sbs0 (sbs', resolved', {})" "insert n resolved \<subseteq> resolved'"
      using ok Inr s by (auto simp: ext_ok_def)
    show ?thesis using Cons.IH [OF inv(1) Cons.prems(2)] inv(2) Inr s
      by (auto simp: ext_ok_def split: sum.splits)
  qed
qed

definition extends_resolved :: "ComposeConfig \<Rightarrow> compose_error + ComposeConfig \<Rightarrow> bool" where
  "extends_resolved c r \<longleftrightarrow>
     (case r of
        Inl e \<Rightarrow> (\<exists>n \<in> keys_of (cc_Sandboxes c). \<forall>k. effective (cc_Sandboxes c) k n = None) \<and>
          (\<exists>n m. e \<in> {CmpExtendsCycle n, CmpSandboxNotFound n, CmpExtendsUnknown n m, CmpExtendsSelf n})
      | Inr c' \<Rightarrow> cc_Volumes c' = cc_Volumes c \<and>
          map fst (cc_Sandboxes c') = map fst (cc_Sandboxes c) \<and>
          (\<forall>n \<in> keys_of (cc_Sandboxes c). \<exists>k x. effective (cc_Sandboxes c) k n = Some x \<and>
             map_of (cc_Sandboxes c') n = Some x \<and> sb_Extends x = []))"

lemma effective_extends: "effective sbs k n = Some x \<Longrightarrow> sb_Extends x = []"
  by (cases k) (auto split: option.splits if_splits)

lemma ext_inv_final:
  assumes "ext_inv sbs0 (sbs, resolved, resolving)" "keys_of sbs0 \<subseteq> resolved" "n \<in> keys_of sbs0"
  shows "\<exists>k x. effective sbs0 k n = Some x \<and> map_of sbs n = Some x \<and> sb_Extends x = []"
proof -
  have "n \<in> resolved" using assms by blast
  then obtain k x where "effective sbs0 k n = Some x" "map_of sbs n = Some x"
    using assms(1) by (auto simp: ext_inv_def)
  then show ?thesis using effective_extends by blast
qed

subsection \<open>Properties\<close>

text \<open>
  C39: Resolving \<^verbatim>\<open>extends\<close> in place (extends.go) computes, for every sandbox and whatever the
  order in which Go iterates over the map, the merge of the sandbox with the recursively
  merged chain of its parents in the original configuration, and clears \<^verbatim>\<open>extends\<close>; it fails,
  with an error that names the extends problem, exactly when some sandbox has no such
  chain (a cycle or an unknown parent). The recursion never runs out of its depth bound.
\<close>
theorem compose_extends: "extends_resolved c (resolveExtends c)"
proof (cases "\<forall>(_, sb) \<in> set (cc_Sandboxes c). sb_Extends sb = []")
  case True
  then have r: "resolveExtends c = Inr c" unfolding resolveExtends_def by (rule if_P)
  have "\<exists>k x. effective (cc_Sandboxes c) k n = Some x \<and> map_of (cc_Sandboxes c) n = Some x \<and> sb_Extends x = []"
    if n: "n \<in> keys_of (cc_Sandboxes c)" for n
  proof -
    obtain sb where sb: "map_of (cc_Sandboxes c) n = Some sb" using n in_keys_of [of "cc_Sandboxes c" n] by auto
    then have "sb_Extends sb = []" using True by (auto dest: map_of_SomeD)
    then show ?thesis using effective_root sb by blast
  qed
  then show ?thesis using r by (simp add: extends_resolved_def)
next
  case False
  let ?sbs = "cc_Sandboxes c"
  let ?r = "resolve_all (length ?sbs + 1) (map fst ?sbs) (?sbs, {}, {})"
  have names: "set (map fst ?sbs) = keys_of ?sbs" by (simp add: keys_of_def)
  have ok: "case ?r of
      Inl e \<Rightarrow> \<exists>n \<in> set (map fst ?sbs). ext_ok ?sbs n (?sbs, {}, {}) (Inl e)
    | Inr s' \<Rightarrow> ext_inv ?sbs s' \<and> {} \<union> set (map fst ?sbs) \<subseteq> fst (snd s')"
    using card_keys [of ?sbs] by (intro resolve_all_ok) (auto simp: ext_inv_def)
  show ?thesis
  proof (cases ?r)
    case (Inl e)
    then have "resolveExtends c = Inl e" using False by (simp only: resolveExtends_def if_False sum.case)
    then show ?thesis using ok Inl names by (auto simp: extends_resolved_def ext_ok_def)
  next
    case (Inr s)
    obtain sbs resolved resolving where s: "s = (sbs, resolved, resolving)" by (cases s)
    have "resolveExtends c = Inr (c\<lparr>cc_Sandboxes := sbs\<rparr>)"
      using False Inr s by (simp only: resolveExtends_def if_False sum.case prod.case)
    moreover have "ext_inv ?sbs (sbs, resolved, resolving)" "keys_of ?sbs \<subseteq> resolved"
      using ok Inr s names by simp_all
    ultimately show ?thesis using ext_inv_final
      by (simp add: extends_resolved_def) (simp add: ext_inv_def)
  qed
qed

text \<open>
  For a configuration whose dependencies are all defined, detectCycles (parser.go)
  reports an error exactly when the dependency graph has a cycle, and the path it reports
  is a chain of dependencies that ends in the sandbox that closes the cycle.
\<close>
theorem compose_cycles:
  assumes "deps_known (cc_Sandboxes c)"
  shows "case detectCycles c of
           None \<Rightarrow> acyclic (dep_rel (cc_Sandboxes c))
         | Some e \<Rightarrow> \<exists>p m. e = CmpCycle p m \<and> walk (cc_Sandboxes c) p \<and> m \<in> set p \<and>
             m \<in> set (sandbox_deps (cc_Sandboxes c) (last p)) \<and> (m, m) \<in> (dep_rel (cc_Sandboxes c))\<^sup>+"
  using detectCycles_cases [OF assms] walk_cycle by fastforce

text \<open>
  C38: A configuration that Validate accepts is well formed: it has a sandbox, every sandbox
  has an image, positive resources, a valid restart policy and health check, no empty
  env file, dependencies that are defined and not itself, and volume mounts of defined
  volumes, all of which have a driver.
\<close>
theorem compose_validate:
  assumes "Validate c = (c', None)"
  shows "cc_Sandboxes c' \<noteq> [] \<and> (\<forall>x \<in> set (cc_Sandboxes c'). sandbox_wf (cc_Sandboxes c') x) \<and>
    (\<forall>(n, sb) \<in> set (cc_Sandboxes c'). mounts_wf (cc_Volumes c') (sb_Volumes sb)) \<and>
    map fst (cc_Sandboxes c') = map fst (cc_Sandboxes c)"
proof -
  obtain "cc_Sandboxes c' = map (\<lambda>(n, sb). (n, set_defaults sb)) (cc_Sandboxes c)" by (rule Validate_ok [OF assms])
  then have "map fst (cc_Sandboxes c') = map fst (cc_Sandboxes c)" by (auto simp: comp_def)
  then show ?thesis by (rule_tac Validate_ok [OF assms]) metis
qed

text \<open>
  C19: TopologicalOrder of a configuration that Validate accepts lists every sandbox exactly
  once, each after all the sandboxes it depends on; its recursion ends.
\<close>
theorem compose_order:
  assumes "Validate c = (c', None)"
  shows "\<exists>order. TopologicalOrder c' = Some order \<and> distinct order \<and> set order = fst ` set (cc_Sandboxes c') \<and>
    (\<forall>i < length order. set (sandbox_deps (cc_Sandboxes c') (order ! i)) \<subseteq> set (take i order))"
  using validated_order [OF assms] unfolding deps_first_def keys_of_def by metis

subsection \<open>Instances\<close>

definition plain_sandbox :: "string \<Rightarrow> string list \<Rightarrow> string \<Rightarrow> SandboxConfig" where
  "plain_sandbox from deps extends =
     \<lparr>sb_From = from, sb_VCPUs = 0, sb_MemoryMB = 0, sb_DiskGB = 0, sb_Network = None, sb_Mounts = [],
      sb_Volumes = [], sb_Env = [], sb_EnvFile = [], sb_DependsOn = deps, sb_Profiles = [],
      sb_HealthCheck = None, sb_RestartPolicy = [], sb_Hooks = None, sb_Watch = None, sb_Extends = extends\<rparr>"

definition example_config :: ComposeConfig where
  "example_config = \<lparr>cc_Sandboxes = [(''web'', plain_sandbox ''ubuntu'' [''api'', ''db''] []),
       (''db'', plain_sandbox ''postgres'' [] []), (''api'', plain_sandbox ''alpine'' [''db''] [])],
     cc_Volumes = None\<rparr>"

definition cyclic_config :: ComposeConfig where
  "cyclic_config = \<lparr>cc_Sandboxes = [(''web'', plain_sandbox ''ubuntu'' [''api''] []),
       (''api'', plain_sandbox ''alpine'' [''web''] [])], cc_Volumes = None\<rparr>"

definition extends_config :: ComposeConfig where
  "extends_config = \<lparr>cc_Sandboxes = [(''web'', plain_sandbox [] [''api''] ''api''),
       (''api'', plain_sandbox ''alpine'' [] [])], cc_Volumes = None\<rparr>"

lemma compose_extends_witness:
  "\<exists>x k. effective (cc_Sandboxes extends_config) k ''web'' = Some x \<and> sb_From x = ''alpine'' \<and> sb_Extends x = []"
proof -
  have r: "resolveExtends extends_config = Inr (extends_config\<lparr>cc_Sandboxes :=
      [(''web'', plain_sandbox ''alpine'' [''api''] []), (''api'', plain_sandbox ''alpine'' [] [])]\<rparr>)"
    by code_simp
  have "''web'' \<in> keys_of (cc_Sandboxes extends_config)" by (simp add: keys_of_def extends_config_def)
  then show ?thesis using compose_extends [of extends_config] unfolding r extends_resolved_def
    by (fastforce simp: plain_sandbox_def)
qed

lemma compose_cycles_witness:
  "detectCycles cyclic_config = Some (CmpCycle [''web'', ''api''] ''web'') \<and>
   (''web'', ''web'') \<in> (dep_rel (cc_Sandboxes cyclic_config))\<^sup>+"
proof -
  have e: "detectCycles cyclic_config = Some (CmpCycle [''web'', ''api''] ''web'')" by code_simp
  have "deps_known (cc_Sandboxes cyclic_config)" by code_simp
  then show ?thesis using compose_cycles [of cyclic_config] e by auto
qed

lemma compose_validate_witness:
  "sandbox_wf (cc_Sandboxes (fst (Validate example_config))) (hd (cc_Sandboxes (fst (Validate example_config)))) \<and>
   map fst (cc_Sandboxes (fst (Validate example_config))) = [''web'', ''db'', ''api'']"
proof -
  have "snd (Validate example_config) = None" by code_simp
  then have "Validate example_config = (fst (Validate example_config), None)" by (metis prod.collapse)
  from compose_validate [OF this] have "cc_Sandboxes (fst (Validate example_config)) \<noteq> [] \<and>
      (\<forall>x \<in> set (cc_Sandboxes (fst (Validate example_config))). sandbox_wf (cc_Sandboxes (fst (Validate example_config))) x)"
    and names: "map fst (cc_Sandboxes (fst (Validate example_config))) = map fst (cc_Sandboxes example_config)" by auto
  then have "sandbox_wf (cc_Sandboxes (fst (Validate example_config))) (hd (cc_Sandboxes (fst (Validate example_config))))"
    by (metis hd_in_set)
  then show ?thesis using names by (simp add: example_config_def)
qed

lemma compose_order_witness:
  "\<exists>order. TopologicalOrder (fst (Validate example_config)) = Some order \<and> order = [''db'', ''api'', ''web''] \<and>
     distinct order"
proof -
  have "snd (Validate example_config) = None" by code_simp
  then have "Validate example_config = (fst (Validate example_config), None)" by (metis prod.collapse)
  moreover have "TopologicalOrder (fst (Validate example_config)) = Some [''db'', ''api'', ''web'']" by code_simp
  ultimately show ?thesis using compose_order [of example_config] by fastforce
qed

end
