(* ===== verification/ComposeUp.thy ===== *)
theory ComposeUp
  imports ComposeEngine ComposeClaims
begin

text \<open>
  The calls that Up and Down make to the sandbox manager, in every run and whatever the
  calls return.
\<close>

subsection \<open>The calls an operation adds\<close>

definition emits :: "vm_call set \<Rightarrow> ('w, 'a) cop \<Rightarrow> bool" where
  "emits A m \<longleftrightarrow> (\<forall>s. \<exists>ext. cpm_calls (fst (m s)) = cpm_calls s @ ext \<and> set ext \<subseteq> A)"

named_theorems emit "the calls of an operation"

lemma emits_same: "(\<And>s. cpm_calls (fst (m s)) = cpm_calls s) \<Longrightarrow> emits A m"
  by (simp add: emits_def)

lemma emits_basic [emit]:
  "emits A (return x)" "emits A (throw e)" "emits A (reads f)" "emits A (failIf b e)" "emits A (orFail e y)"
  "emits A (world_read g)" "emits A (world_effect h)"
  by (rule emits_same; simp add: return_def throw_def reads_def failIf_def orFail_def world_read_def world_effect_def
      modify_def split: option.split)+

lemma emits_world_call [emit]: "emits A (world_call f)"
  by (rule emits_same) (simp add: world_call_def split: prod.split)

lemma emits_bind [emit]:
  assumes "emits A m" "\<And>x. emits A (k x)"
  shows "emits A (bind m k)"
  unfolding emits_def
proof
  fix s
  obtain s1 r where m: "m s = (s1, r)" by (cases "m s")
  obtain e1 where e1: "cpm_calls s1 = cpm_calls s @ e1" "set e1 \<subseteq> A"
    using assms(1) m unfolding emits_def by (metis fst_conv)
  show "\<exists>ext. cpm_calls (fst (bind m k s)) = cpm_calls s @ ext \<and> set ext \<subseteq> A"
  proof (cases r)
    case (Inl e) then show ?thesis using m e1 by (auto simp: bind_def)
  next
    case (Inr x)
    obtain e2 where "cpm_calls (fst (k x s1)) = cpm_calls s1 @ e2" "set e2 \<subseteq> A"
      using assms(2) unfolding emits_def by metis
    then have "cpm_calls (fst (bind m k s)) = cpm_calls s @ (e1 @ e2) \<and> set (e1 @ e2) \<subseteq> A"
      using m e1 Inr by (simp add: bind_def)
    then show ?thesis by blast
  qed
qed

lemma emits_seq [emit]: "emits A m \<Longrightarrow> emits A n \<Longrightarrow> emits A (seq m n)"
  unfolding seq_def by (rule emits_bind)

lemma emits_whenOp [emit]: "emits A m \<Longrightarrow> emits A (whenOp b m)"
  by (simp add: whenOp_def emit)

lemma emits_if [emit]: "emits A m \<Longrightarrow> emits A n \<Longrightarrow> emits A (if b then m else n)"
  by simp

lemma emits_case_option [emit]: "emits A m \<Longrightarrow> (\<And>y. emits A (k y)) \<Longrightarrow> emits A (case x of None \<Rightarrow> m | Some y \<Rightarrow> k y)"
  by (cases x) simp_all

lemma emits_case_sum [emit]: "(\<And>e. emits A (m e)) \<Longrightarrow> (\<And>y. emits A (k y)) \<Longrightarrow> emits A (case x of Inl e \<Rightarrow> m e | Inr y \<Rightarrow> k y)"
  by (cases x) simp_all

lemma emits_case_prod [emit]: "(\<And>a b. emits A (k a b)) \<Longrightarrow> emits A (case x of (a, b) \<Rightarrow> k a b)"
  by (cases x) simp

lemma emits_record: "c \<in> A \<Longrightarrow> emits A (modify (\<lambda>s. s\<lparr>cpm_calls := cpm_calls s @ [c]\<rparr>))"
  by (simp add: emits_def modify_def)

lemma emits_dns [emit]:
  "emits A (modify (\<lambda>s. s\<lparr>cpm_dns := f (cpm_dns s)\<rparr>))"
  by (rule emits_same) (simp add: modify_def)

lemma emits_vm_op: "(\<And>ok. c ok \<in> A) \<Longrightarrow> emits A (vm_op c f)"
  unfolding vm_op_def by (intro emit emits_record)

lemma emits_run_hook_commands: "range (CallExec n) \<subseteq> A \<Longrightarrow> emits A (run_hook_commands env n cont cmds)"
  by (induction cmds) (auto intro!: emit emits_record)

lemma emits_runHooks: "range (CallExec n) \<subseteq> A \<Longrightarrow> emits A (runHooks env n hooks phase cont)"
  unfolding runHooks_def by (intro emit emits_run_hook_commands)

text \<open>The calls for one sandbox after it was created.\<close>

definition running_calls :: "string \<Rightarrow> vm_call set" where
  "running_calls n = range (CallStart n) \<union> range (CallStop n) \<union> range (CallExec n)"

lemma emits_hooks [emit]:
  "emits (running_calls n) (post_create_hooks env n sb)"
  "emits (running_calls n) (post_start_hooks env n sb)"
  "emits (running_calls n) (vm_start env n)"
  "emits (running_calls n) (vm_stop env n)"
  unfolding post_create_hooks_def post_start_hooks_def vm_start_def vm_stop_def
  by (intro emit emits_runHooks emits_vm_op; auto simp: running_calls_def)+

lemma emits_register [emit]: "emits A (register_dns env grp n ip)"
  unfolding register_dns_def by (intro emit)

lemma emits_sandbox_env [emit]: "emits A (sandbox_env env n sb)"
  unfolding sandbox_env_def by (intro emit)

subsection \<open>Judgements about the calls\<close>

definition traced :: "(vm_call list \<Rightarrow> bool) \<Rightarrow> ('w, 'a) cop \<Rightarrow> ('a \<Rightarrow> vm_call list \<Rightarrow> bool) \<Rightarrow>
    (engine_error \<Rightarrow> vm_call list \<Rightarrow> bool) \<Rightarrow> bool" where
  "traced P m Q E \<longleftrightarrow> valid (\<lambda>s. P (cpm_calls s)) m (\<lambda>x s. Q x (cpm_calls s)) (\<lambda>e s. E e (cpm_calls s))"

named_theorems trace "rules that compute a precondition on the calls"

lemma traced_pre: "traced P' m Q E \<Longrightarrow> (\<And>cs. P cs \<Longrightarrow> P' cs) \<Longrightarrow> traced P m Q E"
  unfolding traced_def by (rule valid_pre)

lemma traced_use:
  "traced P m Q E \<Longrightarrow> P (cpm_calls s) \<Longrightarrow> m s = (s', r) \<Longrightarrow>
   (case r of Inr x \<Rightarrow> Q x (cpm_calls s') | Inl e \<Rightarrow> E e (cpm_calls s'))"
  by (auto simp: traced_def valid_def split: sum.split dest!: spec [of _ s])

lemma traced_bind [trace]: "(\<And>x. traced (R x) (k x) Q E) \<Longrightarrow> traced P m R E \<Longrightarrow> traced P (bind m k) Q E"
  unfolding traced_def by (rule valid_bind)

lemma traced_seq [trace]: "traced R n Q E \<Longrightarrow> traced P m (\<lambda>_. R) E \<Longrightarrow> traced P (seq m n) Q E"
  unfolding traced_def by (rule valid_seq)

lemma traced_return [trace]: "traced (Q x) (return x) Q E"
  unfolding traced_def by (rule valid_return)

lemma traced_throw [trace]: "traced (E e) (throw e) Q E"
  unfolding traced_def by (rule valid_throw)

lemma traced_failIf [trace]: "traced (\<lambda>cs. (b \<longrightarrow> E e cs) \<and> (\<not> b \<longrightarrow> Q () cs)) (failIf b e) Q E"
  unfolding traced_def by (rule valid_failIf)

lemma traced_whenOp [trace]:
  "traced P m Q E \<Longrightarrow> traced (\<lambda>cs. (b \<longrightarrow> P cs) \<and> (\<not> b \<longrightarrow> Q () cs)) (whenOp b m) Q E"
  unfolding traced_def by (rule valid_whenOp)

lemma traced_orFail [trace]:
  "traced (\<lambda>cs. (x = None \<longrightarrow> E e cs) \<and> (\<forall>y. x = Some y \<longrightarrow> Q y cs)) (orFail e x) Q E"
  unfolding traced_def by (rule valid_orFail)

lemma traced_if [trace]:
  "traced P m Q E \<Longrightarrow> traced P' n Q E \<Longrightarrow> traced (\<lambda>cs. (b \<longrightarrow> P cs) \<and> (\<not> b \<longrightarrow> P' cs)) (if b then m else n) Q E"
  by (simp add: traced_def valid_def)

lemma traced_case_option [trace]:
  "traced P m Q E \<Longrightarrow> (\<And>y. traced (P' y) (k y) Q E) \<Longrightarrow>
   traced (\<lambda>cs. (x = None \<longrightarrow> P cs) \<and> (\<forall>y. x = Some y \<longrightarrow> P' y cs)) (case x of None \<Rightarrow> m | Some y \<Rightarrow> k y) Q E"
  by (cases x) (simp_all add: traced_def)

lemma traced_same:
  "(\<And>s. \<exists>x. snd (m s) = Inr x \<and> cpm_calls (fst (m s)) = cpm_calls s) \<Longrightarrow> traced (\<lambda>cs. \<forall>x. Q x cs) m Q E"
  unfolding traced_def valid_def by (metis (mono_tags, lifting) case_prod_beta sum.case(2))

lemma traced_world_call [trace]: "traced (\<lambda>cs. \<forall>x. Q x cs) (world_call f) Q E"
  by (rule traced_same) (simp add: world_call_def split: prod.split)

lemma traced_world_read [trace]: "traced (\<lambda>cs. \<forall>x. Q x cs) (world_read f) Q E"
  by (rule traced_same) (simp add: world_read_def reads_def)

lemma traced_world_effect [trace]: "traced (\<lambda>cs. \<forall>x. Q x cs) (world_effect f) Q E"
  by (rule traced_same) (simp add: world_effect_def modify_def)

lemma traced_reads [trace]: "traced (\<lambda>cs. \<forall>x. Q x cs) (reads f) Q E"
  by (rule traced_same) (simp add: reads_def)

lemma traced_dns [trace]:
  "traced (\<lambda>cs. Q () cs) (modify (\<lambda>s. s\<lparr>cpm_dns := insert g (cpm_dns s)\<rparr>)) Q E"
  "traced (\<lambda>cs. Q () cs) (modify (\<lambda>s. s\<lparr>cpm_dns := cpm_dns s - {g}\<rparr>)) Q E"
  by (simp_all add: traced_def valid_def modify_def)

lemma traced_register [trace]: "traced (\<lambda>cs. \<forall>x. Q x cs) (register_dns env grp n ip) Q E"
  unfolding register_dns_def by (rule traced_pre, (rule trace)+) simp

lemma traced_vm_op: "traced (\<lambda>cs. \<forall>ok. Q ok (cs @ [c ok])) (vm_op c f) Q E"
  unfolding traced_def valid_def vm_op_def bind_def seq_def world_call_def modify_def return_def
  by (auto split: prod.split)

lemma traced_vm_create [trace]: "traced (\<lambda>cs. \<forall>ok. Q ok (cs @ [CallCreate n ok])) (vm_create env n cfg) Q E"
  unfolding vm_create_def by (rule traced_vm_op)

lemma traced_vm_start [trace]: "traced (\<lambda>cs. \<forall>ok. Q ok (cs @ [CallStart n ok])) (vm_start env n) Q E"
  unfolding vm_start_def by (rule traced_vm_op)

lemma traced_vm_stop [trace]: "traced (\<lambda>cs. \<forall>ok. Q ok (cs @ [CallStop n ok])) (vm_stop env n) Q E"
  unfolding vm_stop_def by (rule traced_vm_op)

lemma traced_save_status [trace]: "traced (\<lambda>cs. \<forall>ok. Q ok (cs @ [CallSave grp st ok])) (save_status env grp st) Q E"
  unfolding save_status_def by (rule traced_vm_op)

lemma traced_vm_destroy [trace]: "traced (\<lambda>cs. \<forall>ok. Q ok (cs @ [CallDestroy n ok])) (vm_destroy env n) Q E"
  unfolding vm_destroy_def by (rule traced_vm_op)

lemma traced_emits:
  assumes "emits A m"
  shows "traced (\<lambda>cs. \<forall>ext. set ext \<subseteq> A \<longrightarrow> (\<forall>x. Q x (cs @ ext)) \<and> (\<forall>e. E e (cs @ ext))) m Q E"
  unfolding traced_def valid_def
proof (intro allI impI)
  fix s :: "'a ComposeManager"
  assume pre: "\<forall>ext. set ext \<subseteq> A \<longrightarrow> (\<forall>x. Q x (cpm_calls s @ ext)) \<and> (\<forall>e. E e (cpm_calls s @ ext))"
  obtain s' r where m: "m s = (s', r)" by (cases "m s")
  then obtain ext where "cpm_calls s' = cpm_calls s @ ext" "set ext \<subseteq> A"
    using assms unfolding emits_def by (metis fst_conv)
  then show "case m s of (s', Inr x) \<Rightarrow> Q x (cpm_calls s') | (s', Inl e) \<Rightarrow> E e (cpm_calls s')"
    using pre m by (cases r) auto
qed

lemmas traced_hooks [trace] = traced_emits [OF emits_hooks(1)] traced_emits [OF emits_hooks(2)]

lemma traced_sandbox_env [trace]: "traced (\<lambda>cs. (\<forall>x. Q x cs) \<and> (\<forall>e. E e cs)) (sandbox_env env n sb) Q E"
  by (rule traced_pre, rule traced_emits [OF emits_sandbox_env [of "{}"]]) simp

subsection \<open>Up\<close>

text \<open>
  The calls of one round of Up: nothing, or the creation followed by calls for the same
  sandbox; when the round succeeds the sandbox was created and started, and the new status
  was saved last. A round that fails saved nothing.
\<close>

definition round_calls :: "string \<Rightarrow> string \<Rightarrow> ComposeStatus option \<Rightarrow> vm_call list \<Rightarrow> bool" where
  "round_calls grp n saved ext \<longleftrightarrow>
     (ext = [] \<and> saved = None) \<or>
     (\<exists>created rest sv. ext = CallCreate n created # rest @ sv \<and> set rest \<subseteq> running_calls n \<and>
        (case saved of
           Some st \<Rightarrow> created \<and> CallStart n True \<in> set rest \<and> sv = [CallSave grp st True]
         | None \<Rightarrow> sv = [] \<or> (\<exists>st. sv = [CallSave grp st False])))"

lemma start_running: "CallStart n ok \<in> running_calls n"
  by (simp add: running_calls_def)

lemma round_nothing: "round_calls grp n None []"
  by (simp add: round_calls_def)

lemma round_failed:
  assumes "set a \<subseteq> running_calls n"
  shows "round_calls grp n None [CallCreate n created]"
    "round_calls grp n None (CallCreate n created # a)"
    "round_calls grp n None (CallCreate n created # a @ [CallStart n ok])"
    "set b \<subseteq> running_calls n \<Longrightarrow> round_calls grp n None (CallCreate n created # a @ CallStart n ok # b)"
proof -
  have all: "round_calls grp n None (CallCreate n created # rest)" if "set rest \<subseteq> running_calls n" for rest
    unfolding round_calls_def option.case using that by (intro disjI2 exI [of _ created] exI [of _ rest] exI [of _ "[]"]) simp
  show "round_calls grp n None [CallCreate n created]"
    "round_calls grp n None (CallCreate n created # a)"
    "round_calls grp n None (CallCreate n created # a @ [CallStart n ok])"
    "set b \<subseteq> running_calls n \<Longrightarrow> round_calls grp n None (CallCreate n created # a @ CallStart n ok # b)"
    using assms by (auto intro!: all simp: start_running)
qed

lemma round_unsaved:
  assumes "set a \<subseteq> running_calls n" "set b \<subseteq> running_calls n"
  shows "round_calls grp n None (CallCreate n created # a @ CallStart n True # b @ [CallSave grp st False])"
proof -
  let ?rest = "a @ CallStart n True # b" and ?sv = "[CallSave grp st False]"
  have "set ?rest \<subseteq> running_calls n" using assms by (simp add: start_running)
  moreover have "CallCreate n created # a @ CallStart n True # b @ ?sv = CallCreate n created # ?rest @ ?sv" by simp
  ultimately show ?thesis unfolding round_calls_def option.case by blast
qed

lemma round_saved:
  assumes "set a \<subseteq> running_calls n" "set b \<subseteq> running_calls n"
  shows "round_calls grp n (Some st) (CallCreate n True # a @ CallStart n True # b @ [CallSave grp st True])"
proof -
  let ?rest = "a @ CallStart n True # b" and ?sv = "[CallSave grp st True]"
  have "set ?rest \<subseteq> running_calls n" "CallStart n True \<in> set ?rest" using assms by (simp_all add: start_running)
  moreover have "CallCreate n True # a @ CallStart n True # b @ ?sv = CallCreate n True # ?rest @ ?sv" by simp
  ultimately show ?thesis unfolding round_calls_def option.case by blast
qed

lemma up_one_traced:
  "traced (\<lambda>cs. cs = cs0) (up_one env grp sbs paths name status)
     (\<lambda>st cs. \<exists>ext. cs = cs0 @ ext \<and> round_calls grp name (Some st) ext \<and> map_of sbs name \<noteq> None \<and>
        (\<exists>v. st = status\<lparr>cs_Sandboxes := AList.update name v (cs_Sandboxes status)\<rparr>))
     (\<lambda>e cs. \<exists>ext. cs = cs0 @ ext \<and> round_calls grp name None ext)"
  unfolding up_one_def
  by (rule traced_pre, (rule trace)+)
    (auto intro: round_nothing round_failed round_failed(1) [of "[]"] round_unsaved round_saved)

definition created_names :: "vm_call list \<Rightarrow> string list" where
  "created_names cs = concat (map (\<lambda>c. case c of CallCreate n _ \<Rightarrow> [n] | _ \<Rightarrow> []) cs)"

text \<open>Every creation comes after successful starts of everything the sandbox depends on.\<close>

definition deps_started :: "sandboxes \<Rightarrow> vm_call list \<Rightarrow> bool" where
  "deps_started sbs cs \<longleftrightarrow>
     (\<forall>i < length cs. \<forall>n ok. cs ! i = CallCreate n ok \<longrightarrow>
        (\<forall>d \<in> set (sandbox_deps sbs n). CallStart d True \<in> set (take i cs)))"

lemma created_names_append [simp]: "created_names (xs @ ys) = created_names xs @ created_names ys"
  by (simp add: created_names_def)

lemma created_names_running: "set rest \<subseteq> running_calls n \<Longrightarrow> created_names rest = []"
  by (auto simp: created_names_def running_calls_def split: vm_call.splits)

lemma deps_started_snoc:
  "deps_started sbs (cs @ [c]) \<longleftrightarrow> deps_started sbs cs \<and>
     (\<forall>n ok. c = CallCreate n ok \<longrightarrow> (\<forall>d \<in> set (sandbox_deps sbs n). CallStart d True \<in> set cs))"
  by (auto simp: deps_started_def nth_append less_Suc_eq)

lemma deps_started_running: "deps_started sbs cs \<Longrightarrow> set rest \<subseteq> running_calls n \<Longrightarrow> deps_started sbs (cs @ rest)"
proof (induction rest rule: rev_induct)
  case (snoc c rest)
  then have "deps_started sbs (cs @ rest)" "c \<in> running_calls n" by auto
  then show ?case using deps_started_snoc [of sbs "cs @ rest" c] by (auto simp: running_calls_def)
qed simp

text \<open>
  The statuses that were saved, and what they should be: after each round the group with the
  sandboxes brought up so far.
\<close>

definition saves :: "vm_call list \<Rightarrow> (string \<times> ComposeStatus) list" where
  "saves cs = concat (map (\<lambda>c. case c of CallSave g st ok \<Rightarrow> if ok then [(g, st)] else [] | _ \<Rightarrow> []) cs)"

definition saved_names :: "vm_call list \<Rightarrow> (string \<times> string list) list" where
  "saved_names cs = map (\<lambda>(g, st). (g, map fst (cs_Sandboxes st))) (saves cs)"

definition growing :: "string \<Rightarrow> string list \<Rightarrow> (string \<times> string list) list" where
  "growing grp names = map (\<lambda>i. (grp, take (Suc i) names)) [0..<length names]"

lemma saves_append [simp]: "saves (xs @ ys) = saves xs @ saves ys"
  by (simp add: saves_def)

lemma saves_running: "set rest \<subseteq> running_calls n \<Longrightarrow> saves rest = []"
  unfolding saves_def concat_eq_Nil_conv by (auto simp: running_calls_def)

lemma saves_calls [simp]:
  "saves (CallCreate n ok # cs) = saves cs" "saves [CallSave g st True] = [(g, st)]" "saves [CallSave g st False] = []"
  by (simp_all add: saves_def)

lemma growing_snoc: "growing grp (names @ [n]) = growing grp names @ [(grp, names @ [n])]"
  by (auto simp: growing_def)

definition up_inv :: "string \<Rightarrow> sandboxes \<Rightarrow> ComposeStatus \<Rightarrow> vm_call list \<Rightarrow> bool" where
  "up_inv grp sbs status cs \<longleftrightarrow>
     (let pre = map fst (cs_Sandboxes status)
      in deps_started sbs cs \<and> created_names cs = pre \<and> (\<forall>n \<in> set pre. CallStart n True \<in> set cs) \<and>
         saved_names cs = growing grp pre \<and> (pre \<noteq> [] \<longrightarrow> last (saves cs) = (grp, status)))"

definition up_failed :: "string \<Rightarrow> sandboxes \<Rightarrow> string list \<Rightarrow> vm_call list \<Rightarrow> bool" where
  "up_failed grp sbs order cs \<longleftrightarrow> deps_started sbs cs \<and>
     (\<exists>j k. created_names cs = take k order \<and> saved_names cs = growing grp (take j order) \<and> j \<le> k \<and> k \<le> Suc j)"

text \<open>The calls of a round, between those before it and the save.\<close>

lemma round_middle:
  assumes "deps_started sbs cs" "\<forall>d \<in> set (sandbox_deps sbs n). CallStart d True \<in> set cs" "set rest \<subseteq> running_calls n"
    "set sv \<subseteq> {CallSave g st ok | g st ok. True}"
  shows "deps_started sbs (cs @ CallCreate n created # rest @ sv)"
    "created_names (cs @ CallCreate n created # rest @ sv) = created_names cs @ [n]"
proof -
  have "deps_started sbs (cs @ [CallCreate n created])" using assms(1,2) by (auto simp: deps_started_snoc)
  then have "deps_started sbs ((cs @ [CallCreate n created]) @ rest)" using assms(3) by (rule deps_started_running)
  then have "deps_started sbs (((cs @ [CallCreate n created]) @ rest) @ sv)" using assms(4)
  proof (induction sv rule: rev_induct)
    case (snoc c sv)
    then have "deps_started sbs (((cs @ [CallCreate n created]) @ rest) @ sv)" by auto
    with snoc.prems(2) show ?case unfolding append_assoc [symmetric] deps_started_snoc [of sbs "((cs @ [CallCreate n created]) @ rest) @ sv"]
      by auto
  qed simp
  then show "deps_started sbs (cs @ CallCreate n created # rest @ sv)" by simp
  have "created_names sv = []" using assms(4) by (auto simp: created_names_def)
  then show "created_names (cs @ CallCreate n created # rest @ sv) = created_names cs @ [n]"
    using created_names_running [OF assms(3)] by (simp add: created_names_def)
qed

lemma up_inv_failed:
  assumes "up_inv grp sbs status cs" "map fst (cs_Sandboxes status) = pre" "set (sandbox_deps sbs n) \<subseteq> set pre"
    and "round_calls grp n None ext"
  shows "up_failed grp sbs (pre @ n # ns) (cs @ ext)"
proof -
  have inv: "deps_started sbs cs" "created_names cs = pre" "\<forall>d \<in> set pre. CallStart d True \<in> set cs"
    "saved_names cs = growing grp pre" using assms(1,2) by (simp_all add: up_inv_def)
  show ?thesis
  proof (cases "ext = []")
    case True
    then show ?thesis using inv unfolding up_failed_def
      by (auto intro!: exI [of _ "length pre"])
  next
    case False
    then obtain created rest sv where e: "ext = CallCreate n created # rest @ sv" "set rest \<subseteq> running_calls n"
      "sv = [] \<or> (\<exists>st. sv = [CallSave grp st False])"
      using assms(4) by (auto simp: round_calls_def)
    have sv: "set sv \<subseteq> {CallSave g st ok | g st ok. True}" "saves sv = []" using e(3) by (auto simp: saves_def)
    have deps: "\<forall>d \<in> set (sandbox_deps sbs n). CallStart d True \<in> set cs" using inv(3) assms(3) by auto
    have "saves (cs @ ext) = saves cs" using e(1) sv(2) saves_running [OF e(2)] by simp
    then have "saved_names (cs @ ext) = growing grp (take (length pre) (pre @ n # ns))"
      using inv(4) by (simp add: saved_names_def)
    moreover have "created_names (cs @ ext) = take (Suc (length pre)) (pre @ n # ns)"
      using round_middle(2) [OF inv(1) deps e(2) sv(1)] inv(2) e(1) by simp
    moreover have "deps_started sbs (cs @ ext)" using round_middle(1) [OF inv(1) deps e(2) sv(1)] e(1) by simp
    ultimately show ?thesis unfolding up_failed_def by (metis le_SucI order_refl)
  qed
qed

lemma up_inv_saved:
  assumes "up_inv grp sbs status cs" "map fst (cs_Sandboxes status) = pre" "set (sandbox_deps sbs n) \<subseteq> set pre"
    and "round_calls grp n (Some st) ext" "map fst (cs_Sandboxes st) = pre @ [n]"
  shows "up_inv grp sbs st (cs @ ext)"
proof -
  have inv: "deps_started sbs cs" "created_names cs = pre" "\<forall>d \<in> set pre. CallStart d True \<in> set cs"
    "saved_names cs = growing grp pre" using assms(1,2) by (simp_all add: up_inv_def)
  obtain rest where e: "ext = CallCreate n True # rest @ [CallSave grp st True]" "set rest \<subseteq> running_calls n"
    "CallStart n True \<in> set rest" using assms(4) by (auto simp: round_calls_def)
  have deps: "\<forall>d \<in> set (sandbox_deps sbs n). CallStart d True \<in> set cs" using inv(3) assms(3) by auto
  have sv: "set [CallSave grp st True] \<subseteq> {CallSave g st ok | g st ok. True}" by auto
  have "saves (cs @ ext) = saves cs @ [(grp, st)]" using e(1) saves_running [OF e(2)] by simp
  then show ?thesis
    using round_middle [OF inv(1) deps e(2) sv, of True] inv e assms(5)
    by (auto simp: up_inv_def saved_names_def growing_snoc)
qed

lemma traced_exists_pre: "(\<And>cs0. P cs0 \<Longrightarrow> traced (\<lambda>cs. cs = cs0) m Q E) \<Longrightarrow> traced P m Q E"
  unfolding traced_def valid_def by auto

lemma traced_weaken:
  "traced P m Q' E' \<Longrightarrow> (\<And>x cs. Q' x cs \<Longrightarrow> Q x cs) \<Longrightarrow> (\<And>e cs. E' e cs \<Longrightarrow> E e cs) \<Longrightarrow> traced P m Q E"
  unfolding traced_def by (rule valid_weaken)

lemma update_new_key: "k \<notin> fst ` set al \<Longrightarrow> map fst (AList.update k v al) = map fst al @ [k]"
  by (induction al) auto

lemma up_loop_traced:
  "deps_first sbs (pre @ names) \<Longrightarrow> distinct (pre @ names) \<Longrightarrow> map fst (cs_Sandboxes status) = pre \<Longrightarrow>
   traced (up_inv grp sbs status) (up_loop env grp sbs paths names status)
     (\<lambda>st cs. up_inv grp sbs st cs \<and> map fst (cs_Sandboxes st) = pre @ names \<and>
        cs_StartOrder st = cs_StartOrder status \<and> (\<forall>n \<in> set names. n \<in> keys_of sbs))
     (\<lambda>e. up_failed grp sbs (pre @ names))"
proof (induction names arbitrary: pre status)
  case Nil
  then show ?case unfolding up_loop.simps by (intro traced_pre [OF traced_return]) simp
next
  case (Cons n ns)
  have deps: "set (sandbox_deps sbs n) \<subseteq> set pre"
    using Cons.prems(1) [unfolded deps_first_def, rule_format, of "length pre"] by simp
  have new: "n \<notin> fst ` set (cs_Sandboxes status)" using Cons.prems(2,3) by (metis disjoint_iff distinct_append list.set_intros(1) list.set_map)
  have one: "traced (up_inv grp sbs status) (up_one env grp sbs paths n status)
     (\<lambda>st cs. up_inv grp sbs st cs \<and> map fst (cs_Sandboxes st) = pre @ [n] \<and>
        cs_StartOrder st = cs_StartOrder status \<and> n \<in> keys_of sbs)
     (\<lambda>e. up_failed grp sbs (pre @ n # ns))"
  proof (rule traced_exists_pre)
    fix cs0 assume inv: "up_inv grp sbs status cs0"
    show "traced (\<lambda>cs. cs = cs0) (up_one env grp sbs paths n status)
     (\<lambda>st cs. up_inv grp sbs st cs \<and> map fst (cs_Sandboxes st) = pre @ [n] \<and>
        cs_StartOrder st = cs_StartOrder status \<and> n \<in> keys_of sbs)
     (\<lambda>e. up_failed grp sbs (pre @ n # ns))"
    proof (rule traced_weaken [OF up_one_traced])
      fix st cs
      assume "\<exists>ext. cs = cs0 @ ext \<and> round_calls grp n (Some st) ext \<and> map_of sbs n \<noteq> None \<and>
          (\<exists>v. st = status\<lparr>cs_Sandboxes := AList.update n v (cs_Sandboxes status)\<rparr>)"
      then obtain ext v where r: "cs = cs0 @ ext" "round_calls grp n (Some st) ext" "map_of sbs n \<noteq> None"
        "st = status\<lparr>cs_Sandboxes := AList.update n v (cs_Sandboxes status)\<rparr>" by blast
      have names: "map fst (cs_Sandboxes st) = pre @ [n]" using r(4) update_new_key [OF new] Cons.prems(3) by simp
      show "up_inv grp sbs st cs \<and> map fst (cs_Sandboxes st) = pre @ [n] \<and>
          cs_StartOrder st = cs_StartOrder status \<and> n \<in> keys_of sbs"
        using up_inv_saved [OF inv Cons.prems(3) deps r(2) names] names r in_keys_of by auto
    next
      fix e cs
      assume "\<exists>ext. cs = cs0 @ ext \<and> round_calls grp n None ext"
      then show "up_failed grp sbs (pre @ n # ns) cs"
        using up_inv_failed [OF inv Cons.prems(3) deps] by blast
    qed
  qed
  show ?case unfolding up_loop.simps
  proof (rule traced_bind [OF _ one])
    fix st
    show "traced (\<lambda>cs. up_inv grp sbs st cs \<and> map fst (cs_Sandboxes st) = pre @ [n] \<and>
        cs_StartOrder st = cs_StartOrder status \<and> n \<in> keys_of sbs) (up_loop env grp sbs paths ns st)
      (\<lambda>st cs. up_inv grp sbs st cs \<and> map fst (cs_Sandboxes st) = pre @ n # ns \<and>
        cs_StartOrder st = cs_StartOrder status \<and> (\<forall>m \<in> set (n # ns). m \<in> keys_of sbs))
      (\<lambda>e. up_failed grp sbs (pre @ n # ns))"
    proof (cases "map fst (cs_Sandboxes st) = pre @ [n] \<and> cs_StartOrder st = cs_StartOrder status \<and> n \<in> keys_of sbs")
      case True
      have "traced (up_inv grp sbs st) (up_loop env grp sbs paths ns st)
        (\<lambda>st' cs. up_inv grp sbs st' cs \<and> map fst (cs_Sandboxes st') = (pre @ [n]) @ ns \<and>
          cs_StartOrder st' = cs_StartOrder st \<and> (\<forall>m \<in> set ns. m \<in> keys_of sbs))
        (\<lambda>e. up_failed grp sbs ((pre @ [n]) @ ns))"
        by (rule Cons.IH) (use Cons.prems True in auto)
      then show ?thesis using True by (auto intro: traced_pre traced_weaken)
    next
      case False
      then show ?thesis by (auto simp: traced_def valid_def)
    qed
  qed
qed

lemma Up_traced:
  assumes "TopologicalOrder config = Some order" "deps_first (cc_Sandboxes config) order" "distinct order"
  shows "traced (\<lambda>cs. cs = []) (Up env grp config)
     (\<lambda>st cs. up_inv grp (cc_Sandboxes config) st cs \<and> map fst (cs_Sandboxes st) = order \<and> cs_StartOrder st = order \<and>
        set order \<subseteq> keys_of (cc_Sandboxes config))
     (\<lambda>e. up_failed grp (cc_Sandboxes config) order)"
proof -
  let ?sbs = "cc_Sandboxes config" and ?st = "\<lparr>cs_Name = grp, cs_Sandboxes = [], cs_StartOrder = order\<rparr>"
  have loop: "traced (up_inv grp ?sbs ?st) (up_loop env grp ?sbs paths order ?st)
      (\<lambda>st cs. up_inv grp ?sbs st cs \<and> map fst (cs_Sandboxes st) = order \<and> cs_StartOrder st = order \<and>
        set order \<subseteq> keys_of ?sbs)
      (\<lambda>e. up_failed grp ?sbs order)" for paths
    by (rule traced_weaken [OF up_loop_traced [of ?sbs "[]" order]]) (use assms in auto)
  have start: "up_inv grp ?sbs ?st []" "up_failed grp ?sbs order []"
    by (auto simp: up_inv_def up_failed_def deps_started_def created_names_def saved_names_def saves_def growing_def
        intro!: exI [of _ 0])
  have found: "bind (orFail EngOutOfFuel (TopologicalOrder config)) k = k order"
    for k :: "string list \<Rightarrow> ('a, ComposeStatus) cop"
    using assms(1) by (simp add: orFail_def bind_def return_def)
  show ?thesis unfolding Up_def found
    by (rule traced_pre, (rule trace loop)+) (use assms start in simp_all)
qed

text \<open>
  Taking a compose group down: every sandbox is stopped and then destroyed, in the reverse
  of the start order, whatever the calls return.
\<close>

lemma hook_commands_never_fail: "\<exists>s' x. run_hook_commands env n cont cmds s = (s', Inr x)"
proof (induction cmds arbitrary: s)
  case Nil
  then show ?case by (simp add: return_def)
next
  case (Cons cmd cmds)
  then show ?case
    by (auto simp: bind_def seq_def world_call_def modify_def return_def split: prod.split)
qed

lemma traced_runHooks:
  "traced (\<lambda>cs. \<forall>ext. set ext \<subseteq> range (CallExec n) \<longrightarrow> (\<forall>x. Q x (cs @ ext))) (runHooks env n hooks phase cont) Q E"
  unfolding traced_def valid_def
proof (intro allI impI)
  fix s :: "'a ComposeManager"
  assume pre: "\<forall>ext. set ext \<subseteq> range (CallExec n) \<longrightarrow> (\<forall>x. Q x (cpm_calls s @ ext))"
  have "\<exists>s' x. runHooks env n hooks phase cont s = (s', Inr x)"
    unfolding runHooks_def using hook_commands_never_fail by (cases hooks) (auto simp: return_def)
  then obtain s' x where m: "runHooks env n hooks phase cont s = (s', Inr x)" by blast
  have "emits (range (CallExec n)) (runHooks env n hooks phase cont)" by (rule emits_runHooks) simp
  then obtain ext where "cpm_calls s' = cpm_calls s @ ext" "set ext \<subseteq> range (CallExec n)"
    using m unfolding emits_def by (metis fst_conv)
  then show "case runHooks env n hooks phase cont s of (s', Inr x) \<Rightarrow> Q x (cpm_calls s')
      | (s', Inl e) \<Rightarrow> E e (cpm_calls s')"
    using pre m by simp
qed

text \<open>The calls for one sandbox: its stop, and its destruction last.\<close>

definition down_calls :: "string \<Rightarrow> vm_call list \<Rightarrow> bool" where
  "down_calls n ext \<longleftrightarrow> (\<exists>a b ok1 ok2. ext = a @ CallStop n ok1 # b @ [CallDestroy n ok2] \<and>
     set a \<union> set b \<subseteq> running_calls n)"

lemma down_callsI:
  "set a \<subseteq> running_calls n \<Longrightarrow> set b \<subseteq> running_calls n \<Longrightarrow>
   down_calls n (a @ CallStop n ok1 # b @ [CallDestroy n ok2])"
  by (auto simp: down_calls_def)

lemma exec_running: "set ext \<subseteq> range (CallExec n) \<Longrightarrow> set ext \<subseteq> running_calls n"
  by (auto simp: running_calls_def)

lemma down_one_traced:
  "traced (\<lambda>cs. cs = cs0) (down_one env config n errs) (\<lambda>_ cs. \<exists>ext. cs = cs0 @ ext \<and> down_calls n ext) (\<lambda>_ _. False)"
proof -
  have short: "down_calls n (a @ [CallStop n ok1, CallDestroy n ok2])" if "set a \<subseteq> range (CallExec n)" for a ok1 ok2
    using down_callsI [of a n "[]"] exec_running [OF that] by simp
  have failed: "down_calls n (a @ [CallStop n ok1, CallStart n ok3, CallDestroy n ok2])"
    if "set a \<subseteq> range (CallExec n)" for a ok1 ok2 ok3
    using down_callsI [of a n "[CallStart n ok3]"] exec_running [OF that] by (simp add: running_calls_def)
  have long: "down_calls n (a @ CallStop n ok1 # CallStart n ok3 # b @ [CallStop n ok4, CallDestroy n ok2])"
    if "set a \<subseteq> range (CallExec n)" "set b \<subseteq> range (CallExec n)" for a b ok1 ok2 ok3 ok4
    using down_callsI [of a n "CallStart n ok3 # b @ [CallStop n ok4]"] exec_running [OF that(1)] exec_running [OF that(2)]
    by (simp add: running_calls_def)
  show ?thesis unfolding down_one_def
    by (rule traced_pre, (rule trace traced_runHooks)+) (auto intro: short failed long)
qed

definition destroyed_names :: "vm_call list \<Rightarrow> string list" where
  "destroyed_names cs = concat (map (\<lambda>c. case c of CallDestroy n _ \<Rightarrow> [n] | _ \<Rightarrow> []) cs)"

definition stopped_first :: "vm_call list \<Rightarrow> bool" where
  "stopped_first cs \<longleftrightarrow>
     (\<forall>i < length cs. \<forall>n ok. cs ! i = CallDestroy n ok \<longrightarrow> (\<exists>ok'. CallStop n ok' \<in> set (take i cs)))"

lemma destroyed_names_append [simp]: "destroyed_names (xs @ ys) = destroyed_names xs @ destroyed_names ys"
  by (simp add: destroyed_names_def)

lemma stopped_first_snoc:
  "stopped_first (cs @ [c]) \<longleftrightarrow> stopped_first cs \<and>
     (\<forall>n ok. c = CallDestroy n ok \<longrightarrow> (\<exists>ok'. CallStop n ok' \<in> set cs))"
  by (auto simp: stopped_first_def nth_append less_Suc_eq)

lemma stopped_first_running: "stopped_first cs \<Longrightarrow> set rest \<subseteq> running_calls n \<Longrightarrow> stopped_first (cs @ rest)"
proof (induction rest rule: rev_induct)
  case (snoc c rest)
  then have "stopped_first (cs @ rest)" "c \<in> running_calls n" by auto
  then show ?case using stopped_first_snoc [of "cs @ rest" c] by (auto simp: running_calls_def)
qed simp

lemma destroyed_running: "set rest \<subseteq> running_calls n \<Longrightarrow> destroyed_names rest = []"
  by (auto simp: destroyed_names_def running_calls_def split: vm_call.splits)

lemma stopped_first_down:
  assumes "stopped_first cs" "down_calls n ext"
  shows "stopped_first (cs @ ext) \<and> destroyed_names ext = [n]"
proof -
  obtain a b ok1 ok2 where ext: "ext = a @ CallStop n ok1 # b @ [CallDestroy n ok2]"
    "set a \<subseteq> running_calls n" "set b \<subseteq> running_calls n" using assms(2) by (auto simp: down_calls_def)
  have "set (a @ CallStop n ok1 # b) \<subseteq> running_calls n" using ext by (auto simp: running_calls_def)
  then have "stopped_first (cs @ a @ CallStop n ok1 # b)" using stopped_first_running [OF assms(1)] by blast
  then have "stopped_first ((cs @ a @ CallStop n ok1 # b) @ [CallDestroy n ok2])"
    unfolding stopped_first_snoc by auto
  moreover have "destroyed_names ext = [n]"
    using ext destroyed_running [of a n] destroyed_running [of b n] by (simp add: destroyed_names_def)
  ultimately show ?thesis using ext(1) by simp
qed

definition down_inv :: "vm_call list \<Rightarrow> string list \<Rightarrow> vm_call list \<Rightarrow> bool" where
  "down_inv cs0 names cs \<longleftrightarrow> (\<exists>ext. cs = cs0 @ ext \<and> stopped_first ext \<and> destroyed_names ext = names)"

lemma down_loop_traced:
  "traced (down_inv cs0 pre) (down_loop env config names errs) (\<lambda>_. down_inv cs0 (pre @ names)) (\<lambda>_ _. False)"
proof (induction names arbitrary: pre errs)
  case Nil
  show ?case unfolding down_loop.simps by (rule traced_pre [OF traced_return]) simp
next
  case (Cons n ns)
  have one: "traced (down_inv cs0 pre) (down_one env config n errs) (\<lambda>_. down_inv cs0 (pre @ [n])) (\<lambda>_ _. False)"
  proof (rule traced_exists_pre)
    fix cs1 assume "down_inv cs0 pre cs1"
    then obtain ext1 where e: "cs1 = cs0 @ ext1" "stopped_first ext1" "destroyed_names ext1 = pre"
      by (auto simp: down_inv_def)
    show "traced (\<lambda>cs. cs = cs1) (down_one env config n errs) (\<lambda>_. down_inv cs0 (pre @ [n])) (\<lambda>_ _. False)"
    proof (rule traced_weaken [OF down_one_traced])
      fix cs assume "\<exists>ext. cs = cs1 @ ext \<and> down_calls n ext"
      then obtain ext where "cs = cs0 @ (ext1 @ ext)" "down_calls n ext" using e(1) by auto
      then show "down_inv cs0 (pre @ [n]) cs"
        using stopped_first_down [OF e(2)] e(3) unfolding down_inv_def by fastforce
    qed
  qed
  have "traced (down_inv cs0 (pre @ [n])) (down_loop env config ns es) (\<lambda>_. down_inv cs0 (pre @ n # ns)) (\<lambda>_ _. False)" for es
    using Cons.IH [of "pre @ [n]" es] by simp
  then show ?case unfolding down_loop.simps by (rule traced_bind [OF _ one])
qed

lemma down_rest_traced:
  "traced (\<lambda>cs. cs = cs0)
     (bind (down_loop env config order []) (\<lambda>errs.
      bind (world_call (ce_RemoveVolumes env grp)) (\<lambda>removed.
      bind (world_call (ce_DeleteState env grp)) (\<lambda>deleted.
      bind (return (add_error deleted ''failed to delete compose state'' (add_error removed ''failed to remove volumes'' errs))) (\<lambda>errs.
      failIf (errs \<noteq> []) (EngErrors errs))))))
     (\<lambda>_. down_inv cs0 order) (\<lambda>_. down_inv cs0 order)"
proof -
  have loop: "traced (down_inv cs0 []) (down_loop env config order []) (\<lambda>_. down_inv cs0 order) (\<lambda>_. down_inv cs0 order)"
    by (rule traced_weaken [OF down_loop_traced [of cs0 "[]" env config order "[]"]]) auto
  show ?thesis
    by (rule traced_pre, rule traced_bind, (rule trace)+, rule traced_weaken [OF loop])
      (auto simp: down_inv_def stopped_first_def destroyed_names_def)
qed

lemma DownWithConfig_calls:
  assumes "ce_LoadState env grp (if grp \<in> cpm_dns s then ce_StopDNS env grp (cpm_world s) else cpm_world s) = Some status"
    and "DownWithConfig env grp config s = (s', r)"
  shows "down_inv (cpm_calls s) (reverseOrder (cs_StartOrder status) (map fst (cs_Sandboxes status))) (cpm_calls s')"
proof -
  let ?order = "reverseOrder (cs_StartOrder status) (map fst (cs_Sandboxes status))"
  let ?rest = "bind (down_loop env config ?order []) (\<lambda>errs.
      bind (world_call (ce_RemoveVolumes env grp)) (\<lambda>removed.
      bind (world_call (ce_DeleteState env grp)) (\<lambda>deleted.
      bind (return (add_error deleted ''failed to delete compose state'' (add_error removed ''failed to remove volumes'' errs))) (\<lambda>errs.
      failIf (errs \<noteq> []) (EngErrors errs)))))"
  define s1 where "s1 = (if grp \<in> cpm_dns s
      then s\<lparr>cpm_world := ce_StopDNS env grp (cpm_world s), cpm_dns := cpm_dns s - {grp}\<rparr> else s)"
  have "DownWithConfig env grp config s = ?rest s1"
    using assms(1) unfolding DownWithConfig_def
    by (cases "grp \<in> cpm_dns s")
      (simp_all add: s1_def bind_def seq_def reads_def whenOp_def world_effect_def modify_def world_read_def orFail_def return_def)
  then have "?rest s1 = (s', r)" "cpm_calls s1 = cpm_calls s" using assms(2) by (simp_all add: s1_def)
  then show ?thesis using traced_use [OF down_rest_traced, of s1 "cpm_calls s" env config ?order grp s' r]
    by (cases r) auto
qed

end
