(* ===== verification/Manager.thy ===== *)
theory Manager
  imports Models Effects "HOL-Library.AList"
begin

text \<open>
  The sandbox manager (\<^verbatim>\<open>internal/sandbox/manager.go\<close> and \<^verbatim>\<open>hooks.go\<close>) over the state store
  (\<^verbatim>\<open>internal/state/state.go\<close>). The store and the table of running instances are modelled;
  the disk, the hypervisor, network, storage and policy managers, which the source reaches
  through interfaces and files, are the operations of an environment on a world.

  GetVM returns a pointer to the stored record: an assignment to a field of \<^verbatim>\<open>vmState\<close>
  changes the store at once, before and whether or not the following UpdateVM succeeds.
\<close>

subsection \<open>State and environment\<close>

type_synonym store = "string \<Rightarrow> VMState option"

record ('w, 'h) VMManager =
  vmm_state :: store
  vmm_running :: "string \<Rightarrow> 'h option"
  vmm_world :: 'w

record NetPolicy =
  np_Name :: string
  np_Allowed :: "string list"
  np_Denied :: "string list"

record MountShare =
  sh_Tag :: string
  sh_HostPath :: string
  sh_GuestPath :: string
  sh_ReadOnly :: bool

text \<open>The contents of an export archive, and what is read of a checkpoint.\<close>

record Archive =
  xa_Version :: int
  xa_Name :: string
  xa_State :: "VMState option"
  xa_Config :: "string option"
  xa_RootFS :: "bytes option"

record Checkpoint =
  ck_DiskIncluded :: bool
  ck_VMConfig :: "VMConfig option"

record ('w, 'h) ManagerEnv =
  me_Now :: "'w \<Rightarrow> int"
  me_WriteState :: "store \<Rightarrow> 'w \<Rightarrow> 'w \<times> bool"
  me_SaveConfig :: "VMConfig \<Rightarrow> 'w \<Rightarrow> 'w \<times> bool"
  me_ReadConfig :: "string \<Rightarrow> 'w \<Rightarrow> VMConfig option"
  me_RenameFiles :: "string \<Rightarrow> string \<Rightarrow> 'w \<Rightarrow> 'w"
  me_CreateRootFS :: "string \<Rightarrow> VMConfig \<Rightarrow> 'w \<Rightarrow> 'w \<times> string option"
  me_CloneRootFS :: "string \<Rightarrow> string \<Rightarrow> 'w \<Rightarrow> 'w \<times> string option"
  me_DestroyStorage :: "string \<Rightarrow> 'w \<Rightarrow> 'w \<times> bool"
  me_SetupNetwork :: "string \<Rightarrow> VMConfig \<Rightarrow> 'w \<Rightarrow> 'w \<times> string option"
  me_CleanupNetwork :: "string \<Rightarrow> 'w \<Rightarrow> 'w \<times> bool"
  me_SetupForwards :: "string \<Rightarrow> PortForward list \<Rightarrow> 'w \<Rightarrow> 'w \<times> bool"
  me_ActivateForwards :: "string \<Rightarrow> string \<Rightarrow> 'w \<Rightarrow> 'w \<times> bool"
  me_RemoveForwards :: "string \<Rightarrow> 'w \<Rightarrow> 'w \<times> bool"
  me_AddForward :: "string \<Rightarrow> int \<Rightarrow> int \<Rightarrow> string \<Rightarrow> 'w \<Rightarrow> 'w \<times> bool"
  me_RemoveForward :: "string \<Rightarrow> int \<Rightarrow> 'w \<Rightarrow> 'w \<times> bool"
  me_SetPolicy :: "string \<Rightarrow> string list \<Rightarrow> string list \<Rightarrow> 'w \<Rightarrow> 'w \<times> NetPolicy option"
  me_EnsureDefaultPolicy :: "string \<Rightarrow> 'w \<Rightarrow> 'w \<times> NetPolicy option"
  me_SavePolicy :: "NetPolicy \<Rightarrow> 'w \<Rightarrow> 'w \<times> bool"
  me_GetPolicy :: "string \<Rightarrow> 'w \<Rightarrow> NetPolicy option"
  me_GenerateSSHKeys :: "string \<Rightarrow> 'w \<Rightarrow> 'w \<times> (string \<times> string) option"
  me_RemoveSSHKeys :: "string \<Rightarrow> 'w \<Rightarrow> 'w \<times> bool"
  me_Provision :: "string \<Rightarrow> string \<Rightarrow> 'w \<Rightarrow> 'w"
  me_PrepareMounts :: "string \<Rightarrow> MountConfig list \<Rightarrow> 'w \<Rightarrow> 'w \<times> MountShare list option"
  me_SaveMounts :: "string \<Rightarrow> MountShare list \<Rightarrow> 'w \<Rightarrow> 'w \<times> bool"
  me_LoadMounts :: "string \<Rightarrow> 'w \<Rightarrow> MountShare list option"
  me_RemoveMounts :: "string \<Rightarrow> 'w \<Rightarrow> 'w \<times> bool"
  me_Kernel :: "'w \<Rightarrow> 'w \<times> (string \<times> string) option"
  me_HostHook :: "string \<Rightarrow> int \<Rightarrow> 'w \<Rightarrow> 'w \<times> bool"
  me_SSHHook :: "string \<Rightarrow> string \<Rightarrow> string \<Rightarrow> int \<Rightarrow> 'w \<Rightarrow> 'w \<times> bool"
  me_CreateVM :: "VMConfig \<Rightarrow> 'w \<Rightarrow> 'w \<times> 'h option"
  me_SetNetwork :: "'h \<Rightarrow> string \<Rightarrow> string \<Rightarrow> 'w \<Rightarrow> 'w"
  me_AddMounts :: "'h \<Rightarrow> MountShare list \<Rightarrow> 'w \<Rightarrow> 'w"
  me_OpenConsole :: "'h \<Rightarrow> string \<Rightarrow> 'w \<Rightarrow> 'w \<times> bool"
  me_CloseConsole :: "string \<Rightarrow> 'w \<Rightarrow> 'w"
  me_VMStart :: "'h \<Rightarrow> 'w \<Rightarrow> 'w \<times> bool"
  me_VMStop :: "'h \<Rightarrow> 'w \<Rightarrow> 'w \<times> bool"
  me_VMPause :: "'h \<Rightarrow> 'w \<Rightarrow> 'w \<times> bool"
  me_VMUnpause :: "'h \<Rightarrow> 'w \<Rightarrow> 'w \<times> bool"
  me_VMStatus :: "'h \<Rightarrow> 'w \<Rightarrow> VMStatus"
  me_GetIP :: "'h \<Rightarrow> 'w \<Rightarrow> string"
  me_SetIP :: "'h \<Rightarrow> string \<Rightarrow> 'w \<Rightarrow> 'w"
  me_DiscoverIP :: "string \<Rightarrow> 'w \<Rightarrow> 'w \<times> string"
  me_ApplyFirewall :: "string \<Rightarrow> string \<Rightarrow> 'w \<Rightarrow> 'w"
  me_RemoveFirewall :: "string \<Rightarrow> 'w \<Rightarrow> 'w"
  me_ApplyLimits :: "string \<Rightarrow> VMConfig \<Rightarrow> int \<Rightarrow> 'w \<Rightarrow> 'w"
  me_RemoveLimits :: "string \<Rightarrow> 'w \<Rightarrow> 'w"
  me_LogEvent :: "string \<Rightarrow> string \<Rightarrow> 'w \<Rightarrow> 'w"
  me_RecordStart :: "string \<Rightarrow> int \<Rightarrow> int \<Rightarrow> 'w \<Rightarrow> 'w"
  me_RecordStop :: "string \<Rightarrow> 'w \<Rightarrow> 'w"
  me_Sleep :: "int \<Rightarrow> 'w \<Rightarrow> 'w"
  me_ReadArchive :: "string \<Rightarrow> 'w \<Rightarrow> Archive option"
  me_RenameConfig :: "string \<Rightarrow> string \<Rightarrow> string"
  me_WriteConfigFile :: "string \<Rightarrow> string \<Rightarrow> 'w \<Rightarrow> 'w \<times> bool"
  me_WriteRootFS :: "string \<Rightarrow> bytes \<Rightarrow> 'w \<Rightarrow> 'w \<times> string option"
  me_ReadCheckpoint :: "string \<Rightarrow> string \<Rightarrow> 'w \<Rightarrow> Checkpoint option"
  me_CheckpointDisk :: "string \<Rightarrow> string \<Rightarrow> 'w \<Rightarrow> string option"
  me_CopyDisk :: "string \<Rightarrow> string \<Rightarrow> 'w \<Rightarrow> 'w \<times> bool"

datatype manager_error =
    MgrInvalidConfig "config_error list"
  | MgrNotFound string
  | MgrExists string
  | MgrRootFS
  | MgrNetwork
  | MgrForwards
  | MgrPolicy
  | MgrSavePolicy
  | MgrSSHKeys
  | MgrMounts
  | MgrSaveConfig
  | MgrSaveState
  | MgrCloneRunning string
  | MgrAlreadyRunning string
  | MgrKernel
  | MgrPreStartHook string
  | MgrCreateVM
  | MgrStartVM
  | MgrLocked string string
  | MgrNotRunning string VMStatus
  | MgrNotTracked string
  | MgrStopVM
  | MgrCleanupNetwork
  | MgrPauseVM
  | MgrNotPaused string VMStatus
  | MgrUnpauseVM
  | MgrRestartStop manager_error
  | MgrRestartStart manager_error
  | MgrBadRestartPolicy string
  | MgrDestroyStop manager_error
  | MgrStorage
  | MgrRenameRunning string
  | MgrAlreadyLocked string
  | MgrNotLocked string
  | MgrArchive
  | MgrNilState
  | MgrNoIP string
  | MgrCheckpointRunning string
  | MgrCheckpoint
  | MgrBadDevice device_error
  | MgrDeviceAttached string
  | MgrDeviceUnknown string

type_synonym ('w, 'h, 'a) mop = "(('w, 'h) VMManager, manager_error, 'a) op"

text \<open>Calls into the environment.\<close>

definition call :: "('w \<Rightarrow> 'w \<times> 'a) \<Rightarrow> ('w, 'h, 'a) mop" where
  "call f = (\<lambda>s. case f (vmm_world s) of (w, x) \<Rightarrow> (s\<lparr>vmm_world := w\<rparr>, Inr x))"

definition effect :: "('w \<Rightarrow> 'w) \<Rightarrow> ('w, 'h, unit) mop" where
  "effect f = (\<lambda>s. (s\<lparr>vmm_world := f (vmm_world s)\<rparr>, Inr ()))"

definition askWorld :: "('w \<Rightarrow> 'a) \<Rightarrow> ('w, 'h, 'a) mop" where
  "askWorld f = reads (\<lambda>s. f (vmm_world s))"

definition mustCall :: "manager_error \<Rightarrow> ('w \<Rightarrow> 'w \<times> bool) \<Rightarrow> ('w, 'h, unit) mop" where
  "mustCall e f = bind (call f) (\<lambda>ok. failIf (\<not> ok) e)"

definition tryCall :: "('w \<Rightarrow> 'w \<times> bool) \<Rightarrow> ('w, 'h, unit) mop" where
  "tryCall f = bind (call f) (\<lambda>_. return ())"

definition mustGet :: "manager_error \<Rightarrow> ('w \<Rightarrow> 'w \<times> 'a option) \<Rightarrow> ('w, 'h, 'a) mop" where
  "mustGet e f = bind (call f) (orFail e)"

subsection \<open>The state store\<close>

definition save_state :: "('w, 'h) ManagerEnv \<Rightarrow> ('w, 'h, unit) mop" where
  "save_state env = bind (reads vmm_state) (\<lambda>st. mustCall MgrSaveState (me_WriteState env st))"

definition put_vm :: "string \<Rightarrow> VMState \<Rightarrow> ('w, 'h, unit) mop" where
  "put_vm name vm = modify (\<lambda>s. s\<lparr>vmm_state := (vmm_state s)(name \<mapsto> vm)\<rparr>)"

text \<open>Assignments through the pointer that GetVM returned.\<close>

definition set_vm :: "string \<Rightarrow> (VMState \<Rightarrow> VMState) \<Rightarrow> ('w, 'h, unit) mop" where
  "set_vm name f = modify (\<lambda>s. s\<lparr>vmm_state := (vmm_state s)(name := map_option f (vmm_state s name))\<rparr>)"

definition StoreVM :: "('w, 'h) ManagerEnv \<Rightarrow> VMState \<Rightarrow> ('w, 'h, unit) mop" where
  "StoreVM env vm =
     bind (askWorld (me_Now env)) (\<lambda>now.
     seq (put_vm (vs_Name vm) (vm\<lparr>vs_UpdatedAt := now\<rparr>))
     (save_state env))"

definition GetVM :: "string \<Rightarrow> ('w, 'h, VMState) mop" where
  "GetVM name = bind (reads (\<lambda>s. vmm_state s name)) (orFail (MgrNotFound name))"

definition DeleteVM :: "('w, 'h) ManagerEnv \<Rightarrow> string \<Rightarrow> ('w, 'h, unit) mop" where
  "DeleteVM env name =
     bind (GetVM name) (\<lambda>_.
     seq (modify (\<lambda>s. s\<lparr>vmm_state := (vmm_state s)(name := None)\<rparr>))
     (save_state env))"

definition state_RenameVM :: "('w, 'h) ManagerEnv \<Rightarrow> string \<Rightarrow> string \<Rightarrow> ('w, 'h, unit) mop" where
  "state_RenameVM env oldName newName =
     bind (GetVM oldName) (\<lambda>vm.
     bind (reads (\<lambda>s. vmm_state s newName)) (\<lambda>other.
     seq (failIf (other \<noteq> None) (MgrExists newName))
     (bind (askWorld (me_Now env)) (\<lambda>now.
     seq (modify (\<lambda>s. s\<lparr>vmm_state := (vmm_state s)(oldName := None)\<rparr>))
     (seq (put_vm newName (vm\<lparr>vs_Name := newName, vs_UpdatedAt := now\<rparr>))
     (save_state env))))))"

definition UpdateVM :: "('w, 'h) ManagerEnv \<Rightarrow> string \<Rightarrow> (VMState \<Rightarrow> VMState) \<Rightarrow> ('w, 'h, unit) mop" where
  "UpdateVM env name f =
     bind (GetVM name) (\<lambda>_.
     bind (askWorld (me_Now env)) (\<lambda>now.
     seq (set_vm name (\<lambda>vm. (f vm)\<lparr>vs_UpdatedAt := now\<rparr>))
     (save_state env)))"

subsection \<open>Configuration files and locks\<close>

definition loadConfigFromState :: "('w, 'h) ManagerEnv \<Rightarrow> VMState \<Rightarrow> ('w, 'h, VMConfig) mop" where
  "loadConfigFromState env st =
     bind (askWorld (me_ReadConfig env (vs_Name st))) (\<lambda>c.
     return (case c of
        Some cfg \<Rightarrow> cfg
      | None \<Rightarrow> zero_config\<lparr>cf_Name := vs_Name st, cf_From := vs_ImageRef st,
          cf_VCPUs := (if vs_VCPUs st < 1 then 2 else vs_VCPUs st),
          cf_MemoryMB := (if vs_MemoryMB st < 1 then 1024 else vs_MemoryMB st),
          cf_DiskGB := vs_DiskGB st, cf_RootFS := vs_RootFSPath st\<rparr>))"

definition LoadConfig :: "('w, 'h) ManagerEnv \<Rightarrow> string \<Rightarrow> ('w, 'h, VMConfig) mop" where
  "LoadConfig env name = bind (GetVM name) (loadConfigFromState env)"

definition saveConfig :: "('w, 'h) ManagerEnv \<Rightarrow> VMConfig \<Rightarrow> ('w, 'h, unit) mop" where
  "saveConfig env cfg = mustCall MgrSaveConfig (me_SaveConfig env cfg)"

definition checkLock :: "string \<Rightarrow> ('w, 'h, unit) mop" where
  "checkLock name =
     bind (reads (\<lambda>s. vmm_state s name)) (\<lambda>v.
     case v of
       None \<Rightarrow> return ()
     | Some vm \<Rightarrow> failIf (vs_Locked vm) (MgrLocked name (vs_LockedReason vm)))"

definition logEvent :: "('w, 'h) ManagerEnv \<Rightarrow> string \<Rightarrow> string \<Rightarrow> ('w, 'h, unit) mop" where
  "logEvent env ev name = effect (me_LogEvent env ev name)"

subsection \<open>Lifecycle hooks\<close>

datatype HookPhase = HookPreStart | HookPostStart | HookPreStop | HookPostStop

definition hooksForPhase :: "VMHooks \<Rightarrow> HookPhase \<Rightarrow> HookAction list" where
  "hooksForPhase hooks phase =
     (case phase of
        HookPreStart \<Rightarrow> vh_PreStart hooks
      | HookPostStart \<Rightarrow> vh_PostStart hooks
      | HookPreStop \<Rightarrow> vh_PreStop hooks
      | HookPostStop \<Rightarrow> vh_PostStop hooks)"

definition defaultHookTimeout :: int where "defaultHookTimeout = 30"

definition executeGuestHook :: "('w, 'h) ManagerEnv \<Rightarrow> string \<Rightarrow> string \<Rightarrow> int \<Rightarrow> ('w, 'h, bool) mop" where
  "executeGuestHook env name command timeout =
     bind (reads (\<lambda>s. vmm_state s name)) (\<lambda>v.
     case v of
       None \<Rightarrow> return False
     | Some st \<Rightarrow>
         if vs_Status st \<noteq> VMStatusRunning \<or> vs_IP st = [] then return False
         else call (me_SSHHook env (vs_IP st) (vs_SSHKeyPath st) command timeout))"

definition executeHook :: "('w, 'h) ManagerEnv \<Rightarrow> string \<Rightarrow> string \<Rightarrow> string \<Rightarrow> int \<Rightarrow> ('w, 'h, bool) mop" where
  "executeHook env name command whr timeout =
     (if whr = ''guest'' then executeGuestHook env name command timeout
      else call (me_HostHook env command timeout))"

text \<open>RunHooks: the result is whether no hook failed with \<^verbatim>\<open>on_failure=abort\<close>.\<close>

fun run_actions :: "('w, 'h) ManagerEnv \<Rightarrow> string \<Rightarrow> HookAction list \<Rightarrow> ('w, 'h, bool) mop" where
  "run_actions env name [] = return True"
| "run_actions env name (a # as) =
     seq (logEvent env ''hook.run'' name)
     (bind (executeHook env name (ha_Command a) (if ha_Where a = [] then ''host'' else ha_Where a)
        (if ha_TimeoutSec a \<le> 0 then defaultHookTimeout else ha_TimeoutSec a)) (\<lambda>ok.
     if ok then run_actions env name as
     else seq (logEvent env ''hook.error'' name)
       (if ha_OnFailure a = ''abort'' then return False else run_actions env name as)))"

definition RunHooks :: "('w, 'h) ManagerEnv \<Rightarrow> string \<Rightarrow> VMHooks option \<Rightarrow> HookPhase \<Rightarrow> ('w, 'h, bool) mop" where
  "RunHooks env name hooks phase =
     (case hooks of None \<Rightarrow> return True | Some h \<Rightarrow> run_actions env name (hooksForPhase h phase))"

subsection \<open>Creation\<close>

definition setup_policy :: "('w, 'h) ManagerEnv \<Rightarrow> string \<Rightarrow> NetworkConfig \<Rightarrow> ('w, 'h, unit) mop" where
  "setup_policy env name nw =
     (if nw_Allow nw \<noteq> [] \<or> nw_Deny nw \<noteq> []
      then bind (mustGet MgrPolicy (me_SetPolicy env name (nw_Allow nw) (nw_Deny nw))) (\<lambda>p.
        mustCall MgrSavePolicy (me_SavePolicy env p))
      else bind (mustGet MgrPolicy (me_EnsureDefaultPolicy env name)) (\<lambda>p.
        mustCall MgrSavePolicy (me_SavePolicy env p)))"

text \<open>SSH keys when they are enabled; the provisioning of the root file system only warns.\<close>

definition setup_access :: "('w, 'h) ManagerEnv \<Rightarrow> string \<Rightarrow> VMConfig \<Rightarrow> ('w, 'h, string) mop" where
  "setup_access env name cfg =
     (if cf_EnableSSH cfg
      then bind (mustGet MgrSSHKeys (me_GenerateSSHKeys env name)) (\<lambda>(priv, pub).
        seq (whenOp (cf_RootFS cfg \<noteq> []) (effect (me_Provision env (cf_RootFS cfg) pub)))
        (return priv))
      else
        seq (whenOp (cf_RootFS cfg \<noteq> []) (effect (me_Provision env (cf_RootFS cfg) [])))
        (return []))"

definition setup_mounts :: "('w, 'h) ManagerEnv \<Rightarrow> string \<Rightarrow> VMConfig \<Rightarrow> ('w, 'h, unit) mop" where
  "setup_mounts env name cfg =
     whenOp (cf_Mounts cfg \<noteq> [])
       (bind (mustGet MgrMounts (me_PrepareMounts env name (cf_Mounts cfg))) (\<lambda>shares.
        mustCall MgrMounts (me_SaveMounts env name shares)))"

definition new_vm_state :: "string \<Rightarrow> VMConfig \<Rightarrow> string \<Rightarrow> string \<Rightarrow> string \<Rightarrow> string \<Rightarrow> int \<Rightarrow> VMState" where
  "new_vm_state name cfg rootfs tap key img now =
     zero_state\<lparr>vs_Name := name, vs_Status := VMStatusCreated, vs_RootFSPath := rootfs, vs_TAPDevice := tap,
       vs_SSHKeyPath := key, vs_ImageRef := img, vs_VCPUs := cf_VCPUs cfg, vs_MemoryMB := cf_MemoryMB cfg,
       vs_DiskGB := cf_DiskGB cfg, vs_CreatedAt := now, vs_UpdatedAt := now\<rparr>"

definition Create :: "('w, 'h) ManagerEnv \<Rightarrow> string \<Rightarrow> VMConfig \<Rightarrow> ('w, 'h, unit) mop" where
  "Create env name cfg =
     seq (failIf (ValidateVMConfig cfg \<noteq> []) (MgrInvalidConfig (ValidateVMConfig cfg)))
     (bind (reads (\<lambda>s. vmm_state s name)) (\<lambda>old.
     seq (failIf (old \<noteq> None) (MgrExists name))
     (bind (mustGet MgrRootFS (me_CreateRootFS env name cfg)) (\<lambda>rootfs.
     bind (mustGet MgrNetwork (me_SetupNetwork env name cfg)) (\<lambda>tap.
     seq (whenOp (nw_Ports (cf_Network cfg) \<noteq> [])
        (mustCall MgrForwards (me_SetupForwards env name (nw_Ports (cf_Network cfg)))))
     (seq (setup_policy env name (cf_Network cfg))
     (bind (setup_access env name cfg) (\<lambda>key.
     seq (setup_mounts env name cfg)
     (seq (saveConfig env cfg)
     (bind (askWorld (me_Now env)) (\<lambda>now.
     seq (StoreVM env ((new_vm_state name cfg rootfs tap key (cf_From cfg) now)\<lparr>vs_Labels := cf_Labels cfg\<rparr>))
     (logEvent env ''create'' name))))))))))))"

text \<open>Clone undoes the network and the storage on some of its error paths only.\<close>

definition clone_policy :: "('w, 'h) ManagerEnv \<Rightarrow> string \<Rightarrow> string \<Rightarrow> ('w, 'h, unit) mop" where
  "clone_policy env src dst =
     bind (askWorld (me_GetPolicy env src)) (\<lambda>p.
     bind (call (case p of
         Some q \<Rightarrow> me_SetPolicy env dst (np_Allowed q) (np_Denied q)
       | None \<Rightarrow> me_EnsureDefaultPolicy env dst)) (\<lambda>r.
     case r of None \<Rightarrow> return () | Some q \<Rightarrow> tryCall (me_SavePolicy env q)))"

definition undo_clone :: "('w, 'h) ManagerEnv \<Rightarrow> string \<Rightarrow> manager_error \<Rightarrow> ('w, 'h, unit) mop" where
  "undo_clone env dst e =
     seq (tryCall (me_CleanupNetwork env dst)) (seq (tryCall (me_DestroyStorage env dst)) (throw e))"

definition Clone :: "('w, 'h) ManagerEnv \<Rightarrow> string \<Rightarrow> string \<Rightarrow> ('w, 'h, unit) mop" where
  "Clone env src dst =
     bind (GetVM src) (\<lambda>srcState.
     seq (failIf (vs_Status srcState = VMStatusRunning) (MgrCloneRunning src))
     (bind (reads (\<lambda>s. vmm_state s dst)) (\<lambda>old.
     seq (failIf (old \<noteq> None) (MgrExists dst))
     (bind (LoadConfig env src) (\<lambda>srcConfig.
     bind (mustGet MgrRootFS (me_CloneRootFS env src dst)) (\<lambda>rootfs.
     bind (return (srcConfig\<lparr>cf_Name := dst, cf_RootFS := rootfs\<rparr>)) (\<lambda>cfg.
     bind (call (me_SetupNetwork env dst cfg)) (\<lambda>tapo.
     case tapo of
       None \<Rightarrow> seq (tryCall (me_DestroyStorage env dst)) (throw MgrNetwork)
     | Some tap \<Rightarrow>
         bind (if nw_Ports (cf_Network cfg) \<noteq> [] then call (me_SetupForwards env dst (nw_Ports (cf_Network cfg)))
               else return True) (\<lambda>ok.
         if \<not> ok then undo_clone env dst MgrForwards
         else seq (clone_policy env src dst)
           (bind (if cf_EnableSSH cfg then call (me_GenerateSSHKeys env dst) else return (Some ([], []))) (\<lambda>keys.
            case keys of
              None \<Rightarrow> undo_clone env dst MgrSSHKeys
            | Some (key, _) \<Rightarrow>
                seq (whenOp (cf_Mounts cfg \<noteq> [])
                  (bind (call (me_PrepareMounts env dst (cf_Mounts cfg))) (\<lambda>sh.
                   case sh of None \<Rightarrow> return () | Some shares \<Rightarrow> tryCall (me_SaveMounts env dst shares))))
                (seq (saveConfig env cfg)
                (bind (askWorld (me_Now env)) (\<lambda>now.
                seq (StoreVM env (new_vm_state dst cfg rootfs tap key (vs_ImageRef srcState) now))
                (logEvent env ''clone'' dst)))))))))))))))"

subsection \<open>Start and stop\<close>

definition track :: "string \<Rightarrow> 'h option \<Rightarrow> ('w, 'h, unit) mop" where
  "track name h = modify (\<lambda>s. s\<lparr>vmm_running := (vmm_running s)(name := h)\<rparr>)"

definition resolve_kernel :: "('w, 'h) ManagerEnv \<Rightarrow> VMConfig \<Rightarrow> ('w, 'h, VMConfig) mop" where
  "resolve_kernel env cfg =
     (if cf_Kernel cfg = [] \<or> cf_Kernel cfg = ''default''
      then bind (mustGet MgrKernel (me_Kernel env)) (\<lambda>(path, initrd).
        return (cfg\<lparr>cf_Kernel := path,
          cf_Initrd := (if cf_Initrd cfg = [] \<and> initrd \<noteq> [] then initrd else cf_Initrd cfg)\<rparr>))
      else return cfg)"

text \<open>The address of the started instance, discovered when the backend reports none.\<close>

definition find_ip :: "('w, 'h) ManagerEnv \<Rightarrow> string \<Rightarrow> 'h \<Rightarrow> ('w, 'h, string) mop" where
  "find_ip env name h =
     bind (askWorld (me_GetIP env h)) (\<lambda>ip.
     if ip \<noteq> [] then return ip
     else bind (call (me_DiscoverIP env name)) (\<lambda>found.
       if found \<noteq> [] then seq (effect (me_SetIP env h found)) (return found) else return []))"

definition Start :: "('w, 'h) ManagerEnv \<Rightarrow> string \<Rightarrow> ('w, 'h, unit) mop" where
  "Start env name =
     bind (GetVM name) (\<lambda>st.
     seq (failIf (vs_Status st = VMStatusRunning) (MgrAlreadyRunning name))
     (bind (loadConfigFromState env st) (\<lambda>cfg0.
     bind (resolve_kernel env cfg0) (\<lambda>cfg.
     bind (RunHooks env name (cf_Hooks cfg) HookPreStart) (\<lambda>hooks_ok.
     seq (failIf (\<not> hooks_ok) (MgrPreStartHook name))
     (bind (mustGet MgrCreateVM (me_CreateVM env cfg)) (\<lambda>h.
     seq (effect (me_SetNetwork env h (vs_TAPDevice st) (vs_IP st)))
     (bind (askWorld (me_LoadMounts env name)) (\<lambda>shares.
     seq (case shares of None \<Rightarrow> return () | Some sh \<Rightarrow> whenOp (sh \<noteq> []) (effect (me_AddMounts env h sh)))
     (bind (call (me_OpenConsole env h name)) (\<lambda>logger.
     bind (call (me_VMStart env h)) (\<lambda>started.
     seq (whenOp (\<not> started \<and> logger) (effect (me_CloseConsole env name)))
     (seq (failIf (\<not> started) MgrStartVM)
     (seq (track name (Some h))
     (seq (whenOp (cf_Resources cfg \<noteq> None) (effect (me_ApplyLimits env name cfg (vs_PID st))))
     (seq (set_vm name (\<lambda>vm. vm\<lparr>vs_Status := VMStatusRunning\<rparr>))
     (bind (find_ip env name h) (\<lambda>ip.
     bind (askWorld (me_Now env)) (\<lambda>now.
     seq (set_vm name (\<lambda>vm. vm\<lparr>vs_IP := ip, vs_UpdatedAt := now\<rparr>))
     (seq (whenOp (ip \<noteq> []) (effect (me_ApplyFirewall env name ip)))
     (seq (whenOp (ip \<noteq> []) (tryCall (me_ActivateForwards env name ip)))
     (bind (attempt (UpdateVM env name (\<lambda>vm. vm\<lparr>vs_Status := VMStatusRunning, vs_IP := ip\<rparr>))) (\<lambda>r.
     case r of
       Inl e \<Rightarrow> seq (tryCall (me_VMStop env h)) (seq (track name None) (throw MgrSaveState))
     | Inr _ \<Rightarrow>
         seq (logEvent env ''start'' name)
         (seq (effect (me_RecordStart env name (cf_VCPUs cfg) (cf_MemoryMB cfg)))
         (bind (RunHooks env name (cf_Hooks cfg) HookPostStart) (\<lambda>_. return ()))))))))))))))))))))))))))"

definition Stop :: "('w, 'h) ManagerEnv \<Rightarrow> string \<Rightarrow> ('w, 'h, unit) mop" where
  "Stop env name =
     seq (checkLock name)
     (bind (GetVM name) (\<lambda>st.
     seq (failIf (vs_Status st \<noteq> VMStatusRunning) (MgrNotRunning name (vs_Status st)))
     (bind (loadConfigFromState env st) (\<lambda>cfg.
     bind (RunHooks env name (cf_Hooks cfg) HookPreStop) (\<lambda>_.
     bind (bind (reads (\<lambda>s. vmm_running s name)) (orFail (MgrNotTracked name))) (\<lambda>h.
     seq (mustCall MgrStopVM (me_VMStop env h))
     (seq (effect (me_CloseConsole env name))
     (seq (effect (me_RemoveFirewall env name))
     (seq (tryCall (me_RemoveForwards env name))
     (seq (effect (me_RemoveLimits env name))
     (seq (whenOp (vs_TAPDevice st \<noteq> []) (mustCall MgrCleanupNetwork (me_CleanupNetwork env name)))
     (seq (track name None)
     (bind (askWorld (me_Now env)) (\<lambda>now.
     seq (set_vm name (\<lambda>vm. vm\<lparr>vs_Status := VMStatusStopped, vs_IP := [], vs_UpdatedAt := now\<rparr>))
     (seq (UpdateVM env name (\<lambda>vm. vm\<lparr>vs_Status := VMStatusStopped, vs_IP := []\<rparr>))
     (seq (logEvent env ''stop'' name)
     (seq (effect (me_RecordStop env name))
     (bind (RunHooks env name (cf_Hooks cfg) HookPostStop) (\<lambda>_. return ())))))))))))))))))))"

definition Pause :: "('w, 'h) ManagerEnv \<Rightarrow> string \<Rightarrow> ('w, 'h, unit) mop" where
  "Pause env name =
     bind (GetVM name) (\<lambda>st.
     seq (failIf (vs_Status st \<noteq> VMStatusRunning \<and> vs_Status st \<noteq> VMStatusPaused) (MgrNotRunning name (vs_Status st)))
     (bind (bind (reads (\<lambda>s. vmm_running s name)) (orFail (MgrNotTracked name))) (\<lambda>h.
     seq (mustCall MgrPauseVM (me_VMPause env h))
     (bind (askWorld (me_Now env)) (\<lambda>now.
     seq (set_vm name (\<lambda>vm. vm\<lparr>vs_Status := VMStatusPaused, vs_UpdatedAt := now\<rparr>))
     (bind (attempt (UpdateVM env name (\<lambda>vm. vm\<lparr>vs_Status := VMStatusPaused\<rparr>))) (\<lambda>r.
     case r of
       Inl e \<Rightarrow> seq (tryCall (me_VMUnpause env h)) (throw MgrSaveState)
     | Inr _ \<Rightarrow> logEvent env ''pause'' name)))))))"

definition Unpause :: "('w, 'h) ManagerEnv \<Rightarrow> string \<Rightarrow> ('w, 'h, unit) mop" where
  "Unpause env name =
     bind (GetVM name) (\<lambda>st.
     seq (failIf (vs_Status st \<noteq> VMStatusPaused) (MgrNotPaused name (vs_Status st)))
     (bind (bind (reads (\<lambda>s. vmm_running s name)) (orFail (MgrNotTracked name))) (\<lambda>h.
     seq (mustCall MgrUnpauseVM (me_VMUnpause env h))
     (bind (askWorld (me_Now env)) (\<lambda>now.
     seq (set_vm name (\<lambda>vm. vm\<lparr>vs_Status := VMStatusRunning, vs_UpdatedAt := now\<rparr>))
     (seq (UpdateVM env name (\<lambda>vm. vm\<lparr>vs_Status := VMStatusRunning\<rparr>))
     (logEvent env ''unpause'' name)))))))"

definition Restart :: "('w, 'h) ManagerEnv \<Rightarrow> string \<Rightarrow> int \<Rightarrow> ('w, 'h, unit) mop" where
  "Restart env name timeout =
     bind (GetVM name) (\<lambda>st.
     seq (failIf (vs_Status st \<noteq> VMStatusRunning) (MgrNotRunning name (vs_Status st)))
     (seq (wrapError MgrRestartStop (Stop env name))
     (seq (whenOp (0 < timeout) (effect (me_Sleep env timeout)))
     (seq (wrapError MgrRestartStart (Start env name))
     (seq (UpdateVM env name (\<lambda>vm. vm\<lparr>vs_RestartCount := vs_RestartCount vm + 1\<rparr>))
     (logEvent env ''restart'' name))))))"

subsection \<open>Removal and renaming\<close>

definition Destroy :: "('w, 'h) ManagerEnv \<Rightarrow> string \<Rightarrow> ('w, 'h, unit) mop" where
  "Destroy env name =
     seq (checkLock name)
     (bind (GetVM name) (\<lambda>st.
     bind (if vs_Status st = VMStatusRunning
           then bind (attempt (Stop env name)) (\<lambda>r.
             case r of
               Inr _ \<Rightarrow> return True
             | Inl e \<Rightarrow> bind (reads (\<lambda>s. vmm_running s name)) (\<lambda>h.
                 seq (failIf (h \<noteq> None) (MgrDestroyStop e)) (return False)))
           else return False) (\<lambda>wasStopped.
     seq (whenOp (\<not> wasStopped) (tryCall (me_RemoveForwards env name)))
     (seq (whenOp (\<not> wasStopped \<and> vs_TAPDevice st \<noteq> []) (mustCall MgrCleanupNetwork (me_CleanupNetwork env name)))
     (seq (tryCall (me_RemoveSSHKeys env name))
     (seq (tryCall (me_RemoveMounts env name))
     (seq (mustCall MgrStorage (me_DestroyStorage env name))
     (seq (DeleteVM env name)
     (logEvent env ''destroy'' name)))))))))"

definition RenameVM :: "('w, 'h) ManagerEnv \<Rightarrow> string \<Rightarrow> string \<Rightarrow> ('w, 'h, unit) mop" where
  "RenameVM env oldName newName =
     bind (GetVM oldName) (\<lambda>st.
     seq (failIf (vs_Status st = VMStatusRunning) (MgrRenameRunning oldName))
     (bind (reads (\<lambda>s. vmm_state s newName)) (\<lambda>other.
     seq (failIf (other \<noteq> None) (MgrExists newName))
     (seq (effect (me_RenameFiles env oldName newName))
     (seq (state_RenameVM env oldName newName)
     (logEvent env ''rename'' newName))))))"

subsection \<open>Queries and attributes\<close>

definition Status :: "('w, 'h) ManagerEnv \<Rightarrow> string \<Rightarrow> ('w, 'h, VMState) mop" where
  "Status env name =
     bind (GetVM name) (\<lambda>st.
     bind (reads (\<lambda>s. vmm_running s name)) (\<lambda>ho.
     seq (case ho of
            None \<Rightarrow> return ()
          | Some h \<Rightarrow>
              whenOp (vs_Status st = VMStatusRunning)
                (bind (askWorld (me_VMStatus env h)) (\<lambda>status.
                 if status = VMStatusStopped
                 then bind (askWorld (me_Now env)) (\<lambda>now.
                   seq (set_vm name (\<lambda>vm. vm\<lparr>vs_Status := VMStatusStopped, vs_IP := [], vs_UpdatedAt := now\<rparr>))
                   (seq (track name None)
                   (bind (attempt (UpdateVM env name (\<lambda>vm. vm\<lparr>vs_Status := VMStatusStopped, vs_IP := []\<rparr>)))
                      (\<lambda>_. return ()))))
                 else bind (askWorld (me_GetIP env h)) (\<lambda>ip.
                   set_vm name (\<lambda>vm. vm\<lparr>vs_IP := ip\<rparr>)))))
     (GetVM name)))"

definition SetRestartPolicy :: "('w, 'h) ManagerEnv \<Rightarrow> string \<Rightarrow> string \<Rightarrow> ('w, 'h, unit) mop" where
  "SetRestartPolicy env name policy =
     bind (GetVM name) (\<lambda>_.
     seq (failIf (policy \<notin> {''never'', ''always'', ''on-failure''}) (MgrBadRestartPolicy policy))
     (UpdateVM env name (\<lambda>vm. vm\<lparr>vs_RestartPolicy := policy\<rparr>)))"

definition UpdateHealth :: "('w, 'h) ManagerEnv \<Rightarrow> string \<Rightarrow> HealthState \<Rightarrow> ('w, 'h, unit) mop" where
  "UpdateHealth env name health = UpdateVM env name (\<lambda>vm. vm\<lparr>vs_Health := Some health\<rparr>)"

definition UpdateConfig :: "('w, 'h) ManagerEnv \<Rightarrow> string \<Rightarrow> VMConfig \<Rightarrow> ('w, 'h, unit) mop" where
  "UpdateConfig env name cfg =
     seq (checkLock name)
     (seq (saveConfig env (cfg\<lparr>cf_Name := name\<rparr>))
     (UpdateVM env name (\<lambda>vm. vm\<lparr>vs_VCPUs := cf_VCPUs cfg, vs_MemoryMB := cf_MemoryMB cfg,
        vs_DiskGB := cf_DiskGB cfg\<rparr>)))"

definition set_labels :: "(string \<times> string) list \<Rightarrow> (string \<times> string) list \<Rightarrow> (string \<times> string) list" where
  "set_labels new old = fold (\<lambda>(k, v). AList.update k v) new old"

definition remove_labels :: "string list \<Rightarrow> (string \<times> string) list \<Rightarrow> (string \<times> string) list" where
  "remove_labels ks old = filter (\<lambda>(k, _). k \<notin> set ks) old"

text \<open>The labels of the saved configuration follow, and a failure to save them is ignored.\<close>

definition change_labels ::
  "('w, 'h) ManagerEnv \<Rightarrow> string \<Rightarrow> ((string \<times> string) list \<Rightarrow> (string \<times> string) list) \<Rightarrow> ('w, 'h, unit) mop" where
  "change_labels env name f =
     seq (UpdateVM env name (\<lambda>vm. vm\<lparr>vs_Labels := f (vs_Labels vm)\<rparr>))
     (bind (attempt (LoadConfig env name)) (\<lambda>r.
     case r of
       Inl e \<Rightarrow> return ()
     | Inr cfg \<Rightarrow> bind (attempt (saveConfig env (cfg\<lparr>cf_Labels := f (cf_Labels cfg)\<rparr>))) (\<lambda>_. return ())))"

definition SetLabels :: "('w, 'h) ManagerEnv \<Rightarrow> string \<Rightarrow> (string \<times> string) list \<Rightarrow> ('w, 'h, unit) mop" where
  "SetLabels env name labels = change_labels env name (set_labels labels)"

definition RemoveLabels :: "('w, 'h) ManagerEnv \<Rightarrow> string \<Rightarrow> string list \<Rightarrow> ('w, 'h, unit) mop" where
  "RemoveLabels env name keys = change_labels env name (remove_labels keys)"

definition GetLabels :: "string \<Rightarrow> ('w, 'h, (string \<times> string) list) mop" where
  "GetLabels name = bind (GetVM name) (\<lambda>st. return (vs_Labels st))"

definition Lock :: "('w, 'h) ManagerEnv \<Rightarrow> string \<Rightarrow> string \<Rightarrow> ('w, 'h, unit) mop" where
  "Lock env name reason =
     bind (GetVM name) (\<lambda>st.
     seq (failIf (vs_Locked st) (MgrAlreadyLocked name))
     (bind (askWorld (me_Now env)) (\<lambda>now.
     seq (UpdateVM env name (\<lambda>vm. vm\<lparr>vs_Locked := True, vs_LockedReason := reason, vs_LockedAt := now\<rparr>))
     (logEvent env ''lock'' name))))"

definition Unlock :: "('w, 'h) ManagerEnv \<Rightarrow> string \<Rightarrow> ('w, 'h, unit) mop" where
  "Unlock env name =
     bind (GetVM name) (\<lambda>st.
     seq (failIf (\<not> vs_Locked st) (MgrNotLocked name))
     (seq (UpdateVM env name (\<lambda>vm. vm\<lparr>vs_Locked := False, vs_LockedReason := [], vs_LockedAt := 0\<rparr>))
     (logEvent env ''unlock'' name)))"

definition AddPortForward :: "('w, 'h) ManagerEnv \<Rightarrow> string \<Rightarrow> int \<Rightarrow> int \<Rightarrow> ('w, 'h, unit) mop" where
  "AddPortForward env name hostPort guestPort =
     bind (GetVM name) (\<lambda>st.
     seq (failIf (vs_Status st \<noteq> VMStatusRunning) (MgrNotRunning name (vs_Status st)))
     (mustCall MgrForwards (me_AddForward env name hostPort guestPort (vs_IP st))))"

definition RemovePortForward :: "('w, 'h) ManagerEnv \<Rightarrow> string \<Rightarrow> int \<Rightarrow> ('w, 'h, unit) mop" where
  "RemovePortForward env name hostPort =
     bind (GetVM name) (\<lambda>_. mustCall MgrForwards (me_RemoveForward env name hostPort))"

subsection \<open>Import, checkpoints, addresses and devices\<close>

text \<open>
  The state of the archive is a pointer that the metadata may leave nil; the assignment
  through it then panics, after the files have been written.
\<close>

definition imported_state :: "string \<Rightarrow> string option \<Rightarrow> int \<Rightarrow> VMState \<Rightarrow> VMState" where
  "imported_state name rootfs now vm =
     vm\<lparr>vs_Name := name, vs_Status := VMStatusStopped, vs_PID := 0, vs_IP := [], vs_UpdatedAt := now,
        vs_RootFSPath := (case rootfs of Some p \<Rightarrow> if p \<noteq> [] then p else vs_RootFSPath vm | None \<Rightarrow> vs_RootFSPath vm)\<rparr>"

definition Import :: "('w, 'h) ManagerEnv \<Rightarrow> string \<Rightarrow> string \<Rightarrow> ('w, 'h, unit) mop" where
  "Import env archivePath newName =
     bind (bind (askWorld (me_ReadArchive env archivePath)) (orFail MgrArchive)) (\<lambda>archive.
     seq (failIf (xa_Version archive = 0) MgrArchive)
     (bind (return (if newName \<noteq> [] then newName else xa_Name archive)) (\<lambda>name.
     bind (reads (\<lambda>s. vmm_state s name)) (\<lambda>old.
     seq (failIf (old \<noteq> None) (MgrExists name))
     (seq (case xa_Config archive of
             None \<Rightarrow> return ()
           | Some data \<Rightarrow> mustCall MgrSaveConfig
               (me_WriteConfigFile env name (if newName \<noteq> [] then me_RenameConfig env data newName else data)))
     (bind (case xa_RootFS archive of
              None \<Rightarrow> return None
            | Some data \<Rightarrow> bind (mustGet MgrRootFS (me_WriteRootFS env name data)) (\<lambda>p. return (Some p))) (\<lambda>rootfs.
     bind (orFail MgrNilState (xa_State archive)) (\<lambda>vm.
     bind (askWorld (me_Now env)) (\<lambda>now. StoreVM env (imported_state name rootfs now vm))))))))))"

definition restore_disk :: "('w, 'h) ManagerEnv \<Rightarrow> string \<Rightarrow> string \<Rightarrow> string \<Rightarrow> ('w, 'h, unit) mop" where
  "restore_disk env name tag rootfs =
     bind (bind (askWorld (me_CheckpointDisk env name tag)) (orFail MgrCheckpoint)) (\<lambda>disk.
     whenOp (rootfs \<noteq> []) (mustCall MgrCheckpoint (me_CopyDisk env disk rootfs)))"

definition RestoreCheckpoint :: "('w, 'h) ManagerEnv \<Rightarrow> string \<Rightarrow> string \<Rightarrow> ('w, 'h, unit) mop" where
  "RestoreCheckpoint env name tag =
     bind (GetVM name) (\<lambda>st.
     seq (failIf (vs_Status st = VMStatusRunning) (MgrCheckpointRunning name))
     (bind (bind (askWorld (me_ReadCheckpoint env name tag)) (orFail MgrCheckpoint)) (\<lambda>meta.
     seq (whenOp (ck_DiskIncluded meta) (restore_disk env name tag (vs_RootFSPath st)))
     (seq (case ck_VMConfig meta of
             None \<Rightarrow> return ()
           | Some cfg \<Rightarrow> bind (attempt (UpdateConfig env name cfg)) (\<lambda>_. return ()))
     (logEvent env ''checkpoint.restore'' name)))))"

definition DiscoverIP :: "('w, 'h) ManagerEnv \<Rightarrow> string \<Rightarrow> ('w, 'h, string) mop" where
  "DiscoverIP env name =
     bind (GetVM name) (\<lambda>st.
     if vs_IP st \<noteq> [] then return (vs_IP st)
     else
       bind (reads (\<lambda>s. vmm_running s name)) (\<lambda>ho.
       bind (case ho of None \<Rightarrow> return [] | Some h \<Rightarrow> askWorld (me_GetIP env h)) (\<lambda>ip.
       if ip \<noteq> [] then return ip
       else
         bind (call (me_DiscoverIP env name)) (\<lambda>found.
         seq (failIf (found = []) (MgrNoIP name))
         (seq (case ho of None \<Rightarrow> return () | Some h \<Rightarrow> effect (me_SetIP env h found))
         (bind (attempt (UpdateVM env name (\<lambda>vm. vm\<lparr>vs_IP := found\<rparr>))) (\<lambda>_. return found)))))))"

definition device_state :: "VMStatus \<Rightarrow> DeviceConfig \<Rightarrow> DeviceState" where
  "device_state status dev =
     \<lparr>ds_Name = dv_Name dev, ds_Type = dv_Type dev, ds_Address = dv_Address dev,
      ds_Status = (if status = VMStatusRunning then ''pending'' else ''attached''),
      ds_Readonly = dv_Readonly dev, ds_Options = dv_Options dev\<rparr>"

definition AttachDevice :: "('w, 'h) ManagerEnv \<Rightarrow> string \<Rightarrow> DeviceConfig \<Rightarrow> ('w, 'h, unit) mop" where
  "AttachDevice env name dev =
     seq (case DeviceConfig_Validate dev of None \<Rightarrow> return () | Some e \<Rightarrow> throw (MgrBadDevice e))
     (bind (GetVM name) (\<lambda>st.
     seq (failIf (list_ex (\<lambda>d. ds_Address d = dv_Address dev \<and> ds_Type d = dv_Type dev) (vs_Devices st))
            (MgrDeviceAttached (dv_Address dev)))
     (seq (UpdateVM env name (\<lambda>vm. vm\<lparr>vs_Devices := vs_Devices vm @ [device_state (vs_Status st) dev]\<rparr>))
     (logEvent env ''update'' name))))"

definition DetachDevice :: "('w, 'h) ManagerEnv \<Rightarrow> string \<Rightarrow> string \<Rightarrow> ('w, 'h, unit) mop" where
  "DetachDevice env name address =
     bind (GetVM name) (\<lambda>st.
     seq (failIf (\<not> list_ex (\<lambda>d. ds_Address d = address) (vs_Devices st)) (MgrDeviceUnknown address))
     (seq (UpdateVM env name (\<lambda>vm. vm\<lparr>vs_Devices := filter (\<lambda>d. ds_Address d \<noteq> address) (vs_Devices vm)\<rparr>))
     (logEvent env ''update'' name)))"

definition ListDevices :: "string \<Rightarrow> ('w, 'h, DeviceState list) mop" where
  "ListDevices name = bind (GetVM name) (\<lambda>st. return (vs_Devices st))"

end
