(* ===== verification/ManagerProofs.thy ===== *)
theory ManagerProofs
  imports Manager
begin

text \<open>
  Lemmas about the sandbox manager: rules for the calls into the environment, which leave
  the store and the table of instances alone, the commands as one type with their step
  relation, what each command does to the recorded status of every sandbox, and the frame
  of the locked sandboxes.
\<close>

subsection \<open>Calls that leave the manager's own state alone\<close>

definition outside :: "('w, 'h, 'a) mop \<Rightarrow> bool" where
  "outside m \<longleftrightarrow> (\<forall>s. \<exists>w. fst (m s) = s\<lparr>vmm_world := w\<rparr>)"

named_theorems outer "operations that only change the world"

lemma outside_same: "(\<And>s. fst (m s) = s) \<Longrightarrow> outside m"
  unfolding outside_def by (metis VMManager.surjective VMManager.update_convs(3))

lemma outside_basic [outer]:
  "outside (return x)" "outside (throw e)" "outside (reads f)" "outside (failIf b e)" "outside (askWorld g)"
  "outside (orFail e y)"
  by (rule outside_same; simp add: return_def throw_def reads_def failIf_def askWorld_def orFail_def split: option.split)+

lemma outside_call [outer]: "outside (call f)"
  unfolding outside_def call_def by (auto split: prod.split)

lemma outside_effect [outer]: "outside (effect f)"
  unfolding outside_def effect_def by auto

lemma outside_bind [outer]:
  assumes "outside m" "\<And>x. outside (k x)"
  shows "outside (bind m k)"
  unfolding outside_def
proof
  fix s
  obtain s1 r where m: "m s = (s1, r)" by (cases "m s")
  obtain w where w: "s1 = s\<lparr>vmm_world := w\<rparr>" using assms(1) m unfolding outside_def by (metis fst_conv)
  show "\<exists>w. fst (bind m k s) = s\<lparr>vmm_world := w\<rparr>"
  proof (cases r)
    case (Inl e) then show ?thesis using m w by (auto simp: bind_def)
  next
    case (Inr x)
    obtain w' where "fst (k x s1) = s1\<lparr>vmm_world := w'\<rparr>" using assms(2) unfolding outside_def by metis
    then show ?thesis using m w Inr by (auto simp: bind_def)
  qed
qed

lemma outside_seq [outer]: "outside m \<Longrightarrow> outside n \<Longrightarrow> outside (seq m n)"
  unfolding seq_def by (rule outside_bind)

lemma outside_whenOp [outer]: "outside m \<Longrightarrow> outside (whenOp b m)"
  by (simp add: whenOp_def outer)

lemma outside_attempt [outer]: "outside m \<Longrightarrow> outside (attempt m)"
  unfolding outside_def attempt_def by (auto split: prod.split) (metis fst_conv)

lemma outside_if [outer]: "outside m \<Longrightarrow> outside n \<Longrightarrow> outside (if b then m else n)"
  by simp

lemma outside_case_option [outer]: "outside m \<Longrightarrow> (\<And>y. outside (k y)) \<Longrightarrow> outside (case x of None \<Rightarrow> m | Some y \<Rightarrow> k y)"
  by (cases x) simp_all

lemma outside_case_sum [outer]: "(\<And>e. outside (m e)) \<Longrightarrow> (\<And>y. outside (k y)) \<Longrightarrow> outside (case x of Inl e \<Rightarrow> m e | Inr y \<Rightarrow> k y)"
  by (cases x) simp_all

lemma outside_case_prod [outer]: "(\<And>a b. outside (k a b)) \<Longrightarrow> outside (case x of (a, b) \<Rightarrow> k a b)"
  by (cases x) simp

lemma outside_calls [outer]:
  "outside (mustCall e f)" "outside (tryCall f)" "outside (mustGet e g)" "outside (save_state env)"
  "outside (GetVM name)" "outside (loadConfigFromState env st)" "outside (saveConfig env cfg)"
  "outside (checkLock name)" "outside (logEvent env ev name)"
  unfolding mustCall_def tryCall_def mustGet_def save_state_def GetVM_def loadConfigFromState_def saveConfig_def
    checkLock_def logEvent_def
  by (intro outer)+

lemma outside_LoadConfig [outer]: "outside (LoadConfig env name)"
  unfolding LoadConfig_def by (intro outer)

lemma outside_helpers [outer]:
  "outside (setup_policy env name nw)" "outside (setup_access env name cfg)" "outside (setup_mounts env name cfg)"
  "outside (undo_clone env dst e)" "outside (resolve_kernel env cfg)"
  unfolding setup_policy_def setup_access_def setup_mounts_def undo_clone_def resolve_kernel_def
  by (intro outer)+

text \<open>Operations that, in addition, never fail.\<close>

definition quiet :: "('w, 'h, 'a) mop \<Rightarrow> bool" where
  "quiet m \<longleftrightarrow> (\<forall>s. \<exists>w x. m s = (s\<lparr>vmm_world := w\<rparr>, Inr x))"

named_theorems silent "operations that only change the world and never fail"

lemma quiet_same: "(\<And>s. \<exists>x. m s = (s, Inr x)) \<Longrightarrow> quiet m"
  unfolding quiet_def by (metis VMManager.surjective VMManager.update_convs(3))

lemma quiet_basic [silent]: "quiet (return x)" "quiet (reads f)" "quiet (askWorld g)"
  by (rule quiet_same; simp add: return_def reads_def askWorld_def)+

lemma quiet_call [silent]: "quiet (call f)"
  unfolding quiet_def call_def by (auto split: prod.split)

lemma quiet_effect [silent]: "quiet (effect f)"
  unfolding quiet_def effect_def by auto

lemma quiet_bind [silent]:
  assumes "quiet m" "\<And>x. quiet (k x)"
  shows "quiet (bind m k)"
  unfolding quiet_def
proof
  fix s
  obtain w x where m: "m s = (s\<lparr>vmm_world := w\<rparr>, Inr x)" using assms(1) unfolding quiet_def by metis
  obtain w' y where "k x (s\<lparr>vmm_world := w\<rparr>) = (s\<lparr>vmm_world := w\<rparr>\<lparr>vmm_world := w'\<rparr>, Inr y)"
    using assms(2) unfolding quiet_def by metis
  then show "\<exists>w x. bind m k s = (s\<lparr>vmm_world := w\<rparr>, Inr x)" using m by (auto simp: bind_def)
qed

lemma quiet_seq [silent]: "quiet m \<Longrightarrow> quiet n \<Longrightarrow> quiet (seq m n)"
  unfolding seq_def by (rule quiet_bind)

lemma quiet_whenOp [silent]: "quiet m \<Longrightarrow> quiet (whenOp b m)"
  by (simp add: whenOp_def quiet_basic)

lemma quiet_if [silent]: "quiet m \<Longrightarrow> quiet n \<Longrightarrow> quiet (if b then m else n)"
  by simp

lemma quiet_case_option [silent]: "quiet m \<Longrightarrow> (\<And>y. quiet (k y)) \<Longrightarrow> quiet (case x of None \<Rightarrow> m | Some y \<Rightarrow> k y)"
  by (cases x) simp_all

lemma quiet_case_prod [silent]: "(\<And>a b. quiet (k a b)) \<Longrightarrow> quiet (case x of (a, b) \<Rightarrow> k a b)"
  by (cases x) simp

lemma quiet_run_actions: "quiet (run_actions env name as)"
  by (induction as) (auto simp: executeHook_def executeGuestHook_def logEvent_def intro!: silent)

lemma quiet_helpers [silent]:
  "quiet (RunHooks env name hooks phase)" "quiet (tryCall f)" "quiet (logEvent env ev name)"
  "quiet (loadConfigFromState env st)" "quiet (find_ip env name h)" "quiet (clone_policy env src dst)"
  unfolding RunHooks_def tryCall_def logEvent_def loadConfigFromState_def find_ip_def clone_policy_def
  by (intro silent quiet_run_actions)+

subsection \<open>Judgements about the store and the table\<close>

text \<open>
  \<open>holds P m Q E\<close>: the pre- and postconditions speak of the store and the table of
  instances only, so that a call into the environment may return anything.
\<close>

type_synonym 'h own = "store \<Rightarrow> (string \<Rightarrow> 'h option) \<Rightarrow> bool"

definition holds :: "'h own \<Rightarrow> ('w, 'h, 'a) mop \<Rightarrow> ('a \<Rightarrow> 'h own) \<Rightarrow> (manager_error \<Rightarrow> 'h own) \<Rightarrow> bool" where
  "holds P m Q E \<longleftrightarrow>
     valid (\<lambda>s. P (vmm_state s) (vmm_running s)) m (\<lambda>x s. Q x (vmm_state s) (vmm_running s))
       (\<lambda>e s. E e (vmm_state s) (vmm_running s))"

named_theorems hoare "rules that compute a precondition"

lemma holds_pre: "holds P' m Q E \<Longrightarrow> (\<And>st run. P st run \<Longrightarrow> P' st run) \<Longrightarrow> holds P m Q E"
  unfolding holds_def by (rule valid_pre)

lemma holds_use:
  "holds P m Q E \<Longrightarrow> P (vmm_state s) (vmm_running s) \<Longrightarrow>
   case m s of (s', Inr x) \<Rightarrow> Q x (vmm_state s') (vmm_running s') | (s', Inl e) \<Rightarrow> E e (vmm_state s') (vmm_running s')"
  by (simp add: holds_def valid_def)

lemma holds_outside:
  assumes "outside m"
  shows "holds (\<lambda>st run. (\<forall>x. Q x st run) \<and> (\<forall>e. E e st run)) m Q E"
  unfolding holds_def valid_def
proof (intro allI impI)
  fix s :: "('a, 'b) VMManager"
  assume pre: "(\<forall>x. Q x (vmm_state s) (vmm_running s)) \<and> (\<forall>e. E e (vmm_state s) (vmm_running s))"
  obtain s' r where m: "m s = (s', r)" by (cases "m s")
  then have "\<exists>w. s' = s\<lparr>vmm_world := w\<rparr>" using assms unfolding outside_def by (metis fst_conv)
  then show "case m s of (s', Inr x) \<Rightarrow> Q x (vmm_state s') (vmm_running s')
      | (s', Inl e) \<Rightarrow> E e (vmm_state s') (vmm_running s')"
    using pre m by (cases r) auto
qed

lemma holds_bind [hoare]: "(\<And>x. holds (R x) (k x) Q E) \<Longrightarrow> holds P m R E \<Longrightarrow> holds P (bind m k) Q E"
  unfolding holds_def by (rule valid_bind)

lemma holds_seq [hoare]: "holds R n Q E \<Longrightarrow> holds P m (\<lambda>_. R) E \<Longrightarrow> holds P (seq m n) Q E"
  unfolding holds_def by (rule valid_seq)

lemma holds_return [hoare]: "holds (Q x) (return x) Q E"
  unfolding holds_def by (rule valid_return)

lemma holds_throw [hoare]: "holds (E e) (throw e) Q E"
  unfolding holds_def by (rule valid_throw)

lemma holds_failIf [hoare]: "holds (\<lambda>st run. (b \<longrightarrow> E e st run) \<and> (\<not> b \<longrightarrow> Q () st run)) (failIf b e) Q E"
  unfolding holds_def by (rule valid_failIf)

lemma holds_whenOp [hoare]:
  "holds P m Q E \<Longrightarrow> holds (\<lambda>st run. (b \<longrightarrow> P st run) \<and> (\<not> b \<longrightarrow> Q () st run)) (whenOp b m) Q E"
  unfolding holds_def by (rule valid_whenOp)

lemma holds_if [hoare]:
  "holds P m Q E \<Longrightarrow> holds P' n Q E \<Longrightarrow>
   holds (\<lambda>st run. (b \<longrightarrow> P st run) \<and> (\<not> b \<longrightarrow> P' st run)) (if b then m else n) Q E"
  by (simp add: holds_def valid_def)

lemma holds_case_option [hoare]:
  "holds P m Q E \<Longrightarrow> (\<And>y. holds (P' y) (k y) Q E) \<Longrightarrow>
   holds (\<lambda>st run. (x = None \<longrightarrow> P st run) \<and> (\<forall>y. x = Some y \<longrightarrow> P' y st run))
     (case x of None \<Rightarrow> m | Some y \<Rightarrow> k y) Q E"
  by (cases x) (simp_all add: holds_def)

lemma holds_case_sum [hoare]:
  "(\<And>e. holds (P e) (m e) Q E) \<Longrightarrow> (\<And>y. holds (P' y) (k y) Q E) \<Longrightarrow>
   holds (\<lambda>st run. (\<forall>e. x = Inl e \<longrightarrow> P e st run) \<and> (\<forall>y. x = Inr y \<longrightarrow> P' y st run))
     (case x of Inl e \<Rightarrow> m e | Inr y \<Rightarrow> k y) Q E"
  by (cases x) (simp_all add: holds_def)

lemma holds_case_prod [hoare]:
  "(\<And>a b. holds (P a b) (k a b) Q E) \<Longrightarrow>
   holds (\<lambda>st run. \<forall>a b. x = (a, b) \<longrightarrow> P a b st run) (case x of (a, b) \<Rightarrow> k a b) Q E"
  by (cases x) (simp add: holds_def)

lemma holds_attempt [hoare]: "holds P m (\<lambda>x. Q (Inr x)) (\<lambda>e. Q (Inl e)) \<Longrightarrow> holds P (attempt m) Q E"
  unfolding holds_def by (rule valid_attempt)

lemma holds_wrapError [hoare]: "holds P m Q (\<lambda>e. E (f e)) \<Longrightarrow> holds P (wrapError f m) Q E"
  unfolding holds_def by (rule valid_wrapError)

lemma holds_orFail [hoare]:
  "holds (\<lambda>st run. (x = None \<longrightarrow> E e st run) \<and> (\<forall>y. x = Some y \<longrightarrow> Q y st run)) (orFail e x) Q E"
  unfolding holds_def by (rule valid_orFail)

lemma holds_reads_state [hoare]: "holds (\<lambda>st run. Q (st n) st run) (reads (\<lambda>s. vmm_state s n)) Q E"
  by (simp add: holds_def valid_def reads_def)

lemma holds_reads_running [hoare]: "holds (\<lambda>st run. Q (run n) st run) (reads (\<lambda>s. vmm_running s n)) Q E"
  by (simp add: holds_def valid_def reads_def)

lemma holds_GetVM [hoare]:
  "holds (\<lambda>st run. (st n = None \<longrightarrow> E (MgrNotFound n) st run) \<and> (\<forall>vm. st n = Some vm \<longrightarrow> Q vm st run)) (GetVM n) Q E"
  by (auto simp: holds_def valid_def GetVM_def bind_def reads_def orFail_def throw_def return_def split: option.split)

lemma holds_checkLock [hoare]:
  "holds (\<lambda>st run. (\<forall>vm. st n = Some vm \<longrightarrow> vs_Locked vm \<longrightarrow> E (MgrLocked n (vs_LockedReason vm)) st run) \<and>
       ((\<forall>vm. st n = Some vm \<longrightarrow> \<not> vs_Locked vm) \<longrightarrow> Q () st run)) (checkLock n) Q E"
  by (auto simp: holds_def valid_def checkLock_def bind_def reads_def failIf_def throw_def return_def split: option.split)

lemma holds_track [hoare]: "holds (\<lambda>st run. Q () st (run(n := h))) (track n h) Q E"
  by (simp add: holds_def valid_def track_def modify_def)

lemma holds_put_vm [hoare]: "holds (\<lambda>st run. Q () (st(n \<mapsto> vm)) run) (put_vm n vm) Q E"
  by (simp add: holds_def valid_def put_vm_def modify_def)

lemma holds_set_vm [hoare]: "holds (\<lambda>st run. Q () (st(n := map_option f (st n))) run) (set_vm n f) Q E"
  by (simp add: holds_def valid_def set_vm_def modify_def)

lemma holds_remove [hoare]:
  "holds (\<lambda>st run. Q () (st(n := None)) run) (modify (\<lambda>s. s\<lparr>vmm_state := (vmm_state s)(n := None)\<rparr>)) Q E"
  by (simp add: holds_def valid_def modify_def)

lemma holds_quiet:
  assumes "quiet m"
  shows "holds (\<lambda>st run. \<forall>x. Q x st run) m Q E"
  unfolding holds_def valid_def
proof (intro allI impI)
  fix s :: "('a, 'b) VMManager"
  assume pre: "\<forall>x. Q x (vmm_state s) (vmm_running s)"
  obtain w x where "m s = (s\<lparr>vmm_world := w\<rparr>, Inr x)" using assms unfolding quiet_def by metis
  then show "case m s of (s', Inr x) \<Rightarrow> Q x (vmm_state s') (vmm_running s')
      | (s', Inl e) \<Rightarrow> E e (vmm_state s') (vmm_running s')"
    using pre by simp
qed

lemmas holds_quiets [hoare] =
  holds_quiet [OF quiet_call] holds_quiet [OF quiet_effect] holds_quiet [OF quiet_basic(3)]
  holds_quiet [OF quiet_helpers(1)] holds_quiet [OF quiet_helpers(2)] holds_quiet [OF quiet_helpers(3)]
  holds_quiet [OF quiet_helpers(4)] holds_quiet [OF quiet_helpers(5)] holds_quiet [OF quiet_helpers(6)]

lemma holds_mustCall [hoare]: "holds (\<lambda>st run. Q () st run \<and> E e st run) (mustCall e f) Q E"
  unfolding mustCall_def by (rule holds_pre, (rule hoare)+) simp

lemma holds_mustGet [hoare]: "holds (\<lambda>st run. (\<forall>x. Q x st run) \<and> E e st run) (mustGet e f) Q E"
  unfolding mustGet_def by (rule holds_pre, (rule hoare)+) simp

lemma holds_saveConfig [hoare]: "holds (\<lambda>st run. Q () st run \<and> E MgrSaveConfig st run) (saveConfig env cfg) Q E"
  unfolding saveConfig_def by (rule hoare)

lemma holds_save_state [hoare]: "holds (\<lambda>st run. Q () st run \<and> E MgrSaveState st run) (save_state env) Q E"
  unfolding save_state_def
  by (rule holds_pre, rule holds_bind, rule hoare, rule holds_quiet, rule silent) simp

lemma holds_UpdateVM [hoare]:
  "holds (\<lambda>st run. (st n = None \<longrightarrow> E (MgrNotFound n) st run) \<and>
      (\<forall>vm now. st n = Some vm \<longrightarrow> Q () (st(n \<mapsto> (f vm)\<lparr>vs_UpdatedAt := now\<rparr>)) run \<and>
         E MgrSaveState (st(n \<mapsto> (f vm)\<lparr>vs_UpdatedAt := now\<rparr>)) run))
    (UpdateVM env n f) Q E"
  unfolding UpdateVM_def by (rule holds_pre, (rule hoare)+) auto

lemma holds_StoreVM [hoare]:
  "holds (\<lambda>st run. \<forall>now. Q () (st(vs_Name vm \<mapsto> vm\<lparr>vs_UpdatedAt := now\<rparr>)) run \<and>
      E MgrSaveState (st(vs_Name vm \<mapsto> vm\<lparr>vs_UpdatedAt := now\<rparr>)) run)
    (StoreVM env vm) Q E"
  unfolding StoreVM_def by (rule holds_pre, (rule hoare)+) auto

lemma holds_DeleteVM [hoare]:
  "holds (\<lambda>st run. (st n = None \<longrightarrow> E (MgrNotFound n) st run) \<and>
      (st n \<noteq> None \<longrightarrow> Q () (st(n := None)) run \<and> E MgrSaveState (st(n := None)) run))
    (DeleteVM env n) Q E"
  unfolding DeleteVM_def by (rule holds_pre, (rule hoare)+) auto

lemma holds_state_RenameVM [hoare]:
  "holds (\<lambda>st run. (st a = None \<longrightarrow> E (MgrNotFound a) st run) \<and>
      (\<forall>vm now. st a = Some vm \<longrightarrow>
         (st b \<noteq> None \<longrightarrow> E (MgrExists b) st run) \<and>
         (st b = None \<longrightarrow> Q () ((st(a := None))(b \<mapsto> vm\<lparr>vs_Name := b, vs_UpdatedAt := now\<rparr>)) run \<and>
            E MgrSaveState ((st(a := None))(b \<mapsto> vm\<lparr>vs_Name := b, vs_UpdatedAt := now\<rparr>)) run)))
    (state_RenameVM env a b) Q E"
  unfolding state_RenameVM_def by (rule holds_pre, (rule hoare)+) auto

end
