(* ===== verification/ManagerSpec.thy ===== *)
theory ManagerSpec
  imports ManagerProofs
begin

text \<open>
  The life of a sandbox as an abstract transition system: a state is the store with the
  table of instances, a step a command with whether it succeeded. The environment does not
  appear: what it may do shows as the choice between steps. Every operation of the manager
  refines its step.
\<close>

subsection \<open>Commands\<close>

datatype command =
    CmdCreate string VMConfig
  | CmdClone string string
  | CmdStart string
  | CmdStop string
  | CmdPause string
  | CmdUnpause string
  | CmdRestart string int
  | CmdDestroy string
  | CmdRename string string
  | CmdStatus string
  | CmdSetRestartPolicy string string
  | CmdUpdateHealth string HealthState
  | CmdUpdateConfig string VMConfig
  | CmdSetLabels string "(string \<times> string) list"
  | CmdRemoveLabels string "string list"
  | CmdLock string string
  | CmdUnlock string
  | CmdAddPortForward string int int
  | CmdRemovePortForward string int
  | CmdImport string string
  | CmdRestoreCheckpoint string string
  | CmdDiscoverIP string
  | CmdAttachDevice string DeviceConfig
  | CmdDetachDevice string string

fun run_command :: "('w, 'h) ManagerEnv \<Rightarrow> command \<Rightarrow> ('w, 'h, unit) mop" where
  "run_command env (CmdCreate n cfg) = Create env n cfg"
| "run_command env (CmdClone a b) = Clone env a b"
| "run_command env (CmdStart n) = Start env n"
| "run_command env (CmdStop n) = Stop env n"
| "run_command env (CmdPause n) = Pause env n"
| "run_command env (CmdUnpause n) = Unpause env n"
| "run_command env (CmdRestart n t) = Restart env n t"
| "run_command env (CmdDestroy n) = Destroy env n"
| "run_command env (CmdRename a b) = RenameVM env a b"
| "run_command env (CmdStatus n) = bind (Status env n) (\<lambda>_. return ())"
| "run_command env (CmdSetRestartPolicy n p) = SetRestartPolicy env n p"
| "run_command env (CmdUpdateHealth n h) = UpdateHealth env n h"
| "run_command env (CmdUpdateConfig n cfg) = UpdateConfig env n cfg"
| "run_command env (CmdSetLabels n ls) = SetLabels env n ls"
| "run_command env (CmdRemoveLabels n ks) = RemoveLabels env n ks"
| "run_command env (CmdLock n r) = Lock env n r"
| "run_command env (CmdUnlock n) = Unlock env n"
| "run_command env (CmdAddPortForward n h g) = AddPortForward env n h g"
| "run_command env (CmdRemovePortForward n h) = RemovePortForward env n h"
| "run_command env (CmdImport f n) = Import env f n"
| "run_command env (CmdRestoreCheckpoint n tag) = RestoreCheckpoint env n tag"
| "run_command env (CmdDiscoverIP n) = bind (DiscoverIP env n) (\<lambda>_. return ())"
| "run_command env (CmdAttachDevice n d) = AttachDevice env n d"
| "run_command env (CmdDetachDevice n a) = DetachDevice env n a"

text \<open>
  The sandbox whose attributes a command sets without touching its life, and what it sets
  them to. A checkpoint brings a configuration of its own.
\<close>

fun attribute_target :: "command \<Rightarrow> string option" where
  "attribute_target (CmdSetRestartPolicy n _) = Some n"
| "attribute_target (CmdUpdateHealth n _) = Some n"
| "attribute_target (CmdUpdateConfig n _) = Some n"
| "attribute_target (CmdSetLabels n _) = Some n"
| "attribute_target (CmdRemoveLabels n _) = Some n"
| "attribute_target (CmdRestoreCheckpoint n _) = Some n"
| "attribute_target (CmdDiscoverIP n) = Some n"
| "attribute_target (CmdAttachDevice n _) = Some n"
| "attribute_target (CmdDetachDevice n _) = Some n"
| "attribute_target _ = None"

definition sized :: "VMConfig \<Rightarrow> VMState \<Rightarrow> VMState" where
  "sized cfg vm = vm\<lparr>vs_VCPUs := cf_VCPUs cfg, vs_MemoryMB := cf_MemoryMB cfg, vs_DiskGB := cf_DiskGB cfg\<rparr>"

fun sets :: "command \<Rightarrow> VMState \<Rightarrow> VMState \<Rightarrow> bool" where
  "sets (CmdSetRestartPolicy _ p) vm vm' \<longleftrightarrow> p \<in> {''never'', ''always'', ''on-failure''} \<and> vm' = vm\<lparr>vs_RestartPolicy := p\<rparr>"
| "sets (CmdUpdateHealth _ h) vm vm' \<longleftrightarrow> vm' = vm\<lparr>vs_Health := Some h\<rparr>"
| "sets (CmdUpdateConfig _ cfg) vm vm' \<longleftrightarrow> \<not> vs_Locked vm \<and> vm' = sized cfg vm"
| "sets (CmdSetLabels _ ls) vm vm' \<longleftrightarrow> vm' = vm\<lparr>vs_Labels := set_labels ls (vs_Labels vm)\<rparr>"
| "sets (CmdRemoveLabels _ ks) vm vm' \<longleftrightarrow> vm' = vm\<lparr>vs_Labels := remove_labels ks (vs_Labels vm)\<rparr>"
| "sets (CmdRestoreCheckpoint _ _) vm vm' \<longleftrightarrow>
     \<not> vs_Locked vm \<and> vs_Status vm \<noteq> VMStatusRunning \<and> (\<exists>cfg. vm' = sized cfg vm)"
| "sets (CmdDiscoverIP _) vm vm' \<longleftrightarrow> vs_IP vm = [] \<and> (\<exists>ip. vm' = vm\<lparr>vs_IP := ip\<rparr>)"
| "sets (CmdAttachDevice _ d) vm vm' \<longleftrightarrow> vm' = vm\<lparr>vs_Devices := vs_Devices vm @ [device_state (vs_Status vm) d]\<rparr>"
| "sets (CmdDetachDevice _ a) vm vm' \<longleftrightarrow> vm' = vm\<lparr>vs_Devices := filter (\<lambda>d. ds_Address d \<noteq> a) (vs_Devices vm)\<rparr>"
| "sets _ vm vm' \<longleftrightarrow> False"

definition same_life :: "VMState \<Rightarrow> VMState \<Rightarrow> bool" where
  "same_life vm vm' \<longleftrightarrow> vs_Status vm' = vs_Status vm \<and> vs_Locked vm' = vs_Locked vm \<and>
     vs_LockedReason vm' = vs_LockedReason vm \<and> vs_Name vm' = vs_Name vm"

lemma sets_same_life: "sets c vm vm' \<Longrightarrow> same_life vm vm'"
  by (cases c) (auto simp: same_life_def sized_def)

subsection \<open>Steps\<close>

inductive step :: "command \<Rightarrow> bool \<Rightarrow> store \<times> (string \<Rightarrow> 'h option) \<Rightarrow> store \<times> (string \<Rightarrow> 'h option) \<Rightarrow> bool" where
  refused: "step c False a a"
| looked: "c \<in> {CmdAddPortForward n h g, CmdRemovePortForward n h, CmdStatus n, CmdDiscoverIP n, CmdRestoreCheckpoint n tag} \<Longrightarrow> step c True a a"
| create: "st n = None \<Longrightarrow> ValidateVMConfig cfg = [] \<Longrightarrow>
    vs_Name vm = n \<Longrightarrow> vs_Status vm = VMStatusCreated \<Longrightarrow> \<not> vs_Locked vm \<Longrightarrow>
    step (CmdCreate n cfg) ok (st, run) (st(n \<mapsto> vm), run)"
| clone: "st m = Some v \<Longrightarrow> vs_Status v \<noteq> VMStatusRunning \<Longrightarrow> st n = None \<Longrightarrow>
    vs_Name vm = n \<Longrightarrow> vs_Status vm = VMStatusCreated \<Longrightarrow> \<not> vs_Locked vm \<Longrightarrow>
    step (CmdClone m n) ok (st, run) (st(n \<mapsto> vm), run)"
| start: "st n = Some vm \<Longrightarrow> vs_Status vm \<noteq> VMStatusRunning \<Longrightarrow>
    step (CmdStart n) True (st, run)
      (st(n \<mapsto> vm\<lparr>vs_Status := VMStatusRunning, vs_IP := ip, vs_UpdatedAt := t\<rparr>), run(n \<mapsto> h))"
| start_unsaved: "st n = Some vm \<Longrightarrow> vs_Status vm \<noteq> VMStatusRunning \<Longrightarrow>
    step (CmdStart n) False (st, run)
      (st(n \<mapsto> vm\<lparr>vs_Status := VMStatusRunning, vs_IP := ip, vs_UpdatedAt := t\<rparr>), run(n := None))"
| stop: "st n = Some vm \<Longrightarrow> vs_Status vm = VMStatusRunning \<Longrightarrow> \<not> vs_Locked vm \<Longrightarrow> run n \<noteq> None \<Longrightarrow>
    step (CmdStop n) ok (st, run)
      (st(n \<mapsto> vm\<lparr>vs_Status := VMStatusStopped, vs_IP := [], vs_UpdatedAt := t\<rparr>), run(n := None))"
| pause: "st n = Some vm \<Longrightarrow> vs_Status vm \<in> {VMStatusRunning, VMStatusPaused} \<Longrightarrow> run n \<noteq> None \<Longrightarrow>
    step (CmdPause n) ok (st, run) (st(n \<mapsto> vm\<lparr>vs_Status := VMStatusPaused, vs_UpdatedAt := t\<rparr>), run)"
| unpause: "st n = Some vm \<Longrightarrow> vs_Status vm = VMStatusPaused \<Longrightarrow> run n \<noteq> None \<Longrightarrow>
    step (CmdUnpause n) ok (st, run) (st(n \<mapsto> vm\<lparr>vs_Status := VMStatusRunning, vs_UpdatedAt := t\<rparr>), run)"
| restart_stop: "step (CmdStop n) False a b \<Longrightarrow> step (CmdRestart n d) False a b"
| restart_start: "step (CmdStop n) True a b \<Longrightarrow> step (CmdStart n) False b c \<Longrightarrow> step (CmdRestart n d) False a c"
| restart: "step (CmdStop n) True a b \<Longrightarrow> step (CmdStart n) True b (st, run) \<Longrightarrow> st n = Some vm \<Longrightarrow>
    step (CmdRestart n d) ok a
      (st(n \<mapsto> vm\<lparr>vs_RestartCount := vs_RestartCount vm + 1, vs_UpdatedAt := t\<rparr>), run)"
| destroy: "st n = Some vm \<Longrightarrow> \<not> vs_Locked vm \<Longrightarrow> vs_Status vm \<noteq> VMStatusRunning \<or> run n = None \<Longrightarrow>
    step (CmdDestroy n) ok (st, run) (st(n := None), run)"
| destroy_stop: "step (CmdStop n) sok (st, run) (st', run') \<Longrightarrow> st n = Some vm \<Longrightarrow> vs_Status vm = VMStatusRunning \<Longrightarrow>
    \<not> vs_Locked vm \<Longrightarrow> sok \<or> run' n = None \<Longrightarrow>
    step (CmdDestroy n) ok (st, run) (st'(n := None), run')"
| destroy_stopped: "step (CmdStop n) sok (st, run) (st', run') \<Longrightarrow> step (CmdDestroy n) False (st, run) (st', run')"
| rename: "st m = Some vm \<Longrightarrow> vs_Status vm \<noteq> VMStatusRunning \<Longrightarrow> st n = None \<Longrightarrow>
    step (CmdRename m n) ok (st, run) ((st(m := None))(n \<mapsto> vm\<lparr>vs_Name := n, vs_UpdatedAt := t\<rparr>), run)"
| gone: "st n = Some vm \<Longrightarrow> vs_Status vm = VMStatusRunning \<Longrightarrow> run n \<noteq> None \<Longrightarrow>
    step (CmdStatus n) True (st, run)
      (st(n \<mapsto> vm\<lparr>vs_Status := VMStatusStopped, vs_IP := [], vs_UpdatedAt := t\<rparr>), run(n := None))"
| observed: "st n = Some vm \<Longrightarrow> step (CmdStatus n) True (st, run) (st(n \<mapsto> vm\<lparr>vs_IP := ip\<rparr>), run)"
| attribute: "attribute_target c = Some n \<Longrightarrow> st n = Some vm \<Longrightarrow> sets c vm vm' \<Longrightarrow>
    step c ok (st, run) (st(n \<mapsto> vm'\<lparr>vs_UpdatedAt := t\<rparr>), run)"
| import: "st n = None \<Longrightarrow> (new \<noteq> [] \<longrightarrow> n = new) \<Longrightarrow> vs_Name vm = n \<Longrightarrow> vs_Status vm = VMStatusStopped \<Longrightarrow>
    vs_IP vm = [] \<Longrightarrow> step (CmdImport path new) ok (st, run) (st(n \<mapsto> vm), run)"
| lock: "st n = Some vm \<Longrightarrow> \<not> vs_Locked vm \<Longrightarrow>
    step (CmdLock n r) ok (st, run)
      (st(n \<mapsto> vm\<lparr>vs_Locked := True, vs_LockedReason := r, vs_LockedAt := t, vs_UpdatedAt := u\<rparr>), run)"
| unlock: "st n = Some vm \<Longrightarrow> vs_Locked vm \<Longrightarrow>
    step (CmdUnlock n) ok (st, run)
      (st(n \<mapsto> vm\<lparr>vs_Locked := False, vs_LockedReason := [], vs_LockedAt := 0, vs_UpdatedAt := u\<rparr>), run)"

subsection \<open>Each operation refines its step\<close>

definition refines :: "command \<Rightarrow> ('w, 'h, 'a) mop \<Rightarrow> bool" where
  "refines c m \<longleftrightarrow> (\<forall>st run. holds (\<lambda>st' run'. st' = st \<and> run' = run) m
     (\<lambda>_ st' run'. step c True (st, run) (st', run')) (\<lambda>_ st' run'. step c False (st, run) (st', run')))"

lemma refinesI:
  "(\<And>st run. holds (\<lambda>st' run'. st' = st \<and> run' = run) m
     (\<lambda>_ st' run'. step c True (st, run) (st', run')) (\<lambda>_ st' run'. step c False (st, run) (st', run'))) \<Longrightarrow>
   refines c m"
  by (simp add: refines_def)

lemma create_refines: "refines (CmdCreate n cfg) (Create env n cfg)"
  unfolding Create_def setup_policy_def setup_access_def setup_mounts_def
  by (rule refinesI, rule holds_pre, (rule hoare)+)
    (auto simp: new_vm_state_def zero_state_def intro: step.intros)

lemma clone_refines: "refines (CmdClone m n) (Clone env m n)"
  unfolding Clone_def LoadConfig_def undo_clone_def
  by (rule refinesI, rule holds_pre, (rule hoare)+)
    (auto simp: new_vm_state_def zero_state_def intro: step.intros)

lemma start_refines: "refines (CmdStart n) (Start env n)"
  unfolding Start_def resolve_kernel_def
  by (rule refinesI, rule holds_pre, (rule hoare)+) (auto intro: step.intros)

lemma stop_refines: "refines (CmdStop n) (Stop env n)"
  unfolding Stop_def
  by (rule refinesI, rule holds_pre, (rule hoare)+) (auto intro: step.intros)

lemma pause_refines: "refines (CmdPause n) (Pause env n)"
  unfolding Pause_def
  by (rule refinesI, rule holds_pre, (rule hoare)+) (auto intro: step.intros)

lemma unpause_refines: "refines (CmdUnpause n) (Unpause env n)"
  unfolding Unpause_def
  by (rule refinesI, rule holds_pre, (rule hoare)+) (auto intro: step.intros)

lemma refines_wp:
  assumes "refines c m"
  shows "holds (\<lambda>st run. (\<forall>x st' run'. step c True (st, run) (st', run') \<longrightarrow> Q x st' run') \<and>
      (\<forall>e st' run'. step c False (st, run) (st', run') \<longrightarrow> E e st' run')) m Q E"
  unfolding holds_def valid_def
proof (intro allI impI)
  fix s :: "('a, 'b) VMManager"
  assume pre: "(\<forall>x st' run'. step c True (vmm_state s, vmm_running s) (st', run') \<longrightarrow> Q x st' run') \<and>
      (\<forall>e st' run'. step c False (vmm_state s, vmm_running s) (st', run') \<longrightarrow> E e st' run')"
  have "case m s of (s', Inr x) \<Rightarrow> step c True (vmm_state s, vmm_running s) (vmm_state s', vmm_running s')
      | (s', Inl e) \<Rightarrow> step c False (vmm_state s, vmm_running s) (vmm_state s', vmm_running s')"
    using assms unfolding refines_def holds_def valid_def by simp
  then show "case m s of (s', Inr x) \<Rightarrow> Q x (vmm_state s') (vmm_running s')
      | (s', Inl e) \<Rightarrow> E e (vmm_state s') (vmm_running s')"
    using pre by (auto split: prod.splits sum.splits)
qed

inductive_cases stop_step: "step (CmdStop n) ok (st, run) (st', run')"
inductive_cases start_step: "step (CmdStart n) ok (st, run) (st', run')"

lemma start_step_present: "step (CmdStart n) True (st, run) (st', run') \<Longrightarrow> \<exists>vm. st' n = Some vm"
  by (erule start_step) auto

lemma stop_step_present: "step (CmdStop n) ok (st, run) (st', run') \<Longrightarrow> st n = Some vm \<Longrightarrow> \<exists>vm. st' n = Some vm"
  by (erule stop_step) auto

lemma restart_refines: "refines (CmdRestart n t) (Restart env n t)"
  unfolding Restart_def
  by (rule refinesI, rule holds_pre,
      (rule hoare refines_wp [OF stop_refines] refines_wp [OF start_refines])+)
    (auto intro: step.intros dest: start_step_present)

lemma destroy_refines: "refines (CmdDestroy n) (Destroy env n)"
  unfolding Destroy_def
  by (rule refinesI, rule holds_pre, (rule hoare refines_wp [OF stop_refines])+)
    (auto intro: destroy destroy_stop destroy_stopped refused dest: stop_step_present)

lemma rename_refines: "refines (CmdRename m n) (RenameVM env m n)"
  unfolding RenameVM_def
  by (rule refinesI, rule holds_pre, (rule hoare)+) (auto intro: refused rename)

lemma status_refines: "refines (CmdStatus n) (bind (Status env n) (\<lambda>_. return ()))"
  unfolding Status_def
  by (rule refinesI, rule holds_pre, (rule hoare)+) (auto intro: refused gone observed looked)

lemma attribute_steps:
  assumes "st n = Some vm"
  shows "p \<in> {''never'', ''always'', ''on-failure''} \<Longrightarrow>
      step (CmdSetRestartPolicy n p) ok (st, run) (st(n \<mapsto> vm\<lparr>vs_RestartPolicy := p, vs_UpdatedAt := t\<rparr>), run)"
    "step (CmdUpdateHealth n h) ok (st, run) (st(n \<mapsto> vm\<lparr>vs_Health := Some h, vs_UpdatedAt := t\<rparr>), run)"
    "\<not> vs_Locked vm \<Longrightarrow> step (CmdUpdateConfig n cfg) ok (st, run) (st(n \<mapsto> (sized cfg vm)\<lparr>vs_UpdatedAt := t\<rparr>), run)"
    "\<not> vs_Locked vm \<Longrightarrow> vs_Status vm \<noteq> VMStatusRunning \<Longrightarrow>
      step (CmdRestoreCheckpoint n tag) ok (st, run) (st(n \<mapsto> (sized cfg vm)\<lparr>vs_UpdatedAt := t\<rparr>), run)"
    "vs_IP vm = [] \<Longrightarrow> step (CmdDiscoverIP n) ok (st, run) (st(n \<mapsto> vm\<lparr>vs_IP := ip, vs_UpdatedAt := t\<rparr>), run)"
    "step (CmdAttachDevice n d) ok (st, run)
      (st(n \<mapsto> vm\<lparr>vs_Devices := vs_Devices vm @ [device_state (vs_Status vm) d], vs_UpdatedAt := t\<rparr>), run)"
    "step (CmdDetachDevice n a) ok (st, run)
      (st(n \<mapsto> vm\<lparr>vs_Devices := filter (\<lambda>d. ds_Address d \<noteq> a) (vs_Devices vm), vs_UpdatedAt := t\<rparr>), run)"
  by (rule attribute, simp, rule assms, simp; blast)+

lemma attribute_refines:
  "refines (CmdSetRestartPolicy n p) (SetRestartPolicy env n p)"
  "refines (CmdUpdateHealth n h) (UpdateHealth env n h)"
  "refines (CmdUpdateConfig n cfg) (UpdateConfig env n cfg)"
  "refines (CmdAttachDevice n d) (AttachDevice env n d)"
  "refines (CmdDetachDevice n a) (DetachDevice env n a)"
  "refines (CmdDiscoverIP n) (bind (DiscoverIP env n) (\<lambda>_. return ()))"
  unfolding SetRestartPolicy_def UpdateHealth_def UpdateConfig_def AttachDevice_def DetachDevice_def DiscoverIP_def
  by (rule refinesI, rule holds_pre, (rule hoare)+,
      auto intro: attribute_steps[unfolded sized_def] refused looked)+

lemma label_refines:
  assumes "attribute_target c = Some n" "\<And>vm. sets c vm (vm\<lparr>vs_Labels := f (vs_Labels vm)\<rparr>)"
  shows "refines c (change_labels env n f)"
  unfolding change_labels_def LoadConfig_def
  by (rule refinesI, rule holds_pre, (rule hoare)+)
    (use assms in \<open>auto intro!: attribute intro: refused\<close>)

lemma import_refines: "refines (CmdImport f n) (Import env f n)"
  unfolding Import_def
  by (rule refinesI, rule holds_pre, (rule hoare)+)
    (auto simp: imported_state_def intro: refused intro!: import split: option.split)

lemma checkpoint_refines: "refines (CmdRestoreCheckpoint n tag) (RestoreCheckpoint env n tag)"
  unfolding RestoreCheckpoint_def restore_disk_def UpdateConfig_def
  by (rule refinesI, rule holds_pre, (rule hoare)+) (auto intro: refused looked attribute_steps[unfolded sized_def])

lemma lock_refines: "refines (CmdLock n r) (Lock env n r)" "refines (CmdUnlock n) (Unlock env n)"
  unfolding Lock_def Unlock_def
  by (rule refinesI, rule holds_pre, (rule hoare)+, auto intro: refused lock unlock)+

lemma port_refines:
  "refines (CmdAddPortForward n h g) (AddPortForward env n h g)"
  "refines (CmdRemovePortForward n h) (RemovePortForward env n h)"
  unfolding AddPortForward_def RemovePortForward_def
  by (rule refinesI, rule holds_pre, (rule hoare)+, auto intro: refused looked)+

lemma command_refines: "refines c (run_command env c)"
  by (cases c)
    (simp_all add: create_refines clone_refines start_refines stop_refines pause_refines unpause_refines
      restart_refines destroy_refines rename_refines status_refines attribute_refines lock_refines port_refines
      SetLabels_def RemoveLabels_def label_refines import_refines checkpoint_refines)

definition succeeded :: "manager_error + 'a \<Rightarrow> bool" where
  "succeeded r = (case r of Inl _ \<Rightarrow> False | Inr _ \<Rightarrow> True)"

lemma command_step:
  assumes "run_command env c s = (s', r)"
  shows "step c (succeeded r) (vmm_state s, vmm_running s) (vmm_state s', vmm_running s')"
  using command_refines [of c env] assms
  by (auto simp: refines_def holds_def valid_def succeeded_def split: prod.splits sum.splits)

end
