(* ===== verification/ComposeBackend.thy ===== *)
theory ComposeBackend
  imports ComposeUp ManagerSpec
begin

text \<open>
  The contract between compose and the sandbox manager: what a call may do to the recorded
  status of the sandboxes. The contract is a locale, in which the effect of Up is derived;
  the model of the sandbox manager is its interpretation.
\<close>

type_synonym life = "string \<Rightarrow> VMStatus option"

definition lives :: "('w \<Rightarrow> life) \<Rightarrow> (life \<Rightarrow> bool) \<Rightarrow> ('w, 'a) cop \<Rightarrow> ('a \<Rightarrow> life \<Rightarrow> bool) \<Rightarrow> (life \<Rightarrow> bool) \<Rightarrow> bool" where
  "lives life P m Q E \<longleftrightarrow>
     valid (\<lambda>s. P (life (cpm_world s))) m (\<lambda>x s. Q x (life (cpm_world s))) (\<lambda>_ s. E (life (cpm_world s)))"

named_theorems living "rules that compute a precondition on the recorded statuses"

lemma lives_pre: "lives life P' m Q E \<Longrightarrow> (\<And>l. P l \<Longrightarrow> P' l) \<Longrightarrow> lives life P m Q E"
  unfolding lives_def by (rule valid_pre)

lemma lives_use: "lives life P m Q E \<Longrightarrow> P (life (cpm_world s)) \<Longrightarrow> m s = (s', Inr x) \<Longrightarrow> Q x (life (cpm_world s'))"
  unfolding lives_def by (drule valid_ok)

lemma lives_weaken:
  "lives life P m Q' E' \<Longrightarrow> (\<And>x l. Q' x l \<Longrightarrow> Q x l) \<Longrightarrow> (\<And>l. E' l \<Longrightarrow> E l) \<Longrightarrow> lives life P m Q E"
  unfolding lives_def by (rule valid_weaken)

lemma lives_bind [living]: "(\<And>x. lives life (R x) (k x) Q E) \<Longrightarrow> lives life P m R E \<Longrightarrow> lives life P (bind m k) Q E"
  unfolding lives_def by (rule valid_bind)

lemma lives_seq [living]: "lives life R n Q E \<Longrightarrow> lives life P m (\<lambda>_. R) E \<Longrightarrow> lives life P (seq m n) Q E"
  unfolding lives_def by (rule valid_seq)

lemma lives_return [living]: "lives life (Q x) (return x) Q E"
  unfolding lives_def by (rule valid_return)

lemma lives_throw [living]: "lives life E (throw e) Q E"
  unfolding lives_def by (rule valid_throw)

lemma lives_failIf [living]: "lives life (\<lambda>l. (b \<longrightarrow> E l) \<and> (\<not> b \<longrightarrow> Q () l)) (failIf b e) Q E"
  unfolding lives_def by (rule valid_failIf)

lemma lives_whenOp [living]:
  "lives life P m Q E \<Longrightarrow> lives life (\<lambda>l. (b \<longrightarrow> P l) \<and> (\<not> b \<longrightarrow> Q () l)) (whenOp b m) Q E"
  unfolding lives_def by (rule valid_whenOp)

lemma lives_orFail [living]:
  "lives life (\<lambda>l. (x = None \<longrightarrow> E l) \<and> (\<forall>y. x = Some y \<longrightarrow> Q y l)) (orFail e x) Q E"
  unfolding lives_def by (rule valid_orFail)

lemma lives_if [living]:
  "lives life P m Q E \<Longrightarrow> lives life P' n Q E \<Longrightarrow> lives life (\<lambda>l. (b \<longrightarrow> P l) \<and> (\<not> b \<longrightarrow> P' l)) (if b then m else n) Q E"
  by (simp add: lives_def valid_def)

lemma lives_case_option [living]:
  "lives life P m Q E \<Longrightarrow> (\<And>y. lives life (P' y) (k y) Q E) \<Longrightarrow>
   lives life (\<lambda>l. (x = None \<longrightarrow> P l) \<and> (\<forall>y. x = Some y \<longrightarrow> P' y l)) (case x of None \<Rightarrow> m | Some y \<Rightarrow> k y) Q E"
  by (cases x) (simp_all add: lives_def)

lemma lives_case_sum [living]:
  "(\<And>e. lives life (P e) (m e) Q E) \<Longrightarrow> (\<And>y. lives life (P' y) (k y) Q E) \<Longrightarrow>
   lives life (\<lambda>l. (\<forall>e. x = Inl e \<longrightarrow> P e l) \<and> (\<forall>y. x = Inr y \<longrightarrow> P' y l)) (case x of Inl e \<Rightarrow> m e | Inr y \<Rightarrow> k y) Q E"
  by (cases x) (simp_all add: lives_def)

lemma lives_case_prod [living]:
  "(\<And>a b. lives life (P a b) (k a b) Q E) \<Longrightarrow>
   lives life (\<lambda>l. \<forall>a b. x = (a, b) \<longrightarrow> P a b l) (case x of (a, b) \<Rightarrow> k a b) Q E"
  by (cases x) (simp add: lives_def)

lemma lives_reads [living]: "lives life (\<lambda>l. \<forall>x. Q x l) (reads f) Q E"
  by (simp add: lives_def valid_def reads_def)

lemma lives_world_read [living]: "lives life (\<lambda>l. \<forall>x. Q x l) (world_read f) Q E"
  by (simp add: lives_def valid_def world_read_def reads_def)

lemma lives_calls [living]:
  "lives life (\<lambda>l. Q () l) (modify (\<lambda>s. s\<lparr>cpm_calls := cpm_calls s @ [c]\<rparr>)) Q E"
  by (simp add: lives_def valid_def modify_def)

lemma lives_dns [living]:
  "lives life (\<lambda>l. Q () l) (modify (\<lambda>s. s\<lparr>cpm_dns := insert g (cpm_dns s)\<rparr>)) Q E"
  by (simp add: lives_def valid_def modify_def)

lemma lives_world_call:
  "(\<And>w w' x. f w = (w', x) \<Longrightarrow> P (life w) \<Longrightarrow> Q x (life w')) \<Longrightarrow> lives life P (world_call f) Q E"
  by (auto simp: lives_def valid_def world_call_def split: prod.split)

lemma lives_world_effect:
  "(\<And>w. life (f w) = life w) \<Longrightarrow> lives life (\<lambda>l. Q () l) (world_effect f) Q E"
  by (simp add: lives_def valid_def world_effect_def modify_def)

lemma lives_vm_op:
  assumes "\<And>w w' ok. f w = (w', ok) \<Longrightarrow> P (life w) \<Longrightarrow> Q ok (life w')"
  shows "lives life P (vm_op c f) Q E"
  unfolding vm_op_def
  by (rule lives_bind, (rule living)+, rule lives_world_call, rule assms)

text \<open>After the sandboxes \<open>pre\<close> came up: each was unknown before and is now running, or was seen stopped.\<close>

definition up_life :: "life \<Rightarrow> string list \<Rightarrow> life \<Rightarrow> bool" where
  "up_life l0 pre l \<longleftrightarrow>
     (\<forall>n. if n \<in> set pre then l0 n = None \<and> l n \<in> {Some VMStatusRunning, Some VMStatusStopped} else l n = l0 n)"

subsection \<open>The contract\<close>

locale vm_backend =
  fixes env :: "'w ComposeEnv"
    and life :: "'w \<Rightarrow> life"
  assumes create_ok: "ce_Create env n cfg w = (w', True) \<Longrightarrow> life w n = None \<and> life w' = (life w)(n \<mapsto> VMStatusCreated)"
    and create_frame: "ce_Create env n cfg w = (w', ok) \<Longrightarrow> m \<noteq> n \<Longrightarrow> life w' m = life w m"
    and start_ok: "ce_Start env n w = (w', True) \<Longrightarrow> life w n \<noteq> None \<and> life w' = (life w)(n \<mapsto> VMStatusRunning)"
    and start_frame: "ce_Start env n w = (w', ok) \<Longrightarrow> m \<noteq> n \<Longrightarrow> life w' m = life w m"
    and stop_frame: "ce_Stop env n w = (w', ok) \<Longrightarrow> m \<noteq> n \<Longrightarrow> life w' m = life w m"
    and status_law: "ce_VMStatus env n w = (w', v) \<Longrightarrow>
      life w' = life w \<or> (life w n = Some VMStatusRunning \<and> life w' = (life w)(n \<mapsto> VMStatusStopped))"
    and exec_frame: "ce_Exec env n c w = (w', x) \<Longrightarrow> life w' = life w"
    and save_frame: "ce_SaveState env g st w = (w', y) \<Longrightarrow> life w' = life w"
    and dns_frame: "ce_StartDNS env g w = (w', y) \<Longrightarrow> life w' = life w"
    and register_frame: "life (ce_Register env g n ip w) = life w"
    and volumes_frame: "ce_EnsureVolumes env g vs w = (w', z) \<Longrightarrow> life w' = life w"
begin

lemma create_lives:
  "lives life (\<lambda>l. (l n = None \<longrightarrow> Q True (l(n \<mapsto> VMStatusCreated))) \<and> (\<forall>l'. (\<forall>m. m \<noteq> n \<longrightarrow> l' m = l m) \<longrightarrow> Q False l'))
     (vm_create env n cfg) Q E"
  unfolding vm_create_def
proof (rule lives_vm_op)
  fix w w' ok
  assume run: "ce_Create env n cfg w = (w', ok)" and pre: "(life w n = None \<longrightarrow> Q True ((life w)(n \<mapsto> VMStatusCreated))) \<and>
    (\<forall>l'. (\<forall>m. m \<noteq> n \<longrightarrow> l' m = life w m) \<longrightarrow> Q False l')"
  show "Q ok (life w')"
    using create_ok [of n cfg w w'] create_frame [OF run] run pre by (cases ok) auto
qed

lemma start_lives:
  "lives life (\<lambda>l. (l n \<noteq> None \<longrightarrow> Q True (l(n \<mapsto> VMStatusRunning))) \<and> (\<forall>l'. (\<forall>m. m \<noteq> n \<longrightarrow> l' m = l m) \<longrightarrow> Q False l'))
     (vm_start env n) Q E"
  unfolding vm_start_def
proof (rule lives_vm_op)
  fix w w' ok
  assume run: "ce_Start env n w = (w', ok)" and pre: "(life w n \<noteq> None \<longrightarrow> Q True ((life w)(n \<mapsto> VMStatusRunning))) \<and>
    (\<forall>l'. (\<forall>m. m \<noteq> n \<longrightarrow> l' m = life w m) \<longrightarrow> Q False l')"
  show "Q ok (life w')"
    using start_ok [of n w w'] start_frame [OF run] run pre by (cases ok) auto
qed

lemma stop_lives:
  "lives life (\<lambda>l. \<forall>l' ok. (\<forall>m. m \<noteq> n \<longrightarrow> l' m = l m) \<longrightarrow> Q ok l') (vm_stop env n) Q E"
  unfolding vm_stop_def by (rule lives_vm_op) (use stop_frame in blast)

lemma status_lives:
  "lives life (\<lambda>l. \<forall>v. Q v l \<and> (l n = Some VMStatusRunning \<longrightarrow> Q v (l(n \<mapsto> VMStatusStopped))))
     (world_call (ce_VMStatus env n)) Q E"
  by (rule lives_world_call) (metis status_law)

lemma frame_lives:
  "lives life (\<lambda>l. \<forall>x. Q1 x l) (world_call (ce_Exec env n c)) Q1 E"
  "lives life (\<lambda>l. \<forall>x. Q3 x l) (world_call (ce_StartDNS env g)) Q3 E"
  "lives life (\<lambda>l. \<forall>x. Q4 x l) (world_call (ce_EnsureVolumes env g vs)) Q4 E"
  by (rule lives_world_call, use exec_frame dns_frame volumes_frame in metis)+

lemma save_lives: "lives life (\<lambda>l. \<forall>x. Q x l) (save_status env g st) Q E"
  unfolding save_status_def by (rule lives_vm_op) (use save_frame in metis)

lemma register_lives: "lives life (\<lambda>l. Q () l) (register_dns env grp n ip) Q E"
  unfolding register_dns_def
  by (rule lives_pre, (rule living lives_world_effect register_frame)+) simp

lemma hook_commands_lives: "lives life (\<lambda>l. \<forall>x. Q x l) (run_hook_commands env n cont cmds) Q E"
proof (induction cmds)
  case Nil
  show ?case unfolding run_hook_commands.simps by (rule lives_pre [OF lives_return]) simp
next
  case (Cons cmd cmds)
  show ?case unfolding run_hook_commands.simps
    by (rule lives_pre, (rule Cons living frame_lives)+) simp
qed

lemma runHooks_lives: "lives life (\<lambda>l. \<forall>x. Q x l) (runHooks env n hooks phase cont) Q E"
  unfolding runHooks_def by (rule lives_pre, (rule living hook_commands_lives)+) simp

lemma sandbox_env_lives: "lives life (\<lambda>l. (\<forall>x. Q x l) \<and> E l) (sandbox_env env n sb) Q E"
  unfolding sandbox_env_def by (rule lives_pre, (rule living)+) simp

lemmas backend_lives = create_lives start_lives stop_lives status_lives frame_lives save_lives register_lives runHooks_lives
  sandbox_env_lives

lemma up_one_lives:
  "lives life (\<lambda>l. l = l0) (up_one env grp sbs paths n status)
     (\<lambda>_ l. l0 n = None \<and> l n \<in> {Some VMStatusRunning, Some VMStatusStopped} \<and> (\<forall>m. m \<noteq> n \<longrightarrow> l m = l0 m)) (\<lambda>_. True)"
  unfolding up_one_def post_create_hooks_def post_start_hooks_def
  by (rule lives_pre, (rule living backend_lives)+) auto

lemma up_loop_lives:
  "distinct (pre @ names) \<Longrightarrow>
   lives life (up_life l0 pre) (up_loop env grp sbs paths names status) (\<lambda>_. up_life l0 (pre @ names)) (\<lambda>_. True)"
proof (induction names arbitrary: pre status)
  case Nil
  show ?case unfolding up_loop.simps by (rule lives_pre [OF lives_return]) simp
next
  case (Cons n ns)
  have one: "lives life (up_life l0 pre) (up_one env grp sbs paths n status) (\<lambda>_. up_life l0 (pre @ [n])) (\<lambda>_. True)"
    unfolding lives_def valid_def
  proof (intro allI impI)
    fix s :: "'w ComposeManager"
    assume inv: "up_life l0 pre (life (cpm_world s))"
    obtain s' r where run: "up_one env grp sbs paths n status s = (s', r)"
      by (cases "up_one env grp sbs paths n status s")
    have "up_life l0 (pre @ [n]) (life (cpm_world s'))" if ok: "r = Inr x" for x
    proof -
      have now: "life (cpm_world s) n = None" "life (cpm_world s') n \<in> {Some VMStatusRunning, Some VMStatusStopped}"
        "\<And>m. m \<noteq> n \<Longrightarrow> life (cpm_world s') m = life (cpm_world s) m"
        using lives_use [OF up_one_lives refl run [unfolded ok]] by simp_all
      have "n \<notin> set pre" using Cons.prems by simp
      then have "l0 n = None" using inv now(1) unfolding up_life_def by metis
      then show ?thesis using inv now(2,3) unfolding up_life_def by (metis (no_types, lifting) Un_iff empty_iff insert_iff list.set set_append)
    qed
    then show "case up_one env grp sbs paths n status s of
        (s', Inr x) \<Rightarrow> up_life l0 (pre @ [n]) (life (cpm_world s')) | (s', Inl e) \<Rightarrow> True"
      using run by (cases r) simp_all
  qed
  have "lives life (up_life l0 (pre @ [n])) (up_loop env grp sbs paths ns st) (\<lambda>_. up_life l0 (pre @ n # ns)) (\<lambda>_. True)" for st
    using Cons.IH [of "pre @ [n]" st] Cons.prems by simp
  then show ?case unfolding up_loop.simps by (rule lives_bind [OF _ one])
qed

lemma Up_lives:
  assumes "TopologicalOrder config = Some order" "distinct order" "Up env grp config s = (s', Inr st)"
  shows "\<forall>n. if n \<in> set order
    then life (cpm_world s) n = None \<and> life (cpm_world s') n \<in> {Some VMStatusRunning, Some VMStatusStopped}
    else life (cpm_world s') n = life (cpm_world s) n"
proof -
  have found: "bind (orFail EngOutOfFuel (TopologicalOrder config)) k = k order"
    for k :: "string list \<Rightarrow> ('w, ComposeStatus) cop"
    using assms(1) by (simp add: orFail_def bind_def return_def)
  have loop: "lives life (up_life l0 []) (up_loop env grp (cc_Sandboxes config) paths order status)
      (\<lambda>_. up_life l0 order) (\<lambda>_. True)" for l0 paths status
    using up_loop_lives [of "[]" order] assms(2) by simp
  have "lives life (\<lambda>l. l = life (cpm_world s)) (Up env grp config) (\<lambda>_. up_life (life (cpm_world s)) order) (\<lambda>_. True)"
    unfolding Up_def found
    by (rule lives_pre, (rule living backend_lives loop)+) (simp add: up_life_def)
  then have "up_life (life (cpm_world s)) order (life (cpm_world s'))" by (rule lives_use [where s = s]) (simp_all add: assms(3))
  then show ?thesis unfolding up_life_def .
qed

end

end
