(* ===== verification/ManagerClaims.thy ===== *)
theory ManagerClaims
  imports ManagerSpec
begin

text \<open>
  The properties of the sandbox manager: the refinement of the abstract transition system,
  the invariant of the table of instances, the protection of locked sandboxes, and what
  destroying a paused sandbox leaves behind.
\<close>

fun run_commands :: "('w, 'h) ManagerEnv \<Rightarrow> command list \<Rightarrow> ('w, 'h) VMManager \<Rightarrow> ('w, 'h) VMManager" where
  "run_commands env [] s = s"
| "run_commands env (c # cs) s = run_commands env cs (fst (run_command env c s))"

lemma command_step_fst:
  "\<exists>ok. step c ok (vmm_state s, vmm_running s) (vmm_state (fst (run_command env c s)), vmm_running (fst (run_command env c s)))"
  using command_step [of env c s] by (metis prod.collapse)

subsection \<open>Tracked instances\<close>

definition tracked_recorded :: "store \<times> (string \<Rightarrow> 'h option) \<Rightarrow> bool" where
  "tracked_recorded = (\<lambda>(st, run). \<forall>n. run n \<noteq> None \<longrightarrow>
     (\<exists>vm. st n = Some vm \<and> vs_Status vm \<in> {VMStatusRunning, VMStatusPaused}))"

text \<open>The commands that would drop the record of a paused sandbox.\<close>

definition drops_paused :: "command \<Rightarrow> store \<Rightarrow> bool" where
  "drops_paused c st \<longleftrightarrow>
     (\<exists>n vm. st n = Some vm \<and> vs_Status vm = VMStatusPaused \<and> (c = CmdDestroy n \<or> (\<exists>m. c = CmdRename n m)))"

fun no_drops :: "('w, 'h) ManagerEnv \<Rightarrow> command list \<Rightarrow> ('w, 'h) VMManager \<Rightarrow> bool" where
  "no_drops env [] s \<longleftrightarrow> True"
| "no_drops env (c # cs) s \<longleftrightarrow> \<not> drops_paused c (vmm_state s) \<and> no_drops env cs (fst (run_command env c s))"

lemma step_tracked:
  "step c ok a b \<Longrightarrow> tracked_recorded a \<Longrightarrow> \<not> drops_paused c (fst a) \<Longrightarrow> tracked_recorded b"
proof (induction rule: step.induct)
  case (destroy st n vm run ok)
  then have "vs_Status vm \<noteq> VMStatusPaused" by (auto simp: drops_paused_def)
  then have "run n = None" using destroy by (auto simp: tracked_recorded_def)
  then show ?case using destroy by (auto simp: tracked_recorded_def)
next
  case (destroy_stop n sok st run st' run' vm ok)
  have "tracked_recorded (st', run')" using destroy_stop by (simp add: drops_paused_def)
  moreover have "run' n = None" using destroy_stop.hyps by (auto elim: stop_step)
  ultimately show ?case by (auto simp: tracked_recorded_def)
next
  case (rename st m vm n ok run t)
  then have "vs_Status vm \<noteq> VMStatusPaused" by (auto simp: drops_paused_def)
  then have "run m = None" using rename by (auto simp: tracked_recorded_def)
  moreover have "run n = None" using rename by (auto simp: tracked_recorded_def)
  ultimately show ?case using rename by (auto simp: tracked_recorded_def)
next
  case (attribute c n st vm vm' ok run t)
  then show ?case using sets_same_life[of c vm vm'] by (auto simp: tracked_recorded_def same_life_def)
qed (auto simp: tracked_recorded_def drops_paused_def)

text \<open>
  C1: Every operation of the sandbox manager that writes the store of sandboxes or the table
  of instances (manager.go and device.go over state.go: creating, cloning, importing,
  starting, stopping, pausing, restarting, destroying, renaming, locking, and setting
  attributes, configuration, devices, health, address and checkpoints), for any behaviour of
  the disk, the hypervisor and the network, storage and policy managers, is a step of the
  abstract transition system of a sandbox: a command changes only the sandboxes it names and
  an import only the one it makes, only along the edges create, import, start, stop, pause,
  unpause, destroy and rename or by setting the attributes it is about, a restart is a stop
  and a start, and a failed command leaves the state alone or stops at a recorded
  intermediate one.
\<close>
theorem manager_refines:
  assumes "run_command env c s = (s', r)"
  shows "step c (succeeded r) (vmm_state s, vmm_running s) (vmm_state s', vmm_running s')"
  by (rule command_step [OF assms])

text \<open>
  C5: From a manager that tracks no instance, every sequence of commands that does not
  destroy or rename a paused sandbox keeps the table of running instances consistent with
  the store: a tracked instance has a record, and the record says running or paused.
\<close>
theorem manager_tracked:
  assumes "tracked_recorded (vmm_state s, vmm_running s)" "no_drops env cs s"
  shows "tracked_recorded (vmm_state (run_commands env cs s), vmm_running (run_commands env cs s))"
  using assms
proof (induction cs arbitrary: s)
  case Nil then show ?case by simp
next
  case (Cons c cs)
  let ?s = "fst (run_command env c s)"
  obtain ok where "step c ok (vmm_state s, vmm_running s) (vmm_state ?s, vmm_running ?s)"
    using command_step_fst by blast
  then have "tracked_recorded (vmm_state ?s, vmm_running ?s)"
    by (rule step_tracked) (use Cons.prems in auto)
  then show ?case using Cons.IH Cons.prems by simp
qed

subsection \<open>Locks\<close>

definition locked_for :: "string \<Rightarrow> string \<Rightarrow> store \<Rightarrow> bool" where
  "locked_for n reason st \<longleftrightarrow> (\<exists>vm. st n = Some vm \<and> vs_Locked vm \<and> vs_LockedReason vm = reason)"

lemma step_locked:
  "step c ok a b \<Longrightarrow> locked_for n reason (fst a) \<Longrightarrow> c \<noteq> CmdUnlock n \<Longrightarrow> (\<forall>m. c \<noteq> CmdRename n m) \<Longrightarrow>
   locked_for n reason (fst b)"
proof (induction arbitrary: rule: step.induct)
  case (destroy_stop m sok st run st' run' vm ok)
  then show ?case by (auto simp: locked_for_def)
next
  case (attribute c m st vm vm' ok run t)
  then show ?case using sets_same_life[of c vm vm'] by (auto simp: locked_for_def same_life_def)
qed (auto simp: locked_for_def)

text \<open>
  C4: While a sandbox is locked, Stop, Destroy and UpdateConfig of it are refused and change
  nothing at all, and no sequence of commands other than unlocking or renaming it removes
  its record, its lock or the reason of the lock.
\<close>
theorem manager_lock:
  assumes "vmm_state s n = Some vm" "vs_Locked vm"
    and "\<forall>c \<in> set cs. c \<noteq> CmdUnlock n \<and> (\<forall>m. c \<noteq> CmdRename n m)"
  shows "locked_for n (vs_LockedReason vm) (vmm_state (run_commands env cs s)) \<and>
    (\<forall>c \<in> {CmdStop n, CmdDestroy n, CmdUpdateConfig n cfg}.
       run_command env c s = (s, Inl (MgrLocked n (vs_LockedReason vm))))"
proof
  have "locked_for n (vs_LockedReason vm) (vmm_state s)" using assms by (simp add: locked_for_def)
  then show "locked_for n (vs_LockedReason vm) (vmm_state (run_commands env cs s))"
    using assms(3)
  proof (induction cs arbitrary: s)
    case Nil then show ?case by simp
  next
    case (Cons c cs)
    let ?s = "fst (run_command env c s)"
    obtain ok where "step c ok (vmm_state s, vmm_running s) (vmm_state ?s, vmm_running ?s)"
      using command_step_fst by blast
    then have "locked_for n (vs_LockedReason vm) (vmm_state ?s)"
      using step_locked [of c ok "(vmm_state s, vmm_running s)" "(vmm_state ?s, vmm_running ?s)"] Cons.prems by auto
    then show ?case using Cons by simp
  qed
  show "\<forall>c \<in> {CmdStop n, CmdDestroy n, CmdUpdateConfig n cfg}.
      run_command env c s = (s, Inl (MgrLocked n (vs_LockedReason vm)))"
    using assms by (auto simp: Stop_def Destroy_def UpdateConfig_def seq_def bind_def checkLock_def reads_def
        failIf_def throw_def)
qed

text \<open>The lock does not cover renaming, which moves the record of a stopped sandbox.\<close>

lemma rename_ignores_lock:
  assumes "vmm_state s a = Some vm" "vs_Locked vm" "vs_Status vm = VMStatusStopped" "vmm_state s b = None" "a \<noteq> b"
    and "\<And>st w. snd (me_WriteState env st w)"
  shows "\<exists>s'. RenameVM env a b s = (s', Inr ()) \<and> vmm_state s' a = None"
  using assms
  by (auto simp: RenameVM_def state_RenameVM_def save_state_def GetVM_def seq_def bind_def reads_def failIf_def
      return_def orFail_def askWorld_def effect_def modify_def put_vm_def mustCall_def call_def logEvent_def
      split: prod.split) (metis snd_conv)

subsection \<open>Paused sandboxes\<close>

definition cleanup_succeeds :: "('w, 'h) ManagerEnv \<Rightarrow> bool" where
  "cleanup_succeeds env \<longleftrightarrow>
     (\<forall>n w. snd (me_CleanupNetwork env n w)) \<and> (\<forall>n w. snd (me_DestroyStorage env n w)) \<and>
     (\<forall>st w. snd (me_WriteState env st w))"

lemma mustCall_ok: "(\<And>w. snd (f w)) \<Longrightarrow> mustCall e f s = (s\<lparr>vmm_world := fst (f (vmm_world s))\<rparr>, Inr ())"
  by (simp add: mustCall_def call_def bind_def failIf_def return_def split: prod.split) (metis snd_conv)

lemma tryCall_run: "tryCall f s = (s\<lparr>vmm_world := fst (f (vmm_world s))\<rparr>, Inr ())"
  by (simp add: tryCall_def call_def bind_def return_def split: prod.split)

text \<open>
  Destroying a paused sandbox (whose cleanup and state file writes succeed) reports
  success and deletes its record, but does not stop its instance: the hypervisor instance
  stays in the table under a name that has no record, where Stop, Pause and Unpause answer
  that the sandbox does not exist.
\<close>
theorem manager_destroy_paused:
  assumes "cleanup_succeeds env" "vmm_state s n = Some vm" "vs_Status vm = VMStatusPaused" "\<not> vs_Locked vm"
    "vmm_running s n = Some h"
  shows "\<exists>s'. Destroy env n s = (s', Inr ()) \<and> vmm_state s' n = None \<and> vmm_running s' n = Some h \<and>
    (\<forall>c \<in> {CmdStop n, CmdPause n, CmdUnpause n}. run_command env c s' = (s', Inl (MgrNotFound n)))"
proof -
  have ok: "\<And>n w. snd (me_CleanupNetwork env n w)" "\<And>n w. snd (me_DestroyStorage env n w)"
    "\<And>st w. snd (me_WriteState env st w)" using assms(1) by (auto simp: cleanup_succeeds_def)
  have "\<exists>s'. Destroy env n s = (s', Inr ()) \<and> vmm_state s' n = None \<and> vmm_running s' n = Some h"
    using assms
    by (auto simp: Destroy_def checkLock_def GetVM_def DeleteVM_def save_state_def seq_def bind_def reads_def
        failIf_def return_def orFail_def whenOp_def modify_def logEvent_def effect_def tryCall_run
        mustCall_ok [OF ok(1)] mustCall_ok [OF ok(2)] mustCall_ok [OF ok(3)])
  then show ?thesis
    by (auto simp: Stop_def Pause_def Unpause_def checkLock_def GetVM_def seq_def bind_def reads_def
        return_def orFail_def throw_def)
qed

subsection \<open>Instances\<close>

text \<open>An environment in which every call succeeds; instances are numbered from the world.\<close>

definition calm_env :: "(nat, nat) ManagerEnv" where
  "calm_env = \<lparr>me_Now = int, me_WriteState = (\<lambda>_ w. (w, True)), me_SaveConfig = (\<lambda>_ w. (w, True)),
     me_ReadConfig = (\<lambda>_ _. None), me_RenameFiles = (\<lambda>_ _ w. w), me_CreateRootFS = (\<lambda>n _ w. (w, Some n)),
     me_CloneRootFS = (\<lambda>_ n w. (w, Some n)), me_DestroyStorage = (\<lambda>_ w. (w, True)),
     me_SetupNetwork = (\<lambda>_ _ w. (w, Some ''tap0'')), me_CleanupNetwork = (\<lambda>_ w. (w, True)),
     me_SetupForwards = (\<lambda>_ _ w. (w, True)), me_ActivateForwards = (\<lambda>_ _ w. (w, True)),
     me_RemoveForwards = (\<lambda>_ w. (w, True)), me_AddForward = (\<lambda>_ _ _ _ w. (w, True)),
     me_RemoveForward = (\<lambda>_ _ w. (w, True)),
     me_SetPolicy = (\<lambda>n a d w. (w, Some \<lparr>np_Name = n, np_Allowed = a, np_Denied = d\<rparr>)),
     me_EnsureDefaultPolicy = (\<lambda>n w. (w, Some \<lparr>np_Name = n, np_Allowed = [], np_Denied = []\<rparr>)),
     me_SavePolicy = (\<lambda>_ w. (w, True)), me_GetPolicy = (\<lambda>_ _. None),
     me_GenerateSSHKeys = (\<lambda>_ w. (w, Some (''key'', ''key.pub''))), me_RemoveSSHKeys = (\<lambda>_ w. (w, True)),
     me_Provision = (\<lambda>_ _ w. w), me_PrepareMounts = (\<lambda>_ _ w. (w, Some [])), me_SaveMounts = (\<lambda>_ _ w. (w, True)),
     me_LoadMounts = (\<lambda>_ _. None), me_RemoveMounts = (\<lambda>_ w. (w, True)), me_Kernel = (\<lambda>w. (w, Some (''vmlinuz'', []))),
     me_HostHook = (\<lambda>_ _ w. (w, True)), me_SSHHook = (\<lambda>_ _ _ _ w. (w, True)),
     me_CreateVM = (\<lambda>_ w. (w + 1, Some w)), me_SetNetwork = (\<lambda>_ _ _ w. w), me_AddMounts = (\<lambda>_ _ w. w),
     me_OpenConsole = (\<lambda>_ _ w. (w, True)), me_CloseConsole = (\<lambda>_ w. w), me_VMStart = (\<lambda>_ w. (w, True)),
     me_VMStop = (\<lambda>_ w. (w, True)), me_VMPause = (\<lambda>_ w. (w, True)), me_VMUnpause = (\<lambda>_ w. (w, True)),
     me_VMStatus = (\<lambda>_ _. VMStatusRunning), me_GetIP = (\<lambda>_ _. ''10.0.0.2''), me_SetIP = (\<lambda>_ _ w. w),
     me_DiscoverIP = (\<lambda>_ w. (w, [])), me_ApplyFirewall = (\<lambda>_ _ w. w), me_RemoveFirewall = (\<lambda>_ w. w),
     me_ApplyLimits = (\<lambda>_ _ _ w. w), me_RemoveLimits = (\<lambda>_ w. w), me_LogEvent = (\<lambda>_ _ w. w),
     me_RecordStart = (\<lambda>_ _ _ w. w), me_RecordStop = (\<lambda>_ w. w), me_Sleep = (\<lambda>_ w. w),
     me_ReadArchive = (\<lambda>_ _. None), me_RenameConfig = (\<lambda>c _. c), me_WriteConfigFile = (\<lambda>_ _ w. (w, True)),
     me_WriteRootFS = (\<lambda>n _ w. (w, Some n)), me_ReadCheckpoint = (\<lambda>_ _ _. None),
     me_CheckpointDisk = (\<lambda>_ _ _. None), me_CopyDisk = (\<lambda>_ _ w. (w, True))\<rparr>"

definition paused_box :: "(nat, nat) VMManager" where
  "paused_box = \<lparr>vmm_state = [''box'' \<mapsto> zero_state\<lparr>vs_Name := ''box'', vs_Status := VMStatusPaused,
       vs_TAPDevice := ''tap0''\<rparr>], vmm_running = [''box'' \<mapsto> 0], vmm_world = 1\<rparr>"

definition locked_box :: "(nat, nat) VMManager" where
  "locked_box = \<lparr>vmm_state = [''box'' \<mapsto> zero_state\<lparr>vs_Name := ''box'', vs_Status := VMStatusRunning,
       vs_Locked := True, vs_LockedReason := ''keep''\<rparr>], vmm_running = [''box'' \<mapsto> 0], vmm_world = 1\<rparr>"

lemmas run_defs = seq_def bind_def reads_def failIf_def return_def throw_def orFail_def whenOp_def modify_def
  attempt_def call_def effect_def askWorld_def mustCall_def mustGet_def tryCall_def set_vm_def track_def
  save_state_def GetVM_def UpdateVM_def logEvent_def checkLock_def

lemma manager_refines_witness:
  "\<exists>s'. run_command calm_env (CmdUnpause ''box'') paused_box = (s', Inr ()) \<and>
     step (CmdUnpause ''box'') True (vmm_state paused_box, vmm_running paused_box) (vmm_state s', vmm_running s')"
proof -
  obtain s' where r: "run_command calm_env (CmdUnpause ''box'') paused_box = (s', Inr ())"
    by (simp add: Unpause_def run_defs calm_env_def paused_box_def zero_state_def)
  show ?thesis using manager_refines [OF r] r by (simp add: succeeded_def)
qed

lemma manager_tracked_witness:
  "tracked_recorded (vmm_state (run_commands calm_env [CmdUnpause ''box'', CmdStop ''box''] paused_box),
     vmm_running (run_commands calm_env [CmdUnpause ''box'', CmdStop ''box''] paused_box))"
proof (rule manager_tracked)
  show "tracked_recorded (vmm_state paused_box, vmm_running paused_box)"
    by (simp add: tracked_recorded_def paused_box_def zero_state_def)
  show "no_drops calm_env [CmdUnpause ''box'', CmdStop ''box''] paused_box"
    by (simp add: drops_paused_def)
qed

lemma manager_lock_witness:
  "locked_for ''box'' ''keep'' (vmm_state (run_commands calm_env [CmdStop ''box'', CmdDestroy ''box''] locked_box)) \<and>
   run_command calm_env (CmdStop ''box'') locked_box = (locked_box, Inl (MgrLocked ''box'' ''keep''))"
proof -
  obtain vm where vm: "vmm_state locked_box ''box'' = Some vm" "vs_Locked vm" "vs_LockedReason vm = ''keep''"
    by (simp add: locked_box_def zero_state_def)
  have "\<forall>c \<in> set [CmdStop ''box'', CmdDestroy ''box'']. c \<noteq> CmdUnlock ''box'' \<and> (\<forall>m. c \<noteq> CmdRename ''box'' m)"
    by simp
  from manager_lock [OF vm(1,2) this, of calm_env] vm(3) show ?thesis
    by (simp del: run_commands.simps run_command.simps)
qed

lemma manager_destroy_paused_witness:
  "\<exists>s'. Destroy calm_env ''box'' paused_box = (s', Inr ()) \<and> vmm_state s' ''box'' = None \<and>
     vmm_running s' ''box'' = Some 0"
proof -
  obtain vm where vm: "vmm_state paused_box ''box'' = Some vm" "vs_Status vm = VMStatusPaused" "\<not> vs_Locked vm"
    by (simp add: paused_box_def zero_state_def)
  have "cleanup_succeeds calm_env" by (simp add: cleanup_succeeds_def calm_env_def)
  moreover have "vmm_running paused_box ''box'' = Some 0" by (simp add: paused_box_def)
  ultimately show ?thesis using manager_destroy_paused [OF _ vm, of calm_env 0] by auto
qed

end
