(* ===== verification/ComposeRun.thy ===== *)
theory ComposeRun
  imports ComposeBackend ComposeUp ManagerClaims ComposeClaims
begin

text \<open>
  Compose groups run by the sandbox manager: the manager's operations as the backend of the
  compose engine, the contract discharged on them, and the properties of Up and Down.
\<close>

subsection \<open>The sandbox manager as the backend\<close>

definition manager_env ::
  "('v, 'h) ManagerEnv \<Rightarrow> 'r ComposeEnv \<Rightarrow> (('v, 'h) VMManager \<times> 'r) ComposeEnv" where
  "manager_env menv io = \<lparr>
     ce_Create = (\<lambda>n cfg (m, r). case Create menv n cfg m of (m', res) \<Rightarrow> ((m', r), succeeded res)),
     ce_Start = (\<lambda>n (m, r). case Start menv n m of (m', res) \<Rightarrow> ((m', r), succeeded res)),
     ce_Stop = (\<lambda>n (m, r). case Stop menv n m of (m', res) \<Rightarrow> ((m', r), succeeded res)),
     ce_Destroy = (\<lambda>n (m, r). case Destroy menv n m of (m', res) \<Rightarrow> ((m', r), succeeded res)),
     ce_VMStatus = (\<lambda>n (m, r). case Status menv n m of
         (m', Inl _) \<Rightarrow> ((m', r), None)
       | (m', Inr st) \<Rightarrow> ((m', r), Some (VMStatus_String (vs_Status st), vs_IP st, vs_PID st))),
     ce_Exec = (\<lambda>n c (m, r). case ce_Exec io n c r of (r', x) \<Rightarrow> ((m, r'), x)),
     ce_LoadState = (\<lambda>g (m, r). ce_LoadState io g r),
     ce_SaveState = (\<lambda>g st (m, r). case ce_SaveState io g st r of (r', ok) \<Rightarrow> ((m, r'), ok)),
     ce_DeleteState = (\<lambda>g (m, r). case ce_DeleteState io g r of (r', ok) \<Rightarrow> ((m, r'), ok)),
     ce_StartDNS = (\<lambda>g (m, r). case ce_StartDNS io g r of (r', ok) \<Rightarrow> ((m, r'), ok)),
     ce_StopDNS = (\<lambda>g (m, r). (m, ce_StopDNS io g r)),
     ce_Register = (\<lambda>g n ip (m, r). (m, ce_Register io g n ip r)),
     ce_Unregister = (\<lambda>g n (m, r). (m, ce_Unregister io g n r)),
     ce_EnsureVolumes = (\<lambda>g vs (m, r). case ce_EnsureVolumes io g vs r of (r', x) \<Rightarrow> ((m, r'), x)),
     ce_RemoveVolumes = (\<lambda>g (m, r). case ce_RemoveVolumes io g r of (r', ok) \<Rightarrow> ((m, r'), ok)),
     ce_ReadFile = (\<lambda>(m, r). ce_ReadFile io r),
     ce_Join = ce_Join io, ce_LookupEnv = ce_LookupEnv io, ce_IsIP = ce_IsIP io\<rparr>"

definition manager_life :: "('v, 'h) VMManager \<times> 'r \<Rightarrow> life" where
  "manager_life w = (\<lambda>n. map_option vs_Status (vmm_state (fst w) n))"

inductive_cases create_step: "step (CmdCreate n cfg) ok (st, run) (st', run')"
inductive_cases status_step: "step (CmdStatus n) ok (st, run) (st', run')"

lemma create_life:
  "Create menv n cfg m = (m', r) \<Longrightarrow>
   (succeeded r \<longrightarrow> vmm_state m n = None \<and>
     (\<lambda>k. map_option vs_Status (vmm_state m' k)) = (\<lambda>k. map_option vs_Status (vmm_state m k))(n \<mapsto> VMStatusCreated)) \<and>
   (\<forall>k. k \<noteq> n \<longrightarrow> vmm_state m' k = vmm_state m k)"
  by (rule create_step [OF command_step [of menv "CmdCreate n cfg" m m' r, unfolded run_command.simps]]) (auto simp: fun_eq_iff succeeded_def split: sum.splits)

lemma start_life:
  "Start menv n m = (m', r) \<Longrightarrow>
   (succeeded r \<longrightarrow> vmm_state m n \<noteq> None \<and>
     (\<lambda>k. map_option vs_Status (vmm_state m' k)) = (\<lambda>k. map_option vs_Status (vmm_state m k))(n \<mapsto> VMStatusRunning)) \<and>
   (\<forall>k. k \<noteq> n \<longrightarrow> vmm_state m' k = vmm_state m k)"
  by (rule start_step [OF command_step [of menv "CmdStart n" m m' r, unfolded run_command.simps]]) (auto simp: fun_eq_iff succeeded_def split: sum.splits)

lemma stop_life: "Stop menv n m = (m', r) \<Longrightarrow> k \<noteq> n \<Longrightarrow> vmm_state m' k = vmm_state m k"
  using command_step [of menv "CmdStop n" m m' r] by (auto elim: stop_step)

lemma status_life:
  assumes "Status menv n m = (m', r)"
  shows "(\<lambda>k. map_option vs_Status (vmm_state m' k)) = (\<lambda>k. map_option vs_Status (vmm_state m k)) \<or>
    (map_option vs_Status (vmm_state m n) = Some VMStatusRunning \<and>
     (\<lambda>k. map_option vs_Status (vmm_state m' k)) = (\<lambda>k. map_option vs_Status (vmm_state m k))(n \<mapsto> VMStatusStopped))"
proof -
  have "\<exists>r'. run_command menv (CmdStatus n) m = (m', r')"
    using assms by (simp add: bind_def return_def split: sum.split)
  then obtain ok where "step (CmdStatus n) ok (vmm_state m, vmm_running m) (vmm_state m', vmm_running m')"
    using command_step by blast
  then show ?thesis by (rule status_step) (auto simp: same_life_def fun_eq_iff)
qed

interpretation mgr: vm_backend "manager_env menv io" manager_life for menv io
proof
  fix n cfg and w w' :: "('a, 'b) VMManager \<times> 'c"
  assume "ce_Create (manager_env menv io) n cfg w = (w', True)"
  then show "manager_life w n = None \<and> manager_life w' = (manager_life w)(n \<mapsto> VMStatusCreated)"
    using create_life [of menv n cfg "fst w"]
    by (auto simp: manager_env_def manager_life_def split: prod.splits)
next
  fix n cfg m ok and w w' :: "('a, 'b) VMManager \<times> 'c"
  assume "ce_Create (manager_env menv io) n cfg w = (w', ok)" "m \<noteq> n"
  then show "manager_life w' m = manager_life w m"
    using create_life [of menv n cfg "fst w"]
    by (auto simp: manager_env_def manager_life_def split: prod.splits)
next
  fix n and w w' :: "('a, 'b) VMManager \<times> 'c"
  assume "ce_Start (manager_env menv io) n w = (w', True)"
  then show "manager_life w n \<noteq> None \<and> manager_life w' = (manager_life w)(n \<mapsto> VMStatusRunning)"
    using start_life [of menv n "fst w"]
    by (auto simp: manager_env_def manager_life_def split: prod.splits)
next
  fix n m ok and w w' :: "('a, 'b) VMManager \<times> 'c"
  assume "ce_Start (manager_env menv io) n w = (w', ok)" "m \<noteq> n"
  then show "manager_life w' m = manager_life w m"
    using start_life [of menv n "fst w"]
    by (auto simp: manager_env_def manager_life_def split: prod.splits)
next
  fix n m ok and w w' :: "('a, 'b) VMManager \<times> 'c"
  assume "ce_Stop (manager_env menv io) n w = (w', ok)" "m \<noteq> n"
  then show "manager_life w' m = manager_life w m"
    using stop_life [of menv n "fst w"]
    by (auto simp: manager_env_def manager_life_def split: prod.splits)
next
  fix n v and w w' :: "('a, 'b) VMManager \<times> 'c"
  assume "ce_VMStatus (manager_env menv io) n w = (w', v)"
  then show "manager_life w' = manager_life w \<or>
      (manager_life w n = Some VMStatusRunning \<and> manager_life w' = (manager_life w)(n \<mapsto> VMStatusStopped))"
    using status_life [of menv n "fst w"]
    by (auto simp: manager_env_def manager_life_def split: prod.splits sum.splits)
qed (auto simp: manager_env_def manager_life_def split: prod.splits)

subsection \<open>Properties\<close>

text \<open>
  C2: Up of a configuration that Validate accepts creates the sandboxes in the start order,
  each at most once and only after every sandbox it depends on was successfully started,
  whatever the calls return, and after each round it saves the group's status, which lists
  exactly the sandboxes brought up so far: a run that fails leaves at most one created
  sandbox, the last, out of the saved status. When it succeeds, all of them were created and
  started, and the returned status lists exactly them, in that order, and is the one saved
  last (ComposeManager.Up).
\<close>
theorem compose_up_order:
  assumes "Validate c0 = (c, None)" "cpm_calls s = []" "Up env grp c s = (s', r)"
  shows "\<exists>order j k. TopologicalOrder c = Some order \<and>
    created_names (cpm_calls s') = take k order \<and> deps_started (cc_Sandboxes c) (cpm_calls s') \<and>
    saved_names (cpm_calls s') = growing grp (take j order) \<and> j \<le> k \<and> k \<le> Suc j \<and>
    (\<forall>st. r = Inr st \<longrightarrow> created_names (cpm_calls s') = order \<and> saved_names (cpm_calls s') = growing grp order \<and>
       map fst (cs_Sandboxes st) = order \<and> cs_StartOrder st = order \<and>
       (order \<noteq> [] \<longrightarrow> last (saves (cpm_calls s')) = (grp, st)) \<and>
       (\<forall>n \<in> set order. CallStart n True \<in> set (cpm_calls s')))"
proof -
  obtain order where order: "TopologicalOrder c = Some order" "distinct order" "deps_first (cc_Sandboxes c) order"
    using validated_order [OF assms(1)] by metis
  have run: "case r of
      Inr st \<Rightarrow> up_inv grp (cc_Sandboxes c) st (cpm_calls s') \<and> map fst (cs_Sandboxes st) = order \<and>
        cs_StartOrder st = order \<and> set order \<subseteq> keys_of (cc_Sandboxes c)
    | Inl e \<Rightarrow> up_failed grp (cc_Sandboxes c) order (cpm_calls s')"
    by (rule traced_use [OF Up_traced [OF order(1,3,2)] assms(2,3)])
  show ?thesis
  proof (cases r)
    case Inl
    then show ?thesis using run order(1) by (auto simp: up_failed_def)
  next
    case Inr
    then show ?thesis using run order(1)
      by (intro exI [of _ order] exI [of _ "length order"]) (auto simp: up_inv_def Let_def)
  qed
qed

text \<open>
  DownWithConfig of a saved group destroys every sandbox of the group exactly once, in
  the reverse of the saved start order (dependents before what they depend on), each after
  it was asked to stop, and goes on through failing hooks, stops and destroys.
\<close>
theorem compose_down_order:
  assumes "ce_LoadState env grp (if grp \<in> cpm_dns s then ce_StopDNS env grp (cpm_world s) else cpm_world s) = Some status"
    and "cs_StartOrder status \<noteq> []" "DownWithConfig env grp config s = (s', r)"
  shows "\<exists>ext. cpm_calls s' = cpm_calls s @ ext \<and> destroyed_names ext = rev (cs_StartOrder status) \<and>
    (\<forall>i < length ext. \<forall>n ok. ext ! i = CallDestroy n ok \<longrightarrow> (\<exists>ok'. CallStop n ok' \<in> set (take i ext)))"
  using DownWithConfig_calls [OF assms(1,3)] assms(2)
  unfolding down_inv_def stopped_first_def reverseOrder_def by auto

text \<open>
  C3: When Up of an accepted configuration succeeds on the sandbox manager, every sandbox
  of the configuration was unknown to the manager before and is now recorded as running
  (or as stopped, when the status query found its instance gone), and no other sandbox of
  the manager changed its status.
\<close>
theorem compose_up_manager:
  assumes "Validate c0 = (c, None)" "Up (manager_env menv io) grp c s = (s', Inr st)"
  shows "\<forall>n. if n \<in> fst ` set (cc_Sandboxes c)
    then vmm_state (fst (cpm_world s)) n = None \<and>
      (\<exists>vm. vmm_state (fst (cpm_world s')) n = Some vm \<and> vs_Status vm \<in> {VMStatusRunning, VMStatusStopped})
    else map_option vs_Status (vmm_state (fst (cpm_world s')) n) = map_option vs_Status (vmm_state (fst (cpm_world s)) n)"
proof -
  obtain order where order: "TopologicalOrder c = Some order" "distinct order" "set order = fst ` set (cc_Sandboxes c)"
    using validated_order [OF assms(1)] unfolding keys_of_def by metis
  have "\<forall>n. if n \<in> set order
    then manager_life (cpm_world s) n = None \<and> manager_life (cpm_world s') n \<in> {Some VMStatusRunning, Some VMStatusStopped}
    else manager_life (cpm_world s') n = manager_life (cpm_world s) n"
    by (rule mgr.Up_lives [OF order(1,2) assms(2)])
  then show ?thesis unfolding manager_life_def order(3) by (auto split: if_splits)
qed

subsection \<open>Instances\<close>

definition calm_io :: "unit ComposeEnv" where
  "calm_io = \<lparr>ce_Create = (\<lambda>_ _ w. (w, True)), ce_Start = (\<lambda>_ w. (w, True)), ce_Stop = (\<lambda>_ w. (w, True)),
     ce_Destroy = (\<lambda>_ w. (w, True)), ce_VMStatus = (\<lambda>_ w. (w, Some (''running'', [], 1))),
     ce_Exec = (\<lambda>_ _ w. (w, [], 0, False)),
     ce_LoadState = (\<lambda>g w. Some \<lparr>cs_Name = g, cs_Sandboxes = [], cs_StartOrder = [''db'', ''api'', ''web'']\<rparr>),
     ce_SaveState = (\<lambda>_ _ w. (w, True)), ce_DeleteState = (\<lambda>_ w. (w, True)), ce_StartDNS = (\<lambda>_ w. (w, True)),
     ce_StopDNS = (\<lambda>_ w. w), ce_Register = (\<lambda>_ _ _ w. w), ce_Unregister = (\<lambda>_ _ w. w),
     ce_EnsureVolumes = (\<lambda>_ _ w. (w, Some [])), ce_RemoveVolumes = (\<lambda>_ w. (w, True)),
     ce_ReadFile = (\<lambda>_ _. None), ce_Join = id, ce_LookupEnv = (\<lambda>_. None), ce_IsIP = (\<lambda>_. True)\<rparr>"

definition idle_manager :: "'w \<Rightarrow> 'w ComposeManager" where
  "idle_manager w = \<lparr>cpm_dns = {}, cpm_world = w, cpm_calls = []\<rparr>"

definition one_config :: ComposeConfig where
  "one_config = \<lparr>cc_Sandboxes = [(''web'', plain_sandbox ''ubuntu'' [] [])], cc_Volumes = None\<rparr>"

definition empty_world :: "(nat, nat) VMManager \<times> unit" where
  "empty_world = (\<lparr>vmm_state = (\<lambda>_. None), vmm_running = (\<lambda>_. None), vmm_world = 0\<rparr>, ())"


lemma create_calm: "vmm_state m n = None \<Longrightarrow> ValidateVMConfig cfg = [] \<Longrightarrow> \<exists>m'. Create calm_env n cfg m = (m', Inr ())"
  by (simp add: Create_def setup_policy_def setup_access_def setup_mounts_def saveConfig_def StoreVM_def put_vm_def
      run_defs calm_env_def)

lemma start_calm: "vmm_state m n = Some vm \<Longrightarrow> vs_Status vm = VMStatusCreated \<Longrightarrow> \<exists>m'. Start calm_env n m = (m', Inr ())"
  by (simp add: Start_def loadConfigFromState_def resolve_kernel_def RunHooks_def find_ip_def zero_config_def
      run_defs calm_env_def)

lemma status_calm: "vmm_state m n = Some vm \<Longrightarrow> \<exists>m' v. Status calm_env n m = (m', Inr v)"
  by (simp add: Status_def run_defs calm_env_def split: option.split)

definition web_sandbox :: SandboxConfig where
  "web_sandbox = set_defaults (plain_sandbox ''ubuntu'' [] [])"

definition web_config :: ComposeConfig where
  "web_config = \<lparr>cc_Sandboxes = [(''web'', web_sandbox)], cc_Volumes = None\<rparr>"

lemma web_fields:
  "sb_EnvFile web_sandbox = []" "sb_Env web_sandbox = []" "sb_Volumes web_sandbox = []" "sb_Hooks web_sandbox = None"
  by code_simp+

lemma web_validated: "Validate one_config = (web_config, None)"
  by code_simp


lemma vm_create_mgr:
  "Create menv n cfg m = (m', r) \<Longrightarrow> cpm_world s = (m, x) \<Longrightarrow>
   vm_create (manager_env menv io) n cfg s =
     (s\<lparr>cpm_world := (m', x), cpm_calls := cpm_calls s @ [CallCreate n (succeeded r)]\<rparr>, Inr (succeeded r))"
  by (simp add: vm_create_def vm_op_def world_call_def manager_env_def run_defs)

lemma vm_start_mgr:
  "Start menv n m = (m', r) \<Longrightarrow> cpm_world s = (m, x) \<Longrightarrow>
   vm_start (manager_env menv io) n s =
     (s\<lparr>cpm_world := (m', x), cpm_calls := cpm_calls s @ [CallStart n (succeeded r)]\<rparr>, Inr (succeeded r))"
  by (simp add: vm_start_def vm_op_def world_call_def manager_env_def run_defs)

lemma vm_status_mgr:
  "Status menv n m = (m', Inr v) \<Longrightarrow> cpm_world s = (m, x) \<Longrightarrow>
   world_call (ce_VMStatus (manager_env menv io) n) s =
     (s\<lparr>cpm_world := (m', x)\<rparr>, Inr (Some (VMStatus_String (vs_Status v), vs_IP v, vs_PID v)))"
  by (simp add: world_call_def manager_env_def)

lemma io_calls:
  "world_read (ce_ReadFile (manager_env menv calm_io)) s = (s, Inr (\<lambda>_. None))"
  "world_call (ce_StartDNS (manager_env menv calm_io) g) s = (s, Inr True)"
  "save_status (manager_env menv calm_io) g st s = (s\<lparr>cpm_calls := cpm_calls s @ [CallSave g st True]\<rparr>, Inr True)"
  "register_dns (manager_env menv calm_io) g n ip s = (s, Inr ())"
  by (cases "cpm_world s"; simp add: world_read_def world_call_def manager_env_def calm_io_def run_defs
      register_dns_def world_effect_def save_status_def vm_op_def)+

lemma up_calm: "\<exists>s' st. Up (manager_env calm_env calm_io) ''demo'' web_config (idle_manager empty_world) = (s', Inr st)"
proof -
  let ?env = "manager_env calm_env calm_io"
  define cfg where "cfg = vm_config ''web'' web_sandbox (expandSandboxEnv (ce_LookupEnv ?env) []) (volume_mounts [] [])"
  have "ValidateVMConfig cfg = []" unfolding cfg_def by code_simp
  then obtain m1 where c: "Create calm_env ''web'' cfg (fst empty_world) = (m1, Inr ())"
    using create_calm [of "fst empty_world" "''web''"] by (auto simp: empty_world_def)
  have "map_option vs_Status (vmm_state m1 ''web'') = Some VMStatusCreated"
    using create_life [OF c] by (simp add: succeeded_def fun_eq_iff)
  then obtain vm where vm: "vmm_state m1 ''web'' = Some vm" "vs_Status vm = VMStatusCreated" by auto
  obtain m2 where t: "Start calm_env ''web'' m1 = (m2, Inr ())" using start_calm [OF vm] by blast
  have "map_option vs_Status (vmm_state m2 ''web'') = Some VMStatusRunning"
    using start_life [OF t] by (simp add: succeeded_def fun_eq_iff)
  then obtain m3 v where v: "Status calm_env ''web'' m2 = (m3, Inr v)" using status_calm by fastforce
  have o: "TopologicalOrder web_config = Some [''web'']" by code_simp
  have e: "sandbox_env ?env ''web'' web_sandbox s = (s, Inr (expandSandboxEnv (ce_LookupEnv ?env) []))" for s
    by (simp add: sandbox_env_def io_calls ResolveEnvFiles_def web_fields run_defs)
  have created: "vm_create ?env ''web'' cfg (s\<lparr>cpm_world := empty_world\<rparr>) =
      (s\<lparr>cpm_world := (m1, ()), cpm_calls := cpm_calls s @ [CallCreate ''web'' True]\<rparr>, Inr True)" for s
  proof -
    have "cpm_world (s\<lparr>cpm_world := empty_world\<rparr>) = (fst empty_world, ())" by (simp add: empty_world_def)
    from vm_create_mgr [OF c this] show ?thesis by (simp add: succeeded_def)
  qed
  have one: "\<exists>s' st'. up_one ?env ''demo'' (cc_Sandboxes web_config) [] ''web'' st (s\<lparr>cpm_world := empty_world\<rparr>) = (s', Inr st')" for s st
    by (simp add: up_one_def web_config_def e cfg_def [symmetric] web_fields post_create_hooks_def post_start_hooks_def bind_def seq_def
        failIf_def return_def orFail_def succeeded_def
        created vm_start_mgr [OF t] vm_status_mgr [OF v] io_calls)
  let ?s = "\<lparr>cpm_dns = {''demo''}, cpm_world = empty_world, cpm_calls = []\<rparr>"
  obtain s' st' where "up_one ?env ''demo'' (cc_Sandboxes web_config) [] ''web''
      \<lparr>cs_Name = ''demo'', cs_Sandboxes = [], cs_StartOrder = [''web'']\<rparr> ?s = (s', Inr st')"
    using one [of "\<lparr>cs_Name = ''demo'', cs_Sandboxes = [], cs_StartOrder = [''web'']\<rparr>" ?s] by auto
  then have "Up ?env ''demo'' web_config (idle_manager empty_world) = (s', Inr st')"
    unfolding Up_def o
    by (simp add: web_config_def bind_def seq_def orFail_def return_def whenOp_def modify_def io_calls idle_manager_def)
  then show ?thesis by blast
qed

lemma compose_up_order_witness:
  "\<exists>s' st. Up calm_io ''demo'' (fst (Validate example_config)) (idle_manager ()) = (s', Inr st) \<and>
     created_names (cpm_calls s') = [''db'', ''api'', ''web''] \<and>
     deps_started (cc_Sandboxes (fst (Validate example_config))) (cpm_calls s') \<and>
     saved_names (cpm_calls s') = [(''demo'', [''db'']), (''demo'', [''db'', ''api'']), (''demo'', [''db'', ''api'', ''web''])] \<and>
     last (saves (cpm_calls s')) = (''demo'', st)"
proof -
  let ?c = "fst (Validate example_config)"
  have "snd (Validate example_config) = None" by code_simp
  then have v: "Validate example_config = (?c, None)" by (metis prod.collapse)
  have "case snd (Up calm_io ''demo'' ?c (idle_manager ())) of Inl _ \<Rightarrow> False | Inr _ \<Rightarrow> True" by code_simp
  then obtain s' st where up: "Up calm_io ''demo'' ?c (idle_manager ()) = (s', Inr st)"
    by (cases "Up calm_io ''demo'' ?c (idle_manager ())") (auto split: sum.splits)
  have o: "TopologicalOrder ?c = Some [''db'', ''api'', ''web'']" by code_simp
  have "cpm_calls (idle_manager ()) = []" by (simp add: idle_manager_def)
  from compose_up_order [OF v this up] o up show ?thesis by (auto simp: growing_def)
qed

lemma compose_down_order_witness:
  "\<exists>s'. fst (DownWithConfig calm_io ''demo'' None (idle_manager ())) = s' \<and>
     destroyed_names (cpm_calls s') = [''web'', ''api'', ''db'']"
proof -
  obtain s' r where run: "DownWithConfig calm_io ''demo'' None (idle_manager ()) = (s', r)"
    by (cases "DownWithConfig calm_io ''demo'' None (idle_manager ())")
  let ?status = "\<lparr>cs_Name = ''demo'', cs_Sandboxes = [], cs_StartOrder = [''db'', ''api'', ''web'']\<rparr>"
  have "ce_LoadState calm_io ''demo'' (if ''demo'' \<in> cpm_dns (idle_manager ())
      then ce_StopDNS calm_io ''demo'' (cpm_world (idle_manager ())) else cpm_world (idle_manager ())) = Some ?status"
    by (simp add: calm_io_def idle_manager_def)
  from compose_down_order [OF this _ run] have "\<exists>ext. cpm_calls s' = cpm_calls (idle_manager ()) @ ext \<and>
      destroyed_names ext = rev (cs_StartOrder ?status)" by auto
  then show ?thesis using run by (auto simp: idle_manager_def)
qed

lemma compose_up_manager_witness:
  "\<exists>s' st vm. Up (manager_env calm_env calm_io) ''demo'' web_config (idle_manager empty_world) = (s', Inr st) \<and>
     vmm_state (fst (cpm_world s')) ''web'' = Some vm \<and> vs_Status vm \<in> {VMStatusRunning, VMStatusStopped}"
proof -
  obtain s' st where up: "Up (manager_env calm_env calm_io) ''demo'' web_config (idle_manager empty_world) = (s', Inr st)"
    using up_calm by blast
  have "''web'' \<in> fst ` set (cc_Sandboxes web_config)" by (simp add: web_config_def)
  then show ?thesis using spec [OF compose_up_manager [OF web_validated up], of "''web''"] up by auto
qed

end
