(* ===== verification/ComposeHealth.thy ===== *)
theory ComposeHealth
  imports ComposeEngine GoText
begin

text \<open>
  The health monitor of a compose group (\<^verbatim>\<open>internal/compose/health.go\<close>): the status table
  and one goroutine per service with a health check, as a labelled step relation. A step of
  a goroutine is what it does between two points where another goroutine can intervene: the
  wait for the start period, one tick with its check, and the calls of a restart one by one.
  A \<^verbatim>\<open>select\<close> on the stop channel and on a timer may take either branch when both are ready.
  The length of the waits is not modelled, and Start is called once.
\<close>

subsection \<open>State\<close>

record HealthStatus =
  hs_Service :: string
  hs_Status :: string
  hs_FailCount :: int
  hs_LastCheck :: int
  hs_LastOutput :: string
  hs_Restarts :: int
  hs_CheckInterval :: int

text \<open>
  Where a goroutine is: waiting for the start period, waiting for a tick, in the calls of
  restartService, after it, or returned.
\<close>

datatype monitor_pc =
    MonWaiting
  | MonTicking
  | MonStop
  | MonStart
  | MonLoad
  | MonSave ComposeStatus
  | MonReset
  | MonReturned

record MonitorThread =
  mth_pc :: monitor_pc
  mth_failCount :: int

record 'w HealthMonitor =
  hm_config :: ComposeConfig
  hm_groupName :: string
  hm_statuses :: "string \<rightharpoonup> HealthStatus"
  hm_stopped :: bool
  hm_threads :: "string \<rightharpoonup> MonitorThread"
  hm_world :: 'w

record 'w HealthEnv =
  he_Exec :: "string \<Rightarrow> string list \<Rightarrow> 'w \<Rightarrow> 'w \<times> string \<times> int \<times> string option"
  he_Stop :: "string \<Rightarrow> 'w \<Rightarrow> 'w \<times> bool"
  he_Start :: "string \<Rightarrow> 'w \<Rightarrow> 'w \<times> bool"
  he_LoadState :: "string \<Rightarrow> 'w \<Rightarrow> ComposeStatus option"
  he_SaveState :: "string \<Rightarrow> ComposeStatus \<Rightarrow> 'w \<Rightarrow> 'w \<times> bool"
  he_Now :: "'w \<Rightarrow> int"

datatype monitor_label =
    LabPeriod string
  | LabTick string bool
  | LabStop string
  | LabStart string
  | LabLoad string
  | LabSave string ComposeStatus
  | LabReset string
  | LabReturn string
  | LabShutdown

subsection \<open>Settings of a check\<close>

definition seconds :: "int \<Rightarrow> int" where
  "seconds n = sint (word_of_int (n * 1000000000) :: 64 word)"

definition check_timeout :: "HealthCheckConf \<Rightarrow> int" where
  "check_timeout hc = (if hc_TimeoutSec hc \<le> 0 then 10 else hc_TimeoutSec hc)"

definition check_retries :: "HealthCheckConf \<Rightarrow> int" where
  "check_retries hc = (if hc_Retries hc \<le> 0 then 3 else hc_Retries hc)"

definition first_pc :: "HealthCheckConf \<Rightarrow> monitor_pc" where
  "first_pc hc = (if seconds (hc_StartPeriodSec hc) > 0 then MonWaiting else MonTicking)"

subsection \<open>Construction and start\<close>

definition initial_status :: "string \<Rightarrow> SandboxConfig \<Rightarrow> HealthStatus" where
  "initial_status name svc =
     (let hs = \<lparr>hs_Service = name, hs_Status = ''none'', hs_FailCount = 0, hs_LastCheck = 0, hs_LastOutput = [],
                hs_Restarts = 0, hs_CheckInterval = 0\<rparr>
      in case sb_HealthCheck svc of
           None \<Rightarrow> hs
         | Some hc \<Rightarrow> hs\<lparr>hs_Status := ''starting'',
             hs_CheckInterval := (if hc_IntervalSec hc \<le> 0 then 30 else hc_IntervalSec hc)\<rparr>)"

definition NewHealthMonitor :: "string \<Rightarrow> ComposeConfig \<Rightarrow> 'w \<Rightarrow> 'w HealthMonitor" where
  "NewHealthMonitor grp config w =
     \<lparr>hm_config = config, hm_groupName = grp,
      hm_statuses = (\<lambda>n. map_option (initial_status n) (map_of (cc_Sandboxes config) n)),
      hm_stopped = False, hm_threads = (\<lambda>_. None), hm_world = w\<rparr>"

definition hm_service :: "'w HealthMonitor \<Rightarrow> string \<Rightarrow> (SandboxConfig \<times> HealthCheckConf) option" where
  "hm_service hm n =
     (case map_of (cc_Sandboxes (hm_config hm)) n of
        None \<Rightarrow> None
      | Some svc \<Rightarrow> map_option (Pair svc) (sb_HealthCheck svc))"

definition hm_Start :: "'w HealthMonitor \<Rightarrow> 'w HealthMonitor" where
  "hm_Start hm = hm\<lparr>hm_threads := (\<lambda>n. case hm_service hm n of
       None \<Rightarrow> None
     | Some (svc, hc) \<Rightarrow> Some \<lparr>mth_pc = first_pc hc, mth_failCount = 0\<rparr>)\<rparr>"

definition hm_Stop :: "'w HealthMonitor \<Rightarrow> 'w HealthMonitor" where
  "hm_Stop hm = (if hm_stopped hm then hm else hm\<lparr>hm_stopped := True\<rparr>)"

definition ServiceHealth :: "'w HealthMonitor \<Rightarrow> string \<Rightarrow> HealthStatus option" where
  "ServiceHealth hm service = hm_statuses hm service"

subsection \<open>One check\<close>

definition ExecInVM ::
  "'w HealthEnv \<Rightarrow> string \<Rightarrow> string \<Rightarrow> int \<Rightarrow> 'w \<Rightarrow> 'w \<times> string \<times> string option" where
  "ExecInVM env name command timeout w =
     (case he_Exec env name [''sh'', ''-c'', command] w of
        (w, out, code, Some e) \<Rightarrow> (w, out, Some e)
      | (w, out, code, None) \<Rightarrow>
          if code \<noteq> 0 then (w, out, Some (''command exited with code '' @ decimal code))
          else (w, out, None))"

definition runCheck :: "'w HealthEnv \<Rightarrow> string \<Rightarrow> string list \<Rightarrow> int \<Rightarrow> 'w \<Rightarrow> 'w \<times> string \<times> bool" where
  "runCheck env service command timeout w =
     (if command = [] then (w, [], True)
      else case ExecInVM env service (join_with '' '' command) timeout w of
          (w, out, Some e) \<Rightarrow> (w, ''check failed: '' @ e, False)
        | (w, out, None) \<Rightarrow> (w, out, True))"

text \<open>The status and the local failure count after a check.\<close>

definition record_check :: "int \<Rightarrow> int \<Rightarrow> string \<Rightarrow> bool \<Rightarrow> int \<Rightarrow> HealthStatus \<Rightarrow> int \<times> HealthStatus" where
  "record_check retries now out healthy fails hs =
     (let hs = hs\<lparr>hs_LastCheck := now, hs_LastOutput := out\<rparr>
      in if healthy then (0, hs\<lparr>hs_FailCount := 0, hs_Status := ''healthy''\<rparr>)
         else let fails = fails + 1; hs = hs\<lparr>hs_FailCount := fails\<rparr>
              in (fails, if fails \<ge> retries then hs\<lparr>hs_Status := ''unhealthy''\<rparr> else hs))"

definition saved_restart :: "string \<Rightarrow> int \<Rightarrow> ComposeStatus \<Rightarrow> ComposeStatus option" where
  "saved_restart name restarts st =
     map_option (\<lambda>ss. st\<lparr>cs_Sandboxes :=
         AList.update name (ss\<lparr>ss_Restarts := restarts, ss_Health := ''starting''\<rparr>) (cs_Sandboxes st)\<rparr>)
       (map_of (cs_Sandboxes st) name)"

subsection \<open>The goroutine\<close>

definition put_thread :: "string \<Rightarrow> MonitorThread \<Rightarrow> 'w HealthMonitor \<Rightarrow> 'w HealthMonitor" where
  "put_thread n t hm = hm\<lparr>hm_threads := (hm_threads hm)(n \<mapsto> t)\<rparr>"

definition put_status :: "string \<Rightarrow> HealthStatus \<Rightarrow> 'w HealthMonitor \<Rightarrow> 'w HealthMonitor" where
  "put_status n hs hm = hm\<lparr>hm_statuses := (hm_statuses hm)(n \<mapsto> hs)\<rparr>"

text \<open>The step of the goroutine of a service when it does not take the stop branch.\<close>

definition monitorService ::
  "'w HealthEnv \<Rightarrow> string \<Rightarrow> SandboxConfig \<Rightarrow> HealthCheckConf \<Rightarrow> MonitorThread \<Rightarrow> HealthStatus \<Rightarrow> 'w HealthMonitor \<Rightarrow>
   (monitor_label \<times> 'w HealthMonitor) option" where
  "monitorService env name svc hc t hs hm =
     (case mth_pc t of
        MonWaiting \<Rightarrow> Some (LabPeriod name, put_thread name (t\<lparr>mth_pc := MonTicking\<rparr>) hm)
      | MonTicking \<Rightarrow>
          (let (w, out, healthy) = runCheck env name (hc_Command hc) (check_timeout hc) (hm_world hm);
               (fails, hs) = record_check (check_retries hc) (he_Now env w) out healthy (mth_failCount t) hs;
               needsRestart = (hs_Status hs = ''unhealthy'' \<and> shouldRestart (sb_RestartPolicy svc))
           in Some (LabTick name healthy,
                put_thread name \<lparr>mth_pc = (if needsRestart then MonStop else MonTicking), mth_failCount = fails\<rparr>
                  (put_status name hs (hm\<lparr>hm_world := w\<rparr>))))
      | MonStop \<Rightarrow> Some (LabStop name,
          put_thread name (t\<lparr>mth_pc := MonStart\<rparr>) (hm\<lparr>hm_world := fst (he_Stop env name (hm_world hm))\<rparr>))
      | MonStart \<Rightarrow> Some (LabStart name,
          put_thread name (t\<lparr>mth_pc := MonLoad\<rparr>) (hm\<lparr>hm_world := fst (he_Start env name (hm_world hm))\<rparr>))
      | MonLoad \<Rightarrow>
          (case Option.bind (he_LoadState env (hm_groupName hm) (hm_world hm)) (saved_restart name (hs_Restarts hs)) of
             None \<Rightarrow> Some (LabLoad name, put_thread name (t\<lparr>mth_pc := MonReset\<rparr>) hm)
           | Some st \<Rightarrow> Some (LabLoad name, put_thread name (t\<lparr>mth_pc := MonSave st\<rparr>) hm))
      | MonSave st \<Rightarrow> Some (LabSave name st,
          put_thread name (t\<lparr>mth_pc := MonReset\<rparr>)
            (hm\<lparr>hm_world := fst (he_SaveState env (hm_groupName hm) st (hm_world hm))\<rparr>))
      | MonReset \<Rightarrow> Some (LabReset name,
          put_thread name \<lparr>mth_pc = first_pc hc, mth_failCount = 0\<rparr>
            (put_status name (hs\<lparr>hs_Restarts := hs_Restarts hs + 1, hs_Status := ''starting'', hs_FailCount := 0\<rparr>) hm))
      | MonReturned \<Rightarrow> None)"

inductive monitor_step ::
  "'w HealthEnv \<Rightarrow> 'w HealthMonitor \<Rightarrow> monitor_label \<Rightarrow> 'w HealthMonitor \<Rightarrow> bool" for env where
  proceed: "hm_service hm n = Some (svc, hc) \<Longrightarrow> hm_threads hm n = Some t \<Longrightarrow> hm_statuses hm n = Some hs \<Longrightarrow>
    monitorService env n svc hc t hs hm = Some (l, hm') \<Longrightarrow> monitor_step env hm l hm'"
| returns: "hm_stopped hm \<Longrightarrow> hm_threads hm n = Some t \<Longrightarrow> mth_pc t \<in> {MonWaiting, MonTicking} \<Longrightarrow>
    monitor_step env hm (LabReturn n) (put_thread n (t\<lparr>mth_pc := MonReturned\<rparr>) hm)"
| shutdown: "monitor_step env hm LabShutdown (hm_Stop hm)"

text \<open>What a started monitor may have done, the last step first.\<close>

inductive monitor_trace ::
  "'w HealthEnv \<Rightarrow> 'w HealthMonitor \<Rightarrow> monitor_label list \<Rightarrow> 'w HealthMonitor \<Rightarrow> bool" for env hm0 where
  started: "monitor_trace env hm0 [] hm0"
| continued: "monitor_trace env hm0 ls hm \<Longrightarrow> monitor_step env hm l hm' \<Longrightarrow> monitor_trace env hm0 (l # ls) hm'"

text \<open>An execution of the monitor that goes on for ever.\<close>

definition monitor_run :: "'w HealthEnv \<Rightarrow> (nat \<Rightarrow> 'w HealthMonitor) \<Rightarrow> (nat \<Rightarrow> monitor_label) \<Rightarrow> bool" where
  "monitor_run env r ls \<longleftrightarrow> (\<forall>i. monitor_step env (r i) (ls i) (r (Suc i)))"

end
