(* ===== verification/ComposeHealthClaims.thy ===== *)
theory ComposeHealthClaims
  imports ComposeHealth
begin

text \<open>
  The health monitor: what its status table says after any interleaving of its goroutines,
  and that a service whose checks go on failing is restarted again and again.
\<close>

subsection \<open>Steps\<close>

fun label_of :: "monitor_label \<Rightarrow> string option" where
  "label_of (LabPeriod n) = Some n"
| "label_of (LabTick n b) = Some n"
| "label_of (LabStop n) = Some n"
| "label_of (LabStart n) = Some n"
| "label_of (LabLoad n) = Some n"
| "label_of (LabSave n st) = Some n"
| "label_of (LabReset n) = Some n"
| "label_of (LabReturn n) = Some n"
| "label_of LabShutdown = None"

lemma put_simps [simp]:
  "hm_config (put_thread n t hm) = hm_config hm" "hm_config (put_status n hs hm) = hm_config hm"
  "hm_stopped (put_thread n t hm) = hm_stopped hm" "hm_stopped (put_status n hs hm) = hm_stopped hm"
  "hm_threads (put_thread n t hm) = (hm_threads hm)(n \<mapsto> t)" "hm_threads (put_status n hs hm) = hm_threads hm"
  "hm_statuses (put_thread n t hm) = hm_statuses hm" "hm_statuses (put_status n hs hm) = (hm_statuses hm)(n \<mapsto> hs)"
  by (simp_all add: put_thread_def put_status_def)

lemma service_cong: "hm_config hm' = hm_config hm \<Longrightarrow> hm_service hm' = hm_service hm"
  by (simp add: hm_service_def fun_eq_iff)

lemma stop_simps [simp]:
  "hm_config (hm_Stop hm) = hm_config hm" "hm_threads (hm_Stop hm) = hm_threads hm"
  "hm_statuses (hm_Stop hm) = hm_statuses hm"
  by (simp_all add: hm_Stop_def)

lemma monitorService_frame:
  assumes "monitorService env n svc hc t hs hm = Some (l, hm')"
  shows "label_of l = Some n" "hm_config hm' = hm_config hm" "hm_stopped hm' = hm_stopped hm"
    "m \<noteq> n \<Longrightarrow> hm_threads hm' m = hm_threads hm m" "m \<noteq> n \<Longrightarrow> hm_statuses hm' m = hm_statuses hm m"
  using assms by (auto simp: monitorService_def Let_def split: monitor_pc.splits option.splits prod.splits)

lemma step_config: "monitor_step env hm l hm' \<Longrightarrow> hm_config hm' = hm_config hm"
  by (induction rule: monitor_step.cases) (auto dest: monitorService_frame)

lemma step_frame:
  assumes "monitor_step env hm l hm'" "label_of l \<noteq> Some n"
  shows "hm_threads hm' n = hm_threads hm n" "hm_statuses hm' n = hm_statuses hm n"
  using assms by (cases rule: monitor_step.cases; metis monitorService_frame label_of.simps(8) put_simps stop_simps fun_upd_other)+

text \<open>A step of the goroutine of a service.\<close>

lemma step_own:
  assumes "monitor_step env hm l hm'" "label_of l = Some n" "hm_service hm n = Some (svc, hc)"
    "hm_threads hm n = Some t" "hm_statuses hm n = Some hs"
  shows "monitorService env n svc hc t hs hm = Some (l, hm') \<or>
    (l = LabReturn n \<and> hm_stopped hm \<and> mth_pc t \<in> {MonWaiting, MonTicking} \<and> hm' = put_thread n (t\<lparr>mth_pc := MonReturned\<rparr>) hm)"
  using assms
proof (cases rule: monitor_step.cases)
  case (proceed m svc' hc' t' hs')
  then have "m = n" using assms(2) monitorService_frame(1) by (metis option.inject)
  then show ?thesis using proceed assms by simp
qed (use assms in auto)

subsection \<open>The invariant\<close>

text \<open>
  The failed checks of a service since its last good check or restart, and its completed
  restarts, read off the steps so far.
\<close>

fun bad_run :: "string \<Rightarrow> monitor_label list \<Rightarrow> nat" where
  "bad_run n [] = 0"
| "bad_run n (LabTick m ok # ls) = (if m \<noteq> n then bad_run n ls else if ok then 0 else Suc (bad_run n ls))"
| "bad_run n (LabReset m # ls) = (if m = n then 0 else bad_run n ls)"
| "bad_run n (l # ls) = bad_run n ls"

definition restarts :: "string \<Rightarrow> monitor_label list \<Rightarrow> nat" where
  "restarts n ls = count_list ls (LabReset n)"

definition service_inv ::
  "string \<Rightarrow> SandboxConfig \<Rightarrow> HealthCheckConf \<Rightarrow> monitor_label list \<Rightarrow> MonitorThread \<Rightarrow> HealthStatus \<Rightarrow> bool" where
  "service_inv n svc hc ls t hs \<longleftrightarrow>
     mth_failCount t = int (bad_run n ls) \<and> hs_FailCount hs = int (bad_run n ls) \<and>
     (hs_Status hs = ''unhealthy'' \<longleftrightarrow> check_retries hc \<le> int (bad_run n ls)) \<and>
     hs_Restarts hs = int (restarts n ls) \<and>
     (mth_pc t \<notin> {MonWaiting, MonTicking, MonReturned} \<longrightarrow>
        shouldRestart (sb_RestartPolicy svc) \<and> check_retries hc \<le> int (bad_run n ls)) \<and>
     (\<forall>st. mth_pc t = MonSave st \<longrightarrow> map_option ss_Restarts (map_of (cs_Sandboxes st) n) = Some (int (restarts n ls)))"

definition monitor_inv :: "monitor_label list \<Rightarrow> 'w HealthMonitor \<Rightarrow> bool" where
  "monitor_inv ls hm \<longleftrightarrow>
     (\<forall>n svc hc. hm_service hm n = Some (svc, hc) \<longrightarrow>
        (\<exists>t hs. hm_threads hm n = Some t \<and> hm_statuses hm n = Some hs \<and> service_inv n svc hc ls t hs))"

lemma retries_pos: "check_retries hc > 0"
  by (simp add: check_retries_def)

lemma monitor_invE:
  assumes "monitor_inv ls hm" "hm_service hm n = Some (svc, hc)"
  obtains t hs where "hm_threads hm n = Some t" "hm_statuses hm n = Some hs" "service_inv n svc hc ls t hs"
  using assms unfolding monitor_inv_def by blast

lemma monitor_inv_start: "monitor_inv [] (hm_Start (NewHealthMonitor grp config w))"
  using retries_pos
  by (fastforce simp: monitor_inv_def service_inv_def hm_Start_def hm_service_def NewHealthMonitor_def initial_status_def
      first_pc_def restarts_def Let_def dest: leD split: option.splits)

lemma other_label: "label_of l \<noteq> Some n \<Longrightarrow> bad_run n (l # ls) = bad_run n ls \<and> restarts n (l # ls) = restarts n ls"
  by (cases l) (auto simp: restarts_def)

lemma saved_restart_value:
  "saved_restart n k st = Some st' \<Longrightarrow> map_option ss_Restarts (map_of (cs_Sandboxes st') n) = Some k"
  by (auto simp: saved_restart_def update_conv)

lemma service_inv_step:
  assumes "service_inv n svc hc ls t hs" "monitorService env n svc hc t hs hm = Some (l, hm')"
    "hm_threads hm n = Some t" "hm_statuses hm n = Some hs"
  shows "\<exists>t' hs'. hm_threads hm' n = Some t' \<and> hm_statuses hm' n = Some hs' \<and> service_inv n svc hc (l # ls) t' hs'"
proof (cases "mth_pc t")
  case MonLoad
  then show ?thesis using assms saved_restart_value [of n "hs_Restarts hs"]
    by (fastforce simp: monitorService_def service_inv_def restarts_def bind_eq_Some_conv split: option.splits)
next
  case MonTicking
  then show ?thesis using assms retries_pos [of hc]
    by (auto simp: monitorService_def service_inv_def restarts_def record_check_def Let_def split: prod.splits if_splits)
next
  case MonReset
  then show ?thesis using assms retries_pos [of hc]
    by (auto simp: monitorService_def service_inv_def restarts_def first_pc_def)
qed (use assms in \<open>auto simp: monitorService_def service_inv_def restarts_def\<close>)

lemma monitor_inv_step:
  assumes "monitor_inv ls hm" "monitor_step env hm l hm'"
  shows "monitor_inv (l # ls) hm'"
  unfolding monitor_inv_def
proof (intro allI impI)
  fix n svc hc
  assume "hm_service hm' n = Some (svc, hc)"
  then have svc: "hm_service hm n = Some (svc, hc)" using service_cong [OF step_config [OF assms(2)]] by simp
  obtain t hs where inv: "hm_threads hm n = Some t" "hm_statuses hm n = Some hs" "service_inv n svc hc ls t hs"
    using monitor_invE [OF assms(1) svc] .
  show "\<exists>t hs. hm_threads hm' n = Some t \<and> hm_statuses hm' n = Some hs \<and> service_inv n svc hc (l # ls) t hs"
  proof (cases "label_of l = Some n")
    case False
    then show ?thesis using step_frame [OF assms(2) False] inv other_label [OF False] by (simp add: service_inv_def)
  next
    case True
    from step_own [OF assms(2) True svc inv(1,2)] show ?thesis
    proof
      assume "monitorService env n svc hc t hs hm = Some (l, hm')"
      then show ?thesis by (rule service_inv_step [OF inv(3) _ inv(1,2)])
    next
      assume "l = LabReturn n \<and> hm_stopped hm \<and> mth_pc t \<in> {MonWaiting, MonTicking} \<and>
        hm' = put_thread n (t\<lparr>mth_pc := MonReturned\<rparr>) hm"
      then show ?thesis using inv by (simp add: service_inv_def restarts_def)
    qed
  qed
qed

lemma trace_inv: "monitor_trace env (hm_Start (NewHealthMonitor grp config w)) ls hm \<Longrightarrow> monitor_inv ls hm"
  by (induction rule: monitor_trace.induct) (auto intro: monitor_inv_start monitor_inv_step)

lemma trace_config: "monitor_trace env hm0 ls hm \<Longrightarrow> hm_config hm = hm_config hm0"
  by (induction rule: monitor_trace.induct) (auto dest: step_config)

subsection \<open>What the table says\<close>

lemma service_of: "map_of (cc_Sandboxes config) n = Some svc \<Longrightarrow> sb_HealthCheck svc = Some hc \<Longrightarrow>
   hm_config hm = config \<Longrightarrow> hm_service hm n = Some (svc, hc)"
  by (simp add: hm_service_def)

lemma start_config: "hm_config (hm_Start (NewHealthMonitor grp config w)) = config"
  by (simp add: hm_Start_def NewHealthMonitor_def)

lemma step_due:
  assumes "service_inv n svc hc ls t hs" "monitor_step env hm l hm'" "hm_service hm n = Some (svc, hc)"
    "hm_threads hm n = Some t" "hm_statuses hm n = Some hs"
  shows "l \<in> {LabStop n, LabStart n} \<Longrightarrow> shouldRestart (sb_RestartPolicy svc) \<and> check_retries hc \<le> int (bad_run n ls)"
    and "l = LabSave n st \<Longrightarrow> map_option ss_Restarts (map_of (cs_Sandboxes st) n) = Some (int (restarts n ls))"
  using step_own [OF assms(2) _ assms(3-5)] assms(1)
  by (auto simp: monitorService_def service_inv_def Let_def split: monitor_pc.splits option.splits prod.splits)

text \<open>
  C7: However the goroutines of a started health monitor interleave, the table shows for a
  service with a check the number of its failed checks in a row since the last good check or
  restart, shows it unhealthy exactly when they reach the configured retries (three when not
  set), and counts its restarts; the sandbox is stopped and started only when that number was
  reached and the restart policy allows it, and what is saved for a restart is the number of
  the restarts before it (HealthMonitor.monitorService and restartService).
\<close>
theorem monitor_reports:
  assumes "monitor_trace env (hm_Start (NewHealthMonitor grp config w)) ls hm"
    and "map_of (cc_Sandboxes config) n = Some svc" "sb_HealthCheck svc = Some hc"
  shows "(\<exists>hs. ServiceHealth hm n = Some hs \<and> hs_FailCount hs = int (bad_run n ls) \<and>
      (hs_Status hs = ''unhealthy'' \<longleftrightarrow> check_retries hc \<le> int (bad_run n ls)) \<and> hs_Restarts hs = int (restarts n ls)) \<and>
    (\<forall>l hm'. monitor_step env hm l hm' \<longrightarrow>
      (l \<in> {LabStop n, LabStart n} \<longrightarrow> shouldRestart (sb_RestartPolicy svc) \<and> check_retries hc \<le> int (bad_run n ls)) \<and>
      (\<forall>st. l = LabSave n st \<longrightarrow> map_option ss_Restarts (map_of (cs_Sandboxes st) n) = Some (int (restarts n ls))))"
proof -
  have svc: "hm_service hm n = Some (svc, hc)"
    using service_of [OF assms(2,3)] trace_config [OF assms(1)] by (simp add: start_config)
  obtain t hs where inv: "hm_threads hm n = Some t" "hm_statuses hm n = Some hs" "service_inv n svc hc ls t hs"
    using monitor_invE [OF trace_inv [OF assms(1)] svc] .
  then show ?thesis
    using step_due [OF inv(3) _ svc inv(1,2)] by (auto simp: ServiceHealth_def service_inv_def)
qed

subsection \<open>Restarts for ever\<close>

text \<open>How many steps of its goroutine a service is from the start of its restart when every check fails.\<close>

definition rank :: "HealthCheckConf \<Rightarrow> MonitorThread \<Rightarrow> nat" where
  "rank hc t =
     (let left = nat (check_retries hc - mth_failCount t); all = nat (check_retries hc)
      in case mth_pc t of
           MonStart \<Rightarrow> 0 | MonStop \<Rightarrow> 1 | MonTicking \<Rightarrow> 2 + left | MonWaiting \<Rightarrow> 3 + left
         | MonReset \<Rightarrow> 4 + all | MonSave st \<Rightarrow> 5 + all | MonLoad \<Rightarrow> 6 + all | MonReturned \<Rightarrow> 0)"

lemma rank_step:
  assumes "monitorService env n svc hc t hs hm = Some (l, hm')" "shouldRestart (sb_RestartPolicy svc)"
    "l \<noteq> LabTick n True" "l \<noteq> LabStart n"
  shows "hm_threads hm' n \<noteq> None \<and> rank hc (the (hm_threads hm' n)) < rank hc t"
  using assms
  by (auto simp: monitorService_def rank_def record_check_def first_pc_def Let_def
      split: monitor_pc.splits option.splits prod.splits if_splits)

lemma monitorService_enabled: "mth_pc t \<noteq> MonReturned \<Longrightarrow> monitorService env n svc hc t hs hm \<noteq> None"
  by (cases "mth_pc t") (simp_all add: monitorService_def Let_def split: option.split prod.split)

text \<open>One execution that meets the hypotheses of the property.\<close>

lemma run_facts:
  assumes "monitor_run env r ls" "r 0 = hm_Start (NewHealthMonitor grp config w)"
    and "map_of (cc_Sandboxes config) n = Some svc" "sb_HealthCheck svc = Some hc"
  shows "hm_service (r i) n = Some (svc, hc) \<and> (\<exists>t hs. hm_threads (r i) n = Some t \<and> hm_statuses (r i) n = Some hs)"
proof -
  have "\<exists>tr. monitor_trace env (hm_Start (NewHealthMonitor grp config w)) tr (r i)"
  proof (induction i)
    case 0
    show ?case using assms(2) by (auto intro: monitor_trace.intros)
  next
    case (Suc i)
    then show ?case using assms(1) unfolding monitor_run_def by (blast intro: monitor_trace.intros)
  qed
  then obtain tr where tr: "monitor_trace env (hm_Start (NewHealthMonitor grp config w)) tr (r i)" ..
  have "hm_service (r i) n = Some (svc, hc)"
    using service_of [OF assms(3,4)] trace_config [OF tr] by (simp add: start_config)
  then show ?thesis using monitor_invE [OF trace_inv [OF tr]] by metis
qed

lemma run_not_stopped:
  assumes "monitor_run env r ls" "\<And>i. ls i \<noteq> LabShutdown" "\<not> hm_stopped (r 0)"
  shows "\<not> hm_stopped (r i)"
proof (induction i)
  case (Suc i)
  have "monitor_step env (r i) (ls i) (r (Suc i))" using assms(1) unfolding monitor_run_def ..
  then show ?case using Suc assms(2) [of i] by (cases rule: monitor_step.cases) (auto dest: monitorService_frame)
qed (use assms in simp)

text \<open>Only the steps of its goroutine change where it is.\<close>

lemma run_idle:
  assumes "monitor_run env r ls" "i \<le> j" "\<And>k. i \<le> k \<Longrightarrow> k < j \<Longrightarrow> label_of (ls k) \<noteq> Some n"
  shows "hm_threads (r j) n = hm_threads (r i) n"
  using assms(2,3)
proof (induction j rule: dec_induct)
  case (step k)
  have "monitor_step env (r k) (ls k) (r (Suc k))" using assms(1) unfolding monitor_run_def ..
  then have "hm_threads (r (Suc k)) n = hm_threads (r k) n" by (rule step_frame) (use step in simp)
  then show ?case using step by simp
qed simp

text \<open>
  C6: In every execution of a started health monitor that is never stopped, a service whose
  restart policy allows it, whose goroutine goes on taking steps, and whose checks all fail
  from some point on, is started again infinitely often, whatever the other services, the
  saved state and the calls of the sandbox manager do (HealthMonitor.monitorService).
\<close>
theorem monitor_restarts_forever:
  assumes "monitor_run env r ls" "r 0 = hm_Start (NewHealthMonitor grp config w)" "\<And>i. ls i \<noteq> LabShutdown"
    and "map_of (cc_Sandboxes config) n = Some svc" "sb_HealthCheck svc = Some hc" "shouldRestart (sb_RestartPolicy svc)"
    and "\<And>i. \<exists>j\<ge>i. label_of (ls j) = Some n"
    and "\<And>i. i0 \<le> i \<Longrightarrow> ls i \<noteq> LabTick n True"
  shows "\<exists>j\<ge>i. ls j = LabStart n"
proof -
  have "\<exists>j\<ge>i. ls j = LabStart n" if "i0 \<le> i" "hm_threads (r i) n = Some t" for i t
    using that
  proof (induction "rank hc t" arbitrary: i t rule: less_induct)
    case less
    define j where "j = (LEAST j. i \<le> j \<and> label_of (ls j) = Some n)"
    have j: "i \<le> j" "label_of (ls j) = Some n" "\<And>k. i \<le> k \<Longrightarrow> k < j \<Longrightarrow> label_of (ls k) \<noteq> Some n"
      using LeastI_ex [OF assms(7) [of i]] not_less_Least unfolding j_def by blast+
    then have t: "hm_threads (r j) n = Some t" using run_idle [OF assms(1)] less.prems(2) by simp
    obtain hs where now: "hm_service (r j) n = Some (svc, hc)" "hm_statuses (r j) n = Some hs"
      using run_facts [OF assms(1,2,4,5)] by blast
    have "\<not> hm_stopped (r 0)" by (simp add: assms(2) hm_Start_def NewHealthMonitor_def)
    then have "\<not> hm_stopped (r j)" by (rule run_not_stopped [OF assms(1,3)])
    moreover have "monitor_step env (r j) (ls j) (r (Suc j))" using assms(1) unfolding monitor_run_def ..
    ultimately have step: "monitorService env n svc hc t hs (r j) = Some (ls j, r (Suc j))"
      using step_own [OF _ j(2) now(1) t now(2)] by blast
    show ?case
    proof (cases "ls j = LabStart n")
      case False
      have "ls j \<noteq> LabTick n True" using assms(8) less.prems(1) j(1) by simp
      then obtain t' where "hm_threads (r (Suc j)) n = Some t'" "rank hc t' < rank hc t"
        using rank_step [OF step assms(6) _ False] by auto
      then obtain k where "Suc j \<le> k" "ls k = LabStart n" using less.hyps [of t' "Suc j"] less.prems(1) j(1) by auto
      then show ?thesis using j(1) by (auto intro: exI [of _ k])
    qed (use j in blast)
  qed
  moreover obtain t where "hm_threads (r (max i i0)) n = Some t" using run_facts [OF assms(1,2,4,5)] by blast
  ultimately show ?thesis by (metis max.bounded_iff order_refl)
qed

subsection \<open>Instances\<close>

definition failing_env :: "unit HealthEnv" where
  "failing_env = \<lparr>he_Exec = (\<lambda>_ _ w. (w, [], 1, None)), he_Stop = (\<lambda>_ w. (w, True)), he_Start = (\<lambda>_ w. (w, True)),
     he_LoadState = (\<lambda>_ _. None), he_SaveState = (\<lambda>_ _ w. (w, True)), he_Now = (\<lambda>_. 0)\<rparr>"

definition checked_sandbox :: SandboxConfig where
  "checked_sandbox = \<lparr>sb_From = ''ubuntu'', sb_VCPUs = 2, sb_MemoryMB = 1024, sb_DiskGB = 10, sb_Network = None,
     sb_Mounts = [], sb_Volumes = [], sb_Env = [], sb_EnvFile = [], sb_DependsOn = [], sb_Profiles = [],
     sb_HealthCheck = Some \<lparr>hc_Command = [''true''], hc_IntervalSec = 0, hc_TimeoutSec = 0, hc_Retries = 2, hc_StartPeriodSec = 0\<rparr>,
     sb_RestartPolicy = ''always'', sb_Hooks = None, sb_Watch = None, sb_Extends = []\<rparr>"

definition checked_config :: ComposeConfig where
  "checked_config = \<lparr>cc_Sandboxes = [(''web'', checked_sandbox)], cc_Volumes = None\<rparr>"

definition checked_monitor :: "unit HealthMonitor" where
  "checked_monitor = hm_Start (NewHealthMonitor ''demo'' checked_config ())"

definition web_next :: "unit HealthMonitor \<Rightarrow> monitor_label \<times> unit HealthMonitor" where
  "web_next hm =
     (case (hm_service hm ''web'', hm_threads hm ''web'', hm_statuses hm ''web'') of
        (Some (svc, hc), Some t, Some hs) \<Rightarrow>
          (case monitorService failing_env ''web'' svc hc t hs hm of Some x \<Rightarrow> x | None \<Rightarrow> (LabShutdown, hm))
      | _ \<Rightarrow> (LabShutdown, hm))"

primrec web_run :: "nat \<Rightarrow> unit HealthMonitor" where
  "web_run 0 = checked_monitor"
| "web_run (Suc i) = snd (web_next (web_run i))"

definition web_ready :: "unit HealthMonitor \<Rightarrow> bool" where
  "web_ready hm \<longleftrightarrow> hm_config hm = checked_config \<and>
     (\<exists>t hs. hm_threads hm ''web'' = Some t \<and> mth_pc t \<noteq> MonReturned \<and> hm_statuses hm ''web'' = Some hs)"

lemma web_ready_step:
  assumes "web_ready hm"
  shows "monitor_step failing_env hm (fst (web_next hm)) (snd (web_next hm)) \<and> web_ready (snd (web_next hm)) \<and>
    label_of (fst (web_next hm)) = Some ''web'' \<and> fst (web_next hm) \<noteq> LabTick ''web'' True"
proof -
  obtain t hs where t: "hm_threads hm ''web'' = Some t" "mth_pc t \<noteq> MonReturned" "hm_statuses hm ''web'' = Some hs"
    "hm_config hm = checked_config" using assms unfolding web_ready_def by blast
  obtain hc where hc: "sb_HealthCheck checked_sandbox = Some hc" "hc_Command hc \<noteq> []" by (simp add: checked_sandbox_def)
  have svc: "hm_service hm ''web'' = Some (checked_sandbox, hc)"
    by (simp add: hm_service_def t(4) checked_config_def hc)
  obtain l hm' where step: "monitorService failing_env ''web'' checked_sandbox hc t hs hm = Some (l, hm')"
    using t(2) monitorService_enabled [of t failing_env "''web''" checked_sandbox hc hs hm] by auto
  have "web_ready hm' \<and> l \<noteq> LabTick ''web'' True"
    using step t(2,4) hc(2)
    by (auto simp: web_ready_def monitorService_def first_pc_def runCheck_def ExecInVM_def failing_env_def Let_def t(3)
        split: monitor_pc.splits option.splits prod.splits)
  moreover have "web_next hm = (l, hm')" by (simp add: web_next_def svc t step)
  ultimately show ?thesis using proceed [OF svc t(1,3) step] monitorService_frame(1) [OF step] by simp
qed

lemma web_run_ready: "web_ready (web_run i)"
proof (induction i)
  case 0
  show ?case
    by (simp add: web_ready_def checked_monitor_def start_config)
      (simp add: hm_Start_def hm_service_def NewHealthMonitor_def checked_config_def checked_sandbox_def first_pc_def)
qed (use web_ready_step in simp)

lemma monitor_reports_witness:
  "\<exists>hm hs. monitor_trace failing_env checked_monitor [LabTick ''web'' False] hm \<and> ServiceHealth hm ''web'' = Some hs \<and>
     hs_FailCount hs = 1 \<and> hs_Status hs \<noteq> ''unhealthy'' \<and> hs_Restarts hs = 0"
proof -
  have "fst (web_next checked_monitor) = LabTick ''web'' False" by code_simp
  then have tr: "monitor_trace failing_env checked_monitor [LabTick ''web'' False] (web_run 1)"
    using web_ready_step [OF web_run_ready [of 0]] by (auto intro: monitor_trace.intros)
  obtain hc where hc: "sb_HealthCheck checked_sandbox = Some hc" "check_retries hc = 2"
    by (simp add: checked_sandbox_def check_retries_def)
  have "map_of (cc_Sandboxes checked_config) ''web'' = Some checked_sandbox" by (simp add: checked_config_def)
  from conjunct1 [OF monitor_reports [OF tr [unfolded checked_monitor_def] this hc(1)]] show ?thesis
    using tr hc(2) by (auto simp: restarts_def)
qed

lemma monitor_restarts_forever_witness:
  "\<exists>r ls. monitor_run failing_env r ls \<and> r 0 = checked_monitor \<and> (\<forall>i. \<exists>j\<ge>i. ls j = LabStart ''web'')"
proof -
  define ls where "ls i = fst (web_next (web_run i))" for i
  have run: "monitor_run failing_env web_run ls"
    unfolding monitor_run_def ls_def using web_ready_step [OF web_run_ready] by simp
  have web: "label_of (ls i) = Some ''web''" "ls i \<noteq> LabTick ''web'' True" "ls i \<noteq> LabShutdown" for i
    using web_ready_step [OF web_run_ready [of i]] unfolding ls_def by auto
  obtain hc where hc: "sb_HealthCheck checked_sandbox = Some hc" by (simp add: checked_sandbox_def)
  have start: "web_run 0 = hm_Start (NewHealthMonitor ''demo'' checked_config ())" by (simp add: checked_monitor_def)
  have svc: "map_of (cc_Sandboxes checked_config) ''web'' = Some checked_sandbox" by (simp add: checked_config_def)
  have pol: "shouldRestart (sb_RestartPolicy checked_sandbox)" by code_simp
  have "\<exists>j\<ge>i. ls j = LabStart ''web''" for i
    by (rule monitor_restarts_forever [OF run start web(3) svc hc pol, of 0]) (use web in auto)
  then show ?thesis using run by (auto intro!: exI [of _ web_run] exI [of _ ls])
qed

end
