(* ===== verification/EnvFileClaims.thy ===== *)
theory EnvFileClaims
  imports EnvFile
begin

text \<open>
  Environment files: what a file written in the quoted form loads back to, the precedence
  of files and inline values, and the expansion of references.
\<close>

subsection \<open>Writing a file\<close>

definition escape_char :: "char \<Rightarrow> string" where
  "escape_char c =
     (if c = newline then [backslash, CHR ''n''] else if c = tab then [backslash, CHR ''t'']
      else if c = carriage then [backslash, CHR ''r''] else if c = backslash then [backslash, backslash]
      else if c = quote then [backslash, quote] else [c])"

definition escape :: "string \<Rightarrow> string" where
  "escape v = concat (map escape_char v)"

definition env_entry :: "string \<times> string \<Rightarrow> string" where
  "env_entry = (\<lambda>(k, v). k @ ''='' @ [quote] @ escape v @ [quote])"

definition env_text :: "(string \<times> string) list \<Rightarrow> string" where
  "env_text kvs = concat (map (\<lambda>kv. env_entry kv @ [newline]) kvs)"

text \<open>A key of a line: no white space at either end, no comment sign in front, no equals sign.\<close>

definition white :: "string \<Rightarrow> bool" where
  "white p \<longleftrightarrow> List.member white_pieces p"

definition key_ok :: "string \<Rightarrow> bool" where
  "key_ok k \<longleftrightarrow> k \<noteq> [] \<and> \<not> white (hd (rune_pieces k)) \<and> \<not> white (last (rune_pieces k)) \<and> hd k \<noteq> CHR ''#'' \<and>
     CHR ''='' \<notin> set k \<and> newline \<notin> set k \<and> take 7 k \<noteq> ''export ''"

definition entries_ok :: "(string \<times> string) list \<Rightarrow> bool" where
  "entries_ok kvs \<longleftrightarrow> distinct (map fst kvs) \<and>
     (\<forall>kv \<in> set kvs. key_ok (fst kv) \<and> length (env_entry kv) < MaxScanTokenSize)"

lemmas char_defs = quote_def apostrophe_def backslash_def newline_def tab_def carriage_def

lemma special_chars [simp]:
  "quote \<noteq> backslash" "newline \<noteq> quote" "newline \<noteq> backslash" "tab \<noteq> quote" "tab \<noteq> backslash"
  "carriage \<noteq> quote" "carriage \<noteq> backslash" "quote \<noteq> newline" "quote \<noteq> carriage" "backslash \<noteq> newline"
  "backslash \<noteq> quote" "\<not> white [quote]" "\<not> digit7 quote" "\<not> digit7 (CHR ''='')"
  by (simp_all add: char_defs white_def white_pieces_def)

lemma trim_space_id:
  assumes "rune_pieces s \<noteq> []" "\<not> white (hd (rune_pieces s))" "\<not> white (last (rune_pieces s))"
  shows "trim_space s = s"
proof -
  have "dropWhile white (rune_pieces s) = rune_pieces s" "dropWhile white (rev (rune_pieces s)) = rev (rune_pieces s)"
    using assms by (simp_all add: dropWhile_eq_self_iff hd_rev)
  moreover have "(\<lambda>p. List.member white_pieces p) = white" by (simp add: fun_eq_iff white_def)
  ultimately show ?thesis by (simp only: trim_space_def Let_def rev_rev_ident concat_rune_pieces)
qed

text \<open>A byte below 128 is a piece of its own, and what is before it is cut as if it were not there.\<close>

lemma within_high: "within lo hi c \<Longrightarrow> 128 \<le> lo \<Longrightarrow> digit7 c"
proof (rule ccontr)
  assume a: "within lo hi c" "128 \<le> lo" and "\<not> digit7 c"
  then have "of_char c < (128 :: nat)" by (cases c) (auto simp: of_bool_def)
  with a show False by (simp add: within_def byte_of_def)
qed

lemma multibyte_before:
  assumes "\<not> digit7 c" "128 \<le> lo" "0 < n"
  shows "multibyte n lo hi (k @ c # r) = multibyte n lo hi k"
proof (cases "n \<le> length k")
  case True
  then have "k \<noteq> []" "take n (k @ c # r) = take n k" using assms(3) by auto
  then show ?thesis using True by (simp only: multibyte_def hd_append2 length_append) simp
next
  case False
  then have "c \<in> set (take n (k @ c # r))" by (simp add: take_Cons')
  moreover have "\<not> within 128 191 c" using within_high assms(1) by blast
  ultimately have "\<not> list_all (within 128 191) (take n (k @ c # r))" by (auto simp: list_all_iff)
  then show ?thesis using False by (simp add: multibyte_def)
qed

lemma rune_width_before: "\<not> digit7 c \<Longrightarrow> rune_width (x # k @ c # r) = rune_width (x # k)"
  by (simp add: multibyte_before)

lemma rune_pieces_before:
  assumes "\<not> digit7 c"
  shows "rune_pieces (k @ c # r) = rune_pieces k @ rune_pieces (c # r)"
proof (induction k rule: rune_pieces.induct)
  case (2 x k)
  show ?case
  proof (cases "rune_width (x # k)")
    case None
    then have "rune_width (x # k @ c # r) = None" using rune_width_before [OF assms] by metis
    then show ?thesis using None "2.IH"(1) by (simp del: rune_width.simps)
  next
    case (Some n)
    then have w: "rune_width (x # k @ c # r) = Some n" using rune_width_before [OF assms] by metis
    have n: "0 < n" "n \<le> Suc (length k)" using rune_width_bounds [OF Some] by simp_all
    then have "n - 1 \<le> length k" by simp
    then show ?thesis using Some w n "2.IH"(2) [OF Some]
      by (cases n) (simp_all del: rune_width.simps)
  qed
qed simp

lemma rune_pieces_ascii: "\<not> digit7 c \<Longrightarrow> rune_pieces (c # r) = [c] # rune_pieces r"
  by simp

lemma rune_pieces_Nil_iff: "rune_pieces s = [] \<longleftrightarrow> s = []"
  by (cases s) (auto split: option.split)

lemma unescape_plain:
  "ys \<noteq> [] \<Longrightarrow> c \<noteq> quote \<Longrightarrow> c \<noteq> backslash \<Longrightarrow> unescape b (c # ys) = unescape (b @ [c]) ys"
  by (cases ys) auto

lemma unescape_escape_char:
  "ys \<noteq> [] \<Longrightarrow> unescape b (escape_char c @ ys) = unescape (b @ [c]) ys"
proof (cases "c \<in> {newline, tab, carriage, backslash, quote}")
  case True
  then show ?thesis by (auto simp: escape_char_def) (auto simp: char_defs)
next
  case False
  assume "ys \<noteq> []"
  then show ?thesis using False by (simp add: escape_char_def unescape_plain)
qed

lemma unescape_escape: "unescape b (escape v @ quote # rest) = Inr (b @ v)"
proof (induction v arbitrary: b)
  case Nil
  then show ?case by (cases rest) (simp_all add: escape_def)
next
  case (Cons c v)
  have "unescape b (escape_char c @ (escape v @ quote # rest)) = unescape (b @ [c]) (escape v @ quote # rest)"
    by (rule unescape_escape_char) simp
  then show ?case using Cons by (simp add: escape_def)
qed

lemma parse_quoted: "parseEnvValue ([quote] @ escape v @ [quote]) = Inr v"
proof -
  have p: "rune_pieces ([quote] @ escape v @ [quote]) = [quote] # rune_pieces (escape v) @ [[quote]]"
    using rune_pieces_before [of quote "escape v" "[]"] rune_pieces_ascii [of quote] by simp
  have t: "trim_space ([quote] @ escape v @ [quote]) = [quote] @ escape v @ [quote]"
    by (rule trim_space_id) (simp_all only: p, simp_all)
  show ?thesis unfolding parseEnvValue_def t Let_def
    using unescape_escape [of "[]" v "[]"] by (simp add: parseDoubleQuoted_def)
qed

lemma IndexByte_append: "c \<notin> set xs \<Longrightarrow> IndexByte c (xs @ c # ys) = Some (length xs)"
  by (induction xs) auto

lemma take_export:
  assumes "take 7 k \<noteq> ''export ''" "CHR ''='' \<notin> set k"
  shows "take 7 (k @ CHR ''='' # r) \<noteq> ''export ''"
proof (cases "7 \<le> length k")
  case True then show ?thesis using assms(1) by simp
next
  case False
  then have eq: "CHR ''='' \<in> set (take 7 (k @ CHR ''='' # r))" by (auto simp: take_Cons')
  have "CHR ''='' \<notin> set ''export ''" by simp
  then show ?thesis using eq by metis
qed

lemma env_line_entry:
  assumes "key_ok k"
  shows "env_line (env_entry (k, v)) = Inr (Some (k, v))"
proof -
  let ?line = "k @ CHR ''='' # [quote] @ escape v @ [quote]"
  have e: "env_entry (k, v) = ?line" by (simp add: env_entry_def)
  have k: "k \<noteq> []" "\<not> white (hd (rune_pieces k))" "\<not> white (last (rune_pieces k))" "hd k \<noteq> CHR ''#''" "CHR ''='' \<notin> set k"
    "take 7 k \<noteq> ''export ''" using assms by (auto simp: key_ok_def)
  have p: "rune_pieces ?line = rune_pieces k @ [CHR ''=''] # [quote] # rune_pieces (escape v) @ [[quote]]"
    using rune_pieces_before [of "CHR ''=''" k] rune_pieces_before [of quote "escape v" "[]"]
      rune_pieces_ascii [of "CHR ''=''"] rune_pieces_ascii [of quote] by simp
  have ne: "rune_pieces k \<noteq> []" using k(1) by (simp add: rune_pieces_Nil_iff)
  have "trim_space ?line = ?line" by (rule trim_space_id) (simp_all only: p, simp_all add: ne k)
  moreover have "trim_space k = k" by (rule trim_space_id [OF ne k(2,3)])
  moreover have "IndexByte (CHR ''='') ?line = Some (length k)" using IndexByte_append k(5) by simp
  ultimately show ?thesis unfolding e env_line_def Let_def
    using k take_export [OF k(6,5)] parse_quoted [of v] by simp
qed

lemma escape_no_newline: "newline \<notin> set (escape v)"
  by (induction v) (auto simp: escape_def escape_char_def newline_def backslash_def tab_def carriage_def quote_def)

lemma entry_no_newline: "key_ok k \<Longrightarrow> newline \<notin> set (env_entry (k, v))"
  using escape_no_newline [of v] by (auto simp: env_entry_def key_ok_def) (auto simp: newline_def)

lemma split_lines_ne [simp]: "split_lines s \<noteq> []"
  by (induction s rule: split_lines.induct) (auto split: list.splits)

lemma split_lines_line: "newline \<notin> set l \<Longrightarrow> split_lines (l @ newline # rest) = l # split_lines rest"
  by (induction l) auto

lemma raw_lines_text:
  assumes "\<forall>l \<in> set ls. newline \<notin> set l"
  shows "raw_lines (concat (map (\<lambda>l. l @ [newline]) ls)) = ls"
proof -
  have "split_lines (concat (map (\<lambda>l. l @ [newline]) ls)) = ls @ [[]]"
    using assms by (induction ls) (auto simp: split_lines_line)
  then show ?thesis by (simp add: raw_lines_def)
qed

lemma drop_cr_entry: "drop_cr (env_entry kv) = env_entry kv"
  by (cases kv) (auto simp: drop_cr_def env_entry_def)

lemma update_fresh: "k \<notin> fst ` set env \<Longrightarrow> AList.update k v env = env @ [(k, v)]"
  by (induction env) auto

lemma load_entries:
  "entries_ok kvs \<Longrightarrow> fst ` set kvs \<inter> fst ` set env = {} \<Longrightarrow>
   load_lines path n (map env_entry kvs) env = Inr (env @ kvs)"
proof (induction kvs arbitrary: n env)
  case Nil then show ?case by simp
next
  case (Cons kv kvs)
  obtain k v where kv: "kv = (k, v)" by (cases kv)
  have "key_ok k" "length (env_entry (k, v)) < MaxScanTokenSize" "entries_ok kvs" "k \<notin> fst ` set kvs"
    using Cons.prems(1) kv by (auto simp: entries_ok_def)
  then show ?case using Cons.IH [of "env @ [(k, v)]"] Cons.prems(2) kv
    by (auto simp: env_line_entry drop_cr_entry update_fresh)
qed

lemma load_text:
  assumes "entries_ok kvs" "disk path = Some (env_text kvs)"
  shows "LoadEnvFile disk path = Inr kvs"
proof -
  have "raw_lines (concat (map (\<lambda>l. l @ [newline]) (map env_entry kvs))) = map env_entry kvs"
    by (rule raw_lines_text) (use assms(1) entry_no_newline in \<open>auto simp: entries_ok_def\<close>)
  then have "raw_lines (env_text kvs) = map env_entry kvs" by (simp add: env_text_def comp_def)
  then show ?thesis using load_entries [OF assms(1), of "[]"] assms(2) by (simp add: LoadEnvFile_def)
qed

subsection \<open>Precedence\<close>

lemma map_of_update_all: "map_of (update_all kvs env) = map_of env ++ map_of (rev kvs)"
  unfolding update_all_def
proof (induction kvs arbitrary: env)
  case Nil then show ?case by simp
next
  case (Cons kv kvs)
  then show ?case by (cases kv) (auto simp: update_conv' fun_eq_iff map_add_def split: option.splits)
qed

lemma map_of_rev: "distinct (map fst kvs) \<Longrightarrow> map_of (rev kvs) = map_of kvs"
  by (rule map_of_inject_set [THEN iffD2]) (auto simp: rev_map [symmetric])

lemma load_files_ok:
  assumes "list_all2 (\<lambda>p kvs. entries_ok kvs \<and> disk (if take 1 p = ''/'' then p else join p) = Some (env_text kvs)) ps kvss"
  shows "\<exists>env. load_files disk join ps merged = Inr env \<and>
    map_of env = foldl (++) (map_of merged) (map map_of kvss)"
  using assms
proof (induction ps kvss arbitrary: merged rule: list_all2_induct)
  case Nil then show ?case by simp
next
  case (Cons p ps kvs kvss)
  have "LoadEnvFile disk (if take 1 p = ''/'' then p else join p) = Inr kvs"
    by (rule load_text) (use Cons in simp_all)
  then have "load_files disk join (p # ps) merged = load_files disk join ps (update_all kvs merged)"
    by (simp add: Let_def)
  moreover have "map_of (update_all kvs merged) = map_of merged ++ map_of kvs"
    using Cons by (simp add: map_of_update_all entries_ok_def map_of_rev)
  ultimately show ?case using Cons.IH [of "update_all kvs merged"] by simp
qed

subsection \<open>Expansion of references\<close>

lemma expand_plain: "CHR ''$'' \<notin> set s \<Longrightarrow> expandEnvVars getenv (s @ rest) = s @ expandEnvVars getenv rest"
  by (induction s) auto

lemma takeWhile_brace: "CHR ''}'' \<notin> set n \<Longrightarrow> takeWhile (\<lambda>x. x \<noteq> CHR ''}'') (n @ CHR ''}'' # rest) = n"
  by (induction n) auto

lemma expand_braced:
  assumes "n \<noteq> []" "CHR ''}'' \<notin> set n"
  shows "expandEnvVars getenv (''${'' @ n @ ''}'' @ rest) = expand_var getenv n @ expandEnvVars getenv rest"
  using assms by (simp add: match_var_def match_braced_def takeWhile_brace)

text \<open>
  C40: Env files of a sandbox: when every listed file was written in the quoted form (a line
  for each of distinct keys, shorter than the scanner's limit, the key with no white space of
  Unicode at its ends, newlines, quotes and backslashes of the value escaped) the resolved
  environment is that of the files in order, a later file overriding an earlier one and the inline variables of the sandbox
  overriding all of them (ResolveEnvFiles, envfile.go).
\<close>
theorem env_files_resolve:
  assumes "list_all2 (\<lambda>p kvs. entries_ok kvs \<and> disk (if take 1 p = ''/'' then p else join p) = Some (env_text kvs))
      (sb_EnvFile sb) kvss"
    and "distinct (map fst (sb_Env sb))"
  shows "\<exists>env. ResolveEnvFiles disk join sb = Inr env \<and>
    map_of env = foldl (++) Map.empty (map map_of kvss) ++ map_of (sb_Env sb)"
proof (cases "sb_EnvFile sb = []")
  case True
  then show ?thesis using assms by (simp add: ResolveEnvFiles_def)
next
  case False
  then show ?thesis using load_files_ok [OF assms(1), of "[]"] assms(2)
    by (auto simp: ResolveEnvFiles_def map_of_update_all map_of_rev)
qed

lemma env_files_resolve_witness:
  defines "kvs \<equiv> [(''GREETING'', ''say '' @ [quote] @ ''hi'' @ [quote, newline] @ ''# not a comment''), (''PORT'', ''80'')]"
  shows "\<exists>env. ResolveEnvFiles [''/srv/app.env'' \<mapsto> env_text kvs] (\<lambda>p. ''/srv/'' @ p)
      (\<lparr>sb_From = ''ubuntu'', sb_VCPUs = 0, sb_MemoryMB = 0, sb_DiskGB = 0, sb_Network = None, sb_Mounts = [],
        sb_Volumes = [], sb_Env = [(''PORT'', ''8080'')], sb_EnvFile = [''app.env''], sb_DependsOn = [],
        sb_Profiles = [], sb_HealthCheck = None, sb_RestartPolicy = [], sb_Hooks = None, sb_Watch = None,
        sb_Extends = []\<rparr>) = Inr env \<and>
    map_of env ''PORT'' = Some ''8080'' \<and> map_of env ''GREETING'' = Some (snd (hd kvs))"
proof -
  let ?sb = "\<lparr>sb_From = ''ubuntu'', sb_VCPUs = 0, sb_MemoryMB = 0, sb_DiskGB = 0, sb_Network = None, sb_Mounts = [],
        sb_Volumes = [], sb_Env = [(''PORT'', ''8080'')], sb_EnvFile = [''app.env''], sb_DependsOn = [],
        sb_Profiles = [], sb_HealthCheck = None, sb_RestartPolicy = [], sb_Hooks = None, sb_Watch = None,
        sb_Extends = []\<rparr>"
  have ok: "entries_ok kvs" unfolding kvs_def
    by (simp add: entries_ok_def key_ok_def env_entry_def escape_def escape_char_def char_defs white_def white_pieces_def
        MaxScanTokenSize_def)
  let ?disk = "[''/srv/app.env'' \<mapsto> env_text kvs]" and ?join = "\<lambda>p. ''/srv/'' @ p"
  have "list_all2 (\<lambda>p kvs'. entries_ok kvs' \<and> ?disk (if take 1 p = ''/'' then p else ?join p) = Some (env_text kvs'))
      (sb_EnvFile ?sb) [kvs]"
    using ok by simp
  then have "\<exists>env. ResolveEnvFiles ?disk ?join ?sb = Inr env \<and>
      map_of env = foldl (++) Map.empty (map map_of [kvs]) ++ map_of (sb_Env ?sb)"
    by (rule env_files_resolve) simp
  then show ?thesis by (auto simp: kvs_def)
qed

end
