(* ===== verification/VirtioFs.thy ===== *)
theory VirtioFs
  imports GoFile GoText Effects "HOL-Library.AList"
begin

text \<open>
  Model of \<^verbatim>\<open>internal/virtio/fs.go\<close>: the shared directory device, a FUSE server over a
  directory of the host. The host's file system is a parameter, a record of the functions of
  \<^verbatim>\<open>os\<close> and \<^verbatim>\<open>path/filepath\<close> that the code calls, on a world of arbitrary type; paths are
  byte strings. A handler that answers with an error code early throws that code, and
  ProcessRequest turns it into the error response.
\<close>

subsection \<open>Constants and messages\<close>

definition FuseOpLookup :: u32 where "FuseOpLookup = 1"
definition FuseOpForget :: u32 where "FuseOpForget = 2"
definition FuseOpGetattr :: u32 where "FuseOpGetattr = 3"
definition FuseOpSetattr :: u32 where "FuseOpSetattr = 4"
definition FuseOpReadlink :: u32 where "FuseOpReadlink = 5"
definition FuseOpMkdir :: u32 where "FuseOpMkdir = 7"
definition FuseOpUnlink :: u32 where "FuseOpUnlink = 10"
definition FuseOpRmdir :: u32 where "FuseOpRmdir = 11"
definition FuseOpRename :: u32 where "FuseOpRename = 12"
definition FuseOpOpen :: u32 where "FuseOpOpen = 14"
definition FuseOpRead :: u32 where "FuseOpRead = 15"
definition FuseOpWrite :: u32 where "FuseOpWrite = 16"
definition FuseOpStatfs :: u32 where "FuseOpStatfs = 17"
definition FuseOpRelease :: u32 where "FuseOpRelease = 18"
definition FuseOpFsync :: u32 where "FuseOpFsync = 20"
definition FuseOpFlush :: u32 where "FuseOpFlush = 25"
definition FuseOpInit :: u32 where "FuseOpInit = 26"
definition FuseOpOpendir :: u32 where "FuseOpOpendir = 27"
definition FuseOpReaddir :: u32 where "FuseOpReaddir = 28"
definition FuseOpReleasedir :: u32 where "FuseOpReleasedir = 29"
definition FuseOpCreate :: u32 where "FuseOpCreate = 35"
definition FuseOpReaddirplus :: u32 where "FuseOpReaddirplus = 44"

lemmas fuse_ops = FuseOpLookup_def FuseOpForget_def FuseOpGetattr_def FuseOpSetattr_def FuseOpReadlink_def
  FuseOpMkdir_def FuseOpUnlink_def FuseOpRmdir_def FuseOpRename_def FuseOpOpen_def FuseOpRead_def
  FuseOpWrite_def FuseOpStatfs_def FuseOpRelease_def FuseOpFsync_def FuseOpFlush_def FuseOpInit_def
  FuseOpOpendir_def FuseOpReaddir_def FuseOpReleasedir_def FuseOpCreate_def FuseOpReaddirplus_def

definition FuseErrOK :: u32 where "FuseErrOK = 0"
definition FuseErrNoent :: u32 where "FuseErrNoent = - 2"
definition FuseErrIO :: u32 where "FuseErrIO = - 5"
definition FuseErrAccess :: u32 where "FuseErrAccess = - 13"
definition FuseErrExist :: u32 where "FuseErrExist = - 17"
definition FuseErrInval :: u32 where "FuseErrInval = - 22"
definition FuseErrNosys :: u32 where "FuseErrNosys = - 38"
definition FuseErrEmpty :: u32 where "FuseErrEmpty = - 39"

definition FuseOpenFlagKeepCache :: u32 where "FuseOpenFlagKeepCache = 2"

record FuseInHeader =
  fih_Len :: u32
  fih_Opcode :: u32
  fih_Unique :: u64
  fih_NodeID :: u64
  fih_UID :: u32
  fih_GID :: u32
  fih_PID :: u32
  fih_Padding :: u32

record FuseOutHeader =
  foh_Len :: u32
  foh_Error :: u32
  foh_Unique :: u64

record FuseAttr =
  fa_Ino :: u64
  fa_Size :: u64
  fa_Blocks :: u64
  fa_Atime :: u64
  fa_Mtime :: u64
  fa_Ctime :: u64
  fa_AtimeNsec :: u32
  fa_MtimeNsec :: u32
  fa_CtimeNsec :: u32
  fa_Mode :: u32
  fa_Nlink :: u32
  fa_UID :: u32
  fa_GID :: u32
  fa_Rdev :: u32
  fa_BlkSize :: u32
  fa_Padding :: u32

record FuseEntryOut =
  feo_NodeID :: u64
  feo_Generation :: u64
  feo_EntryValid :: u64
  feo_AttrValid :: u64
  feo_EntryValidNsec :: u32
  feo_AttrValidNsec :: u32
  feo_Attr :: FuseAttr

record FuseReadIn =
  fri_Fh :: u64
  fri_Offset :: u64
  fri_Size :: u32

definition fuseInHeaderSize :: nat where "fuseInHeaderSize = 40"
definition fuseOutHeaderSize :: nat where "fuseOutHeaderSize = 16"

subsection \<open>The host\<close>

datatype file_kind = KindDir | KindSymlink | KindOther

record FileInfo =
  inf_Kind :: file_kind
  inf_Perm :: u32
  inf_Size :: u64
  inf_Unix :: u64
  inf_Nanosecond :: u32

record DirEntry =
  de_Name :: bytes
  de_Kind :: file_kind

datatype open_flags = O_RDONLY | O_RDWR | O_CREATE_RDWR_TRUNC

datatype host_error = HostExist | HostNotExist | HostOther

record ('f, 'w) HostEnv =
  fe_Getwd :: "'w \<Rightarrow> bytes option"
  fe_Stat :: "bytes \<Rightarrow> 'w \<Rightarrow> FileInfo option"
  fe_Lstat :: "bytes \<Rightarrow> 'w \<Rightarrow> FileInfo option"
  fe_EvalSymlinks :: "bytes \<Rightarrow> 'w \<Rightarrow> bytes option"
  fe_Readlink :: "bytes \<Rightarrow> 'w \<Rightarrow> bytes option"
  fe_ReadDir :: "bytes \<Rightarrow> 'w \<Rightarrow> DirEntry list option"
  fe_Info :: "DirEntry \<Rightarrow> 'w \<Rightarrow> FileInfo option"
  fe_OpenFile :: "bytes \<Rightarrow> open_flags \<Rightarrow> u32 \<Rightarrow> 'w \<Rightarrow> 'w \<times> 'f option"
  fe_FileStat :: "'f \<Rightarrow> 'w \<Rightarrow> FileInfo option"
  fe_ReadAt :: "'f \<Rightarrow> nat \<Rightarrow> int \<Rightarrow> 'w \<Rightarrow> bytes \<times> io_error option"
  fe_WriteAt :: "'f \<Rightarrow> bytes \<Rightarrow> int \<Rightarrow> 'w \<Rightarrow> 'w \<times> nat \<times> io_error option"
  fe_Close :: "'f \<Rightarrow> 'w \<Rightarrow> 'w"
  fe_Sync :: "'f \<Rightarrow> 'w \<Rightarrow> 'w"
  fe_Mkdir :: "bytes \<Rightarrow> u32 \<Rightarrow> 'w \<Rightarrow> 'w \<times> host_error option"
  fe_Remove :: "bytes \<Rightarrow> 'w \<Rightarrow> 'w \<times> host_error option"
  fe_Rename :: "bytes \<Rightarrow> bytes \<Rightarrow> 'w \<Rightarrow> 'w \<times> host_error option"
  fe_Truncate :: "bytes \<Rightarrow> int \<Rightarrow> 'w \<Rightarrow> 'w \<times> host_error option"
  fe_Chmod :: "bytes \<Rightarrow> u32 \<Rightarrow> 'w \<Rightarrow> 'w"

subsection \<open>The device\<close>

text \<open>
  A file handle keeps a pointer to its inode in the code, which no operation reads; here it
  keeps the node number.
\<close>

record fsInode =
  fi_hostPath :: bytes
  fi_nodeID :: u64
  fi_isDir :: bool
  fi_refCount :: int

record 'f fsFileHandle =
  fh_node :: u64
  fh_file :: "'f option"
  fh_isDir :: bool
  fh_dirEnts :: "DirEntry list"

record ('f, 'w) VirtioFS =
  fs_deviceID :: string
  fs_tag :: string
  fs_hostPath :: bytes
  fs_readOnly :: bool
  fs_inodes :: "u64 \<rightharpoonup> fsInode"
  fs_pathToNode :: "bytes \<rightharpoonup> u64"
  fs_nextNodeID :: u64
  fs_handles :: "(u64 \<times> 'f fsFileHandle) list"
  fs_nextHandle :: u64
  fs_running :: bool
  fs_stopClosed :: bool
  fs_opsCompleted :: u64
  fs_bytesRead :: u64
  fs_bytesWritten :: u64
  fs_world :: 'w

datatype fs_error =
    FsNoHostPath
  | FsNoTag
  | FsAbs
  | FsStat
  | FsNotDirectory bytes
  | FsAlreadyRunning
  | FsNotRunning
  | FsTooSmall nat
  | FsMount nat bytes fs_error
  | FsClosedChannel
  | FsErrno u32
  | FsPanic

type_synonym ('f, 'w, 'a) fop = "(('f, 'w) VirtioFS, fs_error, 'a) op"

definition ask_host :: "('w \<Rightarrow> 'a) \<Rightarrow> ('f, 'w, 'a) fop" where
  "ask_host f = reads (\<lambda>d. f (fs_world d))"

definition host_call :: "('w \<Rightarrow> 'w \<times> 'a) \<Rightarrow> ('f, 'w, 'a) fop" where
  "host_call f = (\<lambda>d. case f (fs_world d) of (w, x) \<Rightarrow> (d\<lparr>fs_world := w\<rparr>, Inr x))"

definition host_effect :: "('w \<Rightarrow> 'w) \<Rightarrow> ('f, 'w, unit) fop" where
  "host_effect f = modify (\<lambda>d. d\<lparr>fs_world := f (fs_world d)\<rparr>)"

subsection \<open>Encoding\<close>

definition decodeFuseInHeader :: "bytes \<Rightarrow> FuseInHeader" where
  "decodeFuseInHeader buf =
     \<lparr>fih_Len = get_le (gslice 0 4 buf), fih_Opcode = get_le (gslice 4 8 buf),
      fih_Unique = get_le (gslice 8 16 buf), fih_NodeID = get_le (gslice 16 24 buf),
      fih_UID = get_le (gslice 24 28 buf), fih_GID = get_le (gslice 28 32 buf),
      fih_PID = get_le (gslice 32 36 buf), fih_Padding = get_le (gslice 36 40 buf)\<rparr>"

definition encodeFuseOutHeader :: "FuseOutHeader \<Rightarrow> bytes" where
  "encodeFuseOutHeader h = put_le 4 (foh_Len h) @ put_le 4 (foh_Error h) @ put_le 8 (foh_Unique h)"

definition encodeAttr :: "FuseAttr \<Rightarrow> bytes" where
  "encodeAttr a =
     put_le 8 (fa_Ino a) @ put_le 8 (fa_Size a) @ put_le 8 (fa_Blocks a) @ put_le 8 (fa_Atime a) @
     put_le 8 (fa_Mtime a) @ put_le 8 (fa_Ctime a) @ put_le 4 (fa_AtimeNsec a) @ put_le 4 (fa_MtimeNsec a) @
     put_le 4 (fa_CtimeNsec a) @ put_le 4 (fa_Mode a) @ put_le 4 (fa_Nlink a) @ put_le 4 (fa_UID a) @
     put_le 4 (fa_GID a) @ put_le 4 (fa_Rdev a) @ put_le 4 (fa_BlkSize a) @ put_le 4 (fa_Padding a)"

definition marshalEntryOut :: "FuseEntryOut \<Rightarrow> bytes" where
  "marshalEntryOut e =
     put_le 8 (feo_NodeID e) @ put_le 8 (feo_Generation e) @ put_le 8 (feo_EntryValid e) @
     put_le 8 (feo_AttrValid e) @ put_le 4 (feo_EntryValidNsec e) @ put_le 4 (feo_AttrValidNsec e) @
     encodeAttr (feo_Attr e)"

definition cstring :: "bytes \<Rightarrow> bytes" where
  "cstring b = takeWhile (\<lambda>c. c \<noteq> 0) b"

definition decode_read_in :: "bytes \<Rightarrow> FuseReadIn" where
  "decode_read_in body =
     \<lparr>fri_Fh = get_le (gslice 0 8 body), fri_Offset = get_le (gslice 8 16 body), fri_Size = get_le (gslice 16 20 body)\<rparr>"

text \<open>A success response with its body.\<close>

definition fuse_reply :: "u64 \<Rightarrow> bytes \<Rightarrow> bytes" where
  "fuse_reply unique body =
     encodeFuseOutHeader \<lparr>foh_Len = of_nat (fuseOutHeaderSize + length body), foh_Error = FuseErrOK, foh_Unique = unique\<rparr> @ body"

definition errorResponse :: "u64 \<Rightarrow> u32 \<Rightarrow> bytes" where
  "errorResponse unique errno =
     encodeFuseOutHeader \<lparr>foh_Len = of_nat fuseOutHeaderSize, foh_Error = errno, foh_Unique = unique\<rparr>"

definition emptyResponse :: "u64 \<Rightarrow> bytes" where
  "emptyResponse unique =
     encodeFuseOutHeader \<lparr>foh_Len = of_nat fuseOutHeaderSize, foh_Error = FuseErrOK, foh_Unique = unique\<rparr>"

definition encodeEntryOut :: "u64 \<Rightarrow> FuseEntryOut \<Rightarrow> bytes" where
  "encodeEntryOut unique entry = fuse_reply unique (marshalEntryOut entry)"

definition open_out :: "u64 \<Rightarrow> u32 \<Rightarrow> bytes" where
  "open_out handle flags = put_le 8 handle @ put_le 4 flags @ replicate 4 0"

definition encodeOpenOut :: "u64 \<Rightarrow> u64 \<Rightarrow> u32 \<Rightarrow> bytes" where
  "encodeOpenOut unique handle flags = fuse_reply unique (open_out handle flags)"

definition fuseFileType :: "file_kind \<Rightarrow> u32" where
  "fuseFileType k = (case k of KindDir \<Rightarrow> 4 | KindSymlink \<Rightarrow> 10 | KindOther \<Rightarrow> 8)"

text \<open>Zeros up to the next multiple of eight.\<close>

definition pad8 :: "nat \<Rightarrow> bytes" where
  "pad8 n = replicate ((n + 7) div 8 * 8 - n) 0"

definition encodeDirent :: "bytes \<Rightarrow> u64 \<Rightarrow> file_kind \<Rightarrow> bytes" where
  "encodeDirent name off kind =
     put_le 8 off @ put_le 8 off @ put_le 4 (of_nat (length name) :: u32) @ put_le 4 (fuseFileType kind) @
     name @ pad8 (24 + length name)"

definition encodeDirentPlus :: "bytes \<Rightarrow> u64 \<Rightarrow> FuseEntryOut \<Rightarrow> bytes" where
  "encodeDirentPlus name off entry =
     marshalEntryOut entry @ put_le 8 (fa_Ino (feo_Attr entry)) @ put_le 8 off @
     put_le 4 (of_nat (length name) :: u32) @
     put_le 4 (if fa_Mode (feo_Attr entry) AND 16384 \<noteq> 0 then 4 else 8 :: u32) @
     name @ pad8 (24 + length name)"

definition fileInfoToAttr :: "FileInfo \<Rightarrow> u64 \<Rightarrow> FuseAttr" where
  "fileInfoToAttr info nodeID =
     \<lparr>fa_Ino = nodeID, fa_Size = inf_Size info, fa_Blocks = (inf_Size info + 511) div 512,
      fa_Atime = inf_Unix info, fa_Mtime = inf_Unix info, fa_Ctime = inf_Unix info,
      fa_AtimeNsec = inf_Nanosecond info, fa_MtimeNsec = inf_Nanosecond info, fa_CtimeNsec = inf_Nanosecond info,
      fa_Mode = inf_Perm info OR (case inf_Kind info of KindDir \<Rightarrow> 16384 | KindSymlink \<Rightarrow> 40960 | KindOther \<Rightarrow> 32768),
      fa_Nlink = (if inf_Kind info = KindDir then 2 else 1), fa_UID = 0, fa_GID = 0, fa_Rdev = 0,
      fa_BlkSize = 4096, fa_Padding = 0\<rparr>"

definition entry_out :: "u64 \<Rightarrow> FileInfo \<Rightarrow> FuseEntryOut" where
  "entry_out nodeID info =
     \<lparr>feo_NodeID = nodeID, feo_Generation = 1, feo_EntryValid = 1, feo_AttrValid = 1,
      feo_EntryValidNsec = 0, feo_AttrValidNsec = 0, feo_Attr = fileInfoToAttr info nodeID\<rparr>"

subsection \<open>Paths and inodes\<close>

definition Abs :: "('f, 'w) HostEnv \<Rightarrow> bytes \<Rightarrow> 'w \<Rightarrow> bytes option" where
  "Abs env path w = (if IsAbs path then Some (Clean path) else map_option (\<lambda>wd. Join wd path) (fe_Getwd env w))"

definition under_root :: "bytes \<Rightarrow> bytes \<Rightarrow> bool" where
  "under_root root p \<longleftrightarrow> p = root \<or> has_prefix p (root @ [47])"

definition isPathSafe :: "('f, 'w) HostEnv \<Rightarrow> bytes \<Rightarrow> bytes \<Rightarrow> 'w \<Rightarrow> bool" where
  "isPathSafe env root path w =
     (case Abs env path w of
        None \<Rightarrow> False
      | Some absPath \<Rightarrow>
          (case fe_EvalSymlinks env (Dir absPath) w of
             None \<Rightarrow> under_root root absPath
           | Some resolved \<Rightarrow> under_root root resolved))"

definition check_path :: "('f, 'w) HostEnv \<Rightarrow> bytes \<Rightarrow> ('f, 'w, unit) fop" where
  "check_path env path =
     bind (reads (\<lambda>d. isPathSafe env (fs_hostPath d) path (fs_world d))) (\<lambda>safe.
     failIf (\<not> safe) (FsErrno FuseErrAccess))"

definition get_inode :: "u64 \<Rightarrow> ('f, 'w, fsInode) fop" where
  "get_inode n = bind (reads (\<lambda>d. fs_inodes d n)) (orFail (FsErrno FuseErrNoent))"

definition put_inode :: "u64 \<Rightarrow> fsInode \<Rightarrow> ('f, 'w, unit) fop" where
  "put_inode n i = modify (\<lambda>d. d\<lparr>fs_inodes := (fs_inodes d)(n \<mapsto> i)\<rparr>)"

text \<open>The node number of a path; a path whose node is missing makes the code dereference nil.\<close>

definition getOrCreateInode :: "bytes \<Rightarrow> bool \<Rightarrow> ('f, 'w, u64) fop" where
  "getOrCreateInode path isDir =
     bind (reads (\<lambda>d. fs_pathToNode d path)) (\<lambda>known.
     case known of
       Some n \<Rightarrow>
         bind (reads (\<lambda>d. fs_inodes d n)) (\<lambda>inode.
         bind (orFail FsPanic inode) (\<lambda>i.
         seq (put_inode n (i\<lparr>fi_refCount := int64 (fi_refCount i + 1)\<rparr>))
         (return n)))
     | None \<Rightarrow>
         bind (reads fs_nextNodeID) (\<lambda>n.
         seq (modify (\<lambda>d. d\<lparr>fs_nextNodeID := n + 1, fs_pathToNode := (fs_pathToNode d)(path \<mapsto> n)\<rparr>))
         (seq (put_inode n \<lparr>fi_hostPath = path, fi_nodeID = n, fi_isDir = isDir, fi_refCount = 1\<rparr>)
         (return n))))"

definition drop_path :: "bytes \<Rightarrow> ('f, 'w, unit) fop" where
  "drop_path path =
     modify (\<lambda>d. case fs_pathToNode d path of
         None \<Rightarrow> d
       | Some n \<Rightarrow> d\<lparr>fs_inodes := (fs_inodes d)(n := None), fs_pathToNode := (fs_pathToNode d)(path := None)\<rparr>)"

definition add_handle :: "'f fsFileHandle \<Rightarrow> ('f, 'w, u64) fop" where
  "add_handle fh =
     bind (reads fs_nextHandle) (\<lambda>h.
     seq (modify (\<lambda>d. d\<lparr>fs_nextHandle := h + 1, fs_handles := AList.update h fh (fs_handles d)\<rparr>))
     (return h))"

subsection \<open>Names and attributes\<close>

definition bad_name :: "bytes \<Rightarrow> bool" where
  "bad_name name \<longleftrightarrow> name = [] \<or> 47 \<in> set name"

definition handleInit :: "FuseInHeader \<Rightarrow> bytes" where
  "handleInit hdr = fuse_reply (fih_Unique hdr)
     (put_le 4 (7 :: u32) @ put_le 4 (31 :: u32) @ put_le 4 (131072 :: u32) @ put_le 4 (0 :: u32) @
      put_le 2 (16 :: u16) @ put_le 2 (12 :: u16) @ put_le 4 (1048576 :: u32) @ put_le 4 (1 :: u32) @
      put_le 2 (256 :: u16) @ put_le 2 (0 :: u16) @ replicate 48 0)"

definition handleStatfs :: "FuseInHeader \<Rightarrow> bytes" where
  "handleStatfs hdr = fuse_reply (fih_Unique hdr)
     (put_le 8 (1048576 :: u64) @ put_le 8 (524288 :: u64) @ put_le 8 (524288 :: u64) @ put_le 8 (1048576 :: u64) @
      put_le 8 (524288 :: u64) @ put_le 4 (4096 :: u32) @ put_le 4 (255 :: u32) @ put_le 4 (4096 :: u32) @ replicate 28 0)"

definition handleLookup :: "('f, 'w) HostEnv \<Rightarrow> FuseInHeader \<Rightarrow> bytes \<Rightarrow> ('f, 'w, bytes) fop" where
  "handleLookup env hdr body =
     bind (get_inode (fih_NodeID hdr)) (\<lambda>parent.
     let name = cstring body; childPath = Join (fi_hostPath parent) name in
     seq (failIf (name = []) (FsErrno FuseErrInval))
     (seq (failIf (47 \<in> set name \<or> name = [46, 46] \<or> name = [46]) (FsErrno FuseErrInval))
     (seq (check_path env childPath)
     (bind (ask_host (fe_Lstat env childPath)) (\<lambda>io.
     bind (orFail (FsErrno FuseErrNoent) io) (\<lambda>info.
     bind (getOrCreateInode childPath (inf_Kind info = KindDir)) (\<lambda>n.
     return (encodeEntryOut (fih_Unique hdr) (entry_out n info)))))))))"

definition handleForget :: "FuseInHeader \<Rightarrow> bytes \<Rightarrow> ('f, 'w, unit) fop" where
  "handleForget hdr body =
     bind (reads (\<lambda>d. fs_inodes d (fih_NodeID hdr))) (\<lambda>io.
     case io of
       None \<Rightarrow> return ()
     | Some i \<Rightarrow>
         let nlookup = (if length body \<ge> 8 then get_le (gslice 0 8 body) else 1 :: u64);
             rc = int64 (fi_refCount i - sint nlookup)
         in if rc \<le> 0 \<and> fih_NodeID hdr \<noteq> 1
            then modify (\<lambda>d. d\<lparr>fs_pathToNode := (fs_pathToNode d)(fi_hostPath i := None),
                               fs_inodes := (fs_inodes d)(fih_NodeID hdr := None)\<rparr>)
            else put_inode (fih_NodeID hdr) (i\<lparr>fi_refCount := rc\<rparr>))"

definition handleGetattr :: "('f, 'w) HostEnv \<Rightarrow> FuseInHeader \<Rightarrow> ('f, 'w, bytes) fop" where
  "handleGetattr env hdr =
     bind (get_inode (fih_NodeID hdr)) (\<lambda>i.
     bind (ask_host (fe_Lstat env (fi_hostPath i))) (\<lambda>io.
     bind (orFail (FsErrno FuseErrIO) io) (\<lambda>info.
     return (fuse_reply (fih_Unique hdr)
       (put_le 8 (1 :: u64) @ put_le 4 (0 :: u32) @ replicate 4 0 @ encodeAttr (fileInfoToAttr info (fi_nodeID i)))))))"

definition handleSetattr :: "('f, 'w) HostEnv \<Rightarrow> FuseInHeader \<Rightarrow> bytes \<Rightarrow> ('f, 'w, bytes) fop" where
  "handleSetattr env hdr body =
     bind (reads fs_readOnly) (\<lambda>ro.
     seq (failIf ro (FsErrno FuseErrAccess))
     (bind (get_inode (fih_NodeID hdr)) (\<lambda>i.
     let mask = (get_le (gslice 0 4 body) :: u32) in
     seq (whenOp (length body \<ge> 4 \<and> mask AND 8 \<noteq> 0 \<and> length body \<ge> 16)
           (bind (host_call (fe_Truncate env (fi_hostPath i) (sint (get_le (gslice 8 16 body) :: u64)))) (\<lambda>e.
            failIf (e \<noteq> None) (FsErrno FuseErrIO))))
     (seq (whenOp (length body \<ge> 4 \<and> mask AND 1 \<noteq> 0 \<and> length body \<ge> 8)
            (host_effect (fe_Chmod env (fi_hostPath i) (get_le (gslice 4 8 body) AND 511))))
     (handleGetattr env hdr)))))"

definition handleReadlink :: "('f, 'w) HostEnv \<Rightarrow> FuseInHeader \<Rightarrow> ('f, 'w, bytes) fop" where
  "handleReadlink env hdr =
     bind (get_inode (fih_NodeID hdr)) (\<lambda>i.
     bind (ask_host (fe_Readlink env (fi_hostPath i))) (\<lambda>to.
     bind (orFail (FsErrno FuseErrInval) to) (\<lambda>target.
     return (fuse_reply (fih_Unique hdr) target))))"

subsection \<open>Files\<close>

definition handleOpen :: "('f, 'w) HostEnv \<Rightarrow> FuseInHeader \<Rightarrow> ('f, 'w, bytes) fop" where
  "handleOpen env hdr =
     bind (get_inode (fih_NodeID hdr)) (\<lambda>i.
     bind (reads fs_readOnly) (\<lambda>ro.
     bind (host_call (fe_OpenFile env (fi_hostPath i) (if ro then O_RDONLY else O_RDWR) 0)) (\<lambda>first.
     bind (case first of
             Some f \<Rightarrow> return f
           | None \<Rightarrow>
               bind (host_call (fe_OpenFile env (fi_hostPath i) O_RDONLY 0)) (orFail (FsErrno FuseErrAccess))) (\<lambda>f.
     bind (add_handle \<lparr>fh_node = fih_NodeID hdr, fh_file = Some f, fh_isDir = False, fh_dirEnts = []\<rparr>) (\<lambda>h.
     return (encodeOpenOut (fih_Unique hdr) h FuseOpenFlagKeepCache))))))"

text \<open>The file of a handle; a missing handle and one of a directory are invalid.\<close>

definition get_file :: "u64 \<Rightarrow> ('f, 'w, 'f) fop" where
  "get_file h = bind (reads (\<lambda>d. Option.bind (map_of (fs_handles d) h) fh_file)) (orFail (FsErrno FuseErrInval))"

definition fs_handleRead :: "('f, 'w) HostEnv \<Rightarrow> FuseInHeader \<Rightarrow> bytes \<Rightarrow> ('f, 'w, bytes) fop" where
  "fs_handleRead env hdr body =
     seq (failIf (length body < 24) (FsErrno FuseErrInval))
     (let r = decode_read_in body in
      bind (get_file (fri_Fh r)) (\<lambda>f.
      bind (ask_host (fe_ReadAt env f (unat (fri_Size r)) (sint (fri_Offset r)))) (\<lambda>(buf, e).
      seq (failIf (e \<noteq> None \<and> e \<noteq> Some IoEOF) (FsErrno FuseErrIO))
      (seq (modify (\<lambda>d. d\<lparr>fs_bytesRead := fs_bytesRead d + of_nat (length buf)\<rparr>))
      (return (fuse_reply (fih_Unique hdr) buf))))))"

text \<open>The data of a write follows a header of 40 bytes, or of 24 when the body is shorter.\<close>

definition write_data :: "bytes \<Rightarrow> u32 \<Rightarrow> bytes" where
  "write_data body sz =
     (let dat = drop (if length body < 40 then 24 else 40) body
      in if (of_nat (length dat) :: u32) > sz then take (unat sz) dat else dat)"

definition fs_handleWrite :: "('f, 'w) HostEnv \<Rightarrow> FuseInHeader \<Rightarrow> bytes \<Rightarrow> ('f, 'w, bytes) fop" where
  "fs_handleWrite env hdr body =
     bind (reads fs_readOnly) (\<lambda>ro.
     seq (failIf ro (FsErrno FuseErrAccess))
     (seq (failIf (length body < 24) (FsErrno FuseErrInval))
     (let r = decode_read_in body in
      bind (get_file (fri_Fh r)) (\<lambda>f.
      bind (host_call (fe_WriteAt env f (write_data body (fri_Size r)) (sint (fri_Offset r)))) (\<lambda>(n, e).
      seq (failIf (e \<noteq> None) (FsErrno FuseErrIO))
      (seq (modify (\<lambda>d. d\<lparr>fs_bytesWritten := fs_bytesWritten d + of_nat n\<rparr>))
      (return (fuse_reply (fih_Unique hdr) (put_le 4 (of_nat n :: u32) @ replicate 4 0)))))))))"

definition fs_handleRelease :: "('f, 'w) HostEnv \<Rightarrow> FuseInHeader \<Rightarrow> bytes \<Rightarrow> ('f, 'w, bytes) fop" where
  "fs_handleRelease env hdr body =
     seq (failIf (length body < 8) (FsErrno FuseErrInval))
     (let h = get_le (gslice 0 8 body) in
      bind (reads (\<lambda>d. map_of (fs_handles d) h)) (\<lambda>fho.
      seq (case Option.bind fho fh_file of Some f \<Rightarrow> host_effect (fe_Close env f) | None \<Rightarrow> return ())
      (seq (modify (\<lambda>d. d\<lparr>fs_handles := AList.delete h (fs_handles d)\<rparr>))
      (return (emptyResponse (fih_Unique hdr))))))"

text \<open>Flush and fsync.\<close>

definition fs_handleFlush :: "('f, 'w) HostEnv \<Rightarrow> FuseInHeader \<Rightarrow> bytes \<Rightarrow> ('f, 'w, bytes) fop" where
  "fs_handleFlush env hdr body =
     seq (whenOp (length body \<ge> 8)
           (bind (reads (\<lambda>d. Option.bind (map_of (fs_handles d) (get_le (gslice 0 8 body))) fh_file)) (\<lambda>fo.
            case fo of Some f \<Rightarrow> host_effect (fe_Sync env f) | None \<Rightarrow> return ())))
     (return (emptyResponse (fih_Unique hdr)))"

definition handleCreate :: "('f, 'w) HostEnv \<Rightarrow> FuseInHeader \<Rightarrow> bytes \<Rightarrow> ('f, 'w, bytes) fop" where
  "handleCreate env hdr body =
     bind (reads fs_readOnly) (\<lambda>ro.
     seq (failIf ro (FsErrno FuseErrAccess))
     (bind (get_inode (fih_NodeID hdr)) (\<lambda>parent.
     seq (failIf (length body < 16) (FsErrno FuseErrInval))
     (let mode = get_le (gslice 4 8 body); name = cstring (drop 16 body); childPath = Join (fi_hostPath parent) name in
      seq (failIf (bad_name name) (FsErrno FuseErrInval))
      (seq (check_path env childPath)
      (bind (host_call (fe_OpenFile env childPath O_CREATE_RDWR_TRUNC (mode AND 511))) (\<lambda>fo.
      bind (orFail (FsErrno FuseErrIO) fo) (\<lambda>f.
      bind (ask_host (fe_FileStat env f)) (\<lambda>io.
      case io of
        None \<Rightarrow> seq (host_effect (fe_Close env f)) (throw (FsErrno FuseErrIO))
      | Some info \<Rightarrow>
          bind (getOrCreateInode childPath False) (\<lambda>n.
          bind (add_handle \<lparr>fh_node = n, fh_file = Some f, fh_isDir = False, fh_dirEnts = []\<rparr>) (\<lambda>h.
          return (fuse_reply (fih_Unique hdr)
            (marshalEntryOut (entry_out n info) @ open_out h FuseOpenFlagKeepCache)))))))))))))"

subsection \<open>Directories\<close>

definition handleMkdir :: "('f, 'w) HostEnv \<Rightarrow> FuseInHeader \<Rightarrow> bytes \<Rightarrow> ('f, 'w, bytes) fop" where
  "handleMkdir env hdr body =
     bind (reads fs_readOnly) (\<lambda>ro.
     seq (failIf ro (FsErrno FuseErrAccess))
     (bind (get_inode (fih_NodeID hdr)) (\<lambda>parent.
     seq (failIf (length body < 8) (FsErrno FuseErrInval))
     (let mode = get_le (gslice 0 4 body); name = cstring (drop 8 body); childPath = Join (fi_hostPath parent) name in
      seq (failIf (bad_name name) (FsErrno FuseErrInval))
      (seq (check_path env childPath)
      (bind (host_call (fe_Mkdir env childPath (mode AND 511))) (\<lambda>e.
      seq (failIf (e = Some HostExist) (FsErrno FuseErrExist))
      (seq (failIf (e \<noteq> None) (FsErrno FuseErrIO))
      (bind (ask_host (fe_Lstat env childPath)) (\<lambda>io.
      bind (orFail (FsErrno FuseErrIO) io) (\<lambda>info.
      bind (getOrCreateInode childPath True) (\<lambda>n.
      return (encodeEntryOut (fih_Unique hdr) (entry_out n info))))))))))))))"

definition handleUnlink :: "('f, 'w) HostEnv \<Rightarrow> FuseInHeader \<Rightarrow> bytes \<Rightarrow> ('f, 'w, bytes) fop" where
  "handleUnlink env hdr body =
     bind (reads fs_readOnly) (\<lambda>ro.
     seq (failIf ro (FsErrno FuseErrAccess))
     (bind (get_inode (fih_NodeID hdr)) (\<lambda>parent.
     let name = cstring body; childPath = Join (fi_hostPath parent) name in
      seq (failIf (bad_name name) (FsErrno FuseErrInval))
      (seq (check_path env childPath)
      (bind (host_call (fe_Remove env childPath)) (\<lambda>e.
      seq (failIf (e \<noteq> None) (FsErrno FuseErrIO))
      (seq (drop_path childPath)
      (return (emptyResponse (fih_Unique hdr))))))))))"

definition handleRmdir :: "('f, 'w) HostEnv \<Rightarrow> FuseInHeader \<Rightarrow> bytes \<Rightarrow> ('f, 'w, bytes) fop" where
  "handleRmdir env hdr body =
     bind (reads fs_readOnly) (\<lambda>ro.
     seq (failIf ro (FsErrno FuseErrAccess))
     (bind (get_inode (fih_NodeID hdr)) (\<lambda>parent.
     let name = cstring body; childPath = Join (fi_hostPath parent) name in
      seq (failIf (bad_name name) (FsErrno FuseErrInval))
      (seq (check_path env childPath)
      (bind (host_call (fe_Remove env childPath)) (\<lambda>e.
      seq (failIf (e = Some HostNotExist) (FsErrno FuseErrNoent))
      (seq (failIf (e \<noteq> None) (FsErrno FuseErrEmpty))
      (seq (drop_path childPath)
      (return (emptyResponse (fih_Unique hdr)))))))))))"

text \<open>Moving the node of a path to another path.\<close>

definition move_path :: "bytes \<Rightarrow> bytes \<Rightarrow> ('f, 'w, unit) fop" where
  "move_path oldPath newPath =
     modify (\<lambda>d. case fs_pathToNode d oldPath of
         None \<Rightarrow> d
       | Some n \<Rightarrow>
           d\<lparr>fs_pathToNode := ((fs_pathToNode d)(oldPath := None))(newPath \<mapsto> n),
             fs_inodes := (fs_inodes d)(n := map_option (\<lambda>i. i\<lparr>fi_hostPath := newPath\<rparr>) (fs_inodes d n))\<rparr>)"

definition handleRename :: "('f, 'w) HostEnv \<Rightarrow> FuseInHeader \<Rightarrow> bytes \<Rightarrow> ('f, 'w, bytes) fop" where
  "handleRename env hdr body =
     bind (reads fs_readOnly) (\<lambda>ro.
     seq (failIf ro (FsErrno FuseErrAccess))
     (bind (get_inode (fih_NodeID hdr)) (\<lambda>parent.
     seq (failIf (length body < 8) (FsErrno FuseErrInval))
     (bind (get_inode (get_le (gslice 0 8 body))) (\<lambda>newParent.
      let names = drop 8 body; oldName = cstring names;
          newName = cstring (drop (length oldName + 1) names);
          oldPath = Join (fi_hostPath parent) oldName; newPath = Join (fi_hostPath newParent) newName in
      seq (failIf (oldName = []) (FsErrno FuseErrInval))
      (seq (failIf (length names < length oldName + 2) (FsErrno FuseErrInval))
      (seq (failIf (newName = []) (FsErrno FuseErrInval))
      (seq (check_path env oldPath)
      (seq (check_path env newPath)
      (bind (host_call (fe_Rename env oldPath newPath)) (\<lambda>e.
      seq (failIf (e \<noteq> None) (FsErrno FuseErrIO))
      (seq (move_path oldPath newPath)
      (return (emptyResponse (fih_Unique hdr)))))))))))))))"

definition handleOpendir :: "('f, 'w) HostEnv \<Rightarrow> FuseInHeader \<Rightarrow> ('f, 'w, bytes) fop" where
  "handleOpendir env hdr =
     bind (get_inode (fih_NodeID hdr)) (\<lambda>i.
     bind (ask_host (fe_ReadDir env (fi_hostPath i))) (\<lambda>eo.
     bind (orFail (FsErrno FuseErrAccess) eo) (\<lambda>entries.
     bind (add_handle \<lparr>fh_node = fih_NodeID hdr, fh_file = None, fh_isDir = True, fh_dirEnts = entries\<rparr>) (\<lambda>h.
     return (encodeOpenOut (fih_Unique hdr) h 0)))))"

text \<open>The entries of a directory handle.\<close>

definition get_entries :: "u64 \<Rightarrow> ('f, 'w, DirEntry list) fop" where
  "get_entries h =
     bind (reads (\<lambda>d. map_of (fs_handles d) h)) (\<lambda>fho.
     bind (orFail (FsErrno FuseErrInval) fho) (\<lambda>fh.
     seq (failIf (\<not> fh_isDir fh) (FsErrno FuseErrInval))
     (return (fh_dirEnts fh))))"

fun readdir_loop :: "u32 \<Rightarrow> nat \<Rightarrow> DirEntry list \<Rightarrow> bytes \<Rightarrow> bytes" where
  "readdir_loop sz i [] buf = buf"
| "readdir_loop sz i (e # es) buf =
     (let dirent = encodeDirent (de_Name e) (of_nat (i + 1)) (de_Kind e)
      in if (of_nat (length buf + length dirent) :: u32) > sz then buf
         else readdir_loop sz (i + 1) es (buf @ dirent))"

text \<open>An offset with the sign bit set indexes the entries with a negative number.\<close>

definition handleReaddir :: "('f, 'w) HostEnv \<Rightarrow> FuseInHeader \<Rightarrow> bytes \<Rightarrow> ('f, 'w, bytes) fop" where
  "handleReaddir env hdr body =
     seq (failIf (length body < 24) (FsErrno FuseErrInval))
     (let r = decode_read_in body; start = sint (fri_Offset r) in
      bind (get_entries (fri_Fh r)) (\<lambda>entries.
      seq (failIf (start < 0) FsPanic)
      (return (fuse_reply (fih_Unique hdr)
        (readdir_loop (fri_Size r) (nat start) (drop (nat start) entries) [])))))"

fun readdirplus_loop ::
  "('f, 'w) HostEnv \<Rightarrow> bytes \<Rightarrow> u32 \<Rightarrow> nat \<Rightarrow> DirEntry list \<Rightarrow> bytes \<Rightarrow> ('f, 'w, bytes) fop" where
  "readdirplus_loop env dir sz i [] buf = return buf"
| "readdirplus_loop env dir sz i (e # es) buf =
     bind (ask_host (fe_Info env e)) (\<lambda>io.
     case io of
       None \<Rightarrow> readdirplus_loop env dir sz (i + 1) es buf
     | Some info \<Rightarrow>
         bind (getOrCreateInode (Join dir (de_Name e)) (inf_Kind info = KindDir)) (\<lambda>n.
         let direntPlus = encodeDirentPlus (de_Name e) (of_nat (i + 1)) (entry_out n info)
         in if (of_nat (length buf + length direntPlus) :: u32) > sz then return buf
            else readdirplus_loop env dir sz (i + 1) es (buf @ direntPlus)))"

definition handleReaddirplus :: "('f, 'w) HostEnv \<Rightarrow> FuseInHeader \<Rightarrow> bytes \<Rightarrow> ('f, 'w, bytes) fop" where
  "handleReaddirplus env hdr body =
     seq (failIf (length body < 24) (FsErrno FuseErrInval))
     (let r = decode_read_in body; start = sint (fri_Offset r) in
      bind (get_entries (fri_Fh r)) (\<lambda>entries.
      bind (get_inode (fih_NodeID hdr)) (\<lambda>parent.
      seq (failIf (start < 0) FsPanic)
      (bind (readdirplus_loop env (fi_hostPath parent) (fri_Size r) (nat start) (drop (nat start) entries) []) (\<lambda>buf.
      return (fuse_reply (fih_Unique hdr) buf))))))"

subsection \<open>Requests\<close>

definition replies :: "('f, 'w, bytes) fop \<Rightarrow> ('f, 'w, bytes option) fop" where
  "replies m = bind m (\<lambda>r. return (Some r))"

definition fs_dispatch :: "('f, 'w) HostEnv \<Rightarrow> FuseInHeader \<Rightarrow> bytes \<Rightarrow> ('f, 'w, bytes option) fop" where
  "fs_dispatch env hdr body =
     (let op = fih_Opcode hdr in
      if op = FuseOpInit then replies (return (handleInit hdr))
      else if op = FuseOpLookup then replies (handleLookup env hdr body)
      else if op = FuseOpForget then seq (handleForget hdr body) (return None)
      else if op = FuseOpGetattr then replies (handleGetattr env hdr)
      else if op = FuseOpOpen then replies (handleOpen env hdr)
      else if op = FuseOpRead then replies (fs_handleRead env hdr body)
      else if op = FuseOpWrite then replies (fs_handleWrite env hdr body)
      else if op = FuseOpRelease then replies (fs_handleRelease env hdr body)
      else if op = FuseOpOpendir then replies (handleOpendir env hdr)
      else if op = FuseOpReaddir then replies (handleReaddir env hdr body)
      else if op = FuseOpReaddirplus then replies (handleReaddirplus env hdr body)
      else if op = FuseOpReleasedir then replies (fs_handleRelease env hdr body)
      else if op = FuseOpCreate then replies (handleCreate env hdr body)
      else if op = FuseOpMkdir then replies (handleMkdir env hdr body)
      else if op = FuseOpUnlink then replies (handleUnlink env hdr body)
      else if op = FuseOpRmdir then replies (handleRmdir env hdr body)
      else if op = FuseOpStatfs then replies (return (handleStatfs hdr))
      else if op = FuseOpFlush then replies (fs_handleFlush env hdr body)
      else if op = FuseOpFsync then replies (fs_handleFlush env hdr body)
      else if op = FuseOpSetattr then replies (handleSetattr env hdr body)
      else if op = FuseOpReadlink then replies (handleReadlink env hdr)
      else if op = FuseOpRename then replies (handleRename env hdr body)
      else throw (FsErrno FuseErrNosys))"

text \<open>The error response in place of a thrown error code.\<close>

definition answer_errors :: "u64 \<Rightarrow> ('f, 'w, bytes option) fop \<Rightarrow> ('f, 'w, bytes option) fop" where
  "answer_errors unique m =
     bind (attempt m) (\<lambda>r.
     case r of
       Inl (FsErrno e) \<Rightarrow> return (Some (errorResponse unique e))
     | Inl err \<Rightarrow> throw err
     | Inr x \<Rightarrow> return x)"

definition fs_ProcessRequest :: "('f, 'w) HostEnv \<Rightarrow> bytes \<Rightarrow> ('f, 'w, bytes option) fop" where
  "fs_ProcessRequest env reqBuf =
     bind (reads fs_running) (\<lambda>running.
     seq (failIf (\<not> running) FsNotRunning)
     (seq (failIf (length reqBuf < fuseInHeaderSize) (FsTooSmall (length reqBuf)))
     (let hdr = decodeFuseInHeader (take fuseInHeaderSize reqBuf); body = drop fuseInHeaderSize reqBuf in
      seq (modify (\<lambda>d. d\<lparr>fs_opsCompleted := fs_opsCompleted d + 1\<rparr>))
      (answer_errors (fih_Unique hdr) (fs_dispatch env hdr body)))))"

subsection \<open>Lifecycle\<close>

record VirtioFSOpts =
  fso_DeviceID :: string
  fso_Tag :: string
  fso_HostPath :: bytes
  fso_ReadOnly :: bool

definition NewVirtioFS :: "('f, 'w) HostEnv \<Rightarrow> VirtioFSOpts \<Rightarrow> 'w \<Rightarrow> fs_error + ('f, 'w) VirtioFS" where
  "NewVirtioFS env opts w =
     (if fso_HostPath opts = [] then Inl FsNoHostPath
      else if fso_Tag opts = [] then Inl FsNoTag
      else case Abs env (fso_HostPath opts) w of
        None \<Rightarrow> Inl FsAbs
      | Some absPath \<Rightarrow>
          (case fe_Stat env absPath w of
             None \<Rightarrow> Inl FsStat
           | Some info \<Rightarrow>
               if inf_Kind info \<noteq> KindDir then Inl (FsNotDirectory absPath)
               else Inr \<lparr>fs_deviceID = fso_DeviceID opts, fs_tag = fso_Tag opts, fs_hostPath = absPath,
                 fs_readOnly = fso_ReadOnly opts,
                 fs_inodes = [1 \<mapsto> \<lparr>fi_hostPath = absPath, fi_nodeID = 1, fi_isDir = True, fi_refCount = 1\<rparr>],
                 fs_pathToNode = [absPath \<mapsto> 1], fs_nextNodeID = 2, fs_handles = [], fs_nextHandle = 1,
                 fs_running = False, fs_stopClosed = False, fs_opsCompleted = 0, fs_bytesRead = 0,
                 fs_bytesWritten = 0, fs_world = w\<rparr>))"

definition fs_Start :: "('f, 'w, unit) fop" where
  "fs_Start =
     bind (reads fs_running) (\<lambda>running.
     seq (failIf running FsAlreadyRunning)
     (modify (\<lambda>d. d\<lparr>fs_running := True\<rparr>)))"

definition fs_Stop :: "('f, 'w) HostEnv \<Rightarrow> ('f, 'w, unit) fop" where
  "fs_Stop env =
     bind (reads fs_running) (\<lambda>running.
     whenOp running
       (seq (modify (\<lambda>d. d\<lparr>fs_running := False\<rparr>))
       (bind (reads fs_stopClosed) (\<lambda>closed.
       seq (failIf closed FsClosedChannel)
       (seq (modify (\<lambda>d. d\<lparr>fs_stopClosed := True\<rparr>))
       (bind (reads fs_handles) (\<lambda>hs.
       seq (forEach (\<lambda>(h, fh). seq (case fh_file fh of Some f \<Rightarrow> host_effect (fe_Close env f) | None \<Rightarrow> return ())
               (modify (\<lambda>d. d\<lparr>fs_handles := AList.delete h (fs_handles d)\<rparr>))) hs)
       (return ()))))))))"

definition fs_Configure :: "(string \<rightharpoonup> string) \<Rightarrow> ('f, 'w) VirtioFS \<Rightarrow> ('f, 'w) VirtioFS" where
  "fs_Configure config d = (case config ''tag'' of Some tag \<Rightarrow> d\<lparr>fs_tag := tag\<rparr> | None \<Rightarrow> d)"

record MountInfo =
  mi_Tag :: string
  mi_HostPath :: bytes
  mi_ReadOnly :: bool
  mi_Active :: bool

definition GetMountInfo :: "('f, 'w) VirtioFS \<Rightarrow> MountInfo" where
  "GetMountInfo d = \<lparr>mi_Tag = fs_tag d, mi_HostPath = fs_hostPath d, mi_ReadOnly = fs_readOnly d, mi_Active = fs_running d\<rparr>"

definition OpenHandleCount :: "('f, 'w) VirtioFS \<Rightarrow> nat" where
  "OpenHandleCount d = length (fs_handles d)"

record FsMountConfig =
  fmc_HostPath :: bytes
  fmc_GuestPath :: bytes
  fmc_ReadOnly :: bool
  fmc_Tag :: string

text \<open>
  SetupMounts. The devices made before a failing one were not started, so their Stop does
  nothing.
\<close>

fun mount_loop ::
  "('f, 'w) HostEnv \<Rightarrow> bool \<Rightarrow> 'w \<Rightarrow> nat \<Rightarrow> FsMountConfig list \<Rightarrow> ('f, 'w) VirtioFS list \<Rightarrow> fs_error + ('f, 'w) VirtioFS list" where
  "mount_loop env readOnly w i [] devices = Inr devices"
| "mount_loop env readOnly w i (m # ms) devices =
     (let tag = (if fmc_Tag m \<noteq> [] then fmc_Tag m else ''mount'' @ decimal (int i))
      in case NewVirtioFS env \<lparr>fso_DeviceID = ''fs-'' @ tag, fso_Tag = tag, fso_HostPath = fmc_HostPath m,
                fso_ReadOnly = (readOnly \<or> fmc_ReadOnly m)\<rparr> w of
           Inl e \<Rightarrow> Inl (FsMount i (fmc_HostPath m) e)
         | Inr dev \<Rightarrow> mount_loop env readOnly w (i + 1) ms (devices @ [dev]))"

definition SetupMounts ::
  "('f, 'w) HostEnv \<Rightarrow> FsMountConfig list \<Rightarrow> bool \<Rightarrow> 'w \<Rightarrow> fs_error + ('f, 'w) VirtioFS list" where
  "SetupMounts env mounts readOnly w = mount_loop env readOnly w 0 mounts []"

end
