(* ===== verification/VirtioFsProofs.thy ===== *)
theory VirtioFsProofs
  imports VirtioFs
begin

text \<open>
  The shared directory device: rules that run a handler on a state, what a handler keeps,
  and the consistency of the node table.
\<close>

subsection \<open>Running a handler\<close>

named_theorems fuse_run "rules that run a handler on a state"

lemma run_return [fuse_run]: "return x d = (d, Inr x)"
  by (simp add: return_def)

lemma run_throw [fuse_run]: "throw e d = (d, Inl e)"
  by (simp add: throw_def)

lemma run_bind_reads [fuse_run]: "bind (reads f) k d = k (f d) d"
  by (simp add: bind_def reads_def)

lemma run_bind_ask [fuse_run]: "bind (ask_host f) k d = k (f (fs_world d)) d"
  by (simp add: ask_host_def fuse_run)

lemma run_seq_failIf [fuse_run]: "seq (failIf b e) k d = (if b then (d, Inl e) else k d)"
  by (simp add: seq_def bind_def failIf_def throw_def return_def)

lemma run_orFail [fuse_run]: "bind (orFail e x) k d = (case x of None \<Rightarrow> (d, Inl e) | Some y \<Rightarrow> k y d)"
  by (simp add: bind_def orFail_def throw_def return_def split: option.split)

lemma run_get_inode [fuse_run]:
  "bind (get_inode n) k d = (case fs_inodes d n of None \<Rightarrow> (d, Inl (FsErrno FuseErrNoent)) | Some i \<Rightarrow> k i d)"
  by (simp add: get_inode_def bind_def reads_def orFail_def throw_def return_def split: option.split)

lemma run_get_file [fuse_run]:
  "bind (get_file h) k d =
     (case Option.bind (map_of (fs_handles d) h) fh_file of None \<Rightarrow> (d, Inl (FsErrno FuseErrInval)) | Some f \<Rightarrow> k f d)"
  by (simp add: get_file_def bind_def reads_def orFail_def throw_def return_def split: option.split)

lemma run_get_entries [fuse_run]:
  "bind (get_entries h) k d =
     (case map_of (fs_handles d) h of
        None \<Rightarrow> (d, Inl (FsErrno FuseErrInval))
      | Some fh \<Rightarrow> if fh_isDir fh then k (fh_dirEnts fh) d else (d, Inl (FsErrno FuseErrInval)))"
  by (simp add: get_entries_def bind_def seq_def reads_def orFail_def failIf_def throw_def return_def split: option.split)

lemma run_check_path [fuse_run]:
  "seq (check_path env p) k d =
     (if isPathSafe env (fs_hostPath d) p (fs_world d) then k d else (d, Inl (FsErrno FuseErrAccess)))"
  by (simp add: check_path_def seq_def bind_def reads_def failIf_def throw_def return_def)

lemma run_host_call [fuse_run]:
  "bind (host_call f) k d = (case f (fs_world d) of (w, x) \<Rightarrow> k x (d\<lparr>fs_world := w\<rparr>))"
  by (simp add: host_call_def bind_def split: prod.split)

lemma run_modify [fuse_run]: "seq (modify f) k d = k (f d)"
  by (simp add: seq_def bind_def modify_def)

lemma run_host_effect [fuse_run]: "seq (host_effect f) k d = k (d\<lparr>fs_world := f (fs_world d)\<rparr>)"
  by (simp add: host_effect_def fuse_run)

lemma run_replies [fuse_run]: "replies m = bind m (\<lambda>r. return (Some r))"
  by (simp add: replies_def)

text \<open>Two operations that agree on a state agree there inside a sequence.\<close>

lemma bind_agree: "m d = m' d \<Longrightarrow> bind m k d = bind m' k d"
  by (simp add: bind_def)

lemma if_run: "(if b then f else g) d = (if b then f d else g d)"
  by simp

lemma attempt_agree: "m d = m' d \<Longrightarrow> answer_errors u m d = answer_errors u m' d"
  by (simp add: answer_errors_def attempt_def bind_def)

lemma request_agree:
  assumes "\<And>hdr body d'. fs_hostPath d' = fs_hostPath d \<Longrightarrow> fs_readOnly d' = fs_readOnly d \<Longrightarrow>
      fs_dispatch env hdr body d' = fs_dispatch env' hdr body d'"
  shows "fs_ProcessRequest env req d = fs_ProcessRequest env' req d"
  proof -
  have "answer_errors u (fs_dispatch env hdr body) d' = answer_errors u (fs_dispatch env' hdr body) d'"
    if "fs_hostPath d' = fs_hostPath d" "fs_readOnly d' = fs_readOnly d" for u hdr body d'
    by (rule attempt_agree, rule assms) (use that in simp_all)
  then show ?thesis by (simp add: fs_ProcessRequest_def Let_def fuse_run)
qed

subsection \<open>Calls that a share allows\<close>

text \<open>
  A host in which the functions that change the tree of names run another host's code on a
  path that the check refuses, and one in which every function that changes anything does.
\<close>

definition refused_elsewhere :: "('f, 'w) HostEnv \<Rightarrow> ('f, 'w) HostEnv \<Rightarrow> bytes \<Rightarrow> ('f, 'w) HostEnv" where
  "refused_elsewhere env other root =
     env\<lparr>fe_OpenFile := \<lambda>p fl m w.
           if fl = O_CREATE_RDWR_TRUNC \<and> \<not> isPathSafe env root p w then fe_OpenFile other p fl m w else fe_OpenFile env p fl m w,
         fe_Mkdir := \<lambda>p m w. if isPathSafe env root p w then fe_Mkdir env p m w else fe_Mkdir other p m w,
         fe_Remove := \<lambda>p w. if isPathSafe env root p w then fe_Remove env p w else fe_Remove other p w,
         fe_Rename := \<lambda>p q w. if isPathSafe env root p w \<and> isPathSafe env root q w then fe_Rename env p q w else fe_Rename other p q w\<rparr>"

definition changes_elsewhere :: "('f, 'w) HostEnv \<Rightarrow> ('f, 'w) HostEnv \<Rightarrow> ('f, 'w) HostEnv" where
  "changes_elsewhere env other =
     env\<lparr>fe_OpenFile := \<lambda>p fl m w. if fl = O_RDONLY then fe_OpenFile env p fl m w else fe_OpenFile other p fl m w,
         fe_WriteAt := fe_WriteAt other, fe_Mkdir := fe_Mkdir other, fe_Remove := fe_Remove other,
         fe_Rename := fe_Rename other, fe_Truncate := fe_Truncate other, fe_Chmod := fe_Chmod other\<rparr>"

lemma safe_cong: "fe_Getwd env' = fe_Getwd env \<Longrightarrow> fe_EvalSymlinks env' = fe_EvalSymlinks env \<Longrightarrow> isPathSafe env' = isPathSafe env"
  by (rule ext)+ (simp only: isPathSafe_def Abs_def)

lemma safe_refused [simp]: "isPathSafe (refused_elsewhere env other root) = isPathSafe env"
  by (rule safe_cong) (simp_all add: refused_elsewhere_def)

lemma safe_changes [simp]: "isPathSafe (changes_elsewhere env other) = isPathSafe env"
  by (rule safe_cong) (simp_all add: changes_elsewhere_def)

lemma refused_fields [simp]:
  "fe_Lstat (refused_elsewhere env other root) = fe_Lstat env" "fe_Readlink (refused_elsewhere env other root) = fe_Readlink env"
  "fe_ReadDir (refused_elsewhere env other root) = fe_ReadDir env" "fe_Info (refused_elsewhere env other root) = fe_Info env"
  "fe_FileStat (refused_elsewhere env other root) = fe_FileStat env" "fe_ReadAt (refused_elsewhere env other root) = fe_ReadAt env"
  "fe_WriteAt (refused_elsewhere env other root) = fe_WriteAt env" "fe_Close (refused_elsewhere env other root) = fe_Close env"
  "fe_Sync (refused_elsewhere env other root) = fe_Sync env" "fe_Truncate (refused_elsewhere env other root) = fe_Truncate env"
  "fe_Chmod (refused_elsewhere env other root) = fe_Chmod env"
  by (simp_all add: refused_elsewhere_def)

lemma refused_open [simp]:
  "fl \<noteq> O_CREATE_RDWR_TRUNC \<Longrightarrow> fe_OpenFile (refused_elsewhere env other root) p fl = fe_OpenFile env p fl"
  "isPathSafe env root p w \<Longrightarrow> fe_OpenFile (refused_elsewhere env other root) p fl m w = fe_OpenFile env p fl m w"
  "isPathSafe env root p w \<Longrightarrow> fe_Mkdir (refused_elsewhere env other root) p m w = fe_Mkdir env p m w"
  "isPathSafe env root p w \<Longrightarrow> fe_Remove (refused_elsewhere env other root) p w = fe_Remove env p w"
  "isPathSafe env root p w \<Longrightarrow> isPathSafe env root q w \<Longrightarrow> fe_Rename (refused_elsewhere env other root) p q w = fe_Rename env p q w"
  by (simp_all add: refused_elsewhere_def fun_eq_iff)

lemma changes_fields [simp]:
  "fe_Lstat (changes_elsewhere env other) = fe_Lstat env" "fe_Readlink (changes_elsewhere env other) = fe_Readlink env"
  "fe_ReadDir (changes_elsewhere env other) = fe_ReadDir env" "fe_Info (changes_elsewhere env other) = fe_Info env"
  "fe_FileStat (changes_elsewhere env other) = fe_FileStat env" "fe_ReadAt (changes_elsewhere env other) = fe_ReadAt env"
  "fe_Close (changes_elsewhere env other) = fe_Close env" "fe_Sync (changes_elsewhere env other) = fe_Sync env"
  "fe_OpenFile (changes_elsewhere env other) p O_RDONLY = fe_OpenFile env p O_RDONLY"
  by (simp_all add: changes_elsewhere_def fun_eq_iff)

lemma readdirplus_other:
  assumes "fe_Info env' = fe_Info env"
  shows "readdirplus_loop env' dir sz i es buf = readdirplus_loop env dir sz i es buf"
proof (induction es arbitrary: i buf)
  case (Cons e es)
  show ?case unfolding readdirplus_loop.simps Cons assms ..
qed simp

lemma readdirplus_elsewhere [simp]:
  "readdirplus_loop (refused_elsewhere env other root) = readdirplus_loop env"
  "readdirplus_loop (changes_elsewhere env other) = readdirplus_loop env"
  by (intro ext readdirplus_other; simp)+

lemma open_elsewhere:
  "fe_OpenFile (refused_elsewhere env other root) p O_RDONLY = fe_OpenFile env p O_RDONLY"
  "fe_OpenFile (refused_elsewhere env other root) p (if b then O_RDONLY else O_RDWR) = fe_OpenFile env p (if b then O_RDONLY else O_RDWR)"
  by (simp_all add: fun_eq_iff refused_elsewhere_def)

lemmas handler_defs = handleLookup_def handleGetattr_def handleOpen_def fs_handleRead_def fs_handleWrite_def
  fs_handleRelease_def handleOpendir_def handleReaddir_def handleReaddirplus_def handleCreate_def handleMkdir_def
  handleUnlink_def handleRmdir_def fs_handleFlush_def handleSetattr_def handleReadlink_def handleRename_def

text \<open>The handlers that never change the tree of names, and the others.\<close>

lemma handlers_refused:
  "handleLookup (refused_elsewhere env other root) = handleLookup env"
  "handleGetattr (refused_elsewhere env other root) = handleGetattr env"
  "handleOpen (refused_elsewhere env other root) = handleOpen env"
  "fs_handleRead (refused_elsewhere env other root) = fs_handleRead env"
  "fs_handleWrite (refused_elsewhere env other root) = fs_handleWrite env"
  "fs_handleRelease (refused_elsewhere env other root) = fs_handleRelease env"
  "handleOpendir (refused_elsewhere env other root) = handleOpendir env"
  "handleReaddir (refused_elsewhere env other root) = handleReaddir env"
  "handleReaddirplus (refused_elsewhere env other root) = handleReaddirplus env"
  "fs_handleFlush (refused_elsewhere env other root) = fs_handleFlush env"
  "handleSetattr (refused_elsewhere env other root) = handleSetattr env"
  "handleReadlink (refused_elsewhere env other root) = handleReadlink env"
  unfolding fun_eq_iff handler_defs check_path_def safe_refused refused_fields readdirplus_elsewhere open_elsewhere
  by simp_all

lemma handlers_refused_at:
  assumes "fs_hostPath d = root"
  shows "handleCreate (refused_elsewhere env other root) hdr body d = handleCreate env hdr body d"
    "handleMkdir (refused_elsewhere env other root) hdr body d = handleMkdir env hdr body d"
    "handleUnlink (refused_elsewhere env other root) hdr body d = handleUnlink env hdr body d"
    "handleRmdir (refused_elsewhere env other root) hdr body d = handleRmdir env hdr body d"
    "handleRename (refused_elsewhere env other root) hdr body d = handleRename env hdr body d"
  using assms by (auto simp: handler_defs fuse_run Let_def split: option.split)

lemma dispatch_refused:
  "fs_hostPath d = root \<Longrightarrow> fs_dispatch (refused_elsewhere env other root) hdr body d = fs_dispatch env hdr body d"
  unfolding fs_dispatch_def Let_def handlers_refused run_replies
  by (auto intro!: bind_agree handlers_refused_at)

lemma handlers_changes:
  "handleLookup (changes_elsewhere env other) = handleLookup env"
  "handleGetattr (changes_elsewhere env other) = handleGetattr env"
  "fs_handleRead (changes_elsewhere env other) = fs_handleRead env"
  "fs_handleRelease (changes_elsewhere env other) = fs_handleRelease env"
  "handleOpendir (changes_elsewhere env other) = handleOpendir env"
  "handleReaddir (changes_elsewhere env other) = handleReaddir env"
  "handleReaddirplus (changes_elsewhere env other) = handleReaddirplus env"
  "fs_handleFlush (changes_elsewhere env other) = fs_handleFlush env"
  "handleReadlink (changes_elsewhere env other) = handleReadlink env"
  unfolding fun_eq_iff handler_defs check_path_def safe_changes changes_fields readdirplus_elsewhere
  by simp_all

lemma handleOpen_changes:
  "fs_readOnly d \<Longrightarrow> handleOpen (changes_elsewhere env other) hdr d = handleOpen env hdr d"
  unfolding handleOpen_def changes_fields by (simp add: fuse_run split: option.split)

lemma handlers_changes_at:
  assumes "fs_readOnly d"
  shows "fs_handleWrite (changes_elsewhere env other) hdr body d = fs_handleWrite env hdr body d"
    "handleCreate (changes_elsewhere env other) hdr body d = handleCreate env hdr body d"
    "handleMkdir (changes_elsewhere env other) hdr body d = handleMkdir env hdr body d"
    "handleUnlink (changes_elsewhere env other) hdr body d = handleUnlink env hdr body d"
    "handleRmdir (changes_elsewhere env other) hdr body d = handleRmdir env hdr body d"
    "handleSetattr (changes_elsewhere env other) hdr body d = handleSetattr env hdr body d"
    "handleRename (changes_elsewhere env other) hdr body d = handleRename env hdr body d"
  using assms by (simp_all add: handler_defs fuse_run split: option.split)

lemma dispatch_changes:
  "fs_readOnly d \<Longrightarrow> fs_dispatch (changes_elsewhere env other) hdr body d = fs_dispatch env hdr body d"
  unfolding fs_dispatch_def Let_def handlers_changes run_replies if_run
  by (simp add: bind_agree [OF handleOpen_changes] bind_agree [OF handlers_changes_at(1)]
      bind_agree [OF handlers_changes_at(2)] bind_agree [OF handlers_changes_at(3)]
      bind_agree [OF handlers_changes_at(4)] bind_agree [OF handlers_changes_at(5)]
      bind_agree [OF handlers_changes_at(6)] bind_agree [OF handlers_changes_at(7)])

subsection \<open>The node table\<close>

text \<open>
  Every path of the table leads to a node that has this path, nodes carry their own number,
  and no number at or above the next one is in use.
\<close>

definition fs_wf :: "('f, 'w) VirtioFS \<Rightarrow> bool" where
  "fs_wf d \<longleftrightarrow>
     (\<forall>p n. fs_pathToNode d p = Some n \<longrightarrow> (\<exists>i. fs_inodes d n = Some i \<and> fi_hostPath i = p)) \<and>
     (\<forall>n i. fs_inodes d n = Some i \<longrightarrow> fi_nodeID i = n \<and> n < fs_nextNodeID d)"

text \<open>Room for \<open>k\<close> more nodes before the counter wraps.\<close>

definition node_room :: "nat \<Rightarrow> ('f, 'w) VirtioFS \<Rightarrow> bool" where
  "node_room k d \<longleftrightarrow> unat (fs_nextNodeID d) + k < 2 ^ 64"

lemma fs_wf_cong:
  "fs_inodes d' = fs_inodes d \<Longrightarrow> fs_pathToNode d' = fs_pathToNode d \<Longrightarrow> fs_nextNodeID d' = fs_nextNodeID d \<Longrightarrow>
   fs_wf d' = fs_wf d"
  by (simp add: fs_wf_def)

lemma fs_wf_inode: "fs_wf d \<Longrightarrow> fs_inodes d n = Some i \<Longrightarrow> fi_nodeID i = n \<and> n < fs_nextNodeID d"
  by (simp add: fs_wf_def)

lemma fs_wf_path: "fs_wf d \<Longrightarrow> fs_pathToNode d p = Some n \<Longrightarrow> \<exists>i. fs_inodes d n = Some i \<and> fi_hostPath i = p"
  by (simp add: fs_wf_def)

lemma getOrCreate_wf:
  assumes "fs_wf d" "node_room 1 d" "getOrCreateInode p dir d = (d', r)"
  shows "fs_wf d' \<and> (\<exists>n. r = Inr n) \<and> (node_room (Suc k) d \<longrightarrow> node_room k d')"
proof (cases "fs_pathToNode d p")
  case (Some n)
  then obtain i where i: "fs_inodes d n = Some i" "fi_hostPath i = p" using fs_wf_path [OF assms(1)] by blast
  then have "d' = d\<lparr>fs_inodes := (fs_inodes d)(n \<mapsto> i\<lparr>fi_refCount := int64 (fi_refCount i + 1)\<rparr>)\<rparr>" "r = Inr n"
    using assms(3) Some by (auto simp: getOrCreateInode_def put_inode_def fuse_run)
  moreover have "q = p" if "fs_pathToNode d q = Some n" for q
    using fs_wf_path [OF assms(1) that] i by simp
  ultimately show ?thesis using assms(1) i by (auto simp: fs_wf_def node_room_def)
next
  case None
  let ?n = "fs_nextNodeID d"
  have d': "d' = d\<lparr>fs_nextNodeID := ?n + 1, fs_pathToNode := (fs_pathToNode d)(p \<mapsto> ?n),
      fs_inodes := (fs_inodes d)(?n \<mapsto> \<lparr>fi_hostPath = p, fi_nodeID = ?n, fi_isDir = dir, fi_refCount = 1\<rparr>)\<rparr>" "r = Inr ?n"
    using assms(3) None by (auto simp: getOrCreateInode_def put_inode_def fuse_run)
  have lt: "unat (?n + 1) = Suc (unat ?n)"
    using unat_plus_small [of ?n 1] assms(2) by (simp add: node_room_def)
  have less: "m < ?n \<Longrightarrow> m < ?n + 1" "?n < ?n + 1" for m using lt by (simp_all add: word_less_nat_alt)
  have fresh: "fs_pathToNode d q \<noteq> Some ?n" for q using assms(1) by (force simp: fs_wf_def)
  show ?thesis using assms(1) fresh less lt unfolding d' by (auto simp: fs_wf_def node_room_def)
qed

text \<open>What a handler keeps when it does not create nodes.\<close>

definition same_nodes :: "('f, 'w) VirtioFS \<Rightarrow> ('f, 'w) VirtioFS \<Rightarrow> bool" where
  "same_nodes d d' \<longleftrightarrow> fs_inodes d' = fs_inodes d \<and> fs_pathToNode d' = fs_pathToNode d \<and> fs_nextNodeID d' = fs_nextNodeID d"

lemma path_unique:
  "fs_wf d \<Longrightarrow> fs_pathToNode d p = Some n \<Longrightarrow> fs_pathToNode d q = Some n \<Longrightarrow> q = p"
  by (metis fs_wf_path option.inject)

lemma fs_wfI:
  assumes "\<And>p n. fs_pathToNode d p = Some n \<Longrightarrow> \<exists>i. fs_inodes d n = Some i \<and> fi_hostPath i = p"
    and "\<And>n i. fs_inodes d n = Some i \<Longrightarrow> fi_nodeID i = n \<and> n < fs_nextNodeID d"
  shows "fs_wf d"
  using assms by (simp add: fs_wf_def)

lemma remove_node_wf:
  assumes "fs_wf d" "\<And>q. fs_pathToNode d q = Some n \<Longrightarrow> q = p"
  shows "fs_wf (d\<lparr>fs_inodes := (fs_inodes d)(n := None), fs_pathToNode := (fs_pathToNode d)(p := None)\<rparr>)"
proof (rule fs_wfI)
  fix q m
  assume "fs_pathToNode (d\<lparr>fs_inodes := (fs_inodes d)(n := None), fs_pathToNode := (fs_pathToNode d)(p := None)\<rparr>) q = Some m"
  then have q: "q \<noteq> p" "fs_pathToNode d q = Some m" by (simp_all split: if_splits)
  then have "m \<noteq> n" using assms(2) by blast
  then show "\<exists>i. fs_inodes (d\<lparr>fs_inodes := (fs_inodes d)(n := None), fs_pathToNode := (fs_pathToNode d)(p := None)\<rparr>) m = Some i \<and> fi_hostPath i = q"
    using fs_wf_path [OF assms(1) q(2)] by simp
qed (use fs_wf_inode [OF assms(1)] in \<open>simp split: if_splits\<close>)

lemma drop_path_wf: "fs_wf d \<Longrightarrow> fs_wf (fst (drop_path p d))"
  by (cases "fs_pathToNode d p") (simp_all add: drop_path_def modify_def remove_node_wf path_unique)

lemma move_path_wf:
  assumes "fs_wf d"
  shows "fs_wf (fst (move_path p q d))"
proof (cases "fs_pathToNode d p")
  case None
  then show ?thesis using assms by (simp add: move_path_def modify_def)
next
  case (Some n)
  then obtain i where i: "fs_inodes d n = Some i" using fs_wf_path [OF assms] by blast
  let ?d = "d\<lparr>fs_pathToNode := ((fs_pathToNode d)(p := None))(q \<mapsto> n), fs_inodes := (fs_inodes d)(n \<mapsto> i\<lparr>fi_hostPath := q\<rparr>)\<rparr>"
  have "fs_wf ?d"
  proof (rule fs_wfI)
    fix r m
    assume rm: "fs_pathToNode ?d r = Some m"
    show "\<exists>i. fs_inodes ?d m = Some i \<and> fi_hostPath i = r"
    proof (cases "r = q")
      case False
      then have "r \<noteq> p" "fs_pathToNode d r = Some m" using rm by (simp_all split: if_splits)
      moreover then have "m \<noteq> n" using path_unique [OF assms Some] by blast
      ultimately show ?thesis using fs_wf_path [OF assms] by simp
    qed (use rm in simp)
  qed (use fs_wf_inode [OF assms] i in \<open>auto split: if_splits\<close>)
  then show ?thesis using Some i by (simp add: move_path_def modify_def)
qed

subsection \<open>Handlers keep the table\<close>

text \<open>
  Started with room for \<open>j\<close> nodes, the operation leaves a consistent table and room for \<open>k\<close>;
  it may fail, but not with a panic.
\<close>

definition tidy :: "nat \<Rightarrow> ('f, 'w, 'a) fop \<Rightarrow> nat \<Rightarrow> bool" where
  "tidy j m k \<longleftrightarrow>
     valid (\<lambda>d. fs_wf d \<and> node_room j d) m (\<lambda>_ d. fs_wf d \<and> node_room k d) (\<lambda>e d. fs_wf d \<and> e \<noteq> FsPanic)"

named_theorems tidies "operations that keep the node table"

lemma node_room_mono: "node_room k d \<Longrightarrow> j \<le> k \<Longrightarrow> node_room j d"
  by (simp add: node_room_def)

lemma tidy_bind [tidies]: "tidy j m k \<Longrightarrow> (\<And>x. tidy k (f x) l) \<Longrightarrow> tidy j (bind m f) l"
  unfolding tidy_def by (rule valid_bind)

lemma tidy_seq [tidies]: "tidy j m k \<Longrightarrow> tidy k n l \<Longrightarrow> tidy j (seq m n) l"
  unfolding seq_def by (rule tidy_bind)

lemma tidy_case_option [tidies]:
  "tidy j m k \<Longrightarrow> (\<And>y. tidy j (f y) k) \<Longrightarrow> tidy j (case x of None \<Rightarrow> m | Some y \<Rightarrow> f y) k"
  by (cases x) simp_all

lemma tidy_case_prod [tidies]: "(\<And>a b. tidy j (f a b) k) \<Longrightarrow> tidy j (case x of (a, b) \<Rightarrow> f a b) k"
  by (cases x) simp

lemma tidy_whenOp [tidies]: "tidy j m j \<Longrightarrow> tidy j (whenOp b m) j"
  by (simp add: tidy_def valid_def whenOp_def return_def)

lemma tidy_failIf [tidies]: "e \<noteq> FsPanic \<Longrightarrow> tidy j (failIf b e) j"
  by (simp add: tidy_def valid_def failIf_def throw_def return_def)

lemma tidy_throw [tidies]: "e \<noteq> FsPanic \<Longrightarrow> tidy j (throw e) k"
  by (simp add: tidy_def valid_def throw_def)

lemma tidy_orFail [tidies]: "e \<noteq> FsPanic \<Longrightarrow> tidy j (orFail e x) j"
  by (cases x) (simp_all add: tidy_def valid_def orFail_def throw_def return_def)

lemma tidy_reads [tidies]: "tidy j (reads f) j" "tidy j (ask_host g) j"
  by (simp_all add: tidy_def valid_def ask_host_def reads_def)

lemma tidy_return [tidies]: "tidy j (return x) j"
  by (simp add: tidy_def valid_def return_def)

lemma tidy_check_path [tidies]: "tidy j (check_path env p) j"
  unfolding check_path_def by (rule tidies | simp)+

lemma tidy_get [tidies]: "tidy j (get_inode n) j" "tidy j (get_file h) j" "tidy j (get_entries h) j"
  unfolding get_inode_def get_file_def get_entries_def by (rule tidies | simp)+

lemma tidy_host [tidies]: "tidy j (host_effect f) j" "tidy j (host_call g) j"
  by (simp_all add: tidy_def valid_def host_effect_def host_call_def modify_def fs_wf_def node_room_def split: prod.split)

lemma tidy_counts [tidies]:
  "tidy j (modify (\<lambda>d. d\<lparr>fs_bytesRead := f d\<rparr>)) j" "tidy j (modify (\<lambda>d. d\<lparr>fs_bytesWritten := f d\<rparr>)) j"
  "tidy j (modify (\<lambda>d. d\<lparr>fs_handles := g d\<rparr>)) j"
  by (simp_all add: tidy_def valid_def modify_def fs_wf_def node_room_def)

lemma tidy_add_handle [tidies]: "tidy j (add_handle fh) j"
  by (simp add: tidy_def valid_def add_handle_def fuse_run fs_wf_def node_room_def)

lemma tidy_getOrCreate [tidies]: "tidy (Suc k) (getOrCreateInode p dir) k"
proof -
  have "case getOrCreateInode p dir d of (d', Inl e) \<Rightarrow> fs_wf d' \<and> e \<noteq> FsPanic | (d', Inr x) \<Rightarrow> fs_wf d' \<and> node_room k d'"
    if "fs_wf d" "node_room (Suc k) d" for d :: "('a, 'b) VirtioFS"
    using getOrCreate_wf [OF that(1), of p dir] node_room_mono [OF that(2), of 1] that(2)
    by (cases "getOrCreateInode p dir d") (auto split: sum.split)
  then show ?thesis unfolding tidy_def by (intro validI) (auto split: prod.splits sum.splits)
qed

lemma tidyI:
  "(\<And>d. fs_wf d \<Longrightarrow> node_room j d \<Longrightarrow> fs_wf (fst (m d)) \<and> node_room k (fst (m d)) \<and> snd (m d) = Inr x) \<Longrightarrow> tidy j m k"
  unfolding tidy_def valid_def by (simp add: case_prod_unfold)

lemma tidy_drop_path [tidies]: "tidy j (drop_path p) j"
  by (rule tidyI, simp add: drop_path_wf) (simp add: drop_path_def modify_def node_room_def split: option.split)

lemma tidy_move_path [tidies]: "tidy j (move_path p q) j"
  by (rule tidyI, simp add: move_path_wf) (simp add: move_path_def modify_def node_room_def split: option.split)

lemma tidy_weaken: "tidy j m k \<Longrightarrow> j \<le> j' \<Longrightarrow> k' \<le> k \<Longrightarrow> tidy j' m k'"
  unfolding tidy_def by (erule valid_weaken) (auto intro: node_room_mono)

lemma tidy_readdirplus: "tidy (length es + k) (readdirplus_loop env dir sz i es buf) k"
proof (induction es arbitrary: i buf)
  case Nil
  show ?case by (simp add: tidy_return)
next
  case (Cons e es)
  have "tidy (Suc (length es + k)) (readdirplus_loop env dir sz i' es buf') k" for i' buf'
    by (rule tidy_weaken [OF Cons]) simp_all
  moreover have "tidy (length es + k) (if b then return x else readdirplus_loop env dir sz i' es buf') k" for b x i' buf'
    by (cases b) (auto intro: Cons tidy_weaken [OF tidy_return])
  ultimately show ?case unfolding readdirplus_loop.simps Let_def by (auto intro!: tidies)
qed

lemmas errno_defs = FuseErrNoent_def FuseErrIO_def FuseErrAccess_def FuseErrExist_def FuseErrInval_def
  FuseErrNosys_def FuseErrEmpty_def

lemma tidy_creators:
  "tidy (Suc 0) (handleLookup env hdr body) 0" "tidy (Suc 0) (handleCreate env hdr body) 0"
  "tidy (Suc 0) (handleMkdir env hdr body) 0"
  unfolding handler_defs Let_def by (rule tidies | simp)+

lemma tidy_others:
  "tidy j (handleGetattr env hdr) j" "tidy j (handleOpen env hdr) j" "tidy j (fs_handleRead env hdr body) j"
  "tidy j (fs_handleWrite env hdr body) j" "tidy j (fs_handleRelease env hdr body) j" "tidy j (handleOpendir env hdr) j"
  "tidy j (handleUnlink env hdr body) j" "tidy j (handleRmdir env hdr body) j" "tidy j (fs_handleFlush env hdr body) j"
  "tidy j (handleSetattr env hdr body) j" "tidy j (handleReadlink env hdr) j" "tidy j (handleRename env hdr body) j"
  unfolding handler_defs Let_def by (rule tidies | simp)+

lemma tidy_forget: "tidy j (handleForget hdr body) j"
proof (rule tidyI)
  fix d :: "('a, 'b) VirtioFS"
  assume wf: "fs_wf d" "node_room j d"
  show "fs_wf (fst (handleForget hdr body d)) \<and> node_room j (fst (handleForget hdr body d)) \<and> snd (handleForget hdr body d) = Inr ()"
  proof (cases "fs_inodes d (fih_NodeID hdr)")
    case (Some i)
    have path: "q = fi_hostPath i" if "fs_pathToNode d q = Some (fih_NodeID hdr)" for q
      using fs_wf_path [OF wf(1) that] Some by simp
    then have "fs_wf (d\<lparr>fs_inodes := (fs_inodes d)(fih_NodeID hdr \<mapsto> i\<lparr>fi_refCount := rc\<rparr>)\<rparr>)" for rc
      using wf(1) Some by (auto simp: fs_wf_def)
    moreover have "fs_wf (d\<lparr>fs_pathToNode := (fs_pathToNode d)(fi_hostPath i := None), fs_inodes := (fs_inodes d)(fih_NodeID hdr := None)\<rparr>)"
      using remove_node_wf [OF wf(1) path, of "fih_NodeID hdr"] by (simp add: fs_wf_def)
    ultimately show ?thesis using Some wf(2)
      by (simp add: handleForget_def fuse_run Let_def put_inode_def modify_def node_room_def)
  qed (simp add: handleForget_def fuse_run wf)
qed

subsection \<open>Requests\<close>

text \<open>Room for the nodes that one request can create.\<close>

definition fs_room :: "('f, 'w) VirtioFS \<Rightarrow> bool" where
  "fs_room d \<longleftrightarrow> node_room 1 d \<and> (\<forall>h fh. map_of (fs_handles d) h = Some fh \<longrightarrow> node_room (length (fh_dirEnts fh)) d)"

text \<open>A listing of an open directory from an offset with the sign bit set.\<close>

definition negative_offset :: "('f, 'w) VirtioFS \<Rightarrow> bytes \<Rightarrow> bool" where
  "negative_offset d req \<longleftrightarrow>
     (let hdr = decodeFuseInHeader (take 40 req); r = decode_read_in (drop 40 req)
      in fs_running d \<and> length req \<ge> 64 \<and> sint (fri_Offset r) < 0 \<and>
         (\<exists>fh. map_of (fs_handles d) (fri_Fh r) = Some fh \<and> fh_isDir fh) \<and>
         (fih_Opcode hdr = FuseOpReaddir \<or> (fih_Opcode hdr = FuseOpReaddirplus \<and> fs_inodes d (fih_NodeID hdr) \<noteq> None)))"

lemma tidy_run:
  assumes "tidy j m k" "fs_wf d" "node_room j d" "m d = (d', r)"
  shows "fs_wf d' \<and> r \<noteq> Inl FsPanic"
  using valid_ok [OF assms(1) [unfolded tidy_def], of d d'] valid_error [OF assms(1) [unfolded tidy_def], of d d'] assms(2-4)
  by (cases r) auto

text \<open>The listing handlers fail with a panic exactly on a negative offset.\<close>

definition lists_open_dir :: "('f, 'w) VirtioFS \<Rightarrow> bytes \<Rightarrow> bool" where
  "lists_open_dir d body \<longleftrightarrow> 24 \<le> length body \<and>
     (case map_of (fs_handles d) (fri_Fh (decode_read_in body)) of None \<Rightarrow> False | Some fh \<Rightarrow> fh_isDir fh)"

lemma errno_no_panic [simp]: "FsErrno e \<noteq> FsPanic"
  by simp

lemma readdir_run:
  "handleReaddir env hdr body d = (d', r) \<Longrightarrow>
   d' = d \<and> (r = Inl FsPanic \<longleftrightarrow> lists_open_dir d body \<and> sint (fri_Offset (decode_read_in body)) < 0)"
  by (auto simp: handleReaddir_def Let_def fuse_run lists_open_dir_def split: option.splits if_splits)

lemma readdirplus_run:
  assumes "handleReaddirplus env hdr body d = (d', r)" "fs_wf d" "fs_room d"
  shows "fs_wf d' \<and> (r = Inl FsPanic \<longleftrightarrow>
    lists_open_dir d body \<and> sint (fri_Offset (decode_read_in body)) < 0 \<and> fs_inodes d (fih_NodeID hdr) \<noteq> None)"
proof -
  let ?r = "decode_read_in body"
  have ok: "fs_wf d' \<and> r \<noteq> Inl FsPanic"
    if fh: "map_of (fs_handles d) (fri_Fh ?r) = Some fh"
      and run: "bind (readdirplus_loop env p (fri_Size ?r) i (drop i (fh_dirEnts fh)) []) (\<lambda>buf. return (f buf)) d = (d', r)" for fh p i f
  proof -
    have "tidy (length (drop i (fh_dirEnts fh)) + 0) (bind (readdirplus_loop env p (fri_Size ?r) i (drop i (fh_dirEnts fh)) []) (\<lambda>buf. return (f buf))) 0"
      by (rule tidy_bind [OF tidy_readdirplus tidy_return])
    moreover have "node_room (length (fh_dirEnts fh)) d" using assms(3) fh by (auto simp: fs_room_def)
    then have "node_room (length (drop i (fh_dirEnts fh)) + 0) d" by (rule node_room_mono) simp
    ultimately show ?thesis using assms(2) run by (metis tidy_run)
  qed
  show ?thesis using assms(1,2) ok
    by (auto simp: handleReaddirplus_def fuse_run Let_def lists_open_dir_def split: option.splits if_splits)
qed

text \<open>A request other than the listing of a directory.\<close>

lemma tidy_replies: "tidy j m k \<Longrightarrow> tidy j (replies m) k"
  unfolding replies_def by (rule tidy_bind [OF _ tidy_return])

lemma tidy_dispatch:
  assumes "fih_Opcode hdr \<noteq> FuseOpReaddir" "fih_Opcode hdr \<noteq> FuseOpReaddirplus"
  shows "tidy (Suc 0) (fs_dispatch env hdr body) 0"
proof -
  have other: "tidy (Suc 0) (replies m) 0" if "tidy (Suc 0) m (Suc 0)" for m :: "('a, 'b, bytes) fop"
    by (rule tidy_weaken [OF tidy_replies [OF that]]) simp_all
  have forget: "tidy (Suc 0) (seq (handleForget hdr body) (return None)) 0"
    by (rule tidy_weaken [where j = "Suc 0" and k = "Suc 0", OF tidy_seq [OF tidy_forget tidy_return]]) simp_all
  have nosys: "tidy (Suc 0) (throw (FsErrno FuseErrNosys)) 0" by (rule tidy_throw) simp
  show ?thesis using assms
    by (simp add: fs_dispatch_def Let_def tidy_replies [OF tidy_creators(1)] tidy_replies [OF tidy_creators(2)]
        tidy_replies [OF tidy_creators(3)] forget nosys other [OF tidy_return] other [OF tidy_others(1)]
        other [OF tidy_others(2)] other [OF tidy_others(3)] other [OF tidy_others(4)] other [OF tidy_others(5)]
        other [OF tidy_others(6)] other [OF tidy_others(7)] other [OF tidy_others(8)] other [OF tidy_others(9)]
        other [OF tidy_others(10)] other [OF tidy_others(11)] other [OF tidy_others(12)])
qed

lemma dispatch_run:
  assumes "fs_dispatch env hdr body d = (d', r)" "fs_wf d" "fs_room d"
  shows "fs_wf d' \<and> (r = Inl FsPanic \<longleftrightarrow> lists_open_dir d body \<and> sint (fri_Offset (decode_read_in body)) < 0 \<and>
    (fih_Opcode hdr = FuseOpReaddir \<or> (fih_Opcode hdr = FuseOpReaddirplus \<and> fs_inodes d (fih_NodeID hdr) \<noteq> None)))"
proof (cases "fih_Opcode hdr = FuseOpReaddir \<or> fih_Opcode hdr = FuseOpReaddirplus")
  case False
  then show ?thesis using tidy_run [OF tidy_dispatch assms(2) _ assms(1)] assms(3) by (simp add: fs_room_def)
next
  case True
  then obtain m where m: "fs_dispatch env hdr body = replies m"
    "m = (if fih_Opcode hdr = FuseOpReaddir then handleReaddir env hdr body else handleReaddirplus env hdr body)"
    by (auto simp: fs_dispatch_def Let_def fuse_ops)
  obtain r0 where r0: "m d = (d', r0)" "r = Inl FsPanic \<longleftrightarrow> r0 = Inl FsPanic"
    using assms(1) unfolding m(1) replies_def by (cases "m d"; cases "snd (m d)") (auto simp: bind_def return_def)
  show ?thesis
  proof (cases "fih_Opcode hdr = FuseOpReaddir")
    case True
    then show ?thesis using readdir_run [of env hdr body d d' r0] r0 m(2) assms(2) by simp
  next
    case False
    then show ?thesis using readdirplus_run [OF _ assms(2,3), of env hdr body d' r0] r0 m(2) True by simp
  qed
qed

lemma run_answer:
  "m d = (d', r) \<Longrightarrow> answer_errors u m d =
     (d', case r of Inl (FsErrno e) \<Rightarrow> Inr (Some (errorResponse u e)) | Inl err \<Rightarrow> Inl err | Inr x \<Rightarrow> Inr x)"
  by (auto simp: answer_errors_def attempt_def bind_def throw_def return_def split: sum.split fs_error.split)

lemma request_run:
  assumes "fs_ProcessRequest env req d = (d', r)" "fs_wf d" "fs_room d"
  shows "fs_wf d' \<and> (r = Inl FsPanic \<longleftrightarrow> negative_offset d req)"
proof (cases "fs_running d \<and> length req \<ge> 40")
  case False
  then show ?thesis using assms
    by (auto simp: fs_ProcessRequest_def fuse_run fuseInHeaderSize_def negative_offset_def Let_def split: if_splits)
next
  case True
  let ?hdr = "decodeFuseInHeader (take 40 req)" and ?d = "d\<lparr>fs_opsCompleted := fs_opsCompleted d + 1\<rparr>"
  obtain d1 r1 where run: "fs_dispatch env ?hdr (drop 40 req) ?d = (d1, r1)"
    by (cases "fs_dispatch env ?hdr (drop 40 req) ?d")
  have "fs_wf ?d" "fs_room ?d" using assms(2,3) by (simp_all add: fs_wf_def fs_room_def node_room_def)
  note dispatched = dispatch_run [OF run this]
  have "answer_errors (fih_Unique ?hdr) (fs_dispatch env ?hdr (drop 40 req)) ?d = (d', r)"
    using assms(1) True by (simp add: fs_ProcessRequest_def fuse_run fuseInHeaderSize_def Let_def)
  then have "d' = d1" "r = Inl FsPanic \<longleftrightarrow> r1 = Inl FsPanic"
    unfolding run_answer [of "fs_dispatch env ?hdr (drop 40 req)" ?d d1 r1, OF run] by (auto split: sum.splits fs_error.splits)
  then show ?thesis using dispatched True
    by (auto simp: negative_offset_def lists_open_dir_def Let_def split: option.splits)
qed

end
