(* ===== verification/VirtioFsClaims.thy ===== *)
theory VirtioFsClaims
  imports VirtioFsProofs
begin

text \<open>
  The shared directory device: which calls of the host it makes, when a request can make it
  panic, the listing of a directory and the life of a node.
\<close>

subsection \<open>Confinement\<close>

text \<open>
  C24: The functions of the host that create, remove or rename names are called only on paths
  that isPathSafe accepts at that moment, that is whose directory resolves into the shared
  one, or which lie there as they are written when it cannot be resolved: a host on which these functions do anything else for the refused paths answers every
  request in the same way and ends in the same state (VirtioFS.ProcessRequest).
\<close>
theorem fs_confined:
  "fs_ProcessRequest (refused_elsewhere env other (fs_hostPath d)) req d = fs_ProcessRequest env req d"
  by (rule request_agree, rule dispatch_refused)

text \<open>
  A read-only share changes nothing on the host: a host on which opening for writing,
  WriteAt, Mkdir, Remove, Rename, Truncate and Chmod do anything else answers every request
  in the same way and ends in the same state (VirtioFS.ProcessRequest).
\<close>
theorem fs_read_only:
  assumes "fs_readOnly d"
  shows "fs_ProcessRequest (changes_elsewhere env other) req d = fs_ProcessRequest env req d"
  by (rule request_agree, rule dispatch_changes) (simp add: assms)

text \<open>Opening a node, unlike looking it up, never asks where the path leads.\<close>

lemma open_unchecked: "handleOpen (env\<lparr>fe_EvalSymlinks := f\<rparr>) hdr = handleOpen env hdr"
proof -
  have "fe_OpenFile (env\<lparr>fe_EvalSymlinks := f\<rparr>) = fe_OpenFile env" by simp
  then show ?thesis unfolding handleOpen_def by (rule arg_cong)
qed

subsection \<open>Reachable devices\<close>

inductive fs_reach :: "('f, 'w) HostEnv \<Rightarrow> ('f, 'w) VirtioFS \<Rightarrow> ('f, 'w) VirtioFS \<Rightarrow> bool" for env d0 where
  created: "fs_reach env d0 d0"
| request: "fs_reach env d0 d \<Longrightarrow> fs_room d \<Longrightarrow> fs_ProcessRequest env req d = (d', r) \<Longrightarrow> fs_reach env d0 d'"
| started: "fs_reach env d0 d \<Longrightarrow> fs_Start d = (d', r) \<Longrightarrow> fs_reach env d0 d'"
| stopped: "fs_reach env d0 d \<Longrightarrow> fs_Stop env d = (d', r) \<Longrightarrow> fs_reach env d0 d'"
| configured: "fs_reach env d0 d \<Longrightarrow> fs_reach env d0 (fs_Configure config d)"
| world: "fs_reach env d0 d \<Longrightarrow> fs_reach env d0 (d\<lparr>fs_world := w\<rparr>)"

lemma keeps_wf_modify [kept]:
  "keeps fs_wf (modify (\<lambda>d. d\<lparr>fs_running := b\<rparr>))" "keeps fs_wf (modify (\<lambda>d. d\<lparr>fs_stopClosed := b\<rparr>))"
  "keeps fs_wf (modify (\<lambda>d. d\<lparr>fs_handles := f d\<rparr>))" "keeps fs_wf (host_effect g)"
  by (simp_all add: keeps_def modify_def host_effect_def fs_wf_def)

lemma keeps_case_prod: "(\<And>a b. keeps P (f a b)) \<Longrightarrow> keeps P (case x of (a, b) \<Rightarrow> f a b)"
  by (cases x) simp

lemma start_stop_wf: "keeps fs_wf fs_Start" "keeps fs_wf (fs_Stop env)"
  unfolding fs_Start_def fs_Stop_def by (rule kept keeps_case_prod)+

lemma new_fs_wf: "NewVirtioFS env opts w = Inr d \<Longrightarrow> fs_wf d"
  by (auto simp: NewVirtioFS_def fs_wf_def split: if_splits option.splits)

lemma reach_wf: "fs_reach env d0 d \<Longrightarrow> fs_wf d0 \<Longrightarrow> fs_wf d"
proof (induction rule: fs_reach.induct)
  case (request d req d' r)
  then show ?case using request_run by blast
next
  case (started d d' r)
  then show ?case using keepsD [OF start_stop_wf(1)] by blast
next
  case (stopped d d' r)
  then show ?case using keepsD [OF start_stop_wf(2)] by blast
next
  case (configured d config)
  have "fs_wf (fs_Configure config d) = fs_wf d"
    by (rule fs_wf_cong) (simp_all add: fs_Configure_def split: option.split)
  then show ?case using configured by blast
next
  case (world d w)
  have "fs_wf (d\<lparr>fs_world := w\<rparr>) = fs_wf d" by (rule fs_wf_cong) simp_all
  then show ?case using world by blast
qed

text \<open>
  C25: In every device that requests, starts, stops and changes of the host can produce, each
  path of the node table leads to a node with that path, and a request panics exactly when it
  lists an open directory from an offset whose sign bit is set (the offset becomes a negative
  index); the hypothesis is that the counter of node numbers is further from wrapping than
  the longest open directory (VirtioFS.ProcessRequest, getOrCreateInode, handleReaddir).
\<close>
theorem fs_panics:
  assumes "NewVirtioFS env opts w = Inr d0" "fs_reach env d0 d" "fs_room d" "fs_ProcessRequest env req d = (d', r)"
  shows "(\<forall>p n. fs_pathToNode d p = Some n \<longrightarrow> (\<exists>i. fs_inodes d n = Some i \<and> fi_hostPath i = p)) \<and>
    (r = Inl FsPanic \<longleftrightarrow> negative_offset d req)"
proof -
  have "fs_wf d" by (rule reach_wf [OF assms(2) new_fs_wf [OF assms(1)]])
  then show ?thesis using request_run [OF assms(4) _ assms(3)] by (simp add: fs_wf_def)
qed

subsection \<open>Requests as the guest writes them\<close>

definition fuse_request :: "u32 \<Rightarrow> u64 \<Rightarrow> bytes \<Rightarrow> bytes" where
  "fuse_request op node body =
     put_le 4 (of_nat (40 + length body) :: u32) @ put_le 4 op @ put_le 8 (0 :: u64) @ put_le 8 node @ replicate 16 0 @ body"

lemma fuse_request_parts:
  "length (fuse_request op node body) = 40 + length body" "drop 40 (fuse_request op node body) = body"
  "fih_Opcode (decodeFuseInHeader (take 40 (fuse_request op node body))) = op"
  "fih_NodeID (decodeFuseInHeader (take 40 (fuse_request op node body))) = node"
  "fih_Unique (decodeFuseInHeader (take 40 (fuse_request op node body))) = 0"
  by (simp_all add: fuse_request_def decodeFuseInHeader_def gslice_def)

lemma fuse_request_run:
  assumes "fs_running d"
  shows "fs_ProcessRequest env (fuse_request op node body) d =
    answer_errors 0 (fs_dispatch env (decodeFuseInHeader (take 40 (fuse_request op node body))) body)
      (d\<lparr>fs_opsCompleted := fs_opsCompleted d + 1\<rparr>)"
  using assms by (simp add: fs_ProcessRequest_def fuse_run fuseInHeaderSize_def Let_def fuse_request_parts)

subsection \<open>Listing a directory\<close>

fun parse_dirents :: "nat \<Rightarrow> bytes \<Rightarrow> (u64 \<times> u32 \<times> bytes) list" where
  "parse_dirents 0 b = []"
| "parse_dirents (Suc k) b =
     (if length b < 24 then []
      else let n = unat (get_le (gslice 16 20 b) :: u32)
           in (get_le (gslice 8 16 b), get_le (gslice 20 24 b), gslice 24 (24 + n) b) #
                parse_dirents k (drop ((24 + n + 7) div 8 * 8) b))"

definition dirent_size :: "DirEntry \<Rightarrow> nat" where
  "dirent_size e = (24 + length (de_Name e) + 7) div 8 * 8"

lemma length_encodeDirent: "length (encodeDirent (de_Name e) off k) = dirent_size e"
  by (simp add: encodeDirent_def pad8_def dirent_size_def)

lemma parse_dirent:
  fixes e :: DirEntry
  assumes "length (de_Name e) < 2 ^ 32"
  shows "parse_dirents (Suc k) (encodeDirent (de_Name e) off kind @ rest) =
    (off, fuseFileType kind, de_Name e) # parse_dirents k rest"
proof -
  let ?b = "encodeDirent (de_Name e) off kind @ rest"
  have len: "unat (of_nat (length (de_Name e)) :: u32) = length (de_Name e)"
    using assms by (simp add: unat_of_nat)
  have "gslice 16 20 ?b = put_le 4 (of_nat (length (de_Name e)) :: u32)" "gslice 8 16 ?b = put_le 8 off"
    "gslice 20 24 ?b = put_le 4 (fuseFileType kind)" "gslice 24 (24 + length (de_Name e)) ?b = de_Name e"
    by (simp_all add: encodeDirent_def gslice_def)
  moreover have "drop (dirent_size e) ?b = rest"
    by (simp add: length_encodeDirent)
  moreover have "\<not> length ?b < 24" by (simp add: encodeDirent_def)
  ultimately show ?thesis by (simp add: len dirent_size_def del: append_assoc)
qed

lemma parse_nil: "parse_dirents k [] = []"
  by (cases k) simp_all

text \<open>One page is the encoding of the next entries, at least one when the first fits.\<close>

definition encode_entries :: "nat \<Rightarrow> DirEntry list \<Rightarrow> bytes" where
  "encode_entries i es = concat (map (\<lambda>(j, e). encodeDirent (de_Name e) (of_nat (j + 1)) (de_Kind e)) (zip [i..<i + length es] es))"

lemma encode_entries_simps [simp]:
  "encode_entries i [] = []"
  "encode_entries i (e # es) = encodeDirent (de_Name e) (of_nat (i + 1)) (de_Kind e) @ encode_entries (Suc i) es"
  by (simp_all add: encode_entries_def upt_conv_Cons del: upt_Suc)

lemma readdir_page:
  "\<exists>m \<le> length es. readdir_loop sz i es buf = buf @ encode_entries i (take m es) \<and>
     (es \<noteq> [] \<and> buf = [] \<and> dirent_size (hd es) \<le> unat sz \<longrightarrow> m > 0)"
proof (induction es arbitrary: i buf)
  case Nil
  show ?case by (simp add: encode_entries_def)
next
  case (Cons e es)
  let ?dirent = "encodeDirent (de_Name e) (of_nat (i + 1)) (de_Kind e)"
  show ?case
  proof (cases "(of_nat (length buf + length ?dirent) :: u32) > sz")
    case True
    have "\<not> (buf = [] \<and> dirent_size e \<le> unat sz)"
    proof
      assume small: "buf = [] \<and> dirent_size e \<le> unat sz"
      then have "(of_nat (dirent_size e) :: u32) \<le> sz" by (simp add: word_le_nat_alt unat_of_nat le_trans [OF mod_less_eq_dividend])
      then show False using True small by (simp add: length_encodeDirent)
    qed
    then show ?thesis using True by (intro exI [of _ 0]) simp
  next
    case False
    obtain m where "m \<le> length es" "readdir_loop sz (i + 1) es (buf @ ?dirent) = (buf @ ?dirent) @ encode_entries (i + 1) (take m es)"
      using Cons [of "i + 1" "buf @ ?dirent"] by blast
    then show ?thesis using False by (intro exI [of _ "Suc m"]) simp
  qed
qed

lemma length_encode_entries: "length es \<le> length (encode_entries i es)"
proof (induction es arbitrary: i)
  case (Cons e es)
  have "length (encodeDirent (de_Name e) (of_nat (i + 1)) (de_Kind e)) \<ge> 1" by (simp add: encodeDirent_def)
  then show ?case using Cons [of "Suc i"] by simp
qed simp

lemma parse_entries:
  assumes "\<forall>e \<in> set es. length (de_Name e) < 2 ^ 32" "length es < k"
  shows "parse_dirents k (encode_entries i es) =
    map (\<lambda>(j, e). (of_nat (j + 1), fuseFileType (de_Kind e), de_Name e)) (zip [i..<i + length es] es)"
  using assms
proof (induction es arbitrary: i k)
  case Nil
  then show ?case by (cases k) simp_all
next
  case (Cons e es)
  then obtain k' where "k = Suc k'" by (cases k) simp_all
  then show ?case using Cons parse_dirent [of e k'] by (simp add: upt_conv_Cons del: upt_Suc parse_dirents.simps)
qed

text \<open>
  A guest that lists a directory handle: it asks from the offset of the last entry it got,
  until a reply has no entries.
\<close>

definition readdir_request :: "u64 \<Rightarrow> u64 \<Rightarrow> u64 \<Rightarrow> u32 \<Rightarrow> bytes" where
  "readdir_request node h off sz = fuse_request FuseOpReaddir node (put_le 8 h @ put_le 8 off @ put_le 4 sz @ replicate 4 0)"

primrec list_directory ::
  "('f, 'w) HostEnv \<Rightarrow> u64 \<Rightarrow> u64 \<Rightarrow> u32 \<Rightarrow> nat \<Rightarrow> u64 \<Rightarrow> ('f, 'w) VirtioFS \<Rightarrow> (u32 \<times> bytes) list option" where
  "list_directory env node h sz 0 off d = None"
| "list_directory env node h sz (Suc fuel) off d =
     (case fs_ProcessRequest env (readdir_request node h off sz) d of
        (d', Inr (Some reply)) \<Rightarrow>
          (let es = parse_dirents (length reply) (drop 16 reply)
           in if es = [] then Some []
              else map_option ((@) (map snd es)) (list_directory env node h sz fuel (fst (last es)) d'))
      | _ \<Rightarrow> None)"

lemma readdir_request_run:
  assumes "fs_running d" "map_of (fs_handles d) h = Some fh" "fh_isDir fh" "s < 2 ^ 63"
  shows "fs_ProcessRequest env (readdir_request node h (of_nat s) sz) d =
    (d\<lparr>fs_opsCompleted := fs_opsCompleted d + 1\<rparr>,
     Inr (Some (fuse_reply 0 (readdir_loop sz s (drop s (fh_dirEnts fh)) []))))"
proof -
  let ?body = "put_le 8 h @ put_le 8 (of_nat s :: u64) @ put_le 4 sz @ replicate 4 (0 :: byte)"
  let ?hdr = "decodeFuseInHeader (take 40 (fuse_request FuseOpReaddir node ?body))"
  have body: "length ?body = 24" "decode_read_in ?body = \<lparr>fri_Fh = h, fri_Offset = of_nat s, fri_Size = sz\<rparr>"
    by (simp_all add: decode_read_in_def gslice_def)
  have "unat (of_nat s :: u64) = s" using assms(4) by (simp add: unat_of_nat)
  then have off: "sint (of_nat s :: u64) = int s" using sint_small [of "of_nat s"] assms(4) by simp
  have "handleReaddir env ?hdr ?body d' = (d', Inr (fuse_reply 0 (readdir_loop sz s (drop s (fh_dirEnts fh)) [])))"
    if "fs_handles d' = fs_handles d" for d' :: "('a, 'b) VirtioFS"
    using assms(2,3) that off by (simp add: handleReaddir_def fuse_run Let_def body fuse_request_parts)
  then show ?thesis
    unfolding readdir_request_def fuse_request_run [OF assms(1)]
    by (simp add: fs_dispatch_def Let_def fuse_request_parts fuse_ops replies_def run_answer bind_def return_def answer_errors_def attempt_def)
qed

lemma list_from:
  assumes "fs_running d" "map_of (fs_handles d) h = Some fh" "fh_isDir fh" "length (fh_dirEnts fh) < 2 ^ 63"
    and "\<forall>e \<in> set (fh_dirEnts fh). length (de_Name e) < 2 ^ 32 \<and> dirent_size e \<le> unat sz"
    and "s \<le> length (fh_dirEnts fh)" "length (fh_dirEnts fh) - s < fuel"
  shows "list_directory env node h sz fuel (of_nat s) d =
    Some (map (\<lambda>e. (fuseFileType (de_Kind e), de_Name e)) (drop s (fh_dirEnts fh)))"
  using assms
proof (induction fuel arbitrary: s d)
  case (Suc fuel)
  let ?es = "drop s (fh_dirEnts fh)" and ?d = "d\<lparr>fs_opsCompleted := fs_opsCompleted d + 1\<rparr>"
  obtain m where m: "m \<le> length ?es" "readdir_loop sz s ?es [] = encode_entries s (take m ?es)" "?es \<noteq> [] \<longrightarrow> m > 0"
  proof -
    have "dirent_size (hd ?es) \<le> unat sz" if "?es \<noteq> []"
      using Suc.prems(5) in_set_dropD [OF hd_in_set [OF that]] by blast
    then show thesis using readdir_page [of ?es sz s "[]"] that by auto
  qed
  let ?page = "take m ?es"
  have small: "\<forall>e \<in> set ?page. length (de_Name e) < 2 ^ 32" using Suc.prems(5) by (meson in_set_dropD in_set_takeD)
  have reply: "fs_ProcessRequest env (readdir_request node h (of_nat s) sz) d = (?d, Inr (Some (fuse_reply 0 (encode_entries s ?page))))"
    using readdir_request_run [OF Suc.prems(1-3), of s env node sz] Suc.prems(4,6) m(2) by simp
  have len: "length (fuse_reply 0 b) = 16 + length b" "drop 16 (fuse_reply 0 b) = b" for b
    by (simp_all add: fuse_reply_def encodeFuseOutHeader_def)
  define P where "P = map (\<lambda>(j, e). (of_nat (j + 1) :: u64, fuseFileType (de_Kind e), de_Name e)) (zip [s..<s + length ?page] ?page)"
  have parsed: "parse_dirents (length (fuse_reply 0 (encode_entries s ?page))) (encode_entries s ?page) = P"
    unfolding P_def using length_encode_entries [of ?page s] by (intro parse_entries small) (simp add: len)
  show ?case
  proof (cases "?page = []")
    case True
    then have "?es = []" using m(3) by auto
    then show ?thesis using reply by (simp add: len parse_nil)
  next
    case False
    then have mpos: "0 < m" "length ?page = m" using m(1) by auto
    have P: "P \<noteq> []" "fst (last P) = of_nat (s + m)"
      unfolding P_def mpos(2) using mpos False by (simp_all add: last_map last_zip last_upt)
    have "map snd (map (\<lambda>(j, e). (of_nat (j + 1) :: u64, fuseFileType (de_Kind e), de_Name e)) ps) =
        map (\<lambda>e. (fuseFileType (de_Kind e), de_Name e)) (map snd ps)" for ps :: "(nat \<times> DirEntry) list"
      by (induction ps) auto
    then have names: "map snd P = map (\<lambda>e. (fuseFileType (de_Kind e), de_Name e)) ?page"
      unfolding P_def by (simp only: map_snd_zip length_upt diff_add_inverse)
    have rest: "list_directory env node h sz fuel (of_nat (s + m)) ?d =
        Some (map (\<lambda>e. (fuseFileType (de_Kind e), de_Name e)) (drop (s + m) (fh_dirEnts fh)))"
      by (rule Suc.IH) (use Suc.prems m(1) mpos in auto)
    have "?page @ drop (s + m) (fh_dirEnts fh) = ?es"
      using append_take_drop_id [of m ?es] by (simp only: drop_drop add.commute [of m s])
    then have split: "map (\<lambda>e. (fuseFileType (de_Kind e), de_Name e)) ?es = map snd P @
        map (\<lambda>e. (fuseFileType (de_Kind e), de_Name e)) (drop (s + m) (fh_dirEnts fh))"
      unfolding names by (metis map_append)
    have "list_directory env node h sz (Suc fuel) (of_nat s) d =
        map_option ((@) (map snd P)) (list_directory env node h sz fuel (fst (last P)) ?d)"
      using parsed P(1) by (simp only: list_directory.simps reply len Let_def prod.case sum.case option.case if_False)
    then show ?thesis unfolding P(2) rest split by simp
  qed
qed simp

text \<open>
  C26: A guest that lists an open directory page by page, from offset 0 and then from the
  offset of the last entry it got, ends after at most one more request than there are
  entries and gets every entry exactly once, in the order of the host, with its name and
  type, whatever part of the entries fits into a page, provided that each entry fits into
  one (VirtioFS.handleReaddir, encodeDirent).
\<close>
theorem fs_list_directory:
  assumes "fs_running d" "map_of (fs_handles d) h = Some fh" "fh_isDir fh" "length (fh_dirEnts fh) < 2 ^ 63"
    and "\<forall>e \<in> set (fh_dirEnts fh). length (de_Name e) < 2 ^ 32 \<and> dirent_size e \<le> unat sz"
  shows "list_directory env node h sz (length (fh_dirEnts fh) + 1) 0 d =
    Some (map (\<lambda>e. (fuseFileType (de_Kind e), de_Name e)) (fh_dirEnts fh))"
  using list_from [OF assms, of 0 "length (fh_dirEnts fh) + 1" env node] by simp

subsection \<open>The life of a node\<close>

definition lookup_request :: "u64 \<Rightarrow> bytes \<Rightarrow> bytes" where
  "lookup_request node name = fuse_request FuseOpLookup node (name @ [0])"

definition forget_request :: "u64 \<Rightarrow> u64 \<Rightarrow> bytes" where
  "forget_request node n = fuse_request FuseOpForget node (put_le 8 n)"

primrec requests :: "('f, 'w) HostEnv \<Rightarrow> bytes \<Rightarrow> nat \<Rightarrow> ('f, 'w) VirtioFS \<Rightarrow> ('f, 'w) VirtioFS" where
  "requests env req 0 d = d"
| "requests env req (Suc k) d = fst (fs_ProcessRequest env req (requests env req k d))"

definition plain_name :: "bytes \<Rightarrow> bool" where
  "plain_name name \<longleftrightarrow> name \<noteq> [] \<and> 0 \<notin> set name \<and> 47 \<notin> set name \<and> name \<noteq> [46] \<and> name \<noteq> [46, 46]"

text \<open>The device with the node \<open>n\<close> of a path looked up \<open>rc\<close> times, and otherwise like \<open>d\<close>.\<close>

definition with_node :: "('f, 'w) VirtioFS \<Rightarrow> u64 \<Rightarrow> bytes \<Rightarrow> bool \<Rightarrow> int \<Rightarrow> ('f, 'w) VirtioFS \<Rightarrow> bool" where
  "with_node d n path dir rc d' \<longleftrightarrow>
     fs_running d' = fs_running d \<and> fs_hostPath d' = fs_hostPath d \<and> fs_world d' = fs_world d \<and>
     fs_inodes d' = (fs_inodes d)(n \<mapsto> \<lparr>fi_hostPath = path, fi_nodeID = n, fi_isDir = dir, fi_refCount = rc\<rparr>) \<and>
     fs_pathToNode d' = (fs_pathToNode d)(path \<mapsto> n)"

lemma cstring_append: "0 \<notin> set name \<Longrightarrow> cstring (name @ 0 # rest) = name"
  unfolding cstring_def by (induction name) auto

lemma run_bind: "m d = (d', Inr x) \<Longrightarrow> bind m k d = k x d'"
  by (simp add: bind_def)

lemma lookup_run:
  assumes "fs_running d" "plain_name name" "fs_inodes d node = Some parent" "Join (fi_hostPath parent) name = path"
    "isPathSafe env (fs_hostPath d) path (fs_world d)" "fe_Lstat env path (fs_world d) = Some info"
    "getOrCreateInode path (inf_Kind info = KindDir) (d\<lparr>fs_opsCompleted := fs_opsCompleted d + 1\<rparr>) = (d', Inr n)"
  shows "fs_ProcessRequest env (lookup_request node name) d = (d', Inr (Some (encodeEntryOut 0 (entry_out n info))))"
proof -
  let ?hdr = "decodeFuseInHeader (take 40 (fuse_request FuseOpLookup node (name @ [0])))"
  let ?d = "d\<lparr>fs_opsCompleted := fs_opsCompleted d + 1\<rparr>"
  have "handleLookup env ?hdr (name @ [0]) ?d = (d', Inr (encodeEntryOut 0 (entry_out n info)))"
    using assms(2-7) by (simp add: handleLookup_def fuse_run Let_def fuse_request_parts cstring_append plain_name_def run_bind)
  then show ?thesis
    unfolding lookup_request_def fuse_request_run [OF assms(1)]
    by (simp add: fs_dispatch_def Let_def fuse_request_parts fuse_ops replies_def answer_errors_def attempt_def bind_def return_def)
qed

lemma forget_run:
  assumes "fs_running d" "fs_inodes d n = Some i" "n \<noteq> 1"
  shows "fst (fs_ProcessRequest env (forget_request n m) d) =
    (let rc = int64 (fi_refCount i - sint m); d1 = d\<lparr>fs_opsCompleted := fs_opsCompleted d + 1\<rparr>
     in if rc \<le> 0 then d1\<lparr>fs_pathToNode := (fs_pathToNode d)(fi_hostPath i := None), fs_inodes := (fs_inodes d)(n := None)\<rparr>
        else d1\<lparr>fs_inodes := (fs_inodes d)(n \<mapsto> i\<lparr>fi_refCount := rc\<rparr>)\<rparr>)"
proof -
  have "get_le (gslice 0 8 (put_le 8 m)) = m" by (simp add: gslice_def)
  then show ?thesis
    unfolding forget_request_def fuse_request_run [OF assms(1)]
    using assms(2,3)
    by (simp add: fs_dispatch_def Let_def fuse_request_parts fuse_ops answer_errors_def attempt_def seq_def bind_def return_def
        handleForget_def reads_def modify_def put_inode_def)
qed

lemma lookups_run:
  assumes "fs_running d" "plain_name name" "fs_inodes d node = Some parent" "Join (fi_hostPath parent) name = path"
    "isPathSafe env (fs_hostPath d) path (fs_world d)" "fe_Lstat env path (fs_world d) = Some info"
    "fs_pathToNode d path = None" "fs_inodes d (fs_nextNodeID d) = None" "Suc k < 2 ^ 63"
  shows "with_node d (fs_nextNodeID d) path (inf_Kind info = KindDir) (int (Suc k)) (requests env (lookup_request node name) (Suc k) d)"
  using assms(9)
proof (induction k)
  case 0
  have new: "fs_nextNodeID d \<noteq> node" using assms(3,8) by auto
  show ?case using assms(7) new
      lookup_run [OF assms(1-6), of _ "fs_nextNodeID d"]
    by (simp add: getOrCreateInode_def put_inode_def fuse_run with_node_def)
next
  case (Suc k)
  let ?n = "fs_nextNodeID d" and ?d = "requests env (lookup_request node name) (Suc k) d"
  have new: "?n \<noteq> node" using assms(3,8) by auto
  have was: "with_node d ?n path (inf_Kind info = KindDir) (int (Suc k)) ?d" using Suc by simp
  define rc where "rc = int64 (int (Suc k) + 1)"
  have rc: "rc = int (Suc (Suc k))" unfolding rc_def by (subst int64_id) (use Suc.prems in simp_all)
  let ?d' = "?d\<lparr>fs_opsCompleted := fs_opsCompleted ?d + 1,
      fs_inodes := (fs_inodes ?d)(?n \<mapsto> \<lparr>fi_hostPath = path, fi_nodeID = ?n, fi_isDir = (inf_Kind info = KindDir), fi_refCount = rc\<rparr>)\<rparr>"
  have "getOrCreateInode path (inf_Kind info = KindDir) (?d\<lparr>fs_opsCompleted := fs_opsCompleted ?d + 1\<rparr>) = (?d', Inr ?n)"
    using was by (simp add: getOrCreateInode_def put_inode_def fuse_run with_node_def rc_def del: requests.simps)
  then have "fs_ProcessRequest env (lookup_request node name) ?d = (?d', Inr (Some (encodeEntryOut 0 (entry_out ?n info))))"
    by (rule lookup_run [OF _ assms(2) _ assms(4), rotated 4])
      (use was assms(1,3,5,6) new in \<open>simp_all add: with_node_def del: requests.simps\<close>)
  then have "requests env (lookup_request node name) (Suc (Suc k)) d = ?d'" by simp
  then show ?case using was rc by (simp add: with_node_def del: requests.simps)
qed

text \<open>
  A path that is not in the table gets a node with its first lookup and the same node
  with every further one; the node goes away exactly when the guest forgets as many lookups
  as it made, and the tables of nodes and paths are then what they were before
  (VirtioFS.handleLookup, getOrCreateInode, handleForget).
\<close>
theorem fs_lookup_forget:
  assumes "fs_wf d" "fs_running d" "fs_inodes d 1 \<noteq> None" "plain_name name" "fs_inodes d node = Some parent"
    "Join (fi_hostPath parent) name = path" "isPathSafe env (fs_hostPath d) path (fs_world d)"
    "fe_Lstat env path (fs_world d) = Some info" "fs_pathToNode d path = None"
    and "d1 = requests env (lookup_request node name) (Suc k) d" "Suc k < 2 ^ 63" "m \<le> Suc k"
    and "d2 = fst (fs_ProcessRequest env (forget_request (fs_nextNodeID d) (of_nat m)) d1)"
  shows "fs_pathToNode d1 path = Some (fs_nextNodeID d) \<and>
    (if m = Suc k then fs_inodes d2 = fs_inodes d \<and> fs_pathToNode d2 = fs_pathToNode d
     else fs_inodes d2 = (fs_inodes d1)(fs_nextNodeID d \<mapsto>
         \<lparr>fi_hostPath = path, fi_nodeID = fs_nextNodeID d, fi_isDir = (inf_Kind info = KindDir), fi_refCount = int (Suc k - m)\<rparr>) \<and>
       fs_pathToNode d2 = fs_pathToNode d1)"
proof -
  let ?n = "fs_nextNodeID d"
  have fresh: "fs_inodes d ?n = None" using fs_wf_inode [OF assms(1), of ?n] by (cases "fs_inodes d ?n") auto
  have n1: "?n \<noteq> 1" using fresh assms(3) by auto
  have was: "with_node d ?n path (inf_Kind info = KindDir) (int (Suc k)) d1"
    unfolding assms(10) by (rule lookups_run [OF assms(2,4-9) fresh assms(11)])
  have small: "unat (of_nat m :: u64) = m" using assms(11,12) by (simp add: unat_of_nat)
  then have "sint (of_nat m :: u64) = int m" using sint_small [of "of_nat m"] assms(11,12) by simp
  moreover have "int64 (int (Suc k) - int m) = int (Suc k) - int m" using assms(11,12) by (simp add: int64_id)
  moreover have "(fs_inodes d)(?n := None) = fs_inodes d" "(fs_pathToNode d)(path := None) = fs_pathToNode d"
    using fresh assms(9) by (simp_all add: fun_upd_idem)
  ultimately show ?thesis
    using was assms(2,12) forget_run [of d1 ?n _ env "of_nat m", OF _ _ n1] unfolding assms(13)
    by (auto simp: with_node_def Let_def)
qed

subsection \<open>Instances\<close>

definition demo_info :: "file_kind \<Rightarrow> FileInfo" where
  "demo_info k = \<lparr>inf_Kind = k, inf_Perm = 420, inf_Size = 3, inf_Unix = 0, inf_Nanosecond = 0\<rparr>"

definition demo_host :: "(nat, unit) HostEnv" where
  "demo_host = \<lparr>fe_Getwd = (\<lambda>_. Some [47]), fe_Stat = (\<lambda>_ _. Some (demo_info KindDir)),
     fe_Lstat = (\<lambda>_ _. Some (demo_info KindOther)), fe_EvalSymlinks = (\<lambda>p _. Some p), fe_Readlink = (\<lambda>_ _. None),
     fe_ReadDir = (\<lambda>_ _. Some []), fe_Info = (\<lambda>_ _. None), fe_OpenFile = (\<lambda>_ _ _ w. (w, Some 0)),
     fe_FileStat = (\<lambda>_ _. None), fe_ReadAt = (\<lambda>_ _ _ _. ([], None)), fe_WriteAt = (\<lambda>_ d _ w. (w, length d, None)),
     fe_Close = (\<lambda>_ w. w), fe_Sync = (\<lambda>_ w. w), fe_Mkdir = (\<lambda>_ _ w. (w, None)), fe_Remove = (\<lambda>_ w. (w, None)),
     fe_Rename = (\<lambda>_ _ w. (w, None)), fe_Truncate = (\<lambda>_ _ w. (w, None)), fe_Chmod = (\<lambda>_ _ w. w)\<rparr>"

definition demo_opts :: VirtioFSOpts where
  "demo_opts = \<lparr>fso_DeviceID = ''fs-share'', fso_Tag = ''share'', fso_HostPath = [47, 115], fso_ReadOnly = True\<rparr>"

definition fs_demo_new :: "(nat, unit) VirtioFS" where
  "fs_demo_new = \<lparr>fs_deviceID = ''fs-share'', fs_tag = ''share'', fs_hostPath = [47, 115], fs_readOnly = True,
     fs_inodes = [1 \<mapsto> \<lparr>fi_hostPath = [47, 115], fi_nodeID = 1, fi_isDir = True, fi_refCount = 1\<rparr>],
     fs_pathToNode = [[47, 115] \<mapsto> 1], fs_nextNodeID = 2, fs_handles = [], fs_nextHandle = 1, fs_running = False,
     fs_stopClosed = False, fs_opsCompleted = 0, fs_bytesRead = 0, fs_bytesWritten = 0, fs_world = ()\<rparr>"

definition demo_entries :: "DirEntry list" where
  "demo_entries = [\<lparr>de_Name = [97], de_Kind = KindOther\<rparr>, \<lparr>de_Name = [98, 98], de_Kind = KindDir\<rparr>]"

definition demo_listing :: "(nat, unit) VirtioFS" where
  "demo_listing = fs_demo_new\<lparr>fs_running := True, fs_handles := [(1, \<lparr>fh_node = 1, fh_file = None, fh_isDir = True, fh_dirEnts = demo_entries\<rparr>)]\<rparr>"

lemma fs_demo_new: "NewVirtioFS demo_host demo_opts () = Inr fs_demo_new"
proof -
  have "Abs demo_host [47, 115] () = Some [47, 115]" by code_simp
  then show ?thesis by (simp add: NewVirtioFS_def demo_opts_def fs_demo_new_def demo_host_def demo_info_def)
qed

lemma fs_read_only_witness:
  "fs_ProcessRequest (changes_elsewhere demo_host demo_host) (fuse_request FuseOpMkdir 1 (replicate 8 0 @ [97, 0])) (fs_demo_new\<lparr>fs_running := True\<rparr>) =
   fs_ProcessRequest demo_host (fuse_request FuseOpMkdir 1 (replicate 8 0 @ [97, 0])) (fs_demo_new\<lparr>fs_running := True\<rparr>)"
  by (rule fs_read_only) (simp add: fs_demo_new_def)

lemma demo_reach: "fs_reach demo_host fs_demo_new (fs_demo_new\<lparr>fs_running := True\<rparr>)"
proof (rule started [OF created])
  show "fs_Start fs_demo_new = (fs_demo_new\<lparr>fs_running := True\<rparr>, Inr ())"
    by (simp add: fs_Start_def fuse_run modify_def fs_demo_new_def)
qed

lemma fs_panics_witness:
  "\<exists>d' r. fs_ProcessRequest demo_host (fuse_request FuseOpStatfs 1 []) (fs_demo_new\<lparr>fs_running := True\<rparr>) = (d', r) \<and> r \<noteq> Inl FsPanic"
proof -
  let ?d = "fs_demo_new\<lparr>fs_running := True\<rparr>" and ?req = "fuse_request FuseOpStatfs 1 []"
  obtain d' r where run: "fs_ProcessRequest demo_host ?req ?d = (d', r)" by (cases "fs_ProcessRequest demo_host ?req ?d")
  have "fs_room ?d" by (simp add: fs_room_def node_room_def fs_demo_new_def)
  moreover have "\<not> negative_offset ?d ?req" by (simp add: negative_offset_def fuse_request_parts Let_def)
  ultimately show ?thesis using fs_panics [OF fs_demo_new demo_reach _ run] run by blast
qed

lemma fs_list_directory_witness:
  "list_directory demo_host 1 1 32 3 0 demo_listing = Some [(8, [97]), (4, [98, 98])]"
proof -
  let ?fh = "\<lparr>fh_node = 1, fh_file = None, fh_isDir = True, fh_dirEnts = demo_entries\<rparr> :: nat fsFileHandle"
  have state: "fs_running demo_listing" "map_of (fs_handles demo_listing) 1 = Some ?fh" "fh_isDir ?fh" "length (fh_dirEnts ?fh) < 2 ^ 63"
    "\<forall>e \<in> set (fh_dirEnts ?fh). length (de_Name e) < 2 ^ 32 \<and> dirent_size e \<le> unat (32 :: u32)"
    by (simp_all add: demo_listing_def demo_entries_def dirent_size_def)
  have "length (fh_dirEnts ?fh) + 1 = 3"
    "map (\<lambda>e. (fuseFileType (de_Kind e), de_Name e)) (fh_dirEnts ?fh) = [(8, [97]), (4, [98, 98])]"
    by (simp_all add: demo_entries_def fuseFileType_def)
  then show ?thesis using fs_list_directory [OF state, of demo_host 1] by (simp only:)
qed

lemma fs_lookup_forget_witness:
  "fs_inodes (fst (fs_ProcessRequest demo_host (forget_request 2 3)
     (requests demo_host (lookup_request 1 [97]) 3 (fs_demo_new\<lparr>fs_running := True\<rparr>)))) = fs_inodes fs_demo_new"
proof -
  let ?d = "fs_demo_new\<lparr>fs_running := True\<rparr>"
  have wf: "fs_wf ?d" using new_fs_wf [OF fs_demo_new] fs_wf_cong [of ?d fs_demo_new] by simp
  have path: "Join (fi_hostPath \<lparr>fi_hostPath = [47, 115], fi_nodeID = 1, fi_isDir = True, fi_refCount = 1\<rparr>) [97] = [47, 115, 47, 97]"
    by code_simp
  have "isPathSafe demo_host [47, 115] [47, 115, 47, 97] ()" by code_simp
  then have safe: "isPathSafe demo_host (fs_hostPath ?d) [47, 115, 47, 97] (fs_world ?d)" by (simp add: fs_demo_new_def)
  have state: "fs_running ?d" "fs_inodes ?d 1 \<noteq> None" "plain_name [97]" "fs_pathToNode ?d [47, 115, 47, 97] = None"
    "fs_inodes ?d 1 = Some \<lparr>fi_hostPath = [47, 115], fi_nodeID = 1, fi_isDir = True, fi_refCount = 1\<rparr>"
    by (simp_all add: fs_demo_new_def plain_name_def)
  have info: "fe_Lstat demo_host [47, 115, 47, 97] (fs_world ?d) = Some (demo_info KindOther)" by (simp add: demo_host_def)
  have node: "fs_nextNodeID ?d = 2" by (simp add: fs_demo_new_def)
  have k: "Suc 2 < 2 ^ 63" "3 \<le> Suc 2" by simp_all
  have three: "Suc 2 = 3" "(of_nat 3 :: u64) = 3" by simp_all
  have "fs_inodes (fst (fs_ProcessRequest demo_host (forget_request 2 3) (requests demo_host (lookup_request 1 [97]) 3 ?d))) = fs_inodes ?d"
    using fs_lookup_forget [OF wf state(1,2,3,5) path safe info state(4) refl k refl] unfolding node three by (simp only: simp_thms if_True)
  then show ?thesis by (simp del: requests.simps)
qed

end
