(* ===== verification/MemRepo.thy ===== *)
theory MemRepo
  imports GoUtf8 Effects
begin

text \<open>
  Memories of the memory server (\<^verbatim>\<open>internal/domain/types.go\<close>) and their table in TiDB
  (\<^verbatim>\<open>internal/repository/tidb/memory.go\<close>). The table is the list of its rows in the order in
  which they were inserted; each statement of the code is the function of the rows that its
  SQL text says. What the database adds to that is a parameter: whether a statement is
  carried out and answered, carried out without an answer, or refused; the time; which of
  the matching rows a search returns, in which order and with which score. Floating point
  numbers are a parameter too, with the operations the code uses; \<open>fl_lit m e\<close> is the
  literal \<open>m / 10 ^ e\<close>. With an auto model the database computes the embedding column itself.
\<close>

definition TypePinned :: string where "TypePinned = ''pinned''"
definition TypeInsight :: string where "TypeInsight = ''insight''"
definition TypeSession :: string where "TypeSession = ''session''"
definition StateActive :: string where "StateActive = ''active''"
definition StatePaused :: string where "StatePaused = ''paused''"
definition StateArchived :: string where "StateArchived = ''archived''"
definition StateDeleted :: string where "StateDeleted = ''deleted''"

lemmas memory_types = TypePinned_def TypeInsight_def TypeSession_def
lemmas memory_states = StateActive_def StatePaused_def StateArchived_def StateDeleted_def

record 'f Memory =
  mm_ID :: string
  mm_Content :: string
  mm_MemoryType :: string
  mm_Source :: string
  mm_Tags :: "string list"
  mm_Metadata :: string
  mm_Embedding :: "32 word list"
  mm_AgentID :: string
  mm_SessionID :: string
  mm_UpdatedBy :: string
  mm_SupersededBy :: string
  mm_State :: string
  mm_Version :: int
  mm_CreatedAt :: int
  mm_UpdatedAt :: int
  mm_Score :: "'f option"
  mm_RelativeAge :: string

record 'f MemoryFilter =
  mf_Query :: string
  mf_Tags :: "string list"
  mf_Source :: string
  mf_State :: string
  mf_MemoryType :: string
  mf_AgentID :: string
  mf_SessionID :: string
  mf_Limit :: int
  mf_Offset :: int
  mf_MinScore :: 'f

text \<open>A row of the table \<^verbatim>\<open>memories\<close>; \<open>None\<close> is NULL.\<close>

record Row =
  r_id :: string
  r_content :: string
  r_source :: "string option"
  r_tags :: string
  r_metadata :: "string option"
  r_embedding :: "32 word list option"
  r_type :: string
  r_agent :: "string option"
  r_session :: "string option"
  r_state :: string
  r_version :: int
  r_updated_by :: "string option"
  r_created :: int
  r_updated :: int
  r_superseded :: "string option"

record 'w MemDB =
  db_rows :: "Row list"
  db_world :: 'w

datatype Outcome = Answered | Unanswered | Refused

datatype Sql = SqlInsert "Row list" | SqlUpdate string | SqlSelect string | SqlBegin | SqlCommit

datatype SearchQuery =
    VectorQ "32 word list"
  | AutoVectorQ string
  | KeywordQ string
  | FTSQ string
  | RecentQ

record 'f Float64 =
  fl_lit :: "int \<Rightarrow> nat \<Rightarrow> 'f"
  fl_add :: "'f \<Rightarrow> 'f \<Rightarrow> 'f"
  fl_sub :: "'f \<Rightarrow> 'f \<Rightarrow> 'f"
  fl_mul :: "'f \<Rightarrow> 'f \<Rightarrow> 'f"
  fl_div :: "'f \<Rightarrow> 'f \<Rightarrow> 'f"
  fl_lt :: "'f \<Rightarrow> 'f \<Rightarrow> bool"
  fl_le :: "'f \<Rightarrow> 'f \<Rightarrow> bool"

record ('w, 'f) RepoEnv =
  re_autoModel :: string
  re_FTS :: bool
  re_Statement :: "Sql \<Rightarrow> 'w \<Rightarrow> 'w \<times> Outcome"
  re_Now :: "'w \<Rightarrow> int"
  re_Search :: "SearchQuery \<Rightarrow> Row list \<Rightarrow> nat \<Rightarrow> 'w \<Rightarrow> 'w \<times> (nat \<times> 'f) list option"
  re_Like :: "string \<Rightarrow> string \<Rightarrow> bool"
  re_FtsMatch :: "string \<Rightarrow> string \<Rightarrow> bool"
  re_HasTag :: "string \<Rightarrow> string \<Rightarrow> bool"
  re_TagsJSON :: "string list \<Rightarrow> string"
  re_Generated :: "string \<Rightarrow> 32 word list option"
  re_TagsParse :: "string \<Rightarrow> string list"
  re_Float :: "'f Float64"

datatype mem_error =
    MemNotFound
  | MemDuplicate
  | MemDB
  | MemSearch
  | MemInvalid string string
  | MemEmbed
  | MemLLM
  | MemOutage nat
  | MemFailed
  | MemPanic

type_synonym ('w, 'a) rop = "('w MemDB, mem_error, 'a) op"

subsection \<open>Rows\<close>

definition nullString :: "string \<Rightarrow> string option" where
  "nullString s = (if s = '''' then None else Some s)"

definition stringOf :: "string option \<Rightarrow> string" where
  "stringOf x = (case x of None \<Rightarrow> '''' | Some s \<Rightarrow> s)"

definition nullJSON :: "string \<Rightarrow> string option" where
  "nullJSON d = (if d = '''' \<or> d = ''null'' then None else Some d)"

definition unmarshalRawJSON :: "string option \<Rightarrow> string" where
  "unmarshalRawJSON d = (case d of None \<Rightarrow> '''' | Some x \<Rightarrow> if x = ''null'' then '''' else x)"

definition marshalTags :: "('w, 'f, 'x) RepoEnv_scheme \<Rightarrow> string list \<Rightarrow> string" where
  "marshalTags env tags = (if tags = [] then ''[]'' else re_TagsJSON env tags)"

definition unmarshalTags :: "('w, 'f, 'x) RepoEnv_scheme \<Rightarrow> string \<Rightarrow> string list" where
  "unmarshalTags env d = (if d = '''' then [] else re_TagsParse env d)"

definition vecColumn :: "32 word list \<Rightarrow> 32 word list option" where
  "vecColumn v = (if v = [] then None else Some v)"

definition type_or_pinned :: "string \<Rightarrow> string" where
  "type_or_pinned t = (if t = '''' then TypePinned else t)"

definition scanMemory :: "('w, 'f, 'x) RepoEnv_scheme \<Rightarrow> Row \<Rightarrow> 'f Memory" where
  "scanMemory env r = \<lparr>
     mm_ID = r_id r, mm_Content = r_content r, mm_MemoryType = type_or_pinned (r_type r),
     mm_Source = stringOf (r_source r), mm_Tags = unmarshalTags env (r_tags r),
     mm_Metadata = unmarshalRawJSON (r_metadata r), mm_Embedding = [],
     mm_AgentID = stringOf (r_agent r), mm_SessionID = stringOf (r_session r),
     mm_UpdatedBy = stringOf (r_updated_by r), mm_SupersededBy = stringOf (r_superseded r),
     mm_State = (if r_state r = '''' then StateActive else r_state r), mm_Version = r_version r,
     mm_CreatedAt = r_created r, mm_UpdatedAt = r_updated r, mm_Score = None, mm_RelativeAge = ''''\<rparr>"

text \<open>The row an INSERT of the code makes, with \<^verbatim>\<open>NOW()\<close> as its two times.\<close>

definition new_row :: "('w, 'f, 'x) RepoEnv_scheme \<Rightarrow> int \<Rightarrow> 'f Memory \<Rightarrow> Row" where
  "new_row env now m = \<lparr>
     r_id = mm_ID m, r_content = mm_Content m, r_source = nullString (mm_Source m),
     r_tags = marshalTags env (mm_Tags m), r_metadata = nullJSON (mm_Metadata m),
     r_embedding = (if re_autoModel env \<noteq> '''' then re_Generated env (mm_Content m) else vecColumn (mm_Embedding m)),
     r_type = type_or_pinned (mm_MemoryType m), r_agent = nullString (mm_AgentID m),
     r_session = nullString (mm_SessionID m), r_state = StateActive, r_version = mm_Version m,
     r_updated_by = nullString (mm_UpdatedBy m), r_created = now, r_updated = now, r_superseded = None\<rparr>"

subsection \<open>Statements\<close>

text \<open>The primary key: an INSERT of an identifier that is there is an error.\<close>

definition insert_rows :: "Row list \<Rightarrow> Row list \<Rightarrow> (Row list \<times> nat) option" where
  "insert_rows new rows =
     (if distinct (map r_id new) \<and> (\<forall>r \<in> set new. r_id r \<notin> r_id ` set rows)
      then Some (rows @ new, length new) else None)"

definition update_rows :: "(Row \<Rightarrow> bool) \<Rightarrow> (Row \<Rightarrow> Row) \<Rightarrow> Row list \<Rightarrow> (Row list \<times> nat) option" where
  "update_rows P f rows = Some (map (\<lambda>r. if P r then f r else r) rows, length (filter P rows))"

definition exec :: "('w, 'f, 'x) RepoEnv_scheme \<Rightarrow> (int \<Rightarrow> Sql) \<Rightarrow> (int \<Rightarrow> Row list \<Rightarrow> (Row list \<times> nat) option) \<Rightarrow> ('w, nat) rop" where
  "exec env sql f = (\<lambda>s.
     let now = re_Now env (db_world s);
         (w, out) = re_Statement env (sql now) (db_world s);
         s' = s\<lparr>db_world := w\<rparr>
     in case f now (db_rows s) of
          None \<Rightarrow> (s', Inl (if out = Answered then MemDuplicate else MemDB))
        | Some (rows, n) \<Rightarrow>
            (case out of
               Answered \<Rightarrow> (s'\<lparr>db_rows := rows\<rparr>, Inr n)
             | Unanswered \<Rightarrow> (s'\<lparr>db_rows := rows\<rparr>, Inl MemDB)
             | Refused \<Rightarrow> (s', Inl MemDB)))"

definition query :: "('w, 'f, 'x) RepoEnv_scheme \<Rightarrow> string \<Rightarrow> (Row list \<Rightarrow> 'a) \<Rightarrow> ('w, 'a) rop" where
  "query env mid f = (\<lambda>s.
     case re_Statement env (SqlSelect mid) (db_world s) of
       (w, Answered) \<Rightarrow> (s\<lparr>db_world := w\<rparr>, Inr (f (db_rows s)))
     | (w, _) \<Rightarrow> (s\<lparr>db_world := w\<rparr>, Inl MemDB))"

text \<open>
  A transaction: the body says whether to commit. An error, or a return without a commit,
  rolls back; a commit that is carried out but not answered is an error with the new rows.
\<close>

definition in_tx :: "('w, 'f, 'x) RepoEnv_scheme \<Rightarrow> ('w, bool) rop \<Rightarrow> ('w, unit) rop" where
  "in_tx env body = (\<lambda>s.
     case re_Statement env SqlBegin (db_world s) of
       (w, Answered) \<Rightarrow>
         (case body (s\<lparr>db_world := w\<rparr>) of
            (s', Inl e) \<Rightarrow> (s'\<lparr>db_rows := db_rows s\<rparr>, Inl e)
          | (s', Inr False) \<Rightarrow> (s'\<lparr>db_rows := db_rows s\<rparr>, Inr ())
          | (s', Inr True) \<Rightarrow>
              (case re_Statement env SqlCommit (db_world s') of
                 (w', Answered) \<Rightarrow> (s'\<lparr>db_world := w'\<rparr>, Inr ())
               | (w', Unanswered) \<Rightarrow> (s'\<lparr>db_world := w'\<rparr>, Inl MemDB)
               | (w', Refused) \<Rightarrow> (s'\<lparr>db_world := w', db_rows := db_rows s\<rparr>, Inl MemDB)))
     | (w, _) \<Rightarrow> (s\<lparr>db_world := w\<rparr>, Inl MemDB))"

subsection \<open>Operations\<close>

definition insert_memory :: "('w, 'f, 'x) RepoEnv_scheme \<Rightarrow> 'f Memory \<Rightarrow> ('w, nat) rop" where
  "insert_memory env m =
     exec env (\<lambda>now. SqlInsert [new_row env now m]) (\<lambda>now. insert_rows [new_row env now m])"

definition repo_Create :: "('w, 'f, 'x) RepoEnv_scheme \<Rightarrow> 'f Memory \<Rightarrow> ('w, unit) rop" where
  "repo_Create env m = bind (insert_memory env m) (\<lambda>_. return ())"

definition repo_GetByID :: "('w, 'f, 'x) RepoEnv_scheme \<Rightarrow> string \<Rightarrow> ('w, 'f Memory) rop" where
  "repo_GetByID env mid =
     bind (query env mid (List.find (\<lambda>r. r_id r = mid \<and> r_state r = StateActive))) (\<lambda>row.
     case row of None \<Rightarrow> throw MemNotFound | Some r \<Rightarrow> return (scanMemory env r))"

definition repo_UpdateOptimistic :: "('w, 'f, 'x) RepoEnv_scheme \<Rightarrow> 'f Memory \<Rightarrow> int \<Rightarrow> ('w, unit) rop" where
  "repo_UpdateOptimistic env m expectedVersion =
     bind (exec env (\<lambda>_. SqlUpdate (mm_ID m)) (\<lambda>now. update_rows
       (\<lambda>r. r_id r = mm_ID m \<and> (expectedVersion > 0 \<longrightarrow> r_version r = expectedVersion))
       (\<lambda>r. r\<lparr>r_content := mm_Content m, r_tags := marshalTags env (mm_Tags m),
              r_metadata := nullJSON (mm_Metadata m),
              r_embedding := (if re_autoModel env \<noteq> '''' then re_Generated env (mm_Content m) else vecColumn (mm_Embedding m)),
              r_version := r_version r + 1, r_updated_by := nullString (mm_UpdatedBy m), r_updated := now\<rparr>)))
       (\<lambda>n. failIf (n = 0) MemNotFound)"

definition repo_SoftDelete :: "('w, 'f, 'x) RepoEnv_scheme \<Rightarrow> string \<Rightarrow> ('w, unit) rop" where
  "repo_SoftDelete env mid = in_tx env
     (bind (query env mid (List.find (\<lambda>r. r_id r = mid))) (\<lambda>row.
      case row of
        None \<Rightarrow> throw MemNotFound
      | Some r \<Rightarrow>
          if r_state r = StateDeleted then return False
          else bind (exec env (\<lambda>_. SqlUpdate mid) (\<lambda>now. update_rows (\<lambda>r. r_id r = mid)
                 (\<lambda>r. r\<lparr>r_state := StateDeleted, r_updated := now\<rparr>))) (\<lambda>_. return True)))"

definition archive_row :: "('w, 'f, 'x) RepoEnv_scheme \<Rightarrow> string \<Rightarrow> string \<Rightarrow> ('w, unit) rop" where
  "archive_row env mid supersededBy =
     bind (exec env (\<lambda>_. SqlUpdate mid) (\<lambda>now. update_rows (\<lambda>r. r_id r = mid \<and> r_state r = StateActive)
       (\<lambda>r. r\<lparr>r_state := StateArchived, r_superseded := Some supersededBy, r_updated := now\<rparr>)))
       (\<lambda>n. failIf (n = 0) MemNotFound)"

definition repo_ArchiveMemory :: "('w, 'f, 'x) RepoEnv_scheme \<Rightarrow> string \<Rightarrow> string \<Rightarrow> ('w, unit) rop" where
  "repo_ArchiveMemory env mid supersededBy = archive_row env mid supersededBy"

definition repo_ArchiveAndCreate :: "('w, 'f, 'x) RepoEnv_scheme \<Rightarrow> string \<Rightarrow> string \<Rightarrow> 'f Memory \<Rightarrow> ('w, unit) rop" where
  "repo_ArchiveAndCreate env archiveID supersededBy newMem = in_tx env
     (seq (archive_row env archiveID supersededBy)
      (bind (insert_memory env newMem) (\<lambda>_. return True)))"

definition repo_SetState :: "('w, 'f, 'x) RepoEnv_scheme \<Rightarrow> string \<Rightarrow> string \<Rightarrow> ('w, unit) rop" where
  "repo_SetState env mid st =
     bind (exec env (\<lambda>_. SqlUpdate mid) (\<lambda>now. update_rows (\<lambda>r. r_id r = mid \<and> r_state r = StateActive)
       (\<lambda>r. r\<lparr>r_state := st, r_updated := now\<rparr>)))
       (\<lambda>n. failIf (n = 0) MemNotFound)"

definition bulkBatchSize :: nat where "bulkBatchSize = 50"

definition bulkInsertBatch :: "('w, 'f, 'x) RepoEnv_scheme \<Rightarrow> 'f Memory list \<Rightarrow> ('w, unit) rop" where
  "bulkInsertBatch env batch =
     bind (exec env (\<lambda>now. SqlInsert (map (new_row env now) batch))
            (\<lambda>now. insert_rows (map (new_row env now) batch))) (\<lambda>_. return ())"

function batches :: "nat \<Rightarrow> 'a list \<Rightarrow> 'a list list" where
  "batches n xs = (if xs = [] \<or> n = 0 then [] else take n xs # batches n (drop n xs))"
  by pat_completeness auto
termination by (relation "measure (length \<circ> snd)") (auto simp: length_greater_0_conv[symmetric] simp del: length_greater_0_conv)

declare batches.simps [simp del]

definition repo_BulkCreate :: "('w, 'f, 'x) RepoEnv_scheme \<Rightarrow> 'f Memory list \<Rightarrow> ('w, unit) rop" where
  "repo_BulkCreate env ms =
     (if ms = [] then return ()
      else in_tx env (seq (forEach (bulkInsertBatch env) (batches bulkBatchSize ms)) (return True)))"

subsection \<open>Searches\<close>

fun split_on :: "char \<Rightarrow> string \<Rightarrow> string list" where
  "split_on c [] = [[]]"
| "split_on c (x # xs) =
     (if x = c then [] # split_on c xs
      else (case split_on c xs of [] \<Rightarrow> [[x]] | y # ys \<Rightarrow> (x # y) # ys))"

definition buildFilterConds :: "('w, 'f, 'x) RepoEnv_scheme \<Rightarrow> 'f MemoryFilter \<Rightarrow> Row \<Rightarrow> bool" where
  "buildFilterConds env f r \<longleftrightarrow>
     (if mf_State f = ''all'' then True
      else if mf_State f \<noteq> '''' then r_state r = mf_State f
      else r_state r = StateActive) \<and>
     (mf_MemoryType f \<noteq> '''' \<longrightarrow>
        (let types = split_on (CHR '','') (mf_MemoryType f)
         in if length types = 1 then r_type r = hd types
            else List.member (map trim_space types) (r_type r))) \<and>
     (mf_AgentID f \<noteq> '''' \<longrightarrow> r_agent r = Some (mf_AgentID f)) \<and>
     (mf_SessionID f \<noteq> '''' \<longrightarrow> r_session r = Some (mf_SessionID f)) \<and>
     (mf_Source f \<noteq> '''' \<longrightarrow> r_source r = Some (mf_Source f)) \<and>
     list_all (re_HasTag env (r_tags r)) (mf_Tags f)"

definition buildWhere :: "('w, 'f, 'x) RepoEnv_scheme \<Rightarrow> 'f MemoryFilter \<Rightarrow> Row \<Rightarrow> bool" where
  "buildWhere env f r \<longleftrightarrow>
     buildFilterConds env f r \<and> (mf_Query f \<noteq> '''' \<longrightarrow> re_Like env (mf_Query f) (r_content r))"

text \<open>The rows a SELECT returns: some of the matching ones, none twice, up to its limit.\<close>

fun distinct_keys :: "nat list \<Rightarrow> (nat \<times> 'f) list \<Rightarrow> (nat \<times> 'f) list" where
  "distinct_keys seen [] = []"
| "distinct_keys seen ((i, x) # ys) =
     (if List.member seen i then distinct_keys seen ys else (i, x) # distinct_keys (i # seen) ys)"

definition picked :: "Row list \<Rightarrow> (nat \<times> 'f) list \<Rightarrow> nat \<Rightarrow> (Row \<times> 'f) list" where
  "picked matched sel limit =
     take limit (map (\<lambda>(i, x). (matched ! i, x))
       (filter (\<lambda>(i, x). i < length matched) (distinct_keys [] sel)))"

definition search_rows ::
  "('w, 'f, 'x) RepoEnv_scheme \<Rightarrow> SearchQuery \<Rightarrow> (Row \<Rightarrow> bool) \<Rightarrow> int \<Rightarrow> ('w, (Row \<times> 'f) list) rop" where
  "search_rows env q P limit = (\<lambda>s.
     let matched = filter P (db_rows s) in
     case re_Search env q matched (nat limit) (db_world s) of
       (w, None) \<Rightarrow> (s\<lparr>db_world := w\<rparr>, Inl MemSearch)
     | (w, Some sel) \<Rightarrow> (s\<lparr>db_world := w\<rparr>, Inr (picked matched sel (nat limit))))"

definition scanMemoryRowsWithDistance :: "('w, 'f, 'x) RepoEnv_scheme \<Rightarrow> Row \<times> 'f \<Rightarrow> 'f Memory" where
  "scanMemoryRowsWithDistance env rx =
     (scanMemory env (fst rx))\<lparr>mm_Score := Some (fl_sub (re_Float env) (fl_lit (re_Float env) 1 0) (snd rx))\<rparr>"

definition scanMemoryRowsWithFTSScore :: "('w, 'f, 'x) RepoEnv_scheme \<Rightarrow> Row \<times> 'f \<Rightarrow> 'f Memory" where
  "scanMemoryRowsWithFTSScore env rx = (scanMemory env (fst rx))\<lparr>mm_Score := Some (snd rx)\<rparr>"

definition scanMemoryRows :: "('w, 'f, 'x) RepoEnv_scheme \<Rightarrow> Row \<times> 'f \<Rightarrow> 'f Memory" where
  "scanMemoryRows env rx = scanMemory env (fst rx)"

definition repo_VectorSearch ::
  "('w, 'f, 'x) RepoEnv_scheme \<Rightarrow> 32 word list \<Rightarrow> 'f MemoryFilter \<Rightarrow> int \<Rightarrow> ('w, 'f Memory list) rop" where
  "repo_VectorSearch env queryVec f limit =
     (if vecColumn queryVec = None then return []
      else bind (search_rows env (VectorQ queryVec)
             (\<lambda>r. buildFilterConds env f r \<and> r_embedding r \<noteq> None) limit) (\<lambda>rows.
           return (map (scanMemoryRowsWithDistance env) rows)))"

definition repo_AutoVectorSearch ::
  "('w, 'f, 'x) RepoEnv_scheme \<Rightarrow> string \<Rightarrow> 'f MemoryFilter \<Rightarrow> int \<Rightarrow> ('w, 'f Memory list) rop" where
  "repo_AutoVectorSearch env queryText f limit =
     bind (search_rows env (AutoVectorQ queryText)
       (\<lambda>r. buildFilterConds env f r \<and> r_embedding r \<noteq> None) limit) (\<lambda>rows.
     return (map (scanMemoryRowsWithDistance env) rows))"

definition repo_KeywordSearch ::
  "('w, 'f, 'x) RepoEnv_scheme \<Rightarrow> string \<Rightarrow> 'f MemoryFilter \<Rightarrow> int \<Rightarrow> ('w, 'f Memory list) rop" where
  "repo_KeywordSearch env q f limit =
     bind (search_rows env (KeywordQ q)
       (\<lambda>r. buildFilterConds env f r \<and> (q \<noteq> '''' \<longrightarrow> re_Like env q (r_content r))) limit) (\<lambda>rows.
     return (map (scanMemoryRows env) rows))"

definition repo_FTSSearch ::
  "('w, 'f, 'x) RepoEnv_scheme \<Rightarrow> string \<Rightarrow> 'f MemoryFilter \<Rightarrow> int \<Rightarrow> ('w, 'f Memory list) rop" where
  "repo_FTSSearch env q f limit =
     bind (search_rows env (FTSQ q)
       (\<lambda>r. buildFilterConds env f r \<and> re_FtsMatch env q (r_content r)) limit) (\<lambda>rows.
     return (map (scanMemoryRowsWithFTSScore env) rows))"

definition repo_List :: "('w, 'f, 'x) RepoEnv_scheme \<Rightarrow> 'f MemoryFilter \<Rightarrow> ('w, 'f Memory list \<times> int) rop" where
  "repo_List env f =
     bind (query env '''' (\<lambda>rows. int (length (filter (buildWhere env f) rows)))) (\<lambda>total.
     let limit = (if mf_Limit f \<le> 0 \<or> mf_Limit f > 200 then 50 else mf_Limit f);
         offset = (if mf_Offset f < 0 then 0 else mf_Offset f) in
     bind (search_rows env RecentQ (buildWhere env f) (limit + offset)) (\<lambda>rows.
     return (map (scanMemoryRows env) (drop (nat offset) rows), total)))"

definition repo_Count :: "('w, 'f, 'x) RepoEnv_scheme \<Rightarrow> ('w, int) rop" where
  "repo_Count env = query env '''' (\<lambda>rows. int (length (filter (\<lambda>r. r_state r = StateActive) rows)))"

definition repo_ListBootstrap :: "('w, 'f, 'x) RepoEnv_scheme \<Rightarrow> int \<Rightarrow> ('w, 'f Memory list) rop" where
  "repo_ListBootstrap env n =
     (let limit = (if n \<le> 0 \<or> n > 100 then 20 else n) in
      bind (search_rows env RecentQ (\<lambda>r. r_state r = StateActive) limit) (\<lambda>rows.
      return (map (scanMemoryRows env) rows)))"

text \<open>The query text inside a SQL literal, and how the database reads such a literal back.\<close>

definition ftsSafeLiteral :: "string \<Rightarrow> string" where
  "ftsSafeLiteral s =
     concat (map (\<lambda>c. if c = CHR 0x27 then [CHR 0x27, CHR 0x27] else [c])
       (concat (map (\<lambda>c. if c = CHR 0x5C then [CHR 0x5C, CHR 0x5C] else [c]) s)))"

end
