(* ===== verification/MemIngest.thy ===== *)
theory MemIngest
  imports MemRepo
begin

text \<open>
  The ingest pipeline of the memory server (\<^verbatim>\<open>internal/service/ingest.go\<close>): facts are
  extracted from a conversation by a language model and reconciled with the memories in the
  table. The language model, the embedding service, the clock and the source of UUIDs are
  parameters. The text of the prompts is not modelled; a prompt is a value that holds what
  the code puts into it beside the date. The client of the embedding service
  (\<^verbatim>\<open>internal/embed\<close>) refuses every vector that does not have the configured positive length,
  so the empty vector is the code's nil.
\<close>

definition ModeSmart :: string where "ModeSmart = ''smart''"
definition ModeRaw :: string where "ModeRaw = ''raw''"

record IngestMessage =
  im_Role :: string
  im_Content :: string

record IngestRequest =
  iq_Messages :: "IngestMessage list"
  iq_SessionID :: string
  iq_AgentID :: string
  iq_Mode :: string

record IngestResult =
  ir_Status :: string
  ir_MemoriesChanged :: int
  ir_InsightIDs :: "string list"
  ir_Warnings :: int

record Phase1Result =
  p1_Facts :: "string list"
  p1_MessageTags :: "string list list"

record reconcileEvent =
  ev_ID :: string
  ev_Text :: string
  ev_Event :: string

datatype Prompt =
    PromptFacts string
  | PromptFactsAndTags string
  | PromptReconcile "(nat \<times> string \<times> string) list" "string list"

datatype llm_error = HTTPStatusError int | LLMError

record ('w, 'f) MemEnv = "('w, 'f) RepoEnv" +
  me_LLM :: bool
  me_Mode :: string
  me_complete :: "Prompt \<Rightarrow> bool \<Rightarrow> bool \<Rightarrow> 'w \<Rightarrow> 'w \<times> (llm_error + string)"
  me_ParseFacts :: "string \<Rightarrow> string list option"
  me_ParseFactsAndTags :: "string \<Rightarrow> (string list \<times> string list option list) option"
  me_ParseEvents :: "string \<Rightarrow> reconcileEvent list option"
  me_Embedder :: bool
  me_Embed :: "string \<Rightarrow> 'w \<Rightarrow> 'w \<times> 32 word list option"
  me_EmbedBatch :: "string list \<Rightarrow> 'w \<Rightarrow> 'w \<times> 32 word list list option"
  me_UUID :: "'w \<Rightarrow> 'w \<times> string"
  me_Time :: "'w \<Rightarrow> int"
  me_UpperRune :: "string \<Rightarrow> string"
  me_formatAge :: "int \<Rightarrow> string"

definition ask :: "('w \<Rightarrow> 'w \<times> 'a) \<Rightarrow> ('w, 'a) rop" where
  "ask f = (\<lambda>s. case f (db_world s) of (w, x) \<Rightarrow> (s\<lparr>db_world := w\<rparr>, Inr x))"

definition time_now :: "('w, 'f, 'x) MemEnv_scheme \<Rightarrow> ('w, int) rop" where
  "time_now env = reads (\<lambda>s. me_Time env (db_world s))"

subsection \<open>Text\<close>

definition open_tag :: string where "open_tag = ''<relevant-memories>''"
definition close_tag :: string where "close_tag = ''</relevant-memories>''"

text \<open>The loop of stripMemoryTags; \<open>None\<close> if it does not end.\<close>

partial_function (option) stripMemoryTags :: "string \<Rightarrow> string option" where
  "stripMemoryTags s =
     (case Index s open_tag of
        None \<Rightarrow> Some s
      | Some start \<Rightarrow>
          (case Index s close_tag of
             None \<Rightarrow> Some (take start s)
           | Some fin \<Rightarrow> stripMemoryTags (take start s @ drop (fin + length close_tag) s)))"

fun stripInjectedContext :: "IngestMessage list \<Rightarrow> IngestMessage list option" where
  "stripInjectedContext [] = Some []"
| "stripInjectedContext (msg # msgs) =
     (case stripMemoryTags (im_Content msg) of
        None \<Rightarrow> None
      | Some text \<Rightarrow>
          (case stripInjectedContext msgs of
             None \<Rightarrow> None
           | Some rest \<Rightarrow>
               (let cleaned = trim_space text in
                Some (if cleaned \<noteq> '''' then \<lparr>im_Role = im_Role msg, im_Content = cleaned\<rparr> # rest else rest))))"

text \<open>strings.ToUpper on ASCII letters, and on the first rune of a role.\<close>

definition upper_byte :: "char \<Rightarrow> char" where
  "upper_byte c = (if within 0x61 0x7A c then char_of (byte_of c - 0x20) else c)"

definition capitalize :: "('w, 'f, 'x) MemEnv_scheme \<Rightarrow> string \<Rightarrow> string" where
  "capitalize env role =
     (case rune_width role of
        None \<Rightarrow> role
      | Some n \<Rightarrow>
          if take n role = replacement then role
          else (if n = 1 then [upper_byte (hd role)] else me_UpperRune env (take n role)) @ drop n role)"

definition formatConversation :: "('w, 'f, 'x) MemEnv_scheme \<Rightarrow> IngestMessage list \<Rightarrow> string" where
  "formatConversation env messages =
     trim_space (concat (map (\<lambda>msg. capitalize env (im_Role msg) @ '': '' @ im_Content msg @ [CHR 0x0A, CHR 0x0A]) messages))"

definition parseIntID :: "string \<Rightarrow> int" where
  "parseIntID s = (case Atoi s of None \<Rightarrow> - 1 | Some n \<Rightarrow> n)"

definition truncateRunes :: "string \<Rightarrow> nat \<Rightarrow> string" where
  "truncateRunes s maxRunes =
     (let pieces = rune_pieces s in
      if length pieces \<le> maxRunes then s
      else concat (map encode_piece (take maxRunes pieces)) @ ''...'')"

subsection \<open>Calls of the language model and of the embedding service\<close>

definition CompleteJSON :: "('w, 'f, 'x) MemEnv_scheme \<Rightarrow> Prompt \<Rightarrow> bool \<Rightarrow> ('w, string) rop" where
  "CompleteJSON env prompt again =
     bind (ask (me_complete env prompt again True)) (\<lambda>r.
     case r of
       Inr raw \<Rightarrow> return raw
     | Inl (HTTPStatusError code) \<Rightarrow>
         if code = 400
         then bind (ask (me_complete env prompt again False)) (\<lambda>r2.
              case r2 of Inr raw \<Rightarrow> return raw | Inl _ \<Rightarrow> throw MemLLM)
         else throw MemLLM
     | Inl LLMError \<Rightarrow> throw MemLLM)"

text \<open>A request and, if the answer is not the JSON value asked for, one more.\<close>

definition ask_llm :: "('w, 'f, 'x) MemEnv_scheme \<Rightarrow> Prompt \<Rightarrow> (string \<Rightarrow> 'a option) \<Rightarrow> ('w, 'a) rop" where
  "ask_llm env prompt parse =
     bind (CompleteJSON env prompt False) (\<lambda>raw.
     case parse raw of
       Some x \<Rightarrow> return x
     | None \<Rightarrow> bind (CompleteJSON env prompt True) (\<lambda>raw2. orFail MemLLM (parse raw2)))"

definition clean_facts :: "string list \<Rightarrow> string list" where
  "clean_facts fs = filter (\<lambda>f. f \<noteq> '''') (map trim_space fs)"

definition extractFacts :: "('w, 'f, 'x) MemEnv_scheme \<Rightarrow> string \<Rightarrow> ('w, string list) rop" where
  "extractFacts env conversation =
     (if \<not> me_LLM env \<or> conversation = '''' then return []
      else bind (ask_llm env (PromptFacts conversation) (me_ParseFacts env)) (\<lambda>fs. return (clean_facts fs)))"

definition extractFactsAndTags :: "('w, 'f, 'x) MemEnv_scheme \<Rightarrow> string \<Rightarrow> nat \<Rightarrow> ('w, string list \<times> string list list) rop" where
  "extractFactsAndTags env conversation messageCount =
     bind (ask_llm env (PromptFactsAndTags conversation) (me_ParseFactsAndTags env)) (\<lambda>(fs, tags).
     return (clean_facts fs,
       map (\<lambda>i. if i < length tags then (case tags ! i of None \<Rightarrow> [] | Some ts \<Rightarrow> ts) else []) [0..<messageCount]))"

definition local_embedding :: "('w, 'f, 'x) MemEnv_scheme \<Rightarrow> bool" where
  "local_embedding env \<longleftrightarrow> re_autoModel env = '''' \<and> me_Embedder env"

subsection \<open>Finding the memories a fact may concern\<close>

record 'f Gathered =
  ga_seen :: "string set"
  ga_result :: "'f Memory list"
  ga_attempts :: nat
  ga_successes :: nat

definition perFactLimit :: int where "perFactLimit = 5"
definition contentMaxLen :: nat where "contentMaxLen = 150"
definition maxExistingMemories :: nat where "maxExistingMemories = 60"

definition minSimilarityScore :: "('w, 'f, 'x) MemEnv_scheme \<Rightarrow> 'f" where
  "minSimilarityScore env = fl_lit (re_Float env) 3 1"

definition below_threshold :: "('w, 'f, 'x) MemEnv_scheme \<Rightarrow> 'f Memory \<Rightarrow> bool" where
  "below_threshold env m = (case mm_Score m of None \<Rightarrow> False | Some x \<Rightarrow> fl_lt (re_Float env) x (minSimilarityScore env))"

fun addUnseen :: "('w, 'f, 'x) MemEnv_scheme \<Rightarrow> 'f Memory list \<Rightarrow> bool \<Rightarrow> 'f Gathered \<Rightarrow> 'f Gathered" where
  "addUnseen env [] applyThreshold g = g"
| "addUnseen env (m # ms) applyThreshold g =
     addUnseen env ms applyThreshold
       (if mm_ID m \<in> ga_seen g then g
        else if applyThreshold \<and> below_threshold env m then g
        else g\<lparr>ga_seen := insert (mm_ID m) (ga_seen g),
               ga_result := ga_result g @ [m\<lparr>mm_Content := truncateRunes (mm_Content m) contentMaxLen\<rparr>]\<rparr>)"

definition gather_filter :: "('w, 'f, 'x) MemEnv_scheme \<Rightarrow> string \<Rightarrow> 'f MemoryFilter" where
  "gather_filter env agentID = \<lparr>mf_Query = '''', mf_Tags = [], mf_Source = '''', mf_State = ''active'',
     mf_MemoryType = ''insight,pinned'', mf_AgentID = agentID, mf_SessionID = '''', mf_Limit = 0, mf_Offset = 0,
     mf_MinScore = fl_lit (re_Float env) 0 0\<rparr>"

definition fts_or_keyword ::
  "('w, 'f, 'x) MemEnv_scheme \<Rightarrow> string \<Rightarrow> 'f MemoryFilter \<Rightarrow> int \<Rightarrow> ('w, 'f Memory list) rop" where
  "fts_or_keyword env q f limit =
     (if re_FTS env then repo_FTSSearch env q f limit
      else repo_KeywordSearch env q f limit)"

definition try_search ::
  "('w, 'f, 'x) MemEnv_scheme \<Rightarrow> ('w, 'f Memory list) rop \<Rightarrow> bool \<Rightarrow> 'f Gathered \<Rightarrow> ('w, 'f Gathered) rop" where
  "try_search env search applyThreshold g =
     bind (attempt search) (\<lambda>r.
     let g' = g\<lparr>ga_attempts := ga_attempts g + 1\<rparr> in
     return (case r of
               Inl _ \<Rightarrow> g'
             | Inr ms \<Rightarrow> addUnseen env ms applyThreshold (g'\<lparr>ga_successes := ga_successes g' + 1\<rparr>)))"

text \<open>The vector leg for a fact, with its vector if the batch of embeddings has one.\<close>

definition vector_leg ::
  "('w, 'f, 'x) MemEnv_scheme \<Rightarrow> 'f MemoryFilter \<Rightarrow> string \<Rightarrow> 32 word list \<Rightarrow> 'f Gathered \<Rightarrow> ('w, 'f Gathered) rop" where
  "vector_leg env f fct vec g =
     (if re_autoModel env \<noteq> ''''
      then try_search env (repo_AutoVectorSearch env fct f perFactLimit) True g
      else if vec \<noteq> []
      then try_search env (repo_VectorSearch env vec f perFactLimit) True g
      else return g)"

fun gather_facts ::
  "('w, 'f, 'x) MemEnv_scheme \<Rightarrow> 'f MemoryFilter \<Rightarrow> (string \<times> 32 word list) list \<Rightarrow> 'f Gathered \<Rightarrow> ('w, 'f Gathered) rop" where
  "gather_facts env f [] g = return g"
| "gather_facts env f ((fct, vec) # facts) g =
     bind (if \<not> me_Embedder env \<and> re_autoModel env = '''' then return g else vector_leg env f fct vec g) (\<lambda>g1.
     bind (try_search env (fts_or_keyword env fct f perFactLimit) False g1) (\<lambda>g2.
     gather_facts env f facts g2))"

definition vector_at :: "32 word list list option \<Rightarrow> int \<Rightarrow> 32 word list" where
  "vector_at vs i = (case vs of None \<Rightarrow> [] | Some xs \<Rightarrow> if 0 \<le> i \<and> i < int (length xs) then xs ! nat i else [])"

definition gatherExistingMemories ::
  "('w, 'f, 'x) MemEnv_scheme \<Rightarrow> string \<Rightarrow> string list \<Rightarrow> ('w, 'f Memory list) rop" where
  "gatherExistingMemories env agentID facts =
     bind (if local_embedding env then ask (me_EmbedBatch env facts) else return None) (\<lambda>vectors.
     bind (gather_facts env (gather_filter env agentID)
             (map (\<lambda>i. (facts ! i, vector_at vectors (int i))) [0..<length facts])
             \<lparr>ga_seen = {}, ga_result = [], ga_attempts = 0, ga_successes = 0\<rparr>) (\<lambda>g.
     seq (failIf (0 < ga_attempts g \<and> ga_successes g = 0) (MemOutage (ga_attempts g)))
     (return (take maxExistingMemories (ga_result g)))))"

subsection \<open>Writing insights\<close>

definition new_insight ::
  "string \<Rightarrow> string \<Rightarrow> string \<Rightarrow> string \<Rightarrow> string \<Rightarrow> 32 word list \<Rightarrow> int \<Rightarrow> 'f Memory" where
  "new_insight mid agentName agentID sessionID content embedding now = \<lparr>
     mm_ID = mid, mm_Content = content, mm_MemoryType = TypeInsight, mm_Source = agentName, mm_Tags = [],
     mm_Metadata = '''', mm_Embedding = embedding, mm_AgentID = agentID, mm_SessionID = sessionID,
     mm_UpdatedBy = agentName, mm_SupersededBy = '''', mm_State = StateActive, mm_Version = 1,
     mm_CreatedAt = now, mm_UpdatedAt = now, mm_Score = None, mm_RelativeAge = ''''\<rparr>"

definition embed_if_needed :: "('w, 'f, 'x) MemEnv_scheme \<Rightarrow> string \<Rightarrow> 32 word list \<Rightarrow> ('w, 32 word list) rop" where
  "embed_if_needed env content embedding =
     (if embedding = [] \<and> local_embedding env
      then bind (ask (me_Embed env content)) (orFail MemEmbed)
      else return embedding)"

definition addInsightWithEmbedding ::
  "('w, 'f, 'x) MemEnv_scheme \<Rightarrow> string \<Rightarrow> string \<Rightarrow> string \<Rightarrow> string \<Rightarrow> 32 word list \<Rightarrow> ('w, string) rop" where
  "addInsightWithEmbedding env agentName agentID sessionID content embedding =
     bind (embed_if_needed env content embedding) (\<lambda>vec.
     bind (time_now env) (\<lambda>now.
     bind (ask (me_UUID env)) (\<lambda>mid.
     seq (repo_Create env (new_insight mid agentName agentID sessionID content vec now))
     (return mid))))"

definition updateInsightWithEmbedding ::
  "('w, 'f, 'x) MemEnv_scheme \<Rightarrow> string \<Rightarrow> string \<Rightarrow> string \<Rightarrow> string \<Rightarrow> string \<Rightarrow> 32 word list \<Rightarrow> ('w, string) rop" where
  "updateInsightWithEmbedding env agentName agentID sessionID oldID newContent embedding =
     bind (ask (me_UUID env)) (\<lambda>newID.
     bind (embed_if_needed env newContent embedding) (\<lambda>vec.
     bind (time_now env) (\<lambda>now.
     seq (repo_ArchiveAndCreate env oldID newID
            (new_insight newID agentName agentID sessionID newContent vec now))
     (return newID))))"

fun add_facts ::
  "('w, 'f, 'x) MemEnv_scheme \<Rightarrow> string \<Rightarrow> string \<Rightarrow> string \<Rightarrow> int \<Rightarrow> (string \<times> 32 word list) list \<Rightarrow>
   string list \<Rightarrow> int \<Rightarrow> ('w, string list \<times> int) rop" where
  "add_facts env agentName agentID sessionID now [] ids warnings = return (ids, warnings)"
| "add_facts env agentName agentID sessionID now ((fct, vec) # facts) ids warnings =
     bind (ask (me_UUID env)) (\<lambda>mid.
     bind (attempt (repo_Create env
            (new_insight mid agentName agentID sessionID fct vec now))) (\<lambda>r.
     case r of
       Inl _ \<Rightarrow> add_facts env agentName agentID sessionID now facts ids (warnings + 1)
     | Inr _ \<Rightarrow> add_facts env agentName agentID sessionID now facts (ids @ [mid]) warnings))"

definition addAllFacts ::
  "('w, 'f, 'x) MemEnv_scheme \<Rightarrow> string \<Rightarrow> string \<Rightarrow> string \<Rightarrow> string list \<Rightarrow> ('w, string list \<times> int) rop" where
  "addAllFacts env agentName agentID sessionID facts =
     bind (if local_embedding env then ask (me_EmbedBatch env facts) else return None) (\<lambda>vectors.
     bind (time_now env) (\<lambda>now.
     add_facts env agentName agentID sessionID now
       (map (\<lambda>i. (facts ! i, vector_at vectors (int i))) [0..<length facts]) [] 0))"

subsection \<open>Reconciliation\<close>

datatype Action = ActAdd string int | ActUpdate string string int | ActDelete string | ActNone

definition event_word :: "reconcileEvent \<Rightarrow> string" where
  "event_word e = map upper_byte (ev_Event e)"

text \<open>The first pass: which events are carried out, and which texts need an embedding.\<close>

fun plan_actions :: "bool \<Rightarrow> nat \<Rightarrow> reconcileEvent list \<Rightarrow> string list \<Rightarrow> Action list \<Rightarrow> string list \<times> Action list" where
  "plan_actions wants n [] texts acts = (texts, acts)"
| "plan_actions wants n (e # es) texts acts =
     (let idx = (if wants then int (length texts) else - 1);
          texts' = (if wants then texts @ [ev_Text e] else texts)
      in if event_word e = ''ADD'' then
           (if ev_Text e = '''' then plan_actions wants n es texts acts
            else plan_actions wants n es texts' (acts @ [ActAdd (ev_Text e) idx]))
         else if event_word e = ''UPDATE'' then
           (if parseIntID (ev_ID e) < 0 \<or> int n \<le> parseIntID (ev_ID e) then plan_actions wants n es texts acts
            else if ev_Text e = '''' then plan_actions wants n es texts acts
            else plan_actions wants n es texts' (acts @ [ActUpdate (ev_ID e) (ev_Text e) idx]))
         else if event_word e = ''DELETE'' then plan_actions wants n es texts (acts @ [ActDelete (ev_ID e)])
         else if event_word e = ''NOOP'' \<or> event_word e = ''NONE'' then plan_actions wants n es texts (acts @ [ActNone])
         else plan_actions wants n es texts acts)"

definition counted :: "('w, string) rop \<Rightarrow> string list \<Rightarrow> int \<Rightarrow> ('w, string list \<times> int) rop" where
  "counted m ids warnings =
     bind (attempt m) (\<lambda>r. return (case r of Inl _ \<Rightarrow> (ids, warnings + 1) | Inr mid \<Rightarrow> (ids @ [mid], warnings)))"

definition perform_action ::
  "('w, 'f, 'x) MemEnv_scheme \<Rightarrow> string \<Rightarrow> string \<Rightarrow> string \<Rightarrow> 'f Memory list \<Rightarrow> 32 word list list option \<Rightarrow> Action \<Rightarrow>
   string list \<Rightarrow> int \<Rightarrow> ('w, string list \<times> int) rop" where
  "perform_action env agentName agentID sessionID existing vectors act ids warnings =
     (case act of
        ActAdd text idx \<Rightarrow>
          counted (addInsightWithEmbedding env agentName agentID sessionID text (vector_at vectors idx)) ids warnings
      | ActUpdate eid text idx \<Rightarrow>
          (let intID = parseIntID eid in
           if intID < 0 \<or> int (length existing) \<le> intID then throw MemPanic
           else if mm_MemoryType (existing ! nat intID) = TypePinned
           then counted (addInsightWithEmbedding env agentName agentID sessionID text (vector_at vectors idx)) ids warnings
           else counted (updateInsightWithEmbedding env agentName agentID sessionID
                  (mm_ID (existing ! nat intID)) text (vector_at vectors idx)) ids warnings)
      | ActDelete eid \<Rightarrow>
          (let intID = parseIntID eid in
           if intID < 0 \<or> int (length existing) \<le> intID then return (ids, warnings)
           else if mm_MemoryType (existing ! nat intID) = TypePinned then return (ids, warnings + 1)
           else bind (attempt (repo_SetState env (mm_ID (existing ! nat intID)) StateDeleted)) (\<lambda>r.
                return (case r of
                          Inl e \<Rightarrow> (ids, if e = MemNotFound then warnings else warnings + 1)
                        | Inr _ \<Rightarrow> (ids, warnings))))
      | ActNone \<Rightarrow> return (ids, warnings))"

fun perform_actions ::
  "('w, 'f, 'x) MemEnv_scheme \<Rightarrow> string \<Rightarrow> string \<Rightarrow> string \<Rightarrow> 'f Memory list \<Rightarrow> 32 word list list option \<Rightarrow> Action list \<Rightarrow>
   string list \<Rightarrow> int \<Rightarrow> ('w, string list \<times> int) rop" where
  "perform_actions env agentName agentID sessionID existing vectors [] ids warnings = return (ids, warnings)"
| "perform_actions env agentName agentID sessionID existing vectors (a # as) ids warnings =
     bind (perform_action env agentName agentID sessionID existing vectors a ids warnings) (\<lambda>(ids', warnings').
     perform_actions env agentName agentID sessionID existing vectors as ids' warnings')"

definition memory_refs :: "('w, 'f, 'x) MemEnv_scheme \<Rightarrow> int \<Rightarrow> 'f Memory list \<Rightarrow> (nat \<times> string \<times> string) list" where
  "memory_refs env now ms =
     map (\<lambda>i. (i, mm_Content (ms ! i),
                if mm_UpdatedAt (ms ! i) = 0 then '''' else me_formatAge env (now - mm_UpdatedAt (ms ! i))))
       [0..<length ms]"

definition reconcile ::
  "('w, 'f, 'x) MemEnv_scheme \<Rightarrow> string \<Rightarrow> string \<Rightarrow> string \<Rightarrow> string list \<Rightarrow> ('w, string list \<times> int) rop" where
  "reconcile env agentName agentID sessionID facts =
     bind (gatherExistingMemories env agentID facts) (\<lambda>existing.
     if existing = [] then addAllFacts env agentName agentID sessionID facts
     else
       bind (time_now env) (\<lambda>now.
       bind (attempt (ask_llm env (PromptReconcile (memory_refs env now existing) facts) (me_ParseEvents env))) (\<lambda>r.
       case r of
         Inl _ \<Rightarrow> return ([], 1)
       | Inr events \<Rightarrow>
           (case plan_actions (local_embedding env) (length existing) events [] [] of
              (texts, acts) \<Rightarrow>
                bind (if texts \<noteq> [] \<and> local_embedding env then ask (me_EmbedBatch env texts) else return None) (\<lambda>vectors.
                perform_actions env agentName agentID sessionID existing vectors acts [] 0)))))"

subsection \<open>The pipelines\<close>

definition maxFacts :: nat where "maxFacts = 50"
definition maxConversationRunes :: nat where "maxConversationRunes = 1000000"
definition maxContentRunes :: nat where "maxContentRunes = 32000"
definition maxRawContentRunes :: nat where "maxRawContentRunes = 200000"

definition simple_result :: "string \<Rightarrow> int \<Rightarrow> IngestResult" where
  "simple_result status warnings =
     \<lparr>ir_Status = status, ir_MemoriesChanged = 0, ir_InsightIDs = [], ir_Warnings = warnings\<rparr>"

text \<open>The answer to a reconciliation, as Ingest and ReconcilePhase2 make it.\<close>

definition reconciled_result :: "(mem_error + string list \<times> int) \<Rightarrow> IngestResult" where
  "reconciled_result r =
     (case r of
        Inl _ \<Rightarrow> simple_result ''failed'' 0
      | Inr (ids, warnings) \<Rightarrow>
          \<lparr>ir_Status = (if warnings > 0 \<and> ids = [] then ''partial'' else ''complete''),
           ir_MemoriesChanged = int (length ids), ir_InsightIDs = ids, ir_Warnings = warnings\<rparr>)"

definition extractAndReconcile ::
  "('w, 'f, 'x) MemEnv_scheme \<Rightarrow> string \<Rightarrow> string \<Rightarrow> string \<Rightarrow> string \<Rightarrow> ('w, string list \<times> int) rop" where
  "extractAndReconcile env agentName agentID sessionID conversation =
     bind (extractFacts env conversation) (\<lambda>facts.
     if facts = [] then return ([], 0)
     else reconcile env agentName agentID sessionID (take maxFacts facts))"

definition ReconcilePhase2 ::
  "('w, 'f, 'x) MemEnv_scheme \<Rightarrow> string \<Rightarrow> string \<Rightarrow> string \<Rightarrow> string list \<Rightarrow> ('w, IngestResult) rop" where
  "ReconcilePhase2 env agentName agentID sessionID facts =
     (if facts = [] then return (simple_result ''complete'' 0)
      else bind (attempt (reconcile env agentName agentID sessionID (take maxFacts facts))) (\<lambda>r.
           return (reconciled_result r)))"

definition ExtractPhase1 :: "('w, 'f, 'x) MemEnv_scheme \<Rightarrow> IngestMessage list \<Rightarrow> ('w, Phase1Result) rop" where
  "ExtractPhase1 env messages =
     (if \<not> me_LLM env \<or> messages = [] then return \<lparr>p1_Facts = [], p1_MessageTags = []\<rparr>
      else let formatted = formatConversation env messages in
           if formatted = '''' then return \<lparr>p1_Facts = [], p1_MessageTags = []\<rparr>
           else bind (extractFactsAndTags env (truncateRunes formatted maxConversationRunes) (length messages)) (\<lambda>(fs, tags).
                return \<lparr>p1_Facts = fs, p1_MessageTags = tags\<rparr>))"

definition ingestRaw :: "('w, 'f, 'x) MemEnv_scheme \<Rightarrow> string \<Rightarrow> IngestRequest \<Rightarrow> ('w, IngestResult) rop" where
  "ingestRaw env agentName req =
     (let content = trim_space (formatConversation env (iq_Messages req)) in
      if content = '''' then return (simple_result ''complete'' 0)
      else let text = truncateRunes content maxRawContentRunes in
        bind (embed_if_needed env text []) (\<lambda>vec.
        bind (time_now env) (\<lambda>now.
        bind (ask (me_UUID env)) (\<lambda>mid.
        seq (repo_Create env
               (new_insight mid agentName (iq_AgentID req) (iq_SessionID req) text vec now))
        (return \<lparr>ir_Status = ''complete'', ir_MemoriesChanged = 1, ir_InsightIDs = [mid], ir_Warnings = 0\<rparr>)))))"

text \<open>Ingest; \<open>None\<close> is a call that does not return.\<close>

definition Ingest :: "('w, 'f, 'x) MemEnv_scheme \<Rightarrow> string \<Rightarrow> IngestRequest \<Rightarrow> ('w, IngestResult) rop option" where
  "Ingest env agentName req =
     (let mode = (if iq_Mode req = '''' then me_Mode env else iq_Mode req) in
      if iq_Messages req = [] then Some (throw (MemInvalid ''messages'' ''required''))
      else if mode \<noteq> ModeSmart \<and> mode \<noteq> ModeRaw then Some (throw (MemInvalid ''mode'' mode))
      else case stripInjectedContext (iq_Messages req) of
             None \<Rightarrow> None
           | Some messages \<Rightarrow>
               Some (if mode = ModeRaw \<or> \<not> me_LLM env then ingestRaw env agentName (req\<lparr>iq_Messages := messages\<rparr>)
                     else let formatted = formatConversation env messages in
                          if formatted = '''' then return (simple_result ''complete'' 0)
                          else bind (attempt (extractAndReconcile env agentName (iq_AgentID req) (iq_SessionID req)
                                 (truncateRunes formatted maxConversationRunes))) (\<lambda>r.
                               return (reconciled_result r))))"

fun extract_contents ::
  "('w, 'f, 'x) MemEnv_scheme \<Rightarrow> string list \<Rightarrow> string list \<Rightarrow> int \<Rightarrow> ('w, string list \<times> int) rop" where
  "extract_contents env [] facts failures = return (facts, failures)"
| "extract_contents env (c # cs) facts failures =
     (let content = trim_space c in
      if content = '''' then extract_contents env cs facts failures
      else bind (attempt (extractFacts env (''User: '' @ truncateRunes content maxContentRunes))) (\<lambda>r.
           case r of
             Inl _ \<Rightarrow> extract_contents env cs facts (failures + 1)
           | Inr fs \<Rightarrow> extract_contents env cs (facts @ fs) failures))"

definition ReconcileContent ::
  "('w, 'f, 'x) MemEnv_scheme \<Rightarrow> string \<Rightarrow> string \<Rightarrow> string \<Rightarrow> string list \<Rightarrow> ('w, IngestResult) rop" where
  "ReconcileContent env agentName agentID sessionID contents =
     (if contents = [] then throw (MemInvalid ''content'' ''required'')
      else if \<not> me_LLM env then throw (MemInvalid ''llm'' ''LLM is required for reconciliation'')
      else bind (extract_contents env contents [] 0) (\<lambda>(facts, failures).
        if facts = [] then return (simple_result (if failures > 0 then ''failed'' else ''complete'') failures)
        else bind (attempt (reconcile env agentName agentID sessionID facts)) (\<lambda>r.
             return (case r of
                 Inl _ \<Rightarrow> simple_result ''failed'' (failures + 1)
               | Inr (ids, warnings) \<Rightarrow>
                   \<lparr>ir_Status = (if failures > 0 \<and> ids = [] then ''failed''
                                 else if failures + warnings > 0 \<or> failures > 0 then ''partial'' else ''complete''),
                    ir_MemoriesChanged = int (length ids), ir_InsightIDs = ids, ir_Warnings = failures + warnings\<rparr>))))"

end
