(* ===== verification/MemService.thy ===== *)
theory MemService
  imports MemIngest GoText
begin

text \<open>
  The memory service (\<^verbatim>\<open>internal/service/memory.go\<close>): creating, reading, changing and
  searching memories. The score table of a search is a function with Go's zero value as its
  default. A Go map is iterated in any order: \<open>sv_MapOrder\<close> gives the order, and because
  \<^verbatim>\<open>sort.Sort\<close> may leave equal elements in any order too, a stable sort after an arbitrary
  order has all its results. The two searches that the code runs side by side only read; they
  are made one after the other, and the world decides what each of them sees. \<open>me_formatAge\<close>
  is the text of an age.
\<close>

record ('w, 'f) SvcEnv = "('w, 'f) MemEnv" +
  sv_MapOrder :: "'f Memory list \<Rightarrow> 'f Memory list"

record BulkMemoryInput =
  bi_Content :: string
  bi_Tags :: "string list"
  bi_Metadata :: string

definition maxContentLen :: nat where "maxContentLen = 50000"
definition maxTags :: nat where "maxTags = 20"
definition maxBulkSize :: nat where "maxBulkSize = 100"

definition defaultMinScore :: "('w, 'f, 'x) RepoEnv_scheme \<Rightarrow> 'f" where
  "defaultMinScore env = fl_lit (re_Float env) 3 1"

definition validateMemoryInput :: "string \<Rightarrow> string list \<Rightarrow> (string \<times> string) option" where
  "validateMemoryInput content tags =
     (if content = '''' then Some (''content'', ''required'')
      else if length content > maxContentLen then Some (''content'', ''too long (max 50000)'')
      else if length tags > maxTags then Some (''tags'', ''too many (max 20)'')
      else None)"

subsection \<open>Ranking\<close>

definition rrfK :: "('w, 'f, 'x) RepoEnv_scheme \<Rightarrow> 'f" where
  "rrfK env = fl_lit (re_Float env) 60 0"

fun rrf_add :: "('w, 'f, 'x) RepoEnv_scheme \<Rightarrow> nat \<Rightarrow> 'f Memory list \<Rightarrow> (string \<Rightarrow> 'f) \<Rightarrow> string \<Rightarrow> 'f" where
  "rrf_add env rank [] scores = scores"
| "rrf_add env rank (m # ms) scores =
     (let fl = re_Float env in
      rrf_add env (Suc rank) ms
        (scores(mm_ID m := fl_add fl (scores (mm_ID m))
           (fl_div fl (fl_lit fl 1 0) (fl_add fl (rrfK env) (fl_lit fl (int rank + 1) 0))))))"

definition rrfMerge :: "('w, 'f, 'x) RepoEnv_scheme \<Rightarrow> 'f Memory list \<Rightarrow> 'f Memory list \<Rightarrow> string \<Rightarrow> 'f" where
  "rrfMerge env ftsResults vecResults =
     rrf_add env 0 vecResults (rrf_add env 0 ftsResults (\<lambda>_. fl_lit (re_Float env) 0 0))"

text \<open>The map of collectMems as an association list, later writes in place.\<close>

fun put_mem :: "'f Memory \<Rightarrow> 'f Memory list \<Rightarrow> 'f Memory list" where
  "put_mem m [] = [m]"
| "put_mem m (x # xs) = (if mm_ID x = mm_ID m then m # xs else x # put_mem m xs)"

definition collectMems :: "'f Memory list \<Rightarrow> 'f Memory list \<Rightarrow> 'f Memory list" where
  "collectMems kwResults vecResults =
     foldl (\<lambda>ms m. if List.member (map mm_ID ms) (mm_ID m) then ms else ms @ [m])
       (foldl (\<lambda>ms m. put_mem m ms) [] kwResults) vecResults"

definition applyTypeWeights ::
  "('w, 'f, 'x) RepoEnv_scheme \<Rightarrow> 'f Memory list \<Rightarrow> (string \<Rightarrow> 'f) \<Rightarrow> string \<Rightarrow> 'f" where
  "applyTypeWeights env mems scores =
     foldl (\<lambda>sc m. if mm_MemoryType m = TypePinned
                   then sc(mm_ID m := fl_mul (re_Float env) (sc (mm_ID m)) (fl_lit (re_Float env) 15 1))
                   else sc) scores mems"

fun insert_scored :: "('a \<Rightarrow> 'a \<Rightarrow> bool) \<Rightarrow> 'a \<Rightarrow> 'a list \<Rightarrow> 'a list" where
  "insert_scored lt x [] = [x]"
| "insert_scored lt x (y # ys) = (if lt y x then y # insert_scored lt x ys else x # y # ys)"

definition sort_scored :: "('a \<Rightarrow> 'a \<Rightarrow> bool) \<Rightarrow> 'a list \<Rightarrow> 'a list" where
  "sort_scored lt xs = foldr (insert_scored lt) xs []"

definition score_before :: "('w, 'f, 'x) RepoEnv_scheme \<Rightarrow> (string \<Rightarrow> 'f) \<Rightarrow> 'f Memory \<Rightarrow> 'f Memory \<Rightarrow> bool" where
  "score_before env scores a b \<longleftrightarrow> fl_lt (re_Float env) (scores (mm_ID b)) (scores (mm_ID a))"

definition sortByScore ::
  "('w, 'f) SvcEnv \<Rightarrow> 'f Memory list \<Rightarrow> (string \<Rightarrow> 'f) \<Rightarrow> 'f Memory list" where
  "sortByScore env mems scores = sort_scored (score_before env scores) (sv_MapOrder env mems)"

definition setScores :: "'f Memory list \<Rightarrow> (string \<Rightarrow> 'f) \<Rightarrow> 'f Memory list" where
  "setScores page scores =
     map (\<lambda>m. if mm_Score m = None then m\<lparr>mm_Score := Some (scores (mm_ID m))\<rparr> else m) page"

definition paginateResults :: "'a list \<Rightarrow> int \<Rightarrow> int \<Rightarrow> 'a list \<times> int" where
  "paginateResults results offset limit =
     (let found = int (length results) in
      if found = 0 \<or> offset \<ge> found then ([], found)
      else let fin = (if offset + limit > found then found else offset + limit)
           in (take (nat (fin - offset)) (drop (nat offset) results), found))"

definition populateRelativeAge :: "('w, 'f) SvcEnv \<Rightarrow> 'f Memory list \<Rightarrow> ('w, 'f Memory list) rop" where
  "populateRelativeAge env ms =
     bind (reads (\<lambda>s. me_Time env (db_world s))) (\<lambda>now.
     return (map (\<lambda>m. m\<lparr>mm_RelativeAge := me_formatAge env (now - mm_UpdatedAt m)\<rparr>) ms))"

definition above_score :: "('w, 'f, 'x) RepoEnv_scheme \<Rightarrow> 'f \<Rightarrow> 'f Memory list \<Rightarrow> 'f Memory list" where
  "above_score env given ms =
     (let fl = re_Float env; zero = fl_lit fl 0 0;
          minScore = (if fl_le fl given zero \<and> fl_le fl zero given then defaultMinScore env else given)
      in if fl_lt fl zero minScore
         then filter (\<lambda>m. case mm_Score m of None \<Rightarrow> False | Some x \<Rightarrow> fl_le fl minScore x) ms
         else ms)"

definition page_limit :: "int \<Rightarrow> int \<Rightarrow> int" where
  "page_limit dflt n = (if n \<le> 0 \<or> n > 200 then dflt else n)"

definition page_offset :: "int \<Rightarrow> int" where
  "page_offset n = (if n < 0 then 0 else n)"

definition sv_merge_page ::
  "('w, 'f) SvcEnv \<Rightarrow> 'f MemoryFilter \<Rightarrow> 'f Memory list \<Rightarrow> 'f Memory list \<Rightarrow> ('w, 'f Memory list \<times> int) rop" where
  "sv_merge_page env f vecResults kwResults =
     (let vec = above_score env (mf_MinScore f) vecResults;
          scores0 = rrfMerge env kwResults vec;
          mems = collectMems kwResults vec;
          scores = applyTypeWeights env mems scores0;
          merged = sortByScore env mems scores;
          (page, found) = paginateResults merged (page_offset (mf_Offset f)) (page_limit 10 (mf_Limit f))
      in bind (populateRelativeAge env (setScores page scores)) (\<lambda>result. return (result, found)))"

definition sv_fts_or_keyword ::
  "('w, 'f) SvcEnv \<Rightarrow> 'f MemoryFilter \<Rightarrow> int \<Rightarrow> ('w, 'f Memory list) rop" where
  "sv_fts_or_keyword env f limit =
     (if re_FTS env then repo_FTSSearch env (mf_Query f) f limit else repo_KeywordSearch env (mf_Query f) f limit)"

definition ftsOnlySearch :: "('w, 'f) SvcEnv \<Rightarrow> 'f MemoryFilter \<Rightarrow> ('w, 'f Memory list \<times> int) rop" where
  "ftsOnlySearch env f =
     (let limit = page_limit 50 (mf_Limit f) in
      bind (repo_FTSSearch env (mf_Query f) f (limit * 3)) (\<lambda>results.
      case paginateResults results (page_offset (mf_Offset f)) limit of (page, found) \<Rightarrow>
      bind (populateRelativeAge env page) (\<lambda>r. return (r, found))))"

definition keywordOnlySearch :: "('w, 'f) SvcEnv \<Rightarrow> 'f MemoryFilter \<Rightarrow> ('w, 'f Memory list \<times> int) rop" where
  "keywordOnlySearch env f =
     (let limit = page_limit 50 (mf_Limit f) in
      bind (repo_KeywordSearch env (mf_Query f) f (limit * 3)) (\<lambda>results.
      case paginateResults results (page_offset (mf_Offset f)) limit of (page, found) \<Rightarrow>
      bind (populateRelativeAge env page) (\<lambda>r. return (r, found))))"

definition hybridSearch :: "('w, 'f) SvcEnv \<Rightarrow> 'f MemoryFilter \<Rightarrow> ('w, 'f Memory list \<times> int) rop" where
  "hybridSearch env f =
     (let fetchLimit = page_limit 10 (mf_Limit f) * 3 in
      bind (ask (me_Embed env (mf_Query f))) (\<lambda>e.
      bind (orFail MemEmbed e) (\<lambda>queryVec.
      bind (attempt (repo_VectorSearch env queryVec f fetchLimit)) (\<lambda>vec.
      bind (sv_fts_or_keyword env f fetchLimit) (\<lambda>kw.
      sv_merge_page env f (case vec of Inl _ \<Rightarrow> [] | Inr ms \<Rightarrow> ms) kw)))))"

definition autoHybridSearch :: "('w, 'f) SvcEnv \<Rightarrow> 'f MemoryFilter \<Rightarrow> ('w, 'f Memory list \<times> int) rop" where
  "autoHybridSearch env f =
     (let fetchLimit = page_limit 10 (mf_Limit f) * 3 in
      bind (attempt (repo_AutoVectorSearch env (mf_Query f) f fetchLimit)) (\<lambda>vec.
      bind (attempt (sv_fts_or_keyword env f fetchLimit)) (\<lambda>kw.
      case vec of
        Inl e \<Rightarrow> throw e
      | Inr vecResults \<Rightarrow> (case kw of Inl e \<Rightarrow> throw e | Inr kwResults \<Rightarrow> sv_merge_page env f vecResults kwResults))))"

definition svc_Search :: "('w, 'f) SvcEnv \<Rightarrow> 'f MemoryFilter \<Rightarrow> ('w, 'f Memory list \<times> int) rop" where
  "svc_Search env f0 =
     (if mf_Query f0 = ''''
      then bind (repo_List env f0) (\<lambda>(ms, found). bind (populateRelativeAge env ms) (\<lambda>r. return (r, found)))
      else let f = f0\<lparr>mf_SessionID := '''', mf_Source := ''''\<rparr> in
           if re_autoModel env \<noteq> '''' then autoHybridSearch env f
           else if me_Embedder env then hybridSearch env f
           else if re_FTS env then ftsOnlySearch env f
           else keywordOnlySearch env f)"

subsection \<open>Creating\<close>

definition apply_labels :: "('w, 'f) SvcEnv \<Rightarrow> string list \<Rightarrow> string \<Rightarrow> string \<Rightarrow> ('w, unit) rop" where
  "apply_labels env tags metadata mid =
     bind (attempt (repo_GetByID env mid)) (\<lambda>r.
     case r of
       Inl _ \<Rightarrow> return ()
     | Inr mem \<Rightarrow>
         let mem1 = (if tags \<noteq> [] then mem\<lparr>mm_Tags := tags\<rparr> else mem);
             mem2 = (if metadata \<noteq> '''' then mem1\<lparr>mm_Metadata := metadata\<rparr> else mem1)
         in whenOp (tags \<noteq> [] \<or> metadata \<noteq> '''')
              (bind (attempt (repo_UpdateOptimistic env mem2 0)) (\<lambda>_. return ())))"

definition svc_Create ::
  "('w, 'f) SvcEnv \<Rightarrow> string \<Rightarrow> string \<Rightarrow> string list \<Rightarrow> string \<Rightarrow> ('w, 'f Memory option) rop" where
  "svc_Create env agentID content tags metadata =
     (case validateMemoryInput content tags of
        Some (field, msg) \<Rightarrow> throw (MemInvalid field msg)
      | None \<Rightarrow>
          if \<not> me_LLM env then
            bind (embed_if_needed env content []) (\<lambda>vec.
            bind (reads (\<lambda>s. me_Time env (db_world s))) (\<lambda>now.
            bind (ask (me_UUID env)) (\<lambda>mid.
            let mem = (new_insight mid agentID agentID '''' content vec now)\<lparr>mm_Tags := tags, mm_Metadata := metadata\<rparr> in
            seq (repo_Create env mem) (return (Some mem)))))
          else
            bind (ReconcileContent env agentID agentID '''' [content]) (\<lambda>result.
            if ir_Status result = ''failed'' then throw MemFailed
            else if ir_InsightIDs result = [] then return None
            else seq (forEach (apply_labels env tags metadata) (ir_InsightIDs result))
                 (bind (repo_GetByID env (last (ir_InsightIDs result))) (\<lambda>mem. return (Some mem)))))"

definition svc_Get :: "('w, 'f) SvcEnv \<Rightarrow> string \<Rightarrow> ('w, 'f Memory) rop" where
  "svc_Get env mid = repo_GetByID env mid"

definition svc_Update ::
  "('w, 'f) SvcEnv \<Rightarrow> string \<Rightarrow> string \<Rightarrow> string \<Rightarrow> string list option \<Rightarrow> string option \<Rightarrow> ('w, 'f Memory) rop" where
  "svc_Update env agentName mid content tags metadata =
     bind (repo_GetByID env mid) (\<lambda>current.
     seq (failIf (content \<noteq> '''' \<and> length content > maxContentLen) (MemInvalid ''content'' ''too long (max 50000)''))
     (let c1 = (if content \<noteq> '''' then current\<lparr>mm_Content := content\<rparr> else current) in
      seq (failIf (case tags of None \<Rightarrow> False | Some ts \<Rightarrow> length ts > maxTags) (MemInvalid ''tags'' ''too many (max 20)''))
      (let c2 = (case tags of None \<Rightarrow> c1 | Some ts \<Rightarrow> c1\<lparr>mm_Tags := ts\<rparr>);
           c3 = (case metadata of None \<Rightarrow> c2 | Some d \<Rightarrow> c2\<lparr>mm_Metadata := d\<rparr>);
           c4 = c3\<lparr>mm_UpdatedBy := agentName\<rparr>
       in bind (if content \<noteq> '''' \<and> local_embedding env
                then bind (ask (me_Embed env (mm_Content c4))) (\<lambda>e. bind (orFail MemEmbed e) (\<lambda>v. return (c4\<lparr>mm_Embedding := v\<rparr>)))
                else return c4) (\<lambda>c5.
          seq (repo_UpdateOptimistic env c5 0)
          (bind (attempt (repo_GetByID env mid)) (\<lambda>r.
           return (case r of Inl _ \<Rightarrow> c5\<lparr>mm_Version := mm_Version c5 + 1\<rparr> | Inr updated \<Rightarrow> updated)))))))"

definition svc_Delete :: "('w, 'f) SvcEnv \<Rightarrow> string \<Rightarrow> ('w, unit) rop" where
  "svc_Delete env mid = repo_SoftDelete env mid"

definition svc_Bootstrap :: "('w, 'f) SvcEnv \<Rightarrow> int \<Rightarrow> ('w, 'f Memory list) rop" where
  "svc_Bootstrap env n =
     (let limit = (if n \<le> 0 then 20 else n) in repo_ListBootstrap env (if limit > 100 then 100 else limit))"

fun validate_items :: "nat \<Rightarrow> BulkMemoryInput list \<Rightarrow> (string \<times> string) option" where
  "validate_items i [] = None"
| "validate_items i (x # xs) =
     (case validateMemoryInput (bi_Content x) (bi_Tags x) of
        None \<Rightarrow> validate_items (Suc i) xs
      | Some (field, msg) \<Rightarrow> Some (''memories['' @ decimal (int i) @ ''].'' @ field, msg))"

fun bulk_memories ::
  "('w, 'f) SvcEnv \<Rightarrow> string \<Rightarrow> int \<Rightarrow> (BulkMemoryInput \<times> 32 word list) list \<Rightarrow> ('w, 'f Memory list) rop" where
  "bulk_memories env agentName now [] = return []"
| "bulk_memories env agentName now ((item, vec) # items) =
     bind (ask (me_UUID env)) (\<lambda>mid.
     bind (bulk_memories env agentName now items) (\<lambda>ms.
     return ((new_insight mid agentName '''' '''' (bi_Content item) vec now)\<lparr>
       mm_Tags := bi_Tags item, mm_Metadata := bi_Metadata item, mm_MemoryType := TypePinned\<rparr> # ms)))"

definition svc_BulkCreate :: "('w, 'f) SvcEnv \<Rightarrow> string \<Rightarrow> BulkMemoryInput list \<Rightarrow> ('w, 'f Memory list) rop" where
  "svc_BulkCreate env agentName items =
     (if items = [] then throw (MemInvalid ''memories'' ''required'')
      else if length items > maxBulkSize then throw (MemInvalid ''memories'' ''too many (max 100)'')
      else case validate_items 0 items of
             Some (field, msg) \<Rightarrow> throw (MemInvalid field msg)
           | None \<Rightarrow>
               bind (if local_embedding env then ask (me_EmbedBatch env (map bi_Content items)) else return None) (\<lambda>vectors.
               bind (reads (\<lambda>s. me_Time env (db_world s))) (\<lambda>now.
               bind (bulk_memories env agentName now (map (\<lambda>i. (items ! i, vector_at vectors (int i))) [0..<length items])) (\<lambda>ms.
               seq (repo_BulkCreate env ms) (return ms)))))"

end
