(* ===== verification/MemProofs.thy ===== *)
theory MemProofs
  imports MemService "HOL-Library.Sublist"
begin

text \<open>
  What the operations of the memory server do to the table: rules for the statements and the
  transaction, what the searches return, and the two relations the claims are about, the
  rows an ingest may retire and the history of superseded memories.
\<close>

named_theorems tbl "validity of operations on the table"

subsection \<open>Statements\<close>

lemma valid_exec:
  assumes "\<And>now rows rows' n. P rows \<Longrightarrow> f now rows = Some (rows', n) \<Longrightarrow> Q n rows' \<and> E rows'"
    and "\<And>rows. P rows \<Longrightarrow> E rows"
  shows "valid (\<lambda>s. P (db_rows s)) (exec env sql f) (\<lambda>n s. Q n (db_rows s)) (\<lambda>_ s. E (db_rows s))"
  using assms unfolding valid_def exec_def Let_def
  by (fastforce split: prod.splits option.splits Outcome.splits)

lemma valid_query:
  assumes "\<And>rows. P rows \<Longrightarrow> Q (f rows) rows" and "\<And>rows. P rows \<Longrightarrow> E rows"
  shows "valid (\<lambda>s. P (db_rows s)) (query env mid f) (\<lambda>x s. Q x (db_rows s)) (\<lambda>_ s. E (db_rows s))"
  using assms unfolding valid_def query_def by (fastforce split: prod.splits Outcome.splits)

text \<open>A transaction leaves the old rows or those its body made.\<close>

lemma valid_in_tx:
  assumes body: "valid (\<lambda>s. P (db_rows s)) body (\<lambda>b s. if b then Q (db_rows s) else N) (\<lambda>_ _. True)"
    and "\<And>rows. N \<Longrightarrow> P rows \<Longrightarrow> Q rows" and "\<And>rows. P rows \<Longrightarrow> E rows" and "\<And>rows. Q rows \<Longrightarrow> E rows"
  shows "valid (\<lambda>s. P (db_rows s)) (in_tx env body) (\<lambda>_ s. Q (db_rows s)) (\<lambda>_ s. E (db_rows s))"
proof (rule validI)
  fix s :: "'a MemDB" assume P: "P (db_rows s)"
  obtain w out where starts: "re_Statement env SqlBegin (db_world s) = (w, out)" by (metis surj_pair)
  obtain s' r where run: "body (s\<lparr>db_world := w\<rparr>) = (s', r)" by (metis surj_pair)
  obtain w' out' where commit: "re_Statement env SqlCommit (db_world s') = (w', out')" by (metis surj_pair)
  have "P (db_rows (s\<lparr>db_world := w\<rparr>))" using P by simp
  then have "if b then Q (db_rows s') else N" if "r = Inr b" for b
    using valid_ok[OF body] run that by blast
  with P assms(2-4) starts run commit
  show "case in_tx env body s of (s', Inr x) \<Rightarrow> Q (db_rows s') | (s', Inl e) \<Rightarrow> E (db_rows s')"
    unfolding in_tx_def by (auto split: Outcome.splits sum.splits bool.splits)
qed

lemma valid_ask [tbl]: "valid (\<lambda>s. P (db_rows s)) (ask f) (\<lambda>_ s. P (db_rows s)) E"
  unfolding valid_def ask_def by (auto split: prod.splits)

lemma valid_time_now [tbl]: "valid P (time_now env) (\<lambda>_. P) E"
  unfolding time_now_def valid_def reads_def by simp

text \<open>An operation that leaves the table alone.\<close>

definition leaves_rows :: "('w, 'a) rop \<Rightarrow> bool" where
  "leaves_rows m \<longleftrightarrow> (\<forall>s. db_rows (fst (m s)) = db_rows s)"

lemma leaves_keeps: "leaves_rows m \<longleftrightarrow> (\<forall>rows. keeps (\<lambda>s. db_rows s = rows) m)"
  by (auto simp: leaves_rows_def keeps_def)

lemma leaves_valid:
  assumes "leaves_rows m"
  shows "valid (\<lambda>s. P (db_rows s)) m (\<lambda>_ s. P (db_rows s)) (\<lambda>_ s. P (db_rows s))"
  using assms unfolding leaves_rows_def valid_def
  by (auto split: prod.split sum.split dest: spec) (metis fst_conv)+

named_theorems leaves "operations that leave the table alone"

lemma leaves_return [leaves]: "leaves_rows (return x)"
  by (simp add: leaves_rows_def return_def)

lemma leaves_throw [leaves]: "leaves_rows (throw e)"
  by (simp add: leaves_rows_def throw_def)

lemma leaves_bind [leaves]: "leaves_rows m \<Longrightarrow> (\<And>x. leaves_rows (k x)) \<Longrightarrow> leaves_rows (bind m k)"
  unfolding leaves_keeps by (auto intro: kept)

lemma leaves_seq [leaves]: "leaves_rows m \<Longrightarrow> leaves_rows n \<Longrightarrow> leaves_rows (seq m n)"
  unfolding leaves_keeps by (auto intro: kept)

lemma leaves_attempt [leaves]: "leaves_rows m \<Longrightarrow> leaves_rows (attempt m)"
  unfolding leaves_keeps by (auto intro: kept)

lemma leaves_ask [leaves]: "leaves_rows (ask f)"
  unfolding leaves_rows_def ask_def by (simp split: prod.split)

lemma leaves_time_now [leaves]: "leaves_rows (time_now env)"
  by (simp add: leaves_rows_def time_now_def reads_def)

lemma leaves_reads [leaves]: "leaves_rows (reads f)"
  by (simp add: leaves_rows_def reads_def)

lemma leaves_orFail [leaves]: "leaves_rows (orFail e x)"
  by (cases x) (simp_all add: orFail_def leaves)

lemma leaves_failIf [leaves]: "leaves_rows (failIf b e)"
  by (simp add: failIf_def leaves)

lemma leaves_query [leaves]: "leaves_rows (query env mid f)"
  unfolding leaves_rows_def query_def by (auto split: prod.split Outcome.split)

lemma leaves_search_rows [leaves]: "leaves_rows (search_rows env q P limit)"
  unfolding leaves_rows_def search_rows_def Let_def by (auto split: prod.split option.split)

lemma leaves_if [leaves]: "(b \<Longrightarrow> leaves_rows m) \<Longrightarrow> (\<not> b \<Longrightarrow> leaves_rows n) \<Longrightarrow> leaves_rows (if b then m else n)"
  by simp

lemma leaves_option [leaves]:
  "leaves_rows m \<Longrightarrow> (\<And>y. leaves_rows (k y)) \<Longrightarrow> leaves_rows (case x of None \<Rightarrow> m | Some y \<Rightarrow> k y)"
  by (cases x) simp_all

lemma leaves_sum [leaves]:
  "(\<And>e. leaves_rows (m e)) \<Longrightarrow> (\<And>y. leaves_rows (k y)) \<Longrightarrow> leaves_rows (case x of Inl e \<Rightarrow> m e | Inr y \<Rightarrow> k y)"
  by (cases x) simp_all

lemma leaves_prod [leaves]: "(\<And>x y. leaves_rows (k x y)) \<Longrightarrow> leaves_rows (case p of (x, y) \<Rightarrow> k x y)"
  by (cases p) simp

lemma leaves_CompleteJSON [leaves]: "leaves_rows (CompleteJSON env prompt again)"
  unfolding CompleteJSON_def by (auto intro!: leaves split: llm_error.split sum.split)

lemma leaves_ask_llm [leaves]: "leaves_rows (ask_llm env prompt parse)"
  unfolding ask_llm_def by (intro leaves)

lemma leaves_extractFacts [leaves]: "leaves_rows (extractFacts env conversation)"
  unfolding extractFacts_def by (intro leaves)

lemma leaves_embed_if_needed [leaves]: "leaves_rows (embed_if_needed env content v)"
  unfolding embed_if_needed_def by (intro leaves)

subsection \<open>What a search returns\<close>

definition refers :: "Row list \<Rightarrow> 'f Memory \<Rightarrow> bool" where
  "refers rows m \<longleftrightarrow> (\<exists>r \<in> set rows. r_id r = mm_ID m \<and> type_or_pinned (r_type r) = mm_MemoryType m)"

lemma picked_matches: "(r, x) \<in> set (picked matched sel limit) \<Longrightarrow> r \<in> set matched"
  by (auto simp: picked_def dest!: in_set_takeD)

lemma valid_search_rows:
  "valid (\<lambda>s. db_rows s = rows) (search_rows env q P limit)
     (\<lambda>rs s. db_rows s = rows \<and> (\<forall>rx \<in> set rs. fst rx \<in> set rows \<and> P (fst rx))) (\<lambda>_ s. db_rows s = rows)"
  unfolding valid_def search_rows_def Let_def
  by (auto split: prod.splits option.splits dest!: picked_matches)

lemma scan_refers: "r \<in> set rows \<Longrightarrow> refers rows (scanMemory env r)"
  by (auto simp: refers_def scanMemory_def)

lemma refers_update [simp]:
  "refers rows (m\<lparr>mm_Score := x\<rparr>) = refers rows m" "refers rows (m\<lparr>mm_Content := t\<rparr>) = refers rows m"
  by (simp_all add: refers_def)

definition finds :: "Row list \<Rightarrow> ('w, 'f Memory list) rop \<Rightarrow> bool" where
  "finds rows m \<longleftrightarrow> valid (\<lambda>s. db_rows s = rows) m
     (\<lambda>ms s. db_rows s = rows \<and> (\<forall>x \<in> set ms. refers rows x)) (\<lambda>_ s. db_rows s = rows)"

lemma finds_scan:
  assumes "\<And>r x. r \<in> set rows \<Longrightarrow> refers rows (scan (r, x))"
  shows "finds rows (bind (search_rows env q P limit) (\<lambda>rs. return (map scan rs)))"
  unfolding finds_def
  by (rule valid_bind[OF _ valid_search_rows]) (rule valid_pre[OF valid_return], use assms in force)

lemmas scans = scanMemoryRows_def scanMemoryRowsWithDistance_def scanMemoryRowsWithFTSScore_def

lemma finds_FTSSearch: "finds rows (repo_FTSSearch env q f limit)"
  unfolding repo_FTSSearch_def by (rule finds_scan) (simp add: scans scan_refers)

lemma finds_KeywordSearch: "finds rows (repo_KeywordSearch env q f limit)"
  unfolding repo_KeywordSearch_def by (rule finds_scan) (simp add: scans scan_refers)

lemma finds_AutoVectorSearch: "finds rows (repo_AutoVectorSearch env q f limit)"
  unfolding repo_AutoVectorSearch_def by (rule finds_scan) (simp add: scans scan_refers)

lemma finds_VectorSearch: "finds rows (repo_VectorSearch env v f limit)"
proof (cases "vecColumn v = None")
  case True
  then show ?thesis by (simp add: repo_VectorSearch_def finds_def valid_def return_def)
next
  case False
  then show ?thesis
    unfolding repo_VectorSearch_def by (simp only: if_False) (rule finds_scan, simp add: scans scan_refers)
qed

lemma finds_fts_or_keyword: "finds rows (fts_or_keyword env q f limit)"
  by (simp add: fts_or_keyword_def finds_FTSSearch finds_KeywordSearch)

subsection \<open>Gathering\<close>

lemma addUnseen_refers:
  "\<forall>x \<in> set (ga_result g). refers rows x \<Longrightarrow> \<forall>x \<in> set ms. refers rows x \<Longrightarrow>
   \<forall>x \<in> set (ga_result (addUnseen env ms th g)). refers rows x"
proof (induction ms arbitrary: g)
  case (Cons m ms)
  show ?case
    unfolding addUnseen.simps by (rule Cons.IH) (use Cons.prems in auto)
qed simp

definition gathers :: "Row list \<Rightarrow> ('w, 'f Gathered) rop \<Rightarrow> bool" where
  "gathers rows m \<longleftrightarrow> valid (\<lambda>s. db_rows s = rows) m
     (\<lambda>g s. db_rows s = rows \<and> (\<forall>x \<in> set (ga_result g). refers rows x)) (\<lambda>_ s. db_rows s = rows)"

lemma gathers_return: "\<forall>x \<in> set (ga_result g). refers rows x \<Longrightarrow> gathers rows (return g)"
  by (simp add: gathers_def valid_def return_def)

lemma gathers_try_search:
  assumes "finds rows search" and "\<forall>x \<in> set (ga_result g). refers rows x"
  shows "gathers rows (try_search env search th g)"
  unfolding gathers_def try_search_def
proof (rule valid_bind)
  show "valid (\<lambda>s. db_rows s = rows) (attempt search)
      (\<lambda>r s. db_rows s = rows \<and> (case r of Inl _ \<Rightarrow> True | Inr ms \<Rightarrow> \<forall>x \<in> set ms. refers rows x)) (\<lambda>_ s. db_rows s = rows)"
    by (rule valid_attempt) (use assms(1) in \<open>simp add: finds_def\<close>)
next
  fix r
  show "valid (\<lambda>s. db_rows s = rows \<and> (case r of Inl _ \<Rightarrow> True | Inr ms \<Rightarrow> \<forall>x \<in> set ms. refers rows x))
    (let g' = g\<lparr>ga_attempts := ga_attempts g + 1\<rparr> in
     return (case r of Inl _ \<Rightarrow> g' | Inr ms \<Rightarrow> addUnseen env ms th (g'\<lparr>ga_successes := ga_successes g' + 1\<rparr>)))
    (\<lambda>g s. db_rows s = rows \<and> (\<forall>x \<in> set (ga_result g). refers rows x)) (\<lambda>_ s. db_rows s = rows)"
    unfolding Let_def
  proof (rule valid_pre[OF valid_return], elim conjE, rule conjI, assumption)
    assume "case r of Inl _ \<Rightarrow> True | Inr ms \<Rightarrow> \<forall>x \<in> set ms. refers rows x"
    then show "\<forall>x \<in> set (ga_result (case r of Inl _ \<Rightarrow> g\<lparr>ga_attempts := ga_attempts g + 1\<rparr>
        | Inr ms \<Rightarrow> addUnseen env ms th (g\<lparr>ga_attempts := ga_attempts g + 1,
            ga_successes := ga_successes (g\<lparr>ga_attempts := ga_attempts g + 1\<rparr>) + 1\<rparr>))). refers rows x"
    proof (cases r)
      case (Inr ms)
      assume "case r of Inl _ \<Rightarrow> True | Inr ms \<Rightarrow> \<forall>x \<in> set ms. refers rows x"
      with Inr show ?thesis
        by (simp only: sum.case) (rule addUnseen_refers, use assms(2) in simp, assumption)
    qed (use assms(2) in simp)
  qed
qed

lemma gathers_bind:
  assumes "gathers rows m" and "\<And>g. \<forall>x \<in> set (ga_result g). refers rows x \<Longrightarrow> gathers rows (k g)"
  shows "gathers rows (bind m k)"
  unfolding gathers_def
  by (rule valid_bind[OF _ assms(1)[unfolded gathers_def]])
    (use assms(2) in \<open>fastforce simp: gathers_def valid_def\<close>)

lemma gathers_vector_leg:
  assumes "\<forall>x \<in> set (ga_result g). refers rows x"
  shows "gathers rows (vector_leg env f fct vec g)"
  using assms unfolding vector_leg_def
  by (simp add: gathers_try_search gathers_return finds_AutoVectorSearch finds_VectorSearch)

lemma gathers_gather_facts:
  "\<forall>x \<in> set (ga_result g). refers rows x \<Longrightarrow> gathers rows (gather_facts env f facts g)"
proof (induction facts arbitrary: g)
  case (Cons p facts)
  obtain fct vec where p: "p = (fct, vec)" by (cases p)
  show ?case
    unfolding p gather_facts.simps
    by (intro gathers_bind) (use Cons in \<open>auto intro: gathers_return gathers_vector_leg gathers_try_search finds_fts_or_keyword\<close>)
qed (simp add: gathers_return)

lemma finds_gatherExistingMemories: "finds rows (gatherExistingMemories env agentID facts)"
proof -
  let ?start = "\<lparr>ga_seen = {}, ga_result = [], ga_attempts = 0, ga_successes = 0\<rparr>"
  have run: "gathers rows (gather_facts env (gather_filter env agentID) fs ?start)" for fs
    by (rule gathers_gather_facts) simp
  have vectors: "valid (\<lambda>s. db_rows s = rows) (if b then ask f else return None) (\<lambda>_ s. db_rows s = rows) (\<lambda>_ s. db_rows s = rows)"
    for b f
    using valid_ask[of "\<lambda>r. r = rows"] valid_return by (cases b) (simp, fastforce)+
  show ?thesis
    unfolding finds_def gatherExistingMemories_def
    by (rule valid_bind[OF _ vectors], rule valid_bind[OF _ run[unfolded gathers_def]])
      (auto simp: valid_def seq_def bind_def failIf_def throw_def return_def dest: in_set_takeD)
qed

end
