(* ===== verification/MemHistory.thy ===== *)
theory MemHistory
  imports MemProofs
begin

text \<open>
  Two relations on the table. An ingest only grows it: the rows that were there stay, in
  place, but for those it retires, and new ones are active insights of its agent, with the
  identifiers it reports among them. And over the whole service the table keeps the history
  of its memories: an archived one names a successor that was inserted later.
\<close>

subsection \<open>Rows an ingest may retire\<close>

definition pinned_row :: "Row \<Rightarrow> bool" where
  "pinned_row r \<longleftrightarrow> type_or_pinned (r_type r) = TypePinned"

definition retired :: "Row \<Rightarrow> Row \<Rightarrow> bool" where
  "retired r r' \<longleftrightarrow> r' = r \<or>
     (r_state r = StateActive \<and> \<not> pinned_row r \<and>
      (\<exists>t n. r' = r\<lparr>r_state := StateDeleted, r_updated := t\<rparr> \<or>
             r' = r\<lparr>r_state := StateArchived, r_superseded := Some n, r_updated := t\<rparr>))"

definition insight_row :: "string \<Rightarrow> Row \<Rightarrow> bool" where
  "insight_row agentName r \<longleftrightarrow>
     r_type r = TypeInsight \<and> r_state r = StateActive \<and> r_source r = nullString agentName \<and>
     r_version r = 1 \<and> r_superseded r = None"

definition grown :: "Row list \<Rightarrow> string \<Rightarrow> string list \<Rightarrow> Row list \<Rightarrow> bool" where
  "grown rows0 agentName ids rows \<longleftrightarrow>
     distinct (map r_id rows) \<and>
     (\<exists>old new. rows = old @ new \<and> list_all2 retired rows0 old \<and> (\<forall>r \<in> set new. insight_row agentName r) \<and>
        subseq ids (map r_id new))"

lemma retired_id: "retired r r' \<Longrightarrow> r_id r' = r_id r"
  by (auto simp: retired_def)

lemma retired_active: "retired r r' \<Longrightarrow> r_state r' = StateActive \<Longrightarrow> r' = r"
  by (auto simp: retired_def memory_states)

lemma grownI:
  "rows = old @ new \<Longrightarrow> distinct (map r_id rows) \<Longrightarrow> list_all2 retired rows0 old \<Longrightarrow>
   \<forall>r \<in> set new. insight_row agentName r \<Longrightarrow> subseq ids (map r_id new) \<Longrightarrow> grown rows0 agentName ids rows"
  unfolding grown_def by blast

lemma grown_start: "distinct (map r_id rows) \<Longrightarrow> grown rows agentName [] rows"
  by (rule grownI[of rows rows "[]"]) (auto simp: retired_def intro!: list_all2_refl)

lemma grown_weaken:
  assumes "grown rows0 a (ids @ [i]) rows"
  shows "grown rows0 a ids rows"
proof -
  have "subseq ids (ids @ [i])" by (simp add: prefix_imp_subseq)
  with assms show ?thesis unfolding grown_def using subseq_order.order_trans by blast
qed

lemma grown_insert:
  assumes "grown rows0 a ids rows" and "insert_rows [r] rows = Some (rows', n)" and "insight_row a r"
  shows "grown rows0 a (ids @ [r_id r]) rows'"
proof -
  from assms(1) obtain old new where rows: "rows = old @ new" "list_all2 retired rows0 old"
    "\<forall>x \<in> set new. insight_row a x" "subseq ids (map r_id new)" and d: "distinct (map r_id rows)"
    by (auto simp: grown_def)
  from assms(2) have rows': "rows' = old @ (new @ [r])" "r_id r \<notin> r_id ` set rows"
    using rows(1) by (auto simp: insert_rows_def split: if_splits)
  moreover have "subseq (ids @ [r_id r]) (map r_id (new @ [r]))"
    using rows(4) by simp
  ultimately show ?thesis
    using rows d assms(3) by (intro grownI[of rows' old "new @ [r]"]) auto
qed

lemma grown_update:
  assumes g: "grown rows0 a ids rows" and r0: "r0 \<in> set rows0" "r_id r0 = t" "\<not> pinned_row r0"
    and f: "\<And>r. r_state r = StateActive \<Longrightarrow> \<not> pinned_row r \<Longrightarrow> retired r (f r)"
    and up: "update_rows (\<lambda>r. r_id r = t \<and> r_state r = StateActive) f rows = Some (rows', n)"
  shows "grown rows0 a ids rows'"
proof -
  let ?g = "\<lambda>r. if r_id r = t \<and> r_state r = StateActive then f r else r"
  from g obtain old new where rows: "rows = old @ new" "list_all2 retired rows0 old"
    "\<forall>x \<in> set new. insight_row a x" "subseq ids (map r_id new)" and d: "distinct (map r_id rows)"
    by (auto simp: grown_def)
  have ids: "map r_id old = map r_id rows0"
    using rows(2) by (auto simp: list_all2_conv_all_nth retired_id intro: nth_equalityI)
  then have t_old: "t \<in> set (map r_id old)" using r0 by (metis image_eqI list.set_map)
  then have new: "map ?g new = new"
    using d rows(1) by (intro map_idI) auto
  have one: "r = r0" if "r \<in> set rows0" "r_id r = t" for r
    using that r0 ids d rows(1) by (auto dest: inj_onD simp: distinct_map)
  have old: "list_all2 retired rows0 (map ?g old)"
    unfolding list_all2_conv_all_nth
  proof (intro conjI allI impI)
    show len: "length rows0 = length (map ?g old)" using rows(2) by (auto dest: list_all2_lengthD)
    fix i assume i: "i < length rows0"
    then have ret: "retired (rows0 ! i) (old ! i)" using rows(2) by (auto simp: list_all2_conv_all_nth)
    show "retired (rows0 ! i) (map ?g old ! i)"
    proof (cases "r_id (old ! i) = t \<and> r_state (old ! i) = StateActive")
      case True
      with ret have same: "old ! i = rows0 ! i" by (auto dest: retired_active)
      with one[of "rows0 ! i"] True i have "rows0 ! i = r0" by (auto dest: nth_mem)
      with f[of "rows0 ! i"] True same r0 i len show ?thesis by simp
    qed (use ret i len in auto)
  qed
  have ids': "map r_id (map ?g old) = map r_id old"
    using old ids by (auto simp: list_all2_conv_all_nth retired_id intro: nth_equalityI)
  have "rows' = map ?g old @ new"
    using up rows(1) new by (simp add: update_rows_def)
  moreover have "distinct (map r_id (map ?g old @ new))"
    using d rows(1) ids' by (simp only: map_append)
  ultimately show ?thesis
    using old rows(3,4) by (intro grownI[of rows' "map ?g old" new]) simp_all
qed

subsection \<open>The writes of an ingest\<close>

abbreviation grows where
  "grows rows0 a ids s \<equiv> grown rows0 a ids (db_rows s)"

lemma insight_new_row: "insight_row a (new_row env now (new_insight mid a agentID sessionID content v t))"
  by (simp add: insight_row_def new_row_def new_insight_def type_or_pinned_def memory_types)

lemma new_row_id [simp]: "r_id (new_row env now (new_insight mid a agentID sessionID content v t)) = mid"
  by (simp add: new_row_def new_insight_def)

lemma valid_insert_insight:
  "valid (grows rows0 a ids) (insert_memory env (new_insight mid a agentID sessionID content v t))
     (\<lambda>_. grows rows0 a (ids @ [mid])) (\<lambda>_. grows rows0 a ids)"
  unfolding insert_memory_def
proof (rule valid_exec)
  fix now rows rows' n
  assume g: "grown rows0 a ids rows"
    and ins: "insert_rows [new_row env now (new_insight mid a agentID sessionID content v t)] rows = Some (rows', n)"
  from grown_insert[OF g ins insight_new_row]
  show "grown rows0 a (ids @ [mid]) rows' \<and> grown rows0 a ids rows'"
    by (simp add: grown_weaken)
qed

lemma valid_then_return:
  "valid P m (\<lambda>_. Q x) E \<Longrightarrow> valid P (bind m (\<lambda>_. return x)) Q E"
  by (rule valid_bind[where R = "\<lambda>_. Q x"]) (rule valid_return)

lemma valid_seq_return: "valid P m (\<lambda>_. Q x) E \<Longrightarrow> valid P (seq m (return x)) Q E"
  unfolding seq_def by (rule valid_then_return)

lemma valid_Create_insight:
  "valid (grows rows0 a ids) (repo_Create env (new_insight mid a agentID sessionID content v t))
     (\<lambda>_. grows rows0 a (ids @ [mid])) (\<lambda>_. grows rows0 a ids)"
  unfolding repo_Create_def by (rule valid_then_return, rule valid_insert_insight)

lemma valid_retire:
  assumes "r0 \<in> set rows0" "r_id r0 = t" "\<not> pinned_row r0"
    and "\<And>now r. r_state r = StateActive \<Longrightarrow> \<not> pinned_row r \<Longrightarrow> retired r (f now r)"
  shows "valid (grows rows0 a ids)
    (bind (exec env sql (\<lambda>now. update_rows (\<lambda>r. r_id r = t \<and> r_state r = StateActive) (f now)))
       (\<lambda>n. failIf (n = 0) MemNotFound)) (\<lambda>_. grows rows0 a ids) (\<lambda>_. grows rows0 a ids)"
proof (rule valid_bind)
  show "valid (grows rows0 a ids)
    (exec env sql (\<lambda>now. update_rows (\<lambda>r. r_id r = t \<and> r_state r = StateActive) (f now)))
    (\<lambda>_. grows rows0 a ids) (\<lambda>_. grows rows0 a ids)"
    by (rule valid_exec) (use grown_update[OF _ assms(1-3), where f = "f now" for now] assms(4) in blast)+
qed (rule valid_pre[OF valid_failIf], simp)

lemma valid_SetState_deleted:
  assumes "r0 \<in> set rows0" "r_id r0 = t" "\<not> pinned_row r0"
  shows "valid (grows rows0 a ids) (repo_SetState env t StateDeleted) (\<lambda>_. grows rows0 a ids) (\<lambda>_. grows rows0 a ids)"
  unfolding repo_SetState_def by (rule valid_retire[OF assms]) (auto simp: retired_def)

lemma valid_archive_row:
  assumes "r0 \<in> set rows0" "r_id r0 = t" "\<not> pinned_row r0"
  shows "valid (grows rows0 a ids) (archive_row env t newID) (\<lambda>_. grows rows0 a ids) (\<lambda>_. grows rows0 a ids)"
  unfolding archive_row_def by (rule valid_retire[OF assms]) (auto simp: retired_def)

lemma valid_ArchiveAndCreate:
  assumes "r0 \<in> set rows0" "r_id r0 = t" "\<not> pinned_row r0"
  shows "valid (grows rows0 a ids)
    (repo_ArchiveAndCreate env t newID (new_insight newID a agentID sessionID content v now))
    (\<lambda>_. grows rows0 a (ids @ [newID])) (\<lambda>_. grows rows0 a ids)"
  unfolding repo_ArchiveAndCreate_def
proof (rule valid_in_tx[where N = False])
  show "valid (grows rows0 a ids)
    (seq (archive_row env t newID)
      (bind (insert_memory env (new_insight newID a agentID sessionID content v now)) (\<lambda>_. return True)))
    (\<lambda>b s. if b then grows rows0 a (ids @ [newID]) s else False) (\<lambda>_ _. True)"
    by (rule valid_weaken[OF valid_seq[OF valid_bind[OF _ valid_insert_insight] valid_archive_row[OF assms]]])
      (auto simp: valid_def return_def)
qed (auto dest: grown_weaken)

lemma grows_leaves:
  "leaves_rows m \<Longrightarrow> valid (grows rows0 a ids) m (\<lambda>_. grows rows0 a ids) (\<lambda>_. grows rows0 a ids)"
  by (rule leaves_valid)

lemma valid_addInsight:
  "valid (grows rows0 a ids) (addInsightWithEmbedding env a agentID sessionID content v)
     (\<lambda>mid. grows rows0 a (ids @ [mid])) (\<lambda>_. grows rows0 a ids)"
  unfolding addInsightWithEmbedding_def
  by (rule valid_bind, rule valid_bind, rule valid_bind, rule valid_seq_return, rule valid_Create_insight,
      rule valid_ask, rule valid_time_now, rule grows_leaves[OF leaves_embed_if_needed])

lemma valid_updateInsight:
  assumes "r0 \<in> set rows0" "r_id r0 = t" "\<not> pinned_row r0"
  shows "valid (grows rows0 a ids) (updateInsightWithEmbedding env a agentID sessionID t content v)
     (\<lambda>mid. grows rows0 a (ids @ [mid])) (\<lambda>_. grows rows0 a ids)"
  unfolding updateInsightWithEmbedding_def
  by (rule valid_bind, rule valid_bind, rule valid_bind, rule valid_seq_return, rule valid_ArchiveAndCreate[OF assms],
      rule valid_time_now, rule grows_leaves[OF leaves_embed_if_needed], rule valid_ask)

lemma valid_counted:
  assumes "valid (grows rows0 a ids) m (\<lambda>mid. grows rows0 a (ids @ [mid])) (\<lambda>_. grows rows0 a ids)"
  shows "valid (grows rows0 a ids) (counted m ids w) (\<lambda>(ids', w'). grows rows0 a ids') E"
  unfolding counted_def
proof (rule valid_bind)
  show "valid (grows rows0 a ids) (attempt m)
      (\<lambda>r. case r of Inl _ \<Rightarrow> grows rows0 a ids | Inr mid \<Rightarrow> grows rows0 a (ids @ [mid])) E"
    by (rule valid_attempt) (use assms in simp)
qed (auto simp: valid_def return_def split: sum.splits)

lemma valid_add_facts:
  "valid (grows rows0 a ids) (add_facts env a agentID sessionID now facts ids w)
     (\<lambda>(ids', w'). grows rows0 a ids') (\<lambda>_ _. False)"
proof (induction facts arbitrary: ids w)
  case Nil
  show ?case by (simp add: valid_def return_def)
next
  case (Cons p facts)
  obtain fct vec where p: "p = (fct, vec)" by (cases p)
  show ?case
    unfolding p add_facts.simps
  proof (rule valid_bind[OF valid_bind valid_ask])
    fix mid
    show "valid (grows rows0 a ids) (attempt (repo_Create env (new_insight mid a agentID sessionID fct vec now)))
      (\<lambda>r. case r of Inl _ \<Rightarrow> grows rows0 a ids | Inr _ \<Rightarrow> grows rows0 a (ids @ [mid])) (\<lambda>_ _. False)"
      by (rule valid_attempt) (use valid_Create_insight in simp)
  next
    fix mid and r :: "mem_error + unit"
    show "valid (case r of Inl _ \<Rightarrow> grows rows0 a ids | Inr _ \<Rightarrow> grows rows0 a (ids @ [mid]))
      (case r of Inl _ \<Rightarrow> add_facts env a agentID sessionID now facts ids (w + 1)
       | Inr _ \<Rightarrow> add_facts env a agentID sessionID now facts (ids @ [mid]) w)
      (\<lambda>(ids', w'). grows rows0 a ids') (\<lambda>_ _. False)"
      using Cons.IH by (cases r) simp_all
  qed
qed

subsection \<open>Reconciliation\<close>

fun action_ok :: "nat \<Rightarrow> Action \<Rightarrow> bool" where
  "action_ok n (ActUpdate eid text idx) \<longleftrightarrow> 0 \<le> parseIntID eid \<and> parseIntID eid < int n"
| "action_ok n _ \<longleftrightarrow> True"

lemma plan_actions_ok:
  "list_all (action_ok n) acts \<Longrightarrow> list_all (action_ok n) (snd (plan_actions wants n es texts acts))"
proof (induction es arbitrary: texts acts)
  case (Cons e es)
  then show ?case unfolding plan_actions.simps Let_def by (auto simp del: plan_actions.simps)
qed simp

lemma refers_unpinned:
  assumes "refers rows m" "mm_MemoryType m \<noteq> TypePinned"
  obtains r where "r \<in> set rows" "r_id r = mm_ID m" "\<not> pinned_row r"
  using assms by (auto simp: refers_def pinned_row_def)

lemma valid_perform_action:
  assumes refs: "\<forall>x \<in> set existing. refers rows0 x" and ok: "action_ok (length existing) act"
  shows "valid (grows rows0 a ids) (perform_action env a agentID sessionID existing vectors act ids w)
    (\<lambda>(ids', w'). grows rows0 a ids') (\<lambda>_ _. False)"
proof (cases act)
  case (ActAdd content idx)
  then show ?thesis by (simp add: perform_action_def valid_counted valid_addInsight)
next
  case (ActUpdate eid content idx)
  let ?m = "existing ! nat (parseIntID eid)"
  have inside: "0 \<le> parseIntID eid" "parseIntID eid < int (length existing)" using ok ActUpdate by auto
  then have "refers rows0 ?m" using refs by simp
  then show ?thesis
  proof (cases "mm_MemoryType ?m = TypePinned")
    case True
    then show ?thesis using ActUpdate inside by (simp add: perform_action_def Let_def valid_counted valid_addInsight)
  next
    case False
    with \<open>refers rows0 ?m\<close> obtain r where "r \<in> set rows0" "r_id r = mm_ID ?m" "\<not> pinned_row r"
      by (rule refers_unpinned)
    note upd = valid_counted[OF valid_updateInsight[OF this]]
    show ?thesis
      using ActUpdate inside False by (simp add: perform_action_def Let_def upd)
  qed
next
  case (ActDelete eid)
  let ?m = "existing ! nat (parseIntID eid)"
  show ?thesis
  proof (cases "0 \<le> parseIntID eid \<and> parseIntID eid < int (length existing) \<and> mm_MemoryType ?m \<noteq> TypePinned")
    case True
    then have "refers rows0 ?m" "mm_MemoryType ?m \<noteq> TypePinned" using refs by auto
    then obtain r where "r \<in> set rows0" "r_id r = mm_ID ?m" "\<not> pinned_row r"
      by (rule refers_unpinned)
    note del = valid_SetState_deleted[OF this]
    have "valid (grows rows0 a ids)
      (bind (attempt (repo_SetState env (mm_ID ?m) StateDeleted)) (\<lambda>r.
         return (case r of Inl e \<Rightarrow> (ids, if e = MemNotFound then w else w + 1) | Inr _ \<Rightarrow> (ids, w))))
      (\<lambda>(ids', w'). grows rows0 a ids') (\<lambda>_ _. False)"
    proof (rule valid_bind[where R = "\<lambda>_. grows rows0 a ids"])
      show "valid (grows rows0 a ids) (attempt (repo_SetState env (mm_ID ?m) StateDeleted))
        (\<lambda>_. grows rows0 a ids) (\<lambda>_ _. False)"
        by (rule valid_attempt) (rule del)
    qed (auto simp: valid_def return_def split: sum.splits)
    with True ActDelete show ?thesis by (simp add: perform_action_def Let_def)
  qed (use ActDelete in \<open>auto simp: perform_action_def Let_def valid_def return_def\<close>)
next
  case ActNone
  then show ?thesis by (simp add: perform_action_def valid_def return_def)
qed

lemma valid_perform_actions:
  assumes "\<forall>x \<in> set existing. refers rows0 x" "list_all (action_ok (length existing)) acts"
  shows "valid (grows rows0 a ids) (perform_actions env a agentID sessionID existing vectors acts ids w)
    (\<lambda>(ids', w'). grows rows0 a ids') (\<lambda>_ _. False)"
  using assms(2)
proof (induction acts arbitrary: ids w)
  case (Cons act acts)
  have step: "valid (case iw of (ids', w') \<Rightarrow> grows rows0 a ids')
    (case iw of (ids', w') \<Rightarrow> perform_actions env a agentID sessionID existing vectors acts ids' w')
    (\<lambda>(ids', w'). grows rows0 a ids') (\<lambda>_ _. False)" for iw
    using Cons by (cases iw) simp
  show ?case
    unfolding perform_actions.simps
    by (rule valid_bind[OF step valid_perform_action]) (use assms(1) Cons.prems in auto)
qed (simp add: valid_def return_def)

text \<open>A reconciliation that fails has written nothing.\<close>

lemma valid_reconcile:
  assumes "distinct (map r_id rows0)"
  shows "valid (\<lambda>s. db_rows s = rows0) (reconcile env a agentID sessionID facts)
    (\<lambda>(ids, w). grows rows0 a ids) (\<lambda>_ s. db_rows s = rows0)"
  unfolding reconcile_def
proof (rule valid_bind[OF _ finds_gatherExistingMemories[unfolded finds_def]])
  fix existing :: "'b Memory list"
  let ?P = "\<lambda>s. db_rows s = rows0 \<and> (\<forall>x \<in> set existing. refers rows0 x)"
  have start: "valid ?P m (\<lambda>(ids, w). grows rows0 a ids) (\<lambda>_ s. db_rows s = rows0)"
    if "(\<forall>x \<in> set existing. refers rows0 x) \<Longrightarrow>
        valid (grows rows0 a []) m (\<lambda>(ids, w). grows rows0 a ids) (\<lambda>_ _. False)" for m :: "('a, string list \<times> int) rop"
    using that grown_start[OF assms] unfolding valid_def by (fastforce split: prod.splits sum.splits)
  have vectors: "valid (grows rows0 a []) (if b then ask f else return None) (\<lambda>_. grows rows0 a []) (\<lambda>_ _. False)"
    for b f
    using valid_ask[of "grown rows0 a []"] valid_return[of "\<lambda>_. grows rows0 a []"] by (cases b) (simp, fastforce)+
  show "valid ?P
    (if existing = [] then addAllFacts env a agentID sessionID facts
     else bind (time_now env) (\<lambda>now.
       bind (attempt (ask_llm env (PromptReconcile (memory_refs env now existing) facts) (me_ParseEvents env))) (\<lambda>r.
       case r of
         Inl _ \<Rightarrow> return ([], 1)
       | Inr events \<Rightarrow>
           (case plan_actions (local_embedding env) (length existing) events [] [] of
              (texts, acts) \<Rightarrow>
                bind (if texts \<noteq> [] \<and> local_embedding env then ask (me_EmbedBatch env texts) else return None) (\<lambda>vectors.
                perform_actions env a agentID sessionID existing vectors acts [] 0)))))
    (\<lambda>(ids, w). grows rows0 a ids) (\<lambda>_ s. db_rows s = rows0)"
  proof (cases "existing = []")
    case True
    then show ?thesis
      unfolding addAllFacts_def if_P[OF True]
      by (intro start valid_bind[OF valid_bind[OF valid_add_facts valid_time_now] vectors])
  next
    case False
    have act: "valid (grows rows0 a [])
      (case plan_actions (local_embedding env) (length existing) events [] [] of
         (texts, acts) \<Rightarrow>
           bind (if texts \<noteq> [] \<and> local_embedding env then ask (me_EmbedBatch env texts) else return None) (\<lambda>vectors.
           perform_actions env a agentID sessionID existing vectors acts [] 0))
      (\<lambda>(ids, w). grows rows0 a ids) (\<lambda>_ _. False)" if "\<forall>x \<in> set existing. refers rows0 x" for events
    proof (cases "plan_actions (local_embedding env) (length existing) events [] []")
      case (Pair texts acts)
      then have "list_all (action_ok (length existing)) acts"
        using plan_actions_ok[of "length existing" "[]" "local_embedding env" events "[]"] by simp
      from valid_perform_actions[OF that this] show ?thesis
        unfolding Pair prod.case by (rule valid_bind[OF _ vectors])
    qed
    have asked: "valid (grows rows0 a []) (attempt m) (\<lambda>_. grows rows0 a []) (\<lambda>_ _. False)"
      if "leaves_rows m" for m :: "('a, reconcileEvent list) rop"
      by (rule valid_attempt) (rule grows_leaves[OF that])
    show ?thesis
      unfolding if_not_P[OF False]
    proof (intro start valid_bind[OF valid_bind[OF _ asked[OF leaves_ask_llm]] valid_time_now])
      fix r :: "mem_error + reconcileEvent list"
      assume "\<forall>x \<in> set existing. refers rows0 x"
      from act[OF this]
      show "valid (grows rows0 a [])
        (case r of
           Inl _ \<Rightarrow> return ([], 1)
         | Inr events \<Rightarrow>
             (case plan_actions (local_embedding env) (length existing) events [] [] of
                (texts, acts) \<Rightarrow>
                  bind (if texts \<noteq> [] \<and> local_embedding env then ask (me_EmbedBatch env texts) else return None) (\<lambda>vectors.
                  perform_actions env a agentID sessionID existing vectors acts [] 0)))
        (\<lambda>(ids, w). grows rows0 a ids) (\<lambda>_ _. False)"
        by (cases r) (simp_all add: valid_def return_def)
    qed
  qed
qed

text \<open>
  The history invariant of the table and its proof for every operation of the service: the
  identifiers are distinct, an archived memory names a successor, and a named successor was
  inserted later. Inside the transaction that archives a memory its successor is pending.
\<close>

definition history :: "string set \<Rightarrow> Row list \<Rightarrow> bool" where
  "history pending rows \<longleftrightarrow>
     distinct (map r_id rows) \<and>
     (\<forall>i < length rows.
        (r_state (rows ! i) = StateArchived \<longrightarrow> r_superseded (rows ! i) \<noteq> None) \<and>
        (\<forall>n. r_superseded (rows ! i) = Some n \<longrightarrow>
           n \<in> pending \<or> (\<exists>j < length rows. i < j \<and> r_id (rows ! j) = n)))"

lemma history_weaken: "history P rows \<Longrightarrow> P \<subseteq> P' \<Longrightarrow> history P' rows"
  unfolding history_def by blast

lemma history_insert:
  assumes h: "history pending rows" and ins: "insert_rows new rows = Some (rows', n)"
    and new: "\<forall>r \<in> set new. r_state r = StateActive \<and> r_superseded r = None" and p: "pending \<subseteq> r_id ` set new"
  shows "history {} rows'"
proof -
  from ins have rows': "rows' = rows @ new" and d: "distinct (map r_id (rows @ new))"
    using h by (auto simp: insert_rows_def history_def split: if_splits) (metis imageI)+
  have "(r_state (rows' ! i) = StateArchived \<longrightarrow> r_superseded (rows' ! i) \<noteq> None) \<and>
    (\<forall>n. r_superseded (rows' ! i) = Some n \<longrightarrow> (\<exists>j < length rows'. i < j \<and> r_id (rows' ! j) = n))"
    if i: "i < length rows'" for i
  proof (cases "i < length rows")
    case True
    have "\<exists>j < length rows'. i < j \<and> r_id (rows' ! j) = n" if "r_superseded (rows ! i) = Some n" for n
    proof -
      from h True that consider "n \<in> pending" | j where "j < length rows" "i < j" "r_id (rows ! j) = n"
        unfolding history_def by blast
      then show ?thesis
      proof cases
        case 1
        with p obtain k where "k < length new" "r_id (new ! k) = n"
          by (metis (no_types, lifting) imageE in_set_conv_nth subsetD)
        with True rows' show ?thesis by (intro exI[of _ "length rows + k"]) (simp add: nth_append)
      next
        case 2
        with rows' show ?thesis by (intro exI[of _ j]) (simp add: nth_append)
      qed
    qed
    with h True rows' show ?thesis unfolding history_def by (simp add: nth_append)
  next
    case False
    with i rows' have "rows' ! i \<in> set new" by (simp add: nth_append)
    with new show ?thesis by (auto simp: memory_states)
  qed
  with d rows' show ?thesis unfolding history_def by blast
qed

lemma history_update:
  assumes h: "history P rows" and up: "update_rows sel f rows = Some (rows', n)" and sub: "P \<subseteq> P'"
    and f: "\<And>r. sel r \<Longrightarrow> r_id (f r) = r_id r \<and>
      ((r_superseded (f r) = r_superseded r \<and> (r_state (f r) = StateArchived \<longrightarrow> r_state r = StateArchived)) \<or>
       (\<exists>n \<in> P'. r_superseded (f r) = Some n))"
  shows "history P' rows'"
proof -
  let ?g = "\<lambda>r. if sel r then f r else r"
  from up have rows': "rows' = map ?g rows" by (simp add: update_rows_def)
  have ids: "r_id (?g r) = r_id r" for r using f by simp
  have ids_eq: "map r_id rows' = map r_id rows" unfolding rows' by (simp add: ids)
  have at: "(r_state (rows' ! i) = StateArchived \<longrightarrow> r_superseded (rows' ! i) \<noteq> None) \<and>
    (\<forall>n. r_superseded (rows' ! i) = Some n \<longrightarrow> n \<in> P' \<or> (\<exists>j < length rows. i < j \<and> r_id (rows ! j) = n))"
    if i: "i < length rows" for i
  proof -
    have old: "(r_state (rows ! i) = StateArchived \<longrightarrow> r_superseded (rows ! i) \<noteq> None) \<and>
      (\<forall>n. r_superseded (rows ! i) = Some n \<longrightarrow> n \<in> P \<or> (\<exists>j < length rows. i < j \<and> r_id (rows ! j) = n))"
      using h i unfolding history_def by blast
    show ?thesis
    proof (cases "sel (rows ! i)")
      case False
      then show ?thesis using old sub i unfolding rows' by auto
    next
      case True
      with i have at: "rows' ! i = f (rows ! i)" unfolding rows' by simp
      from f[OF True] show ?thesis
      proof (elim conjE disjE bexE)
        assume sup: "r_superseded (f (rows ! i)) = r_superseded (rows ! i)"
          and st: "r_state (f (rows ! i)) = StateArchived \<longrightarrow> r_state (rows ! i) = StateArchived"
        from old sub st show ?thesis unfolding at sup by blast
      next
        fix m assume "m \<in> P'" "r_superseded (f (rows ! i)) = Some m"
        then show ?thesis unfolding at by simp
      qed
    qed
  qed
  have same: "length rows' = length rows" "\<And>j. j < length rows \<Longrightarrow> r_id (rows' ! j) = r_id (rows ! j)"
    unfolding rows' using ids by simp_all
  have "distinct (map r_id rows')" using h by (simp only: ids_eq history_def)
  moreover have "\<exists>j < length rows'. i < j \<and> r_id (rows' ! j) = n"
    if "\<exists>j < length rows. i < j \<and> r_id (rows ! j) = n" for i n
    using that same by auto
  ultimately show ?thesis unfolding history_def same(1) using at same by blast
qed

subsection \<open>Operations that keep a property of the table\<close>

lemma keeps_leaves: "leaves_rows m \<Longrightarrow> keeps (\<lambda>s. P (db_rows s)) m"
  by (simp add: leaves_rows_def keeps_def)

lemma keeps_exec:
  assumes "\<And>now rows rows' n. P rows \<Longrightarrow> f now rows = Some (rows', n) \<Longrightarrow> P rows'"
  shows "keeps (\<lambda>s. P (db_rows s)) (exec env sql f)"
  unfolding keeps_valid by (rule valid_exec) (use assms in blast)+

lemma keeps_in_tx:
  assumes "valid (\<lambda>s. P (db_rows s)) body (\<lambda>_ s. P (db_rows s)) (\<lambda>_ _. True)"
  shows "keeps (\<lambda>s. P (db_rows s)) (in_tx env body)"
  unfolding keeps_valid
  by (rule valid_in_tx[where N = True]) (rule valid_weaken[OF assms], simp_all)

abbreviation recorded :: "'w MemDB \<Rightarrow> bool" where
  "recorded s \<equiv> history {} (db_rows s)"

lemma new_row_fields: "r_state (new_row env now m) = StateActive \<and> r_superseded (new_row env now m) = None"
  by (simp add: new_row_def)

lemma recorded_insert [kept]: "keeps recorded (insert_memory env m)"
  unfolding insert_memory_def
  by (rule keeps_exec, rule history_insert) (auto simp: new_row_fields)

lemma recorded_Create [kept]: "keeps recorded (repo_Create env m)"
  unfolding repo_Create_def by (intro kept)

lemma leaves_GetByID [leaves]: "leaves_rows (repo_GetByID env mid)"
  unfolding repo_GetByID_def by (intro leaves)

lemma recorded_UpdateOptimistic [kept]: "keeps recorded (repo_UpdateOptimistic env m v)"
  unfolding repo_UpdateOptimistic_def
  by (intro kept keeps_exec, erule history_update, assumption) auto

lemma recorded_SetState: "st \<noteq> StateArchived \<Longrightarrow> keeps recorded (repo_SetState env mid st)"
  unfolding repo_SetState_def by (intro kept keeps_exec, erule history_update, assumption) auto

lemma recorded_SoftDelete [kept]: "keeps recorded (repo_SoftDelete env mid)"
  unfolding repo_SoftDelete_def
proof (rule keeps_in_tx)
  have del: "keeps recorded (exec env sql (\<lambda>now. update_rows (\<lambda>r. r_id r = mid)
      (\<lambda>r. r\<lparr>r_state := StateDeleted, r_updated := now\<rparr>)))" for sql
    by (rule keeps_exec, erule history_update, assumption) (auto simp: memory_states)
  have "keeps recorded (bind (query env mid (List.find (\<lambda>r. r_id r = mid))) (\<lambda>row.
      case row of
        None \<Rightarrow> throw MemNotFound
      | Some r \<Rightarrow>
          if r_state r = StateDeleted then return False
          else bind (exec env (\<lambda>_. SqlUpdate mid) (\<lambda>now. update_rows (\<lambda>r. r_id r = mid)
                 (\<lambda>r. r\<lparr>r_state := StateDeleted, r_updated := now\<rparr>))) (\<lambda>_. return True)))"
    by (intro kept del keeps_leaves[OF leaves_query])
  then show "valid recorded \<dots> (\<lambda>_. recorded) (\<lambda>_ _. True)"
    unfolding keeps_valid by (rule valid_weaken) simp_all
qed

lemma valid_archive_pending:
  "valid recorded (archive_row env mid n) (\<lambda>_ s. history {n} (db_rows s)) (\<lambda>_ _. True)"
  unfolding archive_row_def
proof (rule valid_bind)
  show "valid recorded (exec env (\<lambda>_. SqlUpdate mid) (\<lambda>now. update_rows (\<lambda>r. r_id r = mid \<and> r_state r = StateActive)
      (\<lambda>r. r\<lparr>r_state := StateArchived, r_superseded := Some n, r_updated := now\<rparr>)))
    (\<lambda>_ s. history {n} (db_rows s)) (\<lambda>_ _. True)"
    by (rule valid_exec, rule conjI, erule history_update, assumption) auto
qed (rule valid_pre[OF valid_failIf], simp)

lemma recorded_ArchiveAndCreate [kept]: "mm_ID m = n \<Longrightarrow> keeps recorded (repo_ArchiveAndCreate env mid n m)"
  unfolding repo_ArchiveAndCreate_def
proof (rule keeps_in_tx, rule valid_seq[OF _ valid_archive_pending], rule valid_then_return)
  assume "mm_ID m = n"
  then show "valid (\<lambda>s. history {n} (db_rows s)) (insert_memory env m) (\<lambda>_. recorded) (\<lambda>_ _. True)"
    unfolding insert_memory_def
    by - (rule valid_exec[where P = "history {n}" and E = "\<lambda>_. True"], rule conjI, erule history_insert,
        assumption, auto simp: new_row_fields new_row_def)
qed

lemma recorded_BulkCreate [kept]: "keeps recorded (repo_BulkCreate env ms)"
proof -
  have batch: "keeps recorded (bulkInsertBatch env b)" for b
    unfolding bulkInsertBatch_def
    by (intro kept keeps_exec, rule history_insert) (auto simp: new_row_fields)
  have "keeps recorded (seq (forEach (bulkInsertBatch env) (batches bulkBatchSize ms)) (return True))"
    by (intro kept batch)
  then have "valid recorded (seq (forEach (bulkInsertBatch env) (batches bulkBatchSize ms)) (return True))
      (\<lambda>_. recorded) (\<lambda>_ _. True)"
    unfolding keeps_valid by (rule valid_weaken) simp_all
  then show ?thesis
    unfolding repo_BulkCreate_def by (intro kept keeps_in_tx)
qed

end
