(* ===== verification/MemTheorems.thy ===== *)
theory MemTheorems
  imports MemHistory
begin

text \<open>
  The memory server's properties: what an ingest may do to the table, the history of
  superseded memories, a total outage of the searches, the text that stops the server, and
  the embedding that an update loses.
\<close>

subsection \<open>The ingest pipelines\<close>

inductive pipeline :: "('w, 'f, 'x) MemEnv_scheme \<Rightarrow> string \<Rightarrow> ('w, IngestResult) rop \<Rightarrow> bool" for env agentName where
  "Ingest env agentName req = Some m \<Longrightarrow> pipeline env agentName m"
| "pipeline env agentName (ReconcilePhase2 env agentName agentID sessionID facts)"
| "pipeline env agentName (ReconcileContent env agentName agentID sessionID contents)"

abbreviation grows_result where
  "grows_result rows0 a r s \<equiv> grown rows0 a (ir_InsightIDs r) (db_rows s) \<and> ir_MemoriesChanged r = int (length (ir_InsightIDs r))"

lemma grown_leaves_start:
  assumes "distinct (map r_id rows0)" "leaves_rows m"
  shows "valid (\<lambda>s. db_rows s = rows0) m (\<lambda>_ s. db_rows s = rows0) (\<lambda>_ s. grown rows0 a [] (db_rows s))"
  by (rule valid_weaken[OF leaves_valid[OF assms(2), of "\<lambda>r. r = rows0"]]) (use grown_start[OF assms(1)] in simp_all)

lemma result_simple:
  "distinct (map r_id rows0) \<Longrightarrow> valid (\<lambda>s. db_rows s = rows0) (return (simple_result st w)) (grows_result rows0 a) E"
  by (simp add: valid_def return_def simple_result_def grown_start)

lemma result_of_reconcile:
  assumes d: "distinct (map r_id rows0)"
    and m: "valid P m (\<lambda>(ids, w). grows rows0 a ids) (\<lambda>_ s. grown rows0 a [] (db_rows s))"
    and f: "\<And>e. ir_InsightIDs (f (Inl e)) = [] \<and> ir_MemoriesChanged (f (Inl e)) = 0"
           "\<And>ids w. ir_InsightIDs (f (Inr (ids, w))) = ids \<and> ir_MemoriesChanged (f (Inr (ids, w))) = int (length ids)"
  shows "valid P (bind (attempt m) (\<lambda>r. return (f r))) (grows_result rows0 a) E"
proof (rule valid_bind)
  show "valid P (attempt m) (\<lambda>r s. case r of Inl _ \<Rightarrow> grown rows0 a [] (db_rows s) | Inr (ids, w) \<Rightarrow> grows rows0 a ids s) E"
    by (rule valid_attempt) (rule valid_weaken[OF m], auto)
qed (rule valid_pre[OF valid_return], use f in \<open>auto split: sum.splits\<close>)

lemma reconciled_fields:
  "ir_InsightIDs (reconciled_result (Inl e)) = [] \<and> ir_MemoriesChanged (reconciled_result (Inl e)) = 0"
  "ir_InsightIDs (reconciled_result (Inr (ids, w))) = ids \<and>
   ir_MemoriesChanged (reconciled_result (Inr (ids, w))) = int (length ids)"
  by (simp_all add: reconciled_result_def simple_result_def)

lemma reconcile_from:
  assumes "distinct (map r_id rows0)"
  shows "valid (\<lambda>s. db_rows s = rows0) (reconcile env a agentID sessionID facts)
    (\<lambda>(ids, w). grows rows0 a ids) (\<lambda>_ s. grown rows0 a [] (db_rows s))"
  by (rule valid_weaken[OF valid_reconcile[OF assms]]) (use grown_start[OF assms] in simp_all)

lemma valid_ReconcilePhase2:
  assumes "distinct (map r_id rows0)"
  shows "valid (\<lambda>s. db_rows s = rows0) (ReconcilePhase2 env a agentID sessionID facts) (grows_result rows0 a)
    (\<lambda>_ s. grown rows0 a [] (db_rows s))"
  unfolding ReconcilePhase2_def
  by (split if_split, intro conjI impI, rule result_simple[OF assms],
      rule result_of_reconcile[OF assms reconcile_from[OF assms] reconciled_fields])

lemma valid_extractAndReconcile:
  assumes "distinct (map r_id rows0)"
  shows "valid (\<lambda>s. db_rows s = rows0) (extractAndReconcile env a agentID sessionID conversation)
    (\<lambda>(ids, w). grows rows0 a ids) (\<lambda>_ s. grown rows0 a [] (db_rows s))"
  unfolding extractAndReconcile_def
proof (rule valid_bind[OF _ grown_leaves_start[OF assms leaves_extractFacts]])
  fix facts
  show "valid (\<lambda>s. db_rows s = rows0)
    (if facts = [] then return ([], 0) else reconcile env a agentID sessionID (take maxFacts facts))
    (\<lambda>(ids, w). grows rows0 a ids) (\<lambda>_ s. grown rows0 a [] (db_rows s))"
    using grown_start[OF assms]
    by (split if_split, intro conjI impI reconcile_from[OF assms]) (simp add: valid_def return_def)
qed

lemma leaves_extract_contents: "leaves_rows (extract_contents env cs facts failures)"
proof (induction cs arbitrary: facts failures)
  case (Cons c cs)
  show ?case unfolding extract_contents.simps Let_def by (intro leaves Cons.IH)
qed (simp add: leaves)

lemma valid_ReconcileContent:
  assumes "distinct (map r_id rows0)"
  shows "valid (\<lambda>s. db_rows s = rows0) (ReconcileContent env a agentID sessionID contents) (grows_result rows0 a)
    (\<lambda>_ s. grown rows0 a [] (db_rows s))"
proof -
  have "valid (\<lambda>s. db_rows s = rows0) (bind (extract_contents env contents [] 0) (\<lambda>(facts, failures).
        if facts = [] then return (simple_result (if failures > 0 then ''failed'' else ''complete'') failures)
        else bind (attempt (reconcile env a agentID sessionID facts)) (\<lambda>r.
             return (case r of
                 Inl _ \<Rightarrow> simple_result ''failed'' (failures + 1)
               | Inr (ids, warnings) \<Rightarrow>
                   \<lparr>ir_Status = (if failures > 0 \<and> ids = [] then ''failed''
                                 else if failures + warnings > 0 \<or> failures > 0 then ''partial'' else ''complete''),
                    ir_MemoriesChanged = int (length ids), ir_InsightIDs = ids, ir_Warnings = failures + warnings\<rparr>))))
     (grows_result rows0 a) (\<lambda>_ s. grown rows0 a [] (db_rows s))"
  proof (rule valid_bind[OF _ grown_leaves_start[OF assms leaves_extract_contents]], split prod.split, intro allI impI)
    fix facts failures
    show "valid (\<lambda>s. db_rows s = rows0)
      (if facts = [] then return (simple_result (if failures > 0 then ''failed'' else ''complete'') failures)
        else bind (attempt (reconcile env a agentID sessionID facts)) (\<lambda>r.
             return (case r of
                 Inl _ \<Rightarrow> simple_result ''failed'' (failures + 1)
               | Inr (ids, warnings) \<Rightarrow>
                   \<lparr>ir_Status = (if failures > 0 \<and> ids = [] then ''failed''
                                 else if failures + warnings > 0 \<or> failures > 0 then ''partial'' else ''complete''),
                    ir_MemoriesChanged = int (length ids), ir_InsightIDs = ids, ir_Warnings = failures + warnings\<rparr>)))
      (grows_result rows0 a) (\<lambda>_ s. grown rows0 a [] (db_rows s))"
      by (split if_split, intro conjI impI, rule result_simple[OF assms],
          rule result_of_reconcile[OF assms reconcile_from[OF assms]]) (simp_all add: simple_result_def)
  qed
  then show ?thesis
    unfolding ReconcileContent_def using grown_start[OF assms]
    by (split if_split, intro conjI impI)+ (simp_all add: valid_def throw_def)
qed

lemma valid_ingestRaw:
  assumes "distinct (map r_id rows0)"
  shows "valid (\<lambda>s. db_rows s = rows0) (ingestRaw env a req) (grows_result rows0 a)
    (\<lambda>_ s. grown rows0 a [] (db_rows s))"
proof -
  have start: "valid (\<lambda>s. db_rows s = rows0) m Q (\<lambda>_ s. grown rows0 a [] (db_rows s))"
    if "valid (grows rows0 a []) m Q (\<lambda>_. grows rows0 a [])" for m :: "('a, IngestResult) rop" and Q
    by (rule valid_pre[OF that]) (use grown_start[OF assms] in simp)
  have "valid (grows rows0 a [])
      (bind (embed_if_needed env content []) (\<lambda>vec.
        bind (time_now env) (\<lambda>now.
        bind (ask (me_UUID env)) (\<lambda>mid.
        seq (repo_Create env (new_insight mid a (iq_AgentID req) (iq_SessionID req) content vec now))
        (return \<lparr>ir_Status = ''complete'', ir_MemoriesChanged = 1, ir_InsightIDs = [mid], ir_Warnings = 0\<rparr>)))))
      (grows_result rows0 a) (\<lambda>_. grows rows0 a [])" for content
  proof (rule valid_bind, rule valid_bind, rule valid_bind, rule valid_seq_return)
    fix vec now mid
    show "valid (grows rows0 a []) (repo_Create env (new_insight mid a (iq_AgentID req) (iq_SessionID req) content vec now))
      (\<lambda>_. grows_result rows0 a \<lparr>ir_Status = ''complete'', ir_MemoriesChanged = 1, ir_InsightIDs = [mid], ir_Warnings = 0\<rparr>)
      (\<lambda>_. grows rows0 a [])"
      using valid_Create_insight[of rows0 a "[]"] by simp
  qed (rule valid_ask valid_time_now grows_leaves[OF leaves_embed_if_needed])+
  from start[OF this] show ?thesis
    unfolding ingestRaw_def Let_def by (split if_split, intro conjI impI result_simple[OF assms])
qed

lemma valid_pipeline:
  assumes "pipeline env a m" and d: "distinct (map r_id rows0)"
  shows "valid (\<lambda>s. db_rows s = rows0) m (grows_result rows0 a) (\<lambda>_ s. grown rows0 a [] (db_rows s))"
  using assms(1)
proof cases
  case (1 req)
  note ops = result_simple[OF d] valid_ingestRaw[OF d]
    result_of_reconcile[OF d valid_extractAndReconcile[OF d] reconciled_fields]
  have "valid (\<lambda>s. db_rows s = rows0) (throw e) (grows_result rows0 a) (\<lambda>_ s. grown rows0 a [] (db_rows s))" for e
    using grown_start[OF d] by (simp add: valid_def throw_def)
  with 1 ops show ?thesis
    unfolding Ingest_def Let_def
    by (auto split: if_splits option.splits)
qed (simp_all add: valid_ReconcilePhase2[OF d] valid_ReconcileContent[OF d])

subsection \<open>The history of superseded memories\<close>

lemma recorded_leaves: "leaves_rows m \<Longrightarrow> keeps recorded m"
  by (rule keeps_leaves)

lemma leaves_gather: "leaves_rows (gatherExistingMemories env agentID facts)"
  unfolding leaves_keeps keeps_valid
  by (intro allI valid_weaken[OF finds_gatherExistingMemories[unfolded finds_def]]) auto

lemma recorded_addInsight [kept]: "keeps recorded (addInsightWithEmbedding env a agentID sessionID content v)"
  unfolding addInsightWithEmbedding_def
  by (intro kept recorded_leaves[OF leaves_embed_if_needed] recorded_leaves[OF leaves_time_now] recorded_leaves[OF leaves_ask])

lemma recorded_updateInsight [kept]: "keeps recorded (updateInsightWithEmbedding env a agentID sessionID t content v)"
  unfolding updateInsightWithEmbedding_def
  by (intro kept recorded_leaves[OF leaves_embed_if_needed] recorded_leaves[OF leaves_time_now] recorded_leaves[OF leaves_ask])
    (simp add: new_insight_def)

lemma keeps_prod [kept]: "(\<And>x y. keeps P (k x y)) \<Longrightarrow> keeps P (case p of (x, y) \<Rightarrow> k x y)"
  by (cases p) simp

lemma recorded_add_facts [kept]: "keeps recorded (add_facts env a agentID sessionID now facts ids w)"
proof (induction facts arbitrary: ids w)
  case (Cons p facts)
  obtain fct vec where p: "p = (fct, vec)" by (cases p)
  show ?case unfolding p add_facts.simps by (intro kept Cons.IH recorded_leaves[OF leaves_ask])
qed (simp add: kept)

lemma recorded_counted [kept]: "keeps recorded m \<Longrightarrow> keeps recorded (counted m ids w)"
  unfolding counted_def by (intro kept)

lemma recorded_perform_action [kept]: "keeps recorded (perform_action env a agentID sessionID existing vectors act ids w)"
  unfolding perform_action_def Let_def
  by (cases act; simp only: Action.case; intro kept recorded_SetState) (simp add: memory_states)

lemma recorded_perform_actions [kept]: "keeps recorded (perform_actions env a agentID sessionID existing vectors acts ids w)"
proof (induction acts arbitrary: ids w)
  case (Cons act acts)
  show ?case unfolding perform_actions.simps by (intro kept Cons.IH)
qed (simp add: kept)

lemma recorded_reconcile [kept]: "keeps recorded (reconcile env a agentID sessionID facts)"
  unfolding reconcile_def addAllFacts_def
  by (intro kept recorded_leaves[OF leaves_gather] recorded_leaves[OF leaves_ask] recorded_leaves[OF leaves_time_now]
      recorded_leaves[OF leaves_ask_llm])

lemma recorded_ReconcilePhase2 [kept]: "keeps recorded (ReconcilePhase2 env a agentID sessionID facts)"
  unfolding ReconcilePhase2_def by (intro kept)

lemma recorded_ReconcileContent [kept]: "keeps recorded (ReconcileContent env a agentID sessionID contents)"
  unfolding ReconcileContent_def by (intro kept recorded_leaves[OF leaves_extract_contents])

lemma recorded_Ingest: "Ingest env a req = Some m \<Longrightarrow> keeps recorded m"
proof -
  have raw: "keeps recorded (ingestRaw env a r)" for r
    unfolding ingestRaw_def Let_def
    by (intro kept recorded_leaves[OF leaves_embed_if_needed] recorded_leaves[OF leaves_time_now] recorded_leaves[OF leaves_ask])
  have smart: "keeps recorded (extractAndReconcile env a agentID sessionID conversation)" for agentID sessionID conversation
    unfolding extractAndReconcile_def by (intro kept recorded_leaves[OF leaves_extractFacts])
  show "Ingest env a req = Some m \<Longrightarrow> keeps recorded m"
    unfolding Ingest_def Let_def by (auto split: if_splits option.splits intro!: kept raw smart)
qed

text \<open>Requests to the service, and the tables it can reach from an empty one.\<close>

datatype Request =
    ReqCreate string string "string list" string
  | ReqUpdate string string string "string list option" "string option"
  | ReqDelete string
  | ReqBulkCreate string "BulkMemoryInput list"
  | ReqIngest string IngestRequest
  | ReqReconcile string string string "string list"

definition outcome :: "('w, 'a) rop \<Rightarrow> 'w MemDB \<Rightarrow> 'w MemDB option" where
  "outcome m s = Some (fst (m s))"

definition serve :: "('w, 'f) SvcEnv \<Rightarrow> Request \<Rightarrow> 'w MemDB \<Rightarrow> 'w MemDB option" where
  "serve env req s =
     (case req of
        ReqCreate agentID content tags metadata \<Rightarrow> outcome (svc_Create env agentID content tags metadata) s
      | ReqUpdate agentName mid content tags metadata \<Rightarrow> outcome (svc_Update env agentName mid content tags metadata) s
      | ReqDelete mid \<Rightarrow> outcome (svc_Delete env mid) s
      | ReqBulkCreate agentName items \<Rightarrow> outcome (svc_BulkCreate env agentName items) s
      | ReqIngest agentName r \<Rightarrow> (case Ingest env agentName r of None \<Rightarrow> None | Some m \<Rightarrow> outcome m s)
      | ReqReconcile agentName agentID sessionID facts \<Rightarrow>
          outcome (ReconcilePhase2 env agentName agentID sessionID facts) s)"

inductive served :: "('w, 'f) SvcEnv \<Rightarrow> 'w MemDB \<Rightarrow> bool" for env where
  empty_table: "served env \<lparr>db_rows = [], db_world = w\<rparr>"
| request: "served env s \<Longrightarrow> serve env req s = Some s' \<Longrightarrow> served env s'"
| meanwhile: "served env s \<Longrightarrow> served env (s\<lparr>db_world := w\<rparr>)"

lemma recorded_labels: "keeps recorded (apply_labels env tags metadata mid)"
  unfolding apply_labels_def Let_def by (intro kept recorded_leaves[OF leaves_GetByID])

lemma recorded_svc_Create: "keeps recorded (svc_Create env agentID content tags metadata)"
  unfolding svc_Create_def Let_def
  by (intro kept recorded_labels recorded_leaves[OF leaves_GetByID] recorded_leaves[OF leaves_embed_if_needed]
      recorded_leaves[OF leaves_ask] recorded_leaves[OF leaves_reads])

lemma recorded_svc_Update: "keeps recorded (svc_Update env agentName mid content tags metadata)"
  unfolding svc_Update_def Let_def
  by (intro kept recorded_leaves[OF leaves_GetByID] recorded_leaves[OF leaves_ask])

lemma leaves_bulk_memories: "leaves_rows (bulk_memories env agentName now items)"
proof (induction items)
  case (Cons p items)
  obtain item vec where p: "p = (item, vec)" by (cases p)
  show ?case unfolding p bulk_memories.simps by (intro leaves Cons.IH)
qed (simp add: leaves)

lemma recorded_svc_BulkCreate: "keeps recorded (svc_BulkCreate env agentName items)"
  unfolding svc_BulkCreate_def
  by (intro kept recorded_leaves[OF leaves_bulk_memories] recorded_leaves[OF leaves_ask] recorded_leaves[OF leaves_reads])

lemma outcome_recorded: "outcome m s = Some s' \<Longrightarrow> recorded s \<Longrightarrow> keeps recorded m \<Longrightarrow> recorded s'"
  by (auto simp: outcome_def keeps_def)

lemma recorded_svc_Delete: "keeps recorded (svc_Delete env mid)"
  unfolding svc_Delete_def by (rule recorded_SoftDelete)

lemmas recorded_services = recorded_svc_Create recorded_svc_Update recorded_svc_Delete recorded_svc_BulkCreate
  recorded_ReconcilePhase2

lemma serve_recorded:
  assumes "recorded s" "serve env req s = Some s'"
  shows "recorded s'"
proof (cases req)
  case (ReqIngest agentName r)
  with assms(2) obtain m where "Ingest env agentName r = Some m" "outcome m s = Some s'"
    by (auto simp: serve_def split: option.splits)
  with assms(1) recorded_Ingest show ?thesis by (blast intro: outcome_recorded)
qed (insert assms(2), simp_all only: serve_def Request.case,
    (erule outcome_recorded[OF _ assms(1)], rule recorded_services)+)

lemma served_recorded: "served env s \<Longrightarrow> recorded s"
proof (induction rule: served.induct)
  case (empty_table w)
  show ?case by (simp add: history_def)
next
  case (request s req s')
  then show ?case by (blast intro: serve_recorded)
next
  case (meanwhile s w)
  then show ?case by simp
qed

subsection \<open>A total outage of the searches\<close>

definition no_search :: "('w, 'f, 'x) RepoEnv_scheme \<Rightarrow> bool" where
  "no_search env \<longleftrightarrow> (\<forall>q rows n w. snd (re_Search env q rows n w) = None)"

lemma no_search_rows:
  "no_search env \<Longrightarrow> \<exists>w. search_rows env q P limit s = (s\<lparr>db_world := w\<rparr>, Inl MemSearch)"
  by (auto simp: no_search_def search_rows_def Let_def split: prod.splits option.splits) (metis option.distinct(1) snd_conv)+

definition no_success :: "'f Gathered \<Rightarrow> ('w, 'f Gathered) rop \<Rightarrow> nat \<Rightarrow> bool" where
  "no_success g m n \<longleftrightarrow>
     (\<forall>s. \<exists>s' g'. m s = (s', Inr g') \<and> ga_successes g' = ga_successes g \<and> ga_attempts g + n \<le> ga_attempts g')"

lemma try_search_fails:
  "(\<And>s. \<exists>s'. search s = (s', Inl MemSearch)) \<Longrightarrow> no_success g (try_search env search th g) 1"
  unfolding no_success_def try_search_def bind_def attempt_def return_def Let_def
  by (auto split: prod.split sum.split) (metis Pair_inject sum.distinct(1))+

lemma no_search_fails:
  assumes "no_search env"
  shows "\<exists>s'. repo_FTSSearch env q f n s = (s', Inl MemSearch)" "\<exists>s'. repo_KeywordSearch env q f n s = (s', Inl MemSearch)"
    "\<exists>s'. repo_AutoVectorSearch env q f n s = (s', Inl MemSearch)"
    "v \<noteq> [] \<Longrightarrow> \<exists>s'. repo_VectorSearch env v f n s = (s', Inl MemSearch)"
  using no_search_rows[OF assms]
  by (auto simp: repo_FTSSearch_def repo_KeywordSearch_def repo_AutoVectorSearch_def repo_VectorSearch_def bind_def vecColumn_def)
    (metis (mono_tags, lifting) old.prod.case old.sum.simps(5))+

lemma no_success_weaken: "no_success g m n \<Longrightarrow> n' \<le> n \<Longrightarrow> no_success g m n'"
  unfolding no_success_def by (meson add_le_mono le_trans order_refl)

lemma no_success_return: "no_success g (return g) 0"
  by (simp add: no_success_def return_def)

lemma no_success_bind:
  "no_success g m n \<Longrightarrow> (\<And>g'. no_success g' (k g') n') \<Longrightarrow> no_success g (bind m k) (n + n')"
  unfolding no_success_def bind_def
  by (smt (verit) add.assoc add_le_mono1 case_prod_conv le_trans old.sum.simps(6))

lemma vector_leg_fails:
  assumes "no_search env"
  shows "no_success g (vector_leg env f fct vec g) 0"
proof -
  have "no_success g (try_search env (repo_AutoVectorSearch env fct f perFactLimit) True g) 1"
    by (rule try_search_fails, rule no_search_fails(3)[OF assms])
  moreover have "vec \<noteq> [] \<Longrightarrow> no_success g (try_search env (repo_VectorSearch env vec f perFactLimit) True g) 1"
    by (rule try_search_fails, rule no_search_fails(4)[OF assms])
  ultimately show ?thesis
    unfolding vector_leg_def by (auto intro: no_success_weaken no_success_return)
qed

lemma fts_or_keyword_fails:
  assumes "no_search env"
  shows "no_success g (try_search env (fts_or_keyword env fct f n) th g) 1"
  by (rule try_search_fails) (use no_search_fails(1,2)[OF assms] in \<open>simp add: fts_or_keyword_def\<close>)

lemma gather_facts_fails:
  assumes "no_search env"
  shows "no_success g (gather_facts env f facts g) (length facts)"
proof (induction facts arbitrary: g)
  case (Cons p facts)
  obtain fct vec where p: "p = (fct, vec)" by (cases p)
  have "no_success g (if b then return g else vector_leg env f fct vec g) 0" for b
    using vector_leg_fails[OF assms] no_success_return by (cases b) simp_all
  from no_success_bind[OF this no_success_bind[OF fts_or_keyword_fails[OF assms] Cons.IH]]
  show ?case unfolding p gather_facts.simps by simp
qed (simp add: no_success_return)

lemma gather_fails:
  assumes "no_search env" "facts \<noteq> []"
  shows "\<exists>n s'. gatherExistingMemories env agentID facts s = (s', Inl (MemOutage n))"
proof -
  have vectors: "\<exists>s' x. (if b then ask f else return None) s = (s', Inr x)" for b f
    by (auto simp: ask_def return_def split: prod.split)
  obtain s1 vectors where run: "(if local_embedding env then ask (me_EmbedBatch env facts) else return None) s = (s1, Inr vectors)"
    using vectors by blast
  let ?start = "\<lparr>ga_seen = {}, ga_result = [], ga_attempts = 0, ga_successes = 0\<rparr>"
  let ?facts = "map (\<lambda>i. (facts ! i, vector_at vectors (int i))) [0..<length facts]"
  obtain s2 g where "gather_facts env (gather_filter env agentID) ?facts ?start s1 = (s2, Inr g)"
    "ga_successes g = 0" "length facts \<le> ga_attempts g"
    using gather_facts_fails[OF assms(1), of ?start "gather_filter env agentID" ?facts,
      unfolded no_success_def, THEN spec, of s1] by auto
  with run assms(2) show ?thesis
    unfolding gatherExistingMemories_def bind_def
    by (auto simp: seq_def bind_def failIf_def throw_def)
qed

text \<open>
  The properties of the memory table, and a small server for their witnesses: one memory the
  agent may change, one that is pinned, and a model that wants both of them changed.
\<close>

definition demo_row :: "string \<Rightarrow> string \<Rightarrow> string \<Rightarrow> Row" where
  "demo_row mid t content = \<lparr>r_id = mid, r_content = content, r_source = None, r_tags = '''', r_metadata = None,
     r_embedding = Some [1], r_type = t, r_agent = None, r_session = None, r_state = ''active'', r_version = 1,
     r_updated_by = None, r_created = 1, r_updated = 1, r_superseded = None\<rparr>"

definition demo_events :: "reconcileEvent list" where
  "demo_events =
     [\<lparr>ev_ID = ''0'', ev_Text = ''likes tea'', ev_Event = ''UPDATE''\<rparr>,
      \<lparr>ev_ID = ''1'', ev_Text = '''', ev_Event = ''delete''\<rparr>]"

definition demo_server :: "bool \<Rightarrow> (nat, int) SvcEnv" where
  "demo_server up = \<lparr>re_autoModel = '''', re_FTS = False, re_Statement = (\<lambda>_ w. (w, Answered)), re_Now = (\<lambda>w. 7),
     re_Search = (\<lambda>_ rows n w. (w, if up then Some (map (\<lambda>i. (i, 0)) [0..<length rows]) else None)),
     re_Like = (\<lambda>_ _. True), re_FtsMatch = (\<lambda>_ _. True), re_HasTag = (\<lambda>_ _. True), re_TagsJSON = (\<lambda>_. ''[]''),
     re_Generated = (\<lambda>_. None), re_TagsParse = (\<lambda>_. []),
     re_Float = \<lparr>fl_lit = (\<lambda>m e. m), fl_add = (+), fl_sub = (-), fl_mul = (*), fl_div = (div), fl_lt = (<), fl_le = (\<le>)\<rparr>,
     me_LLM = True, me_Mode = ''smart'', me_complete = (\<lambda>_ _ _ w. (w, Inr ''{}'')), me_ParseFacts = (\<lambda>_. Some [''likes tea'']),
     me_ParseFactsAndTags = (\<lambda>_. None), me_ParseEvents = (\<lambda>_. Some demo_events), me_Embedder = False,
     me_Embed = (\<lambda>_ w. (w, None)), me_EmbedBatch = (\<lambda>_ w. (w, None)), me_UUID = (\<lambda>w. (w + 1, replicate w (CHR ''n''))),
     me_Time = (\<lambda>w. 9), me_UpperRune = (\<lambda>c. c), me_formatAge = (\<lambda>_. ''''), sv_MapOrder = (\<lambda>ms. ms)\<rparr>"

definition demo_db :: "nat MemDB" where
  "demo_db = \<lparr>db_rows = [demo_row ''a'' ''insight'' ''likes coffee'', demo_row ''b'' ''pinned'' ''is called Ada''], db_world = 3\<rparr>"

abbreviation demo_pipeline :: "bool \<Rightarrow> (nat, IngestResult) rop" where
  "demo_pipeline up \<equiv> ReconcilePhase2 (demo_server up) ''bot'' '''' '''' [''likes tea'']"

text \<open>
  C8: Whatever the language model, the embedding service and the database answer, an ingest
  of any of the three kinds only adds to the table: the rows that were there stay in their
  places; a pinned one stays as it is; another one can only pass from active to deleted, or
  to archived with a successor, and nothing else of it changes but the time. The rows it adds
  are active insights of the agent, and the identifiers it reports are, in order, among
  theirs.
\<close>

theorem mem_ingest_grows:
  assumes "pipeline env agentName m" "distinct (map r_id (db_rows s))" "m s = (s', Inr result)"
  shows "\<exists>old new. db_rows s' = old @ new \<and> list_all2 retired (db_rows s) old \<and>
    (\<forall>i < length old. pinned_row (db_rows s ! i) \<longrightarrow> old ! i = db_rows s ! i) \<and>
    (\<forall>r \<in> set new. insight_row agentName r) \<and>
    subseq (ir_InsightIDs result) (map r_id new) \<and> ir_MemoriesChanged result = int (length (ir_InsightIDs result))"
proof -
  from valid_ok[OF valid_pipeline[OF assms(1,2)] _ assms(3)]
  have g: "grown (db_rows s) agentName (ir_InsightIDs result) (db_rows s')"
    and n: "ir_MemoriesChanged result = int (length (ir_InsightIDs result))" by simp_all
  from g obtain old new where on: "db_rows s' = old @ new" "list_all2 retired (db_rows s) old"
    "\<forall>r \<in> set new. insight_row agentName r" "subseq (ir_InsightIDs result) (map r_id new)"
    by (auto simp: grown_def)
  moreover have "old ! i = db_rows s ! i" if "i < length old" "pinned_row (db_rows s ! i)" for i
    using on(2) that by (auto simp: list_all2_conv_all_nth retired_def)
  ultimately show ?thesis using n by blast
qed

lemma demo_run:
  "demo_pipeline True demo_db = (fst (demo_pipeline True demo_db),
     Inr \<lparr>ir_Status = ''complete'', ir_MemoriesChanged = 1, ir_InsightIDs = [''nnn''], ir_Warnings = 1\<rparr>)"
  by code_simp

theorem mem_ingest_grows_witness:
  "\<exists>old new. db_rows (fst (demo_pipeline True demo_db)) = old @ new \<and> list_all2 retired (db_rows demo_db) old \<and>
     subseq [''nnn''] (map r_id new)"
proof -
  have "distinct (map r_id (db_rows demo_db))" by (simp add: demo_db_def demo_row_def)
  from mem_ingest_grows[OF pipeline.intros(2) this demo_run] show ?thesis by auto
qed

text \<open>
  C9: The table keeps the history of its memories: in every state the service can reach from
  an empty table, through any sequence of creations, updates, deletions and ingests, with
  statements that fail or are carried out without an answer, the identifiers are distinct, an
  archived memory names its successor, and a successor is a row that was inserted later; so
  following successors ends.
\<close>

theorem mem_history:
  assumes "served env s"
  shows "distinct (map r_id (db_rows s)) \<and>
    (\<forall>i < length (db_rows s). r_state (db_rows s ! i) = StateArchived \<longrightarrow> r_superseded (db_rows s ! i) \<noteq> None) \<and>
    (\<forall>i < length (db_rows s). \<forall>n. r_superseded (db_rows s ! i) = Some n \<longrightarrow>
       (\<exists>j < length (db_rows s). i < j \<and> r_id (db_rows s ! j) = n))"
  using served_recorded[OF assms] by (simp add: history_def)

lemma demo_served: "\<exists>s. served (demo_server True) s \<and> length (db_rows s) = 1"
proof -
  have "served (demo_server True) \<lparr>db_rows = [], db_world = 3\<rparr>" by (rule served.empty_table)
  moreover have "length (db_rows (fst (demo_pipeline True \<lparr>db_rows = [], db_world = 3\<rparr>))) = 1"
    by code_simp
  moreover have "serve (demo_server True) (ReqReconcile ''bot'' [] [] [''likes tea'']) s = Some (fst (demo_pipeline True s))" for s
    by (simp add: serve_def outcome_def)
  ultimately show ?thesis by (blast intro: served.request)
qed

theorem mem_history_witness: "\<exists>s. served (demo_server True) s \<and> db_rows s \<noteq> [] \<and> distinct (map r_id (db_rows s))"
  using demo_served mem_history[of "demo_server True"] by (metis length_0_conv zero_neq_one)

text \<open>
  C11: When no search of the database succeeds, a reconciliation does not take the knowledge
  base for empty: it writes nothing, the table stays as it is, and the result is marked as
  failed.
\<close>

theorem mem_outage:
  assumes "no_search env" "facts \<noteq> []"
  shows "\<exists>s'. ReconcilePhase2 env agentName agentID sessionID facts s = (s', Inr (simple_result ''failed'' 0)) \<and>
    db_rows s' = db_rows s"
proof -
  have "take maxFacts facts \<noteq> []" using assms(2) by (simp add: maxFacts_def)
  from gather_fails[OF assms(1) this, of agentID s]
  obtain n s' where g: "gatherExistingMemories env agentID (take maxFacts facts) s = (s', Inl (MemOutage n))" by blast
  with leaves_gather[of env agentID "take maxFacts facts"] have "db_rows s' = db_rows s"
    by (metis fst_conv leaves_rows_def)
  with g assms(2) show ?thesis
    by (simp add: ReconcilePhase2_def reconcile_def bind_def attempt_def return_def reconciled_result_def)
qed

theorem mem_outage_witness:
  "\<exists>s'. demo_pipeline False demo_db = (s', Inr (simple_result ''failed'' 0)) \<and> db_rows s' = db_rows demo_db"
  by (rule mem_outage) (simp_all add: no_search_def demo_server_def)

lemma GetByID_fields:
  "valid (\<lambda>_. True) (repo_GetByID env mid) (\<lambda>m _. mm_ID m = mid \<and> mm_Embedding m = []) (\<lambda>_ _. True)"
proof -
  have "valid (\<lambda>_. True) (query env mid (List.find (\<lambda>r. r_id r = mid \<and> r_state r = StateActive)))
      (\<lambda>row _. \<forall>r. row = Some r \<longrightarrow> r_id r = mid) (\<lambda>_ _. True)"
    unfolding valid_def query_def by (auto split: prod.splits Outcome.splits simp: find_Some_iff)
  then show ?thesis
    unfolding repo_GetByID_def
    by (rule valid_bind[rotated]) (auto simp: valid_def throw_def return_def scanMemory_def split: option.split)
qed

definition no_embedding :: "string \<Rightarrow> Row list \<Rightarrow> bool" where
  "no_embedding mid rows \<longleftrightarrow>
     (\<exists>r \<in> set rows. r_id r = mid) \<and> (\<forall>r \<in> set rows. r_id r = mid \<longrightarrow> r_embedding r = None)"

lemma update_hits:
  assumes "update_rows sel f rows = Some (rows', n)" "n \<noteq> 0"
    "\<And>r. sel r \<Longrightarrow> r_id (f r) = mid \<and> r_embedding (f r) = None" "\<And>r. r_id r = mid \<Longrightarrow> sel r"
  shows "no_embedding mid rows'"
proof -
  from assms(1) have rows': "rows' = map (\<lambda>r. if sel r then f r else r) rows" and "n = length (filter sel rows)"
    by (simp_all add: update_rows_def)
  with assms(2) obtain r where "r \<in> set rows" "sel r" by (auto simp: filter_empty_conv)
  with rows' have "f r \<in> set rows'" by force
  with assms(3)[OF \<open>sel r\<close>] assms(3,4) rows' show ?thesis
    unfolding no_embedding_def by (auto split: if_splits)
qed

lemma UpdateOptimistic_embedding:
  assumes "re_autoModel env = []" "mm_Embedding m = []" "mm_ID m = mid"
  shows "valid (\<lambda>_. True) (repo_UpdateOptimistic env m 0) (\<lambda>_ s. no_embedding mid (db_rows s)) (\<lambda>_ _. True)"
  unfolding repo_UpdateOptimistic_def
proof (rule valid_bind)
  fix n :: nat
  show "valid (\<lambda>s. n \<noteq> 0 \<longrightarrow> no_embedding mid (db_rows s)) (failIf (n = 0) MemNotFound)
    (\<lambda>_ s. no_embedding mid (db_rows s)) (\<lambda>_ _. True)"
    by (rule valid_pre[OF valid_failIf]) simp
qed (rule valid_exec[where P = "\<lambda>_. True" and E = "\<lambda>_. True"],
     auto intro!: update_hits simp: assms vecColumn_def)

definition relabelled :: "string \<Rightarrow> string list option \<Rightarrow> string option \<Rightarrow> 'f Memory \<Rightarrow> 'f Memory" where
  "relabelled agentName tags metadata m =
     (let m2 = (case tags of None \<Rightarrow> m | Some ts \<Rightarrow> m\<lparr>mm_Tags := ts\<rparr>);
          m3 = (case metadata of None \<Rightarrow> m2 | Some d \<Rightarrow> m2\<lparr>mm_Metadata := d\<rparr>)
      in m3\<lparr>mm_UpdatedBy := agentName\<rparr>)"

lemma relabelled_fields:
  "mm_ID (relabelled a tags metadata m) = mm_ID m" "mm_Embedding (relabelled a tags metadata m) = mm_Embedding m"
  by (simp_all add: relabelled_def Let_def split: option.split)

lemma bind_return_left: "bind (return x) k = k x" "seq (failIf False e) m = m"
  by (simp_all add: bind_def return_def seq_def failIf_def)

lemma svc_Update_labels:
  "svc_Update env a mid [] tags metadata =
     bind (repo_GetByID env mid) (\<lambda>c.
     seq (failIf (case tags of None \<Rightarrow> False | Some ts \<Rightarrow> length ts > maxTags) (MemInvalid ''tags'' ''too many (max 20)''))
     (seq (repo_UpdateOptimistic env (relabelled a tags metadata c) 0)
     (bind (attempt (repo_GetByID env mid)) (\<lambda>r.
      return (case r of Inl _ \<Rightarrow> (relabelled a tags metadata c)\<lparr>mm_Version := mm_Version (relabelled a tags metadata c) + 1\<rparr>
                      | Inr updated \<Rightarrow> updated)))))"
  unfolding svc_Update_def relabelled_def Let_def
  by (simp only: simp_thms if_False if_True bind_return_left)

text \<open>A row without an embedding is not in the result of a vector search.\<close>

lemma vector_search_embedded:
  assumes "no_embedding mid (db_rows s)" "repo_VectorSearch env v f n s = (s', Inr ms)"
  shows "mid \<notin> mm_ID ` set ms"
proof -
  let ?P = "\<lambda>r. buildFilterConds env f r \<and> r_embedding r \<noteq> None"
  have "valid (\<lambda>x. db_rows x = db_rows s) (search_rows env (VectorQ v) ?P n)
      (\<lambda>rs x. \<forall>rx \<in> set rs. r_id (fst rx) \<noteq> mid) (\<lambda>_ _. True)"
    by (rule valid_weaken[OF valid_search_rows]) (use assms(1) in \<open>auto simp: no_embedding_def\<close>)
  then have "valid (\<lambda>x. db_rows x = db_rows s) (repo_VectorSearch env v f n)
      (\<lambda>ms x. mid \<notin> mm_ID ` set ms) (\<lambda>_ _. True)"
    unfolding repo_VectorSearch_def
    by (auto simp: valid_def bind_def return_def scans scanMemory_def image_iff split: prod.splits sum.splits)
      fastforce+
  from valid_ok[OF this refl assms(2)] show ?thesis .
qed

text \<open>
  C13: Where the database does not make the embeddings itself, an update that changes only
  the tags or the metadata of a memory erases its embedding: the service writes back the
  record it read, and reading leaves the embedding empty. Every vector search of the table
  after the update misses the memory, whatever its query and filter.
\<close>

theorem mem_update_loses_embedding:
  assumes "re_autoModel env = []" "svc_Update env agentName mid [] tags metadata s = (s', Inr m)"
  shows "(\<exists>r \<in> set (db_rows s'). r_id r = mid) \<and> (\<forall>r \<in> set (db_rows s'). r_id r = mid \<longrightarrow> r_embedding r = None) \<and>
    (\<forall>v f limit s'' ms. repo_VectorSearch env v f limit s' = (s'', Inr ms) \<longrightarrow> mid \<notin> mm_ID ` set ms)"
proof -
  let ?Q = "\<lambda>s. no_embedding mid (db_rows s)"
  have reread: "valid ?Q (bind (attempt (repo_GetByID env mid)) (\<lambda>r. return (k r))) (\<lambda>_. ?Q) (\<lambda>(_ :: mem_error) _. True)"
    for k :: "mem_error + 'b Memory \<Rightarrow> 'b Memory"
  proof -
    have "leaves_rows (bind (attempt (repo_GetByID env mid)) (\<lambda>r. return (k r)))"
      by (intro leaves leaves_GetByID)
    from leaves_valid[OF this, of "no_embedding mid"] show ?thesis by (rule valid_weaken) simp_all
  qed
  have step: "valid (\<lambda>_. mm_ID c = mid \<and> mm_Embedding c = [])
      (seq (repo_UpdateOptimistic env c 0) (bind (attempt (repo_GetByID env mid)) (\<lambda>r. return (k r)))) (\<lambda>_. ?Q) (\<lambda>_ _. True)"
    for c :: "'b Memory" and k :: "mem_error + 'b Memory \<Rightarrow> 'b Memory"
  proof (cases "mm_ID c = mid \<and> mm_Embedding c = []")
    case True
    then have u: "valid (\<lambda>_. True) (repo_UpdateOptimistic env c 0) (\<lambda>_. ?Q) (\<lambda>_ _. True)"
      by (intro UpdateOptimistic_embedding[OF assms(1)]) simp_all
    show ?thesis by (rule valid_pre[OF valid_seq[OF reread u]]) simp
  qed (auto simp: valid_def)
  have "valid (\<lambda>_. True) (svc_Update env agentName mid [] tags metadata) (\<lambda>_. ?Q) (\<lambda>(_ :: mem_error) _. True)"
    unfolding svc_Update_labels
  proof (rule valid_bind[OF valid_seq GetByID_fields])
    fix c :: "'b Memory"
    show "valid (\<lambda>_. mm_ID c = mid \<and> mm_Embedding c = [])
      (failIf (case tags of None \<Rightarrow> False | Some ts \<Rightarrow> length ts > maxTags) (MemInvalid ''tags'' ''too many (max 20)''))
      (\<lambda>_ _. mm_ID (relabelled agentName tags metadata c) = mid \<and> mm_Embedding (relabelled agentName tags metadata c) = [])
      (\<lambda>_ _. True)"
      by (rule valid_pre[OF valid_failIf]) (simp add: relabelled_fields)
  qed (rule step)
  from valid_ok[OF this _ assms(2)] have "no_embedding mid (db_rows s')" by simp
  then show ?thesis using vector_search_embedded [of mid s'] unfolding no_embedding_def by blast
qed

text \<open>Retagging the first memory of the example.\<close>

abbreviation demo_update :: "(nat, int Memory) rop" where
  "demo_update \<equiv> svc_Update (demo_server True) ''bot'' ''a'' [] (Some [''drinks'']) None"

lemma demo_updated: "demo_update demo_db = (fst (demo_update demo_db), Inr (projr (snd (demo_update demo_db))))"
proof -
  have "isl (snd (demo_update demo_db)) = False" by code_simp
  then show ?thesis by (metis prod.collapse sum.collapse(2))
qed

definition demo_query :: "int MemoryFilter" where
  "demo_query = \<lparr>mf_Query = ''tea'', mf_Tags = [], mf_Source = [], mf_State = [], mf_MemoryType = [], mf_AgentID = [],
     mf_SessionID = [], mf_Limit = 5, mf_Offset = 0, mf_MinScore = - 1\<rparr>"

abbreviation demo_vectors :: "nat MemDB \<Rightarrow> nat MemDB \<times> (mem_error + int Memory list)" where
  "demo_vectors \<equiv> repo_VectorSearch (demo_server True) [1] demo_query 5"

theorem mem_update_loses_embedding_witness:
  "map r_embedding (db_rows demo_db) = [Some [1], Some [1]] \<and>
   (\<exists>r \<in> set (db_rows (fst (demo_update demo_db))). r_id r = ''a'' \<and> r_embedding r = None) \<and>
   ''a'' \<in> mm_ID ` set (projr (snd (demo_vectors demo_db))) \<and>
   ''a'' \<notin> mm_ID ` set (projr (snd (demo_vectors (fst (demo_update demo_db)))))"
proof -
  have before: "''a'' \<in> mm_ID ` set (projr (snd (demo_vectors demo_db)))" by code_simp
  have "\<not> isl (snd (demo_vectors (fst (demo_update demo_db))))" by code_simp
  then have after: "demo_vectors (fst (demo_update demo_db)) = (fst (demo_vectors (fst (demo_update demo_db))),
      Inr (projr (snd (demo_vectors (fst (demo_update demo_db))))))"
    by (metis prod.collapse sum.collapse(2))
  have "re_autoModel (demo_server True) = []" by (simp add: demo_server_def)
  note lost = mem_update_loses_embedding[OF this demo_updated]
  from lost after before show ?thesis by (auto simp: demo_db_def demo_row_def)
qed

end
