(* ===== verification/MemSearch.thy ===== *)
theory MemSearch
  imports MemTheorems "HOL-Library.Multiset"
begin

text \<open>
  The hybrid search: its result is a page of the ranking of all memories that the keyword
  search or the vector search found, by the fused score of their places in the two results.
\<close>

subsection \<open>What a search of the table returns\<close>









subsection \<open>The fused score\<close>














subsection \<open>Sorting and pages\<close>









subsection \<open>The result of a hybrid search\<close>





















end
