(* ===== verification/MemText.thy ===== *)
theory MemText
  imports MemTheorems
begin

text \<open>
  The removal of injected memories from messages: what it leaves behind when it ends, what it
  removes from well formed text, and the texts on which it never ends.
\<close>

lemma tag_lengths [simp]: "length open_tag = 19" "length close_tag = 20"
  by (simp_all add: open_tag_def close_tag_def)

lemma tag_heads: "hd open_tag = CHR ''<''" "hd close_tag = CHR ''<''" "open_tag \<noteq> []" "close_tag \<noteq> []"
  by (simp_all add: open_tag_def close_tag_def)

lemma close_tag_inner: "0 < k \<Longrightarrow> k < 20 \<Longrightarrow> close_tag ! k \<noteq> CHR ''<''"
proof -
  have "list_all (\<lambda>c. c \<noteq> CHR ''<'') (tl close_tag)" by (simp add: close_tag_def)
  then show "0 < k \<Longrightarrow> k < 20 \<Longrightarrow> close_tag ! k \<noteq> CHR ''<''"
    by (auto simp: list_all_length nth_tl dest: spec[of _ "k - 1"])
qed

lemma occurs_nth: "occurs_at s pat i \<Longrightarrow> k < length pat \<Longrightarrow> s ! (i + k) = pat ! k"
  unfolding occurs_at_def by (metis length_drop length_take less_or_eq_imp_le min.strict_boundedE nth_drop nth_take)

lemma occurs_bound: "occurs_at s pat i \<Longrightarrow> i + length pat \<le> length s"
  unfolding occurs_at_def by (metis add_le_mono1 le_add_diff_inverse length_drop length_take min.cobounded1 nat_add_left_cancel_le)

lemma occurs_prefix:
  assumes "i + length pat \<le> n" "n \<le> length s"
  shows "occurs_at (take n s @ t) pat i = occurs_at s pat i"
proof -
  from assms have "drop i (take n s @ t) = take (n - i) (drop i s) @ t" by (simp add: drop_take)
  with assms have "take (length pat) (drop i (take n s @ t)) = take (length pat) (drop i s)" by simp
  with assms show ?thesis by (simp add: occurs_at_def)
qed

lemma occurs_shift: "length u \<le> i \<Longrightarrow> occurs_at (u @ t) pat i = occurs_at t pat (i - length u)"
  by (auto simp: occurs_at_def)

subsection \<open>Texts on which it does not end\<close>

definition closes_first :: "string \<Rightarrow> bool" where
  "closes_first s \<longleftrightarrow> (\<exists>a b. Index s open_tag = Some a \<and> Index s close_tag = Some b \<and> b < a)"

lemma tags_apart:
  assumes "occurs_at s open_tag a" "occurs_at s close_tag b" "b < a"
  shows "b + 20 \<le> a"
proof (rule ccontr)
  assume "\<not> b + 20 \<le> a"
  with assms(3) have k: "0 < a - b" "a - b < 20" by auto
  from occurs_nth[OF assms(2), of "a - b"] k assms(3) have "s ! a = close_tag ! (a - b)" by simp
  moreover have "s ! a = CHR ''<''" using occurs_nth[OF assms(1), of 0] by (simp add: open_tag_def)
  ultimately show False using close_tag_inner[OF k] by simp
qed

lemma closes_first_again:
  assumes a: "Index s open_tag = Some a" and b: "Index s close_tag = Some b" and "b < a"
  shows "closes_first (take a s @ drop (b + 20) s)"
proof -
  let ?t = "take a s @ drop (b + 20) s"
  from a b have oa: "occurs_at s open_tag a" "\<forall>j < a. \<not> occurs_at s open_tag j"
    and ob: "occurs_at s close_tag b" "\<forall>j < b. \<not> occurs_at s close_tag j"
    by (simp_all add: Index_Some)
  note apart = tags_apart[OF oa(1) ob(1) \<open>b < a\<close>]
  have len: "a + 19 \<le> length s" using occurs_bound[OF oa(1)] by simp
  have pre: "occurs_at ?t pat j = occurs_at s pat j" if "j + length pat \<le> a" for pat j
    using that len by (intro occurs_prefix) auto
  have "occurs_at ?t open_tag (a + (a - (b + 20)))"
    using oa(1) len apart by (simp add: occurs_shift occurs_at_def)
  then obtain a' where a': "Index ?t open_tag = Some a'" by (meson Index_None option.exhaust)
  have "b < a'"
  proof (rule ccontr)
    assume "\<not> b < a'"
    with apart have "a' + length open_tag \<le> a" "a' < a" by simp_all
    with pre[of a' open_tag] a' oa(2) show False by (simp add: Index_Some)
  qed
  moreover have "Index ?t close_tag = Some b"
    unfolding Index_Some using pre[of _ close_tag] ob apart by simp
  ultimately show ?thesis unfolding closes_first_def using a' by blast
qed

lemma strip_result_order:
  assumes "stripMemoryTags s = Some r"
  shows "\<not> closes_first s"
proof (rule stripMemoryTags.raw_induct[where P = "\<lambda>s r. \<not> closes_first s", OF _ assms])
  fix strip :: "string \<Rightarrow> string option" and s r
  assume IH: "\<And>s r. strip s = Some r \<Longrightarrow> \<not> closes_first s"
    and body: "(case Index s open_tag of None \<Rightarrow> Some s
      | Some start \<Rightarrow> (case Index s close_tag of None \<Rightarrow> Some (take start s)
          | Some fin \<Rightarrow> strip (take start s @ drop (fin + length close_tag) s))) = Some r"
  show "\<not> closes_first s"
  proof
    assume "closes_first s"
    then obtain a b where ab: "Index s open_tag = Some a" "Index s close_tag = Some b" "b < a"
      unfolding closes_first_def by blast
    with body have "strip (take a s @ drop (b + 20) s) = Some r" by simp
    with IH closes_first_again[OF ab] show False by blast
  qed
qed

lemma strip_diverges: "closes_first s \<Longrightarrow> stripMemoryTags s = None"
  using strip_result_order by (metis option.exhaust)

lemma strip_context_diverges:
  "m \<in> set messages \<Longrightarrow> closes_first (im_Content m) \<Longrightarrow> stripInjectedContext messages = None"
  by (induction messages) (auto simp: strip_diverges split: option.split)

subsection \<open>What is left when it ends\<close>

lemma no_open_before:
  assumes "Index s open_tag = Some a"
  shows "Index (take a s) open_tag = None"
  unfolding Index_None
proof (intro allI notI)
  fix i assume o: "occurs_at (take a s) open_tag i"
  have "a \<le> length s" using assms occurs_bound by (fastforce simp: Index_Some)
  with occurs_bound[OF o] have "occurs_at s open_tag i" "i < a"
    using o occurs_prefix[of i open_tag a s "[]"] by simp_all
  with assms show False by (simp add: Index_Some)
qed

lemma strip_no_open:
  assumes "stripMemoryTags s = Some r"
  shows "Index r open_tag = None"
proof (rule stripMemoryTags.raw_induct[where P = "\<lambda>s r. Index r open_tag = None", OF _ assms])
  fix strip :: "string \<Rightarrow> string option" and s r
  assume IH: "\<And>s r. strip s = Some r \<Longrightarrow> Index r open_tag = None"
    and body: "(case Index s open_tag of None \<Rightarrow> Some s
      | Some start \<Rightarrow> (case Index s close_tag of None \<Rightarrow> Some (take start s)
          | Some fin \<Rightarrow> strip (take start s @ drop (fin + length close_tag) s))) = Some r"
  show "Index r open_tag = None"
    using IH body no_open_before by (auto split: option.splits)
qed

subsection \<open>Well formed text\<close>

text \<open>Plain text and injected memories in turn; neither has the first letter of a tag.\<close>

definition plain :: "string \<Rightarrow> bool" where
  "plain s \<longleftrightarrow> CHR ''<'' \<notin> set s"

definition injected :: "(string \<times> string) list \<Rightarrow> string \<Rightarrow> string" where
  "injected parts rest = concat (map (\<lambda>(p, x). p @ open_tag @ x @ close_tag) parts) @ rest"

lemma occurs_head:
  assumes "occurs_at s pat i" "pat \<noteq> []" "hd pat = CHR ''<''"
  shows "i < length s \<and> s ! i = CHR ''<''"
  using occurs_nth[OF assms(1), of 0] occurs_bound[OF assms(1)] assms(2,3) by (cases pat) auto

lemma plain_no_tag:
  assumes "plain u" "pat \<noteq> []" "hd pat = CHR ''<''" "i < length u"
  shows "\<not> occurs_at (u @ t) pat i"
proof
  assume "occurs_at (u @ t) pat i"
  with assms have "u ! i = CHR ''<''" using occurs_head[of "u @ t" pat i] by (simp add: nth_append)
  with assms(1,4) show False unfolding plain_def by (metis nth_mem)
qed

lemma Index_after_plain:
  assumes "plain u"
  shows "Index (u @ open_tag @ t) open_tag = Some (length u)"
  unfolding Index_Some using plain_no_tag[OF assms tag_heads(3) tag_heads(1)] by (simp add: occurs_at_def)

lemma Index_plain:
  assumes "plain u"
  shows "Index u open_tag = None"
  unfolding Index_None
proof (intro allI notI)
  fix i assume "occurs_at u open_tag i"
  then have "i < length u" using occurs_head[OF _ tag_heads(3) tag_heads(1)] by blast
  with plain_no_tag[OF assms tag_heads(3) tag_heads(1), of i "[]"] \<open>occurs_at u open_tag i\<close> show False by simp
qed

lemma Index_close_after:
  assumes "plain p" "plain x"
  shows "Index (p @ open_tag @ x @ close_tag @ t) close_tag = Some (length p + 19 + length x)"
  unfolding Index_Some
proof (intro conjI allI impI)
  show "occurs_at (p @ open_tag @ x @ close_tag @ t) close_tag (length p + 19 + length x)"
    by (simp add: occurs_at_def)
  fix i assume i: "i < length p + 19 + length x"
  show "\<not> occurs_at (p @ open_tag @ x @ close_tag @ t) close_tag i"
  proof
    assume o: "occurs_at (p @ open_tag @ x @ close_tag @ t) close_tag i"
    have "\<not> i < length p" using plain_no_tag[OF assms(1), of close_tag i] o by (auto simp: tag_heads)
    then obtain k where k: "i = length p + k" by (metis le_add_diff_inverse not_less)
    from occurs_head[OF o] have "(open_tag @ x @ close_tag @ t) ! k = CHR ''<''" by (simp add: tag_heads k nth_append)
    moreover have "list_all (\<lambda>c. c \<noteq> CHR ''<'') (tl open_tag)" by (simp add: open_tag_def)
    then have "open_tag ! j \<noteq> CHR ''<''" if "0 < j" "j < 19" for j
      using that by (auto simp: list_all_length nth_tl dest: spec[of _ "j - 1"])
    moreover have "x ! j \<noteq> CHR ''<''" if "j < length x" for j using assms(2) that unfolding plain_def by (metis nth_mem)
    ultimately have "k = 0"
      using i k by (auto simp: nth_append split: if_splits)
    with occurs_nth[OF o, of 1] k show False
      by (simp add: nth_append) (simp add: open_tag_def close_tag_def)
  qed
qed

lemma strip_well_formed:
  assumes "list_all (\<lambda>(p, x). plain p \<and> plain x) parts" "plain rest"
  shows "stripMemoryTags (injected parts rest) = Some (concat (map fst parts) @ rest)"
proof -
  have "stripMemoryTags (u @ injected parts rest) = Some (u @ concat (map fst parts) @ rest)" if "plain u" for u
    using assms(1) that
  proof (induction parts arbitrary: u)
    case Nil
    with assms(2) have "plain (u @ rest)" by (simp add: plain_def)
    then show ?case by (simp add: injected_def stripMemoryTags.simps[of "u @ rest"] Index_plain)
  next
    case (Cons part parts)
    obtain p x where part: "part = (p, x)" by (cases part)
    let ?up = "u @ p" and ?t = "injected parts rest"
    have ok: "plain ?up" "plain x" using Cons.prems part by (auto simp: plain_def)
    have whole: "u @ injected (part # parts) rest = ?up @ open_tag @ x @ close_tag @ ?t"
      by (simp add: injected_def part)
    have "stripMemoryTags (?up @ open_tag @ x @ close_tag @ ?t) = stripMemoryTags (?up @ ?t)"
      by (subst stripMemoryTags.simps, unfold Index_after_plain[OF ok(1)] Index_close_after[OF ok] option.case) simp
    with Cons.IH[OF _ ok(1)] Cons.prems whole part show ?case by simp
  qed
  from this[of "[]"] show ?thesis by (simp add: plain_def)
qed

subsection \<open>The claims\<close>

text \<open>
  C12: A message in which the closing tag of an injected block comes before the first opening
  tag stops the server: the loop that removes the block cuts the text from the opening tag
  and continues after the closing one, so both tags stay and it never ends. A request with
  such a message is refused if its mode, or the server's when the request names none, is
  neither smart nor raw; in every other case its ingest does not return.
\<close>

theorem mem_ingest_hangs:
  assumes "msg \<in> set (iq_Messages req)" "Index (im_Content msg) open_tag = Some a"
    "Index (im_Content msg) close_tag = Some b" "b < a"
    "mode = (if iq_Mode req = [] then me_Mode env else iq_Mode req)"
  shows "Ingest env agentName req =
    (if mode = ModeSmart \<or> mode = ModeRaw then None else Some (throw (MemInvalid ''mode'' mode)))"
proof -
  have "closes_first (im_Content msg)" using assms(2-4) by (auto simp: closes_first_def)
  with assms(1) have "stripInjectedContext (iq_Messages req) = None" by (rule strip_context_diverges)
  with assms(1,5) show ?thesis by (auto simp: Ingest_def Let_def)
qed

definition demo_message :: IngestMessage where
  "demo_message = \<lparr>im_Role = ''user'', im_Content = close_tag @ open_tag\<rparr>"

definition demo_request :: "string \<Rightarrow> IngestRequest" where
  "demo_request mode = \<lparr>iq_Messages = [demo_message], iq_SessionID = [], iq_AgentID = [], iq_Mode = mode\<rparr>"

lemma demo_tags: "Index (im_Content demo_message) open_tag = Some 20" "Index (im_Content demo_message) close_tag = Some 0"
  by (simp_all add: demo_message_def open_tag_def close_tag_def Index.simps)

theorem mem_ingest_hangs_witness:
  "me_Mode (demo_server True) = ModeSmart \<and> Ingest (demo_server True) ''bot'' (demo_request []) = None \<and>
   Ingest (demo_server True) ''bot'' (demo_request ''raw'') = None \<and>
   Ingest (demo_server True) ''bot'' (demo_request ''fast'') = Some (throw (MemInvalid ''mode'' ''fast''))"
proof -
  have msg: "demo_message \<in> set (iq_Messages (demo_request mode))" for mode by (simp add: demo_request_def)
  have mode: "iq_Mode (demo_request m) = m" for m by (simp add: demo_request_def)
  have "me_Mode (demo_server True) = ModeSmart" by (simp add: demo_server_def ModeSmart_def)
  then show ?thesis by (simp add: mem_ingest_hangs[OF msg demo_tags _ refl] mode ModeSmart_def ModeRaw_def)
qed

text \<open>
  Otherwise the loop does what it is for: from text in which plain pieces and injected
  blocks alternate, it returns the plain pieces put together.
\<close>

theorem mem_context_stripped:
  assumes "list_all (\<lambda>(p, x). plain p \<and> plain x) parts" "plain rest"
  shows "stripMemoryTags (concat (map (\<lambda>(p, x). p @ open_tag @ x @ close_tag) parts) @ rest) =
    Some (concat (map fst parts) @ rest)"
  using strip_well_formed[OF assms] by (simp add: injected_def)

theorem mem_context_stripped_witness:
  "stripMemoryTags (''a'' @ open_tag @ ''secret'' @ close_tag @ ''b'') = Some ''ab''"
  using mem_context_stripped[of "[(''a'', ''secret'')]" "''b''"] by (simp add: plain_def)

end
