(* ===== verification/JsonFile.thy ===== *)
theory JsonFile
  imports Effects
begin

text \<open>
  State kept in JSON files, as the managers of \<^verbatim>\<open>internal/sandbox\<close> keep it: an operation reads
  a file, changes the value and writes the whole file back. A file is absent, holds a value,
  or holds something that does not decode; \<^verbatim>\<open>os.WriteFile\<close> may fail before it changed the file
  or after. What is decoded is what was encoded. The host is a record of operations on a
  world: whether a file can be read, what becomes of a write, and the clock.
\<close>

datatype 'x Stored = Absent | Garbled | Holds 'x

datatype WriteOutcome = WriteDone | WriteRefused | WriteTorn

record ('w, 'x) Disk =
  dk_files :: "string \<Rightarrow> 'x Stored"
  dk_world :: 'w

record 'w DiskEnv =
  dh_Read :: "string \<Rightarrow> 'w \<Rightarrow> 'w \<times> bool"
  dh_Write :: "string \<Rightarrow> 'w \<Rightarrow> 'w \<times> WriteOutcome"
  dh_Remove :: "string \<Rightarrow> 'w \<Rightarrow> 'w \<times> bool"
  dh_Mkdir :: "string \<Rightarrow> 'w \<Rightarrow> 'w \<times> bool"
  dh_Now :: "'w \<Rightarrow> 'w \<times> int"

datatype store_error =
    FileMissing
  | FileUnreadable
  | FileUnparsed
  | FileUnwritten
  | DirFailed
  | RemoveFailed
  | EntryExists string
  | EntryMissing string
  | EntryRefused string

type_synonym ('w, 'x, 'a) dop = "(('w, 'x) Disk, store_error, 'a) op"

definition disk_ask :: "('w \<Rightarrow> 'w \<times> 'a) \<Rightarrow> ('w, 'x, 'a) dop" where
  "disk_ask f = (\<lambda>s. case f (dk_world s) of (w, x) \<Rightarrow> (s\<lparr>dk_world := w\<rparr>, Inr x))"

definition clock :: "'w DiskEnv \<Rightarrow> ('w, 'x, int) dop" where
  "clock env = disk_ask (dh_Now env)"

definition make_dir :: "'w DiskEnv \<Rightarrow> string \<Rightarrow> ('w, 'x, unit) dop" where
  "make_dir env path = bind (disk_ask (dh_Mkdir env path)) (\<lambda>ok. failIf (\<not> ok) DirFailed)"

definition read_file :: "'w DiskEnv \<Rightarrow> string \<Rightarrow> ('w, 'x, 'x) dop" where
  "read_file env path =
     bind (disk_ask (dh_Read env path)) (\<lambda>ok.
     bind (reads (\<lambda>s. dk_files s path)) (\<lambda>f.
     case f of
       Absent \<Rightarrow> throw FileMissing
     | Garbled \<Rightarrow> throw (if ok then FileUnparsed else FileUnreadable)
     | Holds x \<Rightarrow> if ok then return x else throw FileUnreadable))"

definition write_file :: "'w DiskEnv \<Rightarrow> string \<Rightarrow> 'x \<Rightarrow> ('w, 'x, unit) dop" where
  "write_file env path x =
     bind (disk_ask (dh_Write env path)) (\<lambda>r.
     case r of
       WriteDone \<Rightarrow> modify (\<lambda>s. s\<lparr>dk_files := (dk_files s)(path := Holds x)\<rparr>)
     | WriteRefused \<Rightarrow> throw FileUnwritten
     | WriteTorn \<Rightarrow> seq (modify (\<lambda>s. s\<lparr>dk_files := (dk_files s)(path := Garbled)\<rparr>)) (throw FileUnwritten))"

text \<open>\<^verbatim>\<open>os.Remove\<close>; a file that is not there is the error \<open>FileMissing\<close>.\<close>

definition remove_file :: "'w DiskEnv \<Rightarrow> string \<Rightarrow> ('w, 'x, unit) dop" where
  "remove_file env path =
     bind (disk_ask (dh_Remove env path)) (\<lambda>ok.
     bind (reads (\<lambda>s. dk_files s path)) (\<lambda>f.
     if f = Absent then throw FileMissing
     else if ok then modify (\<lambda>s. s\<lparr>dk_files := (dk_files s)(path := Absent)\<rparr>)
     else throw RemoveFailed))"

text \<open>The write of a file whose directory is made first.\<close>

definition save_file :: "'w DiskEnv \<Rightarrow> string \<Rightarrow> string \<Rightarrow> 'x \<Rightarrow> ('w, 'x, unit) dop" where
  "save_file env dir path x = seq (make_dir env dir) (write_file env path x)"

text \<open>What a file says after an operation that read \<open>x\<close> from it and may write back \<open>y\<close>.\<close>

definition all_files :: "('x \<Rightarrow> bool) \<Rightarrow> ('w, 'x) Disk \<Rightarrow> bool" where
  "all_files P s \<longleftrightarrow> (\<forall>path x. dk_files s path = Holds x \<longrightarrow> P x)"

lemma keeps_disk_ask [kept]: "keeps (all_files P) (disk_ask f)"
  by (simp add: keeps_def disk_ask_def all_files_def split: prod.split)

lemma keeps_clock [kept]: "keeps (all_files P) (clock env)"
  unfolding clock_def by (rule kept)

lemma keeps_make_dir [kept]: "keeps (all_files P) (make_dir env path)"
  unfolding make_dir_def by (intro kept)

lemma keeps_read_file [kept]: "keeps (all_files P) (read_file env path)"
  unfolding read_file_def by (intro kept) (simp add: keeps_throw keeps_return split: Stored.split)

lemma valid_disk_ask:
  "valid (\<lambda>s. \<forall>x w. Q x (s\<lparr>dk_world := w\<rparr>)) (disk_ask f) Q E"
  by (simp add: valid_def disk_ask_def split: prod.split)

lemma read_file_all: "valid (all_files P) (read_file env path) (\<lambda>x s. P x \<and> all_files P s) (\<lambda>_. all_files P)"
  unfolding valid_def read_file_def bind_def disk_ask_def reads_def throw_def return_def
  by (auto simp: all_files_def split: prod.split Stored.split)

lemma keeps_write_file: "P x \<Longrightarrow> keeps (all_files P) (write_file env path x)"
  unfolding keeps_def write_file_def bind_def disk_ask_def modify_def seq_def throw_def
  by (auto simp: all_files_def split: prod.split WriteOutcome.split)

lemma keeps_remove_file [kept]: "keeps (all_files P) (remove_file env path)"
  unfolding keeps_def remove_file_def bind_def disk_ask_def reads_def modify_def throw_def
  by (auto simp: all_files_def split: prod.split)

lemma keeps_save_file: "P x \<Longrightarrow> keeps (all_files P) (save_file env dir path x)"
  unfolding save_file_def by (intro kept keeps_write_file)

lemma keeps_bind_valid:
  "valid P m (\<lambda>x s. R x \<and> P s) (\<lambda>_. P) \<Longrightarrow> (\<And>x. R x \<Longrightarrow> keeps P (k x)) \<Longrightarrow> keeps P (bind m k)"
  unfolding keeps_def valid_def bind_def by (fastforce split: prod.splits sum.splits)

lemmas keeps_after_read = keeps_bind_valid[OF read_file_all]

end
