(* ===== verification/Schedule.thy ===== *)
theory Schedule
  imports JsonFile GoUtf8
begin

text \<open>
  Scheduled actions of sandboxes (\<^verbatim>\<open>internal/sandbox/schedule.go\<close>). A time is the number of
  nanoseconds since the epoch; the date arithmetic of the code is in UTC, where a day has a
  fixed length. \<open>scan_clock\<close> is \<^verbatim>\<open>Sscanf\<close> with two integers and a colon.
\<close>

definition ScheduleActionStart :: string where "ScheduleActionStart = ''start''"
definition ScheduleActionStop :: string where "ScheduleActionStop = ''stop''"
definition ScheduleActionRestart :: string where "ScheduleActionRestart = ''restart''"
definition ScheduleActionPause :: string where "ScheduleActionPause = ''pause''"
definition ScheduleActionUnpause :: string where "ScheduleActionUnpause = ''unpause''"

record Schedule =
  sc_ID :: string
  sc_Sandbox :: string
  sc_Action :: string
  sc_At :: "int option"
  sc_Cron :: string
  sc_Weekdays :: "int list"
  sc_TimeOfDay :: string
  sc_Enabled :: bool
  sc_CreatedAt :: int
  sc_LastRun :: "int option"
  sc_NextRun :: "int option"

subsection \<open>Reading a time of day\<close>

definition scan_clock :: "string \<Rightarrow> (int \<times> int) option" where
  "scan_clock s =
     (case scan_int s of
        None \<Rightarrow> None
      | Some (hour, r) \<Rightarrow>
          (case r of
             [] \<Rightarrow> None
           | c # r' \<Rightarrow>
               if c = CHR '':'' then (case scan_int r' of None \<Rightarrow> None | Some (mi, _) \<Rightarrow> Some (hour, mi))
               else None))"

subsection \<open>The next run\<close>

definition second_ns :: int where "second_ns = 1000000000"
definition day_ns :: int where "day_ns = 86400 * second_ns"

definition weekday :: "int \<Rightarrow> int" where
  "weekday t = (t div day_ns + 4) mod 7"

definition day_start :: "int \<Rightarrow> int" where
  "day_start t = t - t mod day_ns"

definition clock_ns :: "int \<Rightarrow> int \<Rightarrow> int" where
  "clock_ns hour mi = (hour * 3600 + mi * 60) * second_ns"

fun next_weekday :: "nat \<Rightarrow> int list \<Rightarrow> int \<Rightarrow> int option" where
  "next_weekday 0 days t = None"
| "next_weekday (Suc n) days t =
     (if List.member days (weekday t) then Some t else next_weekday n days (t + day_ns))"

definition computeNextRun :: "int \<Rightarrow> Schedule \<Rightarrow> int option" where
  "computeNextRun now sched =
     (if sc_At sched \<noteq> None \<and> sc_TimeOfDay sched = [] then
        (if the (sc_At sched) > now then sc_At sched else None)
      else if sc_TimeOfDay sched \<noteq> [] then
        (case scan_clock (sc_TimeOfDay sched) of
           None \<Rightarrow> None
         | Some (hour, mi) \<Rightarrow>
             (let today = day_start now + clock_ns hour mi;
                  candidate = (if today > now then today else today + day_ns)
              in if sc_Weekdays sched \<noteq> [] then next_weekday 8 (sc_Weekdays sched) candidate
                 else Some candidate))
      else None)"

subsection \<open>The file of schedules\<close>

type_synonym ('w, 'a) sched_op = "('w, Schedule list, 'a) dop"

definition schedulePath :: string where "schedulePath = ''schedules.json''"

definition loadLocked :: "'w DiskEnv \<Rightarrow> ('w, Schedule list) sched_op" where
  "loadLocked env =
     bind (attempt (read_file env schedulePath)) (\<lambda>r.
     case r of
       Inr scheds \<Rightarrow> return scheds
     | Inl e \<Rightarrow> if e = FileMissing then return [] else throw e)"

definition saveLocked :: "'w DiskEnv \<Rightarrow> Schedule list \<Rightarrow> ('w, unit) sched_op" where
  "saveLocked env scheds = save_file env ''.'' schedulePath scheds"

definition next_run :: "'w DiskEnv \<Rightarrow> Schedule \<Rightarrow> ('w, Schedule) sched_op" where
  "next_run env sched = bind (clock env) (\<lambda>now. return (sched\<lparr>sc_NextRun := computeNextRun now sched\<rparr>))"

definition sched_Add :: "'w DiskEnv \<Rightarrow> Schedule \<Rightarrow> ('w, unit) sched_op" where
  "sched_Add env sched =
     bind (loadLocked env) (\<lambda>scheds.
     seq (failIf (\<exists>s \<in> set scheds. sc_ID s = sc_ID sched) (EntryExists (sc_ID sched)))
     (bind (clock env) (\<lambda>now.
      bind (next_run env (sched\<lparr>sc_CreatedAt := now, sc_Enabled := True\<rparr>)) (\<lambda>sched'.
      saveLocked env (scheds @ [sched'])))))"

definition sched_Remove :: "'w DiskEnv \<Rightarrow> string \<Rightarrow> ('w, unit) sched_op" where
  "sched_Remove env sid =
     bind (loadLocked env) (\<lambda>scheds.
     seq (failIf (\<not> (\<exists>s \<in> set scheds. sc_ID s = sid)) (EntryMissing sid))
     (saveLocked env (filter (\<lambda>s. sc_ID s \<noteq> sid) scheds)))"

text \<open>The first schedule with an identifier is replaced.\<close>

fun put_sched :: "string \<Rightarrow> Schedule \<Rightarrow> Schedule list \<Rightarrow> Schedule list" where
  "put_sched sid s' [] = []"
| "put_sched sid s' (s # ss) = (if sc_ID s = sid then s' # ss else s # put_sched sid s' ss)"

definition sched_Enable :: "'w DiskEnv \<Rightarrow> string \<Rightarrow> bool \<Rightarrow> ('w, unit) sched_op" where
  "sched_Enable env sid enabled =
     bind (loadLocked env) (\<lambda>scheds.
     case List.find (\<lambda>s. sc_ID s = sid) scheds of
       None \<Rightarrow> throw (EntryMissing sid)
     | Some s \<Rightarrow>
         bind (if enabled then next_run env (s\<lparr>sc_Enabled := enabled\<rparr>)
               else return (s\<lparr>sc_Enabled := enabled, sc_NextRun := None\<rparr>)) (\<lambda>s'.
         saveLocked env (put_sched sid s' scheds)))"

definition sched_List :: "'w DiskEnv \<Rightarrow> string \<Rightarrow> ('w, Schedule list) sched_op" where
  "sched_List env sandbox =
     bind (loadLocked env) (\<lambda>scheds.
     return (if sandbox = [] then scheds else filter (\<lambda>s. sc_Sandbox s = sandbox) scheds))"

definition sched_Get :: "'w DiskEnv \<Rightarrow> string \<Rightarrow> ('w, Schedule) sched_op" where
  "sched_Get env sid =
     bind (loadLocked env) (\<lambda>scheds. orFail (EntryMissing sid) (List.find (\<lambda>s. sc_ID s = sid) scheds))"

definition is_due :: "int \<Rightarrow> Schedule \<Rightarrow> bool" where
  "is_due now s \<longleftrightarrow> sc_Enabled s \<and> (case sc_NextRun s of None \<Rightarrow> False | Some t \<Rightarrow> t \<le> now)"

definition GetDue :: "'w DiskEnv \<Rightarrow> ('w, Schedule list) sched_op" where
  "GetDue env =
     bind (loadLocked env) (\<lambda>scheds. bind (clock env) (\<lambda>now. return (filter (is_due now) scheds)))"

definition MarkRun :: "'w DiskEnv \<Rightarrow> string \<Rightarrow> ('w, unit) sched_op" where
  "MarkRun env sid =
     bind (loadLocked env) (\<lambda>scheds.
     case List.find (\<lambda>s. sc_ID s = sid) scheds of
       None \<Rightarrow> throw (EntryMissing sid)
     | Some s \<Rightarrow>
         bind (clock env) (\<lambda>now.
         let s1 = s\<lparr>sc_LastRun := Some now\<rparr> in
         bind (if sc_At s \<noteq> None \<and> sc_TimeOfDay s = []
               then return (s1\<lparr>sc_Enabled := False, sc_NextRun := None\<rparr>)
               else next_run env s1) (\<lambda>s'.
         saveLocked env (put_sched sid s' scheds))))"

definition RemoveBySandbox :: "'w DiskEnv \<Rightarrow> string \<Rightarrow> ('w, unit) sched_op" where
  "RemoveBySandbox env sandbox =
     bind (loadLocked env) (\<lambda>scheds. saveLocked env (filter (\<lambda>s. sc_Sandbox s \<noteq> sandbox) scheds))"

end
