(* ===== verification/ScheduleClaims.thy ===== *)
theory ScheduleClaims
  imports Schedule
begin

text \<open>
  The next run of a recurring schedule is the earliest instant after now at its time of day
  on one of its weekdays, and the file of schedules has every identifier once.
\<close>

lemma day_ns_pos [simp]: "0 < day_ns" "0 \<le> day_ns" "day_ns \<noteq> 0"
  by (simp_all add: day_ns_def second_ns_def)

lemma weekday_shift: "weekday (t + int k * day_ns) = (weekday t + int k) mod 7"
proof -
  have "(t + int k * day_ns) div day_ns = t div day_ns + int k"
    by (simp add: div_mult_self1)
  then show ?thesis unfolding weekday_def by presburger
qed

lemma weekday_range: "0 \<le> weekday t" "weekday t \<le> 6"
proof -
  have "0 \<le> weekday t" "weekday t < 7" unfolding weekday_def by simp_all
  then show "0 \<le> weekday t" "weekday t \<le> 6" by simp_all
qed

lemma next_weekday_first:
  "next_weekday n days t = Some u \<Longrightarrow>
   \<exists>k. u = t + int k * day_ns \<and> weekday u \<in> set days \<and> (\<forall>j < k. weekday (t + int j * day_ns) \<notin> set days)"
proof (induction n arbitrary: t)
  case (Suc n)
  show ?case
  proof (cases "weekday t \<in> set days")
    case True
    with Suc.prems show ?thesis by (intro exI[of _ 0]) simp
  next
    case False
    with Suc obtain k where k: "u = t + day_ns + int k * day_ns" "weekday u \<in> set days"
      "\<forall>j < k. weekday (t + day_ns + int j * day_ns) \<notin> set days"
      by (auto split: if_splits)
    have "weekday (t + int j * day_ns) \<notin> set days" if "j < Suc k" for j
      using False k(3) that by (cases j) (simp_all add: algebra_simps)
    with k(1,2) show ?thesis by (intro exI[of _ "Suc k"]) (simp add: algebra_simps)
  qed
qed simp

lemma next_weekday_none:
  "next_weekday n days t = None \<Longrightarrow> j < n \<Longrightarrow> weekday (t + int j * day_ns) \<notin> set days"
proof (induction n arbitrary: t j)
  case (Suc n)
  from Suc.prems(1) have "weekday t \<notin> set days" "next_weekday n days (t + day_ns) = None"
    by (simp_all split: if_splits)
  moreover have "weekday (t + day_ns + int i * day_ns) \<notin> set days" if "j = Suc i" for i
    using Suc.IH[OF calculation(2)] Suc.prems(2) that by simp
  ultimately show ?case by (cases j) (simp_all add: algebra_simps)
qed simp

lemma next_weekday_found:
  assumes "w \<in> set days" "0 \<le> w" "w \<le> 6"
  shows "\<exists>u. next_weekday 8 days t = Some u"
proof (rule ccontr)
  assume "\<nexists>u. next_weekday 8 days t = Some u"
  then have none: "next_weekday 8 days t = None" by (cases "next_weekday 8 days t") simp_all
  let ?j = "nat ((w - weekday t) mod 7)"
  have "(w - weekday t) mod 7 < 7" "0 \<le> (w - weekday t) mod 7" by simp_all
  then have "?j < 8" "int ?j = (w - weekday t) mod 7" by simp_all
  moreover from this(2) have "weekday (t + int ?j * day_ns) = (weekday t + (w - weekday t) mod 7) mod 7"
    unfolding weekday_shift by (simp only:)
  then have "weekday (t + int ?j * day_ns) = w" using assms(2,3) by (simp add: mod_simps)
  ultimately show False using next_weekday_none[OF none] assms(1) by metis
qed

definition scheduled_at :: "int \<Rightarrow> int \<Rightarrow> int list \<Rightarrow> int \<Rightarrow> bool" where
  "scheduled_at hour mi days t \<longleftrightarrow>
     t mod day_ns = clock_ns hour mi \<and> (days = [] \<or> weekday t \<in> set days)"

lemma clock_ns_range:
  "0 \<le> hour \<Longrightarrow> hour \<le> 23 \<Longrightarrow> 0 \<le> mi \<Longrightarrow> mi \<le> 59 \<Longrightarrow> 0 \<le> clock_ns hour mi \<and> clock_ns hour mi < day_ns"
  by (simp add: clock_ns_def day_ns_def second_ns_def)

lemma day_start_clock: "0 \<le> c \<Longrightarrow> c < day_ns \<Longrightarrow> (day_start now + c) mod day_ns = c"
proof -
  assume c: "0 \<le> c" "c < day_ns"
  have "day_start now mod day_ns = 0" by (simp add: day_start_def mod_diff_left_eq[symmetric])
  with c show ?thesis by (metis add.left_neutral mod_add_left_eq mod_pos_pos_trivial)
qed

text \<open>Instants with the same time of day are whole days apart.\<close>

lemma same_clock:
  assumes "t mod day_ns = c mod day_ns" "now < t" "c - day_ns \<le> now"
  shows "\<exists>j. t = c + int j * day_ns"
proof -
  from assms(1) have "day_ns dvd t - c" by (simp add: mod_eq_dvd_iff)
  then obtain q where q: "t - c = day_ns * q" by (auto elim: dvdE)
  have "0 \<le> q"
  proof (rule ccontr)
    assume "\<not> 0 \<le> q"
    then have "day_ns * q \<le> day_ns * (-1)" by (intro mult_left_mono) simp_all
    with q assms(2,3) show False by simp
  qed
  with q show ?thesis by (intro exI[of _ "nat q"]) (simp add: algebra_simps)
qed

text \<open>
  C31: The next run of a recurring schedule is after now, at its time of day and on one of its
  weekdays (any day if it names none), and no instant between now and it is: the search over
  the weekdays ends within its eight steps and skips no day.
\<close>

theorem schedule_next_run:
  assumes "sc_TimeOfDay sched \<noteq> []" "scan_clock (sc_TimeOfDay sched) = Some (hour, mi)"
    "0 \<le> hour" "hour \<le> 23" "0 \<le> mi" "mi \<le> 59"
    "sc_Weekdays sched = [] \<or> (\<exists>w \<in> set (sc_Weekdays sched). 0 \<le> w \<and> w \<le> 6)"
  shows "\<exists>t. computeNextRun now sched = Some t \<and> now < t \<and> scheduled_at hour mi (sc_Weekdays sched) t \<and>
    (\<forall>u. now < u \<longrightarrow> scheduled_at hour mi (sc_Weekdays sched) u \<longrightarrow> t \<le> u)"
proof -
  let ?c = "clock_ns hour mi" and ?days = "sc_Weekdays sched"
  let ?cand = "if day_start now + ?c > now then day_start now + ?c else day_start now + ?c + day_ns"
  have c: "0 \<le> ?c" "?c < day_ns" using clock_ns_range[of hour mi] assms(3-6) by simp_all
  have run: "computeNextRun now sched = (if ?days \<noteq> [] then next_weekday 8 ?days ?cand else Some ?cand)"
    using assms(1,2) by (simp add: computeNextRun_def Let_def)
  have m: "?cand mod day_ns = ?c" using day_start_clock[OF c, of now] by simp
  have "day_start now \<le> now" "now < day_start now + day_ns" by (simp_all add: day_start_def)
  with c have near: "now < ?cand" "?cand - day_ns \<le> now" by simp_all
  have days: "\<exists>j. u = ?cand + int j * day_ns" if "now < u" "u mod day_ns = ?c" for u
    by (rule same_clock[OF _ that(1) near(2)]) (simp add: that(2) m)
  show ?thesis
  proof (cases "?days = []")
    case True
    have "?cand \<le> u" if "now < u" "u mod day_ns = ?c" for u
    proof -
      from days[OF that] obtain j where "u = ?cand + int j * day_ns" by blast
      moreover have "0 \<le> int j * day_ns" by (intro mult_nonneg_nonneg) simp_all
      ultimately show ?thesis by linarith
    qed
    with True run m near(1) show ?thesis by (auto simp: scheduled_at_def)
  next
    case False
    with assms(7) obtain w where w: "w \<in> set ?days" "0 \<le> w" "w \<le> 6" by blast
    from next_weekday_found[OF w] obtain t where t: "next_weekday 8 ?days ?cand = Some t" by blast
    from next_weekday_first[OF t] obtain k where k: "t = ?cand + int k * day_ns" "weekday t \<in> set ?days"
      "\<forall>j < k. weekday (?cand + int j * day_ns) \<notin> set ?days" by blast
    have "t \<le> u" if u: "now < u" "u mod day_ns = ?c" "weekday u \<in> set ?days" for u
    proof -
      from days[OF u(1,2)] obtain j where j: "u = ?cand + int j * day_ns" by blast
      with k(3) u(3) have "k \<le> j" by (meson not_le)
      then have "int k * day_ns \<le> int j * day_ns" by (intro mult_right_mono) simp_all
      with j k(1) show ?thesis by linarith
    qed
    moreover have "now < t" using near(1) k(1) by (smt (verit) day_ns_pos mult_nonneg_nonneg of_nat_0_le_iff)
    moreover have "t mod day_ns = ?c" using k(1) m by (metis mod_mult_self1)
    ultimately show ?thesis using False run t k(2) by (auto simp: scheduled_at_def)
  qed
qed

text \<open>A run on Mondays and Fridays at half past eight, asked for on Thursday, 1970-01-01.\<close>

definition demo_schedule :: Schedule where
  "demo_schedule = \<lparr>sc_ID = ''a'', sc_Sandbox = ''web'', sc_Action = ''start'', sc_At = None, sc_Cron = [],
     sc_Weekdays = [1, 5], sc_TimeOfDay = ''08:30'', sc_Enabled = True, sc_CreatedAt = 0, sc_LastRun = None,
     sc_NextRun = None\<rparr>"

lemma demo_clock: "scan_clock ''08:30'' = Some (8, 30)"
  by code_simp

theorem schedule_next_run_witness:
  "\<exists>t. computeNextRun 0 demo_schedule = Some t \<and> 0 < t \<and> scheduled_at 8 30 [1, 5] t"
  using schedule_next_run[of demo_schedule 8 30 0] demo_clock by (auto simp: demo_schedule_def)

subsection \<open>The file\<close>

abbreviation sched_ok :: "('w, Schedule list) Disk \<Rightarrow> bool" where
  "sched_ok \<equiv> all_files (\<lambda>scheds. distinct (map sc_ID scheds))"

lemma put_sched_ids: "sc_ID s' = sid \<Longrightarrow> map sc_ID (put_sched sid s' ss) = map sc_ID ss"
  by (induction ss) auto

lemma load_ok: "valid sched_ok (loadLocked env) (\<lambda>ss s. distinct (map sc_ID ss) \<and> sched_ok s) (\<lambda>_. sched_ok)"
  unfolding loadLocked_def
proof (rule valid_bind)
  show "valid sched_ok (attempt (read_file env schedulePath))
      (\<lambda>r s. sched_ok s \<and> (\<forall>ss. r = Inr ss \<longrightarrow> distinct (map sc_ID ss))) (\<lambda>_. sched_ok)"
    by (rule valid_attempt, rule valid_weaken[OF read_file_all]) auto
qed (auto simp: valid_def return_def throw_def split: sum.split)

lemmas keeps_load = keeps_bind_valid[OF load_ok]

lemma keeps_save: "distinct (map sc_ID ss) \<Longrightarrow> keeps sched_ok (saveLocked env ss)"
  unfolding saveLocked_def by (rule keeps_save_file)

lemma next_run_id: "next_run env s d = (d', Inr s') \<Longrightarrow> sc_ID s' = sc_ID s"
  by (auto simp: next_run_def bind_def clock_def disk_ask_def return_def split: prod.splits)

lemma valid_next_run: "valid sched_ok (next_run env s) (\<lambda>s' d. sc_ID s' = sc_ID s \<and> sched_ok d) (\<lambda>_. sched_ok)"
  unfolding next_run_def valid_def
  by (simp add: bind_def clock_def disk_ask_def return_def all_files_def split: prod.split)

lemmas keeps_next_run = keeps_bind_valid[OF valid_next_run]

lemma find_id: "List.find (\<lambda>s. sc_ID s = sid) ss = Some s \<Longrightarrow> sc_ID s = sid"
  by (auto simp: find_Some_iff)

lemma keeps_put:
  assumes "distinct (map sc_ID ss)" "sc_ID s' = sid"
  shows "keeps sched_ok (saveLocked env (put_sched sid s' ss))"
  using assms by (intro keeps_save) (simp add: put_sched_ids)

lemma distinct_ids_filter: "distinct (map sc_ID ss) \<Longrightarrow> distinct (map sc_ID (filter p ss))"
  by (rule distinct_map_filter)

lemma ids_Add: "keeps sched_ok (sched_Add env sched)"
  unfolding sched_Add_def
proof (rule keeps_load)
  fix ss :: "Schedule list" assume d: "distinct (map sc_ID ss)"
  show "keeps sched_ok (seq (failIf (\<exists>s \<in> set ss. sc_ID s = sc_ID sched) (EntryExists (sc_ID sched)))
     (bind (clock env) (\<lambda>now. bind (next_run env (sched\<lparr>sc_CreatedAt := now, sc_Enabled := True\<rparr>))
       (\<lambda>sched'. saveLocked env (ss @ [sched'])))))"
  proof (cases "\<exists>s \<in> set ss. sc_ID s = sc_ID sched")
    case False
    then show ?thesis using d by (intro kept keeps_next_run keeps_save) auto
  qed (simp add: keeps_def seq_def bind_def failIf_def throw_def)
qed

lemma ids_Remove: "keeps sched_ok (sched_Remove env sid)"
  unfolding sched_Remove_def by (rule keeps_load) (intro kept keeps_save distinct_ids_filter)

lemma ids_RemoveBySandbox: "keeps sched_ok (RemoveBySandbox env sandbox)"
  unfolding RemoveBySandbox_def by (rule keeps_load) (intro keeps_save distinct_ids_filter)

end
