(* ===== verification/Pool.thy ===== *)
theory Pool
  imports JsonFile Models GoText
begin

text \<open>
  Pools of pre-started sandboxes (\<^verbatim>\<open>internal/sandbox/pool.go\<close>). Every pool has a file with its
  configuration and its members; an operation reads the file, changes it and writes it back
  while it holds the lock of the manager, so it is one step of the process.
\<close>

record PoolConfig =
  pc_Name :: string
  pc_From :: string
  pc_MinReady :: int
  pc_MaxSize :: int
  pc_VCPUs :: int
  pc_MemoryMB :: int
  pc_DiskGB :: int
  pc_Allow :: "string list"
  pc_Env :: "(string \<times> string) list"
  pc_TTL :: string
  pc_CreatedAt :: int

definition PoolConfig_Validate :: "PoolConfig \<Rightarrow> store_error + PoolConfig" where
  "PoolConfig_Validate pc =
     (if pc_Name pc = [] then Inl (EntryRefused ''name'')
      else if pc_From pc = [] then Inl (EntryRefused ''from'')
      else if pc_MinReady pc < 0 then Inl (EntryRefused ''min_ready'')
      else if pc_MaxSize pc < 1 then Inl (EntryRefused ''max_size'')
      else if pc_MinReady pc > pc_MaxSize pc then Inl (EntryRefused ''min_ready'')
      else Inr (pc\<lparr>pc_VCPUs := (if pc_VCPUs pc < 1 then 2 else pc_VCPUs pc),
                   pc_MemoryMB := (if pc_MemoryMB pc < 1 then 1024 else pc_MemoryMB pc),
                   pc_DiskGB := (if pc_DiskGB pc < 1 then 10 else pc_DiskGB pc)\<rparr>))"

definition PoolMemberReady :: string where "PoolMemberReady = ''ready''"
definition PoolMemberClaimed :: string where "PoolMemberClaimed = ''claimed''"
definition PoolMemberProvisioning :: string where "PoolMemberProvisioning = ''provisioning''"
definition PoolMemberError :: string where "PoolMemberError = ''error''"

lemmas member_states = PoolMemberReady_def PoolMemberClaimed_def PoolMemberProvisioning_def PoolMemberError_def

record PoolMember =
  po_SandboxName :: string
  po_State :: string
  po_ClaimedBy :: string
  po_ClaimedAt :: int
  po_CreatedAt :: int
  po_Error :: string

record PoolState =
  ps_Config :: PoolConfig
  ps_Members :: "PoolMember list"

record PoolStatus =
  pt_Name :: string
  pt_From :: string
  pt_MinReady :: int
  pt_MaxSize :: int
  pt_Ready :: nat
  pt_Claimed :: nat
  pt_Provisioning :: nat
  pt_Errored :: nat
  pt_Total :: nat

type_synonym ('w, 'a) pool_op = "('w, PoolState, 'a) dop"

definition codes :: "string \<Rightarrow> bytes" where
  "codes s = map (\<lambda>c. word_of_nat (of_char c)) s"

definition poolDir :: "string \<Rightarrow> bytes" where
  "poolDir baseDir = Join (codes baseDir) (codes ''pools'')"

definition poolFile :: "string \<Rightarrow> string \<Rightarrow> string" where
  "poolFile baseDir name = map (\<lambda>b. char_of (unat b)) (Join (poolDir baseDir) (codes (name @ ''.json'')))"

definition pool_loadState :: "'w DiskEnv \<Rightarrow> string \<Rightarrow> string \<Rightarrow> ('w, PoolState) pool_op" where
  "pool_loadState env baseDir name = read_file env (poolFile baseDir name)"

definition pool_saveState :: "'w DiskEnv \<Rightarrow> string \<Rightarrow> string \<Rightarrow> PoolState \<Rightarrow> ('w, unit) pool_op" where
  "pool_saveState env baseDir name st = write_file env (poolFile baseDir name) st"

definition unix :: "int \<Rightarrow> int" where "unix ns = ns div 1000000000"

text \<open>A file that cannot be looked at is taken for one that is not there.\<close>

definition CreatePool :: "'w DiskEnv \<Rightarrow> ('w \<Rightarrow> 'w \<times> bool) \<Rightarrow> string \<Rightarrow> PoolConfig \<Rightarrow> ('w, unit) pool_op" where
  "CreatePool env statWorks baseDir cfg0 =
     (case PoolConfig_Validate cfg0 of
        Inl e \<Rightarrow> throw e
      | Inr cfg \<Rightarrow>
          seq (make_dir env (map (\<lambda>b. char_of (unat b)) (poolDir baseDir)))
          (bind (disk_ask statWorks) (\<lambda>seen.
           bind (reads (\<lambda>s. dk_files s (poolFile baseDir (pc_Name cfg)))) (\<lambda>f.
           seq (failIf (seen \<and> f \<noteq> Absent) (EntryExists (pc_Name cfg)))
           (bind (clock env) (\<lambda>now.
            pool_saveState env baseDir (pc_Name cfg)
              \<lparr>ps_Config = cfg\<lparr>pc_CreatedAt := unix now\<rparr>, ps_Members = []\<rparr>))))))"

definition DeletePool :: "'w DiskEnv \<Rightarrow> string \<Rightarrow> string \<Rightarrow> ('w, string list) pool_op" where
  "DeletePool env baseDir name =
     bind (pool_loadState env baseDir name) (\<lambda>st.
     bind (attempt (remove_file env (poolFile baseDir name))) (\<lambda>r.
     case r of
       Inl e \<Rightarrow> if e = FileMissing then return (map po_SandboxName (ps_Members st)) else throw e
     | Inr _ \<Rightarrow> return (map po_SandboxName (ps_Members st))))"

definition in_state :: "string \<Rightarrow> PoolMember list \<Rightarrow> nat" where
  "in_state st ms = length (filter (\<lambda>m. po_State m = st) ms)"

definition buildStatus :: "PoolState \<Rightarrow> PoolStatus" where
  "buildStatus st = \<lparr>
     pt_Name = pc_Name (ps_Config st), pt_From = pc_From (ps_Config st),
     pt_MinReady = pc_MinReady (ps_Config st), pt_MaxSize = pc_MaxSize (ps_Config st),
     pt_Ready = in_state PoolMemberReady (ps_Members st), pt_Claimed = in_state PoolMemberClaimed (ps_Members st),
     pt_Provisioning = in_state PoolMemberProvisioning (ps_Members st),
     pt_Errored = in_state PoolMemberError (ps_Members st), pt_Total = length (ps_Members st)\<rparr>"

definition GetPoolStatus :: "'w DiskEnv \<Rightarrow> string \<Rightarrow> string \<Rightarrow> ('w, PoolStatus) pool_op" where
  "GetPoolStatus env baseDir name = bind (pool_loadState env baseDir name) (\<lambda>st. return (buildStatus st))"

text \<open>The status of every file that can be read; \<open>names\<close> are the names in the directory, in its order.\<close>

fun pool_statuses :: "'w DiskEnv \<Rightarrow> string \<Rightarrow> string list \<Rightarrow> ('w, PoolStatus list) pool_op" where
  "pool_statuses env baseDir [] = return []"
| "pool_statuses env baseDir (name # names) =
     bind (attempt (pool_loadState env baseDir name)) (\<lambda>r.
     bind (pool_statuses env baseDir names) (\<lambda>rest.
     return (case r of Inl _ \<Rightarrow> rest | Inr st \<Rightarrow> buildStatus st # rest)))"

definition AddMember :: "'w DiskEnv \<Rightarrow> string \<Rightarrow> string \<Rightarrow> string \<Rightarrow> string \<Rightarrow> ('w, unit) pool_op" where
  "AddMember env baseDir poolName sandboxName memberState =
     bind (pool_loadState env baseDir poolName) (\<lambda>st.
     seq (failIf (int (length (ps_Members st)) \<ge> pc_MaxSize (ps_Config st)) (EntryRefused ''capacity''))
     (seq (failIf (\<exists>m \<in> set (ps_Members st). po_SandboxName m = sandboxName) (EntryExists sandboxName))
     (bind (clock env) (\<lambda>now.
      pool_saveState env baseDir poolName
        (st\<lparr>ps_Members := ps_Members st @ [\<lparr>po_SandboxName = sandboxName, po_State = memberState, po_ClaimedBy = [],
           po_ClaimedAt = 0, po_CreatedAt = unix now, po_Error = []\<rparr>]\<rparr>)))))"

text \<open>The index of the first member with a property.\<close>

fun first_index :: "('a \<Rightarrow> bool) \<Rightarrow> 'a list \<Rightarrow> nat option" where
  "first_index P [] = None"
| "first_index P (x # xs) = (if P x then Some 0 else map_option Suc (first_index P xs))"

definition set_member :: "nat \<Rightarrow> PoolMember \<Rightarrow> PoolState \<Rightarrow> PoolState" where
  "set_member i m st = st\<lparr>ps_Members := (ps_Members st)[i := m]\<rparr>"

definition drop_member :: "nat \<Rightarrow> PoolState \<Rightarrow> PoolState" where
  "drop_member i st = st\<lparr>ps_Members := take i (ps_Members st) @ drop (Suc i) (ps_Members st)\<rparr>"

definition SetMemberState :: "'w DiskEnv \<Rightarrow> string \<Rightarrow> string \<Rightarrow> string \<Rightarrow> string \<Rightarrow> ('w, unit) pool_op" where
  "SetMemberState env baseDir poolName sandboxName memberState =
     bind (pool_loadState env baseDir poolName) (\<lambda>st.
     case first_index (\<lambda>m. po_SandboxName m = sandboxName) (ps_Members st) of
       None \<Rightarrow> throw (EntryMissing sandboxName)
     | Some i \<Rightarrow>
         (let m = (ps_Members st ! i)\<lparr>po_State := memberState\<rparr>;
              m' = (if memberState = PoolMemberError then m\<lparr>po_Error := ''provisioning failed''\<rparr> else m)
          in pool_saveState env baseDir poolName (set_member i m' st)))"

definition Claim :: "'w DiskEnv \<Rightarrow> string \<Rightarrow> string \<Rightarrow> string \<Rightarrow> ('w, PoolMember) pool_op" where
  "Claim env baseDir poolName claimedBy =
     bind (pool_loadState env baseDir poolName) (\<lambda>st.
     case first_index (\<lambda>m. po_State m = PoolMemberReady) (ps_Members st) of
       None \<Rightarrow> throw (EntryMissing ''ready'')
     | Some i \<Rightarrow>
         bind (clock env) (\<lambda>now.
         let m = (ps_Members st ! i)\<lparr>po_State := PoolMemberClaimed, po_ClaimedBy := claimedBy, po_ClaimedAt := unix now\<rparr>
         in seq (pool_saveState env baseDir poolName (set_member i m st)) (return m)))"

definition Release :: "'w DiskEnv \<Rightarrow> string \<Rightarrow> string \<Rightarrow> string \<Rightarrow> ('w, unit) pool_op" where
  "Release env baseDir poolName sandboxName =
     bind (pool_loadState env baseDir poolName) (\<lambda>st.
     case first_index (\<lambda>m. po_SandboxName m = sandboxName) (ps_Members st) of
       None \<Rightarrow> throw (EntryMissing sandboxName)
     | Some i \<Rightarrow>
         if po_State (ps_Members st ! i) \<noteq> PoolMemberClaimed then throw (EntryRefused sandboxName)
         else pool_saveState env baseDir poolName (drop_member i st))"

definition RemoveMember :: "'w DiskEnv \<Rightarrow> string \<Rightarrow> string \<Rightarrow> string \<Rightarrow> ('w, unit) pool_op" where
  "RemoveMember env baseDir poolName sandboxName =
     bind (pool_loadState env baseDir poolName) (\<lambda>st.
     case first_index (\<lambda>m. po_SandboxName m = sandboxName) (ps_Members st) of
       None \<Rightarrow> throw (EntryMissing sandboxName)
     | Some i \<Rightarrow> pool_saveState env baseDir poolName (drop_member i st))"

definition deficit :: "PoolState \<Rightarrow> int" where
  "deficit st =
     (let want = pc_MinReady (ps_Config st) - int (in_state PoolMemberReady (ps_Members st))
                 - int (in_state PoolMemberProvisioning (ps_Members st));
          needed = (if want < 0 then 0 else want);
          found = int (length (ps_Members st));
          capped = (if found + needed > pc_MaxSize (ps_Config st) then pc_MaxSize (ps_Config st) - found else needed)
      in if capped < 0 then 0 else capped)"

definition GetDeficit :: "'w DiskEnv \<Rightarrow> string \<Rightarrow> string \<Rightarrow> ('w, int \<times> PoolConfig) pool_op" where
  "GetDeficit env baseDir poolName =
     bind (pool_loadState env baseDir poolName) (\<lambda>st. return (deficit st, ps_Config st))"

definition GenerateMemberName :: "'w DiskEnv \<Rightarrow> string \<Rightarrow> int \<Rightarrow> ('w, string) pool_op" where
  "GenerateMemberName env poolName index =
     bind (clock env) (\<lambda>now. return (''pool-'' @ poolName @ ''-'' @ decimal (unix now) @ ''-'' @ decimal index))"

definition GenerateMemberConfig :: "PoolConfig \<Rightarrow> string \<Rightarrow> VMConfig" where
  "GenerateMemberConfig cfg sandboxName = zero_config\<lparr>
     cf_Name := sandboxName, cf_From := pc_From cfg, cf_VCPUs := pc_VCPUs cfg, cf_MemoryMB := pc_MemoryMB cfg,
     cf_DiskGB := pc_DiskGB cfg, cf_Kernel := ''default'',
     cf_Network := no_network\<lparr>nw_Mode := ''bridge'', nw_Bridge := ''tent0'', nw_Allow := pc_Allow cfg\<rparr>,
     cf_Labels := [(''tent.pool'', pc_Name cfg), (''tent.pool.role'', ''member'')],
     cf_Env := pc_Env cfg, cf_TTL := pc_TTL cfg\<rparr>"

end
