(* ===== verification/PoolClaims.thy ===== *)
theory PoolClaims
  imports Pool
begin

text \<open>
  What every file of a pool says after any calls, and that a sandbox is handed to one client
  at a time.
\<close>

definition pool_ok :: "PoolState \<Rightarrow> bool" where
  "pool_ok st \<longleftrightarrow> distinct (map po_SandboxName (ps_Members st)) \<and>
     int (length (ps_Members st)) \<le> pc_MaxSize (ps_Config st)"

lemma first_index_Some:
  "first_index P xs = Some i \<longleftrightarrow> i < length xs \<and> P (xs ! i) \<and> (\<forall>j < i. \<not> P (xs ! j))"
proof (induction xs arbitrary: i)
  case (Cons x xs)
  then show ?case by (cases i) (auto simp: less_Suc_eq_0_disj)
qed simp

lemma names_set_member:
  "i < length (ps_Members st) \<Longrightarrow> po_SandboxName m = po_SandboxName (ps_Members st ! i) \<Longrightarrow>
   map po_SandboxName (ps_Members (set_member i m st)) = map po_SandboxName (ps_Members st)"
  by (simp add: set_member_def map_update) (metis length_map list_update_id nth_map)

lemma distinct_without: "distinct xs \<Longrightarrow> distinct (take i xs @ drop (Suc i) xs)"
  by (simp add: set_take_disj_set_drop_if_distinct)

lemma drop_member_length: "length (ps_Members (drop_member i st)) \<le> length (ps_Members st)"
  by (simp add: drop_member_def)

lemma drop_member_set: "set (ps_Members (drop_member i st)) \<subseteq> set (ps_Members st)"
  by (auto simp: drop_member_def dest: in_set_takeD in_set_dropD)

lemma drop_member_distinct:
  "distinct (map po_SandboxName (ps_Members st)) \<Longrightarrow> distinct (map po_SandboxName (ps_Members (drop_member i st)))"
  unfolding drop_member_def by (simp add: take_map drop_map distinct_without del: distinct_append flip: map_append)
    (metis distinct_without drop_map map_append take_map)

lemma pool_ok_drop: "pool_ok st \<Longrightarrow> pool_ok (drop_member i st)"
  using drop_member_distinct[of st i] drop_member_length[of i st]
  by (auto simp: pool_ok_def) (simp add: drop_member_def)

lemma pool_ok_set:
  "pool_ok st \<Longrightarrow> i < length (ps_Members st) \<Longrightarrow> po_SandboxName m = po_SandboxName (ps_Members st ! i) \<Longrightarrow>
   pool_ok (set_member i m st)"
  using names_set_member[of i st m] by (simp add: pool_ok_def) (simp add: set_member_def)

subsection \<open>The calls\<close>

datatype PoolCall =
    CallCreate PoolConfig
  | CallDelete string
  | CallAdd string string string
  | CallSetState string string string
  | CallClaim string string
  | CallRelease string string
  | CallRemove string string

definition pool_call :: "'w DiskEnv \<Rightarrow> ('w \<Rightarrow> 'w \<times> bool) \<Rightarrow> string \<Rightarrow> PoolCall \<Rightarrow> ('w, unit) pool_op" where
  "pool_call env statWorks dir c =
     (case c of
        CallCreate cfg \<Rightarrow> CreatePool env statWorks dir cfg
      | CallDelete p \<Rightarrow> bind (DeletePool env dir p) (\<lambda>_. return ())
      | CallAdd p n st \<Rightarrow> AddMember env dir p n st
      | CallSetState p n st \<Rightarrow> SetMemberState env dir p n st
      | CallClaim p by \<Rightarrow> bind (Claim env dir p by) (\<lambda>_. return ())
      | CallRelease p n \<Rightarrow> Release env dir p n
      | CallRemove p n \<Rightarrow> RemoveMember env dir p n)"

text \<open>The disk after some calls, whatever each of them returns.\<close>

definition pool_calls :: "'w DiskEnv \<Rightarrow> ('w \<Rightarrow> 'w \<times> bool) \<Rightarrow> string \<Rightarrow> PoolCall list \<Rightarrow> ('w, PoolState) Disk \<Rightarrow> ('w, PoolState) Disk" where
  "pool_calls env statWorks dir cs s = foldl (\<lambda>s c. fst (pool_call env statWorks dir c s)) s cs"

text \<open>An invariant of the files: what an operation writes has it if what it read has it.\<close>

definition pool_closed :: "(PoolCall \<Rightarrow> bool) \<Rightarrow> (PoolState \<Rightarrow> bool) \<Rightarrow> bool" where
  "pool_closed ok I \<longleftrightarrow>
     (\<forall>cfg. 1 \<le> pc_MaxSize cfg \<longrightarrow> I \<lparr>ps_Config = cfg, ps_Members = []\<rparr>) \<and>
     (\<forall>st p n v t. I st \<longrightarrow> ok (CallAdd p n v) \<longrightarrow> int (length (ps_Members st)) < pc_MaxSize (ps_Config st) \<longrightarrow>
        n \<notin> po_SandboxName ` set (ps_Members st) \<longrightarrow>
        I (st\<lparr>ps_Members := ps_Members st @ [\<lparr>po_SandboxName = n, po_State = v, po_ClaimedBy = [], po_ClaimedAt = 0,
             po_CreatedAt = t, po_Error = []\<rparr>]\<rparr>)) \<and>
     (\<forall>st i m p. I st \<longrightarrow> i < length (ps_Members st) \<longrightarrow> po_SandboxName m = po_SandboxName (ps_Members st ! i) \<longrightarrow>
        ok (CallSetState p (po_SandboxName m) (po_State m)) \<or> po_State m = PoolMemberClaimed \<longrightarrow> I (set_member i m st)) \<and>
     (\<forall>st i. I st \<longrightarrow> I (drop_member i st))"

lemma closed_set:
  "pool_closed ok I \<Longrightarrow> I st \<Longrightarrow> i < length (ps_Members st) \<Longrightarrow> po_SandboxName m = po_SandboxName (ps_Members st ! i) \<Longrightarrow>
   ok (CallSetState p (po_SandboxName m) (po_State m)) \<or> po_State m = PoolMemberClaimed \<Longrightarrow> I (set_member i m st)"
  unfolding pool_closed_def by (elim conjE) blast

lemma validate_max: "PoolConfig_Validate c = Inr cfg \<Longrightarrow> 1 \<le> pc_MaxSize cfg"
  by (auto simp: PoolConfig_Validate_def split: if_splits)

lemma keeps_load_pool: "(\<And>st. I st \<Longrightarrow> keeps (all_files I) (k st)) \<Longrightarrow> keeps (all_files I) (bind (pool_loadState env dir p) k)"
  unfolding pool_loadState_def by (rule keeps_after_read)

lemma keeps_save_pool: "I st \<Longrightarrow> keeps (all_files I) (pool_saveState env dir p st)"
  unfolding pool_saveState_def by (rule keeps_write_file)

lemma keeps_guarded: "(\<not> b \<Longrightarrow> keeps P m) \<Longrightarrow> keeps P (seq (failIf b e) m)"
  by (cases b) (auto intro: kept simp: keeps_def seq_def bind_def failIf_def throw_def return_def)

lemma closed_Create: "pool_closed ok I \<Longrightarrow> keeps (all_files I) (CreatePool env w dir cfg)"
  unfolding CreatePool_def
  by (intro kept keeps_guarded keeps_save_pool) (auto simp: pool_closed_def dest: validate_max)

lemma closed_Delete: "keeps (all_files I) (DeletePool env dir p)"
  unfolding DeletePool_def pool_loadState_def by (intro kept)

lemma closed_Add: "pool_closed ok I \<Longrightarrow> ok (CallAdd p n v) \<Longrightarrow> keeps (all_files I) (AddMember env dir p n v)"
  unfolding AddMember_def
  by (intro keeps_load_pool keeps_guarded keeps_bind keeps_clock keeps_save_pool) (fastforce simp: pool_closed_def)

lemma closed_SetState:
  assumes "pool_closed ok I" "ok (CallSetState p n v)"
  shows "keeps (all_files I) (SetMemberState env dir p n v)"
  unfolding SetMemberState_def Let_def
proof (intro keeps_load_pool keeps_case_option keeps_throw keeps_save_pool)
  fix st i assume "I st" "first_index (\<lambda>m. po_SandboxName m = n) (ps_Members st) = Some i"
  then have i: "I st" "i < length (ps_Members st)" "po_SandboxName (ps_Members st ! i) = n"
    by (simp_all add: first_index_Some)
  show "I (set_member i
      (if v = PoolMemberError then (ps_Members st ! i)\<lparr>po_State := v, po_Error := ''provisioning failed''\<rparr>
       else (ps_Members st ! i)\<lparr>po_State := v\<rparr>) st)"
    by (rule closed_set[OF assms(1) i(1,2), where p = p]) (use i(3) assms(2) in auto)
qed

lemma closed_Claim: "pool_closed ok I \<Longrightarrow> keeps (all_files I) (Claim env dir p c)"
  unfolding Claim_def Let_def
  by (intro keeps_load_pool kept keeps_clock keeps_save_pool)
    (simp add: pool_closed_def first_index_Some)

lemma closed_Release: "pool_closed ok I \<Longrightarrow> keeps (all_files I) (Release env dir p n)"
  unfolding Release_def by (intro keeps_load_pool kept keeps_save_pool) (simp add: pool_closed_def)

lemma closed_Remove: "pool_closed ok I \<Longrightarrow> keeps (all_files I) (RemoveMember env dir p n)"
  unfolding RemoveMember_def by (intro keeps_load_pool kept keeps_save_pool) (simp add: pool_closed_def)

lemma closed_call:
  assumes "pool_closed ok I" "ok c"
  shows "keeps (all_files I) (pool_call env w dir c)"
  using assms unfolding pool_call_def
  by (cases c) (auto intro!: keeps_bind keeps_return closed_Create closed_Delete closed_Add closed_SetState closed_Claim
      closed_Release closed_Remove)

lemma closed_calls:
  "pool_closed ok I \<Longrightarrow> \<forall>c \<in> set cs. ok c \<Longrightarrow> all_files I s \<Longrightarrow> all_files I (pool_calls env w dir cs s)"
proof (induction cs arbitrary: s)
  case (Cons c cs)
  then have "keeps (all_files I) (pool_call env w dir c)"
    using closed_call[OF Cons.prems(1), of c] by simp
  with Cons.prems(3) have "all_files I (fst (pool_call env w dir c s))" by (simp add: keeps_def)
  with Cons show ?case by (simp add: pool_calls_def)
qed (simp add: pool_calls_def)

lemma pool_ok_closed: "pool_closed (\<lambda>_. True) pool_ok"
  unfolding pool_closed_def
proof (intro conjI allI impI)
  fix st p n v t assume "pool_ok st" "int (length (ps_Members st)) < pc_MaxSize (ps_Config st)"
    "n \<notin> po_SandboxName ` set (ps_Members st)"
  then show "pool_ok (st\<lparr>ps_Members := ps_Members st @ [\<lparr>po_SandboxName = n, po_State = v, po_ClaimedBy = [],
      po_ClaimedAt = 0, po_CreatedAt = t, po_Error = []\<rparr>]\<rparr>)"
    by (simp add: pool_ok_def)
next
  fix cfg :: PoolConfig assume "1 \<le> pc_MaxSize cfg"
  then show "pool_ok \<lparr>ps_Config = cfg, ps_Members = []\<rparr>" by (simp add: pool_ok_def)
qed (auto intro: pool_ok_drop pool_ok_set)

text \<open>A sandbox that is not free in any file.\<close>

definition not_free :: "string \<Rightarrow> PoolState \<Rightarrow> bool" where
  "not_free n st \<longleftrightarrow> (\<forall>m \<in> set (ps_Members st). po_SandboxName m = n \<longrightarrow> po_State m \<noteq> PoolMemberReady)"

fun hands_back :: "string \<Rightarrow> PoolCall \<Rightarrow> bool" where
  "hands_back n (CallAdd p n' v) = (n' = n \<and> v = PoolMemberReady)"
| "hands_back n (CallSetState p n' v) = (n' = n \<and> v = PoolMemberReady)"
| "hands_back n _ = False"

lemma not_free_closed: "pool_closed (\<lambda>c. \<not> hands_back n c) (not_free n)"
  unfolding pool_closed_def
proof (intro conjI allI impI)
  fix st i p and m :: PoolMember assume "not_free n st" "i < length (ps_Members st)"
    "\<not> hands_back n (CallSetState p (po_SandboxName m) (po_State m)) \<or> po_State m = PoolMemberClaimed"
  then show "not_free n (set_member i m st)"
    by (auto simp: not_free_def set_member_def member_states dest!: set_update_subset_insert[THEN subsetD])
next
  fix st i assume "not_free n st"
  then show "not_free n (drop_member i st)" using drop_member_set[of i st] by (auto simp: not_free_def)
qed (auto simp: not_free_def)

subsection \<open>Claiming\<close>

lemma Claim_ok:
  assumes "Claim env dir p by s = (s1, Inr m)"
  shows "\<exists>st i. dk_files s (poolFile dir p) = Holds st \<and>
    first_index (\<lambda>m. po_State m = PoolMemberReady) (ps_Members st) = Some i \<and>
    po_SandboxName m = po_SandboxName (ps_Members st ! i) \<and> po_State m = PoolMemberClaimed \<and>
    dk_files s1 = (dk_files s)(poolFile dir p := Holds (set_member i m st))"
  using assms
  unfolding Claim_def pool_loadState_def pool_saveState_def read_file_def write_file_def clock_def
  by (auto simp: bind_def seq_def disk_ask_def reads_def throw_def return_def modify_def Let_def
      split: prod.splits Stored.splits option.splits if_splits WriteOutcome.splits)

text \<open>
  C28: In every state that calls can reach from an empty directory, whatever becomes of reads and
  writes, the file of a pool has each sandbox once and at most as many as the pool allows,
  and provisioning the reported deficit stays within that bound and does not overshoot the
  number of sandboxes that are to be ready.
\<close>

theorem pool_bounded:
  assumes "dk_files (pool_calls env statWorks dir cs \<lparr>dk_files = \<lambda>_. Absent, dk_world = w\<rparr>) path = Holds st"
  shows "distinct (map po_SandboxName (ps_Members st)) \<and>
    0 \<le> deficit st \<and> int (length (ps_Members st)) + deficit st \<le> pc_MaxSize (ps_Config st) \<and>
    (0 < deficit st \<longrightarrow>
      int (in_state PoolMemberReady (ps_Members st) + in_state PoolMemberProvisioning (ps_Members st)) + deficit st
        \<le> pc_MinReady (ps_Config st))"
proof -
  have "all_files pool_ok (pool_calls env statWorks dir cs \<lparr>dk_files = \<lambda>_. Absent, dk_world = w\<rparr>)"
    by (rule closed_calls[OF pool_ok_closed]) (simp_all add: all_files_def)
  with assms have "pool_ok st" by (auto simp: all_files_def)
  then show ?thesis by (auto simp: pool_ok_def deficit_def Let_def)
qed

text \<open>
  C27: A sandbox is handed to one client at a time: after a claim returned it, no claim on any
  pool returns it again, through any sequence of calls, unless one of them adds it or sets
  it as ready. The sandbox has to be free in no other pool, and the pools well formed.
\<close>

theorem pool_claim_exclusive:
  assumes "all_files pool_ok s" "Claim env dir p by s = (s1, Inr m)"
    "\<And>path st. dk_files s path = Holds st \<Longrightarrow> path \<noteq> poolFile dir p \<Longrightarrow> not_free (po_SandboxName m) st"
    "\<forall>c \<in> set cs. \<not> hands_back (po_SandboxName m) c"
    "Claim env dir q by' (pool_calls env statWorks dir cs s1) = (s2, Inr m')"
  shows "po_SandboxName m' \<noteq> po_SandboxName m"
proof -
  let ?n = "po_SandboxName m"
  from Claim_ok[OF assms(2)] obtain st i where st: "dk_files s (poolFile dir p) = Holds st"
    "first_index (\<lambda>m. po_State m = PoolMemberReady) (ps_Members st) = Some i"
    "?n = po_SandboxName (ps_Members st ! i)" "po_State m = PoolMemberClaimed"
    "dk_files s1 = (dk_files s)(poolFile dir p := Holds (set_member i m st))" by blast
  from st(1,2) assms(1) have i: "distinct (map po_SandboxName (ps_Members st))" "i < length (ps_Members st)"
    by (auto simp: all_files_def pool_ok_def first_index_Some)
  have "not_free ?n (set_member i m st)"
    unfolding not_free_def
  proof (intro ballI impI)
    fix x assume "x \<in> set (ps_Members (set_member i m st))" "po_SandboxName x = ?n"
    then obtain j where "j < length (ps_Members st)" "x = (ps_Members st)[i := m] ! j"
      by (auto simp: set_member_def in_set_conv_nth)
    with \<open>po_SandboxName x = ?n\<close> i st(3,4) show "po_State x \<noteq> PoolMemberReady"
      by (auto simp: nth_list_update distinct_conv_nth member_states split: if_splits)
  qed
  with st(5) assms(3) have "all_files (not_free ?n) s1" by (auto simp: all_files_def split: if_splits)
  from closed_calls[OF not_free_closed assms(4) this]
  have "all_files (not_free ?n) (pool_calls env statWorks dir cs s1)" .
  moreover from Claim_ok[OF assms(5)] obtain st' j where
    "dk_files (pool_calls env statWorks dir cs s1) (poolFile dir q) = Holds st'"
    "first_index (\<lambda>m. po_State m = PoolMemberReady) (ps_Members st') = Some j"
    "po_SandboxName m' = po_SandboxName (ps_Members st' ! j)" by blast
  ultimately show ?thesis by (auto simp: all_files_def not_free_def first_index_Some)
qed

text \<open>Two clients of a pool of two sandboxes.\<close>

definition demo_member :: "string \<Rightarrow> PoolMember" where
  "demo_member n = \<lparr>po_SandboxName = n, po_State = PoolMemberReady, po_ClaimedBy = [], po_ClaimedAt = 0,
     po_CreatedAt = 0, po_Error = []\<rparr>"

definition demo_pool :: PoolState where
  "demo_pool = \<lparr>ps_Config = \<lparr>pc_Name = ''p'', pc_From = ''img'', pc_MinReady = 1, pc_MaxSize = 3, pc_VCPUs = 1,
     pc_MemoryMB = 1, pc_DiskGB = 1, pc_Allow = [], pc_Env = [], pc_TTL = [], pc_CreatedAt = 0\<rparr>,
     ps_Members = [demo_member ''a'', demo_member ''b'']\<rparr>"

definition demo_disk :: "(nat, PoolState) Disk" where
  "demo_disk = \<lparr>dk_files = (\<lambda>_. Absent)(poolFile ''/t'' ''p'' := Holds demo_pool), dk_world = 0\<rparr>"

definition calm_disk :: "nat DiskEnv" where
  "calm_disk = \<lparr>dh_Read = (\<lambda>_ w. (w, True)), dh_Write = (\<lambda>_ w. (w, WriteDone)), dh_Remove = (\<lambda>_ w. (w, True)),
     dh_Mkdir = (\<lambda>_ w. (w, True)), dh_Now = (\<lambda>w. (w + 1, 0))\<rparr>"

lemmas claim_unfold = Claim_def pool_loadState_def pool_saveState_def read_file_def write_file_def clock_def
  bind_def seq_def disk_ask_def reads_def throw_def return_def modify_def calm_disk_def

lemma demo_claim: "\<exists>s m. Claim calm_disk ''/t'' ''p'' ''x'' demo_disk = (s, Inr m) \<and> po_SandboxName m = ''a'' \<and>
    (\<exists>s' m'. Claim calm_disk ''/t'' ''p'' ''y'' s = (s', Inr m'))"
  by (simp add: claim_unfold demo_disk_def demo_pool_def demo_member_def set_member_def Let_def member_states)

theorem pool_claim_exclusive_witness:
  "\<exists>s m s' m'. Claim calm_disk ''/t'' ''p'' ''x'' demo_disk = (s, Inr m) \<and>
     Claim calm_disk ''/t'' ''p'' ''y'' s = (s', Inr m') \<and> po_SandboxName m' \<noteq> po_SandboxName m"
proof -
  from demo_claim obtain s m s' m' where c: "Claim calm_disk ''/t'' ''p'' ''x'' demo_disk = (s, Inr m)"
    "Claim calm_disk ''/t'' ''p'' ''y'' s = (s', Inr m')" by blast
  have ok: "all_files pool_ok demo_disk"
    by (auto simp: all_files_def demo_disk_def pool_ok_def demo_pool_def demo_member_def)
  have "po_SandboxName m' \<noteq> po_SandboxName m"
    by (rule pool_claim_exclusive[OF ok c(1), where cs = "[]" and statWorks = "\<lambda>w. (w, True)"])
      (use c(2) in \<open>auto simp: pool_calls_def demo_disk_def split: if_splits\<close>)
  with c show ?thesis by blast
qed

theorem pool_bounded_witness:
  "\<exists>st. dk_files (pool_calls calm_disk (\<lambda>w. (w, True)) ''/t'' [CallCreate (ps_Config demo_pool)]
      \<lparr>dk_files = \<lambda>_. Absent, dk_world = 0\<rparr>) (poolFile ''/t'' ''p'') = Holds st \<and> deficit st \<le> 3"
proof -
  let ?s = "pool_calls calm_disk (\<lambda>w. (w, True)) ''/t'' [CallCreate (ps_Config demo_pool)] \<lparr>dk_files = \<lambda>_. Absent, dk_world = 0\<rparr>"
  have "\<exists>st. dk_files ?s (poolFile ''/t'' ''p'') = Holds st \<and> pc_MaxSize (ps_Config st) = 3"
    by (simp add: pool_calls_def pool_call_def CreatePool_def PoolConfig_Validate_def demo_pool_def make_dir_def
        claim_unfold failIf_def)
  then obtain st where st: "dk_files ?s (poolFile ''/t'' ''p'') = Holds st" "pc_MaxSize (ps_Config st) = 3" by blast
  from pool_bounded[OF st(1)] st(2) have "deficit st \<le> 3" by simp
  with st(1) show ?thesis by blast
qed

end
