(* ===== verification/Forward.thy ===== *)
theory Forward
  imports Effects Models "HOL-Library.AList"
begin

text \<open>
  The port forwarder (\<^verbatim>\<open>internal/network/portforward.go\<close>). A rule and a listener are objects
  that several tables and the accept loops point to, so both are numbered entries of a store.
  The host decides whether a port can be listened on. A call is one step; the lock that
  ActivateForwards releases while it opens its listeners is not modelled. Copying of data
  between the two ends of a connection is not modelled either. The table of rules is a list
  of pairs, because the code iterates over it.
\<close>

record BandwidthLimit =
  bw_IngressRate :: "64 word"
  bw_EgressRate :: "64 word"
  bw_IngressBurst :: "64 word"
  bw_EgressBurst :: "64 word"

definition HasLimits :: "BandwidthLimit option \<Rightarrow> bool" where
  "HasLimits b = (case b of None \<Rightarrow> False | Some l \<Rightarrow> bw_IngressRate l > 0 \<or> bw_EgressRate l > 0)"

record forwardRule =
  fr_HostPort :: int
  fr_GuestPort :: int
  fr_GuestIP :: string
  fr_VMName :: string

record ForwardStatus =
  fs_VMName :: string
  fs_HostPort :: int
  fs_GuestPort :: int
  fs_GuestIP :: string
  fs_Active :: bool

text \<open>A listener: its port, the rule its accept loop serves, and whether it is open.\<close>

record Listener =
  ln_Port :: int
  ln_Rule :: nat
  ln_Open :: bool

record 'w PortForwarder =
  fw_rules :: "(string \<times> nat list) list"
  fw_listeners :: "string \<Rightarrow> nat list option"
  fw_limits :: "string \<Rightarrow> BandwidthLimit option"
  fw_trackers :: "string set"
  fw_rule :: "nat \<Rightarrow> forwardRule"
  fw_nextRule :: nat
  fw_socket :: "nat \<Rightarrow> Listener"
  fw_nextSocket :: nat
  fw_world :: 'w

datatype fw_error = FwBadHostPort int | FwBadGuestPort int | FwConflict int | FwDuplicate int | FwListen int | FwNone string

type_synonym ('w, 'a) fwop = "('w PortForwarder, fw_error, 'a) op"

definition NewPortForwarder :: "'w \<Rightarrow> 'w PortForwarder" where
  "NewPortForwarder w = \<lparr>fw_rules = [], fw_listeners = Map.empty, fw_limits = Map.empty, fw_trackers = {},
     fw_rule = (\<lambda>_. \<lparr>fr_HostPort = 0, fr_GuestPort = 0, fr_GuestIP = [], fr_VMName = []\<rparr>), fw_nextRule = 0,
     fw_socket = (\<lambda>_. \<lparr>ln_Port = 0, ln_Rule = 0, ln_Open = False\<rparr>), fw_nextSocket = 0, fw_world = w\<rparr>"

definition pf_SetBandwidthLimit :: "string \<Rightarrow> BandwidthLimit option \<Rightarrow> ('w, unit) fwop" where
  "pf_SetBandwidthLimit vm limit =
     modify (\<lambda>s. s\<lparr>fw_limits := (fw_limits s)(vm := (if HasLimits limit then limit else None))\<rparr>)"

definition GetTracker :: "string \<Rightarrow> ('w, string) fwop" where
  "GetTracker vm = seq (modify (\<lambda>s. s\<lparr>fw_trackers := insert vm (fw_trackers s)\<rparr>)) (return vm)"

definition rules_of :: "'w PortForwarder \<Rightarrow> string \<Rightarrow> nat list" where
  "rules_of s vm = (case map_of (fw_rules s) vm of None \<Rightarrow> [] | Some rs \<Rightarrow> rs)"

definition listeners_of :: "'w PortForwarder \<Rightarrow> string \<Rightarrow> nat list" where
  "listeners_of s vm = (case fw_listeners s vm of None \<Rightarrow> [] | Some ks \<Rightarrow> ks)"

definition set_rules :: "string \<Rightarrow> nat list \<Rightarrow> ('w, unit) fwop" where
  "set_rules vm rs = modify (\<lambda>s. s\<lparr>fw_rules := AList.update vm rs (fw_rules s)\<rparr>)"

definition ports_of :: "'w PortForwarder \<Rightarrow> nat list \<Rightarrow> int list" where
  "ports_of s rs = map (\<lambda>r. fr_HostPort (fw_rule s r)) rs"

text \<open>Some other sandbox has a rule for the port.\<close>

definition port_conflict :: "string \<Rightarrow> int \<Rightarrow> 'w PortForwarder \<Rightarrow> bool" where
  "port_conflict vm port s \<longleftrightarrow>
     list_ex (\<lambda>(name, rs). name \<noteq> vm \<and> List.member (ports_of s rs) port) (fw_rules s)"

definition checkPortConflict :: "string \<Rightarrow> int \<Rightarrow> ('w, unit) fwop" where
  "checkPortConflict vm port = bind (reads (port_conflict vm port)) (\<lambda>c. failIf c (FwConflict port))"

definition bad_port :: "int \<Rightarrow> bool" where
  "bad_port p \<longleftrightarrow> p \<le> 0 \<or> p > 65535"

definition new_rule :: "string \<Rightarrow> int \<Rightarrow> int \<Rightarrow> string \<Rightarrow> ('w, nat) fwop" where
  "new_rule vm host guest ip =
     bind (reads fw_nextRule) (\<lambda>n.
     seq (modify (\<lambda>s. s\<lparr>fw_rule := (fw_rule s)(n := \<lparr>fr_HostPort = host, fr_GuestPort = guest, fr_GuestIP = ip, fr_VMName = vm\<rparr>),
                      fw_nextRule := Suc n\<rparr>))
     (return n))"

fun new_rules :: "string \<Rightarrow> PortForward list \<Rightarrow> ('w, nat list) fwop" where
  "new_rules vm [] = return []"
| "new_rules vm (p # ps) =
     bind (new_rule vm (pf_Host p) (pf_Guest p) []) (\<lambda>r. bind (new_rules vm ps) (\<lambda>rs. return (r # rs)))"

definition SetupForwards :: "string \<Rightarrow> PortForward list \<Rightarrow> ('w, unit) fwop" where
  "SetupForwards vm ports =
     (if ports = [] then return ()
      else seq (forEach (\<lambda>p.
               seq (failIf (bad_port (pf_Host p)) (FwBadHostPort (pf_Host p)))
               (seq (failIf (bad_port (pf_Guest p)) (FwBadGuestPort (pf_Guest p)))
               (checkPortConflict vm (pf_Host p)))) ports)
           (bind (new_rules vm ports) (\<lambda>rs. set_rules vm rs)))"

text \<open>\<^verbatim>\<open>net.Listen\<close> on the port of a rule, with the accept loop that serves the rule.\<close>

definition listen :: "(int \<Rightarrow> 'w \<Rightarrow> 'w \<times> bool) \<Rightarrow> nat \<Rightarrow> ('w, nat) fwop" where
  "listen host r =
     bind (reads (\<lambda>s. fr_HostPort (fw_rule s r))) (\<lambda>port. \<lambda>s.
     case host port (fw_world s) of
       (w, False) \<Rightarrow> (s\<lparr>fw_world := w\<rparr>, Inl (FwListen port))
     | (w, True) \<Rightarrow>
         (s\<lparr>fw_world := w,
            fw_socket := (fw_socket s)(fw_nextSocket s := \<lparr>ln_Port = port, ln_Rule = r, ln_Open = True\<rparr>),
            fw_nextSocket := fw_nextSocket s + 1\<rparr>,
          Inr (fw_nextSocket s)))"

definition close_listener :: "nat \<Rightarrow> ('w, unit) fwop" where
  "close_listener k = modify (\<lambda>s. s\<lparr>fw_socket := (fw_socket s)(k := (fw_socket s k)\<lparr>ln_Open := False\<rparr>)\<rparr>)"

fun listen_all :: "(int \<Rightarrow> 'w \<Rightarrow> 'w \<times> bool) \<Rightarrow> nat list \<Rightarrow> nat list \<Rightarrow> ('w, nat list) fwop" where
  "listen_all host [] opened = return opened"
| "listen_all host (r # rs) opened =
     bind (attempt (listen host r)) (\<lambda>l.
     case l of
       Inl e \<Rightarrow> seq (forEach close_listener opened) (throw e)
     | Inr k \<Rightarrow> listen_all host rs (opened @ [k]))"

definition ActivateForwards :: "(int \<Rightarrow> 'w \<Rightarrow> 'w \<times> bool) \<Rightarrow> string \<Rightarrow> string \<Rightarrow> ('w, unit) fwop" where
  "ActivateForwards host vm guestIP =
     bind (reads (\<lambda>s. map_of (fw_rules s) vm)) (\<lambda>rules.
     case rules of
       None \<Rightarrow> return ()
     | Some rs \<Rightarrow>
         if rs = [] then return ()
         else seq (modify (\<lambda>s. s\<lparr>fw_rule := (\<lambda>r. if r \<in> set rs then (fw_rule s r)\<lparr>fr_GuestIP := guestIP\<rparr> else fw_rule s r)\<rparr>))
              (bind (listen_all host rs []) (\<lambda>ks.
               modify (\<lambda>s. s\<lparr>fw_listeners := (fw_listeners s)(vm := Some ks)\<rparr>))))"

definition RemoveForwards :: "string \<Rightarrow> ('w, unit) fwop" where
  "RemoveForwards vm =
     bind (reads (\<lambda>s. fw_listeners s vm)) (\<lambda>l.
     seq (case l of
            None \<Rightarrow> return ()
          | Some ks \<Rightarrow> seq (forEach close_listener ks) (modify (\<lambda>s. s\<lparr>fw_listeners := (fw_listeners s)(vm := None)\<rparr>)))
     (modify (\<lambda>s. s\<lparr>fw_rules := AList.delete vm (fw_rules s), fw_limits := (fw_limits s)(vm := None),
                    fw_trackers := fw_trackers s - {vm}\<rparr>)))"

definition rule_status :: "'w PortForwarder \<Rightarrow> bool \<Rightarrow> nat \<Rightarrow> ForwardStatus" where
  "rule_status s listening r =
     (let x = fw_rule s r in
      \<lparr>fs_VMName = fr_VMName x, fs_HostPort = fr_HostPort x, fs_GuestPort = fr_GuestPort x, fs_GuestIP = fr_GuestIP x,
       fs_Active = (listening \<and> fr_GuestIP x \<noteq> [])\<rparr>)"

definition ListForwards :: "string \<Rightarrow> 'w PortForwarder \<Rightarrow> ForwardStatus list" where
  "ListForwards vm s = map (rule_status s (fw_listeners s vm \<noteq> None)) (rules_of s vm)"

definition ListAllForwards :: "'w PortForwarder \<Rightarrow> ForwardStatus list" where
  "ListAllForwards s = concat (map (\<lambda>(vm, rs). map (rule_status s (fw_listeners s vm \<noteq> None)) rs) (fw_rules s))"

definition AddForward :: "(int \<Rightarrow> 'w \<Rightarrow> 'w \<times> bool) \<Rightarrow> string \<Rightarrow> int \<Rightarrow> int \<Rightarrow> string \<Rightarrow> ('w, unit) fwop" where
  "AddForward host vm hostPort guestPort guestIP =
     seq (failIf (bad_port hostPort) (FwBadHostPort hostPort))
     (seq (failIf (bad_port guestPort) (FwBadGuestPort guestPort))
     (seq (checkPortConflict vm hostPort)
     (bind (reads (\<lambda>s. List.member (ports_of s (rules_of s vm)) hostPort)) (\<lambda>dup.
      seq (failIf dup (FwDuplicate hostPort))
      (bind (new_rule vm hostPort guestPort guestIP) (\<lambda>r.
       seq (bind (reads (\<lambda>s. rules_of s vm)) (\<lambda>rs. set_rules vm (rs @ [r])))
       (whenOp (guestIP \<noteq> [])
         (bind (attempt (listen host r)) (\<lambda>l.
          case l of
            Inl e \<Rightarrow> seq (bind (reads (\<lambda>s. rules_of s vm)) (\<lambda>rs. set_rules vm (butlast rs)))
                       (throw (FwListen hostPort))
          | Inr k \<Rightarrow> modify (\<lambda>s. s\<lparr>fw_listeners := (fw_listeners s)(vm := Some (listeners_of s vm @ [k]))\<rparr>))))))))))"

fun index_of_port :: "(nat \<Rightarrow> int) \<Rightarrow> int \<Rightarrow> nat list \<Rightarrow> nat option" where
  "index_of_port port p [] = None"
| "index_of_port port p (r # rs) = (if port r = p then Some 0 else map_option Suc (index_of_port port p rs))"

definition without_index :: "nat \<Rightarrow> 'a list \<Rightarrow> 'a list" where
  "without_index i xs = take i xs @ drop (Suc i) xs"

definition RemoveForward :: "string \<Rightarrow> int \<Rightarrow> ('w, unit) fwop" where
  "RemoveForward vm hostPort =
     bind (reads (\<lambda>s. map_of (fw_rules s) vm)) (\<lambda>rules.
     case rules of
       None \<Rightarrow> throw (FwNone vm)
     | Some rs \<Rightarrow>
         bind (reads (\<lambda>s. index_of_port (\<lambda>r. fr_HostPort (fw_rule s r)) hostPort rs)) (\<lambda>idx.
         case idx of
           None \<Rightarrow> throw (FwNone vm)
         | Some i \<Rightarrow>
             bind (reads (\<lambda>s. fw_listeners s vm)) (\<lambda>l.
             seq (case l of
                    None \<Rightarrow> return ()
                  | Some ks \<Rightarrow>
                      whenOp (i < length ks)
                        (seq (close_listener (ks ! i))
                        (modify (\<lambda>s. s\<lparr>fw_listeners := (fw_listeners s)(vm := Some (without_index i ks))\<rparr>))))
             (set_rules vm (without_index i rs)))))"

end
