(* ===== verification/ForwardClaims.thy ===== *)
theory ForwardClaims
  imports Forward
begin

text \<open>
  No two sandboxes forward the same port of the host, in every state that calls of the
  forwarder reach; and a case in which removing one forward silences another.
\<close>

abbreviation port_of :: "'w PortForwarder \<Rightarrow> nat \<Rightarrow> int" where
  "port_of s r \<equiv> fr_HostPort (fw_rule s r)"

definition may_have :: "'w PortForwarder \<Rightarrow> string \<Rightarrow> nat list \<Rightarrow> bool" where
  "may_have s vm rs \<longleftrightarrow>
     (\<forall>r \<in> set rs. r < fw_nextRule s \<and> \<not> bad_port (port_of s r) \<and> \<not> port_conflict vm (port_of s r) s)"

definition forwards_ok :: "'w PortForwarder \<Rightarrow> bool" where
  "forwards_ok s \<longleftrightarrow> distinct (map fst (fw_rules s)) \<and>
     (\<forall>vm rs. map_of (fw_rules s) vm = Some rs \<longrightarrow> may_have s vm rs)"

lemma conflict_map:
  "distinct (map fst (fw_rules s)) \<Longrightarrow>
   port_conflict vm p s \<longleftrightarrow> (\<exists>v rs. v \<noteq> vm \<and> map_of (fw_rules s) v = Some rs \<and> p \<in> port_of s ` set rs)"
  by (fastforce simp: port_conflict_def list_ex_iff ports_of_def)

text \<open>Only the table of rules, the ports and the counter matter.\<close>

definition same_rules :: "'w PortForwarder \<Rightarrow> 'w PortForwarder \<Rightarrow> bool" where
  "same_rules s s' \<longleftrightarrow> fw_rules s' = fw_rules s \<and> fw_nextRule s' = fw_nextRule s \<and> (\<forall>r. port_of s' r = port_of s r)"

lemma same_conflict: "same_rules s s' \<Longrightarrow> port_conflict vm p s' = port_conflict vm p s"
  by (simp add: same_rules_def port_conflict_def ports_of_def)

lemma same_may_have: "same_rules s s' \<Longrightarrow> may_have s' vm rs = may_have s vm rs"
  using same_conflict[of s s'] by (simp add: may_have_def same_rules_def)

lemma same_ok: "same_rules s s' \<Longrightarrow> forwards_ok s' = forwards_ok s"
  using same_may_have[of s s'] by (simp add: forwards_ok_def same_rules_def)

lemma ok_rules_of: "forwards_ok s \<Longrightarrow> set rs \<subseteq> set (rules_of s vm) \<Longrightarrow> may_have s vm rs"
  unfolding forwards_ok_def rules_of_def
  by (cases "map_of (fw_rules s) vm") (auto simp: may_have_def)

lemma conflict_update:
  assumes "distinct (map fst (fw_rules s))" "port_conflict v q (s\<lparr>fw_rules := AList.update vm rs (fw_rules s)\<rparr>)"
  shows "port_conflict v q s \<or> (v \<noteq> vm \<and> q \<in> port_of s ` set rs)"
proof -
  have d: "distinct (map fst (fw_rules (s\<lparr>fw_rules := AList.update vm rs (fw_rules s)\<rparr>)))"
    using assms(1) by (simp add: distinct_update)
  from assms(2)[unfolded conflict_map[OF d]] obtain u rs' where
    u: "u \<noteq> v" "((map_of (fw_rules s))(vm \<mapsto> rs)) u = Some rs'" "q \<in> port_of s ` set rs'"
    by (auto simp: update_conv')
  show ?thesis
  proof (cases "u = vm")
    case False
    with u have "map_of (fw_rules s) u = Some rs'" by simp
    with u(1,3) show ?thesis unfolding conflict_map[OF assms(1)] by blast
  qed (use u in auto)
qed

lemma ok_set_rules:
  assumes "forwards_ok s" "may_have s vm rs"
  shows "forwards_ok (s\<lparr>fw_rules := AList.update vm rs (fw_rules s)\<rparr>)"
proof -
  let ?s = "s\<lparr>fw_rules := AList.update vm rs (fw_rules s)\<rparr>"
  have d: "distinct (map fst (fw_rules s))" using assms(1) by (simp add: forwards_ok_def)
  have "may_have ?s v rs'" if v: "map_of (fw_rules ?s) v = Some rs'" for v rs'
    unfolding may_have_def
  proof (intro ballI conjI)
    fix r assume r: "r \<in> set rs'"
    have old: "may_have s v rs'"
    proof (cases "v = vm")
      case False
      with v have "map_of (fw_rules s) v = Some rs'" by (simp add: update_conv')
      with assms(1) show ?thesis by (simp add: forwards_ok_def)
    qed (use v assms(2) in \<open>simp add: update_conv'\<close>)
    with r show "r < fw_nextRule ?s" "\<not> bad_port (port_of ?s r)" by (simp_all add: may_have_def)
    show "\<not> port_conflict v (port_of ?s r) ?s"
    proof
      assume "port_conflict v (port_of ?s r) ?s"
      from conflict_update[OF d this] old r have n: "v \<noteq> vm" "port_of s r \<in> port_of s ` set rs"
        by (auto simp: may_have_def)
      with v have "map_of (fw_rules s) v = Some rs'" by (simp add: update_conv')
      with n r have "port_conflict vm (port_of s r) s" unfolding conflict_map[OF d] by blast
      with assms(2) n(2) show False by (auto simp: may_have_def)
    qed
  qed
  with d show ?thesis by (simp add: forwards_ok_def distinct_update)
qed

lemma ok_delete: "forwards_ok s \<Longrightarrow> forwards_ok (s\<lparr>fw_rules := AList.delete vm (fw_rules s)\<rparr>)"
proof -
  let ?s = "s\<lparr>fw_rules := AList.delete vm (fw_rules s)\<rparr>"
  assume ok: "forwards_ok s"
  then have d: "distinct (map fst (fw_rules s))" by (simp add: forwards_ok_def)
  then have d': "distinct (map fst (fw_rules ?s))" by (simp add: distinct_delete)
  from ok show "forwards_ok ?s"
    unfolding forwards_ok_def may_have_def conflict_map[OF d] conflict_map[OF d']
    by (auto simp: delete_conv' d distinct_delete split: if_splits)
qed

lemma new_rule_fresh:
  fixes g ip
  assumes "forwards_ok s" "may_have s vm rs0" "\<not> bad_port p" "\<not> port_conflict vm p s"
  defines "s' \<equiv> s\<lparr>fw_rule := (fw_rule s)(fw_nextRule s := \<lparr>fr_HostPort = p, fr_GuestPort = g, fr_GuestIP = ip, fr_VMName = vm\<rparr>),
      fw_nextRule := Suc (fw_nextRule s)\<rparr>"
  shows "forwards_ok s' \<and> may_have s' vm (rs0 @ [fw_nextRule s]) \<and> (\<forall>q. port_conflict vm q s' = port_conflict vm q s)"
proof -
  have d: "distinct (map fst (fw_rules s))" "distinct (map fst (fw_rules s'))"
    using assms(1) by (simp_all add: forwards_ok_def s'_def)
  have old: "r < fw_nextRule s" if "map_of (fw_rules s) v = Some rs" "r \<in> set rs" for v rs r
    using assms(1) that by (auto simp: forwards_ok_def may_have_def)
  have ports: "port_of s' r = port_of s r" if "r < fw_nextRule s" for r
    using that by (simp add: s'_def)
  have c: "port_conflict v q s' = port_conflict v q s" for v q
  proof -
    have "ports_of s' rs = ports_of s rs" if "(u, rs) \<in> set (fw_rules s)" for u rs
      using that d(1) old[of u rs] ports by (simp add: ports_of_def)
    moreover have "fw_rules s' = fw_rules s" by (simp add: s'_def)
    ultimately show ?thesis unfolding port_conflict_def list_ex_iff by (intro bex_cong) auto
  qed
  have keep: "may_have s' v rs" if "may_have s v rs" for v rs
    using that ports by (auto simp: may_have_def c) (auto simp: s'_def)
  have "port_of s' (fw_nextRule s) = p" by (simp add: s'_def)
  then have "may_have s' vm (rs0 @ [fw_nextRule s])"
    using keep[OF assms(2)] assms(3,4) unfolding may_have_def c
    by (simp add: ball_Un s'_def)
  moreover have "forwards_ok s'"
    unfolding forwards_ok_def
  proof (intro conjI allI impI)
    fix v rs assume "map_of (fw_rules s') v = Some rs"
    with assms(1) have "may_have s v rs" by (simp add: forwards_ok_def s'_def)
    then show "may_have s' v rs" by (rule keep)
  qed (rule d(2))
  ultimately show ?thesis by (simp add: c)
qed

subsection \<open>The calls keep the table\<close>

lemma keeps_same: "(\<And>s. same_rules s (fst (m s))) \<Longrightarrow> keeps forwards_ok m"
  unfolding keeps_def by (metis same_ok)

lemma same_refl [simp]: "same_rules s s"
  by (simp add: same_rules_def)

lemma same_trans: "same_rules s s' \<Longrightarrow> same_rules s' s'' \<Longrightarrow> same_rules s s''"
  by (simp add: same_rules_def)

text \<open>Operations that leave the rules alone, whatever else they change.\<close>

definition leaves_rules :: "('w, 'a) fwop \<Rightarrow> bool" where
  "leaves_rules m \<longleftrightarrow> (\<forall>s. same_rules s (fst (m s)))"

named_theorems untouched

lemma untouched_basic [untouched]:
  "leaves_rules (return x)" "leaves_rules (throw e)" "leaves_rules (failIf b e)" "leaves_rules (reads f)"
  by (simp_all add: leaves_rules_def return_def throw_def failIf_def reads_def)

lemma untouched_bind [untouched]: "leaves_rules m \<Longrightarrow> (\<And>x. leaves_rules (k x)) \<Longrightarrow> leaves_rules (bind m k)"
  unfolding leaves_rules_def bind_def
  by (auto split: prod.split sum.split) (metis fst_conv same_trans)+

lemma untouched_seq [untouched]: "leaves_rules m \<Longrightarrow> leaves_rules n \<Longrightarrow> leaves_rules (seq m n)"
  unfolding seq_def by (rule untouched_bind)

lemma untouched_forEach [untouched]: "(\<And>x. leaves_rules (f x)) \<Longrightarrow> leaves_rules (forEach f xs)"
  by (induction xs) (auto intro: untouched)

lemma untouched_attempt [untouched]: "leaves_rules m \<Longrightarrow> leaves_rules (attempt m)"
  unfolding leaves_rules_def attempt_def by (auto split: prod.split) (metis fst_conv)

lemma untouched_when [untouched]: "leaves_rules m \<Longrightarrow> leaves_rules (whenOp b m)"
  by (simp add: whenOp_def untouched_basic)

lemma untouched_steps [untouched]:
  "leaves_rules (close_listener k)" "leaves_rules (checkPortConflict vm p)"
  "leaves_rules (modify (\<lambda>s. s\<lparr>fw_listeners := f s\<rparr>))" "leaves_rules (modify (\<lambda>s. s\<lparr>fw_limits := f' s\<rparr>))"
  "leaves_rules (modify (\<lambda>s. s\<lparr>fw_trackers := f'' s\<rparr>))"
  unfolding checkPortConflict_def
  by (auto intro!: untouched) (simp_all add: leaves_rules_def close_listener_def modify_def same_rules_def)

lemma untouched_listen [untouched]: "leaves_rules (listen host r)"
  unfolding listen_def
  by (rule untouched_bind, rule untouched_basic)
    (auto simp: leaves_rules_def same_rules_def split: prod.split bool.split)

lemma untouched_case_sum [untouched]:
  "(\<And>e. leaves_rules (f e)) \<Longrightarrow> (\<And>x. leaves_rules (g x)) \<Longrightarrow> leaves_rules (case y of Inl e \<Rightarrow> f e | Inr x \<Rightarrow> g x)"
  by (cases y) simp_all

lemma untouched_case_option [untouched]:
  "leaves_rules m \<Longrightarrow> (\<And>x. leaves_rules (k x)) \<Longrightarrow> leaves_rules (case y of None \<Rightarrow> m | Some x \<Rightarrow> k x)"
  by (cases y) simp_all

lemma untouched_listen_all [untouched]: "leaves_rules (listen_all host rs opened)"
  by (induction host rs opened rule: listen_all.induct) (auto intro!: untouched)

lemma fw_leaves_keeps: "leaves_rules m \<Longrightarrow> keeps forwards_ok m"
  unfolding leaves_rules_def by (rule keeps_same) blast

lemma untouched_Activate: "leaves_rules (ActivateForwards host vm ip)"
proof -
  have "leaves_rules (modify (\<lambda>s. s\<lparr>fw_rule := (\<lambda>r. if r \<in> set rs then (fw_rule s r)\<lparr>fr_GuestIP := ip\<rparr> else fw_rule s r)\<rparr>))"
    for rs by (simp add: leaves_rules_def modify_def same_rules_def)
  then show ?thesis unfolding ActivateForwards_def by (auto intro!: untouched)
qed

text \<open>What an untouched operation makes known of the rules stays known.\<close>

lemma fw_leaves_valid:
  assumes "leaves_rules m" "\<And>s s'. same_rules s s' \<Longrightarrow> P s \<Longrightarrow> P s'"
  shows "valid P m (\<lambda>_. P) (\<lambda>_. P)"
  using assms unfolding keeps_valid[symmetric] keeps_def leaves_rules_def by blast

lemma keeps_set_rules: "valid (\<lambda>s. forwards_ok s \<and> may_have s vm rs) (set_rules vm rs) (\<lambda>_. forwards_ok) (\<lambda>_. forwards_ok)"
  by (simp add: valid_def set_rules_def modify_def ok_set_rules)

lemma valid_new_rule:
  "valid (\<lambda>s. forwards_ok s \<and> may_have s vm rs0 \<and> \<not> bad_port p \<and> \<not> port_conflict vm p s \<and> (\<forall>q \<in> qs. C q \<and> \<not> port_conflict vm q s))
     (new_rule vm p g ip)
     (\<lambda>r s. forwards_ok s \<and> may_have s vm (rs0 @ [r]) \<and> (\<forall>q \<in> qs. C q \<and> \<not> port_conflict vm q s)) (\<lambda>_. forwards_ok)"
proof (rule validI, elim conjE)
  fix s :: "'w PortForwarder"
  assume a: "forwards_ok s" "may_have s vm rs0" "\<not> bad_port p" "\<not> port_conflict vm p s" "\<forall>q \<in> qs. C q \<and> \<not> port_conflict vm q s"
  show "case new_rule vm p g ip s of
      (s', Inr r) \<Rightarrow> forwards_ok s' \<and> may_have s' vm (rs0 @ [r]) \<and> (\<forall>q \<in> qs. C q \<and> \<not> port_conflict vm q s')
    | (s', Inl e) \<Rightarrow> forwards_ok s'"
    using new_rule_fresh[OF a(1-4), of g ip] a(5)
    by (simp only: new_rule_def bind_def reads_def seq_def modify_def return_def prod.case sum.case simp_thms ball_simps)
qed

lemma valid_new_rules:
  "valid (\<lambda>s. forwards_ok s \<and> may_have s vm rs0 \<and> (\<forall>p \<in> set ps. \<not> bad_port (pf_Host p) \<and> \<not> port_conflict vm (pf_Host p) s))
     (new_rules vm ps :: ('w, nat list) fwop) (\<lambda>rs s. forwards_ok s \<and> may_have s vm (rs0 @ rs)) (\<lambda>_. forwards_ok)"
proof (induction ps arbitrary: rs0)
  case Nil
  show ?case by (simp add: valid_def return_def)
next
  case (Cons p ps)
  let ?R = "\<lambda>r (s :: 'w PortForwarder). forwards_ok s \<and> may_have s vm (rs0 @ [r]) \<and>
    (\<forall>p \<in> set ps. \<not> bad_port (pf_Host p) \<and> \<not> port_conflict vm (pf_Host p) s)"
  have tail: "valid (?R r) (bind (new_rules vm ps) (\<lambda>rs. return (r # rs)))
      (\<lambda>rs s. forwards_ok s \<and> may_have s vm (rs0 @ rs)) (\<lambda>_. forwards_ok)" for r
    by (rule valid_bind[OF _ Cons.IH[of "rs0 @ [r]"]]) (simp add: valid_def return_def)
  show ?case
    unfolding new_rules.simps
    by (rule valid_bind[OF tail], rule valid_weaken[OF valid_new_rule[where ?rs0.0 = rs0 and qs = "pf_Host ` set ps" and C = "\<lambda>q. \<not> bad_port q"]])
      auto
qed

lemma valid_check:
  "valid (\<lambda>s. forwards_ok s \<and> P s) (checkPortConflict vm p) (\<lambda>_ s. forwards_ok s \<and> P s \<and> \<not> port_conflict vm p s) (\<lambda>_. forwards_ok)"
  by (simp add: valid_def checkPortConflict_def bind_def reads_def failIf_def throw_def return_def)

lemma ok_Setup: "keeps forwards_ok (SetupForwards vm ports :: ('w, unit) fwop)"
proof (cases "ports = []")
  case False
  let ?body = "\<lambda>p. seq (failIf (bad_port (pf_Host p)) (FwBadHostPort (pf_Host p)))
     (seq (failIf (bad_port (pf_Guest p)) (FwBadGuestPort (pf_Guest p))) (checkPortConflict vm (pf_Host p) :: ('w, unit) fwop))"
  have body: "valid (\<lambda>s. forwards_ok s \<and> P s) (?body p)
      (\<lambda>_ s. forwards_ok s \<and> P s \<and> \<not> bad_port (pf_Host p) \<and> \<not> port_conflict vm (pf_Host p) s) (\<lambda>_. forwards_ok)" for p P
    by (simp add: valid_def checkPortConflict_def bind_def seq_def reads_def failIf_def throw_def return_def)
  have all: "valid (\<lambda>s. forwards_ok s \<and> P s) (forEach ?body ps)
      (\<lambda>_ s. forwards_ok s \<and> P s \<and> (\<forall>p \<in> set ps. \<not> bad_port (pf_Host p) \<and> \<not> port_conflict vm (pf_Host p) s)) (\<lambda>_. forwards_ok)"
    for ps P
  proof (induction ps arbitrary: P)
    case (Cons p ps)
    show ?case
      unfolding forEach.simps
      by (rule valid_seq[OF _ body],
        rule valid_weaken[OF Cons.IH[of "\<lambda>s. P s \<and> \<not> bad_port (pf_Host p) \<and> \<not> port_conflict vm (pf_Host p) s"]]) auto
  qed (simp add: valid_def return_def)
  have checks: "valid forwards_ok (forEach ?body ports)
      (\<lambda>_ s. forwards_ok s \<and> (\<forall>p \<in> set ports. \<not> bad_port (pf_Host p) \<and> \<not> port_conflict vm (pf_Host p) s)) (\<lambda>_. forwards_ok)"
    by (rule valid_weaken[OF all[of "\<lambda>_. True"]]) auto
  have "valid (\<lambda>s. forwards_ok s \<and> (\<forall>p \<in> set ports. \<not> bad_port (pf_Host p) \<and> \<not> port_conflict vm (pf_Host p) s))
      (bind (new_rules vm ports) (\<lambda>rs. set_rules vm rs)) (\<lambda>_. forwards_ok) (\<lambda>_. forwards_ok)"
    by (rule valid_bind[OF keeps_set_rules], rule valid_weaken[OF valid_new_rules[where ?rs0.0 = "[]"]])
      (auto simp: may_have_def)
  from valid_seq[OF this checks] show ?thesis
    unfolding SetupForwards_def keeps_valid using False by simp
qed (simp add: SetupForwards_def keeps_return)

lemma ok_RemoveForwards: "keeps forwards_ok (RemoveForwards vm)"
proof -
  have "keeps forwards_ok (modify (\<lambda>s. s\<lparr>fw_rules := AList.delete vm (fw_rules s), fw_limits := (fw_limits s)(vm := None),
      fw_trackers := fw_trackers s - {vm}\<rparr>))"
  proof (unfold keeps_def, intro allI impI)
    fix s :: "'w PortForwarder" assume "forwards_ok s"
    then have "forwards_ok (s\<lparr>fw_rules := AList.delete vm (fw_rules s)\<rparr>)" by (rule ok_delete)
    then show "forwards_ok (fst (modify (\<lambda>s. s\<lparr>fw_rules := AList.delete vm (fw_rules s), fw_limits := (fw_limits s)(vm := None),
        fw_trackers := fw_trackers s - {vm}\<rparr>) s))"
      by (rule same_ok[THEN iffD2, rotated]) (simp add: same_rules_def modify_def)
  qed
  then show ?thesis
    unfolding RemoveForwards_def by (intro kept fw_leaves_keeps[OF untouched_steps(1)] fw_leaves_keeps[OF untouched_steps(3)] fw_leaves_keeps[OF untouched_basic(4)])
qed

lemma without_set: "set (without_index i rs) \<subseteq> set rs"
  by (auto simp: without_index_def dest: in_set_takeD in_set_dropD)

lemma ok_RemoveForward: "keeps forwards_ok (RemoveForward vm p)"
  unfolding keeps_valid RemoveForward_def
proof (rule valid_bind)
  fix rules :: "nat list option"
  let ?P = "\<lambda>s :: 'w PortForwarder. forwards_ok s \<and> map_of (fw_rules s) vm = rules"
  have last: "valid ?P (set_rules vm (without_index i rs)) (\<lambda>_. forwards_ok) (\<lambda>_. forwards_ok)" if "rules = Some rs" for i rs
    by (rule valid_pre[OF keeps_set_rules])
      (use that in \<open>auto intro!: ok_rules_of simp: rules_of_def dest: subsetD[OF without_set]\<close>)
  have mid: "valid ?P m (\<lambda>_. ?P) (\<lambda>_. forwards_ok)" if "leaves_rules m" for m :: "('w, 'b) fwop"
    by (rule valid_weaken[OF fw_leaves_valid[OF that, of ?P]]) (metis same_ok same_rules_def | blast)+
  show "valid ?P (case rules of None \<Rightarrow> throw (FwNone vm)
     | Some rs \<Rightarrow>
         bind (reads (\<lambda>s. index_of_port (\<lambda>r. fr_HostPort (fw_rule s r)) p rs)) (\<lambda>idx.
         case idx of
           None \<Rightarrow> throw (FwNone vm)
         | Some i \<Rightarrow>
             bind (reads (\<lambda>s. fw_listeners s vm)) (\<lambda>l.
             seq (case l of
                    None \<Rightarrow> return ()
                  | Some ks \<Rightarrow>
                      whenOp (i < length ks)
                        (seq (close_listener (ks ! i))
                        (modify (\<lambda>s. s\<lparr>fw_listeners := (fw_listeners s)(vm := Some (without_index i ks))\<rparr>))))
             (set_rules vm (without_index i rs))))) (\<lambda>_. forwards_ok) (\<lambda>_. forwards_ok)"
  proof (cases rules)
    case (Some rs)
    have idx: "valid ?P (case idx of
           None \<Rightarrow> throw (FwNone vm)
         | Some i \<Rightarrow>
             bind (reads (\<lambda>s. fw_listeners s vm)) (\<lambda>l.
             seq (case l of
                    None \<Rightarrow> return ()
                  | Some ks \<Rightarrow>
                      whenOp (i < length ks)
                        (seq (close_listener (ks ! i))
                        (modify (\<lambda>s. s\<lparr>fw_listeners := (fw_listeners s)(vm := Some (without_index i ks))\<rparr>))))
             (set_rules vm (without_index i rs)))) (\<lambda>_. forwards_ok) (\<lambda>_. forwards_ok)" for idx
    proof (cases idx)
      case (Some i)
      show ?thesis
        unfolding Some option.case
        by (rule valid_bind[OF valid_seq[OF last[OF \<open>rules = Some rs\<close>] mid] mid]) (intro untouched)+
    qed (simp add: valid_def throw_def)
    show ?thesis
      unfolding Some option.case by (rule valid_bind[OF idx[unfolded Some] mid[unfolded Some]]) (intro untouched)
  qed (simp add: valid_def throw_def)
qed (simp add: valid_def reads_def)

text \<open>The rules of a sandbox after a rule for it was made.\<close>

lemma valid_grow:
  "valid (\<lambda>s. forwards_ok s \<and> may_have s vm (rules_of s vm @ [r]))
     (bind (reads (\<lambda>s. rules_of s vm)) (\<lambda>rs. set_rules vm (rs @ [r]))) (\<lambda>_. forwards_ok) (\<lambda>_. forwards_ok)"
  by (simp add: valid_def bind_def reads_def set_rules_def modify_def ok_set_rules)

lemma ok_shrink: "keeps forwards_ok (bind (reads (\<lambda>s. rules_of s vm)) (\<lambda>rs. set_rules vm (butlast rs)))"
  by (auto simp: keeps_def bind_def reads_def set_rules_def modify_def intro!: ok_set_rules ok_rules_of dest: in_set_butlastD)

lemma valid_fresh:
  "valid (\<lambda>s. forwards_ok s \<and> \<not> bad_port p \<and> \<not> port_conflict vm p s) (new_rule vm p g ip)
     (\<lambda>r s. forwards_ok s \<and> may_have s vm (rules_of s vm @ [r])) (\<lambda>_. forwards_ok)"
proof (rule validI, elim conjE)
  fix s :: "'w PortForwarder"
  assume a: "forwards_ok s" "\<not> bad_port p" "\<not> port_conflict vm p s"
  have "may_have s vm (rules_of s vm)" by (rule ok_rules_of[OF a(1)]) simp
  from new_rule_fresh[OF a(1) this a(2,3), of g ip]
  show "case new_rule vm p g ip s of
      (s', Inr r) \<Rightarrow> forwards_ok s' \<and> may_have s' vm (rules_of s' vm @ [r]) | (s', Inl e) \<Rightarrow> forwards_ok s'"
    by (simp add: new_rule_def bind_def reads_def seq_def modify_def return_def rules_of_def)
qed

lemma ok_listen_new:
  "keeps forwards_ok (whenOp (ip \<noteq> [])
     (bind (attempt (listen host r)) (\<lambda>l.
      case l of
        Inl e \<Rightarrow> seq (bind (reads (\<lambda>s. rules_of s vm)) (\<lambda>rs. set_rules vm (butlast rs))) (throw (FwListen p))
      | Inr k \<Rightarrow> modify (\<lambda>s. s\<lparr>fw_listeners := (fw_listeners s)(vm := Some (listeners_of s vm @ [k]))\<rparr>))))"
  by (intro kept ok_shrink fw_leaves_keeps[OF untouched_listen] fw_leaves_keeps[OF untouched_steps(3)])

lemma ok_AddForward: "keeps forwards_ok (AddForward host vm p g ip :: ('w, unit) fwop)"
proof (cases "bad_port p")
  case False
  have guard: "valid (\<lambda>s. forwards_ok s \<and> \<not> port_conflict vm p s) (failIf b e)
      (\<lambda>_ s :: 'w PortForwarder. forwards_ok s \<and> \<not> bad_port p \<and> \<not> port_conflict vm p s) (\<lambda>_. forwards_ok)" for b e
    by (rule valid_pre[OF valid_failIf]) (simp add: False)
  have dup: "valid (\<lambda>s. forwards_ok s \<and> \<not> port_conflict vm p s) (reads f)
      (\<lambda>_ s :: 'w PortForwarder. forwards_ok s \<and> \<not> port_conflict vm p s) (\<lambda>_. forwards_ok)" for f
    by (simp add: valid_def reads_def)
  have check: "valid forwards_ok (checkPortConflict vm p)
      (\<lambda>_ s :: 'w PortForwarder. forwards_ok s \<and> \<not> port_conflict vm p s) (\<lambda>_. forwards_ok)"
    by (rule valid_weaken[OF valid_check[where P = "\<lambda>_. True"]]) auto
  have pre: "valid (forwards_ok :: 'w PortForwarder \<Rightarrow> bool) (failIf b e) (\<lambda>_. forwards_ok) (\<lambda>_. forwards_ok)" for b e
    by (simp add: keeps_valid[symmetric] keeps_failIf)
  show ?thesis
    unfolding AddForward_def keeps_valid
    by (rule valid_seq[OF valid_seq[OF valid_seq[OF valid_bind[OF valid_seq[OF valid_bind[OF valid_seq[OF
          ok_listen_new[unfolded keeps_valid] valid_grow] valid_fresh] guard] dup] check] pre] pre])
qed (simp add: AddForward_def keeps_def seq_def bind_def failIf_def throw_def)

subsection \<open>Reachable tables\<close>

datatype FwCall =
    FwSetup string "PortForward list"
  | FwActivate string string
  | FwRemoveAll string
  | FwAdd string int int string
  | FwRemove string int
  | FwLimit string "BandwidthLimit option"
  | FwTracker string

definition fw_call :: "(int \<Rightarrow> 'w \<Rightarrow> 'w \<times> bool) \<Rightarrow> FwCall \<Rightarrow> ('w, unit) fwop" where
  "fw_call host c =
     (case c of
        FwSetup vm ports \<Rightarrow> SetupForwards vm ports
      | FwActivate vm ip \<Rightarrow> ActivateForwards host vm ip
      | FwRemoveAll vm \<Rightarrow> RemoveForwards vm
      | FwAdd vm p g ip \<Rightarrow> AddForward host vm p g ip
      | FwRemove vm p \<Rightarrow> RemoveForward vm p
      | FwLimit vm l \<Rightarrow> pf_SetBandwidthLimit vm l
      | FwTracker vm \<Rightarrow> bind (GetTracker vm) (\<lambda>_. return ()))"

definition fw_calls :: "(int \<Rightarrow> 'w \<Rightarrow> 'w \<times> bool) \<Rightarrow> FwCall list \<Rightarrow> 'w PortForwarder \<Rightarrow> 'w PortForwarder" where
  "fw_calls host cs s = foldl (\<lambda>s c. fst (fw_call host c s)) s cs"

lemma ok_call: "keeps forwards_ok (fw_call host c)"
  unfolding fw_call_def
  by (cases c) (auto simp: pf_SetBandwidthLimit_def GetTracker_def
      intro!: keeps_bind keeps_seq keeps_return ok_Setup fw_leaves_keeps[OF untouched_Activate] ok_RemoveForwards
        ok_AddForward ok_RemoveForward fw_leaves_keeps[OF untouched_steps(4)] fw_leaves_keeps[OF untouched_steps(5)])

lemma ok_calls: "forwards_ok s \<Longrightarrow> forwards_ok (fw_calls host cs s)"
proof (induction cs arbitrary: s)
  case (Cons c cs)
  then have "forwards_ok (fst (fw_call host c s))" using ok_call[of host c] by (simp add: keeps_def)
  with Cons.IH show ?case by (simp add: fw_calls_def)
qed (simp add: fw_calls_def)

lemma ok_new: "forwards_ok (NewPortForwarder w)"
  by (simp add: forwards_ok_def NewPortForwarder_def)

text \<open>
  C29: Whatever calls are made and whichever ports the host lets the program listen on, no two
  sandboxes have a rule for the same port of the host, and every rule has a port from 1 to
  65535.
\<close>

theorem forward_ports_exclusive:
  assumes "p \<in> set (ports_of s (rules_of s vm))" "s = fw_calls host cs (NewPortForwarder w)"
  shows "1 \<le> p \<and> p \<le> 65535 \<and> (\<forall>vm'. vm' \<noteq> vm \<longrightarrow> p \<notin> set (ports_of s (rules_of s vm')))"
proof -
  have ok: "forwards_ok s" unfolding assms(2) by (rule ok_calls[OF ok_new])
  then have d: "distinct (map fst (fw_rules s))" by (simp add: forwards_ok_def)
  have m: "may_have s vm (rules_of s vm)" by (rule ok_rules_of[OF ok]) simp
  from assms(1) obtain r where r: "r \<in> set (rules_of s vm)" "p = port_of s r" by (auto simp: ports_of_def)
  with m have c: "\<not> bad_port p" "\<not> port_conflict vm p s" by (auto simp: may_have_def)
  moreover have "p \<notin> set (ports_of s (rules_of s vm'))" if "vm' \<noteq> vm" for vm'
  proof (cases "map_of (fw_rules s) vm'")
    case (Some rs')
    with that c(2)[unfolded conflict_map[OF d]] show ?thesis
      by (auto simp: rules_of_def ports_of_def)
  qed (simp add: rules_of_def ports_of_def)
  ultimately show ?thesis by (simp add: bad_port_def)
qed

definition any_port :: "int \<Rightarrow> nat \<Rightarrow> nat \<times> bool" where
  "any_port p w = (w, True)"

definition demo_calls :: "FwCall list" where
  "demo_calls = [FwSetup ''a'' [\<lparr>pf_Host = 8080, pf_Guest = 80\<rparr>], FwSetup ''b'' [\<lparr>pf_Host = 8080, pf_Guest = 80\<rparr>]]"

lemma demo_rules: "ports_of (fw_calls any_port demo_calls (NewPortForwarder 0)) (rules_of (fw_calls any_port demo_calls (NewPortForwarder 0)) ''a'') = [8080]"
  by code_simp

theorem forward_ports_exclusive_witness:
  "(8080 :: int) \<le> 65535 \<and>
   8080 \<notin> set (ports_of (fw_calls any_port demo_calls (NewPortForwarder 0)) (rules_of (fw_calls any_port demo_calls (NewPortForwarder 0)) ''b''))"
  using forward_ports_exclusive[of 8080 _ "''a''", OF _ refl, of any_port demo_calls 0] by (simp add: demo_rules)

text \<open>
  Removing a forward can silence another one. If the rules of a sandbox were never activated
  and a forward is added while it runs, the only listener belongs to the last rule; removing
  the first rule closes that listener, and the last rule is still listed as active.
\<close>

theorem forward_remove_wrong:
  assumes "rules_of s vm = r # rs" "fw_listeners s vm = None" "\<forall>x \<in> set (r # rs). x < fw_nextRule s"
    "AddForward host vm q g ip s = (s1, Inr ())" "ip \<noteq> []"
    "RemoveForward vm (fr_HostPort (fw_rule s r)) s1 = (s2, Inr ())"
  shows "\<exists>k. listeners_of s1 vm = [k] \<and> ln_Port (fw_socket s1 k) = q \<and> ln_Open (fw_socket s1 k) \<and>
    \<not> ln_Open (fw_socket s2 k) \<and>
    (\<exists>x \<in> set (ListForwards vm s2). fs_HostPort x = q \<and> fs_Active x)"
proof -
  let ?n = "fw_nextRule s"
  let ?rule = "(fw_rule s)(?n := \<lparr>fr_HostPort = q, fr_GuestPort = g, fr_GuestIP = ip, fr_VMName = vm\<rparr>)"
  have r: "r \<noteq> ?n" using assms(3) by auto
  from assms(4,5) obtain w where s1: "s1 = s\<lparr>fw_rule := ?rule, fw_nextRule := Suc ?n,
      fw_rules := AList.update vm (r # rs @ [?n]) (fw_rules s), fw_world := w,
      fw_socket := (fw_socket s)(fw_nextSocket s := \<lparr>ln_Port = q, ln_Rule = ?n, ln_Open = True\<rparr>),
      fw_nextSocket := fw_nextSocket s + 1, fw_listeners := (fw_listeners s)(vm \<mapsto> [fw_nextSocket s])\<rparr>"
    using assms(1,2)
    by (auto simp: AddForward_def seq_def bind_def failIf_def throw_def return_def checkPortConflict_def reads_def
        new_rule_def modify_def set_rules_def whenOp_def attempt_def listen_def rules_of_def listeners_of_def
        split: if_splits prod.splits bool.splits option.splits)
  have "\<not> ln_Open (fw_socket s2 (fw_nextSocket s)) \<and> fw_listeners s2 vm = Some [] \<and> fw_rule s2 = ?rule \<and>
      map_of (fw_rules s2) vm = Some (rs @ [?n])"
    using assms(6) r
    by (auto simp: RemoveForward_def s1 bind_def reads_def seq_def whenOp_def close_listener_def modify_def set_rules_def
        return_def update_conv' without_index_def)
  then have s2: "\<not> ln_Open (fw_socket s2 (fw_nextSocket s))" "fw_listeners s2 vm = Some []" "fw_rule s2 = ?rule"
    "rules_of s2 vm = rs @ [?n]"
    by (simp_all add: rules_of_def)
  show ?thesis
    by (rule exI[of _ "fw_nextSocket s"])
      (use assms(5) s2 in \<open>simp add: s1 listeners_of_def ListForwards_def rule_status_def Let_def\<close>)
qed

definition demo_forwards :: "nat PortForwarder" where
  "demo_forwards = fst (SetupForwards ''a'' [\<lparr>pf_Host = 8080, pf_Guest = 80\<rparr>] (NewPortForwarder 0))"

theorem forward_remove_wrong_witness:
  "\<exists>s1 s2 k. AddForward any_port ''a'' 9090 90 ''10.0.0.2'' demo_forwards = (s1, Inr ()) \<and>
     RemoveForward ''a'' 8080 s1 = (s2, Inr ()) \<and> ln_Port (fw_socket s1 k) = 9090 \<and> \<not> ln_Open (fw_socket s2 k)"
proof -
  let ?add = "AddForward any_port ''a'' 9090 90 ''10.0.0.2'' demo_forwards"
  let ?rem = "RemoveForward ''a'' 8080 (fst ?add)"
  have a: "?add = (fst ?add, Inr ())" "?rem = (fst ?rem, Inr ())"
    by (rule prod_eqI, simp, code_simp)+
  have "rules_of demo_forwards ''a'' = [0]" "fw_nextRule demo_forwards = 1" "fr_HostPort (fw_rule demo_forwards 0) = 8080"
    by code_simp+
  moreover have "fw_listeners demo_forwards ''a'' = None" by code_simp
  ultimately show ?thesis
    using forward_remove_wrong[OF _ _ _ a(1), of 0 "[]" "fst ?rem"] a by auto
qed

end
