(* ===== verification/Policy.thy ===== *)
theory Policy
  imports Forward GoText
begin

text \<open>
  Network policies of sandboxes (\<^verbatim>\<open>internal/network/policy.go\<close>): the table a policy manager
  holds in memory. Its operations take the lock for their whole duration. The endpoint lists
  of a policy are slices: \<^verbatim>\<open>SetPolicy\<close> keeps the slices of its caller and an endpoint is added
  with \<^verbatim>\<open>append\<close>, which writes into the array behind the slice while there is room. The arrays
  are therefore a store of their own. The callers only read the policies they get. The
  simulated network conditions are a type of their own; loading and saving the files of the
  policies is not modelled.
\<close>

subsection \<open>Slices\<close>

text \<open>A slice of strings: an array, where it starts there, its length and its capacity.\<close>

record Slice =
  sl_Array :: nat
  sl_Start :: nat
  sl_Len :: nat
  sl_Cap :: nat

definition nil_slice :: Slice where
  "nil_slice = \<lparr>sl_Array = 0, sl_Start = 0, sl_Len = 0, sl_Cap = 0\<rparr>"

subsection \<open>Data\<close>

record ProxySettings =
  pz_HTTPProxy :: string
  pz_HTTPSProxy :: string
  pz_NoProxy :: "string list"
  pz_Enabled :: bool

record 'c Policy =
  py_Name :: string
  py_Allowed :: Slice
  py_Denied :: Slice
  py_Bandwidth :: "BandwidthLimit option"
  py_Condition :: "'c option"
  py_Proxy :: "ProxySettings option"
  py_CreatedAt :: int
  py_UpdatedAt :: int

record ('w, 'c) PolicyManager =
  pm_policies :: "(string \<times> 'c Policy) list"
  pm_arrays :: "nat \<Rightarrow> string list"
  pm_next :: nat
  pm_world :: 'w

datatype policy_error = NoPolicy string | NoEndpoint string

type_synonym ('w, 'c, 'a) pyop = "(('w, 'c) PolicyManager, policy_error, 'a) op"

text \<open>The clock, in seconds.\<close>

definition unix_now :: "('w \<Rightarrow> 'w \<times> int) \<Rightarrow> ('w, 'c, int) pyop" where
  "unix_now clk = (\<lambda>s. case clk (pm_world s) of (w, t) \<Rightarrow> (s\<lparr>pm_world := w\<rparr>, Inr t))"

text \<open>
  The elements of a slice, a new array with room to spare, and \<^verbatim>\<open>append\<close> of one element: in
  place while the capacity allows it, else into a new array. Its size is up to the Go runtime:
  \<open>grow n\<close> for \<open>n\<close> elements, and at least \<open>n\<close>.
\<close>

definition elems :: "(nat \<Rightarrow> string list) \<Rightarrow> Slice \<Rightarrow> string list" where
  "elems h sl = gslice (sl_Start sl) (sl_Start sl + sl_Len sl) (h (sl_Array sl))"

definition new_slice :: "string list \<Rightarrow> nat \<Rightarrow> ('w, 'c, Slice) pyop" where
  "new_slice xs spare =
     (\<lambda>s. (s\<lparr>pm_arrays := (pm_arrays s)(pm_next s := xs @ replicate spare []), pm_next := pm_next s + 1\<rparr>,
           Inr \<lparr>sl_Array = pm_next s, sl_Start = 0, sl_Len = length xs, sl_Cap = length xs + spare\<rparr>))"

definition append_slice :: "(nat \<Rightarrow> nat) \<Rightarrow> Slice \<Rightarrow> string \<Rightarrow> ('w, 'c, Slice) pyop" where
  "append_slice grow sl x =
     (\<lambda>s. if sl_Len sl < sl_Cap sl then
             (s\<lparr>pm_arrays := (pm_arrays s)(sl_Array sl := (pm_arrays s (sl_Array sl))[sl_Start sl + sl_Len sl := x])\<rparr>,
              Inr (sl\<lparr>sl_Len := sl_Len sl + 1\<rparr>))
           else new_slice (elems (pm_arrays s) sl @ [x]) (grow (sl_Len sl + 1) - (sl_Len sl + 1)) s)"

definition put_policy :: "string \<Rightarrow> 'c Policy \<Rightarrow> ('w, 'c, unit) pyop" where
  "put_policy name p = modify (\<lambda>s. s\<lparr>pm_policies := AList.update name p (pm_policies s)\<rparr>)"

definition find_policy :: "string \<Rightarrow> ('w, 'c, 'c Policy option) pyop" where
  "find_policy name = reads (\<lambda>s. map_of (pm_policies s) name)"

definition new_policy :: "string \<Rightarrow> Slice \<Rightarrow> Slice \<Rightarrow> int \<Rightarrow> int \<Rightarrow> 'c Policy" where
  "new_policy name allowed denied createdAt updatedAt = \<lparr>py_Name = name, py_Allowed = allowed, py_Denied = denied,
     py_Bandwidth = None, py_Condition = None, py_Proxy = None, py_CreatedAt = createdAt, py_UpdatedAt = updatedAt\<rparr>"

definition list_of :: "Slice \<Rightarrow> ('w, 'c, string list) pyop" where
  "list_of sl = reads (\<lambda>s. elems (pm_arrays s) sl)"

text \<open>The loop that appends all endpoints but one.\<close>

fun keep_others :: "(nat \<Rightarrow> nat) \<Rightarrow> string \<Rightarrow> string list \<Rightarrow> Slice \<Rightarrow> ('w, 'c, Slice) pyop" where
  "keep_others grow endpoint [] sl = return sl"
| "keep_others grow endpoint (ep # eps) sl =
     (if ep \<noteq> endpoint then bind (append_slice grow sl ep) (keep_others grow endpoint eps)
      else keep_others grow endpoint eps sl)"

definition GetPolicy :: "string \<Rightarrow> ('w, 'c, 'c Policy) pyop" where
  "GetPolicy name = bind (find_policy name) (orFail (NoPolicy name))"

definition SetPolicy :: "('w \<Rightarrow> 'w \<times> int) \<Rightarrow> string \<Rightarrow> Slice \<Rightarrow> Slice \<Rightarrow> ('w, 'c, 'c Policy) pyop" where
  "SetPolicy clk name allowed denied =
     bind (unix_now clk) (\<lambda>ts.
     bind (find_policy name) (\<lambda>existing.
     let policy = new_policy name allowed denied (case existing of None \<Rightarrow> ts | Some p \<Rightarrow> py_CreatedAt p) ts in
     seq (put_policy name policy) (return policy)))"

text \<open>The policy of a sandbox; a new one is put into the table at once.\<close>

definition policy_or_new :: "('w \<Rightarrow> 'w \<times> int) \<Rightarrow> string \<Rightarrow> ('w, 'c, 'c Policy) pyop" where
  "policy_or_new clk name =
     bind (find_policy name) (\<lambda>existing.
     case existing of
       Some p \<Rightarrow> return p
     | None \<Rightarrow>
         bind (unix_now clk) (\<lambda>created. bind (unix_now clk) (\<lambda>updated.
         let p = new_policy name nil_slice nil_slice created updated in seq (put_policy name p) (return p))))"

text \<open>The same with the time of an existing policy renewed.\<close>

definition policy_touched :: "('w \<Rightarrow> 'w \<times> int) \<Rightarrow> string \<Rightarrow> ('w, 'c, 'c Policy) pyop" where
  "policy_touched clk name =
     bind (find_policy name) (\<lambda>existing.
     case existing of
       Some p \<Rightarrow>
         bind (unix_now clk) (\<lambda>t. let p' = p\<lparr>py_UpdatedAt := t\<rparr> in seq (put_policy name p') (return p'))
     | None \<Rightarrow> policy_or_new clk name)"

definition AddAllowedEndpoint :: "('w \<Rightarrow> 'w \<times> int) \<Rightarrow> (nat \<Rightarrow> nat) \<Rightarrow> string \<Rightarrow> string \<Rightarrow> ('w, 'c, unit) pyop" where
  "AddAllowedEndpoint clk grow name endpoint =
     bind (policy_touched clk name) (\<lambda>p.
     bind (list_of (py_Allowed p)) (\<lambda>xs.
     if List.member xs endpoint then return ()
     else bind (append_slice grow (py_Allowed p) endpoint) (\<lambda>sl.
          bind (unix_now clk) (\<lambda>t. put_policy name (p\<lparr>py_Allowed := sl, py_UpdatedAt := t\<rparr>)))))"

definition RemoveAllowedEndpoint :: "('w \<Rightarrow> 'w \<times> int) \<Rightarrow> (nat \<Rightarrow> nat) \<Rightarrow> string \<Rightarrow> string \<Rightarrow> ('w, 'c, unit) pyop" where
  "RemoveAllowedEndpoint clk grow name endpoint =
     bind (GetPolicy name) (\<lambda>p.
     bind (list_of (py_Allowed p)) (\<lambda>xs.
     bind (keep_others grow endpoint xs nil_slice) (\<lambda>newAllowed.
     seq (failIf (sl_Len newAllowed = sl_Len (py_Allowed p)) (NoEndpoint endpoint))
     (bind (unix_now clk) (\<lambda>t. put_policy name (p\<lparr>py_Allowed := newAllowed, py_UpdatedAt := t\<rparr>))))))"

definition AddDeniedEndpoint :: "('w \<Rightarrow> 'w \<times> int) \<Rightarrow> (nat \<Rightarrow> nat) \<Rightarrow> string \<Rightarrow> string \<Rightarrow> ('w, 'c, unit) pyop" where
  "AddDeniedEndpoint clk grow name endpoint =
     bind (policy_touched clk name) (\<lambda>p.
     bind (list_of (py_Denied p)) (\<lambda>xs.
     if List.member xs endpoint then return ()
     else bind (append_slice grow (py_Denied p) endpoint) (\<lambda>sl.
          bind (unix_now clk) (\<lambda>t. put_policy name (p\<lparr>py_Denied := sl, py_UpdatedAt := t\<rparr>)))))"

definition RemoveDeniedEndpoint :: "('w \<Rightarrow> 'w \<times> int) \<Rightarrow> (nat \<Rightarrow> nat) \<Rightarrow> string \<Rightarrow> string \<Rightarrow> ('w, 'c, unit) pyop" where
  "RemoveDeniedEndpoint clk grow name endpoint =
     bind (GetPolicy name) (\<lambda>p.
     bind (list_of (py_Denied p)) (\<lambda>xs.
     bind (keep_others grow endpoint xs nil_slice) (\<lambda>newDenied.
     seq (failIf (sl_Len newDenied = sl_Len (py_Denied p)) (NoEndpoint endpoint))
     (bind (unix_now clk) (\<lambda>t. put_policy name (p\<lparr>py_Denied := newDenied, py_UpdatedAt := t\<rparr>))))))"

definition ListPolicies :: "('w, 'c, 'c Policy list) pyop" where
  "ListPolicies = reads (\<lambda>s. map snd (pm_policies s))"

definition DefaultAIAllowlist :: "string list" where
  "DefaultAIAllowlist =
     [''api.anthropic.com'', ''api.openai.com'', ''openrouter.ai'', ''api.openrouter.ai'',
      ''generativelanguage.googleapis.com'', ''localhost:12434'']"

definition EnsureDefaultPolicy :: "('w \<Rightarrow> 'w \<times> int) \<Rightarrow> string \<Rightarrow> ('w, 'c, 'c Policy) pyop" where
  "EnsureDefaultPolicy clk name =
     bind (find_policy name) (\<lambda>existing.
     case existing of
       Some p \<Rightarrow> return p
     | None \<Rightarrow>
         bind (unix_now clk) (\<lambda>created. bind (unix_now clk) (\<lambda>updated.
         bind (new_slice DefaultAIAllowlist 0) (\<lambda>allowed.
         let p = new_policy name allowed nil_slice created updated in seq (put_policy name p) (return p)))))"

definition py_SetBandwidthLimit :: "('w \<Rightarrow> 'w \<times> int) \<Rightarrow> string \<Rightarrow> BandwidthLimit option \<Rightarrow> ('w, 'c, unit) pyop" where
  "py_SetBandwidthLimit clk name limit =
     bind (policy_or_new clk name) (\<lambda>p.
     bind (unix_now clk) (\<lambda>t. put_policy name (p\<lparr>py_Bandwidth := limit, py_UpdatedAt := t\<rparr>)))"

definition GetBandwidthLimit :: "string \<Rightarrow> ('w, 'c, BandwidthLimit) pyop" where
  "GetBandwidthLimit name =
     bind (GetPolicy name) (\<lambda>p.
     return (case py_Bandwidth p of
               None \<Rightarrow> \<lparr>bw_IngressRate = 0, bw_EgressRate = 0, bw_IngressBurst = 0, bw_EgressBurst = 0\<rparr>
             | Some l \<Rightarrow> l))"

definition RemoveBandwidthLimit :: "('w \<Rightarrow> 'w \<times> int) \<Rightarrow> string \<Rightarrow> ('w, 'c, unit) pyop" where
  "RemoveBandwidthLimit clk name =
     bind (GetPolicy name) (\<lambda>p.
     bind (unix_now clk) (\<lambda>t. put_policy name (p\<lparr>py_Bandwidth := None, py_UpdatedAt := t\<rparr>)))"

definition SetNetworkCondition :: "('w \<Rightarrow> 'w \<times> int) \<Rightarrow> string \<Rightarrow> 'c option \<Rightarrow> ('w, 'c, unit) pyop" where
  "SetNetworkCondition clk name cond =
     bind (policy_or_new clk name) (\<lambda>p.
     bind (unix_now clk) (\<lambda>t. put_policy name (p\<lparr>py_Condition := cond, py_UpdatedAt := t\<rparr>)))"

definition GetNetworkCondition :: "'c \<Rightarrow> string \<Rightarrow> ('w, 'c, 'c) pyop" where
  "GetNetworkCondition zero name =
     bind (GetPolicy name) (\<lambda>p. return (case py_Condition p of None \<Rightarrow> zero | Some c \<Rightarrow> c))"

definition RemoveNetworkCondition :: "('w \<Rightarrow> 'w \<times> int) \<Rightarrow> string \<Rightarrow> ('w, 'c, unit) pyop" where
  "RemoveNetworkCondition clk name =
     bind (GetPolicy name) (\<lambda>p.
     bind (unix_now clk) (\<lambda>t. put_policy name (p\<lparr>py_Condition := None, py_UpdatedAt := t\<rparr>)))"

definition IsEndpointAllowed :: "string \<Rightarrow> string \<Rightarrow> ('w, 'c) PolicyManager \<Rightarrow> bool" where
  "IsEndpointAllowed name endpoint s =
     (case map_of (pm_policies s) name of
        None \<Rightarrow> False
      | Some p \<Rightarrow>
          if List.member (elems (pm_arrays s) (py_Denied p)) endpoint then False
          else List.member (elems (pm_arrays s) (py_Allowed p)) endpoint)"

definition SetProxy :: "('w \<Rightarrow> 'w \<times> int) \<Rightarrow> string \<Rightarrow> ProxySettings option \<Rightarrow> ('w, 'c, unit) pyop" where
  "SetProxy clk name proxy =
     bind (policy_or_new clk name) (\<lambda>p.
     bind (unix_now clk) (\<lambda>t. put_policy name (p\<lparr>py_Proxy := proxy, py_UpdatedAt := t\<rparr>)))"

definition GetProxy :: "string \<Rightarrow> ('w, 'c, ProxySettings) pyop" where
  "GetProxy name =
     bind (GetPolicy name) (\<lambda>p.
     return (case py_Proxy p of
               None \<Rightarrow> \<lparr>pz_HTTPProxy = [], pz_HTTPSProxy = [], pz_NoProxy = [], pz_Enabled = False\<rparr>
             | Some x \<Rightarrow> x))"

definition RemoveProxy :: "('w \<Rightarrow> 'w \<times> int) \<Rightarrow> string \<Rightarrow> ('w, 'c, unit) pyop" where
  "RemoveProxy clk name =
     bind (GetPolicy name) (\<lambda>p.
     bind (unix_now clk) (\<lambda>t. put_policy name (p\<lparr>py_Proxy := None, py_UpdatedAt := t\<rparr>)))"

definition ProxyEnvVars :: "ProxySettings option \<Rightarrow> (string \<rightharpoonup> string) option" where
  "ProxyEnvVars ps =
     (case ps of
        None \<Rightarrow> None
      | Some x \<Rightarrow>
          if \<not> pz_Enabled x then None
          else
            (let v1 = (if pz_HTTPProxy x \<noteq> [] then [''http_proxy'' \<mapsto> pz_HTTPProxy x, ''HTTP_PROXY'' \<mapsto> pz_HTTPProxy x] else Map.empty);
                 v2 = (if pz_HTTPSProxy x \<noteq> [] then v1(''https_proxy'' \<mapsto> pz_HTTPSProxy x, ''HTTPS_PROXY'' \<mapsto> pz_HTTPSProxy x) else v1);
                 joined = join_with [CHR '',''] (pz_NoProxy x)
             in Some (if pz_NoProxy x \<noteq> [] then v2(''no_proxy'' \<mapsto> joined, ''NO_PROXY'' \<mapsto> joined) else v2)))"

text \<open>
  A clone is different: \<^verbatim>\<open>VMManager.Clone\<close> (\<^verbatim>\<open>internal/sandbox/manager.go\<close>, line 382) hands the
  slices of the source to \<^verbatim>\<open>SetPolicy\<close>. When the array behind them has room, which every third
  endpoint leaves with the doubling growth of the Go runtime, an endpoint that is allowed for
  the source later overwrites one that was allowed for the clone.
\<close>

definition clone_endpoints :: "('w \<Rightarrow> 'w \<times> int) \<Rightarrow> string \<Rightarrow> string \<Rightarrow> ('w, 'c, 'c Policy) pyop" where
  "clone_endpoints clk src dst =
     bind (attempt (GetPolicy src)) (\<lambda>r.
     case r of
       Inr p \<Rightarrow> SetPolicy clk dst (py_Allowed p) (py_Denied p)
     | Inl _ \<Rightarrow> EnsureDefaultPolicy clk dst)"

end
