(* ===== verification/PolicyClaims.thy ===== *)
theory PolicyClaims
  imports Policy
begin

text \<open>
  What decides about an endpoint: a specification with one pair of sets for every sandbox, and
  the proof that every call of the manager refines it.
\<close>

subsection \<open>Slices\<close>

definition wf_slice :: "('w, 'c) PolicyManager \<Rightarrow> Slice \<Rightarrow> bool" where
  "wf_slice s sl \<longleftrightarrow> sl_Len sl \<le> sl_Cap sl \<and>
     (0 < sl_Cap sl \<longrightarrow> sl_Array sl < pm_next s \<and> sl_Start sl + sl_Cap sl \<le> length (pm_arrays s (sl_Array sl)))"

definition apart :: "Slice \<Rightarrow> Slice \<Rightarrow> bool" where
  "apart a b \<longleftrightarrow> sl_Cap a = 0 \<or> sl_Cap b = 0 \<or> sl_Array a \<noteq> sl_Array b"

lemma apart_nil [simp]: "apart nil_slice a" "apart a nil_slice"
  by (simp_all add: apart_def nil_slice_def)

lemma wf_nil [simp]: "wf_slice s nil_slice"
  by (simp add: wf_slice_def nil_slice_def)

lemma elems_nil [simp]: "elems h nil_slice = []"
  by (simp add: elems_def nil_slice_def gslice_def)

lemma length_elems: "wf_slice s sl \<Longrightarrow> length (elems (pm_arrays s) sl) = sl_Len sl"
  by (cases "sl_Cap sl = 0") (auto simp: wf_slice_def elems_def)

lemma apart_self: "wf_slice s sl \<Longrightarrow> apart sl sl \<Longrightarrow> sl_Cap sl = 0"
  by (simp add: apart_def)

text \<open>
  What an operation that works on the slice \<open>old\<close> and gives \<open>new\<close> leaves alone: the policies,
  and every slice whose array is not that of \<open>old\<close>, which is then apart from \<open>new\<close> too.
\<close>

definition only_slice :: "Slice \<Rightarrow> Slice \<Rightarrow> ('w, 'c) PolicyManager \<Rightarrow> ('w, 'c) PolicyManager \<Rightarrow> bool" where
  "only_slice old new s s' \<longleftrightarrow> pm_policies s' = pm_policies s \<and> wf_slice s' new \<and>
     (\<forall>sl. wf_slice s sl \<longrightarrow> wf_slice s' sl) \<and>
     (\<forall>sl. wf_slice s sl \<and> apart sl old \<longrightarrow>
        elems (pm_arrays s') sl = elems (pm_arrays s) sl \<and> apart sl new)"

lemma new_slice_run:
  assumes "new_slice xs spare s = (s', r)"
  obtains new where "r = Inr new" "elems (pm_arrays s') new = xs" "sl_Len new = length xs" "only_slice old new s s'"
proof
  let ?new = "\<lparr>sl_Array = pm_next s, sl_Start = 0, sl_Len = length xs, sl_Cap = length xs + spare\<rparr>"
  have s': "s' = s\<lparr>pm_arrays := (pm_arrays s)(pm_next s := xs @ replicate spare []), pm_next := pm_next s + 1\<rparr>"
    and r: "r = Inr ?new" using assms by (simp_all add: new_slice_def)
  show "r = Inr ?new" by (rule r)
  show "elems (pm_arrays s') ?new = xs" "sl_Len ?new = length xs" by (simp_all add: s' elems_def gslice_def)
  have "elems (pm_arrays s') sl = elems (pm_arrays s) sl \<and> apart sl ?new" if "wf_slice s sl" for sl
  proof (cases "sl_Cap sl = 0")
    case True
    with that show ?thesis by (simp add: wf_slice_def elems_def gslice_def apart_def)
  next
    case False
    with that have "sl_Array sl \<noteq> pm_next s" by (simp add: wf_slice_def)
    then show ?thesis by (simp add: elems_def s' apart_def)
  qed
  then show "only_slice old ?new s s'" by (auto simp: only_slice_def wf_slice_def s')
qed

lemma append_run:
  assumes "append_slice grow sl x s = (s', r)" "wf_slice s sl"
  obtains new where "r = Inr new" "elems (pm_arrays s') new = elems (pm_arrays s) sl @ [x]" "only_slice sl new s s'"
proof (cases "sl_Len sl < sl_Cap sl")
  case False
  then obtain new where "r = Inr new" "elems (pm_arrays s') new = elems (pm_arrays s) sl @ [x]" "only_slice sl new s s'"
    using new_slice_run[of "elems (pm_arrays s) sl @ [x]" _ s s' r sl] assms(1) by (auto simp: append_slice_def)
  then show ?thesis by (rule that)
next
  case True
  let ?i = "sl_Start sl + sl_Len sl" and ?a = "pm_arrays s (sl_Array sl)" and ?new = "sl\<lparr>sl_Len := sl_Len sl + 1\<rparr>"
  have s': "s' = s\<lparr>pm_arrays := (pm_arrays s)(sl_Array sl := ?a[?i := x])\<rparr>" and r: "r = Inr ?new"
    using assms(1) True by (simp_all add: append_slice_def)
  have i: "?i < length ?a" using True assms(2) by (simp add: wf_slice_def)
  have "elems (pm_arrays s') ?new = gslice (sl_Start sl) (Suc ?i) (?a[?i := x])" by (simp add: elems_def s')
  also have "\<dots> = elems (pm_arrays s) sl @ [x]"
    using i by (simp add: elems_def gslice_def take_Suc_conv_app_nth drop_update_swap)
  finally have e: "elems (pm_arrays s') ?new = elems (pm_arrays s) sl @ [x]" .
  have "only_slice sl ?new s s'"
    using True assms(2) by (auto simp: only_slice_def s' wf_slice_def elems_def apart_def gslice_def)
  with r e show ?thesis by (rule that)
qed

lemma only_slice_trans:
  assumes "only_slice a b s s1" "only_slice b c s1 s2"
  shows "only_slice a c s s2"
  using assms unfolding only_slice_def by metis

lemma keep_others_run:
  assumes "keep_others grow e xs sl s = (s', r)" "wf_slice s sl"
  shows "\<exists>new. r = Inr new \<and> elems (pm_arrays s') new = elems (pm_arrays s) sl @ filter (\<lambda>x. x \<noteq> e) xs \<and> only_slice sl new s s'"
  using assms
proof (induction xs arbitrary: sl s)
  case Nil
  then show ?case by (auto simp: return_def only_slice_def)
next
  case (Cons x xs)
  show ?case
  proof (cases "x = e")
    case True
    then show ?thesis using Cons by simp
  next
    case False
    obtain s1 r1 where a: "append_slice grow sl x s = (s1, r1)" by force
    from append_run[OF a Cons.prems(2)] obtain new where new: "r1 = Inr new"
      "elems (pm_arrays s1) new = elems (pm_arrays s) sl @ [x]" "only_slice sl new s s1" .
    have k: "keep_others grow e xs new s1 = (s', r)" using Cons.prems(1) False by (simp add: bind_def a new(1))
    have "wf_slice s1 new" using new(3) by (simp add: only_slice_def)
    from Cons.IH[OF k this] new False only_slice_trans[OF new(3)] show ?thesis by auto
  qed
qed

subsection \<open>The specification\<close>

type_synonym verdicts = "string \<Rightarrow> (string set \<times> string set) option"

definition verdicts_of :: "('w, 'c) PolicyManager \<Rightarrow> verdicts" where
  "verdicts_of s name =
     map_option (\<lambda>p. (set (elems (pm_arrays s) (py_Allowed p)), set (elems (pm_arrays s) (py_Denied p))))
       (map_of (pm_policies s) name)"

datatype 'c PolicyCall =
    PySet string "string list" nat "string list" nat
  | PyAllow string string
  | PyUnallow string string
  | PyDeny string string
  | PyUndeny string string
  | PyDefault string
  | PyBandwidth string "BandwidthLimit option"
  | PyNoBandwidth string
  | PyCondition string "'c option"
  | PyNoCondition string
  | PyProxy string "ProxySettings option"
  | PyNoProxy string

text \<open>\<^verbatim>\<open>SetPolicy\<close> is called with two lists of the caller, each with some room behind it.\<close>

definition policy_call :: "('w \<Rightarrow> 'w \<times> int) \<Rightarrow> (nat \<Rightarrow> nat) \<Rightarrow> 'c PolicyCall \<Rightarrow> ('w, 'c, unit) pyop" where
  "policy_call clk grow c =
     (case c of
        PySet n a i d j \<Rightarrow>
          bind (new_slice a i) (\<lambda>x. bind (new_slice d j) (\<lambda>y. bind (SetPolicy clk n x y) (\<lambda>_. return ())))
      | PyAllow n e \<Rightarrow> AddAllowedEndpoint clk grow n e
      | PyUnallow n e \<Rightarrow> RemoveAllowedEndpoint clk grow n e
      | PyDeny n e \<Rightarrow> AddDeniedEndpoint clk grow n e
      | PyUndeny n e \<Rightarrow> RemoveDeniedEndpoint clk grow n e
      | PyDefault n \<Rightarrow> bind (EnsureDefaultPolicy clk n) (\<lambda>_. return ())
      | PyBandwidth n l \<Rightarrow> py_SetBandwidthLimit clk n l
      | PyNoBandwidth n \<Rightarrow> RemoveBandwidthLimit clk n
      | PyCondition n x \<Rightarrow> SetNetworkCondition clk n x
      | PyNoCondition n \<Rightarrow> RemoveNetworkCondition clk n
      | PyProxy n x \<Rightarrow> SetProxy clk n x
      | PyNoProxy n \<Rightarrow> RemoveProxy clk n)"

definition current :: "verdicts \<Rightarrow> string \<Rightarrow> string set \<times> string set" where
  "current v n = (case v n of None \<Rightarrow> ({}, {}) | Some x \<Rightarrow> x)"

text \<open>The specification: which sets a call leaves for the sandbox it names.\<close>

fun decide :: "'c PolicyCall \<Rightarrow> verdicts \<Rightarrow> verdicts" where
  "decide (PySet n a _ d _) v = v(n \<mapsto> (set a, set d))"
| "decide (PyAllow n e) v = v(n \<mapsto> (insert e (fst (current v n)), snd (current v n)))"
| "decide (PyUnallow n e) v = (case v n of None \<Rightarrow> v | Some (a, d) \<Rightarrow> v(n \<mapsto> (a - {e}, d)))"
| "decide (PyDeny n e) v = v(n \<mapsto> (fst (current v n), insert e (snd (current v n))))"
| "decide (PyUndeny n e) v = (case v n of None \<Rightarrow> v | Some (a, d) \<Rightarrow> v(n \<mapsto> (a, d - {e})))"
| "decide (PyDefault n) v = (case v n of None \<Rightarrow> v(n \<mapsto> (set DefaultAIAllowlist, {})) | Some _ \<Rightarrow> v)"
| "decide (PyBandwidth n _) v = v(n \<mapsto> current v n)"
| "decide (PyCondition n _) v = v(n \<mapsto> current v n)"
| "decide (PyProxy n _) v = v(n \<mapsto> current v n)"
| "decide _ v = v"

lemmas policy_defs = SetPolicy_def AddAllowedEndpoint_def RemoveAllowedEndpoint_def AddDeniedEndpoint_def
  RemoveDeniedEndpoint_def EnsureDefaultPolicy_def py_SetBandwidthLimit_def RemoveBandwidthLimit_def
  SetNetworkCondition_def RemoveNetworkCondition_def SetProxy_def RemoveProxy_def
  policy_touched_def policy_or_new_def GetPolicy_def find_policy_def put_policy_def new_policy_def

lemmas policy_run = bind_def seq_def return_def throw_def failIf_def reads_def modify_def orFail_def Let_def unix_now_def

lemma unremoved: "length (filter (\<lambda>x. x \<noteq> e) xs) = length xs \<longleftrightarrow> e \<notin> set xs"
proof
  assume "length (filter (\<lambda>x. x \<noteq> e) xs) = length xs"
  then have "filter (\<lambda>x. x \<noteq> e) xs = xs" by (metis filter_True length_filter_less nless_le)
  then show "e \<notin> set xs" by (metis (mono_tags, lifting) mem_Collect_eq set_filter)
qed (metis (mono_tags, lifting) filter_True)

subsection \<open>Every policy has lists of its own\<close>

definition apart_policies :: "'c Policy \<Rightarrow> 'c Policy \<Rightarrow> bool" where
  "apart_policies p q \<longleftrightarrow> (\<forall>a \<in> {py_Allowed p, py_Denied p}. \<forall>b \<in> {py_Allowed q, py_Denied q}. apart a b)"

definition wf_policy :: "('w, 'c) PolicyManager \<Rightarrow> 'c Policy \<Rightarrow> bool" where
  "wf_policy s p \<longleftrightarrow> wf_slice s (py_Allowed p) \<and> wf_slice s (py_Denied p) \<and> apart (py_Allowed p) (py_Denied p)"

definition unshared :: "('w, 'c) PolicyManager \<Rightarrow> bool" where
  "unshared s \<longleftrightarrow> (\<forall>n p. map_of (pm_policies s) n = Some p \<longrightarrow> wf_policy s p) \<and>
     (\<forall>n m p q. n \<noteq> m \<longrightarrow> map_of (pm_policies s) n = Some p \<longrightarrow> map_of (pm_policies s) m = Some q \<longrightarrow> apart_policies p q)"

text \<open>The policy \<open>p\<close> is ready to take the place of \<open>old\<close>.\<close>

definition fits :: "'c Policy option \<Rightarrow> 'c Policy \<Rightarrow> ('w, 'c) PolicyManager \<Rightarrow> ('w, 'c) PolicyManager \<Rightarrow> bool" where
  "fits old p s s' \<longleftrightarrow> pm_policies s' = pm_policies s \<and> wf_policy s' p \<and>
     (\<forall>sl. wf_slice s sl \<longrightarrow> wf_slice s' sl) \<and>
     (\<forall>sl. wf_slice s sl \<and> (\<forall>q. old = Some q \<longrightarrow> apart sl (py_Allowed q) \<and> apart sl (py_Denied q)) \<longrightarrow>
        elems (pm_arrays s') sl = elems (pm_arrays s) sl \<and> apart sl (py_Allowed p) \<and> apart sl (py_Denied p))"

definition verdict :: "('w, 'c) PolicyManager \<Rightarrow> 'c Policy \<Rightarrow> string set \<times> string set" where
  "verdict s p = (set (elems (pm_arrays s) (py_Allowed p)), set (elems (pm_arrays s) (py_Denied p)))"

lemma verdicts_of_eq: "verdicts_of s n = map_option (verdict s) (map_of (pm_policies s) n)"
  by (cases "map_of (pm_policies s) n") (simp_all add: verdicts_of_def verdict_def)

lemma put_fits:
  assumes "unshared s" "fits (map_of (pm_policies s) n) p s s1" "put_policy n p s1 = (s2, r)"
  shows "unshared s2" "verdicts_of s2 = (verdicts_of s)(n \<mapsto> verdict s1 p)"
    "map_of (pm_policies s2) n = Some p" "r = Inr ()"
proof -
  have s2: "s2 = s1\<lparr>pm_policies := AList.update n p (pm_policies s)\<rparr>" and r: "r = Inr ()"
    using assms(2,3) by (auto simp: put_policy_def modify_def fits_def)
  have old: "wf_policy s q" "m \<noteq> n \<Longrightarrow> map_of (pm_policies s) n = Some q' \<Longrightarrow> apart_policies q q'"
    if "map_of (pm_policies s) m = Some q" for m q q'
    using assms(1) that by (auto simp: unshared_def)
  have other: "wf_policy s1 q" "apart_policies q p" "verdict s1 q = verdict s q"
    if "map_of (pm_policies s) m = Some q" "m \<noteq> n" for m q
    using assms(2) old[OF that(1)] that(2)
    by (auto simp: fits_def wf_policy_def apart_policies_def verdict_def)
  have sym: "apart_policies a b = apart_policies b a" for a b :: "'b Policy"
    by (auto simp: apart_policies_def apart_def)
  have wf2: "wf_policy s2 = wf_policy s1" by (simp add: fun_eq_iff s2 wf_policy_def wf_slice_def)
  have "wf_policy s1 p" using assms(2) by (simp add: fits_def)
  then show "unshared s2" using other sym assms(1)
    by (auto simp: unshared_def s2 update_conv' wf2[unfolded s2])
  show "verdicts_of s2 = (verdicts_of s)(n \<mapsto> verdict s1 p)"
  proof
    fix m
    have v2: "verdict s2 = verdict s1" by (simp add: fun_eq_iff s2 verdict_def)
    show "verdicts_of s2 m = ((verdicts_of s)(n \<mapsto> verdict s1 p)) m"
      using other(3)[of m] by (cases "map_of (pm_policies s) m") (auto simp: verdicts_of_eq v2[unfolded s2] s2 update_conv')
  qed
  show "map_of (pm_policies s2) n = Some p" by (simp add: s2 update_conv')
  show "r = Inr ()" by (rule r)
qed

text \<open>The three ways a policy comes to fit: its lists stay, one of them changes, or it is new.\<close>

lemma fits_same:
  assumes "unshared s" "map_of (pm_policies s) n = Some q" "py_Allowed p = py_Allowed q" "py_Denied p = py_Denied q"
  shows "fits (Some q) p s (s\<lparr>pm_world := w\<rparr>)" "verdict (s\<lparr>pm_world := w\<rparr>) p = verdict s q"
  using assms by (auto simp: fits_def unshared_def wf_policy_def wf_slice_def verdict_def)

lemma verdict_new [simp]: "verdict s (new_policy n nil_slice nil_slice t t') = ({}, {})"
  by (simp add: verdict_def new_policy_def)

lemma fits_new: "fits None (new_policy n nil_slice nil_slice t t') s (s\<lparr>pm_world := w\<rparr>)"
  by (auto simp: fits_def new_policy_def wf_policy_def verdict_def wf_slice_def nil_slice_def elems_def gslice_def apart_def)

lemma fits_allowed:
  assumes "unshared s" "map_of (pm_policies s) n = Some q" "only_slice old new s s'" "old \<in> {py_Allowed q, nil_slice}"
    "py_Allowed p = new" "py_Denied p = py_Denied q"
  shows "fits (Some q) p s (s'\<lparr>pm_world := w\<rparr>)"
    "verdict (s'\<lparr>pm_world := w\<rparr>) p = (set (elems (pm_arrays s') new), snd (verdict s q))"
proof -
  have q: "wf_policy s q" using assms(1,2) by (auto simp: unshared_def)
  have "apart (py_Denied q) old" using q assms(4) by (auto simp: wf_policy_def apart_def nil_slice_def)
  then have d: "wf_slice s' (py_Denied q)" "elems (pm_arrays s') (py_Denied q) = elems (pm_arrays s) (py_Denied q)"
    "apart (py_Denied q) new"
    using q assms(3) by (auto simp: only_slice_def wf_policy_def)
  have "apart sl (py_Allowed q) \<Longrightarrow> apart sl old" for sl using assms(4) by auto
  then show "fits (Some q) p s (s'\<lparr>pm_world := w\<rparr>)"
    using d assms(3,5,6) by (auto simp: fits_def only_slice_def wf_policy_def wf_slice_def apart_def)
  show "verdict (s'\<lparr>pm_world := w\<rparr>) p = (set (elems (pm_arrays s') new), snd (verdict s q))"
    using d assms(5,6) by (simp add: verdict_def)
qed

lemma fits_denied:
  assumes "unshared s" "map_of (pm_policies s) n = Some q" "only_slice old new s s'" "old \<in> {py_Denied q, nil_slice}"
    "py_Denied p = new" "py_Allowed p = py_Allowed q"
  shows "fits (Some q) p s (s'\<lparr>pm_world := w\<rparr>)"
    "verdict (s'\<lparr>pm_world := w\<rparr>) p = (fst (verdict s q), set (elems (pm_arrays s') new))"
proof -
  have q: "wf_policy s q" using assms(1,2) by (auto simp: unshared_def)
  have "apart (py_Allowed q) old" using q assms(4) by (auto simp: wf_policy_def apart_def nil_slice_def)
  then have d: "wf_slice s' (py_Allowed q)" "elems (pm_arrays s') (py_Allowed q) = elems (pm_arrays s) (py_Allowed q)"
    "apart (py_Allowed q) new"
    using q assms(3) by (auto simp: only_slice_def wf_policy_def)
  have "apart sl (py_Denied q) \<Longrightarrow> apart sl old" for sl using assms(4) by auto
  then show "fits (Some q) p s (s'\<lparr>pm_world := w\<rparr>)"
    using d assms(3,5,6) by (auto simp: fits_def only_slice_def wf_policy_def wf_slice_def apart_def)
  show "verdict (s'\<lparr>pm_world := w\<rparr>) p = (fst (verdict s q), set (elems (pm_arrays s') new))"
    using d assms(5,6) by (simp add: verdict_def)
qed

subsection \<open>The calls\<close>

lemma now_run: "unix_now clk s = (s', r) \<Longrightarrow> \<exists>w t. s' = s\<lparr>pm_world := w\<rparr> \<and> r = Inr t"
  by (auto simp: unix_now_def split: prod.splits)

lemma world_only [simp]: "unshared (s\<lparr>pm_world := w\<rparr>) = unshared s" "verdicts_of (s\<lparr>pm_world := w\<rparr>) = verdicts_of s"
  by (simp_all add: unshared_def wf_policy_def wf_slice_def fun_eq_iff verdicts_of_def)

lemma bind_now:
  "bind (unix_now clk) k s = (s', r) \<Longrightarrow> \<exists>w t. k t (s\<lparr>pm_world := w\<rparr>) = (s', r)"
  by (auto simp: bind_def unix_now_def split: prod.splits)

lemma bind_find [simp]: "bind (find_policy n) k s = k (map_of (pm_policies s) n) s"
  by (simp add: bind_def find_policy_def reads_def)

lemma bind_list [simp]: "bind (list_of sl) k s = k (elems (pm_arrays s) sl) s"
  by (simp add: bind_def list_of_def reads_def)

lemma seq_guard [simp]: "seq (failIf b x) m s = (if b then (s, Inl x) else m s)"
  by (simp add: seq_def failIf_def bind_def throw_def return_def)

lemma bind_get: "bind (GetPolicy n) k s =
    (case map_of (pm_policies s) n of None \<Rightarrow> (s, Inl (NoPolicy n)) | Some p \<Rightarrow> k p s)"
  by (cases "map_of (pm_policies s) n")
    (simp_all add: GetPolicy_def bind_def orFail_def throw_def return_def find_policy_def reads_def)

text \<open>A policy of the table with other lists kept: what the limits and the times do.\<close>

lemma put_same:
  assumes "unshared s" "map_of (pm_policies s) n = Some q" "py_Allowed p = py_Allowed q" "py_Denied p = py_Denied q"
    "put_policy n p (s\<lparr>pm_world := w\<rparr>) = (s', r)"
  shows "unshared s'" "verdicts_of s' = (verdicts_of s)(n \<mapsto> current (verdicts_of s) n)"
    "map_of (pm_policies s') n = Some p" "r = Inr ()"
  using put_fits[OF assms(1) _ assms(5)] fits_same[OF assms(1-4), of w] assms(2)
  by (simp_all add: current_def verdicts_of_eq)

lemma policy_or_new_run:
  assumes "policy_or_new clk n s = (s', r)" "unshared s"
  shows "unshared s'" "verdicts_of s' = (verdicts_of s)(n \<mapsto> current (verdicts_of s) n)"
    "\<exists>p. r = Inr p \<and> map_of (pm_policies s') n = Some p"
proof -
  have "unshared s' \<and> verdicts_of s' = (verdicts_of s)(n \<mapsto> current (verdicts_of s) n) \<and>
      (\<exists>p. r = Inr p \<and> map_of (pm_policies s') n = Some p)"
  proof (cases "map_of (pm_policies s) n")
    case (Some p)
    then have "s' = s" "r = Inr p" using assms(1) by (auto simp: policy_or_new_def return_def)
    with Some assms(2) show ?thesis by (auto simp: fun_eq_iff current_def verdicts_of_eq)
  next
    case None
    obtain w t t' where "seq (put_policy n (new_policy n nil_slice nil_slice t t'))
        (return (new_policy n nil_slice nil_slice t t')) (s\<lparr>pm_world := w\<rparr>) = (s', r)"
      using assms(1) None by (auto simp: policy_or_new_def Let_def dest!: bind_now)
    moreover obtain s2 x where put: "put_policy n (new_policy n nil_slice nil_slice t t' :: 'b Policy) (s\<lparr>pm_world := w\<rparr>) = (s2, x)" by force
    moreover note put_fits[OF assms(2) _ put] fits_new[of n t t' s w]
    ultimately show ?thesis using None by (auto simp: seq_def bind_def return_def current_def verdicts_of_eq)
  qed
  then show "unshared s'" "verdicts_of s' = (verdicts_of s)(n \<mapsto> current (verdicts_of s) n)"
    "\<exists>p. r = Inr p \<and> map_of (pm_policies s') n = Some p" by blast+
qed

lemma policy_touched_run:
  assumes "policy_touched clk n s = (s', r)" "unshared s"
  shows "unshared s'" "verdicts_of s' = (verdicts_of s)(n \<mapsto> current (verdicts_of s) n)"
    "\<exists>p. r = Inr p \<and> map_of (pm_policies s') n = Some p"
proof -
  have "unshared s' \<and> verdicts_of s' = (verdicts_of s)(n \<mapsto> current (verdicts_of s) n) \<and>
      (\<exists>p. r = Inr p \<and> map_of (pm_policies s') n = Some p)"
  proof (cases "map_of (pm_policies s) n")
    case None
    then have "policy_or_new clk n s = (s', r)" using assms(1) by (simp add: policy_touched_def)
    from policy_or_new_run[OF this assms(2)] show ?thesis by blast
  next
    case (Some p)
    obtain w t where "seq (put_policy n (p\<lparr>py_UpdatedAt := t\<rparr>)) (return (p\<lparr>py_UpdatedAt := t\<rparr>)) (s\<lparr>pm_world := w\<rparr>) = (s', r)"
      using assms(1) Some by (auto simp: policy_touched_def Let_def dest!: bind_now)
    moreover obtain s2 x where put: "put_policy n (p\<lparr>py_UpdatedAt := t\<rparr>) (s\<lparr>pm_world := w\<rparr>) = (s2, x)" by force
    moreover note put_same[OF assms(2) Some _ _ put]
    ultimately show ?thesis by (auto simp: seq_def bind_def return_def)
  qed
  then show "unshared s'" "verdicts_of s' = (verdicts_of s)(n \<mapsto> current (verdicts_of s) n)"
    "\<exists>p. r = Inr p \<and> map_of (pm_policies s') n = Some p" by blast+
qed

lemma setting_run:
  assumes "bind (policy_or_new clk n) (\<lambda>p. bind (unix_now clk) (\<lambda>t. put_policy n (f t p))) s = (s', r)" "unshared s"
    "\<And>t p. py_Allowed (f t p) = py_Allowed p \<and> py_Denied (f t p) = py_Denied p"
  shows "unshared s'" "verdicts_of s' = (verdicts_of s)(n \<mapsto> current (verdicts_of s) n)"
proof -
  obtain s1 r1 where run: "policy_or_new clk n s = (s1, r1)" by force
  note a = policy_or_new_run[OF run assms(2)]
  then obtain p where p: "r1 = Inr p" "map_of (pm_policies s1) n = Some p" by blast
  obtain w t where "put_policy n (f t p) (s1\<lparr>pm_world := w\<rparr>) = (s', r)"
    using assms(1) by (auto simp: bind_def[of "policy_or_new _ _"] run p(1) dest!: bind_now)
  from put_same[OF a(1) p(2) _ _ this] assms(3) a(2)
  show "unshared s'" "verdicts_of s' = (verdicts_of s)(n \<mapsto> current (verdicts_of s) n)"
    by (simp_all add: current_def)
qed

lemma clearing_run:
  assumes "bind (GetPolicy n) (\<lambda>p. bind (unix_now clk) (\<lambda>t. put_policy n (f t p))) s = (s', r)" "unshared s"
    "\<And>t p. py_Allowed (f t p) = py_Allowed p \<and> py_Denied (f t p) = py_Denied p"
  shows "unshared s'" "verdicts_of s' = verdicts_of s"
proof -
  have "unshared s' \<and> verdicts_of s' = verdicts_of s"
  proof (cases "map_of (pm_policies s) n")
    case None
    then show ?thesis using assms(1,2) by (auto simp: bind_get)
  next
    case (Some p)
    obtain w t where "put_policy n (f t p) (s\<lparr>pm_world := w\<rparr>) = (s', r)"
      using assms(1) Some by (auto simp: bind_get dest!: bind_now)
    from put_same[OF assms(2) Some _ _ this] assms(3) Some show ?thesis
      by (auto simp: current_def verdicts_of_eq fun_eq_iff)
  qed
  then show "unshared s'" "verdicts_of s' = verdicts_of s" by blast+
qed

lemma add_allowed_run:
  assumes "AddAllowedEndpoint clk grow n e s = (s', r)" "unshared s"
  shows "unshared s'" "verdicts_of s' = decide (PyAllow n e) (verdicts_of s)"
proof -
  obtain s1 r1 where run: "policy_touched clk n s = (s1, r1)" by force
  note a = policy_touched_run[OF run assms(2)]
  then obtain p where p: "r1 = Inr p" "map_of (pm_policies s1) n = Some p" by blast
  have wf: "wf_slice s1 (py_Allowed p)" using a(1) p(2) by (auto simp: unshared_def wf_policy_def)
  have v: "verdicts_of s1 n = Some (verdict s1 p)" using p(2) by (simp add: verdicts_of_eq)
  have "unshared s' \<and> verdicts_of s' = (verdicts_of s1)(n \<mapsto> (insert e (fst (verdict s1 p)), snd (verdict s1 p)))"
  proof (cases "e \<in> set (elems (pm_arrays s1) (py_Allowed p))")
    case True
    then have "s' = s1" using assms(1)
      by (auto simp: AddAllowedEndpoint_def bind_def[of "policy_touched _ _"] run p(1) return_def)
    then show ?thesis using a(1) True v by (auto simp: fun_eq_iff verdict_def)
  next
    case False
    obtain s2 r2 where app: "append_slice grow (py_Allowed p) e s1 = (s2, r2)" by force
    from append_run[OF app wf] obtain new where new: "r2 = Inr new"
      "elems (pm_arrays s2) new = elems (pm_arrays s1) (py_Allowed p) @ [e]" "only_slice (py_Allowed p) new s1 s2" .
    obtain w t where put: "put_policy n (p\<lparr>py_Allowed := new, py_UpdatedAt := t\<rparr>) (s2\<lparr>pm_world := w\<rparr>) = (s', r)"
      using assms(1) False
      by (auto simp: AddAllowedEndpoint_def bind_def[of "policy_touched _ _"] run p(1) bind_def[of "append_slice _ _ _"]
        app new(1) dest!: bind_now)
    have f: "fits (Some p) (p\<lparr>py_Allowed := new, py_UpdatedAt := t\<rparr>) s1 (s2\<lparr>pm_world := w\<rparr>)"
      "verdict (s2\<lparr>pm_world := w\<rparr>) (p\<lparr>py_Allowed := new, py_UpdatedAt := t\<rparr>) =
        (set (elems (pm_arrays s2) new), snd (verdict s1 p))"
      by (rule fits_allowed[OF a(1) p(2) new(3)]; simp)+
    from put_fits[OF a(1) _ put] f p(2) new(2) show ?thesis by (simp add: verdict_def)
  qed
  then show "unshared s'" "verdicts_of s' = decide (PyAllow n e) (verdicts_of s)"
    using a(2) v by auto
qed

lemma add_denied_run:
  assumes "AddDeniedEndpoint clk grow n e s = (s', r)" "unshared s"
  shows "unshared s'" "verdicts_of s' = decide (PyDeny n e) (verdicts_of s)"
proof -
  obtain s1 r1 where run: "policy_touched clk n s = (s1, r1)" by force
  note a = policy_touched_run[OF run assms(2)]
  then obtain p where p: "r1 = Inr p" "map_of (pm_policies s1) n = Some p" by blast
  have wf: "wf_slice s1 (py_Denied p)" using a(1) p(2) by (auto simp: unshared_def wf_policy_def)
  have v: "verdicts_of s1 n = Some (verdict s1 p)" using p(2) by (simp add: verdicts_of_eq)
  have "unshared s' \<and> verdicts_of s' = (verdicts_of s1)(n \<mapsto> (fst (verdict s1 p), insert e (snd (verdict s1 p))))"
  proof (cases "e \<in> set (elems (pm_arrays s1) (py_Denied p))")
    case True
    then have "s' = s1" using assms(1)
      by (auto simp: AddDeniedEndpoint_def bind_def[of "policy_touched _ _"] run p(1) return_def)
    then show ?thesis using a(1) True v by (auto simp: fun_eq_iff verdict_def)
  next
    case False
    obtain s2 r2 where app: "append_slice grow (py_Denied p) e s1 = (s2, r2)" by force
    from append_run[OF app wf] obtain new where new: "r2 = Inr new"
      "elems (pm_arrays s2) new = elems (pm_arrays s1) (py_Denied p) @ [e]" "only_slice (py_Denied p) new s1 s2" .
    obtain w t where put: "put_policy n (p\<lparr>py_Denied := new, py_UpdatedAt := t\<rparr>) (s2\<lparr>pm_world := w\<rparr>) = (s', r)"
      using assms(1) False
      by (auto simp: AddDeniedEndpoint_def bind_def[of "policy_touched _ _"] run p(1) bind_def[of "append_slice _ _ _"]
        app new(1) dest!: bind_now)
    have f: "fits (Some p) (p\<lparr>py_Denied := new, py_UpdatedAt := t\<rparr>) s1 (s2\<lparr>pm_world := w\<rparr>)"
      "verdict (s2\<lparr>pm_world := w\<rparr>) (p\<lparr>py_Denied := new, py_UpdatedAt := t\<rparr>) =
        (fst (verdict s1 p), set (elems (pm_arrays s2) new))"
      by (rule fits_denied[OF a(1) p(2) new(3)]; simp)+
    from put_fits[OF a(1) _ put] f p(2) new(2) show ?thesis by (simp add: verdict_def)
  qed
  then show "unshared s'" "verdicts_of s' = decide (PyDeny n e) (verdicts_of s)"
    using a(2) v by auto
qed

lemma fits_back:
  assumes "only_slice nil_slice new s s'" "unshared s"
  shows "unshared s'" "verdicts_of s' = verdicts_of s"
proof -
  have keep: "wf_policy s' p" "verdict s' p = verdict s p" if "map_of (pm_policies s) n = Some p" for n p
    using assms that by (auto simp: only_slice_def unshared_def wf_policy_def verdict_def)
  have pol: "pm_policies s' = pm_policies s" using assms(1) by (simp add: only_slice_def)
  show "unshared s'" using assms(2) keep(1) unfolding unshared_def pol by blast
  show "verdicts_of s' = verdicts_of s"
  proof
    fix n show "verdicts_of s' n = verdicts_of s n"
      using keep(2) by (cases "map_of (pm_policies s) n") (auto simp: verdicts_of_eq pol)
  qed
qed

lemma remove_allowed_run:
  assumes "RemoveAllowedEndpoint clk grow n e s = (s', r)" "unshared s"
  shows "unshared s'" "verdicts_of s' = decide (PyUnallow n e) (verdicts_of s)"
proof -
  have "unshared s' \<and> verdicts_of s' = decide (PyUnallow n e) (verdicts_of s)"
  proof (cases "map_of (pm_policies s) n")
    case None
    then show ?thesis using assms by (auto simp: RemoveAllowedEndpoint_def bind_get verdicts_of_eq)
  next
    case (Some p)
    let ?xs = "elems (pm_arrays s) (py_Allowed p)"
    have wf: "wf_slice s (py_Allowed p)" using assms(2) Some by (auto simp: unshared_def wf_policy_def)
    have v: "verdicts_of s n = Some (verdict s p)" using Some by (simp add: verdicts_of_eq)
    obtain s1 r1 where keep: "keep_others grow e ?xs nil_slice s = (s1, r1)" by force
    from keep_others_run[OF keep wf_nil] obtain new where new: "r1 = Inr new"
      "elems (pm_arrays s1) new = filter (\<lambda>x. x \<noteq> e) ?xs" "only_slice nil_slice new s s1" by auto
    have len: "sl_Len new = length (filter (\<lambda>x. x \<noteq> e) ?xs)" "sl_Len (py_Allowed p) = length ?xs"
      using length_elems[of s1 new] length_elems[OF wf] new(2,3) by (auto simp: only_slice_def)
    have run: "seq (failIf (sl_Len new = sl_Len (py_Allowed p)) (NoEndpoint e))
        (bind (unix_now clk) (\<lambda>t. put_policy n (p\<lparr>py_Allowed := new, py_UpdatedAt := t\<rparr>))) s1 = (s', r)"
      using assms(1) Some by (simp add: RemoveAllowedEndpoint_def bind_get bind_def[of "keep_others _ _ _ _"] keep new(1))
    show ?thesis
    proof (cases "e \<in> set ?xs")
      case False
      then have "s' = s1" using run len by (simp add: unremoved)
      then show ?thesis using fits_back[OF new(3) assms(2)] v False by (auto simp: fun_eq_iff verdict_def)
    next
      case True
      then obtain w t where put: "put_policy n (p\<lparr>py_Allowed := new, py_UpdatedAt := t\<rparr>) (s1\<lparr>pm_world := w\<rparr>) = (s', r)"
        using run len unremoved[of e ?xs] by (auto dest!: bind_now)
      have f: "fits (Some p) (p\<lparr>py_Allowed := new, py_UpdatedAt := t\<rparr>) s (s1\<lparr>pm_world := w\<rparr>)"
        "verdict (s1\<lparr>pm_world := w\<rparr>) (p\<lparr>py_Allowed := new, py_UpdatedAt := t\<rparr>) =
          (set (elems (pm_arrays s1) new), snd (verdict s p))"
        by (rule fits_allowed[OF assms(2) Some new(3)]; simp)+
      have "set (filter (\<lambda>x. x \<noteq> e) ?xs) = set ?xs - {e}" by auto
      with put_fits[OF assms(2) _ put] f Some new(2) v show ?thesis by (simp add: verdict_def)
    qed
  qed
  then show "unshared s'" "verdicts_of s' = decide (PyUnallow n e) (verdicts_of s)" by blast+
qed

lemma remove_denied_run:
  assumes "RemoveDeniedEndpoint clk grow n e s = (s', r)" "unshared s"
  shows "unshared s'" "verdicts_of s' = decide (PyUndeny n e) (verdicts_of s)"
proof -
  have "unshared s' \<and> verdicts_of s' = decide (PyUndeny n e) (verdicts_of s)"
  proof (cases "map_of (pm_policies s) n")
    case None
    then show ?thesis using assms by (auto simp: RemoveDeniedEndpoint_def bind_get verdicts_of_eq)
  next
    case (Some p)
    let ?xs = "elems (pm_arrays s) (py_Denied p)"
    have wf: "wf_slice s (py_Denied p)" using assms(2) Some by (auto simp: unshared_def wf_policy_def)
    have v: "verdicts_of s n = Some (verdict s p)" using Some by (simp add: verdicts_of_eq)
    obtain s1 r1 where keep: "keep_others grow e ?xs nil_slice s = (s1, r1)" by force
    from keep_others_run[OF keep wf_nil] obtain new where new: "r1 = Inr new"
      "elems (pm_arrays s1) new = filter (\<lambda>x. x \<noteq> e) ?xs" "only_slice nil_slice new s s1" by auto
    have len: "sl_Len new = length (filter (\<lambda>x. x \<noteq> e) ?xs)" "sl_Len (py_Denied p) = length ?xs"
      using length_elems[of s1 new] length_elems[OF wf] new(2,3) by (auto simp: only_slice_def)
    have run: "seq (failIf (sl_Len new = sl_Len (py_Denied p)) (NoEndpoint e))
        (bind (unix_now clk) (\<lambda>t. put_policy n (p\<lparr>py_Denied := new, py_UpdatedAt := t\<rparr>))) s1 = (s', r)"
      using assms(1) Some by (simp add: RemoveDeniedEndpoint_def bind_get bind_def[of "keep_others _ _ _ _"] keep new(1))
    show ?thesis
    proof (cases "e \<in> set ?xs")
      case False
      then have "s' = s1" using run len by (simp add: unremoved)
      then show ?thesis using fits_back[OF new(3) assms(2)] v False by (auto simp: fun_eq_iff verdict_def)
    next
      case True
      then obtain w t where put: "put_policy n (p\<lparr>py_Denied := new, py_UpdatedAt := t\<rparr>) (s1\<lparr>pm_world := w\<rparr>) = (s', r)"
        using run len unremoved[of e ?xs] by (auto dest!: bind_now)
      have f: "fits (Some p) (p\<lparr>py_Denied := new, py_UpdatedAt := t\<rparr>) s (s1\<lparr>pm_world := w\<rparr>)"
        "verdict (s1\<lparr>pm_world := w\<rparr>) (p\<lparr>py_Denied := new, py_UpdatedAt := t\<rparr>) =
          (fst (verdict s p), set (elems (pm_arrays s1) new))"
        by (rule fits_denied[OF assms(2) Some new(3)]; simp)+
      have "set (filter (\<lambda>x. x \<noteq> e) ?xs) = set ?xs - {e}" by auto
      with put_fits[OF assms(2) _ put] f Some new(2) v show ?thesis by (simp add: verdict_def)
    qed
  qed
  then show "unshared s'" "verdicts_of s' = decide (PyUndeny n e) (verdicts_of s)" by blast+
qed


lemma set_run:
  assumes "bind (new_slice a i) (\<lambda>x. bind (new_slice d j) (\<lambda>y. bind (SetPolicy clk n x y) (\<lambda>_. return ()))) s = (s', r)"
    "unshared s"
  shows "unshared s'" "verdicts_of s' = (verdicts_of s)(n \<mapsto> (set a, set d))"
proof -
  obtain s1 r1 where m1: "new_slice a i s = (s1, r1)" by force
  from new_slice_run[OF m1, of nil_slice] obtain x where x: "r1 = Inr x" "elems (pm_arrays s1) x = a" "only_slice nil_slice x s s1" .
  obtain s2 r2 where m2: "new_slice d j s1 = (s2, r2)" by force
  from new_slice_run[OF m2, of nil_slice] obtain y where y: "r2 = Inr y" "elems (pm_arrays s2) y = d" "only_slice nil_slice y s1 s2" .
  obtain w ts where run: "bind (let policy = new_policy n x y (case map_of (pm_policies s2) n of None \<Rightarrow> ts | Some p \<Rightarrow> py_CreatedAt p) ts
      in seq (put_policy n policy) (return policy)) (\<lambda>_. return ()) (s2\<lparr>pm_world := w\<rparr>) = (s', r)"
  proof -
    obtain w ts where "unix_now clk s2 = (s2\<lparr>pm_world := w\<rparr>, Inr ts)"
      using now_run[of clk s2] by (metis surj_pair)
    with assms(1) that show ?thesis by (auto simp: bind_def[of "new_slice _ _"] m1 m2 x(1) y(1) SetPolicy_def Let_def bind_def find_policy_def reads_def)
  qed
  obtain p :: "'b Policy" where p: "py_Allowed p = x" "py_Denied p = y"
    and run: "put_policy n p (s2\<lparr>pm_world := w\<rparr>) = (s', Inr ())"
  proof -
    let ?p = "new_policy n x y (case map_of (pm_policies s2) n of None \<Rightarrow> ts | Some p \<Rightarrow> py_CreatedAt p) ts"
    have "put_policy n ?p (s2\<lparr>pm_world := w\<rparr>) = (s', Inr ())"
      using run by (auto simp: Let_def seq_def bind_def put_policy_def modify_def return_def)
    then show ?thesis by (intro that[of ?p]) (simp_all add: new_policy_def)
  qed
  have "fits (map_of (pm_policies s) n) p s (s2\<lparr>pm_world := w\<rparr>)"
    using x(3) y(3) p by (auto simp: fits_def only_slice_def wf_policy_def wf_slice_def)
  moreover have "verdict (s2\<lparr>pm_world := w\<rparr>) p = (set a, set d)"
    using x(2,3) y(2,3) p by (auto simp: verdict_def only_slice_def)
  ultimately show "unshared s'" "verdicts_of s' = (verdicts_of s)(n \<mapsto> (set a, set d))"
    using put_fits[OF assms(2) _ run] by simp_all
qed

lemma default_run:
  assumes "EnsureDefaultPolicy clk n s = (s', r)" "unshared s"
  shows "unshared s'" "verdicts_of s' = decide (PyDefault n) (verdicts_of s)"
proof -
  have "unshared s' \<and> verdicts_of s' = decide (PyDefault n) (verdicts_of s)"
  proof (cases "map_of (pm_policies s) n")
    case (Some p)
    then show ?thesis using assms by (auto simp: EnsureDefaultPolicy_def return_def verdicts_of_eq)
  next
    case None
    then obtain w t t' where run: "bind (new_slice DefaultAIAllowlist 0) (\<lambda>allowed.
        let p = new_policy n allowed nil_slice t t' in seq (put_policy n p) (return p)) (s\<lparr>pm_world := w\<rparr>) = (s', r)"
      using assms(1) by (auto simp: EnsureDefaultPolicy_def dest!: bind_now)
    obtain s1 r1 where m: "new_slice DefaultAIAllowlist 0 (s\<lparr>pm_world := w\<rparr>) = (s1, r1)" by force
    from new_slice_run[OF m, of nil_slice] obtain x where x: "r1 = Inr x" "elems (pm_arrays s1) x = DefaultAIAllowlist"
      "only_slice nil_slice x (s\<lparr>pm_world := w\<rparr>) s1" .
    let ?p = "new_policy n x nil_slice t t'"
    have put: "put_policy n ?p s1 = (s', Inr ())"
      using run by (auto simp: bind_def[of "new_slice _ _"] m x(1) Let_def seq_def bind_def put_policy_def modify_def return_def)
    have "fits None ?p (s\<lparr>pm_world := w\<rparr>) s1"
      using x(3) by (auto simp: fits_def only_slice_def wf_policy_def new_policy_def)
    with put_fits[OF _ _ put, of "s\<lparr>pm_world := w\<rparr>"] assms(2) None x(2) show ?thesis
      by (simp add: verdict_def new_policy_def verdicts_of_eq)
  qed
  then show "unshared s'" "verdicts_of s' = decide (PyDefault n) (verdicts_of s)" by blast+
qed

lemma call_refines:
  assumes "policy_call clk grow c s = (s', r)" "unshared s"
  shows "unshared s' \<and> verdicts_of s' = decide c (verdicts_of s)"
proof (cases c)
  case (PySet n a i d j)
  then show ?thesis using set_run[OF _ assms(2)] assms(1) by (auto simp: policy_call_def)
next
  case (PyAllow n e)
  then show ?thesis using add_allowed_run[OF _ assms(2)] assms(1) by (auto simp: policy_call_def)
next
  case (PyUnallow n e)
  then show ?thesis using remove_allowed_run[OF _ assms(2)] assms(1) by (auto simp: policy_call_def)
next
  case (PyDeny n e)
  then show ?thesis using add_denied_run[OF _ assms(2)] assms(1) by (auto simp: policy_call_def)
next
  case (PyUndeny n e)
  then show ?thesis using remove_denied_run[OF _ assms(2)] assms(1) by (auto simp: policy_call_def)
next
  case (PyDefault n)
  obtain s1 r1 where run: "EnsureDefaultPolicy clk n s = (s1, r1)" by force
  then have "s' = s1" using assms(1) PyDefault by (auto simp: policy_call_def bind_def return_def split: sum.splits)
  then show ?thesis using default_run[OF run assms(2)] PyDefault by simp
next
  case (PyBandwidth n l)
  then show ?thesis using assms(1) setting_run[OF _ assms(2), of clk n "\<lambda>t p. p\<lparr>py_Bandwidth := l, py_UpdatedAt := t\<rparr>" s' r]
    by (simp add: policy_call_def py_SetBandwidthLimit_def)
next
  case (PyNoBandwidth n)
  then show ?thesis using assms(1) clearing_run[OF _ assms(2), of n clk "\<lambda>t p. p\<lparr>py_Bandwidth := None, py_UpdatedAt := t\<rparr>" s' r]
    by (simp add: policy_call_def RemoveBandwidthLimit_def)
next
  case (PyCondition n x)
  then show ?thesis using assms(1) setting_run[OF _ assms(2), of clk n "\<lambda>t p. p\<lparr>py_Condition := x, py_UpdatedAt := t\<rparr>" s' r]
    by (simp add: policy_call_def SetNetworkCondition_def)
next
  case (PyNoCondition n)
  then show ?thesis using assms(1) clearing_run[OF _ assms(2), of n clk "\<lambda>t p. p\<lparr>py_Condition := None, py_UpdatedAt := t\<rparr>" s' r]
    by (simp add: policy_call_def RemoveNetworkCondition_def)
next
  case (PyProxy n x)
  then show ?thesis using assms(1) setting_run[OF _ assms(2), of clk n "\<lambda>t p. p\<lparr>py_Proxy := x, py_UpdatedAt := t\<rparr>" s' r]
    by (simp add: policy_call_def SetProxy_def)
next
  case (PyNoProxy n)
  then show ?thesis using assms(1) clearing_run[OF _ assms(2), of n clk "\<lambda>t p. p\<lparr>py_Proxy := None, py_UpdatedAt := t\<rparr>" s' r]
    by (simp add: policy_call_def RemoveProxy_def)
qed

lemma call_step:
  assumes "unshared s"
  shows "unshared (fst (policy_call clk grow c s))" "verdicts_of (fst (policy_call clk grow c s)) = decide c (verdicts_of s)"
  using call_refines[OF surjective_pairing assms] by blast+

subsection \<open>The property\<close>

definition no_policies :: "'w \<Rightarrow> ('w, 'c) PolicyManager" where
  "no_policies w = \<lparr>pm_policies = [], pm_arrays = \<lambda>_. [], pm_next = 0, pm_world = w\<rparr>"

definition policy_calls :: "('w \<Rightarrow> 'w \<times> int) \<Rightarrow> (nat \<Rightarrow> nat) \<Rightarrow> 'c PolicyCall list \<Rightarrow> ('w, 'c) PolicyManager \<Rightarrow>
    ('w, 'c) PolicyManager" where
  "policy_calls clk grow cs s = foldl (\<lambda>s c. fst (policy_call clk grow c s)) s cs"

text \<open>
  C30: Whatever calls are made with lists that no other policy holds, as the creation of a
  sandbox makes them, and however much room the lists have behind them, an endpoint is allowed exactly if
  the specification has it in the allowed set of the sandbox and not in the denied one: a
  denial wins, a sandbox without a policy is closed, the default list applies only where no
  call made a policy before, no call changes the verdicts of another sandbox, and bandwidth
  limits, network conditions and proxies change none.
\<close>

theorem policy_decides:
  fixes w :: 'w and cs :: "'c PolicyCall list"
  shows "IsEndpointAllowed name endpoint (policy_calls clk grow cs (no_policies w)) =
    (case foldl (\<lambda>v c. decide c v) Map.empty cs name of
       None \<Rightarrow> False
     | Some (allowed, denied) \<Rightarrow> endpoint \<in> allowed \<and> endpoint \<notin> denied)"
proof -
  have "unshared s \<Longrightarrow> unshared (policy_calls clk grow cs s) \<and>
      verdicts_of (policy_calls clk grow cs s) = foldl (\<lambda>v c. decide c v) (verdicts_of s) cs" for s
    by (induction cs arbitrary: s) (simp_all add: policy_calls_def call_step)
  moreover have "unshared (no_policies w :: ('w, 'c) PolicyManager)"
    "verdicts_of (no_policies w :: ('w, 'c) PolicyManager) = Map.empty"
    by (auto simp: unshared_def no_policies_def verdicts_of_def)
  ultimately have "foldl (\<lambda>v c. decide c v) Map.empty cs name = verdicts_of (policy_calls clk grow cs (no_policies w)) name"
    by simp
  then show ?thesis
    by (auto simp: IsEndpointAllowed_def verdicts_of_def split: option.split)
qed

text \<open>The hypothesis matters: an endpoint allowed for the source overwrites one allowed for the clone.\<close>

definition demo_clone :: "nat PolicyCall list \<Rightarrow> (unit, nat) PolicyManager" where
  "demo_clone cs =
     (let clk = (\<lambda>u. (u, 0)); grow = (\<lambda>n. if n = 3 then 4 else n) in
      policy_calls clk grow cs (fst (clone_endpoints clk ''src'' ''dst''
        (policy_calls clk grow [PySet ''src'' [''a'', ''b''] 0 [] 0, PyAllow ''src'' ''c''] (no_policies ())))))"

lemma clone_shares:
  "IsEndpointAllowed ''dst'' ''x'' (demo_clone [PyAllow ''dst'' ''x''])"
  "\<not> IsEndpointAllowed ''dst'' ''x'' (demo_clone [PyAllow ''dst'' ''x'', PyAllow ''src'' ''y''])"
  "IsEndpointAllowed ''dst'' ''y'' (demo_clone [PyAllow ''dst'' ''x'', PyAllow ''src'' ''y''])"
  by code_simp+

end
