(* ===== verification/Dns.thy ===== *)
theory Dns
  imports GoText "HOL-Library.AList"
begin

text \<open>
  The name server of a compose group (\<^verbatim>\<open>internal/network/dns.go\<close>). Names are byte strings.
  The lower case of a name with bytes above 127 is a table of the Unicode library and a
  parameter; names of ASCII are written out. Asking an upstream server is an operation on a
  world. The receive loop around \<open>serve_packet\<close> is input and output.
\<close>

subsection \<open>Constants and data\<close>

definition dnsFlagQR :: u16 where "dnsFlagQR = 0x8000"
definition dnsFlagAA :: u16 where "dnsFlagAA = 0x0400"
definition dnsFlagRD :: u16 where "dnsFlagRD = 0x0100"
definition dnsFlagRA :: u16 where "dnsFlagRA = 0x0080"
definition dnsRcodeOK :: u16 where "dnsRcodeOK = 0"
definition dnsRcodeNX :: u16 where "dnsRcodeNX = 3"
definition dnsRcodeFail :: u16 where "dnsRcodeFail = 2"
definition dnsTypeA :: u16 where "dnsTypeA = 1"
definition dnsTypeAAAA :: u16 where "dnsTypeAAAA = 28"
definition dnsClassIN :: u16 where "dnsClassIN = 1"

text \<open>A record whose address is not IPv4 has no address.\<close>

record DNSServer =
  dn_records :: "(bytes \<times> bytes option) list"
  dn_domain :: bytes
  dn_upstreams :: "bytes list"
  dn_bindIP :: bytes

record DNSServerConfig =
  dc_BindIP :: bytes
  dc_Domain :: bytes
  dc_Upstreams :: "bytes list"

record 'w DnsEnv =
  de_Lower :: "bytes \<Rightarrow> bytes"
  de_Exchange :: "bytes \<Rightarrow> bytes \<Rightarrow> 'w \<Rightarrow> 'w \<times> bytes option"

definition dns_text :: "string \<Rightarrow> bytes" where
  "dns_text s = map (\<lambda>c. word_of_nat (of_char c)) s"

definition lower_byte :: "byte \<Rightarrow> byte" where
  "lower_byte b = (if 0x41 \<le> b \<and> b \<le> 0x5A then b + 0x20 else b)"

definition is_ascii :: "bytes \<Rightarrow> bool" where
  "is_ascii s = list_all (\<lambda>b. b < 0x80) s"

definition ToLower :: "'w DnsEnv \<Rightarrow> bytes \<Rightarrow> bytes" where
  "ToLower env s = (if is_ascii s then map lower_byte s else de_Lower env s)"

definition trim_suffix :: "bytes \<Rightarrow> bytes \<Rightarrow> bytes" where
  "trim_suffix s suf = (if has_suffix s suf then take (length s - length suf) s else s)"

text \<open>\<^verbatim>\<open>net.IP.To4\<close>\<close>

definition To4 :: "bytes \<Rightarrow> bytes option" where
  "To4 ip =
     (if length ip = 4 then Some ip
      else if length ip = 16 \<and> take 12 ip = replicate 10 0 @ [0xFF, 0xFF] then Some (drop 12 ip)
      else None)"

definition DefaultDNSConfig :: DNSServerConfig where
  "DefaultDNSConfig = \<lparr>dc_BindIP = dns_text ''172.16.0.1'', dc_Domain = dns_text ''tent.local'',
     dc_Upstreams = [dns_text ''8.8.8.8:53'', dns_text ''8.8.4.4:53'']\<rparr>"

definition NewDNSServer :: "DNSServerConfig option \<Rightarrow> DNSServer" where
  "NewDNSServer config =
     (let cfg = (case config of None \<Rightarrow> DefaultDNSConfig | Some c \<Rightarrow> c);
          d = (if dc_Domain cfg = [] then dns_text ''tent.local'' else dc_Domain cfg);
          domain = (if has_prefix d [46] then d else 46 # d);
          ups = (if dc_Upstreams cfg = [] then [dns_text ''8.8.8.8:53'', dns_text ''8.8.4.4:53''] else dc_Upstreams cfg)
      in \<lparr>dn_records = [], dn_domain = domain,
          dn_upstreams = map (\<lambda>u. if List.member u 58 then u else u @ dns_text '':53'') ups, dn_bindIP = dc_BindIP cfg\<rparr>)"

definition dns_Register :: "'w DnsEnv \<Rightarrow> bytes \<Rightarrow> bytes \<Rightarrow> DNSServer \<Rightarrow> DNSServer" where
  "dns_Register env name ip s = s\<lparr>dn_records := AList.update (ToLower env name) (To4 ip) (dn_records s)\<rparr>"

definition dns_Unregister :: "'w DnsEnv \<Rightarrow> bytes \<Rightarrow> DNSServer \<Rightarrow> DNSServer" where
  "dns_Unregister env name s = s\<lparr>dn_records := AList.delete (ToLower env name) (dn_records s)\<rparr>"

definition Resolve :: "'w DnsEnv \<Rightarrow> DNSServer \<Rightarrow> bytes \<Rightarrow> bytes option" where
  "Resolve env s name = Option.bind (map_of (dn_records s) (ToLower env name)) (\<lambda>ip. ip)"

definition Records :: "DNSServer \<Rightarrow> (bytes \<times> bytes option) list" where
  "Records s = dn_records s"

subsection \<open>Names\<close>

lemma more_seen: "\<not> (n :: nat) \<le> i \<Longrightarrow> i \<notin> seen \<Longrightarrow> card ({0..<n} - insert i seen) < card ({0..<n} - seen)"
proof (rule psubset_card_mono)
  assume "\<not> n \<le> i" "i \<notin> seen"
  then have "i \<in> {0..<n} - seen" "i \<notin> {0..<n} - insert i seen" by simp_all
  moreover have "{0..<n} - insert i seen \<subseteq> {0..<n} - seen" by blast
  ultimately show "{0..<n} - insert i seen \<subset> {0..<n} - seen" by blast
qed simp

text \<open>
  The labels from an offset on, with the offset after the name: \<open>seen\<close> are the offsets
  visited, and \<open>orig\<close> is the result once a pointer was followed. The loop also ends at the
  end of the data.
\<close>

function decode_labels :: "bytes \<Rightarrow> nat set \<Rightarrow> bool \<Rightarrow> nat \<Rightarrow> bytes list \<Rightarrow> nat \<Rightarrow> (bytes list \<times> nat) option" where
  "decode_labels data seen jumped orig parts offset =
     (if offset \<ge> length data then Some (parts, orig)
      else if offset \<in> seen then None
      else
        (let b = data ! offset; n = unat b in
         if n = 0 then Some (parts, if jumped then orig else offset + 1)
         else if b AND 0xC0 = 0xC0 then
           (if offset + 1 \<ge> length data then None
            else decode_labels data (insert offset seen) True (if jumped then orig else offset + 2) parts
                   (unat ((get_be (gslice offset (offset + 2) data) :: u16) AND 0x3FFF)))
         else if offset + 1 + n > length data then None
         else decode_labels data (insert offset seen) jumped orig
                (parts @ [gslice (offset + 1) (offset + 1 + n) data]) (offset + 1 + n)))"
  by pat_completeness auto

termination
  by (relation "measure (\<lambda>(data, seen, _, _, _, _). card ({0..<length data} - seen))")
    (simp_all only: in_measure prod.case more_seen wf_measure not_False_eq_True)

declare decode_labels.simps [simp del]

definition decodeDNSName :: "bytes \<Rightarrow> nat \<Rightarrow> bytes \<times> nat" where
  "decodeDNSName data offset =
     (case decode_labels data {} False offset [] offset of
        None \<Rightarrow> ([], 0)
      | Some (parts, after) \<Rightarrow> (join_with [46] parts, after))"

definition parseDNSQuestion :: "bytes \<Rightarrow> nat \<Rightarrow> bytes \<times> u16 \<times> u16 \<times> nat" where
  "parseDNSQuestion data offset =
     (case decodeDNSName data offset of
        (name, new) \<Rightarrow>
          if new = 0 \<or> new + 4 > length data then ([], 0, 0, 0)
          else (name, get_be (gslice new (new + 2) data), get_be (gslice (new + 2) (new + 4) data), new + 4))"

fun split_dots :: "bytes \<Rightarrow> bytes list" where
  "split_dots [] = [[]]"
| "split_dots (c # cs) =
     (if c = 46 then [] # split_dots cs
      else (case split_dots cs of [] \<Rightarrow> [[c]] | l # ls \<Rightarrow> (c # l) # ls))"

definition encode_label :: "bytes \<Rightarrow> bytes" where
  "encode_label label = (let l = take 63 label in word_of_nat (length l) # l)"

definition encodeDNSName :: "bytes \<Rightarrow> bytes" where
  "encodeDNSName name = concat (map encode_label (split_dots (trim_suffix name [46]))) @ [0]"

subsection \<open>Replies\<close>

definition dns_header :: "u16 \<Rightarrow> u16 \<Rightarrow> u16 \<Rightarrow> bytes" where
  "dns_header qid flags answers =
     put_be 2 qid @ put_be 2 flags @ put_be 2 (1 :: u16) @ put_be 2 answers @ put_be 2 (0 :: u16) @ put_be 2 (0 :: u16)"

definition buildDNSResponse :: "u16 \<Rightarrow> u16 \<Rightarrow> bytes \<Rightarrow> bytes \<Rightarrow> bytes option" where
  "buildDNSResponse qid queryFlags question ip =
     (case To4 ip of
        None \<Rightarrow> None
      | Some ip4 \<Rightarrow>
          (let flags = dnsFlagQR OR dnsFlagAA OR dnsFlagRA OR (queryFlags AND dnsFlagRD);
               answer = [0xC0, 0x0C] @ [0, ucast dnsTypeA] @ [0, ucast dnsClassIN] @ put_be 4 (60 :: u32) @ [0, 4] @ ip4
           in Some (dns_header qid flags 1 @ question @ answer)))"

definition buildDNSNXDomain :: "u16 \<Rightarrow> u16 \<Rightarrow> bytes \<Rightarrow> bytes" where
  "buildDNSNXDomain qid queryFlags question =
     dns_header qid (dnsFlagQR OR dnsFlagAA OR dnsFlagRA OR (queryFlags AND dnsFlagRD) OR dnsRcodeNX) 0 @ question"

definition buildDNSServFail :: "u16 \<Rightarrow> bytes \<Rightarrow> bytes option" where
  "buildDNSServFail qid query =
     (if length query < 12 then None
      else Some
        (let flags = get_be (gslice 2 4 query) OR dnsFlagQR OR dnsRcodeFail
         in gcopy 10 (put_be 2 (0 :: u16)) (gcopy 8 (put_be 2 (0 :: u16)) (gcopy 6 (put_be 2 (0 :: u16))
              (gcopy 2 (put_be 2 flags) (gcopy 0 (put_be 2 qid) query))))))"

subsection \<open>Queries\<close>

definition extractLocalName :: "'w DnsEnv \<Rightarrow> DNSServer \<Rightarrow> bytes \<Rightarrow> bytes" where
  "extractLocalName env s name =
     (let lower = trim_suffix (ToLower env name) [46];
          suffix = ToLower env (dn_domain s)
      in if has_suffix lower suffix then trim_suffix lower suffix else [])"

text \<open>The first upstream server that answers; its answer is read into 512 bytes.\<close>

fun ask_upstreams :: "'w DnsEnv \<Rightarrow> bytes \<Rightarrow> bytes list \<Rightarrow> 'w \<Rightarrow> 'w \<times> bytes option" where
  "ask_upstreams env query [] w = (w, None)"
| "ask_upstreams env query (u # us) w =
     (case de_Exchange env u query w of
        (w', Some r) \<Rightarrow> (w', Some (take 512 r))
      | (w', None) \<Rightarrow> ask_upstreams env query us w')"

definition forward :: "'w DnsEnv \<Rightarrow> DNSServer \<Rightarrow> bytes \<Rightarrow> 'w \<Rightarrow> 'w \<times> bytes option" where
  "forward env s query w =
     (case ask_upstreams env query (dn_upstreams s) w of
        (w', Some r) \<Rightarrow> (w', Some r)
      | (w', None) \<Rightarrow> (w', buildDNSServFail (get_be (gslice 0 2 query)) query))"

definition handleQuery :: "'w DnsEnv \<Rightarrow> DNSServer \<Rightarrow> bytes \<Rightarrow> 'w \<Rightarrow> 'w \<times> bytes option" where
  "handleQuery env s query w =
     (if length query < 12 then (w, None)
      else
        (let qid = get_be (gslice 0 2 query) :: u16;
             flags = get_be (gslice 2 4 query) :: u16;
             qdCount = get_be (gslice 4 6 query) :: u16
         in if drop_bit 11 flags AND 0xF \<noteq> 0 then (w, None)
            else if qdCount = 0 then (w, None)
            else
              (case parseDNSQuestion query 12 of
                 (name, qtype, qclass, offset) \<Rightarrow>
                   if name = [] \<or> offset = 0 then (w, None)
                   else if qclass \<noteq> dnsClassIN then (w, None)
                   else
                     (let localName = extractLocalName env s name;
                          question = gslice 12 offset query;
                          found = Resolve env s (if localName \<noteq> [] then localName else name)
                      in case found of
                           Some ip \<Rightarrow>
                             if qtype = dnsTypeA then (w, buildDNSResponse qid flags question ip)
                             else forward env s query w
                         | None \<Rightarrow>
                             if localName \<noteq> [] then (w, Some (buildDNSNXDomain qid flags question))
                             else forward env s query w))))"

text \<open>One packet of the receive loop, whose buffer has 512 bytes.\<close>

definition serve_packet :: "'w DnsEnv \<Rightarrow> DNSServer \<Rightarrow> bytes \<Rightarrow> 'w \<Rightarrow> 'w \<times> bytes option" where
  "serve_packet env s packet w =
     (let query = take 512 packet in if length query < 12 then (w, None) else handleQuery env s query w)"

end
