(* ===== verification/DnsClaims.thy ===== *)
theory DnsClaims
  imports Dns
begin

text \<open>
  Names survive the wire, and a query for the name of a sandbox is answered from the records.
\<close>

subsection \<open>Names on the wire\<close>

definition wire_label :: "bytes \<Rightarrow> bool" where
  "wire_label l \<longleftrightarrow> l \<noteq> [] \<and> length l \<le> 63 \<and> 46 \<notin> set l"

definition wire_labels :: "bytes list \<Rightarrow> bool" where
  "wire_labels ls \<longleftrightarrow> ls \<noteq> [] \<and> list_all wire_label ls"

lemma encode_wire_label: "wire_label l \<Longrightarrow> encode_label l = word_of_nat (length l) # l"
  by (simp add: wire_label_def encode_label_def)

lemma split_dots_plain: "46 \<notin> set l \<Longrightarrow> split_dots l = [l]"
  by (induction l) auto

lemma split_dots_append: "46 \<notin> set l \<Longrightarrow> split_dots (l @ 46 # r) = l # split_dots r"
  by (induction l) auto

lemma split_dots_join: "wire_labels ls \<Longrightarrow> split_dots (join_with [46] ls) = ls"
  by (induction "[46 :: byte]" ls rule: join_with.induct)
    (auto simp: wire_labels_def wire_label_def split_dots_plain split_dots_append)

lemma join_last: "wire_labels ls \<Longrightarrow> join_with [46] ls \<noteq> [] \<and> last (join_with [46] ls) \<noteq> 46"
  by (induction "[46 :: byte]" ls rule: join_with.induct)
    (auto simp: wire_labels_def wire_label_def dest: last_in_set)

lemma trim_dot: "s \<noteq> [] \<Longrightarrow> last s \<noteq> c \<Longrightarrow> trim_suffix s [c] = s"
  by (cases s rule: rev_cases) (simp_all add: trim_suffix_def has_suffix_def)

lemma encode_join: "wire_labels ls \<Longrightarrow> encodeDNSName (join_with [46] ls) = concat (map encode_label ls) @ [0]"
  by (simp add: encodeDNSName_def join_last trim_dot split_dots_join)

lemma label_byte:
  assumes "0 < n" "n \<le> 63"
  shows "unat (word_of_nat n :: byte) = n" "(word_of_nat n :: byte) AND 0xC0 \<noteq> 0xC0"
proof -
  show u: "unat (word_of_nat n :: byte) = n" using assms by (simp add: unat_of_nat)
  show "(word_of_nat n :: byte) AND 0xC0 \<noteq> 0xC0"
  proof
    assume "(word_of_nat n :: byte) AND 0xC0 = 0xC0"
    then have "(0xC0 :: byte) \<le> word_of_nat n" by (metis word_and_le2)
    then have "192 \<le> unat (word_of_nat n :: byte)" by (simp add: word_le_nat_alt)
    with u assms show False by simp
  qed
qed

lemma decode_wire:
  assumes "list_all wire_label ls" "\<forall>i \<in> seen. i < length pre \<or> length pre + length (concat (map encode_label ls)) < i"
  shows "decode_labels (pre @ concat (map encode_label ls) @ 0 # post) seen jumped orig parts (length pre) =
    Some (parts @ ls, if jumped then orig else length pre + length (concat (map encode_label ls)) + 1)"
  using assms
proof (induction ls arbitrary: pre seen parts)
  case Nil
  then have "length pre \<notin> seen" by auto
  then show ?case by (subst decode_labels.simps) simp
next
  case (Cons l ls)
  let ?rest = "concat (map encode_label ls) @ 0 # post"
  let ?data = "pre @ concat (map encode_label (l # ls)) @ 0 # post"
  have l: "0 < length l" "length l \<le> 63" using Cons.prems(1) by (simp_all add: wire_label_def)
  have e: "encode_label l = word_of_nat (length l) # l" using Cons.prems(1) by (simp add: encode_wire_label)
  have at: "?data ! length pre = word_of_nat (length l)" by (simp add: e)
  have body: "gslice (length pre + 1) (length pre + 1 + length l) ?data = l" by (simp add: gslice_def e)
  have here: "length pre \<notin> seen" using Cons.prems(2) by auto
  have "decode_labels ?data (insert (length pre) seen) jumped orig (parts @ [l]) (length pre + 1 + length l) =
      decode_labels ((pre @ encode_label l) @ ?rest) (insert (length pre) seen) jumped orig (parts @ [l])
        (length (pre @ encode_label l))"
    by (simp add: e)
  also have "\<dots> = Some ((parts @ [l]) @ ls, if jumped then orig
      else length (pre @ encode_label l) + length (concat (map encode_label ls)) + 1)"
  proof (rule Cons.IH)
    show "list_all wire_label ls" using Cons.prems(1) by simp
    show "\<forall>i \<in> insert (length pre) seen. i < length (pre @ encode_label l) \<or>
        length (pre @ encode_label l) + length (concat (map encode_label ls)) < i"
      using Cons.prems(2) by (auto simp: e)
  qed
  finally have onward: "decode_labels ?data (insert (length pre) seen) jumped orig (parts @ [l]) (length pre + 1 + length l) =
      Some (parts @ l # ls, if jumped then orig else length pre + length (concat (map encode_label (l # ls))) + 1)"
    by (simp add: e add.assoc)
  have "\<not> length ?data \<le> length pre" "\<not> length ?data < length pre + 1 + length l" by (simp_all add: e)
  with onward here show ?case
    by (subst decode_labels.simps)
      (simp only: at body label_byte[OF l] l Let_def if_False if_True not_gr_zero l(1)[THEN less_imp_neq, symmetric])
qed

lemma decode_encoded:
  assumes "wire_labels ls"
  shows "decodeDNSName (pre @ encodeDNSName (join_with [46] ls) @ post) (length pre) =
    (join_with [46] ls, length pre + length (encodeDNSName (join_with [46] ls)))"
  using decode_wire[of ls "{}" pre post False "length pre" "[]"] assms
  by (simp add: decodeDNSName_def encode_join wire_labels_def)

text \<open>A pointer to the name of the question, as the replies have it.\<close>

lemma decode_pointer:
  assumes "wire_labels ls" "length hdr = 12"
  shows "decodeDNSName (hdr @ encodeDNSName (join_with [46] ls) @ mid @ 0xC0 # 0x0C # post)
      (12 + length (encodeDNSName (join_with [46] ls)) + length mid) =
    (join_with [46] ls, 12 + length (encodeDNSName (join_with [46] ls)) + length mid + 2)"
proof -
  let ?e = "encodeDNSName (join_with [46] ls)"
  define data where "data = hdr @ ?e @ mid @ 0xC0 # 0x0C # post"
  define pos where "pos = 12 + length ?e + length mid"
  have e: "?e = concat (map encode_label ls) @ [0]" by (rule encode_join[OF assms(1)])
  have b: "data ! pos = 0xC0" using assms(2) by (simp add: data_def pos_def nth_append)
  have t: "unat ((get_be (gslice pos (pos + 2) data) :: u16) AND 0x3FFF) = 12"
    using assms(2) by (simp add: gslice_def get_be_def data_def pos_def)
  have "decode_labels data {pos} True (pos + 2) [] 12 = Some (ls, pos + 2)"
    using decode_wire[of ls "{pos}" hdr "mid @ 0xC0 # 0x0C # post" True "pos + 2" "[]"] assms
    by (simp add: e data_def pos_def wire_labels_def)
  moreover have "\<not> length data \<le> pos" "\<not> length data \<le> pos + 1" using assms(2) by (simp_all add: data_def pos_def)
  ultimately have "decode_labels data {} False pos [] pos = Some (ls, pos + 2)"
    by (subst decode_labels.simps) (simp add: b t[simplified])
  then show ?thesis unfolding data_def[symmetric] pos_def[symmetric] by (simp add: decodeDNSName_def)
qed

subsection \<open>Queries and replies\<close>

definition dns_query :: "u16 \<Rightarrow> u16 \<Rightarrow> u16 \<Rightarrow> bytes \<Rightarrow> bytes \<Rightarrow> u16 \<Rightarrow> bytes \<Rightarrow> bytes" where
  "dns_query qid flags qd counts name qtype rest =
     (put_be 2 qid @ put_be 2 flags @ put_be 2 qd @ counts) @
     encodeDNSName name @ put_be 2 qtype @ put_be 2 dnsClassIN @ rest"

text \<open>What a client reads in a reply: identifier, code, the name it asked for and the address.\<close>

definition read_reply :: "bytes \<Rightarrow> u16 \<times> u16 \<times> bytes \<times> (bytes \<times> bytes) option" where
  "read_reply r =
     (case parseDNSQuestion r 12 of
        (name, _, _, off) \<Rightarrow>
          (get_be (gslice 0 2 r), get_be (gslice 2 4 r) AND 0xF, name,
           if (get_be (gslice 6 8 r) :: u16) = 0 then None
           else (case decodeDNSName r off of
                   (owner, p) \<Rightarrow>
                     if gslice p (p + 10) r = [0, 1, 0, 1, 0, 0, 0, 60, 0, 4] then Some (owner, gslice (p + 10) (p + 14) r)
                     else None)))"

datatype DnsCall = DnsRegister bytes bytes | DnsUnregister bytes

fun dns_call :: "'w DnsEnv \<Rightarrow> DNSServer \<Rightarrow> DnsCall \<Rightarrow> DNSServer" where
  "dns_call env s (DnsRegister name ip) = dns_Register env name ip s"
| "dns_call env s (DnsUnregister name) = dns_Unregister env name s"

text \<open>The directory: the address of a name, whose case does not matter.\<close>

fun directory :: "'w DnsEnv \<Rightarrow> (bytes \<Rightarrow> bytes option) \<Rightarrow> DnsCall \<Rightarrow> bytes \<Rightarrow> bytes option" where
  "directory env d (DnsRegister name ip) = d(ToLower env name := To4 ip)"
| "directory env d (DnsUnregister name) = d(ToLower env name := None)"

definition entry :: "DNSServer \<Rightarrow> bytes \<Rightarrow> bytes option" where
  "entry s key = Option.bind (map_of (dn_records s) key) (\<lambda>ip. ip)"

lemma entry_call: "entry (dns_call env s c) = directory env (entry s) c"
  by (cases c; rule ext) (simp_all add: entry_def dns_Register_def dns_Unregister_def update_conv' delete_conv')

lemma entry_calls: "entry (foldl (dns_call env) s cs) = foldl (directory env) (entry s) cs"
  by (induction cs arbitrary: s) (simp_all add: entry_call)

lemma domain_calls: "dn_domain (foldl (dns_call env) s cs) = dn_domain s"
proof (induction cs arbitrary: s)
  case (Cons c cs)
  then show ?case by (cases c) (simp_all add: dns_Register_def dns_Unregister_def)
qed simp

lemma entry_length: "entry (foldl (dns_call env) s cs) key = Some ip \<Longrightarrow>
    (\<And>k a. entry s k = Some a \<Longrightarrow> length a = 4) \<Longrightarrow> length ip = 4"
proof (induction cs arbitrary: s)
  case (Cons c cs)
  have "entry (dns_call env s c) k = Some a \<Longrightarrow> length a = 4" for k a
    using Cons.prems(2)[of k a] unfolding entry_call
    by (cases c) (auto simp: To4_def split: if_splits)
  with Cons show ?case by (simp del: dns_call.simps)
qed simp

lemma dns_query_parts:
  assumes "length counts = 6"
  shows "gslice 0 2 (dns_query qid flags qd counts name qtype rest) = put_be 2 qid"
    "gslice 2 4 (dns_query qid flags qd counts name qtype rest) = put_be 2 flags"
    "gslice 4 6 (dns_query qid flags qd counts name qtype rest) = put_be 2 qd"
    "\<not> length (dns_query qid flags qd counts name qtype rest) < 12"
    "gslice 12 (16 + length (encodeDNSName name)) (dns_query qid flags qd counts name qtype rest) =
      encodeDNSName name @ put_be 2 qtype @ put_be 2 dnsClassIN"
  using assms by (simp_all add: dns_query_def gslice_def)

lemma parse_question:
  assumes "wire_labels ls" "length hdr = 12"
  shows "parseDNSQuestion (hdr @ encodeDNSName (join_with [46] ls) @ put_be 2 qtype @ put_be 2 qclass @ rest) 12 =
    (join_with [46] ls, qtype, qclass, 16 + length (encodeDNSName (join_with [46] ls)))"
  using decode_encoded[OF assms(1), of hdr "put_be 2 qtype @ put_be 2 qclass @ rest"] assms(2)
  by (simp add: parseDNSQuestion_def gslice_def)

lemma reply_code: "rc AND 0xF = rc \<Longrightarrow>
    (dnsFlagQR OR dnsFlagAA OR dnsFlagRA OR (f AND dnsFlagRD) OR rc) AND 0xF = rc"
  by (simp add: dnsFlagQR_def dnsFlagAA_def dnsFlagRA_def dnsFlagRD_def word_ao_dist word_bw_assocs)

lemma length_header: "length (dns_header qid flags n) = 12"
  by (simp add: dns_header_def)

lemma header_parts:
  "gslice 0 2 (dns_header qid flags n @ r) = put_be 2 qid"
  "gslice 2 4 (dns_header qid flags n @ r) = put_be 2 flags"
  "gslice 6 8 (dns_header qid flags n @ r) = put_be 2 n"
  by (simp_all add: dns_header_def gslice_def)

lemma read_nxdomain:
  assumes "wire_labels ls"
  shows "read_reply (buildDNSNXDomain qid f (encodeDNSName (join_with [46] ls) @ put_be 2 (qtype :: u16) @ put_be 2 dnsClassIN)) =
    (qid, 3, join_with [46] ls, None)"
  using parse_question[OF assms length_header, where rest = "[]"] reply_code[of 3 f]
  by (simp add: read_reply_def buildDNSNXDomain_def header_parts dnsRcodeNX_def)

lemma read_answer:
  assumes "wire_labels ls" "length ip = 4"
  shows "\<exists>r. buildDNSResponse qid f (encodeDNSName (join_with [46] ls) @ put_be 2 dnsTypeA @ put_be 2 dnsClassIN) ip = Some r \<and>
    read_reply r = (qid, 0, join_with [46] ls, Some (join_with [46] ls, ip))"
proof -
  let ?e = "encodeDNSName (join_with [46] ls)" and ?q = "put_be 2 dnsTypeA @ put_be 2 dnsClassIN"
  let ?flags = "dnsFlagQR OR dnsFlagAA OR dnsFlagRA OR (f AND dnsFlagRD)"
  let ?answer = "0xC0 # 0x0C # [0, 1, 0, 1, 0, 0, 0, 60, 0, 4] @ ip"
  define r where "r = dns_header qid ?flags 1 @ ?e @ ?q @ ?answer"
  have ttl: "put_be 4 (60 :: u32) = [0, 0, 0, 60]" by (simp add: put_be_def byte_eval)
  have b: "buildDNSResponse qid f (?e @ ?q) ip = Some r"
    using assms(2) by (simp add: buildDNSResponse_def To4_def r_def ttl dnsTypeA_def dnsClassIN_def)
  have q: "parseDNSQuestion r 12 = (join_with [46] ls, dnsTypeA, dnsClassIN, 16 + length ?e)"
    using parse_question[OF assms(1) length_header, where rest = ?answer] by (simp add: r_def)
  have p: "decodeDNSName r (16 + length ?e) = (join_with [46] ls, 18 + length ?e)"
    using decode_pointer[OF assms(1) length_header, where mid = ?q and post = "[0, 1, 0, 1, 0, 0, 0, 60, 0, 4] @ ip"]
    by (simp add: r_def add.commute)
  have fields: "gslice 0 2 r = put_be 2 qid" "gslice 2 4 r = put_be 2 ?flags" "gslice 6 8 r = put_be 2 (1 :: u16)"
    by (simp_all add: r_def header_parts)
  have a: "gslice (18 + length ?e) (28 + length ?e) r = [0, 1, 0, 1, 0, 0, 0, 60, 0, 4]"
    "gslice (28 + length ?e) (32 + length ?e) r = ip"
    using assms(2) by (simp_all add: r_def gslice_def length_header)
  have "?flags AND 0xF = 0" using reply_code[of 0 f] by simp
  then have "read_reply r = (qid, 0, join_with [46] ls, Some (join_with [46] ls, ip))"
    by (simp add: read_reply_def q p fields a)
  with b show ?thesis by blast
qed

subsection \<open>Discovery\<close>

lemma lower_idem: "is_ascii s \<Longrightarrow> ToLower env (ToLower env s) = ToLower env s"
proof -
  assume "is_ascii s"
  moreover have "lower_byte (lower_byte b) = lower_byte b" for b
    by (auto simp: lower_byte_def word_le_nat_alt unat_word_ariths)
  moreover have "b < 0x80 \<Longrightarrow> lower_byte b < 0x80" for b
    by (auto simp: lower_byte_def word_le_nat_alt word_less_nat_alt unat_word_ariths)
  ultimately show ?thesis by (simp add: ToLower_def is_ascii_def list.pred_map list_all_iff)
qed

lemma lower_dot: "lower_byte b = 46 \<longleftrightarrow> b = 46"
  by (auto simp: lower_byte_def word_le_nat_alt unat_word_ariths word_unat_eq_iff)

lemma ToLower_append: "is_ascii (a @ b) \<Longrightarrow> ToLower env (a @ b) = ToLower env a @ ToLower env b"
  by (simp add: ToLower_def is_ascii_def)

lemma local_name:
  assumes "wire_labels ls" "is_ascii (join_with [46] ls)" "is_ascii n" "n \<noteq> []" "is_ascii (dn_domain s)"
    "ToLower env (join_with [46] ls) = ToLower env (n @ dn_domain s)"
  shows "extractLocalName env s (join_with [46] ls) = ToLower env n" "ToLower env n \<noteq> []"
proof -
  have a: "is_ascii (n @ dn_domain s)" using assms(3,5) by (simp add: is_ascii_def)
  have "last (ToLower env (join_with [46] ls)) \<noteq> 46" "ToLower env (join_with [46] ls) \<noteq> []"
    using assms(2) join_last[OF assms(1)] by (simp_all add: ToLower_def last_map lower_dot)
  then have "trim_suffix (ToLower env (join_with [46] ls)) [46] = ToLower env n @ ToLower env (dn_domain s)"
    using assms(6) by (simp add: trim_dot ToLower_append[OF a])
  then show "extractLocalName env s (join_with [46] ls) = ToLower env n"
    by (simp add: extractLocalName_def trim_suffix_def has_suffix_def)
  show "ToLower env n \<noteq> []" using assms(3,4) by (simp add: ToLower_def)
qed

text \<open>
  C33: A query for the address of \<open>name.domain\<close>, in any letter case, is answered with the
  identifier and the question of the query and the address that the last registration of the
  name gave, or with the code for a name that does not exist when there is none or it was
  taken back; the owner of the answer, a pointer, reads as the name that was asked for. No
  other server is asked.
\<close>

theorem dns_discovers:
  assumes "wire_labels ls" "is_ascii (join_with [46] ls)" "is_ascii n" "n \<noteq> []" "is_ascii (dn_domain s)"
    "ToLower env (join_with [46] ls) = ToLower env (n @ dn_domain s)"
    "s = foldl (dns_call env) (NewDNSServer config) cs"
    "drop_bit 11 flags AND 0xF = 0" "qd \<noteq> 0" "length counts = 6"
  shows "\<exists>r. handleQuery env s (dns_query qid flags qd counts (join_with [46] ls) dnsTypeA rest) w = (w, Some r) \<and>
    read_reply r =
      (case foldl (directory env) Map.empty cs (ToLower env n) of
         None \<Rightarrow> (qid, 3, join_with [46] ls, None)
       | Some ip \<Rightarrow> (qid, 0, join_with [46] ls, Some (join_with [46] ls, ip)))"
proof -
  let ?name = "join_with [46] ls" and ?n = "ToLower env n"
  have none: "entry (NewDNSServer config) = Map.empty" by (rule ext) (simp add: entry_def NewDNSServer_def Let_def)
  have dir: "foldl (directory env) Map.empty cs ?n = entry s ?n"
    by (simp add: assms(7) entry_calls none)
  have found: "Resolve env s ?n = entry s ?n" by (simp add: Resolve_def entry_def lower_idem[OF assms(3)])
  have q: "parseDNSQuestion (dns_query qid flags qd counts ?name dnsTypeA rest) 12 =
      (?name, dnsTypeA, dnsClassIN, 16 + length (encodeDNSName ?name))"
    unfolding dns_query_def by (rule parse_question[OF assms(1)]) (simp add: assms(10))
  note step = dns_query_parts[OF assms(10)] q local_name[OF assms(1-6)] join_last[OF assms(1)] found assms(8,9)
  show ?thesis
  proof (cases "entry s ?n")
    case None
    then show ?thesis unfolding dir by (simp add: handleQuery_def step read_nxdomain[OF assms(1)])
  next
    case (Some ip)
    have "length ip = 4" by (rule entry_length[OF Some[unfolded assms(7)]]) (simp add: none)
    from read_answer[OF assms(1) this] Some show ?thesis unfolding dir by (simp add: handleQuery_def step)
  qed
qed

definition demo_dns :: "unit DnsEnv" where
  "demo_dns = \<lparr>de_Lower = (\<lambda>s. s), de_Exchange = (\<lambda>_ _ w. (w, None))\<rparr>"

definition demo_names :: "bytes list" where
  "demo_names = [[0x57, 0x65, 0x62], [116, 101, 110, 116], [108, 111, 99, 97, 108]]"

text \<open>Asked for the address of Web.tent.local, registered as WEB.\<close>

theorem dns_discovers_witness:
  "\<exists>r. handleQuery demo_dns (foldl (dns_call demo_dns) (NewDNSServer None) [DnsRegister [0x57, 0x45, 0x42] [10, 0, 0, 7]])
      (dns_query 9 0x0100 1 [0, 0, 0, 0, 0, 0] (join_with [46] demo_names) dnsTypeA []) () = ((), Some r) \<and>
    read_reply r = (9, 0, join_with [46] demo_names, Some (join_with [46] demo_names, [10, 0, 0, 7]))"
  using dns_discovers[where ls = demo_names and n = "[0x77, 0x65, 0x62]" and config = None and env = demo_dns and
      cs = "[DnsRegister [0x57, 0x45, 0x42] [10, 0, 0, 7]]" and flags = "0x0100" and qd = 1 and counts = "[0, 0, 0, 0, 0, 0]"
      and qid = 9 and rest = "[]" and w = "()", OF _ _ _ _ _ _ refl]
  by (simp add: demo_names_def wire_labels_def wire_label_def is_ascii_def ToLower_def lower_byte_def NewDNSServer_def
      DefaultDNSConfig_def dns_text_def has_prefix_def dns_Register_def To4_def Let_def)

text \<open>
  Any other query for a sandbox that is registered goes to the upstream servers, name and all,
  and its answer is theirs.
\<close>

lemma other_types_forwarded:
  assumes "wire_labels ls" "is_ascii (join_with [46] ls)" "is_ascii n" "n \<noteq> []" "is_ascii (dn_domain s)"
    "ToLower env (join_with [46] ls) = ToLower env (n @ dn_domain s)" "entry s (ToLower env n) = Some ip"
    "drop_bit 11 flags AND 0xF = 0" "qd \<noteq> 0" "length counts = 6" "qtype \<noteq> dnsTypeA"
  shows "handleQuery env s (dns_query qid flags qd counts (join_with [46] ls) qtype rest) w =
    forward env s (dns_query qid flags qd counts (join_with [46] ls) qtype rest) w"
proof -
  let ?name = "join_with [46] ls" and ?n = "ToLower env n"
  have found: "Resolve env s ?n = Some ip" using assms(7) by (simp add: Resolve_def entry_def lower_idem[OF assms(3)])
  have q: "parseDNSQuestion (dns_query qid flags qd counts ?name qtype rest) 12 =
      (?name, qtype, dnsClassIN, 16 + length (encodeDNSName ?name))"
    unfolding dns_query_def by (rule parse_question[OF assms(1)]) (simp add: assms(10))
  note step = dns_query_parts[OF assms(10)] q local_name[OF assms(1-6)] join_last[OF assms(1)] found assms(8,9,11)
  show ?thesis by (simp add: handleQuery_def step)
qed

text \<open>
  A name without its closing byte is not refused when it ends with the data: the offset that
  comes back is the one where the name began, and the first bytes of the name are read as
  type and class.
\<close>

lemma unclosed_name: "parseDNSQuestion [0, 0, 3, 97, 0, 1] 2 = ([97, 0, 1], 0x0361, dnsClassIN, 6)"
  by (simp add: parseDNSQuestion_def decodeDNSName_def decode_labels.simps gslice_def get_be_def dnsClassIN_def)

end
