(* ===== verification/Input.thy ===== *)
theory Input
  imports GoUtf8
begin

text \<open>
  The input device (\<^verbatim>\<open>internal/virtio/input.go\<close>): events wait in a bounded list until the
  transport drains them. A value is a 32-bit word, read as two's complement. The calls hold
  the lock of the device; the two queues of the device are fields no operation uses.
\<close>

subsection \<open>Constants and data\<close>

definition KeyReserved :: u16 where "KeyReserved = 0"
definition KeyEsc :: u16 where "KeyEsc = 1"
definition Key1 :: u16 where "Key1 = 2"
definition Key2 :: u16 where "Key2 = 3"
definition Key3 :: u16 where "Key3 = 4"
definition Key4 :: u16 where "Key4 = 5"
definition Key5 :: u16 where "Key5 = 6"
definition Key6 :: u16 where "Key6 = 7"
definition Key7 :: u16 where "Key7 = 8"
definition Key8 :: u16 where "Key8 = 9"
definition Key9 :: u16 where "Key9 = 10"
definition Key0 :: u16 where "Key0 = 11"
definition KeyMinus :: u16 where "KeyMinus = 12"
definition KeyEqual :: u16 where "KeyEqual = 13"
definition KeyTab :: u16 where "KeyTab = 15"
definition KeyLeftBrace :: u16 where "KeyLeftBrace = 26"
definition KeyRightBrace :: u16 where "KeyRightBrace = 27"
definition KeyEnter :: u16 where "KeyEnter = 28"
definition KeyA :: u16 where "KeyA = 30"
definition KeyB :: u16 where "KeyB = 48"
definition KeyC :: u16 where "KeyC = 46"
definition KeyD :: u16 where "KeyD = 32"
definition KeyE :: u16 where "KeyE = 18"
definition KeyF :: u16 where "KeyF = 33"
definition KeyG :: u16 where "KeyG = 34"
definition KeyH :: u16 where "KeyH = 35"
definition KeyI :: u16 where "KeyI = 23"
definition KeyJ :: u16 where "KeyJ = 36"
definition KeyK :: u16 where "KeyK = 37"
definition KeyL :: u16 where "KeyL = 38"
definition KeyM :: u16 where "KeyM = 50"
definition KeyN :: u16 where "KeyN = 49"
definition KeyO :: u16 where "KeyO = 24"
definition KeyP :: u16 where "KeyP = 25"
definition KeyQ :: u16 where "KeyQ = 16"
definition KeyR :: u16 where "KeyR = 19"
definition KeyS :: u16 where "KeyS = 31"
definition KeyT :: u16 where "KeyT = 20"
definition KeyU :: u16 where "KeyU = 22"
definition KeyV :: u16 where "KeyV = 47"
definition KeyW :: u16 where "KeyW = 17"
definition KeyX :: u16 where "KeyX = 45"
definition KeyY :: u16 where "KeyY = 21"
definition KeyZ :: u16 where "KeyZ = 44"
definition KeySemicolon :: u16 where "KeySemicolon = 39"
definition KeyApostrophe :: u16 where "KeyApostrophe = 40"
definition KeyGrave :: u16 where "KeyGrave = 41"
definition KeyLeftShift :: u16 where "KeyLeftShift = 42"
definition KeyBackslash :: u16 where "KeyBackslash = 43"
definition KeyComma :: u16 where "KeyComma = 51"
definition KeyDot :: u16 where "KeyDot = 52"
definition KeySlash :: u16 where "KeySlash = 53"
definition KeySpace :: u16 where "KeySpace = 57"
definition KeyF10 :: u16 where "KeyF10 = 68"
definition KeyF11 :: u16 where "KeyF11 = 87"
definition KeyF12 :: u16 where "KeyF12 = 88"
definition KeyUp :: u16 where "KeyUp = 103"
definition KeyLeft :: u16 where "KeyLeft = 105"
definition KeyRight :: u16 where "KeyRight = 106"
definition KeyDown :: u16 where "KeyDown = 108"
definition KeyDelete :: u16 where "KeyDelete = 111"
definition EvSyn :: u16 where "EvSyn = 0"
definition EvKey :: u16 where "EvKey = 1"
definition EvRel :: u16 where "EvRel = 2"
definition EvAbs :: u16 where "EvAbs = 3"
definition EvLed :: u16 where "EvLed = 17"
definition EvRep :: u16 where "EvRep = 20"
definition SynReport :: u16 where "SynReport = 0"
definition RelX :: u16 where "RelX = 0"
definition RelY :: u16 where "RelY = 1"
definition RelWheel :: u16 where "RelWheel = 8"
definition RelHWheel :: u16 where "RelHWheel = 6"
definition AbsX :: u16 where "AbsX = 0"
definition AbsY :: u16 where "AbsY = 1"
definition AbsPressure :: u16 where "AbsPressure = 24"
definition BtnLeft :: u16 where "BtnLeft = 0x110"
definition BtnRight :: u16 where "BtnRight = 0x111"
definition BtnMiddle :: u16 where "BtnMiddle = 0x112"
definition BtnTouch :: u16 where "BtnTouch = 0x14A"

lemmas input_codes = KeyReserved_def KeyEsc_def Key1_def Key2_def Key3_def Key4_def Key5_def
  Key6_def Key7_def Key8_def Key9_def Key0_def KeyMinus_def KeyEqual_def KeyTab_def KeyLeftBrace_def
  KeyRightBrace_def KeyEnter_def KeyA_def KeyB_def KeyC_def KeyD_def KeyE_def KeyF_def KeyG_def
  KeyH_def KeyI_def KeyJ_def KeyK_def KeyL_def KeyM_def KeyN_def KeyO_def KeyP_def KeyQ_def KeyR_def
  KeyS_def KeyT_def KeyU_def KeyV_def KeyW_def KeyX_def KeyY_def KeyZ_def KeySemicolon_def
  KeyApostrophe_def KeyGrave_def KeyLeftShift_def KeyBackslash_def KeyComma_def KeyDot_def
  KeySlash_def KeySpace_def KeyF10_def KeyF11_def KeyF12_def KeyUp_def KeyLeft_def KeyRight_def
  KeyDown_def KeyDelete_def EvSyn_def EvKey_def EvRel_def EvAbs_def EvLed_def EvRep_def
  SynReport_def RelX_def RelY_def RelWheel_def RelHWheel_def AbsX_def AbsY_def AbsPressure_def
  BtnLeft_def BtnRight_def BtnMiddle_def BtnTouch_def

definition InputEventSize :: nat where "InputEventSize = 8"
definition maxPendingEvents :: nat where "maxPendingEvents = 4096"

record InputEvent =
  ie_Type :: u16
  ie_Code :: u16
  ie_Value :: u32

datatype InputDeviceSubtype = InputSubtypeKeyboard | InputSubtypeMouse | InputSubtypeTablet | InputSubtypeMultitouch

record AbsAxisInfo =
  ax_Min :: int
  ax_Max :: int
  ax_Fuzz :: int
  ax_Flat :: int
  ax_Resolution :: int

record VirtioInputConfig =
  ic_Name :: string
  ic_Serial :: string
  ic_Subtype :: InputDeviceSubtype
  ic_SupportedEvents :: "(u16 \<times> u16 list) list"
  ic_AbsInfo :: "(u16 \<times> AbsAxisInfo) list"

record VirtioInput =
  in_deviceID :: string
  in_config :: VirtioInputConfig
  in_pendingEvents :: "InputEvent list"
  in_running :: bool
  in_stopClosed :: bool
  in_eventsIn :: u64
  in_eventsOut :: u64
  in_eventsDropped :: u64

record InputStats =
  ist_EventsIn :: u64
  ist_EventsOut :: u64
  ist_EventsDropped :: u64
  ist_Pending :: nat
  ist_Timestamp :: int

datatype input_error =
    InNoDeviceID
  | InNoName
  | InBadTablet
  | InAlreadyRunning
  | InNotRunning
  | InFull
  | InBadSize
  | InClosedChannel

subsection \<open>Construction and lifecycle\<close>

definition NewVirtioInput :: "string \<Rightarrow> VirtioInputConfig \<Rightarrow> input_error + VirtioInput" where
  "NewVirtioInput deviceID cfg =
     (if deviceID = [] then Inl InNoDeviceID
      else if ic_Name cfg = [] then Inl InNoName
      else Inr \<lparr>in_deviceID = deviceID, in_config = cfg, in_pendingEvents = [], in_running = False,
                in_stopClosed = False, in_eventsIn = 0, in_eventsOut = 0, in_eventsDropped = 0\<rparr>)"

definition keyboard_keys :: "u16 list" where
  "keyboard_keys = map word_of_nat [unat KeyEsc..<Suc (unat KeyF10)] @
     [KeyF11, KeyF12, KeyUp, KeyLeft, KeyRight, KeyDown, KeyDelete]"

definition NewKeyboard :: "string \<Rightarrow> input_error + VirtioInput" where
  "NewKeyboard deviceID = NewVirtioInput deviceID
     \<lparr>ic_Name = ''tent-virtio-keyboard'', ic_Serial = ''tent-kbd-001'', ic_Subtype = InputSubtypeKeyboard,
      ic_SupportedEvents = [(EvSyn, [SynReport]), (EvKey, keyboard_keys), (EvRep, []), (EvLed, [])],
      ic_AbsInfo = []\<rparr>"

definition NewMouse :: "string \<Rightarrow> input_error + VirtioInput" where
  "NewMouse deviceID = NewVirtioInput deviceID
     \<lparr>ic_Name = ''tent-virtio-mouse'', ic_Serial = ''tent-mouse-001'', ic_Subtype = InputSubtypeMouse,
      ic_SupportedEvents = [(EvSyn, [SynReport]), (EvKey, [BtnLeft, BtnRight, BtnMiddle]),
        (EvRel, [RelX, RelY, RelWheel, RelHWheel])],
      ic_AbsInfo = []\<rparr>"

definition NewTablet :: "string \<Rightarrow> int \<Rightarrow> int \<Rightarrow> input_error + VirtioInput" where
  "NewTablet deviceID width height =
     (if width \<le> 0 \<or> height \<le> 0 then Inl InBadTablet
      else NewVirtioInput deviceID
        \<lparr>ic_Name = ''tent-virtio-tablet'', ic_Serial = ''tent-tablet-001'', ic_Subtype = InputSubtypeTablet,
         ic_SupportedEvents = [(EvSyn, [SynReport]), (EvKey, [BtnLeft, BtnRight, BtnMiddle, BtnTouch]),
           (EvAbs, [AbsX, AbsY, AbsPressure])],
         ic_AbsInfo =
           [(AbsX, \<lparr>ax_Min = 0, ax_Max = width - 1, ax_Fuzz = 0, ax_Flat = 0, ax_Resolution = 1\<rparr>),
            (AbsY, \<lparr>ax_Min = 0, ax_Max = height - 1, ax_Fuzz = 0, ax_Flat = 0, ax_Resolution = 1\<rparr>),
            (AbsPressure, \<lparr>ax_Min = 0, ax_Max = 255, ax_Fuzz = 0, ax_Flat = 0, ax_Resolution = 0\<rparr>)]\<rparr>)"

definition in_Start :: "VirtioInput \<Rightarrow> input_error + VirtioInput" where
  "in_Start d = (if in_running d then Inl InAlreadyRunning else Inr (d\<lparr>in_running := True\<rparr>))"

text \<open>Closing the channel a second time panics, after the flag was cleared.\<close>

definition in_Stop :: "VirtioInput \<Rightarrow> VirtioInput \<times> input_error option" where
  "in_Stop d =
     (if \<not> in_running d then (d, None)
      else if in_stopClosed d then (d\<lparr>in_running := False\<rparr>, Some InClosedChannel)
      else (d\<lparr>in_running := False, in_stopClosed := True, in_pendingEvents := []\<rparr>, None))"

subsection \<open>Events in\<close>

definition InjectEvent :: "InputEvent \<Rightarrow> VirtioInput \<Rightarrow> VirtioInput \<times> input_error option" where
  "InjectEvent ev d =
     (if \<not> in_running d then (d, Some InNotRunning)
      else if length (in_pendingEvents d) \<ge> maxPendingEvents then
        (d\<lparr>in_eventsDropped := in_eventsDropped d + 1\<rparr>, Some InFull)
      else (d\<lparr>in_pendingEvents := in_pendingEvents d @ [ev], in_eventsIn := in_eventsIn d + 1\<rparr>, None))"

definition InjectEvents :: "InputEvent list \<Rightarrow> VirtioInput \<Rightarrow> VirtioInput \<times> input_error option" where
  "InjectEvents events d =
     (if \<not> in_running d then (d, Some InNotRunning)
      else if length (in_pendingEvents d) + length events > maxPendingEvents then
        (d\<lparr>in_eventsDropped := in_eventsDropped d + word_of_nat (length events)\<rparr>, Some InFull)
      else (d\<lparr>in_pendingEvents := in_pendingEvents d @ events,
              in_eventsIn := in_eventsIn d + word_of_nat (length events)\<rparr>, None))"

definition ev :: "u16 \<Rightarrow> u16 \<Rightarrow> u32 \<Rightarrow> InputEvent" where
  "ev t c v = \<lparr>ie_Type = t, ie_Code = c, ie_Value = v\<rparr>"

definition syn :: InputEvent where "syn = ev EvSyn SynReport 0"

definition press_events :: "u16 \<Rightarrow> InputEvent list" where
  "press_events code = [ev EvKey code 1, syn, ev EvKey code 0, syn]"

definition InjectKeyPress :: "u16 \<Rightarrow> VirtioInput \<Rightarrow> VirtioInput \<times> input_error option" where
  "InjectKeyPress code = InjectEvents (press_events code)"

definition InjectMouseMove :: "u32 \<Rightarrow> u32 \<Rightarrow> VirtioInput \<Rightarrow> VirtioInput \<times> input_error option" where
  "InjectMouseMove dx dy = InjectEvents [ev EvRel RelX dx, ev EvRel RelY dy, syn]"

definition InjectMouseButton :: "u16 \<Rightarrow> bool \<Rightarrow> VirtioInput \<Rightarrow> VirtioInput \<times> input_error option" where
  "InjectMouseButton button pressed = InjectEvents [ev EvKey button (if pressed then 1 else 0), syn]"

definition InjectMouseClick :: "u16 \<Rightarrow> VirtioInput \<Rightarrow> VirtioInput \<times> input_error option" where
  "InjectMouseClick button = InjectEvents (press_events button)"

definition InjectScroll :: "u32 \<Rightarrow> VirtioInput \<Rightarrow> VirtioInput \<times> input_error option" where
  "InjectScroll delta = InjectEvents [ev EvRel RelWheel delta, syn]"

definition InjectAbsMove :: "u32 \<Rightarrow> u32 \<Rightarrow> VirtioInput \<Rightarrow> VirtioInput \<times> input_error option" where
  "InjectAbsMove x y = InjectEvents [ev EvAbs AbsX x, ev EvAbs AbsY y, syn]"

subsection \<open>Text\<close>

definition key_table :: "(nat \<times> u16 \<times> bool) list" where
  "key_table =
  [(0x30, Key0, False), (0x20, KeySpace, False), (0x0A, KeyEnter, False), (0x09, KeyTab, False),
   (0x2D, KeyMinus, False), (0x3D, KeyEqual, False), (0x5B, KeyLeftBrace, False), (0x5D, KeyRightBrace, False),
   (0x5C, KeyBackslash, False), (0x3B, KeySemicolon, False), (0x27, KeyApostrophe, False), (0x60, KeyGrave, False),
   (0x2C, KeyComma, False), (0x2E, KeyDot, False), (0x2F, KeySlash, False), (0x21, Key1, True),
   (0x40, Key2, True), (0x23, Key3, True), (0x24, Key4, True), (0x25, Key5, True),
   (0x5E, Key6, True), (0x26, Key7, True), (0x2A, Key8, True), (0x28, Key9, True),
   (0x29, Key0, True), (0x5F, KeyMinus, True), (0x2B, KeyEqual, True), (0x7B, KeyLeftBrace, True),
   (0x7D, KeyRightBrace, True), (0x7C, KeyBackslash, True), (0x3A, KeySemicolon, True), (0x22, KeyApostrophe, True),
   (0x7E, KeyGrave, True), (0x3C, KeyComma, True), (0x3E, KeyDot, True), (0x3F, KeySlash, True)]"

definition charToKeyCode :: "string \<Rightarrow> u16 \<times> bool" where
  "charToKeyCode piece =
     (case piece of
        [c] \<Rightarrow>
          if within 0x61 0x7A c then (KeyA + word_of_nat (byte_of c - 0x61), False)
          else if within 0x41 0x5A c then (KeyA + word_of_nat (byte_of c - 0x41), True)
          else if within 0x31 0x39 c then (Key1 + word_of_nat (byte_of c - 0x31), False)
          else (case map_of key_table (byte_of c) of None \<Rightarrow> (KeyReserved, False) | Some r \<Rightarrow> r)
      | _ \<Rightarrow> (KeyReserved, False))"

definition type_events :: "u16 \<Rightarrow> bool \<Rightarrow> InputEvent list" where
  "type_events code shift =
     (if shift then [ev EvKey KeyLeftShift 1, syn] else []) @
     [ev EvKey code 1, syn, ev EvKey code 0, syn] @
     (if shift then [ev EvKey KeyLeftShift 0, syn] else [])"

fun type_pieces :: "string list \<Rightarrow> VirtioInput \<Rightarrow> VirtioInput \<times> input_error option" where
  "type_pieces [] d = (d, None)"
| "type_pieces (p # ps) d =
     (case charToKeyCode p of
        (code, shift) \<Rightarrow>
          if code = KeyReserved then type_pieces ps d
          else (case InjectEvents (type_events code shift) d of
                  (d', Some e) \<Rightarrow> (d', Some e)
                | (d', None) \<Rightarrow> type_pieces ps d'))"

definition InjectText :: "string \<Rightarrow> VirtioInput \<Rightarrow> VirtioInput \<times> input_error option" where
  "InjectText text = type_pieces (rune_pieces text)"

subsection \<open>Events out\<close>

definition DrainEvents :: "VirtioInput \<Rightarrow> VirtioInput \<times> InputEvent list" where
  "DrainEvents d =
     (if in_pendingEvents d = [] then (d, [])
      else (d\<lparr>in_pendingEvents := [], in_eventsOut := in_eventsOut d + word_of_nat (length (in_pendingEvents d))\<rparr>,
            in_pendingEvents d))"

definition encode_event :: "InputEvent \<Rightarrow> bytes" where
  "encode_event e = put_le 2 (ie_Type e) @ put_le 2 (ie_Code e) @ put_le 4 (ie_Value e)"

definition EncodeEvents :: "InputEvent list \<Rightarrow> bytes" where
  "EncodeEvents events = concat (map encode_event events)"

definition decode_event :: "bytes \<Rightarrow> nat \<Rightarrow> InputEvent" where
  "decode_event buf off =
     \<lparr>ie_Type = get_le (gslice off (off + 2) buf), ie_Code = get_le (gslice (off + 2) (off + 4) buf),
      ie_Value = get_le (gslice (off + 4) (off + 8) buf)\<rparr>"

definition DecodeEvents :: "bytes \<Rightarrow> input_error + InputEvent list" where
  "DecodeEvents buf =
     (if length buf mod InputEventSize \<noteq> 0 then Inl InBadSize
      else Inr (map (\<lambda>i. decode_event buf (i * InputEventSize)) [0..<length buf div InputEventSize]))"

definition PendingCount :: "VirtioInput \<Rightarrow> nat" where
  "PendingCount d = length (in_pendingEvents d)"

definition in_Stats :: "int \<Rightarrow> VirtioInput \<Rightarrow> InputStats" where
  "in_Stats now d = \<lparr>ist_EventsIn = in_eventsIn d, ist_EventsOut = in_eventsOut d,
     ist_EventsDropped = in_eventsDropped d, ist_Pending = PendingCount d, ist_Timestamp = now\<rparr>"

end
