(* ===== verification/InputClaims.thy ===== *)
theory InputClaims
  imports Input "HOL-Library.Sublist"
begin

text \<open>
  Events reach the guest in the order in which they were accepted, a call is accepted as a
  whole or not at all, and the helpers leave no key pressed; the keys of typed letters are the
  wrong ones.
\<close>

subsection \<open>Encoding\<close>

lemma length_encode_event [simp]: "length (encode_event e) = 8"
  by (simp add: encode_event_def)

lemma decode_event_at:
  assumes "length pre = off"
  shows "decode_event (pre @ encode_event e @ post) off = e"
  using assms by (simp add: decode_event_def encode_event_def gslice_def)

lemma length_EncodeEvents: "length (EncodeEvents es) = length es * 8"
  by (induction es) (simp_all add: EncodeEvents_def)

lemma encode_decode: "DecodeEvents (EncodeEvents es) = Inr es"
proof -
  have "decode_event (EncodeEvents es) (i * 8) = es ! i" if "i < length es" for i
  proof -
    have "EncodeEvents es = EncodeEvents (take i es) @ encode_event (es ! i) @ EncodeEvents (drop (Suc i) es)"
      using that id_take_nth_drop[OF that] unfolding EncodeEvents_def by (metis concat.simps(2) concat_append list.simps(9) map_append)
    then show ?thesis using that by (simp add: decode_event_at length_EncodeEvents)
  qed
  then have "map (\<lambda>i. decode_event (EncodeEvents es) (i * 8)) [0..<length es] = es"
    by (intro nth_equalityI) simp_all
  then show ?thesis by (simp add: DecodeEvents_def length_EncodeEvents InputEventSize_def)
qed

subsection \<open>Order\<close>

datatype InputCall =
    CallEvent InputEvent
  | CallEvents "InputEvent list"
  | CallKey u16
  | CallMove u32 u32
  | CallButton u16 bool
  | CallClick u16
  | CallScroll u32
  | CallAbs u32 u32
  | CallText string
  | CallDrain
  | CallStart

definition drop_error :: "'a \<times> 'e option \<Rightarrow> 'a \<times> InputEvent list" where
  "drop_error r = (fst r, [])"

text \<open>A call, with the events it delivers.\<close>

fun input_call :: "InputCall \<Rightarrow> VirtioInput \<Rightarrow> VirtioInput \<times> InputEvent list" where
  "input_call (CallEvent e) d = drop_error (InjectEvent e d)"
| "input_call (CallEvents es) d = drop_error (InjectEvents es d)"
| "input_call (CallKey c) d = drop_error (InjectKeyPress c d)"
| "input_call (CallMove x y) d = drop_error (InjectMouseMove x y d)"
| "input_call (CallButton b p) d = drop_error (InjectMouseButton b p d)"
| "input_call (CallClick b) d = drop_error (InjectMouseClick b d)"
| "input_call (CallScroll x) d = drop_error (InjectScroll x d)"
| "input_call (CallAbs x y) d = drop_error (InjectAbsMove x y d)"
| "input_call (CallText t) d = drop_error (InjectText t d)"
| "input_call CallDrain d = DrainEvents d"
| "input_call CallStart d = (case in_Start d of Inl _ \<Rightarrow> d | Inr d' \<Rightarrow> d', [])"

fun input_calls :: "InputCall list \<Rightarrow> VirtioInput \<Rightarrow> VirtioInput \<times> InputEvent list" where
  "input_calls [] d = (d, [])"
| "input_calls (c # cs) d =
     (case input_call c d of (d1, out1) \<Rightarrow> case input_calls cs d1 of (d2, out2) \<Rightarrow> (d2, out1 @ out2))"

text \<open>The groups of events a call asks for.\<close>

definition typed_groups :: "string \<Rightarrow> InputEvent list list" where
  "typed_groups t =
     map (\<lambda>p. case charToKeyCode p of (code, shift) \<Rightarrow> type_events code shift)
       (filter (\<lambda>p. fst (charToKeyCode p) \<noteq> KeyReserved) (rune_pieces t))"

fun groups :: "InputCall \<Rightarrow> InputEvent list list" where
  "groups (CallEvent e) = [[e]]"
| "groups (CallEvents es) = [es]"
| "groups (CallKey c) = [press_events c]"
| "groups (CallMove x y) = [[ev EvRel RelX x, ev EvRel RelY y, syn]]"
| "groups (CallButton b p) = [[ev EvKey b (if p then 1 else 0), syn]]"
| "groups (CallClick b) = [press_events b]"
| "groups (CallScroll x) = [[ev EvRel RelWheel x, syn]]"
| "groups (CallAbs x y) = [[ev EvAbs AbsX x, ev EvAbs AbsY y, syn]]"
| "groups (CallText t) = typed_groups t"
| "groups CallDrain = []"
| "groups CallStart = []"

text \<open>What is waiting grew by some of the groups, in order.\<close>

definition grew :: "InputEvent list list \<Rightarrow> VirtioInput \<Rightarrow> VirtioInput \<Rightarrow> bool" where
  "grew gs d d' \<longleftrightarrow>
     (\<exists>acc. subseq acc gs \<and> in_pendingEvents d' = in_pendingEvents d @ concat acc) \<and>
     (length (in_pendingEvents d) \<le> maxPendingEvents \<longrightarrow> length (in_pendingEvents d') \<le> maxPendingEvents)"

lemma grew_none: "grew gs d d"
  unfolding grew_def by (intro conjI exI[of _ "[]"]) simp_all

lemma grew_InjectEvents: "grew [es] d (fst (InjectEvents es d))"
proof (cases "in_running d \<and> length (in_pendingEvents d) + length es \<le> maxPendingEvents")
  case True
  then show ?thesis unfolding grew_def by (intro conjI exI[of _ "[es]"]) (simp_all add: InjectEvents_def)
next
  case False
  then have "in_pendingEvents (fst (InjectEvents es d)) = in_pendingEvents d" by (auto simp: InjectEvents_def)
  then show ?thesis unfolding grew_def by (intro conjI exI[of _ "[]"]) simp_all
qed

lemma InjectEvent_single: "fst (InjectEvent e d) = fst (InjectEvents [e] d)"
  by (auto simp: InjectEvent_def InjectEvents_def)

lemma grew_Start: "grew gs d (d\<lparr>in_running := True\<rparr>)"
  unfolding grew_def by (intro conjI exI[of _ "[]"]) simp_all

lemma grew_trans:
  assumes "grew gs d d1" "grew gs' d1 d2"
  shows "grew (gs @ gs') d d2"
proof -
  from assms obtain a b where "subseq a gs" "in_pendingEvents d1 = in_pendingEvents d @ concat a"
    "subseq b gs'" "in_pendingEvents d2 = in_pendingEvents d1 @ concat b" by (auto simp: grew_def)
  then show ?thesis using assms
    unfolding grew_def by (intro conjI exI[of _ "a @ b"]) (auto simp: list_emb_append_mono)
qed

lemma grew_more: "grew gs d d' \<Longrightarrow> grew (gs @ gs') d d'"
  using grew_trans[OF _ grew_none] .

lemma grew_type: "grew (map (\<lambda>p. case charToKeyCode p of (code, shift) \<Rightarrow> type_events code shift)
    (filter (\<lambda>p. fst (charToKeyCode p) \<noteq> KeyReserved) ps)) d (fst (type_pieces ps d))"
proof (induction ps arbitrary: d)
  case Nil
  show ?case by (simp add: grew_none)
next
  case (Cons p ps)
  obtain code shift where k: "charToKeyCode p = (code, shift)" by force
  show ?case
  proof (cases "code = KeyReserved")
    case True
    with Cons k show ?thesis by simp
  next
    case False
    obtain d1 r where i: "InjectEvents (type_events code shift) d = (d1, r)" by force
    have g: "grew [type_events code shift] d d1" using grew_InjectEvents[of "type_events code shift" d] i by simp
    show ?thesis
    proof (cases r)
      case None
      with grew_trans[OF g Cons.IH[of d1]] i k False show ?thesis by simp
    next
      case (Some e)
      with grew_more[OF g] i k False show ?thesis by simp
    qed
  qed
qed

lemma grew_call: "c \<noteq> CallDrain \<Longrightarrow> grew (groups c) d (fst (input_call c d)) \<and> snd (input_call c d) = []"
  by (cases c)
    (auto simp: drop_error_def InjectEvent_single InjectKeyPress_def InjectMouseMove_def InjectMouseButton_def
      InjectMouseClick_def InjectScroll_def InjectAbsMove_def InjectText_def typed_groups_def grew_type
      in_Start_def grew_none grew_Start intro!: grew_InjectEvents split: sum.split)

lemma calls_in_order:
  "input_calls cs d = (d', out) \<Longrightarrow> length (in_pendingEvents d) \<le> maxPendingEvents \<Longrightarrow>
    \<exists>acc. subseq acc (concat (map groups cs)) \<and> in_pendingEvents d @ concat acc = out @ in_pendingEvents d' \<and>
      length (in_pendingEvents d') \<le> maxPendingEvents"
proof (induction cs arbitrary: d out)
  case Nil
  then show ?case by (intro exI[of _ "[]"]) auto
next
  case (Cons c cs)
  obtain d1 o1 where c: "input_call c d = (d1, o1)" by force
  obtain o2 where cs: "input_calls cs d1 = (d', o2)" and out: "out = o1 @ o2"
    using Cons.prems(1) c by (auto split: prod.splits)
  have "\<exists>a. subseq a (groups c) \<and> in_pendingEvents d @ concat a = o1 @ in_pendingEvents d1 \<and>
      length (in_pendingEvents d1) \<le> maxPendingEvents"
  proof (cases "c = CallDrain")
    case True
    with c Cons.prems(2) show ?thesis
      by (intro exI[of _ "[]"]) (auto simp: DrainEvents_def maxPendingEvents_def split: if_splits)
  next
    case False
    from grew_call[OF False, of d] c Cons.prems(2) show ?thesis by (auto simp: grew_def)
  qed
  then obtain a where a: "subseq a (groups c)" "in_pendingEvents d @ concat a = o1 @ in_pendingEvents d1"
    "length (in_pendingEvents d1) \<le> maxPendingEvents" by blast
  from Cons.IH[OF cs a(3)] obtain b where b: "subseq b (concat (map groups cs))"
    "in_pendingEvents d1 @ concat b = o2 @ in_pendingEvents d'" "length (in_pendingEvents d') \<le> maxPendingEvents" by blast
  have "in_pendingEvents d @ concat (a @ b) = (o1 @ in_pendingEvents d1) @ concat b" using a(2) by simp
  also have "\<dots> = out @ in_pendingEvents d'" using b(2) out by simp
  finally show ?case using a(1) b(1,3) by (intro exI[of _ "a @ b"]) (simp add: list_emb_append_mono)
qed

text \<open>
  C34: The guest gets the events in the order of the calls, and every call whole or not at all
  (of a typed text, every letter): what was drained and what still waits is the events of a
  subsequence of the groups the calls asked for. At most 4096 events wait.
\<close>

theorem input_in_order:
  assumes "NewVirtioInput deviceID cfg = Inr d0" "input_calls cs d0 = (d, out)"
  shows "\<exists>acc. subseq acc (concat (map groups cs)) \<and> out @ in_pendingEvents d = concat acc \<and>
    length (in_pendingEvents d) \<le> 4096"
proof -
  have "in_pendingEvents d0 = []" using assms(1) by (auto simp: NewVirtioInput_def split: if_splits)
  with calls_in_order[OF assms(2)] show ?thesis by (force simp: maxPendingEvents_def)
qed

subsection \<open>Keys\<close>

definition key_step :: "u16 set \<Rightarrow> InputEvent \<Rightarrow> u16 set" where
  "key_step K e = (if ie_Type e \<noteq> EvKey then K else if ie_Value e = 0 then K - {ie_Code e} else insert (ie_Code e) K)"

definition keys_down :: "InputEvent list \<Rightarrow> u16 set" where
  "keys_down es = foldl key_step {} es"

fun whole_strokes :: "InputCall \<Rightarrow> bool" where
  "whole_strokes (CallEvent e) = False"
| "whole_strokes (CallEvents es) = False"
| "whole_strokes (CallButton b p) = False"
| "whole_strokes c = True"

lemma key_step_ev: "key_step K (ev t c v) = (if t \<noteq> EvKey then K else if v = 0 then K - {c} else insert c K)"
  "key_step K syn = K"
  by (simp_all add: key_step_def ev_def syn_def EvKey_def EvSyn_def)

lemma strokes_settle: "whole_strokes c \<Longrightarrow> g \<in> set (groups c) \<Longrightarrow> keys_down g = {}"
  by (cases c)
    (auto simp: keys_down_def key_step_ev press_events_def type_events_def typed_groups_def
      EvKey_def EvRel_def EvAbs_def split: prod.splits if_splits)

lemma settled: "\<forall>g \<in> set gs. keys_down g = {} \<Longrightarrow> keys_down (concat gs) = {}"
  by (induction gs) (simp_all add: keys_down_def)

text \<open>
  C35: No key is left pressed by the helpers that type, click, move and scroll, even when the
  list is full in the middle of a text: once the guest has all that was accepted, every key
  that went down went up.
\<close>

theorem input_no_stuck_keys:
  assumes "NewVirtioInput deviceID cfg = Inr d0" "list_all whole_strokes cs" "input_calls cs d0 = (d, out)"
  shows "keys_down (out @ in_pendingEvents d) = {}"
proof -
  have "in_pendingEvents d0 = []" using assms(1) by (auto simp: NewVirtioInput_def split: if_splits)
  with calls_in_order[OF assms(3)] obtain acc where acc: "subseq acc (concat (map groups cs))"
    "out @ in_pendingEvents d = concat acc" by auto
  have "\<forall>g \<in> set acc. keys_down g = {}"
  proof
    fix g assume "g \<in> set acc"
    then have "subseq [g] acc" by (simp add: subseq_singleton_left)
    from subseq_order.trans[OF this acc(1)] have "g \<in> set (concat (map groups cs))"
      by (simp only: subseq_singleton_left)
    then obtain c where "c \<in> set cs" "g \<in> set (groups c)" by auto
    with assms(2) show "keys_down g = {}" by (intro strokes_settle[of c]) (auto simp: list_all_iff)
  qed
  from settled[OF this] show ?thesis by (simp only: acc(2))
qed

definition demo_keyboard :: VirtioInput where
  "demo_keyboard = projr (NewKeyboard ''kbd'')"

definition demo_typing :: "InputCall list" where
  "demo_typing = [CallStart, CallText ''A!'', CallDrain, CallKey KeyEnter]"

lemma demo_keyboard_new: "NewVirtioInput ''kbd'' (in_config demo_keyboard) = Inr demo_keyboard"
  by (simp add: demo_keyboard_def NewKeyboard_def NewVirtioInput_def)

theorem input_in_order_witness:
  "\<exists>d out acc. input_calls demo_typing demo_keyboard = (d, out) \<and> subseq acc (concat (map groups demo_typing)) \<and>
    out @ in_pendingEvents d = concat acc"
  using input_in_order[OF demo_keyboard_new, of demo_typing] by (metis prod.exhaust)

theorem input_no_stuck_keys_witness:
  "keys_down (snd (input_calls demo_typing demo_keyboard) @ in_pendingEvents (fst (input_calls demo_typing demo_keyboard))) = {}"
  by (rule input_no_stuck_keys[OF demo_keyboard_new, of demo_typing]) (simp_all add: demo_typing_def)

subsection \<open>Letters\<close>

definition letter_keys :: "(char \<times> u16) list" where
  "letter_keys = zip ''abcdefghijklmnopqrstuvwxyz''
     [KeyA, KeyB, KeyC, KeyD, KeyE, KeyF, KeyG, KeyH, KeyI, KeyJ, KeyK, KeyL, KeyM,
      KeyN, KeyO, KeyP, KeyQ, KeyR, KeyS, KeyT, KeyU, KeyV, KeyW, KeyX, KeyY, KeyZ]"

text \<open>
  The key codes of the letters are not in the order of the alphabet, but the table of the
  device counts from the code of A: of all letters only that one is typed.
\<close>

lemma typed_letters: "filter (\<lambda>(c, k). fst (charToKeyCode [c]) = k) letter_keys = [(CHR ''a'', KeyA)]"
  by (simp add: letter_keys_def charToKeyCode_def within_def byte_of_def input_codes)

text \<open>Typing an m presses the shift key.\<close>

lemma typed_m: "charToKeyCode ''m'' = (KeyLeftShift, False)"
  by (simp add: charToKeyCode_def within_def byte_of_def input_codes)

end
