(* ===== verification/PortDevices.thy ===== *)
theory PortDevices
  imports Virtqueue VirtqueueProofs
begin

text \<open>
  The network device (\<^verbatim>\<open>internal/virtio/net.go\<close>). The host side is a TAP device, a record of
  operations on a world; a read that does not return is a result of its own. The state of an
  operation is the device with the world. The goroutine of the receive loop is represented by
  its rounds; \<open>Stop\<close> waits for the round that is under way.
\<close>

subsection \<open>Data\<close>

definition virtioNetHeaderSize :: nat where "virtioNetHeaderSize = 10"

record VirtioNetConfig =
  nc_MAC :: bytes
  nc_Status :: u16
  nc_MaxVirtqueuePairs :: u16

datatype ReadResult = ReadBlocks | ReadError | ReadEnd | ReadData bytes

record 'w TAP =
  tap_Read :: "'w \<Rightarrow> 'w \<times> ReadResult"
  tap_Write :: "bytes \<Rightarrow> 'w \<Rightarrow> 'w \<times> nat option"
  tap_Close :: "'w \<Rightarrow> 'w \<times> bool"

record 'w VirtioNet =
  nt_deviceID :: string
  nt_mac :: bytes
  nt_rxQueue :: "'w Virtqueue option"
  nt_txQueue :: "'w Virtqueue option"
  nt_running :: bool
  nt_stopClosed :: bool
  nt_rxPackets :: u64
  nt_txPackets :: u64
  nt_rxBytes :: u64
  nt_txBytes :: u64

record VirtioNetStats =
  ns_RxPackets :: u64
  ns_TxPackets :: u64
  ns_RxBytes :: u64
  ns_TxBytes :: u64

datatype port_error =
    PortNoHost
  | PortAlreadyRunning
  | PortNotRunning
  | PortNoQueue
  | PortFull
  | PortChain vq_error
  | PortNoBuffer
  | PortMemory string
  | PortTooShort
  | PortHost
  | PortClosedChannel
  | PortNilMemory

type_synonym 'w port_result = "'w Virtqueue \<times> 'w \<times> port_error option"

subsection \<open>Putting data into a chain of the guest\<close>

text \<open>
  The common part of \<^verbatim>\<open>injectRxPacket\<close> and of \<^verbatim>\<open>injectInput\<close> of the console. What does not
  fit is cut off. A queue without memory access panics at the first buffer.
\<close>

definition fill_chain :: "'w Virtqueue \<Rightarrow> DescriptorChain \<Rightarrow> bytes \<Rightarrow> 'w \<Rightarrow> 'w port_result" where
  "fill_chain vq chain payload w =
     (if payload = [] then (case PushUsed vq (dc_HeadIndex chain) 0 w of (vq', w', e) \<Rightarrow> (vq', w', map_option PortChain e))
      else
        (case vq_memWrite vq of
           None \<Rightarrow> (vq, w, Some PortNilMemory)
         | Some wr \<Rightarrow>
             (case write_links wr (dc_Writable chain) payload 0 w of
                (w1, _, Some e) \<Rightarrow> (vq, w1, Some (PortChain e))
              | (w1, written, None) \<Rightarrow>
                  (case PushUsed vq (dc_HeadIndex chain) (word_of_nat written) w1 of
                     (vq', w', e) \<Rightarrow> (vq', w', map_option PortChain e)))))"

definition inject :: "bytes \<Rightarrow> 'w Virtqueue \<Rightarrow> 'w \<Rightarrow> 'w port_result" where
  "inject payload vq w =
     (if \<not> HasAvailable vq then (vq, w, Some PortFull)
      else
        (case PopAvailable vq of
           (vq1, Inl e) \<Rightarrow> (vq1, w, Some (PortChain e))
         | (vq1, Inr chain) \<Rightarrow>
             if dc_Writable chain = [] then (vq1, w, Some PortNoBuffer)
             else fill_chain vq1 chain payload w))"

text \<open>All readable data of a chain; the code reads buffers of length zero too.\<close>

fun gather_links :: "'w mem_read \<Rightarrow> 'w \<Rightarrow> ChainLink list \<Rightarrow> string + bytes" where
  "gather_links rd w [] = Inr []"
| "gather_links rd w (l # ls) =
     (case rd w (cl_Addr l) (cl_Len l) of
        Inl e \<Rightarrow> Inl e
      | Inr b \<Rightarrow> (case gather_links rd w ls of Inl e \<Rightarrow> Inl e | Inr r \<Rightarrow> Inr (b @ r)))"

subsection \<open>The device\<close>

definition generateMAC :: bytes where "generateMAC = [0x02, 0x74, 0x6E, 0x00, 0x00, 0x01]"

definition NewVirtioNet :: "string \<Rightarrow> bytes option \<Rightarrow> bool \<Rightarrow> 'w Virtqueue option \<Rightarrow> 'w Virtqueue option \<Rightarrow>
    port_error + 'w VirtioNet" where
  "NewVirtioNet deviceID mac hasTAP rxQueue txQueue =
     (if \<not> hasTAP then Inl PortNoHost
      else Inr \<lparr>nt_deviceID = deviceID, nt_mac = (case mac of None \<Rightarrow> generateMAC | Some m \<Rightarrow> m),
                nt_rxQueue = rxQueue, nt_txQueue = txQueue, nt_running = False, nt_stopClosed = False,
                nt_rxPackets = 0, nt_txPackets = 0, nt_rxBytes = 0, nt_txBytes = 0\<rparr>)"

definition nt_GetConfig :: "'w VirtioNet \<Rightarrow> VirtioNetConfig" where
  "nt_GetConfig d = \<lparr>nc_MAC = gcopy 0 (take 6 (nt_mac d)) (replicate 6 0), nc_Status = 1, nc_MaxVirtqueuePairs = 1\<rparr>"

definition SerializeNetConfig :: "VirtioNetConfig \<Rightarrow> bytes" where
  "SerializeNetConfig cfg =
     gcopy 8 (put_le 2 (nc_MaxVirtqueuePairs cfg)) (gcopy 6 (put_le 2 (nc_Status cfg))
       (gcopy 0 (take 6 (nc_MAC cfg)) (replicate 12 0)))"

definition nt_Start :: "'w VirtioNet \<Rightarrow> port_error + 'w VirtioNet" where
  "nt_Start d = (if nt_running d then Inl PortAlreadyRunning else Inr (d\<lparr>nt_running := True\<rparr>))"

definition nt_ProcessTx :: "'w TAP \<Rightarrow> DescriptorChain \<Rightarrow> 'w VirtioNet \<times> 'w \<Rightarrow> ('w VirtioNet \<times> 'w) \<times> port_error option" where
  "nt_ProcessTx tap chain s =
     (let (d, w) = s in
      if \<not> nt_running d then (s, Some PortNotRunning)
      else
        (case Option.bind (nt_txQueue d) vq_memRead of
           None \<Rightarrow> (s, Some PortNoQueue)
         | Some rd \<Rightarrow>
             (case gather_links rd w (dc_Readable chain) of
                Inl e \<Rightarrow> (s, Some (PortMemory e))
              | Inr packet \<Rightarrow>
                  if length packet < virtioNetHeaderSize then (s, Some PortTooShort)
                  else
                    (let frame = drop virtioNetHeaderSize packet in
                     if frame = [] then (s, None)
                     else
                       (case tap_Write tap frame w of
                          (w', None) \<Rightarrow> ((d, w'), Some PortHost)
                        | (w', Some n) \<Rightarrow>
                            ((d\<lparr>nt_txPackets := nt_txPackets d + 1, nt_txBytes := nt_txBytes d + word_of_nat n\<rparr>, w'),
                             None))))))"

definition injectRxPacket :: "bytes \<Rightarrow> 'w VirtioNet \<times> 'w \<Rightarrow> ('w VirtioNet \<times> 'w) \<times> port_error option" where
  "injectRxPacket frame s =
     (let (d, w) = s in
      case nt_rxQueue d of
        None \<Rightarrow> (s, Some PortNoQueue)
      | Some vq \<Rightarrow>
          (case inject (replicate virtioNetHeaderSize 0 @ frame) vq w of
             (vq', w', e) \<Rightarrow> ((d\<lparr>nt_rxQueue := Some vq'\<rparr>, w'), e)))"

text \<open>
  What a round of the receive loop does with the result of its read, and whether the loop goes
  on. A nil memory function ends the process.
\<close>

definition rx_round :: "ReadResult \<Rightarrow> 'w VirtioNet \<times> 'w \<Rightarrow> ('w VirtioNet \<times> 'w) \<times> bool" where
  "rx_round r s =
     (case r of
        ReadData frame \<Rightarrow>
          if frame = [] then (s, True)
          else (case injectRxPacket frame s of
                  ((d, w), None) \<Rightarrow>
                    ((d\<lparr>nt_rxPackets := nt_rxPackets d + 1, nt_rxBytes := nt_rxBytes d + word_of_nat (length frame)\<rparr>, w), True)
                | (s', Some _) \<Rightarrow> (s', True))
      | ReadBlocks \<Rightarrow> (s, True)
      | _ \<Rightarrow> (s, nt_running (fst s)))"

definition rxLoop_once :: "'w TAP \<Rightarrow> 'w VirtioNet \<times> 'w \<Rightarrow> ('w VirtioNet \<times> 'w) \<times> bool" where
  "rxLoop_once tap s =
     (if nt_stopClosed (fst s) then (s, False)
      else (case tap_Read tap (snd s) of (w, r) \<Rightarrow> rx_round r (fst s, w)))"

text \<open>
  Stop: the flag, the channel, then the wait for the loop, whose read is under way, and only
  then the TAP device is closed. \<open>None\<close> is a call that does not return.
\<close>

definition nt_Stop :: "'w TAP \<Rightarrow> 'w VirtioNet \<times> 'w \<Rightarrow> (('w VirtioNet \<times> 'w) \<times> port_error option) option" where
  "nt_Stop tap s =
     (let (d, w) = s in
      if \<not> nt_running d then Some (s, None)
      else if nt_stopClosed d then Some ((d\<lparr>nt_running := False\<rparr>, w), Some PortClosedChannel)
      else
        (let d1 = d\<lparr>nt_running := False, nt_stopClosed := True\<rparr> in
         case tap_Read tap w of
           (w1, ReadBlocks) \<Rightarrow> None
         | (w1, r) \<Rightarrow>
             (let (d2, w2) = fst (rx_round r (d1, w1));
                  (w3, ok) = tap_Close tap w2
              in Some ((d2, w3), if ok then None else Some PortHost))))"

definition nt_Stats :: "'w VirtioNet \<Rightarrow> VirtioNetStats" where
  "nt_Stats d = \<lparr>ns_RxPackets = nt_rxPackets d, ns_TxPackets = nt_txPackets d,
     ns_RxBytes = nt_rxBytes d, ns_TxBytes = nt_txBytes d\<rparr>"

text \<open>
  The console device (\<^verbatim>\<open>internal/virtio/console.go\<close>), between a reader and a writer of the
  host. The goroutine that reads the input is represented by its rounds and by a flag that
  says whether it still runs.
\<close>

record 'w Terminal =
  tm_Read :: "'w \<Rightarrow> 'w \<times> ReadResult"
  tm_Write :: "bytes \<Rightarrow> 'w \<Rightarrow> 'w \<times> nat option"

record 'w VirtioConsole =
  co_deviceID :: string
  co_hasInput :: bool
  co_rxQueue :: "'w Virtqueue option"
  co_txQueue :: "'w Virtqueue option"
  co_running :: bool
  co_stopClosed :: bool
  co_reading :: bool
  co_bytesIn :: u64
  co_bytesOut :: u64

record VirtioConsoleStats =
  cs_BytesIn :: u64
  cs_BytesOut :: u64

definition NewVirtioConsole :: "string \<Rightarrow> bool \<Rightarrow> bool \<Rightarrow> 'w Virtqueue option \<Rightarrow> 'w Virtqueue option \<Rightarrow>
    port_error + 'w VirtioConsole" where
  "NewVirtioConsole deviceID hasInput hasOutput rxQueue txQueue =
     (if \<not> hasOutput then Inl PortNoHost
      else Inr \<lparr>co_deviceID = deviceID, co_hasInput = hasInput, co_rxQueue = rxQueue, co_txQueue = txQueue,
                co_running = False, co_stopClosed = False, co_reading = False, co_bytesIn = 0, co_bytesOut = 0\<rparr>)"

definition co_Start :: "'w VirtioConsole \<Rightarrow> port_error + 'w VirtioConsole" where
  "co_Start d =
     (if co_running d then Inl PortAlreadyRunning
      else Inr (d\<lparr>co_running := True, co_reading := co_hasInput d\<rparr>))"

text \<open>Every buffer is written on its own.\<close>

fun write_buffers :: "'w Terminal \<Rightarrow> 'w mem_read \<Rightarrow> ChainLink list \<Rightarrow> 'w VirtioConsole \<times> 'w \<Rightarrow>
    ('w VirtioConsole \<times> 'w) \<times> port_error option" where
  "write_buffers tm rd [] s = (s, None)"
| "write_buffers tm rd (l # ls) s =
     (let (d, w) = s in
      case rd w (cl_Addr l) (cl_Len l) of
        Inl e \<Rightarrow> (s, Some (PortMemory e))
      | Inr buf \<Rightarrow>
          (case tm_Write tm buf w of
             (w', None) \<Rightarrow> ((d, w'), Some PortHost)
           | (w', Some n) \<Rightarrow> write_buffers tm rd ls (d\<lparr>co_bytesOut := co_bytesOut d + word_of_nat n\<rparr>, w')))"

definition co_ProcessTx :: "'w Terminal \<Rightarrow> DescriptorChain \<Rightarrow> 'w VirtioConsole \<times> 'w \<Rightarrow>
    ('w VirtioConsole \<times> 'w) \<times> port_error option" where
  "co_ProcessTx tm chain s =
     (if \<not> co_running (fst s) then (s, Some PortNotRunning)
      else
        (case Option.bind (co_txQueue (fst s)) vq_memRead of
           None \<Rightarrow> (s, Some PortNoQueue)
         | Some rd \<Rightarrow> write_buffers tm rd (dc_Readable chain) s))"

definition injectInput :: "bytes \<Rightarrow> 'w VirtioConsole \<times> 'w \<Rightarrow> ('w VirtioConsole \<times> 'w) \<times> port_error option" where
  "injectInput dat s =
     (let (d, w) = s in
      case co_rxQueue d of
        None \<Rightarrow> (s, Some PortNoQueue)
      | Some vq \<Rightarrow> (case inject dat vq w of (vq', w', e) \<Rightarrow> ((d\<lparr>co_rxQueue := Some vq'\<rparr>, w'), e)))"

definition WriteToGuest :: "bytes \<Rightarrow> 'w VirtioConsole \<times> 'w \<Rightarrow> ('w VirtioConsole \<times> 'w) \<times> port_error option" where
  "WriteToGuest dat s = (if \<not> co_running (fst s) then (s, Some PortNotRunning) else injectInput dat s)"

definition input_round :: "ReadResult \<Rightarrow> 'w VirtioConsole \<times> 'w \<Rightarrow> 'w VirtioConsole \<times> 'w" where
  "input_round r s =
     (case r of
        ReadData dat \<Rightarrow>
          if dat = [] then s
          else (case injectInput dat s of
                  ((d, w), None) \<Rightarrow> (d\<lparr>co_bytesIn := co_bytesIn d + word_of_nat (length dat)\<rparr>, w)
                | (s', Some _) \<Rightarrow> s')
      | ReadBlocks \<Rightarrow> s
      | ReadEnd \<Rightarrow> ((fst s)\<lparr>co_reading := False\<rparr>, snd s)
      | ReadError \<Rightarrow> ((fst s)\<lparr>co_reading := co_running (fst s)\<rparr>, snd s))"

definition inputLoop_once :: "'w Terminal \<Rightarrow> 'w VirtioConsole \<times> 'w \<Rightarrow> 'w VirtioConsole \<times> 'w" where
  "inputLoop_once tm s =
     (if \<not> co_reading (fst s) then s
      else if co_stopClosed (fst s) then ((fst s)\<lparr>co_reading := False\<rparr>, snd s)
      else (case tm_Read tm (snd s) of (w, r) \<Rightarrow> input_round r (fst s, w)))"

text \<open>Stop waits for the read that is under way; \<open>None\<close> is a call that does not return.\<close>

definition co_Stop :: "'w Terminal \<Rightarrow> 'w VirtioConsole \<times> 'w \<Rightarrow> (('w VirtioConsole \<times> 'w) \<times> port_error option) option" where
  "co_Stop tm s =
     (let (d, w) = s in
      if \<not> co_running d then Some (s, None)
      else if co_stopClosed d then Some ((d\<lparr>co_running := False\<rparr>, w), Some PortClosedChannel)
      else
        (let d1 = d\<lparr>co_running := False, co_stopClosed := True\<rparr> in
         if \<not> co_reading d then Some ((d1, w), None)
         else
           (case tm_Read tm w of
              (w1, ReadBlocks) \<Rightarrow> None
            | (w1, r) \<Rightarrow>
                (let (d2, w2) = input_round r (d1, w1) in Some ((d2\<lparr>co_reading := False\<rparr>, w2), None)))))"

definition co_Stats :: "'w VirtioConsole \<Rightarrow> VirtioConsoleStats" where
  "co_Stats d = \<lparr>cs_BytesIn = co_bytesIn d, cs_BytesOut = co_bytesOut d\<rparr>"

text \<open>
  What an injection into a receive queue does to the queue: a chain that was taken is returned
  to the guest only if everything went well.
\<close>

lemma pop_one:
  assumes "PopAvailable vq = (vq', r)" "vq_ready vq" "HasAvailable vq"
  shows "vq_lastAvailIdx vq' = vq_lastAvailIdx vq + 1 \<and> UsedIdx vq' = UsedIdx vq \<and> vq_ready vq'"
  using assms walk_keeps[OF assms(1)] by (auto simp: PopAvailable_eq HasAvailable_def UsedIdx_def split: if_splits)

lemma push_one:
  assumes "PushUsed vq h n w = (vq', w', e)" "vq_ready vq"
  shows "e = None \<and> UsedIdx vq' = UsedIdx vq + 1 \<and> vq_lastAvailIdx vq' = vq_lastAvailIdx vq"
  using assms PushUsed_keeps[OF assms(1)] by (auto simp: PushUsed_def Let_def UsedIdx_def)

lemma fill_accounts:
  assumes "fill_chain vq chain payload w = (vq', w', e)" "vq_ready vq"
  shows "vq_lastAvailIdx vq' = vq_lastAvailIdx vq \<and> UsedIdx vq' = UsedIdx vq + (if e = None then 1 else 0)"
  using assms by (auto simp: fill_chain_def split: if_splits option.splits prod.splits dest!: push_one)

text \<open>
  With a queue that has a chain, every injection consumes one, and a failed one does not give
  it back: neither the guest nor the device will use its buffers again.
\<close>

lemma inject_accounts:
  assumes "inject payload vq w = (vq', w', e)" "vq_ready vq" "HasAvailable vq"
  shows "vq_lastAvailIdx vq' = vq_lastAvailIdx vq + 1 \<and> UsedIdx vq' = UsedIdx vq + (if e = None then 1 else 0)"
proof -
  obtain vq1 r where pop: "PopAvailable vq = (vq1, r)" by force
  note p = pop_one[OF pop assms(2,3)]
  show ?thesis
  proof (cases r)
    case (Inl x)
    with assms(1,3) pop p show ?thesis by (auto simp: inject_def)
  next
    case (Inr chain)
    show ?thesis
    proof (cases "dc_Writable chain = []")
      case True
      with assms(1,3) pop p Inr show ?thesis by (auto simp: inject_def)
    next
      case False
      with assms(1,3) pop Inr have "fill_chain vq1 chain payload w = (vq', w', e)" by (simp add: inject_def)
      from fill_accounts[OF this] p show ?thesis by simp
    qed
  qed
qed

text \<open>
  A frame is counted as received exactly if its chain was given back: a frame that fails costs
  the guest its buffers for good.
\<close>

lemma round_accounts:
  assumes "nt_rxQueue d = Some vq" "vq_ready vq" "HasAvailable vq" "f \<noteq> []"
    "fst (rx_round (ReadData f) (d, w)) = (d', w')" "nt_rxQueue d' = Some vq'"
  shows "vq_lastAvailIdx vq' = vq_lastAvailIdx vq + 1 \<and>
    ((UsedIdx vq' = UsedIdx vq + 1 \<and> nt_rxPackets d' = nt_rxPackets d + 1) \<or>
     (UsedIdx vq' = UsedIdx vq \<and> nt_rxPackets d' = nt_rxPackets d))"
proof -
  obtain vq1 w1 e where i: "inject (replicate virtioNetHeaderSize 0 @ f) vq w = (vq1, w1, e)" by (metis prod_cases3)
  note a = inject_accounts[OF i assms(2,3)]
  show ?thesis using assms(1,4-6) i a
    by (cases e) (auto simp: rx_round_def injectRxPacket_def)
qed

end
