(* ===== verification/Rng.thy ===== *)
theory Rng
  imports Poll Watchdog GoUtf8 VirtqueueProofs BalloonClaims
begin

text \<open>
  The entropy device (\<^verbatim>\<open>internal/virtio/rng.go\<close>). The source of random bytes and the clock are
  operations on the world. The tokens a rate limiter gains over a time, a product in floating
  point that is cut to an integer, are a parameter of the limiter.
\<close>

subsection \<open>Data\<close>

definition rngMaxBytesPerRequest :: int where "rngMaxBytesPerRequest = 4096"
definition rngQueueSize :: int where "rngQueueSize = 64"
definition VirtioRngFRateLimiting :: u64 where "VirtioRngFRateLimiting = 2 ^ 24"

record VirtioRngConfig =
  rc_MaxBytesPerRequest :: int
  rc_RateLimitBytesPerSec :: int
  rc_QueueSize :: int

record rngRateLimiter =
  rl_bytesPerSec :: int
  rl_tokens :: int
  rl_maxTokens :: int
  rl_lastRefill :: int

text \<open>A source is asked for a number of bytes and may return fewer; \<open>None\<close> is an error.\<close>

type_synonym 'w EntropySource = "nat \<Rightarrow> 'w \<Rightarrow> 'w \<times> bytes option"

record 'w VirtioRng =
  rng_deviceID :: string
  rng_config :: VirtioRngConfig
  rng_vq :: "'w Virtqueue"
  rng_running :: bool
  rng_stopClosed :: bool
  rng_rateLimiter :: "rngRateLimiter option"
  rng_entropySource :: "'w EntropySource option"
  rng_bytesProvided :: u64
  rng_reqsCompleted :: u64
  rng_reqsFailed :: u64

record 'w RngHost =
  rh_rand :: "'w EntropySource"
  rh_Now :: "'w \<Rightarrow> 'w \<times> int"
  rh_refill :: "int \<Rightarrow> int \<Rightarrow> int"

record RngStats =
  rs_BytesProvided :: u64
  rs_RequestsComplete :: u64
  rs_RequestsFailed :: u64

record RngDeviceConfig =
  rd_DeviceID :: u32
  rd_VendorID :: u32
  rd_DeviceType :: u32
  rd_NumQueues :: u32

datatype rng_error = RngNoDeviceID | RngQueue vq_error | RngAlreadyRunning string | RngClosedChannel

subsection \<open>Rate limiter\<close>

definition newRngRateLimiter :: "int \<Rightarrow> int \<Rightarrow> rngRateLimiter option" where
  "newRngRateLimiter bytesPerSec now =
     (if bytesPerSec \<le> 0 then None
      else Some \<lparr>rl_bytesPerSec = bytesPerSec, rl_tokens = bytesPerSec, rl_maxTokens = bytesPerSec,
                 rl_lastRefill = now\<rparr>)"

text \<open>The tokens granted; \<open>gained\<close> is what the time since the last refill is worth.\<close>

definition take_tokens :: "int \<Rightarrow> int \<Rightarrow> int \<Rightarrow> rngRateLimiter \<Rightarrow> rngRateLimiter \<times> int" where
  "take_tokens gained now n rl =
     (let rl1 = (if gained > 0
                 then rl\<lparr>rl_tokens := (if rl_tokens rl + gained > rl_maxTokens rl then rl_maxTokens rl
                                       else rl_tokens rl + gained), rl_lastRefill := now\<rparr>
                 else rl)
      in if rl_tokens rl1 \<le> 0 then (rl1, 0)
         else (let n' = (if n > rl_tokens rl1 then rl_tokens rl1 else n)
               in (rl1\<lparr>rl_tokens := rl_tokens rl1 - n'\<rparr>, n')))"

subsection \<open>Construction and lifecycle\<close>

definition NewVirtioRng :: "string \<Rightarrow> VirtioRngConfig \<Rightarrow> int \<Rightarrow> rng_error + 'w VirtioRng" where
  "NewVirtioRng deviceID cfg now =
     (if deviceID = [] then Inl RngNoDeviceID
      else
        (let cfg = cfg\<lparr>rc_MaxBytesPerRequest :=
                         (if rc_MaxBytesPerRequest cfg \<le> 0 then rngMaxBytesPerRequest else rc_MaxBytesPerRequest cfg),
                       rc_QueueSize := (if rc_QueueSize cfg \<le> 0 then rngQueueSize else rc_QueueSize cfg)\<rparr>
         in case device_queue ''requestq'' (rc_QueueSize cfg) of
              Inl e \<Rightarrow> Inl (RngQueue e)
            | Inr vq \<Rightarrow> Inr \<lparr>rng_deviceID = deviceID, rng_config = cfg, rng_vq = vq, rng_running = False,
                rng_stopClosed = False, rng_rateLimiter = newRngRateLimiter (rc_RateLimitBytesPerSec cfg) now,
                rng_entropySource = None, rng_bytesProvided = 0, rng_reqsCompleted = 0, rng_reqsFailed = 0\<rparr>))"

definition rng_Start :: "'w VirtioRng \<Rightarrow> rng_error + 'w VirtioRng" where
  "rng_Start d = (if rng_running d then Inl (RngAlreadyRunning (rng_deviceID d)) else Inr (d\<lparr>rng_running := True\<rparr>))"

definition rng_Stop :: "'w VirtioRng \<Rightarrow> rng_error + 'w VirtioRng" where
  "rng_Stop d =
     (if \<not> rng_running d then Inr d
      else if rng_stopClosed d then Inl RngClosedChannel
      else Inr (d\<lparr>rng_running := False, rng_stopClosed := True\<rparr>))"

definition rng_Configure :: "(string \<rightharpoonup> string) \<Rightarrow> int \<Rightarrow> 'w VirtioRng \<Rightarrow> 'w VirtioRng" where
  "rng_Configure config now d =
     (let d1 = (case Option.bind (config ''max_bytes_per_request'') scan_int of
                  None \<Rightarrow> d
                | Some (n, _) \<Rightarrow>
                    if n > 0 then d\<lparr>rng_config := (rng_config d)\<lparr>rc_MaxBytesPerRequest := n\<rparr>\<rparr> else d)
      in case Option.bind (config ''rate_limit_bytes_per_sec'') scan_int of
           None \<Rightarrow> d1
         | Some (n, _) \<Rightarrow> d1\<lparr>rng_rateLimiter := newRngRateLimiter n now\<rparr>)"

definition rng_Stats :: "'w VirtioRng \<Rightarrow> RngStats" where
  "rng_Stats d = \<lparr>rs_BytesProvided = rng_bytesProvided d, rs_RequestsComplete = rng_reqsCompleted d,
     rs_RequestsFailed = rng_reqsFailed d\<rparr>"

definition rng_NegotiateFeatures :: "'w VirtioRng \<Rightarrow> u64 \<Rightarrow> u64" where
  "rng_NegotiateFeatures d offered = offered AND (if rng_rateLimiter d \<noteq> None then VirtioRngFRateLimiting else 0)"

definition rng_Reset :: "'w VirtioRng \<Rightarrow> rng_error + 'w VirtioRng" where
  "rng_Reset d =
     (if rng_running d \<and> rng_stopClosed d then Inl RngClosedChannel
      else Inr (d\<lparr>rng_running := False, rng_stopClosed := False, rng_bytesProvided := 0, rng_reqsCompleted := 0,
                  rng_reqsFailed := 0, rng_vq := vq_Reset (rng_vq d)\<rparr>))"

definition rng_GetDeviceConfig :: RngDeviceConfig where
  "rng_GetDeviceConfig = \<lparr>rd_DeviceID = 4, rd_VendorID = 0x554E4554, rd_DeviceType = 4, rd_NumQueues = 1\<rparr>"

definition SetEntropySource :: "'w EntropySource option \<Rightarrow> 'w VirtioRng \<Rightarrow> 'w VirtioRng" where
  "SetEntropySource src d = d\<lparr>rng_entropySource := src\<rparr>"

subsection \<open>Requests\<close>

definition rng_failed :: "'w VirtioRng \<Rightarrow> 'w VirtioRng" where
  "rng_failed d = d\<lparr>rng_reqsFailed := rng_reqsFailed d + 1\<rparr>"

text \<open>The size a request is cut to, with the tokens it takes.\<close>

definition allowed_size :: "'w RngHost \<Rightarrow> int \<Rightarrow> 'w VirtioRng \<times> 'w \<Rightarrow> ('w VirtioRng \<times> 'w) \<times> int" where
  "allowed_size env n s =
     (case rng_rateLimiter (fst s) of
        None \<Rightarrow> (s, n)
      | Some rl \<Rightarrow>
          (case rh_Now env (snd s) of
             (w, now) \<Rightarrow>
               (case take_tokens (rh_refill env (now - rl_lastRefill rl) (rl_bytesPerSec rl)) now n rl of
                  (rl', k) \<Rightarrow> (((fst s)\<lparr>rng_rateLimiter := Some rl'\<rparr>, w), k))))"

definition fillChain :: "'w RngHost \<Rightarrow> DescriptorChain \<Rightarrow> 'w VirtioRng \<times> 'w \<Rightarrow> ('w VirtioRng \<times> 'w) \<times> u32" where
  "fillChain env chain s =
     (if dc_Writable chain = [] \<or> dc_TotalWrite chain = 0 then ((rng_failed (fst s), snd s), 0)
      else
        (let totalCap = uint (dc_TotalWrite chain);
             maxBytes = rc_MaxBytesPerRequest (rng_config (fst s));
             n = (if totalCap > maxBytes then maxBytes else totalCap)
         in case allowed_size env n s of
              ((d, w), allowed) \<Rightarrow>
                if allowed = 0 then ((d, w), 0)
                else
                  (let src = (case rng_entropySource d of None \<Rightarrow> rh_rand env | Some f \<Rightarrow> f) in
                   case src (nat allowed) w of
                     (w1, None) \<Rightarrow> ((rng_failed d, w1), 0)
                   | (w1, Some buf) \<Rightarrow>
                       (case WriteChainData (rng_vq d) chain buf w1 of
                          (w2, _, Some _) \<Rightarrow> ((rng_failed d, w2), 0)
                        | (w2, written, None) \<Rightarrow>
                            ((d\<lparr>rng_bytesProvided := rng_bytesProvided d + word_of_nat written,
                                rng_reqsCompleted := rng_reqsCompleted d + 1\<rparr>, w2), word_of_nat written)))))"

definition serve_chain :: "'w RngHost \<Rightarrow> DescriptorChain \<Rightarrow> 'w VirtioRng \<times> 'w \<Rightarrow> 'w VirtioRng \<times> 'w" where
  "serve_chain env chain s =
     (case fillChain env chain s of
        ((d, w), bytesWritten) \<Rightarrow>
          (case PushUsed (rng_vq d) (dc_HeadIndex chain) bytesWritten w of
             (vq, w', e) \<Rightarrow>
               (let d' = d\<lparr>rng_vq := vq\<rparr> in (if e = None then d' else rng_failed d', w'))))"

definition processRequests :: "'w RngHost \<Rightarrow> 'w VirtioRng \<times> 'w \<Rightarrow> ('w VirtioRng \<times> 'w) option" where
  "processRequests env =
     poll_loop (\<lambda>s. rng_vq (fst s)) (\<lambda>vq s. ((fst s)\<lparr>rng_vq := vq\<rparr>, snd s)) (serve_chain env)"

text \<open>
  The entropy device serves every request of a poll, and never gives out more than its
  configuration allows.
\<close>

definition tokens_ok :: "rngRateLimiter \<Rightarrow> bool" where
  "tokens_ok rl \<longleftrightarrow> 0 \<le> rl_tokens rl \<and> rl_tokens rl \<le> rl_maxTokens rl"

lemma take_tokens_ok:
  assumes "take_tokens g now n rl = (rl', k)" "tokens_ok rl" "0 \<le> n"
  shows "tokens_ok rl' \<and> 0 \<le> k \<and> k \<le> n \<and> k \<le> rl_maxTokens rl \<and> rl_maxTokens rl' = rl_maxTokens rl \<and>
    rl_tokens rl' \<le> rl_tokens rl + max 0 g - k"
  using assms by (auto simp: take_tokens_def tokens_ok_def Let_def split: if_splits)

definition rng_ok :: "'w VirtioRng \<Rightarrow> bool" where
  "rng_ok d \<longleftrightarrow> 0 < rc_MaxBytesPerRequest (rng_config d) \<and>
     (case rng_rateLimiter d of None \<Rightarrow> True | Some rl \<Rightarrow> tokens_ok rl)"

lemma newRngRateLimiter_ok: "newRngRateLimiter n now = Some rl \<Longrightarrow> tokens_ok rl"
  by (auto simp: newRngRateLimiter_def tokens_ok_def split: if_splits)

lemma rng_ok_new: "NewVirtioRng i cfg now = Inr d \<Longrightarrow> rng_ok d"
  by (auto simp: NewVirtioRng_def rng_ok_def rngMaxBytesPerRequest_def Let_def
      split: if_splits sum.splits option.splits dest: newRngRateLimiter_ok)

lemma rng_ok_simps [simp]:
  "rng_ok (rng_failed d) = rng_ok d" "rng_ok (d\<lparr>rng_vq := vq\<rparr>) = rng_ok d"
  "rng_ok (d\<lparr>rng_bytesProvided := b, rng_reqsCompleted := c\<rparr>) = rng_ok d"
  by (simp_all add: rng_ok_def rng_failed_def)

lemma rng_failed_simps [simp]:
  "rng_vq (rng_failed d) = rng_vq d" "rng_bytesProvided (rng_failed d) = rng_bytesProvided d"
  by (simp_all add: rng_failed_def)

lemma allowed_size_ok:
  assumes "allowed_size env n s = ((d, w), k)" "rng_ok (fst s)" "0 < n"
  shows "rng_ok d \<and> rng_vq d = rng_vq (fst s) \<and> 0 \<le> k \<and> k \<le> n \<and> rng_bytesProvided d = rng_bytesProvided (fst s)"
  using assms
  by (auto simp: allowed_size_def rng_ok_def split: option.splits prod.splits dest!: take_tokens_ok)

text \<open>A request: the device, the queue and the bytes that are written.\<close>

lemma fillChain_ok:
  assumes "fillChain env chain s = ((d, w), n)" "rng_ok (fst s)"
  shows "rng_ok d \<and> rng_vq d = rng_vq (fst s)"
proof (cases "dc_Writable chain = [] \<or> dc_TotalWrite chain = 0")
  case True
  with assms show ?thesis by (auto simp: fillChain_def)
next
  case False
  let ?m = "rc_MaxBytesPerRequest (rng_config (fst s))" and ?c = "uint (dc_TotalWrite chain)"
  obtain d1 w1 k where a: "allowed_size env (if ?c > ?m then ?m else ?c) s = ((d1, w1), k)" by (metis prod.exhaust)
  have "0 < ?c" using False by (simp add: word_greater_zero_iff flip: uint_0_iff) (metis uint_0_iff uint_ge_0 order_le_less)
  then have pos: "0 < (if ?c > ?m then ?m else ?c)" using assms(2) by (simp add: rng_ok_def)
  note ok = allowed_size_ok[OF a assms(2) pos]
  from assms(1) a False ok show ?thesis
    by (auto simp: fillChain_def Let_def split: if_splits option.splits prod.splits)
qed

lemma serve_frame:
  assumes "rng_ok (fst s)"
  shows "rng_ok (fst (serve_chain env c s))"
    "\<exists>n w. \<exists>e w'. PushUsed (rng_vq (fst s)) (dc_HeadIndex c) n w = (rng_vq (fst (serve_chain env c s)), w', e)"
proof -
  obtain d w n where f: "fillChain env c s = ((d, w), n)" by (metis prod.exhaust)
  obtain vq w' e where p: "PushUsed (rng_vq d) (dc_HeadIndex c) n w = (vq, w', e)" by (metis prod_cases3)
  note ok = fillChain_ok[OF f assms]
  show "rng_ok (fst (serve_chain env c s))" using ok by (auto simp: serve_chain_def f Let_def split: prod.split)
  show "\<exists>n w. \<exists>e w'. PushUsed (rng_vq (fst s)) (dc_HeadIndex c) n w = (rng_vq (fst (serve_chain env c s)), w', e)"
    using ok p by (intro exI[of _ n] exI[of _ w] exI[of _ e] exI[of _ w']) (simp add: serve_chain_def f Let_def)
qed

lemma serve_keeps:
  assumes "rng_ok (fst s)"
  shows "vq_num (rng_vq (fst (serve_chain env c s))) = vq_num (rng_vq (fst s))"
    "vq_descs (rng_vq (fst (serve_chain env c s))) = vq_descs (rng_vq (fst s))"
    "vq_avail (rng_vq (fst (serve_chain env c s))) = vq_avail (rng_vq (fst s))"
    "vq_lastAvailIdx (rng_vq (fst (serve_chain env c s))) = vq_lastAvailIdx (rng_vq (fst s))"
    "vq_ready (rng_vq (fst (serve_chain env c s))) = vq_ready (rng_vq (fst s))"
    "vq_ready (rng_vq (fst s)) \<Longrightarrow>
      UsedIdx (rng_vq (fst (serve_chain env c s))) = UsedIdx (rng_vq (fst s)) + 1"
proof -
  obtain n w e w' where p: "PushUsed (rng_vq (fst s)) (dc_HeadIndex c) n w = (rng_vq (fst (serve_chain env c s)), w', e)"
    using serve_frame(2)[OF assms] by blast
  from PushUsed_keeps[OF p]
  show "vq_num (rng_vq (fst (serve_chain env c s))) = vq_num (rng_vq (fst s))"
    "vq_descs (rng_vq (fst (serve_chain env c s))) = vq_descs (rng_vq (fst s))"
    "vq_avail (rng_vq (fst (serve_chain env c s))) = vq_avail (rng_vq (fst s))"
    "vq_lastAvailIdx (rng_vq (fst (serve_chain env c s))) = vq_lastAvailIdx (rng_vq (fst s))"
    "vq_ready (rng_vq (fst (serve_chain env c s))) = vq_ready (rng_vq (fst s))" by simp_all
  assume "vq_ready (rng_vq (fst s))"
  with p show "UsedIdx (rng_vq (fst (serve_chain env c s))) = UsedIdx (rng_vq (fst s)) + 1" by (rule PushUsed_used)
qed

interpretation rng_poll: poll_device
  "\<lambda>s. rng_vq (fst s)" "\<lambda>vq s. ((fst s)\<lparr>rng_vq := vq\<rparr>, snd s)" "serve_chain env" "\<lambda>s. rng_ok (fst s)" for env
  by unfold_locales (simp_all add: serve_frame(1) serve_keeps)

text \<open>
  A poll ends; the guest gets back every chain that was pending up to the first malformed one,
  and the limits of the device stay intact.
\<close>

lemma rng_serves:
  assumes "rng_ok d" "vq_ready (rng_vq d)"
  shows "\<exists>d' w'. processRequests env (d, w) = Some (d', w') \<and> rng_ok d' \<and>
    UsedIdx (rng_vq d') = UsedIdx (rng_vq d) + of_nat (length (good_chains (rng_vq d)))"
  using rng_poll.poll_served[of "(d, w)" env] assms by (auto simp: processRequests_def)

text \<open>
  One request gets at most what it asks for, at most the configured maximum, and with a rate
  limit at most its burst, if the source of entropy keeps to the size it is asked for.
\<close>

lemma fill_bounded:
  assumes "fillChain env c (d, w) = ((d', w'), n)" "rng_ok d"
    "\<And>k w w' b src. src = (case rng_entropySource d of None \<Rightarrow> rh_rand env | Some f \<Rightarrow> f) \<Longrightarrow>
       src k w = (w', Some b) \<Longrightarrow> length b \<le> k"
  shows "n \<le> dc_TotalWrite c" "uint n \<le> rc_MaxBytesPerRequest (rng_config d)"
    "rng_rateLimiter d = Some rl \<Longrightarrow> uint n \<le> rl_maxTokens rl"
proof -
  let ?m = "rc_MaxBytesPerRequest (rng_config d)" and ?c = "uint (dc_TotalWrite c)"
  let ?n = "if ?c > ?m then ?m else ?c"
  have "uint n \<le> ?c \<and> uint n \<le> ?m \<and> (\<forall>rl. rng_rateLimiter d = Some rl \<longrightarrow> uint n \<le> rl_maxTokens rl)"
  proof (cases "n = 0")
    case True
    then show ?thesis using assms(2) by (auto simp: rng_ok_def tokens_ok_def)
  next
    case False
    then have nz: "\<not> (dc_Writable c = [] \<or> dc_TotalWrite c = 0)" using assms(1) by (auto simp: fillChain_def)
    obtain d1 w1 k where a: "allowed_size env ?n (d, w) = ((d1, w1), k)" by (metis prod.exhaust)
    have "0 < ?c" using nz uint_ge_0[of "dc_TotalWrite c"] by (metis order_le_less uint_0_iff)
    then have pos: "0 < ?n" using assms(2) by (simp add: rng_ok_def)
    note ok = allowed_size_ok[OF a _ pos]
    have src: "rng_entropySource d1 = rng_entropySource d" "\<And>rl. rng_rateLimiter d = Some rl \<Longrightarrow> k \<le> rl_maxTokens rl"
      using a assms(2) pos
      by (auto simp: allowed_size_def rng_ok_def split: option.splits prod.splits dest!: take_tokens_ok)
    obtain b w2 w3 m where b: "(case rng_entropySource d1 of None \<Rightarrow> rh_rand env | Some f \<Rightarrow> f) (nat k) w1 = (w2, Some b)"
      "WriteChainData (rng_vq d1) c b w2 = (w3, m, None)" "n = word_of_nat m"
      using assms(1) a False nz
      by (auto simp: fillChain_def Let_def split: if_splits option.splits prod.splits)
    have "m \<le> length b" using WriteChainData_bound[OF b(2)] by simp
    moreover have "length b \<le> nat k" using assms(3)[OF refl] b(1) src(1) by simp
    ultimately have "m \<le> nat k" by (rule order_trans)
    then have m: "int m \<le> k" using ok assms(2) by (simp add: le_nat_iff)
    have "uint (word_of_nat m :: u32) \<le> int m" by (simp add: uint_word_of_int_eq unsigned_of_nat take_bit_int_def flip: of_nat_mod)
    with m b(3) have "uint n \<le> k" by simp
    moreover have "k \<le> ?c \<and> k \<le> ?m" using ok assms(2) by (simp split: if_splits)
    ultimately show ?thesis using src(2) by (meson order_trans)
  qed
  then show "n \<le> dc_TotalWrite c" "uint n \<le> ?m" "rng_rateLimiter d = Some rl \<Longrightarrow> uint n \<le> rl_maxTokens rl"
    by (simp_all add: word_le_def)
qed

text \<open>
  The queue the constructor makes has no access to the guest's memory, and nothing gives it
  one: a request is then completed with no byte at all, and counted as a success.
\<close>

lemma fill_nothing:
  assumes "vq_memWrite (rng_vq d) = None" "rng_rateLimiter d = None" "0 < rc_MaxBytesPerRequest (rng_config d)"
    "dc_Writable c \<noteq> []" "dc_TotalWrite c \<noteq> 0"
    "(case rng_entropySource d of None \<Rightarrow> rh_rand env | Some f \<Rightarrow> f)
       (nat (min (rc_MaxBytesPerRequest (rng_config d)) (uint (dc_TotalWrite c)))) w = (w1, Some buf)"
  shows "fillChain env c (d, w) = ((d\<lparr>rng_reqsCompleted := rng_reqsCompleted d + 1\<rparr>, w1), 0)"
  using assms by (auto simp: fillChain_def allowed_size_def WriteChainData_def min_def uint_0_iff Let_def
    split: if_splits)

end
