(* ===== verification/Ttl.thy ===== *)
theory Ttl
  imports Manager JsonFile GoUtf8 GoText
begin

text \<open>
  Time to live of sandboxes (\<^verbatim>\<open>internal/sandbox/ttl.go\<close>): an entry per sandbox in a file of
  its own, and the enforcement, which calls the sandbox manager. Its state is that of the
  manager with that of the files. \<^verbatim>\<open>os.ReadDir\<close> of the directory is an argument of the operations
  that list it, an operation on the world, and so is \<^verbatim>\<open>time.ParseDuration\<close>.
\<close>

record TTLEntry =
  tt_Sandbox :: string
  tt_TTL :: string
  tt_SetAt :: int
  tt_ExpiresAt :: int
  tt_Action :: string

type_synonym ('u, 'a) ttl_op = "('u, TTLEntry, 'a) dop"

definition hour_ns :: int where "hour_ns = 3600000000000"

text \<open>A product of durations wraps.\<close>

definition parseTTLDuration :: "(string \<Rightarrow> int option) \<Rightarrow> string \<Rightarrow> int option" where
  "parseTTLDuration parseDuration s =
     (if has_suffix s ''d'' then
        (case scan_int (take (length s - 1) s) of
           None \<Rightarrow> None
         | Some (days, _) \<Rightarrow> if days \<le> 0 then None else Some (int64 (int64 (days * 24) * hour_ns)))
      else
        (case parseDuration s of
           None \<Rightarrow> None
         | Some d \<Rightarrow> if d \<le> 0 then None else Some d))"

definition ttl_text :: "string \<Rightarrow> bytes" where
  "ttl_text s = map (\<lambda>c. word_of_nat (of_char c)) s"

definition ttlDir :: "string \<Rightarrow> bytes" where
  "ttlDir baseDir = Join (ttl_text baseDir) (ttl_text ''ttl'')"

definition dirFile :: "string \<Rightarrow> string \<Rightarrow> string" where
  "dirFile baseDir fileName = map (\<lambda>b. char_of (unat b)) (Join (ttlDir baseDir) (ttl_text fileName))"

definition entryPath :: "string \<Rightarrow> string \<Rightarrow> string" where
  "entryPath baseDir name = dirFile baseDir (name @ ''.json'')"

definition saveEntry :: "'u DiskEnv \<Rightarrow> string \<Rightarrow> TTLEntry \<Rightarrow> ('u, unit) ttl_op" where
  "saveEntry env baseDir e =
     save_file env (map (\<lambda>b. char_of (unat b)) (ttlDir baseDir)) (entryPath baseDir (tt_Sandbox e)) e"

definition loadEntry :: "'u DiskEnv \<Rightarrow> string \<Rightarrow> string \<Rightarrow> ('u, TTLEntry option) ttl_op" where
  "loadEntry env baseDir name =
     bind (attempt (read_file env (entryPath baseDir name))) (\<lambda>r.
     case r of
       Inr e \<Rightarrow> return (Some e)
     | Inl x \<Rightarrow> if x = FileMissing then return None else throw x)"

definition ttl_Set :: "'u DiskEnv \<Rightarrow> (string \<Rightarrow> int option) \<Rightarrow> string \<Rightarrow> string \<Rightarrow> string \<Rightarrow> string \<Rightarrow>
    ('u, TTLEntry) ttl_op" where
  "ttl_Set env parseDuration baseDir name ttlStr action =
     (let act = (if action = [] then ''destroy'' else action) in
      seq (failIf (act \<noteq> ''stop'' \<and> act \<noteq> ''destroy'') (EntryRefused act))
      (bind (orFail (EntryRefused ttlStr) (parseTTLDuration parseDuration ttlStr)) (\<lambda>dur.
       bind (clock env) (\<lambda>now.
       let e = \<lparr>tt_Sandbox = name, tt_TTL = ttlStr, tt_SetAt = now, tt_ExpiresAt = now + dur, tt_Action = act\<rparr> in
       seq (saveEntry env baseDir e) (return e)))))"

definition ttl_Get :: "'u DiskEnv \<Rightarrow> string \<Rightarrow> string \<Rightarrow> ('u, TTLEntry option) ttl_op" where
  "ttl_Get env baseDir name = loadEntry env baseDir name"

definition ttl_Remove :: "'u DiskEnv \<Rightarrow> string \<Rightarrow> string \<Rightarrow> ('u, unit) ttl_op" where
  "ttl_Remove env baseDir name =
     bind (attempt (remove_file env (entryPath baseDir name))) (\<lambda>r.
     case r of
       Inr _ \<Rightarrow> return ()
     | Inl x \<Rightarrow> throw (if x = FileMissing then EntryMissing name else x))"

text \<open>
  What \<^verbatim>\<open>os.ReadDir\<close> may answer: that there is no directory, another error, or the names of
  the entries, each with whether it is a directory itself. Only files that end in \<^verbatim>\<open>.json\<close> are
  read, and those that cannot be read or decoded are left out.
\<close>

datatype Listing = NoDir | DirUnreadable | Listed "(string \<times> bool) list"

type_synonym 'u read_dir = "'u \<Rightarrow> 'u \<times> Listing"

fun read_entries :: "'u DiskEnv \<Rightarrow> string \<Rightarrow> (string \<times> bool) list \<Rightarrow> ('u, TTLEntry list) ttl_op" where
  "read_entries env baseDir [] = return []"
| "read_entries env baseDir ((fileName, isDir) # rest) =
     (if isDir \<or> \<not> has_suffix fileName ''.json'' then read_entries env baseDir rest
      else bind (attempt (read_file env (dirFile baseDir fileName))) (\<lambda>r.
           bind (read_entries env baseDir rest) (\<lambda>es.
           return (case r of Inl _ \<Rightarrow> es | Inr e \<Rightarrow> e # es))))"

definition ttl_List :: "'u DiskEnv \<Rightarrow> 'u read_dir \<Rightarrow> string \<Rightarrow> ('u, TTLEntry list) ttl_op" where
  "ttl_List env readDir baseDir =
     bind (disk_ask readDir) (\<lambda>l.
     case l of
       NoDir \<Rightarrow> return []
     | DirUnreadable \<Rightarrow> throw DirFailed
     | Listed files \<Rightarrow> read_entries env baseDir files)"

definition Expired :: "'u DiskEnv \<Rightarrow> 'u read_dir \<Rightarrow> string \<Rightarrow> ('u, TTLEntry list) ttl_op" where
  "Expired env readDir baseDir =
     bind (ttl_List env readDir baseDir) (\<lambda>entries.
     bind (clock env) (\<lambda>now. return (filter (\<lambda>e. tt_ExpiresAt e < now) entries)))"

definition TimeRemaining :: "'u DiskEnv \<Rightarrow> string \<Rightarrow> string \<Rightarrow> ('u, int) ttl_op" where
  "TimeRemaining env baseDir name =
     bind (loadEntry env baseDir name) (\<lambda>r.
     case r of
       None \<Rightarrow> throw (EntryMissing name)
     | Some e \<Rightarrow> bind (clock env) (\<lambda>now. return (if tt_ExpiresAt e - now < 0 then 0 else tt_ExpiresAt e - now)))"

subsection \<open>Enforcement\<close>

text \<open>One expired entry; the result says whether the sandbox was acted on.\<close>

definition enforce_one :: "('w, 'h) ManagerEnv \<Rightarrow> 'u DiskEnv \<Rightarrow> string \<Rightarrow> TTLEntry \<Rightarrow>
    ('w, 'h) VMManager \<times> ('u, TTLEntry) Disk \<Rightarrow> (('w, 'h) VMManager \<times> ('u, TTLEntry) Disk) \<times> bool" where
  "enforce_one menv denv baseDir e s =
     (let (m, d) = s;
          name = tt_Sandbox e;
          cleared = fst (ttl_Remove denv baseDir name d)
      in case GetVM name m of
           (_, Inl _) \<Rightarrow> ((m, cleared), False)
         | (_, Inr vm) \<Rightarrow>
             if tt_Action e = ''stop'' then
               (if vs_Status vm = VMStatusRunning then
                  (case Stop menv name m of
                     (m', Inl _) \<Rightarrow> ((m', d), False)
                   | (m', Inr _) \<Rightarrow> ((m', cleared), True))
                else ((m, cleared), False))
             else if tt_Action e = ''destroy'' then
               (let m1 = (if vs_Status vm = VMStatusRunning then fst (Stop menv name m) else m) in
                case Destroy menv name m1 of
                  (m', Inl _) \<Rightarrow> ((m', d), False)
                | (m', Inr _) \<Rightarrow> ((m', cleared), True))
             else ((m, d), False))"

fun enforce_all :: "('w, 'h) ManagerEnv \<Rightarrow> 'u DiskEnv \<Rightarrow> string \<Rightarrow> TTLEntry list \<Rightarrow>
    ('w, 'h) VMManager \<times> ('u, TTLEntry) Disk \<Rightarrow> (('w, 'h) VMManager \<times> ('u, TTLEntry) Disk) \<times> string list" where
  "enforce_all menv denv baseDir [] s = (s, [])"
| "enforce_all menv denv baseDir (e # es) s =
     (case enforce_one menv denv baseDir e s of
        (s1, acted) \<Rightarrow>
          (case enforce_all menv denv baseDir es s1 of
             (s2, rest) \<Rightarrow> (s2, if acted then tt_Sandbox e # rest else rest)))"

definition Enforce :: "('w, 'h) ManagerEnv \<Rightarrow> 'u DiskEnv \<Rightarrow> 'u read_dir \<Rightarrow> string \<Rightarrow>
    ('w, 'h) VMManager \<times> ('u, TTLEntry) Disk \<Rightarrow>
    (('w, 'h) VMManager \<times> ('u, TTLEntry) Disk) \<times> (store_error + string list)" where
  "Enforce menv denv readDir baseDir s =
     (case Expired denv readDir baseDir (snd s) of
        (d, Inl e) \<Rightarrow> ((fst s, d), Inl e)
      | (d, Inr expired) \<Rightarrow>
          (case enforce_all menv denv baseDir expired (fst s, d) of (s', acted) \<Rightarrow> (s', Inr acted)))"

end
