(* ===== verification/TtlClaims.thy ===== *)
theory TtlClaims
  imports Ttl ManagerClaims
begin

text \<open>
  What the enforcement does to the sandboxes, derived from the abstract transition system of
  the manager, and what the wrap-around of a duration does.
\<close>

inductive_cases destroy_step: "step (CmdDestroy n) ok (st, run) (st', run')"

lemma stop_frame:
  assumes "step (CmdStop n) ok (st, run) (st', run')" "k \<noteq> n"
  shows "st' k = st k \<and> run' k = run k"
  using assms by (auto elim!: stop_step)

lemma stop_done: "step (CmdStop n) True (st, run) (st', run') \<Longrightarrow> \<exists>vm. st' n = Some vm \<and> vs_Status vm = VMStatusStopped"
  by (erule stop_step) auto

lemma stop_locked: "step (CmdStop n) ok (st, run) (st', run') \<Longrightarrow> st n = Some vm \<Longrightarrow> vs_Locked vm \<Longrightarrow> st' = st \<and> run' = run"
  by (erule stop_step) auto

lemma destroy_frame:
  assumes "step (CmdDestroy n) ok (st, run) (st', run')" "k \<noteq> n"
  shows "st' k = st k \<and> run' k = run k"
  using assms(1) by (rule destroy_step) (use assms(2) stop_frame in \<open>fastforce+\<close>)

lemma destroy_done: "step (CmdDestroy n) True (st, run) (st', run') \<Longrightarrow> st' n = None"
  by (erule destroy_step) auto

lemma destroy_locked:
  assumes "step (CmdDestroy n) ok (st, run) (st', run')" "st n = Some vm" "vs_Locked vm"
  shows "st' = st \<and> run' = run"
  using assms(1) by (rule destroy_step) (use assms(2,3) stop_locked in \<open>fastforce+\<close>)

lemma stop_steps: "Stop env n m = (m', r) \<Longrightarrow>
    step (CmdStop n) (succeeded r) (vmm_state m, vmm_running m) (vmm_state m', vmm_running m')"
  using command_step[of env "CmdStop n" m m' r] by simp

lemma destroy_steps: "Destroy env n m = (m', r) \<Longrightarrow>
    step (CmdDestroy n) (succeeded r) (vmm_state m, vmm_running m) (vmm_state m', vmm_running m')"
  using command_step[of env "CmdDestroy n" m m' r] by simp

subsection \<open>One entry\<close>

definition same_at :: "string \<Rightarrow> ('w, 'h) VMManager \<Rightarrow> ('w, 'h) VMManager \<Rightarrow> bool" where
  "same_at n m m' \<longleftrightarrow> vmm_state m' n = vmm_state m n \<and> vmm_running m' n = vmm_running m n"

definition at_rest :: "string \<Rightarrow> store \<Rightarrow> bool" where
  "at_rest n st \<longleftrightarrow> (case st n of None \<Rightarrow> True | Some vm \<Rightarrow> vs_Status vm = VMStatusStopped)"

definition may_act :: "string \<Rightarrow> ('w, 'h) VMManager \<Rightarrow> bool" where
  "may_act n m \<longleftrightarrow> (\<exists>vm. vmm_state m n = Some vm \<and> \<not> vs_Locked vm)"

lemma same_at_refl [simp]: "same_at n m m"
  by (simp add: same_at_def)

lemma same_at_trans: "same_at n a b \<Longrightarrow> same_at n b c \<Longrightarrow> same_at n a c"
  by (simp add: same_at_def)

lemma Stop_effect:
  assumes "Stop env n m = (m', r)"
  shows "k \<noteq> n \<Longrightarrow> same_at k m m'" "vmm_state m n = Some vm \<Longrightarrow> vs_Locked vm \<Longrightarrow> same_at n m m'"
    "r = Inr () \<Longrightarrow> at_rest n (vmm_state m')"
  using stop_frame[OF stop_steps[OF assms], of k] stop_locked[OF stop_steps[OF assms], of vm] stop_steps[OF assms]
  by (auto simp: same_at_def at_rest_def succeeded_def dest!: stop_done)

lemma destroy_rest:
  assumes "step (CmdDestroy n) ok (st, run) (st', run')" "at_rest n st"
  shows "at_rest n st'"
proof -
  have no_stop: "st1 = st \<and> run1 = run" if "step (CmdStop n) sok (st, run) (st1, run1)" for sok st1 run1
    using that by (rule stop_step) (use assms(2) in \<open>auto simp: at_rest_def\<close>)
  show ?thesis using assms(1)
    by (rule destroy_step) (use assms(2) no_stop in \<open>fastforce simp: at_rest_def\<close>)+
qed

lemma Destroy_effect:
  assumes "Destroy env n m = (m', r)"
  shows "k \<noteq> n \<Longrightarrow> same_at k m m'" "vmm_state m n = Some vm \<Longrightarrow> vs_Locked vm \<Longrightarrow> same_at n m m'"
    "r = Inr () \<Longrightarrow> at_rest n (vmm_state m')" "at_rest n (vmm_state m) \<Longrightarrow> at_rest n (vmm_state m')"
  using destroy_frame[OF destroy_steps[OF assms], of k] destroy_locked[OF destroy_steps[OF assms], of vm]
    destroy_steps[OF assms] destroy_rest[OF destroy_steps[OF assms]]
  by (auto simp: same_at_def at_rest_def succeeded_def dest!: destroy_done)

lemma GetVM_run: "GetVM n m = (m, case vmm_state m n of None \<Rightarrow> Inl (MgrNotFound n) | Some vm \<Rightarrow> Inr vm)"
  by (simp add: GetVM_def bind_def reads_def orFail_def throw_def return_def split: option.split)

lemma enforce_one_effect:
  assumes "enforce_one menv denv dir e (m, d) = ((m', d'), acted)"
  shows "k \<noteq> tt_Sandbox e \<Longrightarrow> same_at k m m'"
    "\<not> may_act (tt_Sandbox e) m \<or> tt_Action e \<notin> {''stop'', ''destroy''} \<Longrightarrow> same_at (tt_Sandbox e) m m'"
    "acted \<or> at_rest (tt_Sandbox e) (vmm_state m) \<Longrightarrow> at_rest (tt_Sandbox e) (vmm_state m')"
proof -
  let ?n = "tt_Sandbox e"
  consider (same) "m' = m" "\<not> acted" | (stop) vm r where "vmm_state m ?n = Some vm" "vs_Status vm = VMStatusRunning"
      "tt_Action e = ''stop''" "Stop menv ?n m = (m', r)" "acted \<longleftrightarrow> r = Inr ()"
    | (destroy) vm m1 r where "vmm_state m ?n = Some vm" "tt_Action e = ''destroy''"
      "m1 = (if vs_Status vm = VMStatusRunning then fst (Stop menv ?n m) else m)"
      "Destroy menv ?n m1 = (m', r)" "acted \<longleftrightarrow> r = Inr ()"
    using assms
    by (auto simp: enforce_one_def GetVM_run Let_def split: option.splits if_splits prod.splits sum.splits)
  note cs = this
  have "(k \<noteq> ?n \<longrightarrow> same_at k m m') \<and>
    (\<not> may_act ?n m \<or> tt_Action e \<notin> {''stop'', ''destroy''} \<longrightarrow> same_at ?n m m') \<and>
    (acted \<or> at_rest ?n (vmm_state m) \<longrightarrow> at_rest ?n (vmm_state m'))"
  proof (cases rule: cs)
    case same
    then show ?thesis by simp
  next
    case (stop vm r)
    with Stop_effect[OF stop(4)] show ?thesis by (auto simp: may_act_def at_rest_def)
  next
    case (destroy vm m1 r)
    have s1: "k \<noteq> ?n \<Longrightarrow> same_at k m m1" "vs_Locked vm \<Longrightarrow> same_at ?n m m1"
      using destroy(1,3) Stop_effect(1,2)[of menv ?n m m1] by (auto simp: prod_eq_iff split: if_splits) (metis Stop_effect prod.collapse)+
    have "same_at ?n m m'" if "vs_Locked vm"
    proof -
      have "vmm_state m1 ?n = Some vm" using s1(2)[OF that] destroy(1) by (simp add: same_at_def)
      from same_at_trans[OF s1(2)[OF that] Destroy_effect(2)[OF destroy(4) this that]] show ?thesis .
    qed
    moreover have "k \<noteq> ?n \<Longrightarrow> same_at k m m'" using s1(1) Destroy_effect(1)[OF destroy(4)] same_at_trans by blast
    moreover have "at_rest ?n (vmm_state m) \<Longrightarrow> m1 = m" using destroy(1,3) by (simp add: at_rest_def)
    ultimately show ?thesis using destroy(1,2,5) Destroy_effect(3,4)[OF destroy(4)] by (auto simp: may_act_def)
  qed
  then show "k \<noteq> ?n \<Longrightarrow> same_at k m m'"
    "\<not> may_act ?n m \<or> tt_Action e \<notin> {''stop'', ''destroy''} \<Longrightarrow> same_at ?n m m'"
    "acted \<or> at_rest ?n (vmm_state m) \<Longrightarrow> at_rest ?n (vmm_state m')" by blast+
qed

subsection \<open>All entries\<close>

lemma enforce_all_effect:
  assumes "enforce_all menv denv dir es (m, d) = ((m', d'), acted)"
  shows "\<not> same_at n m m' \<Longrightarrow> may_act n m \<and> (\<exists>e \<in> set es. tt_Sandbox e = n \<and> tt_Action e \<in> {''stop'', ''destroy''})"
    "n \<in> set acted \<or> at_rest n (vmm_state m) \<Longrightarrow> at_rest n (vmm_state m')"
  using assms
proof (induction es arbitrary: m d acted)
  case Nil
  { case 1 with Nil show ?case by simp }
  { case 2 with Nil show ?case by simp }
next
  case (Cons e es)
  { case 1
    obtain m1 d1 a rest where one: "enforce_one menv denv dir e (m, d) = ((m1, d1), a)"
      and all: "enforce_all menv denv dir es (m1, d1) = ((m', d'), rest)"
      using 1(2) by (auto split: prod.splits)
    note eff = enforce_one_effect[OF one]
    show ?case
    proof (cases "same_at n m m1")
      case True
      then have "\<not> same_at n m1 m'" using 1(1) same_at_trans by blast
      with Cons.IH(1)[OF _ all] True show ?thesis by (auto simp: may_act_def same_at_def)
    next
      case False
      with eff(1,2) show ?thesis by (metis list.set_intros(1))
    qed }
  { case 2
    obtain m1 d1 a rest where one: "enforce_one menv denv dir e (m, d) = ((m1, d1), a)"
      and all: "enforce_all menv denv dir es (m1, d1) = ((m', d'), rest)"
      and acted: "acted = (if a then tt_Sandbox e # rest else rest)"
      using 2(2) by (auto split: prod.splits)
    note eff = enforce_one_effect[OF one]
    have keep: "at_rest n (vmm_state m1)" if "at_rest n (vmm_state m)"
      using that eff(1)[of n] eff(3) by (cases "n = tt_Sandbox e") (auto simp: same_at_def at_rest_def)
    have "n \<in> set rest \<or> at_rest n (vmm_state m1)" using 2(1) acted keep eff(3) by (auto split: if_splits)
    from Cons.IH(2)[OF this all] show ?case . }
qed

lemma read_file_run:
  "\<exists>w r. read_file env path d = (d\<lparr>dk_world := w\<rparr>, r) \<and> (\<forall>e. r = Inr e \<longrightarrow> dk_files d path = Holds e)"
proof -
  obtain w ok where "dh_Read env path (dk_world d) = (w, ok)" by force
  then show ?thesis
    by (cases "dk_files d path")
      (auto simp: read_file_def disk_ask_def bind_def reads_def throw_def return_def)
qed

lemma read_entries_run:
  "\<exists>w es. read_entries env dir files d = (d\<lparr>dk_world := w\<rparr>, Inr es) \<and>
    (\<forall>e \<in> set es. \<exists>path. dk_files d path = Holds e)"
proof (induction files arbitrary: d)
  case Nil
  show ?case by (intro exI[of _ "dk_world d"]) (simp add: return_def)
next
  case (Cons f files)
  obtain fileName isDir where f: "f = (fileName, isDir)" by (cases f)
  show ?case
  proof (cases "isDir \<or> \<not> has_suffix fileName ''.json''")
    case True
    then show ?thesis using Cons[of d] f by simp
  next
    case False
    obtain w r where r: "read_file env (dirFile dir fileName) d = (d\<lparr>dk_world := w\<rparr>, r)"
      "\<forall>e. r = Inr e \<longrightarrow> dk_files d (dirFile dir fileName) = Holds e"
      using read_file_run[of env "dirFile dir fileName" d] by blast
    from Cons[of "d\<lparr>dk_world := w\<rparr>"] obtain w' es where "read_entries env dir files (d\<lparr>dk_world := w\<rparr>) = (d\<lparr>dk_world := w'\<rparr>, Inr es)"
      "\<forall>e \<in> set es. \<exists>path. dk_files d path = Holds e" by auto
    with r f False show ?thesis
      by (cases r) (auto simp: bind_def attempt_def return_def)
  qed
qed

lemma Expired_run:
  assumes "\<And>w. snd (dh_Now env w) \<le> now"
  shows "\<exists>w r. Expired env readDir dir d = (d\<lparr>dk_world := w\<rparr>, r) \<and>
    (case r of
       Inl _ \<Rightarrow> snd (readDir (dk_world d)) = DirUnreadable
     | Inr es \<Rightarrow> snd (readDir (dk_world d)) \<noteq> DirUnreadable \<and>
         (\<forall>e \<in> set es. tt_ExpiresAt e < now \<and> (\<exists>path. dk_files d path = Holds e)))"
proof -
  obtain w l where l: "readDir (dk_world d) = (w, l)" by force
  let ?d = "d\<lparr>dk_world := w\<rparr>"
  show ?thesis
  proof (cases "l = DirUnreadable")
    case True
    then show ?thesis using l by (intro exI[of _ w]) (simp add: Expired_def ttl_List_def bind_def disk_ask_def throw_def)
  next
    case False
    then obtain w1 es where es: "ttl_List env readDir dir d = (d\<lparr>dk_world := w1\<rparr>, Inr es)"
      "\<forall>e \<in> set es. \<exists>path. dk_files d path = Holds e"
    proof (cases l)
      case (Listed files)
      then show ?thesis using that read_entries_run[of env dir files ?d] l
        by (fastforce simp: ttl_List_def bind_def disk_ask_def)
    qed (use that l in \<open>auto simp: ttl_List_def bind_def disk_ask_def return_def\<close>)
    obtain w' t where t: "dh_Now env w1 = (w', t)" by force
    with assms[of w1] have "t \<le> now" by simp
    with es t l False show ?thesis
      by (intro exI[of _ w'] exI[of _ "Inr (filter (\<lambda>e. tt_ExpiresAt e < t) es)"])
        (auto simp: Expired_def bind_def clock_def disk_ask_def return_def)
  qed
qed

text \<open>
  C32: Whatever the host and the disk do, an enforcement changes a sandbox only if the sandbox
  is not locked and an entry on the disk names it, with the action stop or destroy, that had
  expired; and a sandbox that is reported as acted on is gone or stopped in the end. It fails
  exactly when the directory of the entries is there and cannot be read, and then it has
  changed no sandbox and no file.
\<close>

theorem ttl_enforced:
  assumes "Enforce menv denv readDir dir (m, d) = ((m', d'), r)" "\<And>w. snd (dh_Now denv w) \<le> now"
  shows "((vmm_state m' n \<noteq> vmm_state m n \<or> vmm_running m' n \<noteq> vmm_running m n) \<longrightarrow>
      (\<exists>vm path e. vmm_state m n = Some vm \<and> \<not> vs_Locked vm \<and> dk_files d path = Holds e \<and> tt_Sandbox e = n \<and>
         tt_ExpiresAt e < now \<and> tt_Action e \<in> {''stop'', ''destroy''})) \<and>
    (case r of
       Inl _ \<Rightarrow> snd (readDir (dk_world d)) = DirUnreadable \<and> m' = m \<and> dk_files d' = dk_files d
     | Inr acted \<Rightarrow> snd (readDir (dk_world d)) \<noteq> DirUnreadable \<and> (n \<in> set acted \<longrightarrow>
         vmm_state m' n = None \<or> (\<exists>vm. vmm_state m' n = Some vm \<and> vs_Status vm = VMStatusStopped)))"
proof -
  obtain w x where x: "Expired denv readDir dir d = (d\<lparr>dk_world := w\<rparr>, x)"
    "case x of
       Inl _ \<Rightarrow> snd (readDir (dk_world d)) = DirUnreadable
     | Inr es \<Rightarrow> snd (readDir (dk_world d)) \<noteq> DirUnreadable \<and>
         (\<forall>e \<in> set es. tt_ExpiresAt e < now \<and> (\<exists>path. dk_files d path = Holds e))"
    using Expired_run[OF assms(2), of readDir dir d] by blast
  show ?thesis
  proof (cases x)
    case (Inl e)
    then show ?thesis using assms(1) x by (auto simp: Enforce_def)
  next
    case (Inr es)
    obtain acted where all: "enforce_all menv denv dir es (m, d\<lparr>dk_world := w\<rparr>) = ((m', d'), acted)" and r: "r = Inr acted"
      using assms(1) x(1) Inr by (auto simp: Enforce_def split: prod.splits)
    note eff = enforce_all_effect[OF all, of n]
    have "\<not> same_at n m m' \<longrightarrow> (\<exists>vm path e. vmm_state m n = Some vm \<and> \<not> vs_Locked vm \<and> dk_files d path = Holds e \<and>
        tt_Sandbox e = n \<and> tt_ExpiresAt e < now \<and> tt_Action e \<in> {''stop'', ''destroy''})"
      using eff(1) x(2) Inr by (fastforce simp: may_act_def)
    moreover have "n \<in> set acted \<longrightarrow> vmm_state m' n = None \<or> (\<exists>vm. vmm_state m' n = Some vm \<and> vs_Status vm = VMStatusStopped)"
      using eff(2) by (auto simp: at_rest_def split: option.splits)
    ultimately show ?thesis using r x(2) Inr by (auto simp: same_at_def)
  qed
qed

definition demo_listing :: "unit read_dir" where
  "demo_listing w = (w, Listed [(''old'', True), (''box.json'', False)])"

definition demo_clock_disk :: "unit DiskEnv" where
  "demo_clock_disk = \<lparr>dh_Read = (\<lambda>_ w. (w, True)), dh_Write = (\<lambda>_ w. (w, WriteDone)), dh_Remove = (\<lambda>_ w. (w, True)),
     dh_Mkdir = (\<lambda>_ w. (w, True)), dh_Now = (\<lambda>w. (w, 100))\<rparr>"

definition demo_ttls :: "(unit, TTLEntry) Disk" where
  "demo_ttls = \<lparr>dk_files = (\<lambda>_. Holds \<lparr>tt_Sandbox = ''box'', tt_TTL = ''1h'', tt_SetAt = 0, tt_ExpiresAt = 50,
     tt_Action = ''destroy''\<rparr>), dk_world = ()\<rparr>"

lemma demo_enforced:
  "\<exists>m' d'. Enforce calm_env demo_clock_disk demo_listing [] (paused_box, demo_ttls) = ((m', d'), Inr [''box''])"
proof -
  obtain m' where d: "Destroy calm_env ''box'' paused_box = (m', Inr ())" using manager_destroy_paused_witness by blast
  obtain vm where vm: "vmm_state paused_box ''box'' = Some vm" "vs_Status vm \<noteq> VMStatusRunning"
    by (simp add: paused_box_def zero_state_def)
  show ?thesis
    by (simp add: Enforce_def Expired_def ttl_List_def demo_listing_def has_suffix_def enforce_one_def GetVM_run d vm demo_clock_disk_def demo_ttls_def Let_def
        read_file_def disk_ask_def bind_def reads_def attempt_def return_def clock_def)
qed

theorem ttl_enforced_witness:
  "\<exists>m' d'. Enforce calm_env demo_clock_disk demo_listing [] (paused_box, demo_ttls) = ((m', d'), Inr [''box'']) \<and>
    (vmm_state m' ''box'' = None \<or> (\<exists>vm. vmm_state m' ''box'' = Some vm \<and> vs_Status vm = VMStatusStopped))"
proof -
  obtain m' d' where run: "Enforce calm_env demo_clock_disk demo_listing [] (paused_box, demo_ttls) = ((m', d'), Inr [''box''])"
    using demo_enforced by blast
  have "\<And>w. snd (dh_Now demo_clock_disk w) \<le> 100" by (simp add: demo_clock_disk_def)
  from ttl_enforced[OF run this, of "''box''"] run show ?thesis by auto
qed

text \<open>
  The days of a time to live are multiplied without a check: from 106752 days on the product
  wraps, and the sandbox has expired before the entry is written.
\<close>

lemma ttl_wraps: "parseTTLDuration pd ''110000d'' = Some (- 8942744073709551616)"
  by (simp add: parseTTLDuration_def has_suffix_def scan_int_def int64_def hour_ns_def
      is_digit_def within_def byte_of_def digits_value_def white_pieces_def Let_def)

end
