(* ===== verification/Quota.thy ===== *)
theory Quota
  imports JsonFile
begin

text \<open>
  Quotas (\<^verbatim>\<open>internal/sandbox/quota.go\<close>). Numbers are the 64-bit integers of Go, whose sums
  and products wrap.
\<close>

record QuotaConfig =
  qa_MaxSandboxes :: int
  qa_MaxTotalVCPUs :: int
  qa_MaxTotalMemoryMB :: int
  qa_MaxTotalDiskGB :: int
  qa_MaxVCPUsPerSandbox :: int
  qa_MaxMemoryPerSandboxMB :: int
  qa_MaxDiskPerSandboxGB :: int

datatype QuotaLevel = QuotaUnlimited | QuotaExceeded | QuotaWarning | QuotaOk

record QuotaItem =
  qi_Current :: int
  qi_Limit :: int
  qi_Status :: QuotaLevel

record QuotaUsage =
  qu_Sandboxes :: QuotaItem
  qu_TotalVCPUs :: QuotaItem
  qu_TotalMemory :: QuotaItem
  qu_TotalDisk :: QuotaItem

definition zero_quota :: QuotaConfig where
  "zero_quota = \<lparr>qa_MaxSandboxes = 0, qa_MaxTotalVCPUs = 0, qa_MaxTotalMemoryMB = 0, qa_MaxTotalDiskGB = 0,
     qa_MaxVCPUsPerSandbox = 0, qa_MaxMemoryPerSandboxMB = 0, qa_MaxDiskPerSandboxGB = 0\<rparr>"

definition QuotaConfig_Validate :: "QuotaConfig \<Rightarrow> store_error option" where
  "QuotaConfig_Validate cfg =
     (if qa_MaxSandboxes cfg < 0 then Some (EntryRefused ''max_sandboxes'')
      else if qa_MaxTotalVCPUs cfg < 0 then Some (EntryRefused ''max_total_vcpus'')
      else if qa_MaxTotalMemoryMB cfg < 0 then Some (EntryRefused ''max_total_memory_mb'')
      else if qa_MaxTotalDiskGB cfg < 0 then Some (EntryRefused ''max_total_disk_gb'')
      else if qa_MaxVCPUsPerSandbox cfg < 0 then Some (EntryRefused ''max_vcpus_per_sandbox'')
      else if qa_MaxMemoryPerSandboxMB cfg < 0 then Some (EntryRefused ''max_memory_per_sandbox_mb'')
      else if qa_MaxDiskPerSandboxGB cfg < 0 then Some (EntryRefused ''max_disk_per_sandbox_gb'')
      else None)"

definition quotaPath :: string where "quotaPath = ''quota.json''"

definition quota_Get :: "'w DiskEnv \<Rightarrow> ('w, QuotaConfig, QuotaConfig) dop" where
  "quota_Get env =
     bind (attempt (read_file env quotaPath)) (\<lambda>r.
     case r of
       Inr cfg \<Rightarrow> return cfg
     | Inl e \<Rightarrow> if e = FileMissing then return zero_quota else throw e)"

definition quota_Set :: "'w DiskEnv \<Rightarrow> QuotaConfig \<Rightarrow> ('w, QuotaConfig, unit) dop" where
  "quota_Set env cfg =
     (case QuotaConfig_Validate cfg of
        Some e \<Rightarrow> throw e
      | None \<Rightarrow> save_file env ''.'' quotaPath cfg)"

definition quota_Reset :: "'w DiskEnv \<Rightarrow> ('w, QuotaConfig, unit) dop" where
  "quota_Reset env =
     bind (attempt (remove_file env quotaPath)) (\<lambda>r.
     case r of
       Inr _ \<Rightarrow> return ()
     | Inl e \<Rightarrow> if e = FileMissing then return () else throw e)"

text \<open>A violation: which limit, the value and the limit.\<close>

datatype QuotaLimit = LimitSandboxes | LimitVCPUs | LimitMemory | LimitDisk | LimitOneVCPUs | LimitOneMemory | LimitOneDisk

definition over :: "QuotaLimit \<Rightarrow> int \<Rightarrow> int \<Rightarrow> (QuotaLimit \<times> int \<times> int) list" where
  "over what value limit = (if limit > 0 \<and> value > limit then [(what, value, limit)] else [])"

definition CheckCreate :: "QuotaConfig \<Rightarrow> int \<Rightarrow> int \<Rightarrow> int \<Rightarrow> int \<Rightarrow> int \<Rightarrow> int \<Rightarrow> int \<Rightarrow> (QuotaLimit \<times> int \<times> int) list" where
  "CheckCreate cfg currentVMs totalVCPUs totalMemoryMB totalDiskGB newVCPUs newMemoryMB newDiskGB =
     over LimitSandboxes (int64 (currentVMs + 1)) (qa_MaxSandboxes cfg) @
     over LimitVCPUs (int64 (totalVCPUs + newVCPUs)) (qa_MaxTotalVCPUs cfg) @
     over LimitMemory (int64 (totalMemoryMB + newMemoryMB)) (qa_MaxTotalMemoryMB cfg) @
     over LimitDisk (int64 (totalDiskGB + newDiskGB)) (qa_MaxTotalDiskGB cfg) @
     over LimitOneVCPUs newVCPUs (qa_MaxVCPUsPerSandbox cfg) @
     over LimitOneMemory newMemoryMB (qa_MaxMemoryPerSandboxMB cfg) @
     over LimitOneDisk newDiskGB (qa_MaxDiskPerSandboxGB cfg)"

definition quotaStatus :: "int \<Rightarrow> int \<Rightarrow> QuotaLevel" where
  "quotaStatus current limit =
     (if limit \<le> 0 then QuotaUnlimited
      else if current > limit then QuotaExceeded
      else if int64 (current * 100) \<ge> int64 (limit * 80) then QuotaWarning
      else QuotaOk)"

definition quota_item :: "int \<Rightarrow> int \<Rightarrow> QuotaItem" where
  "quota_item current limit = \<lparr>qi_Current = current, qi_Limit = limit, qi_Status = quotaStatus current limit\<rparr>"

definition ComputeUsage :: "QuotaConfig \<Rightarrow> int \<Rightarrow> int \<Rightarrow> int \<Rightarrow> int \<Rightarrow> QuotaUsage" where
  "ComputeUsage cfg sandboxCount totalVCPUs totalMemoryMB totalDiskGB =
     \<lparr>qu_Sandboxes = quota_item sandboxCount (qa_MaxSandboxes cfg),
      qu_TotalVCPUs = quota_item totalVCPUs (qa_MaxTotalVCPUs cfg),
      qu_TotalMemory = quota_item totalMemoryMB (qa_MaxTotalMemoryMB cfg),
      qu_TotalDisk = quota_item totalDiskGB (qa_MaxTotalDiskGB cfg)\<rparr>"

subsection \<open>Creation and usage agree\<close>

definition half_range :: "int \<Rightarrow> bool" where
  "half_range n \<longleftrightarrow> 0 \<le> n \<and> n < 2 ^ 55"

text \<open>
  For amounts below \<open>2 ^ 55\<close>, where nothing wraps: a sandbox that is admitted is within the
  limits for one sandbox and leaves no total exceeded, and one that is refused would break one
  of them.
\<close>

lemma admitted_iff:
  assumes "half_range n" "half_range c" "half_range m" "half_range d" "half_range c'" "half_range m'" "half_range d'"
  shows "CheckCreate cfg n c m d c' m' d' = [] \<longleftrightarrow>
    (let u = ComputeUsage cfg (n + 1) (c + c') (m + m') (d + d')
     in qi_Status (qu_Sandboxes u) \<noteq> QuotaExceeded \<and> qi_Status (qu_TotalVCPUs u) \<noteq> QuotaExceeded \<and>
        qi_Status (qu_TotalMemory u) \<noteq> QuotaExceeded \<and> qi_Status (qu_TotalDisk u) \<noteq> QuotaExceeded \<and>
        quotaStatus c' (qa_MaxVCPUsPerSandbox cfg) \<noteq> QuotaExceeded \<and>
        quotaStatus m' (qa_MaxMemoryPerSandboxMB cfg) \<noteq> QuotaExceeded \<and>
        quotaStatus d' (qa_MaxDiskPerSandboxGB cfg) \<noteq> QuotaExceeded)"
proof -
  have small: "int64 (n + 1) = n + 1" "int64 (c + c') = c + c'" "int64 (m + m') = m + m'" "int64 (d + d') = d + d'"
    using assms by (simp_all add: half_range_def int64_id)
  have "over w v l = [] \<longleftrightarrow> quotaStatus v l \<noteq> QuotaExceeded" for w v l
    by (simp add: over_def quotaStatus_def)
  then show ?thesis by (simp add: CheckCreate_def ComputeUsage_def quota_item_def small Let_def)
qed

end
