(* ===== verification/Spec2Isabelle.thy ===== *)
theory Spec2Isabelle
  imports VirtqueueClaims WatchdogProofs BalloonClaims VsockClaims BlockClaims DhcpClaims GptClaims Qcow2Theorems ComposeRun ComposeHealthClaims EnvFileClaims VirtioFsClaims MemTheorems MemSearch MemText ScheduleClaims PoolClaims ForwardClaims PolicyClaims DnsClaims InputClaims PortDevices Rng TtlClaims Quota
begin

text \<open>
  A verification library of the two Go programs of this repository: \<^verbatim>\<open>tent\<close>, a microVM tool
  (\<^verbatim>\<open>archive/project-mytool\<close>; its paths below start there), and the memory server of its agents
  (\<^verbatim>\<open>memory/mem9/mnemo-server\<close>). The tool keeps sandboxes: a sandbox is a virtual machine
  with emulated devices, a disk, a network address and a record in a state file. A compose
  file describes a group of sandboxes that are started together. The memory server keeps
  facts about a user in a table, with a language model that decides what to add and replace.

  \<^bold>\<open>Conventions.\<close> A Go struct is a record whose fields carry a short prefix, an enum or an
  error set a datatype, a fixed-width integer a word, \<^verbatim>\<open>int\<close> an integer (with the wrap-around
  of \<^verbatim>\<open>int64\<close> written out where a value of the caller can reach it), a byte slice a list of
  bytes, a map a partial function or, where the code iterates over it, an association list
  whose order stands for the order of that iteration. Errors are the left side of a sum. A
  panic of the Go runtime (nil dereference, index out of range, closing a closed channel,
  division by zero) is an error value of its own. A loop over data is a recursive function;
  a loop that may not end has fuel or is a partial function, and the bound that suffices is
  proved. What the code reaches outside the program (the host's files, network, hypervisor,
  clock and random numbers, the guest's memory) is a parameter: a record of operations on a
  world of arbitrary type, so that every theorem holds whatever these operations return. A
  theorem that needs their documented behaviour has it as a named hypothesis.

  \<^bold>\<open>Shared theories.\<close> \<open>Prelude\<close>: words, slices, the encodings of \<^verbatim>\<open>encoding/binary\<close>.
  \<open>Interfaces\<close>: the locales between components (byte stores, queue providers).
  \<open>Effects\<close>: operations that change a state and may fail, with a validity judgement whose
  rules take an operation apart. \<open>GoFile\<close>, \<open>GoText\<close>: the used part of \<^verbatim>\<open>os.File\<close>,
  \<^verbatim>\<open>path/filepath\<close> and string formatting. \<open>GoUtf8\<close>: text and numbers as Go reads them. \<open>JsonFile\<close>: state
  that is kept in JSON files, with reads and writes that may fail.

  \<^bold>\<open>Virtqueues\<close> (\<^verbatim>\<open>internal/virtio/virtqueue.go\<close>; \<open>Virtqueue\<close>, \<open>VirtqueueProofs\<close>,
  \<open>VirtqueueRings\<close>, \<open>VirtqueueClaims\<close>). The descriptor table and the two
  rings. Every chain that is popped was posted by the driver, is free of cycles and stays
  inside the table; buffers come in the order in which they were made available, and used
  elements go out in the order in which they were pushed, across the wrap-around of the
  16-bit indices; a queue never loses its layout. The walk of a chain is bounded by the
  queue size. \<open>Poll\<close> is the loop with which the devices serve a queue.

  \<^bold>\<open>Devices\<close> on the virtqueue: the watchdog (\<open>Watchdog\<close>, \<open>WatchdogProofs\<close>: timer bounds,
  commands), the balloon (\<open>Balloon\<close>, \<open>BalloonClaims\<close>: the set of pages the
  guest gave up), the stream socket device (\<open>Vsock\<close>, \<open>VsockProofs\<close>, \<open>VsockClaims\<close>: connection
  table, order of bytes; connections are references into a store because host code keeps
  pointers, and a call that works before it takes the lock of the table is two parts,
  \<open>vs_enter\<close> and \<open>vs_leave\<close>, between which other calls run) and the block device (\<open>Block\<close>, \<open>BlockClaims\<close>: requests against a
  backing file). \<open>Rng\<close> (\<^verbatim>\<open>rng.go\<close>) answers each request with bytes of the host's source, within
  the rate that is configured; \<open>PortDevices\<close> (\<^verbatim>\<open>net.go\<close>, \<^verbatim>\<open>console.go\<close>) moves packets and text
  between the host and chains of the guest, through one injection routine; \<open>Input\<close>
  (\<^verbatim>\<open>input.go\<close>) queues keyboard, mouse and tablet events, which \<open>InputClaims\<close> shows to be handed
  out whole and in order. Each theory has the state, all operations and the request path.

  The shared directory device (\<open>VirtioFs\<close>, \<open>VirtioFsProofs\<close>, \<open>VirtioFsClaims\<close>;
  \<^verbatim>\<open>internal/virtio/fs.go\<close>) is a FUSE server with 22 requests over a table of nodes and a
  table of open handles; the host's file system is the parameter \<open>HostEnv\<close>. That no request
  leaves the shared directory is stated by changing the host at the paths the device's own
  check refuses: nothing changes. (The check resolves the directory of a path; where that
  fails it compares the path as it is written.) The table invariant has room for the node counter, a
  listing needs at most one request more than the directory has entries, and the requests
  that make the server panic are characterised.

  \<^bold>\<open>Disk formats\<close> (\<^verbatim>\<open>internal/storage/qcow2.go\<close>, \<^verbatim>\<open>gpt.go\<close>). \<open>Qcow2\<close> has the header, the two
  table levels with their cache, cluster and byte access through a chain of backing images,
  creation, opening and conversion; \<open>Qcow2Proofs\<close> to \<open>Qcow2Theorems\<close> show that an image is a
  vector of bytes which WriteAt overlays and ReadAt reads, that writes never touch the
  backing images, and that conversion keeps the contents. \<open>Gpt\<close>, \<open>GptClaims\<close>: a
  created partition table is read back as laid out, and partitions do not overlap.

  \<^bold>\<open>Addresses\<close> (\<^verbatim>\<open>internal/network/dhcp.go\<close>; \<open>Dhcp\<close>, \<open>DhcpClaims\<close>). No two
  clients hold the same address, allocation scans the range once, replies can be parsed.
  The name server (\<^verbatim>\<open>dns.go\<close>; \<open>Dns\<close>, \<open>DnsClaims\<close>) answers a query for a registered sandbox
  with its address, in a packet that a resolver reads back.

  \<^bold>\<open>Sandboxes\<close> (\<^verbatim>\<open>pkg/models/types.go\<close>, \<^verbatim>\<open>internal/state/state.go\<close>,
  \<^verbatim>\<open>internal/sandbox/manager.go\<close>, \<^verbatim>\<open>device.go\<close> and \<^verbatim>\<open>hooks.go\<close>). \<open>Models\<close> holds the data and its
  validation, \<open>Manager\<close> the state store and every operation of the manager that writes it, the
  life cycle, import, the restore of a checkpoint, IP discovery and devices among them, over
  the environment \<open>ManagerEnv\<close>;
  \<open>ManagerProofs\<close> computes what an operation may touch, \<open>ManagerSpec\<close> gives an abstract
  transition relation on the recorded statuses and shows that every command refines it, and
  \<open>ManagerClaims\<close> has the invariants (locks, tracked instances) and the error paths.

  \<^bold>\<open>Around a sandbox\<close>. \<open>Schedule\<close> (\<^verbatim>\<open>internal/sandbox/schedule.go\<close>) has the file of scheduled
  actions and the time of the next run, which \<open>ScheduleClaims\<close> shows to be the first instant
  that fits. \<open>Pool\<close> (\<^verbatim>\<open>pool.go\<close>) has the pools of sandboxes made in advance; \<open>PoolClaims\<close>: a pool
  stays within its size whatever fails, and a sandbox is claimed once. \<open>Forward\<close>
  (\<^verbatim>\<open>internal/network/portforward.go\<close>) has the rules and listeners of the port forwarder;
  \<open>ForwardClaims\<close>: a port of the host belongs to one sandbox, and removing a forward may close
  the listener of another one. \<open>Policy\<close> (\<^verbatim>\<open>internal/network/policy.go\<close>) has the table of
  endpoint policies, their lists as slices over a store of arrays because \<^verbatim>\<open>SetPolicy\<close> keeps the
  slices of its caller; \<open>PolicyClaims\<close> refines a specification with two sets per sandbox as long
  as no two policies share an array, and shows that a clone does share them.
  \<open>Ttl\<close> (\<^verbatim>\<open>internal/sandbox/ttl.go\<close>) ends sandboxes whose time is over with the operations of
  \<open>Manager\<close>, and \<open>TtlClaims\<close> says which sandboxes it touches, or that an unreadable directory
  stops it before the first; \<open>Quota\<close> (\<^verbatim>\<open>quota.go\<close>) has the limits
  and their check.

  \<^bold>\<open>Compose\<close> (\<^verbatim>\<open>internal/compose\<close>). \<open>Compose\<close> holds the configuration, inheritance, validation,
  cycle detection (recursion depth at most the number of sandboxes plus one, which is the
  fuel) and the start order; \<open>ComposeProofs\<close>, \<open>ComposeClaims\<close> show that the
  order is a topological one and that inheritance computes a recursive specification.
  \<open>EnvFile\<close> is the env-file scanner, with the Unicode blanks that Go trims. \<open>ComposeEngine\<close> has
  Up, Down, Restart and Exec over the environment \<open>ComposeEnv\<close>; its state carries a ghost list
  of the calls of the sandbox manager and of the saved statuses, and \<open>ComposeUp\<close> shows in which order the calls of both come. The contract
  between engine and manager is the locale \<open>vm_backend\<close> of \<open>ComposeBackend\<close>; \<open>ComposeRun\<close>
  interprets it with the manager and states what Up does to the recorded sandboxes.
  \<open>ComposeHealth\<close> is the health monitor with one goroutine per service as a labelled step
  relation; \<open>ComposeHealthClaims\<close> has what its table says after any interleaving and that a
  failing service is restarted again and again.

  \<^bold>\<open>Memory server\<close> (\<^verbatim>\<open>server/internal/repository/tidb/memory.go\<close>,
  \<^verbatim>\<open>service/ingest.go\<close> and \<^verbatim>\<open>service/memory.go\<close>). \<open>MemRepo\<close> has the table as the list of its rows and each statement as a function on them; a statement
  is answered, refused, or carried out without an answer, as the environment says. \<open>MemIngest\<close>
  is the pipeline from a conversation to changes of the table: the cleaning of messages, the
  extraction of facts, the search for memories they concern and the reconciliation, whatever
  the model answers. \<open>MemService\<close> has the operations of the service and the ranking of search
  results. \<open>MemProofs\<close> and \<open>MemHistory\<close> compute what an operation may do to the
  table; \<open>MemTheorems\<close> has the reachable tables and shows that an ingest only adds and
  retires, that successors lead forward, that an outage writes nothing and that an update of
  the labels erases the embedding; \<open>MemSearch\<close> that a page is a slice of one ranking; \<open>MemText\<close>
  when the cleaning of a message ends, and when it does not.

  \<^bold>\<open>Not modelled.\<close> Command line and guest agent (flag parsing and printing), hypervisor
  bindings, the display and agent devices (drawing, and a pipe to a program in the guest), host
  networking and image downloads (calls of other programs and services; their results are
  fields of the environments), log and metric files; of the memory server the HTTP handlers,
  raw session messages, uploads, tenants, the text of the prompts, the other databases, and
  the text of an age, which rounds through floating point hours. Locks are not modelled as
  such: an operation that holds the lock of its component throughout is one step, and where
  the code releases it in between (the health monitor, the stream socket device) the steps
  are separate. The service runs its two searches at the same time; they only read, and the
  model runs them one after the other.
\<close>

end
